(* ===== verification/Prelude.thy ===== *)
theory Prelude
  imports Complex_Main "HOL-Library.AList"
begin

text \<open>
  Shared vocabulary of the development: JavaScript numbers (idealised as reals), strings as
  lists of code units below 256, arrays read and spliced by index, objects as association lists
  in insertion order, and JSON values.  The generic lemmas on these are collected in
  \<open>js_simps\<close>; \<open>alist_simps\<close> holds the laws of association lists with distinct keys.
\<close>

named_theorems js_simps "arrays, strings and numbers as the code uses them"
named_theorems alist_simps "objects as association lists with distinct keys"
named_theorems wf_intros "introduction rules for the well-formedness invariants"

section \<open>Numbers\<close>

text \<open>
  A JavaScript number is a real here: rounding of IEEE doubles is not modelled, and the values
  NaN and Infinity only occur as \<open>None\<close> of an optional number where the code can produce
  them (\<open>Number(undefined)\<close>, a player that reports an infinite duration).
\<close>

type_synonym jsnum = real

definition js_round :: "jsnum \<Rightarrow> int" where
  "js_round x = \<lfloor>x + 1 / 2\<rfloor>"

definition js_floor :: "jsnum \<Rightarrow> jsnum" where
  "js_floor x = of_int \<lfloor>x\<rfloor>"

text \<open>\<open>Number(x)\<close> of an optional field followed by the finite and positive test.\<close>

definition finite_pos :: "jsnum option \<Rightarrow> jsnum option" where
  "finite_pos x = (case x of None \<Rightarrow> None | Some v \<Rightarrow> if v > 0 then Some v else None)"

lemma finite_pos_simps [js_simps, simp]:
  "finite_pos None = None"
  "finite_pos (Some v) = (if v > 0 then Some v else None)"
  by (simp_all add: finite_pos_def)

lemma finite_pos_SomeD: "finite_pos x = Some v \<Longrightarrow> x = Some v \<and> 0 < v"
  by (cases x) (auto split: if_splits)

lemma js_floor_le [js_simps]: "js_floor x \<le> x"
  by (simp add: js_floor_def)

lemma js_round_near: "\<bar>of_int (js_round x) - x\<bar> \<le> 1 / 2"
  unfolding js_round_def by linarith

section \<open>Arrays\<close>

text \<open>\<open>xs[i]\<close>: out of range (negative too) the code reads \<open>undefined\<close>.\<close>

definition js_nth :: "'a list \<Rightarrow> int \<Rightarrow> 'a option" where
  "js_nth xs i = (if 0 \<le> i \<and> i < int (length xs) then Some (xs ! nat i) else None)"

text \<open>\<open>xs.findIndex(p)\<close>, with \<open>None\<close> for the code's \<open>-1\<close>.\<close>

fun find_index :: "('a \<Rightarrow> bool) \<Rightarrow> 'a list \<Rightarrow> nat option" where
  "find_index p [] = None"
| "find_index p (x # xs) = (if p x then Some 0 else map_option Suc (find_index p xs))"

text \<open>\<open>xs.splice(i, 1)\<close> and \<open>xs.splice(i, 0, x)\<close>.\<close>

definition remove_at :: "nat \<Rightarrow> 'a list \<Rightarrow> 'a list" where
  "remove_at i xs = take i xs @ drop (Suc i) xs"

definition insert_at :: "nat \<Rightarrow> 'a \<Rightarrow> 'a list \<Rightarrow> 'a list" where
  "insert_at i x xs = take i xs @ x # drop i xs"

text \<open>\<open>xs.slice(-n)\<close> for positive \<open>n\<close>: the last \<open>n\<close> elements.\<close>

definition slice_last :: "nat \<Rightarrow> 'a list \<Rightarrow> 'a list" where
  "slice_last n xs = drop (length xs - n) xs"

lemma js_nth_Some_iff [js_simps]:
  "js_nth xs i = Some x \<longleftrightarrow> 0 \<le> i \<and> i < int (length xs) \<and> xs ! nat i = x"
  by (auto simp: js_nth_def)

lemma js_nth_in_set: "js_nth xs i = Some x \<Longrightarrow> x \<in> set xs"
  by (auto simp: js_nth_def nat_less_iff split: if_splits)

lemma js_nth_int [js_simps]: "i < length xs \<Longrightarrow> js_nth xs (int i) = Some (xs ! i)"
  by (simp add: js_nth_def)

lemma js_nth_map: "js_nth (map f xs) i = map_option f (js_nth xs i)"
  by (simp add: js_nth_def nat_less_iff)

lemma find_index_Some_iff:
  "find_index p xs = Some i \<longleftrightarrow> i < length xs \<and> p (xs ! i) \<and> (\<forall>j<i. \<not> p (xs ! j))"
proof (induction xs arbitrary: i)
  case Nil
  then show ?case by simp
next
  case (Cons x xs)
  show ?case
  proof (cases i)
    case 0
    then show ?thesis by auto
  next
    case (Suc k)
    have "(\<forall>j<Suc k. \<not> p ((x # xs) ! j)) \<longleftrightarrow> \<not> p x \<and> (\<forall>j<k. \<not> p (xs ! j))"
      by (auto simp: less_Suc_eq_0_disj)
    with Cons.IH Suc show ?thesis by auto
  qed
qed

lemma find_index_None_iff: "find_index p xs = None \<longleftrightarrow> (\<forall>x\<in>set xs. \<not> p x)"
  by (induction xs) auto

lemma find_index_map: "find_index p (map f xs) = find_index (p \<circ> f) xs"
  by (induction xs) auto

lemma find_find_index: "find p xs = map_option (\<lambda>i. xs ! i) (find_index p xs)"
  by (induction xs) (auto simp: option.map_comp comp_def)

lemma length_remove_at [simp, js_simps]: "i < length xs \<Longrightarrow> length (remove_at i xs) = length xs - 1"
  by (simp add: remove_at_def)

lemma length_insert_at [simp, js_simps]: "i \<le> length xs \<Longrightarrow> length (insert_at i x xs) = Suc (length xs)"
  by (simp add: insert_at_def)

lemma length_slice_last [simp, js_simps]: "length (slice_last n xs) = min n (length xs)"
  by (simp add: slice_last_def min_def)

lemma set_remove_at_subset: "set (remove_at i xs) \<subseteq> set xs"
  by (auto simp: remove_at_def dest: in_set_takeD in_set_dropD)

lemma set_slice_last_subset: "set (slice_last n xs) \<subseteq> set xs"
  by (auto simp: slice_last_def dest: in_set_dropD)

lemma map_remove_at: "map f (remove_at i xs) = remove_at i (map f xs)"
  by (simp add: remove_at_def take_map drop_map)

lemma map_insert_at: "map f (insert_at i x xs) = insert_at i (f x) (map f xs)"
  by (simp add: insert_at_def take_map drop_map)

lemma distinct_remove_at: "distinct xs \<Longrightarrow> distinct (remove_at i xs)"
  unfolding remove_at_def
  by (metis append_take_drop_id distinct_append set_take_disj_set_drop_if_distinct
      distinct_take distinct_drop le_SucI order_refl)

lemma remove_at_split:
  assumes "i < length xs"
  obtains ys zs where "xs = ys @ xs ! i # zs" "length ys = i" "remove_at i xs = ys @ zs"
proof
  show "xs = take i xs @ xs ! i # drop (Suc i) xs"
    using assms by (rule id_take_nth_drop)
  show "length (take i xs) = i" using assms by simp
  show "remove_at i xs = take i xs @ drop (Suc i) xs" by (simp add: remove_at_def)
qed

lemma set_insert_at [js_simps]: "set (insert_at i x xs) = insert x (set xs)"
  by (metis insert_at_def append_take_drop_id set_append list.set(2) Un_insert_right)

lemma distinct_insert_at: "distinct xs \<Longrightarrow> x \<notin> set xs \<Longrightarrow> distinct (insert_at i x xs)"
  unfolding insert_at_def
  by (auto simp: set_take_disj_set_drop_if_distinct dest: in_set_takeD in_set_dropD)

lemma nth_insert_at_same [js_simps]: "i \<le> length xs \<Longrightarrow> insert_at i x xs ! i = x"
  by (simp add: insert_at_def nth_append)

lemma nth_remove_at:
  "i < length xs \<Longrightarrow> j < length xs - 1 \<Longrightarrow>
     remove_at i xs ! j = (if j < i then xs ! j else xs ! Suc j)"
  by (auto simp: remove_at_def nth_append min_def)

lemma set_remove_at_distinct:
  "distinct xs \<Longrightarrow> i < length xs \<Longrightarrow> set (remove_at i xs) = set xs - {xs ! i}"
  by (erule remove_at_split) (metis Diff_insert_absorb Un_insert_right distinct_append
      insert_Diff_single list.simps(15) not_distinct_conv_prefix set_append Un_iff distinct.simps(2) Un_Diff)

section \<open>Objects as association lists\<close>

text \<open>
  An object used as a dictionary is an association list in insertion order, which is the order
  \<open>Object.entries\<close> walks (keys that are canonical array indices, which JavaScript moves to
  the front, are not modelled).  Assigning an existing key keeps its place (\<open>AList.update\<close>),
  \<open>delete\<close> removes it (\<open>AList.delete\<close>), a lookup is \<open>map_of\<close>.
\<close>

abbreviation keys_of :: "('k \<times> 'v) list \<Rightarrow> 'k list" where
  "keys_of al \<equiv> map fst al"

definition map_vals :: "('v \<Rightarrow> 'w) \<Rightarrow> ('k \<times> 'v) list \<Rightarrow> ('k \<times> 'w) list" where
  "map_vals f al = map (\<lambda>(k, v). (k, f v)) al"

text \<open>Update of the value at a key that is present; nothing happens when it is absent.\<close>

definition adjust :: "'k \<Rightarrow> ('v \<Rightarrow> 'v) \<Rightarrow> ('k \<times> 'v) list \<Rightarrow> ('k \<times> 'v) list" where
  "adjust k f al = map (\<lambda>(k', v). (k', if k' = k then f v else v)) al"

lemma keys_map_vals [simp, alist_simps]: "keys_of (map_vals f al) = keys_of al"
  by (simp add: map_vals_def case_prod_beta comp_def)

lemma map_of_map_vals [simp, alist_simps]: "map_of (map_vals f al) k = map_option f (map_of al k)"
  by (induction al) (auto simp: map_vals_def)

lemma keys_adjust [simp, alist_simps]: "keys_of (adjust k f al) = keys_of al"
  by (simp add: adjust_def case_prod_beta comp_def)

lemma map_of_adjust [simp, alist_simps]:
  "map_of (adjust k f al) k' = (if k' = k then map_option f (map_of al k) else map_of al k')"
  by (induction al) (auto simp: adjust_def)

lemma length_adjust [simp]: "length (adjust k f al) = length al"
  by (simp add: adjust_def)

lemma map_of_AList_update [simp, alist_simps]:
  "map_of (AList.update k v al) k' = (if k' = k then Some v else map_of al k')"
  by (simp add: AList.update_conv')

lemma map_of_AList_delete [simp, alist_simps]:
  "map_of (AList.delete k al) k' = (if k' = k then None else map_of al k')"
  by (simp add: AList.delete_conv')

lemma distinct_keys_update [simp, alist_simps]:
  "distinct (keys_of al) \<Longrightarrow> distinct (keys_of (AList.update k v al))"
  by (rule AList.distinct_update)

lemma distinct_keys_delete [simp, alist_simps]:
  "distinct (keys_of al) \<Longrightarrow> distinct (keys_of (AList.delete k al))"
  by (rule AList.distinct_delete)

lemma set_keys_delete [simp, alist_simps]: "set (keys_of (AList.delete k al)) = set (keys_of al) - {k}"
  by (simp add: AList.delete_keys)

lemma set_keys_update [simp, alist_simps]: "set (keys_of (AList.update k v al)) = insert k (set (keys_of al))"
  by (simp add: AList.dom_update)

lemma map_of_Some_in_keys: "map_of al k = Some v \<Longrightarrow> k \<in> set (keys_of al)"
  by (force dest: map_of_SomeD)

lemma in_keys_map_of: "k \<in> set (keys_of al) \<Longrightarrow> \<exists>v. map_of al k = Some v"
  by (metis map_of_eq_None_iff not_Some_eq list.set_map)

lemma vals_adjustE:
  assumes "(k', v) \<in> set (adjust k f al)"
  obtains v' where "(k', v') \<in> set al" "v = (if k' = k then f v' else v')"
  using assms by (auto simp: adjust_def)

lemma vals_map_valsE:
  assumes "(k, v) \<in> set (map_vals f al)"
  obtains v' where "(k, v') \<in> set al" "v = f v'"
  using assms by (auto simp: map_vals_def)

section \<open>Strings\<close>

text \<open>
  The white space \<open>trim\<close> strips, of the code units below 256: TAB, LF, VT, FF, CR, space
  and NBSP.
\<close>

definition is_ws :: "char \<Rightarrow> bool" where
  "is_ws c = (let n = (of_char c :: nat) in (9 \<le> n \<and> n \<le> 13) \<or> n = 32 \<or> n = 160)"

definition trim_start :: "string \<Rightarrow> string" where
  "trim_start s = dropWhile is_ws s"

definition trim_end :: "string \<Rightarrow> string" where
  "trim_end s = rev (dropWhile is_ws (rev s))"

definition trim :: "string \<Rightarrow> string" where
  "trim s = trim_end (trim_start s)"

lemma trim_Nil [simp]: "trim [] = []"
  by (simp add: trim_def trim_start_def trim_end_def)

lemma trim_end_hd: "trim_end s \<noteq> [] \<Longrightarrow> hd (trim_end s) = hd s"
proof -
  assume ne: "trim_end s \<noteq> []"
  have "s = trim_end s @ rev (takeWhile is_ws (rev s))"
    unfolding trim_end_def by (metis rev_append rev_rev_ident takeWhile_dropWhile_id)
  with ne show ?thesis by (metis hd_append2)
qed

lemma trim_idem [simp]: "trim (trim s) = trim s"
proof (cases "trim s = []")
  case True
  then show ?thesis by simp
next
  case False
  have st: "trim_start (trim s) = trim s"
  proof -
    from False have "trim_start s \<noteq> []"
      by (auto simp: trim_def trim_end_def)
    then have "\<not> is_ws (hd (trim_start s))"
      by (simp add: trim_start_def hd_dropWhile)
    with False have "\<not> is_ws (hd (trim s))"
      unfolding trim_def using trim_end_hd by metis
    with False show ?thesis
      unfolding trim_start_def by (cases "trim s") auto
  qed
  show ?thesis
    unfolding trim_def [of "trim s"] st unfolding trim_def trim_end_def by simp
qed

lemma trim_set: "set (trim s) \<subseteq> set s"
  unfolding trim_def trim_start_def trim_end_def
  by (auto dest!: set_dropWhileD)

lemma trim_eq_Nil_iff: "trim s = [] \<longleftrightarrow> (\<forall>c\<in>set s. is_ws c)"
proof
  assume "trim s = []"
  then have "\<forall>c\<in>set (dropWhile is_ws s). is_ws c"
    by (auto simp: trim_def trim_end_def trim_start_def)
  then have "dropWhile is_ws s = []"
    by (metis hd_dropWhile list.set_sel(1))
  then show "\<forall>c\<in>set s. is_ws c" by simp
next
  assume "\<forall>c\<in>set s. is_ws c"
  then show "trim s = []"
    by (auto simp: trim_def trim_start_def trim_end_def dest: set_dropWhileD)
qed

text \<open>A string in a boolean position: \<open>undefined\<close> and the empty string are false.\<close>

definition truthy :: "string option \<Rightarrow> bool" where
  "truthy s = (case s of None \<Rightarrow> False | Some t \<Rightarrow> t \<noteq> [])"

lemma truthy_simps [simp]: "\<not> truthy None" "truthy (Some t) = (t \<noteq> [])"
  by (simp_all add: truthy_def)

section \<open>JSON values\<close>

datatype json =
    JNull
  | JBool bool
  | JNum jsnum
  | JStr string
  | JArr "json list"
  | JObj "(string \<times> json) list"

text \<open>A field of a JSON object; \<open>None\<close> is the code's \<open>undefined\<close>.\<close>

fun jget :: "json \<Rightarrow> string \<Rightarrow> json option" where
  "jget (JObj fs) k = map_of fs k"
| "jget _ k = None"

text \<open>
  The length of a string in a schema bound is its number of code units; a whole number is
  recognised by \<open>z.int()\<close>.
\<close>

definition is_int :: "jsnum \<Rightarrow> bool" where
  "is_int x = (of_int \<lfloor>x\<rfloor> = x)"

lemma is_int_of_int [simp]: "is_int (of_int i)" "is_int (of_nat n)" "is_int (numeral k)" "is_int 0" "is_int 1"
  by (simp_all add: is_int_def)

section \<open>Pairs\<close>

lemma prod_case_fst_snd: "(case p of (a, b) \<Rightarrow> f a b) = f (fst p) (snd p)"
  by (cases p) simp

end
