(* ===== verification/Contracts.thy ===== *)
theory Contracts
  imports Prelude
begin

text \<open>
  The wire and domain types (\<open>src/src/contracts/s2c.ts\<close>, \<open>types.ts\<close>) as datatypes and
  records.  An optional field is an \<open>option\<close>; a field that may also be \<open>null\<close> is an
  \<open>option option\<close>, \<open>Some None\<close> being \<open>null\<close>.
\<close>

section \<open>Enumerations\<close>

datatype room_role = Owner | Moderator | Guest
datatype loop_mode = LoopOff | LoopOnce | LoopAlways
datatype default_join_role = JoinModerator | JoinGuest
datatype session_kind = SRoom | SPlayer | SControl | SEmbed
datatype source_kind = RemoteUrl | LocalFile
datatype playback_mode = Direct | Relay
datatype ingest_status = IngestReady | IngestResolving | IngestError
datatype blocked_reason = LocalOwnerOffline
datatype stream_kind = Adaptive | Combined
datatype track_kind = Captions | Subtitles | Chapters | Descriptions | Metadata
datatype join_rejected_reason =
    PasswordRequired | InvalidPassword | JoinRateLimited | MediaUrlUnsupported
  | IdentityMismatch | ConnectionClosed
datatype room_error_code = InvalidPayload | Unauthorized | RateLimited | NotJoined

text \<open>The schema excludes \<open>owner\<close> from the roles a join may get; this is its inclusion.\<close>

fun role_of_join :: "default_join_role \<Rightarrow> room_role" where
  "role_of_join JoinModerator = Moderator"
| "role_of_join JoinGuest = Guest"

section \<open>Catalog\<close>

record media_stream =
  ms_id :: string
  ms_src :: string
  ms_type :: "string option"
  ms_protocol :: "string option"
  ms_width :: "jsnum option"
  ms_height :: "jsnum option"
  ms_bitrate :: "jsnum option"
  ms_audioBitrate :: "jsnum option"
  ms_label :: "string option"
  ms_isDefault :: "bool option"
  ms_kind :: "stream_kind option"
  ms_vcodec :: "string option"
  ms_acodec :: "string option"
  ms_audioLanguage :: "string option"

record text_track =
  tt_id :: string
  tt_src :: string
  tt_label :: string
  tt_language :: "string option"
  tt_kind :: "track_kind option"
  tt_type :: "string option"
  tt_isDefault :: "bool option"

record playlist_item =
  pi_id :: string
  pi_name :: string
  pi_sourceKind :: source_kind
  pi_playbackMode :: playback_mode
  pi_sourceUrl :: string
  pi_playableUrl :: string
  pi_durationSeconds :: "jsnum option"
  pi_ingestStatus :: "ingest_status option"
  pi_ingestError :: "string option"
  pi_blockedReason :: "blocked_reason option"
  pi_mediaStreams :: "media_stream list option"
  pi_textTracks :: "text_track list option"
  pi_defaultStreamId :: "string option"
  pi_defaultTextTrackId :: "string option"
  pi_isLive :: "bool option"
  pi_localMediaId :: "string option"
  pi_localOriginUserId :: "string option"
  pi_localMimeType :: "string option"
  pi_localSizeBytes :: "jsnum option"
  pi_createdBy :: string
  pi_createdAt :: jsnum

section \<open>Room\<close>

record item_preference =
  ip_streamId :: "string option"
  ip_textTrackId :: "string option option"
  ip_audioLanguage :: "string option"

type_synonym viewer_media = "(string \<times> item_preference) list"

record seek_preview =
  sp_userId :: string
  sp_targetMs :: jsnum
  sp_active :: bool
  sp_updatedAt :: jsnum

record playback_state =
  pb_mediaId :: "string option"
  pb_paused :: bool
  pb_playbackRate :: jsnum
  pb_timelineAnchorMs :: jsnum
  pb_serverNowMs :: jsnum
  pb_videoLoop :: loop_mode
  pb_playlistLoop :: loop_mode
  pb_seekPreview :: "seek_preview option"

record public_room_security =
  rs_joinPasswordEnabled :: bool
  rs_joinPasswordUpdatedAt :: "jsnum option"
  rs_admissionVersion :: nat
  rs_defaultJoinRole :: default_join_role

record room_security = public_room_security +
  rs_joinPasswordHash :: "string option"
  rs_joinPasswordSalt :: "string option"

record local_playback =
  lp_paused :: bool
  lp_currentTimeMs :: jsnum
  lp_loading :: bool
  lp_error :: "string option"
  lp_updatedAt :: jsnum

record participant =
  pt_userId :: string
  pt_username :: string
  pt_avatarStyle :: string
  pt_role :: room_role
  pt_connected :: bool
  pt_joinedAt :: "jsnum option"
  pt_connectedAt :: "jsnum option"
  pt_disconnectedAt :: "jsnum option"
  pt_lastSeenAt :: "jsnum option"
  pt_localPlayback :: local_playback
  pt_viewerMedia :: "viewer_media option"

record action_entry =
  ae_id :: string
  ae_at :: jsnum
  ae_roomId :: string
  ae_actorUserId :: string
  ae_actorUsername :: "string option"
  ae_action :: string
  ae_payload :: "(string \<times> json) list"
  ae_error :: "string option"

type_synonym participants = "(string \<times> participant) list"

text \<open>
  The persisted room is the snapshot payload with the full security record; the client holds the
  same fields with the public one and the wall-clock stamp of the snapshot, hence the type
  parameter and the extension.
\<close>

record 'sec room_state =
  st_roomId :: string
  st_ownerId :: string
  st_roomSecurity :: 'sec
  st_playback :: playback_state
  st_playlist :: "playlist_item list"
  st_currentIndex :: int
  st_participants :: participants
  st_actionLog :: "action_entry list"
  st_updatedAt :: jsnum
  st_generation :: nat
  st_structuralRevision :: nat
  st_presenceRevision :: "nat option"

type_synonym server_room = "room_security room_state"

record client_room = "public_room_security room_state" +
  cr_serverWallNowMs :: "jsnum option"

record local_playback_report =
  lr_sessionKind :: session_kind
  lr_paused :: bool
  lr_currentTimeMs :: jsnum
  lr_loading :: bool
  lr_error :: "string option"
  lr_updatedAt :: jsnum

type_synonym playback_reports = "(string \<times> local_playback_report) list"

record presence_patch =
  pp_connected :: "bool option"
  pp_lastSeenAt :: "jsnum option"
  pp_disconnectedAt :: "jsnum option"
  pp_username :: "string option"
  pp_avatarStyle :: "string option"
  pp_localPlayback :: "local_playback option"
  pp_localPlaybackReports :: "playback_reports option"

definition empty_patch :: presence_patch where
  "empty_patch = \<lparr>pp_connected = None, pp_lastSeenAt = None, pp_disconnectedAt = None,
     pp_username = None, pp_avatarStyle = None, pp_localPlayback = None,
     pp_localPlaybackReports = None\<rparr>"

record room_control =
  rc_generation :: nat
  rc_playback :: playback_state
  rc_currentIndex :: int
  rc_updatedAt :: jsnum
  rc_serverWallNowMs :: jsnum

record presence_batch =
  pbt_presenceRevision :: nat
  pbt_participants :: "(string \<times> presence_patch) list"
  pbt_serverNowMs :: jsnum

record session_capabilities =
  sc_canControlPlayback :: bool
  sc_canManagePlaylist :: bool
  sc_canManageRoomSecurity :: bool
  sc_isControlSession :: bool
  sc_controlAuthorized :: bool
  sc_sessionKind :: session_kind

end
