(* ===== verification/Sanitize.thy ===== *)
theory Sanitize
  imports Prelude
begin

text \<open>
  Display strings (\<open>src/src/shared/sanitize-display.ts\<close>): what user names, titles and error
  messages go through before they are stored.  A string is a list of code units below 256, on
  which NFC normalisation is the identity, the class of control and format characters is
  \<open>Cc\<close> with the soft hyphen, and white space is \<open>is_ws\<close> of the prelude.
\<close>

record sanitize_options =
  so_maxLength :: nat
  so_rejectMarkup :: bool
  so_stripMarkupDelimiters :: bool

definition is_markup_char :: "char \<Rightarrow> bool" where
  "is_markup_char c = (c \<in> {CHR ''<'', CHR ''>'', CHR 0x22, CHR 0x27, CHR 0x60})"

definition is_control_or_format :: "char \<Rightarrow> bool" where
  "is_control_or_format c = (let n = (of_char c :: nat) in n < 32 \<or> (127 \<le> n \<and> n < 160) \<or> n = 173)"

definition ascii_lower :: "char \<Rightarrow> char" where
  "ascii_lower c = (let n = (of_char c :: nat) in if 65 \<le> n \<and> n \<le> 90 then char_of (n + 32) else c)"

text \<open>\<open>/\\s+/g\<close> replaced by one space, then \<open>trim\<close>.\<close>

function replace_ws :: "string \<Rightarrow> string" where
  "replace_ws [] = []"
| "replace_ws (c # cs) =
     (if is_ws c then CHR '' '' # replace_ws (dropWhile is_ws cs) else c # replace_ws cs)"
  by pat_completeness auto
termination
  by (relation "measure length") (auto simp: length_dropWhile_le le_imp_less_Suc)

definition collapse_whitespace :: "string \<Rightarrow> string" where
  "collapse_whitespace s = trim (replace_ws s)"

text \<open>\<open>/^\\s*scheme\\s*:/i\<close> for a scheme in lower case.\<close>

definition has_scheme :: "string \<Rightarrow> string \<Rightarrow> bool" where
  "has_scheme scheme raw =
     (let s = trim_start raw; n = length scheme
      in map ascii_lower (take n s) = scheme
         \<and> (case trim_start (drop n s) of c # _ \<Rightarrow> c = CHR '':'' | [] \<Rightarrow> False))"

definition sanitize_display_text :: "string \<Rightarrow> sanitize_options \<Rightarrow> string option" where
  "sanitize_display_text raw opts =
     (if so_rejectMarkup opts \<and> (\<exists>c\<in>set raw. c = CHR ''<'' \<or> c = CHR ''>'') then None
      else if has_scheme ''javascript'' raw \<or> has_scheme ''data'' raw then None
      else
        let v1 = filter (\<lambda>c. \<not> is_control_or_format c) raw;
            v2 = (if so_stripMarkupDelimiters opts then filter (\<lambda>c. \<not> is_markup_char c) v1 else v1);
            v3 = collapse_whitespace v2
        in if v3 = [] then None
           else let v4 = (if length v3 > so_maxLength opts
                          then trim_end (take (so_maxLength opts) v3) else v3)
                in if v4 = [] then None else Some v4)"

definition sanitize_username :: "string \<Rightarrow> string option" where
  "sanitize_username raw = sanitize_display_text raw
     \<lparr>so_maxLength = 64, so_rejectMarkup = True, so_stripMarkupDelimiters = True\<rparr>"

definition sanitize_media_title :: "string \<Rightarrow> string option" where
  "sanitize_media_title raw = sanitize_display_text raw
     \<lparr>so_maxLength = 256, so_rejectMarkup = False, so_stripMarkupDelimiters = True\<rparr>"

definition sanitize_error_message :: "string \<Rightarrow> string option" where
  "sanitize_error_message raw = sanitize_display_text raw
     \<lparr>so_maxLength = 300, so_rejectMarkup = True, so_stripMarkupDelimiters = True\<rparr>"

section \<open>What a sanitised string looks like\<close>

text \<open>A run of white space in the output is a single space.\<close>

fun single_spaced :: "string \<Rightarrow> bool" where
  "single_spaced [] = True"
| "single_spaced [c] = (is_ws c \<longrightarrow> c = CHR '' '')"
| "single_spaced (c # d # cs) =
     ((is_ws c \<longrightarrow> c = CHR '' '' \<and> \<not> is_ws d) \<and> single_spaced (d # cs))"

definition trimmed :: "string \<Rightarrow> bool" where
  "trimmed s = (s \<noteq> [] \<and> \<not> is_ws (hd s) \<and> \<not> is_ws (last s))"

lemma is_ws_space [simp]: "is_ws CHR '' ''"
  by (simp add: is_ws_def)

lemma set_replace_ws: "set (replace_ws s) \<subseteq> insert CHR '' '' (set s)"
  by (induction s rule: replace_ws.induct) (auto dest!: set_dropWhileD)

lemma hd_replace_ws: "s \<noteq> [] \<Longrightarrow> \<not> is_ws (hd s) \<Longrightarrow> hd (replace_ws s) = hd s"
  by (cases s) auto

lemma replace_ws_eq_Nil [simp]: "replace_ws s = [] \<longleftrightarrow> s = []"
  by (cases s) auto

lemma single_spaced_Cons:
  "single_spaced (c # cs) \<longleftrightarrow>
     (is_ws c \<longrightarrow> c = CHR '' '' \<and> (cs = [] \<or> \<not> is_ws (hd cs))) \<and> single_spaced cs"
  by (cases cs) auto

lemma single_spaced_replace_ws: "single_spaced (replace_ws s)"
proof (induction s rule: replace_ws.induct)
  case 1
  then show ?case by simp
next
  case (2 c cs)
  show ?case
  proof (cases "is_ws c")
    case True
    have "dropWhile is_ws cs = [] \<or> \<not> is_ws (hd (replace_ws (dropWhile is_ws cs)))"
      by (metis hd_dropWhile hd_replace_ws)
    with 2(1) True show ?thesis by (auto simp: single_spaced_Cons simp del: dropWhile_eq_Nil_conv)
  next
    case False
    with 2(2) show ?thesis by (simp add: single_spaced_Cons)
  qed
qed

lemma single_spaced_tl: "single_spaced s \<Longrightarrow> single_spaced (tl s)"
  by (cases s) (auto simp: single_spaced_Cons)

lemma single_spaced_drop: "single_spaced s \<Longrightarrow> single_spaced (drop n s)"
  by (induction n arbitrary: s) (auto simp: drop_Suc single_spaced_tl)

lemma single_spaced_take: "single_spaced s \<Longrightarrow> single_spaced (take n s)"
proof (induction s arbitrary: n)
  case Nil
  then show ?case by simp
next
  case (Cons c cs)
  show ?case
  proof (cases n)
    case 0
    then show ?thesis by simp
  next
    case (Suc m)
    have "take m cs = [] \<or> hd (take m cs) = hd cs"
      by (cases m; cases cs) auto
    with Suc Cons show ?thesis by (auto simp: single_spaced_Cons)
  qed
qed

lemma trim_start_drop: "trim_start s = drop (length (takeWhile is_ws s)) s"
  by (simp add: trim_start_def dropWhile_eq_drop)

lemma trim_end_take: "trim_end s = take (length s - length (takeWhile is_ws (rev s))) s"
  by (simp add: trim_end_def dropWhile_eq_drop rev_drop)

lemma single_spaced_trim: "single_spaced s \<Longrightarrow> single_spaced (trim s)"
  unfolding trim_def trim_start_drop trim_end_take
  by (intro single_spaced_take single_spaced_drop)

lemma last_trim_end: "trim_end s \<noteq> [] \<Longrightarrow> \<not> is_ws (last (trim_end s))"
  unfolding trim_end_def by (metis hd_dropWhile last_rev rev_is_Nil_conv)

lemma trimmed_trim: "trim s \<noteq> [] \<Longrightarrow> trimmed (trim s)"
  unfolding trimmed_def trim_def
  by (metis hd_dropWhile last_trim_end trim_end_hd trim_start_def rev.simps(1) trim_end_def
      dropWhile.simps(1))

lemma trimmed_trim_end_take:
  "trimmed s \<Longrightarrow> trim_end (take n s) \<noteq> [] \<Longrightarrow> trimmed (trim_end (take n s))"
  unfolding trimmed_def
  by (metis last_trim_end trim_end_hd hd_take take_eq_Nil trim_end_def dropWhile.simps(1)
      rev.simps(1) bot_nat_0.not_eq_extremum)

lemma trim_trimmed: "trimmed s \<Longrightarrow> trim s = s"
  unfolding trimmed_def trim_def trim_start_def trim_end_def
  by (metis dropWhile_eq_self_iff hd_rev rev_rev_ident)

lemma replace_ws_single_spaced: "single_spaced s \<Longrightarrow> replace_ws s = s"
proof (induction s)
  case (Cons c cs)
  then have "is_ws c \<Longrightarrow> dropWhile is_ws cs = cs"
    by (auto simp: single_spaced_Cons dropWhile_eq_self_iff)
  with Cons show ?case by (auto simp: single_spaced_Cons)
qed simp

section \<open>The sanitiser's contract\<close>

lemmas sanitize_defs = sanitize_username_def sanitize_media_title_def sanitize_error_message_def

lemma set_collapse: "set (collapse_whitespace s) \<subseteq> insert CHR '' '' (set s)"
  unfolding collapse_whitespace_def using trim_set set_replace_ws by blast

lemma collapse_trimmed: "collapse_whitespace s \<noteq> [] \<Longrightarrow> trimmed (collapse_whitespace s)"
  unfolding collapse_whitespace_def by (rule trimmed_trim)

lemma collapse_single_spaced: "single_spaced (collapse_whitespace s)"
  unfolding collapse_whitespace_def by (intro single_spaced_trim single_spaced_replace_ws)

lemma collapse_id: "trimmed s \<Longrightarrow> single_spaced s \<Longrightarrow> collapse_whitespace s = s"
  unfolding collapse_whitespace_def by (simp add: replace_ws_single_spaced trim_trimmed)

text \<open>
  The result is a trimmed cut of the collapsed and filtered input: this is the only fact about
  the pipeline the lemmas below need.
\<close>

lemma sanitize_SomeE:
  assumes "sanitize_display_text raw opts = Some v"
  obtains w n where
    "w = collapse_whitespace (filter (\<lambda>c. \<not> is_control_or_format c
           \<and> (so_stripMarkupDelimiters opts \<longrightarrow> \<not> is_markup_char c)) raw)"
    "w \<noteq> []" "v = w \<or> v = trim_end (take (so_maxLength opts) w)" "v \<noteq> []"
    "length v \<le> so_maxLength opts"
    "so_rejectMarkup opts \<Longrightarrow> \<forall>c\<in>set raw. c \<noteq> CHR ''<'' \<and> c \<noteq> CHR ''>''"
    "\<not> has_scheme ''javascript'' raw" "\<not> has_scheme ''data'' raw"
proof -
  have fl: "filter (\<lambda>c. \<not> is_control_or_format c
           \<and> (so_stripMarkupDelimiters opts \<longrightarrow> \<not> is_markup_char c)) raw =
      (if so_stripMarkupDelimiters opts
       then filter (\<lambda>c. \<not> is_markup_char c) (filter (\<lambda>c. \<not> is_control_or_format c) raw)
       else filter (\<lambda>c. \<not> is_control_or_format c) raw)"
    by (simp add: conj_commute)
  have len: "length (trim_end (take n w)) \<le> n" for n and w :: string
    unfolding trim_end_take by simp
  show ?thesis
    using assms that len unfolding sanitize_display_text_def Let_def fl
    by (auto split: if_splits)
qed

lemma sanitize_chars:
  assumes "sanitize_display_text raw opts = Some v" and "c \<in> set v"
  shows "\<not> is_control_or_format c \<and> (so_stripMarkupDelimiters opts \<longrightarrow> \<not> is_markup_char c)"
proof -
  from assms(1) obtain w where
    w: "w = collapse_whitespace (filter (\<lambda>c. \<not> is_control_or_format c
           \<and> (so_stripMarkupDelimiters opts \<longrightarrow> \<not> is_markup_char c)) raw)"
    and v: "v = w \<or> v = trim_end (take (so_maxLength opts) w)"
    by (rule sanitize_SomeE) blast
  from v assms(2) have "c \<in> set w"
    by (auto simp: trim_end_take dest: in_set_takeD)
  with w set_collapse
  have "c = CHR '' '' \<or> \<not> is_control_or_format c \<and> (so_stripMarkupDelimiters opts \<longrightarrow> \<not> is_markup_char c)"
    by fastforce
  then show ?thesis by (auto simp: is_control_or_format_def is_markup_char_def)
qed

lemma sanitize_shape:
  assumes "sanitize_display_text raw opts = Some v"
  shows "trimmed v \<and> single_spaced v \<and> length v \<le> so_maxLength opts"
proof -
  from assms obtain w where
    w: "w = collapse_whitespace (filter (\<lambda>c. \<not> is_control_or_format c
           \<and> (so_stripMarkupDelimiters opts \<longrightarrow> \<not> is_markup_char c)) raw)" "w \<noteq> []"
    and v: "v = w \<or> v = trim_end (take (so_maxLength opts) w)" "v \<noteq> []"
    and l: "length v \<le> so_maxLength opts"
    by (rule sanitize_SomeE) blast
  from w have tw: "trimmed w" "single_spaced w"
    using collapse_trimmed collapse_single_spaced by auto
  have "trimmed v"
    using v tw trimmed_trim_end_take by blast
  moreover have "single_spaced v"
    using v(1) tw(2) by (auto simp: trim_end_take intro: single_spaced_take)
  ultimately show ?thesis using l by simp
qed

lemma sanitize_fixpoint:
  assumes "sanitize_display_text raw opts = Some v"
    and "so_stripMarkupDelimiters opts"
    and "\<not> has_scheme ''javascript'' v" "\<not> has_scheme ''data'' v"
  shows "sanitize_display_text v opts = Some v"
proof -
  have ok: "\<not> is_control_or_format c" "\<not> is_markup_char c" if "c \<in> set v" for c
    using sanitize_chars [OF assms(1) that] assms(2) by auto
  then have f1: "filter (\<lambda>c. \<not> is_control_or_format c) v = v"
    and f2: "filter (\<lambda>c. \<not> is_markup_char c) v = v"
    by simp_all
  have f3: "\<not> (\<exists>c\<in>set v. c = CHR ''<'' \<or> c = CHR ''>'')"
    using ok(2) by (auto simp: is_markup_char_def)
  from sanitize_shape [OF assms(1)]
  have "collapse_whitespace v = v" "v \<noteq> []" "length v \<le> so_maxLength opts"
    by (auto simp: collapse_id trimmed_def)
  with assms(2-4) f3 show ?thesis
    by (simp add: sanitize_display_text_def Let_def f1 f2)
qed

section \<open>Properties\<close>

text \<open>
  Whatever a client sends as a user name, a title or an error message, the stored value has
  no control or format character and none of the markup delimiters, starts and ends with a
  visible character, has only single spaces, is not empty and fits its limit (64, 256 and 300).
\<close>

theorem sanitize_output_safe:
  assumes "sanitize_username raw = Some v \<or> sanitize_media_title raw = Some v
             \<or> sanitize_error_message raw = Some v"
  shows "(\<forall>c\<in>set v. \<not> is_control_or_format c \<and> \<not> is_markup_char c) \<and> trimmed v \<and> single_spaced v
           \<and> length v \<le> 300 \<and> (sanitize_username raw = Some v \<longrightarrow> length v \<le> 64)
           \<and> (sanitize_media_title raw = Some v \<longrightarrow> length v \<le> 256)"
proof -
  have "(\<forall>c\<in>set v. \<not> is_control_or_format c \<and> \<not> is_markup_char c)
      \<and> trimmed v \<and> single_spaced v \<and> length v \<le> so_maxLength opts"
    if "sanitize_display_text raw opts = Some v" "so_stripMarkupDelimiters opts" for opts
    using sanitize_chars [OF that(1)] sanitize_shape [OF that(1)] that(2) by blast
  from this [of "\<lparr>so_maxLength = 64, so_rejectMarkup = True, so_stripMarkupDelimiters = True\<rparr>"]
    this [of "\<lparr>so_maxLength = 256, so_rejectMarkup = False, so_stripMarkupDelimiters = True\<rparr>"]
    this [of "\<lparr>so_maxLength = 300, so_rejectMarkup = True, so_stripMarkupDelimiters = True\<rparr>"]
  show ?thesis using assms unfolding sanitize_defs by auto
qed

theorem sanitize_output_safe_witness:
  "sanitize_username ''  Ann   Lee '' = Some ''Ann Lee'' \<and> trimmed ''Ann Lee''
     \<and> length ''Ann Lee'' \<le> 64"
proof -
  have h: "sanitize_username ''  Ann   Lee '' = Some ''Ann Lee''" by code_simp
  show ?thesis using sanitize_output_safe [of "''  Ann   Lee ''" "''Ann Lee''"] h by blast
qed

text \<open>
  C2. A title that was sanitised is a fixed point of the sanitiser, so the checks of the schema
  and of the server may be repeated, unless the clean-up itself built a \<open>javascript:\<close> or
  \<open>data:\<close> prefix.
\<close>

theorem sanitize_media_title_fixpoint:
  assumes "sanitize_media_title raw = Some v"
    and "\<not> has_scheme ''javascript'' v" and "\<not> has_scheme ''data'' v"
  shows "sanitize_media_title v = Some v"
  using assms sanitize_fixpoint [of raw _ v] unfolding sanitize_media_title_def by simp

theorem sanitize_media_title_fixpoint_witness:
  "sanitize_media_title ''a  <b>c'' = Some ''a bc'' \<and> sanitize_media_title ''a bc'' = Some ''a bc''"
proof -
  have h: "sanitize_media_title ''a  <b>c'' = Some ''a bc''"
    and n: "\<not> has_scheme ''javascript'' ''a bc''" "\<not> has_scheme ''data'' ''a bc''"
    by code_simp+
  show ?thesis using sanitize_media_title_fixpoint [OF h n] h by blast
qed

text \<open>
  C3. The scheme check looks at the raw string only: a quote or a control character inside
  \<open>javascript:\<close> passes it and is then stripped, so the stored title is exactly the packaged
  URL the check is there to refuse, and sanitising it once more refuses it.
\<close>

theorem sanitize_scheme_check_bypassed:
  "sanitize_media_title (''java'' @ [CHR 0x22] @ ''script:alert(1)'') = Some ''javascript:alert(1)''
     \<and> sanitize_media_title ''javascript:alert(1)'' = None
     \<and> sanitize_username (''java'' @ [CHR 0x07] @ ''script:alert(1)'') = Some ''javascript:alert(1)''"
  by code_simp

end
