(* ===== verification/Schemas.thy ===== *)
theory Schemas
  imports Contracts Sanitize "HOL-Library.Monad_Syntax"
begin

text \<open>
  The schemas of \<open>src/src/contracts/schemas.ts\<close> as parsers: a payload is a JSON value, a
  parser returns \<open>None\<close> where \<open>safeParse\<close> fails and the validated and transformed
  value otherwise.  Unknown keys are ignored.  The URL and UUID grammars belong to the validation
  library; they are the parameters \<open>is_url\<close> and \<open>is_uuid\<close>.
\<close>

section \<open>Combinators\<close>

fun is_obj :: "json \<Rightarrow> bool" where
  "is_obj (JObj _) = True"
| "is_obj _ = False"

fun p_str :: "nat \<Rightarrow> nat \<Rightarrow> json \<Rightarrow> string option" where
  "p_str lo hi (JStr s) = (if lo \<le> length s \<and> length s \<le> hi then Some s else None)"
| "p_str lo hi _ = None"

fun p_str_min :: "nat \<Rightarrow> json \<Rightarrow> string option" where
  "p_str_min lo (JStr s) = (if lo \<le> length s then Some s else None)"
| "p_str_min lo _ = None"

fun p_num :: "(jsnum \<Rightarrow> bool) \<Rightarrow> json \<Rightarrow> jsnum option" where
  "p_num ok (JNum x) = (if ok x then Some x else None)"
| "p_num ok _ = None"

fun p_bool :: "json \<Rightarrow> bool option" where
  "p_bool (JBool b) = Some b"
| "p_bool _ = None"

definition p_index :: "json \<Rightarrow> nat option" where
  "p_index j = map_option (\<lambda>x. nat \<lfloor>x\<rfloor>) (p_num (\<lambda>x. is_int x \<and> 0 \<le> x) j)"

definition p_nullable :: "(json \<Rightarrow> 'a option) \<Rightarrow> json \<Rightarrow> 'a option option" where
  "p_nullable p j = (if j = JNull then Some None else map_option Some (p j))"

definition p_field :: "(json \<Rightarrow> 'a option) \<Rightarrow> json \<Rightarrow> string \<Rightarrow> 'a option" where
  "p_field p j k = Option.bind (jget j k) p"

definition p_opt :: "(json \<Rightarrow> 'a option) \<Rightarrow> json \<Rightarrow> string \<Rightarrow> 'a option option" where
  "p_opt p j k = (case jget j k of None \<Rightarrow> Some None | Some v \<Rightarrow> map_option Some (p v))"

lemmas parse_defs = p_index_def p_nullable_def p_field_def p_opt_def

section \<open>Primitives\<close>

definition p_userId :: "json \<Rightarrow> string option" where
  "p_userId = p_str 1 128"

definition p_itemId :: "json \<Rightarrow> string option" where
  "p_itemId = p_str 1 128"

definition p_localMediaId :: "(string \<Rightarrow> bool) \<Rightarrow> json \<Rightarrow> string option" where
  "p_localMediaId is_uuid j = (case j of JStr s \<Rightarrow> if is_uuid s then Some s else None | _ \<Rightarrow> None)"

definition p_sizeBytes :: "json \<Rightarrow> jsnum option" where
  "p_sizeBytes = p_num (\<lambda>x. is_int x \<and> 1 \<le> x \<and> x \<le> 1024 * 1024 * 1024 * 1024)"

definition day_seconds :: jsnum where "day_seconds = 60 * 60 * 24"

definition p_duration :: "json \<Rightarrow> jsnum option" where
  "p_duration = p_num (\<lambda>x. 0 < x \<and> x \<le> day_seconds)"

fun p_defaultJoinRole :: "json \<Rightarrow> default_join_role option" where
  "p_defaultJoinRole (JStr s) =
     (if s = ''moderator'' then Some JoinModerator else if s = ''guest'' then Some JoinGuest else None)"
| "p_defaultJoinRole _ = None"

fun p_loopMode :: "json \<Rightarrow> loop_mode option" where
  "p_loopMode (JStr s) =
     (if s = ''off'' then Some LoopOff else if s = ''once'' then Some LoopOnce
      else if s = ''always'' then Some LoopAlways else None)"
| "p_loopMode _ = None"

fun p_sessionKind :: "json \<Rightarrow> session_kind option" where
  "p_sessionKind (JStr s) =
     (if s = ''room'' then Some SRoom else if s = ''player'' then Some SPlayer
      else if s = ''control'' then Some SControl else if s = ''embed'' then Some SEmbed else None)"
| "p_sessionKind _ = None"

text \<open>
  A string schema with \<open>max\<close>, then a refinement by a sanitiser, then its transform: the
  bound is on the raw string.
\<close>

definition p_sanitized :: "nat \<Rightarrow> (string \<Rightarrow> string option) \<Rightarrow> json \<Rightarrow> string option" where
  "p_sanitized hi san j = Option.bind (p_str 0 hi j) san"

definition p_username :: "json \<Rightarrow> string option" where
  "p_username = p_sanitized 64 sanitize_username"

definition p_mediaTitle :: "json \<Rightarrow> string option" where
  "p_mediaTitle = p_sanitized 256 sanitize_media_title"

definition p_shortLabel :: "json \<Rightarrow> string option" where
  "p_shortLabel = p_sanitized 64 (\<lambda>s. Option.bind (sanitize_media_title s)
     (\<lambda>n. if length n \<le> 64 then Some (take 64 n) else None))"

definition p_errorMessage :: "json \<Rightarrow> string option" where
  "p_errorMessage = p_sanitized 300 sanitize_error_message"

section \<open>Client events\<close>

record room_join =
  rj_roomId :: string
  rj_userId :: "string option"
  rj_userSecret :: string
  rj_joinPassword :: "string option"
  rj_username :: "string option"
  rj_avatarStyle :: "string option"
  rj_sessionKind :: session_kind
  rj_controlToken :: "string option"
  rj_initialMediaUrl :: "string option"
  rj_skipDefaultMedia :: "bool option"

text \<open>\<open>z.string().trim().min(1).max(2048)\<close>: the bounds are on the trimmed string.\<close>

fun p_trimmed :: "nat \<Rightarrow> nat \<Rightarrow> json \<Rightarrow> string option" where
  "p_trimmed lo hi (JStr s) =
     (let t = trim s in if lo \<le> length t \<and> length t \<le> hi then Some t else None)"
| "p_trimmed lo hi _ = None"

definition parse_roomJoin :: "json \<Rightarrow> room_join option" where
  "parse_roomJoin j = do {
     roomId \<leftarrow> p_field (p_str 1 128) j ''roomId'';
     userId \<leftarrow> p_opt p_userId j ''userId'';
     userSecret \<leftarrow> p_field (p_str_min 1) j ''userSecret'';
     joinPassword \<leftarrow> p_opt (p_str 1 256) j ''joinPassword'';
     username \<leftarrow> p_opt p_username j ''username'';
     avatarStyle \<leftarrow> p_opt (p_str 1 64) j ''avatarStyle'';
     sessionKind \<leftarrow> p_opt p_sessionKind j ''sessionKind'';
     controlToken \<leftarrow> p_opt (p_str 1 512) j ''controlToken'';
     initialMediaUrl \<leftarrow> p_opt (p_trimmed 1 2048) j ''initialMediaUrl'';
     skipDefaultMedia \<leftarrow> p_opt p_bool j ''skipDefaultMedia'';
     Some \<lparr>rj_roomId = roomId, rj_userId = userId, rj_userSecret = userSecret,
       rj_joinPassword = joinPassword, rj_username = username, rj_avatarStyle = avatarStyle,
       rj_sessionKind = (case sessionKind of None \<Rightarrow> SRoom | Some k \<Rightarrow> k),
       rj_controlToken = controlToken, rj_initialMediaUrl = initialMediaUrl,
       rj_skipDefaultMedia = skipDefaultMedia\<rparr>
   }"

definition parse_passwordSet :: "json \<Rightarrow> string option" where
  "parse_passwordSet j = p_field (p_str 1 256) j ''password''"

definition parse_passwordClear :: "json \<Rightarrow> unit option" where
  "parse_passwordClear j = (if is_obj j then Some () else None)"

definition parse_defaultRoleSet :: "json \<Rightarrow> default_join_role option" where
  "parse_defaultRoleSet j = p_field p_defaultJoinRole j ''role''"

definition parse_seek :: "json \<Rightarrow> jsnum option" where
  "parse_seek j = p_field (p_num (\<lambda>x. 0 \<le> x \<and> x \<le> 1000 * 60 * 60 * 24)) j ''targetMs''"

definition parse_rate :: "json \<Rightarrow> jsnum option" where
  "parse_rate j = p_field (p_num (\<lambda>x. 1 / 4 \<le> x \<and> x \<le> 3)) j ''playbackRate''"

definition parse_setPaused :: "json \<Rightarrow> jsnum option option" where
  "parse_setPaused j =
     (if is_obj j then p_opt (p_num (\<lambda>x. 0 \<le> x)) j ''currentTimeMs'' else None)"

definition parse_loopMode :: "json \<Rightarrow> loop_mode option" where
  "parse_loopMode j = p_field p_loopMode j ''mode''"

definition parse_select :: "json \<Rightarrow> nat option" where
  "parse_select j = p_field p_index j ''index''"

definition parse_reorder :: "json \<Rightarrow> (nat \<times> nat) option" where
  "parse_reorder j = do {
     from \<leftarrow> p_field p_index j ''from'';
     to \<leftarrow> p_field p_index j ''to'';
     Some (from, to)
   }"

definition parse_rename :: "json \<Rightarrow> (string \<times> string) option" where
  "parse_rename j = do {
     itemId \<leftarrow> p_field p_itemId j ''itemId'';
     name \<leftarrow> p_field p_mediaTitle j ''name'';
     Some (itemId, name)
   }"

definition parse_remove :: "json \<Rightarrow> string option" where
  "parse_remove j = p_field p_itemId j ''itemId''"

definition parse_addUrl :: "(string \<Rightarrow> bool) \<Rightarrow> json \<Rightarrow> string option" where
  "parse_addUrl is_url j =
     p_field (\<lambda>v. case v of JStr s \<Rightarrow> if is_url s then Some s else None | _ \<Rightarrow> None) j ''url''"

record add_local =
  al_localMediaId :: string
  al_name :: string
  al_mimeType :: string
  al_sizeBytes :: jsnum
  al_durationSeconds :: "jsnum option"

definition parse_addLocal :: "(string \<Rightarrow> bool) \<Rightarrow> json \<Rightarrow> add_local option" where
  "parse_addLocal is_uuid j = do {
     localMediaId \<leftarrow> p_field (p_localMediaId is_uuid) j ''localMediaId'';
     name \<leftarrow> p_field p_mediaTitle j ''name'';
     mimeType \<leftarrow> p_field (p_str 1 128) j ''mimeType'';
     sizeBytes \<leftarrow> p_field p_sizeBytes j ''sizeBytes'';
     durationSeconds \<leftarrow> p_opt p_duration j ''durationSeconds'';
     Some \<lparr>al_localMediaId = localMediaId, al_name = name, al_mimeType = mimeType,
       al_sizeBytes = sizeBytes, al_durationSeconds = durationSeconds\<rparr>
   }"

definition parse_retry :: "json \<Rightarrow> string option" where
  "parse_retry j = p_field p_itemId j ''itemId''"

definition parse_itemError :: "json \<Rightarrow> (string \<times> string option) option" where
  "parse_itemError j = do {
     itemId \<leftarrow> p_field p_itemId j ''itemId'';
     err \<leftarrow> p_field (p_nullable p_errorMessage) j ''error'';
     Some (itemId, err)
   }"

definition parse_itemDuration :: "json \<Rightarrow> (string \<times> jsnum) option" where
  "parse_itemDuration j = do {
     itemId \<leftarrow> p_field p_itemId j ''itemId'';
     durationSeconds \<leftarrow> p_field p_duration j ''durationSeconds'';
     Some (itemId, durationSeconds)
   }"

definition parse_itemTitle :: "json \<Rightarrow> (string \<times> string) option" where
  "parse_itemTitle j = do {
     itemId \<leftarrow> p_field p_itemId j ''itemId'';
     name \<leftarrow> p_field p_mediaTitle j ''name'';
     Some (itemId, name)
   }"

record viewer_media_input =
  vi_itemId :: string
  vi_streamId :: "string option option"
  vi_textTrackId :: "string option option"
  vi_audioLanguage :: "string option"

definition parse_viewerMedia :: "json \<Rightarrow> viewer_media_input option" where
  "parse_viewerMedia j = do {
     itemId \<leftarrow> p_field p_itemId j ''itemId'';
     streamId \<leftarrow> p_opt (p_nullable (p_str 1 128)) j ''streamId'';
     textTrackId \<leftarrow> p_opt (p_nullable (p_str 1 128)) j ''textTrackId'';
     audioLanguage \<leftarrow> p_opt (p_str 1 32) j ''audioLanguage'';
     Some \<lparr>vi_itemId = itemId, vi_streamId = streamId, vi_textTrackId = textTrackId,
       vi_audioLanguage = audioLanguage\<rparr>
   }"

record participant_update =
  pu_username :: "string option"
  pu_avatarStyle :: "string option"
  pu_paused :: "bool option"
  pu_currentTimeMs :: "jsnum option"
  pu_loading :: "bool option"
  pu_error :: "string option option"

text \<open>The \<open>preprocess\<close> step turns an empty error into \<open>null\<close>.\<close>

definition parse_participantUpdate :: "json \<Rightarrow> participant_update option" where
  "parse_participantUpdate j = (if \<not> is_obj j then None else do {
     username \<leftarrow> p_opt p_username j ''username'';
     avatarStyle \<leftarrow> p_opt (p_str 1 64) j ''avatarStyle'';
     paused \<leftarrow> p_opt p_bool j ''paused'';
     currentTimeMs \<leftarrow> p_opt (p_num (\<lambda>x. 0 \<le> x)) j ''currentTimeMs'';
     loading \<leftarrow> p_opt p_bool j ''loading'';
     err \<leftarrow> p_opt (\<lambda>v. p_nullable p_errorMessage (if v = JStr '''' then JNull else v)) j ''error'';
     Some \<lparr>pu_username = username, pu_avatarStyle = avatarStyle, pu_paused = paused,
       pu_currentTimeMs = currentTimeMs, pu_loading = loading, pu_error = err\<rparr>
   })"

definition parse_roleUpdate :: "json \<Rightarrow> (string \<times> default_join_role) option" where
  "parse_roleUpdate j = do {
     targetUserId \<leftarrow> p_field p_userId j ''targetUserId'';
     role \<leftarrow> p_field p_defaultJoinRole j ''role'';
     Some (targetUserId, role)
   }"

definition parse_seekPreview :: "json \<Rightarrow> (jsnum option \<times> bool option) option" where
  "parse_seekPreview j = (if \<not> is_obj j then None else do {
     targetMs \<leftarrow> p_opt (p_num (\<lambda>x. 0 \<le> x)) j ''targetMs'';
     active \<leftarrow> p_opt p_bool j ''active'';
     Some (targetMs, active)
   })"

section \<open>What the schemas guarantee\<close>

lemma p_field_SomeE:
  assumes "p_field p j k = Some v"
  obtains x where "jget j k = Some x" "p x = Some v"
  using assms by (auto simp: p_field_def bind_eq_Some_conv)

lemma p_num_SomeD: "p_num ok j = Some x \<Longrightarrow> ok x"
  by (cases j) (auto split: if_splits)

lemma p_str_SomeD: "p_str lo hi j = Some s \<Longrightarrow> j = JStr s \<and> lo \<le> length s \<and> length s \<le> hi"
  by (cases j) (auto split: if_splits)

lemma p_sanitized_SomeE:
  assumes "p_sanitized hi san j = Some v"
  obtains raw where "j = JStr raw" "length raw \<le> hi" "san raw = Some v"
  using assms by (auto simp: p_sanitized_def bind_eq_Some_conv dest!: p_str_SomeD)

lemma parse_seek_bounds: "parse_seek j = Some t \<Longrightarrow> 0 \<le> t \<and> t \<le> 86400000"
  by (auto simp: parse_seek_def elim!: p_field_SomeE dest!: p_num_SomeD)

lemma parse_rate_bounds: "parse_rate j = Some r \<Longrightarrow> 1 / 4 \<le> r \<and> r \<le> 3"
  by (auto simp: parse_rate_def elim!: p_field_SomeE dest!: p_num_SomeD)

lemma parse_itemDuration_bounds: "parse_itemDuration j = Some (i, d) \<Longrightarrow> 0 < d \<and> d \<le> 86400"
  by (auto simp: parse_itemDuration_def p_duration_def day_seconds_def bind_eq_Some_conv
      elim!: p_field_SomeE dest!: p_num_SomeD)

lemma parse_passwordSet_bounds:
  "parse_passwordSet j = Some pw \<Longrightarrow> 1 \<le> length pw \<and> length pw \<le> 256"
  by (auto simp: parse_passwordSet_def elim!: p_field_SomeE dest!: p_str_SomeD)

lemma parse_mediaTitle_sanitized:
  assumes "p_mediaTitle j = Some v"
  shows "trimmed v \<and> length v \<le> 256 \<and> (\<forall>c\<in>set v. \<not> is_markup_char c)"
proof -
  from assms obtain raw where "sanitize_media_title raw = Some v"
    unfolding p_mediaTitle_def by (rule p_sanitized_SomeE)
  then have s: "sanitize_display_text raw
      \<lparr>so_maxLength = 256, so_rejectMarkup = False, so_stripMarkupDelimiters = True\<rparr> = Some v"
    by (simp add: sanitize_media_title_def)
  from sanitize_shape [OF s] sanitize_chars [OF s] show ?thesis by auto
qed

section \<open>Properties\<close>

text \<open>
  An accepted rename or observed title names an item id of 1 to 128 code units and a title
  that is trimmed, at most 256 code units long and free of markup delimiters; an accepted seek
  lies in the first 24 hours, an accepted rate in the room's range from 0.25 to 3.
\<close>

theorem accepted_payloads_in_bounds:
  "(parse_rename j = Some (i, n) \<or> parse_itemTitle j = Some (i, n) \<longrightarrow>
      1 \<le> length i \<and> length i \<le> 128 \<and> trimmed n \<and> length n \<le> 256 \<and> (\<forall>c\<in>set n. \<not> is_markup_char c))
   \<and> (parse_seek j = Some t \<longrightarrow> 0 \<le> t \<and> t \<le> 86400000)
   \<and> (parse_rate j = Some r \<longrightarrow> 1 / 4 \<le> r \<and> r \<le> 3)"
proof -
  have "1 \<le> length i \<and> length i \<le> 128 \<and> trimmed n \<and> length n \<le> 256
      \<and> (\<forall>c\<in>set n. \<not> is_markup_char c)"
    if prem: "parse_rename j = Some (i, n) \<or> parse_itemTitle j = Some (i, n)"
  proof -
    from prem obtain x y where "p_itemId x = Some i" and "p_mediaTitle y = Some n"
      by (auto simp: parse_rename_def parse_itemTitle_def bind_eq_Some_conv elim!: p_field_SomeE)
    then show ?thesis
      using parse_mediaTitle_sanitized by (auto simp: p_itemId_def dest!: p_str_SomeD)
  qed
  with parse_seek_bounds parse_rate_bounds show ?thesis by blast
qed

theorem accepted_payloads_in_bounds_witness:
  "parse_rename (JObj [(''itemId'', JStr ''i1''), (''name'', JStr '' Intro  2 '')])
       = Some (''i1'', ''Intro 2'') \<and> trimmed ''Intro 2''
     \<and> parse_seek (JObj [(''targetMs'', JNum 1500)]) = Some 1500 \<and> (1500 :: jsnum) \<le> 86400000
     \<and> parse_rate (JObj [(''playbackRate'', JNum 2)]) = Some 2 \<and> (2 :: jsnum) \<le> 3"
proof -
  have r: "parse_rename (JObj [(''itemId'', JStr ''i1''), (''name'', JStr '' Intro  2 '')])
       = Some (''i1'', ''Intro 2'')" by code_simp
  have s: "parse_seek (JObj [(''targetMs'', JNum 1500)]) = Some 1500"
    and t: "parse_rate (JObj [(''playbackRate'', JNum 2)]) = Some 2"
    by (simp_all add: parse_seek_def parse_rate_def p_field_def)
  show ?thesis
    using accepted_payloads_in_bounds [THEN conjunct1, rule_format, OF disjI1, OF r]
      accepted_payloads_in_bounds [THEN conjunct2, THEN conjunct1, rule_format, OF s]
      accepted_payloads_in_bounds [THEN conjunct2, THEN conjunct2, rule_format, OF t] r s t by blast
qed

end
