(* ===== verification/Permissions.thy ===== *)
theory Permissions
  imports Contracts
begin

text \<open>
  Who may change a room: the role predicates shared by client and server
  (\<open>src/src/shared/permissions-utils.ts\<close>) and the server's gates
  (\<open>src/src/server/realtime/services/permissions.ts\<close>).
\<close>

section \<open>Shared predicates\<close>

definition can_mutate_by_role :: "room_role option \<Rightarrow> bool" where
  "can_mutate_by_role role = (role = Some Owner \<or> role = Some Moderator)"

definition is_owner :: "room_role option \<Rightarrow> bool" where
  "is_owner role = (role = Some Owner)"

definition is_client_control_authorized :: "bool \<Rightarrow> bool \<Rightarrow> bool" where
  "is_client_control_authorized isControlSession controlAuthorized =
     (\<not> isControlSession \<or> controlAuthorized)"

definition can_mutate_from_client_session ::
  "room_role option \<Rightarrow> bool \<Rightarrow> bool \<Rightarrow> session_kind option \<Rightarrow> bool" where
  "can_mutate_from_client_session role isControlSession controlAuthorized sessionKind =
     (if sessionKind = Some SPlayer then False
      else can_mutate_by_role role \<and> is_client_control_authorized isControlSession controlAuthorized)"

section \<open>The server's gates\<close>

record auth_context =
  ac_isControlSession :: bool
  ac_controlAuthorized :: bool
  ac_sessionKind :: "session_kind option"

definition has_playback_and_playlist_control :: "('s, 'a) room_state_scheme \<Rightarrow> string \<Rightarrow> bool" where
  "has_playback_and_playlist_control st userId =
     (case map_of (st_participants st) userId of
        None \<Rightarrow> False
      | Some p \<Rightarrow> can_mutate_by_role (Some (pt_role p)))"

definition passes_session_gate :: "auth_context \<Rightarrow> bool" where
  "passes_session_gate ctx =
     (if ac_sessionKind ctx = Some SPlayer then False
      else if \<not> ac_isControlSession ctx then True
      else ac_controlAuthorized ctx)"

definition can_control_from_connection_context ::
  "('s, 'a) room_state_scheme \<Rightarrow> string \<Rightarrow> auth_context \<Rightarrow> bool" where
  "can_control_from_connection_context st userId ctx =
     (if \<not> passes_session_gate ctx then False else has_playback_and_playlist_control st userId)"

definition can_manage_room_security_from_connection_context ::
  "('s, 'a) room_state_scheme \<Rightarrow> string \<Rightarrow> auth_context \<Rightarrow> bool" where
  "can_manage_room_security_from_connection_context st userId ctx =
     (if \<not> passes_session_gate ctx then False else st_ownerId st = userId)"

definition compute_session_capabilities ::
  "room_role \<Rightarrow> session_kind \<Rightarrow> bool \<Rightarrow> bool \<Rightarrow> session_capabilities" where
  "compute_session_capabilities role sessionKind isControlSession controlAuthorized =
     (let sessionOk = passes_session_gate \<lparr>ac_isControlSession = isControlSession,
            ac_controlAuthorized = controlAuthorized, ac_sessionKind = Some sessionKind\<rparr>;
          canMutate = sessionOk \<and> can_mutate_by_role (Some role)
      in \<lparr>sc_canControlPlayback = canMutate, sc_canManagePlaylist = canMutate,
          sc_canManageRoomSecurity = sessionOk \<and> is_owner (Some role),
          sc_isControlSession = isControlSession, sc_controlAuthorized = controlAuthorized,
          sc_sessionKind = sessionKind\<rparr>)"

lemmas permission_defs = can_mutate_by_role_def is_owner_def is_client_control_authorized_def
  can_mutate_from_client_session_def has_playback_and_playlist_control_def
  passes_session_gate_def can_control_from_connection_context_def
  can_manage_room_security_from_connection_context_def compute_session_capabilities_def

text \<open>Sessions that never pass: the display player, and a control embed without a valid token.\<close>

lemma session_gate_iff:
  "passes_session_gate ctx \<longleftrightarrow>
     ac_sessionKind ctx \<noteq> Some SPlayer \<and> (ac_isControlSession ctx \<longrightarrow> ac_controlAuthorized ctx)"
  by (auto simp: passes_session_gate_def)

section \<open>Properties\<close>

text \<open>
  C3. The gate the client uses to enable its controls, the capabilities the server reports on
  join, and the gate the server applies to a playback or playlist command agree for every role
  and session: a control that is shown is one the server will accept, and no other is.
\<close>

theorem permission_gates_agree:
  assumes "map_of (st_participants st) userId = Some p"
  shows "can_control_from_connection_context st userId
           \<lparr>ac_isControlSession = ics, ac_controlAuthorized = auth, ac_sessionKind = Some kind\<rparr>
         = can_mutate_from_client_session (Some (pt_role p)) ics auth (Some kind)
       \<and> sc_canControlPlayback (compute_session_capabilities (pt_role p) kind ics auth)
         = can_mutate_from_client_session (Some (pt_role p)) ics auth (Some kind)
       \<and> sc_canManagePlaylist (compute_session_capabilities (pt_role p) kind ics auth)
         = sc_canControlPlayback (compute_session_capabilities (pt_role p) kind ics auth)
       \<and> (sc_canManageRoomSecurity (compute_session_capabilities (pt_role p) kind ics auth)
           \<longrightarrow> sc_canControlPlayback (compute_session_capabilities (pt_role p) kind ics auth))"
  using assms by (auto simp: permission_defs Let_def)

text \<open>A room with one moderator, used to exercise the theorems.\<close>

definition sample_playback :: playback_state where
  "sample_playback = \<lparr>pb_mediaId = Some ''m1'', pb_paused = False, pb_playbackRate = 1,
     pb_timelineAnchorMs = 5000, pb_serverNowMs = 1000, pb_videoLoop = LoopOff,
     pb_playlistLoop = LoopOff, pb_seekPreview = None\<rparr>"

definition sample_local_playback :: local_playback where
  "sample_local_playback = \<lparr>lp_paused = False, lp_currentTimeMs = 0, lp_loading = False,
     lp_error = None, lp_updatedAt = 1000\<rparr>"

definition sample_participant :: "string \<Rightarrow> room_role \<Rightarrow> bool \<Rightarrow> jsnum \<Rightarrow> participant" where
  "sample_participant uid role conn joined = \<lparr>pt_userId = uid, pt_username = uid,
     pt_avatarStyle = ''adventurer'', pt_role = role, pt_connected = conn,
     pt_joinedAt = Some joined, pt_connectedAt = Some joined, pt_disconnectedAt = None,
     pt_lastSeenAt = Some joined, pt_localPlayback = sample_local_playback, pt_viewerMedia = None\<rparr>"

definition sample_item :: "string \<Rightarrow> playlist_item" where
  "sample_item i = \<lparr>pi_id = i, pi_name = ''https://x.test/'' @ i, pi_sourceKind = RemoteUrl,
     pi_playbackMode = Direct, pi_sourceUrl = ''https://x.test/'' @ i,
     pi_playableUrl = ''https://x.test/'' @ i, pi_durationSeconds = None,
     pi_ingestStatus = Some IngestReady, pi_ingestError = None, pi_blockedReason = None,
     pi_mediaStreams = None, pi_textTracks = None, pi_defaultStreamId = None,
     pi_defaultTextTrackId = None, pi_isLive = None, pi_localMediaId = None,
     pi_localOriginUserId = None, pi_localMimeType = None, pi_localSizeBytes = None,
     pi_createdBy = ''own'', pi_createdAt = 0\<rparr>"

definition sample_room :: server_room where
  "sample_room = \<lparr>st_roomId = ''r1'', st_ownerId = ''own'',
     st_roomSecurity = \<lparr>rs_joinPasswordEnabled = False, rs_joinPasswordUpdatedAt = None,
       rs_admissionVersion = 0, rs_defaultJoinRole = JoinGuest, rs_joinPasswordHash = None,
       rs_joinPasswordSalt = None\<rparr>,
     st_playback = sample_playback,
     st_playlist = [sample_item ''m0'', sample_item ''m1'', sample_item ''m2''],
     st_currentIndex = 1,
     st_participants = [(''own'', sample_participant ''own'' Owner True 100),
       (''mod'', sample_participant ''mod'' Moderator True 200),
       (''gst'', sample_participant ''gst'' Guest True 300)],
     st_actionLog = [], st_updatedAt = 1000, st_generation = 4, st_structuralRevision = 2,
     st_presenceRevision = None\<rparr>"

lemmas sample_defs = sample_room_def sample_item_def sample_participant_def sample_playback_def
  sample_local_playback_def

theorem permission_gates_agree_witness:
  "can_control_from_connection_context sample_room ''mod''
     \<lparr>ac_isControlSession = False, ac_controlAuthorized = False, ac_sessionKind = Some SRoom\<rparr>
   = can_mutate_from_client_session (Some Moderator) False False (Some SRoom)"
proof -
  have "map_of (st_participants sample_room) ''mod'' = Some (sample_participant ''mod'' Moderator True 200)"
    by (simp add: sample_room_def)
  from permission_gates_agree [OF this, of False False SRoom] show ?thesis
    by (simp add: sample_participant_def)
qed

end
