(* ===== verification/Timeline.thy ===== *)
theory Timeline
  imports Contracts
begin

text \<open>
  The authoritative playback clock (\<open>src/src/server/realtime/services/timeline.ts\<close>), the
  client's projection of it, and the current playlist item
  (\<open>src/src/shared/playlist-current.ts\<close>).  \<open>Date.now()\<close> is the argument \<open>now\<close>;
  one handler reads one clock value.
\<close>

section \<open>The server's clock\<close>

definition next_monotonic_ms :: "jsnum \<Rightarrow> jsnum \<Rightarrow> jsnum" where
  "next_monotonic_ms previous next' = max (previous + 1) next'"

definition resolve_current_timeline_ms :: "('s, 'a) room_state_scheme \<Rightarrow> jsnum \<Rightarrow> jsnum" where
  "resolve_current_timeline_ms st now =
     (let pb = st_playback st in
      if pb_paused pb then pb_timelineAnchorMs pb
      else pb_timelineAnchorMs pb + max 0 (now - pb_serverNowMs pb) * pb_playbackRate pb)"

definition commit_playback_seek ::
  "server_room \<Rightarrow> jsnum \<Rightarrow> jsnum \<Rightarrow> server_room \<times> jsnum \<times> jsnum" where
  "commit_playback_seek st targetMs now =
     (let fromMs = max 0 (js_floor (resolve_current_timeline_ms st now));
          toMs = max 0 targetMs;
          pb = st_playback st
      in (st\<lparr>st_playback := pb\<lparr>pb_timelineAnchorMs := toMs,
             pb_serverNowMs := next_monotonic_ms (pb_serverNowMs pb) now,
             pb_seekPreview := None\<rparr>\<rparr>, fromMs, toMs))"

definition reanchor_playback_at_now :: "server_room \<Rightarrow> jsnum \<Rightarrow> server_room" where
  "reanchor_playback_at_now st now =
     (let pb = st_playback st in
      st\<lparr>st_playback := pb\<lparr>pb_timelineAnchorMs := resolve_current_timeline_ms st now,
           pb_serverNowMs := next_monotonic_ms (pb_serverNowMs pb) now\<rparr>\<rparr>)"

definition reset_playback_timeline :: "server_room \<Rightarrow> jsnum \<Rightarrow> bool \<Rightarrow> server_room" where
  "reset_playback_timeline st now pause =
     (let pb = st_playback st;
          pb1 = pb\<lparr>pb_timelineAnchorMs := 0,
                  pb_serverNowMs := next_monotonic_ms (pb_serverNowMs pb) now\<rparr>
      in st\<lparr>st_playback := (if pause then pb1\<lparr>pb_paused := True\<rparr> else pb1)\<rparr>)"

definition get_current_media_id :: "('s, 'a) room_state_scheme \<Rightarrow> string option" where
  "get_current_media_id st = map_option pi_id (js_nth (st_playlist st) (st_currentIndex st))"

definition mark_current_media :: "server_room \<Rightarrow> server_room" where
  "mark_current_media st =
     st\<lparr>st_playback := (st_playback st)\<lparr>pb_mediaId := get_current_media_id st\<rparr>\<rparr>"

definition bump_room_revisions :: "server_room \<Rightarrow> server_room" where
  "bump_room_revisions st =
     st\<lparr>st_generation := st_generation st + 1, st_structuralRevision := st_structuralRevision st + 1\<rparr>"

section \<open>The current item\<close>

text \<open>\<open>if (mediaId)\<close> is false for the empty string too.\<close>

definition resolve_current_playlist_item :: "('s, 'a) room_state_scheme \<Rightarrow> playlist_item option" where
  "resolve_current_playlist_item st =
     (case pb_mediaId (st_playback st) of
        Some mid \<Rightarrow>
          (if mid \<noteq> '''' then
             case find (\<lambda>it. pi_id it = mid) (st_playlist st) of
               Some it \<Rightarrow> Some it
             | None \<Rightarrow> js_nth (st_playlist st) (st_currentIndex st)
           else js_nth (st_playlist st) (st_currentIndex st))
      | None \<Rightarrow> js_nth (st_playlist st) (st_currentIndex st))"

definition resolve_current_playlist_item_id :: "('s, 'a) room_state_scheme \<Rightarrow> string option" where
  "resolve_current_playlist_item_id st = map_option pi_id (resolve_current_playlist_item st)"

section \<open>The playback invariant\<close>

definition playback_wf :: "playback_state \<Rightarrow> bool" where
  "playback_wf pb = (1 / 4 \<le> pb_playbackRate pb \<and> pb_playbackRate pb \<le> 3
     \<and> 0 \<le> pb_timelineAnchorMs pb \<and> 0 \<le> pb_serverNowMs pb)"

lemmas timeline_defs = commit_playback_seek_def reanchor_playback_at_now_def
  reset_playback_timeline_def mark_current_media_def bump_room_revisions_def

lemma next_monotonic_less: "p < next_monotonic_ms p n"
  by (simp add: next_monotonic_ms_def)

lemma next_monotonic_ge: "n \<le> next_monotonic_ms p n"
  by (simp add: next_monotonic_ms_def)

lemma next_monotonic_eq: "p + 1 \<le> n \<Longrightarrow> next_monotonic_ms p n = n"
  by (simp add: next_monotonic_ms_def)

lemma next_monotonic_nonneg: "0 \<le> p \<Longrightarrow> 0 \<le> next_monotonic_ms p n"
  by (simp add: next_monotonic_ms_def)

lemma resolve_timeline_nonneg:
  "playback_wf (st_playback st) \<Longrightarrow> 0 \<le> resolve_current_timeline_ms st now"
  by (auto simp: resolve_current_timeline_ms_def playback_wf_def Let_def)

lemma playback_wf_seek [wf_intros]:
  "playback_wf (st_playback st) \<Longrightarrow> playback_wf (st_playback (fst (commit_playback_seek st t now)))"
  by (simp add: commit_playback_seek_def playback_wf_def Let_def next_monotonic_nonneg)

lemma playback_wf_reanchor [wf_intros]:
  "playback_wf (st_playback st) \<Longrightarrow> playback_wf (st_playback (reanchor_playback_at_now st now))"
  using resolve_timeline_nonneg [of st now]
  by (simp add: reanchor_playback_at_now_def playback_wf_def Let_def next_monotonic_nonneg)

lemma playback_wf_reset [wf_intros]:
  "playback_wf (st_playback st) \<Longrightarrow> playback_wf (st_playback (reset_playback_timeline st now p))"
  by (simp add: reset_playback_timeline_def playback_wf_def Let_def next_monotonic_nonneg)

lemma playback_wf_mark [simp]:
  "playback_wf (st_playback (mark_current_media st)) = playback_wf (st_playback st)"
  by (simp add: mark_current_media_def playback_wf_def)

text \<open>What the operations leave alone.\<close>

lemma timeline_frame [simp]:
  "st_playlist (fst (commit_playback_seek st t now)) = st_playlist st"
  "st_currentIndex (fst (commit_playback_seek st t now)) = st_currentIndex st"
  "st_participants (fst (commit_playback_seek st t now)) = st_participants st"
  "st_playlist (reanchor_playback_at_now st now) = st_playlist st"
  "st_currentIndex (reanchor_playback_at_now st now) = st_currentIndex st"
  "st_participants (reanchor_playback_at_now st now) = st_participants st"
  "st_playlist (reset_playback_timeline st now p) = st_playlist st"
  "st_currentIndex (reset_playback_timeline st now p) = st_currentIndex st"
  "st_participants (reset_playback_timeline st now p) = st_participants st"
  "st_playlist (mark_current_media st) = st_playlist st"
  "st_currentIndex (mark_current_media st) = st_currentIndex st"
  "st_participants (mark_current_media st) = st_participants st"
  "st_playlist (bump_room_revisions st) = st_playlist st"
  "st_currentIndex (bump_room_revisions st) = st_currentIndex st"
  "st_participants (bump_room_revisions st) = st_participants st"
  "st_playback (bump_room_revisions st) = st_playback st"
  by (simp_all add: timeline_defs Let_def)

section \<open>One contract for every transport step\<close>

text \<open>
  Every step that touches the clock stamps it with \<open>nextMonotonicMs\<close> and keeps the playback
  invariant.  A client that only accepts newer stamps therefore never sees two different states
  with one stamp.  The locale is what the handlers rely on; it is interpreted on the three
  operations of the code.
\<close>

locale clock_step =
  fixes step :: "jsnum \<Rightarrow> server_room \<Rightarrow> server_room"
  assumes stamp: "pb_serverNowMs (st_playback (step now st)) =
      next_monotonic_ms (pb_serverNowMs (st_playback st)) now"
    and keeps_wf: "playback_wf (st_playback st) \<Longrightarrow> playback_wf (st_playback (step now st))"
begin

lemma stamp_increases:
  "pb_serverNowMs (st_playback st) < pb_serverNowMs (st_playback (step now st))"
  by (simp add: stamp next_monotonic_less)

lemma stamp_reaches_now: "now \<le> pb_serverNowMs (st_playback (step now st))"
  by (simp add: stamp next_monotonic_ge)

text \<open>Whatever clock values a run of steps reads, stamps strictly increase along it.\<close>

lemma run_stamp_mono:
  "pb_serverNowMs (st_playback st) + of_nat (length nows)
     \<le> pb_serverNowMs (st_playback (fold step nows st))"
proof (induction nows arbitrary: st)
  case (Cons n ns)
  have "pb_serverNowMs (st_playback st) + 1 \<le> pb_serverNowMs (st_playback (step n st))"
    by (simp add: stamp next_monotonic_ms_def)
  with Cons.IH [of "step n st"] show ?case by simp
qed simp

lemma run_keeps_wf: "playback_wf (st_playback st) \<Longrightarrow> playback_wf (st_playback (fold step nows st))"
  by (induction nows arbitrary: st) (auto intro: keeps_wf)

end

interpretation seek_clock: clock_step "\<lambda>now st. fst (commit_playback_seek st t now)" for t
  by unfold_locales (simp_all add: commit_playback_seek_def Let_def playback_wf_def next_monotonic_nonneg)

interpretation reanchor_clock: clock_step "\<lambda>now st. reanchor_playback_at_now st now"
  by unfold_locales (simp add: reanchor_playback_at_now_def Let_def, rule playback_wf_reanchor)

interpretation reset_clock: clock_step "\<lambda>now st. reset_playback_timeline st now p" for p
  by unfold_locales (simp add: reset_playback_timeline_def Let_def, rule playback_wf_reset)

lemma seek_then_time:
  assumes "pb_paused (st_playback st)"
  shows "resolve_current_timeline_ms (fst (commit_playback_seek st t now)) later = max 0 t"
  using assms by (simp add: commit_playback_seek_def resolve_current_timeline_ms_def Let_def)

text \<open>
  Reanchoring does not move the playhead: as long as the clock stamp was not ahead of the clock,
  the projected time is the same before and after, and stays so at every later instant.
\<close>

lemma reanchor_continuous:
  assumes "pb_serverNowMs (st_playback st) + 1 \<le> now" and "now \<le> later"
  shows "resolve_current_timeline_ms (reanchor_playback_at_now st now) later =
    resolve_current_timeline_ms st later"
  using assms
  by (simp add: reanchor_playback_at_now_def resolve_current_timeline_ms_def Let_def
      next_monotonic_eq algebra_simps)

lemma resolve_mono:
  assumes "playback_wf (st_playback st)" and "a \<le> b"
  shows "resolve_current_timeline_ms st a \<le> resolve_current_timeline_ms st b"
  using assms unfolding resolve_current_timeline_ms_def playback_wf_def Let_def
  by (auto intro!: mult_right_mono)

end
