(* ===== verification/Action_Log.thy ===== *)
theory Action_Log
  imports Permissions
begin

text \<open>
  The room's action log (\<open>src/src/server/log.ts\<close>) and the limits of the environment
  (\<open>src/src/env.ts\<close>).
\<close>

record limits =
  lim_participants :: nat
  lim_playlist :: nat
  lim_actionLog :: nat

definition visible_action_types :: "string list" where
  "visible_action_types = [''participant:joined'', ''participant:disconnected'',
     ''participant:username'', ''participant:role:changed'', ''participant:owner:transferred'',
     ''participant:error'', ''playback:pause'', ''playback:unpause'', ''playback:rate'',
     ''playback:seek'', ''playback:loop'', ''playlist:add'', ''playlist:remove'',
     ''playlist:reorder'', ''media:played'']"

definition server_only_action_types :: "string list" where
  "server_only_action_types = [''room:password:set'', ''room:password:cleared'', ''room:default-role:set'']"

definition tracked_action_types :: "string list" where
  "tracked_action_types = visible_action_types @ server_only_action_types"

definition room_state_ttl_seconds :: jsnum where "room_state_ttl_seconds = 3600"

definition room_action_log_max_age_ms :: jsnum where
  "room_action_log_max_age_ms = room_state_ttl_seconds * 1000"

definition prune_action_log :: "limits \<Rightarrow> action_entry list \<Rightarrow> jsnum \<Rightarrow> action_entry list" where
  "prune_action_log cfg lg now =
     (let cutoff = now - room_action_log_max_age_ms;
          next' = filter (\<lambda>e. ae_at e \<ge> cutoff) lg
      in if length next' > lim_actionLog cfg then slice_last (lim_actionLog cfg) next' else next')"

record action_input =
  ai_roomId :: string
  ai_actorUserId :: string
  ai_actorUsername :: "string option"
  ai_action :: string
  ai_payload :: "(string \<times> json) list"
  ai_error :: "string option"

text \<open>The fresh id and the clock are arguments; no caller of the modelled code passes \<open>at\<close>.\<close>

definition append_action_log ::
  "limits \<Rightarrow> string \<Rightarrow> jsnum \<Rightarrow> ('s, 'a) room_state_scheme \<Rightarrow> action_input \<Rightarrow> ('s, 'a) room_state_scheme" where
  "append_action_log cfg uid now st entry =
     (if ai_action entry \<notin> set tracked_action_types then st
      else st\<lparr>st_actionLog := prune_action_log cfg (st_actionLog st @
             [\<lparr>ae_id = uid, ae_at = now, ae_roomId = ai_roomId entry,
               ae_actorUserId = ai_actorUserId entry, ae_actorUsername = ai_actorUsername entry,
               ae_action = ai_action entry, ae_payload = ai_payload entry,
               ae_error = ai_error entry\<rparr>]) now\<rparr>)"

text \<open>The log is bounded, recent and holds tracked actions only.\<close>

definition log_wf :: "limits \<Rightarrow> action_entry list \<Rightarrow> bool" where
  "log_wf cfg lg = (length lg \<le> lim_actionLog cfg
     \<and> (\<forall>e\<in>set lg. ae_action e \<in> set tracked_action_types))"

lemma length_prune_action_log: "length (prune_action_log cfg lg now) \<le> lim_actionLog cfg"
  by (simp add: prune_action_log_def Let_def)

lemma set_prune_action_log:
  "e \<in> set (prune_action_log cfg lg now) \<Longrightarrow> e \<in> set lg \<and> now - room_action_log_max_age_ms \<le> ae_at e"
  unfolding prune_action_log_def Let_def
  using set_slice_last_subset by (auto split: if_splits) fastforce+

lemma prune_action_log_idem:
  "prune_action_log cfg (prune_action_log cfg lg now) now = prune_action_log cfg lg now"
proof -
  let ?r = "prune_action_log cfg lg now"
  have "filter (\<lambda>e. ae_at e \<ge> now - room_action_log_max_age_ms) ?r = ?r"
    using set_prune_action_log by (intro filter_True) blast
  then show ?thesis
    using length_prune_action_log [of cfg lg now]
    by (simp add: prune_action_log_def [of cfg ?r] Let_def)
qed

lemma prune_keeps_newest:
  assumes "0 < lim_actionLog cfg" and "now - room_action_log_max_age_ms \<le> ae_at e"
  shows "prune_action_log cfg (lg @ [e]) now \<noteq> [] \<and> last (prune_action_log cfg (lg @ [e]) now) = e"
  using assms by (auto simp: prune_action_log_def Let_def slice_last_def drop_Cons' split: if_splits)

lemma append_log_wf [wf_intros]:
  "log_wf cfg (st_actionLog st) \<Longrightarrow> log_wf cfg (st_actionLog (append_action_log cfg uid now st e))"
  unfolding log_wf_def append_action_log_def
  using length_prune_action_log by (auto dest!: set_prune_action_log)

lemma append_log_frame [simp]:
  "st_playback (append_action_log cfg uid now st e) = st_playback st"
  "st_playlist (append_action_log cfg uid now st e) = st_playlist st"
  "st_currentIndex (append_action_log cfg uid now st e) = st_currentIndex st"
  "st_participants (append_action_log cfg uid now st e) = st_participants st"
  "st_ownerId (append_action_log cfg uid now st e) = st_ownerId st"
  "st_roomId (append_action_log cfg uid now st e) = st_roomId st"
  "st_roomSecurity (append_action_log cfg uid now st e) = st_roomSecurity st"
  "st_generation (append_action_log cfg uid now st e) = st_generation st"
  "st_structuralRevision (append_action_log cfg uid now st e) = st_structuralRevision st"
  "st_updatedAt (append_action_log cfg uid now st e) = st_updatedAt st"
  by (simp_all add: append_action_log_def)

lemma append_untracked: "ai_action e \<notin> set tracked_action_types \<Longrightarrow> append_action_log cfg uid now st e = st"
  by (simp add: append_action_log_def)

section \<open>Properties\<close>

text \<open>
  Logging a tracked action makes it the newest entry; the log never exceeds its limit, keeps
  only entries of the last hour, and drops nothing but the oldest.
\<close>

theorem append_action_log_newest:
  assumes "0 < lim_actionLog cfg" and "ai_action e \<in> set tracked_action_types"
  shows "let lg = st_actionLog (append_action_log cfg uid now st e) in
     lg \<noteq> [] \<and> ae_id (last lg) = uid \<and> ae_action (last lg) = ai_action e
     \<and> length lg \<le> lim_actionLog cfg
     \<and> (\<forall>x\<in>set lg. now - 3600000 \<le> ae_at x)
     \<and> (\<exists>dropped kept. filter (\<lambda>x. now - 3600000 \<le> ae_at x) (st_actionLog st) = dropped @ kept
          \<and> lg = kept @ [last lg])"
proof -
  define x where "x = \<lparr>ae_id = uid, ae_at = now, ae_roomId = ai_roomId e,
    ae_actorUserId = ai_actorUserId e, ae_actorUsername = ai_actorUsername e,
    ae_action = ai_action e, ae_payload = ai_payload e, ae_error = ai_error e\<rparr>"
  let ?lg = "st_actionLog (append_action_log cfg uid now st e)"
  let ?old = "filter (\<lambda>x. now - 3600000 \<le> ae_at x) (st_actionLog st)"
  have lg_eq: "?lg = prune_action_log cfg (st_actionLog st @ [x]) now"
    using assms(2) by (simp add: append_action_log_def x_def)
  have age: "room_action_log_max_age_ms = 3600000"
    by (simp add: room_action_log_max_age_ms_def room_state_ttl_seconds_def)
  have ne: "?lg \<noteq> []" "last ?lg = x"
    unfolding lg_eq using prune_keeps_newest [OF assms(1)] age by (auto simp: x_def)
  have "?lg = drop (Suc (length ?old) - lim_actionLog cfg) (?old @ [x])"
    unfolding lg_eq prune_action_log_def Let_def age slice_last_def by (auto simp: x_def)
  also have "\<dots> = drop (Suc (length ?old) - lim_actionLog cfg) ?old @ [x]"
    using assms(1) by simp
  finally have split: "?lg = drop (Suc (length ?old) - lim_actionLog cfg) ?old @ [last ?lg]"
    using ne(2) by simp
  have "\<exists>dropped kept. ?old = dropped @ kept \<and> ?lg = kept @ [last ?lg]"
    using split by (metis append_take_drop_id)
  moreover have "length ?lg \<le> lim_actionLog cfg" "\<forall>x\<in>set ?lg. now - 3600000 \<le> ae_at x"
    unfolding lg_eq using length_prune_action_log set_prune_action_log age by auto
  ultimately show ?thesis
    using ne by (simp add: x_def Let_def)
qed

definition sample_limits :: limits where
  "sample_limits = \<lparr>lim_participants = 100, lim_playlist = 50, lim_actionLog = 500\<rparr>"

definition sample_entry :: "string \<Rightarrow> action_input" where
  "sample_entry a = \<lparr>ai_roomId = ''r1'', ai_actorUserId = ''mod'', ai_actorUsername = None,
     ai_action = a, ai_payload = [], ai_error = None\<rparr>"

theorem append_action_log_newest_witness:
  "ae_id (last (st_actionLog (append_action_log sample_limits ''u1'' 5000 sample_room
     (sample_entry ''playback:seek'')))) = ''u1''"
  using append_action_log_newest [of sample_limits "sample_entry ''playback:seek''" "''u1''" 5000 sample_room]
  by (simp add: sample_limits_def sample_entry_def tracked_action_types_def visible_action_types_def
      server_only_action_types_def Let_def)

text \<open>
  C7. The handler for \<open>playlist:rename\<close> logs an action type that neither list tracks, so the
  entry is dropped without a trace: a rename never reaches the action log.
\<close>

theorem rename_action_untracked:
  "append_action_log cfg uid now st (e\<lparr>ai_action := ''playlist:rename''\<rparr>) = st"
  by (simp add: append_action_log_def tracked_action_types_def visible_action_types_def
      server_only_action_types_def)

end
