(* ===== verification/Playlist.thy ===== *)
theory Playlist
  imports Timeline Action_Log "HOL-Library.Multiset"
begin

text \<open>
  The playlist operations (\<open>src/src/server/realtime/services/playlist-ops.ts\<close>).  An operation
  that mutates the room and returns a value or \<open>null\<close> returns the new room and an option.
  Fresh ids and the clock are arguments.
\<close>

section \<open>Operations\<close>

definition can_retry_remote_playlist_item :: "playlist_item option \<Rightarrow> bool" where
  "can_retry_remote_playlist_item it =
     (case it of None \<Rightarrow> False
      | Some i \<Rightarrow> if pi_blockedReason i = Some LocalOwnerOffline then False
                 else pi_sourceKind i = RemoteUrl)"

definition apply_playlist_select :: "server_room \<Rightarrow> int \<Rightarrow> jsnum \<Rightarrow> server_room \<times> bool" where
  "apply_playlist_select st index now =
     (if index < 0 \<or> index \<ge> int (length (st_playlist st)) then (st, False)
      else (reset_playback_timeline (st\<lparr>st_currentIndex := index\<rparr>) now False, True))"

definition apply_playlist_reorder :: "server_room \<Rightarrow> int \<Rightarrow> int \<Rightarrow> server_room \<times> playlist_item option" where
  "apply_playlist_reorder st fromI toI =
     (let pl = st_playlist st; n = int (length pl) in
      if fromI < 0 \<or> toI < 0 \<or> fromI \<ge> n \<or> toI \<ge> n then (st, None)
      else
        let currentMediaId = get_current_media_id st;
            entry = pl ! nat fromI;
            pl' = insert_at (nat toI) entry (remove_at (nat fromI) pl);
            st1 = st\<lparr>st_playlist := pl'\<rparr>;
            st2 = (if truthy currentMediaId then
                     case find_index (\<lambda>it. pi_id it = the currentMediaId) pl' of
                       Some k \<Rightarrow> st1\<lparr>st_currentIndex := int k\<rparr>
                     | None \<Rightarrow> st1
                   else st1)
        in (st2, Some entry))"

definition update_item :: "nat \<Rightarrow> (playlist_item \<Rightarrow> playlist_item) \<Rightarrow> ('s, 'a) room_state_scheme \<Rightarrow> ('s, 'a) room_state_scheme" where
  "update_item i f st = st\<lparr>st_playlist := (st_playlist st)[i := f (st_playlist st ! i)]\<rparr>"

definition find_item :: "string \<Rightarrow> ('s, 'a) room_state_scheme \<Rightarrow> nat option" where
  "find_item itemId st = find_index (\<lambda>it. pi_id it = itemId) (st_playlist st)"

definition apply_playlist_rename ::
  "server_room \<Rightarrow> string \<Rightarrow> string \<Rightarrow> server_room \<times> (playlist_item \<times> string \<times> string) option" where
  "apply_playlist_rename st itemId rawName =
     (case find_item itemId st of None \<Rightarrow> (st, None)
      | Some i \<Rightarrow>
          let item = st_playlist st ! i; nextName = trim rawName in
          if nextName = [] \<or> nextName = pi_name item then (st, None)
          else (update_item i (\<lambda>it. it\<lparr>pi_name := nextName\<rparr>) st,
                Some (item\<lparr>pi_name := nextName\<rparr>, pi_name item, nextName)))"

definition prune_viewer_media :: "string \<Rightarrow> participant \<Rightarrow> participant" where
  "prune_viewer_media itemId p =
     (case pt_viewerMedia p of None \<Rightarrow> p
      | Some byItemId \<Rightarrow>
          if itemId \<notin> set (keys_of byItemId) then p
          else let rest = AList.delete itemId byItemId in
               p\<lparr>pt_viewerMedia := (if rest = [] then None else Some rest)\<rparr>)"

definition prune_viewer_media_item_id :: "server_room \<Rightarrow> string \<Rightarrow> server_room" where
  "prune_viewer_media_item_id st itemId =
     st\<lparr>st_participants := map_vals (prune_viewer_media itemId) (st_participants st)\<rparr>"

definition apply_playlist_remove ::
  "server_room \<Rightarrow> string \<Rightarrow> jsnum \<Rightarrow> server_room \<times> (playlist_item \<times> nat) option" where
  "apply_playlist_remove st itemId now =
     (case find_item itemId st of None \<Rightarrow> (st, None)
      | Some index \<Rightarrow>
          let removed = st_playlist st ! index;
              st1 = st\<lparr>st_playlist := remove_at index (st_playlist st)\<rparr>;
              st2 = (if st_playlist st1 = [] then
                       reset_playback_timeline (st1\<lparr>st_currentIndex := 0\<rparr>) now True
                     else if int index < st_currentIndex st1 then
                       st1\<lparr>st_currentIndex := st_currentIndex st1 - 1\<rparr>
                     else if int index = st_currentIndex st1 then
                       reset_playback_timeline
                         (st1\<lparr>st_currentIndex := min (int index) (int (length (st_playlist st1)) - 1)\<rparr>)
                         now False
                     else st1)
          in (prune_viewer_media_item_id st2 (pi_id removed), Some (removed, index)))"

definition apply_playlist_item_error ::
  "server_room \<Rightarrow> string \<Rightarrow> string option \<Rightarrow> jsnum \<Rightarrow> server_room \<times> (playlist_item \<times> bool) option" where
  "apply_playlist_item_error st itemId err now =
     (case find_item itemId st of None \<Rightarrow> (st, None)
      | Some index \<Rightarrow>
          let item = st_playlist st ! index in
          (case err of
             None \<Rightarrow>
               if pi_ingestStatus item \<noteq> Some IngestError \<and> \<not> truthy (pi_ingestError item)
               then (st, None)
               else let f = (\<lambda>it. it\<lparr>pi_ingestStatus := Some IngestReady, pi_ingestError := None\<rparr>)
                    in (update_item index f st, Some (f item, True))
           | Some e \<Rightarrow>
               if pi_ingestStatus item = Some IngestError \<and> truthy (pi_ingestError item)
               then (st, Some (item, False))
               else
                 let f = (\<lambda>it. it\<lparr>pi_ingestStatus := Some IngestError, pi_ingestError := Some e\<rparr>);
                     st1 = update_item index f st;
                     n = int (length (st_playlist st1));
                     nextIndex = min (n - 1) (int index + 1);
                     st2 = (if st_currentIndex st1 = int index \<and> n > 1 \<and> nextIndex \<noteq> int index
                            then reset_playback_timeline (st1\<lparr>st_currentIndex := nextIndex\<rparr>) now False
                            else st1)
                 in (st2, Some (f item, False))))"

definition apply_playlist_item_duration ::
  "server_room \<Rightarrow> string \<Rightarrow> jsnum \<Rightarrow> server_room \<times> playlist_item option" where
  "apply_playlist_item_duration st itemId durationSeconds =
     (case find_item itemId st of None \<Rightarrow> (st, None)
      | Some i \<Rightarrow>
          let item = st_playlist st ! i in
          if pi_isLive item = Some True then (st, None)
          else if durationSeconds \<le> 0 then (st, None)
          else if finite_pos (pi_durationSeconds item) \<noteq> None then (st, None)
          else let f = (\<lambda>it. it\<lparr>pi_durationSeconds := Some (of_int (js_round durationSeconds))\<rparr>)
               in (update_item i f st, Some (f item)))"

definition is_playlist_item_name_placeholder :: "playlist_item \<Rightarrow> bool" where
  "is_playlist_item_name_placeholder item = (trim (pi_name item) = trim (pi_sourceUrl item))"

definition apply_playlist_item_title ::
  "server_room \<Rightarrow> string \<Rightarrow> string \<Rightarrow> server_room \<times> playlist_item option" where
  "apply_playlist_item_title st itemId rawName =
     (case find_item itemId st of None \<Rightarrow> (st, None)
      | Some i \<Rightarrow>
          let item = st_playlist st ! i; nextName = trim rawName in
          if \<not> is_playlist_item_name_placeholder item then (st, None)
          else if nextName = [] then (st, None)
          else if nextName = trim (pi_name item) then (st, None)
          else if nextName = trim (pi_sourceUrl item) then (st, None)
          else (update_item i (\<lambda>it. it\<lparr>pi_name := nextName\<rparr>) st, Some (item\<lparr>pi_name := nextName\<rparr>)))"

definition is_playlist_at_limit :: "server_room \<Rightarrow> nat \<Rightarrow> bool" where
  "is_playlist_at_limit st limit = (length (st_playlist st) \<ge> limit)"

definition build_remote_url_playlist_item ::
  "string \<Rightarrow> string \<Rightarrow> string \<Rightarrow> jsnum \<Rightarrow> playlist_item" where
  "build_remote_url_playlist_item itemId sourceUrl createdBy createdAt =
     \<lparr>pi_id = itemId, pi_name = sourceUrl, pi_sourceKind = RemoteUrl, pi_playbackMode = Direct,
      pi_sourceUrl = sourceUrl, pi_playableUrl = sourceUrl, pi_durationSeconds = None,
      pi_ingestStatus = Some IngestResolving, pi_ingestError = None, pi_blockedReason = None,
      pi_mediaStreams = None, pi_textTracks = None, pi_defaultStreamId = None,
      pi_defaultTextTrackId = None, pi_isLive = None, pi_localMediaId = None,
      pi_localOriginUserId = None, pi_localMimeType = None, pi_localSizeBytes = None,
      pi_createdBy = createdBy, pi_createdAt = createdAt\<rparr>"

text \<open>\<open>encodeURIComponent\<close> on code units below 256, whose UTF-8 form has one or two bytes.\<close>

definition hex_digit :: "nat \<Rightarrow> char" where
  "hex_digit d = (if d < 10 then char_of (48 + d) else char_of (55 + d))"

definition percent_byte :: "nat \<Rightarrow> string" where
  "percent_byte b = [CHR ''%'', hex_digit (b div 16), hex_digit (b mod 16)]"

definition is_unreserved :: "char \<Rightarrow> bool" where
  "is_unreserved c = (let n = (of_char c :: nat) in (48 \<le> n \<and> n \<le> 57) \<or> (65 \<le> n \<and> n \<le> 90)
     \<or> (97 \<le> n \<and> n \<le> 122) \<or> c \<in> {CHR ''-'', CHR ''_'', CHR ''.'', CHR ''!'', CHR ''~'', CHR ''*'',
       CHR 0x27, CHR ''('', CHR '')''})"

definition encode_uri_component :: "string \<Rightarrow> string" where
  "encode_uri_component s = concat (map (\<lambda>c. let n = (of_char c :: nat) in
     if is_unreserved c then [c]
     else if n < 128 then percent_byte n
     else percent_byte (192 + n div 64) @ percent_byte (128 + n mod 64)) s)"

definition build_local_file_playlist_item ::
  "string \<Rightarrow> string \<Rightarrow> string \<Rightarrow> string \<Rightarrow> jsnum \<Rightarrow> string \<Rightarrow> jsnum \<Rightarrow> jsnum option \<Rightarrow> playlist_item" where
  "build_local_file_playlist_item itemId name localMediaId mimeType sizeBytes createdBy createdAt durationSeconds =
     (let playableUrl = ''/api/media/local/'' @ encode_uri_component localMediaId in
      \<lparr>pi_id = itemId, pi_name = name, pi_sourceKind = LocalFile, pi_playbackMode = Direct,
       pi_sourceUrl = playableUrl, pi_playableUrl = playableUrl,
       pi_durationSeconds = map_option (\<lambda>d. of_int (js_round d)) (finite_pos durationSeconds),
       pi_ingestStatus = Some IngestReady, pi_ingestError = None, pi_blockedReason = None,
       pi_mediaStreams = Some [\<lparr>ms_id = ''local-default'', ms_src = playableUrl,
         ms_type = Some mimeType, ms_protocol = None, ms_width = None, ms_height = None,
         ms_bitrate = None, ms_audioBitrate = None, ms_label = Some ''Local'',
         ms_isDefault = Some True, ms_kind = Some Combined, ms_vcodec = None, ms_acodec = None,
         ms_audioLanguage = None\<rparr>],
       pi_textTracks = None, pi_defaultStreamId = Some ''local-default'',
       pi_defaultTextTrackId = None, pi_isLive = None, pi_localMediaId = Some localMediaId,
       pi_localOriginUserId = Some createdBy, pi_localMimeType = Some mimeType,
       pi_localSizeBytes = Some sizeBytes, pi_createdBy = createdBy, pi_createdAt = createdAt\<rparr>)"

lemmas playlist_op_defs = apply_playlist_select_def apply_playlist_reorder_def
  apply_playlist_rename_def apply_playlist_remove_def apply_playlist_item_error_def
  apply_playlist_item_duration_def apply_playlist_item_title_def

section \<open>The playlist invariant\<close>

text \<open>Item ids are distinct and not empty, and the current index points into the playlist.\<close>

definition index_ok :: "('s, 'a) room_state_scheme \<Rightarrow> bool" where
  "index_ok st = (if st_playlist st = [] then st_currentIndex st = 0
     else 0 \<le> st_currentIndex st \<and> st_currentIndex st < int (length (st_playlist st)))"

definition ids_ok :: "playlist_item list \<Rightarrow> bool" where
  "ids_ok pl = (distinct (map pi_id pl) \<and> (\<forall>it\<in>set pl. pi_id it \<noteq> []))"

definition playlist_wf :: "('s, 'a) room_state_scheme \<Rightarrow> bool" where
  "playlist_wf st = (index_ok st \<and> ids_ok (st_playlist st))"

lemmas playlist_wf_defs = playlist_wf_def index_ok_def ids_ok_def

lemma playlist_wf_cong [simp]:
  "playlist_wf (append_action_log cfg uid now st e) = playlist_wf st"
  "playlist_wf (reset_playback_timeline sr now p) = playlist_wf sr"
  "playlist_wf (mark_current_media sr) = playlist_wf sr"
  "playlist_wf (bump_room_revisions sr) = playlist_wf sr"
  "playlist_wf (fst (commit_playback_seek sr t now)) = playlist_wf sr"
  "playlist_wf (reanchor_playback_at_now sr now) = playlist_wf sr"
  by (simp_all add: playlist_wf_defs)

lemma playlist_wf_frame:
  "st_playlist st' = st_playlist st \<Longrightarrow> st_currentIndex st' = st_currentIndex st \<Longrightarrow>
     playlist_wf st' = playlist_wf st"
  by (simp add: playlist_wf_defs)

lemma find_item_Some: "find_item i st = Some k \<Longrightarrow> k < length (st_playlist st) \<and> pi_id (st_playlist st ! k) = i"
  by (simp add: find_item_def find_index_Some_iff)

lemma find_item_None: "find_item i st = None \<longleftrightarrow> i \<notin> pi_id ` set (st_playlist st)"
  by (auto simp: find_item_def find_index_None_iff)

lemma find_item_distinct:
  "ids_ok (st_playlist st) \<Longrightarrow> k < length (st_playlist st) \<Longrightarrow> find_item (pi_id (st_playlist st ! k)) st = Some k"
  unfolding find_item_def find_index_Some_iff ids_ok_def
  by (auto simp: distinct_conv_nth)

lemma update_item_frame [simp]:
  "st_currentIndex (update_item i f st) = st_currentIndex st"
  "st_playback (update_item i f st) = st_playback st"
  "st_participants (update_item i f st) = st_participants st"
  "length (st_playlist (update_item i f st)) = length (st_playlist st)"
  "st_playlist (update_item i f st) = [] \<longleftrightarrow> st_playlist st = []"
  by (simp_all add: update_item_def)

lemma map_id_update_item:
  "i < length (st_playlist st) \<Longrightarrow> (\<And>it. pi_id (f it) = pi_id it) \<Longrightarrow>
     map pi_id (st_playlist (update_item i f st)) = map pi_id (st_playlist st)"
  by (simp add: update_item_def map_update) (metis list_update_id length_map nth_map)

lemma ids_ok_map: "ids_ok pl \<longleftrightarrow> distinct (map pi_id pl) \<and> [] \<notin> set (map pi_id pl)"
  unfolding ids_ok_def by force

lemma playlist_wf_update_item:
  assumes "playlist_wf st" "i < length (st_playlist st)" "\<And>it. pi_id (f it) = pi_id it"
  shows "playlist_wf (update_item i f st)"
  using assms map_id_update_item [OF assms(2,3)]
  by (simp add: playlist_wf_def index_ok_def ids_ok_map)

lemma prune_viewer_frame [simp]:
  "st_playlist (prune_viewer_media_item_id st i) = st_playlist st"
  "st_currentIndex (prune_viewer_media_item_id st i) = st_currentIndex st"
  "st_playback (prune_viewer_media_item_id st i) = st_playback st"
  "keys_of (st_participants (prune_viewer_media_item_id st i)) = keys_of (st_participants st)"
  by (simp_all add: prune_viewer_media_item_id_def)

section \<open>Every operation keeps the invariant\<close>

lemma ids_ok_remove_at: "ids_ok pl \<Longrightarrow> ids_ok (remove_at i pl)"
  using set_remove_at_subset by (fastforce simp: ids_ok_def map_remove_at intro: distinct_remove_at)

lemma ids_ok_append: "ids_ok (pl @ [it]) \<longleftrightarrow> ids_ok pl \<and> pi_id it \<notin> pi_id ` set pl \<and> pi_id it \<noteq> []"
  by (auto simp: ids_ok_def)

lemma select_wf [wf_intros]: "playlist_wf st \<Longrightarrow> playlist_wf (fst (apply_playlist_select st i now))"
  by (auto simp: apply_playlist_select_def playlist_wf_defs)

lemma mset_move:
  "i < length xs \<Longrightarrow> mset (insert_at j (xs ! i) (remove_at i xs)) = mset xs"
proof -
  assume i: "i < length xs"
  have ins: "mset (insert_at j x ys) = add_mset x (mset ys)" for x :: 'a and ys j
    unfolding insert_at_def by (metis append_take_drop_id mset.simps(2) mset_append
        union_mset_add_mset_right)
  have "mset xs = add_mset (xs ! i) (mset (remove_at i xs))"
    unfolding remove_at_def using i by (metis id_take_nth_drop mset.simps(2) mset_append
        union_mset_add_mset_right)
  with ins show ?thesis by metis
qed

lemma ids_ok_mset: "mset pl' = mset pl \<Longrightarrow> ids_ok pl' = ids_ok pl"
  unfolding ids_ok_map by (metis mset_eq_imp_distinct_iff mset_map set_mset_mset)

lemma reorder_cases:
  obtains (bad) "apply_playlist_reorder st f t = (st, None)"
      "f < 0 \<or> t < 0 \<or> int (length (st_playlist st)) \<le> f \<or> int (length (st_playlist st)) \<le> t"
    | (ok) st' e where "apply_playlist_reorder st f t = (st', Some e)"
      "0 \<le> f" "0 \<le> t" "f < int (length (st_playlist st))" "t < int (length (st_playlist st))"
      "e = st_playlist st ! nat f"
      "st_playlist st' = insert_at (nat t) e (remove_at (nat f) (st_playlist st))"
      "mset (st_playlist st') = mset (st_playlist st)"
      "st_playback st' = st_playback st" "st_participants st' = st_participants st"
      "st_currentIndex st' = st_currentIndex st \<or>
        (\<exists>k c. get_current_media_id st = Some c \<and> c \<noteq> [] \<and> st_currentIndex st' = int k
           \<and> find_index (\<lambda>it. pi_id it = c) (st_playlist st') = Some k)"
proof (cases "f < 0 \<or> t < 0 \<or> int (length (st_playlist st)) \<le> f \<or> int (length (st_playlist st)) \<le> t")
  case True
  then have "apply_playlist_reorder st f t = (st, None)"
    by (auto simp: apply_playlist_reorder_def Let_def)
  with True bad show ?thesis by blast
next
  case False
  then have "nat f < length (st_playlist st)" by linarith
  note m = mset_move [OF this, of "nat t"]
  from False m show ?thesis
    by (cases "get_current_media_id st")
      (auto simp: apply_playlist_reorder_def Let_def split: option.splits if_splits intro!: ok [OF prod_eqI])
qed

lemma reorder_wf [wf_intros]:
  assumes "playlist_wf st"
  shows "playlist_wf (fst (apply_playlist_reorder st f t))"
proof (rule reorder_cases [of st f t])
  fix st' e
  assume eq: "apply_playlist_reorder st f t = (st', Some e)"
    and ms: "mset (st_playlist st') = mset (st_playlist st)" and f: "0 \<le> f" "f < int (length (st_playlist st))"
    and idx: "st_currentIndex st' = st_currentIndex st \<or>
        (\<exists>k c. get_current_media_id st = Some c \<and> c \<noteq> [] \<and> st_currentIndex st' = int k
           \<and> find_index (\<lambda>it. pi_id it = c) (st_playlist st') = Some k)"
  have len: "length (st_playlist st') = length (st_playlist st)"
    using ms by (metis size_mset)
  have "index_ok st'"
    using idx assms len f by (auto simp: playlist_wf_def index_ok_def find_index_Some_iff split: if_splits)
  moreover have "ids_ok (st_playlist st')"
    using assms ids_ok_mset [OF ms] by (simp add: playlist_wf_def)
  ultimately show ?thesis by (simp add: playlist_wf_def eq)
qed (use assms in simp)

lemma rename_wf [wf_intros]: "playlist_wf st \<Longrightarrow> playlist_wf (fst (apply_playlist_rename st i n))"
  by (auto simp: apply_playlist_rename_def Let_def split: option.splits
      intro!: playlist_wf_update_item dest: find_item_Some)

lemma duration_wf [wf_intros]: "playlist_wf st \<Longrightarrow> playlist_wf (fst (apply_playlist_item_duration st i d))"
  by (auto simp: apply_playlist_item_duration_def Let_def split: option.splits
      intro!: playlist_wf_update_item dest: find_item_Some)

lemma title_wf [wf_intros]: "playlist_wf st \<Longrightarrow> playlist_wf (fst (apply_playlist_item_title st i n))"
  by (auto simp: apply_playlist_item_title_def Let_def split: option.splits
      intro!: playlist_wf_update_item dest: find_item_Some)

lemma remove_cases:
  assumes "find_item i st = Some k"
  obtains st' where "apply_playlist_remove st i now = (st', Some (st_playlist st ! k, k))"
    "st_playlist st' = remove_at k (st_playlist st)"
    "st_participants st' = map_vals (prune_viewer_media i) (st_participants st)"
    "st_playlist st' = [] \<Longrightarrow> st_currentIndex st' = 0 \<and>
       st_playback st' = st_playback (reset_playback_timeline st now True)"
    "st_playlist st' \<noteq> [] \<Longrightarrow> int k < st_currentIndex st \<Longrightarrow>
       st_currentIndex st' = st_currentIndex st - 1 \<and> st_playback st' = st_playback st"
    "st_playlist st' \<noteq> [] \<Longrightarrow> int k = st_currentIndex st \<Longrightarrow>
       st_currentIndex st' = min (int k) (int (length (st_playlist st')) - 1) \<and>
       st_playback st' = st_playback (reset_playback_timeline st now False)"
    "st_playlist st' \<noteq> [] \<Longrightarrow> st_currentIndex st < int k \<Longrightarrow>
       st_currentIndex st' = st_currentIndex st \<and> st_playback st' = st_playback st"
proof
  let ?st' = "fst (apply_playlist_remove st i now)"
  have idk: "pi_id (st_playlist st ! k) = i" using assms find_item_Some by blast
  have unf: "apply_playlist_remove st i now = (prune_viewer_media_item_id
      (let st1 = st\<lparr>st_playlist := remove_at k (st_playlist st)\<rparr> in
       if st_playlist st1 = [] then reset_playback_timeline (st1\<lparr>st_currentIndex := 0\<rparr>) now True
       else if int k < st_currentIndex st1 then st1\<lparr>st_currentIndex := st_currentIndex st1 - 1\<rparr>
       else if int k = st_currentIndex st1 then reset_playback_timeline
         (st1\<lparr>st_currentIndex := min (int k) (int (length (st_playlist st1)) - 1)\<rparr>) now False
       else st1) i, Some (st_playlist st ! k, k))"
    using assms by (simp add: apply_playlist_remove_def Let_def idk)
  note simps = unf prune_viewer_media_item_id_def reset_playback_timeline_def Let_def
  show "apply_playlist_remove st i now = (?st', Some (st_playlist st ! k, k))"
    by (simp add: unf)
  show "st_playlist ?st' = remove_at k (st_playlist st)"
    and "st_participants ?st' = map_vals (prune_viewer_media i) (st_participants st)"
    by (simp_all add: simps)
  then show "st_playlist ?st' = [] \<Longrightarrow> st_currentIndex ?st' = 0 \<and>
       st_playback ?st' = st_playback (reset_playback_timeline st now True)"
    and "st_playlist ?st' \<noteq> [] \<Longrightarrow> int k < st_currentIndex st \<Longrightarrow>
       st_currentIndex ?st' = st_currentIndex st - 1 \<and> st_playback ?st' = st_playback st"
    and "st_playlist ?st' \<noteq> [] \<Longrightarrow> int k = st_currentIndex st \<Longrightarrow>
       st_currentIndex ?st' = min (int k) (int (length (st_playlist ?st')) - 1) \<and>
       st_playback ?st' = st_playback (reset_playback_timeline st now False)"
    and "st_playlist ?st' \<noteq> [] \<Longrightarrow> st_currentIndex st < int k \<Longrightarrow>
       st_currentIndex ?st' = st_currentIndex st \<and> st_playback ?st' = st_playback st"
    by (simp_all add: simps)
qed

lemma remove_missing: "find_item i st = None \<Longrightarrow> apply_playlist_remove st i now = (st, None)"
  by (simp add: apply_playlist_remove_def)

lemma remove_wf [wf_intros]:
  assumes "playlist_wf st"
  shows "playlist_wf (fst (apply_playlist_remove st i now))"
proof (cases "find_item i st")
  case None
  with assms show ?thesis by (simp add: remove_missing)
next
  case (Some k)
  then have k: "k < length (st_playlist st)" using find_item_Some by blast
  show ?thesis
  proof (rule remove_cases [OF Some, of now])
    fix st'
    assume eq: "apply_playlist_remove st i now = (st', Some (st_playlist st ! k, k))"
      and pl: "st_playlist st' = remove_at k (st_playlist st)"
      and idx: "st_playlist st' = [] \<Longrightarrow> st_currentIndex st' = 0 \<and>
       st_playback st' = st_playback (reset_playback_timeline st now True)"
    "st_playlist st' \<noteq> [] \<Longrightarrow> int k < st_currentIndex st \<Longrightarrow>
       st_currentIndex st' = st_currentIndex st - 1 \<and> st_playback st' = st_playback st"
    "st_playlist st' \<noteq> [] \<Longrightarrow> int k = st_currentIndex st \<Longrightarrow>
       st_currentIndex st' = min (int k) (int (length (st_playlist st')) - 1) \<and>
       st_playback st' = st_playback (reset_playback_timeline st now False)"
    "st_playlist st' \<noteq> [] \<Longrightarrow> st_currentIndex st < int k \<Longrightarrow>
       st_currentIndex st' = st_currentIndex st \<and> st_playback st' = st_playback st"
    have len: "length (st_playlist st') = length (st_playlist st) - 1"
      using k by (simp add: pl)
    have range: "0 \<le> st_currentIndex st" "st_currentIndex st < int (length (st_playlist st))"
      using assms k by (auto simp: playlist_wf_defs split: if_splits)
    have "index_ok st'"
    proof (cases "st_playlist st' = []")
      case True
      with idx(1) show ?thesis by (simp add: index_ok_def)
    next
      case False
      then have "0 < length (st_playlist st')" by simp
      with False idx(2-4) len range k show ?thesis
        by (cases "int k" "st_currentIndex st" rule: linorder_cases) (auto simp: index_ok_def)
    qed
    with assms show ?thesis by (simp add: playlist_wf_def eq pl ids_ok_remove_at)
  qed
qed

lemma item_error_wf [wf_intros]:
  assumes "playlist_wf st"
  shows "playlist_wf (fst (apply_playlist_item_error st i e now))"
proof (cases "find_item i st")
  case None
  with assms show ?thesis by (simp add: apply_playlist_item_error_def)
next
  case (Some k)
  then have k: "k < length (st_playlist st)" using find_item_Some by blast
  have upd: "playlist_wf (update_item k (\<lambda>it. it\<lparr>pi_ingestStatus := s, pi_ingestError := x\<rparr>) st)" for s x
    using assms k by (intro playlist_wf_update_item) auto
  have next_ok: "playlist_wf ((update_item k g st)\<lparr>st_currentIndex := min (int (length (st_playlist st)) - 1) (int k + 1)\<rparr>)"
    if "playlist_wf (update_item k g st)" for g
    using that k by (auto simp: playlist_wf_defs update_item_def)
  show ?thesis
    using assms Some upd next_ok
    by (cases e) (auto simp: apply_playlist_item_error_def Let_def)
qed

section \<open>Helper facts for the properties\<close>

lemma remove_at_insert_at: "i \<le> length xs \<Longrightarrow> remove_at i (insert_at i x xs) = xs"
  by (simp add: remove_at_def insert_at_def)

lemma ids_inj: "ids_ok pl \<Longrightarrow> a \<in> set pl \<Longrightarrow> b \<in> set pl \<Longrightarrow> pi_id a = pi_id b \<Longrightarrow> a = b"
  by (auto simp: ids_ok_def distinct_map inj_on_def)

lemma playlist_wf_current:
  assumes "playlist_wf st" "st_playlist st \<noteq> []"
  obtains c where "js_nth (st_playlist st) (st_currentIndex st) = Some c" "c \<in> set (st_playlist st)"
    "get_current_media_id st = Some (pi_id c)" "pi_id c \<noteq> []"
  using assms that js_nth_in_set
  by (fastforce simp: playlist_wf_defs js_nth_def get_current_media_id_def nat_less_iff)

lemma remove_at_filter:
  assumes "ids_ok pl" "k < length pl"
  shows "remove_at k pl = filter (\<lambda>it. pi_id it \<noteq> pi_id (pl ! k)) pl"
proof (rule remove_at_split [OF assms(2)])
  fix ys zs
  assume split: "pl = ys @ pl ! k # zs" and rem: "remove_at k pl = ys @ zs"
  have "distinct (map pi_id (ys @ pl ! k # zs))"
    using assms(1) split by (simp add: ids_ok_def)
  then have "pi_id (pl ! k) \<notin> pi_id ` set (ys @ zs)" by auto
  then have "\<forall>it\<in>set (ys @ zs). pi_id it \<noteq> pi_id (pl ! k)" by (metis imageI)
  then have "filter (\<lambda>it. pi_id it \<noteq> pi_id (pl ! k)) (ys @ pl ! k # zs) = ys @ zs"
    by simp
  with split rem show ?thesis by simp
qed

lemma find_item_update:
  assumes "\<And>it. pi_id (f it) = pi_id it"
  shows "find_item i (update_item k f st) = find_item i st"
proof (cases "k < length (st_playlist st)")
  case True
  have "find_index ((\<lambda>s. s = i) \<circ> pi_id) (st_playlist (update_item k f st)) =
      find_index ((\<lambda>s. s = i) \<circ> pi_id) (st_playlist st)"
    by (simp only: find_index_map [symmetric] map_id_update_item [OF True assms])
  then show ?thesis by (simp add: find_item_def comp_def)
next
  case False
  then show ?thesis by (simp add: find_item_def update_item_def list_update_beyond)
qed

lemma nth_update_item [simp]:
  "k < length (st_playlist st) \<Longrightarrow> st_playlist (update_item k f st) ! k = f (st_playlist st ! k)"
  by (simp add: update_item_def)

lemma prune_viewer_media_gone:
  "pt_viewerMedia (prune_viewer_media i p) = Some v \<Longrightarrow> map_of v i = None"
  by (auto simp: prune_viewer_media_def Let_def split: option.splits if_splits)
    (auto simp: map_of_eq_None_iff)

section \<open>Properties\<close>

text \<open>
  C6. Moving an entry permutes the playlist: the entry lands at the requested position, the
  others keep their relative order, and the item that was playing is still the current one, with
  the clock untouched.
\<close>

theorem playlist_reorder_correct:
  assumes "playlist_wf st" and "apply_playlist_reorder st f t = (st', Some e)"
  shows "mset (st_playlist st') = mset (st_playlist st)
    \<and> st_playlist st' ! nat t = e
    \<and> remove_at (nat t) (st_playlist st') = remove_at (nat f) (st_playlist st)
    \<and> js_nth (st_playlist st') (st_currentIndex st') = js_nth (st_playlist st) (st_currentIndex st)
    \<and> st_playback st' = st_playback st \<and> playlist_wf st'"
proof (rule reorder_cases [of st f t])
  fix st'' e'
  assume eq: "apply_playlist_reorder st f t = (st'', Some e')"
    and r: "0 \<le> f" "0 \<le> t" "f < int (length (st_playlist st))" "t < int (length (st_playlist st))"
    and pl: "st_playlist st'' = insert_at (nat t) e' (remove_at (nat f) (st_playlist st))"
    and ms: "mset (st_playlist st'') = mset (st_playlist st)"
    and pb: "st_playback st'' = st_playback st"
  have st'': "st'' = st'" "e' = e" using eq assms(2) by simp_all
  have nf: "nat f < length (st_playlist st)" and nt: "nat t \<le> length (remove_at (nat f) (st_playlist st))"
    using r by auto
  obtain c where c: "js_nth (st_playlist st) (st_currentIndex st) = Some c" "c \<in> set (st_playlist st)"
    "get_current_media_id st = Some (pi_id c)" "pi_id c \<noteq> []"
    using nf by (auto intro: playlist_wf_current [OF assms(1)])
  have in': "c \<in> set (st_playlist st')" using c(2) ms st'' by (metis set_mset_mset)
  then obtain k where k: "find_index (\<lambda>it. pi_id it = pi_id c) (st_playlist st') = Some k"
    by (metis (mono_tags, lifting) find_index_None_iff not_Some_eq)
  have wf': "playlist_wf st'" using reorder_wf [OF assms(1), of f t] assms(2) by simp
  have "st_currentIndex st' = int k"
    using assms(2) r c k pl st''
    by (auto simp: apply_playlist_reorder_def Let_def split: option.splits if_splits)
  moreover have "st_playlist st' ! k = c" "k < length (st_playlist st')"
    using k wf' in' by (auto simp: find_index_Some_iff playlist_wf_def intro: ids_inj)
  ultimately have "js_nth (st_playlist st') (st_currentIndex st') = Some c"
    by (simp add: js_nth_int)
  with c pl ms pb st'' wf' nt show ?thesis
    by (simp add: nth_insert_at_same remove_at_insert_at)
qed (use assms in simp)

lemma sample_room_wf: "playlist_wf sample_room"
  by (simp add: playlist_wf_defs sample_room_def sample_item_def)

theorem playlist_reorder_correct_witness:
  "st_currentIndex (fst (apply_playlist_reorder sample_room 1 0)) = 0
     \<and> mset (st_playlist (fst (apply_playlist_reorder sample_room 1 0))) = mset (st_playlist sample_room)"
proof -
  let ?r = "apply_playlist_reorder sample_room 1 0"
  have "snd ?r = Some (sample_item ''m1'')" and i: "st_currentIndex (fst ?r) = 0"
    by (simp_all add: apply_playlist_reorder_def get_current_media_id_def js_nth_def sample_room_def
        sample_item_def insert_at_def remove_at_def Let_def)
  then have "?r = (fst ?r, Some (sample_item ''m1''))" by (simp add: prod_eq_iff)
  from playlist_reorder_correct [OF sample_room_wf this] i show ?thesis by blast
qed

text \<open>
  C5. Removing an item takes exactly that item out of the playlist and out of every viewer's
  preferences.  Another current item stays current and keeps its clock; if the removed item was
  current, its successor (or the new last item) takes its place with the playhead at zero, and an
  empty playlist is left paused.
\<close>

theorem playlist_remove_correct:
  assumes "playlist_wf st" and "apply_playlist_remove st i now = (st', Some (r, k))"
  shows "pi_id r = i \<and> js_nth (st_playlist st) (int k) = Some r
    \<and> st_playlist st' = filter (\<lambda>it. pi_id it \<noteq> i) (st_playlist st) \<and> playlist_wf st'
    \<and> (\<forall>p\<in>snd ` set (st_participants st'). \<forall>v. pt_viewerMedia p = Some v \<longrightarrow> map_of v i = None)
    \<and> (st_currentIndex st \<noteq> int k \<longrightarrow>
         js_nth (st_playlist st') (st_currentIndex st') = js_nth (st_playlist st) (st_currentIndex st)
         \<and> st_playback st' = st_playback st)
    \<and> (st_currentIndex st = int k \<longrightarrow> pb_timelineAnchorMs (st_playback st') = 0
         \<and> (st_playlist st' = [] \<longrightarrow> pb_paused (st_playback st'))
         \<and> (Suc k < length (st_playlist st) \<longrightarrow>
              js_nth (st_playlist st') (st_currentIndex st') = Some (st_playlist st ! Suc k)))"
proof -
  from assms(2) have fi: "find_item i st = Some k" and r: "r = st_playlist st ! k"
    by (auto simp: apply_playlist_remove_def Let_def split: option.splits)
  have k: "k < length (st_playlist st)" and idk: "pi_id (st_playlist st ! k) = i"
    using find_item_Some [OF fi] by auto
  have range: "0 \<le> st_currentIndex st" "st_currentIndex st < int (length (st_playlist st))"
    using assms(1) k by (auto simp: playlist_wf_defs split: if_splits)
  show ?thesis
  proof (rule remove_cases [OF fi, of now])
    fix s
    assume "apply_playlist_remove st i now = (s, Some (st_playlist st ! k, k))"
      and pl: "st_playlist s = remove_at k (st_playlist st)"
      and pt: "st_participants s = map_vals (prune_viewer_media i) (st_participants st)"
      and c: "st_playlist s = [] \<Longrightarrow> st_currentIndex s = 0 \<and>
         st_playback s = st_playback (reset_playback_timeline st now True)"
       "st_playlist s \<noteq> [] \<Longrightarrow> int k < st_currentIndex st \<Longrightarrow>
         st_currentIndex s = st_currentIndex st - 1 \<and> st_playback s = st_playback st"
       "st_playlist s \<noteq> [] \<Longrightarrow> int k = st_currentIndex st \<Longrightarrow>
         st_currentIndex s = min (int k) (int (length (st_playlist s)) - 1) \<and>
         st_playback s = st_playback (reset_playback_timeline st now False)"
       "st_playlist s \<noteq> [] \<Longrightarrow> st_currentIndex st < int k \<Longrightarrow>
         st_currentIndex s = st_currentIndex st \<and> st_playback s = st_playback st"
    then have s: "s = st'" using assms(2) by simp
    have len: "length (st_playlist s) = length (st_playlist st) - 1" using k by (simp add: pl)
    have filt: "st_playlist s = filter (\<lambda>it. pi_id it \<noteq> i) (st_playlist st)"
      using remove_at_filter [of "st_playlist st" k] assms(1) k idk by (simp add: playlist_wf_def pl)
    have gone: "\<forall>p\<in>snd ` set (st_participants s). \<forall>v. pt_viewerMedia p = Some v \<longrightarrow> map_of v i = None"
      by (auto simp: pt map_vals_def dest: prune_viewer_media_gone)
    have other: "js_nth (st_playlist s) (st_currentIndex s) = js_nth (st_playlist st) (st_currentIndex st)
        \<and> st_playback s = st_playback st" if ne: "st_currentIndex st \<noteq> int k"
    proof -
      have "st_playlist s \<noteq> []" using len range k ne by auto
      with c ne range k len show ?thesis
        by (cases "int k" "st_currentIndex st" rule: linorder_cases)
          (auto simp: js_nth_def pl nth_remove_at nat_diff_distrib Suc_nat_eq_nat_zadd1)
    qed
    have this_one: "pb_timelineAnchorMs (st_playback s) = 0 \<and> (st_playlist s = [] \<longrightarrow> pb_paused (st_playback s))
         \<and> (Suc k < length (st_playlist st) \<longrightarrow>
              js_nth (st_playlist s) (st_currentIndex s) = Some (st_playlist st ! Suc k))"
      if e: "st_currentIndex st = int k"
    proof (cases "st_playlist s = []")
      case True
      with len have "\<not> Suc k < length (st_playlist st)" by auto
      with c(1) [OF True] True show ?thesis by (simp add: reset_playback_timeline_def Let_def)
    next
      case False
      have "js_nth (st_playlist s) (st_currentIndex s) = Some (st_playlist st ! Suc k)"
        if "Suc k < length (st_playlist st)"
      proof -
        have "st_currentIndex s = int k" using c(3) [OF False e [symmetric]] that len by simp
        with that show ?thesis using k len by (simp add: js_nth_int) (simp add: pl nth_remove_at)
      qed
      with c(3) [OF False e [symmetric]] False show ?thesis
        by (simp add: reset_playback_timeline_def Let_def)
    qed
    show ?thesis
      using filt gone other this_one remove_wf [OF assms(1), of i now] assms(2) s r k idk
      by (simp add: js_nth_int)
  qed
qed

theorem playlist_remove_correct_witness:
  "playlist_wf (fst (apply_playlist_remove sample_room ''m1'' 9000))
     \<and> js_nth (st_playlist (fst (apply_playlist_remove sample_room ''m1'' 9000))) 1 = Some (sample_item ''m2'')"
proof -
  let ?r = "apply_playlist_remove sample_room ''m1'' 9000"
  have "snd ?r = Some (sample_item ''m1'', 1)" and i: "st_currentIndex (fst ?r) = 1"
    by (simp_all add: apply_playlist_remove_def find_item_def sample_room_def sample_item_def
        remove_at_def Let_def reset_playback_timeline_def prune_viewer_media_item_id_def)
  then have eq: "?r = (fst ?r, Some (sample_item ''m1'', 1))" by (simp add: prod_eq_iff)
  have "st_currentIndex sample_room = int 1" "Suc 1 < length (st_playlist sample_room)"
    "st_playlist sample_room ! Suc 1 = sample_item ''m2''"
    by (simp_all add: sample_room_def)
  with playlist_remove_correct [OF sample_room_wf eq]
  have "playlist_wf (fst ?r)
      \<and> js_nth (st_playlist (fst ?r)) (st_currentIndex (fst ?r)) = Some (sample_item ''m2'')"
    by metis
  then show ?thesis by (simp only: i)
qed

text \<open>
  A failing item is reported once: the first report on the current item moves the room to the
  next item at time zero and keeps playing or paused as it was, and a second report of the same
  item changes nothing, so two clients that both fail do not skip two items.
\<close>

theorem item_error_advances_once:
  assumes "playlist_wf st" and "apply_playlist_item_error st i (Some e) now = (st', Some (it, False))"
    and "e \<noteq> []"
  shows "pi_ingestStatus it = Some IngestError \<and> truthy (pi_ingestError it)
    \<and> pb_paused (st_playback st') = pb_paused (st_playback st)
    \<and> (st_currentIndex st' = st_currentIndex st \<or>
        st_currentIndex st' = st_currentIndex st + 1 \<and> pb_timelineAnchorMs (st_playback st') = 0
        \<and> map_option pi_id (js_nth (st_playlist st) (st_currentIndex st)) = Some i)
    \<and> apply_playlist_item_error st' i (Some e2) later = (st', Some (it, False))"
proof -
  from assms(2) obtain k where fi: "find_item i st = Some k"
    by (auto simp: apply_playlist_item_error_def split: option.splits)
  have k: "k < length (st_playlist st)" and idk: "pi_id (st_playlist st ! k) = i"
    using find_item_Some [OF fi] by auto
  let ?f = "\<lambda>it. it\<lparr>pi_ingestStatus := Some IngestError, pi_ingestError := Some e\<rparr>"
  have fi': "find_item i (update_item k ?f st) = Some k"
    using fi by (simp add: find_item_update)
  let ?adv = "reset_playback_timeline ((update_item k ?f st)\<lparr>st_currentIndex := int k + 1\<rparr>) now False"
  have fi'': "find_item i ?adv = Some k" and pl'': "st_playlist ?adv ! k = ?f (st_playlist st ! k)"
    using fi' k by (simp_all add: find_item_def)
  have mn: "min (int (length (st_playlist st)) - 1) (int k + 1) =
      (if Suc k < length (st_playlist st) then int k + 1 else int k)"
    using k by auto
  have unf: "apply_playlist_item_error st i (Some e) now =
      (if pi_ingestStatus (st_playlist st ! k) = Some IngestError \<and> truthy (pi_ingestError (st_playlist st ! k))
       then (st, Some (st_playlist st ! k, False))
       else (if st_currentIndex st = int k \<and> Suc k < length (st_playlist st) then ?adv
             else update_item k ?f st, Some (?f (st_playlist st ! k), False)))"
    by (simp add: apply_playlist_item_error_def fi mn Let_def)
  consider (again) "st' = st" "it = st_playlist st ! k" "pi_ingestStatus it = Some IngestError"
      "truthy (pi_ingestError it)"
    | (stay) "st' = update_item k ?f st" "it = ?f (st_playlist st ! k)"
    | (adv) "st' = ?adv" "it = ?f (st_playlist st ! k)" "st_currentIndex st = int k"
    using assms(2) unfolding unf by (auto split: if_splits)
  then show ?thesis
  proof cases
    case again
    with fi show ?thesis by (simp add: apply_playlist_item_error_def)
  next
    case stay
    with fi' k assms(3) show ?thesis by (simp add: apply_playlist_item_error_def)
  next
    case adv
    have "st_currentIndex ?adv = int k + 1" "pb_paused (st_playback ?adv) = pb_paused (st_playback st)"
      "pb_timelineAnchorMs (st_playback ?adv) = 0"
      by (simp_all add: reset_playback_timeline_def Let_def)
    moreover have "apply_playlist_item_error ?adv i (Some e2) later = (?adv, Some (it, False))"
      using fi'' pl'' assms(3) adv(2) by (simp add: apply_playlist_item_error_def)
    ultimately show ?thesis using adv assms(3) k idk by (simp add: js_nth_int)
  qed
qed

theorem item_error_advances_once_witness:
  "st_currentIndex (fst (apply_playlist_item_error sample_room ''m1'' (Some ''gone'') 9000)) = 2
    \<and> apply_playlist_item_error (fst (apply_playlist_item_error sample_room ''m1'' (Some ''gone'') 9000))
         ''m1'' (Some ''gone'') 9500
      = (fst (apply_playlist_item_error sample_room ''m1'' (Some ''gone'') 9000),
         Some ((sample_item ''m1'')\<lparr>pi_ingestStatus := Some IngestError, pi_ingestError := Some ''gone''\<rparr>, False))"
proof -
  let ?r = "apply_playlist_item_error sample_room ''m1'' (Some ''gone'') 9000"
  let ?it = "(sample_item ''m1'')\<lparr>pi_ingestStatus := Some IngestError, pi_ingestError := Some ''gone''\<rparr>"
  have "snd ?r = Some (?it, False)" and i: "st_currentIndex (fst ?r) = 2"
    by (simp_all add: apply_playlist_item_error_def find_item_def sample_room_def sample_item_def
        update_item_def Let_def reset_playback_timeline_def)
  then have eq: "?r = (fst ?r, Some (?it, False))" by (simp add: prod_eq_iff)
  from item_error_advances_once [OF sample_room_wf eq, of "''gone''" 9500] i show ?thesis by simp
qed

text \<open>
  The first observed title and the first observed duration of at least half a second win:
  once one is stored, no later observation of any client changes the room.
\<close>

theorem first_observation_wins:
  assumes "apply_playlist_item_title st i n = (st1, Some it1)"
    and "apply_playlist_item_duration sd i d = (st2, Some it2)" and "1 / 2 \<le> d"
  shows "apply_playlist_item_title st1 i n' = (st1, None) \<and> apply_playlist_item_duration st2 i d' = (st2, None)"
proof -
  from assms(1) obtain k where k: "find_item i st = Some k"
    and st1: "st1 = update_item k (\<lambda>it. it\<lparr>pi_name := trim n\<rparr>) st"
    and ne: "trim n \<noteq> trim (pi_sourceUrl (st_playlist st ! k))"
    by (auto simp: apply_playlist_item_title_def Let_def split: option.splits if_splits)
  from assms(2) obtain m where m: "find_item i sd = Some m"
    and st2: "st2 = update_item m (\<lambda>it. it\<lparr>pi_durationSeconds := Some (of_int (js_round d))\<rparr>) sd"
    by (auto simp: apply_playlist_item_duration_def Let_def split: option.splits if_splits)
  have pos: "0 < js_round d" using assms(3) by (simp add: js_round_def)
  have km: "k < length (st_playlist st)" "m < length (st_playlist sd)"
    using find_item_Some [OF k] find_item_Some [OF m] by auto
  have "find_item i st1 = Some k" "find_item i st2 = Some m"
    using k m by (simp_all add: st1 st2 find_item_update)
  with km ne pos show ?thesis
    by (simp add: st1 st2 apply_playlist_item_title_def apply_playlist_item_duration_def Let_def
        is_playlist_item_name_placeholder_def)
qed

theorem first_observation_wins_witness:
  "apply_playlist_item_title (fst (apply_playlist_item_title sample_room ''m1'' ''Intro'')) ''m1'' ''Other''
     = (fst (apply_playlist_item_title sample_room ''m1'' ''Intro''), None)"
proof -
  let ?t = "apply_playlist_item_title sample_room ''m1'' ''Intro''"
  let ?d = "apply_playlist_item_duration sample_room ''m1'' 90"
  have "snd ?t \<noteq> None" and "snd ?d \<noteq> None"
    by (simp_all add: apply_playlist_item_title_def apply_playlist_item_duration_def find_item_def
        sample_room_def sample_item_def is_playlist_item_name_placeholder_def trim_def trim_start_def
        trim_end_def is_ws_def Let_def)
  then obtain a b where "?t = (fst ?t, Some a)" "?d = (fst ?d, Some b)"
    by (metis option.exhaust prod.collapse)
  from first_observation_wins [OF this, of "''Other''"] show ?thesis by simp
qed

text \<open>
  Below half a second the rounding breaks the rule: the accepted observation is stored as
  0, which the next observation does not count as a duration and overwrites.
\<close>

theorem short_duration_rounds_to_zero:
  "let r = apply_playlist_item_duration sample_room ''m1'' (2 / 5) in
     map_option pi_durationSeconds (snd r) = Some (Some 0)
     \<and> map_option pi_durationSeconds (snd (apply_playlist_item_duration (fst r) ''m1'' 90)) = Some (Some 90)"
  by (simp add: apply_playlist_item_duration_def find_item_def sample_room_def sample_item_def
      update_item_def js_round_def Let_def)

end
