(* ===== verification/Ownership.thy ===== *)
theory Ownership
  imports Action_Log
begin

text \<open>
  Transfer of room ownership (\<open>src/src/server/realtime/services/ownership.ts\<close>).  Participants
  are the entries of the participants object; picking an owner walks them in insertion order.
\<close>

section \<open>The code\<close>

datatype transfer_reason = RDisconnect | RCleanup | RJoin | RPrune

fun reason_str :: "transfer_reason \<Rightarrow> string" where
  "reason_str RDisconnect = ''disconnect''"
| "reason_str RCleanup = ''cleanup''"
| "reason_str RJoin = ''join''"
| "reason_str RPrune = ''prune''"

definition max_safe_integer :: jsnum where "max_safe_integer = 9007199254740991"

definition participant_sort_key :: "participant \<Rightarrow> jsnum" where
  "participant_sort_key p =
     (case pt_joinedAt p of Some t \<Rightarrow> t | None \<Rightarrow>
       (case pt_connectedAt p of Some t \<Rightarrow> t | None \<Rightarrow>
         (case pt_lastSeenAt p of Some t \<Rightarrow> t | None \<Rightarrow> max_safe_integer)))"

text \<open>
  The loop keeps the best entry so far; \<open>bestKey\<close> starts at infinity, so the first entry of the
  role is always taken.
\<close>

fun pick_from :: "room_role \<Rightarrow> (string \<times> participant) option \<Rightarrow> participants \<Rightarrow> (string \<times> participant) option" where
  "pick_from role best [] = best"
| "pick_from role best (e # es) =
     (if pt_role (snd e) \<noteq> role then pick_from role best es
      else case best of
        None \<Rightarrow> pick_from role (Some e) es
      | Some b \<Rightarrow>
          if participant_sort_key (snd e) < participant_sort_key (snd b)
          then pick_from role (Some e) es else pick_from role (Some b) es)"

definition pick_next_owner :: "participants \<Rightarrow> room_role \<Rightarrow> (string \<times> participant) option" where
  "pick_next_owner es role = pick_from role None es"

definition transfer_candidates :: "participants \<Rightarrow> transfer_reason \<Rightarrow> participants" where
  "transfer_candidates pool reason =
     (let conn = filter (\<lambda>e. pt_connected (snd e)) pool
      in if conn \<noteq> [] then conn else if reason = RPrune then pool else [])"

definition choose_owner :: "participants \<Rightarrow> transfer_reason \<Rightarrow> (string \<times> participant) option" where
  "choose_owner cands reason =
     (case pick_next_owner cands Moderator of Some e \<Rightarrow> Some e | None \<Rightarrow>
       (case pick_next_owner cands Guest of Some e \<Rightarrow> Some e | None \<Rightarrow>
         (if reason = RPrune then pick_next_owner cands Owner else None)))"

definition transfer_blocked :: "server_room \<Rightarrow> transfer_reason \<Rightarrow> bool" where
  "transfer_blocked st reason =
     (case reason of
        RDisconnect \<Rightarrow> True
      | RJoin \<Rightarrow> map_of (st_participants st) (st_ownerId st) \<noteq> None
      | _ \<Rightarrow> (case map_of (st_participants st) (st_ownerId st) of
               Some owner \<Rightarrow> pt_connected owner | None \<Rightarrow> False))"

definition transfer_ownership_if_needed ::
  "limits \<Rightarrow> string \<Rightarrow> jsnum \<Rightarrow> server_room \<Rightarrow> transfer_reason \<Rightarrow> server_room \<times> bool" where
  "transfer_ownership_if_needed cfg uid now st reason =
     (if transfer_blocked st reason then (st, False)
      else case choose_owner (transfer_candidates (st_participants st) reason) reason of
        None \<Rightarrow> (st, False)
      | Some (k, nx) \<Rightarrow>
          (let prev = st_ownerId st;
               ps1 = adjust k (\<lambda>p. p\<lparr>pt_role := Owner\<rparr>) (st_participants st);
               ps2 = (case map_of ps1 prev of
                        Some po \<Rightarrow>
                          (if pt_userId po \<noteq> pt_userId nx
                           then adjust prev (\<lambda>p. p\<lparr>pt_role := Guest\<rparr>) ps1 else ps1)
                      | None \<Rightarrow> ps1)
           in (append_action_log cfg uid now
                 (st\<lparr>st_ownerId := pt_userId nx, st_participants := ps2\<rparr>)
                 \<lparr>ai_roomId = st_roomId st, ai_actorUserId = pt_userId nx,
                   ai_actorUsername = Some (pt_username nx),
                   ai_action = ''participant:owner:transferred'',
                   ai_payload = [(''previousOwnerId'', JStr prev),
                     (''nextOwnerId'', JStr (pt_userId nx)), (''reason'', JStr (reason_str reason))],
                   ai_error = None\<rparr>, True)))"

section \<open>Who is picked\<close>

lemma pick_from_Some:
  "pick_from role (Some b) es = Some r \<Longrightarrow>
     (r = b \<or> r \<in> set es \<and> pt_role (snd r) = role)
     \<and> participant_sort_key (snd r) \<le> participant_sort_key (snd b)
     \<and> (\<forall>e\<in>set es. pt_role (snd e) = role \<longrightarrow> participant_sort_key (snd r) \<le> participant_sort_key (snd e))"
  by (induction es arbitrary: b) (fastforce split: if_splits)+

lemma pick_from_Some_ne: "pick_from role (Some b) es \<noteq> None"
  by (induction es arbitrary: b) auto

lemma pick_next_owner_None:
  "pick_next_owner es role = None \<longleftrightarrow> (\<forall>e\<in>set es. pt_role (snd e) \<noteq> role)"
  unfolding pick_next_owner_def
  by (induction es) (auto simp: pick_from_Some_ne)

lemma pick_next_owner_Some:
  "pick_next_owner es role = Some r \<Longrightarrow>
     r \<in> set es \<and> pt_role (snd r) = role
     \<and> (\<forall>e\<in>set es. pt_role (snd e) = role \<longrightarrow> participant_sort_key (snd r) \<le> participant_sort_key (snd e))"
  unfolding pick_next_owner_def
proof (induction es)
  case (Cons e es)
  show ?case
  proof (cases "pt_role (snd e) = role")
    case True
    with Cons.prems have "pick_from role (Some e) es = Some r" by simp
    from pick_from_Some [OF this] True show ?thesis by auto
  next
    case False
    with Cons show ?thesis by auto
  qed
qed simp

lemma choose_owner_in: "choose_owner cands reason = Some e \<Longrightarrow> e \<in> set cands"
  by (auto simp: choose_owner_def dest: pick_next_owner_Some split: option.splits if_splits)

lemma choose_owner_None:
  "choose_owner cands reason = None \<longleftrightarrow>
     (\<forall>e\<in>set cands. pt_role (snd e) = Owner \<and> reason \<noteq> RPrune)"
proof -
  have role: "pt_role (snd e) = Owner \<or> pt_role (snd e) = Moderator \<or> pt_role (snd e) = Guest"
    "\<not> (pt_role (snd e) = Owner \<and> pt_role (snd e) = Moderator)"
    "\<not> (pt_role (snd e) = Owner \<and> pt_role (snd e) = Guest)" for e :: "string \<times> participant"
    by (cases "pt_role (snd e)"; simp)+
  have "choose_owner cands reason = None \<longleftrightarrow> pick_next_owner cands Moderator = None
      \<and> pick_next_owner cands Guest = None \<and> (reason = RPrune \<longrightarrow> pick_next_owner cands Owner = None)"
    by (simp add: choose_owner_def split: option.split)
  also have "\<dots> \<longleftrightarrow> (\<forall>e\<in>set cands. pt_role (snd e) = Owner \<and> reason \<noteq> RPrune)"
    unfolding pick_next_owner_None using role by blast
  finally show ?thesis .
qed

lemma transfer_candidates_subset: "set (transfer_candidates pool reason) \<subseteq> set pool"
  by (auto simp: transfer_candidates_def Let_def)

lemma transfer_candidates_connected:
  "e \<in> set (transfer_candidates pool reason) \<Longrightarrow> reason \<noteq> RPrune \<Longrightarrow> pt_connected (snd e)"
  by (auto simp: transfer_candidates_def Let_def split: if_splits)

section \<open>The ownership invariant\<close>

text \<open>
  Participants are stored under their own user id, once each, and nobody but the participant the
  room names as owner has the owner's role.
\<close>

definition keyed :: "participants \<Rightarrow> bool" where
  "keyed ps = (distinct (keys_of ps) \<and> (\<forall>(k, p)\<in>set ps. pt_userId p = k))"

definition owner_unique :: "('s, 'a) room_state_scheme \<Rightarrow> bool" where
  "owner_unique st =
     (\<forall>e\<in>set (st_participants st). pt_role (snd e) = Owner \<longrightarrow> fst e = st_ownerId st)"

lemma keyed_iff: "keyed ps \<longleftrightarrow> distinct (keys_of ps) \<and> (\<forall>k p. map_of ps k = Some p \<longrightarrow> pt_userId p = k)"
proof (cases "distinct (keys_of ps)")
  case True
  then have "(k, p) \<in> set ps \<longleftrightarrow> map_of ps k = Some p" for k p by simp
  with True show ?thesis by (auto simp: keyed_def)
qed (simp add: keyed_def)

lemma keyed_adjust [wf_intros]:
  "keyed ps \<Longrightarrow> (\<And>p. pt_userId (f p) = pt_userId p) \<Longrightarrow> keyed (adjust k f ps)"
  by (auto simp: keyed_iff)

lemma keyed_delete [wf_intros]: "keyed ps \<Longrightarrow> keyed (AList.delete k ps)"
  by (auto simp: keyed_iff AList.distinct_delete)

lemma keyed_update [wf_intros]: "keyed ps \<Longrightarrow> pt_userId p = k \<Longrightarrow> keyed (AList.update k p ps)"
  by (auto simp: keyed_iff AList.distinct_update)

lemma keyed_userId: "keyed ps \<Longrightarrow> map_of ps k = Some p \<Longrightarrow> pt_userId p = k"
  by (simp add: keyed_iff)

lemma keyed_mem: "keyed ps \<Longrightarrow> (k, p) \<in> set ps \<longleftrightarrow> map_of ps k = Some p"
  by (simp add: keyed_def)

lemma adjust_absent: "map_of al k = None \<Longrightarrow> adjust k f al = al"
  by (induction al) (auto simp: adjust_def split: if_splits)

lemma lookup_key: "map_of al k \<noteq> None \<Longrightarrow> k \<in> set (keys_of al)"
  by (simp add: map_of_eq_None_iff)

lemma owner_unique_map_of:
  assumes "keyed (st_participants st)"
  shows "owner_unique st \<longleftrightarrow>
     (\<forall>k p. map_of (st_participants st) k = Some p \<longrightarrow> pt_role p = Owner \<longrightarrow> k = st_ownerId st)"
  using keyed_mem [OF assms] unfolding owner_unique_def by (metis fst_conv snd_conv prod.collapse)

section \<open>What a transfer does\<close>

lemma transfer_frame [simp]:
  "st_playlist (fst (transfer_ownership_if_needed cfg uid now st reason)) = st_playlist st"
  "st_playback (fst (transfer_ownership_if_needed cfg uid now st reason)) = st_playback st"
  "st_currentIndex (fst (transfer_ownership_if_needed cfg uid now st reason)) = st_currentIndex st"
  "st_roomSecurity (fst (transfer_ownership_if_needed cfg uid now st reason)) = st_roomSecurity st"
  "st_roomId (fst (transfer_ownership_if_needed cfg uid now st reason)) = st_roomId st"
  "st_generation (fst (transfer_ownership_if_needed cfg uid now st reason)) = st_generation st"
  "st_structuralRevision (fst (transfer_ownership_if_needed cfg uid now st reason)) = st_structuralRevision st"
  "keys_of (st_participants (fst (transfer_ownership_if_needed cfg uid now st reason))) =
     keys_of (st_participants st)"
  by (simp_all add: transfer_ownership_if_needed_def Let_def split: option.split)

lemma transfer_no_effect:
  "\<not> snd (transfer_ownership_if_needed cfg uid now st reason) \<Longrightarrow>
     fst (transfer_ownership_if_needed cfg uid now st reason) = st"
  by (auto simp: transfer_ownership_if_needed_def Let_def split: option.splits if_splits)

text \<open>The participants after the new owner \<open>k\<close> has been promoted.\<close>

definition hand_over :: "string \<Rightarrow> string \<Rightarrow> participant \<Rightarrow> participants \<Rightarrow> participants" where
  "hand_over prev k nx ps =
     (let ps1 = adjust k (\<lambda>p. p\<lparr>pt_role := Owner\<rparr>) ps in
      case map_of ps1 prev of
        Some po \<Rightarrow>
          (if pt_userId po \<noteq> pt_userId nx then adjust prev (\<lambda>p. p\<lparr>pt_role := Guest\<rparr>) ps1 else ps1)
      | None \<Rightarrow> ps1)"

lemma transfer_eq:
  assumes "\<not> transfer_blocked st reason"
    and "choose_owner (transfer_candidates (st_participants st) reason) reason = Some (k, nx)"
  shows "snd (transfer_ownership_if_needed cfg uid now st reason)"
    and "st_ownerId (fst (transfer_ownership_if_needed cfg uid now st reason)) = pt_userId nx"
    and "st_participants (fst (transfer_ownership_if_needed cfg uid now st reason)) =
      hand_over (st_ownerId st) k nx (st_participants st)"
  unfolding transfer_ownership_if_needed_def hand_over_def Let_def
  by (simp_all only: assms if_False option.case prod.case fst_conv snd_conv append_log_frame simp_thms)
    simp_all

lemma hand_over_map_of:
  assumes "keyed ps" "map_of ps (pt_userId nx) = Some nx"
  shows "map_of (hand_over prev (pt_userId nx) nx ps) u =
     map_option (\<lambda>p. if u = pt_userId nx then p\<lparr>pt_role := Owner\<rparr>
                     else if u = prev then p\<lparr>pt_role := Guest\<rparr> else p) (map_of ps u)"
proof -
  let ?ps1 = "adjust (pt_userId nx) (\<lambda>p. p\<lparr>pt_role := Owner\<rparr>) ps"
  have ps1: "keyed ?ps1" using assms(1) by (simp add: keyed_adjust)
  have "hand_over prev (pt_userId nx) nx ps =
      (if prev = pt_userId nx then ?ps1 else adjust prev (\<lambda>p. p\<lparr>pt_role := Guest\<rparr>) ?ps1)"
  proof (cases "map_of ?ps1 prev")
    case None
    then have "adjust prev (\<lambda>p. p\<lparr>pt_role := Guest\<rparr>) ?ps1 = ?ps1" by (rule adjust_absent)
    with None show ?thesis by (simp add: hand_over_def Let_def)
  next
    case (Some po)
    have "pt_userId po = prev" by (rule keyed_userId [OF ps1 Some])
    then show ?thesis unfolding hand_over_def Let_def Some by simp
  qed
  then show ?thesis
    by (cases "map_of ps u"; cases "u = prev"; cases "u = pt_userId nx"; cases "prev = pt_userId nx") simp_all
qed

text \<open>The shape of a transfer to \<open>nx\<close>, which the proofs below share.\<close>

definition transferred :: "server_room \<Rightarrow> transfer_reason \<Rightarrow> server_room \<Rightarrow> participant \<Rightarrow> bool" where
  "transferred st reason st' nx = (
     choose_owner (transfer_candidates (st_participants st) reason) reason = Some (pt_userId nx, nx)
     \<and> map_of (st_participants st) (pt_userId nx) = Some nx
     \<and> st_ownerId st' = pt_userId nx
     \<and> keys_of (st_participants st') = keys_of (st_participants st)
     \<and> (\<forall>u. map_of (st_participants st') u =
          map_option (\<lambda>p. if u = pt_userId nx then p\<lparr>pt_role := Owner\<rparr>
                          else if u = st_ownerId st then p\<lparr>pt_role := Guest\<rparr> else p)
            (map_of (st_participants st) u)))"

lemma transfer_shape:
  assumes "keyed (st_participants st)"
    and "snd (transfer_ownership_if_needed cfg uid now st reason)"
  shows "\<exists>nx. transferred st reason (fst (transfer_ownership_if_needed cfg uid now st reason)) nx"
proof -
  obtain k nx where ch: "\<not> transfer_blocked st reason"
      "choose_owner (transfer_candidates (st_participants st) reason) reason = Some (k, nx)"
    using assms(2) by (auto simp: transfer_ownership_if_needed_def split: if_splits option.splits)
  have "(k, nx) \<in> set (st_participants st)"
    using choose_owner_in [OF ch(2)] transfer_candidates_subset by blast
  with assms(1) have nx: "map_of (st_participants st) k = Some nx" and k: "k = pt_userId nx"
    by (auto simp: keyed_mem keyed_userId)
  note eq = transfer_eq [OF ch, where cfg = cfg and uid = uid and now = now]
  note ch' = ch(2) [unfolded k]
  let ?st' = "fst (transfer_ownership_if_needed cfg uid now st reason)"
  have nx': "map_of (st_participants st) (pt_userId nx) = Some nx" using nx k by simp
  have "keys_of (st_participants ?st') = keys_of (st_participants st)" by (rule transfer_frame(8))
  then have "transferred st reason ?st' nx"
    unfolding transferred_def transfer_eq(2,3) [OF ch(1) ch']
    using hand_over_map_of [OF assms(1) nx'] ch' nx' by blast
  then show ?thesis ..
qed

lemma transferred_role:
  assumes "transferred st reason st' nx" "map_of (st_participants st') u = Some p"
  obtains q where "map_of (st_participants st) u = Some q"
    "p = (if u = pt_userId nx then q\<lparr>pt_role := Owner\<rparr>
          else if u = st_ownerId st then q\<lparr>pt_role := Guest\<rparr> else q)"
proof -
  have "map_of (st_participants st') u =
          map_option (\<lambda>p. if u = pt_userId nx then p\<lparr>pt_role := Owner\<rparr>
                          else if u = st_ownerId st then p\<lparr>pt_role := Guest\<rparr> else p)
            (map_of (st_participants st) u)"
    using assms(1) unfolding transferred_def by blast
  with assms(2) that show thesis by (cases "map_of (st_participants st) u") simp_all
qed

lemma transferred_keyed:
  assumes "keyed (st_participants st)" "transferred st reason st' nx"
  shows "keyed (st_participants st')"
  unfolding keyed_iff
proof (intro conjI allI impI)
  have "keys_of (st_participants st') = keys_of (st_participants st)"
    using assms(2) unfolding transferred_def by blast
  then show "distinct (keys_of (st_participants st'))" using assms(1) by (simp add: keyed_def)
  fix k p assume "map_of (st_participants st') k = Some p"
  then obtain q where q: "map_of (st_participants st) k = Some q"
    "p = (if k = pt_userId nx then q\<lparr>pt_role := Owner\<rparr>
          else if k = st_ownerId st then q\<lparr>pt_role := Guest\<rparr> else q)"
    by (rule transferred_role [OF assms(2)])
  then show "pt_userId p = k" using keyed_userId [OF assms(1) q(1)] by simp
qed

lemma transferred_owner_unique:
  assumes "keyed (st_participants st)" "owner_unique st" "transferred st reason st' nx"
  shows "owner_unique st'"
  unfolding owner_unique_map_of [OF transferred_keyed [OF assms(1,3)]]
proof (intro allI impI)
  fix k p assume m: "map_of (st_participants st') k = Some p" and r: "pt_role p = Owner"
  from transferred_role [OF assms(3) m] obtain q where
    q: "map_of (st_participants st) k = Some q"
      "p = (if k = pt_userId nx then q\<lparr>pt_role := Owner\<rparr>
          else if k = st_ownerId st then q\<lparr>pt_role := Guest\<rparr> else q)" .
  have "pt_role q = Owner \<Longrightarrow> k = st_ownerId st"
    using assms(2) q(1) unfolding owner_unique_map_of [OF assms(1)] by blast
  with q(2) r have "k = pt_userId nx" by (auto split: if_splits)
  then show "k = st_ownerId st'" using assms(3) unfolding transferred_def by simp
qed

lemma transfer_keyed [wf_intros]:
  assumes "keyed (st_participants st)"
  shows "keyed (st_participants (fst (transfer_ownership_if_needed cfg uid now st reason)))"
proof (cases "snd (transfer_ownership_if_needed cfg uid now st reason)")
  case True
  then show ?thesis using transfer_shape [OF assms True] transferred_keyed [OF assms] by blast
qed (use assms in \<open>simp add: transfer_no_effect\<close>)

lemma transfer_owner_unique [wf_intros]:
  assumes "keyed (st_participants st)" "owner_unique st"
  shows "owner_unique (fst (transfer_ownership_if_needed cfg uid now st reason))"
proof (cases "snd (transfer_ownership_if_needed cfg uid now st reason)")
  case True
  then show ?thesis using transfer_shape [OF assms(1) True] transferred_owner_unique [OF assms] by blast
qed (use assms in \<open>simp add: transfer_no_effect\<close>)

lemma transferred_connected:
  assumes "transferred st reason st' nx"
  shows "pt_connected nx \<or> reason = RPrune \<and> (\<forall>p\<in>set (st_participants st). \<not> pt_connected (snd p))"
proof -
  have "(pt_userId nx, nx) \<in> set (transfer_candidates (st_participants st) reason)"
    using assms choose_owner_in unfolding transferred_def by blast
  then show ?thesis
    by (auto simp: transfer_candidates_def Let_def filter_empty_conv split: if_splits)
qed

lemma transferred_order:
  assumes t: "transferred st reason st' nx"
    and p: "map_of (st_participants st) u = Some p" "pt_connected p = pt_connected nx"
  shows "(pt_role p = Moderator \<longrightarrow> pt_role nx = Moderator)
    \<and> (pt_role p = pt_role nx \<longrightarrow> participant_sort_key nx \<le> participant_sort_key p)"
proof -
  have nx: "(pt_userId nx, nx) \<in> set (transfer_candidates (st_participants st) reason)"
    using t choose_owner_in unfolding transferred_def by blast
  have "(u, p) \<in> set (transfer_candidates (st_participants st) reason)"
    using nx p(2) map_of_SomeD [OF p(1)]
    by (auto simp: transfer_candidates_def Let_def filter_empty_conv split: if_splits)
  then show ?thesis
    using t unfolding transferred_def choose_owner_def
    by (auto simp: pick_next_owner_None split: option.splits if_splits dest!: pick_next_owner_Some)
qed

section \<open>Properties\<close>



text \<open>
  When a participant has been pruned and anybody is left in the room, the owner named by the
  room is one of them: a prune never leaves a room with a dangling owner.
\<close>

theorem prune_leaves_an_owner:
  assumes "keyed (st_participants st)" and "st_participants st \<noteq> []"
  shows "map_of (st_participants (fst (transfer_ownership_if_needed cfg uid now st RPrune)))
     (st_ownerId (fst (transfer_ownership_if_needed cfg uid now st RPrune))) \<noteq> None"
proof (cases "snd (transfer_ownership_if_needed cfg uid now st RPrune)")
  case True
  then show ?thesis using transfer_shape [OF assms(1) True] by (auto simp: transferred_def)
next
  case False
  have "transfer_candidates (st_participants st) RPrune \<noteq> []"
    using assms(2) by (simp add: transfer_candidates_def Let_def)
  then have "choose_owner (transfer_candidates (st_participants st) RPrune) RPrune \<noteq> None"
    unfolding choose_owner_None by (cases "transfer_candidates (st_participants st) RPrune") auto
  with False have "transfer_blocked st RPrune"
    by (auto simp: transfer_ownership_if_needed_def Let_def split: if_splits option.splits)
  then show ?thesis
    using transfer_no_effect [OF False] by (auto simp: transfer_blocked_def split: option.splits)
qed

theorem prune_leaves_an_owner_witness:
  "st_ownerId (fst (transfer_ownership_if_needed sample_limits ''u'' 5
     (sample_room\<lparr>st_participants := [(''gst'', sample_participant ''gst'' Guest False 100)]\<rparr>) RPrune))
   = ''gst''"
proof -
  let ?r = "sample_room\<lparr>st_participants := [(''gst'', sample_participant ''gst'' Guest False 100)]\<rparr>"
  have "keyed (st_participants ?r)" "st_participants ?r \<noteq> []"
    by (simp_all add: keyed_def sample_participant_def)
  from lookup_key [OF prune_leaves_an_owner [OF this, of sample_limits "''u''" 5]]
  show ?thesis unfolding transfer_frame by simp
qed

text \<open>
  The code transfers ownership on a cleanup sweep as soon as the owner is disconnected and a
  moderator or guest is connected; how long the owner has been away plays no part, so an owner
  whose socket dropped a moment before the sweep is demoted inside the grace period.
\<close>

theorem cleanup_transfers_within_grace:
  assumes "keyed (st_participants st)" "owner_unique st"
    and "map_of (st_participants st) (st_ownerId st) = Some owner" "\<not> pt_connected owner"
    and "map_of (st_participants st) u = Some p" "pt_connected p"
  shows "st_ownerId (fst (transfer_ownership_if_needed cfg uid now st RCleanup)) \<noteq> st_ownerId st"
proof -
  have "p \<noteq> owner" using assms(4,6) by auto
  then have u: "u \<noteq> st_ownerId st" using assms(3,5) by auto
  have "pt_role p \<noteq> Owner"
    using assms(2,5) u unfolding owner_unique_map_of [OF assms(1)] by blast
  moreover have "(u, p) \<in> set (transfer_candidates (st_participants st) RCleanup)"
    using map_of_SomeD [OF assms(5)] assms(6)
    by (force simp: transfer_candidates_def Let_def filter_empty_conv)
  ultimately have "choose_owner (transfer_candidates (st_participants st) RCleanup) RCleanup \<noteq> None"
    unfolding choose_owner_None by (auto intro!: bexI [of _ "(u, p)"])
  then have true: "snd (transfer_ownership_if_needed cfg uid now st RCleanup)"
    using assms(3,4)
    by (auto simp: transfer_ownership_if_needed_def transfer_blocked_def Let_def split: option.splits)
  obtain nx where t: "transferred st RCleanup (fst (transfer_ownership_if_needed cfg uid now st RCleanup)) nx"
    using transfer_shape [OF assms(1) true] by blast
  then have "pt_connected nx" using transferred_connected by fastforce
  with assms(3,4) t show ?thesis by (auto simp: transferred_def)
qed

theorem cleanup_transfers_within_grace_witness:
  "st_ownerId (fst (transfer_ownership_if_needed sample_limits ''u'' 5
     (sample_room\<lparr>st_participants := [(''own'', sample_participant ''own'' Owner False 50),
        (''gst'', sample_participant ''gst'' Guest True 100)]\<rparr>) RCleanup)) \<noteq> ''own''"
proof -
  let ?r = "sample_room\<lparr>st_participants := [(''own'', sample_participant ''own'' Owner False 50),
        (''gst'', sample_participant ''gst'' Guest True 100)]\<rparr>"
  have "keyed (st_participants ?r)" "owner_unique ?r"
    "map_of (st_participants ?r) (st_ownerId ?r) = Some (sample_participant ''own'' Owner False 50)"
    "\<not> pt_connected (sample_participant ''own'' Owner False 50)"
    "map_of (st_participants ?r) ''gst'' = Some (sample_participant ''gst'' Guest True 100)"
    "pt_connected (sample_participant ''gst'' Guest True 100)"
    by (simp_all add: keyed_def owner_unique_def sample_participant_def sample_room_def)
  from cleanup_transfers_within_grace [OF this, of sample_limits "''u''" 5] show ?thesis
    by (simp add: sample_room_def)
qed

end
