(* ===== verification/World.thy ===== *)
theory World
  imports Playlist Ownership
begin

text \<open>
  The state the server shares: the room store and the presence references in Redis
  (\<open>src/src/server/redis/state-store.ts\<close>, \<open>presence-ref.ts\<close>), the socket registry
  (\<open>src/src/server/ws/registry.ts\<close>), the prune and empty-room markers, and the calls that
  leave the modelled part (broadcasts, media services), which are recorded in order as effects.
\<close>

section \<open>Effects\<close>

datatype effect =
    EControl string room_control
  | ESnapshotDirty string
  | EActionLogDirty string
  | EPresenceDirty string string presence_patch
  | EAdmissionChanged string nat string bool
  | ENack nat string room_error_code
  | EJoinRejected nat join_rejected_reason
  | ESnapshotSent nat string
  | ECapabilities nat session_capabilities
  | EDeleteLocalMedia string string
  | EClearProviderReady string string
  | EReannounce string string
  | ECloseSfu string
  | EInvalidateViewerToken string string
  | ERegisterLocalMedia string string string
  | EResolve string string string
  | ERoomDeleted string

section \<open>Sockets\<close>

record socket_meta =
  sm_roomId :: string
  sm_userId :: string
  sm_connectionId :: string
  sm_presenceTracked :: bool
  sm_joinCommitted :: bool
  sm_controlAuthorized :: bool
  sm_isControlSession :: bool
  sm_sessionKind :: session_kind
  sm_canControlPlayback :: bool
  sm_clientIp :: "string option"

type_synonym node_counts = "(string \<times> nat) list"

text \<open>The control fields the bus caches per room, and a stored control-session token.\<close>

record control_projection =
  cj_generation :: nat
  cj_currentIndex :: int
  cj_playback :: playback_state

record control_token =
  ct_roomId :: string
  ct_userId :: string
  ct_mintedAt :: jsnum
  ct_expiresAt :: jsnum

record world =
  w_rooms :: "(string \<times> server_room) list"
  w_refs :: "(string \<times> (string \<times> node_counts) list) list"
  w_alive :: "string list"
  w_reliable :: bool
  w_node :: string
  w_presence :: "(string \<times> (string \<times> presence_patch) list) list"
  w_grace :: "((string \<times> string) \<times> jsnum) list"
  w_pending :: "string list"
  w_pendingExpiry :: jsnum
  w_indexUp :: bool
  w_emptyAt :: "(string \<times> jsnum \<times> jsnum) list"
  w_emptyUp :: bool
  w_draining :: bool
  w_sockets :: "(nat \<times> socket_meta) list"
  w_earlyIps :: "(nat \<times> string) list"
  w_open :: "nat list"
  w_projection :: "(string \<times> control_projection) list"
  w_identities :: "(string \<times> (string \<times> string) list) list"
  w_tokens :: "(string \<times> control_token) list"
  w_out :: "effect list"

definition emit :: "effect \<Rightarrow> world \<Rightarrow> world" where
  "emit e w = w\<lparr>w_out := w_out w @ [e]\<rparr>"

section \<open>The socket registry\<close>

definition get_socket_meta :: "nat \<Rightarrow> world \<Rightarrow> socket_meta option" where
  "get_socket_meta ws w = map_of (w_sockets w) ws"

text \<open>The code stores a patched copy; a meta read earlier keeps its old fields.\<close>

definition patch_socket_meta :: "nat \<Rightarrow> (socket_meta \<Rightarrow> socket_meta) \<Rightarrow> world \<Rightarrow> world" where
  "patch_socket_meta ws f w = w\<lparr>w_sockets := adjust ws f (w_sockets w)\<rparr>"

definition set_socket_client_ip :: "nat \<Rightarrow> string \<Rightarrow> world \<Rightarrow> world" where
  "set_socket_client_ip ws ip w =
     patch_socket_meta ws (\<lambda>m. m\<lparr>sm_clientIp := Some ip\<rparr>)
       (w\<lparr>w_earlyIps := AList.update ws ip (w_earlyIps w)\<rparr>)"

definition get_socket_client_ip :: "nat \<Rightarrow> world \<Rightarrow> string" where
  "get_socket_client_ip ws w =
     (case Option.bind (get_socket_meta ws w) sm_clientIp of
        Some ip \<Rightarrow> ip
      | None \<Rightarrow> (case map_of (w_earlyIps w) ws of Some ip \<Rightarrow> ip | None \<Rightarrow> ''unknown''))"

text \<open>
  The fresh connection id is an argument.  The join handler passes neither
  \<open>canControlPlayback\<close> nor \<open>clientIp\<close>, so they are taken from the previous meta.
\<close>

definition add_socket ::
  "nat \<Rightarrow> string \<Rightarrow> string \<Rightarrow> string \<Rightarrow> bool \<Rightarrow> bool \<Rightarrow> session_kind \<Rightarrow> bool \<Rightarrow> world \<Rightarrow> world" where
  "add_socket ws freshId roomId userId controlAuthorized isControlSession sessionKind joinCommitted w =
     (let prev = get_socket_meta ws w in
      w\<lparr>w_sockets := AList.update ws
          \<lparr>sm_roomId = roomId, sm_userId = userId,
            sm_connectionId = (case prev of Some m \<Rightarrow> sm_connectionId m | None \<Rightarrow> freshId),
            sm_presenceTracked = (case prev of Some m \<Rightarrow> sm_presenceTracked m | None \<Rightarrow> False),
            sm_joinCommitted = joinCommitted, sm_controlAuthorized = controlAuthorized,
            sm_isControlSession = isControlSession, sm_sessionKind = sessionKind,
            sm_canControlPlayback =
              (case prev of Some m \<Rightarrow> sm_canControlPlayback m | None \<Rightarrow> False),
            sm_clientIp = (case Option.bind prev sm_clientIp of
                             Some ip \<Rightarrow> Some ip | None \<Rightarrow> map_of (w_earlyIps w) ws)\<rparr>
          (w_sockets w)\<rparr>)"

definition set_socket_presence_tracked :: "nat \<Rightarrow> bool \<Rightarrow> world \<Rightarrow> world" where
  "set_socket_presence_tracked ws b = patch_socket_meta ws (\<lambda>m. m\<lparr>sm_presenceTracked := b\<rparr>)"

definition set_socket_join_committed :: "nat \<Rightarrow> bool \<Rightarrow> world \<Rightarrow> world" where
  "set_socket_join_committed ws b = patch_socket_meta ws (\<lambda>m. m\<lparr>sm_joinCommitted := b\<rparr>)"

definition set_socket_control_authorized :: "nat \<Rightarrow> bool \<Rightarrow> world \<Rightarrow> world" where
  "set_socket_control_authorized ws b = patch_socket_meta ws (\<lambda>m. m\<lparr>sm_controlAuthorized := b\<rparr>)"

definition set_socket_can_control_playback :: "nat \<Rightarrow> bool \<Rightarrow> world \<Rightarrow> world" where
  "set_socket_can_control_playback ws b = patch_socket_meta ws (\<lambda>m. m\<lparr>sm_canControlPlayback := b\<rparr>)"

definition remove_socket :: "nat \<Rightarrow> world \<Rightarrow> world" where
  "remove_socket ws w = w\<lparr>w_sockets := AList.delete ws (w_sockets w)\<rparr>"

definition get_sockets_for_room :: "string \<Rightarrow> world \<Rightarrow> nat list" where
  "get_sockets_for_room roomId w = map fst (filter (\<lambda>(ws, m). sm_roomId m = roomId) (w_sockets w))"

definition get_sockets_for_user :: "string \<Rightarrow> string \<Rightarrow> world \<Rightarrow> nat list" where
  "get_sockets_for_user roomId userId w =
     map fst (filter (\<lambda>(ws, m). sm_roomId m = roomId \<and> sm_userId m = userId) (w_sockets w))"

definition has_any_socket_in_room :: "string \<Rightarrow> world \<Rightarrow> bool" where
  "has_any_socket_in_room roomId w = (get_sockets_for_room roomId w \<noteq> [])"

section \<open>Presence references\<close>

definition bump_presence_node_count :: "node_counts \<Rightarrow> string \<Rightarrow> int \<Rightarrow> node_counts" where
  "bump_presence_node_count counts nodeId delta =
     (let n = int (case map_of counts nodeId of Some c \<Rightarrow> c | None \<Rightarrow> 0) + delta
      in if n \<le> 0 then AList.delete nodeId counts else AList.update nodeId (nat n) counts)"

definition total_presence_refs :: "node_counts \<Rightarrow> nat" where
  "total_presence_refs counts = sum_list (map snd counts)"

definition is_present_on_alive_node :: "node_counts \<Rightarrow> string list \<Rightarrow> bool" where
  "is_present_on_alive_node counts alive = (\<exists>(k, n)\<in>set counts. n > 0 \<and> k \<in> set alive)"

text \<open>
  The stored value is the JSON text of the node map; the model keeps the map, with \<open>[]\<close> for a
  legacy integer or unreadable value (\<open>parsePresenceNodeCounts\<close> returns the empty map for both).
  The script drops entries that are not positive and deletes the field when nothing is left.
\<close>

definition encode_counts :: "node_counts \<Rightarrow> node_counts option" where
  "encode_counts counts =
     (let cleaned = filter (\<lambda>(k, n). n > 0 \<and> k \<noteq> []) counts
      in if cleaned \<noteq> [] then Some cleaned else None)"

definition room_refs :: "string \<Rightarrow> world \<Rightarrow> (string \<times> node_counts) list" where
  "room_refs roomId w = (case map_of (w_refs w) roomId of Some r \<Rightarrow> r | None \<Rightarrow> [])"

definition bump_ws_connection_ref :: "string \<Rightarrow> string \<Rightarrow> int \<Rightarrow> world \<Rightarrow> world" where
  "bump_ws_connection_ref roomId userId delta w =
     (if delta = 0 then w
      else let refs = room_refs roomId w;
               counts = (case map_of refs userId of Some c \<Rightarrow> c | None \<Rightarrow> []);
               refs' = (case encode_counts (bump_presence_node_count counts (w_node w) delta) of
                          Some c \<Rightarrow> AList.update userId c refs
                        | None \<Rightarrow> AList.delete userId refs)
           in w\<lparr>w_refs := AList.update roomId refs' (w_refs w)\<rparr>)"

definition add_ws_connection_ref :: "string \<Rightarrow> string \<Rightarrow> world \<Rightarrow> world" where
  "add_ws_connection_ref roomId userId = bump_ws_connection_ref roomId userId 1"

definition remove_ws_connection_ref :: "string \<Rightarrow> string \<Rightarrow> world \<Rightarrow> world" where
  "remove_ws_connection_ref roomId userId = bump_ws_connection_ref roomId userId (- 1)"

definition clear_ws_connection_ref :: "string \<Rightarrow> string \<Rightarrow> world \<Rightarrow> world" where
  "clear_ws_connection_ref roomId userId w =
     w\<lparr>w_refs := AList.update roomId (AList.delete userId (room_refs roomId w)) (w_refs w)\<rparr>"

text \<open>
  One scan of the presence hash.  For each user: whether the user is online, and what the
  reconcile pass writes back (\<open>None\<close> deletes the field).
\<close>

definition scan_entry :: "string list \<Rightarrow> bool \<Rightarrow> node_counts \<Rightarrow> bool \<times> node_counts option" where
  "scan_entry alive reliable counts =
     (if counts = [] then (False, if reliable then None else Some counts)
      else if \<not> reliable then (True, Some counts)
      else let liveOnly = filter (\<lambda>(k, n). n > 0 \<and> k \<in> set alive) counts
           in if liveOnly = [] then (False, None)
              else (True, case encode_counts liveOnly of Some e \<Rightarrow> Some e | None \<Rightarrow> Some counts))"

definition alive_nodes :: "world \<Rightarrow> string list" where
  "alive_nodes w = w_node w # w_alive w"

definition read_ws_presence_user_ids :: "string \<Rightarrow> world \<Rightarrow> string list" where
  "read_ws_presence_user_ids roomId w =
     map fst (filter (\<lambda>(u, c). fst (scan_entry (alive_nodes w) (w_reliable w) c)) (room_refs roomId w))"

definition reconcile_presence_refs :: "string \<Rightarrow> world \<Rightarrow> world" where
  "reconcile_presence_refs roomId w =
     (if \<not> w_reliable w then w
      else w\<lparr>w_refs := AList.update roomId
             (concat (map (\<lambda>(u, c). case snd (scan_entry (alive_nodes w) (w_reliable w) c) of
                                    Some c' \<Rightarrow> [(u, c')] | None \<Rightarrow> []) (room_refs roomId w)))
             (w_refs w)\<rparr>)"

definition get_ws_presence_user_ids :: "string \<Rightarrow> world \<Rightarrow> world \<times> string list" where
  "get_ws_presence_user_ids roomId w =
     (reconcile_presence_refs roomId w, read_ws_presence_user_ids roomId w)"

section \<open>Presence data\<close>

definition presence_data_all :: "string \<Rightarrow> world \<Rightarrow> (string \<times> presence_patch) list" where
  "presence_data_all roomId w = (case map_of (w_presence w) roomId of Some d \<Rightarrow> d | None \<Rightarrow> [])"

definition get_presence_data :: "string \<Rightarrow> string \<Rightarrow> world \<Rightarrow> presence_patch option" where
  "get_presence_data roomId userId w = map_of (presence_data_all roomId w) userId"

text \<open>
  The merge of a presence patch: a field the patch carries replaces the stored one, an absent one
  keeps it (\<open>JSON.stringify\<close> drops \<open>undefined\<close> fields before the script sees them).
\<close>

definition or_else :: "'a option \<Rightarrow> 'a option \<Rightarrow> 'a option" where
  "or_else new old = (case new of Some v \<Rightarrow> Some v | None \<Rightarrow> old)"

definition merge_patch :: "presence_patch \<Rightarrow> presence_patch \<Rightarrow> presence_patch" where
  "merge_patch existing patch =
     \<lparr>pp_connected = or_else (pp_connected patch) (pp_connected existing),
       pp_lastSeenAt = or_else (pp_lastSeenAt patch) (pp_lastSeenAt existing),
       pp_disconnectedAt = or_else (pp_disconnectedAt patch) (pp_disconnectedAt existing),
       pp_username = or_else (pp_username patch) (pp_username existing),
       pp_avatarStyle = or_else (pp_avatarStyle patch) (pp_avatarStyle existing),
       pp_localPlayback = or_else (pp_localPlayback patch) (pp_localPlayback existing),
       pp_localPlaybackReports =
         or_else (pp_localPlaybackReports patch) (pp_localPlaybackReports existing)\<rparr>"

definition merge_presence_data :: "string \<Rightarrow> string \<Rightarrow> presence_patch \<Rightarrow> world \<Rightarrow> world" where
  "merge_presence_data roomId userId patch w =
     (let existing = (case get_presence_data roomId userId w of Some p \<Rightarrow> p | None \<Rightarrow> empty_patch)
      in w\<lparr>w_presence := AList.update roomId
             (AList.update userId (merge_patch existing patch) (presence_data_all roomId w))
             (w_presence w)\<rparr>)"

section \<open>Rooms\<close>

definition get_room :: "string \<Rightarrow> world \<Rightarrow> server_room option" where
  "get_room roomId w = map_of (w_rooms w) roomId"

text \<open>
  \<open>updateRoom\<close> as its callers use it: the mutation runs on the stored room and its result is
  stored, or nothing is written when it returns \<open>null\<close>.  The retry loop that makes this so under
  concurrent writers is modelled in \<open>Room_Store\<close>.
\<close>

definition update_room ::
  "string \<Rightarrow> (server_room option \<Rightarrow> server_room option) \<Rightarrow> world \<Rightarrow> world \<times> server_room option" where
  "update_room roomId mutate w =
     (case mutate (get_room roomId w) of
        None \<Rightarrow> (w, None)
      | Some next' \<Rightarrow> (w\<lparr>w_rooms := AList.update roomId next' (w_rooms w)\<rparr>, Some next'))"

text \<open>Deleting the room's keys; the publish port's \<open>clearRoom\<close> is the effect.\<close>

definition store_delete :: "string \<Rightarrow> world \<Rightarrow> world" where
  "store_delete roomId w =
     emit (ERoomDeleted roomId)
       (w\<lparr>w_rooms := AList.delete roomId (w_rooms w), w_refs := AList.delete roomId (w_refs w),
          w_presence := AList.delete roomId (w_presence w),
          w_identities := AList.delete roomId (w_identities w),
          w_emptyAt := AList.delete roomId (w_emptyAt w)\<rparr>)"

definition control_payload_from_state :: "server_room \<Rightarrow> jsnum \<Rightarrow> room_control" where
  "control_payload_from_state st now =
     \<lparr>rc_generation = st_generation st, rc_playback = st_playback st,
       rc_currentIndex = st_currentIndex st, rc_updatedAt = st_updatedAt st,
       rc_serverWallNowMs = now\<rparr>"

section \<open>The control channel\<close>

definition get_cached_control_projection :: "string \<Rightarrow> world \<Rightarrow> control_projection option" where
  "get_cached_control_projection roomId w = map_of (w_projection w) roomId"

definition remember_control_projection :: "string \<Rightarrow> room_control \<Rightarrow> world \<Rightarrow> world" where
  "remember_control_projection roomId payload w =
     w\<lparr>w_projection := AList.update roomId
         \<lparr>cj_generation = rc_generation payload, cj_currentIndex = rc_currentIndex payload,
           cj_playback = (rc_playback payload)\<lparr>pb_seekPreview := None\<rparr>\<rparr> (w_projection w)\<rparr>"

definition publish_control :: "string \<Rightarrow> room_control \<Rightarrow> world \<Rightarrow> world" where
  "publish_control roomId payload w =
     emit (EControl roomId payload) (remember_control_projection roomId payload w)"

lemmas registry_defs = get_socket_meta_def patch_socket_meta_def add_socket_def
  set_socket_presence_tracked_def set_socket_join_committed_def set_socket_control_authorized_def
  set_socket_can_control_playback_def remove_socket_def get_socket_client_ip_def set_socket_client_ip_def

section \<open>Facts\<close>

lemma emit_sel [simp]:
  "w_rooms (emit e w) = w_rooms w" "w_refs (emit e w) = w_refs w" "w_sockets (emit e w) = w_sockets w"
  "w_presence (emit e w) = w_presence w" "w_grace (emit e w) = w_grace w"
  "w_pending (emit e w) = w_pending w" "w_out (emit e w) = w_out w @ [e]"
  "w_node (emit e w) = w_node w" "w_reliable (emit e w) = w_reliable w" "w_alive (emit e w) = w_alive w"
  "w_open (emit e w) = w_open w" "w_emptyAt (emit e w) = w_emptyAt w"
  "w_indexUp (emit e w) = w_indexUp w" "w_draining (emit e w) = w_draining w"
  "w_pendingExpiry (emit e w) = w_pendingExpiry w" "w_projection (emit e w) = w_projection w"
  "w_identities (emit e w) = w_identities w" "w_tokens (emit e w) = w_tokens w"
  by (simp_all add: emit_def)

lemma get_room_emit [simp]: "get_room r (emit e w) = get_room r w"
  by (simp add: get_room_def)

lemma get_room_update [simp]:
  "get_room r (w\<lparr>w_rooms := AList.update r' st (w_rooms w)\<rparr>) = (if r = r' then Some st else get_room r w)"
  by (simp add: get_room_def)

lemma get_room_frame [simp]:
  "get_room r (w\<lparr>w_refs := a\<rparr>) = get_room r w" "get_room r (w\<lparr>w_presence := b\<rparr>) = get_room r w"
  "get_room r (w\<lparr>w_grace := c\<rparr>) = get_room r w" "get_room r (w\<lparr>w_pending := d\<rparr>) = get_room r w"
  "get_room r (w\<lparr>w_sockets := e\<rparr>) = get_room r w" "get_room r (w\<lparr>w_emptyAt := f\<rparr>) = get_room r w"
  by (simp_all add: get_room_def)

lemma get_room_presence [simp]:
  "get_room r (bump_ws_connection_ref a b c w) = get_room r w"
  "get_room r (add_ws_connection_ref a b w) = get_room r w"
  "get_room r (remove_ws_connection_ref a b w) = get_room r w"
  "get_room r (clear_ws_connection_ref a b w) = get_room r w"
  "get_room r (reconcile_presence_refs a w) = get_room r w"
  "get_room r (merge_presence_data a b p w) = get_room r w"
  by (simp_all add: bump_ws_connection_ref_def add_ws_connection_ref_def remove_ws_connection_ref_def
      clear_ws_connection_ref_def reconcile_presence_refs_def merge_presence_data_def Let_def)

lemma publish_control_sel [simp]:
  "w_rooms (publish_control r c w) = w_rooms w" "w_out (publish_control r c w) = w_out w @ [EControl r c]"
  "w_refs (publish_control r c w) = w_refs w" "w_sockets (publish_control r c w) = w_sockets w"
  "get_room r' (publish_control r c w) = get_room r' w"
  by (simp_all add: publish_control_def remember_control_projection_def get_room_def)

lemma update_room_result: "snd (update_room r f w) = f (get_room r w)"
  by (simp add: update_room_def split: option.split)

lemma update_room_get:
  "get_room r' (fst (update_room r f w)) =
     (if r' = r then (case f (get_room r w) of Some st \<Rightarrow> Some st | None \<Rightarrow> get_room r w)
      else get_room r' w)"
  by (simp add: update_room_def split: option.split)

end
