(* ===== verification/Room_Store.thy ===== *)
theory Room_Store
  imports World
begin

text \<open>
  The optimistic transaction of \<open>updateRoom\<close> (\<open>src/src/server/redis/state-store.ts\<close>): \<open>WATCH\<close>,
  read, mutate, \<open>MULTI\<close>/\<open>EXEC\<close>, at most twelve attempts.  Other writers are a list: its
  \<open>k\<close>-th entry is what they leave in the key between the read and the \<open>EXEC\<close> of attempt
  \<open>k\<close>, or \<open>None\<close> when they leave it alone.  \<open>EXEC\<close> fails exactly when the key was written.
\<close>

section \<open>The code\<close>

definition update_room_max_attempts :: nat where "update_room_max_attempts = 12"
definition update_room_backoff_base_ms :: nat where "update_room_backoff_base_ms = 50"
definition update_room_backoff_cap_ms :: nat where "update_room_backoff_cap_ms = 400"

datatype 's update_result = Stored 's | Aborted | Exhausted

definition backoff_ms :: "nat \<Rightarrow> nat" where
  "backoff_ms attempt = min (update_room_backoff_base_ms * 2 ^ attempt) update_room_backoff_cap_ms"

text \<open>The result carries the key's final value, the outcome, and the time slept.\<close>

fun update_room_attempts ::
  "nat \<Rightarrow> nat \<Rightarrow> ('s option \<Rightarrow> 's option) \<Rightarrow> 's option option list \<Rightarrow> 's option
     \<Rightarrow> 's option \<times> 's update_result \<times> nat" where
  "update_room_attempts 0 attempt mutate others cur = (cur, Exhausted, 0)"
| "update_room_attempts (Suc n) attempt mutate others cur =
     (case mutate cur of
        None \<Rightarrow> ((case others of Some v # _ \<Rightarrow> v | _ \<Rightarrow> cur), Aborted, 0)
      | Some next' \<Rightarrow>
          (case others of
             Some v # rest \<Rightarrow>
               (case update_room_attempts n (attempt + 1) mutate rest v of
                  (final, r, slept) \<Rightarrow> (final, r, backoff_ms attempt + slept))
           | _ \<Rightarrow> (Some next', Stored next', 0)))"

definition update_room_watch ::
  "('s option \<Rightarrow> 's option) \<Rightarrow> 's option option list \<Rightarrow> 's option
     \<Rightarrow> 's option \<times> 's update_result \<times> nat" where
  "update_room_watch = update_room_attempts update_room_max_attempts 0"

section \<open>Lemmas\<close>

text \<open>The key's value when attempt \<open>k\<close> reads it.\<close>

fun read_at :: "'s option option list \<Rightarrow> 's option \<Rightarrow> nat \<Rightarrow> 's option" where
  "read_at others cur 0 = cur"
| "read_at (Some v # rest) cur (Suc k) = read_at rest v k"
| "read_at others cur (Suc k) = cur"

lemma attempts_stored:
  assumes "update_room_attempts n a mutate others cur = (final, Stored st, slept)"
  shows "\<exists>k<n. mutate (read_at others cur k) = Some st \<and> final = Some st
      \<and> (\<forall>i<k. i < length others \<and> others ! i \<noteq> None) \<and> (k < length others \<longrightarrow> others ! k = None)"
  using assms
proof (induction n a mutate others cur arbitrary: slept rule: update_room_attempts.induct)
  case (2 n a mutate others cur)
  show ?case
  proof (cases "mutate cur")
    case None with 2 show ?thesis by simp
  next
    case (Some nx)
    note m = this
    show ?thesis
    proof (cases "\<exists>v rest. others = Some v # rest")
      case True
      then obtain v rest where o: "others = Some v # rest" by blast
      obtain s where "update_room_attempts n (a + 1) mutate rest v = (final, Stored st, s)"
        using "2.prems" m o by (auto split: prod.splits)
      from "2.IH" [OF m o refl this] obtain k where
        k: "k < n" "mutate (read_at rest v k) = Some st" "final = Some st"
          "\<forall>i<k. i < length rest \<and> rest ! i \<noteq> None" "k < length rest \<longrightarrow> rest ! k = None" by blast
      show ?thesis
        by (rule exI [of _ "Suc k"]) (use k o in \<open>auto simp: less_Suc_eq_0_disj\<close>)
    next
      case False
      then have "final = Some nx \<and> st = nx" using "2.prems" m by (auto split: list.splits option.splits)
      with False m show ?thesis by (intro exI [of _ 0]) (cases others; auto)
    qed
  qed
qed simp

lemma attempts_aborted:
  assumes "update_room_attempts n a mutate others cur = (final, Aborted, slept)"
  shows "\<exists>k<n. mutate (read_at others cur k) = None \<and> final = read_at others cur (k + 1)"
  using assms
proof (induction n a mutate others cur arbitrary: slept rule: update_room_attempts.induct)
  case (2 n a mutate others cur)
  show ?case
  proof (cases "mutate cur")
    case None
    then have "final = (case others of Some v # _ \<Rightarrow> v | _ \<Rightarrow> cur)" using 2 by simp
    with None show ?thesis
      by (intro exI [of _ 0]) (cases others; auto split: option.splits)
  next
    case (Some nx)
    then obtain v rest where o: "others = Some v # rest"
      using "2.prems" by (auto split: list.splits option.splits)
    obtain s where "update_room_attempts n (a + 1) mutate rest v = (final, Aborted, s)"
      using "2.prems" Some o by (auto split: prod.splits)
    from "2.IH" [OF Some o refl this] o show ?thesis
      by (metis Suc_less_eq add_Suc plus_1_eq_Suc add.commute read_at.simps(2))
  qed
qed simp

lemma attempts_exhausted:
  assumes "update_room_attempts n a mutate others cur = (final, Exhausted, slept)"
  shows "(\<forall>i<n. i < length others \<and> others ! i \<noteq> None) \<and> final = read_at others cur n"
  using assms
proof (induction n a mutate others cur arbitrary: slept rule: update_room_attempts.induct)
  case (2 n a mutate others cur)
  then show ?case by (auto simp: less_Suc_eq_0_disj split: option.splits list.splits prod.splits)
qed simp

lemma attempts_slept:
  "(case update_room_attempts n a mutate others cur of (final, r, slept) \<Rightarrow> slept) \<le> 400 * n"
proof (induction n a mutate others cur rule: update_room_attempts.induct)
  case (2 n a mutate others cur)
  have "backoff_ms a \<le> 400" by (simp add: backoff_ms_def update_room_backoff_cap_ms_def)
  with 2 show ?case by (fastforce split: option.splits list.splits prod.splits)
qed simp

lemma attempts_numeral [simp]:
  "update_room_attempts (numeral k) attempt mutate others cur =
     (case mutate cur of
        None \<Rightarrow> ((case others of Some v # _ \<Rightarrow> v | _ \<Rightarrow> cur), Aborted, 0)
      | Some next' \<Rightarrow>
          (case others of
             Some v # rest \<Rightarrow>
               (case update_room_attempts (pred_numeral k) (attempt + 1) mutate rest v of
                  (final, r, slept) \<Rightarrow> (final, r, backoff_ms attempt + slept))
           | _ \<Rightarrow> (Some next', Stored next', 0)))"
  by (simp add: numeral_eq_Suc)

section \<open>Properties\<close>



text \<open>Without interference this is the atomic step the handlers are modelled with.\<close>

lemma update_room_is_atomic:
  "update_room roomId mutate w =
     (case update_room_watch mutate [] (get_room roomId w) of
        (final, Stored st, _) \<Rightarrow> (w\<lparr>w_rooms := AList.update roomId st (w_rooms w)\<rparr>, Some st)
      | (_, _, _) \<Rightarrow> (w, None))"
  by (simp add: update_room_def update_room_watch_def update_room_max_attempts_def split: option.split)

end
