(* ===== verification/Room_Security.thy ===== *)
theory Room_Security
  imports Schemas Ownership
begin

text \<open>
  Join passwords and the security record of a room
  (\<open>src/src/server/realtime/services/room-security.ts\<close>).  The password hash
  (\<open>scrypt\<close> with the fixed key length, rendered as hex) is the parameter \<open>hash\<close> of the
  definitions that use it; the random salt and the clock are arguments.
\<close>

section \<open>Normalising persisted values\<close>

definition as_optional_string :: "json option \<Rightarrow> string option" where
  "as_optional_string v = (case v of Some (JStr s) \<Rightarrow> Some s | _ \<Rightarrow> None)"

definition as_non_negative_int :: "json option \<Rightarrow> nat" where
  "as_non_negative_int v =
     (case v of Some (JNum x) \<Rightarrow> (if is_int x \<and> x \<ge> 0 then nat \<lfloor>x\<rfloor> else 0) | _ \<Rightarrow> 0)"

definition as_finite_number_or_null :: "json option \<Rightarrow> jsnum option" where
  "as_finite_number_or_null v = (case v of Some (JNum x) \<Rightarrow> Some x | _ \<Rightarrow> None)"

definition normalize_default_join_role :: "json option \<Rightarrow> default_join_role" where
  "normalize_default_join_role v = (if v = Some (JStr ''guest'') then JoinGuest else JoinModerator)"

definition create_default_room_security :: room_security where
  "create_default_room_security =
     \<lparr>rs_joinPasswordEnabled = False, rs_joinPasswordUpdatedAt = None, rs_admissionVersion = 0,
       rs_defaultJoinRole = JoinGuest, rs_joinPasswordHash = None, rs_joinPasswordSalt = None\<rparr>"

text \<open>The last step: a password whose hash or salt is missing or empty is switched off.\<close>

definition drop_broken_password :: "room_security \<Rightarrow> room_security" where
  "drop_broken_password n =
     (if rs_joinPasswordEnabled n \<and> (\<not> truthy (rs_joinPasswordHash n) \<or> \<not> truthy (rs_joinPasswordSalt n))
      then n\<lparr>rs_joinPasswordEnabled := False, rs_joinPasswordHash := None, rs_joinPasswordSalt := None\<rparr>
      else n)"

text \<open>On a parsed JSON value of any shape, as it may come out of the store.\<close>

definition normalize_room_security_json :: "json \<Rightarrow> room_security" where
  "normalize_room_security_json current = drop_broken_password
     \<lparr>rs_joinPasswordEnabled = (jget current ''joinPasswordEnabled'' = Some (JBool True)),
       rs_joinPasswordUpdatedAt = as_finite_number_or_null (jget current ''joinPasswordUpdatedAt''),
       rs_admissionVersion = as_non_negative_int (jget current ''admissionVersion''),
       rs_defaultJoinRole = normalize_default_join_role (jget current ''defaultJoinRole''),
       rs_joinPasswordHash = as_optional_string (jget current ''joinPasswordHash''),
       rs_joinPasswordSalt = as_optional_string (jget current ''joinPasswordSalt'')\<rparr>"

text \<open>On a value that already has the right types only the last step can change anything.\<close>

definition normalize_room_security :: "room_security \<Rightarrow> room_security" where
  "normalize_room_security = drop_broken_password"

definition security_to_json :: "room_security \<Rightarrow> json" where
  "security_to_json s = JObj
     ([(''joinPasswordEnabled'', JBool (rs_joinPasswordEnabled s)),
       (''joinPasswordUpdatedAt'', case rs_joinPasswordUpdatedAt s of Some t \<Rightarrow> JNum t | None \<Rightarrow> JNull),
       (''admissionVersion'', JNum (real (rs_admissionVersion s))),
       (''defaultJoinRole'', JStr (case rs_defaultJoinRole s of JoinGuest \<Rightarrow> ''guest'' | JoinModerator \<Rightarrow> ''moderator''))]
      @ (case rs_joinPasswordHash s of Some h \<Rightarrow> [(''joinPasswordHash'', JStr h)] | None \<Rightarrow> [])
      @ (case rs_joinPasswordSalt s of Some h \<Rightarrow> [(''joinPasswordSalt'', JStr h)] | None \<Rightarrow> []))"

lemma normalize_of_json: "normalize_room_security_json (security_to_json s) = normalize_room_security s"
proof -
  let ?j = "security_to_json s"
  have "as_optional_string (jget ?j ''joinPasswordHash'') = rs_joinPasswordHash s"
    "as_optional_string (jget ?j ''joinPasswordSalt'') = rs_joinPasswordSalt s"
    by (cases "rs_joinPasswordHash s"; cases "rs_joinPasswordSalt s";
        simp add: security_to_json_def as_optional_string_def)+
  moreover have "as_finite_number_or_null (jget ?j ''joinPasswordUpdatedAt'') = rs_joinPasswordUpdatedAt s"
    by (cases "rs_joinPasswordUpdatedAt s") (simp_all add: security_to_json_def as_finite_number_or_null_def)
  moreover have "normalize_default_join_role (jget ?j ''defaultJoinRole'') = rs_defaultJoinRole s"
    by (cases "rs_defaultJoinRole s") (simp_all add: security_to_json_def normalize_default_join_role_def)
  moreover have "as_non_negative_int (jget ?j ''admissionVersion'') = rs_admissionVersion s"
    by (simp add: security_to_json_def as_non_negative_int_def)
  moreover have "(jget ?j ''joinPasswordEnabled'' = Some (JBool True)) = rs_joinPasswordEnabled s"
    by (simp add: security_to_json_def)
  moreover have "\<lparr>rs_joinPasswordEnabled = rs_joinPasswordEnabled s,
       rs_joinPasswordUpdatedAt = rs_joinPasswordUpdatedAt s, rs_admissionVersion = rs_admissionVersion s,
       rs_defaultJoinRole = rs_defaultJoinRole s, rs_joinPasswordHash = rs_joinPasswordHash s,
       rs_joinPasswordSalt = rs_joinPasswordSalt s\<rparr> = s" by simp
  ultimately show ?thesis
    by (simp only: normalize_room_security_json_def normalize_room_security_def)
qed

section \<open>Operations\<close>

definition ensure_room_security :: "server_room \<Rightarrow> server_room \<times> room_security" where
  "ensure_room_security st =
     (let n = normalize_room_security (st_roomSecurity st) in (st\<lparr>st_roomSecurity := n\<rparr>, n))"

definition public_room_security_of :: "room_security \<Rightarrow> public_room_security" where
  "public_room_security_of s =
     \<lparr>rs_joinPasswordEnabled = rs_joinPasswordEnabled s,
       rs_joinPasswordUpdatedAt = rs_joinPasswordUpdatedAt s,
       rs_admissionVersion = rs_admissionVersion s, rs_defaultJoinRole = rs_defaultJoinRole s\<rparr>"

definition sanitize_room_state_for_client :: "server_room \<Rightarrow> jsnum \<Rightarrow> client_room" where
  "sanitize_room_state_for_client st now =
     \<lparr>st_roomId = st_roomId st, st_ownerId = st_ownerId st,
       st_roomSecurity = public_room_security_of (snd (ensure_room_security st)),
       st_playback = st_playback st, st_playlist = st_playlist st,
       st_currentIndex = st_currentIndex st, st_participants = st_participants st,
       st_actionLog = st_actionLog st, st_updatedAt = st_updatedAt st,
       st_generation = st_generation st, st_structuralRevision = st_structuralRevision st,
       st_presenceRevision = st_presenceRevision st, cr_serverWallNowMs = Some now\<rparr>"

definition set_default_join_role :: "server_room \<Rightarrow> default_join_role \<Rightarrow> server_room \<times> bool" where
  "set_default_join_role st role =
     (case ensure_room_security st of (st1, sec) \<Rightarrow>
       if rs_defaultJoinRole sec = role then (st1, False)
       else (st1\<lparr>st_roomSecurity := sec\<lparr>rs_defaultJoinRole := role\<rparr>\<rparr>, True))"

definition set_join_password ::
  "(string \<Rightarrow> string \<Rightarrow> string) \<Rightarrow> string \<Rightarrow> jsnum \<Rightarrow> server_room \<Rightarrow> string \<Rightarrow> server_room" where
  "set_join_password hash salt now st password =
     (case ensure_room_security st of (st1, sec) \<Rightarrow>
       st1\<lparr>st_roomSecurity := sec\<lparr>rs_joinPasswordEnabled := True, rs_joinPasswordSalt := Some salt,
             rs_joinPasswordHash := Some (hash (trim password) salt),
             rs_joinPasswordUpdatedAt := Some now,
             rs_admissionVersion := rs_admissionVersion sec + 1\<rparr>\<rparr>)"

definition clear_join_password :: "jsnum \<Rightarrow> server_room \<Rightarrow> server_room \<times> bool" where
  "clear_join_password now st =
     (case ensure_room_security st of (st1, sec) \<Rightarrow>
       (let changed = rs_joinPasswordEnabled sec \<or> truthy (rs_joinPasswordHash sec)
                      \<or> truthy (rs_joinPasswordSalt sec)
        in (st1\<lparr>st_roomSecurity := sec\<lparr>rs_joinPasswordEnabled := False, rs_joinPasswordHash := None,
                  rs_joinPasswordSalt := None, rs_joinPasswordUpdatedAt := Some now,
                  rs_admissionVersion := rs_admissionVersion sec + (if changed then 1 else 0)\<rparr>\<rparr>, changed)))"

text \<open>\<open>Buffer.from(s, "hex")\<close>: pairs of hex digits up to the first pair that is not one.\<close>

definition hex_value :: "char \<Rightarrow> nat option" where
  "hex_value c = (let n = (of_char c :: nat) in
     if 48 \<le> n \<and> n \<le> 57 then Some (n - 48)
     else if 97 \<le> n \<and> n \<le> 102 then Some (n - 87)
     else if 65 \<le> n \<and> n \<le> 70 then Some (n - 55) else None)"

fun hex_bytes :: "string \<Rightarrow> nat list" where
  "hex_bytes (a # b # s) =
     (case (hex_value a, hex_value b) of
        (Some x, Some y) \<Rightarrow> (16 * x + y) # hex_bytes s
      | _ \<Rightarrow> [])"
| "hex_bytes _ = []"

definition verify_join_password :: "(string \<Rightarrow> string \<Rightarrow> string) \<Rightarrow> server_room \<Rightarrow> string \<Rightarrow> bool" where
  "verify_join_password hash st supplied =
     (let sec = snd (ensure_room_security st) in
      case (rs_joinPasswordHash sec, rs_joinPasswordSalt sec) of
        (Some h, Some salt) \<Rightarrow>
          (if \<not> rs_joinPasswordEnabled sec \<or> h = [] \<or> salt = [] then True
           else let expected = hex_bytes h; actual = hex_bytes (hash (trim supplied) salt)
                in if length expected \<noteq> length actual then False else expected = actual)
      | _ \<Rightarrow> True)"

datatype admission = Allowed | Denied join_rejected_reason

definition evaluate_join_admission ::
  "(string \<Rightarrow> string \<Rightarrow> string) \<Rightarrow> server_room option \<Rightarrow> string option \<Rightarrow> admission" where
  "evaluate_join_admission hash cur supplied =
     (case cur of
        None \<Rightarrow> Allowed
      | Some st \<Rightarrow>
          (if \<not> rs_joinPasswordEnabled (snd (ensure_room_security st)) then Allowed
           else case supplied of
              None \<Rightarrow> Denied PasswordRequired
            | Some pw \<Rightarrow>
                if trim pw = [] then Denied PasswordRequired
                else if \<not> verify_join_password hash st pw then Denied InvalidPassword
                else Allowed))"

lemmas security_defs = ensure_room_security_def set_default_join_role_def set_join_password_def
  clear_join_password_def normalize_room_security_def drop_broken_password_def Let_def

section \<open>The invariant\<close>

definition security_wf :: "room_security \<Rightarrow> bool" where
  "security_wf s = (rs_joinPasswordEnabled s \<longrightarrow>
     truthy (rs_joinPasswordHash s) \<and> truthy (rs_joinPasswordSalt s))"

lemma normalize_wf [simp]: "security_wf (normalize_room_security s)"
  by (auto simp: security_wf_def normalize_room_security_def drop_broken_password_def)

lemma normalize_json_wf: "security_wf (normalize_room_security_json j)"
  unfolding normalize_room_security_json_def
  using normalize_wf unfolding normalize_room_security_def by blast

lemma normalize_idem [simp]: "security_wf s \<Longrightarrow> normalize_room_security s = s"
  by (auto simp: security_wf_def normalize_room_security_def drop_broken_password_def)

lemma security_wf_default: "security_wf create_default_room_security"
  by (simp add: security_wf_def create_default_room_security_def)

lemma security_wf_set_role [wf_intros]:
  "security_wf (st_roomSecurity (fst (set_default_join_role st role)))"
  using normalize_wf [of "st_roomSecurity st"]
  unfolding security_wf_def by (simp add: set_default_join_role_def ensure_room_security_def Let_def)

lemma security_wf_clear [wf_intros]: "security_wf (st_roomSecurity (fst (clear_join_password now st)))"
  by (simp add: clear_join_password_def ensure_room_security_def Let_def security_wf_def)

lemma security_wf_set [wf_intros]:
  "salt \<noteq> [] \<Longrightarrow> hash (trim pw) salt \<noteq> [] \<Longrightarrow>
     security_wf (st_roomSecurity (set_join_password hash salt now st pw))"
  by (simp add: set_join_password_def ensure_room_security_def Let_def security_wf_def)

lemma security_frame [simp]:
  "st_playlist (set_join_password hash salt now st pw) = st_playlist st"
  "st_playback (set_join_password hash salt now st pw) = st_playback st"
  "st_currentIndex (set_join_password hash salt now st pw) = st_currentIndex st"
  "st_participants (set_join_password hash salt now st pw) = st_participants st"
  "st_ownerId (set_join_password hash salt now st pw) = st_ownerId st"
  "st_playlist (fst (clear_join_password now st)) = st_playlist st"
  "st_playback (fst (clear_join_password now st)) = st_playback st"
  "st_currentIndex (fst (clear_join_password now st)) = st_currentIndex st"
  "st_participants (fst (clear_join_password now st)) = st_participants st"
  "st_ownerId (fst (clear_join_password now st)) = st_ownerId st"
  "st_playlist (fst (set_default_join_role st role)) = st_playlist st"
  "st_playback (fst (set_default_join_role st role)) = st_playback st"
  "st_currentIndex (fst (set_default_join_role st role)) = st_currentIndex st"
  "st_participants (fst (set_default_join_role st role)) = st_participants st"
  "st_ownerId (fst (set_default_join_role st role)) = st_ownerId st"
  "st_playlist (fst (ensure_room_security st)) = st_playlist st"
  "st_playback (fst (ensure_room_security st)) = st_playback st"
  "st_currentIndex (fst (ensure_room_security st)) = st_currentIndex st"
  "st_participants (fst (ensure_room_security st)) = st_participants st"
  "st_ownerId (fst (ensure_room_security st)) = st_ownerId st"
  by (simp_all add: security_defs)

lemma admission_cong:
  "st_roomSecurity s = st_roomSecurity s' \<Longrightarrow>
     evaluate_join_admission hash (Some s) supplied = evaluate_join_admission hash (Some s') supplied"
proof -
  assume eq: "st_roomSecurity s = st_roomSecurity s'"
  then have "verify_join_password hash s q = verify_join_password hash s' q" for q
    by (simp add: verify_join_password_def ensure_room_security_def Let_def)
  with eq show ?thesis by (simp add: evaluate_join_admission_def ensure_room_security_def Let_def split: option.split)
qed

lemma set_password_security:
  "st_roomSecurity (set_join_password hash salt now st pw) = (normalize_room_security (st_roomSecurity st))
      \<lparr>rs_joinPasswordEnabled := True, rs_joinPasswordSalt := Some salt,
       rs_joinPasswordHash := Some (hash (trim pw) salt), rs_joinPasswordUpdatedAt := Some now,
       rs_admissionVersion := rs_admissionVersion (normalize_room_security (st_roomSecurity st)) + 1\<rparr>"
  by (simp add: set_join_password_def ensure_room_security_def Let_def)

lemma admission_after_set:
  assumes "salt \<noteq> []" "hash (trim pw) salt \<noteq> []"
  shows "evaluate_join_admission hash (Some (set_join_password hash salt now st pw)) supplied =
      (case supplied of
         None \<Rightarrow> Denied PasswordRequired
       | Some q \<Rightarrow>
           if trim q = [] then Denied PasswordRequired
           else if hex_bytes (hash (trim q) salt) = hex_bytes (hash (trim pw) salt) then Allowed
           else Denied InvalidPassword)"
proof -
  let ?s = "set_join_password hash salt now st pw"
  have ens: "snd (ensure_room_security ?s) = st_roomSecurity ?s"
    using security_wf_set [where hash = hash and pw = pw, OF assms] by (simp add: ensure_room_security_def Let_def)
  have ver: "verify_join_password hash ?s q \<longleftrightarrow>
      hex_bytes (hash (trim q) salt) = hex_bytes (hash (trim pw) salt)" for q
    unfolding verify_join_password_def ens Let_def unfolding set_password_security using assms by auto
  show ?thesis
    unfolding evaluate_join_admission_def option.case ens ver
    by (simp add: set_password_security split: option.split)
qed

lemma admission_after_clear:
  "evaluate_join_admission hash (Some (fst (clear_join_password later st))) supplied = Allowed"
proof -
  have "\<not> rs_joinPasswordEnabled (st_roomSecurity (fst (clear_join_password later st)))"
    by (simp add: clear_join_password_def ensure_room_security_def Let_def)
  then have "\<not> rs_joinPasswordEnabled (snd (ensure_room_security (fst (clear_join_password later st))))"
    by (simp add: ensure_room_security_def Let_def normalize_room_security_def drop_broken_password_def)
  then show ?thesis by (simp add: evaluate_join_admission_def)
qed

section \<open>Properties\<close>

text \<open>
  What a client is sent does not depend on the secret: two rooms that differ only in the join
  password's hash and salt (both well formed) give the same snapshot.
\<close>

theorem snapshot_hides_password:
  assumes "security_wf s" "security_wf s'"
    and "public_room_security_of s = public_room_security_of s'"
  shows "sanitize_room_state_for_client (st\<lparr>st_roomSecurity := s\<rparr>) now =
         sanitize_room_state_for_client (st\<lparr>st_roomSecurity := s'\<rparr>) now
       \<and> st_roomSecurity (sanitize_room_state_for_client (st\<lparr>st_roomSecurity := s\<rparr>) now)
         = public_room_security_of s"
  using assms by (simp add: sanitize_room_state_for_client_def ensure_room_security_def Let_def)

definition sample_hash :: "string \<Rightarrow> string \<Rightarrow> string" where
  "sample_hash p salt = concat (map (\<lambda>c. [CHR ''a'', if c = CHR ''x'' then CHR ''1'' else CHR ''2'']) (CHR ''x'' # p))"

theorem snapshot_hides_password_witness:
  "sanitize_room_state_for_client (set_join_password sample_hash ''5a17'' 7 sample_room ''xy'') 9 =
   sanitize_room_state_for_client (set_join_password sample_hash ''ffff'' 7 sample_room ''yy'') 9"
proof -
  let ?a = "set_join_password sample_hash ''5a17'' 7 sample_room ''xy''"
  let ?b = "set_join_password sample_hash ''ffff'' 7 sample_room ''yy''"
  have wf: "security_wf (st_roomSecurity ?a)" "security_wf (st_roomSecurity ?b)"
    by (rule security_wf_set; simp add: sample_hash_def)+
  have pub: "public_room_security_of (st_roomSecurity ?a) = public_room_security_of (st_roomSecurity ?b)"
    by (simp add: public_room_security_of_def set_join_password_def ensure_room_security_def Let_def)
  have eq: "?a = ?a\<lparr>st_roomSecurity := st_roomSecurity ?a\<rparr>" "?b = ?a\<lparr>st_roomSecurity := st_roomSecurity ?b\<rparr>"
    by (simp_all add: set_join_password_def ensure_room_security_def Let_def)
  show ?thesis
    using snapshot_hides_password [OF wf pub, of ?a 9] eq by metis
qed

text \<open>
  C1. After the owner has set a password a join is admitted exactly with a password that is not
  blank and whose hash equals the stored one; a missing or blank password is answered with
  \<open>password_required\<close>, any other with \<open>invalid_password\<close>.  Clearing it opens the room again.
\<close>

theorem join_password_correct:
  assumes "salt \<noteq> []" "hash (trim pw) salt \<noteq> []"
  shows "evaluate_join_admission hash (Some (set_join_password hash salt now st pw)) supplied =
      (case supplied of
         None \<Rightarrow> Denied PasswordRequired
       | Some q \<Rightarrow>
           if trim q = [] then Denied PasswordRequired
           else if hex_bytes (hash (trim q) salt) = hex_bytes (hash (trim pw) salt) then Allowed
           else Denied InvalidPassword)
    \<and> evaluate_join_admission hash
        (Some (fst (clear_join_password later (set_join_password hash salt now st pw)))) supplied = Allowed"
  by (intro conjI admission_after_set admission_after_clear assms)

theorem join_password_correct_witness:
  "evaluate_join_admission sample_hash
     (Some (set_join_password sample_hash ''5a17'' 7 sample_room '' xy'')) (Some ''xy '') = Allowed"
proof -
  have t: "trim '' xy'' = ''xy''" "trim ''xy '' = ''xy''"
    by (simp_all add: trim_def trim_end_def trim_start_def is_ws_def)
  have "sample_hash (trim '' xy'') ''5a17'' \<noteq> []" by (simp add: sample_hash_def)
  from join_password_correct [where hash = sample_hash and salt = "''5a17''" and pw = "'' xy''" and now = 7
      and st = sample_room and supplied = "Some ''xy ''" and later = 8, OF _ this] show ?thesis
    by (simp add: t)
qed

text \<open>
  C1. A password of white space only passes the payload schema, is stored as the hash of the empty
  string with the lock switched on, and then admits nobody: every supplied password is answered
  with \<open>password_required\<close> or \<open>invalid_password\<close>, the one the owner typed included (unless
  another password happens to hash like the empty string).
\<close>

theorem blank_password_locks_room:
  assumes "parse_passwordSet payload = Some pw" "trim pw = []"
    and "salt \<noteq> []" "hash [] salt \<noteq> []"
    and "\<And>q. trim q \<noteq> [] \<Longrightarrow> hex_bytes (hash (trim q) salt) \<noteq> hex_bytes (hash [] salt)"
  shows "rs_joinPasswordEnabled (st_roomSecurity (set_join_password hash salt now st pw))
    \<and> evaluate_join_admission hash (Some (set_join_password hash salt now st pw)) (Some pw)
        = Denied PasswordRequired
    \<and> evaluate_join_admission hash (Some (set_join_password hash salt now st pw)) supplied \<noteq> Allowed"
proof -
  let ?s = "set_join_password hash salt now st pw"
  have h: "hash (trim pw) salt \<noteq> []" using assms(2,4) by simp
  have wf: "security_wf (st_roomSecurity ?s)" by (rule security_wf_set [where hash = hash, OF assms(3) h])
  have ens: "snd (ensure_room_security ?s) = st_roomSecurity ?s"
    using wf by (simp add: ensure_room_security_def Let_def)
  have sec: "rs_joinPasswordEnabled (st_roomSecurity ?s)" "rs_joinPasswordSalt (st_roomSecurity ?s) = Some salt"
    "rs_joinPasswordHash (st_roomSecurity ?s) = Some (hash [] salt)"
    by (simp_all add: set_join_password_def ensure_room_security_def Let_def assms(2))
  have "\<not> verify_join_password hash ?s q" if "trim q \<noteq> []" for q
    using assms(3,4) assms(5) [OF that] sec by (auto simp: verify_join_password_def ens Let_def)
  then show ?thesis
    using sec(1) assms(2) by (simp add: evaluate_join_admission_def ens split: option.split)
qed

lemma sample_hash_starts:
  "hex_bytes (sample_hash p salt) = 161 # hex_bytes (concat (map (\<lambda>c. [CHR ''a'', if c = CHR ''x'' then CHR ''1'' else CHR ''2'']) p))"
  by (simp add: sample_hash_def hex_value_def)

theorem blank_password_locks_room_witness:
  "evaluate_join_admission sample_hash
     (Some (set_join_password sample_hash ''5a17'' 7 sample_room ''  '')) (Some ''xy'') \<noteq> Allowed"
proof -
  have p: "parse_passwordSet (JObj [(''password'', JStr ''  '')]) = Some ''  ''"
    by (simp add: parse_passwordSet_def p_field_def)
  have b: "trim ''  '' = []" by (simp add: trim_eq_Nil_iff is_ws_def)
  have d: "hex_bytes (sample_hash (trim q) ''5a17'') \<noteq> hex_bytes (sample_hash [] ''5a17'')"
    if "trim q \<noteq> []" for q
    using that by (cases "trim q") (simp_all add: sample_hash_starts hex_value_def)
  have n: "sample_hash [] ''5a17'' \<noteq> []" by (simp add: sample_hash_def)
  from blank_password_locks_room [where hash = sample_hash and salt = "''5a17''" and now = 7
      and st = sample_room and supplied = "Some ''xy''", OF p b _ n d] show ?thesis by simp
qed

text \<open>
  The admission version, by which connected clients notice that they must be admitted again,
  grows by one with every password that is set and every clear that removes something, and with
  nothing else; no operation on the security record leaves the lock on without a hash and a salt.
\<close>

theorem admission_version_steps:
  assumes "salt \<noteq> []" "hash (trim pw) salt \<noteq> []"
  shows "rs_admissionVersion (st_roomSecurity (set_join_password hash salt now st pw)) =
        rs_admissionVersion (st_roomSecurity st) + 1
    \<and> rs_admissionVersion (st_roomSecurity (fst (clear_join_password now st))) =
        rs_admissionVersion (st_roomSecurity st) + (if snd (clear_join_password now st) then 1 else 0)
    \<and> rs_admissionVersion (st_roomSecurity (fst (set_default_join_role st role))) =
        rs_admissionVersion (st_roomSecurity st)
    \<and> (rs_joinPasswordEnabled (normalize_room_security (st_roomSecurity st)) \<longrightarrow> snd (clear_join_password now st))
    \<and> security_wf (st_roomSecurity (set_join_password hash salt now st pw))
    \<and> security_wf (st_roomSecurity (fst (clear_join_password now st)))
    \<and> security_wf (st_roomSecurity (fst (set_default_join_role st role)))"
proof -
  have v: "rs_admissionVersion (normalize_room_security s) = rs_admissionVersion s" for s
    by (simp add: normalize_room_security_def drop_broken_password_def)
  show ?thesis
    using security_wf_set [where hash = hash and pw = pw, OF assms] security_wf_clear security_wf_set_role
    by (simp add: set_join_password_def clear_join_password_def set_default_join_role_def
        ensure_room_security_def Let_def v)
qed

theorem admission_version_steps_witness:
  "rs_admissionVersion (st_roomSecurity (set_join_password sample_hash ''5a17'' 7 sample_room ''xy'')) = 1"
proof -
  have h: "sample_hash (trim ''xy'') ''5a17'' \<noteq> []" by (simp add: sample_hash_def)
  have "rs_admissionVersion (st_roomSecurity sample_room) = 0" by (simp add: sample_room_def)
  with admission_version_steps [where hash = sample_hash and salt = "''5a17''" and pw = "''xy''" and now = 7
      and st = sample_room and role = JoinGuest, OF _ h] show ?thesis by simp
qed

end
