(* ===== verification/Repair.thy ===== *)
theory Repair
  imports Room_Security
begin

text \<open>
  Repair of a persisted room of any shape (\<open>src/src/server/repair.ts\<close>).  The state is the JSON
  object the store returns; every step that changes it names its finding, and steps are run in
  the order of the code.  The clock and the fresh owner id are arguments.  A string in a numeric
  comparison is not coerced: it fails the test that follows and is replaced.
\<close>

section \<open>Repair steps\<close>

type_synonym obj = "(string \<times> json) list"
type_synonym 'a repaired = "'a \<times> string list"

definition fix_if :: "('a \<Rightarrow> bool) \<Rightarrow> ('a \<Rightarrow> 'a) \<Rightarrow> string \<Rightarrow> 'a repaired \<Rightarrow> 'a repaired" where
  "fix_if bad f msg r = (case r of (x, fs) \<Rightarrow> if bad x then (f x, fs @ [msg]) else (x, fs))"

definition then_do :: "('a \<Rightarrow> 'a) \<Rightarrow> 'a repaired \<Rightarrow> 'a repaired" where
  "then_do f r = (f (fst r), snd r)"

definition then_with :: "('a \<Rightarrow> 'a repaired) \<Rightarrow> 'a repaired \<Rightarrow> 'a repaired" where
  "then_with f r = (case f (fst r) of (x, fs) \<Rightarrow> (x, snd r @ fs))"

fun json_truthy :: "json option \<Rightarrow> bool" where
  "json_truthy None = False"
| "json_truthy (Some JNull) = False"
| "json_truthy (Some (JBool b)) = b"
| "json_truthy (Some (JNum x)) = (x \<noteq> 0)"
| "json_truthy (Some (JStr s)) = (s \<noteq> [])"
| "json_truthy (Some (JArr xs)) = True"
| "json_truthy (Some (JObj fs)) = True"

fun is_str :: "json option \<Rightarrow> bool" where
  "is_str (Some (JStr s)) = True"
| "is_str _ = False"

fun num_of :: "json option \<Rightarrow> jsnum option" where
  "num_of (Some (JNum x)) = Some x"
| "num_of _ = None"

text \<open>A value that is truthy and has \<open>typeof "object"\<close>; an array has no named fields here.\<close>

fun obj_of :: "json option \<Rightarrow> obj option" where
  "obj_of (Some (JObj fs)) = Some fs"
| "obj_of (Some (JArr xs)) = Some []"
| "obj_of _ = None"

definition one_of :: "json option \<Rightarrow> string list \<Rightarrow> bool" where
  "one_of v ss = (case v of Some (JStr s) \<Rightarrow> s \<in> set ss | _ \<Rightarrow> False)"

abbreviation put :: "string \<Rightarrow> json \<Rightarrow> obj \<Rightarrow> obj" where
  "put k v fs \<equiv> AList.update k v fs"

definition normalize_finite_number :: "json option \<Rightarrow> jsnum \<Rightarrow> jsnum" where
  "normalize_finite_number v fallback = (case num_of v of Some x \<Rightarrow> x | None \<Rightarrow> fallback)"

section \<open>Playlist\<close>

definition fix_source_kind :: "obj repaired \<Rightarrow> obj repaired" where
  "fix_source_kind = fix_if (\<lambda>i. \<not> one_of (map_of i ''sourceKind'') [''remote_url'', ''local_file''])
     (\<lambda>i. put ''sourceKind'' (JStr (if json_truthy (map_of i ''localMediaId'')
                                   then ''local_file'' else ''remote_url'')) i)
     ''playlist-item-source-kind-repaired''"

definition fix_playback_mode :: "obj repaired \<Rightarrow> obj repaired" where
  "fix_playback_mode = fix_if (\<lambda>i. \<not> one_of (map_of i ''playbackMode'') [''direct'', ''relay''])
     (put ''playbackMode'' (JStr ''direct'')) ''playlist-item-playback-mode-repaired''"

definition fix_local_relay :: "obj repaired \<Rightarrow> obj repaired" where
  "fix_local_relay = fix_if (\<lambda>i. map_of i ''sourceKind'' = Some (JStr ''local_file'')
        \<and> map_of i ''playbackMode'' = Some (JStr ''relay''))
     (put ''playbackMode'' (JStr ''direct'')) ''playlist-item-local-playback-mode-repaired''"

definition fix_ingest_status :: "obj repaired \<Rightarrow> obj repaired" where
  "fix_ingest_status = fix_if
     (\<lambda>i. \<not> one_of (map_of i ''ingestStatus'') [''ready'', ''resolving'', ''error''])
     (\<lambda>i. put ''ingestStatus'' (JStr (if json_truthy (map_of i ''isResolving'') then ''resolving''
             else if json_truthy (map_of i ''resolutionError'') then ''error'' else ''ready'')) i)
     ''playlist-item-ingest-status-repaired''"

text \<open>A legacy string moves to its new field when that one is missing, null or empty.\<close>

definition migrate_field :: "string \<Rightarrow> string \<Rightarrow> string \<Rightarrow> obj repaired \<Rightarrow> obj repaired" where
  "migrate_field new old = fix_if (\<lambda>i. \<not> json_truthy (map_of i new) \<and> is_str (map_of i old))
     (\<lambda>i. put new (case map_of i old of Some v \<Rightarrow> v | None \<Rightarrow> JNull) i)"

definition legacy_item_fields :: "string list" where
  "legacy_item_fields = [''isResolving'', ''resolutionError'', ''originalUrl'',
     ''selectedStreamId'', ''selectedTextTrackId'']"

definition repair_playlist_item_fields :: "obj \<Rightarrow> obj repaired" where
  "repair_playlist_item_fields item =
     (let r4 = fix_ingest_status (fix_local_relay (fix_playback_mode (fix_source_kind (item, []))));
          r5 = migrate_field ''ingestError'' ''resolutionError'' ''playlist-item-ingest-error-migrated'' r4;
          r6 = migrate_field ''defaultStreamId'' ''selectedStreamId'' ''playlist-item-default-stream-migrated'' r5;
          r7 = migrate_field ''defaultTextTrackId'' ''selectedTextTrackId''
                 ''playlist-item-default-text-track-migrated'' r6
      in then_do (\<lambda>i. fold AList.delete legacy_item_fields i) r7)"

fun item_shape_ok :: "json \<Rightarrow> bool" where
  "item_shape_ok (JObj i) = (is_str (map_of i ''id'') \<and> is_str (map_of i ''name'')
     \<and> is_str (map_of i ''sourceUrl'') \<and> is_str (map_of i ''playableUrl''))"
| "item_shape_ok _ = False"

fun repair_item :: "json \<Rightarrow> json repaired" where
  "repair_item (JObj i) = (case repair_playlist_item_fields i of (i', fs) \<Rightarrow> (JObj i', fs))"
| "repair_item j = (j, [])"

fun arr_of :: "json option \<Rightarrow> json list option" where
  "arr_of (Some (JArr xs)) = Some xs"
| "arr_of _ = None"

text \<open>The part on the index: the repaired items and the stored index, with the findings.\<close>

definition index_beyond :: "json list \<Rightarrow> json option \<Rightarrow> bool" where
  "index_beyond xs i = (case num_of i of Some x \<Rightarrow> x \<ge> real (length xs) | None \<Rightarrow> False)"

definition index_invalid :: "json option \<Rightarrow> bool" where
  "index_invalid i = (case num_of i of Some x \<Rightarrow> x < 0 \<or> \<not> is_int x | None \<Rightarrow> True)"

definition repair_index :: "nat \<Rightarrow> json list \<Rightarrow> json option \<Rightarrow> (json list \<times> json option) repaired" where
  "repair_index limit xs i =
     (let i1 = (if index_beyond xs i then Some (JNum (max 0 (real (length xs) - 1))) else i);
          i2 = (if index_invalid i1 then Some (JNum 0) else i1);
          overflow = real (length xs - limit);
          xs' = slice_last limit xs;
          found = (if index_beyond xs i then [''playlist-index-clamped''] else [])
            @ (if index_invalid i1 then [''playlist-index-repaired''] else [])
      in if length xs > limit
         then ((xs', Some (JNum (max 0 (min (normalize_finite_number i2 0 - overflow)
                                          (real (length xs') - 1))))),
               found @ [''playlist-trimmed''])
         else ((xs, i2), found))"

definition repair_playlist_state :: "nat \<Rightarrow> obj \<Rightarrow> obj repaired" where
  "repair_playlist_state limit st =
     (let r0 = fix_if (\<lambda>s. arr_of (map_of s ''playlist'') = None) (put ''playlist'' (JArr []))
            ''playlist-repaired'' (st, []);
          items = map repair_item (filter item_shape_ok
             (case arr_of (map_of (fst r0) ''playlist'') of Some xs \<Rightarrow> xs | None \<Rightarrow> []));
          r1 = repair_index limit (map fst items) (map_of (fst r0) ''currentIndex'')
      in (case fst r1 of (xs, i) \<Rightarrow>
            put ''currentIndex'' (case i of Some j \<Rightarrow> j | None \<Rightarrow> JNull)
              (put ''playlist'' (JArr xs) (fst r0)),
          snd r0 @ concat (map snd items) @ snd r1))"

section \<open>Playback\<close>

definition create_default_playback :: "jsnum \<Rightarrow> obj" where
  "create_default_playback nowMs =
     [(''paused'', JBool True), (''playbackRate'', JNum 1), (''timelineAnchorMs'', JNum 0),
      (''serverNowMs'', JNum nowMs), (''videoLoop'', JStr ''off''), (''playlistLoop'', JStr ''off'')]"

text \<open>The object, and the number of repairs the code counts.\<close>

definition sanitize_playback_fields :: "jsnum \<Rightarrow> obj \<Rightarrow> obj \<times> nat" where
  "sanitize_playback_fields now pb =
     (let p1 = put ''paused'' (JBool (json_truthy (map_of pb ''paused''))) pb;
          p2 = put ''playbackRate''
                 (JNum (min 3 (max (1 / 4) (normalize_finite_number (map_of p1 ''playbackRate'') 1)))) p1;
          p3 = put ''timelineAnchorMs''
                 (JNum (max 0 (normalize_finite_number (map_of p2 ''timelineAnchorMs'') 0))) p2;
          p4 = put ''serverNowMs''
                 (JNum (max 0 (normalize_finite_number (map_of p3 ''serverNowMs'') now))) p3;
          badV = \<not> one_of (map_of p4 ''videoLoop'') [''off'', ''once'', ''always''];
          p5 = (if badV then put ''videoLoop'' (JStr ''off'') p4 else p4);
          badP = \<not> one_of (map_of p5 ''playlistLoop'') [''off'', ''once'', ''always''];
          p6 = (if badP then put ''playlistLoop'' (JStr ''off'') p5 else p5)
      in (p6, (if badV then 1 else 0) + (if badP then 1 else 0)))"

definition sanitize_playback :: "jsnum \<Rightarrow> obj \<Rightarrow> obj \<times> nat" where
  "sanitize_playback now st =
     (case obj_of (map_of st ''playback'') of
        None \<Rightarrow> (put ''playback'' (JObj (create_default_playback now)) st, 1)
      | Some pb \<Rightarrow> (case sanitize_playback_fields now pb of
                      (pb', n) \<Rightarrow> (put ''playback'' (JObj pb') st, n)))"

section \<open>Participants and log\<close>

fun digits :: "nat \<Rightarrow> nat \<Rightarrow> string" where
  "digits 0 n = []"
| "digits (Suc fuel) n = (if n < 10 then [char_of (48 + n)]
     else digits fuel (n div 10) @ [char_of (48 + n mod 10)])"

definition index_key :: "nat \<Rightarrow> string" where
  "index_key n = digits (Suc n) n"

fun entries_of :: "json option \<Rightarrow> (string \<times> json) list option" where
  "entries_of (Some (JObj fs)) = Some fs"
| "entries_of (Some (JArr xs)) = Some (map (\<lambda>i. (index_key i, xs ! i)) [0..<length xs])"
| "entries_of _ = None"

fun participant_shape_ok :: "string \<times> json \<Rightarrow> bool" where
  "participant_shape_ok (u, JObj p) = (u \<noteq> [] \<and> is_str (map_of p ''userId''))"
| "participant_shape_ok _ = False"

definition positive_num :: "json option \<Rightarrow> jsnum option" where
  "positive_num v = (case num_of v of Some x \<Rightarrow> if x > 0 then Some x else None | None \<Rightarrow> None)"

fun repair_participant :: "jsnum \<Rightarrow> string \<times> json \<Rightarrow> (string \<times> json) repaired" where
  "repair_participant now (u, JObj p) =
     (if positive_num (map_of p ''joinedAt'') \<noteq> None then ((u, JObj p), [])
      else ((u, JObj (put ''joinedAt'' (JNum
              (case positive_num (map_of p ''connectedAt'') of Some t \<Rightarrow> t | None \<Rightarrow>
                (case positive_num (map_of p ''lastSeenAt'') of Some t \<Rightarrow> t | None \<Rightarrow> now))) p)),
            [''participant-joined-at-repaired'']))"
| "repair_participant now e = (e, [])"

definition repair_participants :: "limits \<Rightarrow> jsnum \<Rightarrow> obj \<Rightarrow> obj repaired" where
  "repair_participants cfg now st =
     (let r0 = fix_if (\<lambda>s. entries_of (map_of s ''participants'') = None) (put ''participants'' (JObj []))
            ''participants-repaired'' (st, []);
          all = (case entries_of (map_of (fst r0) ''participants'') of Some es \<Rightarrow> es | None \<Rightarrow> []);
          good = filter participant_shape_ok all;
          kept = map (repair_participant now) (take (lim_participants cfg) good)
      in (put ''participants'' (JObj (map fst kept)) (fst r0),
          snd r0 @ (if length good \<noteq> length all then [''participants-cleaned''] else [])
          @ concat (map snd kept)
          @ (if length good > lim_participants cfg then [''participants-trimmed''] else [])))"

fun log_entry_ok :: "jsnum \<Rightarrow> json \<Rightarrow> bool" where
  "log_entry_ok cutoff (JObj e) = (is_str (map_of e ''actorUserId'')
     \<and> (case num_of (map_of e ''at'') of Some t \<Rightarrow> t \<ge> cutoff | None \<Rightarrow> False)
     \<and> one_of (map_of e ''action'') tracked_action_types)"
| "log_entry_ok cutoff _ = False"

definition repair_action_log :: "limits \<Rightarrow> jsnum \<Rightarrow> obj \<Rightarrow> obj repaired" where
  "repair_action_log cfg now st =
     (case arr_of (map_of st ''actionLog'') of
        None \<Rightarrow> (put ''actionLog'' (JArr []) st, [''action-log-repaired''])
      | Some es \<Rightarrow>
          (let valid = filter (log_entry_ok (now - room_action_log_max_age_ms)) es;
               pruned = (if length valid > lim_actionLog cfg then slice_last (lim_actionLog cfg) valid else valid)
           in (put ''actionLog'' (JArr pruned) st,
               (if length valid \<noteq> length es then [''action-log-filtered''] else [])
               @ (if length pruned < length valid then [''action-log-trimmed''] else []))))"

section \<open>The whole room\<close>

definition repair_security :: "obj \<Rightarrow> obj repaired" where
  "repair_security st =
     (case obj_of (map_of st ''roomSecurity'') of
        None \<Rightarrow> (put ''roomSecurity'' (security_to_json create_default_room_security) st,
                 [''room-security-repaired''])
      | Some s \<Rightarrow>
          (put ''roomSecurity'' (security_to_json (normalize_room_security_json (JObj s))) st,
           if map_of s ''joinPasswordEnabled'' = Some (JBool True)
              \<and> (\<not> json_truthy (map_of s ''joinPasswordHash'') \<or> \<not> json_truthy (map_of s ''joinPasswordSalt''))
           then [''room-security-disabled-missing-secret''] else []))"

definition non_negative :: "json option \<Rightarrow> bool" where
  "non_negative v = (case num_of v of Some x \<Rightarrow> x \<ge> 0 | None \<Rightarrow> False)"

definition check_room_id :: "obj repaired \<Rightarrow> obj repaired" where
  "check_room_id = fix_if (\<lambda>s. \<not> (json_truthy (map_of s ''roomId'') \<and> is_str (map_of s ''roomId'')))
     (\<lambda>s. s) ''room-id-invalid''"

definition fix_owner_id :: "string \<Rightarrow> obj repaired \<Rightarrow> obj repaired" where
  "fix_owner_id freshId = fix_if
     (\<lambda>s. \<not> (json_truthy (map_of s ''ownerId'') \<and> is_str (map_of s ''ownerId'')))
     (put ''ownerId'' (JStr freshId)) ''owner-repaired''"

definition fix_playback_object :: "jsnum \<Rightarrow> obj repaired \<Rightarrow> obj repaired" where
  "fix_playback_object now = fix_if (\<lambda>s. obj_of (map_of s ''playback'') = None)
     (put ''playback'' (JObj (create_default_playback now))) ''playback-object-repaired''"

definition repair_playback :: "jsnum \<Rightarrow> obj \<Rightarrow> obj repaired" where
  "repair_playback now s =
     (case sanitize_playback now s of (s', n) \<Rightarrow> (s', replicate n ''playback-repaired''))"

definition strip_history :: "obj repaired \<Rightarrow> obj repaired" where
  "strip_history = fix_if (\<lambda>s. map_of s ''history'' \<noteq> None) (AList.delete ''history'')
     ''legacy-history-stripped''"

definition strip_shuffle :: "obj repaired \<Rightarrow> obj repaired" where
  "strip_shuffle = fix_if
     (\<lambda>s. case obj_of (map_of s ''playback'') of Some pb \<Rightarrow> map_of pb ''shuffle'' \<noteq> None | None \<Rightarrow> False)
     (\<lambda>s. case obj_of (map_of s ''playback'') of
            Some pb \<Rightarrow> put ''playback'' (JObj (AList.delete ''shuffle'' pb)) s | None \<Rightarrow> s)
     ''legacy-shuffle-stripped''"

definition fix_updated_at :: "jsnum \<Rightarrow> obj repaired \<Rightarrow> obj repaired" where
  "fix_updated_at now = fix_if
     (\<lambda>s. case num_of (map_of s ''updatedAt'') of Some x \<Rightarrow> x \<le> 0 | None \<Rightarrow> True)
     (put ''updatedAt'' (JNum now)) ''updated-at-repaired''"

definition fix_counter :: "string \<Rightarrow> string \<Rightarrow> obj repaired \<Rightarrow> obj repaired" where
  "fix_counter k = fix_if (\<lambda>s. \<not> non_negative (map_of s k)) (put k (JNum 0))"

definition repair_cleanup_and_check_room_state ::
  "limits \<Rightarrow> string \<Rightarrow> jsnum \<Rightarrow> obj \<Rightarrow> obj repaired" where
  "repair_cleanup_and_check_room_state cfg freshId now st0 =
     (let r2 = fix_owner_id freshId (check_room_id (st0, []));
          r3 = then_with repair_security r2;
          r4 = then_with (repair_playlist_state (lim_playlist cfg)) r3;
          r5 = then_with (repair_participants cfg now) r4;
          r6 = then_with (repair_action_log cfg now) r5;
          r8 = then_with (repair_playback now) (fix_playback_object now r6);
          r11 = fix_updated_at now (strip_shuffle (strip_history r8))
      in fix_counter ''structuralRevision'' ''structural-revision-repaired''
           (fix_counter ''generation'' ''generation-repaired'' r11))"

section \<open>What a step leaves alone\<close>

lemma fst_fix_if [simp]: "fst (fix_if bad f msg r) = (if bad (fst r) then f (fst r) else fst r)"
  by (simp add: fix_if_def split: prod.split)

lemma snd_fix_if: "snd (fix_if bad f msg r) = (if bad (fst r) then snd r @ [msg] else snd r)"
  by (simp add: fix_if_def split: prod.split)

lemma fst_then_do [simp]: "fst (then_do f r) = f (fst r)"
  by (simp add: then_do_def)

lemma fst_then_with [simp]: "fst (then_with f r) = fst (f (fst r))"
  by (simp add: then_with_def split: prod.split)

lemma other_field [simp]:
  "k \<noteq> K \<Longrightarrow> map_of (if b then AList.update K v s else s) k = map_of s k"
  "k \<noteq> K \<Longrightarrow> map_of (if b then AList.delete K s else s) k = map_of s k"
  by simp_all

lemma if_same [simp]: "(if b then s else s) = s" by simp

section \<open>A repaired room\<close>

definition item_repaired :: "json \<Rightarrow> bool" where
  "item_repaired j = (case j of
     JObj i \<Rightarrow> item_shape_ok j \<and> one_of (map_of i ''sourceKind'') [''remote_url'', ''local_file'']
       \<and> one_of (map_of i ''playbackMode'') [''direct'', ''relay'']
       \<and> one_of (map_of i ''ingestStatus'') [''ready'', ''resolving'', ''error'']
       \<and> \<not> (map_of i ''sourceKind'' = Some (JStr ''local_file'') \<and> map_of i ''playbackMode'' = Some (JStr ''relay''))
       \<and> map_of i ''isResolving'' = None \<and> map_of i ''resolutionError'' = None
       \<and> map_of i ''originalUrl'' = None \<and> map_of i ''selectedStreamId'' = None
       \<and> map_of i ''selectedTextTrackId'' = None
   | _ \<Rightarrow> False)"

definition index_repaired :: "json list \<Rightarrow> json option \<Rightarrow> bool" where
  "index_repaired xs i = (case num_of i of
     Some x \<Rightarrow> is_int x \<and> 0 \<le> x \<and> (if xs = [] then x = 0 else x < real (length xs)) | None \<Rightarrow> False)"

definition playlist_repaired :: "limits \<Rightarrow> obj \<Rightarrow> bool" where
  "playlist_repaired cfg st = (case arr_of (map_of st ''playlist'') of
     Some xs \<Rightarrow> length xs \<le> lim_playlist cfg \<and> list_all item_repaired xs
       \<and> index_repaired xs (map_of st ''currentIndex'')
   | None \<Rightarrow> False)"

definition playback_repaired :: "obj \<Rightarrow> bool" where
  "playback_repaired st = (case obj_of (map_of st ''playback'') of
     Some pb \<Rightarrow> (case num_of (map_of pb ''playbackRate'') of Some r \<Rightarrow> 1 / 4 \<le> r \<and> r \<le> 3 | None \<Rightarrow> False)
       \<and> non_negative (map_of pb ''timelineAnchorMs'') \<and> non_negative (map_of pb ''serverNowMs'')
       \<and> one_of (map_of pb ''videoLoop'') [''off'', ''once'', ''always'']
       \<and> one_of (map_of pb ''playlistLoop'') [''off'', ''once'', ''always'']
       \<and> map_of pb ''shuffle'' = None
   | None \<Rightarrow> False)"

definition participants_repaired :: "limits \<Rightarrow> obj \<Rightarrow> bool" where
  "participants_repaired cfg st = (case map_of st ''participants'' of
     Some (JObj ps) \<Rightarrow> length ps \<le> lim_participants cfg
       \<and> list_all (\<lambda>e. participant_shape_ok e
           \<and> (case snd e of JObj p \<Rightarrow> positive_num (map_of p ''joinedAt'') \<noteq> None | _ \<Rightarrow> False)) ps
   | _ \<Rightarrow> False)"

definition action_log_repaired :: "limits \<Rightarrow> jsnum \<Rightarrow> obj \<Rightarrow> bool" where
  "action_log_repaired cfg now st = (case arr_of (map_of st ''actionLog'') of
     Some es \<Rightarrow> length es \<le> lim_actionLog cfg
       \<and> list_all (log_entry_ok (now - room_action_log_max_age_ms)) es
   | None \<Rightarrow> False)"

definition security_repaired :: "obj \<Rightarrow> bool" where
  "security_repaired st = (case map_of st ''roomSecurity'' of
     Some j \<Rightarrow> j = security_to_json (normalize_room_security_json j) | None \<Rightarrow> False)"

definition room_repaired :: "limits \<Rightarrow> jsnum \<Rightarrow> obj \<Rightarrow> bool" where
  "room_repaired cfg now st = (is_str (map_of st ''ownerId'') \<and> json_truthy (map_of st ''ownerId'')
     \<and> security_repaired st \<and> playlist_repaired cfg st \<and> participants_repaired cfg st
     \<and> action_log_repaired cfg now st \<and> playback_repaired st
     \<and> (case num_of (map_of st ''updatedAt'') of Some x \<Rightarrow> x > 0 | None \<Rightarrow> False)
     \<and> non_negative (map_of st ''generation'') \<and> non_negative (map_of st ''structuralRevision'')
     \<and> map_of st ''history'' = None)"

section \<open>Each part of the repair\<close>

lemma one_of_put: "one_of (Some (JStr s)) ss \<longleftrightarrow> s \<in> set ss"
  by (simp add: one_of_def)

lemma map_of_fold_delete: "map_of (fold AList.delete ks s) k = (if k \<in> set ks then None else map_of s k)"
  by (induction ks arbitrary: s) auto

lemmas item_steps = fix_source_kind_def fix_playback_mode_def fix_local_relay_def fix_ingest_status_def
  migrate_field_def

lemma item_step_frame:
  "k \<noteq> ''sourceKind'' \<Longrightarrow> map_of (fst (fix_source_kind r)) k = map_of (fst r) k"
  "k \<noteq> ''playbackMode'' \<Longrightarrow> map_of (fst (fix_playback_mode r)) k = map_of (fst r) k"
  "k \<noteq> ''playbackMode'' \<Longrightarrow> map_of (fst (fix_local_relay r)) k = map_of (fst r) k"
  "k \<noteq> ''ingestStatus'' \<Longrightarrow> map_of (fst (fix_ingest_status r)) k = map_of (fst r) k"
  "k \<noteq> new \<Longrightarrow> map_of (fst (migrate_field new old msg r)) k = map_of (fst r) k"
  by (simp_all add: item_steps)

lemma item_step_result:
  "one_of (map_of (fst (fix_source_kind r)) ''sourceKind'') [''remote_url'', ''local_file'']"
  "one_of (map_of (fst (fix_playback_mode r)) ''playbackMode'') [''direct'', ''relay'']"
  "one_of (map_of (fst r) ''playbackMode'') [''direct'', ''relay''] \<Longrightarrow>
     one_of (map_of (fst (fix_local_relay r)) ''playbackMode'') [''direct'', ''relay'']"
  "\<not> (map_of (fst (fix_local_relay r)) ''sourceKind'' = Some (JStr ''local_file'')
      \<and> map_of (fst (fix_local_relay r)) ''playbackMode'' = Some (JStr ''relay''))"
  "one_of (map_of (fst (fix_ingest_status r)) ''ingestStatus'') [''ready'', ''resolving'', ''error'']"
  by (simp_all add: item_steps one_of_put)

lemma item_fields_map:
  "map_of (fst (repair_playlist_item_fields i)) k = (if k \<in> set legacy_item_fields then None
     else map_of (fst (migrate_field ''defaultTextTrackId'' ''selectedTextTrackId''
                 ''playlist-item-default-text-track-migrated''
            (migrate_field ''defaultStreamId'' ''selectedStreamId'' ''playlist-item-default-stream-migrated''
            (migrate_field ''ingestError'' ''resolutionError'' ''playlist-item-ingest-error-migrated''
            (fix_ingest_status (fix_local_relay (fix_playback_mode (fix_source_kind (i, []))))))))) k)"
  by (simp add: repair_playlist_item_fields_def Let_def map_of_fold_delete)

lemma item_fields_keep:
  "map_of (fst (repair_playlist_item_fields i)) ''id'' = map_of i ''id''"
  "map_of (fst (repair_playlist_item_fields i)) ''name'' = map_of i ''name''"
  "map_of (fst (repair_playlist_item_fields i)) ''sourceUrl'' = map_of i ''sourceUrl''"
  "map_of (fst (repair_playlist_item_fields i)) ''playableUrl'' = map_of i ''playableUrl''"
  by (simp_all add: item_fields_map item_step_frame legacy_item_fields_def)

lemma item_fields_kinds:
  "one_of (map_of (fst (repair_playlist_item_fields i)) ''sourceKind'') [''remote_url'', ''local_file'']"
  "one_of (map_of (fst (repair_playlist_item_fields i)) ''playbackMode'') [''direct'', ''relay'']"
  "one_of (map_of (fst (repair_playlist_item_fields i)) ''ingestStatus'') [''ready'', ''resolving'', ''error'']"
  "\<not> (map_of (fst (repair_playlist_item_fields i)) ''sourceKind'' = Some (JStr ''local_file'')
      \<and> map_of (fst (repair_playlist_item_fields i)) ''playbackMode'' = Some (JStr ''relay''))"
  using item_step_result(1) [of "(i, [])"] item_step_result(2) [of "fix_source_kind (i, [])"]
    item_step_result(3,4) [of "fix_playback_mode (fix_source_kind (i, []))"]
    item_step_result(5) [of "fix_local_relay (fix_playback_mode (fix_source_kind (i, [])))"]
  by (simp_all add: item_fields_map item_step_frame legacy_item_fields_def)

lemma item_fields_legacy:
  "k \<in> set legacy_item_fields \<Longrightarrow> map_of (fst (repair_playlist_item_fields i)) k = None"
  by (simp add: item_fields_map)

lemma repair_item_ok:
  assumes "item_shape_ok j"
  shows "item_repaired (fst (repair_item j))"
proof -
  obtain i where j: "j = JObj i" using assms by (cases j) auto
  have f: "fst (repair_item j) = JObj (fst (repair_playlist_item_fields i))"
    by (simp add: j split: prod.split)
  show ?thesis
    unfolding f item_repaired_def json.case item_shape_ok.simps item_fields_keep
    using assms item_fields_kinds [of i] item_fields_legacy [of _ i]
    by (simp add: j legacy_item_fields_def)
qed

lemma is_int_iff: "is_int x \<longleftrightarrow> x \<in> \<int>"
  unfolding is_int_def by (metis Ints_of_int Ints_cases floor_of_int)

lemma is_int_length [simp]: "is_int (real n - 1)" "is_int (real n)"
  by (simp_all add: is_int_iff)

lemma repair_index_ok:
  assumes "fst (repair_index limit xs i) = (xs', i')"
  shows "index_repaired xs' i' \<and> length xs' \<le> limit \<and> set xs' \<subseteq> set xs"
proof -
  define i1 where "i1 = (if index_beyond xs i then Some (JNum (max 0 (real (length xs) - 1))) else i)"
  define i2 where "i2 = (if index_invalid i1 then Some (JNum 0) else i1)"
  have r: "(xs', i') = (if length xs > limit then (slice_last limit xs, Some (JNum (max 0
      (min (normalize_finite_number i2 0 - real (length xs - limit)) (real (length (slice_last limit xs)) - 1)))))
      else (xs, i2))"
    unfolding assms [symmetric] repair_index_def Let_def i1_def [symmetric] i2_def [symmetric]
    by (simp only: fst_conv if_distrib [of fst])
  obtain x where x: "num_of i2 = Some x" "0 \<le> x" "is_int x" "x < real (length xs) \<or> x = 0"
  proof -
    have "\<exists>x. num_of i2 = Some x \<and> 0 \<le> x \<and> is_int x \<and> (x < real (length xs) \<or> x = 0)"
    proof (cases "num_of i1")
      case None
      then show ?thesis by (simp add: i2_def index_invalid_def)
    next
      case (Some y)
      have "y < real (length xs) \<or> y \<le> 0"
        using Some by (auto simp: i1_def index_beyond_def max_def split: if_splits option.splits)
      with Some show ?thesis by (auto simp: i2_def index_invalid_def)
    qed
    with that show thesis by blast
  qed
  have i2: "normalize_finite_number i2 0 = x" by (simp add: normalize_finite_number_def x(1))
  show ?thesis
  proof (cases "length xs > limit")
    case False
    with r x show ?thesis by (auto simp: index_repaired_def)
  next
    case True
    then have len: "length (slice_last limit xs) = limit" by simp
    define y where "y = max 0 (min (x - real (length xs - limit)) (real limit - 1))"
    have "is_int y" using x(3) by (auto simp: y_def is_int_iff max_def min_def)
    moreover have "0 \<le> y" by (simp add: y_def)
    moreover have "if slice_last limit xs = [] then y = 0 else y < real (length (slice_last limit xs))"
    proof (cases limit)
      case 0
      with len have "slice_last limit xs = []" by (metis length_0_conv)
      with 0 show ?thesis by (simp add: y_def)
    next
      case (Suc n)
      with len have "slice_last limit xs \<noteq> []" by (metis list.size(3) nat.distinct(1))
      with Suc show ?thesis unfolding len y_def by auto
    qed
    moreover have "(xs', i') = (slice_last limit xs, Some (JNum y))"
      using r True by (simp only: i2 len y_def if_True)
    ultimately show ?thesis
      using set_slice_last_subset [of limit xs] len unfolding index_repaired_def
      by (simp only: prod.inject num_of.simps option.case) simp
  qed
qed

lemma playlist_part:
  "playlist_repaired cfg (fst (repair_playlist_state (lim_playlist cfg) st))"
proof -
  define items where "items = map repair_item (filter item_shape_ok
     (case arr_of (map_of (fst (fix_if (\<lambda>s. arr_of (map_of s ''playlist'') = None) (put ''playlist'' (JArr []))
            ''playlist-repaired'' (st, []))) ''playlist'') of Some xs \<Rightarrow> xs | None \<Rightarrow> []))"
  define ci where "ci = map_of (fst (fix_if (\<lambda>s. arr_of (map_of s ''playlist'') = None) (put ''playlist'' (JArr []))
            ''playlist-repaired'' (st, []))) ''currentIndex''"
  obtain xs i where xi: "fst (repair_index (lim_playlist cfg) (map fst items) ci) = (xs, i)"
    by (cases "fst (repair_index (lim_playlist cfg) (map fst items) ci)")
  note ok = repair_index_ok [OF xi]
  have "\<forall>x\<in>set (map fst items). item_repaired x" by (auto simp: items_def intro: repair_item_ok)
  then have "list_all item_repaired xs" using ok by (auto simp: list_all_iff)
  moreover have "i \<noteq> None" using ok by (cases i) (simp_all add: index_repaired_def)
  moreover have "fst (repair_playlist_state (lim_playlist cfg) st) =
      put ''currentIndex'' (case i of Some j \<Rightarrow> j | None \<Rightarrow> JNull) (put ''playlist'' (JArr xs)
        (fst (fix_if (\<lambda>s. arr_of (map_of s ''playlist'') = None) (put ''playlist'' (JArr []))
            ''playlist-repaired'' (st, []))))"
    unfolding repair_playlist_state_def Let_def items_def [symmetric] ci_def [symmetric] xi by simp
  ultimately show ?thesis
    using ok by (auto simp: playlist_repaired_def)
qed

lemma playlist_part_frame:
  "k \<noteq> ''playlist'' \<Longrightarrow> k \<noteq> ''currentIndex'' \<Longrightarrow>
     map_of (fst (repair_playlist_state n st)) k = map_of st k"
  by (simp add: repair_playlist_state_def Let_def split: prod.split)

lemma repair_participant_ok:
  "participant_shape_ok e \<Longrightarrow> 0 < now \<Longrightarrow> participant_shape_ok (fst (repair_participant now e))
     \<and> (case snd (fst (repair_participant now e)) of JObj p \<Rightarrow> positive_num (map_of p ''joinedAt'') \<noteq> None | _ \<Rightarrow> False)"
proof (induction e rule: participant_shape_ok.induct)
  case (1 u p)
  have pos: "positive_num v = Some t \<Longrightarrow> 0 < t" for v t
    by (auto simp: positive_num_def split: option.splits if_splits)
  let ?t = "case positive_num (map_of p ''connectedAt'') of Some t \<Rightarrow> t | None \<Rightarrow>
     (case positive_num (map_of p ''lastSeenAt'') of Some t \<Rightarrow> t | None \<Rightarrow> now)"
  have "0 < ?t" using pos 1(2) by (auto split: option.split)
  then have "positive_num (Some (JNum ?t)) = Some ?t" by (simp add: positive_num_def)
  with 1 show ?case by simp
qed simp_all

lemma participants_part:
  assumes "0 < now"
  shows "participants_repaired cfg (fst (repair_participants cfg now st))"
  using repair_participant_ok [OF _ assms]
  by (auto simp: participants_repaired_def repair_participants_def Let_def list_all_iff
      dest: in_set_takeD)

lemma participants_part_frame:
  "k \<noteq> ''participants'' \<Longrightarrow> map_of (fst (repair_participants cfg now st)) k = map_of st k"
  by (simp add: repair_participants_def Let_def)

lemma action_log_part: "action_log_repaired cfg now (fst (repair_action_log cfg now st))"
proof (cases "arr_of (map_of st ''actionLog'')")
  case (Some es)
  let ?v = "filter (log_entry_ok (now - room_action_log_max_age_ms)) es"
  have "set (slice_last (lim_actionLog cfg) ?v) \<subseteq> set ?v" by (rule set_slice_last_subset)
  with Some show ?thesis
    by (auto simp: action_log_repaired_def repair_action_log_def Let_def list_all_iff)
qed (simp add: action_log_repaired_def repair_action_log_def)

lemma action_log_part_frame: "k \<noteq> ''actionLog'' \<Longrightarrow> map_of (fst (repair_action_log cfg now st)) k = map_of st k"
  by (simp add: repair_action_log_def Let_def split: option.split)

lemma security_part: "security_repaired (fst (repair_security st))"
  by (auto simp: security_repaired_def repair_security_def normalize_of_json normalize_json_wf
      security_wf_default split: option.split)

lemma security_part_frame: "k \<noteq> ''roomSecurity'' \<Longrightarrow> map_of (fst (repair_security st)) k = map_of st k"
  by (simp add: repair_security_def split: option.split)

lemma sanitize_fields_ok:
  "let pb' = fst (sanitize_playback_fields now pb) in
     (\<exists>r. num_of (map_of pb' ''playbackRate'') = Some r \<and> 1 / 4 \<le> r \<and> r \<le> 3)
     \<and> non_negative (map_of pb' ''timelineAnchorMs'') \<and> non_negative (map_of pb' ''serverNowMs'')
     \<and> one_of (map_of pb' ''videoLoop'') [''off'', ''once'', ''always'']
     \<and> one_of (map_of pb' ''playlistLoop'') [''off'', ''once'', ''always'']"
  unfolding sanitize_playback_fields_def Let_def fst_conv
  by (intro conjI; simp add: non_negative_def one_of_put)

lemma playback_part:
  "obj_of (map_of s ''playback'') \<noteq> None \<Longrightarrow>
     playback_repaired (fst (strip_shuffle (strip_history (then_with (repair_playback now) (s, fs)))))"
proof -
  assume "obj_of (map_of s ''playback'') \<noteq> None"
  then obtain pb where pb: "obj_of (map_of s ''playback'') = Some pb" by blast
  define pb' where "pb' = fst (sanitize_playback_fields now pb)"
  have s1: "obj_of (map_of (fst (strip_history (then_with (repair_playback now) (s, fs)))) ''playback'') = Some pb'"
    by (simp add: strip_history_def repair_playback_def sanitize_playback_def pb pb'_def split: prod.split)
  have keep: "map_of (AList.delete ''shuffle'' pb') k = map_of pb' k" if "k \<noteq> ''shuffle''" for k
    using that by simp
  show ?thesis
    using sanitize_fields_ok [of now pb] unfolding Let_def pb'_def [symmetric]
    by (auto simp: strip_shuffle_def playback_repaired_def s1)
qed

lemma room_step_frame:
  "map_of (fst (check_room_id r)) k = map_of (fst r) k"
  "k \<noteq> ''ownerId'' \<Longrightarrow> map_of (fst (fix_owner_id u r)) k = map_of (fst r) k"
  "k \<noteq> ''playback'' \<Longrightarrow> map_of (fst (fix_playback_object now r)) k = map_of (fst r) k"
  "k \<noteq> ''playback'' \<Longrightarrow> map_of (fst (repair_playback now s)) k = map_of s k"
  "k \<noteq> ''history'' \<Longrightarrow> map_of (fst (strip_history r)) k = map_of (fst r) k"
  "k \<noteq> ''playback'' \<Longrightarrow> map_of (fst (strip_shuffle r)) k = map_of (fst r) k"
  "k \<noteq> ''updatedAt'' \<Longrightarrow> map_of (fst (fix_updated_at now r)) k = map_of (fst r) k"
  "k \<noteq> c \<Longrightarrow> map_of (fst (fix_counter c msg r)) k = map_of (fst r) k"
  by (simp_all add: check_room_id_def fix_owner_id_def fix_playback_object_def strip_history_def
      strip_shuffle_def fix_updated_at_def fix_counter_def repair_playback_def sanitize_playback_def
      split: option.split prod.split)

lemma room_step_result:
  "u \<noteq> [] \<Longrightarrow> is_str (map_of (fst (fix_owner_id u r)) ''ownerId'') \<and> json_truthy (map_of (fst (fix_owner_id u r)) ''ownerId'')"
  "obj_of (map_of (fst (fix_playback_object now r)) ''playback'') \<noteq> None"
  "map_of (fst (strip_history r)) ''history'' = None"
  "0 < now \<Longrightarrow> (case num_of (map_of (fst (fix_updated_at now r)) ''updatedAt'') of Some x \<Rightarrow> x > 0 | None \<Rightarrow> False)"
  "non_negative (map_of (fst (fix_counter c msg r)) c)"
  by (auto simp: fix_owner_id_def fix_playback_object_def strip_history_def fix_updated_at_def
      fix_counter_def non_negative_def split: option.splits)

text \<open>The parts only look at their own fields.\<close>

lemma part_cong:
  "map_of s ''roomSecurity'' = map_of s' ''roomSecurity'' \<Longrightarrow> security_repaired s = security_repaired s'"
  "map_of s ''playlist'' = map_of s' ''playlist'' \<Longrightarrow> map_of s ''currentIndex'' = map_of s' ''currentIndex'' \<Longrightarrow>
     playlist_repaired cfg s = playlist_repaired cfg s'"
  "map_of s ''participants'' = map_of s' ''participants'' \<Longrightarrow> participants_repaired cfg s = participants_repaired cfg s'"
  "map_of s ''actionLog'' = map_of s' ''actionLog'' \<Longrightarrow> action_log_repaired cfg now s = action_log_repaired cfg now s'"
  "map_of s ''playback'' = map_of s' ''playback'' \<Longrightarrow> playback_repaired s = playback_repaired s'"
  by (simp_all add: security_repaired_def playlist_repaired_def participants_repaired_def
      action_log_repaired_def playback_repaired_def split: option.split)

lemmas part_frames = room_step_frame security_part_frame playlist_part_frame participants_part_frame
  action_log_part_frame

section \<open>Property\<close>

text \<open>
  Whatever JSON object the store returns, the repair yields a room of the shape the server
  relies on: an owner id, a normalised security record, at most the allowed number of playlist
  items, each with its ids and with valid kinds and no legacy field, a current index into them,
  at most the allowed number of participants, each with a join time, a bounded log of recent
  tracked actions, a playback clock in range, and non-negative revisions.
\<close>

theorem repair_establishes_shape:
  assumes "freshId \<noteq> []" and "0 < now"
  shows "room_repaired cfg now (fst (repair_cleanup_and_check_room_state cfg freshId now st))"
proof -
  define r2 where "r2 = fix_owner_id freshId (check_room_id (st, []))"
  define r3 where "r3 = then_with repair_security r2"
  define r4 where "r4 = then_with (repair_playlist_state (lim_playlist cfg)) r3"
  define r5 where "r5 = then_with (repair_participants cfg now) r4"
  define r6 where "r6 = then_with (repair_action_log cfg now) r5"
  define r7 where "r7 = fix_playback_object now r6"
  define r10 where "r10 = strip_shuffle (strip_history (then_with (repair_playback now) r7))"
  define r11 where "r11 = fix_updated_at now r10"
  define r12 where "r12 = fix_counter ''generation'' ''generation-repaired'' r11"
  define r13 where "r13 = fix_counter ''structuralRevision'' ''structural-revision-repaired'' r12"
  have r13: "repair_cleanup_and_check_room_state cfg freshId now st = r13"
    by (simp add: repair_cleanup_and_check_room_state_def Let_def r13_def r12_def r11_def r10_def r7_def
        r6_def r5_def r4_def r3_def r2_def)
  have late: "map_of (fst r13) k = map_of (fst r6) k"
    if "k \<notin> {''structuralRevision'', ''generation'', ''updatedAt'', ''playback'', ''history''}" for k
    using that by (simp add: r13_def r12_def r11_def r10_def r7_def part_frames)
  have own: "map_of (fst r13) ''ownerId'' = map_of (fst r2) ''ownerId''"
    by (simp add: late r6_def r5_def r4_def r3_def part_frames)
  have sec: "map_of (fst r13) ''roomSecurity'' = map_of (fst r3) ''roomSecurity''"
    by (simp add: late r6_def r5_def r4_def part_frames)
  have pl: "map_of (fst r13) ''playlist'' = map_of (fst r4) ''playlist''"
    "map_of (fst r13) ''currentIndex'' = map_of (fst r4) ''currentIndex''"
    by (simp_all add: late r6_def r5_def part_frames)
  have ps: "map_of (fst r13) ''participants'' = map_of (fst r5) ''participants''"
    by (simp add: late r6_def part_frames)
  have al: "map_of (fst r13) ''actionLog'' = map_of (fst r6) ''actionLog''" by (simp add: late)
  have pb: "map_of (fst r13) ''playback'' = map_of (fst r10) ''playback''"
    by (simp add: r13_def r12_def r11_def part_frames)
  have ua: "map_of (fst r13) ''updatedAt'' = map_of (fst r11) ''updatedAt''"
    by (simp add: r13_def r12_def part_frames)
  have gen: "map_of (fst r13) ''generation'' = map_of (fst r12) ''generation''"
    by (simp add: r13_def part_frames)
  have hist: "map_of (fst r13) ''history'' = None"
    by (simp add: r13_def r12_def r11_def r10_def part_frames room_step_result)
  have "obj_of (map_of (fst r7) ''playback'') \<noteq> None" by (simp add: r7_def room_step_result)
  from playback_part [OF this, of now "snd r7"] have "playback_repaired (fst r10)" by (simp add: r10_def)
  then have "playback_repaired (fst r13)" using part_cong(5) [OF pb] by simp
  moreover have "security_repaired (fst r13)"
    using part_cong(1) [OF sec] security_part [of "fst r2"] by (simp add: r3_def)
  moreover have "playlist_repaired cfg (fst r13)"
    using part_cong(2) [OF pl] playlist_part [of cfg "fst r3"] by (simp add: r4_def)
  moreover have "participants_repaired cfg (fst r13)"
    using part_cong(3) [OF ps] participants_part [OF assms(2), of cfg "fst r4"] by (simp add: r5_def)
  moreover have "action_log_repaired cfg now (fst r13)"
    using part_cong(4) [OF al] action_log_part [of cfg now "fst r5"] by (simp add: r6_def)
  moreover have "non_negative (map_of (fst r13) ''structuralRevision'')"
    by (simp add: r13_def room_step_result)
  moreover have "non_negative (map_of (fst r13) ''generation'')"
    unfolding gen by (simp add: r12_def room_step_result)
  moreover have "case num_of (map_of (fst r13) ''updatedAt'') of Some x \<Rightarrow> x > 0 | None \<Rightarrow> False"
    unfolding ua r11_def by (rule room_step_result(4) [OF assms(2)])
  moreover have "is_str (map_of (fst r13) ''ownerId'') \<and> json_truthy (map_of (fst r13) ''ownerId'')"
    unfolding own r2_def by (rule room_step_result(1) [OF assms(1)])
  ultimately show ?thesis unfolding room_repaired_def r13 using hist by blast
qed

theorem repair_establishes_shape_witness:
  "playlist_repaired sample_limits (fst (repair_cleanup_and_check_room_state sample_limits ''u1'' 5
     [(''playlist'', JStr ''broken''), (''currentIndex'', JNum (- 7))]))"
  using repair_establishes_shape [of "''u1''" 5 sample_limits "[(''playlist'', JStr ''broken''), (''currentIndex'', JNum (- 7))]"]
  by (simp add: room_repaired_def)

end
