(* ===== verification/Presence.thy ===== *)
theory Presence
  imports World
begin

text \<open>
  Facts about the presence references: what a scan reports as online, that the clean-up writes of
  a scan change nothing a later scan sees, and that references of several sockets and nodes count
  up and down independently.
\<close>

section \<open>Scanning\<close>

lemma scan_entry_reliable:
  "fst (scan_entry alive True counts) \<longleftrightarrow> is_present_on_alive_node counts alive"
  by (auto simp: scan_entry_def is_present_on_alive_node_def Let_def filter_empty_conv)

lemma encode_counts_Some:
  "encode_counts c = Some e \<Longrightarrow> e = filter (\<lambda>(k, n). n > 0 \<and> k \<noteq> []) c \<and> e \<noteq> []"
  by (auto simp: encode_counts_def Let_def split: if_splits)

lemma scan_entry_stable:
  assumes "snd (scan_entry alive True c) = Some c'"
  shows "fst (scan_entry alive True c') = fst (scan_entry alive True c)"
proof -
  let ?live = "filter (\<lambda>(k, n). n > 0 \<and> k \<in> set alive) c"
  from assms have ne: "c \<noteq> []" "?live \<noteq> []"
    by (auto simp: scan_entry_def Let_def split: if_splits)
  then have t: "fst (scan_entry alive True c)" by (simp add: scan_entry_def Let_def)
  show ?thesis
  proof (cases "encode_counts ?live")
    case None
    with assms ne show ?thesis by (simp add: scan_entry_def Let_def)
  next
    case (Some e)
    with assms ne have "c' = e" by (simp add: scan_entry_def Let_def)
    from encode_counts_Some [OF Some] have "e \<noteq> []" "set e \<subseteq> set ?live" by auto
    then obtain k n where "(k, n) \<in> set e" "n > 0" "k \<in> set alive" by (cases e) auto
    then have "fst (scan_entry alive True e)"
      unfolding scan_entry_reliable is_present_on_alive_node_def by blast
    with t \<open>c' = e\<close> show ?thesis by simp
  qed
qed

lemma scan_entry_dropped: "snd (scan_entry alive True c) = None \<Longrightarrow> \<not> fst (scan_entry alive True c)"
  by (auto simp: scan_entry_def Let_def split: if_splits option.splits)

lemma concat_online:
  "map fst (filter (\<lambda>(u, c). fst (scan_entry alive True c))
      (concat (map (\<lambda>(u, c). case snd (scan_entry alive True c) of Some c' \<Rightarrow> [(u, c')] | None \<Rightarrow> []) refs)))
   = map fst (filter (\<lambda>(u, c). fst (scan_entry alive True c)) refs)"
proof (induction refs)
  case (Cons e refs)
  obtain u c where e: "e = (u, c)" by (cases e)
  show ?case
  proof (cases "snd (scan_entry alive True c)")
    case None
    with Cons.IH scan_entry_dropped [OF None] show ?thesis by (simp add: e)
  next
    case (Some c')
    with Cons.IH scan_entry_stable [OF Some] show ?thesis by (simp add: e)
  qed
qed simp

section \<open>Counting\<close>

lemma set_deleteD: "x \<in> set (AList.delete k al) \<Longrightarrow> x \<in> set al"
  by (simp add: AList.delete_eq)

lemma set_updateD: "x \<in> set (AList.update k v al) \<Longrightarrow> x = (k, v) \<or> x \<in> set al"
  by (induction al) (auto split: if_splits)

lemma bump_count:
  assumes "\<And>k n. map_of counts k = Some n \<Longrightarrow> n > 0"
  shows "map_of (bump_presence_node_count counts nodeId delta) k =
    (if k = nodeId then
       (let n = int (case map_of counts nodeId of Some c \<Rightarrow> c | None \<Rightarrow> 0) + delta
        in if n \<le> 0 then None else Some (nat n))
     else map_of counts k)"
  by (simp add: bump_presence_node_count_def Let_def)

lemma encode_counts_pos:
  assumes "\<forall>(k, n)\<in>set counts. n > 0 \<and> k \<noteq> []"
  shows "encode_counts counts = (if counts = [] then None else Some counts)"
proof -
  have "filter (\<lambda>(k, n). n > 0 \<and> k \<noteq> []) counts = counts"
    using assms by (intro filter_True) auto
  then show ?thesis by (simp add: encode_counts_def)
qed

text \<open>The stored maps hold positive counts under non-empty node ids, one entry a node.\<close>

definition counts_ok :: "node_counts \<Rightarrow> bool" where
  "counts_ok c = (distinct (keys_of c) \<and> (\<forall>(k, n)\<in>set c. n > 0 \<and> k \<noteq> []))"

definition user_count :: "string \<Rightarrow> string \<Rightarrow> world \<Rightarrow> string \<Rightarrow> nat" where
  "user_count roomId userId w nodeId =
     (case map_of (room_refs roomId w) userId of
        None \<Rightarrow> 0
      | Some c \<Rightarrow> (case map_of c nodeId of Some n \<Rightarrow> n | None \<Rightarrow> 0))"

definition refs_ok :: "world \<Rightarrow> bool" where
  "refs_ok w = (w_node w \<noteq> [] \<and>
     (\<forall>(r, refs)\<in>set (w_refs w). \<forall>(u, c)\<in>set refs. counts_ok c))"

lemma refs_ok_counts:
  assumes "refs_ok w" "map_of (room_refs roomId w) userId = Some c"
  shows "counts_ok c"
proof -
  from assms(2) obtain refs where "map_of (w_refs w) roomId = Some refs" "map_of refs userId = Some c"
    by (auto simp: room_refs_def split: option.splits)
  then have "(roomId, refs) \<in> set (w_refs w)" "(userId, c) \<in> set refs" by (auto dest: map_of_SomeD)
  with assms(1) show ?thesis by (fastforce simp: refs_ok_def)
qed

lemma counts_ok_bump:
  assumes "counts_ok c" "nodeId \<noteq> []"
  shows "counts_ok (bump_presence_node_count c nodeId d)"
proof -
  show ?thesis
    using assms unfolding counts_ok_def bump_presence_node_count_def Let_def
    by (auto dest!: set_updateD set_deleteD simp: AList.distinct_update AList.distinct_delete)
qed

lemma counts_ok_encode: "counts_ok c \<Longrightarrow> encode_counts c = (if c = [] then None else Some c)"
  by (simp add: counts_ok_def encode_counts_pos)

lemma room_refs_bump:
  assumes "delta \<noteq> 0"
  shows "room_refs r (bump_ws_connection_ref roomId userId delta w) =
    (if r = roomId then
       (case encode_counts (bump_presence_node_count
           (case map_of (room_refs roomId w) userId of Some c \<Rightarrow> c | None \<Rightarrow> []) (w_node w) delta) of
          Some c \<Rightarrow> AList.update userId c (room_refs roomId w)
        | None \<Rightarrow> AList.delete userId (room_refs roomId w))
     else room_refs r w)"
  using assms by (simp add: bump_ws_connection_ref_def Let_def room_refs_def split: option.split)

lemma user_count_bump:
  assumes "refs_ok w" "delta \<noteq> 0"
  shows "user_count r u (bump_ws_connection_ref roomId userId delta w) node =
    (if r = roomId \<and> u = userId \<and> node = w_node w
     then nat (int (user_count roomId userId w node) + delta) else user_count r u w node)"
proof -
  let ?c = "case map_of (room_refs roomId w) userId of Some c \<Rightarrow> c | None \<Rightarrow> []"
  have c: "counts_ok ?c"
    using refs_ok_counts [OF assms(1)] by (cases "map_of (room_refs roomId w) userId") (simp_all add: counts_ok_def [of "[]"])
  have node: "w_node w \<noteq> []" using assms(1) by (simp add: refs_ok_def)
  let ?b = "bump_presence_node_count ?c (w_node w) delta"
  have enc: "encode_counts ?b = (if ?b = [] then None else Some ?b)"
    by (rule counts_ok_encode [OF counts_ok_bump [OF c node]])
  have uc: "user_count roomId userId w k = (case map_of ?c k of Some n \<Rightarrow> n | None \<Rightarrow> 0)" for k
    by (simp add: user_count_def split: option.split)
  have b: "(case map_of ?b k of Some n \<Rightarrow> n | None \<Rightarrow> 0) =
      (if k = w_node w then nat (int (user_count roomId userId w k) + delta)
       else user_count roomId userId w k)" for k
    unfolding uc by (auto simp: bump_presence_node_count_def Let_def)
  show ?thesis
  proof (cases "r = roomId \<and> u = userId")
    case True
    then have "user_count r u (bump_ws_connection_ref roomId userId delta w) node =
        (case map_of ?b node of Some n \<Rightarrow> n | None \<Rightarrow> 0)"
      by (simp add: user_count_def room_refs_bump [OF assms(2)] enc)
    with b [of node] True show ?thesis by simp
  next
    case False
    then show ?thesis
      by (auto simp: user_count_def room_refs_bump [OF assms(2)] split: option.split)
  qed
qed

lemma refs_ok_bump:
  assumes "refs_ok w"
  shows "refs_ok (bump_ws_connection_ref roomId userId delta w)"
proof (cases "delta = 0")
  case False
  have c: "counts_ok (case map_of (room_refs roomId w) userId of Some c \<Rightarrow> c | None \<Rightarrow> [])"
    using refs_ok_counts [OF assms] by (cases "map_of (room_refs roomId w) userId") (simp_all add: counts_ok_def [of "[]"])
  have node: "w_node w \<noteq> []" using assms by (simp add: refs_ok_def)
  let ?b = "bump_presence_node_count (case map_of (room_refs roomId w) userId of Some c \<Rightarrow> c | None \<Rightarrow> []) (w_node w) delta"
  have b: "counts_ok ?b" by (rule counts_ok_bump [OF c node])
  let ?refs = "case encode_counts ?b of
      Some c \<Rightarrow> AList.update userId c (room_refs roomId w) | None \<Rightarrow> AList.delete userId (room_refs roomId w)"
  have old: "\<forall>(u, c)\<in>set (room_refs roomId w). counts_ok c"
  proof (cases "map_of (w_refs w) roomId")
    case (Some refs)
    with assms map_of_SomeD [OF Some] show ?thesis by (fastforce simp: refs_ok_def room_refs_def)
  qed (simp add: room_refs_def)
  have new: "\<forall>(u, c)\<in>set ?refs. counts_ok c"
    using old b counts_ok_encode [OF b]
    by (auto simp: AList.delete_eq split: if_splits dest!: set_updateD)
  show ?thesis
    using assms False new
    by (auto simp: refs_ok_def bump_ws_connection_ref_def Let_def dest!: set_updateD)
qed (use assms in \<open>simp add: bump_ws_connection_ref_def\<close>)

lemma read_ws_reconcile [simp]:
  "read_ws_presence_user_ids r (reconcile_presence_refs roomId w) = read_ws_presence_user_ids r w"
  using concat_online
  by (auto simp: read_ws_presence_user_ids_def reconcile_presence_refs_def room_refs_def alive_nodes_def)

section \<open>Properties\<close>

text \<open>
  Reconciling the presence references is invisible to readers: the users a scan reports as
  online are the same before and after the clean-up, and none is reported whose references are
  all on dead nodes, as long as the list of live nodes is reliable.
\<close>

theorem reconcile_keeps_online:
  "read_ws_presence_user_ids r (reconcile_presence_refs roomId w) = read_ws_presence_user_ids r w
   \<and> (w_reliable w \<longrightarrow> set (read_ws_presence_user_ids roomId w) =
        {u. \<exists>c. (u, c) \<in> set (room_refs roomId w) \<and> is_present_on_alive_node c (w_node w # w_alive w)})"
proof
  show "read_ws_presence_user_ids r (reconcile_presence_refs roomId w) = read_ws_presence_user_ids r w"
    by (rule read_ws_reconcile)
  show "w_reliable w \<longrightarrow> set (read_ws_presence_user_ids roomId w) =
      {u. \<exists>c. (u, c) \<in> set (room_refs roomId w) \<and> is_present_on_alive_node c (w_node w # w_alive w)}"
    by (force simp: read_ws_presence_user_ids_def alive_nodes_def scan_entry_reliable)
qed

text \<open>
  References count sockets: opening one more socket of a user on this node raises exactly
  that count by one and closing it restores every count, so the user goes offline only when the
  last socket on every node has gone.
\<close>

theorem presence_ref_counts:
  assumes "refs_ok w"
  shows "user_count r u (add_ws_connection_ref roomId userId w) node =
      user_count r u w node + (if r = roomId \<and> u = userId \<and> node = w_node w then 1 else 0)
    \<and> user_count r u (remove_ws_connection_ref roomId userId (add_ws_connection_ref roomId userId w)) node
      = user_count r u w node
    \<and> userId \<in> set (read_ws_presence_user_ids roomId (add_ws_connection_ref roomId userId w))"
proof -
  let ?a = "add_ws_connection_ref roomId userId w"
  have a: "user_count r u ?a node = user_count r u w node +
      (if r = roomId \<and> u = userId \<and> node = w_node w then 1 else 0)" for r u node
    unfolding add_ws_connection_ref_def
    by (auto simp: user_count_bump [OF assms] nat_add_distrib)
  have node: "w_node ?a = w_node w"
    by (simp add: add_ws_connection_ref_def bump_ws_connection_ref_def Let_def)
  have ok: "refs_ok ?a" unfolding add_ws_connection_ref_def by (rule refs_ok_bump [OF assms])
  have b: "user_count r u (remove_ws_connection_ref roomId userId ?a) node = user_count r u w node"
    unfolding remove_ws_connection_ref_def by (auto simp: user_count_bump [OF ok] a node)
  have pos: "0 < user_count roomId userId ?a (w_node w)" by (simp add: a)
  then obtain c n where cn: "map_of (room_refs roomId ?a) userId = Some c" "map_of c (w_node w) = Some n" "0 < n"
    unfolding user_count_def by (auto split: option.splits)
  then have "(w_node w, n) \<in> set c" by (simp add: map_of_SomeD)
  with cn(3) have "is_present_on_alive_node c (alive_nodes ?a)"
    by (force simp: is_present_on_alive_node_def alive_nodes_def node)
  moreover have "c \<noteq> []" using cn(2) by auto
  ultimately have "fst (scan_entry (alive_nodes ?a) (w_reliable ?a) c)"
    by (cases "w_reliable ?a") (simp_all add: scan_entry_reliable, simp add: scan_entry_def)
  then have "userId \<in> set (read_ws_presence_user_ids roomId ?a)"
    using map_of_SomeD [OF cn(1)] by (force simp: read_ws_presence_user_ids_def)
  with a b show ?thesis by blast
qed

definition sample_world :: world where
  "sample_world = \<lparr>w_rooms = [(''r1'', sample_room)], w_refs = [(''r1'', [(''own'', [(''n1'', 1)])])],
     w_alive = [''n1''], w_reliable = True, w_node = ''n1'', w_presence = [], w_grace = [],
     w_pending = [], w_pendingExpiry = 0, w_indexUp = True, w_emptyAt = [], w_emptyUp = True,
     w_draining = False, w_sockets = [], w_earlyIps = [], w_open = [], w_projection = [], w_identities = [],
     w_tokens = [], w_out = []\<rparr>"

lemma sample_refs_ok: "refs_ok sample_world"
  by (simp add: refs_ok_def sample_world_def counts_ok_def)

theorem presence_ref_counts_witness:
  "user_count ''r1'' ''own'' (add_ws_connection_ref ''r1'' ''own'' sample_world) ''n1'' = 2"
proof -
  have "user_count ''r1'' ''own'' sample_world ''n1'' = 1" "w_node sample_world = ''n1''"
    by (simp_all add: user_count_def room_refs_def sample_world_def)
  with presence_ref_counts [OF sample_refs_ok, of "''r1''" "''own''" "''r1''" "''own''" "''n1''"]
  show ?thesis by simp
qed

theorem reconcile_keeps_online_witness:
  "set (read_ws_presence_user_ids ''r1'' (reconcile_presence_refs ''r1'' sample_world)) = {''own''}"
proof -
  have r: "w_reliable sample_world" by (simp add: sample_world_def)
  have "read_ws_presence_user_ids ''r1'' (reconcile_presence_refs ''r1'' sample_world) = read_ws_presence_user_ids ''r1'' sample_world"
    "set (read_ws_presence_user_ids ''r1'' sample_world) = {u. \<exists>c. (u, c) \<in> set (room_refs ''r1'' sample_world)
       \<and> is_present_on_alive_node c (w_node sample_world # w_alive sample_world)}"
    using reconcile_keeps_online [where r = "''r1''" and roomId = "''r1''" and w = sample_world] r by blast+
  then show ?thesis by (simp add: room_refs_def sample_world_def is_present_on_alive_node_def)
qed

end
