(* ===== verification/Participants.thy ===== *)
theory Participants
  imports Presence
begin

text \<open>
  The life of a disconnected participant (\<open>src/src/server/realtime/services/participants.ts\<close>):
  the grace keys and the pending-prune index, the prune itself, and the reconciliation of the
  participants' connected flags with the live presence set.
\<close>

section \<open>The prune index\<close>

definition participant_prune_ms :: jsnum where "participant_prune_ms = 60000"

definition pending_prunes_ttl_ms :: jsnum where "pending_prunes_ttl_ms = 120000"

definition tab :: char where "tab = CHR 0x09"

definition encode_prune_member :: "string \<Rightarrow> string \<Rightarrow> string" where
  "encode_prune_member roomId userId = roomId @ [tab] @ userId"

definition parse_prune_member :: "string \<Rightarrow> (string \<times> string) option" where
  "parse_prune_member member =
     (let pre = takeWhile (\<lambda>c. c \<noteq> tab) member; post = dropWhile (\<lambda>c. c \<noteq> tab) member
      in if post = [] \<or> pre = [] \<or> tl post = [] then None else Some (pre, tl post))"

text \<open>
  Members of the index set that have not expired with the whole key; keys of the grace map whose
  expiry has not passed.
\<close>

definition pending_members :: "jsnum \<Rightarrow> world \<Rightarrow> string list" where
  "pending_members now w = (if now < w_pendingExpiry w then w_pending w else [])"

definition still_grace :: "jsnum \<Rightarrow> world \<Rightarrow> string \<Rightarrow> string \<Rightarrow> bool" where
  "still_grace now w roomId userId =
     (case map_of (w_grace w) (roomId, userId) of Some e \<Rightarrow> now < e | None \<Rightarrow> False)"

definition refresh_pending_ttl :: "jsnum \<Rightarrow> world \<Rightarrow> world" where
  "refresh_pending_ttl now w = w\<lparr>w_pendingExpiry := now + pending_prunes_ttl_ms\<rparr>"

definition s_add :: "jsnum \<Rightarrow> string \<Rightarrow> world \<Rightarrow> world" where
  "s_add now member w = w\<lparr>w_pending := List.insert member (pending_members now w)\<rparr>"

definition s_rem :: "jsnum \<Rightarrow> string \<Rightarrow> world \<Rightarrow> world" where
  "s_rem now member w = w\<lparr>w_pending := filter (\<lambda>m. m \<noteq> member) (pending_members now w)\<rparr>"

definition del_grace :: "string \<Rightarrow> string \<Rightarrow> world \<Rightarrow> world" where
  "del_grace roomId userId w = w\<lparr>w_grace := AList.delete (roomId, userId) (w_grace w)\<rparr>"

text \<open>Every operation is wrapped in a \<open>try\<close>: with the index unreachable it changes nothing.\<close>

definition clear_all_room_prunes :: "jsnum \<Rightarrow> string \<Rightarrow> world \<Rightarrow> world" where
  "clear_all_room_prunes now roomId w =
     (if \<not> w_indexUp w then w
      else let toRemove = filter (\<lambda>m. take (length roomId + 1) m = roomId @ [tab]) (pending_members now w);
               pairs = List.map_filter parse_prune_member toRemove
           in refresh_pending_ttl now
                (w\<lparr>w_grace := filter (\<lambda>(k, e). k \<notin> set pairs) (w_grace w),
                   w_pending := filter (\<lambda>m. m \<notin> set toRemove) (pending_members now w)\<rparr>))"

definition clear_prune :: "jsnum \<Rightarrow> string \<Rightarrow> string \<Rightarrow> world \<Rightarrow> world" where
  "clear_prune now roomId userId w =
     (if \<not> w_indexUp w then w
      else refresh_pending_ttl now
        (s_rem now (encode_prune_member roomId userId) (del_grace roomId userId w)))"

definition schedule_prune :: "jsnum \<Rightarrow> string \<Rightarrow> string \<Rightarrow> world \<Rightarrow> world" where
  "schedule_prune now roomId userId w =
     (if \<not> w_indexUp w then w
      else refresh_pending_ttl now
        (s_add now (encode_prune_member roomId userId)
          (w\<lparr>w_grace := AList.update (roomId, userId) (now + participant_prune_ms) (w_grace w)\<rparr>)))"

definition schedule_prune_due :: "jsnum \<Rightarrow> string \<Rightarrow> string \<Rightarrow> world \<Rightarrow> world" where
  "schedule_prune_due now roomId userId w =
     (if \<not> w_indexUp w then w
      else refresh_pending_ttl now
        (s_add now (encode_prune_member roomId userId) (del_grace roomId userId w)))"

section \<open>Pruning\<close>

text \<open>\<open>if (!disconnectedAt) continue\<close> skips 0 too.\<close>

definition prune_due :: "jsnum \<Rightarrow> participant \<Rightarrow> bool" where
  "prune_due now p =
     (let d = (case pt_disconnectedAt p of Some t \<Rightarrow> t
               | None \<Rightarrow> (case pt_lastSeenAt p of Some t \<Rightarrow> t | None \<Rightarrow> 0))
      in \<not> pt_connected p \<and> d \<noteq> 0 \<and> \<not> now - d < participant_prune_ms)"

definition list_participants_past_prune_grace :: "server_room \<Rightarrow> jsnum \<Rightarrow> string list" where
  "list_participants_past_prune_grace st now =
     map fst (filter (\<lambda>(u, p). prune_due now p) (st_participants st))"

definition prune_offline_participants :: "server_room \<Rightarrow> jsnum \<Rightarrow> server_room \<times> string list" where
  "prune_offline_participants st now =
     (let due = list_participants_past_prune_grace st now
      in (st\<lparr>st_participants := fold AList.delete due (st_participants st)\<rparr>, due))"

definition prune_body :: "limits \<Rightarrow> string \<Rightarrow> jsnum \<Rightarrow> string \<Rightarrow> server_room option \<Rightarrow> server_room option" where
  "prune_body cfg uid now userId cur =
     (case cur of
        None \<Rightarrow> None
      | Some st \<Rightarrow>
          (case map_of (st_participants st) userId of
             None \<Rightarrow> None
           | Some p \<Rightarrow>
               if pt_connected p then None
               else let st1 = st\<lparr>st_participants := AList.delete userId (st_participants st)\<rparr>;
                        st2 = fst (transfer_ownership_if_needed cfg uid now st1 RPrune)
                    in Some ((bump_room_revisions st2)\<lparr>st_updatedAt := now\<rparr>)))"

definition remove_disconnected_participant ::
  "limits \<Rightarrow> string \<Rightarrow> jsnum \<Rightarrow> string \<Rightarrow> string \<Rightarrow> world \<Rightarrow> world \<times> bool" where
  "remove_disconnected_participant cfg uid now roomId userId w =
     (case update_room roomId (prune_body cfg uid now userId) w of
        (w1, Some st) \<Rightarrow>
          (if map_of (st_participants st) userId = None
           then (emit (ESnapshotDirty roomId) (emit (EDeleteLocalMedia roomId userId) w1), True)
           else (w1, False))
      | (w1, None) \<Rightarrow> (w1, False))"

text \<open>
  One member of the index; the number of pruned participants is threaded.  The id of a log entry a
  transfer writes is fresh for each member (each room in the fallback): \<open>uids\<close> supplies it.
\<close>

definition prune_member ::
  "limits \<Rightarrow> (string \<Rightarrow> string) \<Rightarrow> jsnum \<Rightarrow> string \<Rightarrow> world \<times> nat \<Rightarrow> world \<times> nat" where
  "prune_member cfg uids now member acc =
     (case acc of (w, pruned) \<Rightarrow>
       (case parse_prune_member member of
          None \<Rightarrow> (s_rem now member w, pruned)
        | Some (roomId, userId) \<Rightarrow>
            if still_grace now w roomId userId then (w, pruned)
            else (case remove_disconnected_participant cfg (uids member) now roomId userId w of
                    (w1, did) \<Rightarrow> (s_rem now member w1, if did then pruned + 1 else pruned))))"

definition prune_from_redis_index :: "limits \<Rightarrow> (string \<Rightarrow> string) \<Rightarrow> jsnum \<Rightarrow> world \<Rightarrow> world \<times> nat" where
  "prune_from_redis_index cfg uids now w =
     (let members = pending_members now w;
          r = fold (prune_member cfg uids now) members (w, 0)
      in (if members \<noteq> [] then refresh_pending_ttl now (fst r) else fst r, snd r))"

definition fallback_body :: "limits \<Rightarrow> string \<Rightarrow> jsnum \<Rightarrow> server_room option \<Rightarrow> server_room option" where
  "fallback_body cfg uid now cur =
     (case cur of
        None \<Rightarrow> None
      | Some st \<Rightarrow>
          (case prune_offline_participants st now of
             (st1, removed) \<Rightarrow>
               if removed = [] then None
               else let st2 = fst (transfer_ownership_if_needed cfg uid now st1 RPrune)
                    in Some ((bump_room_revisions st2)\<lparr>st_updatedAt := now\<rparr>)))"

definition fallback_room ::
  "limits \<Rightarrow> (string \<Rightarrow> string) \<Rightarrow> jsnum \<Rightarrow> string \<Rightarrow> world \<times> nat \<Rightarrow> world \<times> nat" where
  "fallback_room cfg uids now roomId acc =
     (case acc of (w, pruned) \<Rightarrow>
       (case update_room roomId (fallback_body cfg (uids roomId) now) w of
          (w1, Some st) \<Rightarrow>
            (emit (ESnapshotDirty roomId) w1,
             pruned + (case get_room roomId w of
                         Some cur \<Rightarrow> length (list_participants_past_prune_grace cur now) | None \<Rightarrow> 0))
        | (w1, None) \<Rightarrow> (w1, pruned)))"

definition prune_by_disconnected_at_fallback :: "limits \<Rightarrow> (string \<Rightarrow> string) \<Rightarrow> jsnum \<Rightarrow> world \<Rightarrow> world \<times> nat" where
  "prune_by_disconnected_at_fallback cfg uids now w =
     fold (fallback_room cfg uids now) (map fst (w_rooms w)) (w, 0)"

definition process_due_prunes :: "limits \<Rightarrow> (string \<Rightarrow> string) \<Rightarrow> jsnum \<Rightarrow> world \<Rightarrow> world \<times> nat" where
  "process_due_prunes cfg uids now w =
     (if w_indexUp w then prune_from_redis_index cfg uids now w
      else prune_by_disconnected_at_fallback cfg uids now w)"

section \<open>Connected flags\<close>

text \<open>\<open>if (!participant.joinedAt)\<close> also replaces a stored 0.\<close>

definition heal_joined_at :: "jsnum \<Rightarrow> participant \<Rightarrow> participant" where
  "heal_joined_at now p =
     (if pt_joinedAt p = None \<or> pt_joinedAt p = Some 0
      then p\<lparr>pt_joinedAt := Some (case pt_connectedAt p of Some t \<Rightarrow> t
              | None \<Rightarrow> (case pt_lastSeenAt p of Some t \<Rightarrow> t | None \<Rightarrow> now))\<rparr>
      else p)"

definition reconcile_participant :: "jsnum \<Rightarrow> string list \<Rightarrow> participant \<Rightarrow> participant" where
  "reconcile_participant now active p0 =
     (let p = heal_joined_at now p0; isActive = pt_userId p \<in> set active
      in if pt_connected p \<and> \<not> isActive
         then p\<lparr>pt_connected := False, pt_disconnectedAt := Some now, pt_lastSeenAt := Some now\<rparr>
         else if \<not> pt_connected p \<and> isActive
         then p\<lparr>pt_connected := True, pt_disconnectedAt := None, pt_lastSeenAt := Some now\<rparr>
         else p)"

record recon_result =
  rr_disconnecting :: "string list"
  rr_reconnecting :: "string list"

definition reconcile_participants_connectivity ::
  "server_room \<Rightarrow> string list \<Rightarrow> jsnum \<Rightarrow> server_room \<times> recon_result" where
  "reconcile_participants_connectivity st active now =
     (let vals = map snd (st_participants st)
      in (st\<lparr>st_participants := map_vals (reconcile_participant now active) (st_participants st)\<rparr>,
          \<lparr>rr_disconnecting = map pt_userId (filter (\<lambda>p. pt_connected p \<and> pt_userId p \<notin> set active) vals),
            rr_reconnecting = map pt_userId (filter (\<lambda>p. \<not> pt_connected p \<and> pt_userId p \<in> set active) vals)\<rparr>))"

section \<open>Lemmas\<close>

lemma parse_encode_prune_member:
  assumes "roomId \<noteq> []" "userId \<noteq> []" "tab \<notin> set roomId"
  shows "parse_prune_member (encode_prune_member roomId userId) = Some (roomId, userId)"
proof -
  have "takeWhile (\<lambda>c. c \<noteq> tab) (roomId @ tab # userId) = roomId"
    "dropWhile (\<lambda>c. c \<noteq> tab) (roomId @ tab # userId) = tab # userId"
    using assms(3) by (induction roomId) auto
  with assms show ?thesis by (simp add: parse_prune_member_def encode_prune_member_def)
qed

lemma parse_prune_member_Some:
  "parse_prune_member m = Some (r, u) \<Longrightarrow> encode_prune_member r u = m \<and> tab \<notin> set r"
proof -
  assume a: "parse_prune_member m = Some (r, u)"
  then have r: "r = takeWhile (\<lambda>c. c \<noteq> tab) m" and u: "dropWhile (\<lambda>c. c \<noteq> tab) m \<noteq> []"
    "u = tl (dropWhile (\<lambda>c. c \<noteq> tab) m)"
    by (auto simp: parse_prune_member_def Let_def split: if_splits)
  have "hd (dropWhile (\<lambda>c. c \<noteq> tab) m) = tab" using hd_dropWhile [OF u(1)] by simp
  with u have "dropWhile (\<lambda>c. c \<noteq> tab) m = tab # u" by (metis list.collapse)
  then have "r @ tab # u = m" unfolding r by (metis takeWhile_dropWhile_id)
  with r show ?thesis by (auto simp: encode_prune_member_def dest: set_takeWhileD)
qed

lemma index_frame [simp]:
  "w_rooms (clear_prune now r u w) = w_rooms w" "w_rooms (schedule_prune now r u w) = w_rooms w"
  "w_rooms (schedule_prune_due now r u w) = w_rooms w" "w_rooms (clear_all_room_prunes now r w) = w_rooms w"
  "w_rooms (s_rem now m w) = w_rooms w" "w_rooms (s_add now m w) = w_rooms w"
  "w_rooms (refresh_pending_ttl now w) = w_rooms w" "w_rooms (del_grace r u w) = w_rooms w"
  by (simp_all add: clear_prune_def schedule_prune_def schedule_prune_due_def clear_all_room_prunes_def
      s_rem_def s_add_def refresh_pending_ttl_def del_grace_def Let_def)

lemma get_room_cong: "w_rooms w = w_rooms w' \<Longrightarrow> get_room r w = get_room r w'"
  by (simp add: get_room_def)

lemma reconcile_userId [simp]: "pt_userId (reconcile_participant now active p) = pt_userId p"
  "pt_role (reconcile_participant now active p) = pt_role p"
  "pt_username (reconcile_participant now active p) = pt_username p"
  "pt_viewerMedia (reconcile_participant now active p) = pt_viewerMedia p"
  "pt_localPlayback (reconcile_participant now active p) = pt_localPlayback p"
  by (simp_all add: reconcile_participant_def heal_joined_at_def Let_def)

lemma reconcile_connected [simp]:
  "pt_connected (reconcile_participant now active p) \<longleftrightarrow> pt_userId p \<in> set active"
  by (auto simp: reconcile_participant_def heal_joined_at_def Let_def)

lemma keyed_map_vals [wf_intros]:
  "keyed ps \<Longrightarrow> (\<And>p. pt_userId (f p) = pt_userId p) \<Longrightarrow> keyed (map_vals f ps)"
  by (auto simp: keyed_iff)

lemma owner_unique_cong:
  assumes "owner_unique st" "st_ownerId st' = st_ownerId st"
    and "\<And>k p. (k, p) \<in> set (st_participants st') \<Longrightarrow> \<exists>q. (k, q) \<in> set (st_participants st) \<and> pt_role q = pt_role p"
  shows "owner_unique st'"
  using assms unfolding owner_unique_def by fastforce

lemma reconcile_frame [simp]:
  "st_playlist (fst (reconcile_participants_connectivity st a now)) = st_playlist st"
  "st_playback (fst (reconcile_participants_connectivity st a now)) = st_playback st"
  "st_currentIndex (fst (reconcile_participants_connectivity st a now)) = st_currentIndex st"
  "st_ownerId (fst (reconcile_participants_connectivity st a now)) = st_ownerId st"
  "st_roomId (fst (reconcile_participants_connectivity st a now)) = st_roomId st"
  "st_roomSecurity (fst (reconcile_participants_connectivity st a now)) = st_roomSecurity st"
  "st_actionLog (fst (reconcile_participants_connectivity st a now)) = st_actionLog st"
  "st_generation (fst (reconcile_participants_connectivity st a now)) = st_generation st"
  "st_structuralRevision (fst (reconcile_participants_connectivity st a now)) = st_structuralRevision st"
  "st_participants (fst (reconcile_participants_connectivity st a now)) =
     map_vals (reconcile_participant now a) (st_participants st)"
  by (simp_all add: reconcile_participants_connectivity_def Let_def)

lemma owner_unique_map_vals:
  assumes "owner_unique st" "\<And>p. pt_role (f p) = pt_role p"
  shows "owner_unique (st\<lparr>st_participants := map_vals f (st_participants st)\<rparr>)"
  using assms(2) by (intro owner_unique_cong [OF assms(1)]) (auto elim!: vals_map_valsE)

lemma owner_unique_reconcile [wf_intros]:
  "owner_unique st \<Longrightarrow> owner_unique (fst (reconcile_participants_connectivity st a now))"
  by (simp add: reconcile_participants_connectivity_def Let_def owner_unique_map_vals)

lemma owner_unique_delete [wf_intros]:
  "owner_unique st \<Longrightarrow> owner_unique (st\<lparr>st_participants := AList.delete u (st_participants st)\<rparr>)"
  by (auto simp: owner_unique_def dest!: set_deleteD)

lemma fold_delete_map_of: "map_of (fold AList.delete ks al) k = (if k \<in> set ks then None else map_of al k)"
  by (induction ks arbitrary: al) auto

lemma fold_delete_subset: "x \<in> set (fold AList.delete ks al) \<Longrightarrow> x \<in> set al"
  by (induction ks arbitrary: al) (auto dest: set_deleteD)

lemma keyed_fold_delete: "keyed ps \<Longrightarrow> keyed (fold AList.delete ks ps)"
  by (induction ks arbitrary: ps) (auto intro: keyed_delete)

lemma prune_body_Some:
  assumes "prune_body cfg uid now userId cur = Some st'"
  obtains st p where "cur = Some st" "map_of (st_participants st) userId = Some p" "\<not> pt_connected p"
    "st' = (bump_room_revisions (fst (transfer_ownership_if_needed cfg uid now
        (st\<lparr>st_participants := AList.delete userId (st_participants st)\<rparr>) RPrune)))\<lparr>st_updatedAt := now\<rparr>"
  using assms by (auto simp: prune_body_def Let_def split: option.splits if_splits)

section \<open>What a prune pass removes\<close>

text \<open>Whether a user is in a room, and if so whether connected.\<close>

definition member_status :: "string \<Rightarrow> string \<Rightarrow> world \<Rightarrow> bool option" where
  "member_status roomId userId w =
     (case get_room roomId w of
        None \<Rightarrow> None
      | Some st \<Rightarrow> map_option pt_connected (map_of (st_participants st) userId))"

lemma adjust_connected:
  "map_option pt_connected (map_of (adjust k (\<lambda>p. p\<lparr>pt_role := r\<rparr>) ps) u) = map_option pt_connected (map_of ps u)"
  by (cases "map_of ps u"; cases "u = k") simp_all

lemma hand_over_connected:
  "map_option pt_connected (map_of (hand_over prev k nx ps) u) = map_option pt_connected (map_of ps u)"
  unfolding hand_over_def Let_def
  by (simp add: adjust_connected split: option.split)

lemma transfer_connected:
  "map_option pt_connected (map_of (st_participants (fst (transfer_ownership_if_needed cfg uid now st reason))) u)
     = map_option pt_connected (map_of (st_participants st) u)"
proof (cases "snd (transfer_ownership_if_needed cfg uid now st reason)")
  case True
  then obtain k nx where "\<not> transfer_blocked st reason"
      "choose_owner (transfer_candidates (st_participants st) reason) reason = Some (k, nx)"
    by (auto simp: transfer_ownership_if_needed_def split: if_splits option.splits)
  note eq = transfer_eq(3) [OF this, where cfg = cfg and uid = uid and now = now]
  show ?thesis unfolding eq by (rule hand_over_connected)
qed (simp add: transfer_no_effect)

lemma status_cong: "w_rooms w = w_rooms w' \<Longrightarrow> member_status r u w = member_status r u w'"
  by (simp add: member_status_def get_room_def)

lemma prune_body_status:
  "(case prune_body cfg uid now userId (Some st) of None \<Rightarrow> map_option pt_connected (map_of (st_participants st) u)
      | Some st' \<Rightarrow> map_option pt_connected (map_of (st_participants st') u)) =
   (if u = userId \<and> map_option pt_connected (map_of (st_participants st) u) = Some False
    then None else map_option pt_connected (map_of (st_participants st) u))"
  by (cases "map_of (st_participants st) userId")
     (simp_all add: prune_body_def Let_def bump_room_revisions_def transfer_connected)

lemma remove_status:
  "member_status r u (fst (remove_disconnected_participant cfg uid now roomId userId w)) =
     (if r = roomId \<and> u = userId \<and> member_status r u w = Some False then None else member_status r u w)"
proof -
  let ?up = "update_room roomId (prune_body cfg uid now userId) w"
  have "w_rooms (fst (remove_disconnected_participant cfg uid now roomId userId w)) = w_rooms (fst ?up)"
    by (simp add: remove_disconnected_participant_def split: prod.split option.split)
  then have "member_status r u (fst (remove_disconnected_participant cfg uid now roomId userId w)) =
      member_status r u (fst ?up)" by (rule status_cong)
  also have "\<dots> = (if r = roomId \<and> u = userId \<and> member_status r u w = Some False then None
      else member_status r u w)"
  proof (cases "get_room roomId w")
    case None
    then show ?thesis by (simp add: member_status_def update_room_get prune_body_def)
  next
    case (Some st)
    then show ?thesis
      using prune_body_status [where cfg = cfg and uid = uid and now = now and userId = userId and st = st and u = u]
      by (auto simp: member_status_def update_room_get split: option.splits if_splits)
  qed
  finally show ?thesis .
qed

lemma remove_grace [simp]:
  "w_grace (fst (remove_disconnected_participant cfg uid now roomId userId w)) = w_grace w"
  by (simp add: remove_disconnected_participant_def update_room_def split: prod.split option.split)

lemma prune_member_step:
  "member_status r u (fst (prune_member cfg uids now m (w, n))) =
     (if parse_prune_member m = Some (r, u) \<and> \<not> still_grace now w r u \<and> member_status r u w = Some False
      then None else member_status r u w)"
  "w_grace (fst (prune_member cfg uids now m (w, n))) = w_grace w"
proof -
  have s: "member_status r u (s_rem now m' w') = member_status r u w'" for r u m' w'
    by (rule status_cong) simp
  have g: "w_grace (s_rem now m' w') = w_grace w'" for m' w' by (simp add: s_rem_def)
  show "w_grace (fst (prune_member cfg uids now m (w, n))) = w_grace w"
  proof (cases "parse_prune_member m")
    case (Some ru)
    obtain r' u' where ru: "ru = (r', u')" by (cases ru)
    obtain w' b where w': "remove_disconnected_participant cfg (uids m) now r' u' w = (w', b)"
      by (cases "remove_disconnected_participant cfg (uids m) now r' u' w")
    have "w_grace w' = w_grace w" using remove_grace [where w = w] w' by (metis fst_conv)
    with Some ru w' show ?thesis by (simp add: prune_member_def g)
  qed (simp add: prune_member_def g)
  show "member_status r u (fst (prune_member cfg uids now m (w, n))) =
     (if parse_prune_member m = Some (r, u) \<and> \<not> still_grace now w r u \<and> member_status r u w = Some False
      then None else member_status r u w)"
  proof (cases "parse_prune_member m")
    case None
    then show ?thesis by (simp add: prune_member_def s)
  next
    case (Some ru)
    obtain r' u' where ru: "ru = (r', u')" by (cases ru)
    show ?thesis
      using Some remove_status [where cfg = cfg and uid = "uids m" and now = now and roomId = r' and userId = u' and w = w and r = r and u = u]
      by (cases "remove_disconnected_participant cfg (uids m) now r' u' w")
         (auto simp: prune_member_def ru s)
  qed
qed

lemma still_grace_cong: "w_grace w = w_grace w' \<Longrightarrow> still_grace now w r u = still_grace now w' r u"
  by (simp add: still_grace_def)

lemma prune_fold_status:
  "member_status r u (fst (fold (prune_member cfg uids now) ms (w, n))) =
     (if (\<exists>m\<in>set ms. parse_prune_member m = Some (r, u)) \<and> \<not> still_grace now w r u
         \<and> member_status r u w = Some False
      then None else member_status r u w)"
proof (induction ms arbitrary: w n)
  case (Cons m ms)
  obtain w' n' where w': "prune_member cfg uids now m (w, n) = (w', n')"
    by (cases "prune_member cfg uids now m (w, n)")
  have st: "member_status r u w' = (if parse_prune_member m = Some (r, u) \<and> \<not> still_grace now w r u
      \<and> member_status r u w = Some False then None else member_status r u w)"
    and g: "w_grace w' = w_grace w"
    using prune_member_step(1) [where r = r and u = u and cfg = cfg and uids = uids and now = now and m = m and w = w and n = n]
      prune_member_step(2) [where cfg = cfg and uids = uids and now = now and m = m and w = w and n = n] w'
    by simp_all
  have "still_grace now w' r u = still_grace now w r u" by (rule still_grace_cong [OF g])
  with Cons.IH [of w' n'] st w' show ?case by auto
qed simp

lemma pending_parse_iff:
  assumes "r \<noteq> []" "u \<noteq> []" "tab \<notin> set r"
  shows "(\<exists>m\<in>set ms. parse_prune_member m = Some (r, u)) \<longleftrightarrow> encode_prune_member r u \<in> set ms"
  using parse_encode_prune_member [OF assms] parse_prune_member_Some by blast

lemma process_status:
  assumes "w_indexUp w"
  shows "member_status r u (fst (process_due_prunes cfg uids now w)) =
     (if (\<exists>m\<in>set (pending_members now w). parse_prune_member m = Some (r, u))
         \<and> \<not> still_grace now w r u \<and> member_status r u w = Some False
      then None else member_status r u w)"
proof -
  have "w_rooms (fst (process_due_prunes cfg uids now w)) =
      w_rooms (fst (fold (prune_member cfg uids now) (pending_members now w) (w, 0)))"
    using assms by (simp add: process_due_prunes_def prune_from_redis_index_def Let_def)
  from status_cong [OF this] show ?thesis by (simp only: prune_fold_status)
qed

section \<open>Properties\<close>

text \<open>
  A prune pass over the index removes exactly the participants that are disconnected, indexed
  and past their grace key: nobody connected is ever removed, nobody within the grace period, and
  nobody who is due is left behind; the connected flags of all others stay as they are.
\<close>

theorem prune_pass_removes_exactly_due:
  assumes "w_indexUp w" and "roomId \<noteq> []" "userId \<noteq> []" "tab \<notin> set roomId"
  shows "member_status roomId userId (fst (process_due_prunes cfg uids now w)) =
    (if member_status roomId userId w = Some False
        \<and> encode_prune_member roomId userId \<in> set (pending_members now w)
        \<and> \<not> still_grace now w roomId userId
     then None else member_status roomId userId w)"
  unfolding process_status [OF assms(1)] pending_parse_iff [OF assms(2-4)] by simp

lemma sample_world_index: "w_indexUp sample_world" by (simp add: sample_world_def)

theorem prune_pass_removes_exactly_due_witness:
  "member_status ''r1'' ''own'' (fst (process_due_prunes sample_limits (\<lambda>m. m) 5 sample_world)) = Some True"
proof -
  have "member_status ''r1'' ''own'' sample_world = Some True"
    by (simp add: member_status_def get_room_def sample_world_def sample_room_def sample_participant_def)
  then show ?thesis
    using prune_pass_removes_exactly_due [OF sample_world_index, where roomId = "''r1''" and userId = "''own''"
        and cfg = sample_limits and uids = "\<lambda>m. m" and now = 5]
    by (simp add: tab_def)
qed

text \<open>
  C1. The grace period in time: a disconnected participant whose prune was scheduled at \<open>t0\<close> is
  removed by a pass at \<open>t\<close> exactly when at least sixty seconds have passed, as long as the index
  has not expired (two minutes), and a prune that was cleared by a reconnect removes nobody.
\<close>

theorem prune_grace_window:
  assumes "w_indexUp w" "member_status roomId userId w = Some False"
    and "roomId \<noteq> []" "userId \<noteq> []" "tab \<notin> set roomId" and "t0 \<le> t" "t < t0 + 120000"
  shows "(member_status roomId userId (fst (process_due_prunes cfg uids t (schedule_prune t0 roomId userId w)))
            = (if 60000 \<le> t - t0 then None else Some False))
    \<and> member_status roomId userId (fst (process_due_prunes cfg uids t
         (clear_prune t roomId userId (schedule_prune t0 roomId userId w)))) = Some False"
proof -
  let ?s = "schedule_prune t0 roomId userId w" and ?c = "clear_prune t roomId userId (schedule_prune t0 roomId userId w)"
  have up: "w_indexUp ?s" "w_indexUp ?c"
    using assms(1) by (simp_all add: schedule_prune_def clear_prune_def refresh_pending_ttl_def s_add_def
        s_rem_def del_grace_def)
  have st: "member_status roomId userId ?s = Some False" "member_status roomId userId ?c = Some False"
    using status_cong [of ?s w] status_cong [of ?c w] assms(2) by simp_all
  have pend: "encode_prune_member roomId userId \<in> set (pending_members t ?s)"
    "encode_prune_member roomId userId \<notin> set (pending_members t ?c)"
    using assms(1,7) by (auto simp: schedule_prune_def clear_prune_def refresh_pending_ttl_def s_add_def
        s_rem_def pending_members_def pending_prunes_ttl_ms_def del_grace_def)
  have grace: "still_grace t ?s roomId userId \<longleftrightarrow> t < t0 + 60000"
    using assms(1) by (simp add: still_grace_def schedule_prune_def refresh_pending_ttl_def s_add_def
        participant_prune_ms_def)
  show ?thesis
    unfolding process_status [OF up(1)] process_status [OF up(2)] pending_parse_iff [OF assms(3-5)]
    using st pend grace by auto
qed

lemma sample_offline:
  "member_status ''r1'' ''own''
     (sample_world\<lparr>w_rooms := [(''r1'', sample_room\<lparr>st_participants :=
        [(''own'', sample_participant ''own'' Owner False 1)]\<rparr>)]\<rparr>) = Some False"
  by (simp add: member_status_def get_room_def sample_participant_def)

theorem prune_grace_window_witness:
  "member_status ''r1'' ''own'' (fst (process_due_prunes sample_limits (\<lambda>m. m) 70000
     (schedule_prune 5000 ''r1'' ''own''
       (sample_world\<lparr>w_rooms := [(''r1'', sample_room\<lparr>st_participants :=
          [(''own'', sample_participant ''own'' Owner False 1)]\<rparr>)]\<rparr>)))) = None"
proof -
  let ?w = "sample_world\<lparr>w_rooms := [(''r1'', sample_room\<lparr>st_participants :=
          [(''own'', sample_participant ''own'' Owner False 1)]\<rparr>)]\<rparr>"
  have up: "w_indexUp ?w" by (simp add: sample_world_def)
  show ?thesis
    using prune_grace_window [OF up sample_offline, where ?t0.0 = 5000 and t = 70000 and cfg = sample_limits and uids = "\<lambda>m. m"]
    by (simp add: tab_def)
qed

text \<open>
  After reconciling with the live presence set a participant is connected exactly when a
  socket of the user is alive; the users reported as disconnecting and reconnecting are exactly
  those whose flag changed, and roles, names and preferences are untouched.
\<close>

theorem reconcile_connectivity_correct:
  assumes "keyed (st_participants st)"
    and "reconcile_participants_connectivity st active now = (st', rr)"
  shows "keys_of (st_participants st') = keys_of (st_participants st)
    \<and> (\<forall>u p. map_of (st_participants st) u = Some p \<longrightarrow>
        (\<exists>p'. map_of (st_participants st') u = Some p'
          \<and> pt_connected p' = (u \<in> set active) \<and> pt_role p' = pt_role p
          \<and> pt_username p' = pt_username p \<and> pt_viewerMedia p' = pt_viewerMedia p
          \<and> (u \<in> set (rr_disconnecting rr) \<longleftrightarrow> pt_connected p \<and> \<not> pt_connected p')
          \<and> (u \<in> set (rr_reconnecting rr) \<longleftrightarrow> \<not> pt_connected p \<and> pt_connected p')
          \<and> (u \<in> set (rr_disconnecting rr) \<longrightarrow> pt_disconnectedAt p' = Some now)))
    \<and> st_ownerId st' = st_ownerId st \<and> st_playlist st' = st_playlist st \<and> st_playback st' = st_playback st"
proof -
  have st': "st' = fst (reconcile_participants_connectivity st active now)"
    and rr: "rr = snd (reconcile_participants_connectivity st active now)" using assms(2) by simp_all
  have uid: "map_of (st_participants st) u = Some p \<Longrightarrow> pt_userId p = u" for u p
    using keyed_userId [OF assms(1)] .
  have mem: "map_of (st_participants st) u = Some p \<Longrightarrow>
      (\<exists>q\<in>set (map snd (st_participants st)). P q \<and> pt_userId q = u) \<longleftrightarrow> P p" for u p P
  proof
    assume m: "map_of (st_participants st) u = Some p"
      and "\<exists>q\<in>set (map snd (st_participants st)). P q \<and> pt_userId q = u"
    then obtain k q where "(k, q) \<in> set (st_participants st)" "P q" "pt_userId q = u" by auto
    with assms(1) m show "P p" by (auto simp: keyed_mem keyed_userId)
  next
    assume "map_of (st_participants st) u = Some p" "P p"
    then show "\<exists>q\<in>set (map snd (st_participants st)). P q \<and> pt_userId q = u"
      using uid by (force dest: map_of_SomeD)
  qed
  have dis: "u \<in> set (rr_disconnecting rr) \<longleftrightarrow> pt_connected p \<and> u \<notin> set active"
    and rec: "u \<in> set (rr_reconnecting rr) \<longleftrightarrow> \<not> pt_connected p \<and> u \<in> set active"
    if "map_of (st_participants st) u = Some p" for u p
  proof -
    have "u \<in> set (rr_disconnecting rr) \<longleftrightarrow> (\<exists>q\<in>set (map snd (st_participants st)).
        (pt_connected q \<and> pt_userId q \<notin> set active) \<and> pt_userId q = u)"
      unfolding rr by (auto simp: reconcile_participants_connectivity_def Let_def)
    then show "u \<in> set (rr_disconnecting rr) \<longleftrightarrow> pt_connected p \<and> u \<notin> set active"
      using mem [OF that, of "\<lambda>q. pt_connected q \<and> pt_userId q \<notin> set active"] uid [OF that] by simp
    have "u \<in> set (rr_reconnecting rr) \<longleftrightarrow> (\<exists>q\<in>set (map snd (st_participants st)).
        (\<not> pt_connected q \<and> pt_userId q \<in> set active) \<and> pt_userId q = u)"
      unfolding rr by (auto simp: reconcile_participants_connectivity_def Let_def)
    then show "u \<in> set (rr_reconnecting rr) \<longleftrightarrow> \<not> pt_connected p \<and> u \<in> set active"
      using mem [OF that, of "\<lambda>q. \<not> pt_connected q \<and> pt_userId q \<in> set active"] uid [OF that] by simp
  qed
  have da: "pt_disconnectedAt (reconcile_participant now active p) = Some now"
    if "pt_connected p" "pt_userId p \<notin> set active" for p
    using that by (simp add: reconcile_participant_def heal_joined_at_def Let_def)
  show ?thesis
  proof (intro conjI allI impI)
    fix u p assume m: "map_of (st_participants st) u = Some p"
    show "\<exists>p'. map_of (st_participants st') u = Some p'
          \<and> pt_connected p' = (u \<in> set active) \<and> pt_role p' = pt_role p
          \<and> pt_username p' = pt_username p \<and> pt_viewerMedia p' = pt_viewerMedia p
          \<and> (u \<in> set (rr_disconnecting rr) \<longleftrightarrow> pt_connected p \<and> \<not> pt_connected p')
          \<and> (u \<in> set (rr_reconnecting rr) \<longleftrightarrow> \<not> pt_connected p \<and> pt_connected p')
          \<and> (u \<in> set (rr_disconnecting rr) \<longrightarrow> pt_disconnectedAt p' = Some now)"
      using m dis [OF m] rec [OF m] uid [OF m] da [of p]
      by (intro exI [of _ "reconcile_participant now active p"]) (simp add: st')
  qed (simp_all add: st')
qed

lemma sample_room_keyed: "keyed (st_participants sample_room)"
  by (simp add: keyed_def sample_room_def sample_participant_def)

theorem reconcile_connectivity_correct_witness:
  "map_option pt_connected (map_of (st_participants
     (fst (reconcile_participants_connectivity sample_room [''own''] 9))) ''mod'') = Some False"
proof -
  obtain st' rr where r: "reconcile_participants_connectivity sample_room [''own''] 9 = (st', rr)"
    by (cases "reconcile_participants_connectivity sample_room [''own''] 9")
  have m: "map_of (st_participants sample_room) ''mod'' = Some (sample_participant ''mod'' Moderator True 200)"
    by (simp add: sample_room_def)
  show ?thesis
    using reconcile_connectivity_correct [OF sample_room_keyed r] m r by fastforce
qed

end
