(* ===== verification/Rooms.thy ===== *)
theory Rooms
  imports Repair Participants
begin

text \<open>
  The room invariant the handlers rely on, the repair pass they run on a room that already has
  its types, and the creation of a room (\<open>src/src/server/realtime/services/room.ts\<close>,
  \<open>room-state-repair.ts\<close>).
\<close>

section \<open>Repair of a typed room\<close>

text \<open>
  \<open>applyRoomStateRepair\<close> on a state whose fields have the types of \<open>RoomState\<close>: the tests
  on \<open>typeof\<close> pass, and what is left are the tests on values.  It is the restriction of
  \<open>repair_cleanup_and_check_room_state\<close>; \<open>index_repair_agrees\<close> and
  \<open>playback_repair_agrees\<close> relate the two.
\<close>

definition repair_index_typed :: "nat \<Rightarrow> nat \<Rightarrow> int \<Rightarrow> int \<times> string list" where
  "repair_index_typed limit len i =
     (let i1 = (if i \<ge> int len then max 0 (int len - 1) else i);
          i2 = (if i1 < 0 then 0 else i1);
          found = (if i \<ge> int len then [''playlist-index-clamped''] else [])
            @ (if i1 < 0 then [''playlist-index-repaired''] else [])
      in if len > limit
         then (max 0 (min (i2 - int (len - limit)) (int limit - 1)), found @ [''playlist-trimmed''])
         else (i2, found))"

definition repair_item_typed :: "playlist_item \<Rightarrow> playlist_item repaired" where
  "repair_item_typed it =
     fix_if (\<lambda>i. pi_ingestStatus i = None) (\<lambda>i. i\<lparr>pi_ingestStatus := Some IngestReady\<rparr>)
       ''playlist-item-ingest-status-repaired''
       (fix_if (\<lambda>i. pi_sourceKind i = LocalFile \<and> pi_playbackMode i = Relay)
         (\<lambda>i. i\<lparr>pi_playbackMode := Direct\<rparr>) ''playlist-item-local-playback-mode-repaired'' (it, []))"

definition repair_playlist_typed :: "nat \<Rightarrow> server_room \<Rightarrow> server_room repaired" where
  "repair_playlist_typed limit st =
     (let items = map repair_item_typed (st_playlist st);
          xs = map fst items
      in case repair_index_typed limit (length xs) (st_currentIndex st) of
           (i, found) \<Rightarrow>
             (st\<lparr>st_playlist := (if length xs > limit then slice_last limit xs else xs),
                 st_currentIndex := i\<rparr>, concat (map snd items) @ found))"

definition pos_opt :: "jsnum option \<Rightarrow> jsnum option" where
  "pos_opt v = (case v of Some t \<Rightarrow> if t > 0 then Some t else None | None \<Rightarrow> None)"

definition repair_joined_at :: "jsnum \<Rightarrow> participant \<Rightarrow> participant repaired" where
  "repair_joined_at now p =
     fix_if (\<lambda>p. pos_opt (pt_joinedAt p) = None)
       (\<lambda>p. p\<lparr>pt_joinedAt := Some (case pos_opt (pt_connectedAt p) of Some t \<Rightarrow> t | None \<Rightarrow>
               (case pos_opt (pt_lastSeenAt p) of Some t \<Rightarrow> t | None \<Rightarrow> now))\<rparr>)
       ''participant-joined-at-repaired'' (p, [])"

definition repair_participants_typed :: "limits \<Rightarrow> jsnum \<Rightarrow> server_room \<Rightarrow> server_room repaired" where
  "repair_participants_typed cfg now st =
     (let good = filter (\<lambda>(u, p). u \<noteq> []) (st_participants st);
          kept = take (lim_participants cfg) good
      in (st\<lparr>st_participants := map_vals (\<lambda>p. fst (repair_joined_at now p)) kept\<rparr>,
          (if length good \<noteq> length (st_participants st) then [''participants-cleaned''] else [])
          @ concat (map (\<lambda>(u, p). snd (repair_joined_at now p)) kept)
          @ (if length good > lim_participants cfg then [''participants-trimmed''] else [])))"

definition repair_log_typed :: "limits \<Rightarrow> jsnum \<Rightarrow> server_room \<Rightarrow> server_room repaired" where
  "repair_log_typed cfg now st =
     (let valid = filter (\<lambda>e. ae_at e \<ge> now - room_action_log_max_age_ms
                            \<and> ae_action e \<in> set tracked_action_types) (st_actionLog st);
          pruned = prune_action_log cfg valid now
      in (st\<lparr>st_actionLog := pruned\<rparr>,
          (if length valid \<noteq> length (st_actionLog st) then [''action-log-filtered''] else [])
          @ (if length pruned < length valid then [''action-log-trimmed''] else [])))"

definition sanitize_playback_typed :: "playback_state \<Rightarrow> playback_state" where
  "sanitize_playback_typed pb =
     pb\<lparr>pb_playbackRate := min 3 (max (1 / 4) (pb_playbackRate pb)),
        pb_timelineAnchorMs := max 0 (pb_timelineAnchorMs pb),
        pb_serverNowMs := max 0 (pb_serverNowMs pb)\<rparr>"

definition apply_room_state_repair :: "limits \<Rightarrow> string \<Rightarrow> jsnum \<Rightarrow> server_room \<Rightarrow> server_room repaired" where
  "apply_room_state_repair cfg freshId now st =
     (let r1 = fix_if (\<lambda>s. st_roomId s = []) (\<lambda>s. s) ''room-id-invalid'' (st, []);
          r2 = fix_if (\<lambda>s. st_ownerId s = []) (\<lambda>s. s\<lparr>st_ownerId := freshId\<rparr>) ''owner-repaired'' r1;
          r3 = fix_if (\<lambda>s. \<not> security_wf (st_roomSecurity s))
                 (\<lambda>s. s\<lparr>st_roomSecurity := normalize_room_security (st_roomSecurity s)\<rparr>)
                 ''room-security-disabled-missing-secret'' r2;
          r4 = then_with (repair_playlist_typed (lim_playlist cfg)) r3;
          r5 = then_with (repair_participants_typed cfg now) r4;
          r6 = then_with (repair_log_typed cfg now) r5;
          r7 = then_do (\<lambda>s. s\<lparr>st_playback := sanitize_playback_typed (st_playback s)\<rparr>) r6
      in fix_if (\<lambda>s. st_updatedAt s \<le> 0) (\<lambda>s. s\<lparr>st_updatedAt := now\<rparr>) ''updated-at-repaired'' r7)"

lemma index_repair_agrees:
  "repair_index limit xs (Some (JNum (of_int i))) =
     (case repair_index_typed limit (length xs) i of
        (i', fs) \<Rightarrow> ((if length xs > limit then slice_last limit xs else xs, Some (JNum (of_int i'))), fs))"
proof -
  define i1 where "i1 = (if i \<ge> int (length xs) then max 0 (int (length xs) - 1) else i)"
  define i2 where "i2 = (if i1 < 0 then 0 else i1)"
  have ge: "index_beyond xs (Some (JNum (of_int i))) = (i \<ge> int (length xs))"
    by (simp add: index_beyond_def) linarith
  have i1: "(if index_beyond xs (Some (JNum (of_int i))) then Some (JNum (max 0 (real (length xs) - 1)))
      else Some (JNum (of_int i))) = Some (JNum (of_int i1))"
    unfolding ge by (cases xs) (auto simp: i1_def max_def)
  have inv: "index_invalid (Some (JNum (of_int i1))) = (i1 < 0)" by (simp add: index_invalid_def)
  have i2: "(if i1 < 0 then Some (JNum 0) else Some (JNum (of_int i1))) = Some (JNum (of_int i2))"
    by (simp add: i2_def)
  show ?thesis
  proof (cases "length xs > limit")
    case False
    then show ?thesis
      unfolding repair_index_def repair_index_typed_def Let_def unfolding i1 unfolding inv i2
      unfolding ge i1_def [symmetric] unfolding i2_def [symmetric] by simp
  next
    case True
    then have len: "length (slice_last limit xs) = limit" by simp
    have "max 0 (min (of_int i2 - real (length xs - limit)) (real limit - 1)) =
        of_int (max 0 (min (i2 - int (length xs - limit)) (int limit - 1)))"
      by (simp add: of_int_max of_int_min del: of_nat_diff)
    with True len show ?thesis
      unfolding repair_index_def repair_index_typed_def Let_def unfolding i1 unfolding inv i2
      unfolding ge i1_def [symmetric] unfolding i2_def [symmetric]
      by (simp add: normalize_finite_number_def del: of_nat_diff)
  qed
qed

definition loop_to_json :: "loop_mode \<Rightarrow> json" where
  "loop_to_json l = JStr (case l of LoopOff \<Rightarrow> ''off'' | LoopOnce \<Rightarrow> ''once'' | LoopAlways \<Rightarrow> ''always'')"

definition playback_to_json :: "playback_state \<Rightarrow> obj" where
  "playback_to_json pb =
     (case pb_mediaId pb of Some m \<Rightarrow> [(''mediaId'', JStr m)] | None \<Rightarrow> [])
     @ [(''paused'', JBool (pb_paused pb)), (''playbackRate'', JNum (pb_playbackRate pb)),
        (''timelineAnchorMs'', JNum (pb_timelineAnchorMs pb)), (''serverNowMs'', JNum (pb_serverNowMs pb)),
        (''videoLoop'', loop_to_json (pb_videoLoop pb)), (''playlistLoop'', loop_to_json (pb_playlistLoop pb))]"

lemma playback_repair_agrees:
  "sanitize_playback_fields now (playback_to_json pb) = (playback_to_json (sanitize_playback_typed pb), 0)"
proof -
  have l: "one_of (Some (loop_to_json m)) [''off'', ''once'', ''always'']" for m
    by (cases m) (simp_all add: loop_to_json_def one_of_def)
  show ?thesis
    by (cases "pb_mediaId pb")
       (simp_all add: sanitize_playback_fields_def playback_to_json_def sanitize_playback_typed_def Let_def
         l normalize_finite_number_def)
qed

section \<open>The room invariant\<close>

text \<open>
  Playlist ids and index, participants under their own ids, at most one owner, a playback clock
  in range, a security record that is never locked without a secret, and a bounded log.
\<close>

definition room_wf :: "limits \<Rightarrow> server_room \<Rightarrow> bool" where
  "room_wf cfg st = (playlist_wf st \<and> keyed (st_participants st) \<and> owner_unique st
     \<and> playback_wf (st_playback st) \<and> security_wf (st_roomSecurity st)
     \<and> log_wf cfg (st_actionLog st))"

lemma room_wfI [wf_intros]:
  "playlist_wf st \<Longrightarrow> keyed (st_participants st) \<Longrightarrow> owner_unique st \<Longrightarrow> playback_wf (st_playback st)
     \<Longrightarrow> security_wf (st_roomSecurity st) \<Longrightarrow> log_wf cfg (st_actionLog st) \<Longrightarrow> room_wf cfg st"
  by (simp add: room_wf_def)

lemma room_wfD:
  assumes "room_wf cfg st"
  shows "playlist_wf st" "keyed (st_participants st)" "owner_unique st" "playback_wf (st_playback st)"
    "security_wf (st_roomSecurity st)" "log_wf cfg (st_actionLog st)"
  using assms by (simp_all add: room_wf_def)

lemma slice_last_suffix: "\<exists>zs. xs = zs @ slice_last n xs"
  unfolding slice_last_def by (metis append_take_drop_id)

lemma repair_item_typed_id [simp]: "pi_id (fst (repair_item_typed it)) = pi_id it"
  by (simp add: repair_item_typed_def)

lemma repair_index_typed_ok:
  "let (i', fs) = repair_index_typed limit len i; n = min limit len
   in if n = 0 then i' = 0 else 0 \<le> i' \<and> i' < int n"
  by (auto simp: repair_index_typed_def Let_def max_def min_def)

lemma ids_ok_map_cong: "map pi_id ys = map pi_id xs \<Longrightarrow> ids_ok ys = ids_ok xs"
  by (simp add: ids_ok_map)

lemma ids_ok_slice: "ids_ok xs \<Longrightarrow> ids_ok (slice_last n xs)"
  using slice_last_suffix [of xs n] unfolding ids_ok_def
  by (metis distinct_append map_append set_append UnI2)

lemma repair_playlist_typed_wf:
  assumes "ids_ok (st_playlist st)"
  shows "playlist_wf (fst (repair_playlist_typed limit st))"
proof -
  let ?xs = "map (\<lambda>it. fst (repair_item_typed it)) (st_playlist st)"
  have m: "map fst (map repair_item_typed (st_playlist st)) = ?xs" by simp
  have ids: "ids_ok ?xs"
    using assms ids_ok_map_cong [of ?xs "st_playlist st"] by (simp add: comp_def)
  obtain i fs where i: "repair_index_typed limit (length ?xs) (st_currentIndex st) = (i, fs)"
    by (cases "repair_index_typed limit (length ?xs) (st_currentIndex st)")
  define L where "L = (if length ?xs > limit then slice_last limit ?xs else ?xs)"
  define n where "n = min limit (length ?xs)"
  have n: "if n = 0 then i = 0 else 0 \<le> i \<and> i < int n"
    using repair_index_typed_ok [of limit "length ?xs" "st_currentIndex st"] unfolding i n_def by (simp add: Let_def)
  have len: "length L = n" by (simp add: L_def n_def)
  have "if L = [] then i = 0 else 0 \<le> i \<and> i < int (length L)"
  proof (cases "L = []")
    case True
    with len n show ?thesis by simp
  next
    case False
    with len have "n \<noteq> 0" by auto
    with n len False show ?thesis by simp
  qed
  moreover have "ids_ok L" using ids ids_ok_slice by (simp add: L_def)
  moreover have "fst (repair_playlist_typed limit st) = st\<lparr>st_playlist := L, st_currentIndex := i\<rparr>"
    unfolding repair_playlist_typed_def Let_def m i L_def by simp
  ultimately show ?thesis by (simp add: playlist_wf_def index_ok_def)
qed

lemma keyed_filter_take: "keyed ps \<Longrightarrow> keyed (take n (filter (\<lambda>(u, p). P u) ps))"
  unfolding keyed_def by (auto simp: take_map [symmetric] intro!: distinct_take distinct_map_filter dest!: in_set_takeD)

lemma repair_joined_at_frame [simp]:
  "pt_userId (fst (repair_joined_at now p)) = pt_userId p" "pt_role (fst (repair_joined_at now p)) = pt_role p"
  "pt_connected (fst (repair_joined_at now p)) = pt_connected p"
  "pt_username (fst (repair_joined_at now p)) = pt_username p"
  by (simp_all add: repair_joined_at_def)

lemma repair_participants_typed_wf:
  assumes "keyed (st_participants st)" "owner_unique st"
  shows "keyed (st_participants (fst (repair_participants_typed cfg now st)))
    \<and> owner_unique (fst (repair_participants_typed cfg now st))"
proof
  show "keyed (st_participants (fst (repair_participants_typed cfg now st)))"
    using assms(1) by (simp add: repair_participants_typed_def Let_def keyed_map_vals keyed_filter_take)
  show "owner_unique (fst (repair_participants_typed cfg now st))"
    by (rule owner_unique_cong [OF assms(2)])
      (auto simp: repair_participants_typed_def Let_def elim!: vals_map_valsE dest!: in_set_takeD)
qed

lemma repair_log_typed_wf: "log_wf cfg (st_actionLog (fst (repair_log_typed cfg now st)))"
  using length_prune_action_log
  by (auto simp: repair_log_typed_def Let_def log_wf_def dest!: set_prune_action_log)

lemma sanitize_playback_typed_wf: "playback_wf (sanitize_playback_typed pb)"
  by (simp add: sanitize_playback_typed_def playback_wf_def)

lemma sanitize_playback_typed_id: "playback_wf pb \<Longrightarrow> sanitize_playback_typed pb = pb"
  by (simp add: sanitize_playback_typed_def playback_wf_def min_def max_def)

text \<open>The repair establishes the invariant from the two parts it does not look at.\<close>

lemma apply_repair_frame:
  "st_participants (fst (repair_playlist_typed n st)) = st_participants st"
  "st_ownerId (fst (repair_playlist_typed n st)) = st_ownerId st"
  "st_playback (fst (repair_playlist_typed n st)) = st_playback st"
  "st_roomSecurity (fst (repair_playlist_typed n st)) = st_roomSecurity st"
  "st_actionLog (fst (repair_playlist_typed n st)) = st_actionLog st"
  "st_playlist (fst (repair_participants_typed cfg now st)) = st_playlist st"
  "st_currentIndex (fst (repair_participants_typed cfg now st)) = st_currentIndex st"
  "st_ownerId (fst (repair_participants_typed cfg now st)) = st_ownerId st"
  "st_playback (fst (repair_participants_typed cfg now st)) = st_playback st"
  "st_roomSecurity (fst (repair_participants_typed cfg now st)) = st_roomSecurity st"
  "st_playlist (fst (repair_log_typed cfg now st)) = st_playlist st"
  "st_currentIndex (fst (repair_log_typed cfg now st)) = st_currentIndex st"
  "st_ownerId (fst (repair_log_typed cfg now st)) = st_ownerId st"
  "st_playback (fst (repair_log_typed cfg now st)) = st_playback st"
  "st_roomSecurity (fst (repair_log_typed cfg now st)) = st_roomSecurity st"
  "st_participants (fst (repair_log_typed cfg now st)) = st_participants st"
  by (simp_all add: repair_playlist_typed_def repair_participants_typed_def repair_log_typed_def Let_def
      split: prod.split)

lemma owner_unique_same:
  "st_participants st' = st_participants st \<Longrightarrow> st_ownerId st' = st_ownerId st \<Longrightarrow> owner_unique st' = owner_unique st"
  by (simp add: owner_unique_def)

lemma repair_room_wf [wf_intros]:
  assumes "ids_ok (st_playlist st)" "keyed (st_participants st)" "owner_unique st" "st_ownerId st \<noteq> []"
  shows "room_wf cfg (fst (apply_room_state_repair cfg u now st))"
proof -
  define s3 where "s3 = (if \<not> security_wf (st_roomSecurity st)
     then st\<lparr>st_roomSecurity := normalize_room_security (st_roomSecurity st)\<rparr> else st)"
  define s4 where "s4 = fst (repair_playlist_typed (lim_playlist cfg) s3)"
  define s5 where "s5 = fst (repair_participants_typed cfg now s4)"
  define s6 where "s6 = fst (repair_log_typed cfg now s5)"
  have s3: "st_playlist s3 = st_playlist st" "st_participants s3 = st_participants st"
    "st_ownerId s3 = st_ownerId st" "security_wf (st_roomSecurity s3)"
    by (simp_all add: s3_def)
  have eq: "fst (apply_room_state_repair cfg u now st) =
      (let s7 = s6\<lparr>st_playback := sanitize_playback_typed (st_playback s6)\<rparr>
       in if st_updatedAt s7 \<le> 0 then s7\<lparr>st_updatedAt := now\<rparr> else s7)"
    using assms(4) by (simp add: apply_room_state_repair_def Let_def s6_def s5_def s4_def s3_def)
  have w4: "playlist_wf s4" unfolding s4_def by (rule repair_playlist_typed_wf) (simp add: s3 assms)
  have w5: "keyed (st_participants s5)" "owner_unique s5"
    using repair_participants_typed_wf [of s4] assms(2,3) owner_unique_same [of s4 st]
    by (simp_all add: s5_def s4_def apply_repair_frame s3)
  have f: "st_playlist s6 = st_playlist s4" "st_currentIndex s6 = st_currentIndex s4"
    "st_participants s6 = st_participants s5" "st_ownerId s6 = st_ownerId s5"
    "st_roomSecurity s6 = st_roomSecurity s3"
    by (simp_all add: s6_def s5_def s4_def apply_repair_frame)
  let ?r = "fst (apply_room_state_repair cfg u now st)"
  have r: "st_playlist ?r = st_playlist s4" "st_currentIndex ?r = st_currentIndex s4"
    "st_participants ?r = st_participants s5" "st_ownerId ?r = st_ownerId s5"
    "st_roomSecurity ?r = st_roomSecurity s3" "st_actionLog ?r = st_actionLog s6"
    "st_playback ?r = sanitize_playback_typed (st_playback s6)"
    by (simp_all add: eq Let_def f)
  show ?thesis
    using w4 w5 s3(4) playlist_wf_frame [OF r(1,2)] owner_unique_same [OF r(3,4)]
      sanitize_playback_typed_wf repair_log_typed_wf [of cfg now s5]
    by (simp add: room_wf_def r s6_def)
qed

section \<open>Creating a room\<close>

text \<open>
  \<open>assertPublicHttpUrl\<close> is the argument \<open>safe\<close>: the normalised address of an accepted URL.
  The ids of seeded items come from a supply, the daily defaults are an argument.
\<close>

definition playlist_item_from_url :: "string \<Rightarrow> jsnum \<Rightarrow> string \<Rightarrow> string \<Rightarrow> string \<Rightarrow> playlist_item" where
  "playlist_item_from_url freshId now url name ownerId =
     \<lparr>pi_id = freshId, pi_name = name, pi_sourceKind = RemoteUrl, pi_playbackMode = Direct,
       pi_sourceUrl = url, pi_playableUrl = url, pi_durationSeconds = None,
       pi_ingestStatus = Some IngestResolving, pi_ingestError = None, pi_blockedReason = None,
       pi_mediaStreams = None, pi_textTracks = None, pi_defaultStreamId = None,
       pi_defaultTextTrackId = None, pi_isLive = None, pi_localMediaId = None,
       pi_localOriginUserId = None, pi_localMimeType = None, pi_localSizeBytes = None,
       pi_createdBy = ownerId, pi_createdAt = now\<rparr>"

datatype media_seed = SeedOk "string option" bool | SeedRejected

definition evaluate_create_media_seed ::
  "(string \<Rightarrow> string option) \<Rightarrow> bool \<Rightarrow> string option \<Rightarrow> bool \<Rightarrow> media_seed" where
  "evaluate_create_media_seed safe roomExists initialMediaUrl skipDefaultMedia =
     (if roomExists then SeedOk None False
      else case initialMediaUrl of
        Some url \<Rightarrow> (case safe url of None \<Rightarrow> SeedRejected | Some href \<Rightarrow> SeedOk (Some href) False)
      | None \<Rightarrow> SeedOk None skipDefaultMedia)"

definition create_initial_room_state ::
  "(string \<Rightarrow> string option) \<Rightarrow> (nat \<Rightarrow> string) \<Rightarrow> jsnum \<Rightarrow> (string \<times> string) list \<Rightarrow> string \<Rightarrow> string
     \<Rightarrow> string option \<Rightarrow> bool \<Rightarrow> server_room" where
  "create_initial_room_state safe ids now dailyDefaults roomId ownerId initialMediaUrl skipDefaultMedia =
     (let seededUrl = map_option trim initialMediaUrl;
          playlist =
            (case seededUrl of
               Some url \<Rightarrow>
                 (if url \<noteq> [] \<and> safe url \<noteq> None then [playlist_item_from_url (ids 0) now url url ownerId]
                  else if skipDefaultMedia then []
                  else map (\<lambda>(i, title, url). playlist_item_from_url (ids i) now url title ownerId)
                         (enumerate 0 dailyDefaults))
             | None \<Rightarrow>
                 (if skipDefaultMedia then []
                  else map (\<lambda>(i, title, url). playlist_item_from_url (ids i) now url title ownerId)
                         (enumerate 0 dailyDefaults)))
      in \<lparr>st_roomId = roomId, st_ownerId = ownerId, st_roomSecurity = create_default_room_security,
           st_playback = \<lparr>pb_mediaId = None, pb_paused = (playlist = []), pb_playbackRate = 1,
             pb_timelineAnchorMs = 0, pb_serverNowMs = now, pb_videoLoop = LoopOff,
             pb_playlistLoop = LoopOff, pb_seekPreview = None\<rparr>,
           st_playlist = playlist, st_currentIndex = 0, st_participants = [], st_actionLog = [],
           st_updatedAt = now, st_generation = 0, st_structuralRevision = 0, st_presenceRevision = None\<rparr>)"

lemma enumerate_ids:
  assumes "inj ids"
  shows "distinct (map (\<lambda>e. ids (fst e)) (enumerate n xs))"
proof -
  have "map (\<lambda>e. ids (fst e)) (enumerate n xs) = map ids (map fst (enumerate n xs))"
    by (simp only: map_map comp_def)
  then show ?thesis
    using inj_on_subset [OF assms subset_UNIV] by (simp add: distinct_map)
qed

lemma create_initial_wf [wf_intros]:
  assumes "inj ids" "\<And>i. ids i \<noteq> []" "0 \<le> now"
  shows "room_wf cfg (create_initial_room_state safe ids now defaults roomId ownerId media skip)"
proof -
  let ?st = "create_initial_room_state safe ids now defaults roomId ownerId media skip"
  have d: "distinct (map pi_id (map (\<lambda>(i, title, url). playlist_item_from_url (ids i) now url title ownerId)
      (enumerate 0 defaults)))"
    using enumerate_ids [OF assms(1), of 0 defaults]
    by (simp add: comp_def case_prod_beta playlist_item_from_url_def)
  have "ids_ok (st_playlist ?st)"
    using d assms(2)
    by (auto simp: create_initial_room_state_def Let_def ids_ok_def playlist_item_from_url_def
        case_prod_beta split: option.split)
  moreover have "index_ok ?st" by (simp add: index_ok_def create_initial_room_state_def Let_def)
  moreover have "playback_wf (st_playback ?st)"
    using assms(3) by (simp add: create_initial_room_state_def Let_def playback_wf_def)
  ultimately show ?thesis
    by (simp add: room_wf_def playlist_wf_def create_initial_room_state_def Let_def keyed_def
        owner_unique_def security_wf_default log_wf_def)
qed

end
