(* ===== verification/Mutate.thy ===== *)
theory Mutate
  imports Rooms
begin

text \<open>
  One user message as a room transaction: \<open>mutateRoomMessage\<close>
  (\<open>src/src/server/realtime/handlers/mutate-room.ts\<close>) and its gated variants
  (\<open>mutate-controlled.ts\<close>, \<open>mutation-nack.ts\<close>).  A handler's body gets the room and the
  acting participant and returns the changed room, or nothing to abort.  The locale
  \<open>room_body\<close> is the contract every handler's body meets; under it the transaction keeps the
  room invariant.
\<close>

section \<open>The code\<close>

datatype publish_hint =
    HControl | HControlEphemeral | HPresence | HSnapshot | HControlSnapshot | HActionLog

fun bumps_structural_revision :: "publish_hint \<Rightarrow> bool" where
  "bumps_structural_revision HSnapshot = True"
| "bumps_structural_revision HControlSnapshot = True"
| "bumps_structural_revision HActionLog = True"
| "bumps_structural_revision _ = False"

definition room_presence_patch :: "server_room \<Rightarrow> string \<Rightarrow> presence_patch" where
  "room_presence_patch st userId =
     (let p = map_of (st_participants st) userId in
      empty_patch\<lparr>pp_connected := Some True,
        pp_lastSeenAt := Option.bind p pt_lastSeenAt,
        pp_localPlayback := map_option pt_localPlayback p\<rparr>)"

fun publish_after_mutation :: "jsnum \<Rightarrow> string \<Rightarrow> string \<Rightarrow> server_room \<Rightarrow> publish_hint \<Rightarrow> world \<Rightarrow> world" where
  "publish_after_mutation now roomId userId st HControl w =
     emit (EActionLogDirty roomId) (publish_control roomId (control_payload_from_state st now) w)"
| "publish_after_mutation now roomId userId st HControlSnapshot w =
     emit (ESnapshotDirty roomId) (publish_control roomId (control_payload_from_state st now) w)"
| "publish_after_mutation now roomId userId st HSnapshot w = emit (ESnapshotDirty roomId) w"
| "publish_after_mutation now roomId userId st HActionLog w = emit (EActionLogDirty roomId) w"
| "publish_after_mutation now roomId userId st HPresence w =
     emit (EPresenceDirty roomId userId (room_presence_patch st userId)) w"
| "publish_after_mutation now roomId userId st HControlEphemeral w = w"

type_synonym body = "server_room \<Rightarrow> participant \<Rightarrow> server_room option"

text \<open>
  What happens inside \<open>updateRoom\<close>.  The acting participant is looked up before the body runs;
  the repair may drop the entry (the trim to the participants limit), and then the three
  assignments that follow go to an object that is no longer part of the room.
\<close>

definition mutate_commit ::
  "limits \<Rightarrow> string \<Rightarrow> jsnum \<Rightarrow> string list \<Rightarrow> string \<Rightarrow> body \<Rightarrow> publish_hint \<Rightarrow> server_room option
     \<Rightarrow> server_room option" where
  "mutate_commit cfg freshId now active userId body hint cur =
     (case cur of
        None \<Rightarrow> None
      | Some st0 \<Rightarrow>
          (let st1 = fst (reconcile_participants_connectivity st0 active now) in
           case map_of (st_participants st1) userId of
             None \<Rightarrow> None
           | Some p \<Rightarrow>
               (case body st1 p of
                  None \<Rightarrow> None
                | Some st2 \<Rightarrow>
                    (let st3 = fst (apply_room_state_repair cfg freshId now st2);
                         st4 = st3\<lparr>st_participants := adjust userId
                                 (\<lambda>p. p\<lparr>pt_connected := True, pt_lastSeenAt := Some now,
                                        pt_disconnectedAt := None\<rparr>) (st_participants st3)\<rparr>;
                         st5 = mark_current_media st4;
                         st6 = st5\<lparr>st_updatedAt := now, st_generation := st_generation st5 + 1\<rparr>
                     in Some (if bumps_structural_revision hint
                              then st6\<lparr>st_structuralRevision := st_structuralRevision st6 + 1\<rparr>
                              else st6)))))"

definition mutate_room_message ::
  "limits \<Rightarrow> string \<Rightarrow> jsnum \<Rightarrow> string \<Rightarrow> string \<Rightarrow> body \<Rightarrow> publish_hint \<Rightarrow> world
     \<Rightarrow> world \<times> server_room option" where
  "mutate_room_message cfg freshId now roomId userId body hint w =
     (let active = read_ws_presence_user_ids roomId w;
          w1 = reconcile_presence_refs roomId w;
          recon = (case get_room roomId w1 of
                     Some st \<Rightarrow> snd (reconcile_participants_connectivity st active now)
                   | None \<Rightarrow> \<lparr>rr_disconnecting = [], rr_reconnecting = []\<rparr>)
      in case update_room roomId (mutate_commit cfg freshId now active userId body hint) w1 of
           (w2, None) \<Rightarrow> (w2, None)
         | (w2, Some st) \<Rightarrow>
             (let w3 = fold (clear_prune now roomId) (rr_reconnecting recon) w2;
                  w4 = fold (schedule_prune now roomId) (rr_disconnecting recon) w3
              in (publish_after_mutation now roomId userId st hint w4, Some st)))"

section \<open>Gated messages\<close>

record message_context =
  mc_ws :: nat
  mc_roomId :: string
  mc_userId :: string
  mc_connectionId :: string
  mc_controlAuthorized :: bool
  mc_isControlSession :: bool
  mc_sessionKind :: session_kind

record envelope =
  env_type :: string
  env_requestId :: "string option"
  env_payload :: json

definition connection_auth_from_context :: "message_context \<Rightarrow> auth_context" where
  "connection_auth_from_context ctx =
     \<lparr>ac_isControlSession = mc_isControlSession ctx, ac_controlAuthorized = mc_controlAuthorized ctx,
       ac_sessionKind = Some (mc_sessionKind ctx)\<rparr>"

definition no_mutation_nack :: "string list" where
  "no_mutation_nack = [''seek:preview'', ''participant:update'', ''local-media:webrtc:signal'',
     ''local-media:chunk'', ''local-media:sfu:capabilities'', ''local-media:sfu:create-transport'',
     ''local-media:sfu:connect-transport'', ''local-media:sfu:produce-data'',
     ''local-media:sfu:consume-data'']"

definition dispatch_nack_excluded :: "string list" where
  "dispatch_nack_excluded = [''seek:preview'', ''participant:update'', ''local-media:webrtc:signal'',
     ''local-media:chunk'']"

definition should_nack_mutation :: "string \<Rightarrow> bool" where
  "should_nack_mutation t = (t \<notin> set no_mutation_nack)"

definition should_nack_at_dispatch :: "string \<Rightarrow> bool" where
  "should_nack_at_dispatch t = (t \<notin> set dispatch_nack_excluded)"

text \<open>A nack goes out only for a request with an id, on an open socket.\<close>

definition send_mutation_nack :: "nat \<Rightarrow> envelope \<Rightarrow> room_error_code \<Rightarrow> world \<Rightarrow> world" where
  "send_mutation_nack ws data code w =
     (if \<not> truthy (env_requestId data) then w
      else if ws \<notin> set (w_open w) then w
      else emit (ENack ws (env_type data) code) w)"

definition parse_or_nack ::
  "(json \<Rightarrow> 'p option) \<Rightarrow> nat \<Rightarrow> envelope \<Rightarrow> world \<Rightarrow> world \<times> 'p option" where
  "parse_or_nack parse ws data w =
     (case parse (env_payload data) of
        Some p \<Rightarrow> (w, Some p)
      | None \<Rightarrow> ((if should_nack_mutation (env_type data)
                  then send_mutation_nack ws data InvalidPayload w else w), None))"

text \<open>
  The gate runs inside the transaction, on the room it reads: \<open>denied\<close> is set when the body was
  reached and the gate failed.
\<close>

definition gated :: "(server_room \<Rightarrow> bool) \<Rightarrow> body \<Rightarrow> body" where
  "gated ok body = (\<lambda>st p. if ok st then body st p else None)"

definition was_denied :: "(server_room \<Rightarrow> bool) \<Rightarrow> jsnum \<Rightarrow> string \<Rightarrow> string \<Rightarrow> world \<Rightarrow> bool" where
  "was_denied ok now roomId userId w =
     (case get_room roomId w of
        None \<Rightarrow> False
      | Some st \<Rightarrow>
          (let st1 = fst (reconcile_participants_connectivity st (read_ws_presence_user_ids roomId w) now)
           in map_of (st_participants st1) userId \<noteq> None \<and> \<not> ok st1))"

definition mutate_gated ::
  "(message_context \<Rightarrow> server_room \<Rightarrow> bool) \<Rightarrow> limits \<Rightarrow> string \<Rightarrow> jsnum \<Rightarrow> message_context \<Rightarrow> envelope
     \<Rightarrow> body \<Rightarrow> publish_hint \<Rightarrow> world \<Rightarrow> world \<times> server_room option" where
  "mutate_gated ok cfg freshId now ctx data body hint w =
     (case mutate_room_message cfg freshId now (mc_roomId ctx) (mc_userId ctx)
             (gated (ok ctx) body) hint w of
        (w1, res) \<Rightarrow>
          ((if was_denied (ok ctx) now (mc_roomId ctx) (mc_userId ctx) w
            then send_mutation_nack (mc_ws ctx) data Unauthorized w1 else w1), res))"

definition may_control :: "message_context \<Rightarrow> server_room \<Rightarrow> bool" where
  "may_control ctx st =
     can_control_from_connection_context st (mc_userId ctx) (connection_auth_from_context ctx)"

definition may_manage_security :: "message_context \<Rightarrow> server_room \<Rightarrow> bool" where
  "may_manage_security ctx st =
     can_manage_room_security_from_connection_context st (mc_userId ctx) (connection_auth_from_context ctx)"

definition mutate_controlled_room_message ::
  "limits \<Rightarrow> string \<Rightarrow> jsnum \<Rightarrow> message_context \<Rightarrow> envelope \<Rightarrow> body \<Rightarrow> publish_hint \<Rightarrow> world
     \<Rightarrow> world \<times> server_room option" where
  "mutate_controlled_room_message = mutate_gated may_control"

definition mutate_owner_room_message ::
  "limits \<Rightarrow> string \<Rightarrow> jsnum \<Rightarrow> message_context \<Rightarrow> envelope \<Rightarrow> body \<Rightarrow> publish_hint \<Rightarrow> world
     \<Rightarrow> world \<times> server_room option" where
  "mutate_owner_room_message = mutate_gated may_manage_security"

section \<open>The contract of a body\<close>

text \<open>
  A body may rewrite the room as it likes as long as playlist ids stay distinct, participants
  stay under their ids, nobody becomes a second owner, and the room keeps its owner id.  Index,
  clock, log and lock are brought back in range by the repair that follows it.  \<open>fresh\<close> is
  what the body needs of the playlist it meets: that the id it is about to add is new.
\<close>

locale room_body =
  fixes body :: body and fresh :: "playlist_item list \<Rightarrow> bool"
  assumes ids: "body st p = Some st' \<Longrightarrow> fresh (st_playlist st) \<Longrightarrow> ids_ok (st_playlist st) \<Longrightarrow>
      index_ok st \<Longrightarrow> ids_ok (st_playlist st')"
    and keys: "body st p = Some st' \<Longrightarrow> keyed (st_participants st) \<Longrightarrow> keyed (st_participants st')"
    and owner: "body st p = Some st' \<Longrightarrow> keyed (st_participants st) \<Longrightarrow> owner_unique st \<Longrightarrow> owner_unique st'"
    and owner_id: "body st p = Some st' \<Longrightarrow> st_ownerId st' = st_ownerId st"
begin

lemma commit_room_wf:
  assumes "room_wf cfg st" "st_ownerId st \<noteq> []"
    and "mutate_commit cfg freshId now active userId body hint (Some st) = Some st'"
    and "fresh (st_playlist st)"
  shows "room_wf cfg st'"
proof -
  let ?st1 = "fst (reconcile_participants_connectivity st active now)"
  obtain p st2 where p: "map_of (st_participants ?st1) userId = Some p" and b: "body ?st1 p = Some st2"
    using assms(3) by (auto simp: mutate_commit_def Let_def split: option.splits)
  define st3 where "st3 = fst (apply_room_state_repair cfg freshId now st2)"
  note wf = room_wfD [OF assms(1)]
  have k1: "keyed (st_participants ?st1)" using wf(2) by (simp add: keyed_map_vals)
  have o1: "owner_unique ?st1" by (rule owner_unique_reconcile [OF wf(3)])
  have i1: "fresh (st_playlist ?st1)" "ids_ok (st_playlist ?st1)" "index_ok ?st1"
    using wf(1) assms(4) by (simp_all add: playlist_wf_def index_ok_def)
  have w3: "room_wf cfg st3"
    unfolding st3_def using ids [OF b i1] keys [OF b k1] owner [OF b k1 o1] owner_id [OF b] assms(2)
    by (intro repair_room_wf) simp_all
  note wf3 = room_wfD [OF w3]
  let ?ps = "adjust userId (\<lambda>p. p\<lparr>pt_connected := True, pt_lastSeenAt := Some now, pt_disconnectedAt := None\<rparr>)
    (st_participants st3)"
  have k4: "keyed ?ps" using wf3(2) by (simp add: keyed_adjust)
  have o4: "owner_unique (st3\<lparr>st_participants := ?ps\<rparr>)"
    by (rule owner_unique_cong [OF wf3(3)]) (auto elim!: vals_adjustE split: if_splits)
  have st': "st_playlist st' = st_playlist st3" "st_currentIndex st' = st_currentIndex st3"
    "st_participants st' = ?ps" "st_ownerId st' = st_ownerId st3" "st_roomSecurity st' = st_roomSecurity st3"
    "st_actionLog st' = st_actionLog st3" "playback_wf (st_playback st') = playback_wf (st_playback st3)"
    using assms(3) p b
    by (auto simp: mutate_commit_def Let_def st3_def mark_current_media_def playback_wf_def split: if_splits)
  have "owner_unique st'" using o4 by (simp add: owner_unique_def st')
  with wf3 k4 st' playlist_wf_frame [OF st'(1,2)] show ?thesis by (simp add: room_wf_def)
qed

end

text \<open>Most bodies add no item and meet any playlist.\<close>

abbreviation any_playlist :: "playlist_item list \<Rightarrow> bool" where
  "any_playlist \<equiv> \<lambda>_. True"

lemma room_bodyI:
  assumes "\<And>st p st'. body st p = Some st' \<Longrightarrow> fresh (st_playlist st) \<Longrightarrow> ids_ok (st_playlist st) \<Longrightarrow>
      index_ok st \<Longrightarrow> ids_ok (st_playlist st')"
    and "\<And>st p st'. body st p = Some st' \<Longrightarrow> st_participants st' = st_participants st"
    and "\<And>st p st'. body st p = Some st' \<Longrightarrow> st_ownerId st' = st_ownerId st"
  shows "room_body body fresh"
  by unfold_locales (use assms in \<open>auto simp: owner_unique_def\<close>)

text \<open>A body that runs one playlist operation and logs it.\<close>

lemma room_body_op:
  assumes "\<And>st p st'. body st p = Some st' \<Longrightarrow> st_playlist st' = st_playlist (op st)
      \<and> st_participants st' = st_participants st \<and> st_ownerId st' = st_ownerId st"
    and "\<And>st. fresh (st_playlist st) \<Longrightarrow> playlist_wf st \<Longrightarrow> ids_ok (st_playlist (op st))"
  shows "room_body body fresh"
  using assms by (intro room_bodyI) (simp_all add: playlist_wf_def)

lemma gated_body: "room_body body fresh \<Longrightarrow> room_body (gated ok body) fresh"
  unfolding room_body_def gated_def by (auto split: if_splits)

section \<open>The transaction\<close>

text \<open>Every stored room meets the invariant and names its owner and its participants.\<close>

definition room_named :: "server_room \<Rightarrow> bool" where
  "room_named st = (st_ownerId st \<noteq> [] \<and> [] \<notin> set (keys_of (st_participants st)))"

definition world_wf :: "limits \<Rightarrow> world \<Rightarrow> bool" where
  "world_wf cfg w = (\<forall>(r, st)\<in>set (w_rooms w). room_wf cfg st \<and> room_named st)"

lemma world_wfD: "world_wf cfg w \<Longrightarrow> get_room r w = Some st \<Longrightarrow> room_wf cfg st \<and> room_named st"
  unfolding world_wf_def get_room_def by (blast dest: map_of_SomeD)

lemma world_wf_cong: "w_rooms w' = w_rooms w \<Longrightarrow> world_wf cfg w' = world_wf cfg w"
  by (simp add: world_wf_def)

lemma world_wf_update_room:
  assumes "world_wf cfg w"
    and "\<And>st'. f (get_room r w) = Some st' \<Longrightarrow> room_wf cfg st' \<and> room_named st'"
  shows "world_wf cfg (fst (update_room r f w))"
  using assms by (auto simp: update_room_def world_wf_def dest!: set_updateD split: option.splits)

lemma reconcile_refs_rooms [simp]: "w_rooms (reconcile_presence_refs r w) = w_rooms w"
  by (simp add: reconcile_presence_refs_def)

lemma publish_rooms [simp]: "w_rooms (publish_after_mutation now r u st hint w) = w_rooms w"
  by (cases hint) simp_all

lemma prune_fold_rooms:
  "w_rooms (fold (clear_prune now r) us w) = w_rooms w" "w_rooms (fold (schedule_prune now r) us w) = w_rooms w"
  by (induction us arbitrary: w) simp_all

lemma nack_rooms [simp]: "w_rooms (send_mutation_nack ws d c w) = w_rooms w"
  by (simp add: send_mutation_nack_def)

lemma mutate_message_rooms:
  "w_rooms (fst (mutate_room_message cfg freshId now roomId userId body hint w)) =
     w_rooms (fst (update_room roomId (mutate_commit cfg freshId now
       (read_ws_presence_user_ids roomId w) userId body hint) (reconcile_presence_refs roomId w)))"
  by (auto simp: mutate_room_message_def Let_def prune_fold_rooms split: prod.split option.split)

lemma mutate_message_result:
  "snd (mutate_room_message cfg freshId now roomId userId body hint w) =
     mutate_commit cfg freshId now (read_ws_presence_user_ids roomId w) userId body hint (get_room roomId w)"
  using update_room_result [of roomId "mutate_commit cfg freshId now (read_ws_presence_user_ids roomId w) userId body hint"
      "reconcile_presence_refs roomId w"]
  by (auto simp: mutate_room_message_def Let_def split: prod.split option.split)

lemma mutate_message_get:
  "get_room r (fst (mutate_room_message cfg freshId now roomId userId body hint w)) =
     (if r = roomId then
        (case mutate_commit cfg freshId now (read_ws_presence_user_ids roomId w) userId body hint (get_room roomId w) of
           Some st \<Rightarrow> Some st | None \<Rightarrow> get_room r w)
      else get_room r w)"
  using get_room_cong [OF mutate_message_rooms, of r cfg freshId now roomId userId body hint w]
  by (cases "mutate_commit cfg freshId now (read_ws_presence_user_ids roomId w) userId body hint (get_room roomId w)")
     (simp_all add: update_room_get)

lemma commit_Some:
  assumes "mutate_commit cfg freshId now active userId body hint cur = Some st'"
  obtains st p st2 where "cur = Some st"
    "map_of (st_participants (fst (reconcile_participants_connectivity st active now))) userId = Some p"
    "body (fst (reconcile_participants_connectivity st active now)) p = Some st2"
    "st_generation st' = st_generation (fst (apply_room_state_repair cfg freshId now st2)) + 1"
    "st_updatedAt st' = now"
  using assms that
  by (auto simp: mutate_commit_def Let_def mark_current_media_def split: option.splits if_splits)

lemma repair_owner_id:
  "st_ownerId st \<noteq> [] \<Longrightarrow> st_ownerId (fst (apply_room_state_repair cfg u now st)) = st_ownerId st"
  by (simp add: apply_room_state_repair_def Let_def apply_repair_frame)

lemma repair_revisions:
  "st_generation (fst (apply_room_state_repair cfg u now st)) = st_generation st"
  "st_structuralRevision (fst (apply_room_state_repair cfg u now st)) = st_structuralRevision st"
proof -
  have "st_generation (fst (repair_playlist_typed n s)) = st_generation s"
    "st_structuralRevision (fst (repair_playlist_typed n s)) = st_structuralRevision s"
    "st_generation (fst (repair_participants_typed cfg now s)) = st_generation s"
    "st_structuralRevision (fst (repair_participants_typed cfg now s)) = st_structuralRevision s"
    "st_generation (fst (repair_log_typed cfg now s)) = st_generation s"
    "st_structuralRevision (fst (repair_log_typed cfg now s)) = st_structuralRevision s" for n s
    by (simp_all add: repair_playlist_typed_def repair_participants_typed_def repair_log_typed_def Let_def
        split: prod.split)
  then show "st_generation (fst (apply_room_state_repair cfg u now st)) = st_generation st"
    "st_structuralRevision (fst (apply_room_state_repair cfg u now st)) = st_structuralRevision st"
    by (simp_all add: apply_room_state_repair_def Let_def)
qed

lemma commit_owner_id:
  assumes "room_body body fresh" "mutate_commit cfg freshId now active userId body hint (Some st) = Some st'"
    and "st_ownerId st \<noteq> []"
  shows "st_ownerId st' = st_ownerId st"
proof -
  obtain p st2 where b: "body (fst (reconcile_participants_connectivity st active now)) p = Some st2"
    and o: "st_ownerId st' = st_ownerId (fst (apply_room_state_repair cfg freshId now st2))"
    using assms(2) by (auto simp: mutate_commit_def Let_def mark_current_media_def split: option.splits if_splits)
  have "st_ownerId st2 = st_ownerId st" using room_body.owner_id [OF assms(1) b] by simp
  with o assms(3) show ?thesis by (simp add: repair_owner_id)
qed

text \<open>The repair on the participants: entries are kept or dropped, only the join stamp may change.\<close>

lemma repair_participants_field:
  "st_participants (fst (apply_room_state_repair cfg fid now st)) =
     map_vals (\<lambda>p. fst (repair_joined_at now p))
       (take (lim_participants cfg) (filter (\<lambda>(u, p). u \<noteq> []) (st_participants st)))"
  by (simp add: apply_room_state_repair_def Let_def apply_repair_frame repair_participants_typed_def)

lemma repair_keys: "[] \<notin> set (keys_of (st_participants (fst (apply_room_state_repair cfg fid now st))))"
  by (auto simp: repair_participants_field dest!: in_set_takeD)

lemma commit_keys:
  assumes "mutate_commit cfg freshId now active userId body hint (Some st) = Some st'"
  shows "[] \<notin> set (keys_of (st_participants st'))"
proof -
  have "\<exists>st2. keys_of (st_participants st') = keys_of (st_participants (fst (apply_room_state_repair cfg freshId now st2)))"
    using assms keys_adjust
    by (auto simp: mutate_commit_def Let_def mark_current_media_def split: option.splits if_splits)
  then show ?thesis using repair_keys by metis
qed

lemma mutate_world_wf:
  assumes "room_body body fresh" "world_wf cfg w"
    and fresh: "\<And>st. get_room roomId w = Some st \<Longrightarrow> fresh (st_playlist st)"
  shows "world_wf cfg (fst (mutate_room_message cfg freshId now roomId userId body hint w))"
proof -
  have "world_wf cfg (fst (update_room roomId (mutate_commit cfg freshId now
      (read_ws_presence_user_ids roomId w) userId body hint) (reconcile_presence_refs roomId w)))"
  proof (rule world_wf_update_room)
    show "world_wf cfg (reconcile_presence_refs roomId w)" using assms(2) by (simp add: world_wf_def)
    fix st' assume c: "mutate_commit cfg freshId now (read_ws_presence_user_ids roomId w) userId body hint
        (get_room roomId (reconcile_presence_refs roomId w)) = Some st'"
    then obtain st where st: "get_room roomId w = Some st" by (auto elim: commit_Some)
    from c st have c': "mutate_commit cfg freshId now (read_ws_presence_user_ids roomId w) userId body hint (Some st) = Some st'"
      by simp
    from world_wfD [OF assms(2) st] show "room_wf cfg st' \<and> room_named st'"
      using room_body.commit_room_wf [OF assms(1) _ _ c' fresh [OF st]] commit_owner_id [OF assms(1) c']
        commit_keys [OF c'] by (simp add: room_named_def)
  qed
  then show ?thesis using world_wf_cong [OF mutate_message_rooms] by blast
qed

lemma mutate_gated_rooms:
  "w_rooms (fst (mutate_gated ok cfg freshId now ctx data body hint w)) =
     w_rooms (fst (mutate_room_message cfg freshId now (mc_roomId ctx) (mc_userId ctx) (gated (ok ctx) body) hint w))"
  "snd (mutate_gated ok cfg freshId now ctx data body hint w) =
     snd (mutate_room_message cfg freshId now (mc_roomId ctx) (mc_userId ctx) (gated (ok ctx) body) hint w)"
  by (simp_all add: mutate_gated_def split: prod.split)

lemma mutate_gated_wf:
  assumes "room_body body fresh" "world_wf cfg w"
    and "\<And>st. get_room (mc_roomId ctx) w = Some st \<Longrightarrow> fresh (st_playlist st)"
  shows "world_wf cfg (fst (mutate_gated ok cfg freshId now ctx data body hint w))"
  using mutate_world_wf [OF gated_body [OF assms(1)] assms(2,3)] world_wf_cong [OF mutate_gated_rooms(1)] by blast

lemma parse_or_nack_rooms [simp]: "w_rooms (fst (parse_or_nack parse ws data w)) = w_rooms w"
  by (simp add: parse_or_nack_def split: option.split)

text \<open>A message the gate refuses writes nothing, whatever its body.\<close>

lemma gated_denied:
  assumes "get_room (mc_roomId ctx) w = Some st"
    and "\<not> ok ctx (fst (reconcile_participants_connectivity st (read_ws_presence_user_ids (mc_roomId ctx) w) now))"
  shows "get_room r (fst (mutate_gated ok cfg freshId now ctx data body hint w)) = get_room r w"
proof -
  have "mutate_commit cfg freshId now (read_ws_presence_user_ids (mc_roomId ctx) w) (mc_userId ctx)
      (gated (ok ctx) body) hint (Some st) = None"
    using assms(2) by (simp add: mutate_commit_def gated_def Let_def split: option.split)
  then have "get_room r (fst (mutate_room_message cfg freshId now (mc_roomId ctx) (mc_userId ctx)
      (gated (ok ctx) body) hint w)) = get_room r w"
    by (simp add: mutate_message_get assms(1))
  then show ?thesis using get_room_cong [OF mutate_gated_rooms(1)] by metis
qed

text \<open>Roles are not touched by reconciling, so the gate can be read off the stored room.\<close>

lemma may_control_reconcile:
  "may_control ctx (fst (reconcile_participants_connectivity st a now)) = may_control ctx st"
  by (cases "map_of (st_participants st) (mc_userId ctx)")
     (simp_all add: may_control_def can_control_from_connection_context_def has_playback_and_playlist_control_def)

lemma may_manage_reconcile:
  "may_manage_security ctx (fst (reconcile_participants_connectivity st a now)) = may_manage_security ctx st"
  by (simp add: may_manage_security_def can_manage_room_security_from_connection_context_def)

end
