(* ===== verification/Playback_Handlers.thy ===== *)
theory Playback_Handlers
  imports Mutate
begin

text \<open>
  The transport commands of a controller
  (\<open>src/src/server/realtime/handlers/playback.ts\<close>).  Each handler parses its payload, then
  runs its body under the control gate; the bodies are interpreted as \<open>room_body\<close>.
\<close>

section \<open>The code\<close>

definition log_action ::
  "limits \<Rightarrow> string \<Rightarrow> jsnum \<Rightarrow> message_context \<Rightarrow> participant \<Rightarrow> string \<Rightarrow> (string \<times> json) list
     \<Rightarrow> string option \<Rightarrow> server_room \<Rightarrow> server_room" where
  "log_action cfg uid now ctx p action payload err st = append_action_log cfg uid now st
     \<lparr>ai_roomId = mc_roomId ctx, ai_actorUserId = mc_userId ctx, ai_actorUsername = Some (pt_username p),
       ai_action = action, ai_payload = payload, ai_error = err\<rparr>"

definition seek_body :: "limits \<Rightarrow> string \<Rightarrow> jsnum \<Rightarrow> message_context \<Rightarrow> jsnum \<Rightarrow> body" where
  "seek_body cfg uid now ctx targetMs st p =
     (case commit_playback_seek st targetMs now of (st1, fromMs, toMs) \<Rightarrow>
        Some (log_action cfg uid now ctx p ''playback:seek''
          [(''fromMs'', JNum fromMs), (''toMs'', JNum toMs)] None st1))"

definition set_paused_body ::
  "limits \<Rightarrow> string \<Rightarrow> jsnum \<Rightarrow> message_context \<Rightarrow> bool \<Rightarrow> jsnum option \<Rightarrow> body" where
  "set_paused_body cfg uid now ctx paused clientMs st p =
     (let pb = st_playback st;
          atMs = max 0 (resolve_current_timeline_ms st now);
          st1 = st\<lparr>st_playback := pb\<lparr>pb_timelineAnchorMs := atMs, pb_paused := paused,
                  pb_serverNowMs := next_monotonic_ms (pb_serverNowMs pb) now\<rparr>\<rparr>
      in Some (log_action cfg uid now ctx p (if paused then ''playback:pause'' else ''playback:unpause'')
           ((''atMs'', JNum atMs) #
            (case clientMs of Some t \<Rightarrow> [(''clientCurrentTimeMs'', JNum t)] | None \<Rightarrow> [])) None st1))"

definition rate_body :: "limits \<Rightarrow> string \<Rightarrow> jsnum \<Rightarrow> message_context \<Rightarrow> jsnum \<Rightarrow> body" where
  "rate_body cfg uid now ctx rate st p =
     (let st1 = reanchor_playback_at_now st now;
          st2 = st1\<lparr>st_playback := (st_playback st1)\<lparr>pb_playbackRate := rate\<rparr>\<rparr>
      in Some (log_action cfg uid now ctx p ''playback:rate'' [(''playbackRate'', JNum rate)] None st2))"

datatype loop_scope = ScopeVideo | ScopePlaylist

fun loop_mode_str :: "loop_mode \<Rightarrow> string" where
  "loop_mode_str LoopOff = ''off''"
| "loop_mode_str LoopOnce = ''once''"
| "loop_mode_str LoopAlways = ''always''"

definition loop_body ::
  "limits \<Rightarrow> string \<Rightarrow> jsnum \<Rightarrow> message_context \<Rightarrow> loop_scope \<Rightarrow> loop_mode \<Rightarrow> body" where
  "loop_body cfg uid now ctx scope mode st p =
     (let pb = st_playback st;
          previousMode = (case scope of ScopeVideo \<Rightarrow> pb_videoLoop pb | ScopePlaylist \<Rightarrow> pb_playlistLoop pb);
          st1 = st\<lparr>st_playback := (case scope of ScopeVideo \<Rightarrow> pb\<lparr>pb_videoLoop := mode\<rparr>
                                   | ScopePlaylist \<Rightarrow> pb\<lparr>pb_playlistLoop := mode\<rparr>)\<rparr>
      in Some (if previousMode \<noteq> mode
               then log_action cfg uid now ctx p ''playback:loop''
                 [(''scope'', JStr (case scope of ScopeVideo \<Rightarrow> ''video'' | ScopePlaylist \<Rightarrow> ''playlist'')),
                  (''previousMode'', JStr (loop_mode_str previousMode)),
                  (''nextMode'', JStr (loop_mode_str mode)), (''enabled'', JBool (mode \<noteq> LoopOff))] None st1
               else st1))"

definition handle_playback_seek ::
  "limits \<Rightarrow> string \<Rightarrow> string \<Rightarrow> jsnum \<Rightarrow> message_context \<Rightarrow> envelope \<Rightarrow> world \<Rightarrow> world" where
  "handle_playback_seek cfg uid freshId now ctx data w =
     (case parse_or_nack parse_seek (mc_ws ctx) data w of
        (w1, None) \<Rightarrow> w1
      | (w1, Some targetMs) \<Rightarrow>
          fst (mutate_controlled_room_message cfg freshId now ctx data
                 (seek_body cfg uid now ctx targetMs) HControl w1))"

definition set_playback_paused_state ::
  "limits \<Rightarrow> string \<Rightarrow> string \<Rightarrow> jsnum \<Rightarrow> message_context \<Rightarrow> envelope \<Rightarrow> bool \<Rightarrow> world \<Rightarrow> world" where
  "set_playback_paused_state cfg uid freshId now ctx data paused w =
     (case parse_or_nack parse_setPaused (mc_ws ctx) data w of
        (w1, None) \<Rightarrow> w1
      | (w1, Some clientMs) \<Rightarrow>
          fst (mutate_controlled_room_message cfg freshId now ctx data
                 (set_paused_body cfg uid now ctx paused clientMs) HControl w1))"

definition handle_playback_play ::
  "limits \<Rightarrow> string \<Rightarrow> string \<Rightarrow> jsnum \<Rightarrow> message_context \<Rightarrow> envelope \<Rightarrow> world \<Rightarrow> world" where
  "handle_playback_play cfg uid freshId now ctx data =
     set_playback_paused_state cfg uid freshId now ctx data False"

definition handle_playback_pause ::
  "limits \<Rightarrow> string \<Rightarrow> string \<Rightarrow> jsnum \<Rightarrow> message_context \<Rightarrow> envelope \<Rightarrow> world \<Rightarrow> world" where
  "handle_playback_pause cfg uid freshId now ctx data =
     set_playback_paused_state cfg uid freshId now ctx data True"

definition handle_playback_rate ::
  "limits \<Rightarrow> string \<Rightarrow> string \<Rightarrow> jsnum \<Rightarrow> message_context \<Rightarrow> envelope \<Rightarrow> world \<Rightarrow> world" where
  "handle_playback_rate cfg uid freshId now ctx data w =
     (case parse_or_nack parse_rate (mc_ws ctx) data w of
        (w1, None) \<Rightarrow> w1
      | (w1, Some rate) \<Rightarrow>
          fst (mutate_controlled_room_message cfg freshId now ctx data
                 (rate_body cfg uid now ctx rate) HControl w1))"

definition set_playback_loop_mode ::
  "limits \<Rightarrow> string \<Rightarrow> string \<Rightarrow> jsnum \<Rightarrow> message_context \<Rightarrow> envelope \<Rightarrow> loop_scope \<Rightarrow> world \<Rightarrow> world" where
  "set_playback_loop_mode cfg uid freshId now ctx data scope w =
     (case parse_or_nack parse_loopMode (mc_ws ctx) data w of
        (w1, None) \<Rightarrow> w1
      | (w1, Some mode) \<Rightarrow>
          fst (mutate_controlled_room_message cfg freshId now ctx data
                 (loop_body cfg uid now ctx scope mode) HControl w1))"

definition handle_playback_loop_video ::
  "limits \<Rightarrow> string \<Rightarrow> string \<Rightarrow> jsnum \<Rightarrow> message_context \<Rightarrow> envelope \<Rightarrow> world \<Rightarrow> world" where
  "handle_playback_loop_video cfg uid freshId now ctx data =
     set_playback_loop_mode cfg uid freshId now ctx data ScopeVideo"

definition handle_playback_loop_playlist ::
  "limits \<Rightarrow> string \<Rightarrow> string \<Rightarrow> jsnum \<Rightarrow> message_context \<Rightarrow> envelope \<Rightarrow> world \<Rightarrow> world" where
  "handle_playback_loop_playlist cfg uid freshId now ctx data =
     set_playback_loop_mode cfg uid freshId now ctx data ScopePlaylist"

section \<open>The bodies meet the contract\<close>

lemma log_action_frame [simp]:
  "st_playlist (log_action cfg uid now ctx p a pl e st) = st_playlist st"
  "st_playback (log_action cfg uid now ctx p a pl e st) = st_playback st"
  "st_currentIndex (log_action cfg uid now ctx p a pl e st) = st_currentIndex st"
  "st_participants (log_action cfg uid now ctx p a pl e st) = st_participants st"
  "st_ownerId (log_action cfg uid now ctx p a pl e st) = st_ownerId st"
  "st_roomSecurity (log_action cfg uid now ctx p a pl e st) = st_roomSecurity st"
  "st_generation (log_action cfg uid now ctx p a pl e st) = st_generation st"
  by (simp_all add: log_action_def)

lemma timeline_owner [simp]:
  "st_ownerId (fst (commit_playback_seek st t now)) = st_ownerId st"
  "st_ownerId (reanchor_playback_at_now st now) = st_ownerId st"
  "st_ownerId (reset_playback_timeline st now p) = st_ownerId st"
  by (simp_all add: commit_playback_seek_def reanchor_playback_at_now_def reset_playback_timeline_def Let_def)

lemmas transport_bodies = seek_body_def set_paused_body_def rate_body_def loop_body_def

interpretation seek: room_body "seek_body cfg uid now ctx t" any_playlist for cfg uid now ctx t
  by (rule room_bodyI) (auto simp: seek_body_def commit_playback_seek_def Let_def)

interpretation set_paused: room_body "set_paused_body cfg uid now ctx b c" any_playlist for cfg uid now ctx b c
  by (rule room_bodyI) (auto simp: set_paused_body_def Let_def)

interpretation rate: room_body "rate_body cfg uid now ctx r" any_playlist for cfg uid now ctx r
  by (rule room_bodyI) (auto simp: rate_body_def Let_def)

interpretation loop: room_body "loop_body cfg uid now ctx s m" any_playlist for cfg uid now ctx s m
  by (rule room_bodyI) (auto simp: loop_body_def Let_def)

text \<open>A handler that parses and then runs a body under a gate keeps the invariant of the world.\<close>

lemma parsed_handler_wf:
  assumes "world_wf cfg w" "\<And>x. room_body (body x) fresh"
    and "\<And>st. get_room (mc_roomId ctx) w = Some st \<Longrightarrow> fresh (st_playlist st)"
  shows "world_wf cfg (case parse_or_nack parse ws data w of (w1, None) \<Rightarrow> w1
     | (w1, Some x) \<Rightarrow> fst (mutate_gated ok cfg freshId now ctx data (body x) hint w1))"
proof (cases "parse_or_nack parse ws data w")
  case (Pair w1 o1)
  have rooms: "w_rooms w1 = w_rooms w" using parse_or_nack_rooms [of parse ws data w] Pair by simp
  then have w1: "world_wf cfg w1" using assms(1) world_wf_cong by blast
  have fr: "fresh (st_playlist st)" if "get_room (mc_roomId ctx) w1 = Some st" for st
    using assms(3) that get_room_cong [OF rooms] by simp
  show ?thesis
    using mutate_gated_wf [OF assms(2) w1 fr] w1 Pair by (simp split: option.split)
qed

lemma playback_handlers_wf [wf_intros]:
  assumes "world_wf cfg w"
  shows "world_wf cfg (handle_playback_seek cfg uid freshId now ctx data w)"
    "world_wf cfg (handle_playback_play cfg uid freshId now ctx data w)"
    "world_wf cfg (handle_playback_pause cfg uid freshId now ctx data w)"
    "world_wf cfg (handle_playback_rate cfg uid freshId now ctx data w)"
    "world_wf cfg (handle_playback_loop_video cfg uid freshId now ctx data w)"
    "world_wf cfg (handle_playback_loop_playlist cfg uid freshId now ctx data w)"
  unfolding handle_playback_seek_def handle_playback_play_def handle_playback_pause_def
    handle_playback_rate_def handle_playback_loop_video_def handle_playback_loop_playlist_def
    set_playback_paused_state_def set_playback_loop_mode_def mutate_controlled_room_message_def
  by (rule parsed_handler_wf [OF assms], rule seek.room_body_axioms set_paused.room_body_axioms
      rate.room_body_axioms loop.room_body_axioms, simp)+

section \<open>What a transport command does to the room\<close>

text \<open>The stored playback after a transaction whose body left playlist and participants alone.\<close>

lemma repair_playback_field:
  "st_playback (fst (apply_room_state_repair cfg u now st)) = sanitize_playback_typed (st_playback st)"
  by (simp add: apply_room_state_repair_def Let_def apply_repair_frame)

lemma commit_playback:
  assumes "mutate_commit cfg freshId now active userId body hint (Some st) = Some st'"
    and "map_of (st_participants (fst (reconcile_participants_connectivity st active now))) userId = Some p"
    and "body (fst (reconcile_participants_connectivity st active now)) p = Some st2"
  shows "\<exists>mid. st_playback st' = (sanitize_playback_typed (st_playback st2))\<lparr>pb_mediaId := mid\<rparr>"
  using assms
  by (intro exI [of _ "pb_mediaId (st_playback st')"])
     (auto simp: mutate_commit_def Let_def mark_current_media_def repair_playback_field split: if_splits)

lemma timeline_of_playback:
  "st_playback st = st_playback st' \<Longrightarrow> resolve_current_timeline_ms st t = resolve_current_timeline_ms st' t"
  by (simp add: resolve_current_timeline_ms_def)

text \<open>
  An accepted command: the member may control the room, the payload parses, the body does not
  abort.  Then the stored room is the committed one.
\<close>

lemma accepted_command:
  assumes room: "get_room (mc_roomId ctx) w = Some st"
    and member: "map_of (st_participants st) (mc_userId ctx) = Some p0"
    and gate: "may_control ctx st"
    and parsed: "parse (env_payload data) = Some x"
    and body: "\<And>s p. body x s p \<noteq> None"
  shows "\<exists>st' p st2 mid. get_room (mc_roomId ctx)
        (case parse_or_nack parse (mc_ws ctx) data w of (w1, None) \<Rightarrow> w1
           | (w1, Some x) \<Rightarrow> fst (mutate_controlled_room_message cfg freshId now ctx data (body x) hint w1)) = Some st'
      \<and> body x (fst (reconcile_participants_connectivity st (read_ws_presence_user_ids (mc_roomId ctx) w) now)) p = Some st2
      \<and> st_playback st' = (sanitize_playback_typed (st_playback st2))\<lparr>pb_mediaId := mid\<rparr>
      \<and> st_generation st' = st_generation st2 + 1"
proof -
  let ?a = "read_ws_presence_user_ids (mc_roomId ctx) w"
  let ?st1 = "fst (reconcile_participants_connectivity st ?a now)"
  let ?p = "reconcile_participant now ?a p0"
  have p: "map_of (st_participants ?st1) (mc_userId ctx) = Some ?p" using member by simp
  obtain st2 where st2: "body x ?st1 ?p = Some st2" using body by blast
  have ok: "may_control ctx ?st1" using gate by (simp add: may_control_reconcile)
  have g: "gated (may_control ctx) (body x) ?st1 ?p = Some st2" using st2 ok by (simp add: gated_def)
  obtain st' where st': "mutate_commit cfg freshId now ?a (mc_userId ctx) (gated (may_control ctx) (body x)) hint (Some st) = Some st'"
    unfolding mutate_commit_def Let_def option.case p g by blast
  obtain mid where mid: "st_playback st' = (sanitize_playback_typed (st_playback st2))\<lparr>pb_mediaId := mid\<rparr>"
    using commit_playback [OF st' p g] by blast
  have gen: "st_generation st' = st_generation st2 + 1"
    using st' p g by (auto simp: mutate_commit_def Let_def mark_current_media_def repair_revisions split: if_splits)
  have "get_room (mc_roomId ctx) (fst (mutate_controlled_room_message cfg freshId now ctx data (body x) hint w)) = Some st'"
    unfolding mutate_controlled_room_message_def
    using get_room_cong [OF mutate_gated_rooms(1)] st' room by (simp add: mutate_message_get)
  then show ?thesis
    using st2 mid gen parsed by (simp add: parse_or_nack_def) blast
qed

lemma sanitized_wf_id: "playback_wf pb \<Longrightarrow> (sanitize_playback_typed pb)\<lparr>pb_mediaId := m\<rparr> = pb\<lparr>pb_mediaId := m\<rparr>"
  by (simp add: sanitize_playback_typed_id)

lemma resolve_from:
  assumes "st_playback st' = pb\<lparr>pb_mediaId := m\<rparr>" "pb_serverNowMs pb \<le> t"
  shows "resolve_current_timeline_ms st' t =
    (if pb_paused pb then pb_timelineAnchorMs pb
     else pb_timelineAnchorMs pb + (t - pb_serverNowMs pb) * pb_playbackRate pb)"
  using assms by (simp add: resolve_current_timeline_ms_def Let_def max_def)

section \<open>Properties\<close>

text \<open>
  C4. A controller's seek moves the shared playhead to the target and keeps it running or paused
  as it was; pausing freezes it where the server's own projection puts it (the client's clock is
  ignored), and playing or changing the rate continues from that point at the rate in force, for
  every later instant.  Every accepted command increases the generation by one.
\<close>

theorem transport_moves_playhead:
  assumes room: "get_room (mc_roomId ctx) w = Some st" and wf: "playback_wf (st_playback st)"
    and member: "map_of (st_participants st) (mc_userId ctx) = Some p"
    and gate: "may_control ctx st"
    and clock: "pb_serverNowMs (st_playback st) + 1 \<le> now" "now \<le> t"
  shows "(\<forall>target. parse_seek (env_payload data) = Some target \<longrightarrow>
      (\<exists>st'. get_room (mc_roomId ctx) (handle_playback_seek cfg uid freshId now ctx data w) = Some st'
        \<and> resolve_current_timeline_ms st' t = max 0 target
            + (if pb_paused (st_playback st) then 0 else (t - now) * pb_playbackRate (st_playback st))
        \<and> pb_paused (st_playback st') = pb_paused (st_playback st)
        \<and> st_generation st' = st_generation st + 1))
    \<and> (\<forall>c. parse_setPaused (env_payload data) = Some c \<longrightarrow>
      (\<exists>st'. get_room (mc_roomId ctx) (handle_playback_pause cfg uid freshId now ctx data w) = Some st'
        \<and> resolve_current_timeline_ms st' t = resolve_current_timeline_ms st now \<and> pb_paused (st_playback st'))
      \<and> (\<exists>st'. get_room (mc_roomId ctx) (handle_playback_play cfg uid freshId now ctx data w) = Some st'
        \<and> resolve_current_timeline_ms st' t = resolve_current_timeline_ms st now
            + (t - now) * pb_playbackRate (st_playback st) \<and> \<not> pb_paused (st_playback st')))
    \<and> (\<forall>r. parse_rate (env_payload data) = Some r \<longrightarrow>
      (\<exists>st'. get_room (mc_roomId ctx) (handle_playback_rate cfg uid freshId now ctx data w) = Some st'
        \<and> resolve_current_timeline_ms st' t = resolve_current_timeline_ms st now
            + (if pb_paused (st_playback st) then 0 else (t - now) * r)
        \<and> pb_playbackRate (st_playback st') = r))"
proof -
  let ?s1 = "fst (reconcile_participants_connectivity st (read_ws_presence_user_ids (mc_roomId ctx) w) now)"
  have pb1: "st_playback ?s1 = st_playback st" by simp
  have tl1: "resolve_current_timeline_ms ?s1 x = resolve_current_timeline_ms st x" for x
    by (rule timeline_of_playback) simp
  have tl0: "0 \<le> resolve_current_timeline_ms st now" by (rule resolve_timeline_nonneg [OF wf])
  have stamp: "next_monotonic_ms (pb_serverNowMs (st_playback st)) now = now" using clock(1) by (rule next_monotonic_eq)
  have nn: "0 \<le> now" using wf clock(1) by (simp add: playback_wf_def)
  have seek: "\<exists>st'. get_room (mc_roomId ctx) (handle_playback_seek cfg uid freshId now ctx data w) = Some st'
        \<and> resolve_current_timeline_ms st' t = max 0 target
            + (if pb_paused (st_playback st) then 0 else (t - now) * pb_playbackRate (st_playback st))
        \<and> pb_paused (st_playback st') = pb_paused (st_playback st)
        \<and> st_generation st' = st_generation st + 1" if "parse_seek (env_payload data) = Some target" for target
  proof -
    note hyp = that
    have body: "seek_body cfg uid now ctx target s q \<noteq> None" for s q
      by (simp add: seek_body_def commit_playback_seek_def Let_def)
    obtain st' q st2 mid where r: "get_room (mc_roomId ctx) (handle_playback_seek cfg uid freshId now ctx data w) = Some st'"
      "seek_body cfg uid now ctx target ?s1 q = Some st2"
      "st_playback st' = (sanitize_playback_typed (st_playback st2))\<lparr>pb_mediaId := mid\<rparr>"
      "st_generation st' = st_generation st2 + 1"
      using accepted_command [where x = target and parse = parse_seek and body = "seek_body cfg uid now ctx"
          and cfg = cfg and freshId = freshId and now = now and hint = HControl, OF room member gate hyp body]
      unfolding handle_playback_seek_def by blast
    have st2: "st_playback st2 = (st_playback st)\<lparr>pb_timelineAnchorMs := max 0 target,
        pb_serverNowMs := now, pb_seekPreview := None\<rparr>" "st_generation st2 = st_generation st"
      using r(2) by (auto simp: seek_body_def commit_playback_seek_def Let_def stamp)
    have "playback_wf (st_playback st2)" using wf nn by (simp add: st2 playback_wf_def)
    note pb' = r(3) [unfolded sanitized_wf_id [OF this]]
    have le: "pb_serverNowMs (st_playback st2) \<le> t" using clock(2) by (simp add: st2)
    show ?thesis
      using r(1,4) resolve_from [OF pb' le] pb' by (intro exI [of _ st']) (simp add: st2)
  qed
  have paused: "\<exists>st'. get_room (mc_roomId ctx) (set_playback_paused_state cfg uid freshId now ctx data b w) = Some st'
        \<and> resolve_current_timeline_ms st' t = resolve_current_timeline_ms st now
            + (if b then 0 else (t - now) * pb_playbackRate (st_playback st))
        \<and> pb_paused (st_playback st') = b" if "parse_setPaused (env_payload data) = Some c" for c b
  proof -
    note hyp = that
    have body: "set_paused_body cfg uid now ctx b c s q \<noteq> None" for s q by (simp add: set_paused_body_def Let_def)
    obtain st' q st2 mid where r: "get_room (mc_roomId ctx) (set_playback_paused_state cfg uid freshId now ctx data b w) = Some st'"
      "set_paused_body cfg uid now ctx b c ?s1 q = Some st2"
      "st_playback st' = (sanitize_playback_typed (st_playback st2))\<lparr>pb_mediaId := mid\<rparr>"
      using accepted_command [where x = c and parse = parse_setPaused and body = "set_paused_body cfg uid now ctx b"
          and cfg = cfg and freshId = freshId and now = now and hint = HControl, OF room member gate hyp body]
      unfolding set_playback_paused_state_def by blast
    have st2: "st_playback st2 = (st_playback st)\<lparr>pb_timelineAnchorMs := resolve_current_timeline_ms st now,
        pb_paused := b, pb_serverNowMs := now\<rparr>"
      using r(2) tl0 by (auto simp: set_paused_body_def Let_def stamp tl1)
    have "playback_wf (st_playback st2)" using wf nn tl0 by (simp add: st2 playback_wf_def)
    note pb' = r(3) [unfolded sanitized_wf_id [OF this]]
    have le: "pb_serverNowMs (st_playback st2) \<le> t" using clock(2) by (simp add: st2)
    show ?thesis
      using r(1) resolve_from [OF pb' le] pb' by (intro exI [of _ st']) (simp add: st2)
  qed
  have rate: "\<exists>st'. get_room (mc_roomId ctx) (handle_playback_rate cfg uid freshId now ctx data w) = Some st'
        \<and> resolve_current_timeline_ms st' t = resolve_current_timeline_ms st now
            + (if pb_paused (st_playback st) then 0 else (t - now) * r)
        \<and> pb_playbackRate (st_playback st') = r" if "parse_rate (env_payload data) = Some r" for r
  proof -
    have bounds: "1 / 4 \<le> r \<and> r \<le> 3" using parse_rate_bounds [OF that] by simp
    note hyp = that
    have body: "rate_body cfg uid now ctx r s q \<noteq> None" for s q by (simp add: rate_body_def Let_def)
    obtain st' q st2 mid where e: "get_room (mc_roomId ctx) (handle_playback_rate cfg uid freshId now ctx data w) = Some st'"
      "rate_body cfg uid now ctx r ?s1 q = Some st2"
      "st_playback st' = (sanitize_playback_typed (st_playback st2))\<lparr>pb_mediaId := mid\<rparr>"
      using accepted_command [where x = r and parse = parse_rate and body = "rate_body cfg uid now ctx"
          and cfg = cfg and freshId = freshId and now = now and hint = HControl, OF room member gate hyp body]
      unfolding handle_playback_rate_def by blast
    have st2: "st_playback st2 = (st_playback st)\<lparr>pb_timelineAnchorMs := resolve_current_timeline_ms st now,
        pb_serverNowMs := now, pb_playbackRate := r\<rparr>"
      using e(2) by (auto simp: rate_body_def reanchor_playback_at_now_def Let_def stamp tl1)
    have "playback_wf (st_playback st2)" using wf nn tl0 bounds by (simp add: st2 playback_wf_def)
    note pb' = e(3) [unfolded sanitized_wf_id [OF this]]
    have le: "pb_serverNowMs (st_playback st2) \<le> t" using clock(2) by (simp add: st2)
    show ?thesis
      using e(1) resolve_from [OF pb' le] pb' by (intro exI [of _ st']) (simp add: st2)
  qed
  show ?thesis
    using seek paused [where b = True] paused [where b = False] rate
    unfolding handle_playback_pause_def handle_playback_play_def by simp
qed

definition sample_context :: "string \<Rightarrow> message_context" where
  "sample_context uid = \<lparr>mc_ws = 1, mc_roomId = ''r1'', mc_userId = uid, mc_connectionId = ''c1'',
     mc_controlAuthorized = False, mc_isControlSession = False, mc_sessionKind = SRoom\<rparr>"

lemma sample_world_room: "get_room ''r1'' sample_world = Some sample_room"
  by (simp add: get_room_def sample_world_def)

lemma sample_member: "map_of (st_participants sample_room) ''mod'' = Some (sample_participant ''mod'' Moderator True 200)"
  by (simp add: sample_room_def)

lemma sample_gate: "may_control (sample_context ''mod'') sample_room"
  by (simp add: may_control_def can_control_from_connection_context_def passes_session_gate_def
      connection_auth_from_context_def sample_context_def has_playback_and_playlist_control_def
      can_mutate_by_role_def sample_room_def sample_participant_def)

theorem transport_moves_playhead_witness:
  "\<exists>st'. get_room ''r1'' (handle_playback_pause sample_limits ''u'' ''o'' 3000 (sample_context ''mod'')
       \<lparr>env_type = ''playback:pause'', env_requestId = None, env_payload = JObj []\<rparr> sample_world) = Some st'
     \<and> resolve_current_timeline_ms st' 9000 = 7000"
proof -
  have ctx: "mc_roomId (sample_context ''mod'') = ''r1''" "mc_userId (sample_context ''mod'') = ''mod''"
    by (simp_all add: sample_context_def)
  have pb: "playback_wf (st_playback sample_room)" "pb_serverNowMs (st_playback sample_room) + 1 \<le> 3000"
    "resolve_current_timeline_ms sample_room 3000 = 7000"
    by (simp_all add: playback_wf_def sample_room_def sample_playback_def resolve_current_timeline_ms_def)
  have parse: "parse_setPaused (env_payload \<lparr>env_type = ''playback:pause'', env_requestId = None, env_payload = JObj []\<rparr>) = Some None"
    by (simp add: parse_setPaused_def p_opt_def)
  from transport_moves_playhead [of "sample_context ''mod''", unfolded ctx, OF sample_world_room pb(1) sample_member sample_gate pb(2),
      of 9000 "\<lparr>env_type = ''playback:pause'', env_requestId = None, env_payload = JObj []\<rparr>" sample_limits "''u''" "''o''"] parse
  have "\<exists>st'. get_room ''r1'' (handle_playback_pause sample_limits ''u'' ''o'' 3000 (sample_context ''mod'')
       \<lparr>env_type = ''playback:pause'', env_requestId = None, env_payload = JObj []\<rparr> sample_world) = Some st'
     \<and> resolve_current_timeline_ms st' 9000 = resolve_current_timeline_ms sample_room 3000"
    by fastforce
  then show ?thesis unfolding pb(3) .
qed

end
