(* ===== verification/Playlist_Handlers.thy ===== *)
theory Playlist_Handlers
  imports Playback_Handlers
begin

text \<open>
  The playlist commands (\<open>src/src/server/realtime/handlers/playlist.ts\<close>).  The result of the
  resolve rate limit, the outcome of registering a local file, and the fresh item id are
  arguments; the start of a media resolution is an effect.
\<close>

section \<open>Bodies\<close>

definition item_name_json :: "server_room \<Rightarrow> int \<Rightarrow> (string \<times> json) list" where
  "item_name_json st i = (case js_nth (st_playlist st) i of
     Some it \<Rightarrow> [(''mediaName'', JStr (pi_name it)), (''mediaId'', JStr (pi_id it))] | None \<Rightarrow> [])"

definition select_body :: "limits \<Rightarrow> string \<Rightarrow> jsnum \<Rightarrow> message_context \<Rightarrow> nat \<Rightarrow> body" where
  "select_body cfg uid now ctx index st p =
     (case apply_playlist_select st (int index) now of
        (st1, ok) \<Rightarrow>
          if \<not> ok then None
          else Some (log_action cfg uid now ctx p ''media:played''
                 ((''index'', JNum (real index)) # item_name_json st1 (int index)) None st1))"

definition add_url_body ::
  "limits \<Rightarrow> string \<Rightarrow> jsnum \<Rightarrow> message_context \<Rightarrow> string \<Rightarrow> string \<Rightarrow> body" where
  "add_url_body cfg uid now ctx itemId sourceUrl st p =
     (if is_playlist_at_limit st (lim_playlist cfg) then None
      else let st1 = st\<lparr>st_playlist := st_playlist st @
                 [build_remote_url_playlist_item itemId sourceUrl (mc_userId ctx) now]\<rparr>
           in Some (log_action cfg uid now ctx p ''playlist:add''
                [(''itemId'', JStr itemId), (''itemName'', JStr sourceUrl),
                 (''index'', JNum (real (length (st_playlist st1)) - 1)), (''pending'', JBool True)] None st1))"

definition add_local_body ::
  "limits \<Rightarrow> string \<Rightarrow> jsnum \<Rightarrow> message_context \<Rightarrow> string \<Rightarrow> add_local \<Rightarrow> body" where
  "add_local_body cfg uid now ctx itemId a st p =
     (if is_playlist_at_limit st (lim_playlist cfg) then None
      else let wasEmpty = (st_playlist st = []);
               st1 = st\<lparr>st_playlist := st_playlist st @
                 [build_local_file_playlist_item itemId (al_name a) (al_localMediaId a) (al_mimeType a)
                    (al_sizeBytes a) (mc_userId ctx) now (al_durationSeconds a)]\<rparr>;
               st2 = (if wasEmpty
                      then st1\<lparr>st_currentIndex := 0, st_playback := (st_playback st1)\<lparr>pb_paused := False\<rparr>\<rparr>
                      else st1)
           in Some (log_action cfg uid now ctx p ''playlist:add''
                [(''itemId'', JStr itemId), (''itemName'', JStr (al_name a)),
                 (''index'', JNum (real (length (st_playlist st2)) - 1)),
                 (''sourceKind'', JStr ''local_file'')] None st2))"

definition item_error_body ::
  "limits \<Rightarrow> string \<Rightarrow> jsnum \<Rightarrow> message_context \<Rightarrow> string \<Rightarrow> string option \<Rightarrow> body" where
  "item_error_body cfg uid now ctx itemId err st p =
     (case apply_playlist_item_error st itemId err now of
        (st1, None) \<Rightarrow> None
      | (st1, Some (item, cleared)) \<Rightarrow>
          if cleared then Some st1
          else Some (log_action cfg uid now ctx p ''participant:error''
                 [(''itemId'', JStr (pi_id item)), (''mediaName'', JStr (pi_name item))] err st1))"

definition item_duration_body :: "string \<Rightarrow> jsnum \<Rightarrow> body" where
  "item_duration_body itemId d st p =
     (case apply_playlist_item_duration st itemId d of
        (st1, None) \<Rightarrow> None | (st1, Some item) \<Rightarrow> Some st1)"

definition item_title_body :: "string \<Rightarrow> string \<Rightarrow> body" where
  "item_title_body itemId name st p =
     (case apply_playlist_item_title st itemId name of
        (st1, None) \<Rightarrow> None | (st1, Some item) \<Rightarrow> Some st1)"

definition reorder_body :: "limits \<Rightarrow> string \<Rightarrow> jsnum \<Rightarrow> message_context \<Rightarrow> nat \<Rightarrow> nat \<Rightarrow> body" where
  "reorder_body cfg uid now ctx i j st p =
     (case apply_playlist_reorder st (int i) (int j) of
        (st1, None) \<Rightarrow> None
      | (st1, Some entry) \<Rightarrow>
          Some (log_action cfg uid now ctx p ''playlist:reorder''
            [(''itemId'', JStr (pi_id entry)), (''itemName'', JStr (pi_name entry)),
             (''from'', JNum (real i)), (''to'', JNum (real j))] None st1))"

definition rename_body ::
  "limits \<Rightarrow> string \<Rightarrow> jsnum \<Rightarrow> message_context \<Rightarrow> string \<Rightarrow> string \<Rightarrow> body" where
  "rename_body cfg uid now ctx itemId name st p =
     (case apply_playlist_rename st itemId name of
        (st1, None) \<Rightarrow> None
      | (st1, Some (item, previousName, nextName)) \<Rightarrow>
          Some (log_action cfg uid now ctx p ''playlist:rename''
            [(''itemId'', JStr (pi_id item)), (''previousName'', JStr previousName),
             (''nextName'', JStr nextName)] None st1))"

definition remove_body :: "limits \<Rightarrow> string \<Rightarrow> jsnum \<Rightarrow> message_context \<Rightarrow> string \<Rightarrow> body" where
  "remove_body cfg uid now ctx itemId st p =
     (case apply_playlist_remove st itemId now of
        (st1, None) \<Rightarrow> None
      | (st1, Some (removed, index)) \<Rightarrow>
          Some (log_action cfg uid now ctx p ''playlist:remove''
            [(''itemId'', JStr (pi_id removed)), (''itemName'', JStr (pi_name removed)),
             (''index'', JNum (real index))] None st1))"

section \<open>Handlers\<close>

definition ascii_lower :: "string \<Rightarrow> string" where
  "ascii_lower = map (\<lambda>c. let n = (of_char c :: nat) in if 65 \<le> n \<and> n \<le> 90 then char_of (n + 32) else c)"

definition starts_with :: "string \<Rightarrow> string \<Rightarrow> bool" where
  "starts_with s pre = (take (length pre) s = pre)"

definition is_progressive_media_mime :: "string option \<Rightarrow> bool" where
  "is_progressive_media_mime mime =
     (case mime of None \<Rightarrow> False
      | Some m \<Rightarrow> m \<noteq> [] \<and> (starts_with (ascii_lower m) ''video/'' \<or> starts_with (ascii_lower m) ''audio/''))"

definition handle_playlist_select ::
  "limits \<Rightarrow> string \<Rightarrow> string \<Rightarrow> jsnum \<Rightarrow> message_context \<Rightarrow> envelope \<Rightarrow> world \<Rightarrow> world" where
  "handle_playlist_select cfg uid freshId now ctx data w =
     (case parse_or_nack parse_select (mc_ws ctx) data w of
        (w1, None) \<Rightarrow> w1
      | (w1, Some index) \<Rightarrow>
          fst (mutate_controlled_room_message cfg freshId now ctx data
                 (select_body cfg uid now ctx index) HControl w1))"

text \<open>
  \<open>shouldResolve\<close> is set when the body ran past its limit check, so it is true exactly when the
  gate passed and the playlist had room.
\<close>

definition body_reached ::
  "(server_room \<Rightarrow> bool) \<Rightarrow> (server_room \<Rightarrow> bool) \<Rightarrow> jsnum \<Rightarrow> string \<Rightarrow> string \<Rightarrow> world \<Rightarrow> bool" where
  "body_reached ok room_ok now roomId userId w =
     (case get_room roomId w of
        None \<Rightarrow> False
      | Some st \<Rightarrow>
          (let st1 = fst (reconcile_participants_connectivity st (read_ws_presence_user_ids roomId w) now)
           in map_of (st_participants st1) userId \<noteq> None \<and> ok st1 \<and> room_ok st1))"

definition handle_playlist_add_url ::
  "(string \<Rightarrow> bool) \<Rightarrow> bool \<Rightarrow> limits \<Rightarrow> string \<Rightarrow> string \<Rightarrow> string \<Rightarrow> jsnum \<Rightarrow> message_context \<Rightarrow> envelope
     \<Rightarrow> world \<Rightarrow> world" where
  "handle_playlist_add_url url_ok allowed cfg uid freshId itemId now ctx data w =
     (case parse_or_nack (parse_addUrl url_ok) (mc_ws ctx) data w of
        (w1, None) \<Rightarrow> w1
      | (w1, Some sourceUrl) \<Rightarrow>
          (if \<not> allowed then send_mutation_nack (mc_ws ctx) data RateLimited w1
           else let w2 = fst (mutate_controlled_room_message cfg freshId now ctx data
                       (add_url_body cfg uid now ctx itemId sourceUrl) HSnapshot w1)
                in if body_reached (may_control ctx) (\<lambda>s. \<not> is_playlist_at_limit s (lim_playlist cfg))
                        now (mc_roomId ctx) (mc_userId ctx) w1
                   then emit (EResolve (mc_roomId ctx) itemId sourceUrl) w2 else w2))"

definition handle_playlist_add_local ::
  "(string \<Rightarrow> bool) \<Rightarrow> bool \<Rightarrow> limits \<Rightarrow> string \<Rightarrow> string \<Rightarrow> string \<Rightarrow> jsnum \<Rightarrow> message_context \<Rightarrow> envelope
     \<Rightarrow> world \<Rightarrow> world" where
  "handle_playlist_add_local uuid_ok registered cfg uid freshId itemId now ctx data w =
     (case parse_or_nack (parse_addLocal uuid_ok) (mc_ws ctx) data w of
        (w1, None) \<Rightarrow> w1
      | (w1, Some a) \<Rightarrow>
          (if \<not> is_progressive_media_mime (Some (al_mimeType a)) then w1
           else if \<not> registered then w1
           else fst (mutate_controlled_room_message cfg freshId now ctx data
                  (add_local_body cfg uid now ctx itemId a) HControlSnapshot
                  (emit (ERegisterLocalMedia (mc_roomId ctx) (mc_userId ctx) (al_localMediaId a)) w1))))"

definition handle_playlist_retry ::
  "bool \<Rightarrow> message_context \<Rightarrow> envelope \<Rightarrow> world \<Rightarrow> world" where
  "handle_playlist_retry allowed ctx data w =
     (case parse_or_nack parse_retry (mc_ws ctx) data w of
        (w1, None) \<Rightarrow> w1
      | (w1, Some itemId) \<Rightarrow>
          (if \<not> allowed then send_mutation_nack (mc_ws ctx) data RateLimited w1
           else case get_room (mc_roomId ctx) w1 of
               None \<Rightarrow> w1
             | Some st \<Rightarrow>
                 if \<not> may_control ctx st then send_mutation_nack (mc_ws ctx) data Unauthorized w1
                 else (case find (\<lambda>it. pi_id it = itemId) (st_playlist st) of
                         None \<Rightarrow> w1
                       | Some it \<Rightarrow>
                           if can_retry_remote_playlist_item (Some it)
                           then emit (EResolve (mc_roomId ctx) itemId (pi_sourceUrl it)) w1 else w1)))"

definition handle_playlist_item_error ::
  "limits \<Rightarrow> string \<Rightarrow> string \<Rightarrow> jsnum \<Rightarrow> message_context \<Rightarrow> envelope \<Rightarrow> world \<Rightarrow> world" where
  "handle_playlist_item_error cfg uid freshId now ctx data w =
     (case parse_or_nack parse_itemError (mc_ws ctx) data w of
        (w1, None) \<Rightarrow> w1
      | (w1, Some (itemId, err)) \<Rightarrow>
          fst (mutate_controlled_room_message cfg freshId now ctx data
                 (item_error_body cfg uid now ctx itemId err) HControlSnapshot w1))"

text \<open>Duration and title reports come from any member: no control gate.\<close>

definition handle_playlist_item_duration ::
  "limits \<Rightarrow> string \<Rightarrow> jsnum \<Rightarrow> message_context \<Rightarrow> envelope \<Rightarrow> world \<Rightarrow> world" where
  "handle_playlist_item_duration cfg freshId now ctx data w =
     (case parse_or_nack parse_itemDuration (mc_ws ctx) data w of
        (w1, None) \<Rightarrow> w1
      | (w1, Some (itemId, d)) \<Rightarrow>
          fst (mutate_room_message cfg freshId now (mc_roomId ctx) (mc_userId ctx)
                 (item_duration_body itemId d) HSnapshot w1))"

definition handle_playlist_item_title ::
  "limits \<Rightarrow> string \<Rightarrow> jsnum \<Rightarrow> message_context \<Rightarrow> envelope \<Rightarrow> world \<Rightarrow> world" where
  "handle_playlist_item_title cfg freshId now ctx data w =
     (case parse_or_nack parse_itemTitle (mc_ws ctx) data w of
        (w1, None) \<Rightarrow> w1
      | (w1, Some (itemId, name)) \<Rightarrow>
          fst (mutate_room_message cfg freshId now (mc_roomId ctx) (mc_userId ctx)
                 (item_title_body itemId name) HSnapshot w1))"

definition handle_playlist_reorder ::
  "limits \<Rightarrow> string \<Rightarrow> string \<Rightarrow> jsnum \<Rightarrow> message_context \<Rightarrow> envelope \<Rightarrow> world \<Rightarrow> world" where
  "handle_playlist_reorder cfg uid freshId now ctx data w =
     (case parse_or_nack parse_reorder (mc_ws ctx) data w of
        (w1, None) \<Rightarrow> w1
      | (w1, Some (i, j)) \<Rightarrow>
          fst (mutate_controlled_room_message cfg freshId now ctx data
                 (reorder_body cfg uid now ctx i j) HSnapshot w1))"

definition handle_playlist_rename ::
  "limits \<Rightarrow> string \<Rightarrow> string \<Rightarrow> jsnum \<Rightarrow> message_context \<Rightarrow> envelope \<Rightarrow> world \<Rightarrow> world" where
  "handle_playlist_rename cfg uid freshId now ctx data w =
     (case parse_or_nack parse_rename (mc_ws ctx) data w of
        (w1, None) \<Rightarrow> w1
      | (w1, Some (itemId, name)) \<Rightarrow>
          fst (mutate_controlled_room_message cfg freshId now ctx data
                 (rename_body cfg uid now ctx itemId name) HSnapshot w1))"

definition handle_playlist_remove ::
  "limits \<Rightarrow> string \<Rightarrow> string \<Rightarrow> jsnum \<Rightarrow> message_context \<Rightarrow> envelope \<Rightarrow> world \<Rightarrow> world" where
  "handle_playlist_remove cfg uid freshId now ctx data w =
     (case parse_or_nack parse_remove (mc_ws ctx) data w of
        (w1, None) \<Rightarrow> w1
      | (w1, Some itemId) \<Rightarrow>
          fst (mutate_controlled_room_message cfg freshId now ctx data
                 (remove_body cfg uid now ctx itemId) HSnapshot w1))"

section \<open>The bodies meet the contract\<close>

lemma playlist_op_frame:
  "st_participants (fst (apply_playlist_select st i now)) = st_participants st"
  "st_ownerId (fst (apply_playlist_select st i now)) = st_ownerId st"
  "st_participants (fst (apply_playlist_reorder st a b)) = st_participants st"
  "st_ownerId (fst (apply_playlist_reorder st a b)) = st_ownerId st"
  "st_participants (fst (apply_playlist_rename st j n)) = st_participants st"
  "st_ownerId (fst (apply_playlist_rename st j n)) = st_ownerId st"
  "st_participants (fst (apply_playlist_item_error st j e now)) = st_participants st"
  "st_ownerId (fst (apply_playlist_item_error st j e now)) = st_ownerId st"
  "st_participants (fst (apply_playlist_item_duration st j d)) = st_participants st"
  "st_ownerId (fst (apply_playlist_item_duration st j d)) = st_ownerId st"
  "st_participants (fst (apply_playlist_item_title st j n)) = st_participants st"
  "st_ownerId (fst (apply_playlist_item_title st j n)) = st_ownerId st"
  "st_ownerId (fst (apply_playlist_remove st j now)) = st_ownerId st"
  by (simp_all add: playlist_op_defs Let_def update_item_def prune_viewer_media_item_id_def split: option.split)

lemma op_frameD:
  "apply_playlist_select st i now = (x, r1) \<Longrightarrow> st_participants x = st_participants st \<and> st_ownerId x = st_ownerId st"
  "apply_playlist_reorder st a b = (x, r2) \<Longrightarrow> st_participants x = st_participants st \<and> st_ownerId x = st_ownerId st"
  "apply_playlist_rename st j n = (x, r3) \<Longrightarrow> st_participants x = st_participants st \<and> st_ownerId x = st_ownerId st"
  "apply_playlist_item_error st j e now = (x, r4) \<Longrightarrow> st_participants x = st_participants st \<and> st_ownerId x = st_ownerId st"
  "apply_playlist_item_duration st j d = (x, r5) \<Longrightarrow> st_participants x = st_participants st \<and> st_ownerId x = st_ownerId st"
  "apply_playlist_item_title st j n = (x, r6) \<Longrightarrow> st_participants x = st_participants st \<and> st_ownerId x = st_ownerId st"
  using playlist_op_frame [of st] by (metis fst_conv)+

lemma wf_ids: "playlist_wf st \<Longrightarrow> ids_ok (st_playlist st)"
  by (simp add: playlist_wf_def)

lemma prune_viewer_role [simp]:
  "pt_userId (prune_viewer_media i p) = pt_userId p" "pt_role (prune_viewer_media i p) = pt_role p"
  by (simp_all add: prune_viewer_media_def Let_def split: option.split)

lemma remove_participants:
  "st_participants (fst (apply_playlist_remove st i now)) = st_participants st
   \<or> (\<exists>j. st_participants (fst (apply_playlist_remove st i now)) = map_vals (prune_viewer_media j) (st_participants st))"
  by (auto simp: apply_playlist_remove_def Let_def prune_viewer_media_item_id_def split: option.split)

lemmas op_splits = prod.splits option.splits if_splits

interpretation select: room_body "select_body cfg uid now ctx i" any_playlist for cfg uid now ctx i
  by (rule room_body_op [where op = "\<lambda>st. fst (apply_playlist_select st (int i) now)"])
     (auto simp: select_body_def split: op_splits dest: op_frameD intro: wf_ids select_wf)

interpretation item_error: room_body "item_error_body cfg uid now ctx i e" any_playlist for cfg uid now ctx i e
  by (rule room_body_op [where op = "\<lambda>st. fst (apply_playlist_item_error st i e now)"])
     (auto simp: item_error_body_def split: op_splits dest: op_frameD intro: wf_ids item_error_wf)

interpretation item_duration: room_body "item_duration_body i d" any_playlist for i d
  by (rule room_body_op [where op = "\<lambda>st. fst (apply_playlist_item_duration st i d)"])
     (auto simp: item_duration_body_def split: op_splits dest: op_frameD intro: wf_ids duration_wf)

interpretation item_title: room_body "item_title_body i n" any_playlist for i n
  by (rule room_body_op [where op = "\<lambda>st. fst (apply_playlist_item_title st i n)"])
     (auto simp: item_title_body_def split: op_splits dest: op_frameD intro: wf_ids title_wf)

interpretation reorder: room_body "reorder_body cfg uid now ctx i j" any_playlist for cfg uid now ctx i j
  by (rule room_body_op [where op = "\<lambda>st. fst (apply_playlist_reorder st (int i) (int j))"])
     (auto simp: reorder_body_def split: op_splits dest: op_frameD intro: wf_ids reorder_wf)

interpretation rename: room_body "rename_body cfg uid now ctx i n" any_playlist for cfg uid now ctx i n
  by (rule room_body_op [where op = "\<lambda>st. fst (apply_playlist_rename st i n)"])
     (auto simp: rename_body_def split: op_splits dest: op_frameD intro: wf_ids rename_wf)

text \<open>Adding needs an id that is new to the playlist, which a random UUID is.\<close>

definition fresh_id :: "string \<Rightarrow> playlist_item list \<Rightarrow> bool" where
  "fresh_id i pl = (i \<noteq> [] \<and> i \<notin> pi_id ` set pl)"

interpretation add_url: room_body "add_url_body cfg uid now ctx i u" "fresh_id i" for cfg uid now ctx i u
  by (rule room_bodyI)
     (auto simp: add_url_body_def Let_def ids_ok_append fresh_id_def build_remote_url_playlist_item_def
       split: if_splits)

interpretation add_local: room_body "add_local_body cfg uid now ctx i a" "fresh_id i" for cfg uid now ctx i a
  by (rule room_bodyI)
     (auto simp: add_local_body_def Let_def ids_ok_append ids_ok_def fresh_id_def build_local_file_playlist_item_def
       split: if_splits)

text \<open>Removing also prunes every participant's preferences for the item; keys and roles stay.\<close>

interpretation remove: room_body "remove_body cfg uid now ctx i" any_playlist for cfg uid now ctx i
proof
  fix st p st' assume "remove_body cfg uid now ctx i st p = Some st'"
  then have eq: "st_playlist st' = st_playlist (fst (apply_playlist_remove st i now))"
    "st_participants st' = st_participants (fst (apply_playlist_remove st i now))"
    "st_ownerId st' = st_ownerId st"
    using playlist_op_frame(13) [of st i now] by (auto simp: remove_body_def split: op_splits)
  show "st_ownerId st' = st_ownerId st" by (rule eq(3))
  show "ids_ok (st_playlist st')" if "ids_ok (st_playlist st)" "index_ok st"
    unfolding eq(1) using that by (intro wf_ids remove_wf) (simp add: playlist_wf_def)
  show "keyed (st_participants st')" if "keyed (st_participants st)"
    unfolding eq(2) using remove_participants [of st i now] that by (auto intro!: keyed_map_vals)
  show "owner_unique st'" if "owner_unique st"
  proof (rule owner_unique_cong [OF that eq(3)])
    fix k q assume "(k, q) \<in> set (st_participants st')"
    then show "\<exists>q'. (k, q') \<in> set (st_participants st) \<and> pt_role q' = pt_role q"
      using remove_participants [of st i now] by (fastforce simp: eq(2) elim!: vals_map_valsE)
  qed
qed

section \<open>Every playlist handler keeps the world well formed\<close>

text \<open>The new item id is not in use in the room the message is for.\<close>

definition fresh_in_room :: "string \<Rightarrow> string \<Rightarrow> world \<Rightarrow> bool" where
  "fresh_in_room i roomId w =
     (case get_room roomId w of None \<Rightarrow> True | Some st \<Rightarrow> fresh_id i (st_playlist st))"

lemma parsed_ungated_wf:
  assumes "world_wf cfg w" "\<And>x. room_body (body x) any_playlist"
  shows "world_wf cfg (case parse_or_nack parse ws data w of (w1, None) \<Rightarrow> w1
     | (w1, Some x) \<Rightarrow> fst (mutate_room_message cfg freshId now roomId userId (body x) hint w1))"
proof (cases "parse_or_nack parse ws data w")
  case (Pair w1 o1)
  have w1: "world_wf cfg w1" using assms(1) world_wf_cong [OF parse_or_nack_rooms, of cfg parse ws data w] Pair by simp
  then show ?thesis using mutate_world_wf [OF assms(2) w1] Pair by (simp split: option.split)
qed

lemma world_wf_emit [simp]: "world_wf cfg (emit e w) = world_wf cfg w"
  by (rule world_wf_cong) simp

lemma world_wf_nack [simp]: "world_wf cfg (send_mutation_nack ws d c w) = world_wf cfg w"
  by (rule world_wf_cong) simp

lemma world_wf_parse: "world_wf cfg w \<Longrightarrow> parse_or_nack parse ws data w = (w1, r) \<Longrightarrow> world_wf cfg w1"
  using world_wf_cong [OF parse_or_nack_rooms, of cfg parse ws data w] by simp

lemma fresh_parse: "parse_or_nack parse ws data w = (w1, r) \<Longrightarrow> get_room roomId w1 = get_room roomId w"
  using get_room_cong [OF parse_or_nack_rooms, where r = roomId] by (metis fst_conv)

lemma add_url_wf [wf_intros]:
  assumes "world_wf cfg w" "fresh_in_room itemId (mc_roomId ctx) w"
  shows "world_wf cfg (handle_playlist_add_url url_ok allowed cfg uid freshId itemId now ctx data w)"
proof (cases "parse_or_nack (parse_addUrl url_ok) (mc_ws ctx) data w")
  case (Pair w1 r)
  have w1: "world_wf cfg w1" by (rule world_wf_parse [OF assms(1) Pair])
  have "fresh_id itemId (st_playlist st)" if "get_room (mc_roomId ctx) w1 = Some st" for st
    using assms(2) that fresh_parse [OF Pair] by (simp add: fresh_in_room_def)
  then show ?thesis
    using w1 mutate_gated_wf [OF add_url.room_body_axioms w1]
    by (simp add: handle_playlist_add_url_def Let_def Pair mutate_controlled_room_message_def split: option.split)
qed

lemma add_local_wf [wf_intros]:
  assumes "world_wf cfg w" "fresh_in_room itemId (mc_roomId ctx) w"
  shows "world_wf cfg (handle_playlist_add_local uuid_ok registered cfg uid freshId itemId now ctx data w)"
proof (cases "parse_or_nack (parse_addLocal uuid_ok) (mc_ws ctx) data w")
  case (Pair w1 r)
  have w1: "world_wf cfg w1" by (rule world_wf_parse [OF assms(1) Pair])
  have "fresh_id itemId (st_playlist st)" if "get_room (mc_roomId ctx) (emit e w1) = Some st" for st e
    using assms(2) that fresh_parse [OF Pair] by (simp add: fresh_in_room_def)
  then show ?thesis
    using w1 mutate_gated_wf [OF add_local.room_body_axioms, of cfg "emit e w1" for e]
    by (simp add: handle_playlist_add_local_def Pair mutate_controlled_room_message_def split: option.split)
qed

lemma retry_wf [wf_intros]: "world_wf cfg w \<Longrightarrow> world_wf cfg (handle_playlist_retry allowed ctx data w)"
  by (auto simp: handle_playlist_retry_def split: prod.split option.split dest: world_wf_parse)

lemma playlist_handlers_wf [wf_intros]:
  assumes "world_wf cfg w"
  shows "world_wf cfg (handle_playlist_select cfg uid freshId now ctx data w)"
    "world_wf cfg (handle_playlist_remove cfg uid freshId now ctx data w)"
    "world_wf cfg (handle_playlist_item_error cfg uid freshId now ctx data w)"
    "world_wf cfg (handle_playlist_reorder cfg uid freshId now ctx data w)"
    "world_wf cfg (handle_playlist_rename cfg uid freshId now ctx data w)"
proof -
  have pair: "room_body (case x of (a, b) \<Rightarrow> f a b) any_playlist" if "\<And>a b. room_body (f a b) any_playlist"
    for x :: "'x \<times> 'y" and f using that by (cases x) simp
  show "world_wf cfg (handle_playlist_select cfg uid freshId now ctx data w)"
    "world_wf cfg (handle_playlist_remove cfg uid freshId now ctx data w)"
    unfolding handle_playlist_select_def handle_playlist_remove_def mutate_controlled_room_message_def
    by (rule parsed_handler_wf [OF assms], rule select.room_body_axioms remove.room_body_axioms, simp)+
  have fold_pair: "(case r of None \<Rightarrow> a | Some (x, y) \<Rightarrow> fst (mutate_gated ok cfg freshId now ctx data (f x y) h w1))
      = (case r of None \<Rightarrow> a | Some z \<Rightarrow> fst (mutate_gated ok cfg freshId now ctx data (case z of (x, y) \<Rightarrow> f x y) h w1))"
    for r :: "('x \<times> 'y) option" and a ok f h w1
    by (auto split: option.split prod.split)
  show "world_wf cfg (handle_playlist_item_error cfg uid freshId now ctx data w)"
    "world_wf cfg (handle_playlist_reorder cfg uid freshId now ctx data w)"
    "world_wf cfg (handle_playlist_rename cfg uid freshId now ctx data w)"
    unfolding handle_playlist_item_error_def handle_playlist_reorder_def handle_playlist_rename_def
      mutate_controlled_room_message_def fold_pair
    by (rule parsed_handler_wf [OF assms pair], rule item_error.room_body_axioms reorder.room_body_axioms
        rename.room_body_axioms, simp)+
qed

lemma observation_handlers_wf [wf_intros]:
  assumes "world_wf cfg w"
  shows "world_wf cfg (handle_playlist_item_duration cfg freshId now ctx data w)"
    "world_wf cfg (handle_playlist_item_title cfg freshId now ctx data w)"
proof -
  have dur: "world_wf cfg (fst (mutate_room_message cfg freshId now r u (item_duration_body i d) h w1))"
    and tit: "world_wf cfg (fst (mutate_room_message cfg freshId now r u (item_title_body i n) h w1))"
    if "world_wf cfg w1" for r u i d n h w1
    using mutate_world_wf [OF item_duration.room_body_axioms that]
      mutate_world_wf [OF item_title.room_body_axioms that] by simp_all
  show "world_wf cfg (handle_playlist_item_duration cfg freshId now ctx data w)"
    "world_wf cfg (handle_playlist_item_title cfg freshId now ctx data w)"
    using assms by (auto simp: handle_playlist_item_duration_def handle_playlist_item_title_def
        split: prod.split option.split dest: world_wf_parse intro!: dur tit)
qed

end
