(* ===== verification/Local_Playback.thy ===== *)
theory Local_Playback
  imports Presence "HOL-Library.Product_Lexorder"
begin

text \<open>
  The playback reports of a user's connections and their aggregate
  (\<open>src/src/server/realtime/services/local-playback-presence.ts\<close> and
  \<open>local-playback-report-lifecycle.ts\<close>).
\<close>

section \<open>The code\<close>

definition local_playback_report_stale_ms :: jsnum where "local_playback_report_stale_ms = 15000"

fun session_priority :: "session_kind \<Rightarrow> int" where
  "session_priority SPlayer = 3"
| "session_priority SRoom = 2"
| "session_priority SEmbed = 2"
| "session_priority SControl = 1"

definition prune_local_playback_reports :: "playback_reports \<Rightarrow> jsnum \<Rightarrow> playback_reports" where
  "prune_local_playback_reports reports now =
     filter (\<lambda>(c, r). now - lr_updatedAt r \<le> local_playback_report_stale_ms) reports"

text \<open>
  The comparator of the code orders by ready first, then session priority, then recency;
  \<open>Array.sort\<close> is stable, so sorting by it is a stable sort by this key.
\<close>

definition report_key :: "local_playback_report \<Rightarrow> nat \<times> int \<times> real" where
  "report_key r = (if lr_loading r then 1 else 0, - session_priority (lr_sessionKind r), - lr_updatedAt r)"

definition aggregate_local_playback_reports :: "playback_reports \<Rightarrow> jsnum \<Rightarrow> local_playback option" where
  "aggregate_local_playback_reports reports now =
     (let fresh = map snd (prune_local_playback_reports reports now) in
      case sort_key report_key fresh of
        [] \<Rightarrow> None
      | primary # rest \<Rightarrow>
          Some \<lparr>lp_paused = lr_paused primary, lp_currentTimeMs = lr_currentTimeMs primary,
            lp_loading = list_all lr_loading fresh, lp_error = lr_error primary,
            lp_updatedAt = Max (set (map lr_updatedAt fresh))\<rparr>)"

definition client_presence_patch :: "presence_patch \<Rightarrow> presence_patch" where
  "client_presence_patch patch =
     (if pp_localPlaybackReports patch = None then patch else patch\<lparr>pp_localPlaybackReports := None\<rparr>)"

definition upsert_local_playback_report ::
  "playback_reports \<Rightarrow> string \<Rightarrow> session_kind \<Rightarrow> local_playback \<Rightarrow> playback_reports" where
  "upsert_local_playback_report reports connectionId sessionKind snapshot =
     prune_local_playback_reports
       (AList.update connectionId
          \<lparr>lr_sessionKind = sessionKind, lr_paused = lp_paused snapshot,
            lr_currentTimeMs = lp_currentTimeMs snapshot, lr_loading = lp_loading snapshot,
            lr_error = lp_error snapshot, lr_updatedAt = lp_updatedAt snapshot\<rparr> reports)
       (lp_updatedAt snapshot)"

definition remove_local_playback_report :: "playback_reports \<Rightarrow> string \<Rightarrow> jsnum \<Rightarrow> playback_reports" where
  "remove_local_playback_report reports connectionId now =
     (if map_of reports connectionId = None then prune_local_playback_reports reports now
      else prune_local_playback_reports (AList.delete connectionId reports) now)"

text \<open>
  A closing connection takes its report with it; when it was the last fresh one the stored slot
  stays.
\<close>

definition clear_connection_local_playback_report ::
  "jsnum \<Rightarrow> string \<Rightarrow> string \<Rightarrow> string \<Rightarrow> world \<Rightarrow> world" where
  "clear_connection_local_playback_report now roomId userId connectionId w =
     (case map_of (presence_data_all roomId w) userId of
        None \<Rightarrow> w
      | Some existing \<Rightarrow>
          (case pp_localPlaybackReports existing of
             None \<Rightarrow> w
           | Some reports \<Rightarrow>
               if map_of reports connectionId = None then w
               else let nextReports = remove_local_playback_report reports connectionId now;
                        aggregated = or_else (aggregate_local_playback_reports nextReports now)
                                       (pp_localPlayback existing);
                        patch = existing\<lparr>pp_lastSeenAt := Some now, pp_localPlayback := aggregated,
                                  pp_localPlaybackReports := Some nextReports\<rparr>
                    in emit (EPresenceDirty roomId userId (client_presence_patch patch))
                         (merge_presence_data roomId userId patch w)))"

section \<open>Lemmas\<close>

lemma prune_reports_idem [simp]:
  "prune_local_playback_reports (prune_local_playback_reports rs now) now = prune_local_playback_reports rs now"
  by (simp add: prune_local_playback_reports_def)

lemma prune_reports_map_of:
  assumes "distinct (keys_of rs)"
  shows "map_of (prune_local_playback_reports rs now) c =
    (case map_of rs c of Some r \<Rightarrow> if now - lr_updatedAt r \<le> 15000 then Some r else None | None \<Rightarrow> None)"
  using assms
proof (induction rs)
  case (Cons e rs)
  obtain k r where e: "e = (k, r)" by (cases e)
  from Cons e have "k \<notin> fst ` set rs" and d: "distinct (keys_of rs)" by auto
  then have "map_of rs k = None" by (simp add: map_of_eq_None_iff)
  with Cons.IH [OF d] e show ?case
    by (auto simp: prune_local_playback_reports_def local_playback_report_stale_ms_def split: option.split)
qed (simp add: prune_local_playback_reports_def)

lemma distinct_prune_reports: "distinct (keys_of rs) \<Longrightarrow> distinct (keys_of (prune_local_playback_reports rs now))"
  unfolding prune_local_playback_reports_def by (rule distinct_map_filter)

lemma aggregate_None:
  "aggregate_local_playback_reports rs now = None \<longleftrightarrow> prune_local_playback_reports rs now = []"
proof -
  have "sort_key report_key (map snd (prune_local_playback_reports rs now)) = []
      \<longleftrightarrow> prune_local_playback_reports rs now = []"
    by (metis Nil_is_map_conv length_0_conv length_sort)
  then show ?thesis
    by (auto simp: aggregate_local_playback_reports_def Let_def split: list.split)
qed

text \<open>The head of a stable sort is a least element.\<close>

lemma sort_key_head:
  assumes "sort_key f xs = y # ys"
  shows "y \<in> set xs \<and> (\<forall>x\<in>set xs. f y \<le> f x)"
proof -
  have s: "set (y # ys) = set xs" using assms by (metis set_sort)
  have "sorted (map f (y # ys))" using assms by (metis sorted_sort_key)
  then have "\<forall>x\<in>set ys. f y \<le> f x" by simp
  with s show ?thesis by auto
qed

section \<open>Properties\<close>

text \<open>
  The aggregate of a user's reports ignores reports older than fifteen seconds; it says
  loading only when every fresh connection is loading; its clock, pause flag and error come from
  one fresh report, a ready one when there is any, and among those one of the highest session
  priority, the newest first; its stamp is the newest of all.
\<close>

theorem aggregate_picks_ready_reporter:
  assumes "aggregate_local_playback_reports rs now = Some lp"
  shows "aggregate_local_playback_reports (prune_local_playback_reports rs now) now = Some lp
    \<and> (lp_loading lp \<longleftrightarrow> (\<forall>r\<in>snd ` set (prune_local_playback_reports rs now). lr_loading r))
    \<and> (\<forall>r\<in>snd ` set (prune_local_playback_reports rs now). lr_updatedAt r \<le> lp_updatedAt lp)
    \<and> (\<exists>p\<in>snd ` set (prune_local_playback_reports rs now).
         lp_paused lp = lr_paused p \<and> lp_currentTimeMs lp = lr_currentTimeMs p \<and> lp_error lp = lr_error p
         \<and> lr_loading p = lp_loading lp
         \<and> (\<forall>r\<in>snd ` set (prune_local_playback_reports rs now). lr_loading r = lp_loading lp \<longrightarrow>
              session_priority (lr_sessionKind r) \<le> session_priority (lr_sessionKind p)
              \<and> (session_priority (lr_sessionKind r) = session_priority (lr_sessionKind p) \<longrightarrow>
                  lr_updatedAt r \<le> lr_updatedAt p)))"
proof -
  let ?fresh = "map snd (prune_local_playback_reports rs now)"
  obtain p ps where sorted: "sort_key report_key ?fresh = p # ps"
    and lp: "lp = \<lparr>lp_paused = lr_paused p, lp_currentTimeMs = lr_currentTimeMs p,
        lp_loading = list_all lr_loading ?fresh, lp_error = lr_error p,
        lp_updatedAt = Max (set (map lr_updatedAt ?fresh))\<rparr>"
    using assms by (auto simp: aggregate_local_playback_reports_def Let_def split: list.splits)
  from sort_key_head [OF sorted] have p: "p \<in> set ?fresh" and least: "\<forall>r\<in>set ?fresh. report_key p \<le> report_key r"
    by blast+
  have set_eq: "set ?fresh = snd ` set (prune_local_playback_reports rs now)" by simp
  have load: "lr_loading p = lp_loading lp"
    using least p by (auto simp: lp list_all_iff report_key_def split: if_splits)
  have max: "lr_updatedAt r \<le> lp_updatedAt lp" if "r \<in> set ?fresh" for r
    using that by (auto simp: lp intro!: Max_ge)
  have ord: "session_priority (lr_sessionKind r) \<le> session_priority (lr_sessionKind p)
      \<and> (session_priority (lr_sessionKind r) = session_priority (lr_sessionKind p) \<longrightarrow>
          lr_updatedAt r \<le> lr_updatedAt p)"
    if "r \<in> set ?fresh" "lr_loading r = lp_loading lp" for r
    using bspec [OF least that(1)] that(2) load by (auto simp: report_key_def less_prod_def split: if_splits)
  show ?thesis
    unfolding set_eq [symmetric]
  proof (intro conjI)
    show "aggregate_local_playback_reports (prune_local_playback_reports rs now) now = Some lp"
      using assms by (simp add: aggregate_local_playback_reports_def)
    show "lp_loading lp \<longleftrightarrow> (\<forall>r\<in>set ?fresh. lr_loading r)" by (simp add: lp list_all_iff)
    show "\<forall>r\<in>set ?fresh. lr_updatedAt r \<le> lp_updatedAt lp" using max by blast
    show "\<exists>p\<in>set ?fresh. lp_paused lp = lr_paused p \<and> lp_currentTimeMs lp = lr_currentTimeMs p \<and> lp_error lp = lr_error p
         \<and> lr_loading p = lp_loading lp
         \<and> (\<forall>r\<in>set ?fresh. lr_loading r = lp_loading lp \<longrightarrow>
              session_priority (lr_sessionKind r) \<le> session_priority (lr_sessionKind p)
              \<and> (session_priority (lr_sessionKind r) = session_priority (lr_sessionKind p) \<longrightarrow>
                  lr_updatedAt r \<le> lr_updatedAt p))"
      using p load ord by (intro bexI [OF _ p]) (simp add: lp)
  qed
qed

definition sample_report :: "session_kind \<Rightarrow> bool \<Rightarrow> jsnum \<Rightarrow> local_playback_report" where
  "sample_report k l t = \<lparr>lr_sessionKind = k, lr_paused = l, lr_currentTimeMs = t, lr_loading = l,
     lr_error = None, lr_updatedAt = 1000\<rparr>"

theorem aggregate_picks_ready_reporter_witness:
  "map_option lp_loading (aggregate_local_playback_reports
     [(''a'', sample_report SPlayer True 5), (''b'', sample_report SControl False 7)] 2000) = Some False"
proof -
  let ?rs = "[(''a'', sample_report SPlayer True 5), (''b'', sample_report SControl False 7)]"
  have fresh: "prune_local_playback_reports ?rs 2000 = ?rs"
    by (simp add: prune_local_playback_reports_def local_playback_report_stale_ms_def sample_report_def)
  then obtain lp where lp: "aggregate_local_playback_reports ?rs 2000 = Some lp"
    using aggregate_None [of ?rs 2000] by auto
  have "lp_loading lp \<longleftrightarrow> (\<forall>r\<in>snd ` set ?rs. lr_loading r)"
    using aggregate_picks_ready_reporter [OF lp] unfolding fresh by blast
  then show ?thesis unfolding lp by (simp add: sample_report_def)
qed

text \<open>
  A connection's report is the one it sent last, reports of other connections are kept while
  fresh and dropped otherwise, and a removed connection leaves no trace.
\<close>

theorem upsert_remove_reports:
  assumes "distinct (keys_of rs)"
  shows "map_of (upsert_local_playback_report rs c k lp) c' =
      (if c' = c then Some \<lparr>lr_sessionKind = k, lr_paused = lp_paused lp, lr_currentTimeMs = lp_currentTimeMs lp,
          lr_loading = lp_loading lp, lr_error = lp_error lp, lr_updatedAt = lp_updatedAt lp\<rparr>
       else case map_of rs c' of
          Some r \<Rightarrow> if lp_updatedAt lp - lr_updatedAt r \<le> 15000 then Some r else None | None \<Rightarrow> None)
    \<and> map_of (remove_local_playback_report rs c now) c' =
      (if c' = c then None
       else case map_of rs c' of
          Some r \<Rightarrow> if now - lr_updatedAt r \<le> 15000 then Some r else None | None \<Rightarrow> None)"
proof -
  have d: "distinct (keys_of (AList.update c v rs))" "distinct (keys_of (AList.delete c rs))" for v
    using assms by (simp_all add: AList.distinct_update AList.distinct_delete)
  show ?thesis
    by (auto simp: upsert_local_playback_report_def remove_local_playback_report_def
        prune_reports_map_of [OF d(1)] prune_reports_map_of [OF d(2)] prune_reports_map_of [OF assms]
        split: option.split)
qed

theorem upsert_remove_reports_witness:
  "map_of (remove_local_playback_report [(''a'', sample_report SPlayer True 5)] ''a'' 2000) ''a'' = None"
proof -
  have d: "distinct (keys_of [(''a'', sample_report SPlayer True 5)])" by simp
  from upsert_remove_reports [OF d, where c = "''a''" and c' = "''a''" and now = 2000] show ?thesis by simp
qed

end
