(* ===== verification/Room_Handlers.thy ===== *)
theory Room_Handlers
  imports Playlist_Handlers Local_Playback
begin

text \<open>
  The remaining commands on a room: a member's own status and name, roles, password and default
  role, viewer preferences, and the seek preview
  (\<open>participant.ts\<close>, \<open>room-security.ts\<close>, \<open>viewer-media.ts\<close>, \<open>seek-preview.ts\<close> under
  \<open>src/src/server/realtime/handlers\<close>, and the fan-out of \<open>broadcast/bus-fanout.ts\<close> they use).
\<close>

section \<open>A member's own update\<close>

definition default_avatar_style :: string where "default_avatar_style = ''adventurer''"
definition avatar_styles :: "string list" where "avatar_styles = [''adventurer'', ''avataaars'', ''lorelei'']"

definition resolve_style :: "string \<Rightarrow> string" where
  "resolve_style style = (if style \<in> set avatar_styles then style else default_avatar_style)"

definition playback_time_dirty_ms :: jsnum where "playback_time_dirty_ms = 750"

text \<open>The patch's error: absent, \<open>null\<close>, or a text.\<close>

fun resolve_local_playback_error :: "string option option \<Rightarrow> string option \<Rightarrow> string option" where
  "resolve_local_playback_error (Some None) previous = None"
| "resolve_local_playback_error (Some (Some e)) previous = (if trim e = [] then None else Some (trim e))"
| "resolve_local_playback_error None previous = previous"

record resolved_update =
  ru_previousUsername :: string
  ru_previousError :: "string option"
  ru_nextUsername :: string
  ru_nextAvatarStyle :: string
  ru_localPlayback :: local_playback
  ru_identityDirty :: bool
  ru_playbackDirty :: bool

definition with_default :: "'a option \<Rightarrow> 'a \<Rightarrow> 'a" where
  "with_default v d = (case v of Some x \<Rightarrow> x | None \<Rightarrow> d)"

definition resolve_participant_update :: "jsnum \<Rightarrow> participant \<Rightarrow> participant_update \<Rightarrow> resolved_update" where
  "resolve_participant_update now p patch =
     (let previousPlayback = pt_localPlayback p;
          previousError = lp_error previousPlayback;
          nextUsername = with_default (pu_username patch) (pt_username p);
          nextAvatarStyle = resolve_style (with_default (pu_avatarStyle patch) (pt_avatarStyle p));
          nextPaused = with_default (pu_paused patch) (lp_paused previousPlayback);
          nextCurrentTimeMs = with_default (pu_currentTimeMs patch) (lp_currentTimeMs previousPlayback);
          nextLoading = with_default (pu_loading patch) (lp_loading previousPlayback);
          nextError = resolve_local_playback_error (pu_error patch) previousError;
          timeDirty = (\<bar>nextCurrentTimeMs - lp_currentTimeMs previousPlayback\<bar> \<ge> playback_time_dirty_ms)
      in \<lparr>ru_previousUsername = pt_username p, ru_previousError = previousError,
          ru_nextUsername = nextUsername, ru_nextAvatarStyle = nextAvatarStyle,
          ru_localPlayback = \<lparr>lp_paused = nextPaused, lp_currentTimeMs = nextCurrentTimeMs,
             lp_loading = nextLoading, lp_error = nextError, lp_updatedAt = now\<rparr>,
          ru_identityDirty = (nextUsername \<noteq> pt_username p \<or> nextAvatarStyle \<noteq> pt_avatarStyle p),
          ru_playbackDirty = (nextPaused \<noteq> lp_paused previousPlayback
             \<or> nextLoading \<noteq> lp_loading previousPlayback \<or> nextError \<noteq> previousError \<or> timeDirty)\<rparr>)"

definition presence_patch_from_aggregated ::
  "jsnum \<Rightarrow> string \<Rightarrow> string \<Rightarrow> local_playback \<Rightarrow> playback_reports \<Rightarrow> presence_patch" where
  "presence_patch_from_aggregated now username avatarStyle localPlayback reports =
     \<lparr>pp_connected = Some True, pp_lastSeenAt = Some now, pp_disconnectedAt = None,
       pp_username = Some username, pp_avatarStyle = Some avatarStyle,
       pp_localPlayback = Some localPlayback, pp_localPlaybackReports = Some reports\<rparr>"

text \<open>The structural part: the name, the avatar, the last known playback, and up to two log entries.\<close>

definition updated_identity :: "resolved_update \<Rightarrow> participant \<Rightarrow> participant" where
  "updated_identity update p =
     (if ru_identityDirty update
      then p\<lparr>pt_username := ru_nextUsername update, pt_avatarStyle := ru_nextAvatarStyle update\<rparr> else p)"

definition participant_update_body ::
  "limits \<Rightarrow> string \<Rightarrow> string \<Rightarrow> jsnum \<Rightarrow> message_context \<Rightarrow> participant_update \<Rightarrow> resolved_update
     \<Rightarrow> local_playback \<Rightarrow> body" where
  "participant_update_body cfg uid1 uid2 now ctx patch update aggregated st p =
     (let st1 = st\<lparr>st_participants := adjust (mc_userId ctx)
            (\<lambda>q. (updated_identity update q)\<lparr>pt_localPlayback := aggregated\<rparr>) (st_participants st)\<rparr>;
          p1 = updated_identity update p;
          st2 = (if ru_identityDirty update \<and> pt_username p1 \<noteq> ru_previousUsername update
                 then log_action cfg uid1 now ctx p1 ''participant:username''
                   [(''previousUsername'', JStr (ru_previousUsername update)),
                    (''nextUsername'', JStr (pt_username p1))] None st1
                 else st1)
      in Some (case pu_error patch of
                 Some (Some e) \<Rightarrow>
                   if ru_previousError update \<noteq> Some e
                   then log_action cfg uid2 now ctx p1 ''participant:error''
                     [(''currentTimeMs'', JNum (lp_currentTimeMs aggregated))] (Some e) st2
                   else st2
               | _ \<Rightarrow> st2))"

definition report_playback :: "local_playback_report \<Rightarrow> local_playback" where
  "report_playback r = \<lparr>lp_paused = lr_paused r, lp_currentTimeMs = lr_currentTimeMs r,
     lp_loading = lr_loading r, lp_error = lr_error r, lp_updatedAt = lr_updatedAt r\<rparr>"

definition existing_reports :: "message_context \<Rightarrow> world \<Rightarrow> playback_reports" where
  "existing_reports ctx w =
     (case Option.bind (get_presence_data (mc_roomId ctx) (mc_userId ctx) w) pp_localPlaybackReports of
        Some r \<Rightarrow> r | None \<Rightarrow> [])"

definition resolve_connection_update ::
  "jsnum \<Rightarrow> message_context \<Rightarrow> world \<Rightarrow> participant \<Rightarrow> participant_update \<Rightarrow> resolved_update" where
  "resolve_connection_update now ctx w p patch =
     resolve_participant_update now
       (p\<lparr>pt_localPlayback := (case map_of (existing_reports ctx w) (mc_connectionId ctx) of
            Some r \<Rightarrow> report_playback r | None \<Rightarrow> pt_localPlayback p)\<rparr>) patch"

text \<open>The presence part: store the connection's report, publish the aggregate.\<close>

definition publish_own_presence ::
  "jsnum \<Rightarrow> message_context \<Rightarrow> resolved_update \<Rightarrow> world \<Rightarrow> world \<times> local_playback" where
  "publish_own_presence now ctx update w =
     (if ru_playbackDirty update \<or> (\<not> ru_identityDirty update \<and> \<not> ru_playbackDirty update) then
        (let reports = upsert_local_playback_report (existing_reports ctx w) (mc_connectionId ctx)
               (mc_sessionKind ctx) (ru_localPlayback update);
             aggregated = with_default (aggregate_local_playback_reports reports now) (ru_localPlayback update);
             patch = presence_patch_from_aggregated now (ru_nextUsername update)
               (ru_nextAvatarStyle update) aggregated reports
         in (emit (EPresenceDirty (mc_roomId ctx) (mc_userId ctx) (client_presence_patch patch))
               (merge_presence_data (mc_roomId ctx) (mc_userId ctx) patch w), aggregated))
      else (w, ru_localPlayback update))"

definition handle_participant_update ::
  "limits \<Rightarrow> string \<Rightarrow> string \<Rightarrow> string \<Rightarrow> jsnum \<Rightarrow> message_context \<Rightarrow> envelope \<Rightarrow> world \<Rightarrow> world" where
  "handle_participant_update cfg uid1 uid2 freshId now ctx data w =
     (case parse_participantUpdate (env_payload data) of
        None \<Rightarrow> w
      | Some patch \<Rightarrow>
          (case Option.bind (get_room (mc_roomId ctx) w) (\<lambda>st. map_of (st_participants st) (mc_userId ctx)) of
             None \<Rightarrow> w
           | Some p \<Rightarrow>
               (let update = resolve_connection_update now ctx w p patch in
                case publish_own_presence now ctx update w of
                  (w1, aggregated) \<Rightarrow>
                    if ru_identityDirty update
                       \<or> (ru_playbackDirty update \<and> lp_error (ru_localPlayback update) \<noteq> ru_previousError update)
                    then fst (mutate_room_message cfg freshId now (mc_roomId ctx) (mc_userId ctx)
                           (participant_update_body cfg uid1 uid2 now ctx patch update aggregated) HSnapshot w1)
                    else w1)))"

section \<open>Roles\<close>

fun role_str :: "room_role \<Rightarrow> string" where
  "role_str Owner = ''owner''" | "role_str Moderator = ''moderator''" | "role_str Guest = ''guest''"

definition role_update_body ::
  "limits \<Rightarrow> string \<Rightarrow> jsnum \<Rightarrow> message_context \<Rightarrow> string \<Rightarrow> default_join_role \<Rightarrow> body" where
  "role_update_body cfg uid now ctx targetUserId role st p =
     (case map_of (st_participants st) targetUserId of
        None \<Rightarrow> None
      | Some target \<Rightarrow>
          (if pt_userId target = st_ownerId st then None
           else if pt_role target = role_of_join role then Some st
           else Some (log_action cfg uid now ctx p ''participant:role:changed''
                  [(''targetUserId'', JStr (pt_userId target)), (''targetUsername'', JStr (pt_username target)),
                   (''fromRole'', JStr (role_str (pt_role target))),
                   (''toRole'', JStr (role_str (role_of_join role)))] None
                  (st\<lparr>st_participants := adjust targetUserId (\<lambda>q. q\<lparr>pt_role := role_of_join role\<rparr>)
                        (st_participants st)\<rparr>))))"

definition refresh_capability :: "room_role \<Rightarrow> nat \<Rightarrow> world \<Rightarrow> world" where
  "refresh_capability role ws w =
     (case get_socket_meta ws w of
        None \<Rightarrow> w
      | Some meta \<Rightarrow>
          set_socket_can_control_playback ws
            (sc_canControlPlayback (compute_session_capabilities role (sm_sessionKind meta)
               (sm_isControlSession meta) (sm_controlAuthorized meta))) w)"

definition handle_participant_role_update ::
  "limits \<Rightarrow> string \<Rightarrow> string \<Rightarrow> jsnum \<Rightarrow> message_context \<Rightarrow> envelope \<Rightarrow> world \<Rightarrow> world" where
  "handle_participant_role_update cfg uid freshId now ctx data w =
     (case parse_or_nack parse_roleUpdate (mc_ws ctx) data w of
        (w1, None) \<Rightarrow> w1
      | (w1, Some (targetUserId, role)) \<Rightarrow>
          (case mutate_owner_room_message cfg freshId now ctx data
                  (role_update_body cfg uid now ctx targetUserId role) HSnapshot w1 of
             (w2, res) \<Rightarrow>
               (case Option.bind res (\<lambda>st. map_of (st_participants st) targetUserId) of
                  None \<Rightarrow> w2
                | Some target \<Rightarrow>
                    fold (refresh_capability (pt_role target))
                      (get_sockets_for_user (mc_roomId ctx) (pt_userId target) w2) w2)))"

section \<open>Password and default role\<close>

definition password_set_body ::
  "(string \<Rightarrow> string \<Rightarrow> string) \<Rightarrow> string \<Rightarrow> limits \<Rightarrow> string \<Rightarrow> jsnum \<Rightarrow> message_context \<Rightarrow> string \<Rightarrow> body" where
  "password_set_body hash salt cfg uid now ctx password st p =
     Some (log_action cfg uid now ctx p ''room:password:set''
       [(''joinPasswordEnabled'', JBool True)] None (set_join_password hash salt now st password))"

definition password_clear_body :: "limits \<Rightarrow> string \<Rightarrow> jsnum \<Rightarrow> message_context \<Rightarrow> body" where
  "password_clear_body cfg uid now ctx st p =
     (case clear_join_password now st of
        (st1, changed) \<Rightarrow>
          if \<not> changed then None
          else Some (log_action cfg uid now ctx p ''room:password:cleared''
                 [(''joinPasswordEnabled'', JBool False)] None st1))"

definition default_role_body ::
  "limits \<Rightarrow> string \<Rightarrow> jsnum \<Rightarrow> message_context \<Rightarrow> default_join_role \<Rightarrow> body" where
  "default_role_body cfg uid now ctx role st p =
     (case set_default_join_role st role of
        (st1, changed) \<Rightarrow>
          if \<not> changed then None
          else Some (log_action cfg uid now ctx p ''room:default-role:set''
                 [(''defaultJoinRole'', JStr (role_str (role_of_join role)))] None st1))"

text \<open>
  Closing a socket takes it out of the open ones; its registry entry goes when the close handler
  runs.
\<close>

definition force_rejoin_non_owners :: "string \<Rightarrow> string \<Rightarrow> world \<Rightarrow> world" where
  "force_rejoin_non_owners roomId ownerId w =
     w\<lparr>w_open := filter (\<lambda>ws. \<not> (ws \<in> set (get_sockets_for_room roomId w)
          \<and> (case get_socket_meta ws w of None \<Rightarrow> False | Some m \<Rightarrow> sm_userId m \<noteq> ownerId))) (w_open w)\<rparr>"

definition publish_admission_eviction :: "string \<Rightarrow> server_room \<Rightarrow> world \<Rightarrow> world" where
  "publish_admission_eviction roomId st w =
     force_rejoin_non_owners roomId (st_ownerId st)
       (emit (EAdmissionChanged roomId (rs_admissionVersion (st_roomSecurity st)) (st_ownerId st)
                (rs_joinPasswordEnabled (st_roomSecurity st))) w)"

definition with_owner_security_mutation ::
  "limits \<Rightarrow> string \<Rightarrow> jsnum \<Rightarrow> message_context \<Rightarrow> envelope \<Rightarrow> (json \<Rightarrow> 'p option) \<Rightarrow> ('p \<Rightarrow> body)
     \<Rightarrow> world \<Rightarrow> world \<times> server_room option" where
  "with_owner_security_mutation cfg freshId now ctx data parse body w =
     (case parse_or_nack parse (mc_ws ctx) data w of
        (w1, None) \<Rightarrow> (w1, None)
      | (w1, Some x) \<Rightarrow> mutate_owner_room_message cfg freshId now ctx data (body x) HSnapshot w1)"

definition handle_room_password_set ::
  "(string \<Rightarrow> string \<Rightarrow> string) \<Rightarrow> string \<Rightarrow> limits \<Rightarrow> string \<Rightarrow> string \<Rightarrow> jsnum \<Rightarrow> message_context
     \<Rightarrow> envelope \<Rightarrow> world \<Rightarrow> world" where
  "handle_room_password_set hash salt cfg uid freshId now ctx data w =
     (case with_owner_security_mutation cfg freshId now ctx data parse_passwordSet
             (password_set_body hash salt cfg uid now ctx) w of
        (w1, None) \<Rightarrow> w1
      | (w1, Some st) \<Rightarrow> publish_admission_eviction (mc_roomId ctx) st w1)"

definition handle_room_password_clear ::
  "limits \<Rightarrow> string \<Rightarrow> string \<Rightarrow> jsnum \<Rightarrow> message_context \<Rightarrow> envelope \<Rightarrow> world \<Rightarrow> world" where
  "handle_room_password_clear cfg uid freshId now ctx data w =
     (case with_owner_security_mutation cfg freshId now ctx data parse_passwordClear
             (\<lambda>_. password_clear_body cfg uid now ctx) w of
        (w1, None) \<Rightarrow> w1
      | (w1, Some st) \<Rightarrow> publish_admission_eviction (mc_roomId ctx) st w1)"

definition handle_room_default_role_set ::
  "limits \<Rightarrow> string \<Rightarrow> string \<Rightarrow> jsnum \<Rightarrow> message_context \<Rightarrow> envelope \<Rightarrow> world \<Rightarrow> world" where
  "handle_room_default_role_set cfg uid freshId now ctx data w =
     fst (with_owner_security_mutation cfg freshId now ctx data parse_defaultRoleSet
            (default_role_body cfg uid now ctx) w)"

section \<open>Viewer preferences\<close>

definition viewer_media_by_item_limit :: nat where "viewer_media_by_item_limit = 32"

definition cap_viewer_media_by_item_id :: "viewer_media \<Rightarrow> viewer_media" where
  "cap_viewer_media_by_item_id prefs =
     (if length prefs \<le> viewer_media_by_item_limit then prefs
      else drop (length prefs - viewer_media_by_item_limit) prefs)"

definition catalog_has_id :: "('a \<Rightarrow> string) \<Rightarrow> 'a list option \<Rightarrow> string \<Rightarrow> bool" where
  "catalog_has_id key entries i = (case entries of None \<Rightarrow> False | Some es \<Rightarrow> i \<in> key ` set es)"

definition merge_viewer_media_item_preference ::
  "playlist_item \<Rightarrow> item_preference option \<Rightarrow> viewer_media_input \<Rightarrow> item_preference option" where
  "merge_viewer_media_item_preference item previous patch =
     (let n0 = with_default previous \<lparr>ip_streamId = None, ip_textTrackId = None, ip_audioLanguage = None\<rparr> in
      if (case vi_streamId patch of Some (Some i) \<Rightarrow> \<not> catalog_has_id ms_id (pi_mediaStreams item) i | _ \<Rightarrow> False)
      then None
      else let n1 = (case vi_streamId patch of Some i \<Rightarrow> n0\<lparr>ip_streamId := i\<rparr> | None \<Rightarrow> n0) in
        if (case vi_textTrackId patch of Some (Some i) \<Rightarrow> \<not> catalog_has_id tt_id (pi_textTracks item) i | _ \<Rightarrow> False)
        then None
        else let n2 = (case vi_textTrackId patch of Some i \<Rightarrow> n1\<lparr>ip_textTrackId := Some i\<rparr> | None \<Rightarrow> n1)
          in Some (case vi_audioLanguage patch of
                     Some l \<Rightarrow> n2\<lparr>ip_audioLanguage := (if l = [] then None else Some l)\<rparr> | None \<Rightarrow> n2))"

definition apply_viewer_media_preferences ::
  "participant \<Rightarrow> playlist_item \<Rightarrow> viewer_media_input \<Rightarrow> participant option" where
  "apply_viewer_media_preferences p item patch =
     (let byItemId = with_default (pt_viewerMedia p) [] in
      case merge_viewer_media_item_preference item (map_of byItemId (vi_itemId patch)) patch of
        None \<Rightarrow> None
      | Some n \<Rightarrow> Some (p\<lparr>pt_viewerMedia :=
          Some (cap_viewer_media_by_item_id (AList.update (vi_itemId patch) n byItemId))\<rparr>))"

definition viewer_media_body :: "jsnum \<Rightarrow> message_context \<Rightarrow> viewer_media_input \<Rightarrow> body" where
  "viewer_media_body now ctx parsed st p =
     (case map_of (st_participants st) (mc_userId ctx) of
        None \<Rightarrow> None
      | Some member \<Rightarrow>
          (case find (\<lambda>it. pi_id it = vi_itemId parsed) (st_playlist st) of
             None \<Rightarrow> None
           | Some item \<Rightarrow>
               (case apply_viewer_media_preferences member item parsed of
                  None \<Rightarrow> None
                | Some member' \<Rightarrow>
                    Some (st\<lparr>st_participants := adjust (mc_userId ctx) (\<lambda>_. member') (st_participants st),
                             st_updatedAt := now\<rparr>))))"

definition handle_viewer_media_preferences ::
  "limits \<Rightarrow> string \<Rightarrow> jsnum \<Rightarrow> message_context \<Rightarrow> envelope \<Rightarrow> world \<Rightarrow> world" where
  "handle_viewer_media_preferences cfg freshId now ctx data w =
     (case parse_or_nack parse_viewerMedia (mc_ws ctx) data w of
        (w1, None) \<Rightarrow> w1
      | (w1, Some parsed) \<Rightarrow>
          fst (mutate_room_message cfg freshId now (mc_roomId ctx) (mc_userId ctx)
                 (viewer_media_body now ctx parsed) HSnapshot w1))"

section \<open>Seek preview\<close>

text \<open>
  A scrub frame goes out on the control channel and is never stored.  The hot path uses the
  control fields the bus cached; otherwise the room is read, the socket's flag and the cache are
  refreshed.
\<close>

definition preview_base ::
  "jsnum \<Rightarrow> message_context \<Rightarrow> world \<Rightarrow> world \<times> (nat \<times> int \<times> playback_state) option" where
  "preview_base now ctx w =
     (case (get_socket_meta (mc_ws ctx) w, get_cached_control_projection (mc_roomId ctx) w) of
        (Some meta, Some cached) \<Rightarrow>
          if sm_canControlPlayback meta
          then (w, Some (cj_generation cached, cj_currentIndex cached, cj_playback cached))
          else (w, None)
      | (meta, cached) \<Rightarrow>
          (if (case meta of Some m \<Rightarrow> \<not> sm_canControlPlayback m | None \<Rightarrow> False) then (w, None)
           else case get_room (mc_roomId ctx) w of
               None \<Rightarrow> (w, None)
             | Some st \<Rightarrow>
                 (let allowed = may_control ctx st;
                      w1 = (if meta = None then w else set_socket_can_control_playback (mc_ws ctx) allowed w)
                  in if \<not> allowed then (w1, None)
                     else (remember_control_projection (mc_roomId ctx)
                             \<lparr>rc_generation = st_generation st, rc_playback = st_playback st,
                               rc_currentIndex = st_currentIndex st, rc_updatedAt = now,
                               rc_serverWallNowMs = now\<rparr> w1,
                           Some (st_generation st, st_currentIndex st, st_playback st)))))"

definition handle_seek_preview :: "jsnum \<Rightarrow> message_context \<Rightarrow> envelope \<Rightarrow> world \<Rightarrow> world" where
  "handle_seek_preview now ctx data w =
     (case parse_seekPreview (env_payload data) of
        None \<Rightarrow> w
      | Some (targetMs, active) \<Rightarrow>
          (if \<not> with_default active True then w
           else case preview_base now ctx w of
               (w1, None) \<Rightarrow> w1
             | (w1, Some (generation, currentIndex, playback)) \<Rightarrow>
                 publish_control (mc_roomId ctx)
                   \<lparr>rc_generation = generation,
                     rc_playback = playback\<lparr>pb_seekPreview := Some \<lparr>sp_userId = mc_userId ctx,
                       sp_targetMs = max 0 (with_default targetMs 0), sp_active = True, sp_updatedAt = now\<rparr>\<rparr>,
                     rc_currentIndex = currentIndex, rc_updatedAt = now, rc_serverWallNowMs = now\<rparr> w1))"

section \<open>The bodies meet the contract\<close>

lemma ids_same_body:
  assumes "\<And>st p st'. body st p = Some st' \<Longrightarrow> st_playlist st' = st_playlist st \<and> st_ownerId st' = st_ownerId st"
    and "\<And>st p st'. body st p = Some st' \<Longrightarrow> keyed (st_participants st) \<Longrightarrow>
        keyed (st_participants st') \<and> (owner_unique st \<longrightarrow> owner_unique st')"
  shows "room_body body any_playlist"
  by unfold_locales (simp_all add: assms(1)
      assms(2) [THEN conjunct1] assms(2) [THEN conjunct2, THEN mp])

lemma owner_unique_adjust:
  assumes "\<And>q. (u, q) \<in> set (st_participants st) \<Longrightarrow> pt_role (f q) = pt_role q \<or> pt_role (f q) \<noteq> Owner"
    and "owner_unique st" "st_participants st' = adjust u f (st_participants st)" "st_ownerId st' = st_ownerId st"
  shows "owner_unique st'"
  unfolding owner_unique_def assms(3,4)
proof (intro ballI impI)
  fix e assume "e \<in> set (adjust u f (st_participants st))" and r: "pt_role (snd e) = Owner"
  then have "(fst e, snd e) \<in> set (adjust u f (st_participants st))" by simp
  then obtain v where v: "(fst e, v) \<in> set (st_participants st)" "snd e = (if fst e = u then f v else v)"
    by (rule vals_adjustE)
  have "pt_role v = Owner"
  proof (cases "fst e = u")
    case True
    then show ?thesis using assms(1) [of v] v r by metis
  next
    case False
    then show ?thesis using v r by simp
  qed
  then show "fst e = st_ownerId st" using assms(2) v(1) unfolding owner_unique_def by fastforce
qed

lemma updated_identity_sel [simp]:
  "pt_userId (updated_identity u p) = pt_userId p" "pt_role (updated_identity u p) = pt_role p"
  "pt_connected (updated_identity u p) = pt_connected p"
  by (simp_all add: updated_identity_def)

lemma security_op_frame [simp]:
  "st_playlist (set_join_password h s now st pw) = st_playlist st"
  "st_participants (set_join_password h s now st pw) = st_participants st"
  "st_ownerId (set_join_password h s now st pw) = st_ownerId st"
  by (simp_all add: set_join_password_def ensure_room_security_def Let_def)

lemma participant_update_body_shape:
  assumes "participant_update_body cfg u1 u2 now ctx patch upd agg st p = Some st'"
  shows "st_playlist st' = st_playlist st" "st_ownerId st' = st_ownerId st"
    "st_participants st' = adjust (mc_userId ctx)
       (\<lambda>q. (updated_identity upd q)\<lparr>pt_localPlayback := agg\<rparr>) (st_participants st)"
proof -
  have e: "st' = the (participant_update_body cfg u1 u2 now ctx patch upd agg st p)" using assms by simp
  show "st_playlist st' = st_playlist st" "st_ownerId st' = st_ownerId st"
    "st_participants st' = adjust (mc_userId ctx)
       (\<lambda>q. (updated_identity upd q)\<lparr>pt_localPlayback := agg\<rparr>) (st_participants st)"
    unfolding e participant_update_body_def Let_def option.sel
    by (cases "pu_error patch"; cases "the (pu_error patch)"; simp)+
qed

interpretation participant_update: room_body "participant_update_body cfg u1 u2 now ctx patch upd agg" any_playlist
  for cfg u1 u2 now ctx patch upd agg
proof (rule ids_same_body)
  fix st p st' assume b: "participant_update_body cfg u1 u2 now ctx patch upd agg st p = Some st'"
  note sh = participant_update_body_shape [OF b]
  show "st_playlist st' = st_playlist st \<and> st_ownerId st' = st_ownerId st" using sh by simp
  assume "keyed (st_participants st)"
  then show "keyed (st_participants st') \<and> (owner_unique st \<longrightarrow> owner_unique st')"
    using owner_unique_adjust [OF _ _ sh(3,2)] by (simp add: sh(3) keyed_adjust)
qed

lemma role_update_body_shape:
  assumes "role_update_body cfg uid now ctx t r st p = Some st'"
  shows "st_playlist st' = st_playlist st" "st_ownerId st' = st_ownerId st"
    "st_participants st' = adjust t (\<lambda>q. q\<lparr>pt_role := role_of_join r\<rparr>) (st_participants st)
     \<or> st_participants st' = st_participants st"
  using assms by (auto simp: role_update_body_def split: option.splits if_splits)

lemma role_of_join_not_owner [simp]: "role_of_join r \<noteq> Owner"
  by (cases r) simp_all

interpretation role_update: room_body "role_update_body cfg uid now ctx t r" any_playlist for cfg uid now ctx t r
proof (rule ids_same_body)
  fix st p st' assume b: "role_update_body cfg uid now ctx t r st p = Some st'"
  note sh = role_update_body_shape [OF b]
  show "st_playlist st' = st_playlist st \<and> st_ownerId st' = st_ownerId st" using sh by simp
  assume k: "keyed (st_participants st)"
  show "keyed (st_participants st') \<and> (owner_unique st \<longrightarrow> owner_unique st')"
    using sh(3)
  proof
    assume a: "st_participants st' = adjust t (\<lambda>q. q\<lparr>pt_role := role_of_join r\<rparr>) (st_participants st)"
    show ?thesis using k owner_unique_adjust [OF _ _ a sh(2)] by (simp add: a keyed_adjust)
  next
    assume "st_participants st' = st_participants st"
    with k sh(2) show ?thesis by (simp add: owner_unique_def)
  qed
qed

interpretation password_set: room_body "password_set_body h s cfg uid now ctx pw" any_playlist
  for h s cfg uid now ctx pw
  by (rule room_bodyI) (auto simp: password_set_body_def)

interpretation password_clear: room_body "password_clear_body cfg uid now ctx" any_playlist for cfg uid now ctx
  by (rule room_bodyI)
    (auto simp: password_clear_body_def clear_join_password_def ensure_room_security_def Let_def split: if_splits)

interpretation default_role: room_body "default_role_body cfg uid now ctx r" any_playlist for cfg uid now ctx r
  by (rule room_bodyI)
    (auto simp: default_role_body_def set_default_join_role_def ensure_room_security_def Let_def split: if_splits)

lemma apply_viewer_sel:
  assumes "apply_viewer_media_preferences p item patch = Some p'"
  shows "pt_userId p' = pt_userId p" "pt_role p' = pt_role p"
  using assms by (auto simp: apply_viewer_media_preferences_def Let_def split: option.splits)

lemma viewer_media_body_shape:
  assumes "viewer_media_body now ctx parsed st p = Some st'"
  obtains m m' item where "map_of (st_participants st) (mc_userId ctx) = Some m"
    "find (\<lambda>it. pi_id it = vi_itemId parsed) (st_playlist st) = Some item"
    "apply_viewer_media_preferences m item parsed = Some m'"
    "st_participants st' = adjust (mc_userId ctx) (\<lambda>_. m') (st_participants st)"
    "st_playlist st' = st_playlist st" "st_ownerId st' = st_ownerId st"
  using assms that by (auto simp: viewer_media_body_def split: option.splits)

interpretation viewer_media: room_body "viewer_media_body now ctx parsed" any_playlist for now ctx parsed
proof (rule ids_same_body)
  fix st p st' assume b: "viewer_media_body now ctx parsed st p = Some st'"
  from b obtain m m' item where sh: "map_of (st_participants st) (mc_userId ctx) = Some m"
    "apply_viewer_media_preferences m item parsed = Some m'"
    "st_participants st' = adjust (mc_userId ctx) (\<lambda>_. m') (st_participants st)"
    "st_playlist st' = st_playlist st" "st_ownerId st' = st_ownerId st"
    by (rule viewer_media_body_shape)
  show "st_playlist st' = st_playlist st \<and> st_ownerId st' = st_ownerId st" using sh by simp
  assume k: "keyed (st_participants st)"
  have u: "q = m" if "(mc_userId ctx, q) \<in> set (st_participants st)" for q
    using that sh(1) k by (auto simp: keyed_iff)
  have "keyed (st_participants st')"
    using k sh(1) apply_viewer_sel [OF sh(2)] by (auto simp: keyed_iff sh(3))
  moreover have "owner_unique st \<longrightarrow> owner_unique st'"
    using owner_unique_adjust [OF _ _ sh(3,5)] u apply_viewer_sel [OF sh(2)] by blast
  ultimately show "keyed (st_participants st') \<and> (owner_unique st \<longrightarrow> owner_unique st')" by blast
qed

section \<open>Every handler keeps the world well formed\<close>

lemma presence_rooms [simp]:
  "w_rooms (merge_presence_data r u p w) = w_rooms w"
  "w_rooms (patch_socket_meta ws f w) = w_rooms w"
  "w_rooms (set_socket_can_control_playback ws b w) = w_rooms w"
  "w_rooms (remember_control_projection r c w) = w_rooms w"
  "w_rooms (force_rejoin_non_owners r own w) = w_rooms w"
  "w_rooms (refresh_capability role ws w) = w_rooms w"
  by (simp_all add: merge_presence_data_def patch_socket_meta_def set_socket_can_control_playback_def
      remember_control_projection_def force_rejoin_non_owners_def refresh_capability_def Let_def split: option.split)

lemma publish_eviction_rooms [simp]: "w_rooms (publish_admission_eviction r st w) = w_rooms w"
  by (simp add: publish_admission_eviction_def)

lemma refresh_fold_rooms [simp]: "w_rooms (fold (refresh_capability role) xs w) = w_rooms w"
  by (induction xs arbitrary: w) simp_all

lemma publish_own_presence_rooms [simp]: "w_rooms (fst (publish_own_presence now ctx u w)) = w_rooms w"
  by (simp add: publish_own_presence_def Let_def)

lemma preview_base_rooms [simp]: "w_rooms (fst (preview_base now ctx w)) = w_rooms w"
  by (simp add: preview_base_def Let_def split: option.split)

lemma seek_preview_rooms [simp]: "w_rooms (handle_seek_preview now ctx data w) = w_rooms w"
proof (cases "preview_base now ctx w")
  case (Pair w1 r)
  then have "w_rooms w1 = w_rooms w" using preview_base_rooms [of now ctx w] by simp
  with Pair show ?thesis by (simp add: handle_seek_preview_def split: option.split prod.split)
qed

lemma participant_update_wf [wf_intros]:
  assumes "world_wf cfg w"
  shows "world_wf cfg (handle_participant_update cfg u1 u2 freshId now ctx data w)"
proof -
  have "world_wf cfg (case publish_own_presence now ctx upd w of (w1, agg) \<Rightarrow>
      if c then fst (mutate_room_message cfg freshId now r u (participant_update_body cfg u1 u2 now ctx patch upd agg) HSnapshot w1)
      else w1)" for upd patch c r u
  proof (cases "publish_own_presence now ctx upd w")
    case (Pair w1 agg)
    then have "world_wf cfg w1"
      using assms world_wf_cong [OF publish_own_presence_rooms, of cfg now ctx upd w] by simp
    with Pair show ?thesis
      using mutate_world_wf [OF participant_update.room_body_axioms] by simp
  qed
  then show ?thesis
    using assms by (simp add: handle_participant_update_def Let_def split: option.split)
qed

lemma owner_mutation_wf:
  assumes "world_wf cfg w" "\<And>x. room_body (body x) any_playlist"
  shows "world_wf cfg (fst (with_owner_security_mutation cfg freshId now ctx data parse body w))"
proof (cases "parse_or_nack parse (mc_ws ctx) data w")
  case (Pair w1 r)
  have "world_wf cfg w1" by (rule world_wf_parse [OF assms(1) Pair])
  with Pair show ?thesis
    using mutate_gated_wf [OF assms(2)]
    by (simp add: with_owner_security_mutation_def mutate_owner_room_message_def split: option.split)
qed

lemma world_wf_eviction [simp]: "world_wf cfg (publish_admission_eviction r st w) = world_wf cfg w"
  by (rule world_wf_cong) simp

lemma security_handlers_wf [wf_intros]:
  assumes "world_wf cfg w"
  shows "world_wf cfg (handle_room_password_set hash salt cfg uid freshId now ctx data w)"
    "world_wf cfg (handle_room_password_clear cfg uid freshId now ctx data w)"
    "world_wf cfg (handle_room_default_role_set cfg uid freshId now ctx data w)"
proof -
  have set: "world_wf cfg (fst (with_owner_security_mutation cfg freshId now ctx data parse_passwordSet
      (password_set_body hash salt cfg uid now ctx) w))"
    and clear: "world_wf cfg (fst (with_owner_security_mutation cfg freshId now ctx data parse_passwordClear
      (\<lambda>_. password_clear_body cfg uid now ctx) w))"
    and default: "world_wf cfg (fst (with_owner_security_mutation cfg freshId now ctx data parse_defaultRoleSet
      (default_role_body cfg uid now ctx) w))"
    by (rule owner_mutation_wf [OF assms], rule password_set.room_body_axioms password_clear.room_body_axioms
        default_role.room_body_axioms)+
  from set show "world_wf cfg (handle_room_password_set hash salt cfg uid freshId now ctx data w)"
    by (simp add: handle_room_password_set_def split_def split: option.split)
  from clear show "world_wf cfg (handle_room_password_clear cfg uid freshId now ctx data w)"
    by (simp add: handle_room_password_clear_def split_def split: option.split)
  from default show "world_wf cfg (handle_room_default_role_set cfg uid freshId now ctx data w)"
    by (simp add: handle_room_default_role_set_def)
qed

lemma role_update_wf [wf_intros]:
  assumes "world_wf cfg w"
  shows "world_wf cfg (handle_participant_role_update cfg uid freshId now ctx data w)"
proof (cases "parse_or_nack parse_roleUpdate (mc_ws ctx) data w")
  case (Pair w1 r)
  have w1: "world_wf cfg w1" by (rule world_wf_parse [OF assms Pair])
  have fold_wf: "world_wf cfg (fold (refresh_capability role) xs w2) = world_wf cfg w2" for role xs w2
    by (rule world_wf_cong) simp
  have "world_wf cfg (fst (mutate_owner_room_message cfg freshId now ctx data
      (role_update_body cfg uid now ctx t ro) HSnapshot w1))" for t ro
    unfolding mutate_owner_room_message_def
    by (rule mutate_gated_wf [OF role_update.room_body_axioms w1]) simp
  with w1 Pair show ?thesis
    by (auto simp: handle_participant_role_update_def fold_wf split_def split: option.split)
qed

lemma viewer_media_wf [wf_intros]:
  "world_wf cfg w \<Longrightarrow> world_wf cfg (handle_viewer_media_preferences cfg freshId now ctx data w)"
  unfolding handle_viewer_media_preferences_def
  by (rule parsed_ungated_wf [OF _ viewer_media.room_body_axioms])

lemma seek_preview_wf [wf_intros]: "world_wf cfg w \<Longrightarrow> world_wf cfg (handle_seek_preview now ctx data w)"
  using world_wf_cong [OF seek_preview_rooms] by blast

end
