(* ===== verification/Command_Properties.thy ===== *)
theory Command_Properties
  imports Room_Handlers
begin

text \<open>
  What an accepted command leaves in the store, read off the transaction field by field, and the
  properties of the commands in \<open>Room_Handlers\<close> that rest on it.
\<close>

section \<open>The committed room\<close>

lemma map_of_take_filter:
  assumes "distinct (keys_of al)" "map_of (take n (filter (\<lambda>(k, v). P k) al)) k = Some v"
  shows "map_of al k = Some v"
  using map_of_SomeD [OF assms(2)] assms(1) by (auto dest!: in_set_takeD)

lemma repair_security_field:
  "security_wf (st_roomSecurity st) \<Longrightarrow>
     st_roomSecurity (fst (apply_room_state_repair cfg fid now st)) = st_roomSecurity st"
  by (simp add: apply_room_state_repair_def Let_def apply_repair_frame)

definition stamp_present :: "jsnum \<Rightarrow> participant \<Rightarrow> participant" where
  "stamp_present now p = p\<lparr>pt_connected := True, pt_lastSeenAt := Some now, pt_disconnectedAt := None\<rparr>"

lemma stamp_present_sel [simp]:
  "pt_userId (stamp_present now p) = pt_userId p" "pt_role (stamp_present now p) = pt_role p"
  "pt_viewerMedia (stamp_present now p) = pt_viewerMedia p"
  "pt_username (stamp_present now p) = pt_username p"
  by (simp_all add: stamp_present_def)

lemma repair_joined_at_viewer [simp]: "pt_viewerMedia (fst (repair_joined_at now p)) = pt_viewerMedia p"
  by (simp add: repair_joined_at_def)

lemma commit_fields:
  assumes "mutate_commit cfg fid now active userId body hint (Some st) = Some st'"
    and "map_of (st_participants (fst (reconcile_participants_connectivity st active now))) userId = Some p"
    and "body (fst (reconcile_participants_connectivity st active now)) p = Some st2"
  shows "st_participants st' = adjust userId (stamp_present now)
      (st_participants (fst (apply_room_state_repair cfg fid now st2)))"
    and "st_roomSecurity st' = st_roomSecurity (fst (apply_room_state_repair cfg fid now st2))"
    and "st_ownerId st' = st_ownerId (fst (apply_room_state_repair cfg fid now st2))"
    and "st_generation st' = st_generation st2 + 1"
    and "st_playlist st' = st_playlist (fst (apply_room_state_repair cfg fid now st2))"
  using assms
  by (auto simp: mutate_commit_def Let_def mark_current_media_def stamp_present_def [abs_def] repair_revisions split: if_splits)

lemma commit_member:
  assumes "mutate_commit cfg fid now active userId body hint (Some st) = Some st'"
    and "map_of (st_participants (fst (reconcile_participants_connectivity st active now))) userId = Some p"
    and "body (fst (reconcile_participants_connectivity st active now)) p = Some st2"
    and "distinct (keys_of (st_participants st2))" "map_of (st_participants st') v = Some q"
  shows "\<exists>q2. map_of (st_participants st2) v = Some q2 \<and> pt_userId q = pt_userId q2 \<and> pt_role q = pt_role q2
      \<and> pt_username q = pt_username q2 \<and> pt_viewerMedia q = pt_viewerMedia q2"
proof -
  let ?kept = "take (lim_participants cfg) (filter (\<lambda>(u, p). u \<noteq> []) (st_participants st2))"
  have "map_of (adjust userId (stamp_present now) (map_vals (\<lambda>p. fst (repair_joined_at now p)) ?kept)) v = Some q"
    using assms(5) unfolding commit_fields(1) [OF assms(1-3)] repair_participants_field .
  then obtain q2 where q2: "map_of ?kept v = Some q2"
    "q = (if v = userId then stamp_present now (fst (repair_joined_at now q2)) else fst (repair_joined_at now q2))"
    by (auto split: if_splits)
  have "map_of (st_participants st2) v = Some q2" by (rule map_of_take_filter [OF assms(4) q2(1)])
  with q2(2) show ?thesis by auto
qed

text \<open>A gated message whose gate and body pass.\<close>

lemma gated_accepted:
  assumes room: "get_room (mc_roomId ctx) w = Some st"
    and member: "map_of (st_participants st) (mc_userId ctx) = Some p"
    and gate: "ok ctx (fst (reconcile_participants_connectivity st (read_ws_presence_user_ids (mc_roomId ctx) w) now))"
    and body: "body (fst (reconcile_participants_connectivity st (read_ws_presence_user_ids (mc_roomId ctx) w) now))
        (reconcile_participant now (read_ws_presence_user_ids (mc_roomId ctx) w) p) = Some st2"
  obtains st' where "mutate_commit cfg fid now (read_ws_presence_user_ids (mc_roomId ctx) w) (mc_userId ctx)
      (gated (ok ctx) body) hint (Some st) = Some st'"
    "snd (mutate_gated ok cfg fid now ctx data body hint w) = Some st'"
    "get_room (mc_roomId ctx) (fst (mutate_gated ok cfg fid now ctx data body hint w)) = Some st'"
    "\<And>v q. distinct (keys_of (st_participants st2)) \<Longrightarrow> map_of (st_participants st') v = Some q \<Longrightarrow>
      \<exists>q2. map_of (st_participants st2) v = Some q2 \<and> pt_userId q = pt_userId q2 \<and> pt_role q = pt_role q2
      \<and> pt_username q = pt_username q2 \<and> pt_viewerMedia q = pt_viewerMedia q2"
    "st_roomSecurity st' = st_roomSecurity (fst (apply_room_state_repair cfg fid now st2))"
    "st_ownerId st' = st_ownerId (fst (apply_room_state_repair cfg fid now st2))"
    "st_generation st' = st_generation st2 + 1"
proof -
  note finish = that
  let ?a = "read_ws_presence_user_ids (mc_roomId ctx) w"
  let ?st1 = "fst (reconcile_participants_connectivity st ?a now)"
  have p: "map_of (st_participants ?st1) (mc_userId ctx) = Some (reconcile_participant now ?a p)" using member by simp
  have g: "gated (ok ctx) body ?st1 (reconcile_participant now ?a p) = Some st2" using gate body by (simp add: gated_def)
  obtain st' where c: "mutate_commit cfg fid now ?a (mc_userId ctx) (gated (ok ctx) body) hint (Some st) = Some st'"
    unfolding mutate_commit_def Let_def option.case p g by blast
  have s: "snd (mutate_gated ok cfg fid now ctx data body hint w) = Some st'"
    unfolding mutate_gated_rooms(2) mutate_message_result room c ..
  have r: "get_room (mc_roomId ctx) (fst (mutate_gated ok cfg fid now ctx data body hint w)) = Some st'"
    using get_room_cong [OF mutate_gated_rooms(1)] c room by (simp add: mutate_message_get)
  show thesis
    by (rule finish [OF c s r commit_member [OF c p g] commit_fields(2,3,4) [OF c p g]])
qed

section \<open>What a transaction leaves alone\<close>

lemma prune_sockets [simp]:
  "w_sockets (clear_prune now r u w) = w_sockets w" "w_sockets (schedule_prune now r u w) = w_sockets w"
  "w_open (clear_prune now r u w) = w_open w" "w_open (schedule_prune now r u w) = w_open w"
  by (simp_all add: clear_prune_def schedule_prune_def s_rem_def s_add_def refresh_pending_ttl_def del_grace_def)

lemma prune_fold_sockets [simp]:
  "w_sockets (fold (clear_prune now r) us w) = w_sockets w" "w_sockets (fold (schedule_prune now r) us w) = w_sockets w"
  "w_open (fold (clear_prune now r) us w) = w_open w" "w_open (fold (schedule_prune now r) us w) = w_open w"
  by (induction us arbitrary: w) simp_all

lemma publish_sockets [simp]:
  "w_sockets (publish_after_mutation now r u st hint w) = w_sockets w"
  "w_open (publish_after_mutation now r u st hint w) = w_open w"
  by (cases hint; simp add: publish_control_def remember_control_projection_def)+

lemma mutate_sockets [simp]:
  "w_sockets (fst (mutate_room_message cfg fid now r u body hint w)) = w_sockets w"
  "w_open (fst (mutate_room_message cfg fid now r u body hint w)) = w_open w"
  by (simp_all add: mutate_room_message_def Let_def update_room_def reconcile_presence_refs_def split: option.split)

lemma nack_sockets [simp]:
  "w_sockets (send_mutation_nack ws d c w) = w_sockets w" "w_open (send_mutation_nack ws d c w) = w_open w"
  by (simp_all add: send_mutation_nack_def)

lemma gated_sockets [simp]:
  "w_sockets (fst (mutate_gated ok cfg fid now ctx data body hint w)) = w_sockets w"
  "w_open (fst (mutate_gated ok cfg fid now ctx data body hint w)) = w_open w"
  using mutate_sockets [of cfg fid now "mc_roomId ctx" "mc_userId ctx" "gated (ok ctx) body" hint w]
  by (auto simp: mutate_gated_def split_def simp del: mutate_sockets)

lemma refresh_capability_meta:
  "get_socket_meta s (refresh_capability role ws w) =
     (if s = ws then map_option (\<lambda>m. m\<lparr>sm_canControlPlayback := sc_canControlPlayback
        (compute_session_capabilities role (sm_sessionKind m) (sm_isControlSession m) (sm_controlAuthorized m))\<rparr>)
        (get_socket_meta s w) else get_socket_meta s w)"
  by (simp add: refresh_capability_def get_socket_meta_def set_socket_can_control_playback_def
      patch_socket_meta_def split: option.split)

lemma refresh_fold_meta:
  "get_socket_meta s (fold (refresh_capability role) xs w) =
     (if s \<in> set xs then map_option (\<lambda>m. m\<lparr>sm_canControlPlayback := sc_canControlPlayback
        (compute_session_capabilities role (sm_sessionKind m) (sm_isControlSession m) (sm_controlAuthorized m))\<rparr>)
        (get_socket_meta s w) else get_socket_meta s w)"
  by (induction xs arbitrary: w) (auto simp: refresh_capability_meta option.map_comp comp_def)

lemma socket_listed:
  assumes "get_socket_meta ws w = Some m" "sm_roomId m = r" "sm_userId m = u"
  shows "ws \<in> set (get_sockets_for_user r u w)"
proof -
  have "(ws, m) \<in> set (filter (\<lambda>(ws, m). sm_roomId m = r \<and> sm_userId m = u) (w_sockets w))"
    using assms by (simp add: get_socket_meta_def map_of_SomeD)
  from imageI [OF this, of fst] show ?thesis unfolding get_sockets_for_user_def set_map fst_conv .
qed

section \<open>Properties\<close>

text \<open>
  When the owner gives a member a role, the stored room has exactly that role changed: the
  member holds it, everybody else's role and the owner are as before; and every socket of that
  member on this node is marked with what the new role may do, so the scrubbing path needs no
  room read.
\<close>

theorem role_change_correct:
  assumes room: "get_room (mc_roomId ctx) w = Some st" and wf: "world_wf cfg w"
    and member: "map_of (st_participants st) (mc_userId ctx) = Some p"
    and gate: "may_manage_security ctx st"
    and parsed: "parse_roleUpdate (env_payload data) = Some (t, r)"
    and target: "map_of (st_participants st) t = Some q" "t \<noteq> st_ownerId st"
    and w': "w' = handle_participant_role_update cfg uid fid now ctx data w"
  shows "\<exists>st'. get_room (mc_roomId ctx) w' = Some st' \<and> st_ownerId st' = st_ownerId st
      \<and> st_generation st' = st_generation st + 1
      \<and> (\<forall>v q'. map_of (st_participants st') v = Some q' \<longrightarrow>
           (if v = t then pt_role q' = role_of_join r
            else map_option pt_role (map_of (st_participants st) v) = Some (pt_role q')))
      \<and> (map_of (st_participants st') t \<noteq> None \<longrightarrow>
          (\<forall>ws m. get_socket_meta ws w = Some m \<and> sm_roomId m = mc_roomId ctx \<and> sm_userId m = t \<longrightarrow>
             get_socket_meta ws w' = Some (m\<lparr>sm_canControlPlayback :=
               sc_canControlPlayback (compute_session_capabilities (role_of_join r) (sm_sessionKind m)
                 (sm_isControlSession m) (sm_controlAuthorized m))\<rparr>)))"
proof -
  let ?a = "read_ws_presence_user_ids (mc_roomId ctx) w"
  let ?st1 = "fst (reconcile_participants_connectivity st ?a now)"
  let ?p = "reconcile_participant now ?a p"
  have wfs: "keyed (st_participants st)" "st_ownerId st \<noteq> []"
    using world_wfD [OF wf room] by (simp_all add: room_wf_def room_named_def)
  have ok: "may_manage_security ctx ?st1" using gate by (simp add: may_manage_reconcile)
  have uid: "pt_userId q = t" using wfs(1) target(1) by (simp add: keyed_iff)
  have "\<exists>st2. role_update_body cfg uid now ctx t r ?st1 ?p = Some st2"
    using target uid by (simp add: role_update_body_def)
  then obtain st2 where b: "role_update_body cfg uid now ctx t r ?st1 ?p = Some st2" ..
  have roles: "map_option pt_role (map_of (st_participants st2) v) =
      (if v = t then Some (role_of_join r) else map_option pt_role (map_of (st_participants st) v))" for v
    using b target uid by (auto simp: role_update_body_def option.map_comp comp_def split: if_splits)
  have d2: "distinct (keys_of (st_participants st2))"
    using role_update_body_shape(3) [OF b] wfs(1) by (auto simp: keyed_iff)
  have keys2: "keyed (st_participants st2)"
    using role_update.keys [OF b] wfs(1) by (simp add: keyed_map_vals)
  have gen: "st_generation st2 = st_generation st" and own2: "st_ownerId st2 = st_ownerId st"
    using b by (auto simp: role_update_body_def split: option.splits if_splits)
  obtain st' where st': "snd (mutate_owner_room_message cfg fid now ctx data (role_update_body cfg uid now ctx t r) HSnapshot w) = Some st'"
    "get_room (mc_roomId ctx) (fst (mutate_owner_room_message cfg fid now ctx data (role_update_body cfg uid now ctx t r) HSnapshot w)) = Some st'"
    "\<And>v q. map_of (st_participants st') v = Some q \<Longrightarrow>
      \<exists>q2. map_of (st_participants st2) v = Some q2 \<and> pt_userId q = pt_userId q2 \<and> pt_role q = pt_role q2"
    "st_ownerId st' = st_ownerId (fst (apply_room_state_repair cfg fid now st2))" "st_generation st' = st_generation st2 + 1"
    unfolding mutate_owner_room_message_def
    by (rule gated_accepted [where ok = may_manage_security and ctx = ctx and w = w and body = "role_update_body cfg uid now ctx t r"
        and hint = HSnapshot and cfg = cfg and fid = fid and now = now and data = data, OF room member ok b]) (use d2 in blast)
  let ?w2 = "fst (mutate_owner_room_message cfg fid now ctx data (role_update_body cfg uid now ctx t r) HSnapshot w)"
  have own: "st_ownerId st' = st_ownerId st" using st'(4) own2 wfs(2) by (simp add: repair_owner_id)
  have w'_eq: "w' = (case map_of (st_participants st') t of None \<Rightarrow> ?w2
      | Some q' \<Rightarrow> fold (refresh_capability (pt_role q')) (get_sockets_for_user (mc_roomId ctx) (pt_userId q') ?w2) ?w2)"
  proof -
    obtain w2 where m: "mutate_owner_room_message cfg fid now ctx data (role_update_body cfg uid now ctx t r) HSnapshot w
        = (w2, Some st')" using st'(1) by (metis prod.collapse)
    show ?thesis
      unfolding w' handle_participant_role_update_def parse_or_nack_def parsed option.case prod.case m fst_conv by simp
  qed
  have rooms: "w_rooms w' = w_rooms ?w2" unfolding w'_eq by (simp split: option.split)
  have get: "get_room (mc_roomId ctx) w' = Some st'" using get_room_cong [OF rooms] st'(2) by simp
  have role: "if v = t then pt_role q' = role_of_join r
      else map_option pt_role (map_of (st_participants st) v) = Some (pt_role q')"
    if "map_of (st_participants st') v = Some q'" for v q'
  proof -
    note hyp = that
    obtain q2 where "map_of (st_participants st2) v = Some q2" "pt_role q' = pt_role q2" using st'(3) [OF hyp] by blast
    then show ?thesis using roles [of v] by (cases "v = t") simp_all
  qed
  have socks: "get_socket_meta ws w' = Some (m\<lparr>sm_canControlPlayback :=
         sc_canControlPlayback (compute_session_capabilities (role_of_join r) (sm_sessionKind m)
           (sm_isControlSession m) (sm_controlAuthorized m))\<rparr>)"
    if "map_of (st_participants st') t \<noteq> None" "get_socket_meta ws w = Some m \<and> sm_roomId m = mc_roomId ctx \<and> sm_userId m = t"
    for ws m
  proof -
    note hyp = that
    obtain q' where q': "map_of (st_participants st') t = Some q'" using hyp(1) by blast
    have id: "pt_userId q' = t" using st'(3) [OF q'] keys2 by (auto simp: keyed_iff)
    have r': "pt_role q' = role_of_join r" using role [OF q'] by simp
    have sk: "w_sockets ?w2 = w_sockets w" by (simp add: mutate_owner_room_message_def)
    have "ws \<in> set (get_sockets_for_user (mc_roomId ctx) t ?w2)"
      using that(2) by (intro socket_listed [where m = m]) (simp_all add: get_socket_meta_def sk)
    moreover have "get_socket_meta ws ?w2 = Some m" using that(2) unfolding get_socket_meta_def sk by blast
    ultimately show ?thesis by (simp add: w'_eq q' id r' refresh_fold_meta)
  qed
  show ?thesis using get own st'(5) gen role socks by (intro exI [of _ st']) auto
qed

lemma sample_owner_gate: "may_manage_security (sample_context ''own'') sample_room"
  by (simp add: may_manage_security_def can_manage_room_security_from_connection_context_def passes_session_gate_def
      connection_auth_from_context_def sample_context_def is_owner_def sample_room_def sample_participant_def)

lemma sample_world_wf: "world_wf sample_limits sample_world"
  by (simp add: world_wf_def room_named_def sample_world_def sample_room_def room_wf_def playlist_wf_defs keyed_def
      owner_unique_def sample_participant_def sample_item_def playback_wf_def sample_playback_def
      security_wf_def log_wf_def sample_limits_def)

theorem role_change_correct_witness:
  "\<exists>st'. get_room ''r1'' (handle_participant_role_update sample_limits ''u'' ''o'' 3000 (sample_context ''own'')
       \<lparr>env_type = ''participant:role:update'', env_requestId = None,
         env_payload = JObj [(''targetUserId'', JStr ''gst''), (''role'', JStr ''moderator'')]\<rparr> sample_world) = Some st'
     \<and> st_generation st' = 5"
proof -
  have ctx: "mc_roomId (sample_context ''own'') = ''r1''" "mc_userId (sample_context ''own'') = ''own''"
    by (simp_all add: sample_context_def)
  have members: "map_of (st_participants sample_room) ''own'' = Some (sample_participant ''own'' Owner True 100)"
    "map_of (st_participants sample_room) ''gst'' = Some (sample_participant ''gst'' Guest True 300)"
    "''gst'' \<noteq> st_ownerId sample_room" "st_generation sample_room = 4"
    by (simp_all add: sample_room_def)
  note wf = sample_world_wf
  have parse: "parse_roleUpdate (env_payload \<lparr>env_type = ''participant:role:update'', env_requestId = None,
      env_payload = JObj [(''targetUserId'', JStr ''gst''), (''role'', JStr ''moderator'')]\<rparr>) = Some (''gst'', JoinModerator)"
    by (simp add: parse_roleUpdate_def p_field_def p_userId_def)
  from role_change_correct [where ctx = "sample_context ''own''", unfolded ctx, OF sample_world_room wf members(1)
      sample_owner_gate parse members(2,3) refl] members(4)
  show ?thesis by fastforce
qed

lemma password_set_security:
  assumes "security_wf (st_roomSecurity st2)" "st_roomSecurity st' = st_roomSecurity (fst (apply_room_state_repair cfg fid now st2))"
  shows "st_roomSecurity st' = st_roomSecurity st2"
  using assms by (simp add: repair_security_field)

lemma evicted_sockets:
  "set (w_open (publish_admission_eviction r st w)) = {ws \<in> set (w_open w).
     \<not> (ws \<in> set (get_sockets_for_room r w) \<and> (case get_socket_meta ws w of None \<Rightarrow> False | Some m \<Rightarrow> sm_userId m \<noteq> st_ownerId st))}"
  "get_socket_meta ws (publish_admission_eviction r st w) = get_socket_meta ws w"
  by (simp_all add: publish_admission_eviction_def force_rejoin_non_owners_def get_sockets_for_room_def get_socket_meta_def)

lemma socket_in_room:
  assumes "get_socket_meta ws w = Some m" "sm_roomId m = r"
  shows "ws \<in> set (get_sockets_for_room r w)"
proof -
  have "(ws, m) \<in> set (filter (\<lambda>(ws, m). sm_roomId m = r) (w_sockets w))"
    using assms by (simp add: get_socket_meta_def map_of_SomeD)
  from imageI [OF this, of fst] show ?thesis unfolding get_sockets_for_room_def set_map fst_conv .
qed

text \<open>
  After the owner has set a password, the room in the store asks for it, and on this node no
  socket of anybody but the owner stays open in the room: those members must come back through
  admission.  The owner's sockets, and the sockets of other rooms, stay open.
\<close>

theorem password_change_evicts:
  assumes room: "get_room (mc_roomId ctx) w = Some st"
    and member: "map_of (st_participants st) (mc_userId ctx) = Some p"
    and gate: "may_manage_security ctx st" and owner: "st_ownerId st \<noteq> []"
    and parsed: "parse_passwordSet (env_payload data) = Some pw"
    and hash: "salt \<noteq> []" "hash (trim pw) salt \<noteq> []"
    and w': "w' = handle_room_password_set hash salt cfg uid fid now ctx data w"
  shows "\<exists>st'. get_room (mc_roomId ctx) w' = Some st'
      \<and> evaluate_join_admission hash (Some st') None = Denied PasswordRequired
      \<and> (\<forall>q. trim q \<noteq> [] \<longrightarrow> evaluate_join_admission hash (Some st') (Some q) =
            (if hex_bytes (hash (trim q) salt) = hex_bytes (hash (trim pw) salt) then Allowed else Denied InvalidPassword))
      \<and> (\<forall>ws m. ws \<in> set (w_open w') \<and> get_socket_meta ws w' = Some m \<and> sm_roomId m = mc_roomId ctx
            \<longrightarrow> sm_userId m = st_ownerId st)
      \<and> (\<forall>ws m. ws \<in> set (w_open w) \<and> get_socket_meta ws w = Some m
            \<and> (ws \<notin> set (get_sockets_for_room (mc_roomId ctx) w) \<or> sm_userId m = st_ownerId st)
            \<longrightarrow> ws \<in> set (w_open w'))"
proof -
  let ?a = "read_ws_presence_user_ids (mc_roomId ctx) w"
  let ?st1 = "fst (reconcile_participants_connectivity st ?a now)"
  let ?p = "reconcile_participant now ?a p"
  let ?body = "password_set_body hash salt cfg uid now ctx pw"
  have ok: "may_manage_security ctx ?st1" using gate by (simp add: may_manage_reconcile)
  define st2 where "st2 = the (?body ?st1 ?p)"
  have b: "?body ?st1 ?p = Some st2" by (simp add: st2_def password_set_body_def)
  have sec2: "st_roomSecurity st2 = st_roomSecurity (set_join_password hash salt now ?st1 pw)" "st_ownerId st2 = st_ownerId st"
    by (simp_all add: st2_def password_set_body_def)
  obtain st' where st': "snd (mutate_owner_room_message cfg fid now ctx data ?body HSnapshot w) = Some st'"
    "get_room (mc_roomId ctx) (fst (mutate_owner_room_message cfg fid now ctx data ?body HSnapshot w)) = Some st'"
    "st_roomSecurity st' = st_roomSecurity (fst (apply_room_state_repair cfg fid now st2))"
    "st_ownerId st' = st_ownerId (fst (apply_room_state_repair cfg fid now st2))"
    unfolding mutate_owner_room_message_def
    by (rule gated_accepted [where ok = may_manage_security and ctx = ctx and w = w and body = ?body
        and hint = HSnapshot and cfg = cfg and fid = fid and now = now and data = data, OF room member ok b]) blast
  have sec: "st_roomSecurity st' = st_roomSecurity (set_join_password hash salt now ?st1 pw)"
    using password_set_security [OF _ st'(3)] security_wf_set [where hash = hash and pw = pw, OF hash] sec2(1) by simp
  have own: "st_ownerId st' = st_ownerId st" using st'(4) sec2(2) owner by (simp add: repair_owner_id)
  obtain w2 where m: "mutate_owner_room_message cfg fid now ctx data ?body HSnapshot w = (w2, Some st')"
    using st'(1) by (metis prod.collapse)
  have "w2 = fst (mutate_gated may_manage_security cfg fid now ctx data ?body HSnapshot w)"
    using m unfolding mutate_owner_room_message_def by simp
  then have w2: "w_sockets w2 = w_sockets w" "w_open w2 = w_open w" by simp_all
  have w'_eq: "w' = publish_admission_eviction (mc_roomId ctx) st' w2"
    unfolding w' handle_room_password_set_def with_owner_security_mutation_def parse_or_nack_def parsed
      option.case prod.case m by simp
  have get: "get_room (mc_roomId ctx) w' = Some st'"
    using st'(2) m get_room_cong [OF publish_eviction_rooms, of "mc_roomId ctx"] unfolding w'_eq by simp
  have adm: "evaluate_join_admission hash (Some st') s =
      evaluate_join_admission hash (Some (set_join_password hash salt now ?st1 pw)) s" for s
    by (rule admission_cong [OF sec])
  have evict: "sm_userId mt = st_ownerId st"
    if "ws \<in> set (w_open w')" "get_socket_meta ws w' = Some mt" "sm_roomId mt = mc_roomId ctx" for ws mt
    using that socket_in_room [of ws w2 mt "mc_roomId ctx"] own unfolding w'_eq by (simp add: evicted_sockets)
  have keep: "ws \<in> set (w_open w')"
    if "ws \<in> set (w_open w)" "get_socket_meta ws w = Some mt"
      "ws \<notin> set (get_sockets_for_room (mc_roomId ctx) w) \<or> sm_userId mt = st_ownerId st" for ws mt
    using that own unfolding w'_eq
    by (auto simp: evicted_sockets w2 get_socket_meta_def get_sockets_for_room_def)
  show ?thesis
    using get evict keep
    by (intro exI [of _ st']) (auto simp: adm admission_after_set [where hash = hash and pw = pw, OF hash])
qed

theorem password_change_evicts_witness:
  "\<exists>st'. get_room ''r1'' (handle_room_password_set sample_hash ''5a17'' sample_limits ''u'' ''o'' 3000 (sample_context ''own'')
       \<lparr>env_type = ''room:password:set'', env_requestId = None, env_payload = JObj [(''password'', JStr ''xy'')]\<rparr> sample_world) = Some st'
     \<and> evaluate_join_admission sample_hash (Some st') None = Denied PasswordRequired"
proof -
  have ctx: "mc_roomId (sample_context ''own'') = ''r1''" "mc_userId (sample_context ''own'') = ''own''"
    by (simp_all add: sample_context_def)
  have members: "map_of (st_participants sample_room) ''own'' = Some (sample_participant ''own'' Owner True 100)"
    "st_ownerId sample_room \<noteq> []"
    by (simp_all add: sample_room_def)
  have parse: "parse_passwordSet (env_payload \<lparr>env_type = ''room:password:set'', env_requestId = None,
      env_payload = JObj [(''password'', JStr ''xy'')]\<rparr>) = Some ''xy''"
    by (simp add: parse_passwordSet_def p_field_def)
  have h: "sample_hash (trim ''xy'') ''5a17'' \<noteq> []" by (simp add: sample_hash_def)
  from password_change_evicts [where ctx = "sample_context ''own''" and hash = sample_hash and salt = "''5a17''", unfolded ctx, OF sample_world_room members(1)
      sample_owner_gate members(2) parse _ h refl]
  show ?thesis by fastforce
qed

lemma map_of_drop:
  assumes "distinct (keys_of al)" "map_of (drop n al) k = Some v"
  shows "map_of al k = Some v"
  using map_of_SomeD [OF assms(2)] assms(1) by (auto dest!: in_set_dropD)

lemma AList_update_last:
  "map_of al k = None \<Longrightarrow> AList.update k v al = al @ [(k, v)]"
  by (induction al) (auto split: if_splits)

lemma length_update_old: "map_of al k = Some x \<Longrightarrow> length (AList.update k v al) = length al"
  by (induction al) (auto split: if_splits)

lemma merge_pref_catalog:
  assumes "merge_viewer_media_item_preference item previous patch = Some n"
  shows "(case vi_streamId patch of
        None \<Rightarrow> ip_streamId n = Option.bind previous ip_streamId
      | Some i \<Rightarrow> ip_streamId n = i \<and> (\<forall>s. i = Some s \<longrightarrow> catalog_has_id ms_id (pi_mediaStreams item) s))
    \<and> (case vi_textTrackId patch of
        None \<Rightarrow> ip_textTrackId n = Option.bind previous ip_textTrackId
      | Some i \<Rightarrow> ip_textTrackId n = Some i \<and> (\<forall>s. i = Some s \<longrightarrow> catalog_has_id tt_id (pi_textTracks item) s))"
  using assms
  by (cases previous; cases "vi_streamId patch"; cases "the (vi_streamId patch)"; cases "vi_textTrackId patch";
      cases "the (vi_textTrackId patch)"; cases "vi_audioLanguage patch")
    (auto simp: merge_viewer_media_item_preference_def with_default_def Let_def split: if_splits)

text \<open>
  An accepted preference for an item is stored under that item, naming only streams and tracks
  of the item's catalogue and keeping the fields the patch does not mention; at most thirty-two
  items are remembered, every surviving one unchanged, and an old one is forgotten only to make
  room for a new one.
\<close>

theorem viewer_preferences_correct:
  assumes acc: "apply_viewer_media_preferences p item patch = Some p'"
    and prefs: "with_default (pt_viewerMedia p) [] = old" "distinct (keys_of old)" "length old \<le> 32"
    and new: "pt_viewerMedia p' = Some new"
  shows "length new \<le> 32
    \<and> (\<exists>n. map_of new (vi_itemId patch) = Some n
        \<and> (case vi_streamId patch of None \<Rightarrow> ip_streamId n = Option.bind (map_of old (vi_itemId patch)) ip_streamId
           | Some i \<Rightarrow> ip_streamId n = i \<and> (\<forall>s. i = Some s \<longrightarrow> catalog_has_id ms_id (pi_mediaStreams item) s))
        \<and> (case vi_textTrackId patch of None \<Rightarrow> ip_textTrackId n = Option.bind (map_of old (vi_itemId patch)) ip_textTrackId
           | Some i \<Rightarrow> ip_textTrackId n = Some i \<and> (\<forall>s. i = Some s \<longrightarrow> catalog_has_id tt_id (pi_textTracks item) s)))
    \<and> (\<forall>j x. j \<noteq> vi_itemId patch \<and> map_of new j = Some x \<longrightarrow> map_of old j = Some x)
    \<and> (length old < 32 \<or> map_of old (vi_itemId patch) \<noteq> None \<longrightarrow>
         (\<forall>j. j \<noteq> vi_itemId patch \<longrightarrow> map_of new j = map_of old j))"
proof -
  let ?k = "vi_itemId patch"
  obtain n where n: "merge_viewer_media_item_preference item (map_of old ?k) patch = Some n"
    and new_eq: "new = cap_viewer_media_by_item_id (AList.update ?k n old)"
    using acc new prefs(1) by (auto simp: apply_viewer_media_preferences_def Let_def split: option.splits)
  let ?u = "AList.update ?k n old"
  have du: "distinct (keys_of ?u)" using prefs(2) by (simp add: distinct_update)
  note cap_defs = new_eq cap_viewer_media_by_item_id_def viewer_media_by_item_limit_def
  have cap: "length new \<le> 32" unfolding cap_defs by simp
  have sub: "map_of ?u j = Some x" if h: "map_of new j = Some x" for j x
  proof (cases "length ?u \<le> 32")
    case True
    with h show ?thesis unfolding cap_defs by (simp only: if_True)
  next
    case False
    with h have "map_of (drop (length ?u - 32) ?u) j = Some x" unfolding cap_defs by (simp only: if_False)
    then show ?thesis by (rule map_of_drop [OF du])
  qed
  have small: "new = ?u" if "length old < 32 \<or> map_of old ?k \<noteq> None"
  proof -
    have "length ?u \<le> 32"
    proof (cases "map_of old ?k")
      case None
      then show ?thesis using that by (simp add: AList_update_last)
    next
      case (Some x)
      then show ?thesis using prefs(3) by (simp add: length_update_old)
    qed
    then show ?thesis by (simp add: new_eq cap_viewer_media_by_item_id_def viewer_media_by_item_limit_def)
  qed
  have own: "map_of new ?k = Some n"
  proof (cases "length old < 32 \<or> map_of old ?k \<noteq> None")
    case True
    then show ?thesis using small by simp
  next
    case False
    then have l: "length old = 32" "?u = old @ [(?k, n)]" using prefs(3) by (simp_all add: AList_update_last)
    then have e: "new = drop 1 old @ [(?k, n)]"
      by (simp add: new_eq cap_viewer_media_by_item_id_def viewer_media_by_item_limit_def)
    have "map_of (drop 1 old) ?k = None" using False map_of_drop [OF prefs(2)] by (metis option.exhaust)
    then show ?thesis unfolding e by (simp add: map_add_def)
  qed
  have others: "map_of old j = Some x" if "j \<noteq> ?k" "map_of new j = Some x" for j x
    using sub [OF that(2)] that(1) by simp
  have kept: "map_of new j = map_of old j" if "length old < 32 \<or> map_of old ?k \<noteq> None" "j \<noteq> ?k" for j
    using small [OF that(1)] that(2) by simp
  show ?thesis
    using cap own merge_pref_catalog [OF n] others kept by blast
qed

theorem viewer_preferences_correct_witness:
  "\<exists>p' n. apply_viewer_media_preferences (sample_participant ''gst'' Guest True 300) (sample_item ''m1'')
       \<lparr>vi_itemId = ''m1'', vi_streamId = None, vi_textTrackId = Some None, vi_audioLanguage = Some ''en''\<rparr> = Some p'
     \<and> pt_viewerMedia p' = Some n \<and> length n \<le> 32"
proof -
  let ?patch = "\<lparr>vi_itemId = ''m1'', vi_streamId = None, vi_textTrackId = Some None, vi_audioLanguage = Some ''en''\<rparr>"
  let ?n = "\<lparr>ip_streamId = None, ip_textTrackId = Some None, ip_audioLanguage = Some ''en''\<rparr>"
  have a: "apply_viewer_media_preferences (sample_participant ''gst'' Guest True 300) (sample_item ''m1'') ?patch =
      Some ((sample_participant ''gst'' Guest True 300)\<lparr>pt_viewerMedia := Some [(''m1'', ?n)]\<rparr>)"
    by (simp add: apply_viewer_media_preferences_def merge_viewer_media_item_preference_def with_default_def Let_def
        cap_viewer_media_by_item_id_def viewer_media_by_item_limit_def sample_participant_def)
  have o: "with_default (pt_viewerMedia (sample_participant ''gst'' Guest True 300)) [] = []"
    by (simp add: with_default_def sample_participant_def)
  have "length [(''m1'', ?n)] \<le> 32"
    using viewer_preferences_correct [OF a o, of "[(''m1'', ?n)]"] by simp
  with a show ?thesis by auto
qed

section \<open>Presence ticks\<close>

lemma report_of_upsert:
  "map_of (upsert_local_playback_report rs c k snap) c = Some \<lparr>lr_sessionKind = k, lr_paused = lp_paused snap,
     lr_currentTimeMs = lp_currentTimeMs snap, lr_loading = lp_loading snap, lr_error = lp_error snap,
     lr_updatedAt = lp_updatedAt snap\<rparr>" if "distinct (keys_of rs)"
  using that
  by (simp add: upsert_local_playback_report_def prune_reports_map_of distinct_update)

text \<open>
  A member's playback tick (same name and avatar, no word about errors) never touches the
  stored room: it stores the connection's report with the server's stamp and fans out one presence
  patch, which carries the aggregate and not the reports of the single connections.
\<close>

theorem presence_tick_leaves_rooms:
  assumes room: "get_room (mc_roomId ctx) w = Some st"
    and member: "map_of (st_participants st) (mc_userId ctx) = Some p"
    and parsed: "parse_participantUpdate (env_payload data) = Some patch"
    and same: "pu_username patch = None" "pu_avatarStyle patch = None" "resolve_style (pt_avatarStyle p) = pt_avatarStyle p"
      "pu_error patch = None"
    and reports: "distinct (keys_of (existing_reports ctx w))"
    and w': "w' = handle_participant_update cfg u1 u2 fid now ctx data w"
  shows "w_rooms w' = w_rooms w
    \<and> (\<exists>r. map_of (existing_reports ctx w') (mc_connectionId ctx) = Some r \<and> lr_updatedAt r = now
         \<and> lr_sessionKind r = mc_sessionKind ctx
         \<and> (\<forall>t. pu_currentTimeMs patch = Some t \<longrightarrow> lr_currentTimeMs r = t)
         \<and> (\<forall>b. pu_paused patch = Some b \<longrightarrow> lr_paused r = b))
    \<and> (\<exists>pp. w_out w' = w_out w @ [EPresenceDirty (mc_roomId ctx) (mc_userId ctx) pp]
         \<and> pp_localPlaybackReports pp = None \<and> pp_connected pp = Some True \<and> pp_lastSeenAt pp = Some now)"
proof -
  let ?u = "resolve_connection_update now ctx w p patch"
  have id: "\<not> ru_identityDirty ?u"
    using same by (simp add: resolve_connection_update_def resolve_participant_update_def with_default_def Let_def)
  have err: "lp_error (ru_localPlayback ?u) = ru_previousError ?u"
    using same(4) by (simp add: resolve_connection_update_def resolve_participant_update_def Let_def)
  have upd: "lp_updatedAt (ru_localPlayback ?u) = now"
    "pu_currentTimeMs patch = Some t \<Longrightarrow> lp_currentTimeMs (ru_localPlayback ?u) = t"
    "pu_paused patch = Some b \<Longrightarrow> lp_paused (ru_localPlayback ?u) = b" for t b
    by (simp_all add: resolve_connection_update_def resolve_participant_update_def Let_def with_default_def)
  let ?rs = "upsert_local_playback_report (existing_reports ctx w) (mc_connectionId ctx) (mc_sessionKind ctx) (ru_localPlayback ?u)"
  let ?pp = "presence_patch_from_aggregated now (ru_nextUsername ?u) (ru_nextAvatarStyle ?u)
      (with_default (aggregate_local_playback_reports ?rs now) (ru_localPlayback ?u)) ?rs"
  have w'_eq: "w' = emit (EPresenceDirty (mc_roomId ctx) (mc_userId ctx) (client_presence_patch ?pp))
      (merge_presence_data (mc_roomId ctx) (mc_userId ctx) ?pp w)"
    using room member parsed id err
    by (simp add: w' handle_participant_update_def publish_own_presence_def Let_def)
  have "existing_reports ctx w' = ?rs"
    by (simp add: w'_eq existing_reports_def get_presence_data_def presence_data_all_def merge_presence_data_def
        emit_def Let_def merge_patch_def or_else_def presence_patch_from_aggregated_def)
  then have r: "map_of (existing_reports ctx w') (mc_connectionId ctx) = Some \<lparr>lr_sessionKind = mc_sessionKind ctx,
      lr_paused = lp_paused (ru_localPlayback ?u), lr_currentTimeMs = lp_currentTimeMs (ru_localPlayback ?u),
      lr_loading = lp_loading (ru_localPlayback ?u), lr_error = lp_error (ru_localPlayback ?u), lr_updatedAt = now\<rparr>"
    by (simp add: report_of_upsert [OF reports] upd)
  have "w_rooms w' = w_rooms w" "w_out w' = w_out w @ [EPresenceDirty (mc_roomId ctx) (mc_userId ctx) (client_presence_patch ?pp)]"
    by (simp_all add: w'_eq merge_presence_data_def Let_def)
  moreover have "pp_localPlaybackReports (client_presence_patch ?pp) = None"
    "pp_connected (client_presence_patch ?pp) = Some True" "pp_lastSeenAt (client_presence_patch ?pp) = Some now"
    by (simp_all add: client_presence_patch_def presence_patch_from_aggregated_def)
  ultimately show ?thesis using r upd by simp
qed

theorem presence_tick_leaves_rooms_witness:
  "w_rooms (handle_participant_update sample_limits ''u'' ''v'' ''o'' 3000 (sample_context ''gst'')
     \<lparr>env_type = ''participant:update'', env_requestId = None,
       env_payload = JObj [(''currentTimeMs'', JNum 5000)]\<rparr> sample_world) = w_rooms sample_world"
proof -
  have ctx: "mc_roomId (sample_context ''gst'') = ''r1''" "mc_userId (sample_context ''gst'') = ''gst''"
    by (simp_all add: sample_context_def)
  have member: "map_of (st_participants sample_room) ''gst'' = Some (sample_participant ''gst'' Guest True 300)"
    "resolve_style (pt_avatarStyle (sample_participant ''gst'' Guest True 300)) = pt_avatarStyle (sample_participant ''gst'' Guest True 300)"
    "distinct (keys_of (existing_reports (sample_context ''gst'') sample_world))"
    by (simp_all add: sample_room_def sample_participant_def resolve_style_def avatar_styles_def existing_reports_def
        get_presence_data_def presence_data_all_def sample_world_def)
  have parse: "parse_participantUpdate (env_payload \<lparr>env_type = ''participant:update'', env_requestId = None,
      env_payload = JObj [(''currentTimeMs'', JNum 5000)]\<rparr>) = Some \<lparr>pu_username = None, pu_avatarStyle = None,
        pu_paused = None, pu_currentTimeMs = Some 5000, pu_loading = None, pu_error = None\<rparr>"
    by (simp add: parse_participantUpdate_def p_opt_def)
  from presence_tick_leaves_rooms [where ctx = "sample_context ''gst''", unfolded ctx, OF sample_world_room member(1)
      parse _ _ member(2) _ member(3) refl] show ?thesis by simp
qed

end
