(* ===== verification/Lifecycle.thy ===== *)
theory Lifecycle
  imports Command_Properties
begin

text \<open>
  The end of a connection and of a room: offline effects and socket disconnect
  (\<open>src/src/server/realtime/services/disconnect.ts\<close>, \<open>offline-presence.ts\<close>), the empty-room
  marker with its grace period (\<open>empty-room.ts\<close>), and the background sweep (\<open>cleanup.ts\<close>).
  Keys of the store with a time to live carry their expiry.
\<close>

section \<open>The empty-room marker\<close>

definition empty_room_destroy_grace_ms :: jsnum where "empty_room_destroy_grace_ms = 15000"
definition empty_at_ttl_ms :: jsnum where "empty_at_ttl_ms = 60000"

text \<open>The marker, with the redis client down it is neither read nor written.\<close>

definition read_empty_at :: "jsnum \<Rightarrow> string \<Rightarrow> world \<Rightarrow> jsnum option" where
  "read_empty_at now roomId w =
     (case map_of (w_emptyAt w) roomId of
        Some (emptyAt, expiry) \<Rightarrow> if now < expiry then Some emptyAt else None
      | None \<Rightarrow> None)"

definition mark_room_empty_if_absent :: "jsnum \<Rightarrow> string \<Rightarrow> world \<Rightarrow> world" where
  "mark_room_empty_if_absent now roomId w =
     (if \<not> w_emptyUp w \<or> read_empty_at now roomId w \<noteq> None then w
      else w\<lparr>w_emptyAt := AList.update roomId (now, now + empty_at_ttl_ms) (w_emptyAt w)\<rparr>)"

definition clear_room_empty_marker :: "string \<Rightarrow> world \<Rightarrow> world" where
  "clear_room_empty_marker roomId w =
     (if \<not> w_emptyUp w then w else w\<lparr>w_emptyAt := AList.delete roomId (w_emptyAt w)\<rparr>)"

definition is_empty_room_grace_elapsed :: "jsnum \<Rightarrow> string \<Rightarrow> world \<Rightarrow> bool" where
  "is_empty_room_grace_elapsed now roomId w =
     (w_emptyUp w \<and> (case read_empty_at now roomId w of
        None \<Rightarrow> False | Some emptyAt \<Rightarrow> now - emptyAt \<ge> empty_room_destroy_grace_ms))"

definition may_destroy_empty_room_on_this_process :: "world \<Rightarrow> bool" where
  "may_destroy_empty_room_on_this_process w = (\<not> w_draining w)"

definition note_empty_presence_and_should_destroy :: "jsnum \<Rightarrow> string \<Rightarrow> world \<Rightarrow> world \<times> bool" where
  "note_empty_presence_and_should_destroy now roomId w =
     (let w1 = mark_room_empty_if_absent now roomId w in
      (w1, may_destroy_empty_room_on_this_process w1 \<and> is_empty_room_grace_elapsed now roomId w1))"

definition confirm_empty_room_destroy_allowed ::
  "jsnum \<Rightarrow> string \<Rightarrow> (world \<Rightarrow> bool) \<Rightarrow> world \<Rightarrow> world \<times> bool" where
  "confirm_empty_room_destroy_allowed now roomId has_presence w =
     (if \<not> may_destroy_empty_room_on_this_process w then (w, False)
      else if has_presence w then (clear_room_empty_marker roomId w, False)
      else (w, is_empty_room_grace_elapsed now roomId w))"

section \<open>Destroying a room\<close>

definition local_media_owners :: "server_room option \<Rightarrow> string list" where
  "local_media_owners cur =
     (case cur of
        None \<Rightarrow> []
      | Some st \<Rightarrow> remdups (map (\<lambda>(u, p). pt_userId p) (st_participants st)
          @ List.map_filter (\<lambda>it. case pi_localOriginUserId it of Some u \<Rightarrow> if u = [] then None else Some u | None \<Rightarrow> None)
              (st_playlist st)))"

definition delete_local_media_for_room_owners :: "server_room option \<Rightarrow> string \<Rightarrow> world \<Rightarrow> world" where
  "delete_local_media_for_room_owners cur roomId w =
     fold (\<lambda>u. emit (EDeleteLocalMedia roomId u)) (local_media_owners cur) w"

definition destroy_room :: "jsnum \<Rightarrow> string \<Rightarrow> world \<Rightarrow> world" where
  "destroy_room now roomId w =
     (let w1 = clear_all_room_prunes now roomId w;
          w2 = delete_local_media_for_room_owners (get_room roomId w1) roomId w1;
          w3 = emit (ECloseSfu roomId) w2
      in store_delete roomId w3)"

section \<open>Going offline\<close>

definition local_owner_offline_text :: string where
  "local_owner_offline_text = ''The person sharing this file went offline. Ask them to re-share it from the same tab.''"

definition orphaned_item :: "string \<Rightarrow> playlist_item \<Rightarrow> bool" where
  "orphaned_item userId it =
     (pi_sourceKind it = LocalFile \<and> userId \<noteq> [] \<and> pi_localOriginUserId it = Some userId
      \<and> pi_blockedReason it \<noteq> Some LocalOwnerOffline)"

definition block_item :: "playlist_item \<Rightarrow> playlist_item" where
  "block_item it = it\<lparr>pi_ingestStatus := Some IngestError, pi_ingestError := Some local_owner_offline_text,
     pi_blockedReason := Some LocalOwnerOffline\<rparr>"

definition invalidate_local_media_for_owner :: "server_room \<Rightarrow> string \<Rightarrow> jsnum \<Rightarrow> server_room \<times> bool" where
  "invalidate_local_media_for_owner st userId now =
     (let hit = filter (orphaned_item userId) (st_playlist st);
          st1 = st\<lparr>st_playlist := map (\<lambda>it. if orphaned_item userId it then block_item it else it) (st_playlist st)\<rparr>;
          invalidatedCurrent = (case js_nth (st_playlist st) (st_currentIndex st) of
             Some cur \<Rightarrow> pi_id cur \<in> pi_id ` set hit | None \<Rightarrow> False)
      in if invalidatedCurrent \<and> \<not> pb_paused (st_playback st)
         then (st1\<lparr>st_playback := (st_playback st)\<lparr>pb_paused := True,
                     pb_serverNowMs := next_monotonic_ms (pb_serverNowMs (st_playback st)) now\<rparr>\<rparr>, True)
         else (st1, hit \<noteq> []))"

definition mark_offline :: "jsnum \<Rightarrow> participant \<Rightarrow> participant" where
  "mark_offline now p = p\<lparr>pt_connected := False, pt_disconnectedAt := Some now, pt_lastSeenAt := Some now,
     pt_localPlayback := (pt_localPlayback p)\<lparr>lp_updatedAt := now\<rparr>\<rparr>"

definition apply_user_went_offline ::
  "limits \<Rightarrow> string \<Rightarrow> jsnum \<Rightarrow> server_room \<Rightarrow> string \<Rightarrow> string \<Rightarrow> server_room \<times> bool" where
  "apply_user_went_offline cfg uid now st roomId userId =
     (let member = map_of (st_participants st) userId;
          st1 = st\<lparr>st_participants := adjust userId (mark_offline now) (st_participants st)\<rparr>;
          r = invalidate_local_media_for_owner st1 userId now;
          st2 = fst r;
          didMutate = (member \<noteq> None \<or> snd r);
          st3 = (case member of
                   Some p \<Rightarrow> append_action_log cfg uid now st2
                     \<lparr>ai_roomId = roomId, ai_actorUserId = userId, ai_actorUsername = Some (pt_username p),
                       ai_action = ''participant:disconnected'', ai_payload = [], ai_error = None\<rparr>
                 | None \<Rightarrow> st2)
      in (if didMutate then st3\<lparr>st_updatedAt := now\<rparr> else st3, didMutate))"

definition publish_user_offline_presence :: "jsnum \<Rightarrow> string \<Rightarrow> string \<Rightarrow> server_room \<Rightarrow> world \<Rightarrow> world" where
  "publish_user_offline_presence now roomId userId st w =
     (let patch = empty_patch\<lparr>pp_connected := Some False, pp_lastSeenAt := Some now, pp_disconnectedAt := Some now,
            pp_localPlayback := map_option pt_localPlayback (map_of (st_participants st) userId)\<rparr>
      in emit (EPresenceDirty roomId userId patch) (merge_presence_data roomId userId patch w))"

section \<open>A socket closes\<close>

record disconnect_meta =
  dm_roomId :: string
  dm_userId :: string
  dm_connectionId :: string
  dm_presenceTracked :: bool

definition disconnect_commit ::
  "limits \<Rightarrow> string \<Rightarrow> jsnum \<Rightarrow> disconnect_meta \<Rightarrow> string list \<Rightarrow> server_room option \<Rightarrow> server_room option" where
  "disconnect_commit cfg uid now meta active cur =
     (case cur of
        None \<Rightarrow> None
      | Some st \<Rightarrow>
          (if active \<noteq> [] \<and> dm_userId meta \<in> set active then None
           else Some (bump_room_revisions
                  (fst (apply_user_went_offline cfg uid now st (dm_roomId meta) (dm_userId meta))))))"

text \<open>What happens once the room is known to stay: another tab is left, or the user is offline.\<close>

definition disconnect_tail ::
  "jsnum \<Rightarrow> disconnect_meta \<Rightarrow> bool \<Rightarrow> bool option \<Rightarrow> server_room option \<Rightarrow> world \<Rightarrow> world" where
  "disconnect_tail now meta stillConnected pausedBefore next' w =
     (let r = dm_roomId meta; u = dm_userId meta in
      if stillConnected then
        clear_connection_local_playback_report now r u (dm_connectionId meta)
          (emit (EReannounce r u) (emit (EClearProviderReady r u) w))
      else
        (let w1 = emit (EInvalidateViewerToken r u) w in
         case next' of
           None \<Rightarrow> w1
         | Some st \<Rightarrow>
             (let w2 = schedule_prune now r u (emit (EClearProviderReady r u) w1);
                  w3 = publish_user_offline_presence now r u st w2;
                  w4 = (if pausedBefore \<noteq> Some (pb_paused (st_playback st))
                        then publish_control r (control_payload_from_state st now) w3 else w3)
              in emit (ESnapshotDirty r) w4)))"

definition handle_socket_disconnect ::
  "limits \<Rightarrow> string \<Rightarrow> jsnum \<Rightarrow> disconnect_meta \<Rightarrow> world \<Rightarrow> world" where
  "handle_socket_disconnect cfg uid now meta w =
     (let r = dm_roomId meta; u = dm_userId meta;
          w1 = (if dm_presenceTracked meta then remove_ws_connection_ref r u w else w);
          before = get_room r w1;
          active = read_ws_presence_user_ids r w1;
          w2 = reconcile_presence_refs r w1
      in case update_room r (disconnect_commit cfg uid now meta active) w2 of
           (w3, next') \<Rightarrow>
             (let stillConnected = (before \<noteq> None \<and> active \<noteq> [] \<and> u \<in> set active);
                  pendingEmpty = (before \<noteq> None \<and> active = []);
                  tail = disconnect_tail now meta stillConnected
                    (map_option (\<lambda>st. pb_paused (st_playback st)) before) next'
              in if \<not> pendingEmpty then tail w3
                 else (case note_empty_presence_and_should_destroy now r w3 of
                         (w4, False) \<Rightarrow> tail w4
                       | (w4, True) \<Rightarrow>
                           (case confirm_empty_room_destroy_allowed now r
                                   (\<lambda>w. read_ws_presence_user_ids r w \<noteq> []) w4 of
                              (w5, True) \<Rightarrow> destroy_room now r w5
                            | (w5, False) \<Rightarrow> tail w5))))"

section \<open>The sweep\<close>

definition cleanup_commit ::
  "limits \<Rightarrow> string \<Rightarrow> string \<Rightarrow> jsnum \<Rightarrow> string list \<Rightarrow> server_room option \<Rightarrow> server_room option" where
  "cleanup_commit cfg uid freshId now active cur =
     (case cur of
        None \<Rightarrow> None
      | Some st0 \<Rightarrow>
          (let rep = apply_room_state_repair cfg freshId now st0;
               rec = reconcile_participants_connectivity (fst rep) active now;
               tr = transfer_ownership_if_needed cfg uid now (fst rec) RCleanup;
               didMutate = (snd rep \<noteq> [] \<or> rr_disconnecting (snd rec) \<noteq> [] \<or> rr_reconnecting (snd rec) \<noteq> [] \<or> snd tr)
           in if \<not> didMutate then None
              else Some (bump_room_revisions ((fst tr)\<lparr>st_updatedAt := now\<rparr>))))"

text \<open>The three lists of users the closure leaves for the prune index.\<close>

definition cleanup_lists ::
  "limits \<Rightarrow> string \<Rightarrow> jsnum \<Rightarrow> string list \<Rightarrow> server_room option \<Rightarrow> string list \<times> string list \<times> string list" where
  "cleanup_lists cfg freshId now active cur =
     (case cur of
        None \<Rightarrow> ([], [], [])
      | Some st0 \<Rightarrow>
          (let rec = reconcile_participants_connectivity (fst (apply_room_state_repair cfg freshId now st0)) active now
           in (rr_reconnecting (snd rec), rr_disconnecting (snd rec),
               list_participants_past_prune_grace (fst rec) now)))"

definition cleanup_index ::
  "jsnum \<Rightarrow> string \<Rightarrow> string list \<times> string list \<times> string list \<Rightarrow> world \<Rightarrow> world" where
  "cleanup_index now roomId queued w =
     (case queued of (reconnecting, disconnecting, pastGrace) \<Rightarrow>
       fold (schedule_prune_due now roomId) (filter (\<lambda>u. u \<notin> set disconnecting) pastGrace)
         (fold (schedule_prune now roomId) disconnecting
           (fold (clear_prune now roomId) reconnecting w)))"

definition cleanup_room ::
  "limits \<Rightarrow> (string \<Rightarrow> string) \<Rightarrow> (string \<Rightarrow> string) \<Rightarrow> jsnum \<Rightarrow> string \<Rightarrow> world \<times> nat \<Rightarrow> world \<times> nat" where
  "cleanup_room cfg uids freshIds now roomId acc =
     (case acc of (w, removed) \<Rightarrow>
       (let active = read_ws_presence_user_ids roomId w;
            w1 = reconcile_presence_refs roomId w;
            queued = cleanup_lists cfg (freshIds roomId) now active (get_room roomId w1)
        in case update_room roomId (cleanup_commit cfg (uids roomId) (freshIds roomId) now active) w1 of
             (w2, written) \<Rightarrow>
               (let w3 = cleanup_index now roomId queued w2;
                    finish = (\<lambda>w. if written \<noteq> None then emit (ESnapshotDirty roomId) w else w)
                in if active \<noteq> [] then (finish (clear_room_empty_marker roomId w3), removed)
                   else (case note_empty_presence_and_should_destroy now roomId w3 of
                           (w4, False) \<Rightarrow> (finish w4, removed)
                         | (w4, True) \<Rightarrow>
                             (case confirm_empty_room_destroy_allowed now roomId
                                     (\<lambda>w. read_ws_presence_user_ids roomId w \<noteq> []) w4 of
                                (w5, True) \<Rightarrow> (destroy_room now roomId w5, removed + 1)
                              | (w5, False) \<Rightarrow> (finish w5, removed))))))"

text \<open>
  How often the sweep runs (\<open>src/src/server/media/yt-dlp/policy.ts\<close>), by the configured time-out in
  whole milliseconds.
\<close>

definition derived_lock_heartbeat_ttl_seconds :: "nat \<Rightarrow> int" where
  "derived_lock_heartbeat_ttl_seconds timeoutMs =
     max 10 (min 30 (\<lceil>real timeoutMs / 1000 / 2\<rceil> + 5))"

definition derived_resolve_reclaim_interval_ms :: "nat \<Rightarrow> int" where
  "derived_resolve_reclaim_interval_ms timeoutMs = max 5000 (derived_lock_heartbeat_ttl_seconds timeoutMs * 500)"

record cleanup_result =
  cl_scannedRooms :: nat
  cl_removedRooms :: nat
  cl_removedParticipants :: nat

definition cleanup_inactive_rooms ::
  "limits \<Rightarrow> (string \<Rightarrow> string) \<Rightarrow> (string \<Rightarrow> string) \<Rightarrow> jsnum \<Rightarrow> world \<Rightarrow> world \<times> cleanup_result" where
  "cleanup_inactive_rooms cfg uids freshIds now w =
     (let roomIds = remdups (map fst (w_rooms w)) in
      case fold (cleanup_room cfg uids freshIds now) roomIds (w, 0) of
        (w1, removedRooms) \<Rightarrow>
          (case process_due_prunes cfg uids now w1 of
             (w2, removedParticipants) \<Rightarrow>
               (w2, \<lparr>cl_scannedRooms = length roomIds, cl_removedRooms = removedRooms,
                 cl_removedParticipants = removedParticipants\<rparr>)))"

section \<open>The invariant through the lifecycle\<close>

text \<open>Good rooms: the invariant, with the owner and the participants named.\<close>

abbreviation good_room :: "limits \<Rightarrow> server_room \<Rightarrow> bool" where
  "good_room cfg st \<equiv> room_wf cfg st \<and> room_named st"

lemma transfer_log_wf:
  "log_wf cfg (st_actionLog st) \<Longrightarrow> log_wf cfg (st_actionLog (fst (transfer_ownership_if_needed cfg uid now st reason)))"
  by (auto simp: transfer_ownership_if_needed_def Let_def split: option.split intro!: append_log_wf)

lemma transfer_owner_named:
  assumes "keyed (st_participants st)" "room_named st"
  shows "st_ownerId (fst (transfer_ownership_if_needed cfg uid now st reason)) \<noteq> []"
proof (cases "snd (transfer_ownership_if_needed cfg uid now st reason)")
  case True
  then obtain nx where nx: "map_of (st_participants st) (pt_userId nx) = Some nx"
    "st_ownerId (fst (transfer_ownership_if_needed cfg uid now st reason)) = pt_userId nx"
    using transfer_shape [OF assms(1) True] unfolding transferred_def by blast
  have "pt_userId nx \<in> set (keys_of (st_participants st))" by (rule lookup_key) (simp add: nx(1))
  with nx(2) assms(2) show ?thesis unfolding room_named_def by metis
next
  case False
  then show ?thesis using assms(2) by (simp add: transfer_no_effect room_named_def)
qed

lemma good_transfer [wf_intros]:
  assumes "good_room cfg st"
  shows "good_room cfg (fst (transfer_ownership_if_needed cfg uid now st reason))"
proof -
  note wf = room_wfD [OF conjunct1 [OF assms]]
  let ?t = "fst (transfer_ownership_if_needed cfg uid now st reason)"
  have "playlist_wf ?t" by (rule playlist_wf_frame [THEN iffD2, OF _ _ wf(1)]) simp_all
  then have "room_wf cfg ?t"
    using wf by (intro room_wfI transfer_keyed transfer_owner_unique transfer_log_wf) simp_all
  moreover have "room_named ?t"
    using transfer_owner_named [OF wf(2)] assms transfer_frame(8) [of cfg uid now st reason]
    by (simp add: room_named_def del: set_map)
  ultimately show ?thesis ..
qed

lemma good_bump [simp]:
  "good_room cfg (bump_room_revisions st) = good_room cfg st"
  "good_room cfg (st\<lparr>st_updatedAt := now\<rparr>) = good_room cfg st"
  by (simp_all add: room_wf_def room_named_def bump_room_revisions_def playlist_wf_defs owner_unique_def)

lemma good_delete:
  assumes "good_room cfg st"
  shows "good_room cfg (st\<lparr>st_participants := AList.delete u (st_participants st)\<rparr>)"
  using assms keyed_delete [of "st_participants st" u] owner_unique_delete [of st u]
  by (auto simp: room_wf_def room_named_def playlist_wf_defs dest: set_deleteD)

lemma good_fold_delete:
  assumes "good_room cfg st"
  shows "good_room cfg (st\<lparr>st_participants := fold AList.delete us (st_participants st)\<rparr>)"
  using assms
proof (induction us arbitrary: st)
  case (Cons u us)
  from Cons.IH [OF good_delete [OF Cons.prems, of u]] show ?case by simp
qed simp

lemma good_reconcile [wf_intros]:
  assumes "good_room cfg st"
  shows "good_room cfg (fst (reconcile_participants_connectivity st a now))"
  using assms owner_unique_reconcile [of st a now]
  by (simp add: room_wf_def room_named_def playlist_wf_defs keyed_map_vals del: set_map)

lemma good_repair [wf_intros]:
  assumes "good_room cfg st"
  shows "good_room cfg (fst (apply_room_state_repair cfg fid now st))"
proof
  note wf = room_wfD [OF conjunct1 [OF assms]]
  have own: "st_ownerId st \<noteq> []" using assms by (simp add: room_named_def)
  show "room_wf cfg (fst (apply_room_state_repair cfg fid now st))"
    using wf own by (intro repair_room_wf) (simp_all add: playlist_wf_def)
  show "room_named (fst (apply_room_state_repair cfg fid now st))"
    using repair_keys own by (simp add: room_named_def repair_owner_id del: set_map)
qed

lemma good_prune_body:
  assumes "\<And>st. cur = Some st \<Longrightarrow> good_room cfg st" "prune_body cfg uid now userId cur = Some st'"
  shows "good_room cfg st'"
  using assms(2)
proof (rule prune_body_Some)
  fix st p assume "cur = Some st"
    and st': "st' = (bump_room_revisions (fst (transfer_ownership_if_needed cfg uid now
        (st\<lparr>st_participants := AList.delete userId (st_participants st)\<rparr>) RPrune)))\<lparr>st_updatedAt := now\<rparr>"
  then have "good_room cfg (fst (transfer_ownership_if_needed cfg uid now
        (st\<lparr>st_participants := AList.delete userId (st_participants st)\<rparr>) RPrune))"
    using assms(1) by (intro good_transfer good_delete) simp
  then show ?thesis unfolding st' good_bump .
qed

lemma good_fallback_body:
  assumes "\<And>st. cur = Some st \<Longrightarrow> good_room cfg st" "fallback_body cfg uid now cur = Some st'"
  shows "good_room cfg st'"
proof -
  obtain st where st: "cur = Some st"
    "st' = (bump_room_revisions (fst (transfer_ownership_if_needed cfg uid now
        (fst (prune_offline_participants st now)) RPrune)))\<lparr>st_updatedAt := now\<rparr>"
    using assms(2) by (auto simp: fallback_body_def Let_def split: option.splits prod.splits if_splits)
  have "good_room cfg (fst (transfer_ownership_if_needed cfg uid now (fst (prune_offline_participants st now)) RPrune))"
    using good_fold_delete [OF assms(1) [OF st(1)]]
    by (intro good_transfer) (simp add: prune_offline_participants_def Let_def)
  then show ?thesis unfolding st(2) good_bump .
qed

lemma block_item_id [simp]: "pi_id (block_item it) = pi_id it"
  by (simp add: block_item_def)

lemma blocked_ids: "map pi_id (map (\<lambda>it. if P it then block_item it else it) pl) = map pi_id pl"
  by (induction pl) simp_all

lemma ids_ok_cong: "map pi_id xs = map pi_id ys \<Longrightarrow> ids_ok xs = ids_ok ys"
  unfolding ids_ok_def by (metis (no_types, lifting) image_iff list.set_map)

lemma invalidate_frame [simp]:
  "st_participants (fst (invalidate_local_media_for_owner st u now)) = st_participants st"
  "st_ownerId (fst (invalidate_local_media_for_owner st u now)) = st_ownerId st"
  "st_currentIndex (fst (invalidate_local_media_for_owner st u now)) = st_currentIndex st"
  "st_roomSecurity (fst (invalidate_local_media_for_owner st u now)) = st_roomSecurity st"
  "st_actionLog (fst (invalidate_local_media_for_owner st u now)) = st_actionLog st"
  "st_playlist (fst (invalidate_local_media_for_owner st u now)) =
     map (\<lambda>it. if orphaned_item u it then block_item it else it) (st_playlist st)"
  by (simp_all add: invalidate_local_media_for_owner_def Let_def)

lemma invalidate_playback_wf:
  "playback_wf (st_playback st) \<Longrightarrow> playback_wf (st_playback (fst (invalidate_local_media_for_owner st u now)))"
  using next_monotonic_less [of "pb_serverNowMs (st_playback st)" now]
  by (simp add: invalidate_local_media_for_owner_def Let_def playback_wf_def)

lemma mark_offline_sel [simp]:
  "pt_userId (mark_offline now p) = pt_userId p" "pt_role (mark_offline now p) = pt_role p"
  "pt_connected (mark_offline now p) = False" "pt_username (mark_offline now p) = pt_username p"
  "pt_disconnectedAt (mark_offline now p) = Some now"
  by (simp_all add: mark_offline_def)

lemma offline_frame [simp]:
  "st_participants (fst (apply_user_went_offline cfg uid now st r u)) = adjust u (mark_offline now) (st_participants st)"
  "st_ownerId (fst (apply_user_went_offline cfg uid now st r u)) = st_ownerId st"
  "st_currentIndex (fst (apply_user_went_offline cfg uid now st r u)) = st_currentIndex st"
  "st_roomSecurity (fst (apply_user_went_offline cfg uid now st r u)) = st_roomSecurity st"
  "st_playlist (fst (apply_user_went_offline cfg uid now st r u)) =
     map (\<lambda>it. if orphaned_item u it then block_item it else it) (st_playlist st)"
  by (simp_all add: apply_user_went_offline_def Let_def split: option.split)

lemma offline_playback:
  "st_playback (fst (apply_user_went_offline cfg uid now st r u)) =
     st_playback (fst (invalidate_local_media_for_owner (st\<lparr>st_participants := adjust u (mark_offline now) (st_participants st)\<rparr>) u now))"
  by (simp add: apply_user_went_offline_def Let_def split: option.split)

lemma offline_log_wf:
  "log_wf cfg (st_actionLog st) \<Longrightarrow> log_wf cfg (st_actionLog (fst (apply_user_went_offline cfg uid now st r u)))"
  by (auto simp: apply_user_went_offline_def Let_def split: option.split intro!: append_log_wf)

lemma good_offline [wf_intros]:
  assumes "good_room cfg st"
  shows "good_room cfg (fst (apply_user_went_offline cfg uid now st r u))"
proof -
  note wf = room_wfD [OF conjunct1 [OF assms]]
  let ?t = "fst (apply_user_went_offline cfg uid now st r u)"
  have "playlist_wf ?t"
    using wf(1) ids_ok_cong [OF blocked_ids] by (simp add: playlist_wf_def index_ok_def)
  moreover have "owner_unique ?t"
    by (rule owner_unique_adjust [OF _ wf(3) offline_frame(1,2)]) simp
  ultimately have "room_wf cfg ?t"
    using wf by (intro room_wfI offline_log_wf) (simp_all add: keyed_adjust offline_playback invalidate_playback_wf)
  then show ?thesis using assms by (simp add: room_named_def del: set_map)
qed

lemma good_disconnect_commit:
  assumes "\<And>st. cur = Some st \<Longrightarrow> good_room cfg st" "disconnect_commit cfg uid now meta active cur = Some st'"
  shows "good_room cfg st'"
proof -
  obtain st where st: "cur = Some st"
    "st' = bump_room_revisions (fst (apply_user_went_offline cfg uid now st (dm_roomId meta) (dm_userId meta)))"
    using assms(2) by (auto simp: disconnect_commit_def split: option.splits if_splits)
  show ?thesis unfolding st(2) good_bump using assms(1) [OF st(1)] by (rule good_offline)
qed

lemma good_cleanup_commit:
  assumes "\<And>st. cur = Some st \<Longrightarrow> good_room cfg st" "cleanup_commit cfg uid fid now active cur = Some st'"
  shows "good_room cfg st'"
proof -
  obtain st where st: "cur = Some st"
    "st' = bump_room_revisions ((fst (transfer_ownership_if_needed cfg uid now
        (fst (reconcile_participants_connectivity (fst (apply_room_state_repair cfg fid now st)) active now))
        RCleanup))\<lparr>st_updatedAt := now\<rparr>)"
    using assms(2) by (auto simp: cleanup_commit_def Let_def split: option.splits if_splits)
  show ?thesis unfolding st(2) good_bump
    using assms(1) [OF st(1)] by (intro good_transfer good_reconcile good_repair)
qed

text \<open>The world keeps well formed when every stored room does.\<close>

lemma update_room_wf:
  assumes "world_wf cfg w" "\<And>cur st'. (\<And>st. cur = Some st \<Longrightarrow> good_room cfg st) \<Longrightarrow> f cur = Some st' \<Longrightarrow> good_room cfg st'"
  shows "world_wf cfg (fst (update_room r f w))"
  using assms(1) by (rule world_wf_update_room) (use assms world_wfD in blast)

lemma world_wf_delete: "world_wf cfg w \<Longrightarrow> world_wf cfg (store_delete r w)"
  by (auto simp: world_wf_def store_delete_def dest: set_deleteD)

lemma presence_frame_rooms [simp]:
  "w_rooms (bump_ws_connection_ref r u d w) = w_rooms w"
  "w_rooms (add_ws_connection_ref r u w) = w_rooms w"
  "w_rooms (remove_ws_connection_ref r u w) = w_rooms w"
  "w_rooms (mark_room_empty_if_absent now r w) = w_rooms w"
  "w_rooms (clear_room_empty_marker r w) = w_rooms w"
  "w_rooms (publish_user_offline_presence now r u st w) = w_rooms w"
  "w_rooms (clear_connection_local_playback_report now r u c w) = w_rooms w"
  by (simp_all add: bump_ws_connection_ref_def add_ws_connection_ref_def remove_ws_connection_ref_def
      mark_room_empty_if_absent_def clear_room_empty_marker_def publish_user_offline_presence_def
      clear_connection_local_playback_report_def Let_def split: option.split)

lemma note_confirm_rooms [simp]:
  "w_rooms (fst (note_empty_presence_and_should_destroy now r w)) = w_rooms w"
  "w_rooms (fst (confirm_empty_room_destroy_allowed now r p w)) = w_rooms w"
  by (simp_all add: note_empty_presence_and_should_destroy_def confirm_empty_room_destroy_allowed_def Let_def)

lemma delete_media_rooms [simp]: "w_rooms (delete_local_media_for_room_owners cur r w) = w_rooms w"
proof -
  have "w_rooms (fold (\<lambda>u. emit (EDeleteLocalMedia r u)) us w) = w_rooms w" for us
    by (induction us arbitrary: w) simp_all
  then show ?thesis by (simp add: delete_local_media_for_room_owners_def)
qed

lemma destroy_room_wf [wf_intros]: "world_wf cfg w \<Longrightarrow> world_wf cfg (destroy_room now r w)"
  unfolding destroy_room_def Let_def
  by (rule world_wf_delete) (simp add: world_wf_def)

lemma disconnect_tail_rooms [simp]: "w_rooms (disconnect_tail now meta b pb nx w) = w_rooms w"
  by (simp add: disconnect_tail_def Let_def split: option.split)

lemma empty_check_wf:
  assumes "world_wf cfg w" "\<And>w'. world_wf cfg w' \<Longrightarrow> Q (tail w')" "\<And>w'. world_wf cfg w' \<Longrightarrow> Q (gone w')"
  shows "Q (case note_empty_presence_and_should_destroy now r w of
      (w4, False) \<Rightarrow> tail w4
    | (w4, True) \<Rightarrow> (case confirm_empty_room_destroy_allowed now r p w4 of
        (w5, True) \<Rightarrow> gone w5 | (w5, False) \<Rightarrow> tail w5))"
proof (cases "note_empty_presence_and_should_destroy now r w")
  case (Pair w4 b)
  have w4: "world_wf cfg w4" using assms(1) world_wf_cong [OF note_confirm_rooms(1), of cfg now r w] Pair by simp
  show ?thesis
  proof (cases "confirm_empty_room_destroy_allowed now r p w4")
    case pair5: (Pair w5 b5)
    have "world_wf cfg w5" using w4 world_wf_cong [OF note_confirm_rooms(2), of cfg now r p w4] pair5 by simp
    then show ?thesis using Pair pair5 assms(2,3) w4 by (cases b; cases b5) auto
  qed
qed

lemma disconnect_wf [wf_intros]:
  assumes "world_wf cfg w"
  shows "world_wf cfg (handle_socket_disconnect cfg uid now meta w)"
proof -
  let ?w1 = "if dm_presenceTracked meta then remove_ws_connection_ref (dm_roomId meta) (dm_userId meta) w else w"
  let ?a = "read_ws_presence_user_ids (dm_roomId meta) ?w1"
  let ?u = "update_room (dm_roomId meta) (disconnect_commit cfg uid now meta ?a) (reconcile_presence_refs (dm_roomId meta) ?w1)"
  have "world_wf cfg (reconcile_presence_refs (dm_roomId meta) ?w1)"
    using assms by (simp add: world_wf_def)
  then have w3: "world_wf cfg (fst ?u)" by (rule update_room_wf) (rule good_disconnect_commit)
  have tail: "world_wf cfg (disconnect_tail now meta b pb nx w') = world_wf cfg w'" for b pb nx w'
    by (rule world_wf_cong) simp
  obtain w3 nx where u: "?u = (w3, nx)" by (cases ?u)
  show ?thesis
    unfolding handle_socket_disconnect_def Let_def u prod.case
    using w3 empty_check_wf [of cfg w3 "world_wf cfg"] destroy_room_wf [of cfg] unfolding u fst_conv
    by (simp add: tail)
qed

lemma cleanup_index_rooms [simp]: "w_rooms (cleanup_index now r ls w) = w_rooms w"
proof -
  have "w_rooms (fold (schedule_prune_due now r) us w) = w_rooms w" for us w
    by (induction us arbitrary: w) simp_all
  then show ?thesis by (simp add: cleanup_index_def prune_fold_rooms split: prod.split)
qed

lemma fold_wf:
  assumes "\<And>x acc. P (fst acc) \<Longrightarrow> P (fst (f x acc))" "P (fst acc)"
  shows "P (fst (fold f xs acc))"
  using assms(2) by (induction xs arbitrary: acc) (simp_all add: assms(1))

lemma cleanup_room_wf:
  assumes "world_wf cfg (fst acc)"
  shows "world_wf cfg (fst (cleanup_room cfg uids freshIds now r acc))"
proof -
  obtain w n where acc: "acc = (w, n)" by (cases acc)
  let ?a = "read_ws_presence_user_ids r w"
  let ?u = "update_room r (cleanup_commit cfg (uids r) (freshIds r) now ?a) (reconcile_presence_refs r w)"
  have "world_wf cfg (reconcile_presence_refs r w)" using assms acc by (simp add: world_wf_def)
  then have w3: "world_wf cfg (fst ?u)" by (rule update_room_wf) (rule good_cleanup_commit)
  obtain w2 nx where u: "?u = (w2, nx)" by (cases ?u)
  let ?w3 = "cleanup_index now r (cleanup_lists cfg (freshIds r) now ?a (get_room r (reconcile_presence_refs r w))) w2"
  have ok3: "world_wf cfg ?w3" using w3 u world_wf_cong [OF cleanup_index_rooms] by simp
  let ?finish = "\<lambda>w. if nx \<noteq> None then emit (ESnapshotDirty r) w else w"
  have fin: "world_wf cfg w' \<Longrightarrow> world_wf cfg (?finish w')" for w' by simp
  have clear: "world_wf cfg (clear_room_empty_marker r ?w3)" using ok3 by (simp add: world_wf_def)
  show ?thesis
  proof (cases "?a = []")
    case True
    have "world_wf cfg (fst (case note_empty_presence_and_should_destroy now r ?w3 of
      (w4, False) \<Rightarrow> (?finish w4, n)
    | (w4, True) \<Rightarrow> (case confirm_empty_room_destroy_allowed now r (\<lambda>w. read_ws_presence_user_ids r w \<noteq> []) w4 of
        (w5, True) \<Rightarrow> (destroy_room now r w5, n + 1) | (w5, False) \<Rightarrow> (?finish w5, n))))"
      by (rule empty_check_wf [OF ok3]) (simp_all add: destroy_room_wf)
    then show ?thesis unfolding acc cleanup_room_def prod.case Let_def u if_not_P [OF iffD2 [OF not_not True]] .
  next
    case False
    with clear fin show ?thesis unfolding acc cleanup_room_def prod.case Let_def u by simp
  qed
qed

lemma prune_member_wf:
  assumes "world_wf cfg (fst acc)"
  shows "world_wf cfg (fst (prune_member cfg uids now m acc))"
proof -
  obtain w n where acc: "acc = (w, n)" by (cases acc)
  have ok: "world_wf cfg w" using assms acc by simp
  have rem: "world_wf cfg (fst (remove_disconnected_participant cfg uid now r u w))" for uid r u
  proof (cases "update_room r (prune_body cfg uid now u) w")
    case (Pair w1 nx)
    have "world_wf cfg (fst (update_room r (prune_body cfg uid now u) w))"
      using ok by (rule update_room_wf) (rule good_prune_body)
    then show ?thesis by (simp add: remove_disconnected_participant_def Pair split: option.split)
  qed
  have srem: "world_wf cfg (s_rem now m w') = world_wf cfg w'" for w' by (rule world_wf_cong) simp
  show ?thesis
    using ok rem by (auto simp: acc prune_member_def srem split_def split: option.split)
qed

lemma fallback_room_wf:
  assumes "world_wf cfg (fst acc)"
  shows "world_wf cfg (fst (fallback_room cfg uids now r acc))"
proof -
  obtain w n where acc: "acc = (w, n)" by (cases acc)
  have "world_wf cfg w" using assms acc by simp
  then have "world_wf cfg (fst (update_room r (fallback_body cfg (uids r) now) w))"
    by (rule update_room_wf) (rule good_fallback_body)
  then show ?thesis by (simp add: acc fallback_room_def split_def split: option.split)
qed

lemma process_due_prunes_wf [wf_intros]:
  assumes "world_wf cfg w"
  shows "world_wf cfg (fst (process_due_prunes cfg uids now w))"
proof -
  have "world_wf cfg (fst (fold (prune_member cfg uids now) ms (w, 0)))" for ms
    by (rule fold_wf [where P = "world_wf cfg"]) (use assms prune_member_wf in auto)
  moreover have "world_wf cfg (fst (fold (fallback_room cfg uids now) rs (w, 0)))" for rs
    by (rule fold_wf [where P = "world_wf cfg"]) (use assms fallback_room_wf in auto)
  moreover have "world_wf cfg (refresh_pending_ttl now w') = world_wf cfg w'" for w'
    by (rule world_wf_cong) simp
  ultimately show ?thesis
    using assms by (simp add: process_due_prunes_def prune_from_redis_index_def prune_by_disconnected_at_fallback_def Let_def)
qed

lemma cleanup_wf [wf_intros]:
  assumes "world_wf cfg w"
  shows "world_wf cfg (fst (cleanup_inactive_rooms cfg uids freshIds now w))"
proof -
  let ?f = "fold (cleanup_room cfg uids freshIds now) (remdups (map fst (w_rooms w))) (w, 0)"
  have "world_wf cfg (fst ?f)"
    by (rule fold_wf [where P = "world_wf cfg"]) (use assms cleanup_room_wf in auto)
  then have "world_wf cfg (fst (process_due_prunes cfg uids now (fst ?f)))" by (rule process_due_prunes_wf)
  then show ?thesis by (simp add: cleanup_inactive_rooms_def Let_def split_def)
qed

section \<open>One sweep of an empty room\<close>

text \<open>What the presence scan and the marker depend on.\<close>

lemma read_ws_cong:
  assumes "w_refs w' = w_refs w" "w_node w' = w_node w" "w_alive w' = w_alive w" "w_reliable w' = w_reliable w"
  shows "read_ws_presence_user_ids r w' = read_ws_presence_user_ids r w"
  using assms by (simp add: read_ws_presence_user_ids_def room_refs_def alive_nodes_def)

lemma index_ops_frame [simp]:
  "w_refs (clear_prune now r u w) = w_refs w" "w_refs (schedule_prune now r u w) = w_refs w"
  "w_refs (schedule_prune_due now r u w) = w_refs w" "w_node (clear_prune now r u w) = w_node w"
  "w_node (schedule_prune now r u w) = w_node w" "w_node (schedule_prune_due now r u w) = w_node w"
  "w_alive (clear_prune now r u w) = w_alive w" "w_alive (schedule_prune now r u w) = w_alive w"
  "w_alive (schedule_prune_due now r u w) = w_alive w" "w_reliable (clear_prune now r u w) = w_reliable w"
  "w_reliable (schedule_prune now r u w) = w_reliable w" "w_reliable (schedule_prune_due now r u w) = w_reliable w"
  "w_emptyAt (clear_prune now r u w) = w_emptyAt w" "w_emptyAt (schedule_prune now r u w) = w_emptyAt w"
  "w_emptyAt (schedule_prune_due now r u w) = w_emptyAt w" "w_emptyUp (clear_prune now r u w) = w_emptyUp w"
  "w_emptyUp (schedule_prune now r u w) = w_emptyUp w" "w_emptyUp (schedule_prune_due now r u w) = w_emptyUp w"
  "w_draining (clear_prune now r u w) = w_draining w" "w_draining (schedule_prune now r u w) = w_draining w"
  "w_draining (schedule_prune_due now r u w) = w_draining w"
  by (simp_all add: clear_prune_def schedule_prune_def schedule_prune_due_def s_add_def s_rem_def
      refresh_pending_ttl_def del_grace_def)

text \<open>The parts of the world that decide whether an empty room goes.\<close>

definition same_marker_view :: "world \<Rightarrow> world \<Rightarrow> bool" where
  "same_marker_view w w' = (w_emptyAt w' = w_emptyAt w \<and> w_emptyUp w' = w_emptyUp w \<and> w_draining w' = w_draining w
     \<and> (\<forall>r. read_ws_presence_user_ids r w' = read_ws_presence_user_ids r w))"

lemma view_refl [simp]: "same_marker_view w w"
  by (simp add: same_marker_view_def)

lemma view_trans: "same_marker_view a b \<Longrightarrow> same_marker_view b c \<Longrightarrow> same_marker_view a c"
  by (simp add: same_marker_view_def)

lemma view_fold:
  assumes "\<And>u w. same_marker_view w (f u w)"
  shows "same_marker_view w (fold f us w)"
proof (induction us arbitrary: w)
  case (Cons u us)
  show ?case using view_trans [OF assms Cons.IH] by simp
qed simp

lemma view_index [simp]:
  "same_marker_view w (clear_prune now r u w)" "same_marker_view w (schedule_prune now r u w)"
  "same_marker_view w (schedule_prune_due now r u w)"
  by (auto simp: same_marker_view_def intro!: read_ws_cong)

lemma view_cleanup_index: "same_marker_view w (cleanup_index now r ls w)"
  unfolding cleanup_index_def split_def
  by (intro view_trans [OF view_trans [OF view_fold view_fold] view_fold]) simp_all

lemma view_update_room [simp]: "same_marker_view w (fst (update_room r f w))"
  by (auto simp: same_marker_view_def update_room_def split: option.split intro!: read_ws_cong)

lemma view_reconcile [simp]: "same_marker_view w (reconcile_presence_refs r w)"
proof -
  have "w_emptyAt (reconcile_presence_refs r w) = w_emptyAt w"
    "w_emptyUp (reconcile_presence_refs r w) = w_emptyUp w"
    "w_draining (reconcile_presence_refs r w) = w_draining w"
    by (simp_all add: reconcile_presence_refs_def)
  then show ?thesis by (simp add: same_marker_view_def)
qed

lemma view_emit [simp]: "same_marker_view w (emit e w)"
  by (auto simp: same_marker_view_def emit_def intro!: read_ws_cong)

text \<open>The world a sweep has before it looks at the marker.\<close>

definition swept ::
  "limits \<Rightarrow> (string \<Rightarrow> string) \<Rightarrow> (string \<Rightarrow> string) \<Rightarrow> jsnum \<Rightarrow> string \<Rightarrow> world \<Rightarrow> world" where
  "swept cfg uids fids now r w =
     cleanup_index now r
       (cleanup_lists cfg (fids r) now (read_ws_presence_user_ids r w) (get_room r (reconcile_presence_refs r w)))
       (fst (update_room r (cleanup_commit cfg (uids r) (fids r) now (read_ws_presence_user_ids r w))
          (reconcile_presence_refs r w)))"

lemma view_swept: "same_marker_view w (swept cfg uids fids now r w)"
  unfolding swept_def
  by (rule view_trans [OF view_trans [OF view_reconcile view_update_room] view_cleanup_index])

lemma swept_keeps_room: "get_room r (swept cfg uids fids now r w) = None \<longleftrightarrow> get_room r w = None"
proof -
  have "w_rooms (swept cfg uids fids now r w) = w_rooms (fst (update_room r
      (cleanup_commit cfg (uids r) (fids r) now (read_ws_presence_user_ids r w)) (reconcile_presence_refs r w)))"
    by (simp add: swept_def)
  from get_room_cong [OF this, of r] show ?thesis
    by (simp add: update_room_get cleanup_commit_def split: option.split)
qed

lemma get_room_destroyed [simp]: "get_room r (destroy_room now r w) = None"
  by (simp add: destroy_room_def store_delete_def Let_def get_room_def)

lemma cleanup_room_cases:
  assumes "read_ws_presence_user_ids r w = []" "w_emptyUp w" "\<not> w_draining w"
  shows "cleanup_room cfg uids fids now r (w, n) =
     (let s = swept cfg uids fids now r w;
          written = snd (update_room r (cleanup_commit cfg (uids r) (fids r) now []) (reconcile_presence_refs r w));
          w4 = mark_room_empty_if_absent now r s
      in if is_empty_room_grace_elapsed now r w4 then (destroy_room now r w4, n + 1)
         else (if written \<noteq> None then emit (ESnapshotDirty r) w4 else w4, n))"
proof -
  let ?s = "swept cfg uids fids now r w"
  obtain w2 written where u: "update_room r (cleanup_commit cfg (uids r) (fids r) now []) (reconcile_presence_refs r w) = (w2, written)"
    by (cases "update_room r (cleanup_commit cfg (uids r) (fids r) now []) (reconcile_presence_refs r w)")
  have s: "?s = cleanup_index now r (cleanup_lists cfg (fids r) now [] (get_room r (reconcile_presence_refs r w))) w2"
    unfolding swept_def assms(1) u by simp
  have flags: "w_emptyUp ?s" "\<not> w_draining ?s" "read_ws_presence_user_ids r ?s = []"
    using view_swept [of w cfg uids fids now r] assms unfolding same_marker_view_def by simp_all
  have m: "w_draining (mark_room_empty_if_absent now r ?s) = w_draining ?s"
    "read_ws_presence_user_ids r (mark_room_empty_if_absent now r ?s) = read_ws_presence_user_ids r ?s"
    by (auto simp: mark_room_empty_if_absent_def intro!: read_ws_cong)
  have note': "note_empty_presence_and_should_destroy now r ?s =
      (mark_room_empty_if_absent now r ?s, is_empty_room_grace_elapsed now r (mark_room_empty_if_absent now r ?s))"
    using flags m by (simp add: note_empty_presence_and_should_destroy_def may_destroy_empty_room_on_this_process_def Let_def)
  have confirm: "confirm_empty_room_destroy_allowed now r (\<lambda>w. read_ws_presence_user_ids r w \<noteq> []) (mark_room_empty_if_absent now r ?s) =
      (mark_room_empty_if_absent now r ?s, is_empty_room_grace_elapsed now r (mark_room_empty_if_absent now r ?s))"
    using flags m by (simp add: confirm_empty_room_destroy_allowed_def may_destroy_empty_room_on_this_process_def)
  show ?thesis
    unfolding cleanup_room_def prod.case Let_def assms(1) u snd_conv s [symmetric] note'
    by (simp add: confirm)
qed

end
