(* ===== verification/Lifecycle_Properties.thy ===== *)
theory Lifecycle_Properties
  imports Lifecycle
begin

text \<open>
  What the lifecycle of connections and rooms guarantees: an abandoned room is removed within a
  fixed number of sweeps, a sweep never removes a room in use, and a disconnect changes what it
  should of the room it leaves.
\<close>

section \<open>What decides about one room\<close>

definition room_view :: "string \<Rightarrow> world \<Rightarrow> world \<Rightarrow> bool" where
  "room_view r w w' = (map_of (w_emptyAt w') r = map_of (w_emptyAt w) r \<and> w_emptyUp w' = w_emptyUp w
     \<and> w_draining w' = w_draining w \<and> read_ws_presence_user_ids r w' = read_ws_presence_user_ids r w
     \<and> (get_room r w' = None \<longleftrightarrow> get_room r w = None))"

lemma room_view_refl [simp]: "room_view r w w"
  by (simp add: room_view_def)

lemma room_view_trans: "room_view r a b \<Longrightarrow> room_view r b c \<Longrightarrow> room_view r a c"
  by (simp add: room_view_def)

lemma room_viewI: "same_marker_view w w' \<Longrightarrow> (get_room r w' = None \<longleftrightarrow> get_room r w = None) \<Longrightarrow> room_view r w w'"
  by (simp add: room_view_def same_marker_view_def)

lemma room_view_same_rooms: "same_marker_view w w' \<Longrightarrow> w_rooms w' = w_rooms w \<Longrightarrow> room_view r w w'"
  by (rule room_viewI) (simp_all add: get_room_def)

lemma room_view_fold:
  assumes "\<And>x w. x \<in> set xs \<Longrightarrow> room_view r (fst w) (fst (f x w))"
  shows "room_view r (fst w) (fst (fold f xs w))"
  using assms
proof (induction xs arbitrary: w)
  case (Cons x xs)
  have "room_view r (fst w) (fst (f x w))" "room_view r (fst (f x w)) (fst (fold f xs (f x w)))"
    using Cons.prems by (auto intro!: Cons.IH)
  then show ?case using room_view_trans by simp
qed simp

lemma room_view_other_marker:
  "r \<noteq> r' \<Longrightarrow> room_view r w (mark_room_empty_if_absent now r' w)"
  "r \<noteq> r' \<Longrightarrow> room_view r w (clear_room_empty_marker r' w)"
  by (auto simp: room_view_def mark_room_empty_if_absent_def clear_room_empty_marker_def get_room_def
      intro!: read_ws_cong)

lemma room_view_note_confirm:
  assumes "r \<noteq> r'"
  shows "room_view r w (fst (note_empty_presence_and_should_destroy now r' w))"
    "room_view r w (fst (confirm_empty_room_destroy_allowed now r' p w))"
  using room_view_other_marker [OF assms]
  by (simp_all add: note_empty_presence_and_should_destroy_def confirm_empty_room_destroy_allowed_def Let_def)

lemma room_view_destroy:
  assumes "r \<noteq> r'"
  shows "room_view r w (destroy_room now r' w)"
proof -
  let ?w3 = "emit (ECloseSfu r') (delete_local_media_for_room_owners (get_room r' (clear_all_room_prunes now r' w)) r'
     (clear_all_room_prunes now r' w))"
  have p: "same_marker_view w (clear_all_room_prunes now r' w)"
    by (auto simp: clear_all_room_prunes_def same_marker_view_def refresh_pending_ttl_def intro!: read_ws_cong)
  have d: "same_marker_view w' (delete_local_media_for_room_owners cur r' w')" for w' cur
    unfolding delete_local_media_for_room_owners_def by (rule view_fold) simp
  have "same_marker_view w ?w3" using p d view_emit by (meson view_trans)
  then have "room_view r w ?w3"
    by (rule room_view_same_rooms) simp
  moreover have "room_view r w3 (store_delete r' w3)" for w3
    using assms by (simp add: room_view_def store_delete_def get_room_def emit_def read_ws_presence_user_ids_def
        room_refs_def alive_nodes_def)
  ultimately show ?thesis
    unfolding destroy_room_def Let_def by (rule room_view_trans)
qed


lemma swept_room_view: "room_view r w (swept cfg uids fids now r' w)"
proof (rule room_viewI [OF view_swept])
  have "w_rooms (swept cfg uids fids now r' w) = w_rooms (fst (update_room r'
      (cleanup_commit cfg (uids r') (fids r') now (read_ws_presence_user_ids r' w)) (reconcile_presence_refs r' w)))"
    by (simp add: swept_def)
  from get_room_cong [OF this, of r]
  show "get_room r (swept cfg uids fids now r' w) = None \<longleftrightarrow> get_room r w = None"
    by (cases "r = r'") (auto simp: update_room_get cleanup_commit_def split: option.split)
qed

lemma room_view_finish: "room_view r w (if b then emit e w else w)"
  using room_view_same_rooms [OF view_emit] by simp

lemma room_view_empty_check:
  assumes "r \<noteq> r'" "\<And>w n. room_view r w (fst (tail w n))" "\<And>w n. room_view r w (fst (gone w n))"
  shows "room_view r w (fst (case note_empty_presence_and_should_destroy now r' w of
      (w4, False) \<Rightarrow> tail w4 n
    | (w4, True) \<Rightarrow> (case confirm_empty_room_destroy_allowed now r' p w4 of
        (w5, True) \<Rightarrow> gone w5 n | (w5, False) \<Rightarrow> tail w5 n)))"
proof (cases "note_empty_presence_and_should_destroy now r' w")
  case (Pair w4 b)
  then have w4: "room_view r w w4" using room_view_note_confirm(1) [OF assms(1), of w now] by simp
  show ?thesis
  proof (cases "confirm_empty_room_destroy_allowed now r' p w4")
    case pair5: (Pair w5 b5)
    then have w5: "room_view r w w5"
      using room_view_trans [OF w4 room_view_note_confirm(2) [OF assms(1), of w4 now p]] by simp
    show ?thesis
      using w4 w5 assms(2,3) room_view_trans Pair pair5 by (cases b; cases b5) (simp; blast)+
  qed
qed

lemma room_view_cleanup_room:
  assumes "r \<noteq> r'"
  shows "room_view r (fst acc) (fst (cleanup_room cfg uids fids now r' acc))"
proof -
  obtain w n where acc: "acc = (w, n)" by (cases acc)
  let ?a = "read_ws_presence_user_ids r' w"
  let ?u = "update_room r' (cleanup_commit cfg (uids r') (fids r') now ?a) (reconcile_presence_refs r' w)"
  obtain w2 nx where u: "?u = (w2, nx)" by (cases ?u)
  let ?finish = "\<lambda>w. if nx \<noteq> None then emit (ESnapshotDirty r') w else w"
  let ?s = "swept cfg uids fids now r' w"
  have s: "cleanup_index now r' (cleanup_lists cfg (fids r') now ?a (get_room r' (reconcile_presence_refs r' w))) w2 = ?s"
    unfolding swept_def u by simp
  note start = swept_room_view [of r w cfg uids fids now r']
  show ?thesis
  proof (cases "?a = []")
    case True
    have "room_view r ?s (fst (case note_empty_presence_and_should_destroy now r' ?s of
      (w4, False) \<Rightarrow> (?finish w4, n)
    | (w4, True) \<Rightarrow> (case confirm_empty_room_destroy_allowed now r' (\<lambda>w. read_ws_presence_user_ids r' w \<noteq> []) w4 of
        (w5, True) \<Rightarrow> (destroy_room now r' w5, n + 1) | (w5, False) \<Rightarrow> (?finish w5, n))))"
      by (rule room_view_empty_check [OF assms, where tail = "\<lambda>w n. (?finish w, n)" and gone = "\<lambda>w n. (destroy_room now r' w, n + 1)"])
        (simp_all add: room_view_finish room_view_destroy [OF assms] room_view_same_rooms)
    from room_view_trans [OF start this] show ?thesis
      unfolding acc fst_conv cleanup_room_def prod.case Let_def u s if_not_P [OF iffD2 [OF not_not True]] .
  next
    case False
    have "room_view r w (?finish (clear_room_empty_marker r' ?s))"
      by (rule room_view_trans [OF room_view_trans [OF start room_view_other_marker(2) [OF assms]] room_view_finish])
    then show ?thesis unfolding acc fst_conv cleanup_room_def prod.case Let_def u s by (simp add: False)
  qed
qed

lemma room_view_update_room:
  assumes "f None = None"
  shows "room_view r w (fst (update_room r' f w))"
proof (rule room_viewI)
  show "get_room r (fst (update_room r' f w)) = None \<longleftrightarrow> get_room r w = None"
    using assms by (cases "get_room r' w"; cases "r = r'") (auto simp: update_room_get split: option.split)
qed simp

lemma view_prune_index:
  "same_marker_view w (s_rem now m w)" "same_marker_view w (refresh_pending_ttl now w)"
  by (auto simp: same_marker_view_def s_rem_def refresh_pending_ttl_def intro!: read_ws_cong)

lemma room_view_index:
  "room_view r w (s_rem now m w)" "room_view r w (refresh_pending_ttl now w)" "room_view r w (emit e w)"
  using view_prune_index view_emit by (auto intro: room_view_same_rooms)

lemma room_view_prunes: "room_view r w (fst (process_due_prunes cfg uids now w))"
proof -
  have rem: "room_view r w (fst (remove_disconnected_participant cfg uid now r' u w))" for w uid r' u
  proof (cases "update_room r' (prune_body cfg uid now u) w")
    case (Pair w1 nx)
    then have "room_view r w w1"
      using room_view_update_room [of "prune_body cfg uid now u" r w r'] by (simp add: prune_body_def)
    then have "room_view r w (emit e1 (emit e2 w1))" "room_view r w w1" for e1 e2
      using room_view_index(3) room_view_trans by blast+
    then show ?thesis by (simp add: remove_disconnected_participant_def Pair split: option.split)
  qed
  have member: "room_view r (fst acc) (fst (prune_member cfg uids now m acc))" for m acc
    unfolding prune_member_def split_def
    by (auto simp: room_view_index(1) split: option.split intro!: room_view_trans [OF rem room_view_index(1)])
  have fall: "room_view r (fst acc) (fst (fallback_room cfg uids now r' acc))" for r' acc
  proof -
    obtain w n where acc: "acc = (w, n)" by (cases acc)
    obtain w1 nx where u: "update_room r' (fallback_body cfg (uids r') now) w = (w1, nx)"
      by (cases "update_room r' (fallback_body cfg (uids r') now) w")
    then have "room_view r w w1"
      using room_view_update_room [of "fallback_body cfg (uids r') now" r w r'] by (simp add: fallback_body_def)
    then show ?thesis
      using room_view_trans [OF _ room_view_index(3)] by (simp add: acc fallback_room_def u split: option.split)
  qed
  have "room_view r w (fst (fold (prune_member cfg uids now) ms (w, 0)))" for ms
    using room_view_fold [where f = "prune_member cfg uids now" and w = "(w, 0)"] member by simp
  moreover have "room_view r w (fst (fold (fallback_room cfg uids now) rs (w, 0)))" for rs
    using room_view_fold [where f = "fallback_room cfg uids now" and w = "(w, 0)"] fall by simp
  ultimately show ?thesis
    using room_view_trans [OF _ room_view_index(2)]
    by (simp add: process_due_prunes_def prune_from_redis_index_def prune_by_disconnected_at_fallback_def Let_def)
qed

section \<open>An abandoned room\<close>

text \<open>Nobody is in the room, and this process may read the marker and remove rooms.\<close>

definition idle_room :: "string \<Rightarrow> world \<Rightarrow> bool" where
  "idle_room r w = (read_ws_presence_user_ids r w = [] \<and> w_emptyUp w \<and> \<not> w_draining w)"

definition marker_ok :: "jsnum \<Rightarrow> string \<Rightarrow> world \<Rightarrow> bool" where
  "marker_ok now r w = (case map_of (w_emptyAt w) r of
     None \<Rightarrow> True | Some (e, x) \<Rightarrow> e \<le> now \<and> x = e + empty_at_ttl_ms)"


text \<open>The marker a sweep at time \<open>now\<close> goes by.\<close>

definition mark_at :: "jsnum \<Rightarrow> string \<Rightarrow> world \<Rightarrow> jsnum" where
  "mark_at now r w = (case read_empty_at now r w of Some e \<Rightarrow> e | None \<Rightarrow> now)"

definition sweep_outcome :: "jsnum \<Rightarrow> string \<Rightarrow> jsnum \<Rightarrow> world \<Rightarrow> bool" where
  "sweep_outcome now r e w' = (get_room r w' = None \<or>
     (now - e < empty_room_destroy_grace_ms \<and> map_of (w_emptyAt w') r = Some (e, e + empty_at_ttl_ms)
      \<and> idle_room r w'))"

lemma outcome_view: "room_view r w w' \<Longrightarrow> sweep_outcome now r e w \<Longrightarrow> sweep_outcome now r e w'"
  by (simp add: sweep_outcome_def room_view_def idle_room_def)

lemma mark_frame [simp]:
  "read_ws_presence_user_ids r (mark_room_empty_if_absent now r' w) = read_ws_presence_user_ids r w"
  "w_emptyUp (mark_room_empty_if_absent now r' w) = w_emptyUp w"
  "w_draining (mark_room_empty_if_absent now r' w) = w_draining w"
  by (auto simp: mark_room_empty_if_absent_def intro!: read_ws_cong)

lemma outcome_own:
  assumes "idle_room r w" "marker_ok now r w"
  shows "sweep_outcome now r (mark_at now r w) (fst (cleanup_room cfg uids fids now r (w, n)))"
proof -
  let ?s = "swept cfg uids fids now r w"
  let ?w4 = "mark_room_empty_if_absent now r ?s"
  let ?e = "mark_at now r w"
  have view: "w_emptyAt ?s = w_emptyAt w" "w_emptyUp ?s" "\<not> w_draining ?s" "read_ws_presence_user_ids r ?s = []"
    using view_swept [of w cfg uids fids now r] assms(1) by (simp_all add: same_marker_view_def idle_room_def)
  have m: "map_of (w_emptyAt ?w4) r = Some (?e, ?e + empty_at_ttl_ms)" "now < ?e + empty_at_ttl_ms"
    using assms(2) view(1,2)
    by (auto simp: mark_room_empty_if_absent_def read_empty_at_def mark_at_def marker_ok_def empty_at_ttl_ms_def
        split: option.splits prod.splits if_splits)
  have idle: "idle_room r ?w4"
    using view by (simp add: idle_room_def)
  have elapsed: "is_empty_room_grace_elapsed now r ?w4 \<longleftrightarrow> now - ?e \<ge> empty_room_destroy_grace_ms"
    using m idle by (simp add: is_empty_room_grace_elapsed_def read_empty_at_def idle_room_def)
  have keep: "sweep_outcome now r ?e ?w4" if "\<not> now - ?e \<ge> empty_room_destroy_grace_ms"
    using that m idle by (simp add: sweep_outcome_def)
  have gone: "sweep_outcome now r ?e (destroy_room now r w')" for w' by (simp add: sweep_outcome_def)
  have c: "read_ws_presence_user_ids r w = []" "w_emptyUp w" "\<not> w_draining w"
    using assms(1) by (simp_all add: idle_room_def)
  show ?thesis
  proof (cases "now - ?e \<ge> empty_room_destroy_grace_ms")
    case True
    then show ?thesis unfolding cleanup_room_cases [OF c] Let_def elapsed by (simp add: gone)
  next
    case False
    have "sweep_outcome now r ?e (if b then emit (ESnapshotDirty r) ?w4 else ?w4)" for b
      by (rule outcome_view [OF room_view_finish keep [OF False]])
    then show ?thesis unfolding cleanup_room_cases [OF c] Let_def elapsed by (simp only: False if_False fst_conv)
  qed
qed

lemma other_rooms_view:
  assumes "r \<notin> set xs"
  shows "room_view r (fst acc) (fst (fold (cleanup_room cfg uids fids now) xs acc))"
  by (rule room_view_fold, rule room_view_cleanup_room) (use assms in auto)

text \<open>What a visit that removes the room must have found.\<close>

lemma cleanup_room_removes:
  assumes "get_room r w \<noteq> None" "get_room r (fst (cleanup_room cfg uids fids now r (w, n))) = None"
  shows "read_ws_presence_user_ids r w = [] \<and> \<not> w_draining w
    \<and> (\<exists>e. read_empty_at now r w = Some e \<and> now - e \<ge> empty_room_destroy_grace_ms)"
proof -
  let ?a = "read_ws_presence_user_ids r w"
  let ?u = "update_room r (cleanup_commit cfg (uids r) (fids r) now ?a) (reconcile_presence_refs r w)"
  obtain w2 nx where u: "?u = (w2, nx)" by (cases ?u)
  let ?s = "swept cfg uids fids now r w"
  let ?w4 = "mark_room_empty_if_absent now r ?s"
  have s: "cleanup_index now r (cleanup_lists cfg (fids r) now ?a (get_room r (reconcile_presence_refs r w))) w2 = ?s"
    unfolding swept_def u by simp
  have view: "w_emptyAt ?s = w_emptyAt w" "w_draining ?s = w_draining w" "w_emptyUp ?s = w_emptyUp w"
    using view_swept [of w cfg uids fids now r] by (simp_all add: same_marker_view_def)
  have stays: "get_room r ?s \<noteq> None" "get_room r ?w4 \<noteq> None" "get_room r (clear_room_empty_marker r ?s) \<noteq> None"
    using swept_keeps_room [of r cfg uids fids now w] assms(1)
    by (simp_all add: mark_room_empty_if_absent_def clear_room_empty_marker_def)
  have a: "?a = []"
  proof (rule ccontr)
    assume "?a \<noteq> []"
    with assms(2) stays(3) show False unfolding cleanup_room_def prod.case Let_def u s by (simp split: if_splits)
  qed
  have "may_destroy_empty_room_on_this_process ?w4 \<and> is_empty_room_grace_elapsed now r ?w4"
  proof (rule ccontr)
    assume "\<not> ?thesis"
    then have "note_empty_presence_and_should_destroy now r ?s = (?w4, False)"
      by (simp add: note_empty_presence_and_should_destroy_def Let_def)
    with assms(2) stays(2) a show False
      unfolding cleanup_room_def prod.case Let_def u s by (simp split: if_splits)
  qed
  then have e: "\<not> w_draining ?w4" "is_empty_room_grace_elapsed now r ?w4"
    by (simp_all add: may_destroy_empty_room_on_this_process_def)
  from e(2) have up: "w_emptyUp ?s" by (auto simp: is_empty_room_grace_elapsed_def mark_room_empty_if_absent_def split: if_splits)
  have "read_empty_at now r ?s \<noteq> None"
    using e(2) up by (auto simp: is_empty_room_grace_elapsed_def mark_room_empty_if_absent_def read_empty_at_def
        empty_room_destroy_grace_ms_def empty_at_ttl_ms_def split: if_splits option.splits)
  then have "?w4 = ?s" by (simp add: mark_room_empty_if_absent_def)
  with e view a show ?thesis
    by (auto simp: is_empty_room_grace_elapsed_def read_empty_at_def split: option.splits prod.splits if_splits)
qed

lemma sweep_ids:
  "fst (cleanup_inactive_rooms cfg uids fids now w) =
     fst (process_due_prunes cfg uids now (fst (fold (cleanup_room cfg uids fids now) (remdups (map fst (w_rooms w))) (w, 0))))"
  by (simp add: cleanup_inactive_rooms_def Let_def split_def)

lemma get_room_None_iff: "get_room r w = None \<longleftrightarrow> r \<notin> set (map fst (w_rooms w))"
  by (auto simp: get_room_def map_of_eq_None_iff)

lemma gone_stays:
  assumes "get_room r w = None"
  shows "get_room r (fst (cleanup_inactive_rooms cfg uids fids now w)) = None"
proof -
  let ?f = "fold (cleanup_room cfg uids fids now) (remdups (map fst (w_rooms w))) (w, 0)"
  have "room_view r (fst (w, 0 :: nat)) (fst ?f)"
    by (rule room_view_fold, rule room_view_cleanup_room) (use assms in \<open>auto simp: get_room_None_iff\<close>)
  then have "room_view r w (fst (cleanup_inactive_rooms cfg uids fids now w))"
    unfolding sweep_ids fst_conv by (rule room_view_trans [OF _ room_view_prunes])
  with assms show ?thesis by (simp add: room_view_def)
qed

lemma sweep_one:
  assumes "idle_room r w" "marker_ok now r w"
  shows "sweep_outcome now r (mark_at now r w) (fst (cleanup_inactive_rooms cfg uids fids now w))"
proof (cases "get_room r w")
  case None
  then show ?thesis using gone_stays by (simp add: sweep_outcome_def)
next
  case (Some st)
  let ?f = "cleanup_room cfg uids fids now"
  have "r \<in> set (remdups (map fst (w_rooms w)))" using Some get_room_None_iff [of r w] by simp
  then obtain ys zs where split: "remdups (map fst (w_rooms w)) = ys @ r # zs" by (meson split_list)
  have "distinct (ys @ r # zs)" unfolding split [symmetric] by simp
  then have out: "r \<notin> set ys" "r \<notin> set zs" by auto
  let ?w1 = "fold ?f ys (w, 0)"
  have v1: "room_view r w (fst ?w1)"
    by (rule other_rooms_view [OF out(1), where acc = "(w, 0)", unfolded fst_conv])
  have "idle_room r (fst ?w1)" "marker_ok now r (fst ?w1)" "mark_at now r (fst ?w1) = mark_at now r w"
    using v1 assms unfolding room_view_def idle_room_def marker_ok_def mark_at_def read_empty_at_def by simp_all
  with outcome_own [of r "fst ?w1" now cfg uids fids "snd ?w1"]
  have o: "sweep_outcome now r (mark_at now r w) (fst (?f r ?w1))" by (simp only: prod.collapse)
  have "room_view r (fst (?f r ?w1)) (fst (fold ?f zs (?f r ?w1)))" by (rule other_rooms_view [OF out(2)])
  then show ?thesis
    unfolding sweep_ids split fold_append fold_simps comp_def
    by (rule outcome_view [OF room_view_trans [OF _ room_view_prunes] o])
qed

text \<open>Sweeps at the derived interval, with nobody joining in between.\<close>

primrec sweeps ::
  "limits \<Rightarrow> (nat \<Rightarrow> string \<Rightarrow> string) \<Rightarrow> jsnum \<Rightarrow> jsnum \<Rightarrow> nat \<Rightarrow> world \<Rightarrow> world" where
  "sweeps cfg uids t0 iv 0 w = w"
| "sweeps cfg uids t0 iv (Suc k) w =
     fst (cleanup_inactive_rooms cfg (uids (2 * k)) (uids (2 * k + 1)) (t0 + real k * iv) (sweeps cfg uids t0 iv k w))"

lemma sweep_interval: "5000 \<le> derived_resolve_reclaim_interval_ms t \<and> derived_resolve_reclaim_interval_ms t \<le> 15000"
  by (simp add: derived_resolve_reclaim_interval_ms_def derived_lock_heartbeat_ttl_seconds_def max_def min_def)

lemma sweeps_phase:
  assumes "idle_room r w" "marker_ok t0 r w" "5000 \<le> iv" "iv \<le> 15000" "k < 4"
  shows "\<exists>e. e \<le> t0 \<and> sweep_outcome (t0 + real k * iv) r e (sweeps cfg uids t0 iv (Suc k) w)"
  using assms(5)
proof (induction k)
  case 0
  have "mark_at t0 r w \<le> t0"
    using assms(2) by (auto simp: mark_at_def read_empty_at_def marker_ok_def split: option.splits prod.splits if_splits)
  with sweep_one [OF assms(1,2), of cfg "uids 0" "uids 1"] show ?case by auto
next
  case (Suc k)
  let ?w = "sweeps cfg uids t0 iv (Suc k) w"
  let ?now = "t0 + real (Suc k) * iv"
  obtain e where e: "e \<le> t0" "sweep_outcome (t0 + real k * iv) r e ?w" using Suc by auto
  show ?case
  proof (cases "get_room r ?w = None")
    case True
    then have "sweep_outcome ?now r e (sweeps cfg uids t0 iv (Suc (Suc k)) w)"
      unfolding sweeps.simps(2) [of cfg uids t0 iv "Suc k"] sweep_outcome_def using gone_stays by blast
    with e(1) show ?thesis by blast
  next
    case False
    with e(2) have m: "t0 + real k * iv - e < empty_room_destroy_grace_ms"
      "map_of (w_emptyAt ?w) r = Some (e, e + empty_at_ttl_ms)" and idle: "idle_room r ?w"
      unfolding sweep_outcome_def by blast+
    have now: "?now = (t0 + real k * iv) + iv" by (simp add: algebra_simps)
    have "0 \<le> real (Suc k) * iv" using assms(3) by simp
    then have ok: "marker_ok ?now r ?w" "mark_at ?now r ?w = e"
      using m e(1) assms(4) unfolding now
      by (auto simp: marker_ok_def mark_at_def read_empty_at_def empty_room_destroy_grace_ms_def empty_at_ttl_ms_def algebra_simps)
    have "sweep_outcome ?now r e (sweeps cfg uids t0 iv (Suc (Suc k)) w)"
      unfolding sweeps.simps(2) [of cfg uids t0 iv "Suc k"]
      using sweep_one [OF idle ok(1)] unfolding ok(2) by blast
    with e(1) show ?thesis by blast
  qed
qed

section \<open>A closing socket\<close>

lemma offline_generation [simp]:
  "st_generation (fst (apply_user_went_offline cfg uid now st r u)) = st_generation st"
  by (simp add: apply_user_went_offline_def invalidate_local_media_for_owner_def Let_def split: option.split)

lemma bump_sel [simp]:
  "st_participants (bump_room_revisions st) = st_participants st" "st_ownerId (bump_room_revisions st) = st_ownerId st"
  "st_playlist (bump_room_revisions st) = st_playlist st" "st_playback (bump_room_revisions st) = st_playback st"
  "st_generation (bump_room_revisions st) = st_generation st + 1"
  "st_currentIndex (bump_room_revisions st) = st_currentIndex st"
  by (simp_all add: bump_room_revisions_def)

lemma offline_paused:
  assumes "ids_ok (st_playlist st)"
  shows "pb_paused (st_playback (fst (apply_user_went_offline cfg uid now st r u))) =
    (pb_paused (st_playback st) \<or>
     (case js_nth (st_playlist st) (st_currentIndex st) of Some it \<Rightarrow> orphaned_item u it | None \<Rightarrow> False))"
proof -
  have "orphaned_item u it \<longleftrightarrow> pi_id it \<in> pi_id ` set (filter (orphaned_item u) (st_playlist st))"
    if "js_nth (st_playlist st) (st_currentIndex st) = Some it" for it
    using js_nth_in_set [OF that] assms by (auto simp: ids_ok_def distinct_map dest: inj_onD)
  then show ?thesis
    by (auto simp: offline_playback invalidate_local_media_for_owner_def Let_def split: option.split)
qed

lemma tail_get_room [simp]: "get_room r (disconnect_tail now meta b pb nx w) = get_room r w"
  by (rule get_room_cong) simp

section \<open>Properties\<close>

text \<open>
  C9. Liveness of the empty-room clean-up: a room nobody is present in, on a process that is not
  draining and can reach the marker, is removed by the fourth run of the sweep at the interval
  derived from any configured time-out, and stays removed, whatever an earlier visit left in the
  marker (fresh, ageing or expired) and whatever the other rooms do in the same sweeps.
\<close>

theorem empty_room_swept_away:
  assumes "read_ws_presence_user_ids r w = []" "w_emptyUp w" "\<not> w_draining w"
    and "\<And>e x. map_of (w_emptyAt w) r = Some (e, x) \<Longrightarrow> e \<le> t0 \<and> x = e + empty_at_ttl_ms"
    and "k \<ge> 4"
  shows "get_room r (sweeps cfg uids t0 (of_int (derived_resolve_reclaim_interval_ms timeoutMs)) k w) = None"
  using assms(5)
proof (induction k rule: dec_induct)
  case base
  let ?iv = "of_int (derived_resolve_reclaim_interval_ms timeoutMs) :: real"
  have iv: "5000 \<le> ?iv" "?iv \<le> 15000" using sweep_interval [of timeoutMs] by linarith+
  have "idle_room r w" "marker_ok t0 r w"
    using assms(1-4) by (auto simp: idle_room_def marker_ok_def split: option.split)
  from sweeps_phase [OF this iv, of 3 cfg uids] obtain e where
    e: "e \<le> t0" "sweep_outcome (t0 + 3 * ?iv) r e (sweeps cfg uids t0 ?iv 4 w)"
    by (auto simp: eval_nat_numeral)
  then show ?case using iv(1) by (auto simp: sweep_outcome_def empty_room_destroy_grace_ms_def)
next
  case (step k)
  then show ?case by (simp add: gone_stays)
qed

theorem empty_room_swept_away_witness:
  "get_room ''r1'' (sweeps sample_limits (\<lambda>_ _. ''u'') 1000 (of_int (derived_resolve_reclaim_interval_ms 90000)) 4
     (sample_world\<lparr>w_refs := []\<rparr>)) = None"
  by (rule empty_room_swept_away) (simp_all add: sample_world_def read_ws_presence_user_ids_def room_refs_def)

text \<open>
  C10. Safety of the sweep: a room it removes had nobody present, on this or any other live node, on
  a process that is not draining, and its marker, still alive, was at least the grace period old.
\<close>

theorem sweep_removes_only_abandoned:
  assumes "get_room r w \<noteq> None" "get_room r (fst (cleanup_inactive_rooms cfg uids fids now w)) = None"
  shows "read_ws_presence_user_ids r w = [] \<and> \<not> w_draining w
    \<and> (\<exists>e. read_empty_at now r w = Some e \<and> now - e \<ge> empty_room_destroy_grace_ms)"
proof -
  let ?f = "cleanup_room cfg uids fids now"
  have "r \<in> set (remdups (map fst (w_rooms w)))" using assms(1) get_room_None_iff [of r w] by simp
  then obtain ys zs where split: "remdups (map fst (w_rooms w)) = ys @ r # zs" by (meson split_list)
  have "distinct (ys @ r # zs)" unfolding split [symmetric] by simp
  then have out: "r \<notin> set ys" "r \<notin> set zs" by auto
  let ?w1 = "fold ?f ys (w, 0)"
  have v1: "room_view r w (fst ?w1)" by (rule other_rooms_view [OF out(1), where acc = "(w, 0)", unfolded fst_conv])
  have "room_view r (fst (?f r ?w1)) (fst (cleanup_inactive_rooms cfg uids fids now w))"
    unfolding sweep_ids split fold_append fold_simps comp_def
    by (rule room_view_trans [OF other_rooms_view [OF out(2)] room_view_prunes])
  then have "get_room r (fst (?f r ?w1)) = None" "get_room r (fst ?w1) \<noteq> None"
    using assms v1 by (simp_all add: room_view_def)
  then have "read_ws_presence_user_ids r (fst ?w1) = [] \<and> \<not> w_draining (fst ?w1)
      \<and> (\<exists>e. read_empty_at now r (fst ?w1) = Some e \<and> now - e \<ge> empty_room_destroy_grace_ms)"
    using cleanup_room_removes [of r "fst ?w1" cfg uids fids now "snd ?w1"] by simp
  then show ?thesis using v1 by (simp add: room_view_def read_empty_at_def)
qed


theorem sweep_removes_only_abandoned_witness:
  "read_ws_presence_user_ids ''r1'' (sample_world\<lparr>w_refs := [], w_emptyAt := [(''r1'', 1000, 61000)]\<rparr>) = []
   \<and> (\<exists>e. read_empty_at 20000 ''r1'' (sample_world\<lparr>w_refs := [], w_emptyAt := [(''r1'', 1000, 61000)]\<rparr>) = Some e
        \<and> 20000 - e \<ge> empty_room_destroy_grace_ms)"
proof -
  let ?w = "sample_world\<lparr>w_refs := [], w_emptyAt := [(''r1'', 1000, 61000)]\<rparr>"
  let ?w' = "fst (cleanup_inactive_rooms sample_limits (\<lambda>_. ''u'') (\<lambda>_. ''v'') 20000 ?w)"
  have ok: "idle_room ''r1'' ?w" "marker_ok 20000 ''r1'' ?w" "mark_at 20000 ''r1'' ?w = 1000"
    by (simp_all add: idle_room_def marker_ok_def mark_at_def sample_world_def read_ws_presence_user_ids_def room_refs_def
        read_empty_at_def empty_at_ttl_ms_def)
  have gone: "get_room ''r1'' ?w' = None"
    using sweep_one [OF ok(1,2), of sample_limits "\<lambda>_. ''u''" "\<lambda>_. ''v''"] unfolding ok(3)
    by (simp add: sweep_outcome_def empty_room_destroy_grace_ms_def)
  have "get_room ''r1'' ?w \<noteq> None" by (simp add: get_room_def sample_world_def)
  from sweep_removes_only_abandoned [OF this gone] show ?thesis by simp
qed

text \<open>
  C8. A closing socket.  While the user has another live socket anywhere the stored room is not
  touched.  When it was the last one and others remain, the member stays listed, with role and
  name, marked offline; the owner is not demoted and the other members are as before; exactly the
  files that user shared are blocked, the current one pausing the room; the generation goes up by
  one and the prune is scheduled for the end of the grace period.
\<close>

theorem disconnect_correct:
  assumes room: "get_room (dm_roomId meta) w = Some st"
    and member: "map_of (st_participants st) (dm_userId meta) = Some p"
    and ids: "ids_ok (st_playlist st)"
    and w1: "w1 = (if dm_presenceTracked meta then remove_ws_connection_ref (dm_roomId meta) (dm_userId meta) w else w)"
    and present: "read_ws_presence_user_ids (dm_roomId meta) w1 \<noteq> []"
    and w': "w' = handle_socket_disconnect cfg uid now meta w"
  shows "if dm_userId meta \<in> set (read_ws_presence_user_ids (dm_roomId meta) w1)
    then get_room (dm_roomId meta) w' = Some st
    else \<exists>st'. get_room (dm_roomId meta) w' = Some st'
      \<and> map_of (st_participants st') (dm_userId meta) = Some (mark_offline now p)
      \<and> (\<forall>v. v \<noteq> dm_userId meta \<longrightarrow> map_of (st_participants st') v = map_of (st_participants st) v)
      \<and> st_ownerId st' = st_ownerId st \<and> st_generation st' = st_generation st + 1
      \<and> st_playlist st' = map (\<lambda>it. if orphaned_item (dm_userId meta) it then block_item it else it) (st_playlist st)
      \<and> (pb_paused (st_playback st') \<longleftrightarrow> pb_paused (st_playback st) \<or>
          (case js_nth (st_playlist st) (st_currentIndex st) of
             Some it \<Rightarrow> orphaned_item (dm_userId meta) it | None \<Rightarrow> False))
      \<and> (w_indexUp w \<longrightarrow> map_of (w_grace w') (dm_roomId meta, dm_userId meta) = Some (now + participant_prune_ms))"
proof -
  let ?r = "dm_roomId meta" and ?u = "dm_userId meta"
  let ?a = "read_ws_presence_user_ids ?r w1"
  let ?off = "bump_room_revisions (fst (apply_user_went_offline cfg uid now st ?r ?u))"
  have get1: "get_room ?r w1 = Some st" using room by (simp add: w1)
  have idx: "w_indexUp w1 = w_indexUp w" by (simp add: w1 remove_ws_connection_ref_def bump_ws_connection_ref_def Let_def)
  let ?upd = "update_room ?r (disconnect_commit cfg uid now meta ?a) (reconcile_presence_refs ?r w1)"
  have w'_eq: "w' = disconnect_tail now meta (?u \<in> set ?a) (Some (pb_paused (st_playback st))) (snd ?upd) (fst ?upd)"
    using present get1 unfolding w' handle_socket_disconnect_def Let_def w1 [symmetric]
    by (simp add: split_def)
  show ?thesis
  proof (cases "?u \<in> set ?a")
    case True
    then show ?thesis using get1 present by (simp add: w'_eq update_room_get disconnect_commit_def)
  next
    case False
    have commit: "disconnect_commit cfg uid now meta ?a (Some st) = Some ?off"
      using False by (simp add: disconnect_commit_def)
    have get': "get_room ?r w' = Some ?off" using get1 by (simp add: w'_eq update_room_get commit)
    have up: "snd ?upd = Some ?off" "w_indexUp (fst ?upd) = w_indexUp w"
      using get1 idx by (simp_all add: update_room_def commit reconcile_presence_refs_def)
    have grace: "w_indexUp w \<longrightarrow> map_of (w_grace w') (?r, ?u) = Some (now + participant_prune_ms)"
      using False up by (simp add: w'_eq disconnect_tail_def Let_def schedule_prune_def
          publish_user_offline_presence_def merge_presence_data_def publish_control_def
          remember_control_projection_def s_add_def refresh_pending_ttl_def emit_def)
    show ?thesis
      using False get' grace member offline_paused [OF ids, of cfg uid now ?r ?u] by simp
  qed
qed


theorem disconnect_correct_witness:
  "\<exists>st'. get_room ''r1'' (handle_socket_disconnect sample_limits ''u'' 5000
      \<lparr>dm_roomId = ''r1'', dm_userId = ''gst'', dm_connectionId = ''c1'', dm_presenceTracked = True\<rparr>
      (sample_world\<lparr>w_refs := [(''r1'', [(''own'', [(''n1'', 1)]), (''gst'', [(''n1'', 1)])])]\<rparr>)) = Some st'
   \<and> st_ownerId st' = ''own'' \<and> st_generation st' = 5 \<and> (\<exists>q. map_of (st_participants st') ''gst'' = Some q \<and> \<not> pt_connected q)"
proof -
  let ?m = "\<lparr>dm_roomId = ''r1'', dm_userId = ''gst'', dm_connectionId = ''c1'', dm_presenceTracked = True\<rparr>"
  let ?w = "sample_world\<lparr>w_refs := [(''r1'', [(''own'', [(''n1'', 1)]), (''gst'', [(''n1'', 1)])])]\<rparr>"
  let ?w1 = "remove_ws_connection_ref ''r1'' ''gst'' ?w"
  have room: "get_room (dm_roomId ?m) ?w = Some sample_room" by (simp add: get_room_def sample_world_def)
  have member: "map_of (st_participants sample_room) (dm_userId ?m) = Some (sample_participant ''gst'' Guest True 300)"
    by (simp add: sample_room_def)
  have ids: "ids_ok (st_playlist sample_room)" by (simp add: ids_ok_def sample_room_def sample_item_def)
  have w1: "?w1 = (if dm_presenceTracked ?m then remove_ws_connection_ref (dm_roomId ?m) (dm_userId ?m) ?w else ?w)" by simp
  have a: "read_ws_presence_user_ids ''r1'' ?w1 = [''own'']"
    by (simp add: remove_ws_connection_ref_def bump_ws_connection_ref_def read_ws_presence_user_ids_def room_refs_def
        sample_world_def bump_presence_node_count_def encode_counts_def scan_entry_def alive_nodes_def)
  have present: "read_ws_presence_user_ids (dm_roomId ?m) ?w1 \<noteq> []" using a by simp
  from disconnect_correct [OF room member ids w1 present refl, of sample_limits "''u''" 5000] a
  show ?thesis by (fastforce simp: sample_room_def)
qed

end
