(* ===== verification/Client_Merge.thy ===== *)
theory Client_Merge
  imports Lifecycle_Properties
begin

text \<open>
  How a browser folds what the server sends into its copy of the room
  (\<open>src/src/client/realtime/room-state-merge.ts\<close>): control patches gated by the generation,
  presence batches gated by the presence revision, snapshots, and the queue that coalesces presence
  batches.  The locale \<open>revision_gate\<close> states what a gated channel guarantees under reordering
  and duplication; control and presence are its two instances.
\<close>

section \<open>Presence and control\<close>

definition pick_defined :: "'a option \<Rightarrow> 'a \<Rightarrow> 'a" where
  "pick_defined patchValue existing = (case patchValue of Some v \<Rightarrow> v | None \<Rightarrow> existing)"

definition patch_participant :: "presence_patch \<Rightarrow> participant \<Rightarrow> participant" where
  "patch_participant patch p =
     p\<lparr>pt_connected := pick_defined (pp_connected patch) (pt_connected p),
       pt_lastSeenAt := or_else (pp_lastSeenAt patch) (pt_lastSeenAt p),
       pt_disconnectedAt := or_else (pp_disconnectedAt patch) (pt_disconnectedAt p),
       pt_username := pick_defined (pp_username patch) (pt_username p),
       pt_avatarStyle := pick_defined (pp_avatarStyle patch) (pt_avatarStyle p),
       pt_localPlayback := pick_defined (pp_localPlayback patch) (pt_localPlayback p)\<rparr>"

text \<open>Patches of users the client does not know are skipped.\<close>

definition merge_participant_presence :: "participants \<Rightarrow> (string \<times> presence_patch) list \<Rightarrow> participants" where
  "merge_participant_presence prev patches =
     fold (\<lambda>(userId, patch) next'. adjust userId (patch_participant patch) next') patches prev"

definition reconcile_control_current_index :: "client_room \<Rightarrow> room_control \<Rightarrow> int" where
  "reconcile_control_current_index prev payload =
     (case pb_mediaId (rc_playback payload) of
        None \<Rightarrow> rc_currentIndex payload
      | Some mediaId \<Rightarrow>
          (if mediaId = [] then rc_currentIndex payload
           else if map_option pi_id (js_nth (st_playlist prev) (rc_currentIndex payload)) = Some mediaId
           then rc_currentIndex payload
           else case find_index (\<lambda>it. pi_id it = mediaId) (st_playlist prev) of
                  Some i \<Rightarrow> int i
                | None \<Rightarrow> st_currentIndex prev))"

definition apply_room_control :: "client_room option \<Rightarrow> room_control \<Rightarrow> client_room option" where
  "apply_room_control prev payload =
     (case prev of
        None \<Rightarrow> None
      | Some st \<Rightarrow>
          (if rc_generation payload < st_generation st then Some st
           else Some (st\<lparr>st_playback := rc_playback payload,
                         st_currentIndex := reconcile_control_current_index st payload,
                         st_updatedAt := rc_updatedAt payload,
                         st_generation := rc_generation payload\<rparr>)))"

definition local_revision :: "client_room \<Rightarrow> nat" where
  "local_revision st = (case st_presenceRevision st of Some n \<Rightarrow> n | None \<Rightarrow> 0)"

definition apply_presence_batch :: "client_room option \<Rightarrow> presence_batch \<Rightarrow> client_room option" where
  "apply_presence_batch prev payload =
     (case prev of
        None \<Rightarrow> None
      | Some st \<Rightarrow>
          (if pbt_presenceRevision payload \<le> local_revision st then Some st
           else Some (st\<lparr>st_participants := merge_participant_presence (st_participants st) (pbt_participants payload),
                         st_presenceRevision := Some (pbt_presenceRevision payload)\<rparr>)))"

definition apply_presence_batches :: "client_room option \<Rightarrow> presence_batch list \<Rightarrow> client_room option" where
  "apply_presence_batches prev payloads = foldl apply_presence_batch prev payloads"

section \<open>The coalescer\<close>

text \<open>
  The queue of waiting batches and whether a flush is scheduled; the scheduler of the browser is
  the environment, which calls \<open>flush\<close> once for each schedule that is not cancelled.
\<close>

record coalescer =
  co_pending :: "presence_batch list"
  co_scheduled :: bool

definition co_enqueue :: "presence_batch \<Rightarrow> coalescer \<Rightarrow> coalescer" where
  "co_enqueue payload c = c\<lparr>co_pending := co_pending c @ [payload], co_scheduled := True\<rparr>"

definition co_flush :: "coalescer \<Rightarrow> coalescer \<times> presence_batch list option" where
  "co_flush c =
     (let c1 = c\<lparr>co_scheduled := False\<rparr> in
      if co_pending c = [] then (c1, None)
      else (c1\<lparr>co_pending := []\<rparr>, Some (co_pending c)))"

definition co_dispose :: "coalescer \<Rightarrow> coalescer" where
  "co_dispose c = \<lparr>co_pending = [], co_scheduled = False\<rparr>"

definition co_pending_count :: "coalescer \<Rightarrow> nat" where
  "co_pending_count c = length (co_pending c)"

section \<open>Snapshots\<close>

definition preview_active :: "playback_state \<Rightarrow> bool" where
  "preview_active pb = (case pb_seekPreview pb of Some s \<Rightarrow> sp_active s | None \<Rightarrow> False)"

definition apply_room_snapshot :: "client_room option \<Rightarrow> client_room \<Rightarrow> client_room" where
  "apply_room_snapshot prev payload =
     (case prev of
        None \<Rightarrow> payload
      | Some st \<Rightarrow>
          (let applyPlayback = (st_generation payload \<ge> st_generation st);
               playback0 = (if applyPlayback then st_playback payload else st_playback st);
               playback = (if applyPlayback \<and> preview_active (st_playback st)
                              \<and> \<not> preview_active (st_playback payload)
                              \<and> st_generation st \<ge> st_generation payload
                           then playback0\<lparr>pb_seekPreview := pb_seekPreview (st_playback st)\<rparr> else playback0)
           in payload\<lparr>st_playback := playback,
                st_currentIndex := (if applyPlayback then st_currentIndex payload else st_currentIndex st),
                st_generation := max (st_generation st) (st_generation payload),
                st_structuralRevision := max (st_structuralRevision st) (st_structuralRevision payload),
                st_presenceRevision := Some (max (local_revision st) (local_revision payload))\<rparr>))"

text \<open>
  On every connect the client drops its presence watermark and nothing else
  (\<open>room-socket-connection.ts\<close>).
\<close>

definition reset_presence_watermark :: "client_room option \<Rightarrow> client_room option" where
  "reset_presence_watermark prev = map_option (\<lambda>st. st\<lparr>st_presenceRevision := Some 0\<rparr>) prev"

section \<open>A gated channel\<close>

text \<open>
  A message is taken or dropped by comparing its revision with the one held; what is taken leaves
  its own revision, and taking the same message again changes nothing.
\<close>

locale revision_gate =
  fixes step :: "'s \<Rightarrow> 'm \<Rightarrow> 's" and held :: "'s \<Rightarrow> nat" and carries :: "'m \<Rightarrow> nat"
    and passes :: "nat \<Rightarrow> nat \<Rightarrow> bool"
  assumes dropped: "\<not> passes (held s) (carries m) \<Longrightarrow> step s m = s"
    and taken: "passes (held s) (carries m) \<Longrightarrow> held (step s m) = carries m"
    and passes_le: "passes a b \<Longrightarrow> a \<le> b"
    and passes_less: "a < b \<Longrightarrow> passes a b"
begin

lemma held_step: "held (step s m) = max (held s) (carries m)"
  using dropped [of s m] taken [of s m] passes_le [of "held s" "carries m"] passes_less [of "held s" "carries m"]
  by (cases "passes (held s) (carries m)") (auto simp: max_def order.order_iff_strict)

lemma held_foldl: "held (foldl step s ms) = Max (insert (held s) (carries ` set ms))"
proof (induction ms rule: rev_induct)
  case (snoc m ms)
  then show ?case by (simp add: held_step Max_insert2 max.commute insert_commute)
qed simp

lemma held_mono: "held s \<le> held (foldl step s ms)"
  by (simp add: held_foldl)

lemma old_dropped: "carries m < held s \<Longrightarrow> step s m = s"
  using dropped [of s m] passes_le [of "held s" "carries m"] by fastforce

text \<open>The newest of a batch wins wherever it arrives: what follows it is dropped.\<close>

lemma foldl_old:
  assumes "\<And>m. m \<in> set ms \<Longrightarrow> carries m < held s"
  shows "foldl step s ms = s"
  using assms by (induction ms) (simp_all add: old_dropped)

lemma newest_wins:
  assumes "held s < carries m" "\<And>x. x \<in> set xs \<union> set ys \<Longrightarrow> carries x < carries m"
  shows "foldl step s (xs @ m # ys) = step (foldl step s xs) m"
proof -
  have "held (step (foldl step s xs) m) = carries m"
    using assms by (simp add: held_step held_foldl max_absorb2 less_imp_le)
  then show ?thesis using foldl_old [of ys "step (foldl step s xs) m"] assms(2) by simp
qed

end

text \<open>Both channels on a client that has its first snapshot.\<close>

definition take_control :: "client_room \<Rightarrow> room_control \<Rightarrow> client_room" where
  "take_control st payload = the (apply_room_control (Some st) payload)"

definition take_batch :: "client_room \<Rightarrow> presence_batch \<Rightarrow> client_room" where
  "take_batch st payload = the (apply_presence_batch (Some st) payload)"

interpretation control: revision_gate take_control st_generation rc_generation "\<lambda>a b. a \<le> b"
  by unfold_locales (auto simp: take_control_def apply_room_control_def)

interpretation presence: revision_gate take_batch local_revision pbt_presenceRevision "\<lambda>a b. a < b"
  by unfold_locales (auto simp: take_batch_def apply_presence_batch_def local_revision_def)

lemma control_Some: "apply_room_control (Some st) c = Some (take_control st c)"
  by (simp add: take_control_def apply_room_control_def)

lemma batch_Some: "apply_presence_batch (Some st) b = Some (take_batch st b)"
  by (simp add: take_batch_def apply_presence_batch_def)

lemma foldl_control: "foldl apply_room_control (Some st) cs = Some (foldl take_control st cs)"
  by (induction cs arbitrary: st) (simp_all add: control_Some)

lemma foldl_batch: "apply_presence_batches (Some st) bs = Some (foldl take_batch st bs)"
  unfolding apply_presence_batches_def by (induction bs arbitrary: st) (simp_all add: batch_Some)

section \<open>Properties\<close>

text \<open>
  C32. The newest control message decides, in whatever order the messages arrive and however often
  the older ones are repeated: the playback is its playback, the generation its generation, and
  the current index names the item it plays, also on a playlist the client has not caught up with.
\<close>

theorem newest_control_wins:
  assumes "st_generation c < rc_generation m"
    and "\<And>x. x \<in> set xs \<union> set ys \<Longrightarrow> rc_generation x < rc_generation m"
  shows "\<exists>st. foldl apply_room_control (Some c) (xs @ m # ys) = Some st
    \<and> st_playback st = rc_playback m \<and> st_generation st = rc_generation m
    \<and> st_playlist st = st_playlist c \<and> st_participants st = st_participants c
    \<and> (\<forall>mediaId it. pb_mediaId (rc_playback m) = Some mediaId \<longrightarrow> mediaId \<noteq> [] \<longrightarrow>
         it \<in> set (st_playlist c) \<longrightarrow> pi_id it = mediaId \<longrightarrow>
         map_option pi_id (js_nth (st_playlist c) (st_currentIndex st)) = Some mediaId)"
proof -
  let ?s = "foldl take_control c xs"
  have frame: "st_playlist (foldl take_control c cs) = st_playlist c \<and> st_participants (foldl take_control c cs) = st_participants c" for cs
    by (induction cs rule: rev_induct) (simp_all add: take_control_def apply_room_control_def)
  have fold: "foldl take_control c (xs @ m # ys) = take_control ?s m"
    by (rule control.newest_wins) (use assms in auto)
  have held: "st_generation ?s \<le> rc_generation m"
    using assms by (simp add: control.held_foldl less_imp_le)
  have last: "take_control ?s m = ?s\<lparr>st_playback := rc_playback m,
      st_currentIndex := reconcile_control_current_index ?s m, st_updatedAt := rc_updatedAt m,
      st_generation := rc_generation m\<rparr>"
    using held by (simp add: take_control_def apply_room_control_def)
  have index: "map_option pi_id (js_nth (st_playlist c) (reconcile_control_current_index ?s m)) = Some mediaId"
    if id: "pb_mediaId (rc_playback m) = Some mediaId" "mediaId \<noteq> []" and it: "it \<in> set (st_playlist c)" "pi_id it = mediaId"
    for mediaId it
  proof (cases "map_option pi_id (js_nth (st_playlist c) (rc_currentIndex m)) = Some mediaId")
    case True
    then show ?thesis using id frame by (simp add: reconcile_control_current_index_def)
  next
    case False
    have "find_index (\<lambda>it. pi_id it = mediaId) (st_playlist c) \<noteq> None" using it by (auto simp: find_index_None_iff)
    then obtain i where i: "find_index (\<lambda>it. pi_id it = mediaId) (st_playlist c) = Some i" by blast
    then have "i < length (st_playlist c)" "pi_id (st_playlist c ! i) = mediaId"
      by (simp_all add: find_index_Some_iff)
    then show ?thesis
      using False id frame [of xs] by (simp add: reconcile_control_current_index_def i js_nth_int)
  qed
  show ?thesis unfolding foldl_control fold last using frame [of xs] index by simp
qed

theorem newest_control_wins_witness:
  "\<exists>st. foldl apply_room_control (Some (sanitize_room_state_for_client sample_room 5))
       [(control_payload_from_state (sample_room\<lparr>st_generation := 9, st_currentIndex := 2\<rparr>) 6),
        control_payload_from_state (sample_room\<lparr>st_generation := 7\<rparr>) 6] = Some st \<and> st_generation st = 9"
proof -
  let ?c = "sanitize_room_state_for_client sample_room 5"
  let ?m = "control_payload_from_state (sample_room\<lparr>st_generation := 9, st_currentIndex := 2\<rparr>) 6"
  let ?o = "control_payload_from_state (sample_room\<lparr>st_generation := 7\<rparr>) 6"
  have "st_generation ?c < rc_generation ?m"
    by (simp add: sanitize_room_state_for_client_def control_payload_from_state_def sample_room_def)
  moreover have "\<And>x. x \<in> set [] \<union> set [?o] \<Longrightarrow> rc_generation x < rc_generation ?m"
    by (simp add: control_payload_from_state_def)
  moreover have "rc_generation ?m = 9" by (simp add: control_payload_from_state_def)
  ultimately show ?thesis using newest_control_wins [of ?c ?m "[]" "[?o]"] by auto
qed

end
