(* ===== verification/Broadcast.thy ===== *)
theory Broadcast
  imports Client_Merge
begin

text \<open>
  What the server sends to a room: the broadcast bus with its coalescing and timers
  (\<open>src/src/server/realtime/broadcast/room-broadcast-bus.ts\<close>), the presence and snapshot
  publishers, the presence sequence and the snapshot cache (\<open>presence-publisher.ts\<close>,
  \<open>presence-seq.ts\<close>, \<open>snapshot-publisher.ts\<close>, \<open>snapshot-build.ts\<close>).
\<close>

section \<open>State\<close>

text \<open>What \<open>structuralHash\<close> writes as JSON text; the text is represented by the value it encodes.\<close>

record participant_view =
  pv_username :: string
  pv_avatarStyle :: string
  pv_role :: room_role
  pv_connected :: bool
  pv_viewerMedia :: "viewer_media option"

record structural_view =
  sv_structuralRevision :: nat
  sv_ownerId :: string
  sv_playlist :: "playlist_item list"
  sv_currentIndex :: int
  sv_joinPasswordEnabled :: bool
  sv_admissionVersion :: nat
  sv_defaultJoinRole :: default_join_role
  sv_actionLog :: "action_entry list"
  sv_participants :: "(string \<times> participant_view) list"

definition structural_hash :: "client_room \<Rightarrow> structural_view" where
  "structural_hash st =
     \<lparr>sv_structuralRevision = st_structuralRevision st, sv_ownerId = st_ownerId st,
       sv_playlist = st_playlist st, sv_currentIndex = st_currentIndex st,
       sv_joinPasswordEnabled = rs_joinPasswordEnabled (st_roomSecurity st),
       sv_admissionVersion = rs_admissionVersion (st_roomSecurity st),
       sv_defaultJoinRole = rs_defaultJoinRole (st_roomSecurity st),
       sv_actionLog = st_actionLog st,
       sv_participants = map_vals (\<lambda>p. \<lparr>pv_username = pt_username p, pv_avatarStyle = pt_avatarStyle p,
           pv_role = pt_role p, pv_connected = pt_connected p, pv_viewerMedia = pt_viewerMedia p\<rparr>)
         (st_participants st)\<rparr>"

record room_dirty =
  rd_presence :: "(string \<times> presence_patch) list"
  rd_snapshot :: bool
  rd_actionLog :: bool
  rd_presenceTimer :: bool
  rd_snapshotTimer :: bool
  rd_actionLogTimer :: bool
  rd_lastStructuralHash :: "structural_view option"

record snapshot_entry =
  se_generation :: nat
  se_structuralRevision :: nat
  se_presenceRevision :: nat
  se_payload :: client_room
  se_cachedAt :: jsnum

datatype bus_message =
    MControl room_control
  | MPresence presence_batch
  | MSnapshot client_room

text \<open>The Redis counter of presence revisions, reachable or not, and the fallback of the process.\<close>

record bus =
  bu_rooms :: "(string \<times> room_dirty) list"
  bu_cache :: "(string \<times> snapshot_entry) list"
  bu_seqUp :: bool
  bu_seq :: "(string \<times> nat) list"
  bu_fallback :: "(string \<times> nat) list"
  bu_sent :: "(string \<times> bus_message) list"

definition no_dirty :: room_dirty where
  "no_dirty = \<lparr>rd_presence = [], rd_snapshot = False, rd_actionLog = False, rd_presenceTimer = False,
     rd_snapshotTimer = False, rd_actionLogTimer = False, rd_lastStructuralHash = None\<rparr>"

definition ensure_dirty :: "string \<Rightarrow> bus \<Rightarrow> room_dirty" where
  "ensure_dirty roomId b = (case map_of (bu_rooms b) roomId of Some d \<Rightarrow> d | None \<Rightarrow> no_dirty)"

definition set_dirty :: "string \<Rightarrow> room_dirty \<Rightarrow> bus \<Rightarrow> bus" where
  "set_dirty roomId d b = b\<lparr>bu_rooms := AList.update roomId d (bu_rooms b)\<rparr>"

definition publish_typed :: "string \<Rightarrow> bus_message \<Rightarrow> bus \<Rightarrow> bus" where
  "publish_typed roomId msg b = b\<lparr>bu_sent := bu_sent b @ [(roomId, msg)]\<rparr>"

definition clear_room :: "string \<Rightarrow> bus \<times> world \<Rightarrow> bus \<times> world" where
  "clear_room roomId bw =
     (case bw of (b, w) \<Rightarrow>
       (case map_of (bu_rooms b) roomId of
          None \<Rightarrow> (b, w)
        | Some _ \<Rightarrow> (b\<lparr>bu_rooms := AList.delete roomId (bu_rooms b),
                       bu_fallback := AList.delete roomId (bu_fallback b)\<rparr>,
                    w\<lparr>w_projection := AList.delete roomId (w_projection w)\<rparr>)))"

section \<open>Presence\<close>

definition merge_presence_dirty ::
  "string \<Rightarrow> presence_patch \<Rightarrow> (string \<times> presence_patch) list \<Rightarrow> (string \<times> presence_patch) list" where
  "merge_presence_dirty userId patch dirty =
     (let prev = (case map_of dirty userId of Some p \<Rightarrow> p | None \<Rightarrow> empty_patch);
          clientPatch = patch\<lparr>pp_localPlaybackReports := None\<rparr>;
          prevClient = prev\<lparr>pp_localPlaybackReports := None\<rparr>
      in AList.update userId (merge_patch prevClient clientPatch) dirty)"

definition peek_presence_revision :: "string \<Rightarrow> bus \<Rightarrow> nat" where
  "peek_presence_revision roomId b =
     (case (if bu_seqUp b then map_of (bu_seq b) roomId else None) of
        Some n \<Rightarrow> if n > 0 then n else (case map_of (bu_fallback b) roomId of Some m \<Rightarrow> m | None \<Rightarrow> 0)
      | None \<Rightarrow> (case map_of (bu_fallback b) roomId of Some m \<Rightarrow> m | None \<Rightarrow> 0))"

definition next_presence_revision :: "string \<Rightarrow> bus \<Rightarrow> bus \<times> nat" where
  "next_presence_revision roomId b =
     (if bu_seqUp b
      then let revision = (case map_of (bu_seq b) roomId of Some n \<Rightarrow> n | None \<Rightarrow> 0) + 1
           in (b\<lparr>bu_seq := AList.update roomId revision (bu_seq b)\<rparr>, revision)
      else let fallback = (case map_of (bu_fallback b) roomId of Some n \<Rightarrow> n | None \<Rightarrow> 0) + 1
           in (b\<lparr>bu_fallback := AList.update roomId fallback (bu_fallback b)\<rparr>, fallback))"

definition flush_presence_batch :: "jsnum \<Rightarrow> string \<Rightarrow> (string \<times> presence_patch) list \<Rightarrow> bus \<Rightarrow> bus" where
  "flush_presence_batch now roomId participants b =
     (if participants = [] then b
      else case next_presence_revision roomId b of
        (b1, revision) \<Rightarrow> publish_typed roomId
          (MPresence \<lparr>pbt_presenceRevision = revision, pbt_participants = participants, pbt_serverNowMs = now\<rparr>) b1)"

definition mark_presence_dirty :: "string \<Rightarrow> string \<Rightarrow> presence_patch \<Rightarrow> bus \<Rightarrow> bus" where
  "mark_presence_dirty roomId userId patch b =
     (let d = ensure_dirty roomId b in
      set_dirty roomId (d\<lparr>rd_presence := merge_presence_dirty userId patch (rd_presence d),
                          rd_presenceTimer := True\<rparr>) b)"

definition flush_presence :: "jsnum \<Rightarrow> string \<Rightarrow> bus \<Rightarrow> bus" where
  "flush_presence now roomId b =
     (case map_of (bu_rooms b) roomId of
        None \<Rightarrow> b
      | Some d \<Rightarrow>
          (if rd_presence d = [] then b
           else flush_presence_batch now roomId (rd_presence d) (set_dirty roomId (d\<lparr>rd_presence := []\<rparr>) b)))"

text \<open>The presence timer goes off: the timer is forgotten, then the room is flushed.\<close>

definition presence_timer_fires :: "jsnum \<Rightarrow> string \<Rightarrow> bus \<Rightarrow> bus" where
  "presence_timer_fires now roomId b =
     flush_presence now roomId (set_dirty roomId ((ensure_dirty roomId b)\<lparr>rd_presenceTimer := False\<rparr>) b)"

section \<open>Snapshots\<close>

definition snapshot_cache_ttl_ms :: jsnum where "snapshot_cache_ttl_ms = 250"

definition overlay_participant :: "presence_patch \<Rightarrow> participant \<Rightarrow> participant" where
  "overlay_participant patch p =
     p\<lparr>pt_localPlayback := pick_defined (pp_localPlayback patch) (pt_localPlayback p),
       pt_connected := pick_defined (pp_connected patch) (pt_connected p),
       pt_lastSeenAt := or_else (pp_lastSeenAt patch) (pt_lastSeenAt p),
       pt_disconnectedAt := or_else (pp_disconnectedAt patch) (pt_disconnectedAt p),
       pt_username := pick_defined (pp_username patch) (pt_username p),
       pt_avatarStyle := pick_defined (pp_avatarStyle patch) (pt_avatarStyle p)\<rparr>"

definition apply_presence_overlay :: "server_room \<Rightarrow> (string \<times> presence_patch) list \<Rightarrow> server_room" where
  "apply_presence_overlay st overlay =
     st\<lparr>st_participants := fold (\<lambda>(userId, patch). adjust userId (overlay_participant patch)) overlay
          (st_participants st)\<rparr>"

definition invalidate_snapshot_cache :: "string \<Rightarrow> bus \<Rightarrow> bus" where
  "invalidate_snapshot_cache roomId b =
     (if roomId = [] then b\<lparr>bu_cache := []\<rparr> else b\<lparr>bu_cache := AList.delete roomId (bu_cache b)\<rparr>)"

definition fresh_snapshot :: "jsnum \<Rightarrow> nat \<Rightarrow> (string \<times> presence_patch) list \<Rightarrow> server_room \<Rightarrow> client_room" where
  "fresh_snapshot now presenceRevision overlay st =
     sanitize_room_state_for_client
       ((apply_presence_overlay st overlay)\<lparr>st_presenceRevision := Some presenceRevision,
          st_playback := (st_playback st)\<lparr>pb_seekPreview := None\<rparr>\<rparr>) now"

definition build_sanitized_snapshot :: "jsnum \<Rightarrow> string \<Rightarrow> world \<Rightarrow> bus \<Rightarrow> bus \<times> client_room option" where
  "build_sanitized_snapshot now roomId w b =
     (case get_room roomId w of
        None \<Rightarrow> (b, None)
      | Some st \<Rightarrow>
          (let presenceRevision = peek_presence_revision roomId b;
               build = (let payload = fresh_snapshot now presenceRevision (presence_data_all roomId w) st
                        in (b\<lparr>bu_cache := AList.update roomId
                               \<lparr>se_generation = st_generation st, se_structuralRevision = st_structuralRevision st,
                                 se_presenceRevision = presenceRevision, se_payload = payload, se_cachedAt = now\<rparr>
                               (bu_cache b)\<rparr>, Some payload))
           in case map_of (bu_cache b) roomId of
                None \<Rightarrow> build
              | Some c \<Rightarrow>
                  (if now - se_cachedAt c < snapshot_cache_ttl_ms \<and> presenceRevision = se_presenceRevision c
                      \<and> st_generation st = se_generation c \<and> st_structuralRevision st = se_structuralRevision c
                   then (b, Some (se_payload c)) else build)))"

definition flush_snapshot_publish ::
  "jsnum \<Rightarrow> string \<Rightarrow> structural_view option \<Rightarrow> world \<Rightarrow> bus \<Rightarrow> bus \<times> structural_view option" where
  "flush_snapshot_publish now roomId lastStructuralHash w b =
     (case build_sanitized_snapshot now roomId w b of
        (b1, None) \<Rightarrow> (b1, lastStructuralHash)
      | (b1, Some payload) \<Rightarrow>
          (let hash = structural_hash payload in
           if lastStructuralHash = Some hash then (b1, lastStructuralHash)
           else (publish_typed roomId (MSnapshot payload) b1, Some hash)))"

definition flush_snapshot :: "jsnum \<Rightarrow> string \<Rightarrow> world \<Rightarrow> bus \<Rightarrow> bus" where
  "flush_snapshot now roomId w b =
     (let d = (ensure_dirty roomId b)\<lparr>rd_snapshot := False, rd_actionLog := False, rd_actionLogTimer := False\<rparr>
      in case flush_snapshot_publish now roomId (rd_lastStructuralHash d) w (set_dirty roomId d b) of
           (b1, hash) \<Rightarrow> set_dirty roomId ((ensure_dirty roomId b1)\<lparr>rd_lastStructuralHash := hash\<rparr>) b1)"

definition mark_snapshot_dirty :: "string \<Rightarrow> bus \<Rightarrow> bus" where
  "mark_snapshot_dirty roomId b =
     (let b1 = invalidate_snapshot_cache roomId b
      in set_dirty roomId ((ensure_dirty roomId b1)\<lparr>rd_snapshot := True, rd_snapshotTimer := True\<rparr>) b1)"

definition mark_action_log_dirty :: "string \<Rightarrow> bus \<Rightarrow> bus" where
  "mark_action_log_dirty roomId b =
     set_dirty roomId ((ensure_dirty roomId b)\<lparr>rd_actionLog := True, rd_actionLogTimer := True\<rparr>) b"

definition snapshot_timer_fires :: "jsnum \<Rightarrow> string \<Rightarrow> world \<Rightarrow> bus \<Rightarrow> bus" where
  "snapshot_timer_fires now roomId w b =
     flush_snapshot now roomId w (set_dirty roomId ((ensure_dirty roomId b)\<lparr>rd_snapshotTimer := False\<rparr>) b)"

definition action_log_timer_fires :: "jsnum \<Rightarrow> string \<Rightarrow> world \<Rightarrow> bus \<Rightarrow> bus" where
  "action_log_timer_fires now roomId w b =
     (let d = (ensure_dirty roomId b)\<lparr>rd_actionLogTimer := False\<rparr> in
      if \<not> rd_actionLog d then set_dirty roomId d b
      else flush_snapshot now roomId w (set_dirty roomId (d\<lparr>rd_actionLog := False, rd_snapshot := True\<rparr>) b))"

section \<open>Coalescing\<close>

lemma patch_empty [simp]: "patch_participant empty_patch p = p"
  by (simp add: patch_participant_def empty_patch_def pick_defined_def or_else_def)

lemma patch_merge:
  "patch_participant (merge_patch a b) p = patch_participant b (patch_participant a p)"
  by (simp add: patch_participant_def merge_patch_def pick_defined_def or_else_def split: option.split)

lemma patch_reports [simp]: "patch_participant (a\<lparr>pp_localPlaybackReports := x\<rparr>) p = patch_participant a p"
  by (simp add: patch_participant_def)

text \<open>A patch map with one entry a user acts on each participant by that entry.\<close>

definition patched_by :: "(string \<times> presence_patch) list \<Rightarrow> string \<times> participant \<Rightarrow> string \<times> participant" where
  "patched_by d e = (fst e, case map_of d (fst e) of None \<Rightarrow> snd e | Some q \<Rightarrow> patch_participant q (snd e))"

lemma merge_pointwise:
  assumes "distinct (keys_of d)"
  shows "merge_participant_presence ps d = map (patched_by d) ps"
  using assms
proof (induction d arbitrary: ps)
  case Nil
  then show ?case by (simp add: merge_participant_presence_def patched_by_def)
next
  case (Cons e d)
  obtain u q where e: "e = (u, q)" by (cases e)
  have u: "map_of d u = None" using Cons.prems e by (simp add: map_of_eq_None_iff)
  have "merge_participant_presence ps (e # d) = map (patched_by d) (adjust u (patch_participant q) ps)"
    using Cons.IH [of "adjust u (patch_participant q) ps"] Cons.prems by (simp add: merge_participant_presence_def e)
  also have "\<dots> = map (patched_by (e # d)) ps"
    using u by (auto simp: adjust_def patched_by_def e)
  finally show ?case .
qed

definition mark_all :: "(string \<times> presence_patch) list \<Rightarrow> (string \<times> presence_patch) list \<Rightarrow> (string \<times> presence_patch) list" where
  "mark_all evs d = fold (\<lambda>(u, q). merge_presence_dirty u q) evs d"

lemma merge_dirty_keys: "distinct (keys_of d) \<Longrightarrow> distinct (keys_of (merge_presence_dirty u q d))"
  by (simp add: merge_presence_dirty_def Let_def distinct_update)

lemma merge_dirty_apply:
  assumes "distinct (keys_of d)"
  shows "merge_participant_presence ps (merge_presence_dirty u q d) =
    adjust u (patch_participant q) (merge_participant_presence ps d)"
  unfolding merge_pointwise [OF assms] merge_pointwise [OF merge_dirty_keys [OF assms]]
  by (auto simp: adjust_def patched_by_def merge_presence_dirty_def Let_def patch_merge split: option.split)

lemma mark_all_apply:
  assumes "distinct (keys_of d)"
  shows "merge_participant_presence ps (mark_all evs d) =
      merge_participant_presence (merge_participant_presence ps d) evs
    \<and> distinct (keys_of (mark_all evs d))"
  using assms
proof (induction evs arbitrary: d)
  case (Cons e evs)
  obtain u q where e: "e = (u, q)" by (cases e)
  have "merge_participant_presence (merge_participant_presence ps d) (e # evs) =
      merge_participant_presence (adjust u (patch_participant q) (merge_participant_presence ps d)) evs"
    by (simp add: merge_participant_presence_def e)
  then show ?case
    using Cons.IH [OF merge_dirty_keys [OF Cons.prems]] merge_dirty_apply [OF Cons.prems]
    by (simp add: mark_all_def e)
qed (simp add: mark_all_def merge_participant_presence_def)

lemma mark_all_clean:
  "\<forall>(u, q)\<in>set d. pp_localPlaybackReports q = None \<Longrightarrow> (v, x) \<in> set (mark_all evs d) \<Longrightarrow> pp_localPlaybackReports x = None"
proof (induction evs arbitrary: d)
  case (Cons e evs)
  obtain u q where e: "e = (u, q)" by (cases e)
  have "\<forall>(v, x)\<in>set (merge_presence_dirty u q d). pp_localPlaybackReports x = None"
    using Cons.prems(1)
    by (auto simp: merge_presence_dirty_def Let_def merge_patch_def or_else_def split: option.splits dest!: set_updateD)
  with Cons.IH Cons.prems(2) show ?case by (simp add: mark_all_def e)
qed (auto simp: mark_all_def)

lemma mark_all_nonempty: "evs \<noteq> [] \<or> d \<noteq> [] \<Longrightarrow> mark_all evs d \<noteq> []"
proof (induction evs arbitrary: d)
  case (Cons e evs)
  obtain u q where e: "e = (u, q)" by (cases e)
  have "AList.update u x d \<noteq> []" for x by (cases d) (auto split: prod.splits)
  then have "merge_presence_dirty u q d \<noteq> []" by (simp add: merge_presence_dirty_def Let_def)
  with Cons.IH show ?case by (simp add: mark_all_def e)
qed (simp add: mark_all_def)

lemma ensure_set [simp]: "ensure_dirty r (set_dirty r d b) = d"
  by (simp add: ensure_dirty_def set_dirty_def)

lemma set_dirty_sel [simp]:
  "bu_sent (set_dirty r d b) = bu_sent b" "bu_seqUp (set_dirty r d b) = bu_seqUp b"
  "bu_seq (set_dirty r d b) = bu_seq b" "bu_fallback (set_dirty r d b) = bu_fallback b"
  "bu_cache (set_dirty r d b) = bu_cache b" "map_of (bu_rooms (set_dirty r d b)) r = Some d"
  by (simp_all add: set_dirty_def)

lemma marks_dirty:
  "rd_presence (ensure_dirty r (fold (\<lambda>(u, q). mark_presence_dirty r u q) evs b)) =
     mark_all evs (rd_presence (ensure_dirty r b))"
  "bu_sent (fold (\<lambda>(u, q). mark_presence_dirty r u q) evs b) = bu_sent b"
  "bu_seqUp (fold (\<lambda>(u, q). mark_presence_dirty r u q) evs b) = bu_seqUp b"
  "bu_seq (fold (\<lambda>(u, q). mark_presence_dirty r u q) evs b) = bu_seq b"
  "bu_fallback (fold (\<lambda>(u, q). mark_presence_dirty r u q) evs b) = bu_fallback b"
  by (induction evs arbitrary: b) (auto simp: mark_all_def mark_presence_dirty_def Let_def)

lemma next_revision_cong:
  "bu_seqUp b' = bu_seqUp b \<Longrightarrow> bu_seq b' = bu_seq b \<Longrightarrow> bu_fallback b' = bu_fallback b \<Longrightarrow>
     snd (next_presence_revision r b') = snd (next_presence_revision r b)"
  by (simp add: next_presence_revision_def Let_def)

lemma next_revision_sent [simp]: "bu_sent (fst (next_presence_revision r b)) = bu_sent b"
  by (simp add: next_presence_revision_def Let_def)

section \<open>Properties\<close>

text \<open>
  C31. Coalescing loses nothing.  However many presence patches are reported for a room in one
  window, in whatever order and for whichever users, the timer sends exactly one batch; a client
  that takes it shows every participant as if it had taken the patches one by one, and no batch
  carries the reports of single connections.
\<close>

theorem presence_coalescing_faithful:
  assumes idle: "map_of (bu_rooms b) r = None" and evs: "evs \<noteq> []"
    and newer: "local_revision c < snd (next_presence_revision r b)"
  shows "\<exists>batch. bu_sent (presence_timer_fires now r (fold (\<lambda>(u, q). mark_presence_dirty r u q) evs b))
        = bu_sent b @ [(r, MPresence batch)]
      \<and> st_participants (take_batch c batch) =
          fold (\<lambda>(u, q) ps. adjust u (patch_participant q) ps) evs (st_participants c)
      \<and> local_revision (take_batch c batch) = snd (next_presence_revision r b)
      \<and> (\<forall>(u, q)\<in>set (pbt_participants batch). pp_localPlaybackReports q = None)"
proof -
  let ?b1 = "fold (\<lambda>(u, q). mark_presence_dirty r u q) evs b"
  let ?d = "(ensure_dirty r ?b1)\<lparr>rd_presenceTimer := False\<rparr>"
  let ?D = "mark_all evs []"
  let ?b2 = "set_dirty r (?d\<lparr>rd_presence := []\<rparr>) (set_dirty r ?d ?b1)"
  have D: "rd_presence ?d = ?D" using marks_dirty(1) [of r evs b] idle by (simp add: ensure_dirty_def no_dirty_def)
  have ne: "?D \<noteq> []" using evs mark_all_nonempty by blast
  have rev: "snd (next_presence_revision r ?b2) = snd (next_presence_revision r b)"
    by (rule next_revision_cong) (simp_all add: marks_dirty)
  let ?batch = "\<lparr>pbt_presenceRevision = snd (next_presence_revision r b), pbt_participants = ?D, pbt_serverNowMs = now\<rparr>"
  have "presence_timer_fires now r ?b1 = flush_presence_batch now r ?D ?b2"
    using ne D by (simp add: presence_timer_fires_def flush_presence_def)
  also have "\<dots> = publish_typed r (MPresence ?batch) (fst (next_presence_revision r ?b2))"
    using ne rev by (simp add: flush_presence_batch_def split_def)
  finally have sent: "bu_sent (presence_timer_fires now r ?b1) = bu_sent b @ [(r, MPresence ?batch)]"
    by (simp add: publish_typed_def marks_dirty)
  have "merge_participant_presence (st_participants c) ?D = merge_participant_presence (st_participants c) evs"
    using mark_all_apply [of "[]" "st_participants c" evs] by (simp add: merge_participant_presence_def)
  then have "st_participants (take_batch c ?batch) = merge_participant_presence (st_participants c) evs"
    using newer by (simp add: take_batch_def apply_presence_batch_def)
  moreover have "local_revision (take_batch c ?batch) = snd (next_presence_revision r b)"
    using newer by (simp add: presence.held_step)
  moreover have "\<forall>(u, q)\<in>set ?D. pp_localPlaybackReports q = None"
    using mark_all_clean [of "[]"] by auto
  ultimately show ?thesis
    using sent by (intro exI [of _ ?batch]) (simp add: merge_participant_presence_def)
qed


definition sample_bus :: bus where
  "sample_bus = \<lparr>bu_rooms = [], bu_cache = [], bu_seqUp = True, bu_seq = [(''r1'', 6)], bu_fallback = [], bu_sent = []\<rparr>"

theorem presence_coalescing_faithful_witness:
  "\<exists>batch. bu_sent (presence_timer_fires 9 ''r1''
        (mark_presence_dirty ''r1'' ''gst'' (empty_patch\<lparr>pp_connected := Some False\<rparr>)
          (mark_presence_dirty ''r1'' ''gst'' (empty_patch\<lparr>pp_username := Some ''Zoe''\<rparr>) sample_bus)))
      = [(''r1'', MPresence batch)]
    \<and> local_revision (take_batch (sanitize_room_state_for_client sample_room 5) batch) = 7"
proof -
  let ?c = "sanitize_room_state_for_client sample_room 5"
  let ?evs = "[(''gst'', empty_patch\<lparr>pp_username := Some ''Zoe''\<rparr>), (''gst'', empty_patch\<lparr>pp_connected := Some False\<rparr>)]"
  have next': "snd (next_presence_revision ''r1'' sample_bus) = 7"
    by (simp add: next_presence_revision_def sample_bus_def)
  have "local_revision ?c < snd (next_presence_revision ''r1'' sample_bus)"
    unfolding next' by (simp add: local_revision_def sanitize_room_state_for_client_def sample_room_def)
  from presence_coalescing_faithful [where b = sample_bus and evs = ?evs and now = 9, OF _ _ this] show ?thesis
    unfolding next' by (fastforce simp: sample_bus_def)
qed

section \<open>The snapshot cache\<close>

definition cache_ok :: "bus \<Rightarrow> bool" where
  "cache_ok b = (\<forall>(r, e)\<in>set (bu_cache b).
     st_generation (se_payload e) = se_generation e
     \<and> st_structuralRevision (se_payload e) = se_structuralRevision e
     \<and> st_presenceRevision (se_payload e) = Some (se_presenceRevision e)
     \<and> pb_seekPreview (st_playback (se_payload e)) = None)"

lemma fresh_snapshot_sel [simp]:
  "st_generation (fresh_snapshot now n ov st) = st_generation st"
  "st_structuralRevision (fresh_snapshot now n ov st) = st_structuralRevision st"
  "st_presenceRevision (fresh_snapshot now n ov st) = Some n"
  "pb_seekPreview (st_playback (fresh_snapshot now n ov st)) = None"
  by (simp_all add: fresh_snapshot_def sanitize_room_state_for_client_def apply_presence_overlay_def)

text \<open>
  A snapshot is never older than the room: served from the cache or built, it carries the
  generation, the structural revision and the presence revision of the moment it is asked for, no
  seek preview, and leaves a cache of which the same holds.
\<close>

theorem snapshot_current:
  assumes ok: "cache_ok b" and room: "get_room r w = Some st"
  shows "\<exists>b' s. build_sanitized_snapshot now r w b = (b', Some s) \<and> cache_ok b' \<and> bu_sent b' = bu_sent b
    \<and> st_generation s = st_generation st \<and> st_structuralRevision s = st_structuralRevision st
    \<and> st_presenceRevision s = Some (peek_presence_revision r b) \<and> pb_seekPreview (st_playback s) = None"
proof -
  let ?p = "fresh_snapshot now (peek_presence_revision r b) (presence_data_all r w) st"
  let ?e = "\<lparr>se_generation = st_generation st, se_structuralRevision = st_structuralRevision st,
     se_presenceRevision = peek_presence_revision r b, se_payload = ?p, se_cachedAt = now\<rparr>"
  let ?b = "b\<lparr>bu_cache := AList.update r ?e (bu_cache b)\<rparr>"
  have ok': "cache_ok ?b" using ok by (auto simp: cache_ok_def dest!: set_updateD)
  have build: ?thesis if "build_sanitized_snapshot now r w b = (?b, Some ?p)"
    using that ok' by simp
  show ?thesis
  proof (cases "map_of (bu_cache b) r")
    case None
    with room show ?thesis by (intro build) (simp add: build_sanitized_snapshot_def Let_def)
  next
    case (Some e)
    then have "(r, e) \<in> set (bu_cache b)" by (rule map_of_SomeD)
    with ok have e: "st_generation (se_payload e) = se_generation e"
      "st_structuralRevision (se_payload e) = se_structuralRevision e"
      "st_presenceRevision (se_payload e) = Some (se_presenceRevision e)"
      "pb_seekPreview (st_playback (se_payload e)) = None"
      unfolding cache_ok_def by fast+
    show ?thesis
    proof (cases "now - se_cachedAt e < snapshot_cache_ttl_ms \<and> peek_presence_revision r b = se_presenceRevision e
        \<and> st_generation st = se_generation e \<and> st_structuralRevision st = se_structuralRevision e")
      case True
      with room Some e ok show ?thesis by (simp add: build_sanitized_snapshot_def Let_def)
    next
      case False
      with room Some show ?thesis by (intro build) (auto simp: build_sanitized_snapshot_def Let_def)
    qed
  qed
qed

theorem snapshot_current_witness:
  "\<exists>b' s. build_sanitized_snapshot 10 ''r1'' sample_world sample_bus = (b', Some s) \<and> st_generation s = 4
     \<and> st_presenceRevision s = Some 6"
proof -
  have "cache_ok sample_bus" by (simp add: cache_ok_def sample_bus_def)
  moreover have "get_room ''r1'' sample_world = Some sample_room" by (simp add: get_room_def sample_world_def)
  moreover have "st_generation sample_room = 4" by (simp add: sample_room_def)
  moreover have "peek_presence_revision ''r1'' sample_bus = 6" by (simp add: peek_presence_revision_def sample_bus_def)
  ultimately show ?thesis using snapshot_current [of sample_bus "''r1''" sample_world sample_room 10] by metis
qed

section \<open>Where client and server disagree\<close>

lemma initial_generation [simp]: "st_generation (create_initial_room_state sf ids now ds r ow u k) = 0"
  by (simp add: create_initial_room_state_def Let_def)

text \<open>
  A room that was destroyed and created again under its name starts at generation 0.  A client
  that reconnects keeps the generation it had, so it takes the new playlist but keeps the old
  playback and index, and drops every control message until the new room has been changed as often
  as the old one: the reset on connect covers the presence revision only.
\<close>

theorem recreated_room_ignored:
  assumes old: "0 < st_generation c"
    and snapshot: "s = sanitize_room_state_for_client (create_initial_room_state safe ids t ds r ownr url skip) t"
    and next': "c' = apply_room_snapshot (reset_presence_watermark (Some c)) s"
  shows "st_playlist c' = st_playlist s \<and> st_playback c' = st_playback c \<and> st_currentIndex c' = st_currentIndex c
    \<and> (\<forall>ctrl. rc_generation ctrl < st_generation c \<longrightarrow> apply_room_control (Some c') ctrl = Some c')"
proof -
  have g: "st_generation s = 0" by (simp add: snapshot sanitize_room_state_for_client_def)
  then have "st_playlist c' = st_playlist s" "st_playback c' = st_playback c" "st_currentIndex c' = st_currentIndex c"
    "st_generation c' = st_generation c"
    using old by (simp_all add: next' apply_room_snapshot_def reset_presence_watermark_def Let_def)
  then show ?thesis by (simp add: apply_room_control_def)
qed

theorem recreated_room_ignored_witness:
  "st_playlist (apply_room_snapshot (reset_presence_watermark (Some (sanitize_room_state_for_client sample_room 5)))
      (sanitize_room_state_for_client (create_initial_room_state (\<lambda>_. None) (\<lambda>_. ''x'') 9 [] ''r1'' ''own'' None True) 9)) = []
   \<and> st_playback (apply_room_snapshot (reset_presence_watermark (Some (sanitize_room_state_for_client sample_room 5)))
      (sanitize_room_state_for_client (create_initial_room_state (\<lambda>_. None) (\<lambda>_. ''x'') 9 [] ''r1'' ''own'' None True) 9))
     = st_playback sample_room"
proof -
  have "0 < st_generation (sanitize_room_state_for_client sample_room 5)"
    by (simp add: sanitize_room_state_for_client_def sample_room_def)
  from recreated_room_ignored [OF this refl refl, of "\<lambda>_. None" "\<lambda>_. ''x''" 9 "[]" "''r1''" "''own''" None True]
  show ?thesis by (simp add: sanitize_room_state_for_client_def create_initial_room_state_def)
qed

text \<open>A snapshot that is behind replaces the playlist, under the revision of the newer one.\<close>

lemma stale_snapshot_overwrites:
  assumes "st_structuralRevision s < st_structuralRevision c"
  shows "st_playlist (apply_room_snapshot (Some c) s) = st_playlist s
    \<and> st_structuralRevision (apply_room_snapshot (Some c) s) = st_structuralRevision c"
  using assms by (simp add: apply_room_snapshot_def Let_def)


lemma prune_projection [simp]:
  "w_projection (fold (clear_prune now r) us w) = w_projection w"
  "w_projection (fold (schedule_prune now r) us w) = w_projection w"
  by (induction us arbitrary: w)
    (simp_all add: clear_prune_def schedule_prune_def s_rem_def s_add_def refresh_pending_ttl_def del_grace_def)

text \<open>
  Seek previews go out under a stale generation.  A mutation that is announced by a snapshot
  only (rename, title, duration, add, remove, reorder, role) raises the generation and leaves the
  cached control projection as it was, so the next preview carries a generation below that of the
  snapshot, and every client that has the snapshot drops it.
\<close>

theorem preview_dropped_after_snapshot_mutation:
  assumes room: "get_room (mc_roomId ctx) w = Some st"
    and mut: "mutate_room_message cfg fid now (mc_roomId ctx) u body HSnapshot w = (w1, Some st')"
    and body: "\<And>a p a'. body a p = Some a' \<Longrightarrow> st_generation a' = st_generation a"
    and cached: "get_cached_control_projection (mc_roomId ctx) w = Some c" "cj_generation c \<le> st_generation st"
    and socket: "get_socket_meta (mc_ws ctx) w = Some m" "sm_canControlPlayback m"
    and preview: "parse_seekPreview (env_payload data) = Some (t, active)" "with_default active True"
    and client: "client = sanitize_room_state_for_client st' now'"
  shows "\<exists>ctrl. w_out (handle_seek_preview now' ctx data w1) = w_out w1 @ [EControl (mc_roomId ctx) ctrl]
    \<and> apply_room_control (Some client) ctrl = Some client"
proof -
  let ?r = "mc_roomId ctx"
  let ?a = "read_ws_presence_user_ids ?r w"
  have commit: "mutate_commit cfg fid now ?a u body HSnapshot (Some st) = Some st'"
    using mutate_message_result [of cfg fid now ?r u body HSnapshot w] mut room by simp
  then obtain p st2 where b: "map_of (st_participants (fst (reconcile_participants_connectivity st ?a now))) u = Some p"
    "body (fst (reconcile_participants_connectivity st ?a now)) p = Some st2"
    by (auto simp: mutate_commit_def Let_def split: option.splits)
  have gen: "st_generation st' = st_generation st + 1"
    using commit_fields(4) [OF commit b] body [OF b(2)] by simp
  have "w_projection w1 = w_projection w"
    using arg_cong [OF mut, of fst] commit room
    by (simp add: mutate_room_message_def Let_def update_room_def reconcile_presence_refs_def
        split: option.splits if_splits) (auto simp: emit_def)
  then have c1: "get_cached_control_projection ?r w1 = Some c"
    using cached(1) by (simp add: get_cached_control_projection_def)
  have "w_sockets w1 = w_sockets w" using mutate_sockets(1) [of cfg fid now ?r u body HSnapshot w] mut by simp
  then have s1: "get_socket_meta (mc_ws ctx) w1 = Some m" using socket(1) by (simp add: get_socket_meta_def)
  have base: "preview_base now' ctx w1 = (w1, Some (cj_generation c, cj_currentIndex c, cj_playback c))"
    using c1 s1 socket(2) by (simp add: preview_base_def)
  have "cj_generation c < st_generation client"
    using cached(2) gen by (simp add: client sanitize_room_state_for_client_def)
  then show ?thesis
    using preview base by (simp add: handle_seek_preview_def apply_room_control_def)
qed


lemma mutate_commit_defined:
  assumes "map_of (st_participants st) u \<noteq> None"
    and "\<And>p. body (fst (reconcile_participants_connectivity st active now)) p \<noteq> None"
  shows "mutate_commit cfg fid now active u body hint (Some st) \<noteq> None"
proof -
  obtain p where p: "map_of (st_participants (fst (reconcile_participants_connectivity st active now))) u = Some p"
    using assms(1) by fastforce
  obtain st2 where st2: "body (fst (reconcile_participants_connectivity st active now)) p = Some st2"
    using assms(2) [of p] by blast
  show ?thesis unfolding mutate_commit_def Let_def option.case p st2 by simp
qed

lemma rename_body_generation: "rename_body cfg uid now ctx i n a p = Some a' \<Longrightarrow> st_generation a' = st_generation a"
  by (auto simp: rename_body_def apply_playlist_rename_def log_action_def update_item_def Let_def split: option.splits prod.splits if_splits)

theorem preview_dropped_after_snapshot_mutation_witness:
  "\<exists>w1 st' ctrl. mutate_room_message sample_limits ''f'' 3000 ''r1'' ''own''
        (rename_body sample_limits ''u'' 3000 (sample_context ''own'') ''m0'' ''New'') HSnapshot
        (sample_world\<lparr>w_projection := [(''r1'', \<lparr>cj_generation = 4, cj_currentIndex = 1, cj_playback = sample_playback\<rparr>)],
           w_sockets := [(mc_ws (sample_context ''own''), \<lparr>sm_roomId = ''r1'', sm_userId = ''own'', sm_connectionId = ''c'',
             sm_presenceTracked = True, sm_joinCommitted = True, sm_controlAuthorized = False, sm_isControlSession = False,
             sm_sessionKind = SRoom, sm_canControlPlayback = True, sm_clientIp = None\<rparr>)]\<rparr>) = (w1, Some st')
     \<and> apply_room_control (Some (sanitize_room_state_for_client st' 3100)) ctrl = Some (sanitize_room_state_for_client st' 3100)"
proof -
  let ?ctx = "sample_context ''own''"
  let ?meta = "\<lparr>sm_roomId = ''r1'', sm_userId = ''own'', sm_connectionId = ''c'',
      sm_presenceTracked = True, sm_joinCommitted = True, sm_controlAuthorized = False, sm_isControlSession = False,
      sm_sessionKind = SRoom, sm_canControlPlayback = True, sm_clientIp = None\<rparr>"
  let ?c = "\<lparr>cj_generation = 4, cj_currentIndex = 1, cj_playback = sample_playback\<rparr>"
  let ?w = "sample_world\<lparr>w_projection := [(''r1'', ?c)], w_sockets := [(mc_ws ?ctx, ?meta)]\<rparr>"
  let ?body = "rename_body sample_limits ''u'' 3000 ?ctx ''m0'' ''New''"
  let ?data = "\<lparr>env_type = ''seek:preview'', env_requestId = None, env_payload = JObj [(''targetMs'', JNum 5)]\<rparr>"
  have ctx: "mc_roomId ?ctx = ''r1''" by (simp add: sample_context_def)
  have room: "get_room ''r1'' ?w = Some sample_room" by (simp add: get_room_def sample_world_def)
  have gen: "cj_generation ?c \<le> st_generation sample_room" by (simp add: sample_room_def)
  have "?body st p \<noteq> None" if "st_playlist st = st_playlist sample_room" for st p
  proof -
    have "find_item ''m0'' st = Some 0" "st_playlist st ! 0 = sample_item ''m0''"
      using that by (simp_all add: find_item_def sample_room_def sample_item_def)
    moreover have "trim ''New'' = ''New''" "''New'' \<noteq> pi_name (sample_item ''m0'')"
      by (simp_all add: sample_item_def) (code_simp)
    ultimately show ?thesis by (simp add: rename_body_def apply_playlist_rename_def Let_def)
  qed
  then have b: "?body (fst (reconcile_participants_connectivity sample_room a 3000)) p \<noteq> None" for a p by simp
  have p: "map_of (st_participants sample_room) ''own'' \<noteq> None" by (simp add: sample_room_def)
  have "snd (mutate_room_message sample_limits ''f'' 3000 ''r1'' ''own'' ?body HSnapshot ?w) \<noteq> None"
    unfolding mutate_message_result room using p b by (rule mutate_commit_defined)
  then obtain w1 st' where mut: "mutate_room_message sample_limits ''f'' 3000 ''r1'' ''own'' ?body HSnapshot ?w = (w1, Some st')"
    by (metis not_None_eq prod.collapse)
  have proj: "get_cached_control_projection ''r1'' ?w = Some ?c" by (simp add: get_cached_control_projection_def)
  have sock: "get_socket_meta (mc_ws ?ctx) ?w = Some ?meta" "sm_canControlPlayback ?meta" by (simp_all add: get_socket_meta_def)
  have prev: "parse_seekPreview (env_payload ?data) = Some (Some 5, None)"
    by (simp add: parse_seekPreview_def p_opt_def)
  have bgen: "st_generation a' = st_generation a" if "?body a p = Some a'" for a p a'
    using that by (rule rename_body_generation)
  have active: "with_default (None :: bool option) True" by (simp add: with_default_def)
  obtain ctrl where "apply_room_control (Some (sanitize_room_state_for_client st' 3100)) ctrl =
      Some (sanitize_room_state_for_client st' 3100)"
    using preview_dropped_after_snapshot_mutation [where ctx = ?ctx and data = ?data and now' = 3100, unfolded ctx,
        OF room mut _ proj gen sock prev active refl] bgen by blast
  with mut show ?thesis by blast
qed

end
