(* ===== verification/Join.thy ===== *)
theory Join
  imports Broadcast
begin

text \<open>
  Entering a room (\<open>src/src/server/realtime/handlers/join.ts\<close> and \<open>join/\<close>): admission, the identity
  secret (\<open>services/identity-store.ts\<close>), control tokens (\<open>services/control-token.ts\<close>,
  \<open>control-auth.ts\<close>), the membership commit, and what follows it in the registry and the presence
  references.  SHA-256, scrypt, the URL check and the random ids are arguments.
\<close>

section \<open>Identity secrets\<close>

definition hash_identity_secret :: "(string \<Rightarrow> string) \<Rightarrow> string \<Rightarrow> string" where
  "hash_identity_secret sha userSecret = ''h1:'' @ sha userSecret"

definition is_hashed_identity_secret :: "string \<Rightarrow> bool" where
  "is_hashed_identity_secret v = (take 3 v = ''h1:'')"

definition secrets_match :: "(string \<Rightarrow> string) \<Rightarrow> string \<Rightarrow> string \<Rightarrow> bool" where
  "secrets_match sha stored userSecret =
     (if is_hashed_identity_secret stored then stored = hash_identity_secret sha userSecret
      else stored = userSecret)"

definition room_identities :: "string \<Rightarrow> world \<Rightarrow> (string \<times> string) list" where
  "room_identities roomId w = (case map_of (w_identities w) roomId of Some ids \<Rightarrow> ids | None \<Rightarrow> [])"

definition set_identity :: "string \<Rightarrow> string \<Rightarrow> string \<Rightarrow> world \<Rightarrow> world" where
  "set_identity roomId userId v w =
     w\<lparr>w_identities := AList.update roomId (AList.update userId v (room_identities roomId w)) (w_identities w)\<rparr>"

definition verify_and_maybe_migrate ::
  "(string \<Rightarrow> string) \<Rightarrow> string \<Rightarrow> string \<Rightarrow> string \<Rightarrow> string \<Rightarrow> world \<Rightarrow> world \<times> bool" where
  "verify_and_maybe_migrate sha roomId userId userSecret existing w =
     (if \<not> secrets_match sha existing userSecret then (w, False)
      else if \<not> is_hashed_identity_secret existing
      then (set_identity roomId userId (hash_identity_secret sha userSecret) w, True)
      else (w, True))"

definition claim_or_verify_identity_secret ::
  "(string \<Rightarrow> string) \<Rightarrow> string \<Rightarrow> string \<Rightarrow> string \<Rightarrow> world \<Rightarrow> world \<times> bool" where
  "claim_or_verify_identity_secret sha roomId userId userSecret w =
     (case map_of (room_identities roomId w) userId of
        None \<Rightarrow> (set_identity roomId userId (hash_identity_secret sha userSecret) w, True)
      | Some existing \<Rightarrow>
          (if existing = [] then (w, False)
           else verify_and_maybe_migrate sha roomId userId userSecret existing w))"

definition match_identity_secret ::
  "(string \<Rightarrow> string) \<Rightarrow> string \<Rightarrow> string \<Rightarrow> string \<Rightarrow> world \<Rightarrow> world \<times> bool" where
  "match_identity_secret sha roomId userId userSecret w =
     (case map_of (room_identities roomId w) userId of
        None \<Rightarrow> (w, False)
      | Some existing \<Rightarrow>
          (if existing = [] then (w, False)
           else verify_and_maybe_migrate sha roomId userId userSecret existing w))"

definition clear_room_identities :: "string \<Rightarrow> world \<Rightarrow> world" where
  "clear_room_identities roomId w = w\<lparr>w_identities := AList.delete roomId (w_identities w)\<rparr>"

section \<open>Control tokens\<close>

definition control_token_ttl_seconds :: jsnum where "control_token_ttl_seconds = 60 * 60 * 12"

text \<open>The random token is an argument; Redis drops the record when its time to live is over.\<close>

definition mint_control_token ::
  "(string \<Rightarrow> string) \<Rightarrow> string \<Rightarrow> jsnum \<Rightarrow> string \<Rightarrow> string \<Rightarrow> world \<Rightarrow> world \<times> string \<times> jsnum" where
  "mint_control_token sha token now roomId userId w =
     (let expiresAt = now + control_token_ttl_seconds * 1000 in
      (w\<lparr>w_tokens := AList.update (sha token)
           \<lparr>ct_roomId = roomId, ct_userId = userId, ct_mintedAt = now, ct_expiresAt = expiresAt\<rparr> (w_tokens w)\<rparr>,
       token, expiresAt))"

definition stored_control_token :: "jsnum \<Rightarrow> string \<Rightarrow> world \<Rightarrow> control_token option" where
  "stored_control_token now key w =
     (case map_of (w_tokens w) key of
        Some t \<Rightarrow> if now < ct_mintedAt t + control_token_ttl_seconds * 1000 then Some t else None
      | None \<Rightarrow> None)"

definition validate_control_token ::
  "(string \<Rightarrow> string) \<Rightarrow> jsnum \<Rightarrow> string \<Rightarrow> string \<Rightarrow> string \<Rightarrow> world \<Rightarrow> bool" where
  "validate_control_token sha now token roomId userId w =
     (case stored_control_token now (sha token) w of
        None \<Rightarrow> False
      | Some t \<Rightarrow>
          ct_roomId t \<noteq> [] \<and> ct_userId t \<noteq> [] \<and> ct_roomId t = roomId \<and> ct_userId t = userId
          \<and> \<not> ct_expiresAt t \<le> now)"

definition authorize_control_session ::
  "(string \<Rightarrow> string) \<Rightarrow> jsnum \<Rightarrow> session_kind \<Rightarrow> string option \<Rightarrow> string \<Rightarrow> string \<Rightarrow> world \<Rightarrow> bool \<times> bool" where
  "authorize_control_session sha now sessionKind controlToken roomId userId w =
     (if sessionKind \<noteq> SControl then (False, False)
      else (True, case controlToken of
                    Some t \<Rightarrow> t \<noteq> [] \<and> validate_control_token sha now t roomId userId w
                  | None \<Rightarrow> False))"

section \<open>Admission\<close>

text \<open>
  What the handler takes from outside: hashing, the URL check, the daily defaults, the verdicts of
  the two rate limits, the clock, fresh ids, and what other handlers do to the world while the
  presence reference is being written.
\<close>

record join_env =
  je_limits :: limits
  je_sha :: "string \<Rightarrow> string"
  je_scrypt :: "string \<Rightarrow> string \<Rightarrow> string"
  je_safe :: "string \<Rightarrow> string option"
  je_defaults :: "(string \<times> string) list"
  je_roomAllowed :: bool
  je_ipAllowed :: bool
  je_now :: jsnum
  je_itemIds :: "nat \<Rightarrow> string"
  je_userId :: string
  je_connectionId :: string
  je_repairId :: string
  je_transferId :: string
  je_joinedId :: string
  je_offlineId :: string
  je_during :: "world \<Rightarrow> world"

definition admit_join ::
  "join_env \<Rightarrow> nat \<Rightarrow> string option \<Rightarrow> string option \<Rightarrow> bool option \<Rightarrow> server_room option \<Rightarrow> world
     \<Rightarrow> world \<times> (string option \<times> bool) option" where
  "admit_join env ws joinPassword initialMediaUrl skipDefaultMedia existingState w =
     (if \<not> je_roomAllowed env then (emit (EJoinRejected ws JoinRateLimited) w, None)
      else if \<not> je_ipAllowed env then (emit (EJoinRejected ws JoinRateLimited) w, None)
      else case evaluate_create_media_seed (je_safe env) (existingState \<noteq> None) initialMediaUrl
                  (with_default skipDefaultMedia False) of
        SeedRejected \<Rightarrow> (emit (EJoinRejected ws MediaUrlUnsupported) w, None)
      | SeedOk seedUrl skip \<Rightarrow>
          (case evaluate_join_admission (je_scrypt env) existingState joinPassword of
             Denied reason \<Rightarrow> (emit (EJoinRejected ws reason) w, None)
           | Allowed \<Rightarrow> (w, Some (seedUrl, skip))))"

definition claim_join_identity ::
  "join_env \<Rightarrow> nat \<Rightarrow> string \<Rightarrow> string \<Rightarrow> string \<Rightarrow> world \<Rightarrow> world \<times> bool" where
  "claim_join_identity env ws roomId userId userSecret w =
     (case claim_or_verify_identity_secret (je_sha env) roomId userId userSecret w of
        (w1, True) \<Rightarrow> (w1, True)
      | (w1, False) \<Rightarrow> (emit (EJoinRejected ws IdentityMismatch) w1, False))"

section \<open>The membership commit\<close>

definition resolve_join_participant_profile :: "participant option \<Rightarrow> string \<Rightarrow> string \<Rightarrow> string \<times> string" where
  "resolve_join_participant_profile existing username avatarStyle =
     (case existing of
        Some p \<Rightarrow> (pt_username p, pt_avatarStyle p)
      | None \<Rightarrow> (username, avatarStyle))"

definition should_append_participant_joined_log :: "bool \<Rightarrow> bool option \<Rightarrow> bool" where
  "should_append_participant_joined_log tracked wasConnected = (\<not> tracked \<or> \<not> with_default wasConnected False)"

record join_input =
  jn_roomId :: string
  jn_userId :: string
  jn_username :: string
  jn_avatarStyle :: string
  jn_joinPassword :: "string option"
  jn_seedUrl :: "string option"
  jn_skipDefaultMedia :: bool
  jn_sessionKind :: session_kind
  jn_isControlSession :: bool
  jn_controlAuthorized :: bool
  jn_isPresenceAlreadyTracked :: bool

definition join_participant ::
  "jsnum \<Rightarrow> join_input \<Rightarrow> local_playback option \<Rightarrow> participant option \<Rightarrow> room_role \<Rightarrow> participant" where
  "join_participant now i overlay existing role =
     (let prof = resolve_join_participant_profile existing (jn_username i) (resolve_style (jn_avatarStyle i));
          lp = map_option pt_localPlayback existing
      in \<lparr>pt_userId = jn_userId i, pt_username = fst prof, pt_avatarStyle = snd prof, pt_role = role,
           pt_connected = True, pt_joinedAt = Some (with_default (Option.bind existing pt_joinedAt) now),
           pt_connectedAt = Some now, pt_disconnectedAt = None, pt_lastSeenAt = Some now,
           pt_localPlayback =
             \<lparr>lp_paused = with_default (or_else (map_option lp_paused overlay) (map_option lp_paused lp)) True,
               lp_currentTimeMs = with_default (or_else (map_option lp_currentTimeMs overlay) (map_option lp_currentTimeMs lp)) 0,
               lp_loading = with_default (or_else (map_option lp_loading overlay) (map_option lp_loading lp)) False,
               lp_error = or_else (Option.bind overlay lp_error) (Option.bind lp lp_error),
               lp_updatedAt = now\<rparr>,
           pt_viewerMedia = Option.bind existing pt_viewerMedia\<rparr>)"

definition join_role :: "server_room \<Rightarrow> string \<Rightarrow> participant option \<Rightarrow> room_role" where
  "join_role st userId existing =
     (case existing of
        Some p \<Rightarrow> pt_role p
      | None \<Rightarrow> if st_ownerId st = userId then Owner
                else role_of_join (rs_defaultJoinRole (snd (ensure_room_security st))))"

text \<open>The room the closure starts from, and the reconciliation it reports.\<close>

definition join_base :: "join_env \<Rightarrow> join_input \<Rightarrow> server_room option \<Rightarrow> server_room" where
  "join_base env i existing =
     (case existing of
        Some st \<Rightarrow> st
      | None \<Rightarrow> create_initial_room_state (je_safe env) (je_itemIds env) (je_now env) (je_defaults env)
                  (jn_roomId i) (jn_userId i) (jn_seedUrl i) (jn_skipDefaultMedia i))"

definition join_reconciled ::
  "join_env \<Rightarrow> join_input \<Rightarrow> string list \<Rightarrow> server_room option \<Rightarrow> server_room \<times> recon_result" where
  "join_reconciled env i active existing =
     reconcile_participants_connectivity
       (fst (apply_room_state_repair (je_limits env) (je_repairId env) (je_now env) (join_base env i existing)))
       active (je_now env)"

definition join_upsert ::
  "join_env \<Rightarrow> join_input \<Rightarrow> local_playback option \<Rightarrow> server_room \<Rightarrow> server_room" where
  "join_upsert env i overlay st =
     (let existing = map_of (st_participants st) (jn_userId i);
          role = join_role st (jn_userId i) existing;
          st1 = fst (ensure_room_security st)
      in st1\<lparr>st_participants := AList.update (jn_userId i)
               (join_participant (je_now env) i overlay existing role) (st_participants st1)\<rparr>)"

definition join_finish ::
  "join_env \<Rightarrow> join_input \<Rightarrow> participant option \<Rightarrow> room_role \<Rightarrow> string \<Rightarrow> server_room \<Rightarrow> server_room" where
  "join_finish env i existing role priorOwnerId st =
     (let now = je_now env;
          tr = transfer_ownership_if_needed (je_limits env) (je_transferId env) now st RJoin;
          st1 = fst tr;
          appendJoinedLog = should_append_participant_joined_log (jn_isPresenceAlreadyTracked i)
            (map_option pt_connected existing);
          st2 = (if appendJoinedLog then append_action_log (je_limits env) (je_joinedId env) now st1
                   \<lparr>ai_roomId = jn_roomId i, ai_actorUserId = jn_userId i,
                     ai_actorUsername = Some (fst (resolve_join_participant_profile existing (jn_username i)
                       (resolve_style (jn_avatarStyle i)))),
                     ai_action = ''participant:joined'', ai_payload = [], ai_error = None\<rparr> else st1);
          st3 = (mark_current_media st2)\<lparr>st_updatedAt := now\<rparr>;
          pureReconnect = (existing \<noteq> None \<and> \<not> appendJoinedLog \<and> \<not> snd tr
            \<and> map_option pt_role existing = Some role \<and> st_ownerId st3 = priorOwnerId)
      in if pureReconnect then st3 else bump_room_revisions st3)"

definition join_commit ::
  "join_env \<Rightarrow> join_input \<Rightarrow> string list \<Rightarrow> local_playback option \<Rightarrow> server_room option \<Rightarrow> server_room option" where
  "join_commit env i active overlay cur =
     (case evaluate_join_admission (je_scrypt env) (Some (join_base env i cur)) (jn_joinPassword i) of
        Denied _ \<Rightarrow> None
      | Allowed \<Rightarrow>
          (let st = fst (join_reconciled env i active cur);
               existing = map_of (st_participants st) (jn_userId i)
           in Some (join_finish env i existing (join_role st (jn_userId i) existing) (st_ownerId st)
                     (join_upsert env i overlay st))))"

definition join_capabilities :: "join_input \<Rightarrow> server_room \<Rightarrow> session_capabilities" where
  "join_capabilities i st =
     compute_session_capabilities
       (case map_of (st_participants st) (jn_userId i) of Some p \<Rightarrow> pt_role p | None \<Rightarrow> Guest)
       (jn_sessionKind i) (jn_isControlSession i) (jn_controlAuthorized i)"

text \<open>
  The result: the committed room with the two lists of users for the prune index, or nothing and a
  rejection on the wire.
\<close>

definition commit_join_membership ::
  "join_env \<Rightarrow> nat \<Rightarrow> join_input \<Rightarrow> world \<Rightarrow> world \<times> (server_room \<times> recon_result) option" where
  "commit_join_membership env ws i w =
     (let active = read_ws_presence_user_ids (jn_roomId i) w;
          w1 = reconcile_presence_refs (jn_roomId i) w;
          overlay = Option.bind (map_of (presence_data_all (jn_roomId i) w1) (jn_userId i)) pp_localPlayback;
          cur = get_room (jn_roomId i) w1
      in case update_room (jn_roomId i) (join_commit env i active overlay) w1 of
           (w2, Some st) \<Rightarrow> (w2, Some (st, snd (join_reconciled env i active cur)))
         | (w2, None) \<Rightarrow>
             (case evaluate_join_admission (je_scrypt env) (Some (join_base env i cur)) (jn_joinPassword i) of
                Denied reason \<Rightarrow> (emit (EJoinRejected ws reason) w2, None)
              | Allowed \<Rightarrow> (w2, None)))"

section \<open>After the commit\<close>

definition should_add_presence_on_join :: "bool \<Rightarrow> bool" where
  "should_add_presence_on_join isPresenceAlreadyTracked = (\<not> isPresenceAlreadyTracked)"

definition can_set_join_committed :: "bool \<Rightarrow> bool \<Rightarrow> bool" where
  "can_set_join_committed isOpen hasSocketMeta = (isOpen \<and> hasSocketMeta)"

definition abort_commit ::
  "join_env \<Rightarrow> string \<Rightarrow> string \<Rightarrow> server_room option \<Rightarrow> server_room option" where
  "abort_commit env roomId userId cur =
     (case cur of
        None \<Rightarrow> None
      | Some st \<Rightarrow>
          (case apply_user_went_offline (je_limits env) (je_offlineId env) (je_now env) st roomId userId of
             (st1, False) \<Rightarrow> None
           | (st1, True) \<Rightarrow> Some (bump_room_revisions st1)))"

definition abort_join_after_commit :: "join_env \<Rightarrow> nat \<Rightarrow> string \<Rightarrow> string \<Rightarrow> bool \<Rightarrow> world \<Rightarrow> world" where
  "abort_join_after_commit env ws roomId userId didAddPresence w =
     (let w1 = (if didAddPresence then remove_ws_connection_ref roomId userId w else w);
          w2 = remove_socket ws w1;
          active = read_ws_presence_user_ids roomId w2;
          w3 = reconcile_presence_refs roomId w2;
          w4 = (if userId \<in> set active \<or> userId \<in> set (read_ws_presence_user_ids roomId w3) then w3
                else case update_room roomId (abort_commit env roomId userId) w3 of
                  (v, None) \<Rightarrow> v
                | (v, Some st) \<Rightarrow>
                    emit (ESnapshotDirty roomId)
                      (publish_user_offline_presence (je_now env) roomId userId st
                        (schedule_prune (je_now env) roomId userId v)))
      in emit (EJoinRejected ws ConnectionClosed) w4)"

definition schedule_resolving_playlist_items :: "string \<Rightarrow> playlist_item list \<Rightarrow> world \<Rightarrow> world" where
  "schedule_resolving_playlist_items roomId playlist w =
     fold (\<lambda>it. if pi_ingestStatus it = Some IngestResolving \<and> pi_sourceKind it \<noteq> LocalFile
                then emit (EResolve roomId (pi_id it) (pi_sourceUrl it)) else id) playlist w"

definition joined_presence :: "jsnum \<Rightarrow> string \<Rightarrow> server_room \<Rightarrow> presence_patch" where
  "joined_presence now userId st =
     empty_patch\<lparr>pp_connected := Some True, pp_lastSeenAt := Some now,
       pp_localPlayback := map_option pt_localPlayback (map_of (st_participants st) userId)\<rparr>"

text \<open>Registry membership and presence, up to the second check of the socket.\<close>

definition join_register :: "join_env \<Rightarrow> nat \<Rightarrow> join_input \<Rightarrow> world \<Rightarrow> world \<times> bool" where
  "join_register env ws i w =
     (let r = jn_roomId i; u = jn_userId i;
          w1 = set_socket_control_authorized ws (jn_controlAuthorized i)
                 (add_socket ws (je_connectionId env) r u (jn_controlAuthorized i) (jn_isControlSession i)
                    (jn_sessionKind i) False w)
      in if should_add_presence_on_join (jn_isPresenceAlreadyTracked i)
         then (set_socket_presence_tracked ws True (add_ws_connection_ref r u w1), True)
         else (w1, False))"

definition join_settle ::
  "join_env \<Rightarrow> nat \<Rightarrow> join_input \<Rightarrow> server_room \<Rightarrow> recon_result \<Rightarrow> world \<Rightarrow> world" where
  "join_settle env ws i st rr w =
     (let r = jn_roomId i; u = jn_userId i; now = je_now env; caps = join_capabilities i st;
          w1 = set_socket_can_control_playback ws (sc_canControlPlayback caps) (set_socket_join_committed ws True w);
          w2 = clear_room_empty_marker r (clear_prune now r u w1);
          w3 = schedule_resolving_playlist_items r (st_playlist st) w2;
          w4 = merge_presence_data r u ((joined_presence now u st)
                 \<lparr>pp_username := map_option pt_username (map_of (st_participants st) u),
                   pp_avatarStyle := map_option pt_avatarStyle (map_of (st_participants st) u)\<rparr>) w3;
          w5 = emit (ESnapshotDirty r) w4;
          w6 = (if get_room r w5 \<noteq> None then emit (ESnapshotSent ws r) w5 else w5);
          w7 = emit (ECapabilities ws caps) (emit (EPresenceDirty r u (joined_presence now u st)) w6)
      in fold (schedule_prune now r) (rr_disconnecting rr) (fold (clear_prune now r) (rr_reconnecting rr) w7))"

definition post_commit_join_side_effects ::
  "join_env \<Rightarrow> nat \<Rightarrow> join_input \<Rightarrow> server_room \<Rightarrow> recon_result \<Rightarrow> world \<Rightarrow> world" where
  "post_commit_join_side_effects env ws i st rr w =
     (let r = jn_roomId i; u = jn_userId i in
      if ws \<notin> set (w_open w) then abort_join_after_commit env ws r u False w
      else case join_register env ws i w of
        (w1, didAddPresence) \<Rightarrow>
          (let w2 = je_during env w1 in
           if \<not> can_set_join_committed (ws \<in> set (w_open w2)) (get_socket_meta ws w2 \<noteq> None)
           then abort_join_after_commit env ws r u didAddPresence w2
           else join_settle env ws i st rr w2))"

section \<open>The handler\<close>

text \<open>Leaving the room the socket was in, when it was another one.\<close>

definition leave_previous :: "jsnum \<Rightarrow> nat \<Rightarrow> socket_meta option \<Rightarrow> string \<Rightarrow> string \<Rightarrow> world \<Rightarrow> world" where
  "leave_previous now ws previousMeta roomId userId w =
     (case previousMeta of
        None \<Rightarrow> w
      | Some m \<Rightarrow>
          (if sm_presenceTracked m \<and> (sm_roomId m \<noteq> roomId \<or> sm_userId m \<noteq> userId)
           then set_socket_presence_tracked ws False
             (clear_connection_local_playback_report now (sm_roomId m) (sm_userId m) (sm_connectionId m)
               (remove_ws_connection_ref (sm_roomId m) (sm_userId m) w))
           else w))"

definition join_user_id :: "join_env \<Rightarrow> room_join \<Rightarrow> string" where
  "join_user_id env join =
     (case rj_userId join of Some u \<Rightarrow> if u = [] then je_userId env else u | None \<Rightarrow> je_userId env)"

definition join_input_of ::
  "join_env \<Rightarrow> room_join \<Rightarrow> string option \<times> bool \<Rightarrow> bool \<times> bool \<Rightarrow> socket_meta option \<Rightarrow> join_input" where
  "join_input_of env join seed auth previousMeta =
     \<lparr>jn_roomId = rj_roomId join, jn_userId = join_user_id env join,
       jn_username = (case rj_username join of Some n \<Rightarrow> if n = [] then ''guest'' else n | None \<Rightarrow> ''guest''),
       jn_avatarStyle = resolve_style (case rj_avatarStyle join of
          Some s \<Rightarrow> if s = [] then default_avatar_style else s | None \<Rightarrow> default_avatar_style),
       jn_joinPassword = rj_joinPassword join, jn_seedUrl = fst seed, jn_skipDefaultMedia = snd seed,
       jn_sessionKind = rj_sessionKind join, jn_isControlSession = fst auth, jn_controlAuthorized = snd auth,
       jn_isPresenceAlreadyTracked = (case previousMeta of Some m \<Rightarrow> sm_presenceTracked m | None \<Rightarrow> False)\<rparr>"

definition handle_room_join :: "join_env \<Rightarrow> nat \<Rightarrow> json \<Rightarrow> world \<Rightarrow> world" where
  "handle_room_join env ws payload w =
     (case parse_roomJoin payload of
        None \<Rightarrow> w
      | Some join \<Rightarrow>
          (let r = rj_roomId join; u = join_user_id env join; previousMeta = get_socket_meta ws w in
           case admit_join env ws (rj_joinPassword join) (rj_initialMediaUrl join) (rj_skipDefaultMedia join)
                  (get_room r w) w of
             (w1, None) \<Rightarrow> w1
           | (w1, Some seed) \<Rightarrow>
               (case claim_join_identity env ws r u (rj_userSecret join)
                       (leave_previous (je_now env) ws previousMeta r u w1) of
                  (w2, False) \<Rightarrow> w2
                | (w2, True) \<Rightarrow>
                    (let i = join_input_of env join seed
                           (authorize_control_session (je_sha env) (je_now env) (rj_sessionKind join)
                              (rj_controlToken join) r u w2) previousMeta
                     in case commit_join_membership env ws i w2 of
                          (w3, None) \<Rightarrow> w3
                        | (w3, Some (st, rr)) \<Rightarrow> post_commit_join_side_effects env ws i st rr w3))))"

end
