(* ===== verification/Join_Properties.thy ===== *)
theory Join_Properties
  imports Join
begin

text \<open>
  What joining guarantees: the room invariant, who is let in, what an admitted member finds, and
  where the handler and the rest of the server disagree.
\<close>

section \<open>The invariant\<close>

text \<open>Fresh item ids are distinct, fresh ids are not empty, and interference keeps the invariant.\<close>

definition env_ok :: "join_env \<Rightarrow> bool" where
  "env_ok env = (inj (je_itemIds env) \<and> (\<forall>i. je_itemIds env i \<noteq> []) \<and> 0 \<le> je_now env \<and> je_userId env \<noteq> []
     \<and> (\<forall>w. world_wf (je_limits env) w \<longrightarrow> world_wf (je_limits env) (je_during env w)))"

lemma good_base:
  assumes "env_ok env" "jn_userId i \<noteq> []" "\<And>st. cur = Some st \<Longrightarrow> good_room (je_limits env) st"
  shows "good_room (je_limits env) (join_base env i cur)"
proof (cases cur)
  case None
  have "room_wf (je_limits env) (join_base env i cur)"
    unfolding join_base_def None option.case using assms(1) by (intro create_initial_wf) (auto simp: env_ok_def)
  moreover have "room_named (join_base env i cur)"
    using assms(2) by (simp add: join_base_def None room_named_def create_initial_room_state_def Let_def)
  ultimately show ?thesis ..
next
  case (Some st)
  then show ?thesis using assms(3) by (simp add: join_base_def)
qed

lemma good_reconciled:
  assumes "good_room (je_limits env) (join_base env i cur)"
  shows "good_room (je_limits env) (fst (join_reconciled env i active cur))"
  unfolding join_reconciled_def by (rule good_reconcile [OF good_repair [OF assms]])

lemma join_participant_sel [simp]:
  "pt_userId (join_participant now i ov e role) = jn_userId i" "pt_role (join_participant now i ov e role) = role"
  "pt_connected (join_participant now i ov e role)" "pt_disconnectedAt (join_participant now i ov e role) = None"
  by (simp_all add: join_participant_def Let_def)

lemma good_upsert:
  assumes "good_room cfg st" "jn_userId i \<noteq> []"
  shows "good_room cfg (join_upsert env i ov st)"
proof -
  note wf = room_wfD [OF conjunct1 [OF assms(1)]]
  let ?u = "jn_userId i"
  let ?p = "join_participant (je_now env) i ov (map_of (st_participants st) ?u) (join_role st ?u (map_of (st_participants st) ?u))"
  let ?st = "join_upsert env i ov st"
  have ps: "st_participants ?st = AList.update ?u ?p (st_participants st)"
    by (simp add: join_upsert_def Let_def ensure_room_security_def)
  have fr: "st_playlist ?st = st_playlist st" "st_currentIndex ?st = st_currentIndex st" "st_ownerId ?st = st_ownerId st"
    "st_playback ?st = st_playback st" "st_actionLog ?st = st_actionLog st"
    by (simp_all add: join_upsert_def Let_def ensure_room_security_def)
  have "owner_unique ?st"
    unfolding owner_unique_def ps fr
  proof (intro ballI impI)
    fix e assume e: "e \<in> set (AList.update ?u ?p (st_participants st))" "pt_role (snd e) = Owner"
    from set_updateD [OF e(1)] consider "e = (?u, ?p)" | "e \<in> set (st_participants st)"
      by blast
    then show "fst e = st_ownerId st"
    proof cases
      case 1
      show ?thesis
      proof (cases "map_of (st_participants st) ?u")
        case None
        then show ?thesis using 1 e(2) by (auto simp: join_role_def role_of_join.simps split: if_splits elim: role_of_join.elims)
      next
        case (Some q)
        then show ?thesis using 1 e(2) map_of_SomeD [OF Some] wf(3) by (fastforce simp: join_role_def owner_unique_def)
      qed
    next
      case 2
      then show ?thesis using e(2) wf(3) by (simp add: owner_unique_def)
    qed
  qed
  moreover have "keyed (st_participants ?st)" unfolding ps using wf(2) by (rule keyed_update) simp
  moreover have "playlist_wf ?st" by (rule playlist_wf_frame [THEN iffD2, OF fr(1,2) wf(1)])
  moreover have "security_wf (st_roomSecurity ?st)"
    using normalize_wf [of "st_roomSecurity st"] by (simp add: join_upsert_def Let_def ensure_room_security_def security_wf_def)
  ultimately have "room_wf cfg ?st" using wf by (intro room_wfI) (simp_all add: fr)
  moreover have "room_named ?st"
    using assms by (auto simp: room_named_def fr ps dest!: set_updateD)
  ultimately show ?thesis ..
qed

lemma good_append_log: "good_room cfg st \<Longrightarrow> good_room cfg (append_action_log cfg uid now st e)"
  by (auto simp: room_wf_def room_named_def playlist_wf_defs owner_unique_def intro: append_log_wf)

lemma good_mark [simp]: "good_room cfg (mark_current_media st) = good_room cfg st"
  by (simp add: room_wf_def room_named_def playlist_wf_defs owner_unique_def mark_current_media_def playback_wf_def)

lemma good_finish:
  assumes "good_room (je_limits env) st"
  shows "good_room (je_limits env) (join_finish env i e role o' st)"
proof -
  have "good_room (je_limits env) (fst (transfer_ownership_if_needed (je_limits env) (je_transferId env) (je_now env) st RJoin))"
    by (rule good_transfer [OF assms])
  then show ?thesis unfolding join_finish_def Let_def by (simp add: good_append_log)
qed

lemma good_join_commit:
  assumes "env_ok env" "jn_userId i \<noteq> []" "\<And>st. cur = Some st \<Longrightarrow> good_room (je_limits env) st"
    and "join_commit env i active ov cur = Some st'"
  shows "good_room (je_limits env) st'"
proof -
  let ?st = "fst (join_reconciled env i active cur)"
  have "good_room (je_limits env) (join_upsert env i ov ?st)"
    by (rule good_upsert [OF good_reconciled [OF good_base [OF assms(1-3)]] assms(2)])
  from good_finish [OF this] show ?thesis
    using assms(4) by (auto simp: join_commit_def Let_def split: admission.splits)
qed

section \<open>What the steps leave alone\<close>

lemma identity_frame [simp]:
  "w_rooms (fst (claim_or_verify_identity_secret sha r u sec w)) = w_rooms w"
  "w_refs (fst (claim_or_verify_identity_secret sha r u sec w)) = w_refs w"
  "w_sockets (fst (claim_or_verify_identity_secret sha r u sec w)) = w_sockets w"
  "w_open (fst (claim_or_verify_identity_secret sha r u sec w)) = w_open w"
  "w_node (fst (claim_or_verify_identity_secret sha r u sec w)) = w_node w"
  "w_alive (fst (claim_or_verify_identity_secret sha r u sec w)) = w_alive w"
  "w_reliable (fst (claim_or_verify_identity_secret sha r u sec w)) = w_reliable w"
  "w_out (fst (claim_or_verify_identity_secret sha r u sec w)) = w_out w"
  by (simp_all add: claim_or_verify_identity_secret_def verify_and_maybe_migrate_def set_identity_def split: option.split)

lemma claim_join_frame [simp]:
  "w_rooms (fst (claim_join_identity env ws r u sec w)) = w_rooms w"
  "w_refs (fst (claim_join_identity env ws r u sec w)) = w_refs w"
  "w_sockets (fst (claim_join_identity env ws r u sec w)) = w_sockets w"
  "w_open (fst (claim_join_identity env ws r u sec w)) = w_open w"
  "w_node (fst (claim_join_identity env ws r u sec w)) = w_node w"
  "w_alive (fst (claim_join_identity env ws r u sec w)) = w_alive w"
  "w_reliable (fst (claim_join_identity env ws r u sec w)) = w_reliable w"
  using identity_frame [of "je_sha env" r u sec w]
  by (simp_all add: claim_join_identity_def split_def del: identity_frame split: bool.split)

lemma registry_frame [simp]:
  "w_rooms (patch_socket_meta ws f w) = w_rooms w" "w_refs (patch_socket_meta ws f w) = w_refs w"
  "w_open (patch_socket_meta ws f w) = w_open w" "w_node (patch_socket_meta ws f w) = w_node w"
  "w_alive (patch_socket_meta ws f w) = w_alive w" "w_reliable (patch_socket_meta ws f w) = w_reliable w"
  "w_rooms (add_socket ws c r u a b k j w) = w_rooms w" "w_refs (add_socket ws c r u a b k j w) = w_refs w"
  "w_open (add_socket ws c r u a b k j w) = w_open w" "w_node (add_socket ws c r u a b k j w) = w_node w"
  "w_alive (add_socket ws c r u a b k j w) = w_alive w" "w_reliable (add_socket ws c r u a b k j w) = w_reliable w"
  "w_rooms (remove_socket ws w) = w_rooms w"
  by (simp_all add: patch_socket_meta_def add_socket_def remove_socket_def Let_def)

lemmas socket_setters = set_socket_presence_tracked_def set_socket_join_committed_def
  set_socket_control_authorized_def set_socket_can_control_playback_def

lemma resolving_frame [simp]:
  "w_rooms (schedule_resolving_playlist_items r pl w) = w_rooms w"
  "w_refs (schedule_resolving_playlist_items r pl w) = w_refs w"
  "w_sockets (schedule_resolving_playlist_items r pl w) = w_sockets w"
  "w_node (schedule_resolving_playlist_items r pl w) = w_node w"
  "w_alive (schedule_resolving_playlist_items r pl w) = w_alive w"
  "w_reliable (schedule_resolving_playlist_items r pl w) = w_reliable w"
  unfolding schedule_resolving_playlist_items_def by (induction pl arbitrary: w) simp_all

lemma leave_previous_rooms [simp]: "w_rooms (leave_previous now ws m r u w) = w_rooms w"
  by (simp add: leave_previous_def socket_setters split: option.split)

lemma join_settle_rooms [simp]: "w_rooms (join_settle env ws i st rr w) = w_rooms w"
  by (simp add: join_settle_def Let_def prune_fold_rooms socket_setters merge_presence_data_def)

lemma join_register_rooms [simp]: "w_rooms (fst (join_register env ws i w)) = w_rooms w"
  by (simp add: join_register_def Let_def socket_setters)

lemma admit_rooms [simp]: "w_rooms (fst (admit_join env ws pw url skip cur w)) = w_rooms w"
  by (simp add: admit_join_def split: media_seed.split admission.split)

lemma good_abort:
  assumes "\<And>st. cur = Some st \<Longrightarrow> good_room (je_limits env) st" "abort_commit env r u cur = Some st'"
  shows "good_room (je_limits env) st'"
proof -
  obtain st where st: "cur = Some st"
    "st' = bump_room_revisions (fst (apply_user_went_offline (je_limits env) (je_offlineId env) (je_now env) st r u))"
    using assms(2) by (auto simp: abort_commit_def split: option.splits prod.splits bool.splits)
  show ?thesis unfolding st(2) good_bump using assms(1) [OF st(1)] by (rule good_offline)
qed

lemma abort_wf:
  assumes "world_wf (je_limits env) w"
  shows "world_wf (je_limits env) (abort_join_after_commit env ws r u did w)"
proof -
  let ?w2 = "remove_socket ws (if did then remove_ws_connection_ref r u w else w)"
  let ?w3 = "reconcile_presence_refs r ?w2"
  have w3: "world_wf (je_limits env) ?w3" using assms by (simp add: world_wf_def)
  have up: "world_wf (je_limits env) (fst (update_room r (abort_commit env r u) ?w3))"
    using w3 by (rule update_room_wf) (rule good_abort)
  show ?thesis
    unfolding abort_join_after_commit_def Let_def
    using w3 up by (simp add: world_wf_def split_def split: option.split)
qed

lemma join_user_id_nonempty: "env_ok env \<Longrightarrow> join_user_id env join \<noteq> []"
  by (simp add: join_user_id_def env_ok_def split: option.split)

lemma join_input_sel [simp]:
  "jn_roomId (join_input_of env join seed auth m) = rj_roomId join"
  "jn_userId (join_input_of env join seed auth m) = join_user_id env join"
  "jn_joinPassword (join_input_of env join seed auth m) = rj_joinPassword join"
  by (simp_all add: join_input_of_def)

lemma commit_join_wf:
  assumes "world_wf (je_limits env) w" "env_ok env" "jn_userId i \<noteq> []"
  shows "world_wf (je_limits env) (fst (commit_join_membership env ws i w))"
proof -
  have "world_wf (je_limits env) (reconcile_presence_refs (jn_roomId i) w)" using assms(1) by (simp add: world_wf_def)
  then have up: "world_wf (je_limits env) (fst (update_room (jn_roomId i) (join_commit env i a ov)
      (reconcile_presence_refs (jn_roomId i) w)))" for a ov
    by (rule update_room_wf) (rule good_join_commit [OF assms(2,3)])
  show ?thesis
    unfolding commit_join_membership_def Let_def using up
    by (auto simp: split_def split: option.split admission.split)
qed

lemma post_commit_wf:
  assumes "world_wf (je_limits env) w" "env_ok env"
  shows "world_wf (je_limits env) (post_commit_join_side_effects env ws i st rr w)"
proof -
  have "world_wf (je_limits env) (fst (join_register env ws i w))" using assms(1) by (simp add: world_wf_def)
  then have d: "world_wf (je_limits env) (je_during env (fst (join_register env ws i w)))"
    using assms(2) by (simp add: env_ok_def)
  have "world_wf (je_limits env) (join_settle env ws i st rr w') = world_wf (je_limits env) w'" for w'
    by (rule world_wf_cong) simp
  with d assms(1) show ?thesis
    unfolding post_commit_join_side_effects_def Let_def by (simp add: split_def abort_wf)
qed

lemma join_wf [wf_intros]:
  assumes "world_wf (je_limits env) w" "env_ok env"
  shows "world_wf (je_limits env) (handle_room_join env ws payload w)"
proof (cases "parse_roomJoin payload")
  case (Some join)
  let ?r = "rj_roomId join" and ?u = "join_user_id env join" and ?m = "get_socket_meta ws w"
  obtain w1 seed where a: "admit_join env ws (rj_joinPassword join) (rj_initialMediaUrl join) (rj_skipDefaultMedia join)
      (get_room ?r w) w = (w1, seed)" by (cases "admit_join env ws (rj_joinPassword join) (rj_initialMediaUrl join)
      (rj_skipDefaultMedia join) (get_room ?r w) w")
  have w1: "w_rooms w1 = w_rooms w" using arg_cong [OF a, of "\<lambda>x. w_rooms (fst x)"] by simp
  obtain w2 ok where c: "claim_join_identity env ws ?r ?u (rj_userSecret join) (leave_previous (je_now env) ws ?m ?r ?u w1) = (w2, ok)"
    by (cases "claim_join_identity env ws ?r ?u (rj_userSecret join) (leave_previous (je_now env) ws ?m ?r ?u w1)")
  have w2: "w_rooms w2 = w_rooms w" using arg_cong [OF c, of "\<lambda>x. w_rooms (fst x)"] w1 by simp
  have wf12: "world_wf (je_limits env) w1" "world_wf (je_limits env) w2"
    using assms(1) world_wf_cong [OF w1] world_wf_cong [OF w2] by simp_all
  have commit: "world_wf (je_limits env) (fst (commit_join_membership env ws (join_input_of env join sd au ?m) w2))" for sd au
    using wf12(2) assms(2) by (rule commit_join_wf) (simp add: join_user_id_nonempty [OF assms(2)])
  have final: "world_wf (je_limits env) (case commit_join_membership env ws (join_input_of env join sd au ?m) w2 of
      (w3, None) \<Rightarrow> w3 | (w3, Some (st, rr)) \<Rightarrow> post_commit_join_side_effects env ws (join_input_of env join sd au ?m) st rr w3)" for sd au
    using commit [of sd au] post_commit_wf [OF _ assms(2)]
    by (cases "commit_join_membership env ws (join_input_of env join sd au ?m) w2") (auto split: option.split)
  show ?thesis
    unfolding handle_room_join_def Some option.case Let_def a
    using wf12 final by (cases seed; cases ok) (simp_all add: c)
qed (use assms in \<open>simp add: handle_room_join_def\<close>)

section \<open>The admitted member\<close>

lemma admit_Some:
  assumes "admit_join env ws pw url skip cur w = (w1, Some seed)"
  shows "w1 = w" "evaluate_join_admission (je_scrypt env) cur pw = Allowed"
  using assms by (auto simp: admit_join_def split: if_splits media_seed.splits admission.splits)

lemma admit_cases:
  "(\<exists>why. admit_join env ws pw url skip cur w = (emit (EJoinRejected ws why) w, None))
   \<or> (\<exists>seed. admit_join env ws pw url skip cur w = (w, Some seed))"
  by (simp add: admit_join_def split: media_seed.split admission.split) blast

lemma base_allowed:
  assumes "evaluate_join_admission (je_scrypt env) cur (jn_joinPassword i) = Allowed"
  shows "evaluate_join_admission (je_scrypt env) (Some (join_base env i cur)) (jn_joinPassword i) = Allowed"
proof (cases cur)
  case None
  have "st_roomSecurity (join_base env i None) = create_default_room_security"
    by (simp add: join_base_def create_initial_room_state_def Let_def)
  then show ?thesis
    by (simp add: None evaluate_join_admission_def ensure_room_security_def normalize_room_security_def
        drop_broken_password_def create_default_room_security_def Let_def)
qed (use assms in \<open>simp add: join_base_def\<close>)

lemma transfer_member:
  assumes "keyed (st_participants st)" "map_of (st_participants st) u = Some p"
  shows "\<exists>role. map_of (st_participants (fst (transfer_ownership_if_needed cfg uid now st reason))) u = Some (p\<lparr>pt_role := role\<rparr>)"
proof (cases "snd (transfer_ownership_if_needed cfg uid now st reason)")
  case True
  let ?t = "fst (transfer_ownership_if_needed cfg uid now st reason)"
  obtain nx where nx: "transferred st reason ?t nx" using transfer_shape [OF assms(1) True] by blast
  have "u \<in> set (keys_of (st_participants ?t))" using lookup_key [of "st_participants st" u] assms(2) by simp
  then obtain q where q: "map_of (st_participants ?t) u = Some q"
    by (metis map_of_eq_None_iff not_None_eq list.set_map)
  from transferred_role [OF nx q] obtain q0 where q0: "map_of (st_participants st) u = Some q0"
    "q = (if u = pt_userId nx then q0\<lparr>pt_role := Owner\<rparr> else if u = st_ownerId st then q0\<lparr>pt_role := Guest\<rparr> else q0)" by blast
  have "q = p\<lparr>pt_role := pt_role q\<rparr>" using q0 assms(2) by (auto split: if_splits)
  with q show ?thesis by metis
next
  case False
  have "p\<lparr>pt_role := pt_role p\<rparr> = p" by simp
  with False assms(2) show ?thesis unfolding transfer_no_effect [OF False] by metis
qed

lemma finish_participants [simp]:
  "st_participants (join_finish env i e role o' st) =
     st_participants (fst (transfer_ownership_if_needed (je_limits env) (je_transferId env) (je_now env) st RJoin))"
  by (simp add: join_finish_def Let_def)

lemma upsert_participants:
  "st_participants (join_upsert env i ov st) = AList.update (jn_userId i)
     (join_participant (je_now env) i ov (map_of (st_participants st) (jn_userId i))
       (join_role st (jn_userId i) (map_of (st_participants st) (jn_userId i)))) (st_participants st)"
  by (simp add: join_upsert_def Let_def ensure_room_security_def)

lemma join_commit_eq:
  assumes "join_commit env i active ov cur = Some st'"
  shows "st_participants st' = st_participants (fst (transfer_ownership_if_needed (je_limits env) (je_transferId env) (je_now env)
      (join_upsert env i ov (fst (join_reconciled env i active cur))) RJoin))"
  using assms by (auto simp: join_commit_def Let_def split: admission.splits)

lemma joined_member:
  assumes "env_ok env" "jn_userId i \<noteq> []" "\<And>st. cur = Some st \<Longrightarrow> good_room (je_limits env) st"
    and c: "join_commit env i active ov cur = Some st'"
  shows "\<exists>p. map_of (st_participants st') (jn_userId i) = Some p \<and> pt_connected p \<and> pt_disconnectedAt p = None
    \<and> pt_userId p = jn_userId i"
proof -
  let ?st = "fst (join_reconciled env i active cur)"
  have good: "good_room (je_limits env) (join_upsert env i ov ?st)"
    by (rule good_upsert [OF good_reconciled [OF good_base [OF assms(1-3)]] assms(2)])
  have up: "map_of (st_participants (join_upsert env i ov ?st)) (jn_userId i) =
      Some (join_participant (je_now env) i ov (map_of (st_participants ?st) (jn_userId i))
        (join_role ?st (jn_userId i) (map_of (st_participants ?st) (jn_userId i))))"
    by (simp add: upsert_participants)
  show ?thesis
    unfolding join_commit_eq [OF c]
    using transfer_member [OF room_wfD(2) [OF conjunct1 [OF good]] up, of "je_limits env" "je_transferId env" "je_now env" RJoin]
    by fastforce
qed

lemma commit_join_Some:
  assumes adm: "evaluate_join_admission (je_scrypt env) (get_room (jn_roomId i) w) (jn_joinPassword i) = Allowed"
  obtains st rr where "commit_join_membership env ws i w =
      (fst (update_room (jn_roomId i) (\<lambda>_. Some st) (reconcile_presence_refs (jn_roomId i) w)), Some (st, rr))"
    "\<exists>active ov. join_commit env i active ov (get_room (jn_roomId i) w) = Some st"
proof -
  let ?r = "jn_roomId i"
  let ?w1 = "reconcile_presence_refs ?r w"
  let ?a = "read_ws_presence_user_ids ?r w"
  let ?ov = "Option.bind (map_of (presence_data_all ?r ?w1) (jn_userId i)) pp_localPlayback"
  obtain st where st: "join_commit env i ?a ?ov (get_room ?r w) = Some st"
    using base_allowed [where i = i, OF adm] by (simp add: join_commit_def Let_def)
  have "commit_join_membership env ws i w = (fst (update_room ?r (\<lambda>_. Some st) ?w1), Some (st, snd (join_reconciled env i ?a (get_room ?r w))))"
    using st by (simp add: commit_join_membership_def Let_def update_room_def)
  with st show thesis using that by blast
qed

lemma add_ref_online:
  assumes "w_node w \<noteq> []"
  shows "u \<in> set (read_ws_presence_user_ids r (add_ws_connection_ref r u w))"
proof -
  let ?c = "case map_of (room_refs r w) u of Some c \<Rightarrow> c | None \<Rightarrow> []"
  let ?n = "(case map_of ?c (w_node w) of Some c \<Rightarrow> c | None \<Rightarrow> 0) + 1"
  let ?b = "bump_presence_node_count ?c (w_node w) 1"
  have b: "?b = AList.update (w_node w) ?n ?c" by (simp add: bump_presence_node_count_def nat_add_distrib)
  have "map_of ?b (w_node w) = Some ?n" unfolding b by simp
  then have mem: "(w_node w, ?n) \<in> set (filter (\<lambda>(k, n). n > 0 \<and> k \<noteq> []) ?b)" using assms by (auto dest: map_of_SomeD)
  then obtain e where e: "encode_counts ?b = Some e" "(w_node w, ?n) \<in> set e"
    by (cases "filter (\<lambda>(k, n). n > 0 \<and> k \<noteq> []) ?b") (auto simp: encode_counts_def Let_def)
  have refs: "map_of (room_refs r (add_ws_connection_ref r u w)) u = Some e"
    using e(1) by (simp add: add_ws_connection_ref_def room_refs_bump)
  have node: "w_node (add_ws_connection_ref r u w) = w_node w"
    by (simp add: add_ws_connection_ref_def bump_ws_connection_ref_def Let_def)
  have "is_present_on_alive_node e (alive_nodes (add_ws_connection_ref r u w))"
    using e(2) by (force simp: is_present_on_alive_node_def alive_nodes_def node)
  moreover have "e \<noteq> []" using e(2) by auto
  ultimately have "fst (scan_entry (alive_nodes (add_ws_connection_ref r u w)) (w_reliable (add_ws_connection_ref r u w)) e)"
    by (cases "w_reliable (add_ws_connection_ref r u w)") (simp_all add: scan_entry_reliable, simp add: scan_entry_def)
  then show ?thesis using map_of_SomeD [OF refs] by (force simp: read_ws_presence_user_ids_def)
qed

lemma prune_fold_frame [simp]:
  "w_refs (fold (clear_prune now r) us w) = w_refs w" "w_refs (fold (schedule_prune now r) us w) = w_refs w"
  "w_node (fold (clear_prune now r) us w) = w_node w" "w_node (fold (schedule_prune now r) us w) = w_node w"
  "w_alive (fold (clear_prune now r) us w) = w_alive w" "w_alive (fold (schedule_prune now r) us w) = w_alive w"
  "w_reliable (fold (clear_prune now r) us w) = w_reliable w" "w_reliable (fold (schedule_prune now r) us w) = w_reliable w"
  by (induction us arbitrary: w) simp_all

lemma prune_out [simp]:
  "w_out (clear_prune now r u w) = w_out w" "w_out (schedule_prune now r u w) = w_out w"
  by (simp_all add: clear_prune_def schedule_prune_def s_rem_def s_add_def refresh_pending_ttl_def del_grace_def)

lemma prune_fold_out [simp]:
  "w_out (fold (clear_prune now r) us w) = w_out w" "w_out (fold (schedule_prune now r) us w) = w_out w"
  by (induction us arbitrary: w) simp_all

lemma marker_frame [simp]:
  "w_refs (clear_room_empty_marker r w) = w_refs w" "w_node (clear_room_empty_marker r w) = w_node w"
  "w_alive (clear_room_empty_marker r w) = w_alive w" "w_reliable (clear_room_empty_marker r w) = w_reliable w"
  "w_sockets (clear_room_empty_marker r w) = w_sockets w"
  by (simp_all add: clear_room_empty_marker_def)

lemma join_settle_presence: "read_ws_presence_user_ids r (join_settle env ws i st rr w) = read_ws_presence_user_ids r w"
  by (rule read_ws_cong)
    (simp_all add: join_settle_def Let_def socket_setters merge_presence_data_def)

lemma join_settle_socket:
  "get_socket_meta ws (join_settle env ws i st rr w) = map_option (\<lambda>m. m\<lparr>sm_joinCommitted := True,
     sm_canControlPlayback := sc_canControlPlayback (join_capabilities i st)\<rparr>) (get_socket_meta ws w)"
  by (simp add: join_settle_def Let_def get_socket_meta_def socket_setters merge_presence_data_def patch_socket_meta_def
      option.map_comp comp_def)

lemma join_settle_sends:
  assumes "get_room (jn_roomId i) w \<noteq> None"
  shows "ESnapshotSent ws (jn_roomId i) \<in> set (w_out (join_settle env ws i st rr w))
    \<and> ECapabilities ws (join_capabilities i st) \<in> set (w_out (join_settle env ws i st rr w))"
proof -
  have g: "get_room r (set_socket_can_control_playback ws b (set_socket_join_committed ws c v)) = get_room r v" for r b c v
    by (rule get_room_cong) (simp add: socket_setters)
  have h: "get_room r (schedule_resolving_playlist_items r' pl v) = get_room r v"
    "get_room r (clear_room_empty_marker r' v) = get_room r v" "get_room r (clear_prune now r' u v) = get_room r v" for r r' pl v now u
    by (rule get_room_cong; simp)+
  show ?thesis using assms by (simp add: join_settle_def Let_def g h)
qed

lemma join_register_facts:
  assumes "join_register env ws i w = (w1, did)"
  shows "w_rooms w1 = w_rooms w" "w_open w1 = w_open w"
    and "get_socket_meta ws w1 \<noteq> None"
    and "\<And>m. get_socket_meta ws w1 = Some m \<Longrightarrow> sm_roomId m = jn_roomId i \<and> sm_userId m = jn_userId i
      \<and> sm_presenceTracked m = (\<not> jn_isPresenceAlreadyTracked i \<or>
          (case get_socket_meta ws w of Some m0 \<Rightarrow> sm_presenceTracked m0 | None \<Rightarrow> False))"
    and "read_ws_presence_user_ids r w1 = (if jn_isPresenceAlreadyTracked i then read_ws_presence_user_ids r w
      else read_ws_presence_user_ids r (add_ws_connection_ref (jn_roomId i) (jn_userId i) w))"
proof -
  let ?w0 = "set_socket_control_authorized ws (jn_controlAuthorized i)
      (add_socket ws (je_connectionId env) (jn_roomId i) (jn_userId i) (jn_controlAuthorized i) (jn_isControlSession i)
         (jn_sessionKind i) False w)"
  have eq: "w1 = (if jn_isPresenceAlreadyTracked i then ?w0
      else set_socket_presence_tracked ws True (add_ws_connection_ref (jn_roomId i) (jn_userId i) ?w0))"
    using assms by (simp add: join_register_def Let_def should_add_presence_on_join_def split: if_splits)
  have refs: "read_ws_presence_user_ids r ?w0 = read_ws_presence_user_ids r w" for r
    by (rule read_ws_cong) (simp_all add: socket_setters)
  have "read_ws_presence_user_ids r (set_socket_presence_tracked ws True (add_ws_connection_ref a b ?w0))
      = read_ws_presence_user_ids r (add_ws_connection_ref a b w)" for a b
    by (rule read_ws_cong) (simp_all add: socket_setters add_ws_connection_ref_def bump_ws_connection_ref_def Let_def room_refs_def)
  with refs show "read_ws_presence_user_ids r w1 = (if jn_isPresenceAlreadyTracked i then read_ws_presence_user_ids r w
      else read_ws_presence_user_ids r (add_ws_connection_ref (jn_roomId i) (jn_userId i) w))"
    by (simp add: eq)
  have bump: "w_sockets (add_ws_connection_ref a b v) = w_sockets v" "w_open (add_ws_connection_ref a b v) = w_open v" for a b v
    by (simp_all add: add_ws_connection_ref_def bump_ws_connection_ref_def Let_def)
  show "w_rooms w1 = w_rooms w" "w_open w1 = w_open w" by (simp_all add: eq socket_setters bump)
  have meta: "get_socket_meta ws w1 = Some \<lparr>sm_roomId = jn_roomId i, sm_userId = jn_userId i,
      sm_connectionId = (case get_socket_meta ws w of Some m \<Rightarrow> sm_connectionId m | None \<Rightarrow> je_connectionId env),
      sm_presenceTracked = (\<not> jn_isPresenceAlreadyTracked i \<or>
          (case get_socket_meta ws w of Some m0 \<Rightarrow> sm_presenceTracked m0 | None \<Rightarrow> False)),
      sm_joinCommitted = False, sm_controlAuthorized = jn_controlAuthorized i, sm_isControlSession = jn_isControlSession i,
      sm_sessionKind = jn_sessionKind i,
      sm_canControlPlayback = (case get_socket_meta ws w of Some m \<Rightarrow> sm_canControlPlayback m | None \<Rightarrow> False),
      sm_clientIp = (case Option.bind (get_socket_meta ws w) sm_clientIp of
         Some ip \<Rightarrow> Some ip | None \<Rightarrow> map_of (w_earlyIps w) ws)\<rparr>"
    by (simp add: eq get_socket_meta_def socket_setters patch_socket_meta_def add_socket_def bump Let_def)
  then show "get_socket_meta ws w1 \<noteq> None" by simp
  show "sm_roomId m = jn_roomId i \<and> sm_userId m = jn_userId i \<and> sm_presenceTracked m = (\<not> jn_isPresenceAlreadyTracked i \<or>
          (case get_socket_meta ws w of Some m0 \<Rightarrow> sm_presenceTracked m0 | None \<Rightarrow> False))"
    if "get_socket_meta ws w1 = Some m" for m
    using that unfolding meta by (auto simp del: not_None_eq)
qed

text \<open>A join that passes the gates, up to the side effects after the commit.\<close>

lemma join_run:
  assumes parse: "parse_roomJoin payload = Some join"
    and admit: "admit_join env ws (rj_joinPassword join) (rj_initialMediaUrl join) (rj_skipDefaultMedia join)
        (get_room (rj_roomId join) w) w = (w, Some seed)"
    and claim: "claim_join_identity env ws (rj_roomId join) (join_user_id env join) (rj_userSecret join)
        (leave_previous (je_now env) ws (get_socket_meta ws w) (rj_roomId join) (join_user_id env join) w) = (w2, True)"
  obtains i st rr where "jn_roomId i = rj_roomId join" "jn_userId i = join_user_id env join"
    "jn_isPresenceAlreadyTracked i = (case get_socket_meta ws w of Some m \<Rightarrow> sm_presenceTracked m | None \<Rightarrow> False)"
    "\<exists>active ov. join_commit env i active ov (get_room (rj_roomId join) w) = Some st"
    "handle_room_join env ws payload w = post_commit_join_side_effects env ws i st rr
       (fst (update_room (rj_roomId join) (\<lambda>_. Some st) (reconcile_presence_refs (rj_roomId join) w2)))"
    "w_rooms w2 = w_rooms w"
proof -
  let ?i = "join_input_of env join seed (authorize_control_session (je_sha env) (je_now env) (rj_sessionKind join)
      (rj_controlToken join) (rj_roomId join) (join_user_id env join) w2) (get_socket_meta ws w)"
  have w2: "w_rooms w2 = w_rooms w" using arg_cong [OF claim, of "\<lambda>x. w_rooms (fst x)"] by simp
  have room: "get_room (rj_roomId join) w2 = get_room (rj_roomId join) w" by (rule get_room_cong [OF w2])
  have adm: "evaluate_join_admission (je_scrypt env) (get_room (jn_roomId ?i) w2) (jn_joinPassword ?i) = Allowed"
    using admit_Some(2) [OF admit] room by simp
  obtain st rr where st: "commit_join_membership env ws ?i w2 =
      (fst (update_room (rj_roomId join) (\<lambda>_. Some st) (reconcile_presence_refs (rj_roomId join) w2)), Some (st, rr))"
    "\<exists>active ov. join_commit env ?i active ov (get_room (rj_roomId join) w) = Some st"
    by (rule commit_join_Some [OF adm]) (simp add: room)
  show thesis
    by (rule that [of ?i st rr]) (use st w2 parse admit claim in \<open>simp_all add: handle_room_join_def Let_def join_input_of_def\<close>)
qed

section \<open>Properties\<close>



definition sample_env :: join_env where
  "sample_env = \<lparr>je_limits = sample_limits, je_sha = (\<lambda>s. s), je_scrypt = sample_hash, je_safe = (\<lambda>_. None),
     je_defaults = [], je_roomAllowed = True, je_ipAllowed = True, je_now = 3000,
     je_itemIds = (\<lambda>n. replicate (Suc n) CHR ''i''), je_userId = ''nu'', je_connectionId = ''c9'', je_repairId = ''r'',
     je_transferId = ''t'', je_joinedId = ''j'', je_offlineId = ''o'', je_during = id\<rparr>"

definition sample_join :: json where
  "sample_join = JObj [(''roomId'', JStr ''r1''), (''userSecret'', JStr ''sec'')]"

definition sample_request :: room_join where
  "sample_request = \<lparr>rj_roomId = ''r1'', rj_userId = None, rj_userSecret = ''sec'', rj_joinPassword = None,
     rj_username = None, rj_avatarStyle = None, rj_sessionKind = SRoom, rj_controlToken = None,
     rj_initialMediaUrl = None, rj_skipDefaultMedia = None\<rparr>"

lemma sample_parse: "parse_roomJoin sample_join = Some sample_request"
  by (simp add: parse_roomJoin_def sample_join_def sample_request_def p_field_def p_opt_def)

lemma sample_env_ok: "env_ok sample_env"
  by (auto simp: env_ok_def sample_env_def inj_def dest: arg_cong [where f = length])

lemma sample_admit:
  assumes "get_room ''r1'' w = Some sample_room"
  shows "admit_join sample_env ws (rj_joinPassword sample_request) (rj_initialMediaUrl sample_request)
    (rj_skipDefaultMedia sample_request) (get_room (rj_roomId sample_request) w) w = (w, Some (None, False))"
  using assms
  by (simp add: admit_join_def sample_env_def sample_request_def evaluate_create_media_seed_def
      evaluate_join_admission_def ensure_room_security_def normalize_room_security_def drop_broken_password_def
      sample_room_def Let_def)


text \<open>
  A join that does not pass the room's password changes nothing but what the socket is told:
  the rooms, the registry, the presence references and the stored identities stay as they are.
\<close>

theorem join_denied_changes_nothing:
  assumes parse: "parse_roomJoin payload = Some join"
    and denied: "evaluate_join_admission (je_scrypt env) (get_room (rj_roomId join) w) (rj_joinPassword join) = Denied reason"
  shows "\<exists>why. handle_room_join env ws payload w = emit (EJoinRejected ws why) w"
proof -
  have "\<exists>why. admit_join env ws (rj_joinPassword join) (rj_initialMediaUrl join) (rj_skipDefaultMedia join)
      (get_room (rj_roomId join) w) w = (emit (EJoinRejected ws why) w, None)"
    using denied by (auto simp: admit_join_def split: media_seed.split)
  then show ?thesis using parse by (auto simp: handle_room_join_def Let_def)
qed

theorem join_denied_changes_nothing_witness:
  "\<exists>why. handle_room_join sample_env 7 sample_join
      (sample_world\<lparr>w_rooms := [(''r1'', set_join_password sample_hash ''5a'' 9 sample_room ''pw'')]\<rparr>) =
    emit (EJoinRejected 7 why) (sample_world\<lparr>w_rooms := [(''r1'', set_join_password sample_hash ''5a'' 9 sample_room ''pw'')]\<rparr>)"
proof (rule join_denied_changes_nothing [OF sample_parse])
  let ?st = "set_join_password sample_hash ''5a'' 9 sample_room ''pw''"
  have "rs_joinPasswordEnabled (snd (ensure_room_security ?st))"
    by (simp add: set_join_password_def ensure_room_security_def normalize_room_security_def drop_broken_password_def
        truthy_def sample_hash_def Let_def)
  then show "evaluate_join_admission (je_scrypt sample_env) (get_room (rj_roomId sample_request)
      (sample_world\<lparr>w_rooms := [(''r1'', ?st)]\<rparr>)) (rj_joinPassword sample_request) = Denied PasswordRequired"
    by (simp add: evaluate_join_admission_def sample_request_def get_room_def)
qed

section \<open>Impersonation\<close>

lemma identities_claim:
  "room_identities r (set_identity r' u v w) = (if r = r' then AList.update u v (room_identities r w) else room_identities r w)"
  by (simp add: room_identities_def set_identity_def)

lemma hashed [simp]: "is_hashed_identity_secret (hash_identity_secret sha s)"
  by (simp add: is_hashed_identity_secret_def hash_identity_secret_def)

lemma identities_frame [simp]:
  "room_identities r (emit e w) = room_identities r w"
  "room_identities r (leave_previous now ws m r' u w) = room_identities r w"
  by (simp_all add: room_identities_def leave_previous_def socket_setters patch_socket_meta_def remove_ws_connection_ref_def
      bump_ws_connection_ref_def clear_connection_local_playback_report_def merge_presence_data_def Let_def
      emit_def split: option.split)

text \<open>
  C2. The first claim of a user id in a room wins.  Once a user has joined under a secret, whoever
  presents another secret (one of another hash) under that id is turned away: no room changes, the
  claim stays, and the owner of the secret keeps getting in.
\<close>

theorem identity_first_claim_wins:
  assumes parse: "parse_roomJoin payload = Some join"
    and unclaimed: "map_of (room_identities (rj_roomId join) w0) (join_user_id env join) = None"
    and stored: "map_of (room_identities (rj_roomId join) w) (join_user_id env join) =
        map_of (room_identities (rj_roomId join)
          (fst (claim_or_verify_identity_secret (je_sha env) (rj_roomId join) (join_user_id env join) secret w0)))
          (join_user_id env join)"
  shows "claim_or_verify_identity_secret (je_sha env) (rj_roomId join) (join_user_id env join) secret w = (w, True)
    \<and> (je_sha env (rj_userSecret join) \<noteq> je_sha env secret \<longrightarrow>
         w_rooms (handle_room_join env ws payload w) = w_rooms w
         \<and> room_identities (rj_roomId join) (handle_room_join env ws payload w) = room_identities (rj_roomId join) w
         \<and> (\<exists>why. w_out (handle_room_join env ws payload w) \<noteq> w_out w
              \<and> last (w_out (handle_room_join env ws payload w)) = EJoinRejected ws why))"
proof
  let ?r = "rj_roomId join" and ?u = "join_user_id env join"
  let ?h = "hash_identity_secret (je_sha env) secret"
  have have': "map_of (room_identities ?r w) ?u = Some ?h"
    using stored unclaimed by (simp add: claim_or_verify_identity_secret_def identities_claim)
  have ne: "?h \<noteq> []" by (simp add: hash_identity_secret_def)
  show "claim_or_verify_identity_secret (je_sha env) ?r ?u secret w = (w, True)"
    using ne by (simp add: claim_or_verify_identity_secret_def have' verify_and_maybe_migrate_def secrets_match_def)
  show "je_sha env (rj_userSecret join) \<noteq> je_sha env secret \<longrightarrow>
         w_rooms (handle_room_join env ws payload w) = w_rooms w
         \<and> room_identities ?r (handle_room_join env ws payload w) = room_identities ?r w
         \<and> (\<exists>why. w_out (handle_room_join env ws payload w) \<noteq> w_out w
              \<and> last (w_out (handle_room_join env ws payload w)) = EJoinRejected ws why)"
  proof
    assume other: "je_sha env (rj_userSecret join) \<noteq> je_sha env secret"
    let ?adm = "admit_join env ws (rj_joinPassword join) (rj_initialMediaUrl join) (rj_skipDefaultMedia join) (get_room ?r w) w"
    let ?lv = "leave_previous (je_now env) ws (get_socket_meta ws w) ?r ?u w"
    have no: "claim_join_identity env ws ?r ?u (rj_userSecret join) ?lv = (emit (EJoinRejected ws IdentityMismatch) ?lv, False)"
      using other ne have'
      by (simp add: claim_join_identity_def claim_or_verify_identity_secret_def verify_and_maybe_migrate_def
          secrets_match_def hash_identity_secret_def is_hashed_identity_secret_def)
    consider (denied) why where "?adm = (emit (EJoinRejected ws why) w, None)" | (admitted) seed where "?adm = (w, Some seed)"
      using admit_cases by blast
    then show "w_rooms (handle_room_join env ws payload w) = w_rooms w
         \<and> room_identities ?r (handle_room_join env ws payload w) = room_identities ?r w
         \<and> (\<exists>why. w_out (handle_room_join env ws payload w) \<noteq> w_out w
              \<and> last (w_out (handle_room_join env ws payload w)) = EJoinRejected ws why)"
    proof cases
      case denied
      then show ?thesis by (simp add: handle_room_join_def parse Let_def)
    next
      case admitted
      have "handle_room_join env ws payload w = emit (EJoinRejected ws IdentityMismatch) ?lv"
        by (simp add: handle_room_join_def parse Let_def admitted no)
      moreover have "\<exists>es. w_out ?lv = w_out w @ es"
        by (auto simp: leave_previous_def clear_connection_local_playback_report_def socket_setters patch_socket_meta_def
            remove_ws_connection_ref_def bump_ws_connection_ref_def merge_presence_data_def Let_def split: option.split)
      ultimately show ?thesis by auto
    qed
  qed
qed

theorem identity_first_claim_wins_witness:
  "w_rooms (handle_room_join sample_env 7 sample_join
      (fst (claim_or_verify_identity_secret (\<lambda>s. s) ''r1'' ''nu'' ''other'' sample_world))) = w_rooms sample_world"
proof -
  let ?w = "fst (claim_or_verify_identity_secret (\<lambda>s. s) ''r1'' ''nu'' ''other'' sample_world)"
  have ids: "rj_roomId sample_request = ''r1''" "join_user_id sample_env sample_request = ''nu''"
    "je_sha sample_env = (\<lambda>s. s)" "rj_userSecret sample_request = ''sec''"
    by (simp_all add: sample_request_def join_user_id_def sample_env_def)
  have "map_of (room_identities ''r1'' sample_world) ''nu'' = None" by (simp add: room_identities_def sample_world_def)
  from identity_first_claim_wins [OF sample_parse, of sample_world sample_env ?w "''other''", unfolded ids, OF this refl]
  show ?thesis by simp
qed

section \<open>Joining another room on the same socket\<close>

lemma leave_previous_presence:
  assumes "get_socket_meta ws w = Some m" "sm_presenceTracked m" "sm_roomId m \<noteq> r"
  shows "read_ws_presence_user_ids r (leave_previous now ws (Some m) r u w) = read_ws_presence_user_ids r w"
    and "get_socket_meta ws (leave_previous now ws (Some m) r u w) = Some (m\<lparr>sm_presenceTracked := False\<rparr>)"
    and "w_open (leave_previous now ws (Some m) r u w) = w_open w"
proof -
  let ?a = "remove_ws_connection_ref (sm_roomId m) (sm_userId m) w"
  have bump: "w_sockets ?a = w_sockets w" "w_open ?a = w_open w" "w_node ?a = w_node w" "w_alive ?a = w_alive w"
    "w_reliable ?a = w_reliable w"
    by (simp_all add: remove_ws_connection_ref_def bump_ws_connection_ref_def Let_def)
  have refs: "room_refs r ?a = room_refs r w"
    using assms(3) by (simp add: remove_ws_connection_ref_def room_refs_bump)
  have rep: "w_sockets (clear_connection_local_playback_report now a b c v) = w_sockets v"
    "w_open (clear_connection_local_playback_report now a b c v) = w_open v"
    "w_refs (clear_connection_local_playback_report now a b c v) = w_refs v"
    "w_node (clear_connection_local_playback_report now a b c v) = w_node v"
    "w_alive (clear_connection_local_playback_report now a b c v) = w_alive v"
    "w_reliable (clear_connection_local_playback_report now a b c v) = w_reliable v" for a b c v
    by (simp_all add: clear_connection_local_playback_report_def merge_presence_data_def Let_def split: option.split)
  have eq: "leave_previous now ws (Some m) r u w = set_socket_presence_tracked ws False
      (clear_connection_local_playback_report now (sm_roomId m) (sm_userId m) (sm_connectionId m) ?a)"
    using assms(2,3) by (simp add: leave_previous_def)
  have "room_refs r (leave_previous now ws (Some m) r u w) = room_refs r w"
    using refs by (simp add: eq room_refs_def socket_setters rep)
  then show "read_ws_presence_user_ids r (leave_previous now ws (Some m) r u w) = read_ws_presence_user_ids r w"
    by (simp add: read_ws_presence_user_ids_def alive_nodes_def eq socket_setters rep bump)
  show "get_socket_meta ws (leave_previous now ws (Some m) r u w) = Some (m\<lparr>sm_presenceTracked := False\<rparr>)"
    using assms(1) by (simp add: eq get_socket_meta_def socket_setters patch_socket_meta_def rep bump)
  show "w_open (leave_previous now ws (Some m) r u w) = w_open w" by (simp add: eq socket_setters rep bump)
qed

text \<open>
  A socket that joins a second room is not counted there.  The handler drops the reference of
  the first room but decides about the new one by the meta it read before, so it adds none: the
  new room lists the user as connected while no presence scan reports the user, and the next
  reconciliation marks the user offline although the socket is open and joined.
\<close>

theorem room_switch_loses_presence:
  assumes wf: "world_wf (je_limits env) w" and env: "env_ok env" "je_during env = id"
    and parse: "parse_roomJoin payload = Some join"
    and socket: "get_socket_meta ws w = Some m" "sm_presenceTracked m" "sm_roomId m \<noteq> rj_roomId join" "ws \<in> set (w_open w)"
    and alone: "join_user_id env join \<notin> set (read_ws_presence_user_ids (rj_roomId join) w)"
    and admit: "admit_join env ws (rj_joinPassword join) (rj_initialMediaUrl join) (rj_skipDefaultMedia join)
        (get_room (rj_roomId join) w) w = (w, Some seed)"
    and claim: "claim_join_identity env ws (rj_roomId join) (join_user_id env join) (rj_userSecret join)
        (leave_previous (je_now env) ws (Some m) (rj_roomId join) (join_user_id env join) w) = (w2, True)"
    and w': "w' = handle_room_join env ws payload w"
  shows "\<exists>st p m' q. get_room (rj_roomId join) w' = Some st
    \<and> map_of (st_participants st) (join_user_id env join) = Some p \<and> pt_connected p
    \<and> get_socket_meta ws w' = Some m' \<and> sm_roomId m' = rj_roomId join \<and> sm_joinCommitted m' \<and> \<not> sm_presenceTracked m'
    \<and> join_user_id env join \<notin> set (read_ws_presence_user_ids (rj_roomId join) w')
    \<and> map_of (st_participants (fst (reconcile_participants_connectivity st
         (read_ws_presence_user_ids (rj_roomId join) w') later))) (join_user_id env join) = Some q \<and> \<not> pt_connected q"
proof -
  let ?r = "rj_roomId join" and ?u = "join_user_id env join"
  obtain i st rr where i: "jn_roomId i = ?r" "jn_userId i = ?u" "jn_isPresenceAlreadyTracked i"
    and c: "\<exists>active ov. join_commit env i active ov (get_room ?r w) = Some st"
    and run0: "handle_room_join env ws payload w = post_commit_join_side_effects env ws i st rr
       (fst (update_room ?r (\<lambda>_. Some st) (reconcile_presence_refs ?r w2)))"
    by (rule join_run [OF parse admit claim [folded socket(1)]]) (simp add: socket(1,2))
  note run = w' [unfolded run0]
  note lv = leave_previous_presence [OF socket(1-3), of "je_now env" ?u]
  let ?w3 = "fst (update_room ?r (\<lambda>_. Some st) (reconcile_presence_refs ?r w2))"
  have w2: "w_open w2 = w_open w" "get_socket_meta ws w2 = Some (m\<lparr>sm_presenceTracked := False\<rparr>)"
    "read_ws_presence_user_ids ?r w2 = read_ws_presence_user_ids ?r w"
    using arg_cong [OF claim, of "\<lambda>x. w_open (fst x)"] arg_cong [OF claim, of "\<lambda>x. w_sockets (fst x)"] lv
      read_ws_cong [of w2 "leave_previous (je_now env) ws (Some m) ?r ?u w" ?r]
      arg_cong [OF claim, of "\<lambda>x. w_refs (fst x)"] arg_cong [OF claim, of "\<lambda>x. w_node (fst x)"]
      arg_cong [OF claim, of "\<lambda>x. w_alive (fst x)"] arg_cong [OF claim, of "\<lambda>x. w_reliable (fst x)"]
    by (simp_all add: get_socket_meta_def)
  have w3: "w_open ?w3 = w_open w" "get_socket_meta ws ?w3 = Some (m\<lparr>sm_presenceTracked := False\<rparr>)" "get_room ?r ?w3 = Some st"
    using w2 by (simp_all add: update_room_def reconcile_presence_refs_def get_socket_meta_def)
  have "read_ws_presence_user_ids ?r ?w3 = read_ws_presence_user_ids ?r (reconcile_presence_refs ?r w2)"
    by (rule read_ws_cong) (simp_all add: update_room_def)
  then have r3: "read_ws_presence_user_ids ?r ?w3 = read_ws_presence_user_ids ?r w" using w2(3) by simp
  obtain w4 did where reg: "join_register env ws i ?w3 = (w4, did)" by (cases "join_register env ws i ?w3")
  note facts = join_register_facts [OF reg]
  obtain m4 where m4: "get_socket_meta ws w4 = Some m4" using facts(3) by blast
  have settle: "w' = join_settle env ws i st rr w4"
    using socket(4) w3(1) facts(2) m4
    by (simp add: run post_commit_join_side_effects_def reg Let_def env(2) can_set_join_committed_def)
  have room: "get_room ?r w' = Some st"
    using w3(3) get_room_cong [OF facts(1), of ?r] get_room_cong [OF join_settle_rooms, of ?r env ws i st rr w4] settle by simp
  have good: "\<And>st. get_room ?r w = Some st \<Longrightarrow> good_room (je_limits env) st" using wf world_wfD by blast
  have u: "jn_userId i \<noteq> []" using join_user_id_nonempty [OF env(1)] i by simp
  obtain p where p: "map_of (st_participants st) ?u = Some p" "pt_connected p" "pt_userId p = ?u"
    using c joined_member [OF env(1) u good] i by metis
  have offline: "?u \<notin> set (read_ws_presence_user_ids ?r w')"
    using facts(5) [of ?r] i alone r3 settle by (simp add: join_settle_presence)
  have m': "get_socket_meta ws w' = Some (m4\<lparr>sm_joinCommitted := True,
      sm_canControlPlayback := sc_canControlPlayback (join_capabilities i st)\<rparr>)"
    by (simp add: settle join_settle_socket m4)
  have tr: "\<not> sm_presenceTracked m4" "sm_roomId m4 = ?r" using facts(4) [OF m4] i w3(2) by simp_all
  show ?thesis using room p m' tr offline by fastforce
qed


theorem room_switch_loses_presence_witness:
  "\<exists>st p. get_room ''r1'' (handle_room_join sample_env 7 sample_join (sample_world\<lparr>w_open := [7], w_sockets :=
        [(7, \<lparr>sm_roomId = ''r0'', sm_userId = ''nu'', sm_connectionId = ''c'', sm_presenceTracked = True,
          sm_joinCommitted = True, sm_controlAuthorized = False, sm_isControlSession = False, sm_sessionKind = SRoom,
          sm_canControlPlayback = False, sm_clientIp = None\<rparr>)]\<rparr>)) = Some st
    \<and> map_of (st_participants st) ''nu'' = Some p \<and> pt_connected p"
proof -
  let ?m = "\<lparr>sm_roomId = ''r0'', sm_userId = ''nu'', sm_connectionId = ''c'', sm_presenceTracked = True,
      sm_joinCommitted = True, sm_controlAuthorized = False, sm_isControlSession = False, sm_sessionKind = SRoom,
      sm_canControlPlayback = False, sm_clientIp = None\<rparr>"
  let ?w = "sample_world\<lparr>w_open := [7], w_sockets := [(7, ?m)]\<rparr>"
  have wf: "world_wf (je_limits sample_env) ?w" using sample_world_wf by (simp add: sample_env_def world_wf_def)
  have room: "get_room ''r1'' ?w = Some sample_room" by (simp add: get_room_def sample_world_def)
  have ids: "rj_roomId sample_request = ''r1''" "join_user_id sample_env sample_request = ''nu''"
    by (simp_all add: sample_request_def join_user_id_def sample_env_def)
  have sock: "get_socket_meta 7 ?w = Some ?m" "sm_presenceTracked ?m" "sm_roomId ?m \<noteq> rj_roomId sample_request" "7 \<in> set (w_open ?w)"
    by (simp_all add: get_socket_meta_def ids)
  have alone: "join_user_id sample_env sample_request \<notin> set (read_ws_presence_user_ids (rj_roomId sample_request) ?w)"
    unfolding ids by (simp add: read_ws_presence_user_ids_def room_refs_def sample_world_def)
  let ?lv = "leave_previous (je_now sample_env) 7 (Some ?m) (rj_roomId sample_request) (join_user_id sample_env sample_request) ?w"
  have "map_of (room_identities ''r1'' ?lv) ''nu'' = None"
    unfolding identities_frame by (simp add: room_identities_def sample_world_def)
  then have "snd (claim_join_identity sample_env 7 (rj_roomId sample_request) (join_user_id sample_env sample_request)
      (rj_userSecret sample_request) ?lv) = True"
    unfolding ids by (simp add: claim_join_identity_def claim_or_verify_identity_secret_def)
  then obtain w2 where w2: "claim_join_identity sample_env 7 (rj_roomId sample_request)
      (join_user_id sample_env sample_request) (rj_userSecret sample_request) ?lv = (w2, True)"
    by (metis prod.collapse)
  have env: "je_during sample_env = id" by (simp add: sample_env_def)
  show ?thesis
    using room_switch_loses_presence [OF wf sample_env_ok env sample_parse sock alone sample_admit [OF room] w2 refl, of 9]
    unfolding ids by blast
qed

section \<open>The participants limit\<close>

lemma join_keys:
  assumes "join_commit env i active ov (Some st) = Some st'"
  shows "keys_of (st_participants st') = keys_of (AList.update (jn_userId i) q
    (take (lim_participants (je_limits env)) (filter (\<lambda>(u, p). u \<noteq> []) (st_participants st))))"
proof -
  have keys: "keys_of (AList.update k v (map_vals f al)) = keys_of (AList.update k v' al)" for k v v' f and al :: participants
    by (simp add: AList.update_keys del: set_map)
  have "keys_of (st_participants st') = keys_of (st_participants (join_upsert env i ov (fst (join_reconciled env i active (Some st)))))"
    unfolding join_commit_eq [OF assms] by simp
  then show ?thesis
    by (simp add: upsert_participants join_reconciled_def join_base_def repair_participants_field AList.update_keys del: set_map)
qed

text \<open>
  Joining does not look at the participants limit.  In a full room a newcomer is let in and
  listed past the limit, and the repair that runs with the next accepted command of anybody drops
  exactly the newcomer again.
\<close>

theorem join_over_limit_dropped:
  assumes "good_room (je_limits env) st" "length (st_participants st) = lim_participants (je_limits env)"
    and "map_of (st_participants st) (jn_userId i) = None"
    and "join_commit env i active ov (Some st) = Some st'"
  shows "length (st_participants st') = lim_participants (je_limits env) + 1
    \<and> map_of (st_participants st') (jn_userId i) \<noteq> None
    \<and> keys_of (st_participants (fst (apply_room_state_repair (je_limits env) fid later st'))) = keys_of (st_participants st)"
proof -
  let ?ps = "st_participants st"
  have named: "filter (\<lambda>(u, p). u \<noteq> []) ?ps = ?ps"
    using assms(1) by (force simp: room_named_def filter_id_conv)
  have new: "AList.update (jn_userId i) q ?ps = ?ps @ [(jn_userId i, q)]" for q
    by (rule AList_update_last [OF assms(3)])
  have keys: "keys_of (st_participants st') = keys_of ?ps @ [jn_userId i]"
    unfolding join_keys [OF assms(4), of undefined] named using assms(2) by (simp add: new)
  have "length (st_participants st') = length (keys_of ?ps @ [jn_userId i])" using arg_cong [OF keys, of length] by simp
  moreover have "jn_userId i \<in> set (keys_of (st_participants st'))" unfolding keys by simp
  then have "map_of (st_participants st') (jn_userId i) \<noteq> None" by (simp add: map_of_eq_None_iff)
  moreover have "keys_of (st_participants (fst (apply_room_state_repair (je_limits env) fid later st'))) = keys_of ?ps"
  proof -
    have "keys_of (filter (\<lambda>(u, p). u \<noteq> []) al) = filter (\<lambda>u. u \<noteq> []) (keys_of al)" for al :: participants
      by (induction al) auto
    then have "keys_of (filter (\<lambda>(u, p). u \<noteq> []) (st_participants st')) = filter (\<lambda>u. u \<noteq> []) (keys_of (st_participants st'))" .
    also have "\<dots> = keys_of ?ps @ filter (\<lambda>u. u \<noteq> []) [jn_userId i]"
      unfolding keys using assms(1) by (force simp: room_named_def filter_id_conv)
    finally show ?thesis unfolding repair_participants_field using assms(2) by (simp add: take_map [symmetric])
  qed
  ultimately show ?thesis using assms(2) by simp
qed


theorem join_over_limit_dropped_witness:
  "\<exists>st'. join_commit (sample_env\<lparr>je_limits := sample_limits\<lparr>lim_participants := 3\<rparr>\<rparr>)
       (join_input_of sample_env sample_request (None, False) (False, False) None) [] None (Some sample_room) = Some st'
     \<and> length (st_participants st') = 4"
proof -
  let ?env = "sample_env\<lparr>je_limits := sample_limits\<lparr>lim_participants := 3\<rparr>\<rparr>"
  let ?i = "join_input_of sample_env sample_request (None, False) (False, False) None"
  have good: "good_room (je_limits ?env) sample_room"
    by (simp add: room_named_def sample_room_def room_wf_def playlist_wf_defs keyed_def
      owner_unique_def sample_participant_def sample_item_def playback_wf_def sample_playback_def
      security_wf_def log_wf_def)
  have n: "length (st_participants sample_room) = lim_participants (je_limits ?env)" by (simp add: sample_room_def)
  have u: "jn_userId ?i = ''nu''" by (simp add: join_user_id_def sample_request_def sample_env_def)
  have new: "map_of (st_participants sample_room) (jn_userId ?i) = None" unfolding u by (simp add: sample_room_def)
  have "evaluate_join_admission (je_scrypt ?env) (Some sample_room) (jn_joinPassword ?i) = Allowed"
    by (simp add: evaluate_join_admission_def ensure_room_security_def normalize_room_security_def
        drop_broken_password_def sample_room_def Let_def)
  then obtain st' where st': "join_commit ?env ?i [] None (Some sample_room) = Some st'"
    by (simp add: join_commit_def join_base_def Let_def)
  from join_over_limit_dropped [OF good n new st'] n st' show ?thesis by simp
qed

end
