(* ===== verification/Rate_Limit.thy ===== *)
theory Rate_Limit
  imports Prelude
begin

text \<open>
  Rate limits (\<open>src/src/server/security/rate-limit.ts\<close>): the token bucket in the process and in
  Redis, the prepaid batches of the busiest events, and the fixed window.  The clock is an
  argument of every call.  Redis numbers are exact here (the script stores fourteen digits), the
  server clock that expires keys is the caller's, and whether Redis answers is part of the state.
  The locale \<open>token_budget\<close> states what a bucket promises; the bound on what a client gets
  through in any period is proved from it once.
\<close>

section \<open>Results and counters\<close>

text \<open>\<open>remaining\<close> is \<open>None\<close> where the code answers \<open>Number.POSITIVE_INFINITY\<close>.\<close>

record rate_limit_result =
  rl_allowed :: bool
  rl_remaining :: "int option"

record rate_limit_counters =
  rc_allowed :: nat
  rc_deniedExhausted :: nat
  rc_deniedRedisError :: nat

record token_bucket =
  tb_tokens :: jsnum
  tb_updatedAtMs :: jsnum

record coalesce_entry =
  ce_remainingLocal :: int
  ce_deniedUntilMs :: jsnum

text \<open>
  The limiter of one process with the Redis it talks to: Redis keys carry the time they expire,
  a window counter that never had its time to live set carries none.
\<close>

record limiter =
  lm_counters :: rate_limit_counters
  lm_buckets :: "(string \<times> token_bucket) list"
  lm_coalesce :: "(string \<times> coalesce_entry) list"
  lm_redisUp :: bool
  lm_redis :: "(string \<times> token_bucket \<times> jsnum) list"
  lm_windows :: "(string \<times> nat \<times> jsnum option) list"

definition record_rate_limit_metric :: "(rate_limit_counters \<Rightarrow> rate_limit_counters) \<Rightarrow> limiter \<Rightarrow> limiter" where
  "record_rate_limit_metric f lm = lm\<lparr>lm_counters := f (lm_counters lm)\<rparr>"

definition count_allowed :: "rate_limit_counters \<Rightarrow> rate_limit_counters" where
  "count_allowed c = c\<lparr>rc_allowed := rc_allowed c + 1\<rparr>"

definition count_exhausted :: "rate_limit_counters \<Rightarrow> rate_limit_counters" where
  "count_exhausted c = c\<lparr>rc_deniedExhausted := rc_deniedExhausted c + 1\<rparr>"

definition count_redis_error :: "rate_limit_counters \<Rightarrow> rate_limit_counters" where
  "count_redis_error c = c\<lparr>rc_deniedRedisError := rc_deniedRedisError c + 1\<rparr>"

definition track_rate_limit_result :: "limiter \<Rightarrow> rate_limit_result \<Rightarrow> limiter \<times> rate_limit_result" where
  "track_rate_limit_result lm r =
     (record_rate_limit_metric (if rl_allowed r then count_allowed else count_exhausted) lm, r)"

section \<open>The token bucket\<close>

definition token_bucket_stale_ms :: jsnum where "token_bucket_stale_ms = 5 * 60000"
definition token_bucket_prune_at :: nat where "token_bucket_prune_at = 10000"
definition redis_token_bucket_ttl_seconds :: jsnum where
  "redis_token_bucket_ttl_seconds = of_int \<lceil>token_bucket_stale_ms / 1000\<rceil>"

text \<open>Refill of a bucket that exists, up to the capacity; the stamp moves to the caller's clock.\<close>

definition refill_bucket :: "jsnum \<Rightarrow> jsnum \<Rightarrow> jsnum \<Rightarrow> token_bucket \<Rightarrow> token_bucket" where
  "refill_bucket capacity refillPerSecond nowMs b =
     (let elapsedSec = max 0 ((nowMs - tb_updatedAtMs b) / 1000)
      in \<lparr>tb_tokens = min capacity (tb_tokens b + elapsedSec * refillPerSecond), tb_updatedAtMs = nowMs\<rparr>)"

definition prune_stale_token_buckets :: "jsnum \<Rightarrow> (string \<times> token_bucket) list \<Rightarrow> (string \<times> token_bucket) list" where
  "prune_stale_token_buckets nowMs bs =
     filter (\<lambda>(k, b). \<not> nowMs - tb_updatedAtMs b \<ge> token_bucket_stale_ms) bs"

definition consume_token_bucket ::
  "string \<Rightarrow> jsnum \<Rightarrow> jsnum \<Rightarrow> jsnum \<Rightarrow> jsnum \<Rightarrow> limiter \<Rightarrow> limiter \<times> rate_limit_result" where
  "consume_token_bucket key capacity0 refill0 cost0 nowMs lm =
     (let capacity = max 1 capacity0; refillPerSecond = max 0 refill0; cost = max 0 cost0;
          bs = (if length (lm_buckets lm) \<ge> token_bucket_prune_at
                then prune_stale_token_buckets nowMs (lm_buckets lm) else lm_buckets lm);
          bucket = (case map_of bs key of
                      None \<Rightarrow> \<lparr>tb_tokens = capacity, tb_updatedAtMs = nowMs\<rparr>
                    | Some b \<Rightarrow> refill_bucket capacity refillPerSecond nowMs b)
      in if tb_tokens bucket < cost
         then (lm\<lparr>lm_buckets := AList.update key bucket bs\<rparr>,
               \<lparr>rl_allowed = False, rl_remaining = Some \<lfloor>tb_tokens bucket\<rfloor>\<rparr>)
         else let spent = bucket\<lparr>tb_tokens := tb_tokens bucket - cost\<rparr>
              in (lm\<lparr>lm_buckets := AList.update key spent bs\<rparr>,
                  \<lparr>rl_allowed = True, rl_remaining = Some \<lfloor>tb_tokens spent\<rfloor>\<rparr>))"

text \<open>
  The same bucket as one Redis script.  A key past its time to live is absent; the reply is the
  pair the script returns.
\<close>

definition redis_bucket :: "jsnum \<Rightarrow> string \<Rightarrow> limiter \<Rightarrow> token_bucket option" where
  "redis_bucket nowMs key lm =
     (case map_of (lm_redis lm) key of
        Some (b, expiry) \<Rightarrow> if expiry \<le> nowMs then None else Some b
      | None \<Rightarrow> None)"

definition token_bucket_script ::
  "string \<Rightarrow> jsnum \<Rightarrow> jsnum \<Rightarrow> jsnum \<Rightarrow> jsnum \<Rightarrow> limiter \<Rightarrow> limiter \<times> int \<times> int" where
  "token_bucket_script key capacity refillPerSecond nowMs cost lm =
     (let bucket = (case redis_bucket nowMs key lm of
                      None \<Rightarrow> \<lparr>tb_tokens = capacity, tb_updatedAtMs = nowMs\<rparr>
                    | Some b \<Rightarrow> refill_bucket capacity refillPerSecond nowMs b);
          allowed = (tb_tokens bucket \<ge> cost);
          spent = (if allowed then bucket\<lparr>tb_tokens := tb_tokens bucket - cost\<rparr> else bucket)
      in (lm\<lparr>lm_redis := AList.update key
               (spent, nowMs + redis_token_bucket_ttl_seconds * 1000) (lm_redis lm)\<rparr>,
          if allowed then 1 else 0, \<lfloor>tb_tokens spent\<rfloor>))"

definition parse_token_bucket_eval_result :: "int \<times> int \<Rightarrow> rate_limit_result" where
  "parse_token_bucket_eval_result raw =
     \<lparr>rl_allowed = (fst raw = 1), rl_remaining = Some (max 0 (snd raw))\<rparr>"

definition rate_limit_key :: "string \<Rightarrow> string" where
  "rate_limit_key logicalKey = ''rate:'' @ logicalKey"

definition redis_unavailable :: "bool \<Rightarrow> int \<Rightarrow> limiter \<Rightarrow> limiter \<times> rate_limit_result" where
  "redis_unavailable failOpen remaining lm =
     (if failOpen
      then (record_rate_limit_metric count_allowed lm, \<lparr>rl_allowed = True, rl_remaining = Some remaining\<rparr>)
      else (record_rate_limit_metric count_redis_error lm, \<lparr>rl_allowed = False, rl_remaining = Some 0\<rparr>))"

definition consume_redis_token_bucket ::
  "string \<Rightarrow> int \<Rightarrow> jsnum \<Rightarrow> jsnum \<Rightarrow> bool \<Rightarrow> jsnum \<Rightarrow> limiter \<Rightarrow> limiter \<times> rate_limit_result" where
  "consume_redis_token_bucket key capacity0 refill0 cost0 failOpen nowMs lm =
     (let capacity = max 1 capacity0; refillPerSecond = max 0 refill0; cost = max 0 cost0
      in if lm_redisUp lm
         then case token_bucket_script (rate_limit_key key) (of_int capacity) refillPerSecond nowMs cost lm of
                (lm1, raw) \<Rightarrow> track_rate_limit_result lm1 (parse_token_bucket_eval_result raw)
         else redis_unavailable failOpen capacity lm)"

section \<open>The fixed window\<close>

definition redis_count :: "jsnum \<Rightarrow> string \<Rightarrow> limiter \<Rightarrow> nat \<times> jsnum option" where
  "redis_count nowMs key lm =
     (case map_of (lm_windows lm) key of
        Some (n, Some expiry) \<Rightarrow> if expiry \<le> nowMs then (0, None) else (n, Some expiry)
      | Some (n, None) \<Rightarrow> (n, None)
      | None \<Rightarrow> (0, None))"

definition consume_rate_limit ::
  "string \<Rightarrow> nat \<Rightarrow> jsnum \<Rightarrow> bool \<Rightarrow> jsnum \<Rightarrow> limiter \<Rightarrow> limiter \<times> rate_limit_result" where
  "consume_rate_limit key limit windowMs failOpen nowMs lm =
     (let windowSeconds = max 1 \<lceil>windowMs / 1000\<rceil>; redisKey = rate_limit_key key
      in if lm_redisUp lm
         then let old = redis_count nowMs redisKey lm;
                  count = fst old + 1;
                  expiry = (if count = 1 then Some (nowMs + of_int windowSeconds * 1000) else snd old);
                  lm1 = lm\<lparr>lm_windows := AList.update redisKey (count, expiry) (lm_windows lm)\<rparr>
              in if count > limit
                 then track_rate_limit_result lm1 \<lparr>rl_allowed = False, rl_remaining = Some 0\<rparr>
                 else track_rate_limit_result lm1
                        \<lparr>rl_allowed = True, rl_remaining = Some (max 0 (int limit - int count))\<rparr>
         else redis_unavailable failOpen (int limit) lm)"

section \<open>Hot events\<close>

datatype hot_ws_event =
    HotSeekPreview | HotPlaybackSeek | HotParticipantUpdate | HotWebrtcSignal
  | HotSfuCreateTransport | HotSfuConnectTransport | HotSfuProduceData | HotSfuConsumeData

record hot_limit =
  hl_keyPrefix :: string
  hl_capacity :: int
  hl_refillPerSecond :: jsnum

definition hot_limit :: "string \<Rightarrow> int \<Rightarrow> jsnum \<Rightarrow> hot_limit" where
  "hot_limit p c r = \<lparr>hl_keyPrefix = p, hl_capacity = c, hl_refillPerSecond = r\<rparr>"

fun hot_ws_event_limits :: "hot_ws_event \<Rightarrow> hot_limit" where
  "hot_ws_event_limits HotSeekPreview = hot_limit ''ws:seek-preview'' 48 24"
| "hot_ws_event_limits HotPlaybackSeek = hot_limit ''ws:playback-seek'' 30 10"
| "hot_ws_event_limits HotParticipantUpdate = hot_limit ''ws:participant-update'' 30 15"
| "hot_ws_event_limits HotWebrtcSignal = hot_limit ''ws:local-media-webrtc-signal'' 60 20"
| "hot_ws_event_limits HotSfuCreateTransport = hot_limit ''ws:local-media-sfu-create-transport'' 12 3"
| "hot_ws_event_limits HotSfuConnectTransport = hot_limit ''ws:local-media-sfu-connect-transport'' 24 6"
| "hot_ws_event_limits HotSfuProduceData = hot_limit ''ws:local-media-sfu-produce-data'' 24 6"
| "hot_ws_event_limits HotSfuConsumeData = hot_limit ''ws:local-media-sfu-consume-data'' 36 12"

fun hot_ws_coalesce_batch :: "hot_ws_event \<Rightarrow> int" where
  "hot_ws_coalesce_batch HotSeekPreview = 4"
| "hot_ws_coalesce_batch HotWebrtcSignal = 4"
| "hot_ws_coalesce_batch _ = 1"

definition hot_ws_event_type :: "string \<Rightarrow> hot_ws_event option" where
  "hot_ws_event_type t = map_of
     [(''seek:preview'', HotSeekPreview), (''playback:seek'', HotPlaybackSeek),
      (''participant:update'', HotParticipantUpdate), (''local-media:webrtc:signal'', HotWebrtcSignal),
      (''local-media:sfu:create-transport'', HotSfuCreateTransport),
      (''local-media:sfu:connect-transport'', HotSfuConnectTransport),
      (''local-media:sfu:produce-data'', HotSfuProduceData),
      (''local-media:sfu:consume-data'', HotSfuConsumeData)] t"

definition hot_ws_event_rate_key :: "hot_ws_event \<Rightarrow> string \<Rightarrow> string \<Rightarrow> string" where
  "hot_ws_event_rate_key ty roomId userId =
     hl_keyPrefix (hot_ws_event_limits ty) @ '':'' @ roomId @ '':'' @ userId"

definition hot_ws_coalesce_deny_backoff_ms :: jsnum where "hot_ws_coalesce_deny_backoff_ms = 100"
definition hot_ws_coalesce_stale_ms :: jsnum where "hot_ws_coalesce_stale_ms = 5 * 60000"
definition hot_ws_coalesce_prune_at :: nat where "hot_ws_coalesce_prune_at = 10000"

definition prune_stale_hot_ws_coalesce ::
  "jsnum \<Rightarrow> (string \<times> coalesce_entry) list \<Rightarrow> (string \<times> coalesce_entry) list" where
  "prune_stale_hot_ws_coalesce nowMs es =
     filter (\<lambda>(k, e).
        let idle = (ce_remainingLocal e \<le> 0 \<and> ce_deniedUntilMs e > 0
              \<and> nowMs - ce_deniedUntilMs e \<ge> hot_ws_coalesce_stale_ms);
            spent = (ce_remainingLocal e \<le> 0 \<and> ce_deniedUntilMs e = 0)
        in \<not> (idle \<or> spent)) es"

definition set_coalesce :: "string \<Rightarrow> int \<Rightarrow> jsnum \<Rightarrow> limiter \<Rightarrow> limiter" where
  "set_coalesce key remaining deniedUntil lm =
     lm\<lparr>lm_coalesce := AList.update key
          \<lparr>ce_remainingLocal = remaining, ce_deniedUntilMs = deniedUntil\<rparr> (lm_coalesce lm)\<rparr>"

text \<open>A charge of the shared bucket for one hot event, at a given cost.\<close>

definition charge_hot :: "hot_ws_event \<Rightarrow> string \<Rightarrow> int \<Rightarrow> jsnum \<Rightarrow> limiter \<Rightarrow> limiter \<times> rate_limit_result" where
  "charge_hot ty key cost =
     consume_redis_token_bucket key (hl_capacity (hot_ws_event_limits ty))
       (hl_refillPerSecond (hot_ws_event_limits ty)) (of_int cost) False"

definition add_remaining :: "int \<Rightarrow> rate_limit_result \<Rightarrow> int option" where
  "add_remaining k r = map_option (\<lambda>n. n + k) (rl_remaining r)"

definition consume_hot_batch ::
  "hot_ws_event \<Rightarrow> string \<Rightarrow> int \<Rightarrow> jsnum \<Rightarrow> limiter \<Rightarrow> limiter \<times> rate_limit_result" where
  "consume_hot_batch ty key batch nowMs lm0 =
     (let lm = (if length (lm_coalesce lm0) \<ge> hot_ws_coalesce_prune_at
                then lm0\<lparr>lm_coalesce := prune_stale_hot_ws_coalesce nowMs (lm_coalesce lm0)\<rparr> else lm0);
          charge = (case charge_hot ty key batch nowMs lm of
             (lm1, r1) \<Rightarrow>
               if rl_allowed r1
               then (set_coalesce key (batch - 1) 0 lm1,
                     \<lparr>rl_allowed = True, rl_remaining = add_remaining (batch - 1) r1\<rparr>)
               else (case charge_hot ty key 1 nowMs lm1 of
                  (lm2, r2) \<Rightarrow>
                    if rl_allowed r2 then (set_coalesce key 0 0 lm2, r2)
                    else (set_coalesce key 0 (nowMs + hot_ws_coalesce_deny_backoff_ms) lm2, r2)))
      in case map_of (lm_coalesce lm) key of
           None \<Rightarrow> charge
         | Some e \<Rightarrow>
             if ce_deniedUntilMs e > nowMs then (lm, \<lparr>rl_allowed = False, rl_remaining = Some 0\<rparr>)
             else if ce_remainingLocal e > 0
             then (lm\<lparr>lm_coalesce := adjust key (\<lambda>e. e\<lparr>ce_remainingLocal := ce_remainingLocal e - 1\<rparr>)
                        (lm_coalesce lm)\<rparr>,
                   \<lparr>rl_allowed = True, rl_remaining = Some (ce_remainingLocal e - 1)\<rparr>)
             else charge)"

definition consume_hot_ws_event_limit ::
  "string \<Rightarrow> string \<Rightarrow> string \<Rightarrow> jsnum \<Rightarrow> limiter \<Rightarrow> limiter \<times> rate_limit_result" where
  "consume_hot_ws_event_limit t roomId userId nowMs lm =
     (case hot_ws_event_type t of
        None \<Rightarrow> (lm, \<lparr>rl_allowed = True, rl_remaining = None\<rparr>)
      | Some ty \<Rightarrow>
          let key = hot_ws_event_rate_key ty roomId userId; batch = hot_ws_coalesce_batch ty
          in if batch \<le> 1 then charge_hot ty key 1 nowMs lm
             else consume_hot_batch ty key batch nowMs lm)"

section \<open>Client addresses\<close>

text \<open>A header as the server hands it over: absent, one value, or several.\<close>

definition normalize_header_value :: "string list option \<Rightarrow> string option" where
  "normalize_header_value v =
     (case v of Some (raw # _) \<Rightarrow> (let t = trim raw in if t = [] then None else Some t) | _ \<Rightarrow> None)"

definition client_ip_from_forwarding_headers ::
  "string list option \<Rightarrow> string list option \<Rightarrow> string option" where
  "client_ip_from_forwarding_headers forwardedFor realIp =
     (case normalize_header_value forwardedFor of
        Some forwarded \<Rightarrow>
          (let first = trim (takeWhile (\<lambda>c. c \<noteq> CHR '','') forwarded)
           in if first \<noteq> [] then Some first else normalize_header_value realIp)
      | None \<Rightarrow> normalize_header_value realIp)"

definition client_ip_from_request :: "string list option \<Rightarrow> string list option \<Rightarrow> string" where
  "client_ip_from_request forwardedFor realIp =
     (case client_ip_from_forwarding_headers forwardedFor realIp of
        Some ip \<Rightarrow> if ip = [] then ''unknown'' else ip | None \<Rightarrow> ''unknown'')"

definition client_ip_from_upgrade_request ::
  "string list option \<Rightarrow> string list option \<Rightarrow> string option \<Rightarrow> string" where
  "client_ip_from_upgrade_request forwardedFor realIp remoteAddress =
     (case client_ip_from_forwarding_headers forwardedFor realIp of
        Some ip \<Rightarrow> ip
      | None \<Rightarrow> (let r = trim (case remoteAddress of Some a \<Rightarrow> a | None \<Rightarrow> [])
                 in if r = [] then ''unknown'' else r))"

section \<open>What a budget promises\<close>

text \<open>
  A budget answers requests, each taking an amount (0 when it is refused).  \<open>level t s\<close> is what
  could be taken at time \<open>t\<close>; \<open>good t s\<close> holds of a state last used at \<open>t\<close> or before.
\<close>

primrec run_budget :: "(jsnum \<Rightarrow> 's \<Rightarrow> 's \<times> jsnum) \<Rightarrow> jsnum list \<Rightarrow> 's \<Rightarrow> 's \<times> jsnum" where
  "run_budget use [] s = (s, 0)"
| "run_budget use (t # ts) s =
     (case use t s of (s1, a) \<Rightarrow> case run_budget use ts s1 of (s2, b) \<Rightarrow> (s2, a + b))"

locale token_budget =
  fixes use :: "jsnum \<Rightarrow> 's \<Rightarrow> 's \<times> jsnum" and level :: "jsnum \<Rightarrow> 's \<Rightarrow> jsnum"
    and good :: "jsnum \<Rightarrow> 's \<Rightarrow> bool" and rate :: jsnum
  assumes good_take: "good t s \<Longrightarrow> t \<le> t' \<Longrightarrow> good t' (fst (use t' s))"
    and refills: "good t s \<Longrightarrow> t \<le> t' \<Longrightarrow> level t' s \<le> level t s + (t' - t) / 1000 * rate"
    and spends: "good t s \<Longrightarrow> t \<le> t' \<Longrightarrow> level t' (fst (use t' s)) + snd (use t' s) \<le> level t' s"
    and nonneg: "good t s \<Longrightarrow> 0 \<le> level t s"
begin

lemma run_conserves:
  assumes "good t s" "sorted (t # ts)"
  shows "good (last (t # ts)) (fst (run_budget use ts s))
    \<and> level (last (t # ts)) (fst (run_budget use ts s)) + snd (run_budget use ts s)
      \<le> level t s + (last (t # ts) - t) / 1000 * rate"
  using assms
proof (induction ts arbitrary: t s)
  case Nil
  then show ?case by simp
next
  case (Cons t' ts)
  obtain s1 a where tk: "use t' s = (s1, a)" by force
  obtain s2 b where rn: "run_budget use ts s1 = (s2, b)" by force
  from Cons.prems have le: "t \<le> t'" and st: "sorted (t' # ts)" by simp_all
  have g: "good t' s1" using good_take [OF Cons.prems(1) le] tk by simp
  have IH: "good (last (t' # ts)) s2" "level (last (t' # ts)) s2 + b \<le> level t' s1 + (last (t' # ts) - t') / 1000 * rate"
    using Cons.IH [OF g st] rn by simp_all
  have 1: "level t' s1 + a \<le> level t' s" using spends [OF Cons.prems(1) le] tk by simp
  have 2: "level t' s \<le> level t s + (t' - t) / 1000 * rate" using refills [OF Cons.prems(1) le] .
  have eq: "(last (t' # ts) - t') / 1000 * rate + (t' - t) / 1000 * rate = (last (t' # ts) - t) / 1000 * rate"
    by (simp add: field_simps)
  have sum: "level (last (t' # ts)) s2 + (a + b) \<le> level t s + (last (t' # ts) - t) / 1000 * rate"
    using IH(2) 1 2 eq by linarith
  then show ?case using IH(1) tk rn by simp
qed

lemma run_bounded:
  assumes "good t s" "sorted (t # ts)"
  shows "snd (run_budget use ts s) \<le> level t s + (last (t # ts) - t) / 1000 * rate"
proof -
  have "good (last (t # ts)) (fst (run_budget use ts s))"
    "level (last (t # ts)) (fst (run_budget use ts s)) + snd (run_budget use ts s)
      \<le> level t s + (last (t # ts) - t) / 1000 * rate"
    using run_conserves [OF assms] by simp_all
  moreover from nonneg [OF this(1)] have "0 \<le> level (last (t # ts)) (fst (run_budget use ts s))" .
  ultimately show ?thesis by linarith
qed

end

section \<open>The shared bucket\<close>

text \<open>
  For a hot event: the level of its bucket, and that the stored bucket is within its capacity,
  was stamped by now and expires one time to live after its stamp.  Every hot limit fills up
  within the time to live, so expiry hands out nothing that waiting would not.
\<close>

definition bucket_level :: "int \<Rightarrow> jsnum \<Rightarrow> string \<Rightarrow> jsnum \<Rightarrow> limiter \<Rightarrow> jsnum" where
  "bucket_level cap rate key t lm =
     (case redis_bucket t key lm of None \<Rightarrow> of_int cap
      | Some b \<Rightarrow> tb_tokens (refill_bucket (of_int cap) rate t b))"

definition bucket_ok :: "int \<Rightarrow> string \<Rightarrow> jsnum \<Rightarrow> limiter \<Rightarrow> bool" where
  "bucket_ok cap key t lm =
     (case map_of (lm_redis lm) key of None \<Rightarrow> True
      | Some (b, expiry) \<Rightarrow> 0 \<le> tb_tokens b \<and> tb_tokens b \<le> of_int cap \<and> tb_updatedAtMs b \<le> t
          \<and> expiry = tb_updatedAtMs b + redis_token_bucket_ttl_seconds * 1000)"

lemma ttl_ms [simp]: "redis_token_bucket_ttl_seconds * 1000 = 300000"
  by (simp add: redis_token_bucket_ttl_seconds_def token_bucket_stale_ms_def)

lemma hot_capacity:
  "1 \<le> hl_capacity (hot_ws_event_limits ty)" "0 \<le> hl_refillPerSecond (hot_ws_event_limits ty)"
  "of_int (hl_capacity (hot_ws_event_limits ty)) \<le> 300 * hl_refillPerSecond (hot_ws_event_limits ty)"
  by (cases ty; simp add: hot_limit_def)+

lemma level_range:
  assumes "bucket_ok cap key t lm" "0 \<le> cap" "0 \<le> rate"
  shows "0 \<le> bucket_level cap rate key t' lm" "bucket_level cap rate key t' lm \<le> of_int cap"
  using assms
  by (auto simp: bucket_level_def bucket_ok_def redis_bucket_def refill_bucket_def Let_def split: option.splits)

lemma level_refills:
  assumes ok: "bucket_ok cap key t lm" and c: "0 \<le> rate" "of_int cap \<le> 300 * rate" and le: "t \<le> t'"
  shows "bucket_level cap rate key t' lm \<le> bucket_level cap rate key t lm + (t' - t) / 1000 * rate"
proof (cases "map_of (lm_redis lm) key")
  case None
  then show ?thesis using c le by (simp add: bucket_level_def redis_bucket_def)
next
  case (Some be)
  obtain b e where be: "be = (b, e)" by force
  from ok Some be have b: "0 \<le> tb_tokens b" "tb_tokens b \<le> of_int cap" "tb_updatedAtMs b \<le> t"
    and e: "e = tb_updatedAtMs b + 300000" by (simp_all add: bucket_ok_def)
  let ?u = "tb_updatedAtMs b"
  have step: "(t' - ?u) / 1000 * rate = (t - ?u) / 1000 * rate + (t' - t) / 1000 * rate" by (simp add: field_simps)
  have wait: "0 \<le> (t' - t) / 1000 * rate" using c(1) le by simp
  have gone: "of_int cap \<le> tb_tokens b + (t' - ?u) / 1000 * rate" if "e \<le> t'"
  proof -
    have "300 \<le> (t' - ?u) / 1000" using that e by simp
    from mult_right_mono [OF this c(1)] show ?thesis using c(2) b(1) by linarith
  qed
  have lv: "bucket_level cap rate key s lm = (if e \<le> s then of_int cap
      else min (of_int cap) (tb_tokens b + (s - ?u) / 1000 * rate))" if "t \<le> s" for s
    using that b(3) Some be by (simp add: bucket_level_def redis_bucket_def refill_bucket_def)
  show ?thesis
    using gone wait step le unfolding lv [OF order_refl] lv [OF le]
    by (cases "e \<le> t'"; cases "e \<le> t"; simp only: if_True if_False; linarith)
qed

lemma charge_hot_down: "\<not> lm_redisUp lm \<Longrightarrow> rl_allowed (snd (charge_hot ty key c t lm)) = False
    \<and> lm_redis (fst (charge_hot ty key c t lm)) = lm_redis lm \<and> lm_coalesce (fst (charge_hot ty key c t lm)) = lm_coalesce lm"
  by (simp add: charge_hot_def consume_redis_token_bucket_def redis_unavailable_def record_rate_limit_metric_def)

text \<open>The bucket the script works on, and what it leaves.\<close>

definition script_bucket :: "int \<Rightarrow> jsnum \<Rightarrow> string \<Rightarrow> jsnum \<Rightarrow> limiter \<Rightarrow> token_bucket" where
  "script_bucket cap rate key t lm =
     (case redis_bucket t key lm of None \<Rightarrow> \<lparr>tb_tokens = of_int cap, tb_updatedAtMs = t\<rparr>
      | Some b \<Rightarrow> refill_bucket (of_int cap) rate t b)"

lemma script_bucket_sel:
  "tb_tokens (script_bucket cap rate key t lm) = bucket_level cap rate key t lm"
  "tb_updatedAtMs (script_bucket cap rate key t lm) = t"
  by (simp_all add: script_bucket_def bucket_level_def refill_bucket_def Let_def split: option.split)

lemma script_eq:
  "token_bucket_script key (of_int cap) rate t c lm =
     (let b = script_bucket cap rate key t lm; ok = (bucket_level cap rate key t lm \<ge> c);
          b' = (if ok then b\<lparr>tb_tokens := tb_tokens b - c\<rparr> else b)
      in (lm\<lparr>lm_redis := AList.update key (b', t + 300000) (lm_redis lm)\<rparr>,
          if ok then 1 else 0, \<lfloor>tb_tokens b'\<rfloor>))"
  unfolding token_bucket_script_def script_bucket_def [symmetric] ttl_ms Let_def script_bucket_sel ..

lemma level_stored:
  assumes "tb_tokens b \<le> of_int cap" "tb_updatedAtMs b = t"
  shows "bucket_level cap rate key t (lm\<lparr>lm_redis := AList.update key (b, t + 300000) (lm_redis lm)\<rparr>) = tb_tokens b"
  using assms by (simp add: bucket_level_def redis_bucket_def refill_bucket_def)

lemma script_laws:
  assumes "bucket_ok cap key t lm" "t \<le> t'" "1 \<le> cap" "0 \<le> rate" "0 \<le> c"
    and "token_bucket_script key (of_int cap) rate t' c lm = (lm', a, r)"
  shows "bucket_ok cap key t' lm'"
    and "bucket_level cap rate key t' lm' = bucket_level cap rate key t' lm - (if a = 1 then c else 0)"
    and "lm_coalesce lm' = lm_coalesce lm"
proof -
  let ?b = "script_bucket cap rate key t' lm" and ?L = "bucket_level cap rate key t' lm"
  let ?b' = "if ?L \<ge> c then ?b\<lparr>tb_tokens := tb_tokens ?b - c\<rparr> else ?b"
  have lm': "lm' = lm\<lparr>lm_redis := AList.update key (?b', t' + 300000) (lm_redis lm)\<rparr>"
    and a: "a = (if ?L \<ge> c then 1 else 0)"
    using assms(6) unfolding script_eq Let_def by simp_all
  have range: "0 \<le> ?L" "?L \<le> of_int cap" using level_range [OF assms(1)] assms(3,4) by simp_all
  have b': "tb_updatedAtMs ?b' = t'" "tb_tokens ?b' = ?L - (if a = 1 then c else 0)"
    unfolding a by (simp_all add: script_bucket_sel)
  have cap: "0 \<le> tb_tokens ?b'" "tb_tokens ?b' \<le> of_int cap"
    using range assms(5) a unfolding b'(2) by (auto split: if_splits)
  show "bucket_ok cap key t' lm'" using cap b'(1) unfolding lm' bucket_ok_def by (simp only: ttl_ms) simp
  show "bucket_level cap rate key t' lm' = ?L - (if a = 1 then c else 0)"
    unfolding lm' level_stored [OF cap(2) b'(1)] by (rule b'(2))
  show "lm_coalesce lm' = lm_coalesce lm" unfolding lm' by simp
qed

lemma charge_laws:
  fixes ty key c t' lm
  defines "cap \<equiv> hl_capacity (hot_ws_event_limits ty)" and "rate \<equiv> hl_refillPerSecond (hot_ws_event_limits ty)"
  assumes ok: "bucket_ok cap (rate_limit_key key) t lm" and le: "t \<le> t'" and c: "0 \<le> c"
    and ch: "charge_hot ty key c t' lm = (lm', r)"
  shows "bucket_ok cap (rate_limit_key key) t' lm'"
    and "bucket_level cap rate (rate_limit_key key) t' lm'
      = bucket_level cap rate (rate_limit_key key) t' lm - (if rl_allowed r then of_int c else 0)"
    and "lm_coalesce lm' = lm_coalesce lm"
proof -
  note hc = hot_capacity [of ty, folded cap_def rate_def]
  obtain lm1 a m where sc: "token_bucket_script (rate_limit_key key) (of_int cap) rate t' (of_int c) lm = (lm1, a, m)"
    by (metis prod_cases3)
  have mx: "max 1 cap = cap" "max 0 rate = rate" "max 0 (real_of_int c) = of_int c" using hc c by simp_all
  have law: "bucket_ok cap (rate_limit_key key) t' lm1"
    "bucket_level cap rate (rate_limit_key key) t' lm1
      = bucket_level cap rate (rate_limit_key key) t' lm - (if a = 1 then of_int c else 0)"
    "lm_coalesce lm1 = lm_coalesce lm"
    using script_laws [OF ok le hc(1,2) _ sc] c by simp_all
  have ok': "bucket_ok cap (rate_limit_key key) t' lm"
    using ok le by (auto simp: bucket_ok_def split: option.splits)
  show "bucket_ok cap (rate_limit_key key) t' lm'"
    "bucket_level cap rate (rate_limit_key key) t' lm'
      = bucket_level cap rate (rate_limit_key key) t' lm - (if rl_allowed r then of_int c else 0)"
    "lm_coalesce lm' = lm_coalesce lm"
    using ch law sc mx ok'
    by (auto simp: charge_hot_def consume_redis_token_bucket_def cap_def [symmetric] rate_def [symmetric] Let_def
        track_rate_limit_result_def parse_token_bucket_eval_result_def record_rate_limit_metric_def
        redis_unavailable_def bucket_ok_def bucket_level_def redis_bucket_def split: if_splits)
qed

interpretation bucket: token_budget
  "\<lambda>t lm. map_prod id (\<lambda>r. if rl_allowed r then of_int (int c) else 0) (charge_hot ty key (int c) t lm)"
  "bucket_level (hl_capacity (hot_ws_event_limits ty)) (hl_refillPerSecond (hot_ws_event_limits ty)) (rate_limit_key key)"
  "bucket_ok (hl_capacity (hot_ws_event_limits ty)) (rate_limit_key key)"
  "hl_refillPerSecond (hot_ws_event_limits ty)" for ty key c
proof (unfold_locales, goal_cases)
  case (1 t s t')
  then show ?case using charge_laws(1) [of ty key t s t' "int c"] by (cases "charge_hot ty key (int c) t' s") simp
next
  case (2 t s t')
  then show ?case using level_refills hot_capacity by blast
next
  case (3 t s t')
  then show ?case using charge_laws(2) [of ty key t s t' "int c"] by (cases "charge_hot ty key (int c) t' s") simp
next
  case (4 t s)
  then show ?case using level_range(1) hot_capacity [of ty] by simp
qed

section \<open>The limit on hot events\<close>

fun hot_ws_event_name :: "hot_ws_event \<Rightarrow> string" where
  "hot_ws_event_name HotSeekPreview = ''seek:preview''"
| "hot_ws_event_name HotPlaybackSeek = ''playback:seek''"
| "hot_ws_event_name HotParticipantUpdate = ''participant:update''"
| "hot_ws_event_name HotWebrtcSignal = ''local-media:webrtc:signal''"
| "hot_ws_event_name HotSfuCreateTransport = ''local-media:sfu:create-transport''"
| "hot_ws_event_name HotSfuConnectTransport = ''local-media:sfu:connect-transport''"
| "hot_ws_event_name HotSfuProduceData = ''local-media:sfu:produce-data''"
| "hot_ws_event_name HotSfuConsumeData = ''local-media:sfu:consume-data''"

lemma hot_type_name [simp]: "hot_ws_event_type (hot_ws_event_name ty) = Some ty"
  by (cases ty) (simp_all add: hot_ws_event_type_def)

definition prepaid :: "string \<Rightarrow> limiter \<Rightarrow> int" where
  "prepaid key lm = (case map_of (lm_coalesce lm) key of Some e \<Rightarrow> ce_remainingLocal e | None \<Rightarrow> 0)"

text \<open>One request: what it takes of the budget is one event, when it is let through.\<close>

definition hot_request :: "hot_ws_event \<Rightarrow> string \<Rightarrow> string \<Rightarrow> jsnum \<Rightarrow> limiter \<Rightarrow> limiter \<times> jsnum" where
  "hot_request ty roomId userId t lm =
     (case consume_hot_ws_event_limit (hot_ws_event_name ty) roomId userId t lm of
        (lm', r) \<Rightarrow> (lm', if rl_allowed r then 1 else 0))"

definition hot_level :: "hot_ws_event \<Rightarrow> string \<Rightarrow> jsnum \<Rightarrow> limiter \<Rightarrow> jsnum" where
  "hot_level ty key t lm =
     bucket_level (hl_capacity (hot_ws_event_limits ty)) (hl_refillPerSecond (hot_ws_event_limits ty))
       (rate_limit_key key) t lm + of_int (prepaid key lm)"

definition hot_ok :: "hot_ws_event \<Rightarrow> string \<Rightarrow> jsnum \<Rightarrow> limiter \<Rightarrow> bool" where
  "hot_ok ty key t lm =
     (bucket_ok (hl_capacity (hot_ws_event_limits ty)) (rate_limit_key key) t lm \<and> 0 \<le> prepaid key lm
      \<and> distinct (keys_of (lm_coalesce lm)))"

lemma map_of_filter_distinct:
  "distinct (keys_of al) \<Longrightarrow> map_of (filter P al) k =
     (case map_of al k of Some v \<Rightarrow> if P (k, v) then Some v else None | None \<Rightarrow> None)"
proof (induction al)
  case (Cons x al)
  then show ?case
    by (cases x) (force split: option.splits dest: map_of_Some_in_keys map_of_SomeD)
qed simp

text \<open>Pruning drops no prepaid events.\<close>

lemma prune_coalesce_prepaid:
  assumes "distinct (keys_of (lm_coalesce lm))" "0 \<le> prepaid key lm"
  shows "prepaid key (lm\<lparr>lm_coalesce := prune_stale_hot_ws_coalesce t (lm_coalesce lm)\<rparr>) = prepaid key lm"
    and "distinct (keys_of (prune_stale_hot_ws_coalesce t (lm_coalesce lm)))"
  using assms
  by (auto simp: prepaid_def prune_stale_hot_ws_coalesce_def map_of_filter_distinct Let_def distinct_map_filter
      simp del: map_of_eq_Some_iff split: option.splits)

lemma prune_keeps_prepaid_entries:
  "(k, e) \<in> set es \<Longrightarrow> ce_remainingLocal e > 0 \<Longrightarrow> (k, e) \<in> set (prune_stale_hot_ws_coalesce t es)"
  by (simp add: prune_stale_hot_ws_coalesce_def Let_def)

lemma bucket_frame:
  "bucket_ok cap key t (lm\<lparr>lm_coalesce := x\<rparr>) = bucket_ok cap key t lm"
  "bucket_level cap rate key t (lm\<lparr>lm_coalesce := x\<rparr>) = bucket_level cap rate key t lm"
  "bucket_ok cap key t (set_coalesce k r d lm) = bucket_ok cap key t lm"
  "bucket_level cap rate key t (set_coalesce k r d lm) = bucket_level cap rate key t lm"
  by (simp_all add: bucket_ok_def bucket_level_def redis_bucket_def set_coalesce_def)

lemma prepaid_set [simp]: "prepaid key (set_coalesce key r d lm) = r"
  by (simp add: prepaid_def set_coalesce_def)

lemma bucket_ok_mono: "bucket_ok cap key t lm \<Longrightarrow> t \<le> t' \<Longrightarrow> bucket_ok cap key t' lm"
  by (auto simp: bucket_ok_def split: option.splits)

lemma charge_redis:
  assumes ok: "hot_ok ty key t lm" and le: "t \<le> t'" "0 \<le> c" and ch: "charge_hot ty key c t' lm = (lm', r)"
  shows "hot_ok ty key t' lm'" "prepaid key lm' = prepaid key lm" "lm_coalesce lm' = lm_coalesce lm"
    and "hot_level ty key t' lm' = hot_level ty key t' lm - (if rl_allowed r then of_int c else 0)"
proof -
  from ok have b: "bucket_ok (hl_capacity (hot_ws_event_limits ty)) (rate_limit_key key) t lm" by (simp add: hot_ok_def)
  note law = charge_laws [OF b le ch]
  show co: "lm_coalesce lm' = lm_coalesce lm" by (rule law(3))
  show pp: "prepaid key lm' = prepaid key lm" by (simp add: prepaid_def co)
  show "hot_ok ty key t' lm'" using ok law(1) pp co by (simp add: hot_ok_def)
  show "hot_level ty key t' lm' = hot_level ty key t' lm - (if rl_allowed r then of_int c else 0)"
    using law(2) pp by (simp add: hot_level_def)
qed

lemma hot_set_coalesce:
  assumes "hot_ok ty key t lm" "0 \<le> k"
  shows "hot_ok ty key t (set_coalesce key k d lm)"
    and "hot_level ty key t (set_coalesce key k d lm) = hot_level ty key t lm - of_int (prepaid key lm) + of_int k"
  using assms by (simp_all add: hot_ok_def hot_level_def bucket_frame) (simp add: set_coalesce_def)

text \<open>What one request of a coalesced event does to the budget.\<close>

lemma batch_spends:
  assumes ok: "hot_ok ty key t lm" and le: "t \<le> t'" and batch: "1 \<le> batch"
    and eq: "consume_hot_batch ty key batch t' lm = (lm', r)"
  shows "hot_ok ty key t' lm'"
    and "hot_level ty key t' lm' + (if rl_allowed r then 1 else 0) \<le> hot_level ty key t' lm"
proof -
  define q where "q = (if length (lm_coalesce lm) \<ge> hot_ws_coalesce_prune_at
    then lm\<lparr>lm_coalesce := prune_stale_hot_ws_coalesce t' (lm_coalesce lm)\<rparr> else lm)"
  from ok have d: "distinct (keys_of (lm_coalesce lm))" and p0: "0 \<le> prepaid key lm" by (simp_all add: hot_ok_def)
  have ok1: "hot_ok ty key t' q" and lv: "hot_level ty key t' q = hot_level ty key t' lm"
    using ok le prune_coalesce_prepaid [OF d p0] by (auto simp: q_def hot_ok_def hot_level_def bucket_frame bucket_ok_mono)
  obtain lm1 r1 where c1: "charge_hot ty key batch t' q = (lm1, r1)" by force
  obtain lm2 r2 where c2: "charge_hot ty key 1 t' lm1 = (lm2, r2)" by force
  have b0: "0 \<le> batch" using batch by simp
  note l1 = charge_redis [OF ok1 order_refl b0 c1]
  note l2 = charge_redis [OF l1(1) order_refl zero_le_one c2]
  define charge where "charge = (if rl_allowed r1
      then (set_coalesce key (batch - 1) 0 lm1, \<lparr>rl_allowed = True, rl_remaining = add_remaining (batch - 1) r1\<rparr>)
      else if rl_allowed r2 then (set_coalesce key 0 0 lm2, r2)
      else (set_coalesce key 0 (t' + hot_ws_coalesce_deny_backoff_ms) lm2, r2))"
  have pq: "0 \<le> prepaid key q" using ok1 by (simp add: hot_ok_def)
  have charged: "hot_ok ty key t' (fst charge)
      \<and> hot_level ty key t' (fst charge) + (if rl_allowed (snd charge) then 1 else 0) \<le> hot_level ty key t' q"
    using hot_set_coalesce [OF l1(1), of "batch - 1" 0] hot_set_coalesce [OF l2(1), of 0] l1(2,4) l2(2,4) pq batch
    by (cases "rl_allowed r1"; cases "rl_allowed r2") (simp_all add: charge_def)
  have res: "(lm', r) = (case map_of (lm_coalesce q) key of None \<Rightarrow> charge
     | Some e \<Rightarrow> if ce_deniedUntilMs e > t' then (q, \<lparr>rl_allowed = False, rl_remaining = Some 0\<rparr>)
         else if ce_remainingLocal e > 0
         then (q\<lparr>lm_coalesce := adjust key (\<lambda>e. e\<lparr>ce_remainingLocal := ce_remainingLocal e - 1\<rparr>) (lm_coalesce q)\<rparr>,
               \<lparr>rl_allowed = True, rl_remaining = Some (ce_remainingLocal e - 1)\<rparr>)
         else charge)"
    using eq unfolding consume_hot_batch_def Let_def q_def [symmetric] c1 prod.case c2 charge_def by (rule sym)
  have "hot_ok ty key t' lm' \<and> hot_level ty key t' lm' + (if rl_allowed r then 1 else 0) \<le> hot_level ty key t' q"
  proof (cases "map_of (lm_coalesce q) key")
    case None
    with res have "charge = (lm', r)" by simp
    with charged show ?thesis by simp
  next
    case (Some e)
    consider (denied) "ce_deniedUntilMs e > t'" | (paid) "\<not> ce_deniedUntilMs e > t'" "ce_remainingLocal e > 0"
      | (empty) "\<not> ce_deniedUntilMs e > t'" "\<not> ce_remainingLocal e > 0" by blast
    then show ?thesis
    proof cases
      case denied
      with res Some ok1 show ?thesis by simp
    next
      case paid
      let ?q' = "q\<lparr>lm_coalesce := adjust key (\<lambda>e. e\<lparr>ce_remainingLocal := ce_remainingLocal e - 1\<rparr>) (lm_coalesce q)\<rparr>"
      have eqs: "lm' = ?q'" "rl_allowed r" using res Some paid by simp_all
      have "prepaid key ?q' = prepaid key q - 1" "prepaid key q = ce_remainingLocal e"
        using Some by (simp_all add: prepaid_def)
      then show ?thesis
        using ok1 paid(2) unfolding eqs(1) hot_ok_def hot_level_def bucket_frame by (simp add: eqs(2))
    next
      case empty
      with res Some have "charge = (lm', r)" by simp
      with charged show ?thesis by simp
    qed
  qed
  then show "hot_ok ty key t' lm'"
    and "hot_level ty key t' lm' + (if rl_allowed r then 1 else 0) \<le> hot_level ty key t' lm"
    using lv by simp_all
qed

lemma hot_request_laws:
  assumes "hot_ok ty (hot_ws_event_rate_key ty roomId userId) t lm" "t \<le> t'"
  shows "hot_ok ty (hot_ws_event_rate_key ty roomId userId) t' (fst (hot_request ty roomId userId t' lm))"
    and "hot_level ty (hot_ws_event_rate_key ty roomId userId) t' (fst (hot_request ty roomId userId t' lm))
      + snd (hot_request ty roomId userId t' lm) \<le> hot_level ty (hot_ws_event_rate_key ty roomId userId) t' lm"
proof -
  let ?key = "hot_ws_event_rate_key ty roomId userId"
  obtain lm' r where eq: "consume_hot_ws_event_limit (hot_ws_event_name ty) roomId userId t' lm = (lm', r)" by force
  have "hot_ok ty ?key t' lm' \<and> hot_level ty ?key t' lm' + (if rl_allowed r then 1 else 0) \<le> hot_level ty ?key t' lm"
  proof (cases "hot_ws_coalesce_batch ty \<le> 1")
    case True
    then have "charge_hot ty ?key 1 t' lm = (lm', r)" using eq by (simp add: consume_hot_ws_event_limit_def Let_def)
    from charge_redis [OF assms zero_le_one this] show ?thesis by simp
  next
    case False
    then have "consume_hot_batch ty ?key (hot_ws_coalesce_batch ty) t' lm = (lm', r)" "1 \<le> hot_ws_coalesce_batch ty"
      using eq by (simp_all add: consume_hot_ws_event_limit_def Let_def)
    with batch_spends [OF assms] show ?thesis by blast
  qed
  then show "hot_ok ty ?key t' (fst (hot_request ty roomId userId t' lm))"
    and "hot_level ty ?key t' (fst (hot_request ty roomId userId t' lm))
      + snd (hot_request ty roomId userId t' lm) \<le> hot_level ty ?key t' lm"
    by (simp_all add: hot_request_def eq)
qed

interpretation hot: token_budget "hot_request ty roomId userId" "hot_level ty (hot_ws_event_rate_key ty roomId userId)"
  "hot_ok ty (hot_ws_event_rate_key ty roomId userId)" "hl_refillPerSecond (hot_ws_event_limits ty)" for ty roomId userId
proof (unfold_locales, goal_cases)
  case (1 t s t')
  then show ?case by (rule hot_request_laws(1))
next
  case (2 t s t')
  have "bucket_ok (hl_capacity (hot_ws_event_limits ty)) (rate_limit_key (hot_ws_event_rate_key ty roomId userId)) t s"
    using 2(1) by (simp add: hot_ok_def)
  from level_refills [OF this hot_capacity(2,3) 2(2)] show ?case by (simp add: hot_level_def)
next
  case (3 t s t')
  then show ?case by (rule hot_request_laws(2))
next
  case (4 t s)
  then have b: "bucket_ok (hl_capacity (hot_ws_event_limits ty)) (rate_limit_key (hot_ws_event_rate_key ty roomId userId)) t s"
    and p: "0 \<le> prepaid (hot_ws_event_rate_key ty roomId userId) s" by (simp_all add: hot_ok_def)
  from level_range(1) [OF b, of _ t] hot_capacity [of ty] p show ?case by (simp add: hot_level_def)
qed

section \<open>Properties\<close>

text \<open>C34.
  The events of one hot type that one user of one room gets through, over any run of requests in
  the order of their times, are at most the capacity of the bucket, what was prepaid, and the
  refill of the period: coalescing events into prepaid batches gains nothing.
\<close>

theorem hot_limit_bounds_traffic:
  assumes "hot_ok ty (hot_ws_event_rate_key ty roomId userId) t lm" "sorted (t # ts)"
  shows "snd (run_budget (hot_request ty roomId userId) ts lm)
    \<le> of_int (hl_capacity (hot_ws_event_limits ty))
      + of_int (prepaid (hot_ws_event_rate_key ty roomId userId) lm)
      + (last (t # ts) - t) / 1000 * hl_refillPerSecond (hot_ws_event_limits ty)"
proof -
  have "bucket_ok (hl_capacity (hot_ws_event_limits ty)) (rate_limit_key (hot_ws_event_rate_key ty roomId userId)) t lm"
    using assms(1) by (simp add: hot_ok_def)
  from level_range(2) [OF this, of "hl_refillPerSecond (hot_ws_event_limits ty)" t] hot_capacity [of ty]
  have "hot_level ty (hot_ws_event_rate_key ty roomId userId) t lm \<le> of_int (hl_capacity (hot_ws_event_limits ty))
      + of_int (prepaid (hot_ws_event_rate_key ty roomId userId) lm)"
    by (simp add: hot_level_def)
  with hot.run_bounded [OF assms] show ?thesis by linarith
qed

definition fresh_limiter :: limiter where
  "fresh_limiter = \<lparr>lm_counters = \<lparr>rc_allowed = 0, rc_deniedExhausted = 0, rc_deniedRedisError = 0\<rparr>,
     lm_buckets = [], lm_coalesce = [], lm_redisUp = True, lm_redis = [], lm_windows = []\<rparr>"

lemma fresh_limiter_ok: "hot_ok ty key t fresh_limiter" "prepaid key fresh_limiter = 0"
  by (simp_all add: hot_ok_def bucket_ok_def prepaid_def fresh_limiter_def)

theorem hot_limit_bounds_traffic_witness:
  "snd (run_budget (hot_request HotSeekPreview ''r'' ''u'') [0, 500, 1000] fresh_limiter) \<le> 72"
  using hot_limit_bounds_traffic [OF fresh_limiter_ok(1), of 0 "[0, 500, 1000]" HotSeekPreview "''r''" "''u''"]
  by (simp add: fresh_limiter_ok(2) hot_limit_def)

text \<open>One allowed request against a bucket that holds enough, whatever the caller's clock says.\<close>

lemma uncoalesced_request:
  assumes "hot_ws_coalesce_batch ty \<le> 1" "lm_redisUp lm"
    and "1 \<le> bucket_level (hl_capacity (hot_ws_event_limits ty)) (hl_refillPerSecond (hot_ws_event_limits ty))
           (rate_limit_key (hot_ws_event_rate_key ty roomId userId)) t lm"
  defines "key \<equiv> rate_limit_key (hot_ws_event_rate_key ty roomId userId)"
  shows "\<exists>lm'. hot_request ty roomId userId t lm = (lm', 1) \<and> lm_redisUp lm'
    \<and> map_of (lm_redis lm') key = Some (\<lparr>tb_tokens = bucket_level (hl_capacity (hot_ws_event_limits ty))
         (hl_refillPerSecond (hot_ws_event_limits ty)) key t lm - 1, tb_updatedAtMs = t\<rparr>, t + 300000)"
proof -
  note hc = hot_capacity [of ty]
  have mx: "max 1 (hl_capacity (hot_ws_event_limits ty)) = hl_capacity (hot_ws_event_limits ty)"
    "max 0 (hl_refillPerSecond (hot_ws_event_limits ty)) = hl_refillPerSecond (hot_ws_event_limits ty)"
    using hc by simp_all
  have "(script_bucket (hl_capacity (hot_ws_event_limits ty)) (hl_refillPerSecond (hot_ws_event_limits ty)) key t lm)
      \<lparr>tb_tokens := bucket_level (hl_capacity (hot_ws_event_limits ty)) (hl_refillPerSecond (hot_ws_event_limits ty)) key t lm - 1\<rparr>
    = \<lparr>tb_tokens = bucket_level (hl_capacity (hot_ws_event_limits ty)) (hl_refillPerSecond (hot_ws_event_limits ty)) key t lm - 1,
       tb_updatedAtMs = t\<rparr>"
    by (rule token_bucket.equality) (simp_all add: script_bucket_sel)
  then show ?thesis
    using assms
    by (simp add: hot_request_def consume_hot_ws_event_limit_def charge_hot_def consume_redis_token_bucket_def
        mx script_eq script_bucket_sel Let_def track_rate_limit_result_def parse_token_bucket_eval_result_def
        record_rate_limit_metric_def)
qed

text \<open>The stamp of a bucket follows the clock of whichever server asks, also backwards.  Two servers
  whose clocks differ by two tokens' worth of refill (200 ms for seeks) let every request
  through for as long as they alternate, with no time passing at all: the limit that the file
  calls cluster-wide is void.
\<close>

theorem skewed_clocks_defeat_limit:
  assumes "hot_ws_coalesce_batch ty \<le> 1" "lm_redisUp lm"
    and "map_of (lm_redis lm) (rate_limit_key (hot_ws_event_rate_key ty roomId userId)) = None"
    and "2000 \<le> (t2 - t1) * hl_refillPerSecond (hot_ws_event_limits ty)" "t1 \<le> t2" "t2 - t1 < 300000"
  shows "snd (run_budget (hot_request ty roomId userId) (concat (replicate n [t2, t1])) lm) = 2 * real n"
proof -
  let ?key = "rate_limit_key (hot_ws_event_rate_key ty roomId userId)"
  let ?cap = "hl_capacity (hot_ws_event_limits ty)" and ?rate = "hl_refillPerSecond (hot_ws_event_limits ty)"
  have cap: "2 \<le> ?cap" by (cases ty) (simp_all add: hot_limit_def)
  define ready where "ready lm \<longleftrightarrow> lm_redisUp lm \<and>
    (map_of (lm_redis lm) ?key = None \<or> (\<exists>b. map_of (lm_redis lm) ?key = Some (b, t1 + 300000)
       \<and> 0 \<le> tb_tokens b \<and> tb_updatedAtMs b = t1))" for lm :: limiter
  have pair: "\<exists>lm2. hot_request ty roomId userId t2 lm = (lm1, 1) \<and> hot_request ty roomId userId t1 lm1 = (lm2, 1) \<and> ready lm2"
    if r: "ready lm" and 1: "lm1 = fst (hot_request ty roomId userId t2 lm)" for lm lm1 :: limiter
  proof -
    have "2 \<le> bucket_level ?cap ?rate ?key t2 lm"
      using r cap assms(4-6)
      by (auto simp: ready_def bucket_level_def redis_bucket_def refill_bucket_def field_simps)
    with uncoalesced_request [OF assms(1), of lm roomId userId t2] r 1
    have a: "hot_request ty roomId userId t2 lm = (lm1, 1)" "lm_redisUp lm1"
      and b: "\<exists>\<tau>\<ge>1. map_of (lm_redis lm1) ?key = Some (\<lparr>tb_tokens = \<tau>, tb_updatedAtMs = t2\<rparr>, t2 + 300000)"
      by (auto simp: ready_def)
    have "1 \<le> bucket_level ?cap ?rate ?key t1 lm1"
      using b cap assms(5) by (auto simp: bucket_level_def redis_bucket_def refill_bucket_def)
    from uncoalesced_request [OF assms(1) a(2) this] this a(1) show ?thesis by (auto simp: ready_def)
  qed
  have "ready lm \<Longrightarrow> snd (run_budget (hot_request ty roomId userId) (concat (replicate n [t2, t1])) lm) = 2 * real n"
  proof (induction n arbitrary: lm)
    case (Suc n)
    from pair [OF Suc.prems refl] obtain lm1 lm2 where
      s: "hot_request ty roomId userId t2 lm = (lm1, 1)" "hot_request ty roomId userId t1 lm1 = (lm2, 1)" "ready lm2"
      by auto
    from Suc.IH [OF s(3)] show ?case by (simp add: s split_def)
  qed simp
  then show ?thesis using assms(2,3) by (simp add: ready_def)
qed

theorem skewed_clocks_defeat_limit_witness:
  "snd (run_budget (hot_request HotPlaybackSeek ''r'' ''u'') (concat (replicate 1000 [200, 0])) fresh_limiter) = 2000"
  using skewed_clocks_defeat_limit [of HotPlaybackSeek fresh_limiter "''r''" "''u''" 200 0 1000]
  by (simp add: fresh_limiter_def hot_limit_def)

end
