(* ===== verification/Local_Media.thy ===== *)
theory Local_Media
  imports Playlist_Handlers
begin

text \<open>
  Shared local files: their metadata in Redis (\<open>src/src/server/media/local-media-store.ts\<close>) and
  the messages of the tab that holds a file
  (\<open>src/src/server/realtime/handlers/local-media.ts\<close>).  The bytes never reach the store.
  A key outlives the \<open>expiresAt\<close> of its entry, so only the latter is modelled; the owner index
  is the set of ids per room and owner.  Invalidated block caches are recorded in order.
\<close>

section \<open>Entries\<close>

record abr_variant =
  av_localMediaId :: string
  av_height :: nat
  av_bandwidth :: nat
  av_label :: string

record abr_state =
  ab_durationSec :: jsnum
  ab_variants :: "abr_variant list"

record local_media_entry =
  le_id :: string
  le_roomId :: string
  le_ownerUserId :: string
  le_filename :: string
  le_mimeType :: string
  le_sizeBytes :: jsnum
  le_providerReady :: bool
  le_providerNodeId :: "string option"
  le_abrParentId :: "string option"
  le_abr :: "abr_state option"
  le_createdAt :: jsnum
  le_expiresAt :: jsnum

record media_store =
  md_entries :: "(string \<times> local_media_entry) list"
  md_index :: "((string \<times> string) \<times> string list) list"
  md_invalidated :: "string list"
  md_up :: bool
  md_node :: string

definition local_media_ttl_ms :: jsnum where "local_media_ttl_ms = 3600 * 1000"

record media_input =
  mi_id :: string
  mi_roomId :: string
  mi_ownerUserId :: string
  mi_filename :: string
  mi_mimeType :: string
  mi_sizeBytes :: jsnum
  mi_providerReady :: bool
  mi_abrParentId :: "string option"

definition owned_ids :: "string \<Rightarrow> string \<Rightarrow> media_store \<Rightarrow> string list" where
  "owned_ids roomId owner m = (case map_of (md_index m) (roomId, owner) of Some ids \<Rightarrow> ids | None \<Rightarrow> [])"

text \<open>\<open>None\<close> is the exception of a failed write.\<close>

definition create_local_media_entry :: "jsnum \<Rightarrow> media_input \<Rightarrow> media_store \<Rightarrow> media_store option" where
  "create_local_media_entry now i m =
     (let entry = \<lparr>le_id = mi_id i, le_roomId = mi_roomId i, le_ownerUserId = mi_ownerUserId i,
            le_filename = mi_filename i, le_mimeType = mi_mimeType i, le_sizeBytes = mi_sizeBytes i,
            le_providerReady = mi_providerReady i,
            le_providerNodeId = (if mi_providerReady i then Some (md_node m) else None),
            le_abrParentId = mi_abrParentId i, le_abr = None, le_createdAt = now,
            le_expiresAt = now + local_media_ttl_ms\<rparr>
      in if \<not> md_up m then None
         else Some (m\<lparr>md_entries := AList.update (mi_id i) entry (md_entries m),
                md_index := AList.update (mi_roomId i, mi_ownerUserId i)
                  (List.insert (mi_id i) (owned_ids (mi_roomId i) (mi_ownerUserId i) m)) (md_index m)\<rparr>))"

definition normalize_entry :: "local_media_entry \<Rightarrow> local_media_entry" where
  "normalize_entry e =
     e\<lparr>le_providerNodeId := (if truthy (le_providerNodeId e) then le_providerNodeId e else None),
       le_abrParentId := (if truthy (le_abrParentId e) then le_abrParentId e else None),
       le_abr := (case le_abr e of Some a \<Rightarrow> if ab_variants a \<noteq> [] then Some a else None | None \<Rightarrow> None)\<rparr>"

definition delete_entry_key :: "string \<Rightarrow> media_store \<Rightarrow> media_store" where
  "delete_entry_key i m = m\<lparr>md_entries := AList.delete i (md_entries m)\<rparr>"

definition get_local_media_entry :: "jsnum \<Rightarrow> string \<Rightarrow> media_store \<Rightarrow> media_store \<times> local_media_entry option" where
  "get_local_media_entry now i m =
     (if \<not> md_up m then (m, None)
      else case map_of (md_entries m) i of
             None \<Rightarrow> (m, None)
           | Some raw \<Rightarrow>
               (let entry = normalize_entry raw
                in if le_expiresAt entry \<le> now then (delete_entry_key i m, None) else (m, Some entry)))"

definition persist_entry :: "local_media_entry \<Rightarrow> media_store \<Rightarrow> media_store" where
  "persist_entry e m = m\<lparr>md_entries := AList.update (le_id e) e (md_entries m)\<rparr>"

text \<open>The caller's owner id, when it is given and not empty, must be the entry's.\<close>

definition set_local_media_provider_ready ::
  "jsnum \<Rightarrow> string \<Rightarrow> bool \<Rightarrow> string option \<Rightarrow> media_store \<Rightarrow> media_store" where
  "set_local_media_provider_ready now i ready owner m =
     (case get_local_media_entry now i m of
        (m1, None) \<Rightarrow> m1
      | (m1, Some e) \<Rightarrow>
          if truthy owner \<and> Some (le_ownerUserId e) \<noteq> owner then m1
          else let next_node = (if ready then Some (md_node m1) else None)
               in if le_providerReady e = ready \<and> le_providerNodeId e = next_node then m1
                  else persist_entry (e\<lparr>le_providerReady := ready, le_providerNodeId := next_node\<rparr>) m1)"

definition clear_local_media_provider_ready_for_owner ::
  "jsnum \<Rightarrow> string \<Rightarrow> string \<Rightarrow> media_store \<Rightarrow> media_store" where
  "clear_local_media_provider_ready_for_owner now roomId owner m =
     (if \<not> md_up m then m
      else fold (\<lambda>i. set_local_media_provider_ready now i False (Some owner)) (owned_ids roomId owner m) m)"

definition set_local_media_abr ::
  "jsnum \<Rightarrow> string \<Rightarrow> abr_state option \<Rightarrow> string option \<Rightarrow> media_store \<Rightarrow> media_store \<times> bool" where
  "set_local_media_abr now i abr owner m =
     (case get_local_media_entry now i m of
        (m1, None) \<Rightarrow> (m1, False)
      | (m1, Some e) \<Rightarrow>
          if truthy owner \<and> Some (le_ownerUserId e) \<noteq> owner then (m1, False)
          else (persist_entry (e\<lparr>le_abr := abr\<rparr>) m1, True))"

definition touch_local_media_entry :: "jsnum \<Rightarrow> string \<Rightarrow> media_store \<Rightarrow> media_store" where
  "touch_local_media_entry now i m =
     (case get_local_media_entry now i m of
        (m1, None) \<Rightarrow> m1
      | (m1, Some e) \<Rightarrow> persist_entry (e\<lparr>le_expiresAt := now + local_media_ttl_ms\<rparr>) m1)"

section \<open>Deleting a file and its ladder\<close>

text \<open>
  The code recurses into the children before it deletes the entry itself.  The recursion is
  written with its stack of pending work: visit an entry, or remove one whose children are done.
\<close>

datatype delete_task = Visit string | Remove local_media_entry string

definition invalidate_block_cache :: "string \<Rightarrow> media_store \<Rightarrow> media_store" where
  "invalidate_block_cache i m = m\<lparr>md_invalidated := md_invalidated m @ [i]\<rparr>"

definition ladder_children :: "local_media_entry \<Rightarrow> string \<Rightarrow> string list" where
  "ladder_children e i =
     (case le_abr (normalize_entry e) of None \<Rightarrow> []
      | Some a \<Rightarrow> filter (\<lambda>c. c \<noteq> i) (map av_localMediaId (ab_variants a)))"

definition remove_entry :: "local_media_entry \<Rightarrow> string \<Rightarrow> media_store \<Rightarrow> media_store" where
  "remove_entry e i m =
     (delete_entry_key i m)\<lparr>md_index := adjust (le_roomId e, le_ownerUserId e) (List.remove1 i) (md_index m)\<rparr>"

partial_function (option) delete_tasks :: "delete_task list \<Rightarrow> media_store \<Rightarrow> media_store option" where
  "delete_tasks tasks m =
     (case tasks of
        [] \<Rightarrow> Some m
      | Remove e i # ts \<Rightarrow> delete_tasks ts (remove_entry e i m)
      | Visit i # ts \<Rightarrow>
          (let m1 = invalidate_block_cache i m in
           if \<not> md_up m1 then delete_tasks ts m1
           else case map_of (md_entries m1) i of
                  None \<Rightarrow> delete_tasks ts m1
                | Some e \<Rightarrow> delete_tasks (map Visit (ladder_children e i) @ Remove e i # ts) m1))"

definition delete_local_media_entry :: "string \<Rightarrow> media_store \<Rightarrow> media_store option" where
  "delete_local_media_entry i m = delete_tasks [Visit i] m"

definition delete_local_media_entries_for_owner :: "string \<Rightarrow> string \<Rightarrow> media_store \<Rightarrow> media_store option" where
  "delete_local_media_entries_for_owner roomId owner m =
     (if \<not> md_up m then Some m
      else delete_tasks (map Visit (owned_ids roomId owner m))
             (m\<lparr>md_index := AList.delete (roomId, owner) (md_index m)\<rparr>))"

section \<open>Messages\<close>

definition parse_localMediaReady :: "(string \<Rightarrow> bool) \<Rightarrow> json \<Rightarrow> (string \<times> bool) option" where
  "parse_localMediaReady is_uuid j = do {
     i \<leftarrow> p_field (p_localMediaId is_uuid) j ''localMediaId'';
     r \<leftarrow> p_field p_bool j ''ready'';
     Some (i, r) }"

record publish_variant =
  pv_localMediaId :: string
  pv_height :: nat
  pv_bandwidth :: nat
  pv_label :: string
  pv_mimeType :: string
  pv_sizeBytes :: jsnum
  pv_name :: string

record abr_publish =
  ap_parentLocalMediaId :: string
  ap_durationSec :: jsnum
  ap_variants :: "publish_variant list"

definition p_nat_range :: "nat \<Rightarrow> nat \<Rightarrow> json \<Rightarrow> nat option" where
  "p_nat_range lo hi j = Option.bind (p_index j) (\<lambda>n. if lo \<le> n \<and> n \<le> hi then Some n else None)"

fun p_array :: "nat \<Rightarrow> nat \<Rightarrow> (json \<Rightarrow> 'a option) \<Rightarrow> json \<Rightarrow> 'a list option" where
  "p_array lo hi p (JArr js) =
     (if lo \<le> length js \<and> length js \<le> hi \<and> (\<forall>j\<in>set js. p j \<noteq> None) then Some (map (the \<circ> p) js) else None)"
| "p_array lo hi p _ = None"

definition p_publish_variant :: "(string \<Rightarrow> bool) \<Rightarrow> json \<Rightarrow> publish_variant option" where
  "p_publish_variant is_uuid j = do {
     i \<leftarrow> p_field (p_localMediaId is_uuid) j ''localMediaId'';
     h \<leftarrow> p_field (p_nat_range 1 16384) j ''height'';
     b \<leftarrow> p_field (p_nat_range 1 500000000) j ''bandwidth'';
     l \<leftarrow> p_field p_shortLabel j ''label'';
     t \<leftarrow> p_field (p_str 1 128) j ''mimeType'';
     s \<leftarrow> p_field p_sizeBytes j ''sizeBytes'';
     n \<leftarrow> p_field p_mediaTitle j ''name'';
     Some \<lparr>pv_localMediaId = i, pv_height = h, pv_bandwidth = b, pv_label = l, pv_mimeType = t,
            pv_sizeBytes = s, pv_name = n\<rparr> }"

definition parse_localMediaAbrPublish :: "(string \<Rightarrow> bool) \<Rightarrow> json \<Rightarrow> abr_publish option" where
  "parse_localMediaAbrPublish is_uuid j = do {
     p \<leftarrow> p_field (p_localMediaId is_uuid) j ''parentLocalMediaId'';
     d \<leftarrow> p_field p_duration j ''durationSec'';
     v \<leftarrow> p_field (p_array 1 8 (p_publish_variant is_uuid)) j ''variants'';
     Some \<lparr>ap_parentLocalMediaId = p, ap_durationSec = d, ap_variants = v\<rparr> }"

text \<open>\<open>local-media:ready\<close>: items of this user that were blocked or failed play again.\<close>

definition revivable :: "string \<Rightarrow> string \<Rightarrow> playlist_item \<Rightarrow> bool" where
  "revivable mediaId userId it =
     (pi_localMediaId it = Some mediaId \<and> pi_localOriginUserId it = Some userId
      \<and> (pi_blockedReason it = Some LocalOwnerOffline \<or> pi_ingestStatus it = Some IngestError))"

definition revive_item :: "playlist_item \<Rightarrow> playlist_item" where
  "revive_item it = it\<lparr>pi_blockedReason := None, pi_ingestError := None, pi_ingestStatus := Some IngestReady\<rparr>"

definition ready_body :: "string \<Rightarrow> string \<Rightarrow> body" where
  "ready_body mediaId userId st p =
     (if \<exists>it\<in>set (st_playlist st). revivable mediaId userId it
      then Some (st\<lparr>st_playlist := map (\<lambda>it. if revivable mediaId userId it then revive_item it else it) (st_playlist st)\<rparr>)
      else None)"

definition provided_item :: "string \<Rightarrow> string \<Rightarrow> server_room \<Rightarrow> playlist_item option" where
  "provided_item mediaId userId st =
     find (\<lambda>it. pi_localMediaId it = Some mediaId \<and> pi_localOriginUserId it = Some userId
       \<and> pi_sourceKind it = LocalFile) (st_playlist st)"

text \<open>Metadata that is gone is registered again from the playlist item of the same user.\<close>

definition recreate_entry :: "jsnum \<Rightarrow> message_context \<Rightarrow> string \<Rightarrow> world \<Rightarrow> media_store \<Rightarrow> media_store" where
  "recreate_entry now ctx mediaId w m =
     (case Option.bind (get_room (mc_roomId ctx) w) (provided_item mediaId (mc_userId ctx)) of
        None \<Rightarrow> m
      | Some it \<Rightarrow>
          (case (pi_localMimeType it, pi_localSizeBytes it) of
             (Some mime, Some sz) \<Rightarrow>
               if mime = [] then m
               else (case create_local_media_entry now
                        \<lparr>mi_id = mediaId, mi_roomId = mc_roomId ctx, mi_ownerUserId = mc_userId ctx,
                          mi_filename = (if pi_name it = [] then ''Local media'' else pi_name it),
                          mi_mimeType = mime, mi_sizeBytes = sz, mi_providerReady = True,
                          mi_abrParentId = None\<rparr> m of
                       Some m' \<Rightarrow> m' | None \<Rightarrow> m)
           | _ \<Rightarrow> m))"

definition handle_local_media_ready ::
  "(string \<Rightarrow> bool) \<Rightarrow> limits \<Rightarrow> string \<Rightarrow> jsnum \<Rightarrow> message_context \<Rightarrow> envelope \<Rightarrow> media_store \<times> world
     \<Rightarrow> media_store \<times> world" where
  "handle_local_media_ready is_uuid cfg freshId now ctx data mw =
     (case mw of (m, w) \<Rightarrow>
      case parse_or_nack (parse_localMediaReady is_uuid) (mc_ws ctx) data w of
        (w1, None) \<Rightarrow> (m, w1)
      | (w1, Some (mediaId, ready)) \<Rightarrow>
          if \<not> ready
          then (set_local_media_provider_ready now mediaId False (Some (mc_userId ctx)) m, w1)
          else (case get_local_media_entry now mediaId m of (m1, entry) \<Rightarrow>
                let m2 = (if entry = None then recreate_entry now ctx mediaId w1 m1
                          else set_local_media_provider_ready now mediaId True (Some (mc_userId ctx)) m1);
                    looked = get_local_media_entry now mediaId m2;
                    m3 = (if entry = None then fst looked else m2)
                in if entry \<noteq> None \<or> snd looked \<noteq> None
                   then (m3, fst (mutate_room_message cfg freshId now (mc_roomId ctx) (mc_userId ctx)
                                   (ready_body mediaId (mc_userId ctx)) HSnapshot w1))
                   else (m3, w1)))"

text \<open>
  \<open>local-media:abr:publish\<close>, in its three stages on the store: the checks on the parent, the
  registration of the children, and the ladder on the parent.
\<close>

definition abr_parent :: "jsnum \<Rightarrow> message_context \<Rightarrow> abr_publish \<Rightarrow> media_store \<Rightarrow> media_store \<times> local_media_entry option" where
  "abr_parent now ctx ap m =
     (case get_local_media_entry now (ap_parentLocalMediaId ap) m of
        (m1, None) \<Rightarrow> (m1, None)
      | (m1, Some parent) \<Rightarrow>
          (m1, if le_ownerUserId parent \<noteq> mc_userId ctx \<or> le_roomId parent \<noteq> mc_roomId ctx
                  \<or> truthy (le_abrParentId parent)
                  \<or> le_id parent \<notin> pv_localMediaId ` set (ap_variants ap)
               then None else Some parent))"

definition drop_previous_children :: "local_media_entry \<Rightarrow> media_store \<Rightarrow> media_store option" where
  "drop_previous_children parent m =
     delete_tasks (map Visit (ladder_children parent (le_id parent))) m"

definition child_input :: "message_context \<Rightarrow> string \<Rightarrow> publish_variant \<Rightarrow> media_input" where
  "child_input ctx parentId v =
     \<lparr>mi_id = pv_localMediaId v, mi_roomId = mc_roomId ctx, mi_ownerUserId = mc_userId ctx,
       mi_filename = pv_name v, mi_mimeType = pv_mimeType v, mi_sizeBytes = pv_sizeBytes v,
       mi_providerReady = True, mi_abrParentId = Some parentId\<rparr>"

primrec register_children ::
  "jsnum \<Rightarrow> message_context \<Rightarrow> string \<Rightarrow> publish_variant list \<Rightarrow> media_store \<Rightarrow> media_store option" where
  "register_children now ctx parentId [] m = Some m"
| "register_children now ctx parentId (v # vs) m =
     (if pv_localMediaId v = parentId then register_children now ctx parentId vs m
      else case create_local_media_entry now (child_input ctx parentId v) m of
             None \<Rightarrow> None
           | Some m1 \<Rightarrow> register_children now ctx parentId vs m1)"

definition abr_ladder :: "abr_publish \<Rightarrow> abr_state" where
  "abr_ladder ap =
     \<lparr>ab_durationSec = ap_durationSec ap,
       ab_variants = map (\<lambda>v. \<lparr>av_localMediaId = pv_localMediaId v, av_height = pv_height v,
          av_bandwidth = pv_bandwidth v, av_label = pv_label v\<rparr>) (ap_variants ap)\<rparr>"

text \<open>The streams of the item: the rungs from high to low, the highest by default, then Auto.\<close>

definition rung_stream :: "nat \<Rightarrow> publish_variant \<Rightarrow> media_stream" where
  "rung_stream index v =
     \<lparr>ms_id = ''local-'' @ index_key (pv_height v),
       ms_src = ''/api/media/local/'' @ encode_uri_component (pv_localMediaId v),
       ms_type = Some (pv_mimeType v), ms_protocol = None, ms_width = None,
       ms_height = Some (real (pv_height v)), ms_bitrate = Some (real (pv_bandwidth v)),
       ms_audioBitrate = None, ms_label = Some (pv_label v), ms_isDefault = Some (index = 0),
       ms_kind = Some Combined, ms_vcodec = None, ms_acodec = None, ms_audioLanguage = None\<rparr>"

definition progressive_streams :: "publish_variant list \<Rightarrow> media_stream list" where
  "progressive_streams vs =
     (let ranked = sort_key (\<lambda>v. - int (pv_height v)) vs
      in map (\<lambda>(i, v). rung_stream i v) (zip [0..<length ranked] ranked))"

definition auto_stream :: "string \<Rightarrow> media_stream" where
  "auto_stream parentId =
     \<lparr>ms_id = ''local-auto'', ms_src = ''/api/media/local/'' @ encode_uri_component parentId @ ''/hls'',
       ms_type = Some ''application/vnd.apple.mpegurl'', ms_protocol = Some ''m3u8'', ms_width = None,
       ms_height = None, ms_bitrate = None, ms_audioBitrate = None, ms_label = Some ''Auto'',
       ms_isDefault = Some False, ms_kind = Some Adaptive, ms_vcodec = None, ms_acodec = None,
       ms_audioLanguage = None\<rparr>"

definition publish_item :: "string \<Rightarrow> jsnum \<Rightarrow> media_stream \<Rightarrow> media_stream list \<Rightarrow> playlist_item \<Rightarrow> playlist_item" where
  "publish_item parentId durationSec dflt streams it =
     it\<lparr>pi_playableUrl := ms_src dflt, pi_sourceUrl := ms_src dflt,
        pi_durationSeconds := Some durationSec, pi_mediaStreams := Some streams,
        pi_defaultStreamId := Some (ms_id dflt), pi_ingestStatus := Some IngestReady\<rparr>"

definition abr_body :: "string \<Rightarrow> string \<Rightarrow> jsnum \<Rightarrow> media_stream \<Rightarrow> media_stream list \<Rightarrow> body" where
  "abr_body parentId userId durationSec dflt streams st p =
     (case find_index (\<lambda>it. pi_localMediaId it = Some parentId) (st_playlist st) of
        None \<Rightarrow> None
      | Some k \<Rightarrow>
          if pi_localOriginUserId (st_playlist st ! k) \<noteq> Some userId then None
          else Some (st\<lparr>st_playlist := (st_playlist st)
                 [k := publish_item parentId durationSec dflt streams (st_playlist st ! k)]\<rparr>))"

text \<open>\<open>None\<close> when the deletion of the previous children does not return.\<close>

definition handle_local_media_abr_publish ::
  "(string \<Rightarrow> bool) \<Rightarrow> limits \<Rightarrow> string \<Rightarrow> jsnum \<Rightarrow> message_context \<Rightarrow> envelope \<Rightarrow> media_store \<times> world
     \<Rightarrow> (media_store \<times> world) option" where
  "handle_local_media_abr_publish is_uuid cfg freshId now ctx data mw =
     (case mw of (m, w) \<Rightarrow>
      case parse_or_nack (parse_localMediaAbrPublish is_uuid) (mc_ws ctx) data w of
        (w1, None) \<Rightarrow> Some (m, w1)
      | (w1, Some ap) \<Rightarrow>
          (case abr_parent now ctx ap m of
             (m1, None) \<Rightarrow> Some (m1, w1)
           | (m1, Some parent) \<Rightarrow>
               (case drop_previous_children parent m1 of
                  None \<Rightarrow> None
                | Some m2 \<Rightarrow>
                    (case register_children now ctx (le_id parent) (ap_variants ap) m2 of
                       None \<Rightarrow> Some (m2, w1)
                     | Some m3 \<Rightarrow>
                         (case set_local_media_abr now (le_id parent) (Some (abr_ladder ap)) (Some (mc_userId ctx)) m3 of
                            (m4, False) \<Rightarrow> Some (m4, w1)
                          | (m4, True) \<Rightarrow>
                              (case progressive_streams (ap_variants ap) of
                                 [] \<Rightarrow> Some (m4, w1)
                               | dflt # rest \<Rightarrow>
                                   Some (m4, fst (mutate_room_message cfg freshId now (mc_roomId ctx) (mc_userId ctx)
                                     (abr_body (le_id parent) (mc_userId ctx) (ap_durationSec ap) dflt
                                       ((dflt # rest) @ [auto_stream (le_id parent)])) HSnapshot w1))))))))"

text \<open>Signalling is passed on to another user of the room as it came.\<close>

record user_signal =
  us_roomId :: string
  us_targetUserId :: string
  us_fromUserId :: string
  us_localMediaId :: string
  us_signal :: json

definition signal_type_ok :: "string \<Rightarrow> bool" where
  "signal_type_ok t = (t \<in> {''offer'', ''answer'', ''ice'', ''hangup''})"

definition opt_entry :: "string \<Rightarrow> ('a \<Rightarrow> json) \<Rightarrow> 'a option \<Rightarrow> (string \<times> json) list" where
  "opt_entry k f v = (case v of None \<Rightarrow> [] | Some x \<Rightarrow> [(k, f x)])"

definition p_signal :: "json \<Rightarrow> json option" where
  "p_signal j = (if \<not> is_obj j then None else do {
     t \<leftarrow> p_field (p_str_min 0) j ''type'';
     s \<leftarrow> p_opt (p_str 0 256000) j ''sdp'';
     c \<leftarrow> p_opt (p_str 0 8000) j ''candidate'';
     d \<leftarrow> p_opt (p_str 0 64) j ''sdpMid'';
     i \<leftarrow> p_opt (p_nat_range 0 64) j ''sdpMLineIndex'';
     (if signal_type_ok t
      then Some (JObj ((''type'', JStr t) # opt_entry ''sdp'' JStr s @ opt_entry ''candidate'' JStr c
             @ opt_entry ''sdpMid'' JStr d @ opt_entry ''sdpMLineIndex'' (\<lambda>n. JNum (real n)) i))
      else None) })"

definition parse_localMediaWebrtcSignal :: "(string \<Rightarrow> bool) \<Rightarrow> json \<Rightarrow> (string \<times> string \<times> json) option" where
  "parse_localMediaWebrtcSignal is_uuid j = do {
     i \<leftarrow> p_field (p_localMediaId is_uuid) j ''localMediaId'';
     t \<leftarrow> p_field p_userId j ''targetUserId'';
     s \<leftarrow> p_field p_signal j ''signal'';
     Some (i, t, s) }"

definition handle_local_media_webrtc_signal :: "(string \<Rightarrow> bool) \<Rightarrow> message_context \<Rightarrow> envelope \<Rightarrow> user_signal option" where
  "handle_local_media_webrtc_signal is_uuid ctx data =
     (case parse_localMediaWebrtcSignal is_uuid (env_payload data) of
        None \<Rightarrow> None
      | Some (mediaId, target, signal) \<Rightarrow>
          if target = mc_userId ctx then None
          else Some \<lparr>us_roomId = mc_roomId ctx, us_targetUserId = target, us_fromUserId = mc_userId ctx,
                 us_localMediaId = mediaId, us_signal = signal\<rparr>)"

section \<open>The bodies meet the contract\<close>

interpretation ready: room_body "ready_body i u" any_playlist for i u
  by (rule room_bodyI) (auto simp: ready_body_def ids_ok_def revive_item_def comp_def if_distrib cong: if_cong split: if_splits)

lemma map_update_same: "k < length xs \<Longrightarrow> f y = f (xs ! k) \<Longrightarrow> map f (xs[k := y]) = map f xs"
  by (metis list_update_id map_update)

interpretation abr: room_body "abr_body i u d x xs" any_playlist for i u d x xs
  by (rule room_bodyI)
     (auto simp: abr_body_def ids_ok_def publish_item_def map_update_same find_index_Some_iff
       dest!: subsetD [OF set_update_subset_insert] split: option.splits if_splits)

lemma ready_wf [wf_intros]:
  assumes "world_wf cfg (snd mw)"
  shows "world_wf cfg (snd (handle_local_media_ready is_uuid cfg freshId now ctx data mw))"
proof (cases mw)
  case (Pair m w)
  obtain w1 r where p: "parse_or_nack (parse_localMediaReady is_uuid) (mc_ws ctx) data w = (w1, r)" by force
  have "world_wf cfg w1" using world_wf_parse [OF _ p] assms Pair by simp
  then show ?thesis
    using mutate_world_wf [OF ready.room_body_axioms]
    by (simp add: handle_local_media_ready_def Pair p Let_def split: option.split prod.split)
qed

lemma abr_publish_wf [wf_intros]:
  assumes "world_wf cfg (snd mw)" "handle_local_media_abr_publish is_uuid cfg freshId now ctx data mw = Some mw'"
  shows "world_wf cfg (snd mw')"
proof (cases mw)
  case (Pair m w)
  obtain w1 r where p: "parse_or_nack (parse_localMediaAbrPublish is_uuid) (mc_ws ctx) data w = (w1, r)" by force
  have "world_wf cfg w1" using world_wf_parse [OF _ p] assms(1) Pair by simp
  then show ?thesis
    using mutate_world_wf [OF abr.room_body_axioms] assms(2)
    by (auto simp: handle_local_media_abr_publish_def Pair p split: option.splits prod.splits list.splits bool.splits)
qed

section \<open>Deleting returns\<close>

text \<open>
  The store is in order when an entry is kept under its own id and the ladders can be ranked:
  a child ranks below its parent.
\<close>

definition media_ok :: "(string \<Rightarrow> nat) \<Rightarrow> media_store \<Rightarrow> bool" where
  "media_ok rk m = (\<forall>i e. map_of (md_entries m) i = Some e \<longrightarrow>
     le_id e = i \<and> (\<forall>c\<in>set (ladder_children e i). rk c < rk i))"

text \<open>What deleting may do below a rank: nothing at or above it, and it only removes.\<close>

definition removed_below :: "(string \<Rightarrow> nat) \<Rightarrow> nat \<Rightarrow> media_store \<Rightarrow> media_store \<Rightarrow> bool" where
  "removed_below rk n m m' =
     (md_up m' = md_up m \<and> md_node m' = md_node m
      \<and> (\<forall>k. map_of (md_entries m') k = map_of (md_entries m) k \<or> map_of (md_entries m') k = None)
      \<and> (\<forall>k. n \<le> rk k \<longrightarrow> map_of (md_entries m') k = map_of (md_entries m) k))"

lemma removed_below_refl: "removed_below rk n m m"
  by (simp add: removed_below_def)

lemma removed_below_trans:
  "removed_below rk n m m' \<Longrightarrow> removed_below rk n' m' m'' \<Longrightarrow> n \<le> N \<Longrightarrow> n' \<le> N \<Longrightarrow> removed_below rk N m m''"
  unfolding removed_below_def by (intro conjI allI impI) (metis order_trans)+

lemma removed_below_ok: "media_ok rk m \<Longrightarrow> removed_below rk n m m' \<Longrightarrow> media_ok rk m'"
  unfolding media_ok_def removed_below_def by (metis option.distinct(1))

lemma invalidate_below: "removed_below rk n m (invalidate_block_cache i m)"
  by (simp add: removed_below_def invalidate_block_cache_def)

lemma remove_below: "rk i < n \<Longrightarrow> removed_below rk n m (remove_entry e i m)"
  by (auto simp: removed_below_def remove_entry_def delete_entry_key_def)

lemma visit_absent:
  assumes "\<not> md_up m \<or> map_of (md_entries m) i = None"
  shows "delete_tasks (Visit i # ts) m = delete_tasks ts (invalidate_block_cache i m)"
  using assms by (subst delete_tasks.simps) (auto simp: Let_def invalidate_block_cache_def)

lemma visit_present:
  assumes "md_up m" "map_of (md_entries m) i = Some e"
  shows "delete_tasks (Visit i # ts) m
    = delete_tasks (map Visit (ladder_children e i) @ Remove e i # ts) (invalidate_block_cache i m)"
  using assms by (subst delete_tasks.simps) (simp add: Let_def invalidate_block_cache_def)

lemma remove_step: "delete_tasks (Remove e i # ts) m = delete_tasks ts (remove_entry e i m)"
  by (subst delete_tasks.simps) simp

lemma no_tasks: "delete_tasks [] m = Some m"
  by (subst delete_tasks.simps) simp

lemma visit_returns:
  assumes "media_ok rk m"
  shows "\<exists>m'. (\<forall>ts. delete_tasks (Visit i # ts) m = delete_tasks ts m') \<and> removed_below rk (Suc (rk i)) m m'
    \<and> (md_up m \<longrightarrow> map_of (md_entries m') i = None)"
  using assms
proof (induction "rk i" arbitrary: i m rule: less_induct)
  case less
  note one = less.hyps
  have many: "\<exists>m'. (\<forall>ts. delete_tasks (map Visit cs @ ts) m = delete_tasks ts m') \<and> removed_below rk (rk i) m m'
      \<and> (md_up m \<longrightarrow> (\<forall>c\<in>set cs. map_of (md_entries m') c = None))"
    if "media_ok rk m" "\<forall>c\<in>set cs. rk c < rk i" for cs m
    using that
  proof (induction cs arbitrary: m)
    case Nil
    then show ?case using removed_below_refl by auto
  next
    case (Cons c cs)
    obtain m1 where m1: "\<forall>ts. delete_tasks (Visit c # ts) m = delete_tasks ts m1" "removed_below rk (Suc (rk c)) m m1"
      "md_up m \<longrightarrow> map_of (md_entries m1) c = None"
      using one [of c m] Cons.prems by auto
    obtain m2 where m2: "\<forall>ts. delete_tasks (map Visit cs @ ts) m1 = delete_tasks ts m2" "removed_below rk (rk i) m1 m2"
      "md_up m1 \<longrightarrow> (\<forall>c\<in>set cs. map_of (md_entries m2) c = None)"
      using Cons.IH [OF removed_below_ok [OF Cons.prems(1) m1(2)]] Cons.prems(2) by auto
    have "removed_below rk (rk i) m m2"
      using removed_below_trans [OF m1(2) m2(2)] Cons.prems(2) by simp
    moreover have "map_of (md_entries m2) c = None" if "md_up m"
      using that m1(3) m2(2) unfolding removed_below_def by metis
    ultimately show ?case using m1 m2 by (intro exI [of _ m2]) (auto simp: removed_below_def)
  qed
  show ?case
  proof (cases "md_up m \<and> map_of (md_entries m) i \<noteq> None")
    case False
    with visit_absent [of m i] invalidate_below [of rk "Suc (rk i)" m i] show ?thesis
      by (intro exI [of _ "invalidate_block_cache i m"]) (auto simp: invalidate_block_cache_def)
  next
    case True
    then obtain e where e: "md_up m" "map_of (md_entries m) i = Some e" by auto
    let ?m1 = "invalidate_block_cache i m"
    have ok1: "media_ok rk ?m1" using removed_below_ok [OF less.prems invalidate_below] .
    have "\<forall>c\<in>set (ladder_children e i). rk c < rk i" using less.prems e(2) by (simp add: media_ok_def)
    from many [OF ok1 this] obtain m2 where m2: "\<forall>ts. delete_tasks (map Visit (ladder_children e i) @ ts) ?m1 = delete_tasks ts m2"
      "removed_below rk (rk i) ?m1 m2" by auto
    have "removed_below rk (Suc (rk i)) m (remove_entry e i m2)"
      by (rule removed_below_trans [OF removed_below_trans [OF invalidate_below m2(2), of "rk i" "Suc (rk i)"] remove_below [of rk i "Suc (rk i)"]]) simp_all
    moreover have "delete_tasks (Visit i # ts) m = delete_tasks ts (remove_entry e i m2)" for ts
      using visit_present [OF e] m2(1) remove_step by simp
    moreover have "map_of (md_entries (remove_entry e i m2)) i = None"
      by (simp add: remove_entry_def delete_entry_key_def)
    ultimately show ?thesis by blast
  qed
qed

text \<open>Deleting a file whose ladders are in order returns: the entry and its children are gone, no
  other entry changed except by being removed, and nothing ranked above the file was touched.
\<close>

theorem delete_cascade_returns:
  assumes "media_ok rk m" "md_up m"
  shows "\<exists>m'. delete_local_media_entry i m = Some m' \<and> media_ok rk m'
    \<and> map_of (md_entries m') i = None
    \<and> (\<forall>k. map_of (md_entries m') k = map_of (md_entries m) k \<or> map_of (md_entries m') k = None)
    \<and> (\<forall>k. rk i < rk k \<longrightarrow> map_of (md_entries m') k = map_of (md_entries m) k)"
proof -
  obtain m' where m': "\<forall>ts. delete_tasks (Visit i # ts) m = delete_tasks ts m'" "removed_below rk (Suc (rk i)) m m'"
    "map_of (md_entries m') i = None"
    using visit_returns [OF assms(1)] assms(2) by blast
  then have "delete_local_media_entry i m = Some m'" by (simp add: delete_local_media_entry_def no_tasks)
  with m' removed_below_ok [OF assms(1) m'(2)] show ?thesis by (auto simp: removed_below_def)
qed

definition sample_entry :: "string \<Rightarrow> string \<Rightarrow> abr_state option \<Rightarrow> local_media_entry" where
  "sample_entry i owner abr = \<lparr>le_id = i, le_roomId = ''r'', le_ownerUserId = owner, le_filename = ''f'',
     le_mimeType = ''video/mp4'', le_sizeBytes = 10, le_providerReady = True, le_providerNodeId = Some ''n1'',
     le_abrParentId = None, le_abr = abr, le_createdAt = 0, le_expiresAt = 5000000\<rparr>"

definition sample_media :: "string list \<Rightarrow> media_store" where
  "sample_media children =
     \<lparr>md_entries = [(''a'', sample_entry ''a'' ''ann'' (Some \<lparr>ab_durationSec = 60,
         ab_variants = map (\<lambda>c. \<lparr>av_localMediaId = c, av_height = 720, av_bandwidth = 1000, av_label = ''720p''\<rparr>) children\<rparr>)),
       (''b'', sample_entry ''b'' ''bob'' None)],
       md_index = [], md_invalidated = [], md_up = True, md_node = ''n1''\<rparr>"

lemma sample_media_ok: "media_ok (\<lambda>i. if i = ''a'' then 1 else 0) (sample_media [''a'', ''b''])"
  by (simp add: media_ok_def sample_media_def sample_entry_def ladder_children_def normalize_entry_def)

theorem delete_cascade_returns_witness:
  "\<exists>m'. delete_local_media_entry ''a'' (sample_media [''a'', ''b'']) = Some m' \<and> map_of (md_entries m') ''a'' = None"
  using delete_cascade_returns [OF sample_media_ok, of "''a''"] by (auto simp: sample_media_def)

section \<open>Two entries that list each other\<close>

definition lists_child :: "media_store \<Rightarrow> string \<Rightarrow> string \<Rightarrow> bool" where
  "lists_child m a b = (\<exists>e. map_of (md_entries m) a = Some e \<and> b \<in> set (ladder_children e a))"

definition removes :: "string \<Rightarrow> delete_task \<Rightarrow> bool" where
  "removes i t = (\<exists>e. t = Remove e i)"

text \<open>Work that visits one of the two before it removes either never runs out.\<close>

lemma cycle_pending:
  assumes "delete_tasks tasks m = Some y"
  shows "md_up m \<Longrightarrow> lists_child m a b \<Longrightarrow> lists_child m b a
    \<Longrightarrow> tasks = pre @ Visit x # rest \<Longrightarrow> x \<in> {a, b} \<Longrightarrow> \<forall>t\<in>set pre. \<not> removes a t \<and> \<not> removes b t \<Longrightarrow> False"
  using assms
proof (induction arbitrary: pre x rest rule: delete_tasks.raw_induct [rotated, consumes 1, case_names step])
  case (step del tasks m y)
  note IH = step.IH
  have lists: "lists_child (invalidate_block_cache i m) c d = lists_child m c d" for i c d
    by (simp add: lists_child_def invalidate_block_cache_def)
  have up: "md_up (invalidate_block_cache i m) = md_up m" "map_of (md_entries (invalidate_block_cache i m)) = map_of (md_entries m)" for i
    by (simp_all add: invalidate_block_cache_def)
  have split_visit: "\<exists>pre'. map Visit cs = pre' @ Visit d # map Visit (drop (Suc (length pre')) cs) \<and> (\<forall>t\<in>set pre'. \<not> removes a t \<and> \<not> removes b t)"
    if "d \<in> set cs" for d cs
  proof -
    from that obtain ys zs where "cs = ys @ d # zs" by (meson split_list)
    then show ?thesis by (intro exI [of _ "map Visit ys"]) (auto simp: removes_def)
  qed
  have visit: False if v: "tasks = Visit x # ts" "x \<in> {a, b}" for x ts
  proof -
    define d where "d = (if x = a then b else a)"
    have "lists_child m x d" using v(2) step.prems(2,3) by (auto simp: d_def)
    then obtain e where e: "map_of (md_entries m) x = Some e" "d \<in> set (ladder_children e x)" by (auto simp: lists_child_def)
    obtain pre' where pre': "map Visit (ladder_children e x) = pre' @ Visit d # map Visit (drop (Suc (length pre')) (ladder_children e x))"
      "\<forall>t\<in>set pre'. \<not> removes a t \<and> \<not> removes b t" using split_visit [OF e(2)] by blast
    have "del (map Visit (ladder_children e x) @ Remove e x # ts) (invalidate_block_cache x m) = Some y"
      using step.hyps v(1) e(1) step.prems(1) by (simp add: Let_def up)
    moreover have "map Visit (ladder_children e x) @ Remove e x # ts
        = pre' @ Visit d # (map Visit (drop (Suc (length pre')) (ladder_children e x)) @ Remove e x # ts)"
      by (subst pre'(1)) simp
    moreover have "d \<in> {a, b}" by (simp add: d_def)
    ultimately show False
      using IH [OF _ _ _ _ _ _ pre'(2)] step.prems(1-3) up lists by blast
  qed
  show False
  proof (cases pre)
    case Nil
    with visit step.prems(4,5) show False by simp
  next
    case (Cons t pre')
    show False
    proof (cases t)
      case (Visit i)
      show False
      proof (cases "i \<in> {a, b}")
        case True
        with visit Visit Cons step.prems(4) show False by simp
      next
        case False
        show False
        proof (cases "map_of (md_entries m) i")
          case None
          have "del (pre' @ Visit x # rest) (invalidate_block_cache i m) = Some y"
            using step.hyps Visit Cons step.prems(1,4) None by (simp add: Let_def up)
          from IH [OF this _ _ _ refl step.prems(5)] show False
            using step.prems(1-3,6) up lists Cons by auto
        next
          case (Some e)
          have "del ((map Visit (ladder_children e i) @ Remove e i # pre') @ Visit x # rest) (invalidate_block_cache i m) = Some y"
            using step.hyps Visit Cons step.prems(1,4) Some by (simp add: Let_def up)
          moreover have "\<forall>t\<in>set (map Visit (ladder_children e i) @ Remove e i # pre'). \<not> removes a t \<and> \<not> removes b t"
            using step.prems(6) Cons False by (auto simp: removes_def)
          ultimately show False
            using IH [OF _ _ _ _ refl step.prems(5)] step.prems(1-3) up lists by blast
        qed
      qed
    next
      case (Remove e i)
      have ne: "i \<noteq> a" "i \<noteq> b" using step.prems(6) Cons Remove by (auto simp: removes_def)
      have same: "lists_child (remove_entry e i m) c d = lists_child m c d" if "c \<noteq> i" for c d
        using that by (simp add: lists_child_def remove_entry_def delete_entry_key_def)
      have "del (pre' @ Visit x # rest) (remove_entry e i m) = Some y"
        using step.hyps Remove Cons step.prems(4) by simp
      from IH [OF this _ _ _ refl step.prems(5)] show False
        using step.prems(1-3,6) same ne Cons by (auto simp: remove_entry_def delete_entry_key_def)
    qed
  qed
qed

lemma cyclic_delete_diverges:
  assumes "md_up m" "lists_child m a b" "lists_child m b a"
  shows "delete_local_media_entry a m = None"
proof (cases "delete_local_media_entry a m")
  case (Some y)
  then have "delete_tasks ([] @ Visit a # []) m = Some y" by (simp add: delete_local_media_entry_def)
  from cycle_pending [OF this assms refl] show ?thesis by simp
qed

section \<open>Publishing a ladder\<close>

text \<open>What registering the children leaves at a key, and that the store stays in order.\<close>

lemma create_entry:
  assumes "md_up m"
  obtains m' e where "create_local_media_entry now i m = Some m'" "md_up m'" "md_node m' = md_node m"
    "md_entries m' = AList.update (mi_id i) e (md_entries m)"
    "le_id e = mi_id i" "le_roomId e = mi_roomId i" "le_ownerUserId e = mi_ownerUserId i" "le_abr e = None"
    "le_abrParentId e = mi_abrParentId i" "le_expiresAt e = now + local_media_ttl_ms"
  using assms that by (simp add: create_local_media_entry_def Let_def)

definition child_entry :: "message_context \<Rightarrow> string \<Rightarrow> jsnum \<Rightarrow> string \<Rightarrow> local_media_entry \<Rightarrow> bool" where
  "child_entry ctx parentId now i e =
     (le_id e = i \<and> le_roomId e = mc_roomId ctx \<and> le_ownerUserId e = mc_userId ctx \<and> le_abr e = None
      \<and> le_abrParentId e = Some parentId \<and> le_expiresAt e = now + local_media_ttl_ms)"

lemma register_spec:
  assumes "md_up m"
  shows "\<exists>m'. register_children now ctx pid vs m = Some m' \<and> md_up m' \<and> md_node m' = md_node m
    \<and> (\<forall>i. if i \<noteq> pid \<and> i \<in> pv_localMediaId ` set vs
            then \<exists>e. map_of (md_entries m') i = Some e \<and> child_entry ctx pid now i e
            else map_of (md_entries m') i = map_of (md_entries m) i)"
  using assms
proof (induction vs arbitrary: m)
  case (Cons v vs)
  show ?case
  proof (cases "pv_localMediaId v = pid")
    case True
    with Cons.IH [OF Cons.prems] show ?thesis by auto
  next
    case False
    obtain m1 e where c: "create_local_media_entry now (child_input ctx pid v) m = Some m1" "md_up m1" "md_node m1 = md_node m"
      "md_entries m1 = AList.update (pv_localMediaId v) e (md_entries m)" "child_entry ctx pid now (pv_localMediaId v) e"
      by (rule create_entry [OF Cons.prems, of now "child_input ctx pid v"]) (simp add: child_input_def child_entry_def)
    obtain m2 where m2: "register_children now ctx pid vs m1 = Some m2" "md_up m2" "md_node m2 = md_node m1"
      "\<forall>i. if i \<noteq> pid \<and> i \<in> pv_localMediaId ` set vs
            then \<exists>e. map_of (md_entries m2) i = Some e \<and> child_entry ctx pid now i e
            else map_of (md_entries m2) i = map_of (md_entries m1) i"
      using Cons.IH [OF c(2)] by blast
    have "if i \<noteq> pid \<and> i \<in> pv_localMediaId ` set (v # vs)
        then \<exists>e. map_of (md_entries m2) i = Some e \<and> child_entry ctx pid now i e
        else map_of (md_entries m2) i = map_of (md_entries m) i" for i
      using m2(4) [rule_format, of i] c(4,5) False by (auto split: if_splits)
    with False c m2 show ?thesis by simp
  qed
qed simp

lemma get_entry_at:
  assumes "md_up m" "map_of (md_entries m) i = Some e" "now < le_expiresAt e"
  shows "get_local_media_entry now i m = (m, Some (normalize_entry e))"
  using assms by (simp add: get_local_media_entry_def normalize_entry_def Let_def)

lemma normalize_sel [simp]:
  "le_id (normalize_entry e) = le_id e" "le_roomId (normalize_entry e) = le_roomId e"
  "le_ownerUserId (normalize_entry e) = le_ownerUserId e" "le_expiresAt (normalize_entry e) = le_expiresAt e"
  by (simp_all add: normalize_entry_def)

lemma normalize_entry_idem [simp]: "normalize_entry (normalize_entry e) = normalize_entry e"
  by (simp add: normalize_entry_def split: option.split)

lemma ladder_children_normalize [simp]: "ladder_children (normalize_entry e) i = ladder_children e i"
  by (simp add: ladder_children_def)

lemma get_entry_SomeD:
  assumes "get_local_media_entry now i m = (m', Some e)"
  shows "md_up m" "m' = m" "now < le_expiresAt e" "\<exists>raw. map_of (md_entries m) i = Some raw \<and> e = normalize_entry raw"
  using assms by (auto simp: get_local_media_entry_def Let_def split: if_splits option.splits)

lemma abr_parentD:
  assumes "abr_parent now ctx ap m = (m', Some parent)"
  shows "md_up m" "m' = m" "now < le_expiresAt parent"
    "\<exists>raw. map_of (md_entries m) (ap_parentLocalMediaId ap) = Some raw \<and> parent = normalize_entry raw"
    "le_ownerUserId parent = mc_userId ctx" "le_roomId parent = mc_roomId ctx"
    "le_id parent \<in> pv_localMediaId ` set (ap_variants ap)"
proof -
  have g: "get_local_media_entry now (ap_parentLocalMediaId ap) m = (m', Some parent)"
    and rest: "le_ownerUserId parent = mc_userId ctx" "le_roomId parent = mc_roomId ctx"
      "le_id parent \<in> pv_localMediaId ` set (ap_variants ap)"
    using assms by (auto simp: abr_parent_def split: prod.splits option.splits if_splits)
  from get_entry_SomeD [OF g] show "md_up m" "m' = m" "now < le_expiresAt parent"
    "\<exists>raw. map_of (md_entries m) (ap_parentLocalMediaId ap) = Some raw \<and> parent = normalize_entry raw" by auto
  from rest show "le_ownerUserId parent = mc_userId ctx" "le_roomId parent = mc_roomId ctx"
    "le_id parent \<in> pv_localMediaId ` set (ap_variants ap)" .
qed

lemma set_abr_at:
  assumes "md_up m" "map_of (md_entries m) i = Some e" "now < le_expiresAt e" "le_id e = i" "le_ownerUserId e = u"
  shows "set_local_media_abr now i abr (Some u) m = (persist_entry ((normalize_entry e)\<lparr>le_abr := abr\<rparr>) m, True)"
  using assms by (simp add: set_local_media_abr_def get_entry_at)

text \<open>The store after a publish: the parent carries the ladder, the children are new entries of the publisher.\<close>

lemma publish_store:
  assumes ok: "media_ok rk m" and parsed: "parse_localMediaAbrPublish is_uuid (env_payload data) = Some ap"
    and parent: "abr_parent now ctx ap m = (m, Some parent)"
  shows "\<exists>m'. handle_local_media_abr_publish is_uuid cfg freshId now ctx data (m, w) =
      Some (m', fst (mutate_room_message cfg freshId now (mc_roomId ctx) (mc_userId ctx)
        (abr_body (le_id parent) (mc_userId ctx) (ap_durationSec ap) (hd (progressive_streams (ap_variants ap)))
          (progressive_streams (ap_variants ap) @ [auto_stream (le_id parent)])) HSnapshot w))
    \<and> md_up m' \<and> (\<exists>rk'. media_ok rk' m')
    \<and> map_of (md_entries m') (le_id parent) = Some (parent\<lparr>le_abr := Some (abr_ladder ap)\<rparr>)
    \<and> (\<forall>i\<in>pv_localMediaId ` set (ap_variants ap). i \<noteq> le_id parent \<longrightarrow>
         (\<exists>e. map_of (md_entries m') i = Some e \<and> child_entry ctx (le_id parent) now i e))"
proof -
  note pd = abr_parentD [OF parent]
  let ?p = "le_id parent"
  obtain raw where raw: "map_of (md_entries m) (ap_parentLocalMediaId ap) = Some raw" "parent = normalize_entry raw"
    using pd(4) by blast
  have pid: "?p = ap_parentLocalMediaId ap" using ok raw by (simp add: media_ok_def)
  have below: "rk c < rk ?p" if "c \<in> set (ladder_children parent ?p)" for c
    using ok raw pid that by (auto simp: media_ok_def)
  \<comment> \<open>dropping the previous children returns and leaves the parent\<close>
  have drop: "\<exists>m2. delete_tasks (map Visit cs) m0 = Some m2 \<and> removed_below rk (rk ?p) m0 m2"
    if "\<forall>c\<in>set cs. rk c < rk ?p" "media_ok rk m0" for cs m0
    using that
  proof (induction cs arbitrary: m0)
    case Nil
    then show ?case using removed_below_refl by (auto simp: no_tasks)
  next
    case (Cons c cs)
    obtain m1 where m1: "\<forall>ts. delete_tasks (Visit c # ts) m0 = delete_tasks ts m1" "removed_below rk (Suc (rk c)) m0 m1"
      using visit_returns [OF Cons.prems(2)] by blast
    obtain m2 where "delete_tasks (map Visit cs) m1 = Some m2" "removed_below rk (rk ?p) m1 m2"
      using Cons.IH [OF _ removed_below_ok [OF Cons.prems(2) m1(2)]] Cons.prems(1) by auto
    with m1 removed_below_trans [OF m1(2), of "rk ?p" m2 "rk ?p"] Cons.prems(1) show ?case by auto
  qed
  obtain m2 where m2: "drop_previous_children parent m = Some m2" "removed_below rk (rk ?p) m m2"
    using drop [of "ladder_children parent ?p" m] below ok by (auto simp: drop_previous_children_def)
  have up2: "md_up m2" and raw2: "map_of (md_entries m2) ?p = Some raw"
    using m2(2) pd(1) raw pid by (auto simp: removed_below_def)
  obtain m3 where m3: "register_children now ctx ?p (ap_variants ap) m2 = Some m3" "md_up m3"
    "\<forall>i. if i \<noteq> ?p \<and> i \<in> pv_localMediaId ` set (ap_variants ap)
       then \<exists>e. map_of (md_entries m3) i = Some e \<and> child_entry ctx ?p now i e
       else map_of (md_entries m3) i = map_of (md_entries m2) i"
    using register_spec [OF up2] by blast
  have raw3: "map_of (md_entries m3) ?p = Some raw" using m3(3) [rule_format, of ?p] raw2 by simp
  define m4 where "m4 = persist_entry (parent\<lparr>le_abr := Some (abr_ladder ap)\<rparr>) m3"
  have abr: "set_local_media_abr now ?p (Some (abr_ladder ap)) (Some (mc_userId ctx)) m3 = (m4, True)"
    using set_abr_at [OF m3(2) raw3, of now "mc_userId ctx"] pd(3,5) raw by (simp add: m4_def)
  have e4: "map_of (md_entries m4) i = (if i = ?p then Some (parent\<lparr>le_abr := Some (abr_ladder ap)\<rparr>) else map_of (md_entries m3) i)" for i
    by (simp add: m4_def persist_entry_def)
  have ok2: "media_ok rk m2" by (rule removed_below_ok [OF ok m2(2)])
  define rk' where "rk' i = (if i \<noteq> ?p \<and> i \<in> pv_localMediaId ` set (ap_variants ap) then 0 else Suc (rk i))" for i
  have "media_ok rk' m4"
    unfolding media_ok_def
  proof (intro allI impI)
    fix i e assume e: "map_of (md_entries m4) i = Some e"
    consider (parent) "i = ?p" | (child) "i \<noteq> ?p" "i \<in> pv_localMediaId ` set (ap_variants ap)"
      | (other) "i \<noteq> ?p" "i \<notin> pv_localMediaId ` set (ap_variants ap)" by blast
    then show "le_id e = i \<and> (\<forall>c\<in>set (ladder_children e i). rk' c < rk' i)"
    proof cases
      case parent
      then show ?thesis
        using e by (auto simp: e4 ladder_children_def normalize_entry_def abr_ladder_def rk'_def split: if_splits)
    next
      case child
      then show ?thesis using e m3(3) [rule_format, of i]
        by (auto simp: e4 child_entry_def ladder_children_def normalize_entry_def)
    next
      case other
      then have "map_of (md_entries m2) i = Some e" using e m3(3) [rule_format, of i] by (simp add: e4)
      with ok2 have "le_id e = i" "\<forall>c\<in>set (ladder_children e i). rk c < rk i" by (auto simp: media_ok_def)
      with other show ?thesis by (auto simp: rk'_def)
    qed
  qed
  have "ap_variants ap \<noteq> []" using pd(7) by auto
  then have "length (progressive_streams (ap_variants ap)) \<noteq> 0"
    by (simp add: progressive_streams_def Let_def)
  then obtain s ss where ps: "progressive_streams (ap_variants ap) = s # ss" by (cases "progressive_streams (ap_variants ap)") auto
  have pn: "parse_or_nack (parse_localMediaAbrPublish is_uuid) (mc_ws ctx) data w = (w, Some ap)"
    by (simp add: parse_or_nack_def parsed)
  have run: "handle_local_media_abr_publish is_uuid cfg freshId now ctx data (m, w) =
      Some (m4, fst (mutate_room_message cfg freshId now (mc_roomId ctx) (mc_userId ctx)
        (abr_body ?p (mc_userId ctx) (ap_durationSec ap) (hd (progressive_streams (ap_variants ap)))
          (progressive_streams (ap_variants ap) @ [auto_stream ?p])) HSnapshot w))"
    unfolding handle_local_media_abr_publish_def prod.case pn option.case parent m2(1) m3(1) abr bool.case ps list.case list.sel
    by simp
  have up4: "md_up m4" using m3(2) by (simp add: m4_def persist_entry_def)
  have kids: "\<exists>e. map_of (md_entries m4) i = Some e \<and> child_entry ctx ?p now i e"
    if "i \<in> pv_localMediaId ` set (ap_variants ap)" "i \<noteq> ?p" for i
    using m3(3) [rule_format, of i] that by (simp add: e4)
  show ?thesis
    using run up4 kids e4 [of ?p] \<open>media_ok rk' m4\<close> by (intro exI [of _ m4]) (simp, blast)
qed

text \<open>A published ladder: the parent's entry carries it, every other rung is an entry of the
  publisher in this room, the ladders stay in order, and the item of the file, when the publisher
  added it, plays the highest rung by default and offers every rung and the adaptive playlist.
\<close>

theorem abr_publish_correct:
  assumes ok: "media_ok rk m" and parsed: "parse_localMediaAbrPublish is_uuid (env_payload data) = Some ap"
    and parent: "abr_parent now ctx ap m = (m, Some parent)"
  shows "\<exists>m' best rest. handle_local_media_abr_publish is_uuid cfg freshId now ctx data (m, w) =
      Some (m', fst (mutate_room_message cfg freshId now (mc_roomId ctx) (mc_userId ctx)
        (abr_body (le_id parent) (mc_userId ctx) (ap_durationSec ap) best
          (best # rest @ [auto_stream (le_id parent)])) HSnapshot w))
    \<and> (\<exists>rk'. media_ok rk' m')
    \<and> map_of (md_entries m') (le_id parent) = Some (parent\<lparr>le_abr := Some (abr_ladder ap)\<rparr>)
    \<and> (\<forall>v\<in>set (ap_variants ap). pv_localMediaId v \<noteq> le_id parent \<longrightarrow>
         (\<exists>e. map_of (md_entries m') (pv_localMediaId v) = Some e \<and> child_entry ctx (le_id parent) now (pv_localMediaId v) e))
    \<and> length (best # rest) = length (ap_variants ap) \<and> ms_isDefault best = Some True
    \<and> (\<forall>s\<in>set rest. ms_isDefault s = Some False)
    \<and> (\<forall>v\<in>set (ap_variants ap). \<exists>h. ms_height best = Some h \<and> real (pv_height v) \<le> h)"
proof -
  let ?vs = "sort_key (\<lambda>v. - int (pv_height v)) (ap_variants ap)"
  from abr_parentD(7) [OF parent] have "ap_variants ap \<noteq> []" by auto
  then obtain v0 vs0 where vs: "?vs = v0 # vs0" by (metis list.exhaust set_empty2 set_sort)
  have high: "pv_height v \<le> pv_height v0" if "v \<in> set (ap_variants ap)" for v
  proof -
    have "sorted (map (\<lambda>v. - int (pv_height v)) (v0 # vs0))" unfolding vs [symmetric] by (rule sorted_sort_key)
    moreover have "v \<in> set (v0 # vs0)" using that unfolding vs [symmetric] by simp
    ultimately show ?thesis by auto
  qed
  have ps: "progressive_streams (ap_variants ap)
      = rung_stream 0 v0 # map (\<lambda>(i, v). rung_stream i v) (zip [1..<length ?vs] vs0)"
    by (simp add: progressive_streams_def Let_def vs upt_conv_Cons del: upt_Suc)
  have len: "length (progressive_streams (ap_variants ap)) = length (ap_variants ap)"
    by (simp add: progressive_streams_def Let_def)
  from publish_store [OF assms, of cfg freshId w] obtain m' where m': "handle_local_media_abr_publish is_uuid cfg freshId now ctx data (m, w) =
      Some (m', fst (mutate_room_message cfg freshId now (mc_roomId ctx) (mc_userId ctx)
        (abr_body (le_id parent) (mc_userId ctx) (ap_durationSec ap) (hd (progressive_streams (ap_variants ap)))
          (progressive_streams (ap_variants ap) @ [auto_stream (le_id parent)])) HSnapshot w))"
    "\<exists>rk'. media_ok rk' m'"
    "map_of (md_entries m') (le_id parent) = Some (parent\<lparr>le_abr := Some (abr_ladder ap)\<rparr>)"
    "\<forall>i\<in>pv_localMediaId ` set (ap_variants ap). i \<noteq> le_id parent \<longrightarrow>
       (\<exists>e. map_of (md_entries m') i = Some e \<and> child_entry ctx (le_id parent) now i e)" by blast
  have rest: "ms_isDefault s = Some False" if "s \<in> set (map (\<lambda>(i, v). rung_stream i v) (zip [1..<length ?vs] vs0))" for s
    using that by (auto simp: rung_stream_def dest!: set_zip_leftD)
  show ?thesis
    by (rule exI [of _ m'], rule exI [of _ "rung_stream 0 v0"], rule exI [of _ "tl (progressive_streams (ap_variants ap))"])
       (use m' high rest len in \<open>simp add: ps rung_stream_def\<close>)
qed

definition sample_ctx :: message_context where
  "sample_ctx = \<lparr>mc_ws = 1, mc_roomId = ''r'', mc_userId = ''ann'', mc_connectionId = ''c1'',
     mc_controlAuthorized = False, mc_isControlSession = False, mc_sessionKind = SRoom\<rparr>"

definition sample_rung :: "string \<Rightarrow> jsnum \<Rightarrow> json" where
  "sample_rung i h = JObj [(''localMediaId'', JStr i), (''height'', JNum h), (''bandwidth'', JNum 1000),
     (''label'', JStr ''p''), (''mimeType'', JStr ''video/mp4''), (''sizeBytes'', JNum 10), (''name'', JStr ''f'')]"

definition sample_publish :: "string \<Rightarrow> string \<Rightarrow> envelope" where
  "sample_publish parent child = \<lparr>env_type = ''local-media:abr:publish'', env_requestId = None,
     env_payload = JObj [(''parentLocalMediaId'', JStr parent), (''durationSec'', JNum 60),
       (''variants'', JArr [sample_rung parent 720, sample_rung child 360])]\<rparr>"

definition sample_abr :: "string \<Rightarrow> string \<Rightarrow> abr_publish" where
  "sample_abr parent child = \<lparr>ap_parentLocalMediaId = parent, ap_durationSec = 60, ap_variants =
     [\<lparr>pv_localMediaId = parent, pv_height = 720, pv_bandwidth = 1000, pv_label = ''p'', pv_mimeType = ''video/mp4'',
        pv_sizeBytes = 10, pv_name = ''f''\<rparr>,
      \<lparr>pv_localMediaId = child, pv_height = 360, pv_bandwidth = 1000, pv_label = ''p'', pv_mimeType = ''video/mp4'',
        pv_sizeBytes = 10, pv_name = ''f''\<rparr>]\<rparr>"

lemma sample_publish_parse:
  "parse_localMediaAbrPublish (\<lambda>_. True) (env_payload (sample_publish parent child)) = Some (sample_abr parent child)"
proof -
  have t: "p_mediaTitle (JStr ''f'') = Some ''f''" "p_shortLabel (JStr ''p'') = Some ''p''" by code_simp+
  have n: "is_int (h :: jsnum) \<Longrightarrow> 0 \<le> h \<Longrightarrow> p_nat_range lo hi (JNum h)
      = (if lo \<le> nat \<lfloor>h\<rfloor> \<and> nat \<lfloor>h\<rfloor> \<le> hi then Some (nat \<lfloor>h\<rfloor>) else None)" for h lo hi
    by (simp add: p_nat_range_def p_index_def)
  have r: "p_publish_variant (\<lambda>_. True) (sample_rung i h) = Some \<lparr>pv_localMediaId = i, pv_height = nat \<lfloor>h\<rfloor>, pv_bandwidth = 1000,
      pv_label = ''p'', pv_mimeType = ''video/mp4'', pv_sizeBytes = 10, pv_name = ''f''\<rparr>" if "h = 720 \<or> h = 360" for i h
    using that by (auto simp: p_publish_variant_def sample_rung_def p_field_def p_localMediaId_def p_sizeBytes_def t n)
  show ?thesis
    by (simp add: parse_localMediaAbrPublish_def sample_publish_def sample_abr_def p_field_def p_localMediaId_def
        p_duration_def day_seconds_def r)
qed

lemma sample_parent:
  assumes "i = ''a'' \<or> i = ''b''" "le_ownerUserId (sample_entry i u abr) = ''ann''"
    and "map_of (md_entries m) i = Some (sample_entry i ''ann'' abr)" "md_up m"
  shows "abr_parent 0 sample_ctx (sample_abr i child) m = (m, Some (normalize_entry (sample_entry i ''ann'' abr)))"
  using assms
  by (auto simp: abr_parent_def get_local_media_entry_def sample_abr_def sample_ctx_def sample_entry_def
      normalize_entry_def Let_def)

theorem abr_publish_correct_witness:
  "\<exists>m' w'. handle_local_media_abr_publish (\<lambda>_. True) sample_limits ''x'' 0 sample_ctx (sample_publish ''a'' ''c'')
      (sample_media [''a'', ''b''], sample_world) = Some (m', w')
    \<and> (\<exists>e. map_of (md_entries m') ''c'' = Some e \<and> le_ownerUserId e = ''ann'')"
proof -
  let ?m = "sample_media [''a'', ''b'']"
  have parent: "\<exists>abr. abr_parent 0 sample_ctx (sample_abr ''a'' ''c'') ?m = (?m, Some (normalize_entry (sample_entry ''a'' ''ann'' abr)))"
    by (rule exI, rule sample_parent) (auto simp: sample_media_def sample_entry_def)
  then obtain abr where p: "abr_parent 0 sample_ctx (sample_abr ''a'' ''c'') ?m = (?m, Some (normalize_entry (sample_entry ''a'' ''ann'' abr)))"
    by blast
  from abr_publish_correct [OF sample_media_ok sample_publish_parse p, of sample_limits "''x''" sample_world]
  show ?thesis by (auto simp: sample_abr_def child_entry_def sample_ctx_def sample_entry_def)
qed

text \<open>C11.
  The children of a ladder are named by the publisher and nobody checks that they are new: a
  member who lists the id of another user's shared file becomes the owner of that file's entry,
  in the publisher's room, and the real provider can no longer mark it ready.
\<close>

theorem abr_publish_takes_over:
  assumes ok: "media_ok rk m" and parsed: "parse_localMediaAbrPublish is_uuid (env_payload data) = Some ap"
    and parent: "abr_parent now ctx ap m = (m, Some parent)"
    and listed: "v \<in> set (ap_variants ap)" "pv_localMediaId v \<noteq> le_id parent"
    and victim: "map_of (md_entries m) (pv_localMediaId v) = Some e" "le_ownerUserId e \<noteq> mc_userId ctx" "le_ownerUserId e \<noteq> []"
  shows "\<exists>m' w' e'. handle_local_media_abr_publish is_uuid cfg freshId now ctx data (m, w) = Some (m', w')
    \<and> map_of (md_entries m') (pv_localMediaId v) = Some e' \<and> le_ownerUserId e' = mc_userId ctx
    \<and> le_roomId e' = mc_roomId ctx
    \<and> (\<forall>t<le_expiresAt e'. \<forall>ready.
         set_local_media_provider_ready t (pv_localMediaId v) ready (Some (le_ownerUserId e)) m' = m')"
proof -
  from publish_store [OF ok parsed parent, of cfg freshId w] listed obtain m' w' e' where
    m': "handle_local_media_abr_publish is_uuid cfg freshId now ctx data (m, w) = Some (m', w')" "md_up m'"
      "map_of (md_entries m') (pv_localMediaId v) = Some e'" "child_entry ctx (le_id parent) now (pv_localMediaId v) e'"
    by blast
  have "set_local_media_provider_ready t (pv_localMediaId v) r (Some (le_ownerUserId e)) m' = m'"
    if "t < le_expiresAt e'" for t r
    using get_entry_at [OF m'(2,3) that] m'(4) victim(2,3)
    by (auto simp: set_local_media_provider_ready_def child_entry_def)
  with m' show ?thesis by (auto simp: child_entry_def)
qed

theorem abr_publish_takes_over_witness:
  "\<exists>m' w' e'. handle_local_media_abr_publish (\<lambda>_. True) sample_limits ''x'' 0 sample_ctx (sample_publish ''a'' ''b'')
      (sample_media [''a''], sample_world) = Some (m', w')
    \<and> map_of (md_entries m') ''b'' = Some e' \<and> le_ownerUserId e' = ''ann''
    \<and> map_of (md_entries (sample_media [''a''])) ''b'' = Some (sample_entry ''b'' ''bob'' None)"
proof -
  let ?m = "sample_media [''a'']"
  have ok: "media_ok (\<lambda>i. if i = ''a'' then 1 else 0) ?m"
    by (simp add: media_ok_def sample_media_def sample_entry_def ladder_children_def normalize_entry_def)
  have "\<exists>abr. abr_parent 0 sample_ctx (sample_abr ''a'' ''b'') ?m = (?m, Some (normalize_entry (sample_entry ''a'' ''ann'' abr)))"
    by (rule exI, rule sample_parent) (auto simp: sample_media_def sample_entry_def)
  then obtain abr where p: "abr_parent 0 sample_ctx (sample_abr ''a'' ''b'') ?m = (?m, Some (normalize_entry (sample_entry ''a'' ''ann'' abr)))"
    by blast
  let ?v = "ap_variants (sample_abr ''a'' ''b'') ! 1"
  have v: "?v \<in> set (ap_variants (sample_abr ''a'' ''b''))" "pv_localMediaId ?v = ''b''"
    "pv_localMediaId ?v \<noteq> le_id (normalize_entry (sample_entry ''a'' ''ann'' abr))"
    by (simp_all add: sample_abr_def sample_entry_def)
  have b: "map_of (md_entries ?m) (pv_localMediaId ?v) = Some (sample_entry ''b'' ''bob'' None)"
    "le_ownerUserId (sample_entry ''b'' ''bob'' None) \<noteq> mc_userId sample_ctx" "le_ownerUserId (sample_entry ''b'' ''bob'' None) \<noteq> []"
    unfolding v(2) by (simp_all add: sample_media_def sample_entry_def sample_ctx_def)
  from abr_publish_takes_over [OF ok sample_publish_parse p v(1,3) b, of sample_limits "''x''" sample_world] b(1)
  show ?thesis unfolding v(2) by (auto simp: sample_ctx_def)
qed

text \<open>Two publishes of one user that overlap (two sockets): each checks its parent before the other
  registers it as a child, and each then writes its ladder.  The two entries list each other, and
  deleting either never returns.
\<close>

theorem overlapping_publishes_cycle:
  assumes a: "abr_parent now ctx apA m = (m, Some pA)" and b: "abr_parent now ctx apB m = (m, Some pB)"
    and ids: "le_id pA = ap_parentLocalMediaId apA" "le_id pB = ap_parentLocalMediaId apB" "le_id pA \<noteq> le_id pB"
    and listed: "le_id pB \<in> pv_localMediaId ` set (ap_variants apA)" "le_id pA \<in> pv_localMediaId ` set (ap_variants apB)"
    and user: "mc_userId ctx \<noteq> []"
  shows "\<exists>m1 m2 m3 m4. register_children now ctx (le_id pA) (ap_variants apA) m = Some m1
    \<and> register_children now ctx (le_id pB) (ap_variants apB) m1 = Some m2
    \<and> set_local_media_abr now (le_id pA) (Some (abr_ladder apA)) (Some (mc_userId ctx)) m2 = (m3, True)
    \<and> set_local_media_abr now (le_id pB) (Some (abr_ladder apB)) (Some (mc_userId ctx)) m3 = (m4, True)
    \<and> delete_local_media_entry (le_id pA) m4 = None \<and> delete_local_media_entry (le_id pB) m4 = None"
proof -
  let ?A = "le_id pA" and ?B = "le_id pB"
  have up: "md_up m" by (rule abr_parentD(1) [OF a])
  obtain m1 where m1: "register_children now ctx ?A (ap_variants apA) m = Some m1" "md_up m1"
    "\<forall>i. if i \<noteq> ?A \<and> i \<in> pv_localMediaId ` set (ap_variants apA)
       then \<exists>e. map_of (md_entries m1) i = Some e \<and> child_entry ctx ?A now i e
       else map_of (md_entries m1) i = map_of (md_entries m) i"
    using register_spec [OF up] by blast
  obtain m2 where m2: "register_children now ctx ?B (ap_variants apB) m1 = Some m2" "md_up m2"
    "\<forall>i. if i \<noteq> ?B \<and> i \<in> pv_localMediaId ` set (ap_variants apB)
       then \<exists>e. map_of (md_entries m2) i = Some e \<and> child_entry ctx ?B now i e
       else map_of (md_entries m2) i = map_of (md_entries m1) i"
    using register_spec [OF m1(2)] by blast
  obtain eA where eA: "map_of (md_entries m2) ?A = Some eA" "child_entry ctx ?B now ?A eA"
    using m2(3) [rule_format, of ?A] listed(2) ids(3) by auto
  obtain eB where eB: "map_of (md_entries m2) ?B = Some eB" "child_entry ctx ?A now ?B eB"
    using m2(3) [rule_format, of ?B] m1(3) [rule_format, of ?B] listed(1) ids(3) by auto
  have live: "now < now + local_media_ttl_ms" by (simp add: local_media_ttl_ms_def)
  define m3 where "m3 = persist_entry ((normalize_entry eA)\<lparr>le_abr := Some (abr_ladder apA)\<rparr>) m2"
  have s3: "set_local_media_abr now ?A (Some (abr_ladder apA)) (Some (mc_userId ctx)) m2 = (m3, True)"
    unfolding m3_def by (rule set_abr_at [OF m2(2) eA(1)]) (use eA(2) live in \<open>simp_all add: child_entry_def\<close>)
  have e3: "md_up m3" "map_of (md_entries m3) ?B = Some eB"
    "map_of (md_entries m3) ?A = Some ((normalize_entry eA)\<lparr>le_abr := Some (abr_ladder apA)\<rparr>)"
    using m2(2) eB(1) eA(2) ids(3) by (simp_all add: m3_def persist_entry_def child_entry_def)
  define m4 where "m4 = persist_entry ((normalize_entry eB)\<lparr>le_abr := Some (abr_ladder apB)\<rparr>) m3"
  have s4: "set_local_media_abr now ?B (Some (abr_ladder apB)) (Some (mc_userId ctx)) m3 = (m4, True)"
    unfolding m4_def by (rule set_abr_at [OF e3(1,2)]) (use eB(2) live in \<open>simp_all add: child_entry_def\<close>)
  have up4: "md_up m4" using e3(1) by (simp add: m4_def persist_entry_def)
  have kids: "d \<in> set (ladder_children (e\<lparr>le_abr := Some (abr_ladder ap)\<rparr>) c)"
    if "d \<in> pv_localMediaId ` set (ap_variants ap)" "d \<noteq> c" for e ap c d
    using that by (auto simp: ladder_children_def normalize_entry_def abr_ladder_def image_image)
  have "lists_child m4 ?A ?B" "lists_child m4 ?B ?A"
    using e3 eB(2) kids [OF listed(1)] kids [OF listed(2)] ids(3)
    by (auto simp: lists_child_def m4_def persist_entry_def child_entry_def)
  with up4 cyclic_delete_diverges m1(1) m2(1) s3 s4 show ?thesis by blast
qed

theorem overlapping_publishes_cycle_witness:
  "\<exists>m4. delete_local_media_entry ''a'' m4 = None"
proof -
  let ?m = "(sample_media [])\<lparr>md_entries := [(''a'', sample_entry ''a'' ''ann'' None), (''b'', sample_entry ''b'' ''ann'' None)]\<rparr>"
  have p: "abr_parent 0 sample_ctx (sample_abr i c) ?m = (?m, Some (normalize_entry (sample_entry i ''ann'' None)))"
    if "i = ''a'' \<or> i = ''b''" for i c
    by (rule sample_parent [OF that]) (use that in \<open>auto simp: sample_entry_def sample_media_def\<close>)
  show ?thesis
    using overlapping_publishes_cycle [OF p [of "''a''" "''b''"] p [of "''b''" "''a''"]]
    by (auto simp: sample_abr_def sample_entry_def sample_ctx_def)
qed

end
