(* ===== verification/Resolve.thy ===== *)
theory Resolve
  imports Lifecycle
begin

text \<open>
  Resolving the media behind a playlist item, after the command that added or retried it
  (\<open>src/src/server/realtime/services/playlist-resolve.ts\<close>), and the leases that let another
  instance take a resolution over (\<open>src/src/server/media/yt-dlp/resolve-lease.ts\<close>).  What the
  resolver finds is an argument, and so is what other handlers do to the world while a resolution
  waits.
\<close>

section \<open>The resolver's answer\<close>

record resolved_media =
  rm_playableUrl :: string
  rm_sourceUrl :: string
  rm_title :: string
  rm_durationSeconds :: "jsnum option"
  rm_playbackMode :: playback_mode
  rm_mediaStreams :: "media_stream list"
  rm_defaultStreamId :: "string option"
  rm_textTracks :: "text_track list"
  rm_defaultTextTrackId :: "string option"
  rm_failed :: bool
  rm_resolveUserMessage :: "string option"
  rm_isLive :: "bool option"

definition or_string :: "string option \<Rightarrow> string \<Rightarrow> string" where
  "or_string s alt = (if truthy s then the s else alt)"

definition resolve_display_name :: "playlist_item \<Rightarrow> resolved_media \<Rightarrow> string option \<Rightarrow> string" where
  "resolve_display_name item resolved preferredTitle =
     (let preferred = map_option trim preferredTitle;
          safeTitle = (if rm_title resolved \<noteq> [] then sanitize_media_title (rm_title resolved) else None)
      in if truthy preferred \<and> trim (pi_name item) = the preferred
         then or_string safeTitle (or_string (sanitize_media_title (the preferred)) (the preferred))
         else if trim (pi_name item) = trim (pi_sourceUrl item)
         then or_string safeTitle (or_string (sanitize_media_title (pi_sourceUrl item)) (pi_sourceUrl item))
         else pi_name item)"

definition apply_resolved_media_to_item ::
  "resolved_media \<Rightarrow> string option \<Rightarrow> playlist_item \<Rightarrow> playlist_item" where
  "apply_resolved_media_to_item resolved preferredTitle item =
     (let item1 = item\<lparr>pi_playableUrl := rm_playableUrl resolved,
            pi_playbackMode := rm_playbackMode resolved,
            pi_mediaStreams := Some (rm_mediaStreams resolved),
            pi_defaultStreamId := rm_defaultStreamId resolved,
            pi_textTracks := Some (rm_textTracks resolved),
            pi_defaultTextTrackId := rm_defaultTextTrackId resolved,
            pi_durationSeconds := rm_durationSeconds resolved,
            pi_isLive := rm_isLive resolved,
            pi_ingestStatus := Some IngestReady,
            pi_ingestError := None\<rparr>
      in item1\<lparr>pi_name := resolve_display_name item1 resolved preferredTitle\<rparr>)"

definition fail_item :: "string \<Rightarrow> playlist_item \<Rightarrow> playlist_item" where
  "fail_item msg item = item\<lparr>pi_ingestStatus := Some IngestError, pi_ingestError := Some msg\<rparr>"

section \<open>Committing the result\<close>

definition resolve_key :: "string \<Rightarrow> string \<Rightarrow> string" where
  "resolve_key roomId itemId = roomId @ '':'' @ itemId"

definition touch_room_structural :: "jsnum \<Rightarrow> server_room \<Rightarrow> server_room" where
  "touch_room_structural now st = bump_room_revisions (st\<lparr>st_updatedAt := now\<rparr>)"

definition publish_room_snapshot :: "string \<Rightarrow> world \<Rightarrow> world" where
  "publish_room_snapshot roomId w = emit (ESnapshotDirty roomId) w"

text \<open>The mutation of one attempt.  With \<open>retryUntilPresent\<close> an item that is not waiting leaves the room as it is.\<close>

definition settle_item ::
  "jsnum \<Rightarrow> (playlist_item \<Rightarrow> playlist_item) \<Rightarrow> bool \<Rightarrow> string \<Rightarrow> server_room option \<Rightarrow> server_room option" where
  "settle_item now mutateItem retryUntilPresent itemId cur =
     (case cur of None \<Rightarrow> None
      | Some st \<Rightarrow>
          (case find_item itemId st of
             None \<Rightarrow> if retryUntilPresent then Some st else None
           | Some k \<Rightarrow>
               if pi_ingestStatus (st_playlist st ! k) \<noteq> Some IngestResolving
               then (if retryUntilPresent then Some st else None)
               else Some (touch_room_structural now (update_item k mutateItem st))))"

definition commit_wait_ms :: "nat \<Rightarrow> nat" where
  "commit_wait_ms attempt = min (25 * 2 ^ min attempt 4) 200"

text \<open>
  The outside of one resolution: when it starts, the clock of each attempt, when it ends; what
  others do to the world while the cache is invalidated, while the resolver runs, and in the pause
  after each attempt; the resolver's answer (\<open>None\<close> when it throws); the lease owner's id; the time
  limit the leases derive from.
\<close>

record resolve_env =
  re_started :: jsnum
  re_now :: "nat \<Rightarrow> jsnum"
  re_ended :: jsnum
  re_invalidating :: "world \<Rightarrow> world"
  re_during :: "world \<Rightarrow> world"
  re_between :: "nat \<Rightarrow> world \<Rightarrow> world"
  re_outcome :: "resolved_media option"
  re_owner :: string
  re_timeoutMs :: nat

fun commit_attempts ::
  "nat \<Rightarrow> nat \<Rightarrow> resolve_env \<Rightarrow> string \<Rightarrow> string \<Rightarrow> (playlist_item \<Rightarrow> playlist_item) \<Rightarrow> bool
     \<Rightarrow> world \<Rightarrow> world \<times> bool \<times> nat" where
  "commit_attempts 0 attempt env roomId itemId mutateItem retry w = (w, False, 0)"
| "commit_attempts (Suc n) attempt env roomId itemId mutateItem retry w =
     (case update_room roomId (settle_item (re_now env attempt) mutateItem retry itemId) w of
        (w1, Some _) \<Rightarrow> (publish_room_snapshot roomId w1, True, 0)
      | (w1, None) \<Rightarrow>
          if \<not> retry then (w1, False, 0)
          else (case commit_attempts n (attempt + 1) env roomId itemId mutateItem retry
                       (re_between env attempt w1) of
                  (w2, ok, slept) \<Rightarrow> (w2, ok, commit_wait_ms attempt + slept)))"

definition commit_resolving_item ::
  "resolve_env \<Rightarrow> string \<Rightarrow> string \<Rightarrow> (playlist_item \<Rightarrow> playlist_item) \<Rightarrow> bool \<Rightarrow> world \<Rightarrow> world \<times> bool \<times> nat" where
  "commit_resolving_item env roomId itemId mutateItem retryUntilPresent =
     commit_attempts (if retryUntilPresent then 24 else 1) 0 env roomId itemId mutateItem retryUntilPresent"

section \<open>Leases\<close>

text \<open>
  The Redis keys of the leases: the pending set with its own time to live, the pending markers, the
  lease keys with their owner, and the claims.  Each carries the time it expires at.
\<close>

record leases =
  ls_up :: bool
  ls_pendingResolves :: "string list"
  ls_pendingUntil :: jsnum
  ls_pending :: "(string \<times> jsnum) list"
  ls_lease :: "(string \<times> string \<times> jsnum) list"
  ls_claims :: "(string \<times> jsnum) list"

definition media_yt_dlp_resolve_lease :: "string \<Rightarrow> string \<Rightarrow> string" where
  "media_yt_dlp_resolve_lease roomId itemId = ''media:ytdlp:resolve-lease:'' @ roomId @ '':'' @ itemId"

definition media_yt_dlp_pending :: "string \<Rightarrow> string \<Rightarrow> string" where
  "media_yt_dlp_pending roomId itemId = ''media:ytdlp:pending:'' @ roomId @ '':'' @ itemId"

definition media_yt_dlp_resolve_claim :: "string \<Rightarrow> string \<Rightarrow> string" where
  "media_yt_dlp_resolve_claim roomId itemId = ''media:ytdlp:resolve-claim:'' @ roomId @ '':'' @ itemId"

definition derived_resolve_lease_ttl_seconds :: "nat \<Rightarrow> int" where
  "derived_resolve_lease_ttl_seconds timeoutMs = derived_lock_heartbeat_ttl_seconds timeoutMs"

definition lease_ttl_ms :: "nat \<Rightarrow> jsnum" where
  "lease_ttl_ms timeoutMs = of_int (derived_resolve_lease_ttl_seconds timeoutMs) * 1000"

definition pending_set_ttl_seconds :: "int \<Rightarrow> int" where
  "pending_set_ttl_seconds leaseTtlSeconds = leaseTtlSeconds * 2"

definition encode_pending_member :: "string \<Rightarrow> string \<Rightarrow> string" where
  "encode_pending_member roomId itemId = roomId @ CHR 0x09 # itemId"

definition parse_pending_member :: "string \<Rightarrow> (string \<times> string) option" where
  "parse_pending_member member =
     (case find_index (\<lambda>c. c = CHR 0x09) member of
        None \<Rightarrow> None
      | Some idx \<Rightarrow>
          if idx = 0 \<or> idx = length member - 1 then None
          else Some (take idx member, drop (idx + 1) member))"

text \<open>The set as a command at \<open>now\<close> sees it.\<close>

definition lease_pending_members :: "jsnum \<Rightarrow> leases \<Rightarrow> string list" where
  "lease_pending_members now ls = (if now < ls_pendingUntil ls then ls_pendingResolves ls else [])"

definition refresh_pending_set_ttl :: "nat \<Rightarrow> jsnum \<Rightarrow> leases \<Rightarrow> leases" where
  "refresh_pending_set_ttl timeoutMs now ls =
     (if lease_pending_members now ls = [] then ls\<lparr>ls_pendingResolves := []\<rparr>
      else ls\<lparr>ls_pendingUntil :=
        now + of_int (pending_set_ttl_seconds (derived_resolve_lease_ttl_seconds timeoutMs)) * 1000\<rparr>)"

text \<open>\<open>SADD\<close> on a set that expired starts a new one without a time to live until the refresh sets it.\<close>

definition begin_resolve_lease :: "nat \<Rightarrow> jsnum \<Rightarrow> string \<Rightarrow> string \<Rightarrow> string \<Rightarrow> leases \<Rightarrow> leases \<times> bool" where
  "begin_resolve_lease timeoutMs now owner roomId itemId ls =
     (if \<not> ls_up ls then (ls, False)
      else
        let ttl = of_int (derived_resolve_lease_ttl_seconds timeoutMs) * 1000;
            setTtl = of_int (pending_set_ttl_seconds (derived_resolve_lease_ttl_seconds timeoutMs)) * 1000
        in (ls\<lparr>ls_pendingResolves := List.insert (encode_pending_member roomId itemId) (lease_pending_members now ls),
               ls_pendingUntil := now + setTtl,
               ls_pending := AList.update (media_yt_dlp_pending roomId itemId) (now + ttl) (ls_pending ls),
               ls_lease := AList.update (media_yt_dlp_resolve_lease roomId itemId) (owner, now + ttl)
                             (ls_lease ls)\<rparr>, True))"

definition held_lease :: "jsnum \<Rightarrow> string \<Rightarrow> leases \<Rightarrow> string option" where
  "held_lease now key ls =
     (case map_of (ls_lease ls) key of
        Some (owner, until) \<Rightarrow> if now < until then Some owner else None
      | None \<Rightarrow> None)"

text \<open>One renewal by the timer of the holder: the script compares the owner before it extends.\<close>

definition renew_resolve_lease :: "nat \<Rightarrow> jsnum \<Rightarrow> string \<Rightarrow> string \<Rightarrow> string \<Rightarrow> leases \<Rightarrow> leases" where
  "renew_resolve_lease timeoutMs now owner roomId itemId ls =
     (let key = media_yt_dlp_resolve_lease roomId itemId; pkey = media_yt_dlp_pending roomId itemId;
          ttl = lease_ttl_ms timeoutMs
      in if \<not> ls_up ls \<or> held_lease now key ls \<noteq> Some owner then ls
         else ls\<lparr>ls_lease := AList.update key (owner, now + ttl) (ls_lease ls),
                ls_pending := adjust pkey (\<lambda>until. if now < until then now + ttl else until) (ls_pending ls)\<rparr>)"

definition end_resolve_lease :: "nat \<Rightarrow> jsnum \<Rightarrow> string \<Rightarrow> string \<Rightarrow> leases \<Rightarrow> leases" where
  "end_resolve_lease timeoutMs now roomId itemId ls =
     (if \<not> ls_up ls then ls
      else refresh_pending_set_ttl timeoutMs now
             (ls\<lparr>ls_lease := AList.delete (media_yt_dlp_resolve_lease roomId itemId) (ls_lease ls),
                ls_pending := AList.delete (media_yt_dlp_pending roomId itemId) (ls_pending ls),
                ls_pendingResolves :=
                  removeAll (encode_pending_member roomId itemId) (lease_pending_members now ls)\<rparr>))"

text \<open>One member of the scan: dropped when it does not parse, skipped when held or claimed.\<close>

definition scan_pending_member ::
  "jsnum \<Rightarrow> string \<Rightarrow> leases \<times> (string \<times> string) list \<Rightarrow> leases \<times> (string \<times> string) list" where
  "scan_pending_member now member acc =
     (case acc of (ls, found) \<Rightarrow>
       (case parse_pending_member member of
          None \<Rightarrow> (ls\<lparr>ls_pendingResolves := removeAll member (ls_pendingResolves ls)\<rparr>, found)
        | Some (r, i) \<Rightarrow>
            if truthy (held_lease now (media_yt_dlp_resolve_lease r i) ls) then acc
            else (let ckey = media_yt_dlp_resolve_claim r i in
                  case map_of (ls_claims ls) ckey of
                    Some until \<Rightarrow>
                      if now < until then acc
                      else (ls\<lparr>ls_claims := AList.update ckey (now + 30000) (ls_claims ls)\<rparr>, found @ [(r, i)])
                  | None \<Rightarrow> (ls\<lparr>ls_claims := AList.update ckey (now + 30000) (ls_claims ls)\<rparr>, found @ [(r, i)]))))"

definition list_abandoned_resolves :: "nat \<Rightarrow> jsnum \<Rightarrow> leases \<Rightarrow> leases \<times> (string \<times> string) list" where
  "list_abandoned_resolves timeoutMs now ls =
     (if \<not> ls_up ls then (ls, [])
      else
        let members = lease_pending_members now ls;
            r = fold (scan_pending_member now) members (ls, [])
        in (if members \<noteq> [] then refresh_pending_set_ttl timeoutMs now (fst r) else fst r, snd r))"

section \<open>One resolution\<close>

text \<open>The state of a process: the resolutions in flight, and the leases it shares.\<close>

record resolver =
  rv_inflight :: "string list"
  rv_leases :: leases

definition settled_by :: "resolve_env \<Rightarrow> string option \<Rightarrow> string \<Rightarrow> playlist_item \<Rightarrow> playlist_item" where
  "settled_by env title failureMessage =
     (case re_outcome env of
        None \<Rightarrow> fail_item failureMessage
      | Some resolved \<Rightarrow>
          if rm_failed resolved
          then fail_item (case rm_resolveUserMessage resolved of Some m \<Rightarrow> m | None \<Rightarrow> failureMessage)
          else apply_resolved_media_to_item resolved title)"

text \<open>
  What happens to the leases and the resolutions in flight while this one runs (the renewals of its
  timer, other resolutions) is the argument \<open>others\<close>.
\<close>

definition resolve_playlist_item ::
  "resolve_env \<Rightarrow> (resolver \<Rightarrow> resolver) \<Rightarrow> string \<Rightarrow> string \<Rightarrow> string option \<Rightarrow> bool \<Rightarrow> string
     \<Rightarrow> resolver \<times> world \<Rightarrow> resolver \<times> world" where
  "resolve_playlist_item env others roomId itemId title retryUntilPresent failureMessage s =
     (let key = resolve_key roomId itemId in
      if key \<in> set (rv_inflight (fst s)) then s
      else
        let rv1 = (fst s)\<lparr>rv_inflight := key # rv_inflight (fst s)\<rparr>;
            lease = begin_resolve_lease (re_timeoutMs env) (re_started env) (re_owner env) roomId itemId
                      (rv_leases rv1);
            rv2 = others (rv1\<lparr>rv_leases := fst lease\<rparr>);
            w1 = fst (commit_resolving_item env roomId itemId (settled_by env title failureMessage)
                        retryUntilPresent (re_during env (snd s)));
            rv3 = (if snd lease
                   then rv2\<lparr>rv_leases := end_resolve_lease (re_timeoutMs env) (re_ended env) roomId itemId
                              (rv_leases rv2)\<rparr>
                   else rv2)
        in (rv3\<lparr>rv_inflight := removeAll key (rv_inflight rv3)\<rparr>, w1))"

section \<open>Resolving again\<close>

text \<open>The item a retry concerns, when it may be retried.\<close>

definition retry_target :: "string \<Rightarrow> server_room option \<Rightarrow> (nat \<times> playlist_item) option" where
  "retry_target itemId cur =
     (case cur of None \<Rightarrow> None
      | Some st \<Rightarrow>
          (case find_item itemId st of
             None \<Rightarrow> None
           | Some k \<Rightarrow>
               let item = st_playlist st ! k in
               if pi_sourceKind item \<noteq> RemoteUrl then None
               else if pi_blockedReason item = Some LocalOwnerOffline then None
               else Some (k, item)))"

definition mark_resolving :: "jsnum \<Rightarrow> string \<Rightarrow> server_room option \<Rightarrow> server_room option" where
  "mark_resolving now itemId cur =
     (case retry_target itemId cur of
        None \<Rightarrow> None
      | Some (k, item) \<Rightarrow>
          if pi_ingestStatus item = Some IngestResolving then None
          else map_option (\<lambda>st. touch_room_structural now
                 (update_item k (\<lambda>it. it\<lparr>pi_ingestStatus := Some IngestResolving, pi_ingestError := None\<rparr>) st)) cur)"

definition reresolve_remote_playlist_item ::
  "resolve_env \<Rightarrow> (resolver \<Rightarrow> resolver) \<Rightarrow> string \<Rightarrow> string \<Rightarrow> resolver \<times> world \<Rightarrow> (resolver \<times> world) \<times> bool" where
  "reresolve_remote_playlist_item env others roomId itemId s =
     (case s of (rv, w) \<Rightarrow>
       (case retry_target itemId (get_room roomId w) of
          None \<Rightarrow> (s, False)
        | Some (k, item) \<Rightarrow>
            if pi_sourceUrl item = [] then ((rv, fst (update_room roomId (mark_resolving (re_started env) itemId) w)), False)
            else
              (case update_room roomId (mark_resolving (re_started env) itemId) w of
                 (w1, written) \<Rightarrow>
                   (let w2 = re_invalidating env w1;
                        w3 = (if written \<noteq> None then publish_room_snapshot roomId w2 else w2)
                    in (resolve_playlist_item env others roomId itemId (Some (pi_name item)) False
                          ''Failed to resolve metadata'' (rv, w3), True)))))"

text \<open>
  The reclaim tick: every abandoned job is resolved again, and one that is not worth resolving loses
  its entry in the pending set.  Each job has an environment of its own.
\<close>

definition reclaim_job ::
  "(string \<times> string \<Rightarrow> resolve_env) \<Rightarrow> (string \<times> string \<Rightarrow> resolver \<Rightarrow> resolver) \<Rightarrow> string \<times> string
     \<Rightarrow> (resolver \<times> world) \<times> nat \<Rightarrow> (resolver \<times> world) \<times> nat" where
  "reclaim_job envs others job acc =
     (case reresolve_remote_playlist_item (envs job) (others job) (fst job) (snd job) (fst acc) of
        (s, True) \<Rightarrow> (s, snd acc + 1)
      | ((rv, w), False) \<Rightarrow>
          ((rv\<lparr>rv_leases := end_resolve_lease (re_timeoutMs (envs job)) (re_ended (envs job)) (fst job) (snd job)
                 (rv_leases rv)\<rparr>, w), snd acc))"

definition reclaim_abandoned_resolves ::
  "nat \<Rightarrow> jsnum \<Rightarrow> (string \<times> string \<Rightarrow> resolve_env) \<Rightarrow> (string \<times> string \<Rightarrow> resolver \<Rightarrow> resolver)
     \<Rightarrow> resolver \<times> world \<Rightarrow> (resolver \<times> world) \<times> nat" where
  "reclaim_abandoned_resolves timeoutMs now envs others s =
     (case list_abandoned_resolves timeoutMs now (rv_leases (fst s)) of
        (ls, jobs) \<Rightarrow> fold (reclaim_job envs others) jobs (((fst s)\<lparr>rv_leases := ls\<rparr>, snd s), 0))"

section \<open>What a resolution leaves\<close>

text \<open>An item in the room that waits for its resolution.\<close>

definition waiting_at :: "string \<Rightarrow> server_room \<Rightarrow> nat option" where
  "waiting_at itemId st =
     (case find_item itemId st of
        Some k \<Rightarrow> if pi_ingestStatus (st_playlist st ! k) = Some IngestResolving then Some k else None
      | None \<Rightarrow> None)"

lemma settle_item_waiting:
  "settle_item now f retry i (Some st) =
     (case waiting_at i st of
        Some k \<Rightarrow> Some (touch_room_structural now (update_item k f st))
      | None \<Rightarrow> if retry then Some st else None)"
  by (auto simp: settle_item_def waiting_at_def split: option.split)

lemma settled_by_id [simp]: "pi_id (settled_by env t m it) = pi_id it"
  by (simp add: settled_by_def fail_item_def apply_resolved_media_to_item_def Let_def split: option.split)

lemma settled_by_status:
  "pi_ingestStatus (settled_by env t m it) \<in> {Some IngestReady, Some IngestError}"
  "pi_ingestStatus (settled_by env t m it) \<noteq> Some IngestResolving"
  by (simp_all add: settled_by_def fail_item_def apply_resolved_media_to_item_def Let_def split: option.split)

lemma touch_frame [simp]:
  "st_playlist (touch_room_structural now st) = st_playlist st"
  "st_currentIndex (touch_room_structural now st) = st_currentIndex st"
  "st_playback (touch_room_structural now st) = st_playback st"
  "st_participants (touch_room_structural now st) = st_participants st"
  "st_ownerId (touch_room_structural now st) = st_ownerId st"
  "st_roomSecurity (touch_room_structural now st) = st_roomSecurity st"
  "st_actionLog (touch_room_structural now st) = st_actionLog st"
  by (simp_all add: touch_room_structural_def bump_room_revisions_def)

text \<open>With the room present the first attempt decides.\<close>

lemma commit_first_attempt:
  assumes "get_room r w = Some st"
  shows "commit_resolving_item env r i f retry w =
    (case waiting_at i st of
       Some k \<Rightarrow> (publish_room_snapshot r (w\<lparr>w_rooms := AList.update r
                   (touch_room_structural (re_now env 0) (update_item k f st)) (w_rooms w)\<rparr>), True, 0)
     | None \<Rightarrow> if retry then (publish_room_snapshot r (w\<lparr>w_rooms := AList.update r st (w_rooms w)\<rparr>), True, 0)
               else (w, False, 0))"
proof -
  have "commit_resolving_item env r i f retry w =
      commit_attempts (Suc (if retry then 23 else 0)) 0 env r i f retry w"
    by (simp add: commit_resolving_item_def eval_nat_numeral)
  then show ?thesis
    using assms by (simp add: update_room_def settle_item_waiting split: option.split)
qed

lemma resolve_outcome:
  assumes "resolve_key r i \<notin> set (rv_inflight rv)"
  shows "snd (resolve_playlist_item env others r i t retry m (rv, w)) =
      fst (commit_resolving_item env r i (settled_by env t m) retry (re_during env w))"
    and "resolve_key r i \<notin> set (rv_inflight (fst (resolve_playlist_item env others r i t retry m (rv, w))))"
  using assms by (simp_all add: resolve_playlist_item_def Let_def)

lemma update_item_waiting:
  assumes "waiting_at i st = Some k" "\<And>it. pi_id (f it) = pi_id it"
    "\<And>it. pi_ingestStatus (f it) \<noteq> Some IngestResolving"
  shows "waiting_at i (update_item k f st) = None"
proof -
  have k: "find_item i st = Some k" using assms(1) by (simp add: waiting_at_def split: option.splits if_splits)
  then have "k < length (st_playlist st)" by (simp add: find_item_Some)
  then show ?thesis using k assms(3) by (simp add: waiting_at_def find_item_update [OF assms(2)])
qed

lemma waiting_at_touch [simp]: "waiting_at i (touch_room_structural now st) = waiting_at i st"
  by (simp add: waiting_at_def find_item_def split: option.split)

section \<open>What a retry may touch\<close>

text \<open>Only the state of one item changes; what decides whether an item may be retried stays.\<close>

definition touches_item :: "string \<Rightarrow> server_room \<Rightarrow> server_room \<Rightarrow> bool" where
  "touches_item i st st' =
     (st_currentIndex st' = st_currentIndex st \<and> map pi_id (st_playlist st') = map pi_id (st_playlist st)
      \<and> (\<forall>k<length (st_playlist st).
           pi_sourceKind (st_playlist st' ! k) = pi_sourceKind (st_playlist st ! k)
           \<and> pi_sourceUrl (st_playlist st' ! k) = pi_sourceUrl (st_playlist st ! k)
           \<and> pi_blockedReason (st_playlist st' ! k) = pi_blockedReason (st_playlist st ! k)
           \<and> (pi_id (st_playlist st ! k) \<noteq> i \<longrightarrow> st_playlist st' ! k = st_playlist st ! k)))"

lemma touches_refl: "touches_item i st st"
  by (simp add: touches_item_def)

lemma touches_length: "touches_item i st st' \<Longrightarrow> length (st_playlist st') = length (st_playlist st)"
  unfolding touches_item_def by (metis length_map)

lemma touches_trans: "touches_item i st st' \<Longrightarrow> touches_item i st' st'' \<Longrightarrow> touches_item i st st''"
proof -
  assume a: "touches_item i st st'" "touches_item i st' st''"
  have "pi_id (st_playlist st' ! k) = pi_id (st_playlist st ! k)" if "k < length (st_playlist st)" for k
    using a(1) that touches_length [OF a(1)] unfolding touches_item_def by (metis nth_map)
  with a touches_length [OF a(1)] show ?thesis by (simp add: touches_item_def)
qed

lemma touches_find: "touches_item i st st' \<Longrightarrow> find_item j st' = find_item j st"
  using find_index_map [of "\<lambda>s. s = j" pi_id "st_playlist st"] find_index_map [of "\<lambda>s. s = j" pi_id "st_playlist st'"]
  by (simp add: touches_item_def find_item_def comp_def)

lemma touches_wf: "touches_item i st st' \<Longrightarrow> playlist_wf st \<Longrightarrow> playlist_wf st'"
  using touches_length [of i st st']
  unfolding touches_item_def playlist_wf_def index_ok_def ids_ok_map by (metis length_0_conv)

lemma touches_update:
  assumes "find_item i st = Some k" "\<And>it. pi_id (f it) = pi_id it" "\<And>it. pi_sourceKind (f it) = pi_sourceKind it"
    "\<And>it. pi_sourceUrl (f it) = pi_sourceUrl it" "\<And>it. pi_blockedReason (f it) = pi_blockedReason it"
  shows "touches_item i st (touch_room_structural now (update_item k f st))"
proof -
  have k: "k < length (st_playlist st)" "pi_id (st_playlist st ! k) = i" using find_item_Some [OF assms(1)] by auto
  show ?thesis
    unfolding touches_item_def using map_id_update_item [OF k(1), of f] assms(2-) k
    by (auto simp: update_item_def nth_list_update)
qed

definition settled_at :: "string \<Rightarrow> server_room \<Rightarrow> bool" where
  "settled_at i st = (case find_item i st of
     Some k \<Rightarrow> pi_ingestStatus (st_playlist st ! k) \<in> {Some IngestReady, Some IngestError} | None \<Rightarrow> False)"

definition retryable :: "string \<Rightarrow> server_room \<Rightarrow> bool" where
  "retryable i st = (\<exists>k item. retry_target i (Some st) = Some (k, item) \<and> pi_sourceUrl item \<noteq> [])"

lemma retryable_iff:
  "retryable i st \<longleftrightarrow> (\<exists>k. find_item i st = Some k \<and> pi_sourceKind (st_playlist st ! k) = RemoteUrl
     \<and> pi_blockedReason (st_playlist st ! k) \<noteq> Some LocalOwnerOffline \<and> pi_sourceUrl (st_playlist st ! k) \<noteq> [])"
  by (auto simp: retryable_def retry_target_def Let_def split: option.split)

lemma touches_nth:
  assumes "touches_item i st st'" "find_item j st = Some k"
  shows "pi_sourceKind (st_playlist st' ! k) = pi_sourceKind (st_playlist st ! k)"
    "pi_sourceUrl (st_playlist st' ! k) = pi_sourceUrl (st_playlist st ! k)"
    "pi_blockedReason (st_playlist st' ! k) = pi_blockedReason (st_playlist st ! k)"
    "j \<noteq> i \<Longrightarrow> st_playlist st' ! k = st_playlist st ! k"
  using assms(1) find_item_Some [OF assms(2)] by (simp_all add: touches_item_def)

lemma touches_retryable: "touches_item i st st' \<Longrightarrow> retryable j st \<Longrightarrow> retryable j st'"
  unfolding retryable_iff using touches_find [of i st st' j] touches_nth [of i st st' j] by fastforce

lemma touches_settled: "touches_item i st st' \<Longrightarrow> j \<noteq> i \<Longrightarrow> settled_at j st' = settled_at j st"
  using touches_find [of i st st' j] touches_nth(4) [of i st st' j]
  by (simp add: settled_at_def split: option.split)

lemma settled_by_keeps [simp]:
  "pi_sourceKind (settled_by env t m it) = pi_sourceKind it"
  "pi_sourceUrl (settled_by env t m it) = pi_sourceUrl it"
  "pi_blockedReason (settled_by env t m it) = pi_blockedReason it"
  by (simp_all add: settled_by_def fail_item_def apply_resolved_media_to_item_def Let_def split: option.split)

section \<open>Reclaiming\<close>

text \<open>A resolution during which nobody else writes rooms or starts resolutions.\<close>

definition calm :: "resolve_env \<Rightarrow> (resolver \<Rightarrow> resolver) \<Rightarrow> bool" where
  "calm env others = ((\<forall>w. w_rooms (re_invalidating env w) = w_rooms w) \<and> (\<forall>w. w_rooms (re_during env w) = w_rooms w)
     \<and> (\<forall>rv. rv_inflight (others rv) = rv_inflight rv))"

lemma calm_rooms:
  "calm env others \<Longrightarrow> get_room q (re_invalidating env w) = get_room q w"
  "calm env others \<Longrightarrow> get_room q (re_during env w) = get_room q w"
  by (simp_all add: calm_def get_room_def)

lemma resolve_inflight:
  assumes "calm env others" "resolve_key r i \<notin> set (rv_inflight (fst s))"
  shows "rv_inflight (fst (resolve_playlist_item env others r i t retry m s)) = rv_inflight (fst s)"
  using assms by (simp add: resolve_playlist_item_def calm_def Let_def)

text \<open>Settling the room of a waiting item.\<close>

lemma commit_settles:
  assumes "get_room r w = Some st" "find_item i st = Some k"
  shows "\<exists>st'. get_room r (fst (commit_resolving_item env r i (settled_by e t m) False w)) = Some st'
      \<and> touches_item i st st' \<and> (pi_ingestStatus (st_playlist st ! k) = Some IngestResolving \<longrightarrow> settled_at i st')"
    and "q \<noteq> r \<Longrightarrow> get_room q (fst (commit_resolving_item env r i (settled_by e t m) False w)) = get_room q w"
proof -
  let ?f = "settled_by e t m"
  define st' where "st' = touch_room_structural (re_now env 0) (update_item k ?f st)"
  have k: "k < length (st_playlist st)" using find_item_Some [OF assms(2)] by simp
  have t: "touches_item i st st'" unfolding st'_def by (rule touches_update [OF assms(2)]) simp_all
  have "settled_at i st'"
    using touches_find [OF t, of i] assms(2) k settled_by_status(1) [of e t m "st_playlist st ! k"]
    by (simp add: settled_at_def st'_def)
  then show "\<exists>st'. get_room r (fst (commit_resolving_item env r i ?f False w)) = Some st'
      \<and> touches_item i st st' \<and> (pi_ingestStatus (st_playlist st ! k) = Some IngestResolving \<longrightarrow> settled_at i st')"
    using t assms touches_refl [of i st]
    by (simp add: commit_first_attempt [OF assms(1)] waiting_at_def publish_room_snapshot_def st'_def)
  show "q \<noteq> r \<Longrightarrow> get_room q (fst (commit_resolving_item env r i ?f False w)) = get_room q w"
    by (simp add: commit_first_attempt [OF assms(1)] publish_room_snapshot_def split: option.split)
qed

text \<open>A room after a retry of one item, and every other room.\<close>

definition retried :: "string \<Rightarrow> string \<Rightarrow> world \<Rightarrow> world \<Rightarrow> bool" where
  "retried r i w w' =
     (\<forall>q st. get_room q w = Some st \<longrightarrow>
        (if q = r then \<exists>st'. get_room q w' = Some st' \<and> touches_item i st st' else get_room q w' = Some st))"

lemma retriedI:
  assumes "get_room r w = Some st" "get_room r w' = Some st'" "touches_item i st st'"
    "\<And>q. q \<noteq> r \<Longrightarrow> get_room q w' = get_room q w"
  shows "retried r i w w'"
  using assms by (simp add: retried_def)

lemma retried_refl: "retried r i w w"
  by (simp add: retried_def touches_refl)

lemma resolve_retried:
  assumes "calm env others" "resolve_key r i \<notin> set (rv_inflight rv)" "get_room r w = Some st"
    "find_item i st = Some k"
  shows "\<exists>st'. get_room r (snd (resolve_playlist_item env others r i t False m (rv, w))) = Some st'
      \<and> touches_item i st st' \<and> (pi_ingestStatus (st_playlist st ! k) = Some IngestResolving \<longrightarrow> settled_at i st')"
    and "q \<noteq> r \<Longrightarrow> get_room q (snd (resolve_playlist_item env others r i t False m (rv, w))) = get_room q w"
  using commit_settles [where w = "re_during env w" and env = env and e = env and r = r and i = i and t = t and m = m]
    assms
  by (simp_all add: resolve_outcome(1) calm_rooms)

lemma reresolve_retried:
  assumes "calm env others" "resolve_key r i \<notin> set (rv_inflight rv)"
    "reresolve_remote_playlist_item env others r i (rv, w) = ((rv', w'), b)"
  shows "rv_inflight rv' = rv_inflight rv" "retried r i w w'"
    and "get_room r w = Some st \<Longrightarrow> retryable i st \<Longrightarrow> \<exists>st'. get_room r w' = Some st' \<and> settled_at i st'"
proof -
  show "rv_inflight rv' = rv_inflight rv"
    using assms(2,3) resolve_inflight [OF assms(1), of r i]
    by (auto simp: reresolve_remote_playlist_item_def Let_def prod_eq_iff split: option.splits prod.splits if_splits)
  define now where "now = re_started env"
  have "retried r i w w' \<and> (\<forall>st. get_room r w = Some st \<and> retryable i st \<longrightarrow> (\<exists>st'. get_room r w' = Some st' \<and> settled_at i st'))"
  proof (cases "retry_target i (get_room r w)")
    case None
    then show ?thesis
      using assms(3) by (auto simp: reresolve_remote_playlist_item_def retried_refl retryable_def)
  next
    case (Some ki)
    then obtain k item st0 where st0: "get_room r w = Some st0" "find_item i st0 = Some k" "item = st_playlist st0 ! k"
      "ki = (k, item)"
      by (auto simp: retry_target_def Let_def split: option.splits if_splits)
    define f where "f = (\<lambda>it::playlist_item. it\<lparr>pi_ingestStatus := Some IngestResolving, pi_ingestError := None\<rparr>)"
    define st1 where "st1 = (if pi_ingestStatus item = Some IngestResolving then st0
        else touch_room_structural now (update_item k f st0))"
    have k: "k < length (st_playlist st0)" using find_item_Some [OF st0(2)] by simp
    have t1: "touches_item i st0 st1"
      unfolding st1_def f_def using touches_update [OF st0(2)] touches_refl by simp
    have i1: "find_item i st1 = Some k" "pi_ingestStatus (st_playlist st1 ! k) = Some IngestResolving"
      using touches_find [OF t1] st0 k by (simp_all add: st1_def f_def)
    obtain w1 written where u: "update_room r (mark_resolving now i) w = (w1, written)" by force
    have g1: "get_room r w1 = Some st1" "\<And>q. q \<noteq> r \<Longrightarrow> get_room q w1 = get_room q w"
      using u Some st0 update_room_get [of _ r "mark_resolving now i" w]
      by (auto simp: mark_resolving_def st1_def f_def split: option.splits if_splits)
    define w3 where "w3 = (if written \<noteq> None then publish_room_snapshot r (re_invalidating env w1) else re_invalidating env w1)"
    have g3: "get_room q w3 = get_room q w1" for q
      by (simp add: w3_def publish_room_snapshot_def calm_rooms [OF assms(1)])
    show ?thesis
    proof (cases "pi_sourceUrl item = []")
      case True
      then have w': "w' = w1" using assms(3) u Some st0 by (simp add: reresolve_remote_playlist_item_def now_def)
      have "\<not> retryable i st0" using st0 True by (simp add: retryable_iff)
      with retriedI [OF st0(1) _ t1, of w1] g1 w' st0(1) show ?thesis by simp
    next
      case False
      have w': "w' = snd (resolve_playlist_item env others r i (Some (pi_name item)) False
          ''Failed to resolve metadata'' (rv, w3))"
        using assms(3) u Some st0 False
        by (auto simp: reresolve_remote_playlist_item_def now_def w3_def Let_def prod_eq_iff split: prod.splits)
      obtain st' where st': "get_room r w' = Some st'" "touches_item i st1 st'" "settled_at i st'"
        using resolve_retried(1) [OF assms(1,2), of w3 st1 k "Some (pi_name item)" "''Failed to resolve metadata''"]
          i1 g3 g1 unfolding w' by fastforce
      have "get_room q w' = get_room q w" if "q \<noteq> r" for q
        unfolding w' using resolve_retried(2) [OF assms(1,2), of w3 st1 k q] i1 g3 g1 that by simp
      then show ?thesis using retriedI [OF st0(1) st'(1) touches_trans [OF t1 st'(2)]] st'(1,3) by blast
    qed
  qed
  then show "retried r i w w'"
    "get_room r w = Some st \<Longrightarrow> retryable i st \<Longrightarrow> \<exists>st'. get_room r w' = Some st' \<and> settled_at i st'"
    by blast+
qed

text \<open>
  The rooms after a list of jobs: an item that may be retried stays so, one that is settled stays
  settled, and a job settles its item.
\<close>

lemma reclaim_jobs:
  assumes "\<And>job. calm (envs job) (others job)" "rv_inflight (fst (fst acc)) = []"
    and "get_room r (snd (fst acc)) = Some st" "retryable i st" "settled_at i st \<or> (r, i) \<in> set jobs"
  shows "\<exists>st'. get_room r (snd (fst (fold (reclaim_job envs others) jobs acc))) = Some st' \<and> settled_at i st'"
  using assms(2-)
proof (induction jobs arbitrary: acc st)
  case (Cons job jobs)
  obtain q j where job: "job = (q, j)" by force
  obtain rv w n where acc: "acc = ((rv, w), n)" by (metis prod.collapse)
  obtain rv' w' b where re: "reresolve_remote_playlist_item (envs job) (others job) q j (rv, w) = ((rv', w'), b)"
    by (metis prod.collapse)
  have fl: "resolve_key q j \<notin> set (rv_inflight rv)" using Cons.prems(1) acc by simp
  note re_facts = reresolve_retried [OF assms(1) fl re]
  define acc' where "acc' = reclaim_job envs others job acc"
  have acc': "rv_inflight (fst (fst acc')) = []" "snd (fst acc') = w'"
    using re re_facts(1) Cons.prems(1) acc job
    by (auto simp: acc'_def reclaim_job_def end_resolve_lease_def refresh_pending_set_ttl_def Let_def split: bool.split)
  obtain st' where st': "get_room r w' = Some st'" "retryable i st'" "settled_at i st' \<or> (r, i) \<in> set jobs"
  proof (cases "q = r")
    case True
    then obtain st' where t: "get_room r w' = Some st'" "touches_item j st st'"
      using re_facts(2) Cons.prems(2) acc unfolding retried_def by fastforce
    have "settled_at i st'" if "j = i"
      using re_facts(3) [of st] t(1) Cons.prems(2,3) True that acc by auto
    moreover have "settled_at i st' = settled_at i st" if "j \<noteq> i" using touches_settled [OF t(2)] that by simp
    ultimately show ?thesis
      using that [OF t(1)] touches_retryable [OF t(2)] Cons.prems(3,4) job True by fastforce
  next
    case False
    then have "get_room r w' = Some st" using re_facts(2) Cons.prems(2) acc by (auto simp: retried_def)
    then show ?thesis using that Cons.prems(3,4) job False by fastforce
  qed
  show ?case using Cons.IH [of acc' st'] acc' st' by (simp add: acc'_def)
qed auto

section \<open>The pending set\<close>

lemma parse_encode_pending:
  assumes "CHR 0x09 \<notin> set r" "r \<noteq> []" "i \<noteq> []"
  shows "parse_pending_member (encode_pending_member r i) = Some (r, i)"
proof -
  have "find_index (\<lambda>c. c = CHR 0x09) (r @ CHR 0x09 # i) = Some (length r)"
    unfolding find_index_Some_iff using assms(1) nth_mem [of _ r] by (fastforce simp: nth_append)
  with assms show ?thesis by (simp add: parse_pending_member_def encode_pending_member_def)
qed

definition claim_free :: "jsnum \<Rightarrow> string \<Rightarrow> leases \<Rightarrow> bool" where
  "claim_free now key ls = (\<forall>until. map_of (ls_claims ls) key = Some until \<longrightarrow> until \<le> now)"

lemma scan_pending_other:
  assumes "scan_pending_member now m (ls, found) = (ls', found')"
  shows "ls_lease ls' = ls_lease ls" "set found \<subseteq> set found'"
    and "(\<And>r' i'. parse_pending_member m = Some (r', i') \<Longrightarrow> media_yt_dlp_resolve_claim r' i' \<noteq> key)
      \<Longrightarrow> claim_free now key ls' = claim_free now key ls"
  using assms by (auto simp: scan_pending_member_def claim_free_def Let_def split: option.splits if_splits)

lemma scan_pending_hit:
  assumes "parse_pending_member m = Some (r, i)" "claim_free now (media_yt_dlp_resolve_claim r i) ls"
    "held_lease now (media_yt_dlp_resolve_lease r i) ls = None"
  shows "(r, i) \<in> set (snd (scan_pending_member now m (ls, found)))"
  using assms by (force simp: scan_pending_member_def claim_free_def Let_def split: option.splits)

lemma scan_finds:
  assumes "m \<in> set ms" "parse_pending_member m = Some (r, i)"
    and "\<And>m' r' i'. m' \<in> set ms \<Longrightarrow> parse_pending_member m' = Some (r', i') \<Longrightarrow>
      media_yt_dlp_resolve_claim r' i' = media_yt_dlp_resolve_claim r i \<Longrightarrow> (r', i') = (r, i)"
    and "claim_free now (media_yt_dlp_resolve_claim r i) ls"
    and "held_lease now (media_yt_dlp_resolve_lease r i) ls = None"
  shows "(r, i) \<in> set (snd (fold (scan_pending_member now) ms (ls, found)))"
proof -
  have keep: "x \<in> set f \<Longrightarrow> x \<in> set (snd (fold (scan_pending_member now) ns (l, f)))" for x ns l f
  proof (induction ns arbitrary: l f)
    case (Cons n ns)
    obtain l' f' where s: "scan_pending_member now n (l, f) = (l', f')" by force
    from scan_pending_other(2) [OF s] Cons show ?case by (auto simp: s)
  qed simp
  show ?thesis using assms(1,3-)
  proof (induction ms arbitrary: ls found)
    case (Cons n ns)
    obtain l' f' where s: "scan_pending_member now n (ls, found) = (l', f')" by force
    show ?case
    proof (cases "parse_pending_member n = Some (r, i)")
      case True
      from scan_pending_hit [OF this Cons.prems(3,4), of found] keep show ?thesis by (simp add: s)
    next
      case False
      have "\<And>r' i'. parse_pending_member n = Some (r', i') \<Longrightarrow>
          media_yt_dlp_resolve_claim r' i' \<noteq> media_yt_dlp_resolve_claim r i"
        using Cons.prems(2) [of n] False by force
      from scan_pending_other(1,3) [OF s] this Cons.prems
      have "claim_free now (media_yt_dlp_resolve_claim r i) l'" "held_lease now (media_yt_dlp_resolve_lease r i) l' = None"
        by (simp_all add: held_lease_def)
      moreover have "m \<in> set ns" using Cons.prems(1) False assms(2) by auto
      moreover have "\<And>m' r' i'. m' \<in> set ns \<Longrightarrow> parse_pending_member m' = Some (r', i') \<Longrightarrow>
          media_yt_dlp_resolve_claim r' i' = media_yt_dlp_resolve_claim r i \<Longrightarrow> (r', i') = (r, i)"
        using Cons.prems(2) by (metis list.set_intros(2))
      ultimately show ?thesis using Cons.IH [of l' f'] by (simp add: s)
    qed
  qed simp
qed

text \<open>
  With \<open>retryUntilPresent\<close> a room that exists without the item counts as success: the first attempt
  writes the room back unchanged and no further attempt is made.
\<close>

lemma missing_item_reported_settled:
  assumes "get_room r w = Some st" "find_item i st = None"
  shows "snd (commit_resolving_item env r i f True w) = (True, 0)"
    and "get_room q (fst (commit_resolving_item env r i f True w)) = get_room q w"
  using assms by (simp_all add: commit_first_attempt [OF assms(1)] waiting_at_def publish_room_snapshot_def)

text \<open>
  The claim is set for thirty seconds when the job is found, not when its turn comes: thirty seconds
  later another scan finds the job again unless a lease was begun.
\<close>

lemma claim_lapses_before_turn:
  assumes "ls_claims ls = []" "parse_pending_member m = Some (r, i)"
    "held_lease now (media_yt_dlp_resolve_lease r i) ls = None"
  shows "(case scan_pending_member now m (ls, []) of
      (ls1, jobs) \<Rightarrow> jobs = [(r, i)] \<and> (r, i) \<in> set (snd (scan_pending_member (now + 30000) m (ls1, []))))"
proof -
  have "held_lease (now + 30000) (media_yt_dlp_resolve_lease r i) ls = None"
    using assms(3) by (auto simp: held_lease_def split: option.splits if_splits)
  with assms show ?thesis by (simp add: scan_pending_member_def held_lease_def split: option.splits)
qed

section \<open>The room invariant\<close>

text \<open>What others do while a resolution waits keeps the invariant.\<close>

definition env_keeps :: "limits \<Rightarrow> resolve_env \<Rightarrow> bool" where
  "env_keeps cfg env = (\<forall>w. world_wf cfg w \<longrightarrow> world_wf cfg (re_invalidating env w) \<and> world_wf cfg (re_during env w)
     \<and> (\<forall>k. world_wf cfg (re_between env k w)))"

lemma good_update_item:
  assumes "good_room cfg st" "k < length (st_playlist st)" "\<And>it. pi_id (f it) = pi_id it"
  shows "good_room cfg (touch_room_structural now (update_item k f st))"
proof -
  define st' where "st' = touch_room_structural now (update_item k f st)"
  have "playlist_wf st'"
    using playlist_wf_update_item [of st k f] assms playlist_wf_frame [of st' "update_item k f st"]
    by (simp add: st'_def room_wf_def)
  moreover have "st_participants st' = st_participants st" "st_ownerId st' = st_ownerId st"
    "st_playback st' = st_playback st" "st_roomSecurity st' = st_roomSecurity st" "st_actionLog st' = st_actionLog st"
    by (simp_all add: st'_def update_item_def)
  ultimately show ?thesis using assms(1) unfolding st'_def [symmetric]
    by (simp add: room_wf_def room_named_def owner_unique_def)
qed

lemma settle_good:
  assumes "\<And>st. cur = Some st \<Longrightarrow> good_room cfg st" "settle_item now f retry i cur = Some st'"
    "\<And>it. pi_id (f it) = pi_id it"
  shows "good_room cfg st'"
proof -
  obtain st where st: "cur = Some st" using assms(2) by (cases cur) (simp_all add: settle_item_def)
  have "st' = st \<or> (\<exists>k. find_item i st = Some k \<and> st' = touch_room_structural now (update_item k f st))"
    using assms(2) st by (auto simp: settle_item_def split: option.splits if_splits)
  then show ?thesis using assms(1) [OF st] good_update_item [of cfg st _ f now] assms(3) find_item_Some [of i st] by blast
qed

lemma commit_attempts_wf:
  assumes "env_keeps cfg env" "\<And>it. pi_id (f it) = pi_id it" "world_wf cfg w"
  shows "world_wf cfg (fst (commit_attempts n k env r i f retry w))"
  using assms(3)
proof (induction n arbitrary: k w)
  case (Suc n)
  obtain w1 res where u: "update_room r (settle_item (re_now env k) f retry i) w = (w1, res)" by force
  have "world_wf cfg w1"
    using update_room_wf [OF Suc.prems, of "settle_item (re_now env k) f retry i" r] settle_good [OF _ _ assms(2)] u
    by (metis fst_conv)
  moreover then have "world_wf cfg (fst (commit_attempts n (k + 1) env r i f True (re_between env k w1)))" if retry
    using Suc.IH assms(1) that by (simp add: env_keeps_def)
  ultimately show ?case using u by (cases retry) (auto simp: publish_room_snapshot_def split: option.split prod.split)
qed simp

lemma resolve_wf [wf_intros]:
  assumes "env_keeps cfg env" "world_wf cfg (snd s)"
  shows "world_wf cfg (snd (resolve_playlist_item env others r i t retry m s))"
  using assms commit_attempts_wf [OF assms(1) settled_by_id] 
  by (simp add: resolve_playlist_item_def Let_def commit_resolving_item_def env_keeps_def)

lemma reresolve_wf [wf_intros]:
  assumes "env_keeps cfg env" "world_wf cfg (snd s)"
  shows "world_wf cfg (snd (fst (reresolve_remote_playlist_item env others r i s)))"
proof -
  obtain rv w where s: "s = (rv, w)" by force
  obtain w1 res where u: "update_room r (mark_resolving (re_started env) i) w = (w1, res)" by force
  have keep: "good_room cfg st'" if c: "\<And>st. cur = Some st \<Longrightarrow> good_room cfg st"
    and m: "mark_resolving (re_started env) i cur = Some st'" for cur st'
  proof -
    obtain st k where k: "cur = Some st" "find_item i st = Some k"
      "st' = touch_room_structural (re_started env)
         (update_item k (\<lambda>it. it\<lparr>pi_ingestStatus := Some IngestResolving, pi_ingestError := None\<rparr>) st)"
      using m by (auto simp: mark_resolving_def retry_target_def Let_def split: option.splits if_splits)
    have "k < length (st_playlist st)" using find_item_Some [OF k(2)] by simp
    from good_update_item [OF c [OF k(1)] this] k(3) show ?thesis by simp
  qed
  have "world_wf cfg w" using assms(2) s by simp
  from update_room_wf [OF this keep] have "world_wf cfg (fst (update_room r (mark_resolving (re_started env) i) w))" .
  then have w1: "world_wf cfg w1" by (simp add: u)
  define w3 where "w3 = (if res \<noteq> None then publish_room_snapshot r (re_invalidating env w1) else re_invalidating env w1)"
  have w3: "world_wf cfg w3"
    using w1 assms(1) by (simp add: w3_def publish_room_snapshot_def env_keeps_def)
  show ?thesis
  proof (cases "retry_target i (get_room r w)")
    case None
    then show ?thesis using s \<open>world_wf cfg w\<close> by (simp add: reresolve_remote_playlist_item_def)
  next
    case (Some ki)
    obtain k item where ki: "ki = (k, item)" by force
    show ?thesis
    proof (cases "pi_sourceUrl item = []")
      case True
      then show ?thesis using Some s u w1 ki by (simp add: reresolve_remote_playlist_item_def)
    next
      case False
      then have "snd (fst (reresolve_remote_playlist_item env others r i s)) =
          snd (resolve_playlist_item env others r i (Some (pi_name item)) False ''Failed to resolve metadata'' (rv, w3))"
        using Some s u ki by (simp add: reresolve_remote_playlist_item_def w3_def Let_def)
      then show ?thesis using resolve_wf [OF assms(1), of "(rv, w3)"] w3 by simp
    qed
  qed
qed

section \<open>Properties\<close>

text \<open>
  C35. A resolution settles the item it was started for, and nothing else: when the item still waits
  at the time the answer is in, it becomes ready with the resolved media or carries the error, the
  other items, the clock, the current item and the members stay, and the room's generation counts up;
  when the item was removed, renamed away or settled meanwhile, the room stays as it is.  The
  resolution is no longer in flight afterwards.
\<close>

theorem resolution_settles_item:
  assumes "resolve_key r i \<notin> set (rv_inflight rv)"
    and "get_room r (re_during env w) = Some st" and "playlist_wf st"
    and "resolve_playlist_item env others r i t retry m (rv, w) = (rv', w')"
  shows "(case waiting_at i st of
       None \<Rightarrow> get_room r w' = Some st
     | Some k \<Rightarrow>
         (\<exists>st'. get_room r w' = Some st' \<and> playlist_wf st' \<and> waiting_at i st' = None
            \<and> st_playlist st' = (st_playlist st)[k := settled_by env t m (st_playlist st ! k)]
            \<and> pi_ingestStatus (st_playlist st' ! k) \<in> {Some IngestReady, Some IngestError}
            \<and> st_currentIndex st' = st_currentIndex st \<and> st_playback st' = st_playback st
            \<and> st_participants st' = st_participants st \<and> st_generation st' = st_generation st + 1
            \<and> last (w_out w') = ESnapshotDirty r))
    \<and> (\<forall>r'. r' \<noteq> r \<longrightarrow> get_room r' w' = get_room r' (re_during env w))
    \<and> resolve_key r i \<notin> set (rv_inflight rv')"
proof -
  define f where "f = settled_by env t m"
  have f: "\<And>it. pi_id (f it) = pi_id it" "\<And>it. pi_ingestStatus (f it) \<noteq> Some IngestResolving"
    "\<And>it. pi_ingestStatus (f it) \<in> {Some IngestReady, Some IngestError}"
    unfolding f_def by (rule settled_by_id settled_by_status)+
  have w': "w' = fst (commit_resolving_item env r i f retry (re_during env w))"
    and free: "resolve_key r i \<notin> set (rv_inflight rv')"
    using resolve_outcome [OF assms(1), of env others t retry m w] assms(4) by (simp_all add: f_def)
  note first = commit_first_attempt [OF assms(2), of env i f retry]
  show ?thesis
  proof (cases "waiting_at i st")
    case None
    then show ?thesis using w' first free assms(2)
      by (simp add: publish_room_snapshot_def split: if_splits)
  next
    case (Some k)
    have k: "k < length (st_playlist st)"
      using Some find_item_Some by (fastforce simp: waiting_at_def split: option.splits if_splits)
    define st' where "st' = touch_room_structural (re_now env 0) (update_item k f st)"
    have room: "get_room r w' = Some st'" "\<forall>r'. r' \<noteq> r \<longrightarrow> get_room r' w' = get_room r' (re_during env w)"
      "last (w_out w') = ESnapshotDirty r"
      using w' first Some by (simp_all add: publish_room_snapshot_def st'_def)
    have pl: "st_playlist st' = (st_playlist st)[k := f (st_playlist st ! k)]"
      by (simp add: st'_def update_item_def)
    have gen: "st_generation st' = st_generation st + 1"
      by (simp add: st'_def touch_room_structural_def bump_room_revisions_def update_item_def)
    have wf: "playlist_wf st'"
      using playlist_wf_update_item [OF assms(3) k, of f] f(1) playlist_wf_frame [of st' "update_item k f st"]
      by (simp add: st'_def)
    have "waiting_at i st' = None" using update_item_waiting [OF Some f(1,2)] by (simp add: st'_def)
    then show ?thesis using Some room pl gen wf k f(3) free
      by (simp add: st'_def f_def [symmetric])
  qed
qed


definition sample_waiting :: server_room where
  "sample_waiting = sample_room\<lparr>st_playlist := [(sample_item ''m0'')\<lparr>pi_ingestStatus := Some IngestResolving\<rparr>],
     st_currentIndex := 0\<rparr>"

definition sample_resolution :: resolve_env where
  "sample_resolution = \<lparr>re_started = 50000, re_now = (\<lambda>_. 51000), re_ended = 51000, re_invalidating = id,
     re_during = id, re_between = (\<lambda>_. id),
     re_outcome = Some \<lparr>rm_playableUrl = ''https://cdn.test/v'', rm_sourceUrl = ''https://x.test/m0'',
       rm_title = ''Film'', rm_durationSeconds = Some 90, rm_playbackMode = Direct, rm_mediaStreams = [],
       rm_defaultStreamId = None, rm_textTracks = [], rm_defaultTextTrackId = None, rm_failed = False,
       rm_resolveUserMessage = None, rm_isLive = Some False\<rparr>,
     re_owner = ''o1'', re_timeoutMs = 30000\<rparr>"

definition sample_resolver :: resolver where
  "sample_resolver = \<lparr>rv_inflight = [], rv_leases = \<lparr>ls_up = True,
     ls_pendingResolves = [encode_pending_member ''r1'' ''m0''], ls_pendingUntil = 60000, ls_pending = [],
     ls_lease = [(media_yt_dlp_resolve_lease ''r1'' ''m0'', ''dead'', 40000)], ls_claims = []\<rparr>\<rparr>"

abbreviation waiting_world :: world where
  "waiting_world \<equiv> sample_world\<lparr>w_rooms := [(''r1'', sample_waiting)]\<rparr>"

lemma sample_waiting_facts:
  "get_room ''r1'' waiting_world = Some sample_waiting" "playlist_wf sample_waiting"
  "find_item ''m0'' sample_waiting = Some 0" "waiting_at ''m0'' sample_waiting = Some 0"
  "retryable ''m0'' sample_waiting"
  by (simp_all add: get_room_def sample_waiting_def playlist_wf_defs sample_item_def find_item_def waiting_at_def
      retryable_iff)


theorem resolution_settles_item_witness:
  "\<exists>st'. get_room ''r1'' (snd (resolve_playlist_item sample_resolution id ''r1'' ''m0'' None False ''failed''
       (sample_resolver, waiting_world))) = Some st'
     \<and> pi_ingestStatus (st_playlist st' ! 0) \<in> {Some IngestReady, Some IngestError} \<and> waiting_at ''m0'' st' = None"
proof -
  let ?r = "resolve_playlist_item sample_resolution id ''r1'' ''m0'' None False ''failed'' (sample_resolver, waiting_world)"
  have "get_room ''r1'' (re_during sample_resolution waiting_world) = Some sample_waiting"
    "resolve_key ''r1'' ''m0'' \<notin> set (rv_inflight sample_resolver)"
    using sample_waiting_facts(1) by (simp_all add: sample_resolution_def sample_resolver_def)
  from resolution_settles_item [OF this(2,1) sample_waiting_facts(2), of id None False "''failed''" "fst ?r" "snd ?r"]
  show ?thesis by (auto simp: sample_waiting_facts(4))
qed

end
