(* ===== verification/Extract_Lock.thy ===== *)
theory Extract_Lock
  imports Resolve
begin

text \<open>
  One extraction at a time (\<open>src/src/server/media/yt-dlp/extract-lock.ts\<close>, \<open>lease-lua.ts\<close>, \<open>extract.ts\<close>,
  \<open>classify.ts\<close>, \<open>cache.ts\<close>, \<open>policy.ts\<close>): the class of a failed run and the workers of all server processes that want the catalog of one URL, the lock
  they share in Redis, renewed by a heartbeat, and the cache the holder fills.  What yt-dlp answers is the
  type parameter \<open>'r\<close>; every operation on Redis is a step of its own, and time passes between the steps.
\<close>

section \<open>Times\<close>

definition wait_poll_ms :: jsnum where "wait_poll_ms = 150"
definition ytdlp_cache_retention_seconds :: int where "ytdlp_cache_retention_seconds = 1800"
definition ytdlp_cache_failure_ttl_seconds :: int where "ytdlp_cache_failure_ttl_seconds = 60"

definition derived_stream_url_max_age_seconds :: "int \<Rightarrow> int" where
  "derived_stream_url_max_age_seconds cacheTtlSeconds =
     (if cacheTtlSeconds \<le> 0 then 0
      else min cacheTtlSeconds (min 600 (max 120 (cacheTtlSeconds div 3))))"

definition derived_extract_failover_wait_ms :: "nat \<Rightarrow> jsnum" where
  "derived_extract_failover_wait_ms timeoutMs = of_nat timeoutMs * 2 + 15000"

definition lock_ttl_ms :: "nat \<Rightarrow> jsnum" where
  "lock_ttl_ms timeoutMs = of_int (derived_lock_heartbeat_ttl_seconds timeoutMs) * 1000"

definition heartbeat_interval_ms :: "nat \<Rightarrow> jsnum" where
  "heartbeat_interval_ms timeoutMs = max 1000 (js_floor (lock_ttl_ms timeoutMs / 3))"

section \<open>Failures\<close>

datatype failure_class =
    Not_live | Not_found | Login_required | Network | Timeout | Binary_missing | Unsupported | Unknown

datatype failure_kind = Timed_out | Spawn_error | Truncated

text \<open>The searches of the patterns; they ignore case, and texts are below 256, where case is that of ASCII.\<close>

primrec tails_of :: "string \<Rightarrow> string list" where
  "tails_of [] = [[]]"
| "tails_of (c # cs) = (c # cs) # tails_of cs"

definition found_in :: "string \<Rightarrow> string \<Rightarrow> bool" where
  "found_in pat text = list_ex (\<lambda>t. take (length pat) t = pat) (tails_of text)"

definition is_word_char :: "char \<Rightarrow> bool" where
  "is_word_char c = (Sanitize.ascii_lower c \<in> set ''abcdefghijklmnopqrstuvwxyz0123456789_'')"

text \<open>What follows \<open>not\<close>: at most \<open>n\<close> words before \<open>live\<close>, each after some space.\<close>

fun words_then_live :: "nat \<Rightarrow> string \<Rightarrow> bool" where
  "words_then_live n text =
     (let rest = dropWhile is_ws text in
      rest \<noteq> text \<and>
      (take 4 rest = ''live'' \<or>
       (case n of
          0 \<Rightarrow> False
        | Suc k \<Rightarrow> (let after_word = dropWhile is_word_char rest in after_word \<noteq> rest \<and> words_then_live k after_word))))"

definition not_live_phrase :: "string \<Rightarrow> bool" where
  "not_live_phrase text = list_ex (\<lambda>t. take 3 t = ''not'' \<and> words_then_live 2 (drop 3 t)) (tails_of text)"

definition one_line :: "string \<Rightarrow> string" where
  "one_line = takeWhile (\<lambda>c. c \<noteq> CHR 10 \<and> c \<noteq> CHR 13)"

definition phrase_around :: "string \<Rightarrow> string \<Rightarrow> string \<Rightarrow> bool" where
  "phrase_around before then_after text =
     list_ex (\<lambda>t. take (length before) t = before \<and> found_in then_after (one_line (drop (length before) t))) (tails_of text)"

definition classify_yt_dlp_stderr :: "string \<Rightarrow> failure_class" where
  "classify_yt_dlp_stderr stderr =
     (let text = ascii_lower (trim stderr) in
      if text = [] then Unknown
      else if not_live_phrase text \<or> list_ex (\<lambda>p. found_in p text)
          [''offline'', ''usernotlive'', ''does not have a live stream'', ''stream is offline''] then Not_live
      else if found_in ''does not exist'' text \<or> phrase_around ''video '' '' does not exist'' text
          \<or> phrase_around ''channel '' '' not found'' text \<or> found_in ''http error 404'' text then Not_found
      else if list_ex (\<lambda>p. found_in p text) [''login'', ''authentication'', ''private video'', ''members only''] then Login_required
      else if list_ex (\<lambda>p. found_in p text) [''unsupported url'', ''no suitable extractor'', ''unsupported url scheme''] then Unsupported
      else if list_ex (\<lambda>p. found_in p text) [''timed out'', ''timeout'', ''connection refused'',
          ''name or service not known'', ''unable to download'', ''http error 403''] then Network
      else Unknown)"

definition classify_yt_dlp_run_failure :: "string \<Rightarrow> failure_kind option \<Rightarrow> string option \<Rightarrow> failure_class" where
  "classify_yt_dlp_run_failure stderr failureKind spawnErrorCode =
     (case failureKind of
        Some Timed_out \<Rightarrow> Timeout
      | Some Spawn_error \<Rightarrow> if spawnErrorCode = Some ''ENOENT'' then Binary_missing else Unknown
      | Some Truncated \<Rightarrow> Unknown
      | None \<Rightarrow> classify_yt_dlp_stderr stderr)"

section \<open>The cache and the lock\<close>

text \<open>A result is a catalog or a failure of some class.\<close>

datatype 'r extract_result = Extracted 'r | Extract_failed failure_class

definition xr_ok :: "'r extract_result \<Rightarrow> bool" where
  "xr_ok r = (case r of Extracted _ \<Rightarrow> True | Extract_failed _ \<Rightarrow> False)"

text \<open>The classes the schema of the cache knows.\<close>

definition cached_classes :: "failure_class list" where
  "cached_classes = [Not_live, Not_found, Login_required, Network, Timeout, Binary_missing, Unknown]"

definition result_parses :: "'r extract_result \<Rightarrow> bool" where
  "result_parses r = (case r of Extracted _ \<Rightarrow> True | Extract_failed c \<Rightarrow> c \<in> set cached_classes)"

text \<open>An entry with the time it was extracted and the time Redis drops it.\<close>

record 'r cache_entry =
  ce_extractedAt :: jsnum
  ce_result :: "'r extract_result"
  ce_expires :: jsnum

definition freshness_filter :: "jsnum \<Rightarrow> 'r cache_entry \<Rightarrow> 'r extract_result option" where
  "freshness_filter now entry =
     (if \<not> xr_ok (ce_result entry) then Some (ce_result entry)
      else let maxAgeSeconds = derived_stream_url_max_age_seconds ytdlp_cache_retention_seconds in
           if maxAgeSeconds \<le> 0 then Some (ce_result entry)
           else let ageSeconds = max 0 ((now - ce_extractedAt entry) / 1000) in
                if ageSeconds > of_int maxAgeSeconds then None else Some (ce_result entry))"

definition read_extract_cache :: "jsnum \<Rightarrow> 'r cache_entry option \<Rightarrow> 'r extract_result option" where
  "read_extract_cache now cache =
     (case cache of
        None \<Rightarrow> None
      | Some entry \<Rightarrow> if ce_expires entry \<le> now \<or> \<not> result_parses (ce_result entry) then None else freshness_filter now entry)"

definition write_extract_cache :: "jsnum \<Rightarrow> 'r extract_result \<Rightarrow> 'r cache_entry option \<Rightarrow> 'r cache_entry option" where
  "write_extract_cache now result cache =
     (let ttl = (if xr_ok result then derived_stream_url_max_age_seconds ytdlp_cache_retention_seconds
                 else ytdlp_cache_failure_ttl_seconds)
      in if ttl \<le> 0 then cache
         else Some \<lparr>ce_extractedAt = now, ce_result = result, ce_expires = now + of_int ttl * 1000\<rparr>)"

text \<open>The lock: its token and the time it expires.\<close>

type_synonym extract_lock = "(string \<times> jsnum) option"

definition lock_held :: "jsnum \<Rightarrow> extract_lock \<Rightarrow> string option" where
  "lock_held now lock = (case lock of None \<Rightarrow> None | Some (token, expires) \<Rightarrow> if expires \<le> now then None else Some token)"

definition try_acquire :: "jsnum \<Rightarrow> string \<Rightarrow> jsnum \<Rightarrow> extract_lock \<Rightarrow> bool \<times> extract_lock" where
  "try_acquire now token ttl lock =
     (if lock_held now lock = None then (True, Some (token, now + ttl)) else (False, lock))"

definition renew_lock :: "jsnum \<Rightarrow> string \<Rightarrow> jsnum \<Rightarrow> extract_lock \<Rightarrow> bool \<times> extract_lock" where
  "renew_lock now token ttl lock =
     (if lock_held now lock = Some token then (True, Some (token, now + ttl)) else (False, lock))"

definition release_lock :: "jsnum \<Rightarrow> string \<Rightarrow> extract_lock \<Rightarrow> extract_lock" where
  "release_lock now token lock = (if lock_held now lock = Some token then None else lock)"

section \<open>Workers\<close>

text \<open>
  Where a worker stands: at the head of the loop, between its miss and its try for the lock, asleep, holding the
  lock before the first and the second look at the cache, while yt-dlp runs, before it writes the cache and
  before it gives the lock back, at the last look after its time, or through.
\<close>

datatype 'r extract_phase =
    LoopHead | Trying | Sleeping jsnum | FirstLook | SecondLook | Extracting | Storing "'r extract_result"
  | Releasing "'r extract_result" | LastLook | Through "'r extract_result" | TimedOut | Crashed

record 'r extract_worker =
  wk_phase :: "'r extract_phase"
  wk_deadline :: jsnum
  wk_waited :: bool
  wk_token :: "string option"
  wk_renewed :: jsnum

record 'r extract_world =
  xw_now :: jsnum
  xw_cache :: "'r cache_entry option"
  xw_lock :: extract_lock
  xw_workers :: "(nat \<times> 'r extract_worker) list"
  xw_tokens :: "string list"

definition holding :: "'r extract_phase \<Rightarrow> bool" where
  "holding p = (case p of FirstLook \<Rightarrow> True | SecondLook \<Rightarrow> True | Extracting \<Rightarrow> True | Storing _ \<Rightarrow> True | Releasing _ \<Rightarrow> True | _ \<Rightarrow> False)"

definition put_worker :: "nat \<Rightarrow> 'r extract_worker \<Rightarrow> 'r extract_world \<Rightarrow> 'r extract_world" where
  "put_worker n wk w = w\<lparr>xw_workers := AList.update n wk (xw_workers w)\<rparr>"

text \<open>
  The field \<open>wk_renewed\<close> is a ghost: the time Redis last confirmed the lock to the worker.  A fresh token is an
  argument; one that was used is not fresh and the step does not happen.
\<close>

datatype 'r extract_event =
    WorkerStarts nat | LooksAtCache nat | TriesLock nat string | WakesUp nat | YtDlpAnswers nat "'r extract_result"
  | WritesCache nat | GivesBack nat | Beats nat | WorkerCrashes nat | TimePasses jsnum

definition worker_starts :: "nat \<Rightarrow> nat \<Rightarrow> 'r extract_world \<Rightarrow> 'r extract_world" where
  "worker_starts timeoutMs n w =
     put_worker n \<lparr>wk_phase = LoopHead, wk_deadline = xw_now w + derived_extract_failover_wait_ms timeoutMs,
       wk_waited = False, wk_token = None, wk_renewed = 0\<rparr> w"

definition looks_at_cache :: "nat \<Rightarrow> 'r extract_worker \<Rightarrow> 'r extract_world \<Rightarrow> 'r extract_world" where
  "looks_at_cache n wk w =
     (let ready = read_extract_cache (xw_now w) (xw_cache w) in
      case wk_phase wk of
        LoopHead \<Rightarrow>
          if xw_now w < wk_deadline wk
          then put_worker n (wk\<lparr>wk_phase := (case ready of Some r \<Rightarrow> Through r | None \<Rightarrow> Trying)\<rparr>) w
          else put_worker n (wk\<lparr>wk_phase := LastLook\<rparr>) w
      | FirstLook \<Rightarrow> put_worker n (wk\<lparr>wk_phase := (case ready of Some r \<Rightarrow> Releasing r | None \<Rightarrow> SecondLook)\<rparr>) w
      | SecondLook \<Rightarrow> put_worker n (wk\<lparr>wk_phase := (case ready of Some r \<Rightarrow> Releasing r | None \<Rightarrow> Extracting)\<rparr>) w
      | LastLook \<Rightarrow> put_worker n (wk\<lparr>wk_phase := (case ready of Some r \<Rightarrow> Through r | None \<Rightarrow> TimedOut)\<rparr>) w
      | _ \<Rightarrow> w)"

definition tries_lock :: "nat \<Rightarrow> nat \<Rightarrow> string \<Rightarrow> 'r extract_worker \<Rightarrow> 'r extract_world \<Rightarrow> 'r extract_world" where
  "tries_lock timeoutMs n token wk w =
     (if wk_phase wk \<noteq> Trying \<or> token \<in> set (xw_tokens w) then w
      else let (acquired, lock) = try_acquire (xw_now w) token (lock_ttl_ms timeoutMs) (xw_lock w);
               w1 = w\<lparr>xw_lock := lock, xw_tokens := token # xw_tokens w\<rparr>
           in if acquired then put_worker n (wk\<lparr>wk_phase := FirstLook, wk_token := Some token, wk_renewed := xw_now w\<rparr>) w1
              else put_worker n (wk\<lparr>wk_phase := Sleeping (xw_now w + wait_poll_ms), wk_waited := True\<rparr>) w1)"

definition wakes_up :: "nat \<Rightarrow> 'r extract_worker \<Rightarrow> 'r extract_world \<Rightarrow> 'r extract_world" where
  "wakes_up n wk w =
     (case wk_phase wk of
        Sleeping until \<Rightarrow> if until \<le> xw_now w then put_worker n (wk\<lparr>wk_phase := LoopHead\<rparr>) w else w
      | _ \<Rightarrow> w)"

definition yt_dlp_answers :: "nat \<Rightarrow> 'r extract_result \<Rightarrow> 'r extract_worker \<Rightarrow> 'r extract_world \<Rightarrow> 'r extract_world" where
  "yt_dlp_answers n result wk w =
     (case wk_phase wk of Extracting \<Rightarrow> put_worker n (wk\<lparr>wk_phase := Storing result\<rparr>) w | _ \<Rightarrow> w)"

definition writes_cache :: "nat \<Rightarrow> 'r extract_worker \<Rightarrow> 'r extract_world \<Rightarrow> 'r extract_world" where
  "writes_cache n wk w =
     (case wk_phase wk of
        Storing result \<Rightarrow>
          put_worker n (wk\<lparr>wk_phase := Releasing result\<rparr>)
            (w\<lparr>xw_cache := write_extract_cache (xw_now w) result (xw_cache w)\<rparr>)
      | _ \<Rightarrow> w)"

definition gives_back :: "nat \<Rightarrow> 'r extract_worker \<Rightarrow> 'r extract_world \<Rightarrow> 'r extract_world" where
  "gives_back n wk w =
     (case (wk_phase wk, wk_token wk) of
        (Releasing result, Some token) \<Rightarrow>
          put_worker n (wk\<lparr>wk_phase := Through result\<rparr>) (w\<lparr>xw_lock := release_lock (xw_now w) token (xw_lock w)\<rparr>)
      | _ \<Rightarrow> w)"

text \<open>A heartbeat that finds the lock lost only warns.\<close>

definition beats :: "nat \<Rightarrow> nat \<Rightarrow> 'r extract_worker \<Rightarrow> 'r extract_world \<Rightarrow> 'r extract_world" where
  "beats timeoutMs n wk w =
     (case (holding (wk_phase wk), wk_token wk) of
        (True, Some token) \<Rightarrow>
          (let (renewed, lock) = renew_lock (xw_now w) token (lock_ttl_ms timeoutMs) (xw_lock w);
               w1 = w\<lparr>xw_lock := lock\<rparr>
           in if renewed then put_worker n (wk\<lparr>wk_renewed := xw_now w\<rparr>) w1 else w1)
      | _ \<Rightarrow> w)"

definition with_worker :: "nat \<Rightarrow> ('r extract_worker \<Rightarrow> 'r extract_world \<Rightarrow> 'r extract_world) \<Rightarrow> 'r extract_world \<Rightarrow> 'r extract_world" where
  "with_worker n f w = (case map_of (xw_workers w) n of None \<Rightarrow> w | Some wk \<Rightarrow> f wk w)"

definition extract_step :: "nat \<Rightarrow> 'r extract_event \<Rightarrow> 'r extract_world \<Rightarrow> 'r extract_world" where
  "extract_step timeoutMs ev w =
     (case ev of
        WorkerStarts n \<Rightarrow> if n \<in> set (keys_of (xw_workers w)) then w else worker_starts timeoutMs n w
      | LooksAtCache n \<Rightarrow> with_worker n (looks_at_cache n) w
      | TriesLock n token \<Rightarrow> with_worker n (tries_lock timeoutMs n token) w
      | WakesUp n \<Rightarrow> with_worker n (wakes_up n) w
      | YtDlpAnswers n result \<Rightarrow> with_worker n (yt_dlp_answers n result) w
      | WritesCache n \<Rightarrow> with_worker n (writes_cache n) w
      | GivesBack n \<Rightarrow> with_worker n (gives_back n) w
      | Beats n \<Rightarrow> with_worker n (beats timeoutMs n) w
      | WorkerCrashes n \<Rightarrow> with_worker n (\<lambda>wk. put_worker n (wk\<lparr>wk_phase := Crashed\<rparr>)) w
      | TimePasses dt \<Rightarrow> w\<lparr>xw_now := xw_now w + max 0 dt\<rparr>)"

definition initial_extract_world :: "jsnum \<Rightarrow> 'r extract_world" where
  "initial_extract_world now = \<lparr>xw_now = now, xw_cache = None, xw_lock = None, xw_workers = [], xw_tokens = []\<rparr>"

inductive extract_reachable :: "nat \<Rightarrow> 'r extract_world \<Rightarrow> bool" for timeoutMs where
  start: "extract_reachable timeoutMs (initial_extract_world now)"
| step: "extract_reachable timeoutMs w \<Longrightarrow> extract_reachable timeoutMs (extract_step timeoutMs ev w)"

section \<open>Exclusion\<close>

text \<open>
  A worker whose lock was confirmed less than its life ago owns it until then; the tokens of workers are those
  handed out, each to one worker.
\<close>

definition owns_till :: "nat \<Rightarrow> 'r extract_world \<Rightarrow> 'r extract_worker \<Rightarrow> bool" where
  "owns_till timeoutMs w wk =
     (holding (wk_phase wk) \<longrightarrow>
       (\<exists>token. wk_token wk = Some token \<and> token \<in> set (xw_tokens w) \<and>
         (xw_now w < wk_renewed wk + lock_ttl_ms timeoutMs \<longrightarrow>
            (\<exists>expires. xw_lock w = Some (token, expires) \<and> wk_renewed wk + lock_ttl_ms timeoutMs \<le> expires))))"

definition lock_wf :: "nat \<Rightarrow> 'r extract_world \<Rightarrow> bool" where
  "lock_wf timeoutMs w =
     ((\<forall>n wk. map_of (xw_workers w) n = Some wk \<longrightarrow> owns_till timeoutMs w wk) \<and>
      (\<forall>n wk m wk' token. map_of (xw_workers w) n = Some wk \<longrightarrow> map_of (xw_workers w) m = Some wk' \<longrightarrow>
         wk_token wk = Some token \<longrightarrow> wk_token wk' = Some token \<longrightarrow> n = m) \<and>
      (\<forall>n wk token. map_of (xw_workers w) n = Some wk \<longrightarrow> wk_token wk = Some token \<longrightarrow> token \<in> set (xw_tokens w)) \<and>
      (\<forall>token expires. xw_lock w = Some (token, expires) \<longrightarrow> token \<in> set (xw_tokens w)))"

lemma lock_ttl_pos: "0 < lock_ttl_ms timeoutMs"
  by (simp add: lock_ttl_ms_def derived_lock_heartbeat_ttl_seconds_def)

text \<open>A heartbeat may be lost without the lock: two fit into its life.\<close>

lemma two_beats_in_a_life: "2 * heartbeat_interval_ms timeoutMs < lock_ttl_ms timeoutMs"
proof -
  have floor: "js_floor x \<le> x" for x by (simp add: js_floor_def)
  have "10000 \<le> lock_ttl_ms timeoutMs"
    by (simp add: lock_ttl_ms_def derived_lock_heartbeat_ttl_seconds_def)
  then show ?thesis using floor [of "lock_ttl_ms timeoutMs / 3"] by (simp add: heartbeat_interval_ms_def max_def)
qed

lemma owns_frame [simp]: "owns_till timeoutMs (put_worker n wk w) = owns_till timeoutMs w"
  by (rule ext) (simp add: owns_till_def put_worker_def)

lemma put_reads [simp]: "xw_lock (put_worker n wk w) = xw_lock w" "xw_tokens (put_worker n wk w) = xw_tokens w"
  "xw_now (put_worker n wk w) = xw_now w"
  "map_of (xw_workers (put_worker n wk w)) m = (if m = n then Some wk else map_of (xw_workers w) m)"
  by (simp_all add: put_worker_def)

lemma lock_wfD:
  assumes "lock_wf timeoutMs w"
  shows "map_of (xw_workers w) n = Some wk \<Longrightarrow> owns_till timeoutMs w wk"
    "map_of (xw_workers w) n = Some wk \<Longrightarrow> map_of (xw_workers w) m = Some wk' \<Longrightarrow>
       wk_token wk = Some token \<Longrightarrow> wk_token wk' = Some token \<Longrightarrow> n = m"
    "map_of (xw_workers w) n = Some wk \<Longrightarrow> wk_token wk = Some token \<Longrightarrow> token \<in> set (xw_tokens w)"
    "xw_lock w = Some (token, expires) \<Longrightarrow> token \<in> set (xw_tokens w)"
  using assms unfolding lock_wf_def by blast+

lemma lock_wfI:
  assumes "\<And>n wk. map_of (xw_workers w) n = Some wk \<Longrightarrow> owns_till timeoutMs w wk"
    and "\<And>n wk m wk' token. map_of (xw_workers w) n = Some wk \<Longrightarrow> map_of (xw_workers w) m = Some wk' \<Longrightarrow>
       wk_token wk = Some token \<Longrightarrow> wk_token wk' = Some token \<Longrightarrow> n = m"
    and "\<And>n wk token. map_of (xw_workers w) n = Some wk \<Longrightarrow> wk_token wk = Some token \<Longrightarrow> token \<in> set (xw_tokens w)"
    and "\<And>token expires. xw_lock w = Some (token, expires) \<Longrightarrow> token \<in> set (xw_tokens w)"
  shows "lock_wf timeoutMs w"
  using assms unfolding lock_wf_def by blast

text \<open>A worker that moves on without the lock.\<close>

lemma lock_wf_moves:
  assumes wf: "lock_wf timeoutMs w" and old: "map_of (xw_workers w) n = Some wk"
    and new: "wk_token wk' = wk_token wk" "wk_renewed wk' = wk_renewed wk" "holding (wk_phase wk') \<Longrightarrow> holding (wk_phase wk)"
  shows "lock_wf timeoutMs (put_worker n wk' w)"
proof -
  have before: "\<exists>wk0. map_of (xw_workers w) m = Some wk0 \<and> wk_token wk0 = wk_token wk1
      \<and> (owns_till timeoutMs w wk0 \<longrightarrow> owns_till timeoutMs w wk1)"
    if "map_of (xw_workers (put_worker n wk' w)) m = Some wk1" for m wk1
  proof (cases "m = n")
    case True
    then have "wk1 = wk'" using that by simp
    then show ?thesis using True old new by (auto simp: owns_till_def)
  qed (use that in simp)
  show ?thesis
  proof (rule lock_wfI)
    fix m wk1 assume "map_of (xw_workers (put_worker n wk' w)) m = Some wk1"
    then show "owns_till timeoutMs (put_worker n wk' w) wk1"
      using before lock_wfD(1) [OF wf] by (simp only: owns_frame) blast
  next
    fix m1 wk1 m2 wk2 token
    assume "map_of (xw_workers (put_worker n wk' w)) m1 = Some wk1" "map_of (xw_workers (put_worker n wk' w)) m2 = Some wk2"
      "wk_token wk1 = Some token" "wk_token wk2 = Some token"
    then show "m1 = m2" using before lock_wfD(2) [OF wf] by metis
  next
    fix m wk1 token assume "map_of (xw_workers (put_worker n wk' w)) m = Some wk1" "wk_token wk1 = Some token"
    then show "token \<in> set (xw_tokens (put_worker n wk' w))" using before lock_wfD(3) [OF wf] by (metis put_reads(2))
  next
    fix token expires assume "xw_lock (put_worker n wk' w) = Some (token, expires)"
    then show "token \<in> set (xw_tokens (put_worker n wk' w))" using lock_wfD(4) [OF wf] by simp
  qed
qed

lemma lock_wf_cache [simp]: "lock_wf timeoutMs (w\<lparr>xw_cache := c\<rparr>) = lock_wf timeoutMs w"
  by (simp add: lock_wf_def owns_till_def)

lemma lock_wf_time: "lock_wf timeoutMs w \<Longrightarrow> 0 \<le> dt \<Longrightarrow> lock_wf timeoutMs (w\<lparr>xw_now := xw_now w + dt\<rparr>)"
  unfolding lock_wf_def owns_till_def by (simp, fastforce)

text \<open>A worker whose lock is fresh excludes every other holder of the lock.\<close>

lemma fresh_holds:
  assumes "lock_wf timeoutMs w" "map_of (xw_workers w) n = Some wk" "holding (wk_phase wk)"
    and "xw_now w < wk_renewed wk + lock_ttl_ms timeoutMs"
  shows "lock_held (xw_now w) (xw_lock w) = wk_token wk" "wk_token wk \<noteq> None"
  using lock_wfD(1) [OF assms(1,2)] assms(3,4) by (auto simp: owns_till_def lock_held_def)

lemma tries_lock_wf:
  assumes wf: "lock_wf timeoutMs w" and old: "map_of (xw_workers w) n = Some wk"
  shows "lock_wf timeoutMs (tries_lock timeoutMs n token wk w)"
proof (cases "wk_phase wk = Trying \<and> token \<notin> set (xw_tokens w)")
  case False
  then show ?thesis using wf by (auto simp: tries_lock_def)
next
  case True
  let ?ttl = "lock_ttl_ms timeoutMs"
  have more: "lock_wf timeoutMs (w\<lparr>xw_tokens := token # xw_tokens w\<rparr>)"
  proof (rule lock_wfI)
    fix m wk1 assume "map_of (xw_workers (w\<lparr>xw_tokens := token # xw_tokens w\<rparr>)) m = Some wk1"
    then show "owns_till timeoutMs (w\<lparr>xw_tokens := token # xw_tokens w\<rparr>) wk1"
      using lock_wfD(1) [OF wf, of m wk1] by (auto simp: owns_till_def)
  qed (use lock_wfD(2-4) [OF wf] in \<open>auto dest: lock_wfD(2-4) [OF wf]\<close>)
  show ?thesis
  proof (cases "lock_held (xw_now w) (xw_lock w) = None")
    case False
    then have "tries_lock timeoutMs n token wk w =
        put_worker n (wk\<lparr>wk_phase := Sleeping (xw_now w + wait_poll_ms), wk_waited := True\<rparr>) (w\<lparr>xw_tokens := token # xw_tokens w\<rparr>)"
      using True by (auto simp: tries_lock_def try_acquire_def)
    then show ?thesis using old by (simp, intro lock_wf_moves [OF more]) (simp_all add: holding_def)
  next
    case free: True
    define wk' where "wk' = wk\<lparr>wk_phase := FirstLook, wk_token := Some token, wk_renewed := xw_now w\<rparr>"
    define w1 where "w1 = w\<lparr>xw_lock := Some (token, xw_now w + ?ttl), xw_tokens := token # xw_tokens w\<rparr>"
    have step: "tries_lock timeoutMs n token wk w = put_worker n wk' w1"
      using True free by (simp add: tries_lock_def try_acquire_def wk'_def w1_def)
    have stale: "\<not> xw_now w < wk_renewed wk1 + ?ttl" if "map_of (xw_workers w) m = Some wk1" "holding (wk_phase wk1)" for m wk1
      using fresh_holds [OF wf that] free by auto
    have other: "owns_till timeoutMs w1 wk1" if "map_of (xw_workers w) m = Some wk1" for m wk1
      using lock_wfD(1) [OF wf that] stale [OF that] by (auto simp: owns_till_def w1_def)
    have own: "owns_till timeoutMs w1 wk'" by (simp add: owns_till_def w1_def wk'_def)
    have unused: "wk_token wk1 \<noteq> Some token" if "map_of (xw_workers w) m = Some wk1" for m wk1
      using lock_wfD(3) [OF wf that] True by blast
    show ?thesis unfolding step
    proof (rule lock_wfI)
      fix m wk1 assume "map_of (xw_workers (put_worker n wk' w1)) m = Some wk1"
      then show "owns_till timeoutMs (put_worker n wk' w1) wk1" using other own by (auto simp: w1_def split: if_splits)
    next
      fix m1 wk1 m2 wk2 tk
      assume "map_of (xw_workers (put_worker n wk' w1)) m1 = Some wk1" "map_of (xw_workers (put_worker n wk' w1)) m2 = Some wk2"
        "wk_token wk1 = Some tk" "wk_token wk2 = Some tk"
      then show "m1 = m2"
        using lock_wfD(2) [OF wf, of m1 _ m2] unused by (auto simp: w1_def wk'_def split: if_splits)
    next
      fix m wk1 tk assume "map_of (xw_workers (put_worker n wk' w1)) m = Some wk1" "wk_token wk1 = Some tk"
      then show "tk \<in> set (xw_tokens (put_worker n wk' w1))"
        using lock_wfD(3) [OF wf, of m] by (auto simp: w1_def wk'_def split: if_splits)
    next
      fix tk expires assume "xw_lock (put_worker n wk' w1) = Some (tk, expires)"
      then show "tk \<in> set (xw_tokens (put_worker n wk' w1))" by (simp add: w1_def)
    qed
  qed
qed

text \<open>A change of the lock that only the holder of its token can make.\<close>

lemma lock_change_wf:
  assumes wf: "lock_wf timeoutMs w" and old: "map_of (xw_workers w) n = Some wk" and token: "wk_token wk = Some token"
    and held: "lock_held (xw_now w) (xw_lock w) = Some token"
    and same: "wk_token wk' = Some token"
    and own: "owns_till timeoutMs (w\<lparr>xw_lock := lock\<rparr>) wk'"
    and mine: "\<And>t expires. lock = Some (t, expires) \<Longrightarrow> t = token"
  shows "lock_wf timeoutMs (put_worker n wk' (w\<lparr>xw_lock := lock\<rparr>))"
proof -
  let ?w = "put_worker n wk' (w\<lparr>xw_lock := lock\<rparr>)"
  have others: "owns_till timeoutMs (w\<lparr>xw_lock := lock\<rparr>) wk1" if m: "map_of (xw_workers w) m = Some wk1" "m \<noteq> n" for m wk1
  proof -
    have "\<not> xw_now w < wk_renewed wk1 + lock_ttl_ms timeoutMs" if "holding (wk_phase wk1)"
      using fresh_holds [OF wf m(1) that] held lock_wfD(2) [OF wf m(1) old _ token] m(2) by auto
    then show ?thesis using lock_wfD(1) [OF wf m(1)] by (auto simp: owns_till_def)
  qed
  have before: "\<exists>wk0. map_of (xw_workers w) m = Some wk0 \<and> wk_token wk0 = wk_token wk1"
    if "map_of (xw_workers ?w) m = Some wk1" for m wk1
    using that old token same by (auto split: if_splits)
  show ?thesis
  proof (rule lock_wfI)
    fix m wk1 assume "map_of (xw_workers ?w) m = Some wk1"
    then show "owns_till timeoutMs ?w wk1" using others own by (auto split: if_splits)
  next
    fix m1 wk1 m2 wk2 t
    assume "map_of (xw_workers ?w) m1 = Some wk1" "map_of (xw_workers ?w) m2 = Some wk2" "wk_token wk1 = Some t" "wk_token wk2 = Some t"
    then show "m1 = m2" using before lock_wfD(2) [OF wf] by metis
  next
    fix m wk1 t assume "map_of (xw_workers ?w) m = Some wk1" "wk_token wk1 = Some t"
    then show "t \<in> set (xw_tokens ?w)" using before lock_wfD(3) [OF wf] by fastforce
  next
    fix t expires assume "xw_lock ?w = Some (t, expires)"
    then show "t \<in> set (xw_tokens ?w)" using mine lock_wfD(3) [OF wf old token] by simp
  qed
qed

lemma beats_wf:
  assumes wf: "lock_wf timeoutMs w" and old: "map_of (xw_workers w) n = Some wk"
  shows "lock_wf timeoutMs (beats timeoutMs n wk w)"
proof (cases "holding (wk_phase wk) \<and> (\<exists>token. wk_token wk = Some token \<and> lock_held (xw_now w) (xw_lock w) = Some token)")
  case True
  then obtain token where t: "wk_token wk = Some token" "lock_held (xw_now w) (xw_lock w) = Some token" and h: "holding (wk_phase wk)" by blast
  have "lock_wf timeoutMs (put_worker n (wk\<lparr>wk_renewed := xw_now w\<rparr>) (w\<lparr>xw_lock := Some (token, xw_now w + lock_ttl_ms timeoutMs)\<rparr>))"
    by (rule lock_change_wf [OF wf old t]) (use t h lock_wfD(3) [OF wf old t(1)] in \<open>auto simp: owns_till_def\<close>)
  then show ?thesis using t h by (simp add: beats_def renew_lock_def)
next
  case False
  then show ?thesis using wf by (auto simp: beats_def renew_lock_def split: option.split bool.split)
qed

lemma gives_back_wf:
  assumes wf: "lock_wf timeoutMs w" and old: "map_of (xw_workers w) n = Some wk"
  shows "lock_wf timeoutMs (gives_back n wk w)"
proof (cases "\<exists>result token. wk_phase wk = Releasing result \<and> wk_token wk = Some token")
  case True
  then obtain result token where r: "wk_phase wk = Releasing result" and t: "wk_token wk = Some token" by blast
  let ?wk = "wk\<lparr>wk_phase := Through result\<rparr>"
  have "lock_wf timeoutMs (put_worker n ?wk (w\<lparr>xw_lock := None\<rparr>))" if "lock_held (xw_now w) (xw_lock w) = Some token"
    by (rule lock_change_wf [OF wf old t that]) (use t in \<open>auto simp: owns_till_def holding_def\<close>)
  moreover have "lock_wf timeoutMs (put_worker n ?wk w)" by (rule lock_wf_moves [OF wf old]) (simp_all add: holding_def)
  ultimately show ?thesis by (simp add: gives_back_def r t release_lock_def)
next
  case False
  then show ?thesis using wf by (auto simp: gives_back_def split: extract_phase.split option.split)
qed

lemma looks_wf:
  assumes wf: "lock_wf timeoutMs w" and old: "map_of (xw_workers w) n = Some wk"
  shows "lock_wf timeoutMs (looks_at_cache n wk w)"
  using wf by (auto simp: looks_at_cache_def Let_def split: extract_phase.split option.split
      intro!: lock_wf_moves [OF wf old] simp: holding_def)

lemma starts_wf:
  assumes wf: "lock_wf timeoutMs w" shows "lock_wf timeoutMs (worker_starts timeoutMs n w)"
proof -
  have known: "map_of (xw_workers w) m = Some wk"
    if "map_of (xw_workers (worker_starts timeoutMs n w)) m = Some wk" "wk_token wk \<noteq> None" for m wk
    using that by (auto simp: worker_starts_def split: if_splits)
  show ?thesis
  proof (rule lock_wfI)
    fix m wk assume m: "map_of (xw_workers (worker_starts timeoutMs n w)) m = Some wk"
    show "owns_till timeoutMs (worker_starts timeoutMs n w) wk"
    proof (cases "m = n")
      case True then show ?thesis using m by (auto simp: worker_starts_def owns_till_def holding_def)
    next
      case False then show ?thesis using m lock_wfD(1) [OF wf, of m wk] by (simp add: worker_starts_def)
    qed
  next
    fix m1 wk1 m2 wk2 t
    assume "map_of (xw_workers (worker_starts timeoutMs n w)) m1 = Some wk1" "map_of (xw_workers (worker_starts timeoutMs n w)) m2 = Some wk2"
      "wk_token wk1 = Some t" "wk_token wk2 = Some t"
    then show "m1 = m2" using known lock_wfD(2) [OF wf] by (metis option.distinct(1))
  next
    fix m wk t assume "map_of (xw_workers (worker_starts timeoutMs n w)) m = Some wk" "wk_token wk = Some t"
    then show "t \<in> set (xw_tokens (worker_starts timeoutMs n w))"
      using known [of m wk] lock_wfD(3) [OF wf, of m wk t] by (simp add: worker_starts_def split: if_splits)
  next
    fix t expires assume "xw_lock (worker_starts timeoutMs n w) = Some (t, expires)"
    then show "t \<in> set (xw_tokens (worker_starts timeoutMs n w))" using lock_wfD(4) [OF wf] by (simp add: worker_starts_def)
  qed
qed

lemma extract_step_wf:
  assumes wf: "lock_wf timeoutMs w" shows "lock_wf timeoutMs (extract_step timeoutMs ev w)"
proof -
  have worker: "lock_wf timeoutMs (with_worker n f w)"
    if "\<And>wk. map_of (xw_workers w) n = Some wk \<Longrightarrow> lock_wf timeoutMs (f wk w)" for n f
    using that wf by (simp add: with_worker_def split: option.split)
  show ?thesis
  proof (cases ev)
    case (WorkerStarts n)
    have "lock_wf timeoutMs (worker_starts timeoutMs n w)" using starts_wf [OF wf] .
    then show ?thesis using WorkerStarts wf by (simp add: extract_step_def)
  next
    case (TimePasses dt)
    then show ?thesis using lock_wf_time [OF wf, of "max 0 dt"] by (simp add: extract_step_def)
  qed (auto simp: extract_step_def wakes_up_def yt_dlp_answers_def writes_cache_def holding_def split: extract_phase.split
      intro!: worker looks_wf [OF wf] tries_lock_wf [OF wf] beats_wf [OF wf] gives_back_wf [OF wf] lock_wf_moves [OF wf] wf
        lock_wf_moves [where w = "w\<lparr>xw_cache := _\<rparr>"])
qed

lemma extract_reachable_wf: "extract_reachable timeoutMs w \<Longrightarrow> lock_wf timeoutMs w"
proof (induction rule: extract_reachable.induct)
  case (start now)
  show ?case by (simp add: lock_wf_def initial_extract_world_def)
next
  case (step w ev)
  from step.IH show ?case by (rule extract_step_wf)
qed

text \<open>
  C37. Extractions of one URL exclude each other across all servers while heartbeats arrive: of two workers that
  hold the lock or believe they do, at most one had it confirmed within its life, whatever other workers ask,
  wait, crash or take over in between.
\<close>

theorem extractions_exclusive:
  assumes "extract_reachable timeoutMs w"
    and "map_of (xw_workers w) n = Some wk" "holding (wk_phase wk)" "xw_now w < wk_renewed wk + lock_ttl_ms timeoutMs"
    and "map_of (xw_workers w) m = Some wk'" "holding (wk_phase wk')" "xw_now w < wk_renewed wk' + lock_ttl_ms timeoutMs"
  shows "n = m"
proof -
  note wf = extract_reachable_wf [OF assms(1)]
  have "wk_token wk = wk_token wk'" "wk_token wk \<noteq> None"
    using fresh_holds [OF wf assms(2-4)] fresh_holds [OF wf assms(5-7)] by simp_all
  then show ?thesis using lock_wfD(2) [OF wf assms(2,5)] by auto
qed

definition extract_run :: "nat \<Rightarrow> 'r extract_event list \<Rightarrow> 'r extract_world" where
  "extract_run timeoutMs evs = fold (extract_step timeoutMs) evs (initial_extract_world 0)"

lemma extract_run_reachable: "extract_reachable timeoutMs (extract_run timeoutMs evs)"
  unfolding extract_run_def
  by (induction evs rule: rev_induct) (simp_all add: extract_reachable.intros)

definition first_holder :: "nat extract_event list" where
  "first_holder = [WorkerStarts 7, LooksAtCache 7, TriesLock 7 ''a'', LooksAtCache 7, LooksAtCache 7]"

lemmas extract_run_simps = extract_run_def extract_step_def with_worker_def worker_starts_def looks_at_cache_def tries_lock_def
  read_extract_cache_def try_acquire_def lock_held_def put_worker_def initial_extract_world_def lock_ttl_ms_def
  derived_lock_heartbeat_ttl_seconds_def derived_extract_failover_wait_ms_def

lemma first_holder_run: "extract_run 30000 first_holder =
  \<lparr>xw_now = 0, xw_cache = None, xw_lock = Some (''a'', 20000),
   xw_workers = [(7, \<lparr>wk_phase = Extracting, wk_deadline = 75000, wk_waited = False, wk_token = Some ''a'', wk_renewed = 0\<rparr>)],
   xw_tokens = [''a'']\<rparr>"
  by (simp add: first_holder_def extract_run_simps)

definition sample_worker :: "nat extract_worker" where
  "sample_worker = \<lparr>wk_phase = Extracting, wk_deadline = 75000, wk_waited = False, wk_token = Some ''a'', wk_renewed = 0\<rparr>"

lemma extractions_exclusive_witness:
  "{m. \<exists>wk'. map_of (xw_workers (extract_run 30000 first_holder)) m = Some wk' \<and> holding (wk_phase wk')
      \<and> 0 < wk_renewed wk' + lock_ttl_ms 30000} = {7}"
proof -
  let ?w = "extract_run 30000 first_holder"
  have holder: "map_of (xw_workers ?w) 7 = Some sample_worker" "xw_now ?w = 0" by (simp_all add: first_holder_run sample_worker_def)
  have held: "holding (wk_phase sample_worker)" "0 < wk_renewed sample_worker + lock_ttl_ms 30000"
    using lock_ttl_pos [of 30000] by (simp_all add: sample_worker_def holding_def)
  have "7 = m" if "map_of (xw_workers ?w) m = Some wk'" "holding (wk_phase wk')" "0 < wk_renewed wk' + lock_ttl_ms 30000" for m wk'
    by (rule extractions_exclusive [OF extract_run_reachable holder(1) held(1) _ that(1,2)]) (use holder(2) held(2) that(3) in simp_all)
  then show ?thesis using holder(1) held by blast
qed

text \<open>
  A holder that missed its heartbeats for the life of the lock goes on while another takes the lock: both run
  yt-dlp, and the heartbeat that finds the lock lost stops neither.
\<close>

lemma lost_lock_runs_twice:
  "map (\<lambda>(n, wk). (n, wk_phase wk)) (xw_workers (extract_run 30000
      (first_holder @ [TimePasses 20000, WorkerStarts 8, LooksAtCache 8, TriesLock 8 ''b'', LooksAtCache 8, LooksAtCache 8, Beats 7]))) =
   [(7, Extracting), (8, Extracting)]"
proof -
  have "extract_run 30000 (first_holder @ evs) = fold (extract_step 30000) evs (extract_run 30000 first_holder)" for evs :: "nat extract_event list"
    by (simp add: extract_run_def)
  then show ?thesis
    unfolding first_holder_run
    by (simp add: extract_step_def with_worker_def worker_starts_def looks_at_cache_def tries_lock_def read_extract_cache_def
        try_acquire_def lock_held_def put_worker_def beats_def renew_lock_def holding_def derived_extract_failover_wait_ms_def Let_def)
qed

text \<open>A crashed holder is succeeded: once its lock has expired, the next worker that tries gets it.\<close>

lemma expired_lock_taken:
  assumes "map_of (xw_workers w) n = Some wk" "wk_phase wk = Trying" "xw_lock w = Some (t, expires)" "expires \<le> xw_now w"
    and "token \<notin> set (xw_tokens w)"
  shows "map_of (xw_workers (extract_step timeoutMs (TriesLock n token) w)) n =
    Some (wk\<lparr>wk_phase := FirstLook, wk_token := Some token, wk_renewed := xw_now w\<rparr>)"
  using assms by (simp add: extract_step_def with_worker_def tries_lock_def try_acquire_def lock_held_def)

text \<open>A worker whose time is up looks once more and is through.\<close>

lemma late_worker_ends:
  assumes "map_of (xw_workers w) n = Some wk" "wk_phase wk = LoopHead" "wk_deadline wk \<le> xw_now w"
  shows "\<exists>wk'. map_of (xw_workers (extract_step timeoutMs (LooksAtCache n) (extract_step timeoutMs (LooksAtCache n) w))) n = Some wk'
    \<and> wk_phase wk' \<in> {TimedOut} \<union> range Through"
  using assms by (simp add: extract_step_def with_worker_def looks_at_cache_def Let_def split: option.split)

text \<open>What a waiter reads was written less than ten minutes ago.\<close>

lemma cached_success_fresh:
  assumes "read_extract_cache now (Some entry) = Some r" "xr_ok r"
  shows "now \<le> ce_extractedAt entry + 600000"
  using assms by (auto simp: read_extract_cache_def freshness_filter_def Let_def derived_stream_url_max_age_seconds_def
      ytdlp_cache_retention_seconds_def max_def field_simps split: if_splits)

text \<open>The class of a site that cannot be extracted is none the cache reads back: each worker runs yt-dlp again.\<close>

lemma unsupported_never_cached:
  "classify_yt_dlp_run_failure ''ERROR: Unsupported URL: https://x.example/play'' None None = Unsupported"
  "read_extract_cache now (write_extract_cache now' (Extract_failed Unsupported) None) = None"
  by (code_simp, simp add: read_extract_cache_def write_extract_cache_def result_parses_def cached_classes_def xr_ok_def
      ytdlp_cache_failure_ttl_seconds_def)

lemma known_failure_cached_a_minute:
  assumes "c \<noteq> Unsupported" "now' \<le> now"
  shows "read_extract_cache now (write_extract_cache now' (Extract_failed c) cache) = Some (Extract_failed c)
    \<longleftrightarrow> now < now' + 60000"
  using assms by (cases c) (simp_all add: read_extract_cache_def write_extract_cache_def result_parses_def cached_classes_def
      xr_ok_def freshness_filter_def ytdlp_cache_failure_ttl_seconds_def not_le)

lemma stderr_classes:
  "classify_yt_dlp_stderr ''ERROR: [twitch:stream] cool_user: The channel is not currently live'' = Not_live"
  "classify_yt_dlp_stderr ''ERROR: [youtube] abc: Video does not exist'' = Not_found"
  "classify_yt_dlp_stderr ''ERROR: Private video. Sign in to confirm'' = Login_required"
  "classify_yt_dlp_stderr ''ERROR: Unable to download webpage: HTTP Error 403'' = Network"
  "classify_yt_dlp_stderr ''ERROR: mysterious extractor failure'' = Unknown"
  by code_simp+

end
