(* ===== verification/Hls_Rewrite.thy ===== *)
theory Hls_Rewrite
  imports Extract_Lock
begin

text \<open>
  The rewriting of HLS playlists (\<open>src/src/server/media/hls-proxy-rewrite.ts\<close>): which URLs a playlist refers
  to, and the playlist with each of them replaced by its path on the proxy.  The resolution of a reference
  against the address of the playlist, \<open>new URL(raw, base).href\<close>, is the parameter \<open>href\<close>; a text of a
  structured playlist is the reference the rewriting is compared with.
\<close>

section \<open>References\<close>

type_synonym href_fun = "string \<Rightarrow> string \<Rightarrow> string option"

definition is_http_text :: "string \<Rightarrow> bool" where
  "is_http_text s = (starts_with (ascii_lower s) ''http://'' \<or> starts_with (ascii_lower s) ''https://'')"

definition resolve_http_url :: "href_fun \<Rightarrow> string \<Rightarrow> string \<Rightarrow> string option" where
  "resolve_http_url href raw baseUrl =
     (case href (trim raw) baseUrl of
        Some u \<Rightarrow> if is_http_text u then Some u else None
      | None \<Rightarrow> None)"

text \<open>
  The matches of \<open>URI="([^"]+)"\<close>, for a quote \<open>q\<close>, from the left and without overlap; what lies between them
  is kept character by character.
\<close>

datatype attr_segment = Plain char | Uri_attr string

function attr_segments :: "char \<Rightarrow> string \<Rightarrow> attr_segment list" where
  "attr_segments q [] = []"
| "attr_segments q (c # cs) =
     (let body = drop 5 (c # cs); uri = takeWhile (\<lambda>x. x \<noteq> q) body in
      if take 5 (c # cs) = ''URI='' @ [q] \<and> uri \<noteq> [] \<and> length uri < length body
      then Uri_attr uri # attr_segments q (drop (length uri + 1) body)
      else Plain c # attr_segments q cs)"
  by pat_completeness auto
termination by (relation "measure (\<lambda>(q, s). length s)") auto

definition attr_uris :: "char \<Rightarrow> string \<Rightarrow> string list" where
  "attr_uris q s = concat (map (\<lambda>seg. case seg of Plain _ \<Rightarrow> [] | Uri_attr u \<Rightarrow> [u]) (attr_segments q s))"

definition quote_double :: char where "quote_double = CHR 34"
definition quote_single :: char where "quote_single = CHR 39"

text \<open>\<open>split(/\\r?\\n/)\<close>.\<close>

fun split_lines :: "string \<Rightarrow> string list" where
  "split_lines [] = [[]]"
| "split_lines (c # cs) =
     (if c = CHR 10 then [] # split_lines cs
      else if c = CHR 13 \<and> cs \<noteq> [] \<and> hd cs = CHR 10 then split_lines cs
      else case split_lines cs of l # ls \<Rightarrow> (c # l) # ls | [] \<Rightarrow> [[c]])"

definition line_refs :: "string \<Rightarrow> string list" where
  "line_refs line = (let t = trim line in if t = [] \<or> hd t = CHR ''#'' then [] else [t])"

text \<open>The members of a \<open>Set\<close> in the order they were first added.\<close>

definition set_members :: "'a list \<Rightarrow> 'a list" where "set_members xs = rev (remdups (rev xs))"

lemma set_members_simps [simp]: "set (set_members xs) = set xs" "distinct (set_members xs)"
  by (simp_all add: set_members_def)

definition collect_m3u8_referenced_urls :: "href_fun \<Rightarrow> string \<Rightarrow> string \<Rightarrow> string list" where
  "collect_m3u8_referenced_urls href body baseUrl =
     set_members (List.map_filter (\<lambda>raw. resolve_http_url href raw baseUrl)
       (attr_uris quote_double body @ attr_uris quote_single body @ concat (map line_refs (split_lines body))))"

section \<open>Rewriting\<close>

definition attr_text :: "char \<Rightarrow> string \<Rightarrow> string" where
  "attr_text q u = ''URI='' @ [q] @ u @ [q]"

definition proxied :: "href_fun \<Rightarrow> string \<Rightarrow> (string \<rightharpoonup> string) \<Rightarrow> string \<Rightarrow> string option" where
  "proxied href baseUrl proxyMap uri = Option.bind (href uri baseUrl) proxyMap"

definition rewrite_attrs :: "href_fun \<Rightarrow> string \<Rightarrow> (string \<rightharpoonup> string) \<Rightarrow> char \<Rightarrow> string \<Rightarrow> string" where
  "rewrite_attrs href baseUrl proxyMap q line =
     concat (map (\<lambda>seg. case seg of
         Plain c \<Rightarrow> [c]
       | Uri_attr u \<Rightarrow> attr_text q (case proxied href baseUrl proxyMap u of Some p \<Rightarrow> p | None \<Rightarrow> u)) (attr_segments q line))"

text \<open>The length of the space at the end is cut from the front.\<close>

definition rewrite_line_with_map :: "href_fun \<Rightarrow> string \<Rightarrow> (string \<rightharpoonup> string) \<Rightarrow> string \<Rightarrow> string" where
  "rewrite_line_with_map href baseUrl proxyMap line =
     (let result = rewrite_attrs href baseUrl proxyMap quote_single (rewrite_attrs href baseUrl proxyMap quote_double line);
          trimmed = trim_end result;
          leadingLen = length result - length trimmed;
          leadWs = take leadingLen result;
          content = trim trimmed
      in if content \<noteq> [] \<and> hd content \<noteq> CHR ''#''
         then (case proxied href baseUrl proxyMap content of Some p \<Rightarrow> leadWs @ p | None \<Rightarrow> result)
         else result)"

fun join_lines :: "string \<Rightarrow> string list \<Rightarrow> string" where
  "join_lines eol [] = []"
| "join_lines eol [l] = l"
| "join_lines eol (l # ls) = l @ eol @ join_lines eol ls"

definition rewrite_m3u8_body_with_proxy_map :: "href_fun \<Rightarrow> string \<Rightarrow> string \<Rightarrow> (string \<rightharpoonup> string) \<Rightarrow> string" where
  "rewrite_m3u8_body_with_proxy_map href body baseUrl proxyMap =
     join_lines [CHR 10] (map (rewrite_line_with_map href baseUrl proxyMap) (split_lines body))"

section \<open>What is taken for a playlist\<close>

text \<open>A search for a dot and one of the endings, before a question mark or the end.\<close>

definition has_ending :: "string list \<Rightarrow> string \<Rightarrow> bool" where
  "has_ending exts s = list_ex (\<lambda>t. list_ex (\<lambda>e. take (length e + 1) t = CHR ''.'' # e \<and>
      (length t = length e + 1 \<or> t ! (length e + 1) = CHR ''?'')) exts) (tails_of (ascii_lower s))"

definition looks_like_hls_playlist :: "string \<Rightarrow> string \<Rightarrow> bool" where
  "looks_like_hls_playlist body contentType =
     (let ct = ascii_lower contentType in
      found_in ''mpegurl'' ct \<or> found_in ''m3u8'' ct \<or> starts_with (trim_start (take 200 body)) ''#EXTM3U'')"

definition playlist_target_hint :: "string \<Rightarrow> string \<Rightarrow> bool" where
  "playlist_target_hint target contentType =
     (let ct = ascii_lower contentType in
      found_in ''mpegurl'' ct \<or> found_in ''m3u8'' ct \<or> has_ending [''m3u8''] target \<or>
      ((ct = [] \<or> found_in ''octet-stream'' ct \<or> found_in ''text/plain'' ct) \<and>
       \<not> has_ending [''ts'', ''m4s'', ''mp4'', ''webm'', ''aac'', ''m4a''] target))"

definition should_attempt_playlist_rewrite :: "string \<Rightarrow> string \<Rightarrow> bool" where
  "should_attempt_playlist_rewrite contentType bodySample = looks_like_hls_playlist bodySample contentType"

section \<open>Scanning\<close>

lemma found_in_Nil [simp]: "found_in pat [] = (pat = [])"
  by (auto simp: found_in_def)

lemma found_in_Cons: "found_in pat (c # cs) = (take (length pat) (c # cs) = pat \<or> found_in pat cs)"
  by (simp add: found_in_def)

text \<open>Text without the key is plain, whatever follows, as long as that does not complete the key.\<close>

lemma attr_segments_plain:
  assumes "\<not> found_in ''URI='' s" "r = [] \<or> hd r \<notin> set ''RI=''"
  shows "attr_segments q (s @ r) = map Plain s @ attr_segments q r"
  using assms
proof (induction s)
  case (Cons c cs)
  have "take 5 (c # cs @ r) \<noteq> ''URI='' @ [q]"
  proof
    assume eq: "take 5 (c # cs @ r) = ''URI='' @ [q]"
    have no: "take 4 (c # cs) \<noteq> ''URI=''" using Cons.prems(1) by (auto simp: found_in_Cons numeral_eq_Suc)
    show False
    proof (cases "length cs < 3")
      case True
      then consider "cs = []" | x where "cs = [x]" | x y where "cs = [x, y]"
        by (cases cs; cases "tl cs"; cases "tl (tl cs)") auto
      then show False using eq Cons.prems(2) by cases (cases r; auto)+
    next
      case False
      then have "take 4 (c # cs @ r) = take 4 (c # cs)" by (cases cs) auto
      moreover have "take 4 (c # cs @ r) = take 4 (take 5 (c # cs @ r))" by (simp add: min_def)
      ultimately have "take 4 (c # cs) = take 4 (''URI='' @ [q])" using eq by metis
      then show False using no by simp
    qed
  qed
  then have "attr_segments q (c # (cs @ r)) = Plain c # attr_segments q (cs @ r)"
    by (simp only: attr_segments.simps Let_def if_False simp_thms)
  moreover have "\<not> found_in ''URI='' cs" using Cons.prems(1) by (simp add: found_in_Cons)
  ultimately show ?case using Cons.IH Cons.prems(2) by simp
qed simp

lemma attr_segments_no_key: "\<not> found_in ''URI='' s \<Longrightarrow> attr_segments q s = map Plain s"
  using attr_segments_plain [of s "[]" q] by simp

lemma attr_segments_attr:
  assumes "u \<noteq> []" "q \<notin> set u"
  shows "attr_segments q (attr_text q u @ r) = Uri_attr u # attr_segments q r"
proof -
  have t: "takeWhile (\<lambda>x. x \<noteq> q) (u @ q # r) = u"
    by (subst takeWhile_append2) (use assms(2) in auto)
  have "attr_text q u @ r = CHR ''U'' # ''RI='' @ q # u @ q # r" by (simp add: attr_text_def)
  then show ?thesis using assms(1) t by (simp add: Let_def)
qed

text \<open>Without the quote there is no match.\<close>

lemma attr_segments_no_quote: "q \<notin> set s \<Longrightarrow> attr_segments q s = map Plain s"
proof (induction s)
  case (Cons c cs)
  have "take 5 (c # cs) \<noteq> ''URI='' @ [q]"
  proof
    assume "take 5 (c # cs) = ''URI='' @ [q]"
    then have "q \<in> set (take 5 (c # cs))" by simp
    then show False using Cons.prems by (meson in_set_takeD)
  qed
  then have "attr_segments q (c # cs) = Plain c # attr_segments q cs"
    by (simp only: attr_segments.simps Let_def if_False simp_thms)
  then show ?case using Cons by simp
qed simp

section \<open>Structured playlists\<close>

text \<open>
  A line of a playlist: text without a reference (a comment, a plain tag, a blank line), a reference of its own,
  or a tag with a quoted reference between a prefix and a suffix.
\<close>

datatype playlist_part = Text_line string | Uri_line string | Tag_line string char string string

fun render_part :: "playlist_part \<Rightarrow> string" where
  "render_part (Text_line t) = t"
| "render_part (Uri_line u) = u"
| "render_part (Tag_line p q u s) = p @ attr_text q u @ s"

definition render_playlist :: "string \<Rightarrow> playlist_part list \<Rightarrow> string" where
  "render_playlist eol parts = join_lines eol (map render_part parts)"

fun map_part :: "(string \<Rightarrow> string) \<Rightarrow> playlist_part \<Rightarrow> playlist_part" where
  "map_part f (Text_line t) = Text_line t"
| "map_part f (Uri_line u) = Uri_line (f u)"
| "map_part f (Tag_line p q u s) = Tag_line p q (f u) s"

fun part_refs :: "playlist_part \<Rightarrow> string list" where
  "part_refs (Text_line t) = []"
| "part_refs (Uri_line u) = [u]"
| "part_refs (Tag_line p q u s) = [u]"

definition one_line_text :: "string \<Rightarrow> bool" where
  "one_line_text s = (CHR 10 \<notin> set s \<and> CHR 13 \<notin> set s)"

definition plain_text :: "string \<Rightarrow> bool" where
  "plain_text s = (one_line_text s \<and> \<not> found_in ''URI='' s)"

fun part_wf :: "playlist_part \<Rightarrow> bool" where
  "part_wf (Text_line t) = (plain_text t \<and> (list_all is_ws t \<or> hd t = CHR ''#''))"
| "part_wf (Uri_line u) = (plain_text u \<and> u \<noteq> [] \<and> trim u = u \<and> hd u \<noteq> CHR ''#'')"
| "part_wf (Tag_line p q u s) =
     (plain_text p \<and> p \<noteq> [] \<and> hd p = CHR ''#'' \<and> plain_text s \<and> one_line_text u \<and> u \<noteq> [] \<and> trim u = u \<and>
      q \<in> {quote_double, quote_single} \<and> q \<notin> set u \<and>
      (\<forall>c\<in>set (p @ u @ s). c \<in> {quote_double, quote_single} \<longrightarrow> c = q))"

lemma quotes_differ [simp]: "quote_double \<noteq> quote_single" "quote_single \<noteq> quote_double"
  by (simp_all add: quote_double_def quote_single_def)

lemma attr_text_set: "set (attr_text q u) = set ''URI='' \<union> {q} \<union> set u"
  by (auto simp: attr_text_def)

text \<open>The passes over a line.\<close>

lemma rewrite_attrs_same:
  assumes "attr_segments q s = map Plain s" shows "rewrite_attrs href baseUrl pm q s = s"
  using assms by (simp add: rewrite_attrs_def comp_def)

lemma rewrite_attrs_tag:
  assumes "\<not> found_in ''URI='' p" "u \<noteq> []" "q \<notin> set u" "\<not> found_in ''URI='' s"
  shows "rewrite_attrs href baseUrl pm q (p @ attr_text q u @ s) =
    p @ attr_text q (case proxied href baseUrl pm u of Some x \<Rightarrow> x | None \<Rightarrow> u) @ s"
proof -
  have chars: "concat (map (\<lambda>c. [c]) xs) = xs" for xs :: string by (induction xs) simp_all
  have "attr_segments q (p @ attr_text q u @ s) = map Plain p @ Uri_attr u # map Plain s"
    using attr_segments_plain [OF assms(1), of "attr_text q u @ s" q] attr_segments_attr [OF assms(2,3), of s]
      attr_segments_no_key [OF assms(4)] by (simp add: attr_text_def)
  then show ?thesis by (simp add: rewrite_attrs_def comp_def chars)
qed

lemma trim_fixed_end:
  assumes "trim u = u" shows "trim_end u = u"
proof -
  have "length (trim_end x) \<le> length x" for x
    unfolding trim_end_def by (metis length_dropWhile_le length_rev)
  then have "length u \<le> length (trim_start u)" using assms unfolding trim_def by metis
  then have "trim_start u = u" unfolding trim_start_def
    by (metis append_eq_append_conv append_same_eq dropWhile_eq_self_iff length_append le_antisym length_dropWhile_le takeWhile_dropWhile_id self_append_conv2)
  then show ?thesis using assms by (simp add: trim_def)
qed

lemma hash_stays:
  assumes "t \<noteq> []" "hd t = CHR ''#''"
  shows "trim_end t \<noteq> []" "hd (trim_end t) = CHR ''#''" "trim t \<noteq> []" "hd (trim t) = CHR ''#''"
proof -
  have hash: "\<not> is_ws (CHR ''#'')" by (simp add: is_ws_def)
  have ends: "trim_end x \<noteq> [] \<and> hd (trim_end x) = CHR ''#''" if "x \<noteq> []" "hd x = CHR ''#''" for x
  proof -
    have "CHR ''#'' \<in> set (rev x)" using that by (cases x) auto
    then have "dropWhile is_ws (rev x) \<noteq> []" using hash by (auto simp: dropWhile_eq_Nil_conv)
    then have "trim_end x \<noteq> []" by (simp add: trim_end_def)
    then show ?thesis using trim_end_hd that(2) by simp
  qed
  have "trim_start t = t" using assms hash by (cases t) (auto simp: trim_start_def)
  then show "trim_end t \<noteq> []" "hd (trim_end t) = CHR ''#''" "trim t \<noteq> []" "hd (trim t) = CHR ''#''"
    using ends [OF assms] by (simp_all add: trim_def)
qed

lemma blank_trims:
  assumes "list_all is_ws t" shows "trim t = []" "trim (trim_end t) = []"
proof -
  have "set (trim_end t) \<subseteq> set t" by (auto simp: trim_end_def dest: set_dropWhileD)
  then show "trim t = []" "trim (trim_end t) = []" using assms unfolding trim_eq_Nil_iff by (auto simp: list_all_iff)
qed

text \<open>One line: the reference is replaced, everything else stays.\<close>

definition replaced :: "href_fun \<Rightarrow> string \<Rightarrow> (string \<rightharpoonup> string) \<Rightarrow> string \<Rightarrow> string" where
  "replaced href baseUrl pm u = (case proxied href baseUrl pm u of Some p \<Rightarrow> p | None \<Rightarrow> u)"

lemma rewrite_line_hash:
  assumes "rewrite_attrs href baseUrl pm quote_single (rewrite_attrs href baseUrl pm quote_double line) = t"
    and "list_all is_ws t \<or> hd t = CHR ''#''"
  shows "rewrite_line_with_map href baseUrl pm line = t"
proof (cases "list_all is_ws t")
  case True
  then show ?thesis unfolding rewrite_line_with_map_def assms(1) by (simp add: Let_def blank_trims)
next
  case False
  then have hash: "t \<noteq> []" "hd t = CHR ''#''" using assms(2) by auto
  then have "hd (trim (trim_end t)) = CHR ''#''" using hash_stays [of "trim_end t"] hash_stays [OF hash] by simp
  then show ?thesis unfolding rewrite_line_with_map_def assms(1) by (simp add: Let_def)
qed

lemma rewrite_part:
  assumes wf: "part_wf part" and paths: "\<And>p. p \<in> ran pm \<Longrightarrow> quote_single \<notin> set p"
  shows "rewrite_line_with_map href baseUrl pm (render_part part) = render_part (map_part (replaced href baseUrl pm) part)"
proof (cases part)
  case (Text_line t)
  then have "attr_segments q t = map Plain t" for q using wf attr_segments_no_key by (simp add: plain_text_def)
  then have "rewrite_attrs href baseUrl pm q t = t" for q by (rule rewrite_attrs_same)
  then show ?thesis using Text_line wf rewrite_line_hash [of href baseUrl pm t t] by simp
next
  case (Uri_line u)
  then have "attr_segments q u = map Plain u" for q using wf attr_segments_no_key by (simp add: plain_text_def)
  then have same: "rewrite_attrs href baseUrl pm q u = u" for q by (rule rewrite_attrs_same)
  have u: "trim u = u" "u \<noteq> []" "hd u \<noteq> CHR ''#''" using wf Uri_line by auto
  note e = trim_fixed_end [OF u(1)]
  have "rewrite_line_with_map href baseUrl pm u = replaced href baseUrl pm u"
    unfolding rewrite_line_with_map_def same Let_def e u(1) replaced_def using u(2,3) by (simp split: option.split)
  then show ?thesis by (simp add: Uri_line)
next
  case (Tag_line p q u s)
  have w: "\<not> found_in ''URI='' p" "\<not> found_in ''URI='' s" "u \<noteq> []" "q \<notin> set u" "p \<noteq> []" "hd p = CHR ''#''"
    "q \<in> {quote_double, quote_single}" using wf Tag_line by (auto simp: plain_text_def)
  have other: "c = q" if "c \<in> set (p @ attr_text q u @ s)" "c \<in> {quote_double, quote_single}" for c
    using that wf Tag_line by (auto simp: attr_text_set quote_double_def quote_single_def)
  let ?f = "replaced href baseUrl pm"
  have pass: "rewrite_attrs href baseUrl pm q (p @ attr_text q u @ s) = p @ attr_text q (?f u) @ s"
    unfolding replaced_def by (rule rewrite_attrs_tag [OF w(1,3,4,2)])
  have keep: "rewrite_attrs href baseUrl pm q' t = t" if "q' \<notin> set t" for q' t
    by (rule rewrite_attrs_same [OF attr_segments_no_quote [OF that]])
  have "rewrite_attrs href baseUrl pm quote_single (rewrite_attrs href baseUrl pm quote_double (p @ attr_text q u @ s))
      = p @ attr_text q (?f u) @ s"
  proof (cases "q = quote_double")
    case True
    have "quote_single \<notin> set u" "quote_single \<notin> set p" "quote_single \<notin> set s"
      using other [of quote_single] True by (auto simp: attr_text_set)
    moreover have "quote_single \<notin> set (?f u)"
      using paths \<open>quote_single \<notin> set u\<close> by (auto simp: replaced_def proxied_def bind_eq_Some_conv ran_def split: option.split)
    ultimately have "quote_single \<notin> set (p @ attr_text q (?f u) @ s)"
      using True by (auto simp: attr_text_set quote_single_def quote_double_def)
    then show ?thesis using pass True keep by simp
  next
    case False
    then have q: "q = quote_single" using w(7) by simp
    then have "quote_double \<notin> set (p @ attr_text q u @ s)" using other [of quote_double] by auto
    then show ?thesis using pass keep q by simp
  qed
  then show ?thesis using rewrite_line_hash [of href baseUrl pm _ "p @ attr_text q (?f u) @ s"] w(5,6) Tag_line by simp
qed

text \<open>Lines.\<close>

lemma split_lines_one: "one_line_text l \<Longrightarrow> split_lines l = [l]"
  by (induction l) (auto simp: one_line_text_def)

lemma split_lines_app:
  assumes "one_line_text l" "eol \<in> {[CHR 10], [CHR 13, CHR 10]}"
  shows "split_lines (l @ eol @ r) = l # split_lines r"
  using assms(1)
proof (induction l)
  case Nil
  then show ?case using assms(2) by auto
next
  case (Cons c l)
  then have "split_lines (l @ eol @ r) = l # split_lines r" "c \<noteq> CHR 10" "c \<noteq> CHR 13" by (auto simp: one_line_text_def)
  then show ?case by simp
qed

lemma split_lines_join:
  assumes "eol \<in> {[CHR 10], [CHR 13, CHR 10]}" "list_all one_line_text ls" "ls \<noteq> []"
  shows "split_lines (join_lines eol ls) = ls"
  using assms(2,3)
proof (induction ls)
  case (Cons l ls)
  then show ?case using split_lines_app [of l eol] assms(1) by (cases ls) (simp_all add: split_lines_one)
qed simp

lemma part_one_line: "part_wf part \<Longrightarrow> one_line_text (render_part part)"
  by (cases part) (auto simp: plain_text_def one_line_text_def attr_text_set quote_double_def quote_single_def)

lemma rewrite_rendered:
  assumes "list_all part_wf parts" "parts \<noteq> []" "eol \<in> {[CHR 10], [CHR 13, CHR 10]}"
    and "\<And>p. p \<in> ran pm \<Longrightarrow> quote_single \<notin> set p"
  shows "rewrite_m3u8_body_with_proxy_map href (render_playlist eol parts) baseUrl pm
    = render_playlist [CHR 10] (map (map_part (replaced href baseUrl pm)) parts)"
proof -
  have "split_lines (render_playlist eol parts) = map render_part parts"
    unfolding render_playlist_def by (rule split_lines_join [OF assms(3)]) (use assms(1,2) part_one_line in \<open>auto simp: list_all_iff\<close>)
  moreover have "map (rewrite_line_with_map href baseUrl pm) (map render_part parts)
      = map render_part (map (map_part (replaced href baseUrl pm)) parts)"
    using rewrite_part [OF _ assms(4)] assms(1) by (auto simp: list_all_iff)
  ultimately show ?thesis by (simp only: rewrite_m3u8_body_with_proxy_map_def render_playlist_def)
qed

text \<open>The references found in the text are those of its parts.\<close>

fun part_attr :: "char \<Rightarrow> playlist_part \<Rightarrow> string list" where
  "part_attr q (Tag_line p q' u s) = (if q = q' then [u] else [])"
| "part_attr q _ = []"

definition uris_of_segments :: "attr_segment list \<Rightarrow> string list" where
  "uris_of_segments segs = concat (map (\<lambda>seg. case seg of Plain _ \<Rightarrow> [] | Uri_attr u \<Rightarrow> [u]) segs)"

lemma uris_of_segments_simps [simp]:
  "uris_of_segments (map Plain s) = []" "uris_of_segments (xs @ ys) = uris_of_segments xs @ uris_of_segments ys"
  "uris_of_segments (Uri_attr u # xs) = u # uris_of_segments xs" "uris_of_segments (Plain c # xs) = uris_of_segments xs"
  "uris_of_segments [] = []"
  by (simp_all add: uris_of_segments_def comp_def)

lemma attr_uris_segments: "attr_uris q s = uris_of_segments (attr_segments q s)"
  by (simp add: attr_uris_def uris_of_segments_def)

text \<open>The key cannot begin in a text without the quote and end after it, when what follows begins otherwise.\<close>

lemma attr_segments_no_quote_then:
  assumes "q \<notin> set s" "r = [] \<or> hd r \<notin> set (''RI='' @ [q])"
  shows "attr_segments q (s @ r) = map Plain s @ attr_segments q r"
  using assms(1)
proof (induction s)
  case (Cons c cs)
  have "take 5 (c # cs @ r) \<noteq> ''URI='' @ [q]"
  proof
    assume eq: "take 5 (c # cs @ r) = ''URI='' @ [q]"
    show False
    proof (cases "4 \<le> length cs")
      case True
      then have "q \<in> set (take 5 (c # cs))" using eq by simp
      then show False using Cons.prems by (meson in_set_takeD)
    next
      case False
      have n: "take 5 (c # cs @ r) ! Suc (length cs) = (c # cs @ r) ! Suc (length cs)"
        by (rule nth_take) (use False in simp)
      have "r \<noteq> []" using eq False by (metis append_Nil2 append.simps(2) Cons.prems in_set_conv_decomp in_set_takeD)
      then have "hd r = (c # cs @ r) ! Suc (length cs)" by (simp add: nth_append hd_conv_nth)
      then have "hd r = (''URI='' @ [q]) ! Suc (length cs)" using n eq by metis
      moreover have "(''URI='' @ [q]) ! Suc k \<in> set (''RI='' @ [q])" if "k < 4" for k :: nat
        using that by (cases k; cases "k - 1"; cases "k - 2"; cases "k - 3") auto
      ultimately show False using False assms(2) \<open>r \<noteq> []\<close> by (metis not_le)
    qed
  qed
  then have "attr_segments q (c # (cs @ r)) = Plain c # attr_segments q (cs @ r)"
    by (simp only: attr_segments.simps Let_def if_False simp_thms)
  then show ?case using Cons by simp
qed simp

lemma attr_uris_part:
  assumes wf: "part_wf part" and q: "q \<in> {quote_double, quote_single}" and r: "r = [] \<or> hd r \<in> {CHR 10, CHR 13}"
  shows "attr_uris q (render_part part @ r) = part_attr q part @ attr_uris q r"
proof -
  have r': "r = [] \<or> hd r \<notin> set ''RI=''" "r = [] \<or> hd r \<notin> set (''RI='' @ [q])"
    using r q by (auto simp: quote_double_def quote_single_def)
  show ?thesis
  proof (cases part)
    case (Text_line t)
    then show ?thesis using wf attr_segments_plain [of t r q] r' by (simp add: attr_uris_segments plain_text_def)
  next
    case (Uri_line u)
    then show ?thesis using wf attr_segments_plain [of u r q] r' by (simp add: attr_uris_segments plain_text_def)
  next
    case (Tag_line p q' u s)
    then have w: "\<not> found_in ''URI='' p" "\<not> found_in ''URI='' s" "u \<noteq> []" "q' \<notin> set u" using wf by (auto simp: plain_text_def)
    show ?thesis
    proof (cases "q = q'")
      case True
      have "attr_segments q (p @ attr_text q u @ s @ r) = map Plain p @ Uri_attr u # map Plain s @ attr_segments q r"
        using attr_segments_plain [OF w(1), of "attr_text q u @ s @ r" q] attr_segments_attr [OF w(3), of q "s @ r"] w(4) True
          attr_segments_plain [OF w(2), of r q] r' by (simp add: attr_text_def)
      then show ?thesis using Tag_line True by (simp add: attr_uris_segments)
    next
      case False
      then have "q \<notin> set (p @ attr_text q' u @ s)"
        using wf Tag_line q by (auto simp: attr_text_set quote_double_def quote_single_def)
      then show ?thesis using Tag_line False attr_segments_no_quote_then [of q "p @ attr_text q' u @ s" r] r'
        by (simp add: attr_uris_segments)
    qed
  qed
qed

lemma attr_uris_rendered:
  assumes "list_all part_wf parts" "q \<in> {quote_double, quote_single}" "eol \<in> {[CHR 10], [CHR 13, CHR 10]}"
  shows "attr_uris q (render_playlist eol parts) = concat (map (part_attr q) parts)"
  using assms(1)
proof (induction parts)
  case Nil
  then show ?case by (simp add: render_playlist_def attr_uris_def)
next
  case (Cons part parts)
  have skip: "attr_uris q (eol @ x) = attr_uris q x" for x
    using assms(2,3) by (auto simp: attr_uris_segments Let_def)
  show ?case
  proof (cases parts)
    case Nil
    then show ?thesis using attr_uris_part [of part q "[]"] Cons.prems assms(2)
      by (simp add: render_playlist_def attr_uris_def)
  next
    case (Cons part' parts')
    then have "render_playlist eol (part # parts) = render_part part @ eol @ render_playlist eol parts"
      by (simp add: render_playlist_def)
    moreover have "eol @ x = [] \<or> hd (eol @ x) \<in> {CHR 10, CHR 13}" for x using assms(3) by auto
    ultimately show ?thesis using attr_uris_part [of part q "eol @ render_playlist eol parts"] Cons.prems Cons.IH skip assms(2)
      by simp
  qed
qed

lemma line_refs_part:
  assumes "part_wf part"
  shows "line_refs (render_part part) = (case part of Uri_line u \<Rightarrow> [u] | _ \<Rightarrow> [])"
proof (cases part)
  case (Text_line t)
  then show ?thesis using assms hash_stays [of t] blank_trims [of t] by (cases "t = []") (auto simp: line_refs_def Let_def)
next
  case (Tag_line p q u s)
  then show ?thesis using assms hash_stays [of "render_part part"] by (auto simp: line_refs_def Let_def)
qed (use assms in \<open>auto simp: line_refs_def Let_def\<close>)

lemma part_refs_covered:
  assumes "part_wf part"
  shows "set (part_refs part) = set (part_attr quote_double part) \<union> set (part_attr quote_single part)
    \<union> set (line_refs (render_part part))"
  using line_refs_part [OF assms] assms by (cases part) auto

lemma collect_rendered:
  assumes wf: "list_all part_wf parts" "parts \<noteq> []" and eol: "eol \<in> {[CHR 10], [CHR 13, CHR 10]}"
  shows "set (collect_m3u8_referenced_urls href (render_playlist eol parts) baseUrl)
    = {abs. \<exists>part\<in>set parts. \<exists>u\<in>set (part_refs part). resolve_http_url href u baseUrl = Some abs}"
proof -
  have "split_lines (render_playlist eol parts) = map render_part parts"
    unfolding render_playlist_def by (rule split_lines_join [OF eol]) (use wf part_one_line in \<open>auto simp: list_all_iff\<close>)
  moreover have "attr_uris q (render_playlist eol parts) = concat (map (part_attr q) parts)" if "q \<in> {quote_double, quote_single}" for q
    by (rule attr_uris_rendered [OF wf(1) that eol])
  moreover have "set (part_refs part) = set (part_attr quote_double part) \<union> set (part_attr quote_single part)
      \<union> set (line_refs (render_part part))" if "part \<in> set parts" for part
    using part_refs_covered that wf(1) by (simp add: list_all_iff)
  ultimately have "set (attr_uris quote_double (render_playlist eol parts) @ attr_uris quote_single (render_playlist eol parts)
      @ concat (map line_refs (split_lines (render_playlist eol parts)))) = (\<Union>part\<in>set parts. set (part_refs part))"
    by simp blast
  moreover have "set (List.map_filter f xs) = {y. \<exists>x\<in>set xs. f x = Some y}" for f :: "string \<Rightarrow> string option" and xs
    by (force simp: List.map_filter_def)
  ultimately show ?thesis unfolding collect_m3u8_referenced_urls_def set_members_simps by auto
qed

text \<open>
  A line that ends in space has that many characters of the reference left in front of the path: a browser
  asks for another address.
\<close>

lemma trailing_space_corrupts:
  "rewrite_m3u8_body_with_proxy_map (\<lambda>raw base. Some (base @ raw)) ''seg1.ts  '' ''https://c.example/''
     [''https://c.example/seg1.ts'' \<mapsto> ''/api/media/proxy/t''] = ''se/api/media/proxy/t''"
  by code_simp

text \<open>Without a path nothing changes but the ends of the lines.\<close>

lemma chars_again: "concat (map (\<lambda>seg. case seg of Plain c \<Rightarrow> [c] | Uri_attr u \<Rightarrow> attr_text q u) (attr_segments q s)) = s"
proof (induction q s rule: attr_segments.induct)
  case (2 q c cs)
  let ?body = "drop 5 (c # cs)" let ?uri = "takeWhile (\<lambda>x. x \<noteq> q) ?body"
  show ?case
  proof (cases "take 5 (c # cs) = ''URI='' @ [q] \<and> ?uri \<noteq> [] \<and> length ?uri < length ?body")
    case True
    have "?body = ?uri @ q # drop (length ?uri + 1) ?body"
    proof -
      have "dropWhile (\<lambda>x. x \<noteq> q) ?body \<noteq> []" using True
        by (metis append_Nil2 less_irrefl takeWhile_dropWhile_id)
      then obtain x rest where d: "dropWhile (\<lambda>x. x \<noteq> q) ?body = x # rest" by (cases "dropWhile (\<lambda>x. x \<noteq> q) ?body") auto
      then have "x = q" using hd_dropWhile [of "\<lambda>x. x \<noteq> q" ?body] by simp
      moreover have "?body = ?uri @ x # rest" using d takeWhile_dropWhile_id [of "\<lambda>x. x \<noteq> q" ?body] by simp
      ultimately show ?thesis by (metis append_eq_conv_conj drop_drop drop_Suc_Cons drop0 add.commute plus_1_eq_Suc)
    qed
    then have "c # cs = (''URI='' @ [q]) @ ?uri @ q # drop (length ?uri + 1) ?body"
      using True append_take_drop_id [of 5 "c # cs"] by metis
    moreover have "attr_segments q (c # cs) = Uri_attr ?uri # attr_segments q (drop (length ?uri + 1) ?body)"
      using True by (simp only: attr_segments.simps Let_def if_True simp_thms)
    ultimately show ?thesis using "2.IH"(1) [OF refl refl True] by (simp add: attr_text_def)
  next
    case False
    then have "attr_segments q (c # cs) = Plain c # attr_segments q cs"
      by (simp only: attr_segments.simps Let_def if_False)
    then show ?thesis using "2.IH"(2) [OF refl refl False] by simp
  qed
qed simp

lemma empty_map_keeps_lines:
  "rewrite_m3u8_body_with_proxy_map href body baseUrl (\<lambda>_. None) = join_lines [CHR 10] (split_lines body)"
proof -
  have none: "proxied href baseUrl (\<lambda>_. None) u = None" for u by (simp add: proxied_def bind_eq_None_conv) 
  have "rewrite_attrs href baseUrl (\<lambda>_. None) q s = s" for q s
    unfolding rewrite_attrs_def none option.case by (rule chars_again)
  then have "rewrite_line_with_map href baseUrl (\<lambda>_. None) line = line" for line
    by (simp add: rewrite_line_with_map_def Let_def none)
  then show ?thesis by (simp add: rewrite_m3u8_body_with_proxy_map_def map_idI)
qed

end
