(* ===== verification/Media_Frames.thy ===== *)
theory Media_Frames
  imports Prelude "HOL-Library.Word"
begin

unbundle bit_operations_syntax

text \<open>
  The binary frame a sharing tab answers a read with
  (\<open>src/src/shared/local-media/local-media-binary.ts\<close>), with the UTF-8 coder it uses, byte ranges
  (\<open>local-media-range.ts\<close>) and the error codes (\<open>local-media-errors.ts\<close>).  Here a JavaScript string is
  the list of its code points; bytes are \<open>8 word\<close>.
\<close>

type_synonym bytes = "8 word list"
type_synonym codepoints = "nat list"

section \<open>UTF-8\<close>

definition byte :: "nat \<Rightarrow> 8 word" where "byte n = word_of_nat n"

text \<open>A code point that is not a surrogate.\<close>

definition scalar :: "nat \<Rightarrow> bool" where
  "scalar c = (c < 0x110000 \<and> \<not> (0xD800 \<le> c \<and> c < 0xE000))"

text \<open>A lone surrogate is encoded as the replacement character.\<close>

definition utf8_char :: "nat \<Rightarrow> bytes" where
  "utf8_char c0 =
     (let c = (if scalar c0 then c0 else 0xFFFD) in
      if c < 0x80 then [byte c]
      else if c < 0x800 then [byte (0xC0 + c div 64), byte (0x80 + c mod 64)]
      else if c < 0x10000 then [byte (0xE0 + c div 4096), byte (0x80 + c div 64 mod 64), byte (0x80 + c mod 64)]
      else [byte (0xF0 + c div 262144), byte (0x80 + c div 4096 mod 64), byte (0x80 + c div 64 mod 64),
            byte (0x80 + c mod 64)])"

definition utf8_encode :: "codepoints \<Rightarrow> bytes" where
  "utf8_encode s = concat (map utf8_char s)"

text \<open>
  The decoder of the standard: a lead byte fixes how many continuation bytes follow and the range of
  the first of them; a byte out of range yields a replacement character and is read again as a lead.
\<close>

datatype utf8_state = Start | Need nat nat nat nat

definition utf8_lead :: "nat \<Rightarrow> codepoints \<times> utf8_state" where
  "utf8_lead b =
     (if b < 0x80 then ([b], Start)
      else if 0xC2 \<le> b \<and> b \<le> 0xDF then ([], Need (b - 0xC0) 1 0x80 0xBF)
      else if 0xE0 \<le> b \<and> b \<le> 0xEF then
        ([], Need (b - 0xE0) 2 (if b = 0xE0 then 0xA0 else 0x80) (if b = 0xED then 0x9F else 0xBF))
      else if 0xF0 \<le> b \<and> b \<le> 0xF4 then
        ([], Need (b - 0xF0) 3 (if b = 0xF0 then 0x90 else 0x80) (if b = 0xF4 then 0x8F else 0xBF))
      else ([0xFFFD], Start))"

definition utf8_step :: "utf8_state \<Rightarrow> nat \<Rightarrow> codepoints \<times> utf8_state" where
  "utf8_step s b =
     (case s of
        Start \<Rightarrow> utf8_lead b
      | Need cp needed lower upper \<Rightarrow>
          if b < lower \<or> upper < b then (0xFFFD # fst (utf8_lead b), snd (utf8_lead b))
          else if needed = 1 then ([cp * 64 + (b - 0x80)], Start)
          else ([], Need (cp * 64 + (b - 0x80)) (needed - 1) 0x80 0xBF))"

fun utf8_run :: "utf8_state \<Rightarrow> bytes \<Rightarrow> codepoints" where
  "utf8_run s [] = (if s = Start then [] else [0xFFFD])"
| "utf8_run s (b # bs) = fst (utf8_step s (unat b)) @ utf8_run (snd (utf8_step s (unat b))) bs"

text \<open>\<open>TextDecoder\<close> drops a byte order mark at the start.\<close>

definition utf8_decode :: "bytes \<Rightarrow> codepoints" where
  "utf8_decode bs = utf8_run Start (if take 3 bs = [0xEF, 0xBB, 0xBF] then drop 3 bs else bs)"

section \<open>The frame\<close>

definition lmc_magic :: nat where "lmc_magic = 0x4c4d4301"
definition lmc_flag_ok :: "8 word" where "lmc_flag_ok = 0x01"

record binary_chunk =
  bc_requestId :: codepoints
  bc_ok :: bool
  bc_data :: "bytes option"
  bc_error :: "codepoints option"

text \<open>\<open>setUint32\<close> and \<open>setUint16\<close> in little-endian order, and the reads.\<close>

fun le_bytes :: "nat \<Rightarrow> nat \<Rightarrow> bytes" where
  "le_bytes 0 n = []"
| "le_bytes (Suc k) n = byte (n mod 256) # le_bytes k (n div 256)"

fun le_value :: "bytes \<Rightarrow> nat" where
  "le_value [] = 0"
| "le_value (b # bs) = unat b + 256 * le_value bs"

text \<open>The encoder throws when the request id does not fit the length field.\<close>

definition encode_local_media_chunk_frame :: "binary_chunk \<Rightarrow> bytes option" where
  "encode_local_media_chunk_frame chunk =
     (let requestIdBytes = utf8_encode (bc_requestId chunk) in
      if length requestIdBytes > 0xFFFF then None
      else
        let body = (if bc_ok chunk then (case bc_data chunk of Some d \<Rightarrow> d | None \<Rightarrow> [])
                    else utf8_encode (case bc_error chunk of Some e \<Rightarrow> e | None \<Rightarrow> []))
        in Some (le_bytes 4 lmc_magic @ le_bytes 2 (length requestIdBytes) @ requestIdBytes
             @ [if bc_ok chunk then lmc_flag_ok else 0] @ body))"

definition decode_local_media_chunk_frame :: "bytes \<Rightarrow> binary_chunk option" where
  "decode_local_media_chunk_frame bytes =
     (if length bytes < 7 then None
      else if le_value (take 4 bytes) \<noteq> lmc_magic then None
      else
        let requestIdLength = le_value (take 2 (drop 4 bytes));
            headerLen = 4 + 2 + requestIdLength + 1
        in if length bytes < headerLen then None
           else
             let requestId = utf8_decode (take requestIdLength (drop 6 bytes));
                 flags = bytes ! (6 + requestIdLength);
                 rest = drop headerLen bytes
             in if flags AND lmc_flag_ok \<noteq> 0
                then Some \<lparr>bc_requestId = requestId, bc_ok = True, bc_data = Some rest, bc_error = None\<rparr>
                else Some \<lparr>bc_requestId = requestId, bc_ok = False, bc_data = None,
                       bc_error = Some (utf8_decode rest)\<rparr>)"

definition is_local_media_chunk_frame :: "bytes \<Rightarrow> bool" where
  "is_local_media_chunk_frame bytes =
     (if length bytes < 4 then False else le_value (take 4 bytes) = lmc_magic)"

section \<open>Byte ranges\<close>

text \<open>Numbers in a header are read as naturals (\<open>parseInt\<close> on digits).\<close>

definition is_digit :: "char \<Rightarrow> bool" where
  "is_digit c = (let n = (of_char c :: nat) in 48 \<le> n \<and> n \<le> 57)"

definition parse_digits :: "string \<Rightarrow> nat" where
  "parse_digits s = foldl (\<lambda>acc c. acc * 10 + (of_char c - 48)) 0 s"

record raw_bytes_range =
  rr_start :: nat
  rr_end :: "nat option"

definition ascii_fold :: "char \<Rightarrow> char" where
  "ascii_fold c = (let n = (of_char c :: nat) in if 65 \<le> n \<and> n \<le> 90 then char_of (n + 32) else c)"

definition parse_raw_bytes_range_header :: "string option \<Rightarrow> raw_bytes_range option" where
  "parse_raw_bytes_range_header rangeHeader =
     (if \<not> truthy rangeHeader then None
      else
        let s = trim (the rangeHeader); rest = drop 6 s;
            start = takeWhile is_digit rest; after = dropWhile is_digit rest; last = drop 1 after
        in if map ascii_fold (take 6 s) \<noteq> ''bytes='' then None
           else if start = [] \<or> take 1 after \<noteq> ''-'' \<or> \<not> list_all is_digit last then None
           else Some \<lparr>rr_start = parse_digits start,
                  rr_end = (if last = [] then None else Some (parse_digits last))\<rparr>)"

datatype resolved_bytes_range = InvalidRange | ResolvedRange int int

definition resolve_bytes_range_against_length :: "raw_bytes_range \<Rightarrow> int \<Rightarrow> resolved_bytes_range" where
  "resolve_bytes_range_against_length rng totalLength =
     (let end' = (case rr_end rng of Some e \<Rightarrow> int e | None \<Rightarrow> totalLength - 1) in
      if int (rr_start rng) < 0 \<or> end' < int (rr_start rng) \<or> int (rr_start rng) \<ge> totalLength
      then InvalidRange
      else ResolvedRange (int (rr_start rng)) (min end' (totalLength - 1)))"

definition parse_local_media_range_header :: "string option \<Rightarrow> int \<Rightarrow> resolved_bytes_range option" where
  "parse_local_media_range_header rangeHeader totalLength =
     map_option (\<lambda>raw. resolve_bytes_range_against_length raw totalLength) (parse_raw_bytes_range_header rangeHeader)"

section \<open>Error codes\<close>

datatype local_media_error_code =
    NotFound | OwnerOffline | ProviderTimeout | ProviderUnavailable | ProviderReadFailed
  | RangeInvalid | RelayFailed | ViewerCapabilityDenied

fun error_code_name :: "local_media_error_code \<Rightarrow> string" where
  "error_code_name NotFound = ''not_found''"
| "error_code_name OwnerOffline = ''owner_offline''"
| "error_code_name ProviderTimeout = ''provider_timeout''"
| "error_code_name ProviderUnavailable = ''provider_unavailable''"
| "error_code_name ProviderReadFailed = ''provider_read_failed''"
| "error_code_name RangeInvalid = ''invalid_range''"
| "error_code_name RelayFailed = ''relay_failed''"
| "error_code_name ViewerCapabilityDenied = ''viewer_capability_denied''"

fun text_includes :: "string \<Rightarrow> string \<Rightarrow> bool" where
  "text_includes [] sub = (sub = [])"
| "text_includes (c # cs) sub = (take (length sub) (c # cs) = sub \<or> text_includes cs sub)"

definition local_media_error_from_message :: "string option \<Rightarrow> local_media_error_code" where
  "local_media_error_from_message message =
     (let text = map ascii_fold (case message of Some m \<Rightarrow> m | None \<Rightarrow> []) in
      if text_includes text ''timed out'' \<or> text_includes text ''timeout'' then ProviderTimeout
      else if text_includes text ''not_available'' \<or> text_includes text ''unavailable'' then ProviderUnavailable
      else if text_includes text ''read_failed'' \<or> text_includes text ''read failed'' then ProviderReadFailed
      else if text_includes text ''invalid'' \<and> text_includes text ''range'' then RangeInvalid
      else if text_includes text ''offline'' then OwnerOffline
      else RelayFailed)"

fun http_status_for_local_media_error :: "local_media_error_code \<Rightarrow> nat" where
  "http_status_for_local_media_error NotFound = 404"
| "http_status_for_local_media_error ViewerCapabilityDenied = 403"
| "http_status_for_local_media_error RangeInvalid = 416"
| "http_status_for_local_media_error _ = 503"

section \<open>Decoding what was encoded\<close>

lemma unat_byte [simp]: "n < 256 \<Longrightarrow> unat (byte n) = n"
  by (simp add: byte_def unat_of_nat)

lemma le_bytes_length [simp]: "length (le_bytes k n) = k"
  by (induction k arbitrary: n) simp_all

lemma le_value_bytes: "le_value (le_bytes k n) = n mod 256 ^ k"
proof (induction k arbitrary: n)
  case (Suc k)
  have "n mod 256 + 256 * (n div 256 mod 256 ^ k) = n mod (256 * 256 ^ k)" by (simp add: mod_mult2_eq)
  with Suc show ?case by simp
qed simp

text \<open>One continuation byte in range, and the lead bytes of two, three and four byte sequences.\<close>

lemma utf8_run_more:
  assumes "l \<le> k" "k \<le> u" "u < 256"
  shows "utf8_run (Need cp n l u) (byte k # bs) =
    (if n = 1 then (cp * 64 + (k - 0x80)) # utf8_run Start bs
     else utf8_run (Need (cp * 64 + (k - 0x80)) (n - 1) 0x80 0xBF) bs)"
  using assms by (simp add: utf8_step_def)

lemma utf8_run_lead:
  "2 \<le> a \<Longrightarrow> a < 32 \<Longrightarrow> utf8_run Start (byte (0xC0 + a) # bs) = utf8_run (Need a 1 0x80 0xBF) bs"
  "a < 16 \<Longrightarrow> utf8_run Start (byte (0xE0 + a) # bs) =
     utf8_run (Need a 2 (if a = 0 then 0xA0 else 0x80) (if a = 13 then 0x9F else 0xBF)) bs"
  "a < 5 \<Longrightarrow> utf8_run Start (byte (0xF0 + a) # bs) =
     utf8_run (Need a 3 (if a = 0 then 0x90 else 0x80) (if a = 4 then 0x8F else 0xBF)) bs"
  by (simp_all add: utf8_step_def utf8_lead_def)

lemma split_64: "(c::nat) = c div 64 * 64 + c mod 64"
  by simp

lemma utf8_run_char:
  assumes "scalar c"
  shows "utf8_run Start (utf8_char c @ bs) = c # utf8_run Start bs"
proof -
  have c: "c < 0x110000" "\<not> (0xD800 \<le> c \<and> c < 0xE000)" using assms by (auto simp: scalar_def)
  define a b d where "a = c div 64 div 64" and "b = c div 64 mod 64" and "d = c mod 64"
  have ab: "c div 64 = a * 64 + b" "c = (a * 64 + b) * 64 + d" "b < 64" "d < 64"
    using split_64 [of c] split_64 [of "c div 64"] by (simp_all add: a_def b_def d_def)
  consider "c < 0x80" | "0x80 \<le> c" "c < 0x800" | "0x800 \<le> c" "c < 0x10000" | "0x10000 \<le> c" by linarith
  then show ?thesis
  proof cases
    case 1
    then show ?thesis using assms by (simp add: utf8_char_def utf8_step_def utf8_lead_def)
  next
    case 2
    have "utf8_char c = [byte (0xC0 + (a * 64 + b)), byte (0x80 + d)]"
      using assms 2 ab(1) by (simp add: utf8_char_def d_def)
    moreover have "2 \<le> a * 64 + b" "a * 64 + b < 32" using 2 ab by linarith+
    ultimately show ?thesis using ab by (simp add: utf8_run_lead utf8_run_more del: utf8_run.simps)
  next
    case 3
    have "utf8_char c = [byte (0xE0 + a), byte (0x80 + b), byte (0x80 + d)]"
      using assms 3 by (simp add: utf8_char_def a_def b_def d_def div_mult2_eq [symmetric])
    moreover have a: "a < 16" "a = 0 \<Longrightarrow> 32 \<le> b" "a = 13 \<Longrightarrow> b < 32" using 3 c ab by linarith+
    ultimately have "utf8_run Start (utf8_char c @ bs) =
        utf8_run (Need a 2 (if a = 0 then 0xA0 else 0x80) (if a = 13 then 0x9F else 0xBF))
          (byte (0x80 + b) # byte (0x80 + d) # bs)"
      using utf8_run_lead(2) by (simp del: utf8_run.simps)
    also have "\<dots> = c # utf8_run Start bs"
      using a ab by (cases "a = 0"; cases "a = 13") (simp_all add: utf8_run_more del: utf8_run.simps)
    finally show ?thesis .
  next
    case 4
    define e f where "e = a div 64" and "f = a mod 64"
    have ef: "a = e * 64 + f" "f < 64" using split_64 [of a] by (simp_all add: e_def f_def)
    have "utf8_char c = [byte (0xF0 + e), byte (0x80 + f), byte (0x80 + b), byte (0x80 + d)]"
      using assms 4 by (simp add: utf8_char_def a_def b_def d_def e_def f_def div_mult2_eq [symmetric])
    moreover have e: "e < 5" "e = 0 \<Longrightarrow> 16 \<le> f" "e = 4 \<Longrightarrow> f < 16" using 4 c ab ef by linarith+
    ultimately have "utf8_run Start (utf8_char c @ bs) =
        utf8_run (Need e 3 (if e = 0 then 0x90 else 0x80) (if e = 4 then 0x8F else 0xBF))
          (byte (0x80 + f) # byte (0x80 + b) # byte (0x80 + d) # bs)"
      using utf8_run_lead(3) by (simp del: utf8_run.simps)
    also have "\<dots> = c # utf8_run Start bs"
      using e ab ef by (cases "e = 0"; cases "e = 4") (simp_all add: utf8_run_more del: utf8_run.simps)
    finally show ?thesis .
  qed
qed

lemma utf8_run_encode:
  "(\<forall>c\<in>set s. scalar c) \<Longrightarrow> utf8_run Start (utf8_encode s @ bs) = s @ utf8_run Start bs"
proof (induction s)
  case (Cons c s)
  then show ?case using utf8_run_char [of c "utf8_encode s @ bs"] by (simp add: utf8_encode_def)
qed (simp add: utf8_encode_def)

text \<open>The encoding starts with the bytes of a byte order mark only when the string does.\<close>

lemma utf8_encode_bom:
  assumes "\<forall>c\<in>set s. scalar c" "take 3 (utf8_encode s) = [0xEF, 0xBB, 0xBF]"
  shows "\<exists>t. s = 0xFEFF # t"
proof -
  define r where "r = drop 3 (utf8_encode s)"
  have bom: "utf8_char 0xFEFF = [0xEF, 0xBB, 0xBF]" by (simp add: utf8_char_def scalar_def byte_def)
  have "utf8_encode s = utf8_char 0xFEFF @ r"
    using assms(2) append_take_drop_id [where n = 3 and xs = "utf8_encode s"] by (simp add: bom r_def)
  then have "s @ utf8_run Start [] = 0xFEFF # utf8_run Start r"
    using utf8_run_encode [OF assms(1), where bs = "[]"] utf8_run_char [where c = "0xFEFF" and bs = r] by (simp add: scalar_def)
  then show ?thesis by simp
qed

lemma utf8_decode_encode:
  assumes "\<forall>c\<in>set s. scalar c" "\<nexists>t. s = 0xFEFF # t"
  shows "utf8_decode (utf8_encode s) = s"
  using utf8_encode_bom [OF assms(1)] assms utf8_run_encode [OF assms(1), where bs = "[]"]
  by (auto simp: utf8_decode_def)

text \<open>A resolved range lies inside the file.\<close>

lemma resolved_range_inside:
  assumes "parse_local_media_range_header h n = Some (ResolvedRange a b)"
  shows "0 \<le> a" "a \<le> b" "b < n"
  using assms by (auto simp: parse_local_media_range_header_def resolve_bytes_range_against_length_def Let_def
      split: option.splits if_splits)

text \<open>
  A code that travels to another instance as its message comes back as itself, except the two that
  only the HTTP routes raise.
\<close>

lemma error_code_travels:
  "local_media_error_from_message (Some (error_code_name c)) =
     (if c = NotFound \<or> c = ViewerCapabilityDenied then RelayFailed else c)"
  by (cases c) (simp_all, code_simp+)

section \<open>Properties\<close>

text \<open>
  A chunk that was encoded is decoded to itself: the request id, the outcome, and the bytes or the
  error text, for every id and error of Unicode scalar values that do not start with a byte order
  mark.  An id that does not fit the two length bytes is refused, and is the only thing refused.
\<close>

theorem lmc_frame_roundtrip:
  assumes "\<forall>c\<in>set (bc_requestId chunk). scalar c" "\<nexists>t. bc_requestId chunk = 0xFEFF # t"
    and "\<forall>e. bc_error chunk = Some e \<longrightarrow> (\<forall>c\<in>set e. scalar c) \<and> (\<nexists>t. e = 0xFEFF # t)"
  shows "if length (utf8_encode (bc_requestId chunk)) \<le> 0xFFFF
    then \<exists>bs. encode_local_media_chunk_frame chunk = Some bs \<and> is_local_media_chunk_frame bs
      \<and> decode_local_media_chunk_frame bs = Some (if bc_ok chunk
           then chunk\<lparr>bc_data := Some (case bc_data chunk of Some d \<Rightarrow> d | None \<Rightarrow> []), bc_error := None\<rparr>
           else chunk\<lparr>bc_data := None, bc_error := Some (case bc_error chunk of Some e \<Rightarrow> e | None \<Rightarrow> [])\<rparr>)
    else encode_local_media_chunk_frame chunk = None"
proof (cases "length (utf8_encode (bc_requestId chunk)) \<le> 0xFFFF")
  case False
  then show ?thesis by (simp add: encode_local_media_chunk_frame_def)
next
  case True
  define i where "i = utf8_encode (bc_requestId chunk)"
  define e where "e = (case bc_error chunk of Some e \<Rightarrow> e | None \<Rightarrow> [])"
  define body where "body = (if bc_ok chunk then case bc_data chunk of Some d \<Rightarrow> d | None \<Rightarrow> [] else utf8_encode e)"
  define flag where "flag = (if bc_ok chunk then lmc_flag_ok else 0)"
  have head: "length (le_bytes 4 lmc_magic) = 4" "length (le_bytes 2 (length i)) = 2"
    "le_value (le_bytes 4 lmc_magic) = lmc_magic" "le_value (le_bytes 2 (length i)) = length i"
    using True by (simp_all only: le_bytes_length le_value_bytes) (simp_all add: lmc_magic_def i_def)
  define bs where "bs = le_bytes 4 lmc_magic @ le_bytes 2 (length i) @ i @ [flag] @ body"
  have enc: "encode_local_media_chunk_frame chunk = Some bs"
    using True by (simp add: encode_local_media_chunk_frame_def bs_def i_def body_def flag_def e_def Let_def)
  have pos: "take 4 bs = le_bytes 4 lmc_magic" "take 2 (drop 4 bs) = le_bytes 2 (length i)"
    "take (length i) (drop 6 bs) = i" "bs ! (6 + length i) = flag" "drop (4 + 2 + length i + 1) bs = body"
    "length bs = 7 + length i + length body"
    using head by (simp_all add: bs_def nth_append del: le_bytes.simps)
  have id: "utf8_decode i = bc_requestId chunk" unfolding i_def by (rule utf8_decode_encode [OF assms(1,2)])
  have err: "utf8_decode (utf8_encode e) = e"
    by (rule utf8_decode_encode) (use assms(3) in \<open>cases "bc_error chunk"; simp add: e_def\<close>)+
  have flag: "flag AND lmc_flag_ok \<noteq> 0 \<longleftrightarrow> bc_ok chunk" by (simp add: flag_def lmc_flag_ok_def)
  have "decode_local_media_chunk_frame bs = Some (if bc_ok chunk
           then chunk\<lparr>bc_data := Some (case bc_data chunk of Some d \<Rightarrow> d | None \<Rightarrow> []), bc_error := None\<rparr>
           else chunk\<lparr>bc_data := None, bc_error := Some e\<rparr>)"
    unfolding decode_local_media_chunk_frame_def Let_def pos head(3,4) id flag
    by (simp add: body_def err)
  moreover have "is_local_media_chunk_frame bs"
    unfolding is_local_media_chunk_frame_def pos head by simp
  ultimately show ?thesis using True enc by (simp add: e_def)
qed

theorem lmc_frame_roundtrip_witness:
  "\<exists>bs. encode_local_media_chunk_frame
       \<lparr>bc_requestId = [114, 0xE9, 0x1F600], bc_ok = False, bc_data = None, bc_error = Some [111]\<rparr> = Some bs
     \<and> decode_local_media_chunk_frame bs =
         Some \<lparr>bc_requestId = [114, 0xE9, 0x1F600], bc_ok = False, bc_data = None, bc_error = Some [111]\<rparr>"
proof -
  let ?c = "\<lparr>bc_requestId = [114, 0xE9, 0x1F600], bc_ok = False, bc_data = None, bc_error = Some [111]\<rparr>"
  have "length (utf8_encode (bc_requestId ?c)) \<le> 0xFFFF" by (simp add: utf8_encode_def utf8_char_def scalar_def)
  with lmc_frame_roundtrip [of ?c] show ?thesis by (auto simp: scalar_def)
qed

end
