(* ===== verification/Block_Cache.thy ===== *)
theory Block_Cache
  imports Media_Frames
begin

text \<open>
  The cache of provider blocks (\<open>src/src/server/media/local-media-block-cache.ts\<close>): a process-local
  map in insertion order with a byte budget (L1), the shared copy in Redis (L2), and one fetch per
  block at a time.  A fetch is a task that goes through the phases of the asynchronous code; its
  number stands for the promise the callers wait on.
\<close>

section \<open>State\<close>

record block_entry =
  be_bytes :: bytes
  be_expiresAt :: jsnum
  be_byteLength :: int

text \<open>A task reads Redis, then asks the provider, then copies what it got to Redis.\<close>

datatype task_phase = Reading | Fetching | Storing bytes

record fetch_task =
  ft_mediaId :: string
  ft_blockStart :: nat
  ft_phase :: task_phase

record block_cache =
  bk_blocks :: "(string \<times> block_entry) list"
  bk_inflight :: "(string \<times> nat) list"
  bk_totalBytes :: int
  bk_tasks :: "(nat \<times> fetch_task) list"
  bk_redis :: "(string \<times> bytes \<times> jsnum) list"
  bk_index :: "(string \<times> nat list \<times> jsnum) list"
  bk_redisUp :: bool
  bk_disabledUntil :: jsnum

definition cache_ttl_ms :: jsnum where "cache_ttl_ms = 120000"
definition cache_max_bytes :: int where "cache_max_bytes = 64 * 1024 * 1024"
definition redis_backoff_ms :: jsnum where "redis_backoff_ms = 5000"

definition cache_ttl_seconds :: int where
  "cache_ttl_seconds = max 1 \<lceil>cache_ttl_ms / 1000\<rceil>"

function show_nat :: "nat \<Rightarrow> string" where
  "show_nat n = (if n < 10 then [char_of (48 + n)] else show_nat (n div 10) @ [char_of (48 + n mod 10)])"
  by pat_completeness auto
termination by (relation "measure id") auto

declare show_nat.simps [simp del]

definition block_key :: "string \<Rightarrow> nat \<Rightarrow> string" where
  "block_key mediaId blockStart = mediaId @ '':'' @ show_nat blockStart"

definition local_media_block :: "string \<Rightarrow> nat \<Rightarrow> string" where
  "local_media_block mediaId blockStart = ''media:local:block:'' @ mediaId @ '':'' @ show_nat blockStart"

section \<open>The process-local map\<close>

text \<open>Evict the oldest blocks until the new one fits.  The loop ends with the map.\<close>

fun evict_oldest :: "int \<Rightarrow> (string \<times> block_entry) list \<Rightarrow> int \<Rightarrow> (string \<times> block_entry) list \<times> int" where
  "evict_oldest incoming [] used = ([], used)"
| "evict_oldest incoming ((k, e) # rest) used =
     (if used + incoming > cache_max_bytes then evict_oldest incoming rest (used - be_byteLength e)
      else ((k, e) # rest, used))"

definition evict_if_needed :: "int \<Rightarrow> block_cache \<Rightarrow> block_cache" where
  "evict_if_needed incoming c =
     (case evict_oldest incoming (bk_blocks c) (bk_totalBytes c) of
        (blocks, used) \<Rightarrow> c\<lparr>bk_blocks := blocks, bk_totalBytes := used\<rparr>)"

text \<open>Deleting and setting again moves a key to the end of the map.\<close>

definition touch_block :: "string \<Rightarrow> block_entry \<Rightarrow> block_cache \<Rightarrow> block_cache" where
  "touch_block key entry c = c\<lparr>bk_blocks := AList.delete key (bk_blocks c) @ [(key, entry)]\<rparr>"

definition put_l1 :: "jsnum \<Rightarrow> string \<Rightarrow> bytes \<Rightarrow> jsnum \<Rightarrow> block_cache \<Rightarrow> block_cache" where
  "put_l1 now key bytes ttlMs c =
     (let c1 = evict_if_needed (int (length bytes)) c;
          entry = \<lparr>be_bytes = bytes, be_expiresAt = now + ttlMs, be_byteLength = int (length bytes)\<rparr>;
          c2 = (case map_of (bk_blocks c1) key of
                  Some previous \<Rightarrow> c1\<lparr>bk_totalBytes := bk_totalBytes c1 - be_byteLength previous\<rparr>
                | None \<Rightarrow> c1);
          c3 = touch_block key entry c2
      in c3\<lparr>bk_totalBytes := bk_totalBytes c3 + be_byteLength entry\<rparr>)"

section \<open>Redis\<close>

definition redis_failed :: "jsnum \<Rightarrow> block_cache \<Rightarrow> block_cache" where
  "redis_failed now c = c\<lparr>bk_disabledUntil := now + redis_backoff_ms\<rparr>"

definition redis_get_block :: "jsnum \<Rightarrow> string \<Rightarrow> nat \<Rightarrow> block_cache \<Rightarrow> block_cache \<times> bytes option" where
  "redis_get_block now mediaId blockStart c =
     (if now < bk_disabledUntil c then (c, None)
      else if \<not> bk_redisUp c then (redis_failed now c, None)
      else (c, case map_of (bk_redis c) (local_media_block mediaId blockStart) of
                 Some (raw, until) \<Rightarrow> if now < until then Some raw else None
               | None \<Rightarrow> None))"

definition index_members :: "jsnum \<Rightarrow> string \<Rightarrow> block_cache \<Rightarrow> nat list" where
  "index_members now mediaId c =
     (case map_of (bk_index c) mediaId of
        Some (starts, until) \<Rightarrow> if now < until then starts else []
      | None \<Rightarrow> [])"

definition redis_set_block :: "jsnum \<Rightarrow> string \<Rightarrow> nat \<Rightarrow> bytes \<Rightarrow> block_cache \<Rightarrow> block_cache" where
  "redis_set_block now mediaId blockStart bytes c =
     (if now < bk_disabledUntil c then c
      else if \<not> bk_redisUp c then redis_failed now c
      else let until = now + of_int cache_ttl_seconds * 1000 in
        c\<lparr>bk_redis := AList.update (local_media_block mediaId blockStart) (bytes, until) (bk_redis c),
          bk_index := AList.update mediaId (List.insert blockStart (index_members now mediaId c), until)
                        (bk_index c)\<rparr>)"

definition redis_invalidate_blocks :: "jsnum \<Rightarrow> string \<Rightarrow> block_cache \<Rightarrow> block_cache" where
  "redis_invalidate_blocks now mediaId c =
     (if now < bk_disabledUntil c then c
      else if \<not> bk_redisUp c then redis_failed now c
      else c\<lparr>bk_redis := fold (\<lambda>s. AList.delete (local_media_block mediaId s)) (index_members now mediaId c)
                           (bk_redis c),
             bk_index := AList.delete mediaId (bk_index c)\<rparr>)"

section \<open>Operations\<close>

definition is_key_of_media :: "string \<Rightarrow> string \<Rightarrow> bool" where
  "is_key_of_media mediaId key = (take (length mediaId + 1) key = mediaId @ '':'')"

definition clear_l1_for_media :: "string \<Rightarrow> block_cache \<Rightarrow> block_cache" where
  "clear_l1_for_media mediaId c =
     c\<lparr>bk_blocks := filter (\<lambda>(k, e). \<not> is_key_of_media mediaId k) (bk_blocks c),
       bk_totalBytes := bk_totalBytes c
         - sum_list (map (\<lambda>(k, e). be_byteLength e) (filter (\<lambda>(k, e). is_key_of_media mediaId k) (bk_blocks c))),
       bk_inflight := filter (\<lambda>(k, t). \<not> is_key_of_media mediaId k) (bk_inflight c)\<rparr>"

definition invalidate_local_media_block_cache :: "jsnum \<Rightarrow> string \<Rightarrow> block_cache \<Rightarrow> block_cache" where
  "invalidate_local_media_block_cache now mediaId c =
     redis_invalidate_blocks now mediaId (clear_l1_for_media mediaId c)"

definition invalidate_all_local_media_block_cache :: "block_cache \<Rightarrow> block_cache" where
  "invalidate_all_local_media_block_cache c = c\<lparr>bk_blocks := [], bk_inflight := [], bk_totalBytes := 0\<rparr>"

text \<open>
  What a caller gets at once: the bytes, somebody else's promise, or the promise of the task it
  starts.  The number of a new task is the argument.
\<close>

datatype lookup_result = Hit bytes | Shared nat | Started nat

definition get_or_fetch_local_media_block ::
  "jsnum \<Rightarrow> nat \<Rightarrow> string \<Rightarrow> nat \<Rightarrow> block_cache \<Rightarrow> block_cache \<times> lookup_result" where
  "get_or_fetch_local_media_block now task mediaId blockStart c =
     (let key = block_key mediaId blockStart in
      case map_of (bk_blocks c) key of
        Some hit \<Rightarrow>
          if be_expiresAt hit > now then (touch_block key hit c, Hit (be_bytes hit))
          else (case map_of (bk_inflight c) key of
                  Some t \<Rightarrow> (c, Shared t)
                | None \<Rightarrow> (c\<lparr>bk_inflight := AList.update key task (bk_inflight c),
                       bk_tasks := AList.update task \<lparr>ft_mediaId = mediaId, ft_blockStart = blockStart,
                         ft_phase = Reading\<rparr> (bk_tasks c)\<rparr>, Started task))
      | None \<Rightarrow>
          (case map_of (bk_inflight c) key of
             Some t \<Rightarrow> (c, Shared t)
           | None \<Rightarrow> (c\<lparr>bk_inflight := AList.update key task (bk_inflight c),
                  bk_tasks := AList.update task \<lparr>ft_mediaId = mediaId, ft_blockStart = blockStart,
                    ft_phase = Reading\<rparr> (bk_tasks c)\<rparr>, Started task)))"

text \<open>The \<open>finally\<close> block: whatever task holds the key now loses it.\<close>

definition end_task :: "nat \<Rightarrow> fetch_task \<Rightarrow> block_cache \<Rightarrow> block_cache" where
  "end_task task t c =
     c\<lparr>bk_inflight := AList.delete (block_key (ft_mediaId t) (ft_blockStart t)) (bk_inflight c),
       bk_tasks := AList.delete task (bk_tasks c)\<rparr>"

text \<open>One step of a task: the answer of Redis, of the provider (\<open>None\<close>: it failed), the end of the copy.\<close>

definition task_reads :: "jsnum \<Rightarrow> nat \<Rightarrow> block_cache \<Rightarrow> block_cache" where
  "task_reads now task c =
     (case map_of (bk_tasks c) task of
        Some t \<Rightarrow>
          (if ft_phase t \<noteq> Reading then c
           else case redis_get_block now (ft_mediaId t) (ft_blockStart t) c of
             (c1, Some bytes) \<Rightarrow>
               end_task task t (put_l1 now (block_key (ft_mediaId t) (ft_blockStart t)) bytes cache_ttl_ms c1)
           | (c1, None) \<Rightarrow> c1\<lparr>bk_tasks := AList.update task (t\<lparr>ft_phase := Fetching\<rparr>) (bk_tasks c1)\<rparr>)
      | None \<Rightarrow> c)"

definition task_fetched :: "jsnum \<Rightarrow> nat \<Rightarrow> bytes option \<Rightarrow> block_cache \<Rightarrow> block_cache" where
  "task_fetched now task answer c =
     (case map_of (bk_tasks c) task of
        Some t \<Rightarrow>
          (if ft_phase t \<noteq> Fetching then c
           else case answer of
             None \<Rightarrow> end_task task t c
           | Some bytes \<Rightarrow>
               (let c1 = put_l1 now (block_key (ft_mediaId t) (ft_blockStart t)) bytes cache_ttl_ms c
                in c1\<lparr>bk_tasks := AList.update task (t\<lparr>ft_phase := Storing bytes\<rparr>) (bk_tasks c1)\<rparr>))
      | None \<Rightarrow> c)"

definition task_stored :: "jsnum \<Rightarrow> nat \<Rightarrow> block_cache \<Rightarrow> block_cache" where
  "task_stored now task c =
     (case map_of (bk_tasks c) task of
        Some t \<Rightarrow>
          (case ft_phase t of
             Storing bytes \<Rightarrow> end_task task t (redis_set_block now (ft_mediaId t) (ft_blockStart t) bytes c)
           | _ \<Rightarrow> c)
      | None \<Rightarrow> c)"

definition local_media_block_cache_stats :: "block_cache \<Rightarrow> nat \<times> int" where
  "local_media_block_cache_stats c = (length (bk_blocks c), bk_totalBytes c)"

section \<open>Reachable caches\<close>

text \<open>
  The steps of a process's cache.  \<open>P m b\<close> is the set of bytes the provider of \<open>m\<close> may answer with for
  the block at \<open>b\<close>; other instances write Redis as they like with such bytes.
\<close>

definition redis_from :: "(string \<Rightarrow> nat \<Rightarrow> bytes set) \<Rightarrow> (string \<times> bytes \<times> jsnum) list \<Rightarrow> bool" where
  "redis_from P rs = (\<forall>m b raw until. (local_media_block m b, raw, until) \<in> set rs \<longrightarrow> raw \<in> P m b)"

definition empty_cache :: block_cache where
  "empty_cache = \<lparr>bk_blocks = [], bk_inflight = [], bk_totalBytes = 0, bk_tasks = [], bk_redis = [],
     bk_index = [], bk_redisUp = True, bk_disabledUntil = 0\<rparr>"

inductive cache_step :: "(string \<Rightarrow> nat \<Rightarrow> bytes set) \<Rightarrow> block_cache \<Rightarrow> block_cache \<Rightarrow> bool" for P where
  lookup: "cache_step P c (fst (get_or_fetch_local_media_block now task m b c))"
| reads: "cache_step P c (task_reads now task c)"
| fetched: "(\<And>t bytes. map_of (bk_tasks c) task = Some t \<Longrightarrow> answer = Some bytes \<Longrightarrow>
      bytes \<in> P (ft_mediaId t) (ft_blockStart t)) \<Longrightarrow> cache_step P c (task_fetched now task answer c)"
| stored: "cache_step P c (task_stored now task c)"
| invalidated: "cache_step P c (invalidate_local_media_block_cache now m c)"
| cleared: "cache_step P c (invalidate_all_local_media_block_cache c)"
| redis: "redis_from P rs \<Longrightarrow> cache_step P c (c\<lparr>bk_redis := rs, bk_index := ix, bk_redisUp := up\<rparr>)"

inductive cache_reachable :: "(string \<Rightarrow> nat \<Rightarrow> bytes set) \<Rightarrow> block_cache \<Rightarrow> bool" for P where
  initial: "cache_reachable P empty_cache"
| step: "cache_reachable P c \<Longrightarrow> cache_step P c c' \<Longrightarrow> cache_reachable P c'"

section \<open>The byte budget\<close>

definition block_bytes :: "(string \<times> block_entry) list \<Rightarrow> int" where
  "block_bytes bs = sum_list (map (\<lambda>(k, e). be_byteLength e) bs)"

definition budget_ok :: "block_cache \<Rightarrow> bool" where
  "budget_ok c = (distinct (keys_of (bk_blocks c)) \<and> (\<forall>(k, e)\<in>set (bk_blocks c). be_byteLength e = int (length (be_bytes e)))
     \<and> bk_totalBytes c = block_bytes (bk_blocks c)
     \<and> (bk_totalBytes c \<le> cache_max_bytes \<or> length (bk_blocks c) \<le> 1))"

lemma budget_cong:
  "bk_blocks c' = bk_blocks c \<Longrightarrow> bk_totalBytes c' = bk_totalBytes c \<Longrightarrow> budget_ok c' = budget_ok c"
  by (simp add: budget_ok_def)

lemma block_bytes_simps [simp]:
  "block_bytes [] = 0" "block_bytes ((k, e) # bs) = be_byteLength e + block_bytes bs"
  "block_bytes (xs @ ys) = block_bytes xs + block_bytes ys"
  by (simp_all add: block_bytes_def)

lemma evict_suffix: "\<exists>zs. bs = zs @ fst (evict_oldest n bs used)"
  by (induction n bs used rule: evict_oldest.induct) (simp, metis append_Cons append_Nil evict_oldest.simps(2) fst_conv)

lemma evict_total:
  "used = block_bytes bs \<Longrightarrow> snd (evict_oldest n bs used) = block_bytes (fst (evict_oldest n bs used))"
  by (induction n bs used rule: evict_oldest.induct) simp_all

lemma evict_fits:
  "fst (evict_oldest n bs used) = [] \<or> snd (evict_oldest n bs used) + n \<le> cache_max_bytes"
  by (induction n bs used rule: evict_oldest.induct) simp_all

lemma block_bytes_delete:
  "distinct (keys_of bs) \<Longrightarrow> block_bytes (AList.delete k bs) =
     block_bytes bs - (case map_of bs k of Some e \<Rightarrow> be_byteLength e | None \<Rightarrow> 0)"
proof (induction bs)
  case (Cons kv bs)
  obtain k' e where kv: "kv = (k', e)" by force
  show ?case
  proof (cases "k' = k")
    case True
    then show ?thesis using Cons kv by (simp add: AList.delete_id)
  next
    case False
    then show ?thesis using Cons kv by simp
  qed
qed simp

lemma set_delete: "x \<in> set (AList.delete k bs) \<Longrightarrow> x \<in> set bs"
  by (simp add: AList.delete_eq)

lemma length_delete: "length (AList.delete k bs) \<le> length bs"
  by (simp add: AList.delete_eq)

lemma budgetI:
  assumes "distinct (keys_of (bk_blocks c))"
    and "\<And>k e. (k, e) \<in> set (bk_blocks c) \<Longrightarrow> be_byteLength e = int (length (be_bytes e))"
    and "bk_totalBytes c = block_bytes (bk_blocks c)"
    and "bk_totalBytes c \<le> cache_max_bytes \<or> length (bk_blocks c) \<le> 1"
  shows "budget_ok c"
  using assms by (auto simp: budget_ok_def)

lemma budgetD:
  assumes "budget_ok c"
  shows "distinct (keys_of (bk_blocks c))"
    "(k, e) \<in> set (bk_blocks c) \<Longrightarrow> be_byteLength e = int (length (be_bytes e))"
    "bk_totalBytes c = block_bytes (bk_blocks c)"
    "bk_totalBytes c \<le> cache_max_bytes \<or> length (bk_blocks c) \<le> 1"
  using assms by (auto simp: budget_ok_def)

lemma distinct_touch: "distinct (keys_of bs) \<Longrightarrow> distinct (keys_of (AList.delete k bs @ [(k, e)]))"
  by (auto simp: AList.delete_eq distinct_map_filter)

lemma touch_budget:
  assumes "budget_ok c" "map_of (bk_blocks c) key = Some e"
  shows "budget_ok (touch_block key e c)"
proof (rule budgetI)
  note b = budgetD [OF assms(1)]
  have e: "(key, e) \<in> set (bk_blocks c)" by (rule map_of_SomeD [OF assms(2)])
  have blocks: "bk_blocks (touch_block key e c) = AList.delete key (bk_blocks c) @ [(key, e)]"
    "bk_totalBytes (touch_block key e c) = bk_totalBytes c"
    by (simp_all add: touch_block_def)
  have "length (AList.delete key (bk_blocks c)) < length (bk_blocks c)"
    using e by (auto simp: AList.delete_eq intro!: length_filter_less)
  then have "length (bk_blocks (touch_block key e c)) \<le> length (bk_blocks c)" unfolding blocks by simp
  then show "bk_totalBytes (touch_block key e c) \<le> cache_max_bytes \<or> length (bk_blocks (touch_block key e c)) \<le> 1"
    using b(4) unfolding blocks(2) by linarith
  show "bk_totalBytes (touch_block key e c) = block_bytes (bk_blocks (touch_block key e c))"
    using block_bytes_delete [OF b(1), of key] assms(2) b(3) unfolding blocks by simp
  show "distinct (keys_of (bk_blocks (touch_block key e c)))" unfolding blocks by (rule distinct_touch [OF b(1)])
  show "be_byteLength e' = int (length (be_bytes e'))" if "(k, e') \<in> set (bk_blocks (touch_block key e c))" for k e'
    using that e b(2) unfolding blocks by (auto dest: set_delete)
qed

lemma put_l1_blocks:
  "bk_blocks (put_l1 now key bytes ttl c) =
     AList.delete key (fst (evict_oldest (int (length bytes)) (bk_blocks c) (bk_totalBytes c)))
       @ [(key, \<lparr>be_bytes = bytes, be_expiresAt = now + ttl, be_byteLength = int (length bytes)\<rparr>)]"
  by (simp add: put_l1_def evict_if_needed_def touch_block_def Let_def split: option.split prod.split)

lemma put_l1_budget:
  assumes "budget_ok c"
  shows "budget_ok (put_l1 now key bytes ttl c)"
proof (rule budgetI)
  note b = budgetD [OF assms]
  define n where "n = int (length bytes)"
  define ev where "ev = evict_oldest n (bk_blocks c) (bk_totalBytes c)"
  define put where "put = put_l1 now key bytes ttl c"
  define e where "e = \<lparr>be_bytes = bytes, be_expiresAt = now + ttl, be_byteLength = n\<rparr>"
  obtain zs where zs: "bk_blocks c = zs @ fst ev" using evict_suffix unfolding ev_def by blast
  have d: "distinct (keys_of (fst ev))" using b(1) zs by simp
  have l: "be_byteLength e' = int (length (be_bytes e'))" if "(k, e') \<in> set (fst ev)" for k e'
    using b(2) that zs by auto
  have t: "snd ev = block_bytes (fst ev)" unfolding ev_def by (rule evict_total [OF b(3)])
  have f: "fst ev = [] \<or> snd ev + n \<le> cache_max_bytes" unfolding ev_def by (rule evict_fits)
  define old where "old = (case map_of (fst ev) key of Some e \<Rightarrow> be_byteLength e | None \<Rightarrow> 0)"
  have old: "0 \<le> old"
  proof (cases "map_of (fst ev) key")
    case (Some e')
    then show ?thesis using l [OF map_of_SomeD [OF Some]] by (simp add: old_def)
  qed (simp add: old_def)
  have blocks: "bk_blocks put = AList.delete key (fst ev) @ [(key, e)]"
    unfolding put_def put_l1_blocks ev_def n_def e_def ..
  have used: "bk_totalBytes put = snd ev - old + n"
    by (simp add: put_def put_l1_def evict_if_needed_def touch_block_def Let_def old_def n_def ev_def
        split: option.split prod.split)
  show "bk_totalBytes (put_l1 now key bytes ttl c) = block_bytes (bk_blocks (put_l1 now key bytes ttl c))"
    unfolding put_def [symmetric] blocks used using block_bytes_delete [OF d, of key] t by (simp add: old_def e_def)
  show "bk_totalBytes (put_l1 now key bytes ttl c) \<le> cache_max_bytes \<or> length (bk_blocks (put_l1 now key bytes ttl c)) \<le> 1"
    unfolding put_def [symmetric] blocks used using f old by auto
  show "distinct (keys_of (bk_blocks (put_l1 now key bytes ttl c)))"
    unfolding put_def [symmetric] blocks by (rule distinct_touch [OF d])
  show "be_byteLength e' = int (length (be_bytes e'))" if "(k, e') \<in> set (bk_blocks (put_l1 now key bytes ttl c))" for k e'
    using that l unfolding put_def [symmetric] blocks by (auto simp: e_def n_def dest: set_delete)
qed

lemma clear_media_budget:
  assumes "budget_ok c"
  shows "budget_ok (clear_l1_for_media m c)"
proof (rule budgetI)
  note b = budgetD [OF assms]
  define p where "p = (\<lambda>(k, e::block_entry). is_key_of_media m k)"
  define kept where "kept = filter (\<lambda>x. \<not> p x) (bk_blocks c)"
  have split: "block_bytes bs = block_bytes (filter p bs) + block_bytes (filter (\<lambda>x. \<not> p x) bs)" for bs
    by (induction bs) (auto simp: p_def)
  have blocks: "bk_blocks (clear_l1_for_media m c) = kept"
    "bk_totalBytes (clear_l1_for_media m c) = bk_totalBytes c - block_bytes (filter p (bk_blocks c))"
    by (auto simp: clear_l1_for_media_def kept_def p_def block_bytes_def intro!: filter_cong)
  have "0 \<le> block_bytes bs" if "set bs \<subseteq> set (bk_blocks c)" for bs
    using that by (induction bs) (use b(2) in auto)
  from this [of "filter p (bk_blocks c)"] have "bk_totalBytes (clear_l1_for_media m c) \<le> bk_totalBytes c"
    unfolding blocks by simp
  moreover have "length kept \<le> length (bk_blocks c)" unfolding kept_def by (rule length_filter_le)
  ultimately show "bk_totalBytes (clear_l1_for_media m c) \<le> cache_max_bytes \<or> length (bk_blocks (clear_l1_for_media m c)) \<le> 1"
    using b(4) unfolding blocks by linarith
  show "bk_totalBytes (clear_l1_for_media m c) = block_bytes (bk_blocks (clear_l1_for_media m c))"
    unfolding blocks using b(3) split [of "bk_blocks c"] by (simp add: kept_def)
  show "distinct (keys_of (bk_blocks (clear_l1_for_media m c)))"
    unfolding blocks kept_def by (rule distinct_map_filter [OF b(1)])
  show "be_byteLength e = int (length (be_bytes e))" if "(k, e) \<in> set (bk_blocks (clear_l1_for_media m c))" for k e
    using that b(2) unfolding blocks kept_def by auto
qed

text \<open>The Redis side, and the bookkeeping of tasks, leave the map alone.\<close>

lemma redis_frame [simp]:
  "bk_blocks (redis_failed now c) = bk_blocks c" "bk_totalBytes (redis_failed now c) = bk_totalBytes c"
  "bk_blocks (fst (redis_get_block now m b c)) = bk_blocks c"
  "bk_totalBytes (fst (redis_get_block now m b c)) = bk_totalBytes c"
  "bk_blocks (redis_set_block now m b x c) = bk_blocks c"
  "bk_totalBytes (redis_set_block now m b x c) = bk_totalBytes c"
  "bk_blocks (redis_invalidate_blocks now m c) = bk_blocks c"
  "bk_totalBytes (redis_invalidate_blocks now m c) = bk_totalBytes c"
  "bk_blocks (end_task k t c) = bk_blocks c" "bk_totalBytes (end_task k t c) = bk_totalBytes c"
  by (simp_all add: redis_failed_def redis_get_block_def redis_set_block_def redis_invalidate_blocks_def
      end_task_def Let_def split: option.split)

lemma lookup_cases:
  "(\<exists>e. map_of (bk_blocks c) (block_key m b) = Some e \<and> now < be_expiresAt e
      \<and> get_or_fetch_local_media_block now task m b c = (touch_block (block_key m b) e c, Hit (be_bytes e)))
   \<or> (bk_blocks (fst (get_or_fetch_local_media_block now task m b c)) = bk_blocks c
      \<and> bk_totalBytes (fst (get_or_fetch_local_media_block now task m b c)) = bk_totalBytes c
      \<and> bk_redis (fst (get_or_fetch_local_media_block now task m b c)) = bk_redis c
      \<and> (\<forall>x. snd (get_or_fetch_local_media_block now task m b c) \<noteq> Hit x))"
  by (auto simp: get_or_fetch_local_media_block_def Let_def split: option.split)

lemma budget_frame [simp]:
  "budget_ok (redis_failed now c) = budget_ok c" "budget_ok (fst (redis_get_block now m b c)) = budget_ok c"
  "budget_ok (redis_set_block now m b x c) = budget_ok c" "budget_ok (redis_invalidate_blocks now m c) = budget_ok c"
  "budget_ok (end_task k t c) = budget_ok c" "budget_ok (c\<lparr>bk_tasks := ts\<rparr>) = budget_ok c"
  "budget_ok (c\<lparr>bk_redis := rs, bk_index := ix, bk_redisUp := up\<rparr>) = budget_ok c"
  by (rule budget_cong; simp)+

lemma task_reads_budget:
  assumes "budget_ok c"
  shows "budget_ok (task_reads now task c)"
proof (cases "map_of (bk_tasks c) task")
  case (Some t)
  obtain c1 r1 where g: "redis_get_block now (ft_mediaId t) (ft_blockStart t) c = (c1, r1)" by force
  have "budget_ok c1" using budget_frame(2) [of now "ft_mediaId t" "ft_blockStart t" c] g assms by simp
  then show ?thesis using Some g assms put_l1_budget by (cases r1) (simp_all add: task_reads_def)
qed (use assms in \<open>simp add: task_reads_def\<close>)

lemma lookup_budget:
  assumes "budget_ok c"
  shows "budget_ok (fst (get_or_fetch_local_media_block now task m b c))"
  using lookup_cases [of c m b now task]
proof (elim disjE exE conjE)
  fix e
  assume "map_of (bk_blocks c) (block_key m b) = Some e"
    "get_or_fetch_local_media_block now task m b c = (touch_block (block_key m b) e c, Hit (be_bytes e))"
  then show ?thesis using touch_budget [OF assms] by simp
qed (use assms budget_cong [of "fst (get_or_fetch_local_media_block now task m b c)" c] in blast)

lemma step_budget: "cache_step P c c' \<Longrightarrow> budget_ok c \<Longrightarrow> budget_ok c'"
proof (induction rule: cache_step.induct)
  case (fetched c task answer now)
  then show ?case
    using put_l1_budget [of c] by (simp add: task_fetched_def Let_def split: option.split)
next
  case (stored c now task)
  then show ?case by (simp add: task_stored_def split: option.split task_phase.split)
next
  case (cleared c)
  then show ?case by (simp add: invalidate_all_local_media_block_cache_def budget_ok_def cache_max_bytes_def)
qed (simp_all add: task_reads_budget lookup_budget invalidate_local_media_block_cache_def clear_media_budget)

lemma reachable_budget: "cache_reachable P c \<Longrightarrow> budget_ok c"
  by (induction rule: cache_reachable.induct) (simp add: budget_ok_def empty_cache_def, rule step_budget)

section \<open>Where cached bytes come from\<close>

lemma parse_show_nat: "parse_digits (show_nat n) = n"
proof (induction n rule: show_nat.induct)
  case (1 n)
  show ?case
  proof (cases "n < 10")
    case True
    then show ?thesis by (simp add: show_nat.simps [of n] parse_digits_def of_char_of)
  next
    case False
    then have "parse_digits (show_nat n) = parse_digits (show_nat (n div 10)) * 10 + n mod 10"
      by (simp add: show_nat.simps [of n] parse_digits_def of_char_of)
    with 1 False show ?thesis by simp
  qed
qed

lemma show_nat_no_colon: "CHR '':'' \<notin> set (show_nat n)"
proof (induction n rule: show_nat.induct)
  case (1 n)
  have "CHR '':'' \<noteq> char_of (48 + k)" if "k < 10" for k :: nat
  proof
    assume "CHR '':'' = char_of (48 + k)"
    then have "(of_char (CHR '':'') :: nat) = of_char (char_of (48 + k) :: char)" by simp
    with that show False by (simp add: of_char_of)
  qed
  with 1 show ?case by (auto simp: show_nat.simps [of n])
qed

lemma block_key_inject: "block_key m b = block_key m' b' \<longleftrightarrow> m = m' \<and> b = b'"
proof
  assume eq: "block_key m b = block_key m' b'"
  have t: "takeWhile (\<lambda>c. c \<noteq> CHR '':'') (rev (block_key m b)) = rev (show_nat b)" for m b
    using show_nat_no_colon [of b] by (auto simp: block_key_def intro!: takeWhile_append2 [THEN trans])
  have "show_nat b = show_nat b'" using t [of m b] t [of m' b'] eq by simp
  then have "b = b'" by (metis parse_show_nat)
  with eq show "m = m' \<and> b = b'" by (simp add: block_key_def)
qed simp

lemma local_media_block_inject: "local_media_block m b = local_media_block m' b' \<longleftrightarrow> m = m' \<and> b = b'"
  using block_key_inject [of m b m' b'] by (simp add: local_media_block_def block_key_def)

definition blocks_from :: "(string \<Rightarrow> nat \<Rightarrow> bytes set) \<Rightarrow> (string \<times> block_entry) list \<Rightarrow> bool" where
  "blocks_from P bs = (\<forall>m b e. (block_key m b, e) \<in> set bs \<longrightarrow> be_bytes e \<in> P m b)"

definition tasks_from :: "(string \<Rightarrow> nat \<Rightarrow> bytes set) \<Rightarrow> (nat \<times> fetch_task) list \<Rightarrow> bool" where
  "tasks_from P ts = (\<forall>k t bytes. (k, t) \<in> set ts \<and> ft_phase t = Storing bytes \<longrightarrow> bytes \<in> P (ft_mediaId t) (ft_blockStart t))"

definition cache_from :: "(string \<Rightarrow> nat \<Rightarrow> bytes set) \<Rightarrow> block_cache \<Rightarrow> bool" where
  "cache_from P c = (blocks_from P (bk_blocks c) \<and> redis_from P (bk_redis c) \<and> tasks_from P (bk_tasks c))"

lemma from_subset:
  "set bs' \<subseteq> set bs \<Longrightarrow> blocks_from P bs \<Longrightarrow> blocks_from P bs'"
  "set rs' \<subseteq> set rs \<Longrightarrow> redis_from P rs \<Longrightarrow> redis_from P rs'"
  "set ts' \<subseteq> set ts \<Longrightarrow> tasks_from P ts \<Longrightarrow> tasks_from P ts'"
  unfolding blocks_from_def redis_from_def tasks_from_def by blast+

lemma redis_fromD: "redis_from P rs \<Longrightarrow> (local_media_block m b, raw, until) \<in> set rs \<Longrightarrow> raw \<in> P m b"
  unfolding redis_from_def by blast

lemma update_set_cases: "x \<in> set (AList.update k v al) \<Longrightarrow> x = (k, v) \<or> x \<in> set al"
  by (induction al) (auto split: if_splits)

lemma delete_subset: "set (AList.delete k al) \<subseteq> set al"
  by (auto simp: AList.delete_eq)

lemma tasks_update:
  "tasks_from P ts \<Longrightarrow> (\<And>bytes. ft_phase t = Storing bytes \<Longrightarrow> bytes \<in> P (ft_mediaId t) (ft_blockStart t)) \<Longrightarrow>
     tasks_from P (AList.update k t ts)"
  by (auto simp: tasks_from_def dest!: update_set_cases)

lemma put_l1_from:
  assumes "cache_from P c" "bytes \<in> P m b"
  shows "cache_from P (put_l1 now (block_key m b) bytes ttl c)"
proof -
  define kept where "kept = fst (evict_oldest (int (length bytes)) (bk_blocks c) (bk_totalBytes c))"
  have "set kept \<subseteq> set (bk_blocks c)"
    using evict_suffix [of "bk_blocks c"] unfolding kept_def by (metis Un_upper2 set_append)
  then have "set (AList.delete (block_key m b) kept) \<subseteq> set (bk_blocks c)"
    using delete_subset [of "block_key m b" kept] by blast
  then have "blocks_from P (AList.delete (block_key m b) kept)"
    using assms(1) by (auto simp: cache_from_def intro: from_subset(1))
  moreover have "bk_redis (put_l1 now (block_key m b) bytes ttl c) = bk_redis c"
    "bk_tasks (put_l1 now (block_key m b) bytes ttl c) = bk_tasks c"
    by (simp_all add: put_l1_def evict_if_needed_def touch_block_def Let_def split: option.split prod.split)
  ultimately show ?thesis
    using assms by (auto simp: cache_from_def put_l1_blocks kept_def [symmetric] blocks_from_def block_key_inject)
qed

lemma end_task_from: "cache_from P c \<Longrightarrow> cache_from P (end_task k t c)"
  using delete_subset [of k "bk_tasks c"] by (auto simp: cache_from_def end_task_def intro: from_subset(3))

lemma redis_get_from:
  assumes "cache_from P c" "redis_get_block now m b c = (c', r)"
  shows "cache_from P c'" "r = Some raw \<Longrightarrow> raw \<in> P m b"
  using assms by (auto simp: redis_get_block_def cache_from_def redis_failed_def
      dest!: map_of_SomeD intro: redis_fromD split: if_splits option.splits)

lemma redis_set_from:
  assumes "cache_from P c" "x \<in> P m b"
  shows "cache_from P (redis_set_block now m b x c)"
  using assms by (auto simp: redis_set_block_def cache_from_def redis_failed_def redis_from_def Let_def
      local_media_block_inject dest!: update_set_cases)

lemma fold_delete_redis_subset: "set (fold (\<lambda>s. AList.delete (f s)) xs al) \<subseteq> set al"
proof (induction xs arbitrary: al)
  case (Cons x xs)
  from Cons [of "AList.delete (f x) al"] delete_subset [of "f x" al] show ?case by simp
qed simp

lemma redis_invalidate_from: "cache_from P c \<Longrightarrow> cache_from P (redis_invalidate_blocks now m c)"
  by (auto simp: redis_invalidate_blocks_def cache_from_def redis_failed_def
      intro: from_subset(2) [OF fold_delete_redis_subset])

lemma lookup_from: "cache_from P c \<Longrightarrow> cache_from P (fst (get_or_fetch_local_media_block now task m b c))"
proof -
  assume c: "cache_from P c"
  have t: "cache_from P (touch_block (block_key m b) e c)" if "map_of (bk_blocks c) (block_key m b) = Some e" for e
    using c map_of_SomeD [OF that] by (auto simp: cache_from_def touch_block_def blocks_from_def dest: set_delete)
  have n: "cache_from P (c\<lparr>bk_inflight := i, bk_tasks := AList.update task \<lparr>ft_mediaId = m, ft_blockStart = b,
      ft_phase = Reading\<rparr> (bk_tasks c)\<rparr>)" for i
    using c by (auto simp: cache_from_def intro!: tasks_update)
  show ?thesis using t n c by (auto simp: get_or_fetch_local_media_block_def Let_def split: option.split)
qed

lemma step_from: "cache_step P c c' \<Longrightarrow> cache_from P c \<Longrightarrow> cache_from P c'"
proof (induction rule: cache_step.induct)
  case (lookup c now task m b)
  then show ?case by (rule lookup_from)
next
  case (reads c now task)
  show ?case
  proof (cases "map_of (bk_tasks c) task")
    case (Some t)
    obtain c1 r where g: "redis_get_block now (ft_mediaId t) (ft_blockStart t) c = (c1, r)" by force
    note f = redis_get_from [OF reads g]
    have "cache_from P (c1\<lparr>bk_tasks := AList.update task (t\<lparr>ft_phase := Fetching\<rparr>) (bk_tasks c1)\<rparr>)"
      using f(1) by (auto simp: cache_from_def intro!: tasks_update)
    then show ?thesis
      using Some g reads f put_l1_from [OF f(1)] end_task_from by (cases r) (simp_all add: task_reads_def)
  qed (use reads in \<open>simp add: task_reads_def\<close>)
next
  case (fetched c task answer now)
  show ?case
  proof (cases "map_of (bk_tasks c) task")
    case (Some t)
    show ?thesis
    proof (cases answer)
      case (Some bytes)
      have "bytes \<in> P (ft_mediaId t) (ft_blockStart t)" using fetched(1) \<open>map_of _ _ = _\<close> Some by blast
      with put_l1_from [OF fetched(2) this] show ?thesis
        using \<open>map_of _ _ = _\<close> Some fetched(2) by (auto simp: task_fetched_def Let_def cache_from_def intro!: tasks_update)
    qed (use Some fetched(2) end_task_from in \<open>simp add: task_fetched_def\<close>)
  qed (use fetched(2) in \<open>simp add: task_fetched_def\<close>)
next
  case (stored c now task)
  show ?case
  proof (cases "map_of (bk_tasks c) task")
    case (Some t)
    have "bytes \<in> P (ft_mediaId t) (ft_blockStart t)" if "ft_phase t = Storing bytes" for bytes
      using stored map_of_SomeD [OF Some] that by (auto simp: cache_from_def tasks_from_def)
    then show ?thesis using Some stored redis_set_from end_task_from
      by (simp add: task_stored_def split: task_phase.split)
  qed (use stored in \<open>simp add: task_stored_def\<close>)
next
  case (invalidated c now m)
  then have "cache_from P (clear_l1_for_media m c)"
    by (auto simp: cache_from_def clear_l1_for_media_def blocks_from_def)
  then show ?case by (simp add: invalidate_local_media_block_cache_def redis_invalidate_from)
qed (auto simp: cache_from_def invalidate_all_local_media_block_cache_def blocks_from_def)

lemma reachable_from: "cache_reachable P c \<Longrightarrow> cache_from P c"
proof (induction rule: cache_reachable.induct)
  case initial
  show ?case by (simp add: cache_from_def empty_cache_def blocks_from_def redis_from_def tasks_from_def)
qed (rule step_from)

section \<open>Properties\<close>

text \<open>
  C39. In every cache the process can reach, however lookups, fetches, failures, invalidations and
  other instances interleave, the byte count is the sum of the cached blocks, and it stays within the
  budget unless a single block is larger than the budget.
\<close>

theorem block_cache_bounded:
  assumes "cache_reachable P c"
  shows "bk_totalBytes c = sum_list (map (\<lambda>(k, e). int (length (be_bytes e))) (bk_blocks c))
    \<and> (bk_totalBytes c \<le> cache_max_bytes \<or> length (bk_blocks c) \<le> 1)"
proof -
  have "block_bytes bs = sum_list (map (\<lambda>(k, e). int (length (be_bytes e))) bs)"
    if "\<forall>(k, e)\<in>set bs. be_byteLength e = int (length (be_bytes e))" for bs
    using that by (induction bs) auto
  then have "block_bytes (bk_blocks c) = sum_list (map (\<lambda>(k, e). int (length (be_bytes e))) (bk_blocks c))"
    using budgetD(2) [OF reachable_budget [OF assms]] by blast
  with budgetD(3,4) [OF reachable_budget [OF assms]] show ?thesis by simp
qed

text \<open>
  C40. A hit returns bytes the provider of that file answered with for that block, whether they were
  fetched here or by another instance: blocks of different files or offsets are never confused.
\<close>

theorem block_cache_serves_provider_bytes:
  assumes "cache_reachable P c" and "snd (get_or_fetch_local_media_block now task m b c) = Hit bytes"
  shows "bytes \<in> P m b"
proof -
  obtain e where "map_of (bk_blocks c) (block_key m b) = Some e" "bytes = be_bytes e"
    using lookup_cases [of c m b now task] assms(2) by auto
  with map_of_SomeD reachable_from [OF assms(1)] show ?thesis
    by (fastforce simp: cache_from_def blocks_from_def)
qed

text \<open>The trace of the witnesses: a lookup starts a fetch, Redis has nothing, the provider answers.\<close>

definition sample_answer :: bytes where "sample_answer = [1, 2, 3]"

definition started_cache :: block_cache where
  "started_cache = task_reads 1000 0 (fst (get_or_fetch_local_media_block 1000 0 ''m'' 0 empty_cache))"

definition filled_cache :: block_cache where
  "filled_cache = task_stored 1002 0 (task_fetched 1001 0 (Some sample_answer) started_cache)"

abbreviation sample_provider :: "string \<Rightarrow> nat \<Rightarrow> bytes set" where
  "sample_provider \<equiv> \<lambda>m b. if m = ''m'' \<and> b = 0 then {sample_answer} else UNIV"

lemmas cache_trace_defs = get_or_fetch_local_media_block_def task_reads_def task_fetched_def task_stored_def
  redis_get_block_def redis_set_block_def end_task_def put_l1_def evict_if_needed_def touch_block_def
  empty_cache_def Let_def index_members_def

lemma started_task: "map_of (bk_tasks started_cache) 0 = Some \<lparr>ft_mediaId = ''m'', ft_blockStart = 0, ft_phase = Fetching\<rparr>"
  by (simp add: started_cache_def cache_trace_defs)

lemma filled_reachable: "cache_reachable sample_provider filled_cache"
proof -
  have "cache_reachable sample_provider started_cache"
    unfolding started_cache_def
    by (rule cache_reachable.step [OF cache_reachable.step [OF cache_reachable.initial cache_step.lookup] cache_step.reads])
  moreover have "cache_step sample_provider started_cache (task_fetched 1001 0 (Some sample_answer) started_cache)"
    by (rule cache_step.fetched) (simp add: started_task)
  ultimately show ?thesis
    unfolding filled_cache_def using cache_reachable.step cache_step.stored by blast
qed

lemma filled_hit: "snd (get_or_fetch_local_media_block 2000 1 ''m'' 0 filled_cache) = Hit sample_answer"
  by (simp add: filled_cache_def started_cache_def cache_trace_defs sample_answer_def cache_max_bytes_def cache_ttl_ms_def)

theorem block_cache_bounded_witness: "bk_totalBytes filled_cache = 3 \<and> 3 \<le> cache_max_bytes"
proof -
  have "map (\<lambda>(k, e). int (length (be_bytes e))) (bk_blocks filled_cache) = [3]"
    by (simp add: filled_cache_def started_cache_def cache_trace_defs sample_answer_def cache_max_bytes_def)
  with block_cache_bounded [OF filled_reachable] show ?thesis by (simp add: cache_max_bytes_def)
qed

theorem block_cache_serves_provider_bytes_witness: "sample_answer \<in> sample_provider ''m'' 0"
  using block_cache_serves_provider_bytes [OF filled_reachable filled_hit] .

text \<open>
  An invalidation while a fetch runs does not reach it: the fetch puts its bytes into the invalidated
  cache, and the next lookup hits them.
\<close>

lemma invalidation_misses_running_fetch:
  "snd (get_or_fetch_local_media_block 2000 1 ''m'' 0
     (task_fetched 1002 0 (Some sample_answer)
       (invalidate_local_media_block_cache 1001 ''m'' started_cache))) = Hit sample_answer"
  by (simp add: started_cache_def cache_trace_defs invalidate_local_media_block_cache_def clear_l1_for_media_def
      redis_invalidate_blocks_def is_key_of_media_def sample_answer_def cache_max_bytes_def cache_ttl_ms_def block_key_def)

end
