(* ===== verification/Player_Clock.thy ===== *)
theory Player_Clock
  imports Prelude
begin

text \<open>
  The clock of the player (\<open>src/src/shared/server-clock.ts\<close>), the drift between a playhead and the
  room (\<open>src/src/client/player/playback-sync.ts\<close>) and the snapshot a player keeps pending
  (\<open>pending-sync.ts\<close>, \<open>provider-sync-tuning.ts\<close>).  A number a browser object hands out may be no
  finite number; the room's own numbers have passed a schema and are reals.
\<close>

section \<open>Numbers a browser hands out\<close>

datatype js_number = Num real | PosInfinity | NegInfinity | NotANumber

fun finite_number :: "js_number \<Rightarrow> real option" where
  "finite_number (Num x) = Some x"
| "finite_number _ = None"

fun js_less :: "js_number \<Rightarrow> js_number \<Rightarrow> bool" where
  "js_less (Num x) (Num y) = (x < y)"
| "js_less (Num x) PosInfinity = True"
| "js_less NegInfinity (Num y) = True"
| "js_less NegInfinity PosInfinity = True"
| "js_less _ _ = False"

fun js_distance :: "js_number \<Rightarrow> js_number \<Rightarrow> js_number" where
  "js_distance (Num x) (Num y) = Num \<bar>x - y\<bar>"
| "js_distance NotANumber _ = NotANumber"
| "js_distance _ NotANumber = NotANumber"
| "js_distance PosInfinity PosInfinity = NotANumber"
| "js_distance NegInfinity NegInfinity = NotANumber"
| "js_distance _ _ = PosInfinity"

definition js_at_least :: "js_number \<Rightarrow> js_number \<Rightarrow> bool" where
  "js_at_least x y = (js_less y x \<or> (x = y \<and> x \<noteq> NotANumber))"

lemma js_at_least_Num [simp]: "js_at_least (Num x) (Num y) = (y \<le> x)"
  by (auto simp: js_at_least_def)

lemma js_less_Num_right [simp]: "js_less x (Num y) = (x = NegInfinity \<or> (\<exists>r. x = Num r \<and> r < y))"
  by (cases x) auto

lemma finite_number_Some [simp]: "finite_number x = Some r \<longleftrightarrow> x = Num r"
  by (cases x) auto

lemma finite_number_split: "P (finite_number x) = ((\<forall>r. x = Num r \<longrightarrow> P (Some r)) \<and> ((\<forall>r. x \<noteq> Num r) \<longrightarrow> P None))"
  by (cases x) auto

section \<open>The server's clock\<close>

record server_clock =
  sc_offset :: real
  sc_hasSample :: bool
  sc_lastRtt :: real

definition initial_clock :: server_clock where
  "initial_clock = \<lparr>sc_offset = 0, sc_hasSample = False, sc_lastRtt = 0\<rparr>"

definition server_clock_offset_outlier_ms :: real where "server_clock_offset_outlier_ms = 10000"

definition set_server_clock_offset_ms :: "js_number \<Rightarrow> server_clock \<Rightarrow> server_clock" where
  "set_server_clock_offset_ms offset c =
     c\<lparr>sc_offset := (case offset of Num x \<Rightarrow> x | _ \<Rightarrow> 0), sc_hasSample := True\<rparr>"

definition observe_rtt_ms :: "js_number \<Rightarrow> server_clock \<Rightarrow> server_clock" where
  "observe_rtt_ms rtt c =
     (case rtt of
        Num r \<Rightarrow>
          if r < 0 then c
          else if sc_lastRtt c \<le> 0 then c\<lparr>sc_lastRtt := r\<rparr>
          else c\<lparr>sc_lastRtt := sc_lastRtt c * (7 / 10) + r * (3 / 10)\<rparr>
      | _ \<Rightarrow> c)"

definition positive_number :: "js_number \<Rightarrow> real option" where
  "positive_number x = (case x of Num r \<Rightarrow> if r > 0 then Some r else None | _ \<Rightarrow> None)"

definition estimate_server_clock_offset_ms :: "real \<Rightarrow> real \<Rightarrow> js_number \<Rightarrow> real" where
  "estimate_server_clock_offset_ms serverNowMs clientNowMs rtt =
     (let halfRtt = (case positive_number rtt of Some r \<Rightarrow> r / 2 | None \<Rightarrow> 0)
      in serverNowMs + halfRtt - clientNowMs)"

definition server_now_estimate_ms :: "server_clock \<Rightarrow> real \<Rightarrow> real" where
  "server_now_estimate_ms c clientNowMs = clientNowMs + sc_offset c"

text \<open>An undefined round trip is no number.\<close>

definition observe_server_now_ms :: "js_number \<Rightarrow> real \<Rightarrow> js_number \<Rightarrow> server_clock \<Rightarrow> server_clock" where
  "observe_server_now_ms serverNow clientNowMs rtt c =
     (case serverNow of
        Num s \<Rightarrow>
          (let effectiveRtt = (case positive_number rtt of Some r \<Rightarrow> r | None \<Rightarrow> sc_lastRtt c);
               c1 = (case positive_number rtt of Some r \<Rightarrow> observe_rtt_ms rtt c | None \<Rightarrow> c);
               sample = estimate_server_clock_offset_ms s clientNowMs (Num effectiveRtt)
           in if \<not> sc_hasSample c1 then c1\<lparr>sc_offset := sample, sc_hasSample := True\<rparr>
              else if \<bar>sample - sc_offset c1\<bar> > server_clock_offset_outlier_ms then c1
              else c1\<lparr>sc_offset := sc_offset c1 * (8 / 10) + sample * (2 / 10)\<rparr>)
      | _ \<Rightarrow> c)"

section \<open>The room's clock\<close>

record sync_state =
  ss_paused :: bool
  ss_playbackRate :: real
  ss_timelineAnchorMs :: real
  ss_serverNowMs :: real
  ss_videoLoop :: bool

datatype video_loop_field = LoopText string | LoopFlag bool

record pending_sync_input =
  pi_paused :: bool
  pi_playbackRate :: real
  pi_timelineAnchorMs :: real
  pi_serverNowMs :: real
  pi_videoLoop :: video_loop_field

definition pending_sync_from_playback :: "pending_sync_input \<Rightarrow> sync_state" where
  "pending_sync_from_playback p =
     \<lparr>ss_paused = pi_paused p, ss_playbackRate = pi_playbackRate p, ss_timelineAnchorMs = pi_timelineAnchorMs p,
      ss_serverNowMs = pi_serverNowMs p,
      ss_videoLoop = (case pi_videoLoop p of LoopFlag b \<Rightarrow> b | LoopText t \<Rightarrow> t \<noteq> ''off'')\<rparr>"

definition compute_expected_playback_time_sec :: "sync_state \<Rightarrow> real \<Rightarrow> real" where
  "compute_expected_playback_time_sec ss nowMs =
     (let anchorSec = max 0 (ss_timelineAnchorMs ss / 1000);
          elapsedSec = (if ss_paused ss then 0 else max 0 ((nowMs - ss_serverNowMs ss) / 1000))
      in anchorSec + elapsedSec * ss_playbackRate ss)"

section \<open>Thresholds and the catch-up rate\<close>

definition default_playback_drift_threshold_sec :: real where "default_playback_drift_threshold_sec = 8 / 10"

definition resolve_playback_drift_threshold_sec :: "js_number \<Rightarrow> real \<Rightarrow> real" where
  "resolve_playback_drift_threshold_sec rtt baseSec =
     (let halfRttSec = (case positive_number rtt of Some r \<Rightarrow> r / 2000 | None \<Rightarrow> 0)
      in max baseSec (halfRttSec + 25 / 100))"

definition force_seek_lead_sec :: real where "force_seek_lead_sec = 0"
definition catch_up_drift_max_sec :: real where "catch_up_drift_max_sec = 3"
definition catch_up_clear_drift_sec :: real where "catch_up_clear_drift_sec = 35 / 100"
definition catch_up_rate_boost :: real where "catch_up_rate_boost = 14 / 10"
definition catch_up_rate_min_factor :: real where "catch_up_rate_min_factor = 105 / 100"
definition catch_up_rate_max_factor :: real where "catch_up_rate_max_factor = 15 / 10"
definition playback_rate_schema_max :: real where "playback_rate_schema_max = 3"

definition is_catch_up_drift_band :: "js_number \<Rightarrow> real \<Rightarrow> bool" where
  "is_catch_up_drift_band drift minSec =
     (case drift of Num d \<Rightarrow> d > minSec \<and> d \<le> catch_up_drift_max_sec | _ \<Rightarrow> False)"

definition resolve_catch_up_playback_rate :: "js_number \<Rightarrow> js_number \<Rightarrow> real \<Rightarrow> real option" where
  "resolve_catch_up_playback_rate roomRate drift minSec =
     (if \<not> is_catch_up_drift_band drift minSec then None
      else case positive_number roomRate of
             None \<Rightarrow> None
           | Some r \<Rightarrow>
               (let boosted = r * catch_up_rate_boost; lo = r * catch_up_rate_min_factor;
                    hi = min (r * catch_up_rate_max_factor) playback_rate_schema_max
                in Some (min hi (max lo boosted))))"

definition is_playback_drift_beyond_threshold :: "real \<Rightarrow> real \<Rightarrow> js_number \<Rightarrow> real \<Rightarrow> bool" where
  "is_playback_drift_beyond_threshold currentSec expectedSec threshold allowAheadSec =
     (if allowAheadSec > 0 \<and> currentSec - expectedSec \<ge> 0 \<and> currentSec - expectedSec \<le> allowAheadSec then False
      else js_less threshold (Num \<bar>currentSec - expectedSec\<bar>))"

section \<open>The end of the medium\<close>

definition buffer_only_proximity_sec :: real where "buffer_only_proximity_sec = 1"
definition buffer_only_max_abs_sec :: real where "buffer_only_max_abs_sec = 45"
definition seek_ceiling_eps_sec :: real where "seek_ceiling_eps_sec = 5 / 100"

definition looks_like_buffer_only_bound :: "real option \<Rightarrow> real option \<Rightarrow> bool" where
  "looks_like_buffer_only_bound bound seekableEnd =
     (case (bound, seekableEnd) of
        (Some b, Some s) \<Rightarrow>
          if \<bar>b - s\<bar> \<ge> buffer_only_proximity_sec then False else min b s < buffer_only_max_abs_sec
      | _ \<Rightarrow> False)"

definition resolve_seek_ceiling_sec :: "js_number \<Rightarrow> js_number \<Rightarrow> js_number \<Rightarrow> bool \<Rightarrow> real option" where
  "resolve_seek_ceiling_sec duration seekableEnd durationHint isLive =
     (let finiteSeekable = positive_number seekableEnd; finiteDuration = positive_number duration;
          finiteHint = positive_number durationHint;
          trustedDuration = (if looks_like_buffer_only_bound finiteDuration finiteSeekable then None else finiteDuration);
          trustedHint = (if looks_like_buffer_only_bound finiteHint finiteSeekable then None else finiteHint);
          orZero = (\<lambda>x. case x of Some r \<Rightarrow> r | None \<Rightarrow> 0);
          vodBound = max (orZero trustedDuration) (orZero trustedHint)
      in if vodBound > 0
         then (let withSeekable = (case finiteSeekable of Some s \<Rightarrow> max vodBound s | None \<Rightarrow> vodBound)
               in Some (max 0 (withSeekable - seek_ceiling_eps_sec)))
         else if isLive then map_option (\<lambda>s. max 0 (s - seek_ceiling_eps_sec)) finiteSeekable
         else None)"

definition measure_playback_drift_sec ::
  "js_number \<Rightarrow> sync_state \<Rightarrow> real \<Rightarrow> js_number \<Rightarrow> js_number \<Rightarrow> js_number \<Rightarrow> bool \<Rightarrow> real \<Rightarrow> real option" where
  "measure_playback_drift_sec playerCurrentTime ss nowMs duration seekableEnd durationHint isLive allowAheadSec =
     (case playerCurrentTime of
        Num cur \<Rightarrow>
          (let expectedSec = compute_expected_playback_time_sec ss nowMs;
               plain = (if allowAheadSec > 0 \<and> cur - expectedSec \<ge> 0 \<and> cur - expectedSec \<le> allowAheadSec then 0
                        else \<bar>cur - expectedSec\<bar>)
           in case resolve_seek_ceiling_sec duration seekableEnd durationHint isLive of
                Some ceil \<Rightarrow>
                  if expectedSec > ceil \<and> \<bar>cur - ceil\<bar> \<le> default_playback_drift_threshold_sec
                  then Some \<bar>cur - ceil\<bar> else Some plain
              | None \<Rightarrow> Some plain)
      | _ \<Rightarrow> None)"

section \<open>The kind of view and the neighbour in the playlist\<close>

datatype media_view_type = ViewAudio | ViewVideo

definition audio_extensions :: "string list" where
  "audio_extensions = [''.mp3'', ''.wav'', ''.ogg'', ''.flac'', ''.m4a'', ''.aac'']"

definition lower_char :: "char \<Rightarrow> char" where
  "lower_char c = (let n = (of_char c :: nat) in if 65 \<le> n \<and> n \<le> 90 then char_of (n + 32) else c)"

definition infer_media_view_type :: "string option \<Rightarrow> media_view_type" where
  "infer_media_view_type url =
     (if \<not> truthy url then ViewVideo
      else let lower = map lower_char (the url) in
           if list_ex (\<lambda>i. list_ex (\<lambda>e. take (length e) (drop i lower) = e \<and>
                          (drop (i + length e) lower = [] \<or> hd (drop (i + length e) lower) = CHR ''?'')) audio_extensions)
                [0..<length lower]
           then ViewAudio else ViewVideo)"

datatype step_direction = PreviousItem | NextItem

definition get_adjacent_playlist_index :: "int \<Rightarrow> int \<Rightarrow> string \<Rightarrow> step_direction \<Rightarrow> int option" where
  "get_adjacent_playlist_index currentIndex totalItems loopMode direction =
     (if totalItems \<le> 0 then None
      else let canWrap = (loopMode \<noteq> ''off'') in
           case direction of
             PreviousItem \<Rightarrow> if currentIndex > 0 then Some (currentIndex - 1)
                             else if canWrap then Some (totalItems - 1) else None
           | NextItem \<Rightarrow> if currentIndex < totalItems - 1 then Some (currentIndex + 1)
                         else if canWrap then Some 0 else None)"

section \<open>Tuning by provider\<close>

record sync_tuning =
  tu_retryDelaysMs :: "real list option"
  tu_pauseRetryDelaysMs :: "real list option"
  tu_maxForceSeeksPerAnchor :: "nat option"
  tu_nativeProvider :: bool

definition iframe_retry_delays_ms :: "real list" where
  "iframe_retry_delays_ms = [200, 600, 1200, 2400, 4000, 6000, 9000, 12000]"

definition iframe_pause_retry_delays_ms :: "real list" where
  "iframe_pause_retry_delays_ms = 100 # iframe_retry_delays_ms"

definition iframe_max_force_seeks_per_anchor :: nat where "iframe_max_force_seeks_per_anchor = 8"

definition iframe_provider_sync_tuning :: sync_tuning where
  "iframe_provider_sync_tuning =
     \<lparr>tu_retryDelaysMs = Some iframe_retry_delays_ms, tu_pauseRetryDelaysMs = Some iframe_pause_retry_delays_ms,
      tu_maxForceSeeksPerAnchor = Some iframe_max_force_seeks_per_anchor, tu_nativeProvider = True\<rparr>"

text \<open>\<open>isNative\<close> reads the host name with the URL parser.\<close>

definition resolve_provider_sync_tuning :: "(string \<Rightarrow> bool) \<Rightarrow> string option \<Rightarrow> sync_tuning option" where
  "resolve_provider_sync_tuning isNative src =
     (if \<not> truthy src \<or> \<not> isNative (the src) then None else Some iframe_provider_sync_tuning)"

section \<open>What the clock promises\<close>

type_synonym clock_stamp = "real \<times> real \<times> real"

definition stamp_offset :: "clock_stamp \<Rightarrow> real" where
  "stamp_offset x = (case x of (server, client, rtt) \<Rightarrow> server + rtt / 2 - client)"

definition observe_stamp :: "clock_stamp \<Rightarrow> server_clock \<Rightarrow> server_clock" where
  "observe_stamp x c = (case x of (server, client, rtt) \<Rightarrow> observe_server_now_ms (Num server) client (Num rtt) c)"

lemma observe_rtt_offset [simp]:
  "sc_offset (observe_rtt_ms r c) = sc_offset c" "sc_hasSample (observe_rtt_ms r c) = sc_hasSample c"
  by (simp_all add: observe_rtt_ms_def split: js_number.split)

lemma observe_stamp_offset:
  assumes "snd (snd x) > 0" "sc_hasSample c"
  shows "sc_hasSample (observe_stamp x c)"
    and "sc_offset (observe_stamp x c) =
      (if \<bar>stamp_offset x - sc_offset c\<bar> > server_clock_offset_outlier_ms then sc_offset c
       else sc_offset c * (8 / 10) + stamp_offset x * (2 / 10))"
  using assms by (auto simp: observe_stamp_def observe_server_now_ms_def positive_number_def Let_def stamp_offset_def
      estimate_server_clock_offset_ms_def split: prod.split)

lemma blend_bound:
  "z = (8 / 10) * x + (2 / 10) * y \<Longrightarrow> \<bar>x\<bar> \<le> A + e \<Longrightarrow> \<bar>y\<bar> \<le> e \<Longrightarrow> \<bar>z\<bar> \<le> (8 / 10) * A + (e::real)"
  unfolding abs_le_iff by simp

lemma observe_stamps_near:
  assumes "sc_hasSample c" "\<bar>sc_offset c - true_offset\<bar> + 2 * e \<le> server_clock_offset_outlier_ms" "0 \<le> e"
    and "\<forall>x \<in> set xs. snd (snd x) > 0 \<and> \<bar>stamp_offset x - true_offset\<bar> \<le> e"
  shows "\<bar>sc_offset (fold observe_stamp xs c) - true_offset\<bar> \<le> (8 / 10) ^ length xs * \<bar>sc_offset c - true_offset\<bar> + e \<and>
     sc_hasSample (fold observe_stamp xs c)"
  using assms
proof (induction xs rule: rev_induct)
  case (snoc x xs)
  let ?c = "fold observe_stamp xs c" and ?d = "\<bar>sc_offset c - true_offset\<bar>" and ?q = "(8 / 10 :: real) ^ length xs"
  from snoc have IH: "\<bar>sc_offset ?c - true_offset\<bar> \<le> ?q * ?d + e" "sc_hasSample ?c" by auto
  have x: "snd (snd x) > 0" "\<bar>stamp_offset x - true_offset\<bar> \<le> e" using snoc.prems(4) by auto
  have "?q * ?d \<le> ?d" using mult_right_mono [of ?q 1 ?d] by (simp add: power_le_one)
  then have "\<not> \<bar>stamp_offset x - sc_offset ?c\<bar> > server_clock_offset_outlier_ms"
    using IH(1) x(2) snoc.prems(2) by linarith
  then have "sc_offset (observe_stamp x ?c) - true_offset =
      (8 / 10) * (sc_offset ?c - true_offset) + (2 / 10) * (stamp_offset x - true_offset)"
    by (simp add: observe_stamp_offset(2) [OF x(1) IH(2)] field_simps)
  then have "\<bar>sc_offset (observe_stamp x ?c) - true_offset\<bar> \<le> (8 / 10) * (?q * ?d) + e"
    using IH(1) x(2) by (rule blend_bound)
  then show ?case using observe_stamp_offset(1) [OF x(1) IH(2)] by simp
qed simp

text \<open>
  C1. A client whose estimate is not off by more than the outlier bound closes in on the server's clock: after
  \<open>n\<close> stamps whose error is at most \<open>e\<close>, what is left of the first error is its share \<open>0.8 ^ n\<close>, plus \<open>e\<close>.
\<close>

theorem server_clock_converges:
  assumes "sc_hasSample c" "\<bar>sc_offset c - true_offset\<bar> + 2 * e \<le> server_clock_offset_outlier_ms" "0 \<le> e"
    and "\<forall>x \<in> set xs. snd (snd x) > 0 \<and> \<bar>stamp_offset x - true_offset\<bar> \<le> e"
  shows "\<bar>server_now_estimate_ms (fold observe_stamp xs c) t - (t + true_offset)\<bar>
      \<le> (8 / 10) ^ length xs * \<bar>sc_offset c - true_offset\<bar> + e"
  using observe_stamps_near [OF assms] by (simp add: server_now_estimate_ms_def)

theorem server_clock_converges_witness:
  "\<bar>server_now_estimate_ms (fold observe_stamp [(1050, 1000, 100), (2060, 2000, 100)]
      \<lparr>sc_offset = 0, sc_hasSample = True, sc_lastRtt = 0\<rparr>) 0 - (0 + 100)\<bar> \<le> 74"
  using server_clock_converges [of "\<lparr>sc_offset = 0, sc_hasSample = True, sc_lastRtt = 0\<rparr>" 100 10
      "[(1050, 1000, 100), (2060, 2000, 100)]" 0]
  by (simp add: stamp_offset_def server_clock_offset_outlier_ms_def power2_eq_square)

text \<open>
  An estimate that is off by more than the outlier bound stays: every later stamp of the true clock is
  taken for an outlier, for ever.
\<close>

theorem poisoned_clock_never_recovers:
  assumes "sc_hasSample c" "\<bar>sc_offset c - true_offset\<bar> > server_clock_offset_outlier_ms + e"
    and "\<forall>x \<in> set xs. snd (snd x) > 0 \<and> \<bar>stamp_offset x - true_offset\<bar> \<le> e"
  shows "server_now_estimate_ms (fold observe_stamp xs c) t = server_now_estimate_ms c t"
proof -
  have "sc_hasSample (fold observe_stamp xs c) \<and> sc_offset (fold observe_stamp xs c) = sc_offset c"
    using assms
  proof (induction xs rule: rev_induct)
    case (snoc x xs)
    then have IH: "sc_hasSample (fold observe_stamp xs c)" "sc_offset (fold observe_stamp xs c) = sc_offset c" by auto
    have x: "snd (snd x) > 0" "\<bar>stamp_offset x - true_offset\<bar> \<le> e" using snoc.prems(3) by auto
    have "\<bar>stamp_offset x - sc_offset c\<bar> > server_clock_offset_outlier_ms" using x(2) snoc.prems(2) by linarith
    then show ?case using observe_stamp_offset [OF x(1) IH(1)] IH(2) by simp
  qed simp
  then show ?thesis by (simp add: server_now_estimate_ms_def)
qed

theorem poisoned_clock_never_recovers_witness:
  "server_now_estimate_ms (fold observe_stamp [(1050, 1000, 100), (2060, 2000, 100)]
      (observe_stamp (60000, 0, 100) initial_clock)) 0 = 60050"
proof -
  have c: "sc_hasSample (observe_stamp (60000, 0, 100) initial_clock)" "sc_offset (observe_stamp (60000, 0, 100) initial_clock) = 60050"
    by (simp_all add: observe_stamp_def observe_server_now_ms_def initial_clock_def positive_number_def
        estimate_server_clock_offset_ms_def)
  then show ?thesis
    using poisoned_clock_never_recovers [of "observe_stamp (60000, 0, 100) initial_clock" 100 10
        "[(1050, 1000, 100), (2060, 2000, 100)]" 0]
    by (simp add: stamp_offset_def server_clock_offset_outlier_ms_def server_now_estimate_ms_def)
qed

section \<open>Thresholds, ceilings, neighbours\<close>

lemma drift_threshold_floor: "base \<le> resolve_playback_drift_threshold_sec rtt base"
  by (simp add: resolve_playback_drift_threshold_sec_def Let_def)

lemma catch_up_band_Num [simp]: "is_catch_up_drift_band (Num d) m = (m < d \<and> d \<le> 3)"
  by (simp add: is_catch_up_drift_band_def catch_up_drift_max_sec_def)

lemma catch_up_rate_Num:
  "0 < r \<Longrightarrow> m < d \<Longrightarrow> d \<le> 3 \<Longrightarrow>
     resolve_catch_up_playback_rate (Num r) (Num d) m = Some (min 3 (r * (14 / 10)))"
  by (simp add: resolve_catch_up_playback_rate_def positive_number_def catch_up_rate_boost_def catch_up_rate_min_factor_def
      catch_up_rate_max_factor_def playback_rate_schema_max_def Let_def min_def max_def)

lemma catch_up_rate_cases:
  assumes "resolve_catch_up_playback_rate roomRate drift m = Some q"
  shows "\<exists>r d. roomRate = Num r \<and> drift = Num d \<and> 0 < r \<and> m < d \<and> d \<le> 3 \<and> q = min 3 (r * (14 / 10))"
proof -
  obtain r d where "roomRate = Num r" "0 < r" "drift = Num d" "m < d" "d \<le> 3"
    using assms by (cases roomRate; cases drift)
      (auto simp: resolve_catch_up_playback_rate_def is_catch_up_drift_band_def positive_number_def catch_up_drift_max_sec_def
        split: if_splits)
  then show ?thesis using assms catch_up_rate_Num by auto
qed

text \<open>A short buffered window cannot hold back a seek: no ceiling is below what the medium can seek to.\<close>

lemma seek_ceiling_not_below:
  assumes "resolve_seek_ceiling_sec duration seekableEnd hint isLive = Some c"
  shows "0 \<le> c" and "positive_number seekableEnd = Some s \<Longrightarrow> s - seek_ceiling_eps_sec \<le> c"
  using assms by (auto simp: resolve_seek_ceiling_sec_def Let_def split: if_splits option.splits)

lemma seek_ceiling_long_duration:
  assumes "positive_number duration = Some d" "d \<ge> 46"
  shows "\<exists>c \<ge> d - seek_ceiling_eps_sec. resolve_seek_ceiling_sec duration seekableEnd hint isLive = Some c"
proof -
  have "\<not> looks_like_buffer_only_bound (Some d) (positive_number seekableEnd)"
    using assms(2) by (auto simp: looks_like_buffer_only_bound_def buffer_only_proximity_sec_def buffer_only_max_abs_sec_def
        split: option.split)
  then show ?thesis using assms
    by (auto simp: resolve_seek_ceiling_sec_def Let_def split: option.split)
qed

lemma adjacent_index_in_range:
  "get_adjacent_playlist_index i n mode d = Some k \<Longrightarrow> 0 \<le> i \<Longrightarrow> i < n \<Longrightarrow>
     0 \<le> k \<and> k < n \<and> k = (case d of NextItem \<Rightarrow> (i + 1) mod n | PreviousItem \<Rightarrow> (i - 1) mod n)"
  by (cases "i + 1 = n") (auto simp: get_adjacent_playlist_index_def Let_def zmod_minus1 split: if_splits step_direction.splits)

end
