(* ===== verification/Url_Safety.thy ===== *)
theory Url_Safety
  imports Block_Cache Player_Clock
begin

text \<open>
  The guard against requests into private networks (\<open>src/src/server/security/url-safety.ts\<close>): which
  hosts and addresses the server may fetch from.  The URL parser, the address grammar \<open>isIP\<close> and the
  name lookup are parameters; an address part is a decimal number, as the grammar and the lookup give it.
\<close>

section \<open>Addresses\<close>

definition blocked_hostnames :: "string list" where
  "blocked_hostnames = [''localhost'', ''metadata.google.internal'', ''metadata'']"

definition blocked_hostname_suffixes :: "string list" where
  "blocked_hostname_suffixes = [''.localhost'', ''.local'']"

primrec split_on :: "char \<Rightarrow> string \<Rightarrow> string list" where
  "split_on sep [] = [[]]"
| "split_on sep (c # s) =
     (if c = sep then [] # split_on sep s
      else case split_on sep s of [] \<Rightarrow> [[c]] | part # parts \<Rightarrow> (c # part) # parts)"

definition ends_with :: "string \<Rightarrow> string \<Rightarrow> bool" where
  "ends_with s suffix = (length suffix \<le> length s \<and> drop (length s - length suffix) s = suffix)"

definition strip_trailing_dots :: "string \<Rightarrow> string" where
  "strip_trailing_dots s = rev (dropWhile (\<lambda>c. c = CHR ''.'') (rev s))"

definition normalize_hostname :: "string \<Rightarrow> string" where
  "normalize_hostname hostname =
     (let opened = (if take 1 hostname = ''['' then drop 1 hostname else hostname);
          closed = (if ends_with opened '']'' then butlast opened else opened)
      in strip_trailing_dots (map lower_char closed))"

definition is_hex_digit :: "char \<Rightarrow> bool" where
  "is_hex_digit c = (is_digit c \<or> c \<in> set ''abcdef'')"

definition parse_hex :: "string \<Rightarrow> nat" where
  "parse_hex s = foldl (\<lambda>acc c. acc * 16 + (if is_digit c then of_char c - 48 else of_char c - 87)) 0 s"

definition dotted :: "nat \<Rightarrow> nat \<Rightarrow> nat \<Rightarrow> nat \<Rightarrow> string" where
  "dotted a b c d = show_nat a @ ''.'' @ show_nat b @ ''.'' @ show_nat c @ ''.'' @ show_nat d"

definition is_dotted_group :: "string \<Rightarrow> bool" where
  "is_dotted_group g =
     (let parts = split_on CHR ''.'' g
      in length parts = 4 \<and> list_all (\<lambda>p. 1 \<le> length p \<and> length p \<le> 3 \<and> list_all is_digit p) parts)"

definition is_hex_group :: "string \<Rightarrow> bool" where
  "is_hex_group g = (1 \<le> length g \<and> length g \<le> 4 \<and> list_all is_hex_digit g)"

text \<open>The two patterns anchor at the end of the address, so they speak of its last groups.\<close>

definition ipv4_mapped_to_dotted :: "string \<Rightarrow> string option" where
  "ipv4_mapped_to_dotted ip =
     (let groups = rev (split_on CHR '':'' (map lower_char ip)) in
      case groups of
        g # marker # _ \<Rightarrow>
          if marker = ''ffff'' \<and> is_dotted_group g then Some g
          else (case groups of
                  low # high # mark # _ \<Rightarrow>
                    if mark = ''ffff'' \<and> is_hex_group high \<and> is_hex_group low
                    then (let hi = parse_hex high; lo = parse_hex low
                          in Some (dotted (hi div 256 mod 256) (hi mod 256) (lo div 256 mod 256) (lo mod 256)))
                    else None
                | _ \<Rightarrow> None)
      | _ \<Rightarrow> None)"

definition number_of_part :: "string \<Rightarrow> nat option" where
  "number_of_part p = (if list_all is_digit p then Some (parse_digits p) else None)"

definition is_private_or_local_ipv4 :: "string \<Rightarrow> bool" where
  "is_private_or_local_ipv4 ip =
     (case map number_of_part (split_on CHR ''.'' ip) of
        [Some a, Some b, Some c, Some d] \<Rightarrow>
          a = 10 \<or> a = 127 \<or> a = 0 \<or> (a = 169 \<and> b = 254) \<or> (a = 172 \<and> b \<ge> 16 \<and> b \<le> 31) \<or>
          (a = 192 \<and> b = 168) \<or> (a = 100 \<and> b \<ge> 64 \<and> b \<le> 127)
      | _ \<Rightarrow> True)"

definition is_private_or_local_ip :: "string \<Rightarrow> bool" where
  "is_private_or_local_ip ip =
     (let normalized = map lower_char ip in
      if normalized \<in> {''::1'', ''::'', ''0.0.0.0''} then True
      else case ipv4_mapped_to_dotted normalized of
             Some mapped \<Rightarrow> is_private_or_local_ipv4 mapped
           | None \<Rightarrow>
               if CHR '':'' \<in> set normalized
               then take 2 normalized = ''fc'' \<or> take 2 normalized = ''fd'' \<or> take 5 normalized = ''fe80:''
               else is_private_or_local_ipv4 normalized)"

section \<open>The guard\<close>

record http_url =
  hu_protocol :: string
  hu_hostname :: string

datatype url_refusal = InvalidUrl | UnsupportedProtocol | BlockedHostname | PrivateIp | DnsLookupFailed

record url_env =
  ue_parse :: "string \<Rightarrow> http_url option"
  ue_isIP :: "string \<Rightarrow> nat"
  ue_allowPrivate :: bool

definition is_private_or_loopback_http_url :: "url_env \<Rightarrow> string \<Rightarrow> bool" where
  "is_private_or_loopback_http_url ue rawUrl =
     (case ue_parse ue rawUrl of
        None \<Rightarrow> False
      | Some url \<Rightarrow>
          (let hostname = normalize_hostname (hu_hostname url)
           in if hostname \<in> set blocked_hostnames then True
              else if list_ex (ends_with hostname) blocked_hostname_suffixes then True
              else ue_isIP ue hostname \<noteq> 0 \<and> is_private_or_local_ip hostname))"

definition assert_public_http_url :: "url_env \<Rightarrow> string \<Rightarrow> url_refusal + http_url" where
  "assert_public_http_url ue raw =
     (case ue_parse ue raw of
        None \<Rightarrow> Inl InvalidUrl
      | Some url \<Rightarrow>
          if hu_protocol url \<noteq> ''http:'' \<and> hu_protocol url \<noteq> ''https:'' then Inl UnsupportedProtocol
          else if ue_allowPrivate ue then Inr url
          else let hostname = normalize_hostname (hu_hostname url) in
               if hostname \<in> set blocked_hostnames then Inl BlockedHostname
               else if list_ex (ends_with hostname) blocked_hostname_suffixes then Inl BlockedHostname
               else if ue_isIP ue hostname \<noteq> 0 \<and> is_private_or_local_ip hostname then Inl PrivateIp
               else Inr url)"

text \<open>The lookup is asked once; \<open>None\<close> is a lookup that fails.\<close>

definition assert_public_http_url_resolved ::
  "url_env \<Rightarrow> (string \<Rightarrow> string list option) \<Rightarrow> string \<Rightarrow> url_refusal + http_url" where
  "assert_public_http_url_resolved ue look raw =
     (case assert_public_http_url ue raw of
        Inl reason \<Rightarrow> Inl reason
      | Inr url \<Rightarrow>
          if ue_allowPrivate ue then Inr url
          else let hostname = normalize_hostname (hu_hostname url) in
               if ue_isIP ue hostname \<noteq> 0 then Inr url
               else case look hostname of
                      None \<Rightarrow> Inl DnsLookupFailed
                    | Some addresses \<Rightarrow>
                        if addresses = [] then Inl DnsLookupFailed
                        else if list_ex is_private_or_local_ip addresses then Inl PrivateIp
                        else Inr url)"

section \<open>Private networks as address ranges\<close>

text \<open>The blocks of the private and local networks, as 32-bit addresses with the length of their prefix.\<close>

definition ipv4_address :: "nat \<Rightarrow> nat \<Rightarrow> nat \<Rightarrow> nat \<Rightarrow> 32 word" where
  "ipv4_address a b c d = of_nat (a * 2 ^ 24 + b * 2 ^ 16 + c * 2 ^ 8 + d)"

definition in_block :: "32 word \<Rightarrow> 32 word \<times> nat \<Rightarrow> bool" where
  "in_block w n = (drop_bit (32 - snd n) w = drop_bit (32 - snd n) (fst n))"

definition private_blocks :: "(32 word \<times> nat) list" where
  "private_blocks =
     [(ipv4_address 10 0 0 0, 8), (ipv4_address 127 0 0 0, 8), (ipv4_address 0 0 0 0, 8), (ipv4_address 169 254 0 0, 16),
      (ipv4_address 172 16 0 0, 12), (ipv4_address 192 168 0 0, 16), (ipv4_address 100 64 0 0, 10)]"

lemma show_nat_digits: "list_all is_digit (show_nat n)"
proof (induction n rule: show_nat.induct)
  case (1 n)
  then show ?case by (auto simp: show_nat.simps [of n] is_digit_def of_char_of)
qed

lemma split_on_free: "sep \<notin> set s \<Longrightarrow> split_on sep s = [s]"
  by (induction s) auto

lemma split_on_append: "sep \<notin> set s \<Longrightarrow> split_on sep (s @ sep # t) = s # split_on sep t"
  by (induction s) auto

lemma digits_free: "list_all is_digit s \<Longrightarrow> CHR ''.'' \<notin> set s \<and> CHR '':'' \<notin> set s"
  by (auto simp: list_all_iff is_digit_def)

lemma split_dotted: "split_on CHR ''.'' (dotted a b c d) = [show_nat a, show_nat b, show_nat c, show_nat d]"
  using digits_free [OF show_nat_digits]
  by (simp add: dotted_def split_on_append split_on_free)

lemma number_show [simp]: "number_of_part (show_nat n) = Some n"
  by (simp add: number_of_part_def show_nat_digits parse_show_nat)

lemma unat_address:
  assumes "a < 256" "b < 256" "c < 256" "d < 256"
  shows "unat (ipv4_address a b c d) = a * 2 ^ 24 + b * 2 ^ 16 + c * 2 ^ 8 + d"
proof -
  have "a * 2 ^ 24 + b * 2 ^ 16 + c * 2 ^ 8 + d < 2 ^ LENGTH(32)" using assms by simp
  then show ?thesis unfolding ipv4_address_def by (simp only: unat_of_nat mod_less)
qed

lemma div_eq_range: "0 < k \<Longrightarrow> (n :: nat) div k = q \<longleftrightarrow> q * k \<le> n \<and> n < Suc q * k"
  by (metis div_less_iff_less_mult less_eq_div_iff_mult_less_eq less_Suc_eq_le order_antisym order_refl)

lemma in_block_iff:
  assumes octets: "a < 256" "b < 256" "c < 256" "d < 256" "x < 256" "y < 256"
    and m: "m \<le> 16" "k = 16 - m"
  shows "in_block (ipv4_address a b c d) (ipv4_address x y 0 0, k) \<longleftrightarrow>
    (a * 256 + b) div 2 ^ m = (x * 256 + y) div 2 ^ m"
proof -
  have upper: "(a * 2 ^ 24 + b * 2 ^ 16 + c * 2 ^ 8 + d) div 2 ^ (32 - k) = (a * 256 + b) div 2 ^ m"
    if "c < 256" "d < 256" for a b c d :: nat
  proof -
    have "(a * 2 ^ 24 + b * 2 ^ 16 + c * 2 ^ 8 + d) div 2 ^ 16 = a * 256 + b"
      using that by (intro div_nat_eqI) simp_all
    moreover have "(2::nat) ^ (32 - k) = 2 ^ 16 * 2 ^ m" using m by (simp add: power_add)
    ultimately show ?thesis by (simp only: div_mult2_eq)
  qed
  have "in_block (ipv4_address a b c d) (ipv4_address x y 0 0, k) \<longleftrightarrow>
      unat (ipv4_address a b c d) div 2 ^ (32 - k) = unat (ipv4_address x y 0 0) div 2 ^ (32 - k)"
    unfolding in_block_def by (simp only: fst_conv snd_conv word_unat_eq_iff unat_drop_bit_eq flip: drop_bit_eq_div)
  also have "\<dots> \<longleftrightarrow> (a * 256 + b) div 2 ^ m = (x * 256 + y) div 2 ^ m"
    unfolding unat_address [OF octets(1-4)] unat_address [OF octets(5,6), of 0 0, simplified]
    using upper [OF octets(3,4)] upper [of 0 0 x y] by (simp del: power_numeral_even)
  finally show ?thesis .
qed

lemma in_block_8:
  assumes "a < 256" "b < 256" "c < 256" "d < 256" "x < 256"
  shows "in_block (ipv4_address a b c d) (ipv4_address x 0 0 0, 8) = (a = x)"
  using in_block_iff [of a b c d x 0 8 8] assms by (simp add: div_eq_range)

lemma in_block_16:
  assumes "a < 256" "b < 256" "c < 256" "d < 256" "x < 256" "y < 256"
  shows "in_block (ipv4_address a b c d) (ipv4_address x y 0 0, 16) = (a = x \<and> b = y)"
proof -
  have "a * 256 + b = x * 256 + y \<longleftrightarrow> a = x \<and> b = y"
  proof
    assume e: "a * 256 + b = x * 256 + y"
    have "a = x" using e assms(2,6) by linarith
    then show "a = x \<and> b = y" using e by simp
  qed simp
  then show ?thesis using in_block_iff [of a b c d x y 0 16] assms by simp
qed

lemma in_block_12:
  assumes "a < 256" "b < 256" "c < 256" "d < 256"
  shows "in_block (ipv4_address a b c d) (ipv4_address 172 16 0 0, 12) = (a = 172 \<and> 16 \<le> b \<and> b \<le> 31)"
proof -
  have "44048 \<le> a * 256 + b \<and> a * 256 + b < 44064 \<longleftrightarrow> a = 172 \<and> 16 \<le> b \<and> b \<le> 31" using assms(2) by arith
  then show ?thesis using in_block_iff [of a b c d 172 16 4 12] assms by (simp add: div_eq_range)
qed

lemma in_block_10:
  assumes "a < 256" "b < 256" "c < 256" "d < 256"
  shows "in_block (ipv4_address a b c d) (ipv4_address 100 64 0 0, 10) = (a = 100 \<and> 64 \<le> b \<and> b \<le> 127)"
proof -
  have "25664 \<le> a * 256 + b \<and> a * 256 + b < 25728 \<longleftrightarrow> a = 100 \<and> 64 \<le> b \<and> b \<le> 127" using assms(2) by arith
  then show ?thesis using in_block_iff [of a b c d 100 64 6 10] assms by (simp add: div_eq_range)
qed

lemma private_ipv4_test_is_block_membership:
  assumes "a < 256" "b < 256" "c < 256" "d < 256"
  shows "is_private_or_local_ipv4 (dotted a b c d) = list_ex (in_block (ipv4_address a b c d)) private_blocks"
proof -
  have "is_private_or_local_ipv4 (dotted a b c d) =
      (a = 10 \<or> a = 127 \<or> a = 0 \<or> (a = 169 \<and> b = 254) \<or> (a = 172 \<and> b \<ge> 16 \<and> b \<le> 31) \<or>
       (a = 192 \<and> b = 168) \<or> (a = 100 \<and> b \<ge> 64 \<and> b \<le> 127))"
    by (simp add: is_private_or_local_ipv4_def split_dotted)
  moreover have "list_ex (in_block (ipv4_address a b c d)) private_blocks =
      (a = 10 \<or> a = 127 \<or> a = 0 \<or> (a = 169 \<and> b = 254) \<or> (a = 172 \<and> 16 \<le> b \<and> b \<le> 31) \<or>
       (a = 192 \<and> b = 168) \<or> (a = 100 \<and> 64 \<le> b \<and> b \<le> 127))"
    unfolding private_blocks_def using assms
    by (simp add: in_block_8 in_block_16 in_block_12 in_block_10)
  ultimately show ?thesis by simp
qed

section \<open>What an accepted address can reach\<close>

lemma lower_digits: "list_all is_digit s \<Longrightarrow> map lower_char s = s"
  by (induction s) (auto simp: lower_char_def is_digit_def Let_def)

lemma lower_dotted [simp]: "map lower_char (dotted a b c d) = dotted a b c d"
  by (simp add: dotted_def lower_digits show_nat_digits) (simp add: lower_char_def)

lemma dotted_free: "CHR '':'' \<notin> set (dotted a b c d)"
  using digits_free [OF show_nat_digits] by (simp add: dotted_def)

lemma length_show_octet: "n < 256 \<Longrightarrow> 1 \<le> length (show_nat n) \<and> length (show_nat n) \<le> 3"
  by (simp add: show_nat.simps [of n] show_nat.simps [of "n div 10"] show_nat.simps [of "n div 10 div 10"])

lemma dotted_group:
  assumes "a < 256" "b < 256" "c < 256" "d < 256"
  shows "is_dotted_group (dotted a b c d)"
  using assms by (simp add: is_dotted_group_def split_dotted length_show_octet [simplified] show_nat_digits)

lemma zero_octets_private:
  assumes "dotted a b c d = ''0.0.0.0''"
  shows "is_private_or_local_ipv4 (dotted a b c d)"
  unfolding assms by code_simp

lemma private_dotted: "is_private_or_local_ip (dotted a b c d) = is_private_or_local_ipv4 (dotted a b c d)"
proof -
  have "dotted a b c d \<noteq> ''::1'' \<and> dotted a b c d \<noteq> ''::''" using dotted_free [of a b c d] by auto
  moreover have "ipv4_mapped_to_dotted (dotted a b c d) = None"
    by (simp add: ipv4_mapped_to_dotted_def split_on_free dotted_free)
  ultimately show ?thesis
    using zero_octets_private by (auto simp: is_private_or_local_ip_def Let_def dotted_free)
qed

lemma private_mapped:
  assumes "a < 256" "b < 256" "c < 256" "d < 256"
  shows "is_private_or_local_ip (''::ffff:'' @ dotted a b c d) = is_private_or_local_ipv4 (dotted a b c d)"
proof -
  have "split_on (CHR '':'') (''::ffff:'' @ dotted a b c d) = [[], [], ''ffff'', dotted a b c d]"
    by (simp add: split_on_free dotted_free)
  then have "ipv4_mapped_to_dotted (''::ffff:'' @ dotted a b c d) = Some (dotted a b c d)"
    using dotted_group [OF assms] by (simp add: ipv4_mapped_to_dotted_def lower_char_def)
  then show ?thesis by (simp add: is_private_or_local_ip_def lower_char_def)
qed



text \<open>
  A unique-local IPv6 address whose last three groups are \<open>ffff\<close> and two more is read as a mapped IPv4
  address of those two groups, so the guard lets it pass; so it does a link-local address of
  \<open>fe80::/10\<close> that does not begin with \<open>fe80:\<close>.
\<close>

lemma unique_local_passes: "is_private_or_local_ip ''fd00::1'' \<and> \<not> is_private_or_local_ip ''fd00::ffff:808:808''"
  by code_simp

lemma link_local_passes: "is_private_or_local_ip ''fe80::1'' \<and> \<not> is_private_or_local_ip ''fe90::1''"
  by code_simp

end
