(* ===== verification/Media_Proxy.thy ===== *)
theory Media_Proxy
  imports Hls_Rewrite Rate_Limit Url_Safety
begin

text \<open>
  The media proxy: the tokens that stand for upstream URLs (\<open>src/src/server/media/proxy-token.ts\<close>), the cache of
  rewritten playlists (\<open>hls-rewrite-cache.ts\<close>), the relay of a catalog (\<open>resolve/relay-urls.ts\<close>) and the
  handlers of \<open>http/proxy.ts\<close> with \<open>stale-upstream-refresh.ts\<close>.  SHA-256, the URL parser, the name lookup and
  the answers of upstream servers are parameters; the awaits of one call are not interleaved with others.
\<close>

section \<open>Tokens\<close>

definition proxy_token_ttl_ms :: jsnum where "proxy_token_ttl_ms = 60 * 60 * 24 * 7 * 1000"

record proxy_meta =
  pm_referer :: "string option"
  pm_userAgent :: "string option"
  pm_roomId :: "string option"
  pm_mediaId :: "string option"

record proxy_payload =
  pp_url :: string
  pp_meta :: proxy_meta
  pp_createdAt :: jsnum

text \<open>Values of Redis with the time they expire.\<close>

record proxy_store =
  ps_tokens :: "(string \<times> proxy_payload \<times> jsnum) list"
  ps_byUrl :: "(string \<times> string \<times> jsnum) list"

record proxy_env =
  px_hash :: "string \<Rightarrow> string"
  px_urls :: url_env
  px_look :: "string \<Rightarrow> string list option"
  px_href :: href_fun

definition safe_url :: "proxy_env \<Rightarrow> string \<Rightarrow> bool" where
  "safe_url env url = (case assert_public_http_url_resolved (px_urls env) (px_look env) url of Inl _ \<Rightarrow> False | Inr _ \<Rightarrow> True)"

definition redis_value :: "jsnum \<Rightarrow> string \<Rightarrow> (string \<times> 'v \<times> jsnum) list \<Rightarrow> 'v option" where
  "redis_value now key m = (case map_of m key of None \<Rightarrow> None | Some (v, expires) \<Rightarrow> if expires \<le> now then None else Some v)"

definition redis_expire :: "jsnum \<Rightarrow> jsnum \<Rightarrow> string \<Rightarrow> (string \<times> 'v \<times> jsnum) list \<Rightarrow> (string \<times> 'v \<times> jsnum) list" where
  "redis_expire now ttl key m =
     (case redis_value now key m of None \<Rightarrow> m | Some v \<Rightarrow> AList.update key (v, now + ttl) m)"

definition or_else :: "'a option \<Rightarrow> 'a option \<Rightarrow> 'a option" where
  "or_else a b = (case a of None \<Rightarrow> b | Some x \<Rightarrow> Some x)"

definition meta_upgraded :: "proxy_meta \<Rightarrow> proxy_meta \<Rightarrow> proxy_meta option" where
  "meta_upgraded existing meta =
     (let next = \<lparr>pm_referer = or_else (pm_referer meta) (pm_referer existing),
            pm_userAgent = or_else (pm_userAgent meta) (pm_userAgent existing),
            pm_roomId = or_else (pm_roomId meta) (pm_roomId existing),
            pm_mediaId = or_else (pm_mediaId meta) (pm_mediaId existing)\<rparr>
      in if next \<noteq> existing then Some next else None)"

lemma upgraded_meta: "(case meta_upgraded old m of None \<Rightarrow> old | Some n \<Rightarrow> n) =
    \<lparr>pm_referer = or_else (pm_referer m) (pm_referer old), pm_userAgent = or_else (pm_userAgent m) (pm_userAgent old),
     pm_roomId = or_else (pm_roomId m) (pm_roomId old), pm_mediaId = or_else (pm_mediaId m) (pm_mediaId old)\<rparr>"
  by (auto simp: meta_upgraded_def Let_def)

definition no_meta :: proxy_meta where
  "no_meta = \<lparr>pm_referer = None, pm_userAgent = None, pm_roomId = None, pm_mediaId = None\<rparr>"

definition proxy_path :: "string \<Rightarrow> string" where "proxy_path token = ''/api/media/proxy/'' @ token"

definition mint_proxy_token :: "proxy_env \<Rightarrow> jsnum \<Rightarrow> string \<Rightarrow> string \<Rightarrow> proxy_meta option \<Rightarrow> proxy_store \<Rightarrow> string \<times> proxy_store" where
  "mint_proxy_token env now token targetUrl meta ps =
     (let payload = \<lparr>pp_url = targetUrl, pp_meta = (case meta of None \<Rightarrow> no_meta | Some m \<Rightarrow> m), pp_createdAt = now\<rparr>;
          expires = now + proxy_token_ttl_ms
      in (proxy_path token,
          ps\<lparr>ps_tokens := AList.update token (payload, expires) (ps_tokens ps),
             ps_byUrl := AList.update (px_hash env targetUrl) (token, expires) (ps_byUrl ps)\<rparr>))"

definition reuse_proxy_token :: "proxy_env \<Rightarrow> jsnum \<Rightarrow> string \<Rightarrow> proxy_payload \<Rightarrow> string \<Rightarrow> proxy_meta option \<Rightarrow> proxy_store \<Rightarrow> string \<times> proxy_store" where
  "reuse_proxy_token env now token existing targetUrl meta ps =
     (let upgraded = (case meta of None \<Rightarrow> None | Some m \<Rightarrow> meta_upgraded (pp_meta existing) m);
          tokens = (case upgraded of
              Some next \<Rightarrow> AList.update token (existing\<lparr>pp_meta := next\<rparr>, now + proxy_token_ttl_ms) (ps_tokens ps)
            | None \<Rightarrow> redis_expire now proxy_token_ttl_ms token (ps_tokens ps))
      in (proxy_path token,
          ps\<lparr>ps_tokens := tokens, ps_byUrl := redis_expire now proxy_token_ttl_ms (px_hash env targetUrl) (ps_byUrl ps)\<rparr>))"

definition create_proxy_url ::
  "proxy_env \<Rightarrow> jsnum \<Rightarrow> string \<Rightarrow> string \<Rightarrow> proxy_meta option \<Rightarrow> proxy_store \<Rightarrow> string option \<times> proxy_store" where
  "create_proxy_url env now freshToken targetUrl meta ps =
     (if \<not> safe_url env targetUrl then (None, ps)
      else case (case redis_value now (px_hash env targetUrl) (ps_byUrl ps) of
                   None \<Rightarrow> None
                 | Some token \<Rightarrow> if token = [] then None else map_option (Pair token) (redis_value now token (ps_tokens ps))) of
             Some (token, existing) \<Rightarrow> apfst Some (reuse_proxy_token env now token existing targetUrl meta ps)
           | None \<Rightarrow> apfst Some (mint_proxy_token env now freshToken targetUrl meta ps))"

definition get_proxy_token_payload :: "jsnum \<Rightarrow> string \<Rightarrow> proxy_store \<Rightarrow> proxy_payload option" where
  "get_proxy_token_payload now token ps = redis_value now token (ps_tokens ps)"

definition get_proxy_target :: "jsnum \<Rightarrow> string \<Rightarrow> proxy_store \<Rightarrow> string option" where
  "get_proxy_target now token ps = map_option pp_url (get_proxy_token_payload now token ps)"

definition refresh_proxy_token_ttl :: "proxy_env \<Rightarrow> jsnum \<Rightarrow> string \<Rightarrow> proxy_store \<Rightarrow> proxy_store" where
  "refresh_proxy_token_ttl env now token ps =
     (let payload = get_proxy_token_payload now token ps;
          ps1 = ps\<lparr>ps_tokens := redis_expire now proxy_token_ttl_ms token (ps_tokens ps)\<rparr>
      in case payload of
           Some p \<Rightarrow> if pp_url p \<noteq> [] then ps1\<lparr>ps_byUrl := redis_expire now proxy_token_ttl_ms (px_hash env (pp_url p)) (ps_byUrl ps1)\<rparr> else ps1
         | None \<Rightarrow> ps1)"

definition room_still_exists :: "string list \<Rightarrow> string option \<Rightarrow> bool" where
  "room_still_exists rooms roomId = (\<not> truthy roomId \<or> the roomId \<in> set rooms)"

section \<open>Many at once\<close>

text \<open>
  All mints of a playlist run; one refusal rejects the whole.  The relay of a catalog stops at its first refusal.
\<close>

fun mint_all :: "proxy_env \<Rightarrow> jsnum \<Rightarrow> (string \<times> string) list \<Rightarrow> proxy_meta option \<Rightarrow> proxy_store
    \<Rightarrow> (string \<times> string) list option \<times> proxy_store" where
  "mint_all env now [] meta ps = (Some [], ps)"
| "mint_all env now ((url, freshToken) # rest) meta ps =
     (case create_proxy_url env now freshToken url meta ps of
        (path, ps1) \<Rightarrow>
          (case mint_all env now rest meta ps1 of
             (paths, ps2) \<Rightarrow> (Option.bind path (\<lambda>p. map_option (Cons (url, p)) paths), ps2)))"

fun mint_until :: "proxy_env \<Rightarrow> jsnum \<Rightarrow> (string \<times> string) list \<Rightarrow> proxy_meta option \<Rightarrow> proxy_store
    \<Rightarrow> (string \<times> string) list option \<times> proxy_store" where
  "mint_until env now [] meta ps = (Some [], ps)"
| "mint_until env now ((url, freshToken) # rest) meta ps =
     (case create_proxy_url env now freshToken url meta ps of
        (None, ps1) \<Rightarrow> (None, ps1)
      | (Some p, ps1) \<Rightarrow> apfst (map_option (Cons (url, p))) (mint_until env now rest meta ps1))"

text \<open>Fresh identifiers are numbered by the mints of one call.\<close>

definition with_fresh :: "(nat \<Rightarrow> string) \<Rightarrow> string list \<Rightarrow> (string \<times> string) list" where
  "with_fresh fresh urls = zip urls (map fresh [0..<length urls])"

definition rewrite_m3u8_for_proxy ::
  "proxy_env \<Rightarrow> jsnum \<Rightarrow> (nat \<Rightarrow> string) \<Rightarrow> string \<Rightarrow> string \<Rightarrow> proxy_meta option \<Rightarrow> proxy_store \<Rightarrow> string option \<times> proxy_store" where
  "rewrite_m3u8_for_proxy env now fresh body baseUrl meta ps =
     (let urls = collect_m3u8_referenced_urls (px_href env) body baseUrl in
      case mint_all env now (with_fresh fresh urls) meta ps of
        (paths, ps1) \<Rightarrow> (map_option (\<lambda>m. rewrite_m3u8_body_with_proxy_map (px_href env) body baseUrl (map_of m)) paths, ps1))"

definition media_fetch_ua :: string where
  "media_fetch_ua = ''Mozilla/5.0 (Windows NT 10.0; Win64; x64) AppleWebKit/537.36 (KHTML, like Gecko) Chrome/120.0.0.0 Safari/537.36''"

record relay_input =
  ri_playableUrl :: string
  ri_mediaStreams :: "media_stream list"
  ri_textTracks :: "text_track list"

definition relay_urls :: "relay_input \<Rightarrow> string list" where
  "relay_urls input = set_members (filter is_http_text
     (ri_playableUrl input # map ms_src (ri_mediaStreams input) @ map tt_src (ri_textTracks input)))"

definition apply_relay_to_resolved_urls ::
  "proxy_env \<Rightarrow> jsnum \<Rightarrow> (nat \<Rightarrow> string) \<Rightarrow> string option \<Rightarrow> string option \<Rightarrow> string option \<Rightarrow> relay_input \<Rightarrow> proxy_store
    \<Rightarrow> relay_input option \<times> proxy_store" where
  "apply_relay_to_resolved_urls env now fresh roomId mediaId referer input ps =
     (let meta = \<lparr>pm_referer = referer, pm_userAgent = Some media_fetch_ua, pm_roomId = roomId, pm_mediaId = mediaId\<rparr> in
      case mint_until env now (with_fresh fresh (relay_urls input)) (Some meta) ps of
        (paths, ps1) \<Rightarrow>
          (map_option (\<lambda>m. let mapSrc = (\<lambda>url. case map_of m url of Some p \<Rightarrow> p | None \<Rightarrow> url) in
             \<lparr>ri_playableUrl = mapSrc (ri_playableUrl input),
              ri_mediaStreams = map (\<lambda>s. s\<lparr>ms_src := mapSrc (ms_src s)\<rparr>) (ri_mediaStreams input),
              ri_textTracks = map (\<lambda>t. t\<lparr>tt_src := mapSrc (tt_src t)\<rparr>) (ri_textTracks input)\<rparr>) paths, ps1))"

section \<open>The cache of rewritten playlists\<close>

record hls_entry =
  he_body :: string
  he_contentType :: string
  he_expiresAt :: jsnum

definition hls_max_entries :: nat where "hls_max_entries = 256"
definition hls_rewrite_cache_ttl_ms :: jsnum where "hls_rewrite_cache_ttl_ms = 15000"

definition hls_cache_key :: "proxy_env \<Rightarrow> string \<Rightarrow> string \<Rightarrow> string" where
  "hls_cache_key env token upstreamUrl = token @ '':'' @ take 16 (px_hash env upstreamUrl)"

definition touch :: "string \<Rightarrow> hls_entry \<Rightarrow> (string \<times> hls_entry) list \<Rightarrow> (string \<times> hls_entry) list" where
  "touch key entry cache =
     (let c = filter (\<lambda>(k, _). k \<noteq> key) cache @ [(key, entry)] in drop (length c - hls_max_entries) c)"

definition peek_hls_rewrite_cache ::
  "proxy_env \<Rightarrow> jsnum \<Rightarrow> string \<Rightarrow> string \<Rightarrow> (string \<times> hls_entry) list \<Rightarrow> (string \<times> string) option \<times> (string \<times> hls_entry) list" where
  "peek_hls_rewrite_cache env now token upstreamUrl cache =
     (let key = hls_cache_key env token upstreamUrl in
      case map_of cache key of
        None \<Rightarrow> (None, cache)
      | Some hit \<Rightarrow> if he_expiresAt hit \<le> now then (None, cache)
                    else (Some (he_body hit, he_contentType hit), touch key hit cache))"

section \<open>The handlers\<close>

record proxy_request =
  pq_ip :: string
  pq_range :: "string option"

text \<open>The answer of an upstream server; \<open>us_text\<close> is its body read as text.\<close>

record upstream =
  us_status :: nat
  us_headers :: "(string \<times> string) list"
  us_hasBody :: bool
  us_text :: string

datatype proxy_answer =
    Refused nat
  | Playlist_answer string string
  | Passed nat "(string \<times> string) list" upstream
  | Empty_answer nat "(string \<times> string) list"
  | Thrown

text \<open>The server: what was fetched, with its headers, and the items whose refresh was asked for.\<close>

record proxy_server =
  px_store :: proxy_store
  px_limiter :: limiter
  px_cache :: "(string \<times> hls_entry) list"
  px_rooms :: "string list"
  px_fetched :: "(string \<times> (string \<times> string) list) list"
  px_refreshes :: "(string \<times> string) list"

definition build_upstream_headers :: "proxy_request \<Rightarrow> proxy_meta \<Rightarrow> (string \<times> string) list" where
  "build_upstream_headers rq meta =
     [(''user-agent'', if truthy (pm_userAgent meta) then the (pm_userAgent meta) else media_fetch_ua)]
     @ (if truthy (pm_referer meta) then [(''referer'', the (pm_referer meta))] else [])
     @ (if truthy (pq_range rq) then [(''range'', the (pq_range rq))] else [])"

definition charge :: "string \<Rightarrow> nat \<Rightarrow> jsnum \<Rightarrow> proxy_server \<Rightarrow> proxy_server \<times> bool" where
  "charge key limit now sv =
     (case consume_rate_limit key limit 60000 False now (px_limiter sv) of (lm, r) \<Rightarrow> (sv\<lparr>px_limiter := lm\<rparr>, rl_allowed r))"

definition authorize_proxy_request :: "jsnum \<Rightarrow> proxy_request \<Rightarrow> string \<Rightarrow> proxy_server \<Rightarrow> proxy_server \<times> bool" where
  "authorize_proxy_request now rq token sv =
     (case charge (''proxy:ip:'' @ pq_ip rq) 240 now sv of
        (sv1, False) \<Rightarrow> (sv1, False)
      | (sv1, True) \<Rightarrow> charge (''proxy:token:'' @ token) 120 now sv1)"

definition load_authorized_proxy ::
  "proxy_env \<Rightarrow> jsnum \<Rightarrow> proxy_request \<Rightarrow> string \<Rightarrow> proxy_server \<Rightarrow> proxy_server \<times> (nat + proxy_payload)" where
  "load_authorized_proxy env now rq token sv =
     (case authorize_proxy_request now rq token sv of
        (sv1, False) \<Rightarrow> (sv1, Inl 429)
      | (sv1, True) \<Rightarrow>
          (case get_proxy_token_payload now token (px_store sv1) of
             None \<Rightarrow> (sv1, Inl 404)
           | Some payload \<Rightarrow>
               if \<not> room_still_exists (px_rooms sv1) (pm_roomId (pp_meta payload)) then (sv1, Inl 404)
               else if \<not> safe_url env (pp_url payload) then (sv1, Inl 403)
               else (sv1\<lparr>px_store := refresh_proxy_token_ttl env now token (px_store sv1)\<rparr>, Inr payload)))"

definition passthrough_headers :: "upstream \<Rightarrow> string option \<Rightarrow> (string \<times> string) list" where
  "passthrough_headers response rng =
     [(''content-type'', case map_of (us_headers response) ''content-type'' of Some ct \<Rightarrow> ct | None \<Rightarrow> ''application/octet-stream''),
      (''cache-control'', if truthy rng then ''private, no-store'' else ''private, max-age=60, no-transform''),
      (''accept-ranges'', case map_of (us_headers response) ''accept-ranges'' of Some a \<Rightarrow> a | None \<Rightarrow> ''bytes'')]
     @ concat (map (\<lambda>key. case map_of (us_headers response) key of Some v \<Rightarrow> if v \<noteq> [] then [(key, v)] else [] | None \<Rightarrow> [])
         [''content-length'', ''content-range'', ''etag'', ''last-modified''])"

definition is_stale_upstream_status :: "nat \<Rightarrow> bool" where
  "is_stale_upstream_status status = (status = 401 \<or> status = 403)"

definition schedule_stale_upstream_refresh :: "jsnum \<Rightarrow> proxy_payload \<Rightarrow> proxy_server \<Rightarrow> proxy_server" where
  "schedule_stale_upstream_refresh now payload sv =
     (case (pm_roomId (pp_meta payload), pm_mediaId (pp_meta payload)) of
        (Some roomId, Some mediaId) \<Rightarrow>
          if roomId = [] \<or> mediaId = [] then sv
          else (case charge (''stale-refresh:'' @ roomId @ '':'' @ mediaId) 2 now sv of
                  (sv1, False) \<Rightarrow> sv1
                | (sv1, True) \<Rightarrow> sv1\<lparr>px_refreshes := px_refreshes sv1 @ [(roomId, mediaId)]\<rparr>)
      | _ \<Rightarrow> sv)"

definition fetched :: "string \<Rightarrow> (string \<times> string) list \<Rightarrow> proxy_server \<Rightarrow> proxy_server" where
  "fetched url headers sv = sv\<lparr>px_fetched := px_fetched sv @ [(url, headers)]\<rparr>"

text \<open>The two fetches of a GET: the second follows one redirect.\<close>

definition fetch_upstream ::
  "proxy_env \<Rightarrow> (string \<Rightarrow> upstream option) \<Rightarrow> proxy_request \<Rightarrow> proxy_payload \<Rightarrow> proxy_server
    \<Rightarrow> proxy_server \<times> (proxy_answer + string \<times> upstream)" where
  "fetch_upstream env answer rq payload sv =
     (let headers = build_upstream_headers rq (pp_meta payload); sv1 = fetched (pp_url payload) headers sv in
      case answer (pp_url payload) of
        None \<Rightarrow> (sv1, Inl Thrown)
      | Some response \<Rightarrow>
          if 300 \<le> us_status response \<and> us_status response < 400 \<and> truthy (map_of (us_headers response) ''location'') then
            (case px_href env (the (map_of (us_headers response) ''location'')) (pp_url payload) of
               None \<Rightarrow> (sv1, Inl Thrown)
             | Some redirected \<Rightarrow>
                 if \<not> safe_url env redirected then (sv1, Inl (Refused 403))
                 else let sv2 = fetched redirected headers sv1 in
                      case answer redirected of
                        None \<Rightarrow> (sv2, Inl Thrown)
                      | Some response2 \<Rightarrow> (sv2, Inr (redirected, response2)))
          else (sv1, Inr (pp_url payload, response)))"

definition hls_content_type :: string where "hls_content_type = ''application/vnd.apple.mpegurl; charset=utf-8''"

text \<open>The body as text, rewritten when it is a playlist, kept for fifteen seconds.\<close>

definition compute_hls_entry ::
  "proxy_env \<Rightarrow> jsnum \<Rightarrow> (nat \<Rightarrow> string) \<Rightarrow> proxy_payload \<Rightarrow> string \<Rightarrow> string \<Rightarrow> upstream \<Rightarrow> proxy_store
    \<Rightarrow> (string \<times> string) option \<times> proxy_store" where
  "compute_hls_entry env now fresh payload target contentType response ps =
     (let text = us_text response in
      if should_attempt_playlist_rewrite contentType text
      then apfst (map_option (\<lambda>body. (body, hls_content_type)))
             (rewrite_m3u8_for_proxy env now fresh text target (Some (pp_meta payload)) ps)
      else (Some (text, if contentType \<noteq> [] then contentType else ''application/octet-stream''), ps))"

definition get_or_compute_hls_rewrite ::
  "proxy_env \<Rightarrow> jsnum \<Rightarrow> (nat \<Rightarrow> string) \<Rightarrow> string \<Rightarrow> proxy_payload \<Rightarrow> string \<Rightarrow> string \<Rightarrow> upstream \<Rightarrow> proxy_server
    \<Rightarrow> proxy_server \<times> proxy_answer" where
  "get_or_compute_hls_rewrite env now fresh token payload target contentType response sv =
     (let key = hls_cache_key env token (pp_url payload) in
      case peek_hls_rewrite_cache env now token (pp_url payload) (px_cache sv) of
        (Some (body, ct), cache) \<Rightarrow> (sv\<lparr>px_cache := cache\<rparr>, Playlist_answer body ct)
      | (None, _) \<Rightarrow>
          (case compute_hls_entry env now fresh payload target contentType response (px_store sv) of
             (None, ps) \<Rightarrow> (sv\<lparr>px_store := ps\<rparr>, Thrown)
           | (Some (body, ct), ps) \<Rightarrow>
               (sv\<lparr>px_store := ps,
                   px_cache := touch key \<lparr>he_body = body, he_contentType = ct, he_expiresAt = now + hls_rewrite_cache_ttl_ms\<rparr> (px_cache sv)\<rparr>,
                Playlist_answer body ct)))"

definition answer_upstream ::
  "proxy_env \<Rightarrow> jsnum \<Rightarrow> (nat \<Rightarrow> string) \<Rightarrow> proxy_request \<Rightarrow> string \<Rightarrow> proxy_payload \<Rightarrow> string \<Rightarrow> upstream \<Rightarrow> proxy_server
    \<Rightarrow> proxy_server \<times> proxy_answer" where
  "answer_upstream env now fresh rq token payload target response sv =
     (if is_stale_upstream_status (us_status response) then (schedule_stale_upstream_refresh now payload sv, Refused 409)
      else if \<not> (200 \<le> us_status response \<and> us_status response < 300) \<or> \<not> us_hasBody response then (sv, Refused 502)
      else let contentType = (case map_of (us_headers response) ''content-type'' of Some ct \<Rightarrow> ct | None \<Rightarrow> []) in
           if us_status response = 200 \<and> \<not> truthy (pq_range rq) \<and> playlist_target_hint target contentType
           then get_or_compute_hls_rewrite env now fresh token payload target contentType response sv
           else (sv, Passed (us_status response) (passthrough_headers response (pq_range rq)) response))"

definition handle_media_proxy_get ::
  "proxy_env \<Rightarrow> (string \<Rightarrow> upstream option) \<Rightarrow> jsnum \<Rightarrow> (nat \<Rightarrow> string) \<Rightarrow> proxy_request \<Rightarrow> string \<Rightarrow> proxy_server
    \<Rightarrow> proxy_server \<times> proxy_answer" where
  "handle_media_proxy_get env answer now fresh rq token sv =
     (case load_authorized_proxy env now rq token sv of
        (sv1, Inl status) \<Rightarrow> (sv1, Refused status)
      | (sv1, Inr payload) \<Rightarrow>
          (case (if truthy (pq_range rq) then (None, px_cache sv1)
                 else peek_hls_rewrite_cache env now token (pp_url payload) (px_cache sv1)) of
             (Some (body, ct), cache) \<Rightarrow> (sv1\<lparr>px_cache := cache\<rparr>, Playlist_answer body ct)
           | (None, _) \<Rightarrow>
               (case fetch_upstream env answer rq payload sv1 of
                  (sv2, Inl a) \<Rightarrow> (sv2, a)
                | (sv2, Inr (target, response)) \<Rightarrow> answer_upstream env now fresh rq token payload target response sv2)))"

definition handle_media_proxy_head ::
  "proxy_env \<Rightarrow> (string \<Rightarrow> upstream option) \<Rightarrow> jsnum \<Rightarrow> proxy_request \<Rightarrow> string \<Rightarrow> proxy_server \<Rightarrow> proxy_server \<times> proxy_answer" where
  "handle_media_proxy_head env answer now rq token sv =
     (case load_authorized_proxy env now rq token sv of
        (sv1, Inl status) \<Rightarrow> (sv1, Empty_answer status [])
      | (sv1, Inr payload) \<Rightarrow>
          let sv2 = fetched (pp_url payload) (build_upstream_headers rq (pp_meta payload)) sv1 in
          case answer (pp_url payload) of
            None \<Rightarrow> (sv2, Thrown)
          | Some response \<Rightarrow>
              (sv2, Empty_answer (if 200 \<le> us_status response \<and> us_status response < 300 then 200 else 502)
                      (passthrough_headers response (pq_range rq))))"

section \<open>Well-formed stores\<close>

text \<open>
  At a time, every token that has not expired is the one its URL leads to, both expire together, and a URL that
  leads to a token leads to one of its hash.
\<close>

definition token_ok :: "string \<Rightarrow> bool" where "token_ok t = (t \<noteq> [] \<and> quote_single \<notin> set t)"

definition proxy_wf :: "proxy_env \<Rightarrow> jsnum \<Rightarrow> proxy_store \<Rightarrow> bool" where
  "proxy_wf env now ps =
     ((\<forall>t p e. map_of (ps_tokens ps) t = Some (p, e) \<longrightarrow> token_ok t \<and> pp_url p \<noteq> [] \<and>
         (now < e \<longrightarrow> map_of (ps_byUrl ps) (px_hash env (pp_url p)) = Some (t, e))) \<and>
      (\<forall>h t e. map_of (ps_byUrl ps) h = Some (t, e) \<longrightarrow> now < e \<longrightarrow>
         (\<exists>p. map_of (ps_tokens ps) t = Some (p, e) \<and> px_hash env (pp_url p) = h)))"

lemma proxy_wfD:
  assumes "proxy_wf env now ps"
  shows "map_of (ps_tokens ps) t = Some (p, e) \<Longrightarrow> token_ok t \<and> pp_url p \<noteq> []"
    "map_of (ps_tokens ps) t = Some (p, e) \<Longrightarrow> now < e \<Longrightarrow> map_of (ps_byUrl ps) (px_hash env (pp_url p)) = Some (t, e)"
    "map_of (ps_byUrl ps) h = Some (t, e) \<Longrightarrow> now < e \<Longrightarrow> \<exists>p. map_of (ps_tokens ps) t = Some (p, e) \<and> px_hash env (pp_url p) = h"
  using assms unfolding proxy_wf_def by blast+

lemma proxy_wf_later: "proxy_wf env now ps \<Longrightarrow> now \<le> now' \<Longrightarrow> proxy_wf env now' ps"
  unfolding proxy_wf_def by (meson dual_order.strict_trans2)

lemma redis_value_Some: "redis_value now key m = Some v \<longleftrightarrow> (\<exists>e. map_of m key = Some (v, e) \<and> now < e)"
  by (auto simp: redis_value_def split: option.split)

text \<open>A token and the entry of its URL written together.\<close>

lemma proxy_wf_put:
  assumes wf: "proxy_wf env now ps" and h: "px_hash env (pp_url p) = h" and t: "token_ok t" "pp_url p \<noteq> []"
    and url: "\<And>t' e. map_of (ps_byUrl ps) h = Some (t', e) \<Longrightarrow> now < e \<Longrightarrow> t' = t"
    and tok: "\<And>p0 e. map_of (ps_tokens ps) t = Some (p0, e) \<Longrightarrow> now < e \<Longrightarrow> px_hash env (pp_url p0) = h"
  shows "proxy_wf env now (ps\<lparr>ps_tokens := AList.update t (p, e') (ps_tokens ps), ps_byUrl := AList.update h (t, e') (ps_byUrl ps)\<rparr>)"
proof -
  have 1: "token_ok s \<and> pp_url q \<noteq> [] \<and> (now < e \<longrightarrow> map_of (AList.update h (t, e') (ps_byUrl ps)) (px_hash env (pp_url q)) = Some (s, e))"
    if "map_of (AList.update t (p, e') (ps_tokens ps)) s = Some (q, e)" for s q e
  proof (cases "s = t")
    case True
    then show ?thesis using that h t by (simp add: update_conv')
  next
    case False
    then have s: "map_of (ps_tokens ps) s = Some (q, e)" using that by (simp add: update_conv')
    show ?thesis
    proof (cases "now < e")
      case True
      have "map_of (ps_byUrl ps) (px_hash env (pp_url q)) = Some (s, e)" using proxy_wfD(2) [OF wf s True] .
      moreover then have "px_hash env (pp_url q) \<noteq> h" using url [of s e] True False by auto
      ultimately show ?thesis using proxy_wfD(1) [OF wf s] by (simp add: update_conv')
    qed (use proxy_wfD(1) [OF wf s] in simp)
  qed
  have 2: "\<exists>q. map_of (AList.update t (p, e') (ps_tokens ps)) s = Some (q, e) \<and> px_hash env (pp_url q) = k"
    if at: "map_of (AList.update h (t, e') (ps_byUrl ps)) k = Some (s, e)" and live: "now < e" for k s e
  proof (cases "k = h")
    case True
    then show ?thesis using at h by (simp add: update_conv')
  next
    case False
    then have "map_of (ps_byUrl ps) k = Some (s, e)" using at by (simp add: update_conv')
    then obtain q where q: "map_of (ps_tokens ps) s = Some (q, e)" "px_hash env (pp_url q) = k"
      using proxy_wfD(3) [OF wf] live by blast
    then have "s \<noteq> t" using tok [of q e] live False by auto
    then show ?thesis using q by (simp add: update_conv')
  qed
  show ?thesis unfolding proxy_wf_def using 1 2 by simp
qed

text \<open>What a call answers: the token it hands out, and the store afterwards.\<close>

lemma create_proxy_url_cases:
  assumes wf: "proxy_wf env now ps" and safe: "safe_url env target"
  obtains (reuse) t existing e p where "map_of (ps_byUrl ps) (px_hash env target) = Some (t, e)" "now < e"
      "map_of (ps_tokens ps) t = Some (existing, e)" "px_hash env (pp_url existing) = px_hash env target" "pp_url p = pp_url existing"
      "pp_meta p = (case meta of None \<Rightarrow> pp_meta existing | Some m \<Rightarrow> (case meta_upgraded (pp_meta existing) m of None \<Rightarrow> pp_meta existing | Some n \<Rightarrow> n))"
      "create_proxy_url env now fresh target meta ps = (Some (proxy_path t),
         ps\<lparr>ps_tokens := AList.update t (p, now + proxy_token_ttl_ms) (ps_tokens ps),
            ps_byUrl := AList.update (px_hash env target) (t, now + proxy_token_ttl_ms) (ps_byUrl ps)\<rparr>)"
    | (mint) p where "\<And>t e. map_of (ps_byUrl ps) (px_hash env target) = Some (t, e) \<Longrightarrow> e \<le> now" "pp_url p = target"
      "pp_meta p = (case meta of None \<Rightarrow> no_meta | Some m \<Rightarrow> m)"
      "create_proxy_url env now fresh target meta ps = (Some (proxy_path fresh),
         ps\<lparr>ps_tokens := AList.update fresh (p, now + proxy_token_ttl_ms) (ps_tokens ps),
            ps_byUrl := AList.update (px_hash env target) (fresh, now + proxy_token_ttl_ms) (ps_byUrl ps)\<rparr>)"
proof (cases "\<exists>t e. map_of (ps_byUrl ps) (px_hash env target) = Some (t, e) \<and> now < e")
  case True
  then obtain t e where te: "map_of (ps_byUrl ps) (px_hash env target) = Some (t, e)" "now < e" by blast
  then obtain existing where ex: "map_of (ps_tokens ps) t = Some (existing, e)" "px_hash env (pp_url existing) = px_hash env target"
    using proxy_wfD(3) [OF wf] by blast
  have t: "t \<noteq> []" using proxy_wfD(1) [OF wf ex(1)] by (simp add: token_ok_def)
  have v: "redis_value now (px_hash env target) (ps_byUrl ps) = Some t" "redis_value now t (ps_tokens ps) = Some existing"
    using te ex by (auto simp: redis_value_Some)
  let ?m = "case meta of None \<Rightarrow> pp_meta existing | Some m \<Rightarrow> (case meta_upgraded (pp_meta existing) m of None \<Rightarrow> pp_meta existing | Some n \<Rightarrow> n)"
  have "create_proxy_url env now fresh target meta ps = (Some (proxy_path t),
         ps\<lparr>ps_tokens := AList.update t (existing\<lparr>pp_meta := ?m\<rparr>, now + proxy_token_ttl_ms) (ps_tokens ps),
            ps_byUrl := AList.update (px_hash env target) (t, now + proxy_token_ttl_ms) (ps_byUrl ps)\<rparr>)"
    using safe t v by (simp add: create_proxy_url_def reuse_proxy_token_def redis_expire_def split: option.split)
  then show thesis using reuse [OF te ex, of "existing\<lparr>pp_meta := ?m\<rparr>"] by simp
next
  case False
  then have "redis_value now (px_hash env target) (ps_byUrl ps) = None"
    by (auto simp: redis_value_def not_less split: option.split)
  then have "create_proxy_url env now fresh target meta ps = apfst Some (mint_proxy_token env now fresh target meta ps)"
    using safe by (simp add: create_proxy_url_def)
  then show thesis using mint [of "\<lparr>pp_url = target, pp_meta = (case meta of None \<Rightarrow> no_meta | Some m \<Rightarrow> m), pp_createdAt = now\<rparr>"] False
    by (simp add: mint_proxy_token_def Let_def not_less)
qed

definition unused :: "string \<Rightarrow> proxy_store \<Rightarrow> bool" where "unused t ps = (token_ok t \<and> map_of (ps_tokens ps) t = None)"

lemma create_proxy_url_wf:
  assumes wf: "proxy_wf env now ps" and fresh: "unused fresh ps" and ne: "target \<noteq> []"
  shows "proxy_wf env now (snd (create_proxy_url env now fresh target meta ps))"
proof (cases "safe_url env target")
  case True
  show ?thesis
  proof (cases rule: create_proxy_url_cases [OF wf True, of meta fresh, case_names reuse mint])
    case (reuse t existing e p)
    have "proxy_wf env now (ps\<lparr>ps_tokens := AList.update t (p, now + proxy_token_ttl_ms) (ps_tokens ps),
        ps_byUrl := AList.update (px_hash env target) (t, now + proxy_token_ttl_ms) (ps_byUrl ps)\<rparr>)"
      by (rule proxy_wf_put [OF wf]) (use reuse proxy_wfD(1) [OF wf] in auto)
    then show ?thesis using reuse by simp
  next
    case (mint p)
    have "proxy_wf env now (ps\<lparr>ps_tokens := AList.update fresh (p, now + proxy_token_ttl_ms) (ps_tokens ps),
        ps_byUrl := AList.update (px_hash env target) (fresh, now + proxy_token_ttl_ms) (ps_byUrl ps)\<rparr>)"
      by (rule proxy_wf_put [OF wf]) (use mint(1,2) fresh ne in \<open>auto simp: unused_def not_less [symmetric] dest: mint(1)\<close>)
    then show ?thesis using mint by simp
  qed
qed (use wf in \<open>simp add: create_proxy_url_def\<close>)

lemma refresh_wf:
  assumes wf: "proxy_wf env now ps" shows "proxy_wf env now (refresh_proxy_token_ttl env now token ps)"
proof (cases "get_proxy_token_payload now token ps")
  case None
  then show ?thesis using wf by (simp add: refresh_proxy_token_ttl_def get_proxy_token_payload_def redis_expire_def)
next
  case (Some p)
  then obtain e where e: "map_of (ps_tokens ps) token = Some (p, e)" "now < e"
    by (auto simp: get_proxy_token_payload_def redis_value_Some)
  then have u: "map_of (ps_byUrl ps) (px_hash env (pp_url p)) = Some (token, e)" using proxy_wfD(2) [OF wf] by simp
  have ne: "pp_url p \<noteq> []" using proxy_wfD(1) [OF wf e(1)] by simp
  have "proxy_wf env now (ps\<lparr>ps_tokens := AList.update token (p, now + proxy_token_ttl_ms) (ps_tokens ps),
      ps_byUrl := AList.update (px_hash env (pp_url p)) (token, now + proxy_token_ttl_ms) (ps_byUrl ps)\<rparr>)"
    by (rule proxy_wf_put [OF wf]) (use e u ne proxy_wfD(1) [OF wf] in auto)
  moreover have "redis_value now token (ps_tokens ps) = Some p" "redis_value now (px_hash env (pp_url p)) (ps_byUrl ps) = Some token"
    using e u by (auto simp: redis_value_Some)
  ultimately show ?thesis using ne
    by (simp add: refresh_proxy_token_ttl_def get_proxy_token_payload_def redis_expire_def)
qed

text \<open>No two URLs in use share a hash.\<close>

definition urls_in_use :: "proxy_store \<Rightarrow> string set" where
  "urls_in_use ps = {pp_url p | t p e. map_of (ps_tokens ps) t = Some (p, e)}"

lemma create_proxy_url_target:
  assumes wf: "proxy_wf env now ps" and created: "create_proxy_url env now fresh target meta ps = (Some path, ps')"
    and nocoll: "inj_on (px_hash env) (insert target (urls_in_use ps))"
  shows "\<exists>t p. path = proxy_path t \<and> map_of (ps_tokens ps') t = Some (p, now + proxy_token_ttl_ms) \<and> pp_url p = target \<and>
    (\<forall>m. meta = Some m \<longrightarrow> (case pm_roomId m of None \<Rightarrow> True | Some r \<Rightarrow> pm_roomId (pp_meta p) = Some r))
    \<and> (map_of (ps_tokens ps) t \<noteq> None \<or> t = fresh)"
proof -
  have safe: "safe_url env target" using created by (auto simp: create_proxy_url_def split: if_splits)
  show ?thesis
  proof (cases rule: create_proxy_url_cases [OF wf safe, of meta fresh, case_names reuse mint])
    case (reuse t existing e p)
    have "pp_url existing \<in> urls_in_use ps" using reuse(3) unfolding urls_in_use_def by blast
    then have "pp_url existing = target" using inj_onD [OF nocoll reuse(4)] by blast
    moreover have "case pm_roomId m of None \<Rightarrow> True | Some r \<Rightarrow> pm_roomId (pp_meta p) = Some r" if "meta = Some m" for m
      using reuse(6) that by (simp add: upgraded_meta or_else_def split: option.split)
    ultimately show ?thesis using reuse created by (auto simp: update_conv')
  next
    case (mint p)
    then show ?thesis using created by (auto simp: update_conv' split: option.splits)
  qed
qed

lemma create_keeps_targets:
  assumes wf: "proxy_wf env now ps" and fresh: "unused fresh ps"
    and t: "map_of (ps_tokens ps) t = Some (p, e)" "now < e"
  shows "\<exists>p' e'. map_of (ps_tokens (snd (create_proxy_url env now fresh target meta ps))) t = Some (p', e') \<and> now < e' \<and> pp_url p' = pp_url p"
proof (cases "safe_url env target")
  case True
  have pos: "now < now + proxy_token_ttl_ms" by (simp add: proxy_token_ttl_ms_def)
  show ?thesis
  proof (cases rule: create_proxy_url_cases [OF wf True, of meta fresh, case_names reuse mint])
    case (reuse s existing e' q)
    then show ?thesis using t pos by (auto simp: update_conv')
  next
    case (mint q)
    have "t \<noteq> fresh" using fresh t by (auto simp: unused_def)
    then show ?thesis using mint t by (simp add: update_conv')
  qed
qed (use t in \<open>simp add: create_proxy_url_def\<close>)

lemma create_tokens:
  assumes wf: "proxy_wf env now ps"
  shows "urls_in_use (snd (create_proxy_url env now fresh target meta ps)) \<subseteq> insert target (urls_in_use ps)"
    "map_of (ps_tokens ps) s = None \<Longrightarrow> s \<noteq> fresh \<Longrightarrow> map_of (ps_tokens (snd (create_proxy_url env now fresh target meta ps))) s = None"
proof -
  show "urls_in_use (snd (create_proxy_url env now fresh target meta ps)) \<subseteq> insert target (urls_in_use ps)"
  proof (cases "safe_url env target")
    case True
    show ?thesis
      by (cases rule: create_proxy_url_cases [OF wf True, of meta fresh])
        (fastforce simp: urls_in_use_def update_conv' split: if_splits)+
  qed (simp add: create_proxy_url_def, blast)
  show "map_of (ps_tokens (snd (create_proxy_url env now fresh target meta ps))) s = None"
    if "map_of (ps_tokens ps) s = None" "s \<noteq> fresh"
  proof (cases "safe_url env target")
    case True
    show ?thesis
      by (cases rule: create_proxy_url_cases [OF wf True, of meta fresh]) (use that in \<open>auto simp: update_conv'\<close>)
  qed (use that in \<open>simp add: create_proxy_url_def\<close>)
qed

text \<open>Where a token leads at a time.\<close>

lemma get_proxy_target_Some:
  "get_proxy_target now t ps = Some u \<longleftrightarrow> (\<exists>p e. map_of (ps_tokens ps) t = Some (p, e) \<and> now < e \<and> pp_url p = u)"
  by (fastforce simp: get_proxy_target_def get_proxy_token_payload_def map_option_eq_Some redis_value_Some)

text \<open>
  C26. A proxy path leads to the URL it was made for, for the seven days after, and only to URLs the guard against
  private networks accepts, also when the URL already had a token; the hash is free of collisions among the
  URLs in use.
\<close>

theorem proxy_url_leads_to_target:
  assumes "proxy_wf env now ps" "create_proxy_url env now fresh target meta ps = (Some path, ps')"
    and "inj_on (px_hash env) (insert target (urls_in_use ps))"
  shows "safe_url env target \<and> (\<exists>t. path = proxy_path t \<and>
    (\<forall>later. later < now + proxy_token_ttl_ms \<longrightarrow> get_proxy_target later t ps' = Some target))"
  using create_proxy_url_target [OF assms] assms(2)
  by (fastforce simp: get_proxy_target_Some create_proxy_url_def split: if_splits)

text \<open>Mints of a whole playlist.\<close>

definition fresh_ok :: "string list \<Rightarrow> proxy_store \<Rightarrow> bool" where
  "fresh_ok ts ps = (distinct ts \<and> (\<forall>t\<in>set ts. unused t ps))"

lemma mint_all_leads:
  assumes "proxy_wf env now ps" "fresh_ok (map snd jobs) ps" "\<forall>(u, t)\<in>set jobs. u \<noteq> []"
    and "inj_on (px_hash env) (set (map fst jobs) \<union> urls_in_use ps)"
    and "mint_all env now jobs meta ps = (Some paths, ps')"
  shows "proxy_wf env now ps' \<and> map fst paths = map fst jobs
    \<and> (\<forall>(u, path)\<in>set paths. \<exists>t. path = proxy_path t \<and> token_ok t \<and> get_proxy_target now t ps' = Some u)
    \<and> (\<forall>t u. get_proxy_target now t ps = Some u \<longrightarrow> get_proxy_target now t ps' = Some u)"
  using assms
proof (induction jobs arbitrary: ps paths)
  case Nil
  then show ?case by simp
next
  case (Cons job jobs)
  obtain u t where job: "job = (u, t)" by (cases job)
  obtain path ps1 where c: "create_proxy_url env now t u meta ps = (path, ps1)" by fastforce
  obtain paths' ps2 where r: "mint_all env now jobs meta ps1 = (paths', ps2)" by fastforce
  from Cons.prems(5) obtain q rest where q: "path = Some q" "paths' = Some rest" "paths = (u, q) # rest" "ps' = ps2"
    by (auto simp: job c r bind_eq_Some_conv)
  have t: "unused t ps" and ne: "u \<noteq> []" using Cons.prems(2,3) by (auto simp: job fresh_ok_def)
  have wf1: "proxy_wf env now ps1" using create_proxy_url_wf [OF Cons.prems(1) t ne, of meta] c by simp
  have "unused s ps1" if "s \<in> snd ` set jobs" for s
  proof -
    have "s \<noteq> t" "unused s ps" using Cons.prems(2) that by (auto simp: fresh_ok_def job)
    then show ?thesis using create_tokens(2) [OF Cons.prems(1), of s t u meta] c by (simp add: unused_def)
  qed
  then have fresh1: "fresh_ok (map snd jobs) ps1" using Cons.prems(2) by (simp add: fresh_ok_def job)
  have use1: "urls_in_use ps1 \<subseteq> insert u (urls_in_use ps)" using create_tokens(1) [OF Cons.prems(1), of t u meta] c by simp
  have inj1: "inj_on (px_hash env) (set (map fst jobs) \<union> urls_in_use ps1)"
    by (rule inj_on_subset [OF Cons.prems(4)]) (use use1 in \<open>auto simp: job\<close>)
  have inj0: "inj_on (px_hash env) (insert u (urls_in_use ps))"
    by (rule inj_on_subset [OF Cons.prems(4)]) (auto simp: job)
  note IH = Cons.IH [OF wf1 fresh1 _ inj1, of rest]
  have ih: "proxy_wf env now ps'" "map fst rest = map fst jobs"
    "\<forall>(u, path)\<in>set rest. \<exists>t. path = proxy_path t \<and> token_ok t \<and> get_proxy_target now t ps' = Some u"
    "\<And>t u. get_proxy_target now t ps1 = Some u \<Longrightarrow> get_proxy_target now t ps' = Some u"
    using IH r q Cons.prems(3) by auto
  have keeps: "get_proxy_target now s ps1 = Some v" if "get_proxy_target now s ps = Some v" for s v
    using create_keeps_targets [OF Cons.prems(1) t, of s _ _ u meta] that c by (fastforce simp: get_proxy_target_Some)
  obtain s p where s: "q = proxy_path s" "map_of (ps_tokens ps1) s = Some (p, now + proxy_token_ttl_ms)" "pp_url p = u"
    using create_proxy_url_target [OF Cons.prems(1) _ inj0, of t meta q ps1] c q(1) by blast
  have "get_proxy_target now s ps1 = Some u" using s by (auto simp: get_proxy_target_Some proxy_token_ttl_ms_def)
  moreover have "token_ok s" using proxy_wfD(1) [OF wf1 s(2)] by simp
  ultimately show ?case using ih keeps s(1) q(3) by (auto simp: job)
qed

definition ref_target :: "proxy_env \<Rightarrow> string \<Rightarrow> string \<Rightarrow> string option" where
  "ref_target env baseUrl u = resolve_http_url (px_href env) u baseUrl"

definition fresh_names :: "(nat \<Rightarrow> string) \<Rightarrow> proxy_store \<Rightarrow> bool" where
  "fresh_names fresh ps = (inj fresh \<and> (\<forall>i. unused (fresh i) ps))"

lemma fresh_names_ok: "fresh_names fresh ps \<Longrightarrow> fresh_ok (map snd (with_fresh fresh urls)) ps"
  by (auto simp: fresh_names_def fresh_ok_def with_fresh_def distinct_map inj_on_def)

lemma is_http_text_ne: "is_http_text u \<Longrightarrow> u \<noteq> []"
  by (auto simp: is_http_text_def starts_with_def ascii_lower_def)

lemma no_http_text_Nil [simp]: "\<not> is_http_text []"
  using is_http_text_ne by blast

lemma resolved_is_http: "resolve_http_url href raw baseUrl = Some u \<Longrightarrow> is_http_text u"
  by (auto simp: resolve_http_url_def split: option.splits if_splits)

text \<open>
  C24. A rewritten playlist leads through the proxy: every reference to an http(s) address is replaced by a path
  whose token leads to that address, every other line and reference is kept as it was.
\<close>

theorem playlist_leads_through_proxy:
  assumes wf: "proxy_wf env now ps" and fresh: "fresh_names fresh ps"
    and parts: "list_all part_wf parts" "parts \<noteq> []" and eol: "eol \<in> {[CHR 10], [CHR 13, CHR 10]}"
    and nocoll: "inj_on (px_hash env)
      ({u. \<exists>part\<in>set parts. \<exists>r\<in>set (part_refs part). ref_target env baseUrl r = Some u} \<union> urls_in_use ps)"
    and rewritten: "rewrite_m3u8_for_proxy env now fresh (render_playlist eol parts) baseUrl meta ps = (Some out, ps')"
  shows "\<exists>f. out = render_playlist [CHR 10] (map (map_part f) parts) \<and>
    (\<forall>part\<in>set parts. \<forall>u\<in>set (part_refs part).
       (case ref_target env baseUrl u of
          Some addr \<Rightarrow> \<exists>t. f u = proxy_path t \<and> get_proxy_target now t ps' = Some addr
        | None \<Rightarrow> f u = u))"
proof -
  let ?body = "render_playlist eol parts"
  let ?urls = "collect_m3u8_referenced_urls (px_href env) ?body baseUrl"
  obtain paths where p: "mint_all env now (with_fresh fresh ?urls) meta ps = (Some paths, ps')"
    "out = rewrite_m3u8_body_with_proxy_map (px_href env) ?body baseUrl (map_of paths)"
    using rewritten by (auto simp: rewrite_m3u8_for_proxy_def Let_def split: prod.splits)
  have urls: "set ?urls = {addr. \<exists>part\<in>set parts. \<exists>u\<in>set (part_refs part). ref_target env baseUrl u = Some addr}"
    unfolding ref_target_def by (rule collect_rendered [OF parts eol])
  have fsts: "map fst (with_fresh fresh ?urls) = ?urls" by (simp add: with_fresh_def)
  have http: "is_http_text u" if "u \<in> set ?urls" for u using that resolved_is_http unfolding urls ref_target_def by blast
  have leads: "map fst paths = ?urls"
    "\<forall>(u, path)\<in>set paths. \<exists>t. path = proxy_path t \<and> token_ok t \<and> get_proxy_target now t ps' = Some u"
  proof -
    have "\<forall>(u, t)\<in>set (with_fresh fresh ?urls). u \<noteq> []"
      using http is_http_text_ne by (auto simp: with_fresh_def dest!: set_zip_leftD)
    moreover have "inj_on (px_hash env) (set (map fst (with_fresh fresh ?urls)) \<union> urls_in_use ps)"
      unfolding fsts using nocoll urls by simp
    ultimately show "map fst paths = ?urls"
      "\<forall>(u, path)\<in>set paths. \<exists>t. path = proxy_path t \<and> token_ok t \<and> get_proxy_target now t ps' = Some u"
      using mint_all_leads [OF wf fresh_names_ok [OF fresh] _ _ p(1)] fsts by auto
  qed
  let ?f = "replaced (px_href env) baseUrl (map_of paths)"
  have "out = render_playlist [CHR 10] (map (map_part ?f) parts)"
    unfolding p(2)
  proof (rule rewrite_rendered [OF parts eol])
    fix q assume "q \<in> ran (map_of paths)"
    then obtain u where "(u, q) \<in> set paths" by (auto simp: ran_def dest: map_of_SomeD)
    then obtain t where "q = proxy_path t" "token_ok t" using leads(2) by blast
    then show "quote_single \<notin> set q" by (simp add: proxy_path_def token_ok_def quote_single_def)
  qed
  moreover have "case ref_target env baseUrl u of
      Some addr \<Rightarrow> \<exists>t. ?f u = proxy_path t \<and> get_proxy_target now t ps' = Some addr | None \<Rightarrow> ?f u = u"
    if part: "part \<in> set parts" "u \<in> set (part_refs part)" for part u
  proof -
    have "part_wf part" using parts(1) part(1) by (simp add: list_all_iff)
    then have trim: "trim u = u" using part(2) by (cases part) auto
    show ?thesis
    proof (cases "ref_target env baseUrl u")
      case (Some addr)
      then have "addr \<in> fst ` set paths" using urls part leads(1) by (metis (mono_tags, lifting) list.set_map mem_Collect_eq)
      then obtain q where q: "map_of paths addr = Some q" using map_of_eq_None_iff [of paths addr] by fastforce
      moreover have "px_href env u baseUrl = Some addr"
        using Some trim by (auto simp: ref_target_def resolve_http_url_def split: option.splits if_splits)
      ultimately have "?f u = q" by (simp add: replaced_def proxied_def)
      then show ?thesis using Some leads(2) map_of_SomeD [OF q] by auto
    next
      case None
      have "map_of paths addr = None" if "px_href env u baseUrl = Some addr" for addr
      proof -
        have "\<not> is_http_text addr" using None that trim by (auto simp: ref_target_def resolve_http_url_def split: if_splits)
        then show ?thesis using http leads(1) by (metis list.set_map map_of_eq_None_iff)
      qed
      then show ?thesis using None by (auto simp: replaced_def proxied_def bind_eq_Some_conv split: option.split)
    qed
  qed
  ultimately show ?thesis by blast
qed

text \<open>The relay of a catalog.\<close>

lemma mint_until_all: "mint_until env now jobs meta ps = (Some paths, ps') \<Longrightarrow> mint_all env now jobs meta ps = (Some paths, ps')"
  by (induction jobs arbitrary: ps paths)
    (auto simp: map_option_eq_Some apfst_def map_prod_def split: prod.splits option.splits)

lemma relay_leads:
  assumes wf: "proxy_wf env now ps" and fresh: "fresh_names fresh ps"
    and nocoll: "inj_on (px_hash env) (set (relay_urls input) \<union> urls_in_use ps)"
    and relayed: "apply_relay_to_resolved_urls env now fresh roomId mediaId referer input ps = (Some output, ps')"
  shows "\<exists>f. output = \<lparr>ri_playableUrl = f (ri_playableUrl input),
      ri_mediaStreams = map (\<lambda>s. s\<lparr>ms_src := f (ms_src s)\<rparr>) (ri_mediaStreams input),
      ri_textTracks = map (\<lambda>t. t\<lparr>tt_src := f (tt_src t)\<rparr>) (ri_textTracks input)\<rparr> \<and>
    (\<forall>u\<in>set (relay_urls input). \<exists>t. f u = proxy_path t \<and> get_proxy_target now t ps' = Some u) \<and>
    (\<forall>u. u \<notin> set (relay_urls input) \<longrightarrow> f u = u)"
proof -
  let ?urls = "relay_urls input"
  let ?meta = "\<lparr>pm_referer = referer, pm_userAgent = Some media_fetch_ua, pm_roomId = roomId, pm_mediaId = mediaId\<rparr>"
  obtain paths where p: "mint_until env now (with_fresh fresh ?urls) (Some ?meta) ps = (Some paths, ps')"
    "output = \<lparr>ri_playableUrl = (case map_of paths (ri_playableUrl input) of Some p \<Rightarrow> p | None \<Rightarrow> ri_playableUrl input),
      ri_mediaStreams = map (\<lambda>s. s\<lparr>ms_src := (case map_of paths (ms_src s) of Some p \<Rightarrow> p | None \<Rightarrow> ms_src s)\<rparr>) (ri_mediaStreams input),
      ri_textTracks = map (\<lambda>t. t\<lparr>tt_src := (case map_of paths (tt_src t) of Some p \<Rightarrow> p | None \<Rightarrow> tt_src t)\<rparr>) (ri_textTracks input)\<rparr>"
    using relayed unfolding apply_relay_to_resolved_urls_def Let_def by (cases "mint_until env now (with_fresh fresh ?urls) (Some ?meta) ps") auto
  have fsts: "map fst (with_fresh fresh ?urls) = ?urls" by (simp add: with_fresh_def)
  have "\<forall>(u, t)\<in>set (with_fresh fresh ?urls). u \<noteq> []"
    using is_http_text_ne by (auto simp: with_fresh_def relay_urls_def dest!: set_zip_leftD)
  then have leads: "map fst paths = ?urls"
    "\<forall>(u, path)\<in>set paths. \<exists>t. path = proxy_path t \<and> token_ok t \<and> get_proxy_target now t ps' = Some u"
    using mint_all_leads [OF wf fresh_names_ok [OF fresh] _ _ mint_until_all [OF p(1)]] nocoll fsts by auto
  let ?f = "\<lambda>u. case map_of paths u of Some p \<Rightarrow> p | None \<Rightarrow> u"
  have "\<exists>t. ?f u = proxy_path t \<and> get_proxy_target now t ps' = Some u" if "u \<in> set ?urls" for u
  proof -
    have "u \<in> fst ` set paths" using leads(1) that by (metis list.set_map)
    then obtain q where "map_of paths u = Some q" using map_of_eq_None_iff [of paths u] by fastforce
    then show ?thesis using leads(2) map_of_SomeD by fastforce
  qed
  moreover have "?f u = u" if "u \<notin> set ?urls" for u
  proof -
    have "map_of paths u = None" using that leads(1) map_of_eq_None_iff [of paths u] by (metis list.set_map)
    then show ?thesis by simp
  qed
  ultimately show ?thesis using p(2) by (intro exI [of _ ?f]) simp
qed

section \<open>What the handlers keep\<close>

lemma mint_all_wf:
  assumes "proxy_wf env now ps" "fresh_ok (map snd jobs) ps" "\<forall>(u, t)\<in>set jobs. u \<noteq> []"
  shows "proxy_wf env now (snd (mint_all env now jobs meta ps))"
  using assms
proof (induction jobs arbitrary: ps)
  case (Cons job jobs)
  obtain u t where job: "job = (u, t)" by (cases job)
  obtain path ps1 where c: "create_proxy_url env now t u meta ps = (path, ps1)" by fastforce
  have t: "unused t ps" "u \<noteq> []" using Cons.prems(2,3) by (auto simp: job fresh_ok_def)
  have "proxy_wf env now ps1" using create_proxy_url_wf [OF Cons.prems(1) t, of meta] c by simp
  moreover have "unused s ps1" if "s \<in> snd ` set jobs" for s
  proof -
    have "s \<noteq> t" "unused s ps" using Cons.prems(2) that by (auto simp: fresh_ok_def job)
    then show ?thesis using create_tokens(2) [OF Cons.prems(1), of s t u meta] c by (simp add: unused_def)
  qed
  ultimately have "proxy_wf env now (snd (mint_all env now jobs meta ps1))"
    using Cons.IH [of ps1] Cons.prems(2,3) by (auto simp: fresh_ok_def job)
  then show ?case by (simp add: job c case_prod_unfold)
qed simp

lemma refresh_unused: "unused t ps \<Longrightarrow> unused t (refresh_proxy_token_ttl env now token ps)"
  by (auto simp: unused_def refresh_proxy_token_ttl_def redis_expire_def redis_value_def update_conv' Let_def split: option.splits)

lemma rewrite_wf:
  assumes "proxy_wf env now ps" "fresh_names fresh ps"
  shows "proxy_wf env now (snd (rewrite_m3u8_for_proxy env now fresh body baseUrl meta ps))"
proof -
  let ?urls = "collect_m3u8_referenced_urls (px_href env) body baseUrl"
  have "\<forall>u\<in>set ?urls. u \<noteq> []"
    using resolved_is_http is_http_text_ne by (fastforce simp: collect_m3u8_referenced_urls_def List.map_filter_def)
  then have "proxy_wf env now (snd (mint_all env now (with_fresh fresh ?urls) meta ps))"
    using mint_all_wf [OF assms(1) fresh_names_ok [OF assms(2)]] by (fastforce simp: with_fresh_def dest!: set_zip_leftD)
  then show ?thesis by (simp add: rewrite_m3u8_for_proxy_def Let_def case_prod_unfold)
qed

lemma touch_bounded: "length (touch key entry cache) \<le> hls_max_entries"
  by (simp add: touch_def Let_def)

lemma charge_keeps [simp]:
  "px_store (fst (charge key limit now sv)) = px_store sv" "px_cache (fst (charge key limit now sv)) = px_cache sv"
  "px_rooms (fst (charge key limit now sv)) = px_rooms sv" "px_fetched (fst (charge key limit now sv)) = px_fetched sv"
  "px_refreshes (fst (charge key limit now sv)) = px_refreshes sv"
  by (simp_all add: charge_def split: prod.split)

lemma authorize_keeps:
  assumes "authorize_proxy_request now rq token sv = (sv1, ok)"
  shows "px_store sv1 = px_store sv" "px_cache sv1 = px_cache sv" "px_rooms sv1 = px_rooms sv" "px_fetched sv1 = px_fetched sv"
proof -
  obtain a b where ab: "charge (''proxy:ip:'' @ pq_ip rq) 240 now sv = (a, b)" by fastforce
  have "sv1 = a \<or> sv1 = fst (charge (''proxy:token:'' @ token) 120 now a)"
    using assms ab by (cases b) (auto simp: authorize_proxy_request_def)
  moreover have "px_store a = px_store sv" "px_cache a = px_cache sv" "px_rooms a = px_rooms sv" "px_fetched a = px_fetched sv"
    using charge_keeps [of "''proxy:ip:'' @ pq_ip rq" 240 now sv] by (simp_all only: ab fst_conv)
  ultimately show "px_store sv1 = px_store sv" "px_cache sv1 = px_cache sv" "px_rooms sv1 = px_rooms sv" "px_fetched sv1 = px_fetched sv"
    by auto
qed

text \<open>Who gets past the checks: the token has not expired, its room is there and its URL is safe.\<close>

lemma load_authorized_cases:
  obtains (refused) sv1 status where "load_authorized_proxy env now rq token sv = (sv1, Inl status)" "status \<in> {429, 404, 403}"
      "px_store sv1 = px_store sv" "px_cache sv1 = px_cache sv" "px_fetched sv1 = px_fetched sv"
    | (granted) sv1 payload where "load_authorized_proxy env now rq token sv = (sv1, Inr payload)"
      "get_proxy_token_payload now token (px_store sv) = Some payload" "room_still_exists (px_rooms sv) (pm_roomId (pp_meta payload))"
      "safe_url env (pp_url payload)" "px_store sv1 = refresh_proxy_token_ttl env now token (px_store sv)"
      "px_cache sv1 = px_cache sv" "px_fetched sv1 = px_fetched sv"
proof -
  obtain a b where ab: "authorize_proxy_request now rq token sv = (a, b)" by fastforce
  note k = authorize_keeps [OF ab]
  show thesis
  proof (cases b)
    case False
    then have "load_authorized_proxy env now rq token sv = (a, Inl 429)" by (simp add: load_authorized_proxy_def ab)
    then show thesis using refused k by simp
  next
    case True
    show thesis
    proof (cases "get_proxy_token_payload now token (px_store sv)")
      case None
      then have "load_authorized_proxy env now rq token sv = (a, Inl 404)" using True k by (simp add: load_authorized_proxy_def ab)
      then show thesis using refused k by simp
    next
      case (Some payload)
      consider "\<not> room_still_exists (px_rooms sv) (pm_roomId (pp_meta payload))"
        | "room_still_exists (px_rooms sv) (pm_roomId (pp_meta payload))" "\<not> safe_url env (pp_url payload)"
        | "room_still_exists (px_rooms sv) (pm_roomId (pp_meta payload))" "safe_url env (pp_url payload)" by blast
      then show thesis
      proof cases
        case 1
        then have "load_authorized_proxy env now rq token sv = (a, Inl 404)" using True Some k by (simp add: load_authorized_proxy_def ab)
        then show thesis using refused k by simp
      next
        case 2
        then have "load_authorized_proxy env now rq token sv = (a, Inl 403)" using True Some k by (simp add: load_authorized_proxy_def ab)
        then show thesis using refused k by simp
      next
        case 3
        then have "load_authorized_proxy env now rq token sv
            = (a\<lparr>px_store := refresh_proxy_token_ttl env now token (px_store a)\<rparr>, Inr payload)"
          using True Some k by (simp add: load_authorized_proxy_def ab)
        then show thesis using granted Some 3 k by simp
      qed
    qed
  qed
qed

lemma stale_refresh_keeps [simp]:
  "px_store (schedule_stale_upstream_refresh now payload sv) = px_store sv"
  "px_cache (schedule_stale_upstream_refresh now payload sv) = px_cache sv"
  "px_fetched (schedule_stale_upstream_refresh now payload sv) = px_fetched sv"
proof -
  let ?after = "schedule_stale_upstream_refresh now payload sv"
  have "px_store ?after = px_store sv \<and> px_cache ?after = px_cache sv \<and> px_fetched ?after = px_fetched sv"
  proof (cases "pm_roomId (pp_meta payload)")
    case None
    then show ?thesis by (simp add: schedule_stale_upstream_refresh_def)
  next
    case (Some r)
    show ?thesis
    proof (cases "pm_mediaId (pp_meta payload)")
      case None
      then show ?thesis using Some by (simp add: schedule_stale_upstream_refresh_def)
    next
      case m: (Some m)
      define key where "key = ''stale-refresh:'' @ r @ '':'' @ m"
      obtain a b where ab: "charge key 2 now sv = (a, b)" by fastforce
      have "?after = (if r = [] \<or> m = [] then sv else if b then a\<lparr>px_refreshes := px_refreshes a @ [(r, m)]\<rparr> else a)"
        unfolding schedule_stale_upstream_refresh_def Some m prod.case option.case key_def [symmetric] ab by (cases b) simp_all
      then show ?thesis using charge_keeps [of key 2 now sv] by (simp only: ab fst_conv split: if_split) simp
    qed
  qed
  then show "px_store ?after = px_store sv" "px_cache ?after = px_cache sv" "px_fetched ?after = px_fetched sv" by simp_all
qed

lemma compute_keeps_fetched [simp]:
  "px_fetched (fst (get_or_compute_hls_rewrite env now fresh token payload target ct response sv)) = px_fetched sv"
  by (simp add: get_or_compute_hls_rewrite_def Let_def split: prod.split option.split)

lemma answer_keeps_fetched [simp]: "px_fetched (fst (answer_upstream env now fresh rq token payload target response sv)) = px_fetched sv"
  by (simp add: answer_upstream_def Let_def)

lemma fetch_upstream_fetched:
  assumes "safe_url env (pp_url payload)"
  shows "set (px_fetched (fst (fetch_upstream env answer rq payload sv))) \<subseteq>
    set (px_fetched sv) \<union> {(url, build_upstream_headers rq (pp_meta payload)) | url. safe_url env url}"
  using assms by (auto simp: fetch_upstream_def fetched_def Let_def split: option.split)


text \<open>The store stays well-formed and the cache bounded.\<close>

lemma compute_wf:
  assumes "proxy_wf env now (px_store sv)" "fresh_names fresh (px_store sv)"
  shows "proxy_wf env now (px_store (fst (get_or_compute_hls_rewrite env now fresh token payload target ct response sv)))"
proof -
  have "proxy_wf env now (snd (compute_hls_entry env now fresh payload target ct response (px_store sv)))"
    using assms rewrite_wf [OF assms] by (simp add: compute_hls_entry_def Let_def)
  then show ?thesis
    using assms(1) by (cases "compute_hls_entry env now fresh payload target ct response (px_store sv)")
      (simp add: get_or_compute_hls_rewrite_def Let_def split: prod.split option.split)
qed

lemma answer_wf:
  assumes "proxy_wf env now (px_store sv)" "fresh_names fresh (px_store sv)"
  shows "proxy_wf env now (px_store (fst (answer_upstream env now fresh rq token payload target response sv)))"
  using assms compute_wf [OF assms] by (simp add: answer_upstream_def Let_def)

lemma proxy_get_wf:
  assumes wf: "proxy_wf env now (px_store sv)" and fresh: "fresh_names fresh (px_store sv)"
  shows "proxy_wf env now (px_store (fst (handle_media_proxy_get env answer now fresh rq token sv)))"
proof (cases rule: load_authorized_cases [of env now rq token sv, case_names refused granted])
  case (refused sv1 status)
  then show ?thesis using wf by (simp add: handle_media_proxy_get_def)
next
  case (granted sv1 payload)
  have s1: "proxy_wf env now (px_store sv1)" "fresh_names fresh (px_store sv1)"
    using refresh_wf [OF wf] refresh_unused fresh granted(5) by (auto simp: fresh_names_def)
  obtain hit cache where h: "(if truthy (pq_range rq) then (None, px_cache sv1)
      else peek_hls_rewrite_cache env now token (pp_url payload) (px_cache sv1)) = (hit, cache)" by fastforce
  obtain sv2 res where f: "fetch_upstream env answer rq payload sv1 = (sv2, res)" by fastforce
  have "px_store (fst (fetch_upstream env answer rq payload sv1)) = px_store sv1"
    by (simp add: fetch_upstream_def fetched_def Let_def split: option.split)
  then have s2: "px_store sv2 = px_store sv1" by (simp add: f)
  show ?thesis
    unfolding handle_media_proxy_get_def granted(1) prod.case sum.case h f
    using s1 s2 answer_wf [of env now sv2 fresh] by (cases hit; cases res) (simp_all add: case_prod_unfold)
qed

section \<open>A token belongs to the room that asked last\<close>

text \<open>
  C23. One token serves all rooms that play a URL, and it belongs to the room that asked for it last: when that
  room is gone, the viewers of every other room are refused, although their room and their token are there.
\<close>

theorem shared_token_dies_with_last_room:
  assumes "proxy_wf env now ps" "get_proxy_target now t ps = Some url"
    and "create_proxy_url env now fresh url (Some m) ps = (Some path, ps')"
    and "pm_roomId m = Some roomB" "roomB \<noteq> []" "roomB \<notin> set (px_rooms sv)" "px_store sv = ps'"
    and "inj_on (px_hash env) (insert url (urls_in_use ps))"
  shows "path = proxy_path t \<and>
    snd (handle_media_proxy_get env answer later fresh' rq t sv) \<in> {Refused 429, Refused 404}"
proof -
  obtain p0 e0 where t: "map_of (ps_tokens ps) t = Some (p0, e0)" "now < e0" "pp_url p0 = url"
    using assms(2) by (auto simp: get_proxy_target_Some)
  have safe: "safe_url env url" using assms(3) by (auto simp: create_proxy_url_def split: if_splits)
  have u: "map_of (ps_byUrl ps) (px_hash env url) = Some (t, e0)" using proxy_wfD(2) [OF assms(1) t(1,2)] t(3) by simp
  have "path = proxy_path t \<and> (\<exists>p. map_of (ps_tokens ps') t = Some (p, now + proxy_token_ttl_ms) \<and> pm_roomId (pp_meta p) = Some roomB)"
  proof (cases rule: create_proxy_url_cases [OF assms(1) safe, of "Some m" fresh, case_names reuse mint])
    case (reuse s existing e p)
    have "pm_roomId (pp_meta p) = Some roomB" using reuse(6) assms(4) by (simp add: upgraded_meta or_else_def)
    then show ?thesis using reuse u assms(3) by (auto simp: update_conv')
  next
    case (mint p)
    then show ?thesis using u t(2) by fastforce
  qed
  then obtain p where p: "path = proxy_path t" "map_of (ps_tokens ps') t = Some (p, now + proxy_token_ttl_ms)"
    "pm_roomId (pp_meta p) = Some roomB" by blast
  have gone: "\<not> room_still_exists (px_rooms sv) (pm_roomId (pp_meta p))" using p(3) assms(5,6) by (simp add: room_still_exists_def)
  obtain a b where ab: "authorize_proxy_request later rq t sv = (a, b)" by fastforce
  have keep: "px_store a = ps'" "px_rooms a = px_rooms sv" using authorize_keeps [OF ab] assms(7) by simp_all
  have "get_proxy_token_payload later t ps' \<in> {None, Some p}"
    using p(2) by (simp add: get_proxy_token_payload_def redis_value_def)
  then have "snd (load_authorized_proxy env later rq t sv) \<in> {Inl 429, Inl 404}"
    unfolding load_authorized_proxy_def ab using keep gone by (cases b) (auto split: option.split)
  then have "snd (handle_media_proxy_get env answer later fresh' rq t sv) \<in> {Refused 429, Refused 404}"
    by (cases "load_authorized_proxy env later rq t sv") (auto simp: handle_media_proxy_get_def)
  then show ?thesis using p(1) by simp
qed

text \<open>
  A body of an unknown type is read as text whatever it is, unless the address ends in one of six extensions
  or the request has a range: binary segments do not survive the decoding.
\<close>

lemma unknown_body_becomes_text:
  assumes "us_status response = 200" "us_hasBody response" "map_of (us_headers response) ''content-type'' = Some ''application/octet-stream''"
    and "\<not> truthy (pq_range rq)" "\<not> has_ending [''ts'', ''m4s'', ''mp4'', ''webm'', ''aac'', ''m4a''] target"
    and "\<not> looks_like_hls_playlist (us_text response) ''application/octet-stream''"
    and "fst (peek_hls_rewrite_cache env now token (pp_url payload) (px_cache sv)) = None"
  shows "snd (answer_upstream env now fresh rq token payload target response sv)
    = Playlist_answer (us_text response) ''application/octet-stream''"
proof -
  have "playlist_target_hint target ''application/octet-stream''"
  proof -
    have "ascii_lower ''application/octet-stream'' = ''application/octet-stream''" by code_simp
    moreover have "found_in ''octet-stream'' ''application/octet-stream''" by code_simp
    ultimately show ?thesis using assms(5) by (simp add: playlist_target_hint_def Let_def)
  qed
  then show ?thesis
    using assms by (cases "peek_hls_rewrite_cache env now token (pp_url payload) (px_cache sv)")
      (simp add: answer_upstream_def is_stale_upstream_status_def get_or_compute_hls_rewrite_def compute_hls_entry_def
        should_attempt_playlist_rewrite_def Let_def)
qed

section \<open>Instances\<close>

definition sample_proxy_env :: proxy_env where
  "sample_proxy_env = \<lparr>px_hash = (\<lambda>u. u),
     px_urls = \<lparr>ue_parse = (\<lambda>raw. Some \<lparr>hu_protocol = ''https:'', hu_hostname = ''c.example''\<rparr>), ue_isIP = (\<lambda>h. 0), ue_allowPrivate = False\<rparr>,
     px_look = (\<lambda>h. Some [''8.8.8.8'']), px_href = (\<lambda>raw base. Some (base @ raw))\<rparr>"

definition empty_proxy_store :: proxy_store where "empty_proxy_store = \<lparr>ps_tokens = [], ps_byUrl = []\<rparr>"

definition sample_meta :: "string \<Rightarrow> proxy_meta" where
  "sample_meta roomId = \<lparr>pm_referer = None, pm_userAgent = None, pm_roomId = Some roomId, pm_mediaId = Some ''m''\<rparr>"

definition sample_url :: string where "sample_url = ''https://c.example/a.mp4''"

definition sample_store :: proxy_store where
  "sample_store = snd (create_proxy_url sample_proxy_env 0 ''t'' sample_url (Some (sample_meta ''a'')) empty_proxy_store)"

lemma sample_safe: "safe_url sample_proxy_env u"
proof -
  have "\<not> is_private_or_local_ip ''8.8.8.8''" by code_simp
  moreover have "normalize_hostname ''c.example'' \<notin> set blocked_hostnames" "\<not> list_ex (ends_with (normalize_hostname ''c.example'')) blocked_hostname_suffixes"
    by code_simp+
  ultimately show ?thesis
    by (simp add: safe_url_def sample_proxy_env_def assert_public_http_url_resolved_def assert_public_http_url_def Let_def)
qed

lemma empty_store_facts: "proxy_wf env now empty_proxy_store" "urls_in_use empty_proxy_store = {}" "token_ok t \<Longrightarrow> unused t empty_proxy_store"
  by (simp_all add: proxy_wf_def urls_in_use_def unused_def empty_proxy_store_def)

lemma sample_created: "create_proxy_url sample_proxy_env 0 ''t'' sample_url (Some (sample_meta ''a'')) empty_proxy_store
    = (Some (proxy_path ''t''), sample_store)"
  by (simp add: sample_store_def create_proxy_url_def sample_safe mint_proxy_token_def redis_value_def empty_proxy_store_def Let_def)

lemma proxy_url_leads_to_target_witness: "get_proxy_target 1 ''t'' sample_store = Some sample_url"
  using proxy_url_leads_to_target [OF empty_store_facts(1) sample_created]
  by (auto simp: empty_store_facts proxy_path_def proxy_token_ttl_ms_def)

lemma sample_store_facts:
  "proxy_wf sample_proxy_env 0 sample_store" "get_proxy_target 0 ''t'' sample_store = Some sample_url" "urls_in_use sample_store = {sample_url}"
proof -
  show "proxy_wf sample_proxy_env 0 sample_store"
    unfolding sample_store_def
    by (rule create_proxy_url_wf [OF empty_store_facts(1)]) (simp_all add: empty_store_facts token_ok_def quote_single_def sample_url_def)
  have s: "sample_store = \<lparr>ps_tokens = [(''t'', \<lparr>pp_url = sample_url, pp_meta = sample_meta ''a'', pp_createdAt = 0\<rparr>, proxy_token_ttl_ms)],
      ps_byUrl = [(px_hash sample_proxy_env sample_url, ''t'', proxy_token_ttl_ms)]\<rparr>"
    by (simp add: sample_store_def create_proxy_url_def sample_safe mint_proxy_token_def redis_value_def empty_proxy_store_def Let_def)
  show "get_proxy_target 0 ''t'' sample_store = Some sample_url" by (simp add: get_proxy_target_Some s proxy_token_ttl_ms_def)
  show "urls_in_use sample_store = {sample_url}" by (auto simp: urls_in_use_def s split: if_splits)
qed

lemma shared_token_dies_with_last_room_witness:
  "snd (handle_media_proxy_get sample_proxy_env (\<lambda>u. None) 1000 (\<lambda>i. []) \<lparr>pq_ip = ''9.9.9.9'', pq_range = None\<rparr> ''t''
      \<lparr>px_store = snd (create_proxy_url sample_proxy_env 0 ''s'' sample_url (Some (sample_meta ''b'')) sample_store),
       px_limiter = fresh_limiter, px_cache = [], px_rooms = [''a''], px_fetched = [], px_refreshes = []\<rparr>) \<in> {Refused 429, Refused 404}"
proof -
  obtain path ps' where c: "create_proxy_url sample_proxy_env 0 ''s'' sample_url (Some (sample_meta ''b'')) sample_store = (Some path, ps')"
    using create_proxy_url_cases [OF sample_store_facts(1) sample_safe, of sample_url "Some (sample_meta ''b'')" "''s''"] by metis
  show ?thesis
    unfolding c snd_conv
    by (rule conjunct2 [OF shared_token_dies_with_last_room [OF sample_store_facts(1,2) c, of "''b''"]])
      (simp_all add: sample_meta_def sample_store_facts)
qed

definition sample_parts :: "playlist_part list" where "sample_parts = [Text_line ''#EXTM3U'', Uri_line ''s.ts'']"

lemma sample_rewritten:
  "fst (rewrite_m3u8_for_proxy sample_proxy_env 0 (\<lambda>i. replicate (Suc i) (CHR ''x'')) (render_playlist [CHR 10] sample_parts)
      ''https://c.example/'' None empty_proxy_store) = Some (''#EXTM3U'' @ CHR 10 # ''/api/media/proxy/x'')"
  by code_simp

lemma playlist_leads_through_proxy_witness:
  "\<exists>f t. ''#EXTM3U'' @ CHR 10 # ''/api/media/proxy/x'' = render_playlist [CHR 10] (map (map_part f) sample_parts)
     \<and> f ''s.ts'' = proxy_path t"
proof -
  let ?fresh = "\<lambda>i. replicate (Suc i) (CHR ''x'')"
  obtain ps' where r: "rewrite_m3u8_for_proxy sample_proxy_env 0 ?fresh (render_playlist [CHR 10] sample_parts)
      ''https://c.example/'' None empty_proxy_store = (Some (''#EXTM3U'' @ CHR 10 # ''/api/media/proxy/x''), ps')"
    using sample_rewritten by (metis prod.collapse)
  have fresh: "fresh_names ?fresh empty_proxy_store"
    by (auto simp: fresh_names_def inj_on_def empty_store_facts token_ok_def quote_single_def replicate_eq_replicate)
  have wf: "list_all part_wf sample_parts" by code_simp
  have "ref_target sample_proxy_env ''https://c.example/'' ''s.ts'' = Some ''https://c.example/s.ts''" by code_simp
  then show ?thesis
    using playlist_leads_through_proxy [OF empty_store_facts(1) fresh wf _ _ _ r]
    by (auto simp: sample_parts_def sample_proxy_env_def inj_on_def)
qed

end
