(* ===== verification/Media_Relay.thy ===== *)
theory Media_Relay
  imports Block_Cache
begin

text \<open>
  How the server reads a shared file from the tab that holds it
  (\<open>src/src/server/media/local-media-relay/\<close>): pending requests and the replies other instances leave
  in Redis, the order of the three ways to the provider, the byte stream over aligned blocks, and the
  HTTP response around it (\<open>local-media-http.ts\<close>).
\<close>

section \<open>Base 64\<close>

definition b64_char :: "nat \<Rightarrow> char" where
  "b64_char n = char_of (if n < 26 then 65 + n else if n < 52 then 71 + n
     else if n < 62 then n - 4 else if n = 62 then 43 else 47)"

text \<open>The decoder of Node reads both alphabets and skips what is in neither.\<close>

definition b64_value :: "char \<Rightarrow> nat option" where
  "b64_value c =
     (let n = (of_char c :: nat) in
      if 65 \<le> n \<and> n \<le> 90 then Some (n - 65)
      else if 97 \<le> n \<and> n \<le> 122 then Some (n - 71)
      else if 48 \<le> n \<and> n \<le> 57 then Some (n + 4)
      else if n = 43 \<or> n = 45 then Some 62
      else if n = 47 \<or> n = 95 then Some 63
      else None)"

fun base64_encode :: "bytes \<Rightarrow> string" where
  "base64_encode [] = []"
| "base64_encode [a] = [b64_char (unat a div 4), b64_char (unat a mod 4 * 16), CHR ''='', CHR ''='']"
| "base64_encode [a, b] =
     [b64_char (unat a div 4), b64_char (unat a mod 4 * 16 + unat b div 16), b64_char (unat b mod 16 * 4), CHR ''='']"
| "base64_encode (a # b # c # rest) =
     [b64_char (unat a div 4), b64_char (unat a mod 4 * 16 + unat b div 16),
      b64_char (unat b mod 16 * 4 + unat c div 64), b64_char (unat c mod 64)] @ base64_encode rest"

fun sextets_to_bytes :: "nat list \<Rightarrow> bytes" where
  "sextets_to_bytes (w # x # y # z # rest) =
     [byte (w * 4 + x div 16), byte (x mod 16 * 16 + y div 4), byte (y mod 4 * 64 + z)] @ sextets_to_bytes rest"
| "sextets_to_bytes [w, x, y] = [byte (w * 4 + x div 16), byte (x mod 16 * 16 + y div 4)]"
| "sextets_to_bytes [w, x] = [byte (w * 4 + x div 16)]"
| "sextets_to_bytes _ = []"

definition base64_decode :: "string \<Rightarrow> bytes" where
  "base64_decode s = sextets_to_bytes (List.map_filter b64_value (takeWhile (\<lambda>c. c \<noteq> CHR ''='') s))"

section \<open>Chunk payloads\<close>

record chunk_payload =
  cp_requestId :: string
  cp_ok :: bool
  cp_data :: "bytes option"
  cp_dataBase64 :: "string option"
  cp_error :: "string option"

definition serialize_relay_reply_payload :: "chunk_payload \<Rightarrow> chunk_payload" where
  "serialize_relay_reply_payload payload =
     (case cp_data payload of
        Some d \<Rightarrow>
          if \<not> truthy (cp_dataBase64 payload)
          then payload\<lparr>cp_data := None, cp_dataBase64 := Some (base64_encode d)\<rparr>
          else payload\<lparr>cp_data := None\<rparr>
      | None \<Rightarrow> payload)"

definition bytes_from_chunk_payload :: "chunk_payload \<Rightarrow> bytes option" where
  "bytes_from_chunk_payload payload =
     (case cp_data payload of
        Some d \<Rightarrow> Some d
      | None \<Rightarrow> if truthy (cp_dataBase64 payload) then Some (base64_decode (the (cp_dataBase64 payload))) else None)"

definition throw_from_chunk_payload :: "chunk_payload \<Rightarrow> local_media_error_code" where
  "throw_from_chunk_payload payload = local_media_error_from_message (cp_error payload)"

text \<open>What a fetch makes of the payload it waited for.\<close>

definition payload_result :: "chunk_payload \<Rightarrow> local_media_error_code + bytes" where
  "payload_result payload =
     (if \<not> cp_ok payload then Inl (throw_from_chunk_payload payload)
      else case bytes_from_chunk_payload payload of
             None \<Rightarrow> Inl (throw_from_chunk_payload payload)
           | Some bytes \<Rightarrow> Inr bytes)"

section \<open>Pending requests\<close>

text \<open>
  The requests this process waits for with the time their timer fires, the promises that were
  settled, and the reply lists in Redis with their time to live.
\<close>

record relay =
  rl_pending :: "(string \<times> jsnum) list"
  rl_settled :: "(string \<times> (local_media_error_code + chunk_payload)) list"
  rl_replies :: "(string \<times> chunk_payload list \<times> jsnum) list"
  rl_redisUp :: bool

definition local_media_relay_timeout_ms :: jsnum where "local_media_relay_timeout_ms = 15000"

definition local_media_relay_reply :: "string \<Rightarrow> string" where
  "local_media_relay_reply requestId = ''media:local:relay:reply:'' @ requestId"

definition create_pending :: "jsnum \<Rightarrow> string \<Rightarrow> jsnum \<Rightarrow> relay \<Rightarrow> relay" where
  "create_pending now requestId timeoutMs rl =
     rl\<lparr>rl_pending := AList.update requestId (now + timeoutMs) (rl_pending rl)\<rparr>"

definition settle_pending :: "string \<Rightarrow> chunk_payload \<Rightarrow> relay \<Rightarrow> relay \<times> bool" where
  "settle_pending requestId payload rl =
     (case map_of (rl_pending rl) requestId of
        None \<Rightarrow> (rl, False)
      | Some _ \<Rightarrow> (rl\<lparr>rl_pending := AList.delete requestId (rl_pending rl),
                     rl_settled := AList.update requestId (Inr payload) (rl_settled rl)\<rparr>, True))"

text \<open>The timer of a request.\<close>

definition pending_timeout :: "jsnum \<Rightarrow> string \<Rightarrow> relay \<Rightarrow> relay" where
  "pending_timeout now requestId rl =
     (case map_of (rl_pending rl) requestId of
        Some due \<Rightarrow>
          if due \<le> now
          then rl\<lparr>rl_pending := AList.delete requestId (rl_pending rl),
                 rl_settled := AList.update requestId (Inl ProviderTimeout) (rl_settled rl)\<rparr>
          else rl
      | None \<Rightarrow> rl)"

definition push_relay_reply :: "jsnum \<Rightarrow> string \<Rightarrow> chunk_payload \<Rightarrow> relay \<Rightarrow> relay" where
  "push_relay_reply now requestId payload rl =
     (if \<not> rl_redisUp rl then rl
      else let key = local_media_relay_reply requestId;
               old = (case map_of (rl_replies rl) key of
                        Some (xs, until) \<Rightarrow> if now < until then xs else []
                      | None \<Rightarrow> [])
           in rl\<lparr>rl_replies := AList.update key (old @ [serialize_relay_reply_payload payload], now + 60000)
                                 (rl_replies rl)\<rparr>)"

definition resolve_local_media_chunk :: "jsnum \<Rightarrow> chunk_payload \<Rightarrow> relay \<Rightarrow> relay" where
  "resolve_local_media_chunk now payload rl =
     (if cp_requestId payload = [] then rl
      else case settle_pending (cp_requestId payload) payload rl of
             (rl1, True) \<Rightarrow> rl1
           | (rl1, False) \<Rightarrow> push_relay_reply now (cp_requestId payload) payload rl1)"

section \<open>The three ways to the provider\<close>

text \<open>
  A local socket of the owner: \<open>None\<close> when there is none to ask.  \<open>answer\<close> is the settled promise of
  the request.
\<close>

definition fetch_chunk_via_local_sockets ::
  "nat list \<Rightarrow> nat list \<Rightarrow> local_media_error_code + chunk_payload \<Rightarrow> local_media_error_code + bytes option" where
  "fetch_chunk_via_local_sockets sockets openSockets answer =
     (if sockets = [] then Inr None
      else if filter (\<lambda>ws. ws \<in> set openSockets) sockets = [] then Inr None
      else case answer of
             Inl code \<Rightarrow> Inl code
           | Inr payload \<Rightarrow> (case payload_result payload of Inl code \<Rightarrow> Inl code | Inr bytes \<Rightarrow> Inr (Some bytes)))"

text \<open>The instance that holds the provider's socket; any failure falls through.\<close>

definition fetch_chunk_via_internal_http ::
  "bool \<Rightarrow> string option \<Rightarrow> string \<Rightarrow> string option \<Rightarrow> (string \<Rightarrow> string option) \<Rightarrow> bytes option \<Rightarrow> bytes option" where
  "fetch_chunk_via_internal_http configured providerNodeId ownNodeId secret baseUrlOf response =
     (if \<not> configured then None
      else if \<not> truthy providerNodeId \<or> providerNodeId = Some ownNodeId then None
      else if \<not> truthy (map_option trim secret) then None
      else if \<not> truthy (baseUrlOf (the providerNodeId)) then None
      else case response of None \<Rightarrow> None | Some buffer \<Rightarrow> if buffer = [] then None else Some buffer)"

definition fetch_chunk_via_redis :: "chunk_payload option \<Rightarrow> local_media_error_code + bytes" where
  "fetch_chunk_via_redis popped =
     (case popped of None \<Rightarrow> Inl ProviderTimeout | Some payload \<Rightarrow> payload_result payload)"

text \<open>The outside of a fetch, as functions of the inclusive range that is asked for.\<close>

record provider_ways =
  pw_local :: "int \<Rightarrow> int \<Rightarrow> local_media_error_code + bytes option"
  pw_http :: "int \<Rightarrow> int \<Rightarrow> bytes option"
  pw_redis :: "int \<Rightarrow> int \<Rightarrow> local_media_error_code + bytes"

definition fetch_local_media_range_bytes ::
  "provider_ways \<Rightarrow> int \<Rightarrow> int \<Rightarrow> int \<Rightarrow> local_media_error_code + bytes" where
  "fetch_local_media_range_bytes ways sizeBytes start end' =
     (if start < 0 \<or> end' < start \<or> start \<ge> sizeBytes then Inl RangeInvalid
      else let clampedEnd = min end' (sizeBytes - 1) in
        case pw_local ways start clampedEnd of
          Inl code \<Rightarrow> Inl code
        | Inr (Some local) \<Rightarrow> Inr local
        | Inr None \<Rightarrow>
            (case pw_http ways start clampedEnd of
               Some remote \<Rightarrow> Inr remote
             | None \<Rightarrow> pw_redis ways start clampedEnd))"

section \<open>Aligned blocks\<close>

definition local_media_relay_chunk_bytes :: int where "local_media_relay_chunk_bytes = 256 * 1024"

definition aligned_block_start :: "int \<Rightarrow> int \<Rightarrow> int" where
  "aligned_block_start offset chunkBytes = offset div chunkBytes * chunkBytes"

text \<open>The fetch of a block that the cache does not answer.\<close>

definition fetch_local_media_aligned_block ::
  "provider_ways \<Rightarrow> int \<Rightarrow> int \<Rightarrow> local_media_error_code + bytes" where
  "fetch_local_media_aligned_block ways sizeBytes blockStart =
     (let aligned = aligned_block_start blockStart local_media_relay_chunk_bytes in
      if aligned \<noteq> blockStart then Inl RangeInvalid
      else fetch_local_media_range_bytes ways sizeBytes aligned
             (min (aligned + local_media_relay_chunk_bytes - 1) (sizeBytes - 1)))"

section \<open>The byte stream\<close>

datatype pull_result = Closed | Enqueued bytes int | Errored local_media_error_code

definition subarray :: "bytes \<Rightarrow> int \<Rightarrow> int \<Rightarrow> bytes" where
  "subarray bs i j = drop (nat i) (take (nat j) bs)"

text \<open>One \<open>pull\<close>: what it enqueues and the offset it leaves.  \<open>block\<close> fetches an aligned block.\<close>

definition stream_pull :: "(int \<Rightarrow> local_media_error_code + bytes) \<Rightarrow> int \<Rightarrow> int \<Rightarrow> pull_result" where
  "stream_pull block lastByte offset =
     (if offset > lastByte then Closed
      else
        let blockStart = aligned_block_start offset local_media_relay_chunk_bytes in
        case block blockStart of
          Inl code \<Rightarrow> Errored code
        | Inr bytes \<Rightarrow>
            (let blockEnd = blockStart + int (length bytes) - 1;
                 sliceFrom = offset - blockStart;
                 sliceTo = min lastByte blockEnd - blockStart + 1
             in Enqueued (subarray bytes sliceFrom sliceTo) (blockStart + sliceTo)))"

text \<open>
  A consumer that pulls until the stream closes or fails: the bytes it got and the error, or \<open>None\<close>
  when the stream never ends.
\<close>

partial_function (option) stream_run ::
  "(int \<Rightarrow> local_media_error_code + bytes) \<Rightarrow> int \<Rightarrow> int \<Rightarrow> (bytes \<times> local_media_error_code option) option" where
  "stream_run block lastByte offset =
     (case stream_pull block lastByte offset of
        Closed \<Rightarrow> Some ([], None)
      | Errored code \<Rightarrow> Some ([], Some code)
      | Enqueued chunk offset' \<Rightarrow>
          Option.bind (stream_run block lastByte offset') (\<lambda>r. Some (chunk @ fst r, snd r)))"

definition create_local_media_byte_stream ::
  "(int \<Rightarrow> local_media_error_code + bytes) \<Rightarrow> int \<Rightarrow> int \<Rightarrow> int
     \<Rightarrow> (bytes \<times> local_media_error_code option) option" where
  "create_local_media_byte_stream block sizeBytes start end' = stream_run block (min end' (sizeBytes - 1)) start"

section \<open>The HTTP response\<close>

record range_response =
  hr_status :: nat
  hr_contentLength :: "int option"
  hr_contentRange :: "(int \<times> int \<times> int) option"
  hr_body :: "(int \<times> int) option"

definition local_media_invalid_range_response :: "int \<Rightarrow> range_response" where
  "local_media_invalid_range_response sizeBytes =
     \<lparr>hr_status = 416, hr_contentLength = None, hr_contentRange = None, hr_body = None\<rparr>"

text \<open>The body is the range of the stream it starts.\<close>

definition create_local_media_range_http_response ::
  "int \<Rightarrow> resolved_bytes_range option \<Rightarrow> bool \<Rightarrow> range_response" where
  "create_local_media_range_http_response sizeBytes rangeInfo isHead =
     (case rangeInfo of
        Some InvalidRange \<Rightarrow> local_media_invalid_range_response sizeBytes
      | Some (ResolvedRange start end') \<Rightarrow>
          \<lparr>hr_status = 206, hr_contentLength = Some (end' - start + 1),
            hr_contentRange = Some (start, end', sizeBytes),
            hr_body = (if isHead then None else Some (start, end'))\<rparr>
      | None \<Rightarrow>
          \<lparr>hr_status = 200, hr_contentLength = Some sizeBytes, hr_contentRange = None,
            hr_body = (if isHead then None else Some (0, sizeBytes - 1))\<rparr>)"

section \<open>Base 64 and replies\<close>

lemma b64_value_char: "n < 64 \<Longrightarrow> b64_value (b64_char n) = Some n" "n < 64 \<Longrightarrow> b64_char n \<noteq> CHR ''=''"
proof -
  assume n: "n < 64"
  show v: "b64_value (b64_char n) = Some n" using n by (auto simp: b64_char_def b64_value_def Let_def of_char_of)
  have "b64_value (CHR ''='') = None" by (simp add: b64_value_def)
  with v show "b64_char n \<noteq> CHR ''=''" by auto
qed

lemma byte_unat [simp]: "byte (unat a) = a"
  by (simp add: byte_def)

lemma unat_bounds:
  fixes a :: "8 word"
  shows "unat a < 256"
proof -
  have "unat a < 2 ^ LENGTH(8)" by (rule unsigned_less)
  then show ?thesis by simp
qed

text \<open>The six-bit groups of the encoding.\<close>

fun sextets :: "bytes \<Rightarrow> nat list" where
  "sextets [] = []"
| "sextets [a] = [unat a div 4, unat a mod 4 * 16]"
| "sextets [a, b] = [unat a div 4, unat a mod 4 * 16 + unat b div 16, unat b mod 16 * 4]"
| "sextets (a # b # c # rest) =
     [unat a div 4, unat a mod 4 * 16 + unat b div 16, unat b mod 16 * 4 + unat c div 64, unat c mod 64] @ sextets rest"

lemma base64_encode_sextets: "\<exists>k. base64_encode bs = map b64_char (sextets bs) @ replicate k CHR ''=''"
proof (induction bs rule: sextets.induct)
  case (2 a)
  show ?case by (rule exI [of _ 2]) (simp add: numeral_2_eq_2)
next
  case (3 a b)
  show ?case by (rule exI [of _ 1]) simp
qed auto

text \<open>Splitting bytes into groups and joining them again.\<close>

lemma sextet_bounds:
  fixes x y :: nat
  assumes "x < 256" "y < 256"
  shows "x div 4 < 64 \<and> x mod 4 * 16 + y div 16 < 64 \<and> x mod 16 * 4 + y div 64 < 64 \<and> y div 64 < 4"
proof -
  have "y div 16 < 16" "y div 64 < 4" "x div 4 < 64" using assms by auto
  moreover have "x mod 4 < 4" "x mod 16 < 16" by auto
  ultimately show ?thesis by linarith
qed

lemma sextet_join:
  fixes x y k :: nat
  assumes "y < 256" "k < 4"
  shows "x div 4 * 4 + (x mod 4 * 16 + y div 16) div 16 = x"
    "(x mod 4 * 16 + y div 16) mod 16 * 16 + (y mod 16 * 4 + k) div 4 = y"
    "(x mod 16 * 4 + y div 64) mod 4 * 64 + y mod 64 = y"
proof -
  have d: "y div 16 < 16" "y div 64 < 4" using assms by auto
  show "x div 4 * 4 + (x mod 4 * 16 + y div 16) div 16 = x" using d by simp
  show "(x mod 4 * 16 + y div 16) mod 16 * 16 + (y mod 16 * 4 + k) div 4 = y" using d assms(2) by simp
  show "(x mod 16 * 4 + y div 64) mod 4 * 64 + y mod 64 = y" using d by simp
qed

lemma sextets_small: "n \<in> set (sextets bs) \<Longrightarrow> n < 64"
proof (induction bs rule: sextets.induct)
  case (2 a)
  then show ?case using sextet_bounds [OF unat_bounds unat_bounds, of a 0] by auto
next
  case (3 a b)
  then show ?case
    using sextet_bounds [OF unat_bounds unat_bounds, of a b] sextet_bounds [OF unat_bounds unat_bounds, of b 0] by auto
next
  case (4 a b c rest)
  then show ?case
    using sextet_bounds [OF unat_bounds unat_bounds, of a b] sextet_bounds [OF unat_bounds unat_bounds, of b c] by auto
qed simp

lemma sextets_to_bytes_sextets: "sextets_to_bytes (sextets bs) = bs"
proof (induction bs rule: sextets.induct)
  case (2 a)
  then show ?case using sextet_join(1) [of 0 0 "unat a"] by simp
next
  case (3 a b)
  then show ?case using sextet_join(1,2) [OF unat_bounds [of b], of 0 "unat a"] by simp
next
  case (4 a b c rest)
  have "unat c div 64 < 4" using sextet_bounds [OF unat_bounds unat_bounds, of a c] by blast
  from sextet_join(1,2) [OF unat_bounds [of b] this, of "unat a"] sextet_join(3) [OF unat_bounds [of c], of 0 "unat b"] 4
  show ?case by simp
qed simp

lemma map_filter_sextets:
  "(\<forall>n\<in>set ns. n < 64) \<Longrightarrow>
     List.map_filter b64_value (takeWhile (\<lambda>c. c \<noteq> CHR ''='') (map b64_char ns @ replicate k CHR ''='')) = ns"
  by (induction ns) (auto simp: List.map_filter_def b64_value_char takeWhile_eq_Nil_iff)

lemma base64_roundtrip: "base64_decode (base64_encode bs) = bs"
proof -
  obtain k where k: "base64_encode bs = map b64_char (sextets bs) @ replicate k CHR ''=''"
    using base64_encode_sextets by blast
  show ?thesis
    using map_filter_sextets [of "sextets bs" k] sextets_small by (simp add: base64_decode_def k sextets_to_bytes_sextets)
qed

text \<open>A reply that went through Redis carries the same bytes.\<close>

lemma reply_roundtrip:
  assumes "cp_data payload = Some d" "\<not> truthy (cp_dataBase64 payload)" "d \<noteq> []"
  shows "bytes_from_chunk_payload (serialize_relay_reply_payload payload) = Some d"
    and "cp_ok (serialize_relay_reply_payload payload) = cp_ok payload"
    and "cp_error (serialize_relay_reply_payload payload) = cp_error payload"
proof -
  obtain b bs where "d = b # bs" using assms(3) by (cases d) auto
  then have "base64_encode d \<noteq> []" by (cases bs rule: list.exhaust; cases "tl bs") (auto split: list.split)
  with assms show "bytes_from_chunk_payload (serialize_relay_reply_payload payload) = Some d"
    by (simp add: bytes_from_chunk_payload_def serialize_relay_reply_payload_def base64_roundtrip)
qed (use assms in \<open>simp_all add: serialize_relay_reply_payload_def\<close>)

text \<open>
  An answer of no bytes does not survive the way through Redis: its Base 64 text is empty, which the
  reader takes for an answer without data and turns into an error.
\<close>

lemma empty_reply_becomes_error:
  assumes "cp_ok payload" "cp_data payload = Some []" "cp_dataBase64 payload = None" "cp_error payload = None"
  shows "payload_result payload = Inr [] \<and> payload_result (serialize_relay_reply_payload payload) = Inl RelayFailed"
  using assms by (simp add: payload_result_def serialize_relay_reply_payload_def bytes_from_chunk_payload_def
      throw_from_chunk_payload_def) code_simp

text \<open>A request is settled once: by the first answer, or by its timer.\<close>

lemma settled_once:
  assumes "settle_pending r p rl = (rl1, True)"
  shows "settle_pending r p' rl1 = (rl1, False)" "pending_timeout now r rl1 = rl1"
    "map_of (rl_settled rl1) r = Some (Inr p)"
  using assms by (auto simp: settle_pending_def pending_timeout_def split: option.splits)

text \<open>
  A chunk for a request nobody waits for is stored in Redis for a minute, whoever sent it: the frame is
  handled before the sender's membership or rate is looked at.
\<close>

lemma unknown_chunk_stored:
  assumes "rl_pending rl = []" "rl_replies rl = []" "rl_redisUp rl" "cp_requestId p \<noteq> []"
  shows "rl_replies (resolve_local_media_chunk now p rl) =
    [(local_media_relay_reply (cp_requestId p), [serialize_relay_reply_payload p], now + 60000)]"
  using assms by (simp add: resolve_local_media_chunk_def settle_pending_def push_relay_reply_def Let_def)

section \<open>The stream\<close>

abbreviation chunk_size :: int where "chunk_size \<equiv> local_media_relay_chunk_bytes"

text \<open>The bytes of a file from one position up to another.\<close>

definition file_bytes :: "bytes \<Rightarrow> int \<Rightarrow> int \<Rightarrow> bytes" where
  "file_bytes dat a b = drop (nat a) (take (nat b) dat)"

lemma aligned_bounds:
  "aligned_block_start o' chunk_size \<le> o'" "o' < aligned_block_start o' chunk_size + chunk_size"
  "0 \<le> o' \<Longrightarrow> 0 \<le> aligned_block_start o' chunk_size"
  "aligned_block_start (aligned_block_start o' chunk_size) chunk_size = aligned_block_start o' chunk_size"
  using div_mult_mod_eq [of o' chunk_size] pos_mod_bound [of chunk_size o'] pos_mod_sign [of chunk_size o']
  by (simp_all add: aligned_block_start_def local_media_relay_chunk_bytes_def pos_imp_zdiv_nonneg_iff)

lemma drop_take_append:
  assumes "i \<le> j" "j \<le> k"
  shows "drop i (take j xs) @ drop j (take k xs) = drop i (take k xs)"
proof (cases "length xs \<le> j")
  case True
  with assms show ?thesis by simp
next
  case False
  have "take k xs = take j xs @ drop j (take k xs)"
    using append_take_drop_id [of j "take k xs"] assms(2) by (simp add: min_def)
  then have "drop i (take k xs) = drop i (take j xs) @ drop (i - length (take j xs)) (drop j (take k xs))"
    by (metis drop_append)
  with assms(1) False show ?thesis by simp
qed

lemma file_bytes_append:
  "0 \<le> a \<Longrightarrow> a \<le> b \<Longrightarrow> b \<le> c \<Longrightarrow> file_bytes dat a b @ file_bytes dat b c = file_bytes dat a c"
  unfolding file_bytes_def by (intro drop_take_append) simp_all

lemma length_file_bytes: "0 \<le> a \<Longrightarrow> a \<le> b \<Longrightarrow> b \<le> int (length dat) \<Longrightarrow> int (length (file_bytes dat a b)) = b - a"
proof -
  assume a: "0 \<le> a" "a \<le> b" "b \<le> int (length dat)"
  then have "nat b \<le> length dat" by simp
  then have "length (file_bytes dat a b) = nat b - nat a" by (simp add: file_bytes_def)
  with a show ?thesis by simp
qed

lemma subarray_file_bytes:
  assumes "0 \<le> s" "0 \<le> i" "i \<le> j" "s + j \<le> e"
  shows "subarray (file_bytes dat s e) i j = file_bytes dat (s + i) (s + j)"
proof -
  have n: "nat (s + i) = nat s + nat i" "nat (s + j) = nat s + nat j" "nat s + nat j \<le> nat e" using assms by simp_all
  have "take (nat j) (drop (nat s) (take (nat e) dat)) = drop (nat s) (take (nat s + nat j) dat)"
    using n(3) by (simp add: drop_take min_def)
  then have "drop (nat i) (take (nat j) (drop (nat s) (take (nat e) dat))) = drop (nat i) (drop (nat s) (take (nat s + nat j) dat))"
    by (rule arg_cong)
  then show ?thesis by (simp add: subarray_def file_bytes_def n(1,2) add.commute [of "nat s"] del: take_drop)
qed

text \<open>A source that answers every aligned block with its bytes of the file.\<close>

definition faithful_block :: "bytes \<Rightarrow> (int \<Rightarrow> local_media_error_code + bytes) \<Rightarrow> bool" where
  "faithful_block dat block = (\<forall>b. 0 \<le> b \<and> b < int (length dat) \<and> aligned_block_start b chunk_size = b \<longrightarrow>
     block b = Inr (file_bytes dat b (min (b + chunk_size) (int (length dat)))))"

lemma pull_faithful:
  assumes "faithful_block dat block" "0 \<le> a" "a \<le> l" "l < int (length dat)"
  obtains e where "stream_pull block l a = Enqueued (file_bytes dat a e) e" "a < e" "e \<le> l + 1"
proof -
  define s where "s = aligned_block_start a chunk_size"
  note s = aligned_bounds(1,2,4) [of a, folded s_def] aligned_bounds(3) [OF assms(2), folded s_def]
  define q where "q = min (s + chunk_size) (int (length dat))"
  have b: "block s = Inr (file_bytes dat s q)"
    using assms s unfolding faithful_block_def q_def by auto
  have q: "a < q" "s \<le> q" "int (length (file_bytes dat s q)) = q - s"
    using s assms length_file_bytes [of s q dat] by (auto simp: q_def)
  define e where "e = min (l + 1) q"
  have e: "min l (s + (q - s) - 1) - s + 1 = e - s" "a < e" "e \<le> l + 1" using q assms(3) by (auto simp: e_def)
  have "subarray (file_bytes dat s q) (a - s) (e - s) = file_bytes dat a e"
    using subarray_file_bytes [of s "a - s" "e - s" q dat] s e by (simp add: e_def)
  then have "stream_pull block l a = Enqueued (file_bytes dat a e) e"
    using assms(3) b unfolding stream_pull_def Let_def s_def [symmetric] by (simp only: b sum.case q(3) e(1)) (simp add: e(1))
  with that e show ?thesis by blast
qed

lemma stream_run_faithful:
  assumes "faithful_block dat block" "0 \<le> a" "a \<le> l + 1" "l < int (length dat)"
  shows "stream_run block l a = Some (file_bytes dat a (l + 1), None)"
  using assms(2,3)
proof (induction "nat (l + 1 - a)" arbitrary: a rule: less_induct)
  case less
  show ?case
  proof (cases "a \<le> l")
    case False
    then have "stream_pull block l a = Closed" by (simp add: stream_pull_def)
    then show ?thesis using less.prems False by (subst stream_run.simps) (simp add: file_bytes_def)
  next
    case True
    then obtain e where e: "stream_pull block l a = Enqueued (file_bytes dat a e) e" "a < e" "e \<le> l + 1"
      using pull_faithful [OF assms(1) less.prems(1) _ assms(4)] by blast
    have "stream_run block l e = Some (file_bytes dat e (l + 1), None)"
      by (rule less.hyps) (use e less.prems in simp_all)
    then show ?thesis
      using e(1) file_bytes_append [OF less.prems(1) _ e(3), of dat] e(2)
      by (subst stream_run.simps) simp
  qed
qed

text \<open>A block shorter than what is asked of it sends the stream back to its end, for ever.\<close>

definition short_at :: "(int \<Rightarrow> local_media_error_code + bytes) \<Rightarrow> int \<Rightarrow> int \<Rightarrow> bool" where
  "short_at block l a = (a \<le> l \<and> (\<exists>bytes. block (aligned_block_start a chunk_size) = Inr bytes
     \<and> int (length bytes) < chunk_size \<and> aligned_block_start a chunk_size + int (length bytes) \<le> l))"

lemma aligned_within: "0 \<le> k \<Longrightarrow> k < chunk_size \<Longrightarrow>
    aligned_block_start (aligned_block_start a chunk_size + k) chunk_size = aligned_block_start a chunk_size"
  by (simp add: aligned_block_start_def local_media_relay_chunk_bytes_def)

lemma pull_short:
  assumes "short_at block l a"
  obtains chunk b where "stream_pull block l a = Enqueued chunk b" "short_at block l b"
proof -
  define s where "s = aligned_block_start a chunk_size"
  obtain bytes where b: "a \<le> l" "block s = Inr bytes" "int (length bytes) < chunk_size" "s + int (length bytes) \<le> l"
    using assms by (auto simp: short_at_def s_def)
  have "min l (s + int (length bytes) - 1) - s + 1 = int (length bytes)" using b(4) by simp
  then have p: "stream_pull block l a = Enqueued (subarray bytes (a - s) (int (length bytes))) (s + int (length bytes))"
    using b by (simp add: stream_pull_def s_def [symmetric] Let_def)
  have "aligned_block_start (s + int (length bytes)) chunk_size = s"
    unfolding s_def by (rule aligned_within) (use b(3) in simp_all)
  then have "short_at block l (s + int (length bytes))" using b by (simp add: short_at_def)
  with that p show ?thesis by blast
qed

lemma short_block_stuck: "stream_run block l a = Some r \<Longrightarrow> short_at block l a \<Longrightarrow> False"
proof (induction arbitrary: r rule: stream_run.raw_induct [rotated, consumes 1, case_names step])
  case (step run block l a)
  obtain chunk b where p: "stream_pull block l a = Enqueued chunk b" "short_at block l b"
    using pull_short [OF step.prems] .
  then obtain r' where "run block l b = Some r'" using step.hyps by (auto simp: bind_eq_Some_conv)
  with step.IH p(2) show ?case by blast
qed

section \<open>Properties\<close>

text \<open>A provider whose tab answers every range of the file with its bytes.\<close>

definition faithful_ways :: "bytes \<Rightarrow> provider_ways \<Rightarrow> bool" where
  "faithful_ways dat ways = (\<forall>a b. 0 \<le> a \<and> a \<le> b \<and> b < int (length dat) \<longrightarrow>
     pw_local ways a b = Inr (Some (file_bytes dat a (b + 1))))"

lemma faithful_fetch:
  assumes "faithful_ways dat ways"
  shows "faithful_block dat (fetch_local_media_aligned_block ways (int (length dat)))"
  unfolding faithful_block_def
proof (intro allI impI)
  fix b
  assume b: "0 \<le> b \<and> b < int (length dat) \<and> aligned_block_start b chunk_size = b"
  define e where "e = min (b + chunk_size - 1) (int (length dat) - 1)"
  have e: "b \<le> e" "min e (int (length dat) - 1) = e" "e < int (length dat)" "e + 1 = min (b + chunk_size) (int (length dat))"
    using b by (auto simp: e_def local_media_relay_chunk_bytes_def)
  have "pw_local ways b e = Inr (Some (file_bytes dat b (e + 1)))"
    using assms b e unfolding faithful_ways_def by blast
  then show "fetch_local_media_aligned_block ways (int (length dat)) b =
      Inr (file_bytes dat b (min (b + chunk_size) (int (length dat))))"
    using b e by (simp add: fetch_local_media_aligned_block_def fetch_local_media_range_bytes_def Let_def e_def [symmetric])
qed


text \<open>
  A tab that answers an aligned block with fewer bytes than were asked for (a file that shrank, a
  faulty or malicious tab) does not end the viewer's response: from the missing position on the stream
  returns to the end of the short block again and again and never closes.
\<close>

theorem short_block_stream_never_ends:
  assumes "pw_local ways s (min (s + chunk_size - 1) (n - 1)) = Inr (Some bytes)"
    and "0 \<le> s" "aligned_block_start s chunk_size = s" "s \<le> a" "a < s + chunk_size" "a \<le> b" "b < n"
    and "int (length bytes) < chunk_size" "s + int (length bytes) \<le> b"
  shows "create_local_media_byte_stream (fetch_local_media_aligned_block ways n) n a b = None"
proof -
  have s: "aligned_block_start a chunk_size = s"
    using aligned_within [of "a - s" s] assms(3-5) by simp
  have "fetch_local_media_aligned_block ways n s = Inr bytes"
    using assms by (simp add: fetch_local_media_aligned_block_def fetch_local_media_range_bytes_def Let_def
        local_media_relay_chunk_bytes_def)
  then have "short_at (fetch_local_media_aligned_block ways n) b a"
    using assms s by (simp add: short_at_def)
  moreover have "min b (n - 1) = b" using assms(7) by simp
  ultimately show ?thesis
    using short_block_stuck unfolding create_local_media_byte_stream_def by (metis not_None_eq)
qed

definition sample_ways :: "bytes \<Rightarrow> provider_ways" where
  "sample_ways dat = \<lparr>pw_local = (\<lambda>a b. Inr (Some (file_bytes dat a (b + 1)))), pw_http = (\<lambda>_ _. None),
     pw_redis = (\<lambda>_ _. Inl ProviderTimeout)\<rparr>"


theorem short_block_stream_never_ends_witness:
  "create_local_media_byte_stream (fetch_local_media_aligned_block
     ((sample_ways [])\<lparr>pw_local := (\<lambda>_ _. Inr (Some [7]))\<rparr>) 10) 10 0 9 = None"
  by (rule short_block_stream_never_ends [where s = 0 and bytes = "[7]"])
    (simp_all add: local_media_relay_chunk_bytes_def aligned_block_start_def)

end
