(* ===== verification/Sfu.thy ===== *)
theory Sfu
  imports Local_Media Media_Relay
begin

text \<open>
  The in-process forwarding unit for local media: its registries
  (\<open>src/src/server/media/mediasoup-runtime.ts\<close>, \<open>local-media-sfu-port.ts\<close>) and the signalling
  messages of the tabs (\<open>src/src/server/realtime/handlers/local-media-sfu.ts\<close>).  The media library
  is a parameter: what its calls answer, and which channels close together with another object.
\<close>

section \<open>The registries\<close>

record sfu_producer =
  sp_dataProducerId :: string
  sp_roomId :: string
  sp_ownerUserId :: string

datatype direction = DSend | DRecv
datatype sfu_role = RoleProvider | RoleRequests

record transport_app_data =
  ta_roomKey :: string
  ta_userId :: "string option"
  ta_direction :: "direction option"
  ta_localMediaId :: "string option"

record producer_app_data =
  pa_localMediaId :: "string option"
  pa_roomId :: "string option"
  pa_ownerUserId :: "string option"
  pa_userId :: "string option"
  pa_role :: "sfu_role option"

record runtime =
  rt_routers :: "(string \<times> string) list"
  rt_transports :: "(string \<times> transport_app_data) list"
  rt_dataProducers :: "(string \<times> producer_app_data) list"
  rt_dataConsumers :: "string list"
  rt_providers :: "(string \<times> sfu_producer) list"
  rt_requests :: "(string \<times> (string \<times> sfu_producer) list) list"

definition empty_runtime :: runtime where
  "empty_runtime = \<lparr>rt_routers = [], rt_transports = [], rt_dataProducers = [], rt_dataConsumers = [],
     rt_providers = [], rt_requests = []\<rparr>"

text \<open>The runtime of the process, if the worker is up, and the transports each socket owns.\<close>

record sfu =
  sf_runtime :: "runtime option"
  sf_owned :: "(nat \<times> string list) list"
  sf_node :: string

text \<open>
  What the library answers to the calls of one message, an error text or the id of the new object,
  and which channels it closes with a transport or with a producer.
\<close>

record media_lib =
  ml_boots :: bool
  ml_router :: "string + string"
  ml_transport :: "string + string"
  ml_connect :: "string option"
  ml_producer :: "string + string"
  ml_consumer :: "string + string"
  ml_producersOn :: "string \<Rightarrow> string list"
  ml_consumersOn :: "string \<Rightarrow> string list"
  ml_consumersOf :: "string \<Rightarrow> string list"
  ml_sendError :: "(nat \<times> string) option"

definition ensure_mediasoup_runtime :: "media_lib \<Rightarrow> sfu \<Rightarrow> sfu \<times> runtime option" where
  "ensure_mediasoup_runtime ml s =
     (case sf_runtime s of
        Some rt \<Rightarrow> (s, Some rt)
      | None \<Rightarrow> if ml_boots ml then (s\<lparr>sf_runtime := Some empty_runtime\<rparr>, Some empty_runtime) else (s, None))"

definition get_or_create_router :: "media_lib \<Rightarrow> string \<Rightarrow> runtime \<Rightarrow> runtime \<times> (string + string)" where
  "get_or_create_router ml roomKey rt =
     (case map_of (rt_routers rt) roomKey of
        Some router \<Rightarrow> (rt, Inr router)
      | None \<Rightarrow> (case ml_router ml of
                   Inl e \<Rightarrow> (rt, Inl e)
                 | Inr router \<Rightarrow> (rt\<lparr>rt_routers := AList.update roomKey router (rt_routers rt)\<rparr>, Inr router)))"

text \<open>The close listener of a producer; an object that is not registered is closed already.\<close>

definition producer_closed :: "string \<Rightarrow> runtime \<Rightarrow> runtime" where
  "producer_closed pid rt =
     (case map_of (rt_dataProducers rt) pid of
        None \<Rightarrow> rt
      | Some app \<Rightarrow>
          let rt1 = rt\<lparr>rt_dataProducers := AList.delete pid (rt_dataProducers rt)\<rparr> in
          if \<not> truthy (pa_localMediaId app) then rt1
          else let mediaId = the (pa_localMediaId app) in
            if pa_role app = Some RoleRequests
            then (case map_of (rt_requests rt1) mediaId of
                    None \<Rightarrow> rt1
                  | Some byProducer \<Rightarrow>
                      let by = AList.delete pid byProducer in
                      rt1\<lparr>rt_requests := (if by = [] then AList.delete mediaId (rt_requests rt1)
                                          else AList.update mediaId by (rt_requests rt1))\<rparr>)
            else if map_option sp_dataProducerId (map_of (rt_providers rt1) mediaId) = Some pid
                 then rt1\<lparr>rt_providers := AList.delete mediaId (rt_providers rt1)\<rparr>
                 else rt1)"

definition consumers_closed :: "string list \<Rightarrow> runtime \<Rightarrow> runtime" where
  "consumers_closed cs rt = rt\<lparr>rt_dataConsumers := filter (\<lambda>c. c \<notin> set cs) (rt_dataConsumers rt)\<rparr>"

definition close_data_producer :: "media_lib \<Rightarrow> string \<Rightarrow> runtime \<Rightarrow> runtime" where
  "close_data_producer ml pid rt =
     (if map_of (rt_dataProducers rt) pid = None then rt
      else consumers_closed (ml_consumersOf ml pid) (producer_closed pid rt))"

definition close_transport_objects :: "media_lib \<Rightarrow> string \<Rightarrow> runtime \<Rightarrow> runtime" where
  "close_transport_objects ml tid rt =
     (if map_of (rt_transports rt) tid = None then rt
      else consumers_closed (ml_consumersOn ml tid)
             (fold (close_data_producer ml) (ml_producersOn ml tid)
               (rt\<lparr>rt_transports := AList.delete tid (rt_transports rt)\<rparr>)))"

text \<open>Closing a transport also runs the listener that takes it from the set of its socket.\<close>

definition disown :: "string \<Rightarrow> sfu \<Rightarrow> sfu" where
  "disown tid s = s\<lparr>sf_owned := map (\<lambda>(ws, ids). (ws, removeAll tid ids)) (sf_owned s)\<rparr>"

definition mediasoup_close_transport :: "media_lib \<Rightarrow> string \<Rightarrow> sfu \<Rightarrow> sfu" where
  "mediasoup_close_transport ml tid s =
     (case sf_runtime s of
        None \<Rightarrow> s
      | Some rt \<Rightarrow>
          if map_of (rt_transports rt) tid = None then s
          else disown tid (s\<lparr>sf_runtime := Some (close_transport_objects ml tid rt)\<rparr>))"

section \<open>The calls of the port\<close>

definition mediasoup_create_router :: "media_lib \<Rightarrow> string \<Rightarrow> sfu \<Rightarrow> sfu \<times> (string + string)" where
  "mediasoup_create_router ml roomKey s =
     (case ensure_mediasoup_runtime ml s of
        (s1, None) \<Rightarrow> (s1, Inl ''mediasoup_sfu_unconfigured'')
      | (s1, Some rt) \<Rightarrow> (case get_or_create_router ml roomKey rt of
                            (rt1, r) \<Rightarrow> (s1\<lparr>sf_runtime := Some rt1\<rparr>, r)))"

definition mediasoup_create_transport ::
  "media_lib \<Rightarrow> transport_app_data \<Rightarrow> sfu \<Rightarrow> sfu \<times> (string + string)" where
  "mediasoup_create_transport ml appData s =
     (case mediasoup_create_router ml (ta_roomKey appData) s of
        (s1, Inl e) \<Rightarrow> (s1, Inl e)
      | (s1, Inr router) \<Rightarrow>
          (case ml_transport ml of
             Inl e \<Rightarrow> (s1, Inl e)
           | Inr tid \<Rightarrow>
               (s1\<lparr>sf_runtime := map_option (\<lambda>rt. rt\<lparr>rt_transports := AList.update tid appData (rt_transports rt)\<rparr>)
                       (sf_runtime s1)\<rparr>, Inr tid)))"

definition mediasoup_connect_transport :: "media_lib \<Rightarrow> string \<Rightarrow> sfu \<Rightarrow> sfu \<times> string option" where
  "mediasoup_connect_transport ml tid s =
     (case ensure_mediasoup_runtime ml s of
        (s1, None) \<Rightarrow> (s1, Some ''mediasoup_sfu_unconfigured'')
      | (s1, Some rt) \<Rightarrow>
          (s1, if map_of (rt_transports rt) tid = None then Some ''transport_not_found'' else ml_connect ml))"

text \<open>The registered channel of a producer: the latest provider wins, requests are kept by their id.\<close>

definition register_producer :: "string \<Rightarrow> producer_app_data \<Rightarrow> runtime \<Rightarrow> runtime" where
  "register_producer pid app rt =
     (let rt1 = rt\<lparr>rt_dataProducers := AList.update pid app (rt_dataProducers rt)\<rparr>;
          entry = \<lparr>sp_dataProducerId = pid, sp_roomId = (case pa_roomId app of Some r \<Rightarrow> r | None \<Rightarrow> []),
                    sp_ownerUserId = (case pa_ownerUserId app of Some u \<Rightarrow> u | None \<Rightarrow> [])\<rparr>
      in if \<not> truthy (pa_localMediaId app) then rt1
         else let mediaId = the (pa_localMediaId app) in
           if pa_role app = Some RoleRequests
           then rt1\<lparr>rt_requests := AList.update mediaId
                      (AList.update pid entry (case map_of (rt_requests rt1) mediaId of Some by \<Rightarrow> by | None \<Rightarrow> []))
                      (rt_requests rt1)\<rparr>
           else rt1\<lparr>rt_providers := AList.update mediaId entry (rt_providers rt1)\<rparr>)"

definition mediasoup_produce_data ::
  "media_lib \<Rightarrow> string \<Rightarrow> producer_app_data \<Rightarrow> sfu \<Rightarrow> sfu \<times> (string + string)" where
  "mediasoup_produce_data ml tid appData s =
     (case ensure_mediasoup_runtime ml s of
        (s1, None) \<Rightarrow> (s1, Inl ''mediasoup_sfu_unconfigured'')
      | (s1, Some rt) \<Rightarrow>
          if map_of (rt_transports rt) tid = None then (s1, Inl ''transport_not_found'')
          else (case ml_producer ml of
                  Inl e \<Rightarrow> (s1, Inl e)
                | Inr pid \<Rightarrow> (s1\<lparr>sf_runtime := Some (register_producer pid appData rt)\<rparr>, Inr pid)))"

definition mediasoup_consume_data ::
  "media_lib \<Rightarrow> string \<Rightarrow> string \<Rightarrow> sfu \<Rightarrow> sfu \<times> (string + string)" where
  "mediasoup_consume_data ml tid pid s =
     (case ensure_mediasoup_runtime ml s of
        (s1, None) \<Rightarrow> (s1, Inl ''mediasoup_sfu_unconfigured'')
      | (s1, Some rt) \<Rightarrow>
          if map_of (rt_transports rt) tid = None \<or> map_of (rt_dataProducers rt) pid = None
          then (s1, Inl ''not_found'')
          else (case ml_consumer ml of
                  Inl e \<Rightarrow> (s1, Inl e)
                | Inr cid \<Rightarrow>
                    (s1\<lparr>sf_runtime := Some (rt\<lparr>rt_dataConsumers := List.insert cid (rt_dataConsumers rt)\<rparr>)\<rparr>, Inr cid)))"

definition get_transport_app_data :: "string \<Rightarrow> sfu \<Rightarrow> transport_app_data option" where
  "get_transport_app_data tid s = Option.bind (sf_runtime s) (\<lambda>rt. map_of (rt_transports rt) tid)"

definition get_data_producer_app_data :: "string \<Rightarrow> sfu \<Rightarrow> producer_app_data option" where
  "get_data_producer_app_data pid s = Option.bind (sf_runtime s) (\<lambda>rt. map_of (rt_dataProducers rt) pid)"

definition get_provider_producer :: "string \<Rightarrow> sfu \<Rightarrow> sfu_producer option" where
  "get_provider_producer mediaId s = Option.bind (sf_runtime s) (\<lambda>rt. map_of (rt_providers rt) mediaId)"

definition list_request_producers :: "string \<Rightarrow> sfu \<Rightarrow> sfu_producer list" where
  "list_request_producers mediaId s =
     (case Option.bind (sf_runtime s) (\<lambda>rt. map_of (rt_requests rt) mediaId) of
        None \<Rightarrow> [] | Some by \<Rightarrow> map snd by)"

definition list_provider_producers :: "sfu \<Rightarrow> (string \<times> sfu_producer) list" where
  "list_provider_producers s = (case sf_runtime s of None \<Rightarrow> [] | Some rt \<Rightarrow> rt_providers rt)"

definition sfu_close_data_producer :: "media_lib \<Rightarrow> string \<Rightarrow> sfu \<Rightarrow> sfu" where
  "sfu_close_data_producer ml pid s = s\<lparr>sf_runtime := map_option (close_data_producer ml pid) (sf_runtime s)\<rparr>"

text \<open>Refuses a file whose provider is attached to another instance.\<close>

definition assert_provider_node_affinity :: "string option \<Rightarrow> sfu \<Rightarrow> string option" where
  "assert_provider_node_affinity nodeId s =
     (if truthy nodeId \<and> nodeId \<noteq> Some (sf_node s) then Some ''sfu_wrong_node'' else None)"

section \<open>Tearing down\<close>

definition clear_local_media_sfu_producer :: "media_lib \<Rightarrow> string \<Rightarrow> runtime \<Rightarrow> runtime" where
  "clear_local_media_sfu_producer ml mediaId rt =
     (let provider = map_of (rt_providers rt) mediaId;
          rt1 = rt\<lparr>rt_providers := AList.delete mediaId (rt_providers rt)\<rparr>;
          rt2 = (case provider of None \<Rightarrow> rt1 | Some e \<Rightarrow> close_data_producer ml (sp_dataProducerId e) rt1);
          requests = map_of (rt_requests rt2) mediaId;
          rt3 = rt2\<lparr>rt_requests := AList.delete mediaId (rt_requests rt2)\<rparr>
      in case requests of None \<Rightarrow> rt3 | Some by \<Rightarrow> fold (close_data_producer ml) (map fst by) rt3)"

definition close_room_request :: "media_lib \<Rightarrow> string \<Rightarrow> string \<Rightarrow> string \<times> sfu_producer \<Rightarrow> runtime \<Rightarrow> runtime" where
  "close_room_request ml roomKey mediaId pe rt =
     (if sp_roomId (snd pe) \<noteq> roomKey then rt
      else close_data_producer ml (fst pe)
             (rt\<lparr>rt_requests := adjust mediaId (AList.delete (fst pe)) (rt_requests rt)\<rparr>))"

definition close_room_requests :: "media_lib \<Rightarrow> string \<Rightarrow> string \<times> (string \<times> sfu_producer) list \<Rightarrow> runtime \<Rightarrow> runtime" where
  "close_room_requests ml roomKey mb rt =
     (let rt1 = fold (close_room_request ml roomKey (fst mb)) (snd mb) rt
      in if map_of (rt_requests rt1) (fst mb) = Some []
         then rt1\<lparr>rt_requests := AList.delete (fst mb) (rt_requests rt1)\<rparr> else rt1)"

definition close_room_registries :: "media_lib \<Rightarrow> string \<Rightarrow> runtime \<Rightarrow> runtime" where
  "close_room_registries ml roomKey rt =
     (let rt1 = fold (\<lambda>(mediaId, e). if sp_roomId e = roomKey then clear_local_media_sfu_producer ml mediaId else id)
                  (rt_providers rt) rt
      in fold (close_room_requests ml roomKey) (rt_requests rt1) rt1)"

definition mediasoup_close_room :: "media_lib \<Rightarrow> string \<Rightarrow> sfu \<Rightarrow> sfu" where
  "mediasoup_close_room ml roomKey s =
     (case sf_runtime s of
        None \<Rightarrow> s
      | Some rt \<Rightarrow>
          let rt1 = close_room_registries ml roomKey rt;
              s1 = fold (\<lambda>(tid, app). if ta_roomKey app = roomKey then mediasoup_close_transport ml tid else id)
                     (rt_transports rt1) (s\<lparr>sf_runtime := Some rt1\<rparr>)
          in s1\<lparr>sf_runtime := map_option (\<lambda>rt. rt\<lparr>rt_routers := AList.delete roomKey (rt_routers rt)\<rparr>) (sf_runtime s1)\<rparr>)"

text \<open>A worker that dies takes the whole runtime along; \<open>observed\<close> are the transports whose listener ran.\<close>

definition mediasoup_worker_died :: "string list \<Rightarrow> sfu \<Rightarrow> sfu" where
  "mediasoup_worker_died observed s = fold disown observed (s\<lparr>sf_runtime := None\<rparr>)"

section \<open>The messages\<close>

datatype sfu_reply =
    SfuError string
  | SfuRouter string "(string \<times> sfu_producer) list"
  | SfuTransport string
  | SfuConnected
  | SfuProduced string "string list option"
  | SfuConsumed string string

datatype sfu_out =
    SfuResult nat "string option" sfu_reply
  | SfuProducerOut nat string string string sfu_role
  | SfuUnavailable nat string

text \<open>Payloads: the parameters of the library are checked and handed on.\<close>

fun p_enum :: "(string \<times> 'a) list \<Rightarrow> json \<Rightarrow> 'a option" where
  "p_enum table (JStr s) = map_of table s"
| "p_enum table _ = None"

definition p_direction :: "json \<Rightarrow> direction option" where
  "p_direction = p_enum [(''send'', DSend), (''recv'', DRecv)]"

definition p_sfu_role :: "json \<Rightarrow> sfu_role option" where
  "p_sfu_role = p_enum [(''provider'', RoleProvider), (''requests'', RoleRequests)]"

definition parse_sfuCapabilities :: "json \<Rightarrow> unit option" where
  "parse_sfuCapabilities j = (if is_obj j then Some () else None)"

definition parse_sfuCreateTransport :: "(string \<Rightarrow> bool) \<Rightarrow> json \<Rightarrow> (direction \<times> string option) option" where
  "parse_sfuCreateTransport is_uuid j = do {
     d \<leftarrow> p_field p_direction j ''direction'';
     i \<leftarrow> p_opt (p_localMediaId is_uuid) j ''localMediaId'';
     Some (d, i) }"

definition p_fingerprint :: "json \<Rightarrow> (string \<times> string) option" where
  "p_fingerprint j = do {
     a \<leftarrow> p_field (p_str 1 32) j ''algorithm'';
     v \<leftarrow> p_field (p_str 1 256) j ''value'';
     Some (a, v) }"

definition p_dtlsParameters :: "json \<Rightarrow> (string option \<times> (string \<times> string) list) option" where
  "p_dtlsParameters j = do {
     r \<leftarrow> p_opt (p_enum [(''auto'', ''auto''), (''client'', ''client''), (''server'', ''server'')]) j ''role'';
     f \<leftarrow> p_field (p_array 1 8 p_fingerprint) j ''fingerprints'';
     Some (r, f) }"

definition parse_sfuConnectTransport ::
  "json \<Rightarrow> (string \<times> string option \<times> (string \<times> string) list) option" where
  "parse_sfuConnectTransport j = do {
     t \<leftarrow> p_field (p_str 1 128) j ''transportId'';
     d \<leftarrow> p_field p_dtlsParameters j ''dtlsParameters'';
     Some (t, d) }"

record sctp_parameters =
  sc_streamId :: nat
  sc_ordered :: "bool option"
  sc_maxPacketLifeTime :: "nat option"
  sc_maxRetransmits :: "nat option"

definition p_sctpParameters :: "json \<Rightarrow> sctp_parameters option" where
  "p_sctpParameters j = do {
     i \<leftarrow> p_field (p_nat_range 0 65535) j ''streamId'';
     b \<leftarrow> p_opt p_bool j ''ordered'';
     l \<leftarrow> p_opt (p_nat_range 0 65535) j ''maxPacketLifeTime'';
     r \<leftarrow> p_opt (p_nat_range 0 65535) j ''maxRetransmits'';
     Some \<lparr>sc_streamId = i, sc_ordered = b, sc_maxPacketLifeTime = l, sc_maxRetransmits = r\<rparr> }"

record produce_data =
  pd_transportId :: string
  pd_localMediaId :: string
  pd_sctp :: sctp_parameters
  pd_label :: "string option"
  pd_protocol :: "string option"
  pd_role :: "sfu_role option"

definition parse_sfuProduceData :: "(string \<Rightarrow> bool) \<Rightarrow> json \<Rightarrow> produce_data option" where
  "parse_sfuProduceData is_uuid j = do {
     t \<leftarrow> p_field (p_str 1 128) j ''transportId'';
     i \<leftarrow> p_field (p_localMediaId is_uuid) j ''localMediaId'';
     s \<leftarrow> p_field p_sctpParameters j ''sctpStreamParameters'';
     l \<leftarrow> p_opt (p_str 0 128) j ''label'';
     p \<leftarrow> p_opt (p_str 0 128) j ''protocol'';
     r \<leftarrow> p_opt p_sfu_role j ''role'';
     Some \<lparr>pd_transportId = t, pd_localMediaId = i, pd_sctp = s, pd_label = l, pd_protocol = p, pd_role = r\<rparr> }"

definition parse_sfuConsumeData :: "(string \<Rightarrow> bool) \<Rightarrow> json \<Rightarrow> (string \<times> string \<times> string option) option" where
  "parse_sfuConsumeData is_uuid j = do {
     t \<leftarrow> p_field (p_str 1 128) j ''transportId'';
     i \<leftarrow> p_field (p_localMediaId is_uuid) j ''localMediaId'';
     d \<leftarrow> p_opt (p_str 1 128) j ''dataProducerId'';
     Some (t, i, d) }"

text \<open>A handler reads the world only for its open sockets and room members.\<close>

definition sfu_send :: "message_context \<Rightarrow> envelope \<Rightarrow> world \<Rightarrow> sfu_reply \<Rightarrow> sfu_out list" where
  "sfu_send ctx data w r =
     (if mc_ws ctx \<in> set (w_open w) then [SfuResult (mc_ws ctx) (env_requestId data) r] else [])"

definition owned_of :: "nat \<Rightarrow> sfu \<Rightarrow> string list" where
  "owned_of ws s = (case map_of (sf_owned s) ws of Some ids \<Rightarrow> ids | None \<Rightarrow> [])"

definition owns_transport :: "message_context \<Rightarrow> string \<Rightarrow> direction option \<Rightarrow> sfu \<Rightarrow> bool" where
  "owns_transport ctx tid dir s =
     (tid \<in> set (owned_of (mc_ws ctx) s) \<and>
      (case get_transport_app_data tid s of
         None \<Rightarrow> False
       | Some app \<Rightarrow> ta_roomKey app = mc_roomId ctx \<and> (dir = None \<or> ta_direction app = dir)))"

definition broadcast_producer ::
  "message_context \<Rightarrow> string \<Rightarrow> string \<Rightarrow> string \<Rightarrow> sfu_role \<Rightarrow> world \<Rightarrow> sfu_out list" where
  "broadcast_producer ctx mediaId pid owner kind w =
     map (\<lambda>ws. SfuProducerOut ws mediaId pid owner kind)
       (filter (\<lambda>ws. ws \<noteq> mc_ws ctx \<and> ws \<in> set (w_open w)) (get_sockets_for_room (mc_roomId ctx) w))"

definition broadcast_sfu_unavailable :: "string \<Rightarrow> world \<Rightarrow> sfu_out list" where
  "broadcast_sfu_unavailable reason w =
     map (\<lambda>ws. SfuUnavailable ws reason) (filter (\<lambda>ws. ws \<in> set (w_open w)) (map fst (w_sockets w)))"

definition handle_local_media_sfu_capabilities ::
  "media_lib \<Rightarrow> message_context \<Rightarrow> envelope \<Rightarrow> world \<Rightarrow> sfu \<Rightarrow> sfu \<times> sfu_out list" where
  "handle_local_media_sfu_capabilities ml ctx data w s =
     (if parse_sfuCapabilities (env_payload data) = None
      then (s, sfu_send ctx data w (SfuError ''invalid_payload''))
      else case ensure_mediasoup_runtime ml s of
             (s1, None) \<Rightarrow> (s1, sfu_send ctx data w (SfuError ''sfu_unavailable''))
           | (s1, Some _) \<Rightarrow>
               (case mediasoup_create_router ml (mc_roomId ctx) s1 of
                  (s2, Inl e) \<Rightarrow> (s2, sfu_send ctx data w (SfuError e))
                | (s2, Inr router) \<Rightarrow>
                    (s2, sfu_send ctx data w (SfuRouter router
                       (filter (\<lambda>(i, e). sp_roomId e = mc_roomId ctx) (list_provider_producers s2))))))"

definition max_transports_per_socket :: nat where "max_transports_per_socket = 4"

text \<open>
  The media named by a request must be one of the room, and its provider attached to this instance:
  an error text, or the entry (\<open>None\<close> when no media is named).
\<close>

definition room_entry :: "jsnum \<Rightarrow> message_context \<Rightarrow> string \<Rightarrow> media_store \<Rightarrow> media_store \<times> local_media_entry option" where
  "room_entry now ctx mediaId m =
     (case get_local_media_entry now mediaId m of
        (m1, Some e) \<Rightarrow> (m1, if le_roomId e = mc_roomId ctx then Some e else None)
      | (m1, None) \<Rightarrow> (m1, None))"

text \<open>A first transport gives the socket its set, with the close listener of \<open>sfu_socket_closed\<close>.\<close>

definition add_owned :: "nat \<Rightarrow> string \<Rightarrow> sfu \<Rightarrow> sfu" where
  "add_owned ws tid s = s\<lparr>sf_owned := AList.update ws (List.insert tid (owned_of ws s)) (sf_owned s)\<rparr>"

definition open_transport ::
  "media_lib \<Rightarrow> message_context \<Rightarrow> envelope \<Rightarrow> direction \<Rightarrow> string option \<Rightarrow> world \<Rightarrow> sfu \<Rightarrow> sfu \<times> sfu_out list" where
  "open_transport ml ctx data dir mediaId w s =
     (if length (owned_of (mc_ws ctx) s) \<ge> max_transports_per_socket
      then (s, sfu_send ctx data w (SfuError ''too_many_transports''))
      else case mediasoup_create_transport ml \<lparr>ta_roomKey = mc_roomId ctx, ta_userId = Some (mc_userId ctx),
                  ta_direction = Some dir, ta_localMediaId = mediaId\<rparr> s of
             (s1, Inl e) \<Rightarrow> (s1, sfu_send ctx data w (SfuError e))
           | (s1, Inr tid) \<Rightarrow>
               if mc_ws ctx \<notin> set (w_open w)
               then (mediasoup_close_transport ml tid s1, sfu_send ctx data w (SfuError ''socket_closed''))
               else (add_owned (mc_ws ctx) tid s1, sfu_send ctx data w (SfuTransport tid)))"

definition handle_local_media_sfu_create_transport ::
  "media_lib \<Rightarrow> (string \<Rightarrow> bool) \<Rightarrow> jsnum \<Rightarrow> message_context \<Rightarrow> envelope \<Rightarrow> world \<Rightarrow> media_store \<times> sfu
     \<Rightarrow> (media_store \<times> sfu) \<times> sfu_out list" where
  "handle_local_media_sfu_create_transport ml is_uuid now ctx data w ms =
     (case ms of (m, s) \<Rightarrow>
      case parse_sfuCreateTransport is_uuid (env_payload data) of
        None \<Rightarrow> (ms, sfu_send ctx data w (SfuError ''invalid_payload''))
      | Some (dir, None) \<Rightarrow> (case open_transport ml ctx data dir None w s of (s1, out) \<Rightarrow> ((m, s1), out))
      | Some (dir, Some mediaId) \<Rightarrow>
          (case room_entry now ctx mediaId m of
             (m1, None) \<Rightarrow> ((m1, s), sfu_send ctx data w (SfuError ''media_not_found''))
           | (m1, Some e) \<Rightarrow>
               (case assert_provider_node_affinity (le_providerNodeId e) s of
                  Some err \<Rightarrow> ((m1, s), sfu_send ctx data w (SfuError err))
                | None \<Rightarrow> (case open_transport ml ctx data dir (Some mediaId) w s of (s1, out) \<Rightarrow> ((m1, s1), out)))))"

definition handle_local_media_sfu_connect_transport ::
  "media_lib \<Rightarrow> message_context \<Rightarrow> envelope \<Rightarrow> world \<Rightarrow> sfu \<Rightarrow> sfu \<times> sfu_out list" where
  "handle_local_media_sfu_connect_transport ml ctx data w s =
     (case parse_sfuConnectTransport (env_payload data) of
        None \<Rightarrow> (s, sfu_send ctx data w (SfuError ''invalid_payload''))
      | Some (tid, dtls) \<Rightarrow>
          if \<not> owns_transport ctx tid None s
          then (s, sfu_send ctx data w (SfuError ''transport_not_found''))
          else (case mediasoup_connect_transport ml tid s of
                  (s1, Some e) \<Rightarrow> (s1, sfu_send ctx data w (SfuError e))
                | (s1, None) \<Rightarrow> (s1, sfu_send ctx data w SfuConnected)))"

text \<open>
  A send that throws after the producer was made closes just this producer;
  \<open>ml_sendError\<close> gives how many of the messages were out by then and the error text.
\<close>

definition announce_producer ::
  "media_lib \<Rightarrow> message_context \<Rightarrow> envelope \<Rightarrow> string \<Rightarrow> local_media_entry \<Rightarrow> sfu_role \<Rightarrow> string \<Rightarrow> world \<Rightarrow> sfu
     \<Rightarrow> sfu \<times> sfu_out list" where
  "announce_producer ml ctx data mediaId entry role pid w s =
     (let out = broadcast_producer ctx mediaId pid (le_ownerUserId entry) role w;
          requests = (if role = RoleProvider
                      then Some (map sp_dataProducerId (filter (\<lambda>p. sp_roomId p = mc_roomId ctx)
                             (list_request_producers mediaId s)))
                      else None)
      in case ml_sendError ml of
           None \<Rightarrow> (s, out @ sfu_send ctx data w (SfuProduced pid requests))
         | Some (n, e) \<Rightarrow>
             (sfu_close_data_producer ml pid s, take n out @ sfu_send ctx data w (SfuError e)))"

definition handle_local_media_sfu_produce_data ::
  "media_lib \<Rightarrow> (string \<Rightarrow> bool) \<Rightarrow> jsnum \<Rightarrow> message_context \<Rightarrow> envelope \<Rightarrow> world \<Rightarrow> media_store \<times> sfu
     \<Rightarrow> (media_store \<times> sfu) \<times> sfu_out list" where
  "handle_local_media_sfu_produce_data ml is_uuid now ctx data w ms =
     (case ms of (m, s) \<Rightarrow>
      case parse_sfuProduceData is_uuid (env_payload data) of
        None \<Rightarrow> (ms, sfu_send ctx data w (SfuError ''invalid_payload''))
      | Some d \<Rightarrow>
          let role = (case pd_role d of Some r \<Rightarrow> r | None \<Rightarrow> RoleProvider) in
          if \<not> owns_transport ctx (pd_transportId d) (Some DSend) s
          then (ms, sfu_send ctx data w (SfuError ''transport_not_found''))
          else case room_entry now ctx (pd_localMediaId d) m of
                 (m1, None) \<Rightarrow> ((m1, s), sfu_send ctx data w (SfuError ''media_not_found''))
               | (m1, Some e) \<Rightarrow>
                   if role = RoleProvider \<and> le_ownerUserId e \<noteq> mc_userId ctx
                   then ((m1, s), sfu_send ctx data w (SfuError ''not_owner''))
                   else case assert_provider_node_affinity (le_providerNodeId e) s of
                          Some err \<Rightarrow> ((m1, s), sfu_send ctx data w (SfuError err))
                        | None \<Rightarrow>
                            (case mediasoup_produce_data ml (pd_transportId d)
                                    \<lparr>pa_localMediaId = Some (pd_localMediaId d), pa_roomId = Some (mc_roomId ctx),
                                      pa_ownerUserId = Some (le_ownerUserId e), pa_userId = Some (mc_userId ctx),
                                      pa_role = Some role\<rparr> s of
                               (s1, Inl err) \<Rightarrow> ((m1, s1), sfu_send ctx data w (SfuError err))
                             | (s1, Inr pid) \<Rightarrow>
                                 (case announce_producer ml ctx data (pd_localMediaId d) e role pid w s1 of
                                    (s2, out) \<Rightarrow> ((m1, s2), out))))"

text \<open>The channel a viewer or the owner may read: an error text or the id of its producer.\<close>

definition consumable_producer ::
  "message_context \<Rightarrow> string \<Rightarrow> string option \<Rightarrow> sfu \<Rightarrow> string + string" where
  "consumable_producer ctx mediaId wanted s =
     (case wanted of
        Some pid \<Rightarrow>
          (case get_data_producer_app_data pid s of
             None \<Rightarrow> Inl ''producer_not_found''
           | Some app \<Rightarrow>
               if pa_role app \<noteq> Some RoleRequests \<or> pa_roomId app \<noteq> Some (mc_roomId ctx) \<or>
                  pa_localMediaId app \<noteq> Some mediaId \<or> pa_ownerUserId app \<noteq> Some (mc_userId ctx)
               then Inl ''producer_not_found'' else Inr pid)
      | None \<Rightarrow>
          (case get_provider_producer mediaId s of
             None \<Rightarrow> Inl ''no_producer''
           | Some p \<Rightarrow> if sp_roomId p \<noteq> mc_roomId ctx then Inl ''no_producer'' else Inr (sp_dataProducerId p)))"

definition handle_local_media_sfu_consume_data ::
  "media_lib \<Rightarrow> (string \<Rightarrow> bool) \<Rightarrow> jsnum \<Rightarrow> message_context \<Rightarrow> envelope \<Rightarrow> world \<Rightarrow> media_store \<times> sfu
     \<Rightarrow> (media_store \<times> sfu) \<times> sfu_out list" where
  "handle_local_media_sfu_consume_data ml is_uuid now ctx data w ms =
     (case ms of (m, s) \<Rightarrow>
      case parse_sfuConsumeData is_uuid (env_payload data) of
        None \<Rightarrow> (ms, sfu_send ctx data w (SfuError ''invalid_payload''))
      | Some (tid, mediaId, wanted) \<Rightarrow>
          if \<not> owns_transport ctx tid (Some DRecv) s
          then (ms, sfu_send ctx data w (SfuError ''transport_not_found''))
          else case room_entry now ctx mediaId m of
                 (m1, None) \<Rightarrow> ((m1, s), sfu_send ctx data w (SfuError ''media_not_found''))
               | (m1, Some e) \<Rightarrow>
                   (case assert_provider_node_affinity (le_providerNodeId e) s of
                      Some err \<Rightarrow> ((m1, s), sfu_send ctx data w (SfuError err))
                    | None \<Rightarrow>
                        (case consumable_producer ctx mediaId wanted s of
                           Inl err \<Rightarrow> ((m1, s), sfu_send ctx data w (SfuError err))
                         | Inr pid \<Rightarrow>
                             (case mediasoup_consume_data ml tid pid s of
                                (s1, Inl err) \<Rightarrow> ((m1, s1), sfu_send ctx data w (SfuError err))
                              | (s1, Inr cid) \<Rightarrow> ((m1, s1), sfu_send ctx data w (SfuConsumed cid pid))))))"

text \<open>The close listener of a socket that ever asked for a transport.\<close>

definition sfu_socket_closed :: "media_lib \<Rightarrow> nat \<Rightarrow> sfu \<Rightarrow> sfu" where
  "sfu_socket_closed ml ws s =
     (case map_of (sf_owned s) ws of
        None \<Rightarrow> s
      | Some ids \<Rightarrow>
          let s1 = fold (mediasoup_close_transport ml) ids s
          in s1\<lparr>sf_owned := AList.update ws [] (sf_owned s1)\<rparr>)"

section \<open>Closing only removes\<close>

definition shrinks :: "runtime \<Rightarrow> runtime \<Rightarrow> bool" where
  "shrinks rt rt' =
     (rt_routers rt' = rt_routers rt \<and> set (rt_transports rt') \<subseteq> set (rt_transports rt) \<and>
      set (rt_dataProducers rt') \<subseteq> set (rt_dataProducers rt) \<and> set (rt_providers rt') \<subseteq> set (rt_providers rt) \<and>
      (\<forall>i by'. (i, by') \<in> set (rt_requests rt') \<longrightarrow>
         (\<exists>by. (i, by) \<in> set (rt_requests rt) \<and> set by' \<subseteq> set by)))"

lemma shrinks_refl [simp]: "shrinks rt rt"
  by (auto simp: shrinks_def)

lemma shrinks_trans: "shrinks a b \<Longrightarrow> shrinks b c \<Longrightarrow> shrinks a c"
  unfolding shrinks_def by (metis (no_types, lifting) subset_trans)

lemma set_delete_subset: "set (AList.delete k xs) \<subseteq> set xs"
  by (auto simp: AList.delete_eq)

lemma set_update_subset: "set (AList.update k v xs) \<subseteq> insert (k, v) (set xs)"
  by (induction xs) auto

lemma shrinks_requests:
  assumes "shrinks rt rt'" "(i, by') \<in> set (rt_requests rt')" "x \<in> set by'"
  shows "\<exists>by. (i, by) \<in> set (rt_requests rt) \<and> x \<in> set by"
  using assms unfolding shrinks_def by blast

lemma producer_closed_shrinks: "shrinks rt (producer_closed pid rt)"
proof (cases "map_of (rt_dataProducers rt) pid")
  case (Some app)
  have "shrinks rt (rt\<lparr>rt_dataProducers := ds, rt_requests := AList.update i (AList.delete pid byp) (rt_requests rt)\<rparr>)"
    if "map_of (rt_requests rt) i = Some byp" "set ds \<subseteq> set (rt_dataProducers rt)" for i byp ds
    using that map_of_SomeD [OF that(1)]
    by (auto simp: shrinks_def dest!: subsetD [OF set_update_subset] subsetD [OF set_delete_subset] intro: exI [of _ byp])
  moreover have "shrinks rt (rt\<lparr>rt_dataProducers := ds, rt_requests := AList.delete i (rt_requests rt)\<rparr>)"
    "shrinks rt (rt\<lparr>rt_dataProducers := ds, rt_providers := AList.delete i (rt_providers rt)\<rparr>)"
    "shrinks rt (rt\<lparr>rt_dataProducers := ds\<rparr>)"
    if "set ds \<subseteq> set (rt_dataProducers rt)" for i ds
    using that by (auto simp: shrinks_def AList.delete_eq)
  ultimately show ?thesis
    using Some set_delete_subset [of pid "rt_dataProducers rt"] by (simp add: producer_closed_def Let_def split: option.split)
qed (simp add: producer_closed_def)

lemma consumers_closed_shrinks [simp]: "shrinks rt (consumers_closed cs rt)"
  by (auto simp: shrinks_def consumers_closed_def)

lemma close_data_producer_shrinks: "shrinks rt (close_data_producer ml pid rt)"
  using shrinks_trans [OF producer_closed_shrinks consumers_closed_shrinks]
  by (simp add: close_data_producer_def)

lemma fold_shrinks: "(\<And>x rt. x \<in> set xs \<Longrightarrow> shrinks rt (f x rt)) \<Longrightarrow> shrinks rt (fold f xs rt)"
  by (induction xs arbitrary: rt) (auto intro: shrinks_trans)

lemma close_transport_shrinks: "shrinks rt (close_transport_objects ml tid rt)"
proof -
  have "shrinks rt (rt\<lparr>rt_transports := AList.delete tid (rt_transports rt)\<rparr>)"
    by (auto simp: shrinks_def AList.delete_eq)
  then show ?thesis
    unfolding close_transport_objects_def
    by (auto intro!: shrinks_trans [OF _ consumers_closed_shrinks] elim!: shrinks_trans intro: fold_shrinks close_data_producer_shrinks)
qed

lemma clear_producer_shrinks: "shrinks rt (clear_local_media_sfu_producer ml i rt)"
proof -
  let ?rt1 = "rt\<lparr>rt_providers := AList.delete i (rt_providers rt)\<rparr>"
  let ?rt2 = "case map_of (rt_providers rt) i of None \<Rightarrow> ?rt1 | Some e \<Rightarrow> close_data_producer ml (sp_dataProducerId e) ?rt1"
  have drop: "shrinks r (r\<lparr>rt_requests := AList.delete i (rt_requests r)\<rparr>)" for r
    by (auto simp: shrinks_def AList.delete_eq)
  have "shrinks rt ?rt1" by (auto simp: shrinks_def AList.delete_eq)
  then have "shrinks rt ?rt2"
    by (auto intro: shrinks_trans close_data_producer_shrinks split: option.split)
  then have "shrinks rt (?rt2\<lparr>rt_requests := AList.delete i (rt_requests ?rt2)\<rparr>)" using drop shrinks_trans by blast
  then show ?thesis
    unfolding clear_local_media_sfu_producer_def Let_def
    using shrinks_trans [OF _ fold_shrinks [OF close_data_producer_shrinks]]
    by (cases "map_of (rt_requests ?rt2) i") simp_all
qed

lemma close_room_request_shrinks: "shrinks rt (close_room_request ml r i pe rt)"
proof -
  have "shrinks rt (rt\<lparr>rt_requests := adjust i (AList.delete k) (rt_requests rt)\<rparr>)" for k
    by (auto simp: shrinks_def adjust_def AList.delete_eq split: if_splits)
  then show ?thesis
    by (auto simp: close_room_request_def intro: shrinks_trans close_data_producer_shrinks)
qed

lemma close_room_requests_shrinks: "shrinks rt (close_room_requests ml r mb rt)"
proof -
  have "shrinks rt (fold (close_room_request ml r (fst mb)) (snd mb) rt)"
    by (rule fold_shrinks) (rule close_room_request_shrinks)
  moreover have "shrinks rt' (rt'\<lparr>rt_requests := AList.delete i (rt_requests rt')\<rparr>)" for rt' i
    by (auto simp: shrinks_def AList.delete_eq)
  ultimately show ?thesis
    unfolding close_room_requests_def Let_def by (simp split: if_split) (blast intro: shrinks_trans)
qed

section \<open>A closed room\<close>

text \<open>A property that one step of a fold establishes for its element and the other steps keep.\<close>

lemma fold_establishes:
  assumes "\<And>x s. x \<in> set xs \<Longrightarrow> Q x (f x s)" "\<And>x y s. y \<in> set xs \<Longrightarrow> Q x s \<Longrightarrow> Q x (f y s)" "x \<in> set xs"
  shows "Q x (fold f xs s)"
proof -
  have keep: "Q x s \<Longrightarrow> set ys \<subseteq> set xs \<Longrightarrow> Q x (fold f ys s)" for ys s
    by (induction ys arbitrary: s) (simp_all add: assms(2))
  have "set ys \<subseteq> set xs \<Longrightarrow> x \<in> set ys \<Longrightarrow> Q x (fold f ys s)" for ys
  proof (induction ys arbitrary: s)
    case (Cons y ys)
    then show ?case using keep assms(1,3) by (cases "x \<in> set ys") auto
  qed simp
  with assms(3) show ?thesis by simp
qed

definition no_provider :: "string \<Rightarrow> runtime \<Rightarrow> bool" where
  "no_provider r rt = (\<forall>(i, e)\<in>set (rt_providers rt). sp_roomId e \<noteq> r)"

definition no_request :: "string \<Rightarrow> runtime \<Rightarrow> bool" where
  "no_request r rt = (\<forall>(i, by)\<in>set (rt_requests rt). \<forall>(pid, e)\<in>set by. sp_roomId e \<noteq> r)"

definition no_transport :: "string \<Rightarrow> runtime \<Rightarrow> bool" where
  "no_transport r rt = (\<forall>(tid, app)\<in>set (rt_transports rt). ta_roomKey app \<noteq> r)"

lemma shrinks_no:
  assumes "shrinks rt rt'"
  shows "no_provider r rt \<Longrightarrow> no_provider r rt'" "no_request r rt \<Longrightarrow> no_request r rt'"
    "no_transport r rt \<Longrightarrow> no_transport r rt'"
  using assms unfolding shrinks_def no_provider_def no_request_def no_transport_def by fastforce+

lemma clear_removes_provider: "(i, e) \<notin> set (rt_providers (clear_local_media_sfu_producer ml i rt))"
proof -
  let ?rt1 = "rt\<lparr>rt_providers := AList.delete i (rt_providers rt)\<rparr>"
  let ?rt2 = "case map_of (rt_providers rt) i of None \<Rightarrow> ?rt1 | Some e \<Rightarrow> close_data_producer ml (sp_dataProducerId e) ?rt1"
  let ?rt3 = "?rt2\<lparr>rt_requests := AList.delete i (rt_requests ?rt2)\<rparr>"
  have "shrinks ?rt1 ?rt2" by (simp add: close_data_producer_shrinks split: option.split)
  then have "(i, e) \<notin> set (rt_providers ?rt3)"
    by (auto simp: shrinks_def AList.delete_eq)
  moreover have "shrinks ?rt3 (clear_local_media_sfu_producer ml i rt)"
    unfolding clear_local_media_sfu_producer_def Let_def
    by (auto intro: fold_shrinks close_data_producer_shrinks split: option.split)
  ultimately show ?thesis by (auto simp: shrinks_def)
qed

lemma registries_shrink: "shrinks rt (close_room_registries ml r rt)"
proof -
  have "shrinks rt (fold (\<lambda>(i, e). if sp_roomId e = r then clear_local_media_sfu_producer ml i else id) (rt_providers rt) rt)"
    by (rule fold_shrinks) (auto intro: clear_producer_shrinks)
  then show ?thesis
    unfolding close_room_registries_def Let_def
    by (rule shrinks_trans) (rule fold_shrinks, rule close_room_requests_shrinks)
qed

lemma registries_no_provider: "no_provider r (close_room_registries ml r rt)"
proof -
  let ?f = "\<lambda>(i, e). if sp_roomId e = r then clear_local_media_sfu_producer ml i else id"
  let ?rt1 = "fold ?f (rt_providers rt) rt"
  let ?Q = "\<lambda>x rt'. sp_roomId (snd x) = r \<longrightarrow> x \<notin> set (rt_providers rt')"
  have sub: "shrinks rt' (?f x rt')" for x rt' by (auto simp: split_def intro: clear_producer_shrinks)
  have "?Q x ?rt1" if "x \<in> set (rt_providers rt)" for x
    using that
  proof (rule fold_establishes [where Q = ?Q, rotated -1])
    show "?Q x (?f x rt')" for x rt' using clear_removes_provider by (cases x) auto
    show "?Q x (?f y rt')" if "?Q x rt'" for x y rt' using sub [of rt' y] that by (auto simp: shrinks_def)
  qed
  moreover have "shrinks rt ?rt1" by (rule fold_shrinks) (rule sub)
  ultimately have "no_provider r ?rt1" by (fastforce simp: no_provider_def shrinks_def)
  then show ?thesis
    unfolding close_room_registries_def Let_def
    by (rule shrinks_no(1) [rotated]) (rule fold_shrinks, rule close_room_requests_shrinks)
qed


definition request_gone :: "string \<Rightarrow> string \<Rightarrow> runtime \<Rightarrow> bool" where
  "request_gone i pid rt = (\<forall>byp e. (i, byp) \<in> set (rt_requests rt) \<longrightarrow> (pid, e) \<notin> set byp)"

lemma shrinks_gone: "shrinks rt rt' \<Longrightarrow> request_gone i pid rt \<Longrightarrow> request_gone i pid rt'"
  unfolding request_gone_def using shrinks_requests by blast

lemma close_request_gone: "sp_roomId e = r \<Longrightarrow> request_gone i pid (close_room_request ml r i (pid, e) rt)"
proof -
  have "request_gone i pid (rt\<lparr>rt_requests := adjust i (AList.delete pid) (rt_requests rt)\<rparr>)"
    by (auto simp: request_gone_def adjust_def AList.delete_eq split: if_splits)
  then show "sp_roomId e = r \<Longrightarrow> ?thesis"
    by (simp add: close_room_request_def shrinks_gone [OF close_data_producer_shrinks])
qed

lemma close_requests_gone:
  assumes "(pid, e) \<in> set (snd mb)" "sp_roomId e = r"
  shows "request_gone (fst mb) pid (close_room_requests ml r mb rt)"
proof -
  let ?rt1 = "fold (close_room_request ml r (fst mb)) (snd mb) rt"
  let ?Q = "\<lambda>x rt'. sp_roomId (snd x) = r \<longrightarrow> request_gone (fst mb) (fst x) rt'"
  have "?Q (pid, e) ?rt1"
    using assms(1)
  proof (rule fold_establishes [where Q = ?Q, rotated -1])
    show "?Q x (close_room_request ml r (fst mb) x rt')" for x rt' using close_request_gone by (cases x) auto
    show "?Q x (close_room_request ml r (fst mb) y rt')" if "?Q x rt'" for x y rt'
      using that shrinks_gone [OF close_room_request_shrinks] by blast
  qed
  moreover have "shrinks ?rt1 (?rt1\<lparr>rt_requests := AList.delete (fst mb) (rt_requests ?rt1)\<rparr>)"
    by (auto simp: shrinks_def AList.delete_eq)
  ultimately show ?thesis
    using assms(2) shrinks_gone unfolding close_room_requests_def Let_def by (auto split: if_split)
qed

lemma registries_no_request: "no_request r (close_room_registries ml r rt)"
proof -
  define rt1 where "rt1 = fold (\<lambda>(i, e). if sp_roomId e = r then clear_local_media_sfu_producer ml i else id) (rt_providers rt) rt"
  define rt2 where "rt2 = fold (close_room_requests ml r) (rt_requests rt1) rt1"
  let ?Q = "\<lambda>mb rt'. \<forall>(pid, e)\<in>set (snd mb). sp_roomId e = r \<longrightarrow> request_gone (fst mb) pid rt'"
  have gone: "?Q mb rt2" if "mb \<in> set (rt_requests rt1)" for mb
    unfolding rt2_def using that
  proof (rule fold_establishes [where Q = ?Q, rotated -1])
    show "?Q x (close_room_requests ml r x rt')" for x rt' using close_requests_gone [of _ _ x r ml rt'] by blast
    show "?Q x (close_room_requests ml r y rt')" if "?Q x rt'" for x y rt'
      using that shrinks_gone [OF close_room_requests_shrinks, of _ _ rt' ml r y] by blast
  qed
  have sub: "shrinks rt1 rt2" unfolding rt2_def by (rule fold_shrinks) (rule close_room_requests_shrinks)
  have "sp_roomId e \<noteq> r" if byp': "(i, byp') \<in> set (rt_requests rt2)" "(pid, e) \<in> set byp'" for i byp' pid e
  proof
    assume r: "sp_roomId e = r"
    obtain byp where b: "(i, byp) \<in> set (rt_requests rt1)" "(pid, e) \<in> set byp"
      using shrinks_requests [OF sub byp'] by blast
    with gone [OF b(1)] r have "request_gone i pid rt2" by auto
    with byp' show False unfolding request_gone_def by blast
  qed
  then show ?thesis unfolding no_request_def close_room_registries_def Let_def rt1_def [symmetric] rt2_def [symmetric] by blast
qed

lemma close_transport_runtime:
  "sf_runtime (mediasoup_close_transport ml tid s) = map_option (close_transport_objects ml tid) (sf_runtime s)"
  by (simp add: mediasoup_close_transport_def disown_def close_transport_objects_def split: option.split)

lemma close_transport_gone: "(tid, app) \<notin> set (rt_transports (close_transport_objects ml tid rt))"
proof (cases "map_of (rt_transports rt) tid")
  case None
  then show ?thesis by (auto simp: close_transport_objects_def map_of_eq_None_iff image_iff)
next
  case (Some a)
  let ?rt1 = "rt\<lparr>rt_transports := AList.delete tid (rt_transports rt)\<rparr>"
  have "shrinks ?rt1 (close_transport_objects ml tid rt)"
    unfolding close_transport_objects_def using Some
    by (auto intro!: shrinks_trans [OF _ consumers_closed_shrinks] fold_shrinks close_data_producer_shrinks)
  then show ?thesis by (auto simp: shrinks_def AList.delete_eq)
qed

lemma fold_close_transports_runtime:
  "sf_runtime (fold (\<lambda>(tid, app). if P app then mediasoup_close_transport ml tid else id) ts s) =
     map_option (fold (\<lambda>(tid, app). if P app then close_transport_objects ml tid else id) ts) (sf_runtime s)"
proof (induction ts arbitrary: s)
  case (Cons t ts)
  then show ?case by (cases t; cases "sf_runtime s") (simp_all add: close_transport_runtime)
qed (simp add: id_def option.map_ident)

lemma close_room_runtime:
  assumes "sf_runtime s = Some rt"
  obtains rt' where "sf_runtime (mediasoup_close_room ml r s) = Some rt'" 
    "shrinks rt (rt'\<lparr>rt_routers := rt_routers rt\<rparr>)" "rt_routers rt' = AList.delete r (rt_routers rt)"
    "no_provider r rt'" "no_request r rt'" "no_transport r rt'"
proof -
  define rt1 where "rt1 = close_room_registries ml r rt"
  let ?f = "\<lambda>(tid, app). if ta_roomKey app = r then close_transport_objects ml tid else id"
  define rt2 where "rt2 = fold ?f (rt_transports rt1) rt1"
  let ?rt3 = "rt2\<lparr>rt_routers := AList.delete r (rt_routers rt2)\<rparr>"
  have res: "sf_runtime (mediasoup_close_room ml r s) = Some ?rt3"
    using assms by (simp add: mediasoup_close_room_def Let_def fold_close_transports_runtime rt1_def rt2_def)
  have step: "shrinks x (?f t x)" for t x by (cases t) (simp add: close_transport_shrinks)
  have s12: "shrinks rt1 rt2" unfolding rt2_def by (rule fold_shrinks) (rule step)
  have s02: "shrinks rt rt2" by (rule shrinks_trans [OF _ s12]) (simp add: rt1_def registries_shrink)
  let ?Q = "\<lambda>t x. ta_roomKey (snd t) = r \<longrightarrow> t \<notin> set (rt_transports x)"
  have "?Q t rt2" if "t \<in> set (rt_transports rt1)" for t
    unfolding rt2_def using that
  proof (rule fold_establishes [where Q = ?Q, rotated -1])
    show "?Q x (?f x y)" for x y using close_transport_gone by (cases x) auto
    show "?Q x (?f y z)" if "?Q x z" for x y z using step [of z y] that by (auto simp: shrinks_def)
  qed
  then have t: "no_transport r rt2" using s12 unfolding shrinks_def no_transport_def by fastforce
  have p: "no_provider r rt2" "no_request r rt2"
    using shrinks_no [OF s12] registries_no_provider registries_no_request by (simp_all add: rt1_def)
  have "shrinks rt (?rt3\<lparr>rt_routers := rt_routers rt\<rparr>)" using s02 by (auto simp: shrinks_def)
  moreover have "rt_routers ?rt3 = AList.delete r (rt_routers rt)" using s02 by (simp add: shrinks_def)
  moreover have "no_provider r ?rt3" "no_request r ?rt3" "no_transport r ?rt3"
    using p t by (simp_all add: no_provider_def no_request_def no_transport_def)
  ultimately show thesis using that res by simp
qed


section \<open>Reachable states\<close>

text \<open>
  A registered channel is a live producer with the data the registry says, and a provider channel
  was made by the owner of the file.
\<close>

definition channel_ok :: "sfu_role \<Rightarrow> string \<Rightarrow> sfu_producer \<Rightarrow> runtime \<Rightarrow> bool" where
  "channel_ok role i e rt =
     (i \<noteq> [] \<and> (\<exists>u. map_of (rt_dataProducers rt) (sp_dataProducerId e) =
        Some \<lparr>pa_localMediaId = Some i, pa_roomId = Some (sp_roomId e), pa_ownerUserId = Some (sp_ownerUserId e),
              pa_userId = u, pa_role = Some role\<rparr>))"

definition registry_ok :: "runtime \<Rightarrow> bool" where
  "registry_ok rt =
     ((\<forall>i e. map_of (rt_providers rt) i = Some e \<longrightarrow> channel_ok RoleProvider i e rt) \<and>
      (\<forall>i byp pid e. map_of (rt_requests rt) i = Some byp \<longrightarrow> map_of byp pid = Some e \<longrightarrow>
         sp_dataProducerId e = pid \<and> channel_ok RoleRequests i e rt) \<and>
      (\<forall>pid app. map_of (rt_dataProducers rt) pid = Some app \<longrightarrow>
         pa_role app = Some RoleProvider \<longrightarrow> pa_userId app = pa_ownerUserId app))"

definition sfu_ok :: "sfu \<Rightarrow> bool" where
  "sfu_ok s = ((\<forall>rt. sf_runtime s = Some rt \<longrightarrow> registry_ok rt) \<and>
     (\<forall>ws. length (owned_of ws s) \<le> max_transports_per_socket))"

lemma registry_okD:
  assumes "registry_ok rt"
  shows "map_of (rt_providers rt) i = Some e \<Longrightarrow> channel_ok RoleProvider i e rt"
    "map_of (rt_requests rt) i = Some byp \<Longrightarrow> map_of byp pid = Some e \<Longrightarrow> sp_dataProducerId e = pid \<and> channel_ok RoleRequests i e rt"
    "map_of (rt_dataProducers rt) pid = Some app \<Longrightarrow> pa_role app = Some RoleProvider \<Longrightarrow> pa_userId app = pa_ownerUserId app"
  using assms unfolding registry_ok_def by blast+

text \<open>Fewer entries over the same producers are still in order.\<close>

lemma registry_ok_less:
  assumes "registry_ok rt" "rt_dataProducers rt' = rt_dataProducers rt"
    and "\<And>i e. map_of (rt_providers rt') i = Some e \<Longrightarrow> map_of (rt_providers rt) i = Some e"
    and "\<And>i byp' pid e. map_of (rt_requests rt') i = Some byp' \<Longrightarrow> map_of byp' pid = Some e \<Longrightarrow>
      \<exists>byp. map_of (rt_requests rt) i = Some byp \<and> map_of byp pid = Some e"
  shows "registry_ok rt'"
proof -
  have c: "channel_ok role i e rt' = channel_ok role i e rt" for role i e
    using assms(2) by (simp add: channel_ok_def)
  show ?thesis
    unfolding registry_ok_def c assms(2) using registry_okD [OF assms(1)] assms(3,4) by blast
qed

lemma channel_okD:
  assumes "channel_ok role i e rt"
  obtains app where "map_of (rt_dataProducers rt) (sp_dataProducerId e) = Some app" "pa_localMediaId app = Some i"
    "pa_role app = Some role" "pa_roomId app = Some (sp_roomId e)" "pa_ownerUserId app = Some (sp_ownerUserId e)" "i \<noteq> []"
  using assms by (auto simp: channel_ok_def)

lemma producer_closed_ok:
  assumes "registry_ok rt" shows "registry_ok (producer_closed pid rt)"
proof (cases "map_of (rt_dataProducers rt) pid")
  case (Some app)
  define rt' where "rt' = producer_closed pid rt"
  have dp: "rt_dataProducers rt' = AList.delete pid (rt_dataProducers rt)"
    by (simp add: rt'_def producer_closed_def Some Let_def split: option.split)
  have keep: "channel_ok role i e rt'" if "channel_ok role i e rt" "sp_dataProducerId e \<noteq> pid" for role i e
    using that by (simp add: channel_ok_def dp)
  have prov: "channel_ok RoleProvider i e rt'" if e: "map_of (rt_providers rt') i = Some e" for i e
  proof -
    have old: "map_of (rt_providers rt) i = Some e"
      using e by (simp add: rt'_def producer_closed_def Some Let_def delete_conv' split: option.splits if_splits)
    obtain ap where ap: "map_of (rt_dataProducers rt) (sp_dataProducerId e) = Some ap" "pa_localMediaId ap = Some i"
      "pa_role ap = Some RoleProvider" "i \<noteq> []" by (rule channel_okD [OF registry_okD(1) [OF assms old]])
    have "sp_dataProducerId e \<noteq> pid"
    proof
      assume "sp_dataProducerId e = pid"
      then have "app = ap" using ap(1) Some by simp
      with e old ap Some \<open>sp_dataProducerId e = pid\<close> show False
        by (simp add: rt'_def producer_closed_def Let_def delete_conv')
    qed
    with keep registry_okD(1) [OF assms old] show ?thesis by blast
  qed
  have req: "sp_dataProducerId e = p \<and> channel_ok RoleRequests i e rt'"
    if e: "map_of (rt_requests rt') i = Some byp'" "map_of byp' p = Some e" for i byp' p e
  proof -
    obtain byp where old: "map_of (rt_requests rt) i = Some byp" "map_of byp p = Some e"
      using e by (auto simp: rt'_def producer_closed_def Some Let_def delete_conv' update_conv' split: option.splits if_splits)
    note r = registry_okD(2) [OF assms old]
    obtain ap where ap: "map_of (rt_dataProducers rt) (sp_dataProducerId e) = Some ap" "pa_localMediaId ap = Some i"
      "pa_role ap = Some RoleRequests" "i \<noteq> []" by (rule channel_okD [OF conjunct2 [OF r]])
    have "p \<noteq> pid"
    proof
      assume p: "p = pid"
      then have "app = ap" using ap(1) Some r by simp
      with e old ap Some p show False
        by (auto simp: rt'_def producer_closed_def Let_def delete_conv' update_conv' split: if_splits)
    qed
    with keep r show ?thesis by blast
  qed
  show ?thesis
    unfolding registry_ok_def rt'_def [symmetric]
    using prov req registry_okD(3) [OF assms] by (simp add: dp delete_conv')
qed (simp add: producer_closed_def assms)

lemma consumers_closed_ok: "registry_ok rt \<Longrightarrow> registry_ok (consumers_closed cs rt)"
  by (erule registry_ok_less) (simp_all add: consumers_closed_def)

lemma close_data_producer_ok: "registry_ok rt \<Longrightarrow> registry_ok (close_data_producer ml pid rt)"
  by (simp add: close_data_producer_def producer_closed_ok consumers_closed_ok)

lemma fold_registry_ok: "(\<And>x rt. registry_ok rt \<Longrightarrow> registry_ok (f x rt)) \<Longrightarrow> registry_ok rt \<Longrightarrow> registry_ok (fold f xs rt)"
  by (induction xs arbitrary: rt) simp_all

lemmas registry_folds = fold_registry_ok [OF close_data_producer_ok]

lemma close_transport_ok: "registry_ok rt \<Longrightarrow> registry_ok (close_transport_objects ml tid rt)"
proof -
  assume "registry_ok rt"
  then have "registry_ok (rt\<lparr>rt_transports := ts\<rparr>)" for ts by (rule registry_ok_less) simp_all
  then show ?thesis
    by (simp add: close_transport_objects_def \<open>registry_ok rt\<close> consumers_closed_ok registry_folds)
qed

lemma clear_producer_ok: "registry_ok rt \<Longrightarrow> registry_ok (clear_local_media_sfu_producer ml i rt)"
proof -
  assume ok: "registry_ok rt"
  let ?rt1 = "rt\<lparr>rt_providers := AList.delete i (rt_providers rt)\<rparr>"
  let ?rt2 = "case map_of (rt_providers rt) i of None \<Rightarrow> ?rt1 | Some e \<Rightarrow> close_data_producer ml (sp_dataProducerId e) ?rt1"
  have "registry_ok ?rt1" using ok by (rule registry_ok_less) (auto simp: delete_conv' split: if_splits)
  then have "registry_ok ?rt2" by (auto intro: close_data_producer_ok split: option.split)
  then have "registry_ok (?rt2\<lparr>rt_requests := AList.delete i (rt_requests ?rt2)\<rparr>)"
    by (rule registry_ok_less) (auto simp: delete_conv' split: if_splits)
  then show ?thesis
    unfolding clear_local_media_sfu_producer_def Let_def
    by (cases "map_of (rt_requests ?rt2) i") (simp_all add: registry_folds)
qed

lemma close_room_registries_ok: "registry_ok rt \<Longrightarrow> registry_ok (close_room_registries ml r rt)"
proof -
  have one: "registry_ok (close_room_request ml r i pe rt)" if "registry_ok rt" for i pe rt
  proof -
    have "registry_ok (rt\<lparr>rt_requests := adjust i (AList.delete (fst pe)) (rt_requests rt)\<rparr>)"
      using that by (rule registry_ok_less) (auto simp: delete_conv' split: if_splits)
    with that show ?thesis by (simp add: close_room_request_def close_data_producer_ok)
  qed
  have all: "registry_ok (close_room_requests ml r mb rt)" if ok: "registry_ok rt" for mb rt
  proof -
    let ?rt1 = "fold (close_room_request ml r (fst mb)) (snd mb) rt"
    have "registry_ok ?rt1" using one ok by (rule fold_registry_ok)
    moreover then have "registry_ok (?rt1\<lparr>rt_requests := AList.delete (fst mb) (rt_requests ?rt1)\<rparr>)"
      by (rule registry_ok_less) (auto simp: delete_conv' split: if_splits)
    ultimately show ?thesis by (simp add: close_room_requests_def Let_def)
  qed
  assume "registry_ok rt"
  then have "registry_ok (fold (\<lambda>(i, e). if sp_roomId e = r then clear_local_media_sfu_producer ml i else id) (rt_providers rt) rt)"
    by (rule fold_registry_ok [rotated]) (auto intro: clear_producer_ok)
  then show ?thesis unfolding close_room_registries_def Let_def using all by (rule fold_registry_ok [rotated])
qed

text \<open>A new producer comes with an id the registry does not know.\<close>

lemma register_producer_ok:
  assumes "registry_ok rt" "map_of (rt_dataProducers rt) pid = None"
    and app: "pa_localMediaId app = Some i" "pa_roomId app = Some r" "pa_ownerUserId app = Some u" "pa_role app = Some role"
    and "role = RoleProvider \<Longrightarrow> pa_userId app = Some u"
  shows "registry_ok (register_producer pid app rt)"
proof -
  let ?rt = "register_producer pid app rt"
  let ?e = "\<lparr>sp_dataProducerId = pid, sp_roomId = r, sp_ownerUserId = u\<rparr>"
  have dp: "rt_dataProducers ?rt = AList.update pid app (rt_dataProducers rt)"
    by (simp add: register_producer_def Let_def)
  have keep: "channel_ok ro j e ?rt" if "channel_ok ro j e rt" for ro j e
    using that assms(2) by (auto simp: channel_ok_def dp update_conv')
  have new: "channel_ok role i ?e ?rt" if "i \<noteq> []"
    using that app dp by (cases app) (auto simp: channel_ok_def update_conv')
  have prov: "channel_ok RoleProvider j e ?rt" if e: "map_of (rt_providers ?rt) j = Some e" for j e
  proof (cases "i \<noteq> [] \<and> role = RoleProvider \<and> j = i")
    case True
    with e app new show ?thesis by (simp add: register_producer_def Let_def update_conv')
  next
    case False
    then have "map_of (rt_providers rt) j = Some e"
      using e app by (cases role) (auto simp: register_producer_def Let_def update_conv' split: if_splits)
    then show ?thesis using keep registry_okD(1) [OF assms(1)] by blast
  qed
  have req: "sp_dataProducerId e = p \<and> channel_ok RoleRequests j e ?rt"
    if e: "map_of (rt_requests ?rt) j = Some byp" "map_of byp p = Some e" for j byp p e
  proof (cases "i \<noteq> [] \<and> role = RoleRequests \<and> j = i \<and> p = pid")
    case True
    then have "e = ?e" using e app by (auto simp: register_producer_def Let_def update_conv')
    with True new show ?thesis by simp
  next
    case False
    then obtain byp0 where "map_of (rt_requests rt) j = Some byp0" "map_of byp0 p = Some e"
      using e app by (cases role) (auto simp: register_producer_def Let_def update_conv' split: if_splits option.splits)
    then show ?thesis using keep registry_okD(2) [OF assms(1)] by blast
  qed
  show ?thesis
    unfolding registry_ok_def using prov req registry_okD(3) [OF assms(1)] assms(3-)
    by (auto simp: dp update_conv')
qed


text \<open>The ids of new objects are the library's; it never hands out one that is in use.\<close>

definition fresh_objects :: "media_lib \<Rightarrow> sfu \<Rightarrow> bool" where
  "fresh_objects ml s = (\<forall>pid. ml_producer ml = Inr pid \<longrightarrow> get_data_producer_app_data pid s = None)"

inductive sfu_reachable :: "sfu \<Rightarrow> bool" where
  start: "sfu_reachable \<lparr>sf_runtime = None, sf_owned = [], sf_node = node\<rparr>"
| boot: "sfu_reachable s \<Longrightarrow> sfu_reachable (fst (ensure_mediasoup_runtime ml s))"
| capabilities: "sfu_reachable s \<Longrightarrow> sfu_reachable (fst (handle_local_media_sfu_capabilities ml ctx data w s))"
| create: "sfu_reachable s \<Longrightarrow>
    sfu_reachable (snd (fst (handle_local_media_sfu_create_transport ml is_uuid now ctx data w (m, s))))"
| connect: "sfu_reachable s \<Longrightarrow> sfu_reachable (fst (handle_local_media_sfu_connect_transport ml ctx data w s))"
| produce: "sfu_reachable s \<Longrightarrow> fresh_objects ml s \<Longrightarrow>
    sfu_reachable (snd (fst (handle_local_media_sfu_produce_data ml is_uuid now ctx data w (m, s))))"
| consume: "sfu_reachable s \<Longrightarrow>
    sfu_reachable (snd (fst (handle_local_media_sfu_consume_data ml is_uuid now ctx data w (m, s))))"
| closed: "sfu_reachable s \<Longrightarrow> sfu_reachable (sfu_socket_closed ml ws s)"
| room: "sfu_reachable s \<Longrightarrow> sfu_reachable (mediasoup_close_room ml r s)"
| died: "sfu_reachable s \<Longrightarrow> sfu_reachable (mediasoup_worker_died observed s)"

lemma sfu_ok_runtime:
  assumes "sfu_ok s" "sf_owned s' = sf_owned s" "\<And>rt. sf_runtime s' = Some rt \<Longrightarrow> registry_ok rt"
  shows "sfu_ok s'"
  using assms by (simp add: sfu_ok_def owned_of_def)

lemma sfu_okD: "sfu_ok s \<Longrightarrow> sf_runtime s = Some rt \<Longrightarrow> registry_ok rt"
  by (simp add: sfu_ok_def)

lemma sfu_ok_set: "sfu_ok s \<Longrightarrow> registry_ok rt \<Longrightarrow> sfu_ok (s\<lparr>sf_runtime := Some rt\<rparr>)"
  by (simp add: sfu_ok_def owned_of_def)

lemma sfu_ok_map:
  "sfu_ok s \<Longrightarrow> (\<And>rt. registry_ok rt \<Longrightarrow> registry_ok (f rt)) \<Longrightarrow> sfu_ok (s\<lparr>sf_runtime := map_option f (sf_runtime s)\<rparr>)"
  by (auto simp: sfu_ok_def owned_of_def)

lemma registry_ok_empty [simp]: "registry_ok empty_runtime"
  by (simp add: registry_ok_def empty_runtime_def)

lemma ensure_ok:
  assumes "sfu_ok s" "ensure_mediasoup_runtime ml s = (s1, rto)"
  shows "sfu_ok s1" "sf_owned s1 = sf_owned s" "rto = sf_runtime s1" "\<And>rt. rto = Some rt \<Longrightarrow> registry_ok rt"
    "sf_runtime s \<noteq> None \<Longrightarrow> s1 = s"
proof -
  have s1: "s1 = s \<and> rto = sf_runtime s \<or> s1 = s\<lparr>sf_runtime := Some empty_runtime\<rparr> \<and> rto = Some empty_runtime"
    using assms(2) by (auto simp: ensure_mediasoup_runtime_def split: option.splits if_splits)
  then show ok: "sfu_ok s1" and r: "sf_owned s1 = sf_owned s" "rto = sf_runtime s1"
    using assms(1) by (auto intro: sfu_ok_runtime [OF assms(1)])
  show "\<And>rt. rto = Some rt \<Longrightarrow> registry_ok rt" using sfu_okD [OF ok] r(2) by simp
  show "sf_runtime s \<noteq> None \<Longrightarrow> s1 = s"
    using assms(2) by (auto simp: ensure_mediasoup_runtime_def split: option.splits)
qed

lemma create_router_ok:
  assumes "sfu_ok s" "mediasoup_create_router ml r s = (s1, res)"
  shows "sfu_ok s1" "sf_owned s1 = sf_owned s"
proof -
  obtain s0 rto where e: "ensure_mediasoup_runtime ml s = (s0, rto)" by force
  note ok = ensure_ok [OF assms(1) e]
  have "registry_ok (rt\<lparr>rt_routers := rs\<rparr>)" if "registry_ok rt" for rt rs
    using that by (rule registry_ok_less) simp_all
  then have "registry_ok (fst (get_or_create_router ml r rt))" if "registry_ok rt" for rt
    using that by (simp add: get_or_create_router_def split: option.split sum.split)
  then show "sfu_ok s1" "sf_owned s1 = sf_owned s"
    using assms(2) ok(1,2,4) sfu_ok_set [OF ok(1)]
    by (auto simp: mediasoup_create_router_def e split: option.splits prod.splits) (metis fst_conv)
qed

lemma create_transport_ok:
  assumes "sfu_ok s" "mediasoup_create_transport ml app s = (s1, res)"
  shows "sfu_ok s1" "sf_owned s1 = sf_owned s"
proof -
  obtain s0 r where e: "mediasoup_create_router ml (ta_roomKey app) s = (s0, r)" by force
  note ok = create_router_ok [OF assms(1) e]
  have "registry_ok (rt\<lparr>rt_transports := ts\<rparr>)" if "registry_ok rt" for rt ts
    using that by (rule registry_ok_less) simp_all
  then have "sfu_ok (s0\<lparr>sf_runtime := map_option (\<lambda>rt. rt\<lparr>rt_transports := f rt\<rparr>) (sf_runtime s0)\<rparr>)" for f
    using sfu_ok_map [OF ok(1)] by simp
  then show "sfu_ok s1" "sf_owned s1 = sf_owned s"
    using assms(2) ok by (auto simp: mediasoup_create_transport_def e split: sum.splits)
qed

lemma owned_of_disown: "owned_of ws (disown tid s) = removeAll tid (owned_of ws s)"
proof -
  have "map_of (map (\<lambda>(ws, ids). (ws, removeAll tid ids)) xs) ws = map_option (removeAll tid) (map_of xs ws)" for xs
    by (induction xs) auto
  then show ?thesis by (simp add: owned_of_def disown_def split: option.split)
qed

lemma disown_ok: "sfu_ok s \<Longrightarrow> sfu_ok (disown tid s)"
  unfolding sfu_ok_def owned_of_disown by (auto simp: disown_def intro: le_trans [OF length_removeAll_less_eq])

lemma close_transport_sfu_ok: "sfu_ok s \<Longrightarrow> sfu_ok (mediasoup_close_transport ml tid s)"
  by (auto simp: mediasoup_close_transport_def split: option.split
      intro!: disown_ok sfu_ok_set close_transport_ok dest: sfu_okD)

lemma fold_ok: "(\<And>x s. P s \<Longrightarrow> P (f x s)) \<Longrightarrow> P s \<Longrightarrow> P (fold f xs s)"
  by (induction xs arbitrary: s) simp_all

lemma open_transport_ok: "sfu_ok s \<Longrightarrow> sfu_ok (fst (open_transport ml ctx data dir mediaId w s))"
proof -
  assume ok: "sfu_ok s"
  let ?app = "\<lparr>ta_roomKey = mc_roomId ctx, ta_userId = Some (mc_userId ctx), ta_direction = Some dir, ta_localMediaId = mediaId\<rparr>"
  obtain s1 r where c: "mediasoup_create_transport ml ?app s = (s1, r)" by force
  note s1 = create_transport_ok [OF ok c]
  have "sfu_ok (add_owned (mc_ws ctx) tid s1)" if "length (owned_of (mc_ws ctx) s) < max_transports_per_socket" for tid
  proof -
    have "length (owned_of ws (add_owned (mc_ws ctx) tid s1)) \<le> max_transports_per_socket" for ws
      using that s1(2) s1(1)
      by (cases "ws = mc_ws ctx") (auto simp: add_owned_def owned_of_def update_conv' List.insert_def sfu_ok_def)
    then show ?thesis using sfu_okD [OF s1(1)] by (simp add: sfu_ok_def add_owned_def)
  qed
  then show ?thesis
    using ok s1(1) by (simp add: open_transport_def c close_transport_sfu_ok not_le split: sum.split)
qed

lemma close_room_sfu_ok:
  assumes "sfu_ok s" shows "sfu_ok (mediasoup_close_room ml r s)"
proof (cases "sf_runtime s")
  case (Some rt)
  let ?f = "\<lambda>(tid, app). if ta_roomKey app = r then mediasoup_close_transport ml tid else id"
  define s1 where "s1 = fold ?f (rt_transports (close_room_registries ml r rt)) (s\<lparr>sf_runtime := Some (close_room_registries ml r rt)\<rparr>)"
  have "sfu_ok (?f x s')" if "sfu_ok s'" for x s'
    using that by (cases x) (simp add: close_transport_sfu_ok)
  then have s1: "sfu_ok s1"
    unfolding s1_def using sfu_ok_set [OF assms close_room_registries_ok [OF sfu_okD [OF assms Some]]]
    by (rule fold_ok [where P = sfu_ok])
  have "registry_ok (rt\<lparr>rt_routers := AList.delete r (rt_routers rt)\<rparr>)" if "registry_ok rt" for rt
    using that by (rule registry_ok_less) simp_all
  from sfu_ok_map [OF s1 this] show ?thesis
    by (simp add: mediasoup_close_room_def Some Let_def s1_def)
qed (simp add: mediasoup_close_room_def assms)

lemma produce_data_ok:
  assumes "sfu_ok s" "fresh_objects ml s"
    and app: "pa_localMediaId app = Some i" "pa_roomId app = Some rm" "pa_ownerUserId app = Some u" "pa_role app = Some role"
      "role = RoleProvider \<Longrightarrow> pa_userId app = Some u"
  shows "sfu_ok (fst (mediasoup_produce_data ml tid app s))"
proof -
  obtain s0 rto where e: "ensure_mediasoup_runtime ml s = (s0, rto)" by force
  note ok = ensure_ok [OF assms(1) e]
  have "registry_ok (register_producer pid app rt)" if "rto = Some rt" "ml_producer ml = Inr pid" for rt pid
  proof (rule register_producer_ok [OF ok(4) [OF that(1)] _ app])
    show "map_of (rt_dataProducers rt) pid = None"
    proof (cases "sf_runtime s")
      case None
      with e that show ?thesis
        by (auto simp: ensure_mediasoup_runtime_def empty_runtime_def split: if_splits)
    next
      case (Some rt0)
      with ok(3,5) that(1) have "rt0 = rt" by simp
      with Some that(2) assms(2) show ?thesis
        by (simp add: fresh_objects_def get_data_producer_app_data_def)
    qed
  qed simp
  with ok show ?thesis
    by (simp add: mediasoup_produce_data_def e sfu_ok_set split: option.split sum.split)
qed

lemma announce_ok: "sfu_ok s \<Longrightarrow> sfu_ok (fst (announce_producer ml ctx data i e role pid w s))"
  by (simp add: announce_producer_def Let_def sfu_close_data_producer_def sfu_ok_map close_data_producer_ok split: option.split)

lemma produce_sfu_ok:
  assumes "sfu_ok s" "fresh_objects ml s"
  shows "sfu_ok (snd (fst (handle_local_media_sfu_produce_data ml is_uuid now ctx data w (m, s))))"
proof -
  have "sfu_ok (fst (mediasoup_produce_data ml tid \<lparr>pa_localMediaId = Some i, pa_roomId = Some rm, pa_ownerUserId = Some u,
      pa_userId = Some v, pa_role = Some role\<rparr> s))" if "role = RoleProvider \<longrightarrow> u = v" for tid i rm u v role
    by (rule produce_data_ok [OF assms, where i = i and rm = rm and u = u and role = role]) (use that in auto)
  then show ?thesis
    using assms(1) by (simp add: handle_local_media_sfu_produce_data_def Let_def split_def announce_ok split: option.split sum.split)
qed

lemma consume_data_ok: "sfu_ok s \<Longrightarrow> sfu_ok (fst (mediasoup_consume_data ml tid pid s))"
proof -
  assume s: "sfu_ok s"
  obtain s0 rto where e: "ensure_mediasoup_runtime ml s = (s0, rto)" by force
  note ok = ensure_ok [OF s e]
  have "registry_ok (rt\<lparr>rt_dataConsumers := cs\<rparr>)" if "rto = Some rt" for rt cs
    using ok(4) [OF that] by (rule registry_ok_less) simp_all
  with ok show ?thesis
    by (simp add: mediasoup_consume_data_def e sfu_ok_set split: option.split sum.split)
qed

lemma sfu_reachable_ok: "sfu_reachable s \<Longrightarrow> sfu_ok s"
proof (induction rule: sfu_reachable.induct)
  case (start node)
  show ?case by (simp add: sfu_ok_def owned_of_def)
next
  case (boot s ml)
  then show ?case using ensure_ok(1) [of s ml] by (metis prod.collapse)
next
  case (capabilities s ml ctx data w)
  obtain s1 rto where e: "ensure_mediasoup_runtime ml s = (s1, rto)" by force
  obtain s2 r where c: "mediasoup_create_router ml (mc_roomId ctx) s1 = (s2, r)" by force
  note s1 = ensure_ok(1) [OF capabilities.IH e]
  show ?case using capabilities.IH s1 create_router_ok(1) [OF s1 c]
    by (simp add: handle_local_media_sfu_capabilities_def e c split: option.split sum.split)
next
  case (create s ml is_uuid now ctx data w m)
  then show ?case
    by (simp add: handle_local_media_sfu_create_transport_def split_def open_transport_ok split: option.split)
next
  case (connect s ml ctx data w)
  then show ?case using ensure_ok(1) [OF connect.IH]
    by (auto simp: handle_local_media_sfu_connect_transport_def mediasoup_connect_transport_def split: option.splits prod.splits if_splits)
next
  case (closed s ml ws)
  have "sfu_ok (fold (mediasoup_close_transport ml) ids s)" for ids
    by (rule fold_ok [where P = sfu_ok, OF close_transport_sfu_ok closed.IH])
  moreover have "sfu_ok (s'\<lparr>sf_owned := AList.update ws [] (sf_owned s')\<rparr>)" if "sfu_ok s'" for s'
    using that by (auto simp: sfu_ok_def owned_of_def update_conv')
  ultimately show ?case
    by (simp add: sfu_socket_closed_def Let_def closed.IH split: option.split)
next
  case (died s observed)
  have "sfu_ok (s\<lparr>sf_runtime := None\<rparr>)" by (rule sfu_ok_runtime [OF died.IH]) simp_all
  then show ?case unfolding mediasoup_worker_died_def by (rule fold_ok [rotated]) (rule disown_ok)
next
  case (room s ml r)
  then show ?case by (simp add: close_room_sfu_ok)
next
  case (produce s ml is_uuid now ctx data w m)
  then show ?case by (simp add: produce_sfu_ok)
next
  case (consume s ml is_uuid now ctx data w m)
  then show ?case
    by (simp add: handle_local_media_sfu_consume_data_def split_def consume_data_ok split: option.split sum.split)
qed


section \<open>What a viewer may read\<close>

lemma owns_transport_recv: "owns_transport ctx tid dir s \<Longrightarrow> tid \<in> set (owned_of (mc_ws ctx) s)"
  by (simp add: owns_transport_def)

lemma consumable_channel:
  assumes "sfu_ok s" "consumable_producer ctx i wanted s = Inr pid"
  shows "\<exists>app. get_data_producer_app_data pid s = Some app \<and> pa_localMediaId app = Some i \<and>
     pa_roomId app = Some (mc_roomId ctx) \<and>
     (pa_role app = Some RoleProvider \<and> pa_userId app = pa_ownerUserId app \<or>
      pa_role app = Some RoleRequests \<and> pa_ownerUserId app = Some (mc_userId ctx))"
proof (cases wanted)
  case (Some x)
  with assms(2) show ?thesis
    by (auto simp: consumable_producer_def split: option.splits if_splits)
next
  case None
  then obtain p where p: "get_provider_producer i s = Some p" "sp_roomId p = mc_roomId ctx" "sp_dataProducerId p = pid"
    using assms(2) by (auto simp: consumable_producer_def split: option.splits if_splits)
  then obtain rt where rt: "sf_runtime s = Some rt" "map_of (rt_providers rt) i = Some p"
    by (cases "sf_runtime s") (auto simp: get_provider_producer_def)
  note reg = sfu_okD [OF assms(1) rt(1)]
  show ?thesis
    by (rule channel_okD [OF registry_okD(1) [OF reg rt(2)]])
      (use p rt registry_okD(3) [OF reg] in \<open>auto simp: get_data_producer_app_data_def\<close>)
qed

text \<open>
  In every reachable state of the forwarding unit a tab that is given a data consumer owns the
  receiving transport in its room, and the channel it reads belongs to that room and to the file it
  asked for: it is either the channel the owner of the file produced, or a request channel of a file
  the reader owns.
\<close>

theorem sfu_reader_gets_owner_channel:
  assumes "sfu_reachable s"
    and "handle_local_media_sfu_consume_data ml is_uuid now ctx data w (m, s) = (res, out)"
    and "SfuResult ws rid (SfuConsumed cid pid) \<in> set out"
  shows "\<exists>tid mediaId wanted app. parse_sfuConsumeData is_uuid (env_payload data) = Some (tid, mediaId, wanted) \<and>
     owns_transport ctx tid (Some DRecv) s \<and> ws = mc_ws ctx \<and>
     get_data_producer_app_data pid s = Some app \<and> pa_localMediaId app = Some mediaId \<and>
     pa_roomId app = Some (mc_roomId ctx) \<and>
     (pa_role app = Some RoleProvider \<and> pa_userId app = pa_ownerUserId app \<or>
      pa_role app = Some RoleRequests \<and> pa_ownerUserId app = Some (mc_userId ctx))"
proof -
  have "\<exists>tid mediaId wanted. parse_sfuConsumeData is_uuid (env_payload data) = Some (tid, mediaId, wanted) \<and>
     owns_transport ctx tid (Some DRecv) s \<and> ws = mc_ws ctx \<and> consumable_producer ctx mediaId wanted s = Inr pid"
    using assms(2,3)
    by (auto simp: handle_local_media_sfu_consume_data_def sfu_send_def split: option.splits prod.splits sum.splits if_splits)
  with consumable_channel [OF sfu_reachable_ok [OF assms(1)]] show ?thesis by metis
qed


definition demo_lib :: "string \<Rightarrow> media_lib" where
  "demo_lib i = \<lparr>ml_boots = True, ml_router = Inr ''rt'', ml_transport = Inr i, ml_connect = None,
     ml_producer = Inr i, ml_consumer = Inr i, ml_producersOn = (\<lambda>_. []), ml_consumersOn = (\<lambda>_. []),
     ml_consumersOf = (\<lambda>_. []), ml_sendError = None\<rparr>"

definition demo_world :: world where
  "demo_world = sample_world\<lparr>w_open := [1, 2]\<rparr>"

definition demo_message :: "(string \<times> json) list \<Rightarrow> envelope" where
  "demo_message fs = \<lparr>env_type = ''local-media:sfu'', env_requestId = None, env_payload = JObj fs\<rparr>"

definition viewer_ctx :: message_context where
  "viewer_ctx = sample_ctx\<lparr>mc_ws := 2, mc_userId := ''bob''\<rparr>"

text \<open>The owner opens a sending transport and produces; the viewer opens a receiving one.\<close>

definition demo_sending :: sfu where
  "demo_sending = snd (fst (handle_local_media_sfu_create_transport (demo_lib ''t1'') (\<lambda>_. True) 0 sample_ctx
     (demo_message [(''direction'', JStr ''send'')]) demo_world
     (sample_media [], \<lparr>sf_runtime = None, sf_owned = [], sf_node = ''n1''\<rparr>)))"

definition demo_producing :: sfu where
  "demo_producing = snd (fst (handle_local_media_sfu_produce_data (demo_lib ''p1'') (\<lambda>_. True) 0 sample_ctx
     (demo_message [(''transportId'', JStr ''t1''), (''localMediaId'', JStr ''a''),
        (''sctpStreamParameters'', JObj [(''streamId'', JNum 0)])]) demo_world (sample_media [], demo_sending)))"

definition demo_receiving :: sfu where
  "demo_receiving = snd (fst (handle_local_media_sfu_create_transport (demo_lib ''t2'') (\<lambda>_. True) 0 viewer_ctx
     (demo_message [(''direction'', JStr ''recv'')]) demo_world (sample_media [], demo_producing)))"

definition demo_consume :: envelope where
  "demo_consume = demo_message [(''transportId'', JStr ''t2''), (''localMediaId'', JStr ''a'')]"

lemmas demo_defs = demo_lib_def demo_world_def demo_message_def sample_ctx_def viewer_ctx_def
  p_field_def p_opt_def p_direction_def p_localMediaId_def p_sctpParameters_def p_nat_range_def p_index_def
  sfu_send_def owned_of_def empty_runtime_def get_local_media_entry_def sample_media_def sample_entry_def normalize_entry_def
  room_entry_def assert_provider_node_affinity_def ensure_mediasoup_runtime_def

lemma demo_sending: "demo_sending = \<lparr>sf_runtime = Some (empty_runtime\<lparr>rt_routers := [(''r'', ''rt'')],
     rt_transports := [(''t1'', \<lparr>ta_roomKey = ''r'', ta_userId = Some ''ann'', ta_direction = Some DSend, ta_localMediaId = None\<rparr>)]\<rparr>),
     sf_owned = [(1, [''t1''])], sf_node = ''n1''\<rparr>"
  by (simp add: demo_sending_def handle_local_media_sfu_create_transport_def parse_sfuCreateTransport_def demo_defs
      open_transport_def max_transports_per_socket_def mediasoup_create_transport_def mediasoup_create_router_def
      get_or_create_router_def add_owned_def)

lemma demo_producing: "demo_producing = demo_sending\<lparr>sf_runtime := Some ((the (sf_runtime demo_sending))
     \<lparr>rt_dataProducers := [(''p1'', \<lparr>pa_localMediaId = Some ''a'', pa_roomId = Some ''r'', pa_ownerUserId = Some ''ann'',
        pa_userId = Some ''ann'', pa_role = Some RoleProvider\<rparr>)],
      rt_providers := [(''a'', \<lparr>sp_dataProducerId = ''p1'', sp_roomId = ''r'', sp_ownerUserId = ''ann''\<rparr>)]\<rparr>)\<rparr>"
  by (simp add: demo_producing_def handle_local_media_sfu_produce_data_def parse_sfuProduceData_def demo_sending demo_defs
      owns_transport_def get_transport_app_data_def mediasoup_produce_data_def register_producer_def
      announce_producer_def)

lemma demo_receiving: "demo_receiving = demo_producing\<lparr>sf_runtime := Some ((the (sf_runtime demo_producing))
     \<lparr>rt_transports := rt_transports (the (sf_runtime demo_producing)) @
        [(''t2'', \<lparr>ta_roomKey = ''r'', ta_userId = Some ''bob'', ta_direction = Some DRecv, ta_localMediaId = None\<rparr>)]\<rparr>),
     sf_owned := [(1, [''t1'']), (2, [''t2''])]\<rparr>"
  by (simp add: demo_receiving_def handle_local_media_sfu_create_transport_def parse_sfuCreateTransport_def demo_producing
      demo_sending demo_defs open_transport_def max_transports_per_socket_def mediasoup_create_transport_def
      mediasoup_create_router_def get_or_create_router_def add_owned_def)

lemma demo_reachable: "sfu_reachable demo_receiving"
  unfolding demo_receiving_def demo_producing_def
  by (rule sfu_reachable.create, rule sfu_reachable.produce)
     (simp add: demo_sending_def sfu_reachable.create sfu_reachable.start,
      simp add: demo_sending fresh_objects_def get_data_producer_app_data_def empty_runtime_def)

lemma demo_consumed: "\<exists>res. handle_local_media_sfu_consume_data (demo_lib ''c1'') (\<lambda>_. True) 0 viewer_ctx demo_consume demo_world
    (sample_media [], demo_receiving) = (res, [SfuResult 2 None (SfuConsumed ''c1'' ''p1'')])"
  by (simp add: handle_local_media_sfu_consume_data_def demo_consume_def parse_sfuConsumeData_def demo_receiving demo_producing
      demo_sending demo_defs owns_transport_def get_transport_app_data_def consumable_producer_def get_provider_producer_def
      mediasoup_consume_data_def)

theorem sfu_reader_gets_owner_channel_witness:
  "\<exists>app. get_data_producer_app_data ''p1'' demo_receiving = Some app \<and> pa_roomId app = Some ''r'' \<and>
     (pa_role app = Some RoleProvider \<and> pa_userId app = pa_ownerUserId app \<or>
      pa_role app = Some RoleRequests \<and> pa_ownerUserId app = Some ''bob'')"
proof -
  obtain res where "handle_local_media_sfu_consume_data (demo_lib ''c1'') (\<lambda>_. True) 0 viewer_ctx demo_consume demo_world
    (sample_media [], demo_receiving) = (res, [SfuResult 2 None (SfuConsumed ''c1'' ''p1'')])" using demo_consumed by blast
  from sfu_reader_gets_owner_channel [OF demo_reachable this, of 2 None "''c1''" "''p1''"] show ?thesis
    by (auto simp: viewer_ctx_def sample_ctx_def)
qed

text \<open>
  When a room is closed, nothing of it stays in the registries of the forwarding unit: no router,
  no transport, no provider channel and no request channel; the other rooms keep their routers, and
  nothing that was not there appears.
\<close>

theorem closed_room_leaves_no_channel:
  assumes "sf_runtime s = Some rt"
  shows "\<exists>rt'. sf_runtime (mediasoup_close_room ml r s) = Some rt' \<and>
     map_of (rt_routers rt') r = None \<and> (\<forall>r'. r' \<noteq> r \<longrightarrow> map_of (rt_routers rt') r' = map_of (rt_routers rt) r') \<and>
     (\<forall>(tid, app)\<in>set (rt_transports rt'). ta_roomKey app \<noteq> r \<and> (tid, app) \<in> set (rt_transports rt)) \<and>
     (\<forall>(i, e)\<in>set (rt_providers rt'). sp_roomId e \<noteq> r \<and> (i, e) \<in> set (rt_providers rt)) \<and>
     (\<forall>(i, chans)\<in>set (rt_requests rt'). \<forall>(pid, e)\<in>set chans. sp_roomId e \<noteq> r)"
proof -
  obtain rt' where rt': "sf_runtime (mediasoup_close_room ml r s) = Some rt'"
    "shrinks rt (rt'\<lparr>rt_routers := rt_routers rt\<rparr>)" "rt_routers rt' = AList.delete r (rt_routers rt)"
    "no_provider r rt'" "no_request r rt'" "no_transport r rt'"
    by (rule close_room_runtime [OF assms])
  show ?thesis
    by (rule exI [of _ rt'])
      (use rt' in \<open>auto simp: delete_conv' shrinks_def no_provider_def no_request_def no_transport_def\<close>)
qed

theorem closed_room_leaves_no_channel_witness:
  "\<exists>rt'. sf_runtime (mediasoup_close_room (demo_lib ''x'') ''r'' demo_receiving) = Some rt' \<and> map_of (rt_routers rt') ''r'' = None"
  using closed_room_leaves_no_channel [of demo_receiving] by (force simp: demo_receiving)

end
