(* ===== verification/Dispatch.thy ===== *)
theory Dispatch
  imports Join_Properties Rate_Limit Resolve Sfu
begin

text \<open>
  The real-time server as a whole: the messages of a socket from the frame to the handler
  (\<open>src/src/server/realtime/socket-dispatch.ts\<close>, \<open>handlers/index.ts\<close>,
  \<open>src/src/server/ws/request-dedupe.ts\<close>), the queue of a socket and its closing
  (\<open>realtime-server.ts\<close>), and the heartbeat (\<open>src/src/server/ws/transport.ts\<close>).  The state joins
  those of the components; what a room operation asks of the media services is carried out here.
\<close>

section \<open>Requests that come twice\<close>

definition dedupe_window_ms :: jsnum where "dedupe_window_ms = 3000"
definition dedupe_max_entries :: nat where "dedupe_max_entries = 10000"

text \<open>A JavaScript map lists its keys by first insertion; a new value keeps the place.\<close>

definition prune_expired :: "jsnum \<Rightarrow> (string \<times> jsnum) list \<Rightarrow> (string \<times> jsnum) list" where
  "prune_expired now seen = filter (\<lambda>(i, t). now - t < dedupe_window_ms) seen"

definition should_skip_duplicate_request ::
  "jsnum \<Rightarrow> string \<Rightarrow> (string \<times> jsnum) list \<Rightarrow> (string \<times> jsnum) list \<times> bool" where
  "should_skip_duplicate_request now requestId seen =
     (if (case map_of seen requestId of Some t \<Rightarrow> now - t < dedupe_window_ms | None \<Rightarrow> False)
      then (seen, True)
      else let m = AList.update requestId now seen in
        if length m > dedupe_max_entries
        then let p = prune_expired now m in (drop (length p - dedupe_max_entries) p, False)
        else (m, False))"

section \<open>The server\<close>

datatype raw_data = RawBuffer bytes | RawArrayBuffer bytes | RawFragments "bytes list" | RawView bytes

fun raw_data_to_buffer :: "raw_data \<Rightarrow> bytes" where
  "raw_data_to_buffer (RawBuffer b) = b"
| "raw_data_to_buffer (RawArrayBuffer b) = b"
| "raw_data_to_buffer (RawFragments bs) = concat bs"
| "raw_data_to_buffer (RawView b) = b"

record server =
  sv_world :: world
  sv_media :: media_store
  sv_relay :: relay
  sv_limiter :: limiter
  sv_sfu :: sfu
  sv_resolver :: resolver
  sv_seen :: "(string \<times> jsnum) list"
  sv_signals :: "user_signal list"
  sv_sfuOut :: "sfu_out list"
  sv_malformed :: "nat list"
  sv_queues :: "(nat \<times> (raw_data \<times> bool) list) list"
  sv_lastPong :: "(nat \<times> jsnum) list"
  sv_lastPing :: "(nat \<times> jsnum) list"
  sv_clocks :: "(nat \<times> jsnum \<times> jsnum) list"

text \<open>
  What one message takes from outside: the clock, fresh ids, \<open>JSON.parse\<close> of the decoded text, the
  grammars of the validation library, the password hash, and the answers of the media library.
\<close>

record request =
  rq_now :: jsnum
  rq_join :: join_env
  rq_json :: "bytes \<Rightarrow> json option"
  rq_isUrl :: "string \<Rightarrow> bool"
  rq_isUuid :: "string \<Rightarrow> bool"
  rq_hash :: "string \<Rightarrow> string \<Rightarrow> string"
  rq_salt :: string
  rq_uid :: string
  rq_uid2 :: string
  rq_freshId :: string
  rq_itemId :: string
  rq_lib :: media_lib

section \<open>What a room operation asks of the media services\<close>

text \<open>\<open>None\<close>: a deletion that never returns.\<close>

definition perform_effect :: "request \<Rightarrow> effect \<Rightarrow> server \<Rightarrow> server option" where
  "perform_effect rq e sv =
     (case e of
        EDeleteLocalMedia roomId owner \<Rightarrow>
          map_option (\<lambda>m. sv\<lparr>sv_media := m\<rparr>) (delete_local_media_entries_for_owner roomId owner (sv_media sv))
      | EClearProviderReady roomId owner \<Rightarrow>
          Some (sv\<lparr>sv_media := clear_local_media_provider_ready_for_owner (rq_now rq) roomId owner (sv_media sv)\<rparr>)
      | ECloseSfu roomId \<Rightarrow> Some (sv\<lparr>sv_sfu := mediasoup_close_room (rq_lib rq) roomId (sv_sfu sv)\<rparr>)
      | _ \<Rightarrow> Some sv)"

primrec perform_effects :: "request \<Rightarrow> effect list \<Rightarrow> server \<Rightarrow> server option" where
  "perform_effects rq [] sv = Some sv"
| "perform_effects rq (e # es) sv = Option.bind (perform_effect rq e sv) (perform_effects rq es)"

text \<open>Runs an operation of the rooms and then what it asked for, in order.\<close>

definition on_world :: "request \<Rightarrow> (world \<Rightarrow> world) \<Rightarrow> server \<Rightarrow> server option" where
  "on_world rq f sv =
     (let w = f (sv_world sv)
      in perform_effects rq (drop (length (w_out (sv_world sv))) (w_out w)) (sv\<lparr>sv_world := w\<rparr>))"

section \<open>The handlers\<close>

type_synonym room_message_handler = "message_context \<Rightarrow> envelope \<Rightarrow> server \<Rightarrow> server option"

definition resolve_rate_limit :: nat where "resolve_rate_limit = 10"

definition consume_playlist_resolve_limit :: "request \<Rightarrow> message_context \<Rightarrow> server \<Rightarrow> server \<times> bool" where
  "consume_playlist_resolve_limit rq ctx sv =
     (case consume_rate_limit (''resolve:'' @ mc_roomId ctx @ '':'' @ mc_userId ctx) resolve_rate_limit 60000 False
             (rq_now rq) (sv_limiter sv) of
        (lm, r) \<Rightarrow> (sv\<lparr>sv_limiter := lm\<rparr>, rl_allowed r))"

definition add_url_message :: "request \<Rightarrow> room_message_handler" where
  "add_url_message rq ctx data sv =
     (if parse_addUrl (rq_isUrl rq) (env_payload data) = None
      then on_world rq (handle_playlist_add_url (rq_isUrl rq) True (je_limits (rq_join rq)) (rq_uid rq) (rq_freshId rq)
             (rq_itemId rq) (rq_now rq) ctx data) sv
      else case consume_playlist_resolve_limit rq ctx sv of
             (sv1, allowed) \<Rightarrow>
               on_world rq (handle_playlist_add_url (rq_isUrl rq) allowed (je_limits (rq_join rq)) (rq_uid rq)
                 (rq_freshId rq) (rq_itemId rq) (rq_now rq) ctx data) sv1)"

definition retry_message :: "request \<Rightarrow> room_message_handler" where
  "retry_message rq ctx data sv =
     (if parse_retry (env_payload data) = None
      then on_world rq (handle_playlist_retry True ctx data) sv
      else case consume_playlist_resolve_limit rq ctx sv of
             (sv1, allowed) \<Rightarrow> on_world rq (handle_playlist_retry allowed ctx data) sv1)"

text \<open>The metadata of the file is written before the room decides about the message.\<close>

definition add_local_message :: "request \<Rightarrow> room_message_handler" where
  "add_local_message rq ctx data sv =
     (let run = (\<lambda>registered. on_world rq (handle_playlist_add_local (rq_isUuid rq) registered (je_limits (rq_join rq))
                  (rq_uid rq) (rq_freshId rq) (rq_itemId rq) (rq_now rq) ctx data))
      in case parse_addLocal (rq_isUuid rq) (env_payload data) of
           None \<Rightarrow> run False sv
         | Some a \<Rightarrow>
             if \<not> is_progressive_media_mime (Some (al_mimeType a)) then run False sv
             else (case create_local_media_entry (rq_now rq)
                      \<lparr>mi_id = al_localMediaId a, mi_roomId = mc_roomId ctx, mi_ownerUserId = mc_userId ctx,
                        mi_filename = al_name a, mi_mimeType = al_mimeType a, mi_sizeBytes = al_sizeBytes a,
                        mi_providerReady = True, mi_abrParentId = None\<rparr> (sv_media sv) of
                     None \<Rightarrow> run False sv
                   | Some m \<Rightarrow> run True (sv\<lparr>sv_media := m\<rparr>)))"

definition parse_localMediaChunk :: "json \<Rightarrow> chunk_payload option" where
  "parse_localMediaChunk j = do {
     i \<leftarrow> p_field (p_str 1 128) j ''requestId'';
     b \<leftarrow> p_field p_bool j ''ok'';
     d \<leftarrow> p_opt (p_str_min 1) j ''dataBase64'';
     e \<leftarrow> p_opt p_errorMessage j ''error'';
     Some \<lparr>cp_requestId = i, cp_ok = b, cp_data = None, cp_dataBase64 = d, cp_error = e\<rparr> }"

definition handle_local_media_chunk :: "jsnum \<Rightarrow> envelope \<Rightarrow> relay \<Rightarrow> relay" where
  "handle_local_media_chunk now data rl =
     (case parse_localMediaChunk (env_payload data) of
        None \<Rightarrow> rl
      | Some payload \<Rightarrow> resolve_local_media_chunk now payload rl)"

definition on_room :: "request \<Rightarrow> (message_context \<Rightarrow> envelope \<Rightarrow> world \<Rightarrow> world) \<Rightarrow> room_message_handler" where
  "on_room rq h ctx data = on_world rq (h ctx data)"

definition on_media ::
  "(message_context \<Rightarrow> envelope \<Rightarrow> media_store \<times> world \<Rightarrow> (media_store \<times> world) option) \<Rightarrow> room_message_handler" where
  "on_media h ctx data sv =
     map_option (\<lambda>(m, w). sv\<lparr>sv_media := m, sv_world := w\<rparr>) (h ctx data (sv_media sv, sv_world sv))"

definition on_sfu ::
  "(message_context \<Rightarrow> envelope \<Rightarrow> world \<Rightarrow> media_store \<times> sfu \<Rightarrow> (media_store \<times> sfu) \<times> sfu_out list)
     \<Rightarrow> room_message_handler" where
  "on_sfu h ctx data sv =
     (case h ctx data (sv_world sv) (sv_media sv, sv_sfu sv) of
        ((m, s), out) \<Rightarrow> Some (sv\<lparr>sv_media := m, sv_sfu := s, sv_sfuOut := sv_sfuOut sv @ out\<rparr>))"

definition keep_media :: "(world \<Rightarrow> sfu \<Rightarrow> sfu \<times> sfu_out list) \<Rightarrow> world \<Rightarrow> media_store \<times> sfu \<Rightarrow> (media_store \<times> sfu) \<times> sfu_out list" where
  "keep_media h w ms = (case h w (snd ms) of (s, out) \<Rightarrow> ((fst ms, s), out))"

definition signal_message :: "request \<Rightarrow> room_message_handler" where
  "signal_message rq ctx data sv =
     Some (case handle_local_media_webrtc_signal (rq_isUuid rq) ctx data of
             None \<Rightarrow> sv
           | Some s \<Rightarrow> sv\<lparr>sv_signals := sv_signals sv @ [s]\<rparr>)"

text \<open>
  The table of \<open>handlers/index.ts\<close>.  A name it does not list is ignored; the names the object inherits
  from its prototype run functions that change nothing.
\<close>

definition room_message_handlers :: "request \<Rightarrow> (string \<times> room_message_handler) list" where
  "room_message_handlers rq =
     (let cfg = je_limits (rq_join rq); uid = rq_uid rq; fid = rq_freshId rq; now = rq_now rq; uuid = rq_isUuid rq;
          lib = rq_lib rq in
      [(''playback:seek'', on_room rq (handle_playback_seek cfg uid fid now)),
       (''playback:play'', on_room rq (handle_playback_play cfg uid fid now)),
       (''playback:pause'', on_room rq (handle_playback_pause cfg uid fid now)),
       (''playback:rate'', on_room rq (handle_playback_rate cfg uid fid now)),
       (''playback:loop:video'', on_room rq (handle_playback_loop_video cfg uid fid now)),
       (''playback:loop:playlist'', on_room rq (handle_playback_loop_playlist cfg uid fid now)),
       (''playlist:add:url'', add_url_message rq),
       (''playlist:add:local'', add_local_message rq),
       (''playlist:select'', on_room rq (handle_playlist_select cfg uid fid now)),
       (''playlist:reorder'', on_room rq (handle_playlist_reorder cfg uid fid now)),
       (''playlist:rename'', on_room rq (handle_playlist_rename cfg uid fid now)),
       (''playlist:remove'', on_room rq (handle_playlist_remove cfg uid fid now)),
       (''playlist:retry'', retry_message rq),
       (''playlist:item:error'', on_room rq (handle_playlist_item_error cfg uid fid now)),
       (''playlist:item:duration'', on_room rq (handle_playlist_item_duration cfg fid now)),
       (''playlist:item:title'', on_room rq (handle_playlist_item_title cfg fid now)),
       (''local-media:chunk'',
          (\<lambda>ctx data sv. Some (sv\<lparr>sv_relay := handle_local_media_chunk now data (sv_relay sv)\<rparr>))),
       (''local-media:ready'',
          on_media (\<lambda>ctx data mw. Some (handle_local_media_ready uuid cfg fid now ctx data mw))),
       (''local-media:abr:publish'', on_media (handle_local_media_abr_publish uuid cfg fid now)),
       (''local-media:webrtc:signal'', signal_message rq),
       (''local-media:sfu:capabilities'',
          on_sfu (\<lambda>ctx data. keep_media (handle_local_media_sfu_capabilities lib ctx data))),
       (''local-media:sfu:create-transport'', on_sfu (handle_local_media_sfu_create_transport lib uuid now)),
       (''local-media:sfu:connect-transport'',
          on_sfu (\<lambda>ctx data. keep_media (handle_local_media_sfu_connect_transport lib ctx data))),
       (''local-media:sfu:produce-data'', on_sfu (handle_local_media_sfu_produce_data lib uuid now)),
       (''local-media:sfu:consume-data'', on_sfu (handle_local_media_sfu_consume_data lib uuid now)),
       (''viewer:media:preferences'', on_room rq (handle_viewer_media_preferences cfg fid now)),
       (''seek:preview'', on_room rq (handle_seek_preview now)),
       (''participant:update'', on_room rq (handle_participant_update cfg uid (rq_uid2 rq) fid now)),
       (''participant:role:update'', on_room rq (handle_participant_role_update cfg uid fid now)),
       (''room:password:set'', on_room rq (handle_room_password_set (rq_hash rq) (rq_salt rq) cfg uid fid now)),
       (''room:password:clear'', on_room rq (handle_room_password_clear cfg uid fid now)),
       (''room:default-role:set'', on_room rq (handle_room_default_role_set cfg uid fid now))])"


section \<open>One message\<close>

definition parse_wsEnvelope :: "json \<Rightarrow> envelope option" where
  "parse_wsEnvelope j = do {
     t \<leftarrow> p_field (p_str_min 1) j ''type'';
     i \<leftarrow> p_opt (p_str_min 1) j ''requestId'';
     _ \<leftarrow> p_opt (p_str_min 1) j ''sourceUserId'';
     p \<leftarrow> p_field (\<lambda>v. if is_obj v then Some v else None) j ''payload'';
     Some \<lparr>env_type = t, env_requestId = i, env_payload = p\<rparr> }"

fun string_field :: "json \<Rightarrow> string \<Rightarrow> string option" where
  "string_field j k = (case jget j k of Some (JStr s) \<Rightarrow> Some s | _ \<Rightarrow> None)"

definition send_malformed_json_nack :: "nat \<Rightarrow> server \<Rightarrow> server" where
  "send_malformed_json_nack ws sv =
     (if ws \<notin> set (w_open (sv_world sv)) then sv else sv\<lparr>sv_malformed := sv_malformed sv @ [ws]\<rparr>)"

definition nack_at_dispatch :: "nat \<Rightarrow> envelope \<Rightarrow> room_error_code \<Rightarrow> server \<Rightarrow> server" where
  "nack_at_dispatch ws data code sv =
     (if should_nack_at_dispatch (env_type data)
      then sv\<lparr>sv_world := send_mutation_nack ws data code (sv_world sv)\<rparr> else sv)"

text \<open>A join uses two windows: 60 a minute for the room, then 12 a minute for the address in it.\<close>

definition join_message :: "request \<Rightarrow> nat \<Rightarrow> json \<Rightarrow> server \<Rightarrow> server option" where
  "join_message rq ws payload sv =
     (case parse_roomJoin payload of
        None \<Rightarrow> on_world rq (handle_room_join (rq_join rq) ws payload) sv
      | Some join \<Rightarrow>
          (case consume_rate_limit (''join:room:'' @ rj_roomId join) 60 60000 False (rq_now rq) (sv_limiter sv) of
             (lm1, room) \<Rightarrow>
               (case (if rl_allowed room
                      then consume_rate_limit
                             (''join:ip:'' @ get_socket_client_ip ws (sv_world sv) @ '':room:'' @ rj_roomId join)
                             12 60000 False (rq_now rq) lm1
                      else (lm1, room)) of
                  (lm2, ip) \<Rightarrow>
                    on_world rq (handle_room_join ((rq_join rq)\<lparr>je_roomAllowed := rl_allowed room,
                      je_ipAllowed := rl_allowed ip\<rparr>) ws payload) (sv\<lparr>sv_limiter := lm2\<rparr>))))"

definition message_context_of :: "nat \<Rightarrow> socket_meta \<Rightarrow> message_context" where
  "message_context_of ws meta =
     \<lparr>mc_ws = ws, mc_roomId = sm_roomId meta, mc_userId = sm_userId meta, mc_connectionId = sm_connectionId meta,
       mc_controlAuthorized = sm_controlAuthorized meta, mc_isControlSession = sm_isControlSession meta,
       mc_sessionKind = sm_sessionKind meta\<rparr>"

text \<open>
  A member's message: the touched time to live of the presence reference is not part of the state.
\<close>

definition member_message :: "request \<Rightarrow> nat \<Rightarrow> envelope \<Rightarrow> server \<Rightarrow> server option" where
  "member_message rq ws data sv =
     (case get_socket_meta ws (sv_world sv) of
        None \<Rightarrow> Some (nack_at_dispatch ws data NotJoined sv)
      | Some meta \<Rightarrow>
          if \<not> sm_joinCommitted meta then Some (nack_at_dispatch ws data NotJoined sv)
          else (case consume_hot_ws_event_limit (env_type data) (sm_roomId meta) (sm_userId meta) (rq_now rq)
                       (sv_limiter sv) of
                  (lm, r) \<Rightarrow>
                    (let sv1 = sv\<lparr>sv_limiter := lm\<rparr> in
                     if \<not> rl_allowed r then Some (nack_at_dispatch ws data RateLimited sv1)
                     else case map_of (room_message_handlers rq) (env_type data) of
                            None \<Rightarrow> Some sv1
                          | Some handler \<Rightarrow> handler (message_context_of ws meta) data sv1)))"

definition dispatch_json_envelope :: "request \<Rightarrow> nat \<Rightarrow> bytes \<Rightarrow> server \<Rightarrow> server option" where
  "dispatch_json_envelope rq ws raw sv =
     (case rq_json rq raw of
        None \<Rightarrow> Some (send_malformed_json_nack ws sv)
      | Some parsed \<Rightarrow>
          (case parse_wsEnvelope parsed of
             None \<Rightarrow>
               (let requestId = string_field parsed ''requestId''; t = string_field parsed ''type'' in
                Some (if truthy requestId \<and> truthy t
                      then nack_at_dispatch ws \<lparr>env_type = the t, env_requestId = requestId, env_payload = JNull\<rparr>
                             InvalidPayload sv
                      else sv))
           | Some data \<Rightarrow>
               (case (case env_requestId data of
                        Some i \<Rightarrow> should_skip_duplicate_request (rq_now rq) i (sv_seen sv)
                      | None \<Rightarrow> (sv_seen sv, False)) of
                  (seen, True) \<Rightarrow> Some (sv\<lparr>sv_seen := seen\<rparr>)
                | (seen, False) \<Rightarrow>
                    (let sv1 = sv\<lparr>sv_seen := seen\<rparr> in
                     if env_type data = ''room:join'' then join_message rq ws (env_payload data) sv1
                     else member_message rq ws data sv1))))"

text \<open>The text of a binary frame in the model's strings: its UTF-8 form.\<close>

definition frame_text :: "codepoints \<Rightarrow> string" where
  "frame_text cs = map (\<lambda>b. char_of (unat b)) (utf8_encode cs)"

definition handle_socket_message :: "request \<Rightarrow> nat \<Rightarrow> raw_data \<Rightarrow> bool \<Rightarrow> server \<Rightarrow> server option" where
  "handle_socket_message rq ws message isBinary sv =
     (let buf = raw_data_to_buffer message in
      case decode_local_media_chunk_frame buf of
        Some c \<Rightarrow>
          Some (sv\<lparr>sv_relay := resolve_local_media_chunk (rq_now rq)
            \<lparr>cp_requestId = frame_text (bc_requestId c), cp_ok = bc_ok c, cp_data = bc_data c, cp_dataBase64 = None,
              cp_error = map_option frame_text (bc_error c)\<rparr> (sv_relay sv)\<rparr>)
      | None \<Rightarrow> if isBinary then Some sv else dispatch_json_envelope rq ws buf sv)"

section \<open>The life of a socket\<close>

definition max_socket_message_queue_depth :: nat where "max_socket_message_queue_depth = 64"

definition queue_of :: "nat \<Rightarrow> server \<Rightarrow> (raw_data \<times> bool) list" where
  "queue_of ws sv = (case map_of (sv_queues sv) ws of Some q \<Rightarrow> q | None \<Rightarrow> [])"

text \<open>The upgrade: address, heartbeat and an empty queue.\<close>

definition socket_connected :: "jsnum \<Rightarrow> nat \<Rightarrow> string \<Rightarrow> server \<Rightarrow> server" where
  "socket_connected now ws ip sv =
     sv\<lparr>sv_world := set_socket_client_ip ws ip ((sv_world sv)\<lparr>w_open := List.insert ws (w_open (sv_world sv))\<rparr>),
        sv_lastPong := AList.update ws now (sv_lastPong sv), sv_queues := AList.update ws [] (sv_queues sv)\<rparr>"

definition socket_received :: "nat \<Rightarrow> raw_data \<Rightarrow> bool \<Rightarrow> server \<Rightarrow> server" where
  "socket_received ws message isBinary sv =
     (if length (queue_of ws sv) \<ge> max_socket_message_queue_depth then sv
      else sv\<lparr>sv_queues := AList.update ws (queue_of ws sv @ [(message, isBinary)]) (sv_queues sv)\<rparr>)"

text \<open>The head of the queue leaves it when its handler is through.\<close>

definition socket_run :: "request \<Rightarrow> nat \<Rightarrow> server \<Rightarrow> server option" where
  "socket_run rq ws sv =
     (case queue_of ws sv of
        [] \<Rightarrow> Some sv
      | (message, isBinary) # rest \<Rightarrow>
          map_option (\<lambda>sv'. sv'\<lparr>sv_queues := AList.update ws (tl (queue_of ws sv')) (sv_queues sv')\<rparr>)
            (handle_socket_message rq ws message isBinary sv))"

definition socket_closed :: "request \<Rightarrow> nat \<Rightarrow> server \<Rightarrow> server option" where
  "socket_closed rq ws sv =
     (let w0 = (sv_world sv)\<lparr>w_open := removeAll ws (w_open (sv_world sv))\<rparr>;
          sv1 = sv\<lparr>sv_world := remove_socket ws w0, sv_sfu := sfu_socket_closed (rq_lib rq) ws (sv_sfu sv),
                   sv_lastPong := AList.delete ws (sv_lastPong sv), sv_lastPing := AList.delete ws (sv_lastPing sv)\<rparr>
      in case get_socket_meta ws w0 of
           None \<Rightarrow> Some sv1
         | Some meta \<Rightarrow>
             on_world rq (handle_socket_disconnect (je_limits (rq_join rq)) (rq_uid rq) (rq_now rq)
               \<lparr>dm_roomId = sm_roomId meta, dm_userId = sm_userId meta, dm_connectionId = sm_connectionId meta,
                 dm_presenceTracked = sm_presenceTracked meta\<rparr>) sv1)"

section \<open>The heartbeat\<close>

definition ws_heartbeat_interval_ms :: jsnum where "ws_heartbeat_interval_ms = 5000"
definition ws_heartbeat_timeout_ms :: jsnum where "ws_heartbeat_timeout_ms = ws_heartbeat_interval_ms * 3"

definition is_ws_api_upgrade_url :: "string option \<Rightarrow> bool" where
  "is_ws_api_upgrade_url url =
     (truthy url \<and> (url = Some ''/api/ws'' \<or> starts_with (the url) ''/api/ws?'' \<or> starts_with (the url) ''/api/ws/''))"

definition should_terminate_for_missed_heartbeat :: "jsnum \<Rightarrow> jsnum option \<Rightarrow> jsnum \<Rightarrow> bool" where
  "should_terminate_for_missed_heartbeat nowMs lastPongAtMs timeoutMs =
     (let lastSeen = (case lastPongAtMs of Some t \<Rightarrow> t | None \<Rightarrow> nowMs) in nowMs - lastSeen > timeoutMs)"

text \<open>Terminating closes the connection; its close event comes later.\<close>

definition beat_socket :: "jsnum \<Rightarrow> nat \<Rightarrow> server \<Rightarrow> server" where
  "beat_socket now ws sv =
     (if should_terminate_for_missed_heartbeat now (map_of (sv_lastPong sv) ws) ws_heartbeat_timeout_ms
      then sv\<lparr>sv_world := (sv_world sv)\<lparr>w_open := removeAll ws (w_open (sv_world sv))\<rparr>\<rparr>
      else sv\<lparr>sv_lastPing := AList.update ws now (sv_lastPing sv)\<rparr>)"

definition heartbeat_tick :: "jsnum \<Rightarrow> server \<Rightarrow> server" where
  "heartbeat_tick now sv = fold (beat_socket now) (w_open (sv_world sv)) sv"

definition socket_pong :: "jsnum \<Rightarrow> nat \<Rightarrow> server \<Rightarrow> server" where
  "socket_pong now ws sv =
     (let sv1 = sv\<lparr>sv_lastPong := AList.update ws now (sv_lastPong sv)\<rparr> in
      case map_of (sv_lastPing sv) ws of
        None \<Rightarrow> sv1
      | Some pingAt \<Rightarrow>
          if ws \<notin> set (w_open (sv_world sv)) then sv1
          else sv1\<lparr>sv_clocks := sv_clocks sv1 @ [(ws, now, max 0 (now - pingAt))]\<rparr>)"


section \<open>What every handler keeps\<close>

definition core_ok :: "limits \<Rightarrow> server \<Rightarrow> bool" where
  "core_ok cfg sv = (world_wf cfg (sv_world sv) \<and> sfu_reachable (sv_sfu sv))"

text \<open>The fresh ids of a request are fresh, and what runs beside a join keeps the rooms in order.\<close>

definition request_ok :: "limits \<Rightarrow> request \<Rightarrow> server \<Rightarrow> bool" where
  "request_ok cfg rq sv =
     (je_limits (rq_join rq) = cfg \<and> env_ok (rq_join rq) \<and> (\<forall>r. fresh_in_room (rq_itemId rq) r (sv_world sv)) \<and>
      fresh_objects (rq_lib rq) (sv_sfu sv))"

definition same_transport :: "server \<Rightarrow> server \<Rightarrow> bool" where
  "same_transport sv sv' =
     (sv_seen sv' = sv_seen sv \<and> sv_queues sv' = sv_queues sv \<and> sv_lastPong sv' = sv_lastPong sv \<and>
      sv_lastPing sv' = sv_lastPing sv)"

definition handler_ok :: "limits \<Rightarrow> request \<Rightarrow> room_message_handler \<Rightarrow> bool" where
  "handler_ok cfg rq h =
     (\<forall>ctx data sv sv'. core_ok cfg sv \<longrightarrow> request_ok cfg rq sv \<longrightarrow> h ctx data sv = Some sv' \<longrightarrow>
        core_ok cfg sv' \<and> same_transport sv sv')"

lemma handler_okI:
  assumes "\<And>ctx data sv sv'. core_ok cfg sv \<Longrightarrow> request_ok cfg rq sv \<Longrightarrow> h ctx data sv = Some sv' \<Longrightarrow>
    core_ok cfg sv' \<and> same_transport sv sv'"
  shows "handler_ok cfg rq h"
  using assms by (simp add: handler_ok_def)

lemma perform_effect_frame:
  assumes "perform_effect rq e sv = Some sv'"
  shows "\<exists>m s. sv' = sv\<lparr>sv_media := m, sv_sfu := s\<rparr> \<and> (sfu_reachable (sv_sfu sv) \<longrightarrow> sfu_reachable s)"
proof (cases "sv' = sv")
  case True
  then show ?thesis by (intro exI [of _ "sv_media sv"] exI [of _ "sv_sfu sv"]) simp
next
  case False
  have media: "\<exists>m' s. sv\<lparr>sv_media := m\<rparr> = sv\<lparr>sv_media := m', sv_sfu := s\<rparr> \<and> (sfu_reachable (sv_sfu sv) \<longrightarrow> sfu_reachable s)" for m
    by (intro exI [of _ m] exI [of _ "sv_sfu sv"]) simp
  have sfu: "\<exists>m s. sv\<lparr>sv_sfu := mediasoup_close_room lib r (sv_sfu sv)\<rparr> = sv\<lparr>sv_media := m, sv_sfu := s\<rparr> \<and>
      (sfu_reachable (sv_sfu sv) \<longrightarrow> sfu_reachable s)" for lib r
    by (intro exI [of _ "sv_media sv"] exI [of _ "mediasoup_close_room lib r (sv_sfu sv)"]) (simp add: sfu_reachable.room)
  show ?thesis
    using assms False media sfu by (cases e; simp add: perform_effect_def) blast+
qed

lemma perform_effects_frame:
  "perform_effects rq es sv = Some sv' \<Longrightarrow>
     \<exists>m s. sv' = sv\<lparr>sv_media := m, sv_sfu := s\<rparr> \<and> (sfu_reachable (sv_sfu sv) \<longrightarrow> sfu_reachable s)"
proof (induction es arbitrary: sv)
  case Nil
  then show ?case by (intro exI [of _ "sv_media sv"] exI [of _ "sv_sfu sv"]) simp
next
  case (Cons e es)
  then obtain sv1 where e: "perform_effect rq e sv = Some sv1" and es: "perform_effects rq es sv1 = Some sv'"
    by (auto split: bind_splits)
  from perform_effect_frame [OF e] obtain m s where 1: "sv1 = sv\<lparr>sv_media := m, sv_sfu := s\<rparr>"
    "sfu_reachable (sv_sfu sv) \<longrightarrow> sfu_reachable s" by blast
  from Cons.IH [OF es] obtain m' s' where 2: "sv' = sv1\<lparr>sv_media := m', sv_sfu := s'\<rparr>"
    "sfu_reachable (sv_sfu sv1) \<longrightarrow> sfu_reachable s'" by blast
  from 1 2 show ?case by (intro exI [of _ m'] exI [of _ s']) simp
qed

lemma on_world_frame:
  assumes "on_world rq f sv = Some sv'"
  obtains m s where "sv' = sv\<lparr>sv_world := f (sv_world sv), sv_media := m, sv_sfu := s\<rparr>"
    "sfu_reachable (sv_sfu sv) \<Longrightarrow> sfu_reachable s"
  using perform_effects_frame [OF assms [unfolded on_world_def Let_def]] by auto

lemma on_world_ok:
  assumes "core_ok cfg sv" "on_world rq f sv = Some sv'" "world_wf cfg (f (sv_world sv))"
  shows "core_ok cfg sv' \<and> same_transport sv sv'"
proof -
  obtain m s where "sv' = sv\<lparr>sv_world := f (sv_world sv), sv_media := m, sv_sfu := s\<rparr>"
    "sfu_reachable (sv_sfu sv) \<Longrightarrow> sfu_reachable s" using on_world_frame [OF assms(2)] by blast
  with assms(1,3) show ?thesis by (simp add: core_ok_def same_transport_def)
qed

lemma on_room_ok:
  assumes "\<And>ctx data w. world_wf cfg w \<Longrightarrow> (\<And>r. fresh_in_room (rq_itemId rq) r w) \<Longrightarrow> world_wf cfg (h ctx data w)"
  shows "handler_ok cfg rq (on_room rq h)"
proof (rule handler_okI)
  fix ctx data sv sv' assume c: "core_ok cfg sv" "request_ok cfg rq sv" and h: "on_room rq h ctx data sv = Some sv'"
  have "world_wf cfg (h ctx data (sv_world sv))"
    using c by (intro assms) (simp_all add: core_ok_def request_ok_def)
  then show "core_ok cfg sv' \<and> same_transport sv sv'" using on_world_ok [OF c(1)] h by (simp add: on_room_def)
qed

lemma on_media_ok:
  assumes "\<And>ctx data mw mw'. world_wf cfg (snd mw) \<Longrightarrow> h ctx data mw = Some mw' \<Longrightarrow> world_wf cfg (snd mw')"
  shows "handler_ok cfg rq (on_media h)"
proof (rule handler_okI)
  fix ctx data sv sv' assume c: "core_ok cfg sv" and h: "on_media h ctx data sv = Some sv'"
  then obtain m w where mw: "h ctx data (sv_media sv, sv_world sv) = Some (m, w)" "sv' = sv\<lparr>sv_media := m, sv_world := w\<rparr>"
    by (auto simp: on_media_def)
  from assms [OF _ mw(1)] c mw(2) show "core_ok cfg sv' \<and> same_transport sv sv'"
    by (simp add: core_ok_def same_transport_def)
qed

lemma on_media_total_ok:
  assumes "\<And>ctx data mw. world_wf cfg (snd mw) \<Longrightarrow> world_wf cfg (snd (h ctx data mw))"
  shows "handler_ok cfg rq (on_media (\<lambda>ctx data mw. Some (h ctx data mw)))"
proof (rule on_media_ok)
  fix ctx data and mw mw' :: "media_store \<times> world"
  assume "world_wf cfg (snd mw)" "Some (h ctx data mw) = Some mw'"
  then show "world_wf cfg (snd mw')" using assms [of mw ctx data] by simp
qed

lemma on_sfu_ok:
  assumes "\<And>ctx data w m s. sfu_reachable s \<Longrightarrow> fresh_objects (rq_lib rq) s \<Longrightarrow> sfu_reachable (snd (fst (h ctx data w (m, s))))"
  shows "handler_ok cfg rq (on_sfu h)"
proof (rule handler_okI)
  fix ctx data sv sv' assume c: "core_ok cfg sv" "request_ok cfg rq sv" and h: "on_sfu h ctx data sv = Some sv'"
  obtain m s out where e: "h ctx data (sv_world sv) (sv_media sv, sv_sfu sv) = ((m, s), out)" by (metis prod.collapse)
  have "sfu_reachable s"
    using assms [of "sv_sfu sv" ctx data "sv_world sv" "sv_media sv"] c e by (simp add: core_ok_def request_ok_def)
  with e h c(1) show "core_ok cfg sv' \<and> same_transport sv sv'"
    by (auto simp: on_sfu_def core_ok_def same_transport_def)
qed

lemma keep_media_sfu: "snd (fst (keep_media h w (m, s))) = fst (h w s)"
  by (simp add: keep_media_def split: prod.split)

lemma resolve_limit_frame:
  assumes "consume_playlist_resolve_limit rq ctx sv = (sv1, allowed)"
  obtains lm where "sv1 = sv\<lparr>sv_limiter := lm\<rparr>"
  using assms by (auto simp: consume_playlist_resolve_limit_def split: prod.splits)

lemma core_ok_update [simp]:
  "core_ok cfg (sv\<lparr>sv_limiter := lm\<rparr>) = core_ok cfg sv" "core_ok cfg (sv\<lparr>sv_media := m\<rparr>) = core_ok cfg sv"
  "core_ok cfg (sv\<lparr>sv_seen := seen\<rparr>) = core_ok cfg sv" "core_ok cfg (sv\<lparr>sv_relay := rl\<rparr>) = core_ok cfg sv"
  "core_ok cfg (sv\<lparr>sv_queues := q\<rparr>) = core_ok cfg sv"
  "request_ok cfg rq (sv\<lparr>sv_limiter := lm\<rparr>) = request_ok cfg rq sv" "request_ok cfg rq (sv\<lparr>sv_media := m\<rparr>) = request_ok cfg rq sv"
  "request_ok cfg rq (sv\<lparr>sv_seen := seen\<rparr>) = request_ok cfg rq sv"
  by (simp_all add: core_ok_def request_ok_def)

lemma same_transport_update [simp]:
  "same_transport (sv\<lparr>sv_limiter := lm\<rparr>) sv' = same_transport sv sv'" "same_transport (sv\<lparr>sv_media := m\<rparr>) sv' = same_transport sv sv'"
  "same_transport sv (sv\<lparr>sv_relay := rl\<rparr>)" "same_transport sv (sv\<lparr>sv_limiter := lm\<rparr>)" "same_transport sv sv"
  by (simp_all add: same_transport_def)

lemma add_url_message_ok: "handler_ok cfg rq (add_url_message rq)"
proof (rule handler_okI)
  fix ctx data sv sv' assume c: "core_ok cfg sv" "request_ok cfg rq sv" and h: "add_url_message rq ctx data sv = Some sv'"
  have wf: "world_wf cfg (handle_playlist_add_url (rq_isUrl rq) allowed (je_limits (rq_join rq)) (rq_uid rq) (rq_freshId rq)
     (rq_itemId rq) (rq_now rq) ctx data (sv_world sv))" for allowed
    using c add_url_wf [of cfg "sv_world sv" "rq_itemId rq" ctx] by (simp add: core_ok_def request_ok_def)
  obtain sv1 allowed where r: "consume_playlist_resolve_limit rq ctx sv = (sv1, allowed)" by force
  obtain lm where sv1: "sv1 = sv\<lparr>sv_limiter := lm\<rparr>" by (rule resolve_limit_frame [OF r])
  show "core_ok cfg sv' \<and> same_transport sv sv'"
    using h on_world_ok [of cfg sv rq _ sv'] on_world_ok [of cfg sv1 rq _ sv'] wf c(1)
    by (auto simp: add_url_message_def r sv1 split: if_splits)
qed

lemma retry_message_ok: "handler_ok cfg rq (retry_message rq)"
proof (rule handler_okI)
  fix ctx data sv sv' assume c: "core_ok cfg sv" "request_ok cfg rq sv" and h: "retry_message rq ctx data sv = Some sv'"
  have wf: "world_wf cfg (handle_playlist_retry allowed ctx data (sv_world sv))" for allowed
    using c by (auto simp: core_ok_def intro: retry_wf)
  obtain sv1 allowed where r: "consume_playlist_resolve_limit rq ctx sv = (sv1, allowed)" by force
  obtain lm where sv1: "sv1 = sv\<lparr>sv_limiter := lm\<rparr>" by (rule resolve_limit_frame [OF r])
  show "core_ok cfg sv' \<and> same_transport sv sv'"
    using h on_world_ok [of cfg sv rq _ sv'] on_world_ok [of cfg sv1 rq _ sv'] wf c(1)
    by (auto simp: retry_message_def r sv1 split: if_splits)
qed

lemma add_local_message_ok: "handler_ok cfg rq (add_local_message rq)"
proof (rule handler_okI)
  fix ctx data sv sv' assume c: "core_ok cfg sv" "request_ok cfg rq sv" and h: "add_local_message rq ctx data sv = Some sv'"
  have wf: "world_wf cfg (handle_playlist_add_local (rq_isUuid rq) registered (je_limits (rq_join rq)) (rq_uid rq) (rq_freshId rq)
     (rq_itemId rq) (rq_now rq) ctx data (sv_world sv))" for registered
    using c add_local_wf [of cfg "sv_world sv" "rq_itemId rq" ctx] by (simp add: core_ok_def request_ok_def)
  show "core_ok cfg sv' \<and> same_transport sv sv'"
    using h on_world_ok [of cfg sv rq _ sv'] on_world_ok [of cfg "sv\<lparr>sv_media := m\<rparr>" rq _ sv' for m] wf c(1)
    by (auto simp: add_local_message_def Let_def split: option.splits if_splits)
qed


lemma relay_message_ok: "handler_ok cfg rq (\<lambda>ctx data sv. Some (sv\<lparr>sv_relay := f data (sv_relay sv)\<rparr>))"
  by (rule handler_okI) auto

lemma signal_message_ok: "handler_ok cfg rq (signal_message rq)"
  by (rule handler_okI) (auto simp: signal_message_def core_ok_def same_transport_def split: option.split)

lemmas message_oks = on_room_ok on_media_total_ok on_media_ok on_sfu_ok relay_message_ok signal_message_ok add_url_message_ok
  retry_message_ok add_local_message_ok

lemma handlers_ok:
  assumes "je_limits (rq_join rq) = cfg" "(name, h) \<in> set (room_message_handlers rq)"
  shows "handler_ok cfg rq h"
proof -
  have "\<forall>(name, h)\<in>set (room_message_handlers rq). handler_ok cfg rq h"
    unfolding room_message_handlers_def Let_def assms(1)
    by (simp add: message_oks playback_handlers_wf playlist_handlers_wf observation_handlers_wf viewer_media_wf
        seek_preview_wf participant_update_wf role_update_wf security_handlers_wf ready_wf abr_publish_wf keep_media_sfu
        sfu_reachable.intros)
  with assms(2) show ?thesis by blast
qed


lemma join_message_ok:
  assumes "core_ok cfg sv" "request_ok cfg rq sv" "join_message rq ws payload sv = Some sv'"
  shows "core_ok cfg sv' \<and> same_transport sv sv'"
proof -
  have env: "env_ok ((rq_join rq)\<lparr>je_roomAllowed := a, je_ipAllowed := b\<rparr>)" for a b
    using assms(2) by (auto simp: request_ok_def env_ok_def)
  have wf: "world_wf cfg (handle_room_join ((rq_join rq)\<lparr>je_roomAllowed := a, je_ipAllowed := b\<rparr>) ws payload (sv_world sv))" for a b
    using join_wf [OF _ env, of b a "sv_world sv" ws payload] assms(1,2) by (simp add: request_ok_def core_ok_def)
  have same: "(rq_join rq)\<lparr>je_roomAllowed := je_roomAllowed (rq_join rq), je_ipAllowed := je_ipAllowed (rq_join rq)\<rparr> = rq_join rq"
    by simp
  note wf0 = wf [where a = "je_roomAllowed (rq_join rq)" and b = "je_ipAllowed (rq_join rq)", unfolded same]
  show ?thesis
  proof (cases "parse_roomJoin payload")
    case None
    with assms(3) have "on_world rq (handle_room_join (rq_join rq) ws payload) sv = Some sv'" by (simp add: join_message_def)
    from on_world_ok [OF assms(1) this wf0] show ?thesis .
  next
    case (Some join)
    with assms(3) on_world_ok [of cfg "sv\<lparr>sv_limiter := lm\<rparr>" rq _ sv' for lm] wf assms(1) show ?thesis
      by (auto simp: join_message_def split: prod.splits)
  qed
qed

lemma nack_ok: "core_ok cfg sv \<Longrightarrow> core_ok cfg (nack_at_dispatch ws data code sv) \<and> same_transport sv (nack_at_dispatch ws data code sv)"
  by (simp add: nack_at_dispatch_def core_ok_def same_transport_def)

lemma member_message_ok:
  assumes "core_ok cfg sv" "request_ok cfg rq sv" "member_message rq ws data sv = Some sv'"
  shows "core_ok cfg sv' \<and> same_transport sv sv'"
proof (cases "get_socket_meta ws (sv_world sv)")
  case None
  with assms show ?thesis using nack_ok by (auto simp: member_message_def)
next
  case (Some meta)
  obtain lm r where l: "consume_hot_ws_event_limit (env_type data) (sm_roomId meta) (sm_userId meta) (rq_now rq) (sv_limiter sv) = (lm, r)"
    by force
  let ?sv1 = "sv\<lparr>sv_limiter := lm\<rparr>"
  have c1: "core_ok cfg ?sv1" "request_ok cfg rq ?sv1" using assms by simp_all
  have cfg: "je_limits (rq_join rq) = cfg" using assms(2) by (simp add: request_ok_def)
  have "core_ok cfg sv' \<and> same_transport sv sv'"
    if "(n, h) \<in> set (room_message_handlers rq)" "h ctx data ?sv1 = Some sv'" for n h ctx
    using handlers_ok [OF cfg that(1), unfolded handler_ok_def, rule_format, OF c1 that(2)] by simp
  then show ?thesis
    using assms(1,3) nack_ok [of cfg sv ws data NotJoined] nack_ok [OF c1(1), of ws data RateLimited]
    by (auto simp: member_message_def Some l Let_def dest!: map_of_SomeD split: if_splits option.splits)
qed

section \<open>The bounds of the transport\<close>

definition seen_ok :: "(string \<times> jsnum) list \<Rightarrow> bool" where
  "seen_ok seen = (distinct (keys_of seen) \<and> length seen \<le> dedupe_max_entries)"

definition server_ok :: "limits \<Rightarrow> server \<Rightarrow> bool" where
  "server_ok cfg sv =
     (world_wf cfg (sv_world sv) \<and> sfu_reachable (sv_sfu sv) \<and> seen_ok (sv_seen sv) \<and>
      (\<forall>ws. length (queue_of ws sv) \<le> max_socket_message_queue_depth))"

lemma server_ok_core: "server_ok cfg sv = (core_ok cfg sv \<and> seen_ok (sv_seen sv) \<and>
    (\<forall>ws. length (queue_of ws sv) \<le> max_socket_message_queue_depth))"
  by (auto simp: server_ok_def core_ok_def)

lemma same_transport_ok: "same_transport sv sv' \<Longrightarrow> core_ok cfg sv' \<Longrightarrow> server_ok cfg sv \<Longrightarrow> server_ok cfg sv'"
  by (simp add: server_ok_core same_transport_def queue_of_def)

lemma skip_seen_ok:
  assumes "seen_ok seen" shows "seen_ok (fst (should_skip_duplicate_request now i seen))"
proof -
  let ?m = "AList.update i now seen"
  let ?p = "prune_expired now ?m"
  have d: "distinct (keys_of ?m)" using assms by (simp add: seen_ok_def distinct_update)
  have "distinct (keys_of ?p)" using d by (simp add: prune_expired_def distinct_map_filter)
  then have "distinct (keys_of (drop k ?p))" for k by (metis distinct_drop drop_map)
  then show ?thesis
    using assms d by (simp add: should_skip_duplicate_request_def Let_def seen_ok_def not_less) linarith
qed

lemma dispatch_ok:
  assumes "core_ok cfg sv" "request_ok cfg rq sv" "dispatch_json_envelope rq ws raw sv = Some sv'"
  shows "core_ok cfg sv' \<and> sv_queues sv' = sv_queues sv \<and>
    (sv_seen sv' = sv_seen sv \<or> (\<exists>i. sv_seen sv' = fst (should_skip_duplicate_request (rq_now rq) i (sv_seen sv))))"
proof (cases "rq_json rq raw")
  case None
  with assms show ?thesis
    by (auto simp: dispatch_json_envelope_def send_malformed_json_nack_def core_ok_def)
next
  case (Some parsed)
  show ?thesis
  proof (cases "parse_wsEnvelope parsed")
    case None
    then show ?thesis using assms Some nack_ok [OF assms(1)]
      by (auto simp: dispatch_json_envelope_def same_transport_def Let_def simp del: string_field.simps)
  next
    case env: (Some data)
    obtain seen dup where d: "(case env_requestId data of Some i \<Rightarrow> should_skip_duplicate_request (rq_now rq) i (sv_seen sv)
        | None \<Rightarrow> (sv_seen sv, False)) = (seen, dup)" by force
    have seen: "seen = sv_seen sv \<or> (\<exists>i. seen = fst (should_skip_duplicate_request (rq_now rq) i (sv_seen sv)))"
    proof (cases "env_requestId data")
      case (Some i)
      with d have "seen = fst (should_skip_duplicate_request (rq_now rq) i (sv_seen sv))" by simp
      then show ?thesis by blast
    qed (use d in simp)
    have c: "core_ok cfg (sv\<lparr>sv_seen := seen\<rparr>)" "request_ok cfg rq (sv\<lparr>sv_seen := seen\<rparr>)" using assms by simp_all
    show ?thesis
    proof (cases dup)
      case True
      then have "sv' = sv\<lparr>sv_seen := seen\<rparr>" using assms(3) by (simp add: dispatch_json_envelope_def Some env d)
      with seen c(1) show ?thesis by simp
    next
      case False
      then have "join_message rq ws (env_payload data) (sv\<lparr>sv_seen := seen\<rparr>) = Some sv' \<or>
          member_message rq ws data (sv\<lparr>sv_seen := seen\<rparr>) = Some sv'"
        using assms(3) by (simp add: dispatch_json_envelope_def Some env d Let_def split: if_splits)
      then have "core_ok cfg sv' \<and> same_transport (sv\<lparr>sv_seen := seen\<rparr>) sv'"
        using join_message_ok [OF c] member_message_ok [OF c] by blast
      with seen show ?thesis by (simp add: same_transport_def)
    qed
  qed
qed


lemma handle_message_ok:
  assumes "core_ok cfg sv" "request_ok cfg rq sv" "handle_socket_message rq ws message isBinary sv = Some sv'"
  shows "core_ok cfg sv' \<and> sv_queues sv' = sv_queues sv \<and>
    (sv_seen sv' = sv_seen sv \<or> (\<exists>i. sv_seen sv' = fst (should_skip_duplicate_request (rq_now rq) i (sv_seen sv))))"
  using assms dispatch_ok [OF assms(1,2)]
  by (auto simp: handle_socket_message_def Let_def split: option.splits if_splits)

section \<open>Reachable servers\<close>

text \<open>
  The steps of one server: sockets come, send, have a message handled and close; the sweep, the
  resolutions and the reclaim ticks run on their own timers; the caches drop what is old.
\<close>

inductive server_step :: "limits \<Rightarrow> server \<Rightarrow> server \<Rightarrow> bool" for cfg where
  step_connect: "server_step cfg sv (socket_connected now ws ip sv)"
| step_receive: "server_step cfg sv (socket_received ws message isBinary sv)"
| step_run: "request_ok cfg rq sv \<Longrightarrow> socket_run rq ws sv = Some sv' \<Longrightarrow> server_step cfg sv sv'"
| step_close: "je_limits (rq_join rq) = cfg \<Longrightarrow> socket_closed rq ws sv = Some sv' \<Longrightarrow> server_step cfg sv sv'"
| step_tick: "server_step cfg sv (heartbeat_tick now sv)"
| step_pong: "server_step cfg sv (socket_pong now ws sv)"
| step_prune: "server_step cfg sv (sv\<lparr>sv_seen := prune_expired now (sv_seen sv)\<rparr>)"
| step_sweep: "on_world rq (\<lambda>w. fst (cleanup_inactive_rooms cfg uids freshIds now w)) sv = Some sv' \<Longrightarrow> server_step cfg sv sv'"
| step_resolve: "env_keeps cfg env \<Longrightarrow>
    resolve_playlist_item env others roomId itemId title retry message (sv_resolver sv, sv_world sv) = (rv, w) \<Longrightarrow>
    server_step cfg sv (sv\<lparr>sv_resolver := rv, sv_world := w\<rparr>)"
| step_reresolve: "env_keeps cfg env \<Longrightarrow>
    reresolve_remote_playlist_item env others roomId itemId (sv_resolver sv, sv_world sv) = ((rv, w), finished) \<Longrightarrow>
    server_step cfg sv (sv\<lparr>sv_resolver := rv, sv_world := w\<rparr>)"
| step_timeout: "server_step cfg sv (sv\<lparr>sv_relay := pending_timeout now requestId (sv_relay sv)\<rparr>)"
| step_worker_died: "server_step cfg sv (sv\<lparr>sv_sfu := mediasoup_worker_died observed (sv_sfu sv)\<rparr>)"

inductive server_reachable :: "limits \<Rightarrow> server \<Rightarrow> bool" for cfg where
  server_start: "w_rooms (sv_world sv) = [] \<Longrightarrow> sv_sfu sv = \<lparr>sf_runtime = None, sf_owned = [], sf_node = node\<rparr> \<Longrightarrow>
    sv_seen sv = [] \<Longrightarrow> sv_queues sv = [] \<Longrightarrow> server_reachable cfg sv"
| server_next: "server_reachable cfg sv \<Longrightarrow> server_step cfg sv sv' \<Longrightarrow> server_reachable cfg sv'"


lemma queue_of_update: "queue_of ws' (sv\<lparr>sv_queues := AList.update ws q (sv_queues sv0)\<rparr>) =
    (if ws' = ws then q else queue_of ws' (sv\<lparr>sv_queues := sv_queues sv0\<rparr>))"
  by (simp add: queue_of_def update_conv')

lemma queue_of_cong: "sv_queues sv' = sv_queues sv \<Longrightarrow> queue_of ws sv' = queue_of ws sv"
  by (simp add: queue_of_def)

lemma beat_frame:
  "sv_world (beat_socket now ws sv) = (sv_world sv)\<lparr>w_open := w_open (sv_world (beat_socket now ws sv))\<rparr>"
  "sv_sfu (beat_socket now ws sv) = sv_sfu sv" "sv_seen (beat_socket now ws sv) = sv_seen sv"
  "sv_queues (beat_socket now ws sv) = sv_queues sv" "sv_lastPong (beat_socket now ws sv) = sv_lastPong sv"
  by (simp_all add: beat_socket_def)

lemma beats_frame:
  "w_rooms (sv_world (fold (beat_socket now) wss sv)) = w_rooms (sv_world sv)"
  "sv_sfu (fold (beat_socket now) wss sv) = sv_sfu sv" "sv_seen (fold (beat_socket now) wss sv) = sv_seen sv"
  "sv_queues (fold (beat_socket now) wss sv) = sv_queues sv" "sv_lastPong (fold (beat_socket now) wss sv) = sv_lastPong sv"
proof -
  have "w_rooms (sv_world (beat_socket now ws sv)) = w_rooms (sv_world sv)" for ws sv
    by (simp add: beat_socket_def)
  then show "w_rooms (sv_world (fold (beat_socket now) wss sv)) = w_rooms (sv_world sv)"
    "sv_sfu (fold (beat_socket now) wss sv) = sv_sfu sv" "sv_seen (fold (beat_socket now) wss sv) = sv_seen sv"
    "sv_queues (fold (beat_socket now) wss sv) = sv_queues sv" "sv_lastPong (fold (beat_socket now) wss sv) = sv_lastPong sv"
    by (induction wss arbitrary: sv) (simp_all add: beat_frame(2-))
qed

lemma server_ok_same:
  assumes "server_ok cfg sv" "w_rooms (sv_world sv') = w_rooms (sv_world sv)" "sv_sfu sv' = sv_sfu sv" "sv_seen sv' = sv_seen sv"
    "sv_queues sv' = sv_queues sv"
  shows "server_ok cfg sv'"
  using assms queue_of_cong [OF assms(5)] world_wf_cong [OF assms(2)] by (simp add: server_ok_def)

lemma run_ok:
  assumes "server_ok cfg sv" "request_ok cfg rq sv" "socket_run rq ws sv = Some sv'"
  shows "server_ok cfg sv'"
proof (cases "queue_of ws sv")
  case Nil
  with assms show ?thesis by (simp add: socket_run_def)
next
  case (Cons mb rest)
  obtain m b where mb: "mb = (m, b)" by force
  obtain sv1 where h: "handle_socket_message rq ws m b sv = Some sv1"
    "sv' = sv1\<lparr>sv_queues := AList.update ws (tl (queue_of ws sv1)) (sv_queues sv1)\<rparr>"
    using assms(3) Cons mb by (auto simp: socket_run_def)
  have c: "core_ok cfg sv" using assms(1) by (simp add: server_ok_core)
  note r = handle_message_ok [OF c assms(2) h(1)]
  have "seen_ok (sv_seen sv1)" using r assms(1) skip_seen_ok by (auto simp: server_ok_core)
  moreover have "length (queue_of w sv') \<le> max_socket_message_queue_depth" for w
  proof -
    have "length (queue_of w sv1) \<le> max_socket_message_queue_depth" for w
      using assms(1) queue_of_cong [OF conjunct1 [OF conjunct2 [OF r]]] by (simp add: server_ok_core)
    then show ?thesis unfolding h(2) queue_of_update by (simp add: le_diff_conv le_SucI)
  qed
  ultimately show ?thesis using r by (simp add: server_ok_core h(2))
qed

lemma close_ok:
  assumes "server_ok cfg sv" "je_limits (rq_join rq) = cfg" "socket_closed rq ws sv = Some sv'"
  shows "server_ok cfg sv'"
proof -
  define w0 where "w0 = (sv_world sv)\<lparr>w_open := removeAll ws (w_open (sv_world sv))\<rparr>"
  define sv1 where "sv1 = sv\<lparr>sv_world := remove_socket ws w0, sv_sfu := sfu_socket_closed (rq_lib rq) ws (sv_sfu sv),
      sv_lastPong := AList.delete ws (sv_lastPong sv), sv_lastPing := AList.delete ws (sv_lastPing sv)\<rparr>"
  have rooms: "w_rooms (sv_world sv1) = w_rooms (sv_world sv)" by (simp add: sv1_def w0_def remove_socket_def)
  have c1: "core_ok cfg sv1" using assms(1) world_wf_cong [OF rooms]
    by (simp add: server_ok_core core_ok_def) (simp add: sv1_def sfu_reachable.closed)
  have s1: "sv_seen sv1 = sv_seen sv" "sv_queues sv1 = sv_queues sv" by (simp_all add: sv1_def)
  have ok1: "server_ok cfg sv1" using assms(1) c1 s1 queue_of_cong [OF s1(2)] by (simp add: server_ok_core)
  have "on_world rq (handle_socket_disconnect cfg (rq_uid rq) (rq_now rq) meta) sv1 = Some sv' \<Longrightarrow> server_ok cfg sv'" for meta
    using on_world_ok [OF c1] disconnect_wf [of cfg "sv_world sv1"] c1 same_transport_ok [OF _ _ ok1] by (fastforce simp: core_ok_def)
  then show ?thesis
    using assms(2,3) ok1 by (auto simp: socket_closed_def Let_def w0_def [symmetric] sv1_def [symmetric] split: option.splits)
qed

lemma step_ok:
  assumes "server_step cfg sv sv'" "server_ok cfg sv"
  shows "server_ok cfg sv'"
  using assms
proof (cases rule: server_step.cases)
  case (step_connect now ws ip)
  have "length (queue_of w sv') \<le> max_socket_message_queue_depth" for w
    using assms(2) by (simp add: step_connect socket_connected_def queue_of_def update_conv' server_ok_def)
  then show ?thesis using assms(2) by (simp add: step_connect socket_connected_def server_ok_def world_wf_def set_socket_client_ip_def patch_socket_meta_def)
next
  case (step_receive ws m b)
  have "length (queue_of w sv') \<le> max_socket_message_queue_depth" for w
    using assms(2) by (simp add: step_receive socket_received_def queue_of_def update_conv' server_ok_def split: option.split)
  then show ?thesis using assms(2) by (simp add: step_receive socket_received_def server_ok_def)
next
  case (step_run rq ws)
  then show ?thesis using run_ok [OF assms(2)] by blast
next
  case (step_close rq ws)
  then show ?thesis using close_ok [OF assms(2)] by blast
next
  case (step_tick now)
  show ?thesis by (rule server_ok_same [OF assms(2)]) (simp_all add: step_tick heartbeat_tick_def beats_frame)
next
  case (step_pong now ws)
  show ?thesis by (rule server_ok_same [OF assms(2)]) (simp_all add: step_pong socket_pong_def Let_def split: option.split)
next
  case (step_prune now)
  have "seen_ok (prune_expired now (sv_seen sv))"
    using assms(2) by (auto simp: server_ok_def seen_ok_def prune_expired_def distinct_map_filter intro: le_trans [OF length_filter_le])
  then show ?thesis using assms(2) by (simp add: step_prune server_ok_def queue_of_def)
next
  case (step_sweep rq uids freshIds now)
  have c: "core_ok cfg sv" using assms(2) by (simp add: server_ok_core)
  have "world_wf cfg (fst (cleanup_inactive_rooms cfg uids freshIds now (sv_world sv)))"
    by (rule cleanup_wf) (use c in \<open>simp add: core_ok_def\<close>)
  then show ?thesis using on_world_ok [OF c step_sweep] same_transport_ok [OF _ _ assms(2)] by blast
next
  case (step_resolve env others roomId itemId title retry message rv w)
  have "world_wf cfg w"
    using resolve_wf [OF step_resolve(2), of "(sv_resolver sv, sv_world sv)"] step_resolve(3) assms(2) by (simp add: server_ok_def) (metis snd_conv)
  then show ?thesis using assms(2) by (simp add: step_resolve server_ok_def queue_of_def)
next
  case (step_reresolve env others roomId itemId rv w finished)
  have "world_wf cfg w"
    using reresolve_wf [OF step_reresolve(2), of "(sv_resolver sv, sv_world sv)"] step_reresolve(3) assms(2) by (simp add: server_ok_def) (metis fst_conv snd_conv)
  then show ?thesis using assms(2) by (simp add: step_reresolve server_ok_def queue_of_def)
next
  case (step_timeout now i)
  show ?thesis by (rule server_ok_same [OF assms(2)]) (simp_all add: step_timeout)
next
  case (step_worker_died observed)
  then show ?thesis using assms(2) by (simp add: server_ok_def queue_of_def sfu_reachable.died)
qed

lemma reachable_ok: "server_reachable cfg sv \<Longrightarrow> server_ok cfg sv"
proof (induction rule: server_reachable.induct)
  case (server_start sv node)
  then show ?case by (simp add: server_ok_def world_wf_def sfu_reachable.start seen_ok_def queue_of_def)
next
  case (server_next sv sv')
  then show ?case using step_ok by blast
qed


section \<open>Properties of the server\<close>

lemma length_update_le: "length (AList.update k v xs) \<le> Suc (length xs)"
  by (induction xs) auto


definition empty_media :: media_store where
  "empty_media = \<lparr>md_entries = [], md_index = [], md_invalidated = [], md_up = True, md_node = ''n1''\<rparr>"

definition demo_server :: "world \<Rightarrow> server" where
  "demo_server w = \<lparr>sv_world = w, sv_media = empty_media,
     sv_relay = \<lparr>rl_pending = [], rl_settled = [], rl_replies = [], rl_redisUp = True\<rparr>, sv_limiter = fresh_limiter,
     sv_sfu = \<lparr>sf_runtime = None, sf_owned = [], sf_node = ''n1''\<rparr>, sv_resolver = sample_resolver, sv_seen = [],
     sv_signals = [], sv_sfuOut = [], sv_malformed = [], sv_queues = [], sv_lastPong = [], sv_lastPing = [], sv_clocks = []\<rparr>"

definition empty_world :: world where
  "empty_world = sample_world\<lparr>w_rooms := []\<rparr>"




definition demo_request :: "json option \<Rightarrow> jsnum \<Rightarrow> request" where
  "demo_request j now = \<lparr>rq_now = now, rq_join = sample_env, rq_json = (\<lambda>_. j), rq_isUrl = (\<lambda>_. True), rq_isUuid = (\<lambda>_. True),
     rq_hash = (\<lambda>s p. p), rq_salt = ''s'', rq_uid = ''u'', rq_uid2 = ''v'', rq_freshId = ''f'', rq_itemId = ''i'',
     rq_lib = demo_lib ''x''\<rparr>"

definition pause_json :: json where
  "pause_json = JObj [(''type'', JStr ''playback:pause''), (''requestId'', JStr ''q''), (''payload'', JObj [])]"

lemma parse_pause: "parse_wsEnvelope pause_json =
    Some \<lparr>env_type = ''playback:pause'', env_requestId = Some ''q'', env_payload = JObj []\<rparr>"
  by (simp add: parse_wsEnvelope_def pause_json_def p_field_def p_opt_def)




lemma demo_request_ok: "request_ok sample_limits (demo_request j now) (demo_server empty_world)"
proof -
  have "fresh_in_room ''i'' r empty_world" for r
    by (simp add: fresh_in_room_def empty_world_def get_room_def)
  then show ?thesis
    using sample_env_ok by (simp add: request_ok_def demo_request_def demo_server_def fresh_objects_def
        get_data_producer_app_data_def) (simp add: sample_env_def)
qed


text \<open>The messages of a refused mutation reach no media service.\<close>

lemma denied_mutation_out:
  assumes "get_room (mc_roomId ctx) w = Some st"
    and "\<not> ok ctx (fst (reconcile_participants_connectivity st (read_ws_presence_user_ids (mc_roomId ctx) w) now))"
  shows "\<exists>es. w_out (fst (mutate_gated ok cfg freshId now ctx data body hint w)) = w_out w @ es \<and> (\<forall>e\<in>set es. \<exists>ws t c. e = ENack ws t c)"
proof -
  have "mutate_commit cfg freshId now (read_ws_presence_user_ids (mc_roomId ctx) w) (mc_userId ctx)
      (gated (ok ctx) body) hint (Some st) = None"
    using assms(2) by (simp add: mutate_commit_def gated_def Let_def split: option.split)
  moreover have "get_room (mc_roomId ctx) (reconcile_presence_refs (mc_roomId ctx) w) = Some st"
    using assms(1) get_room_cong [OF reconcile_refs_rooms] by metis
  moreover have "w_out (reconcile_presence_refs r w) = w_out w" for r w
    by (simp add: reconcile_presence_refs_def)
  ultimately have "w_out (fst (mutate_room_message cfg freshId now (mc_roomId ctx) (mc_userId ctx) (gated (ok ctx) body) hint w)) = w_out w"
    by (simp add: mutate_room_message_def Let_def update_room_def)
  then show ?thesis
    by (auto simp: mutate_gated_def send_mutation_nack_def emit_def split: prod.split)
qed

lemma perform_silent:
  "(\<forall>e\<in>set es. \<forall>sv. perform_effect rq e sv = Some sv) \<Longrightarrow> perform_effects rq es sv = Some sv"
  by (induction es) simp_all

text \<open>
  The metadata of a shared file is written before anybody asks whether the sender may change the
  playlist: a member without control who adds a local file under the id of somebody else's file takes its
  entry over, although the room refuses the message and stays as it was.
\<close>

theorem refused_add_local_takes_file_over:
  assumes "parse_addLocal (rq_isUuid rq) (env_payload data) = Some a" "is_progressive_media_mime (Some (al_mimeType a))"
    and "md_up (sv_media sv)" "get_room (mc_roomId ctx) (sv_world sv) = Some st"
    and "\<not> may_control ctx (fst (reconcile_participants_connectivity st
            (read_ws_presence_user_ids (mc_roomId ctx) (sv_world sv)) (rq_now rq)))"
  shows "\<exists>sv' e. add_local_message rq ctx data sv = Some sv' \<and>
     (\<forall>r. get_room r (sv_world sv') = get_room r (sv_world sv)) \<and>
     map_of (md_entries (sv_media sv')) (al_localMediaId a) = Some e \<and>
     le_ownerUserId e = mc_userId ctx \<and> le_roomId e = mc_roomId ctx"
proof -
  let ?w = "sv_world sv"
  let ?w1 = "emit (ERegisterLocalMedia (mc_roomId ctx) (mc_userId ctx) (al_localMediaId a)) ?w"
  let ?h = "handle_playlist_add_local (rq_isUuid rq) True (je_limits (rq_join rq)) (rq_uid rq) (rq_freshId rq) (rq_itemId rq)
      (rq_now rq) ctx data ?w"
  have h: "?h = fst (mutate_gated may_control (je_limits (rq_join rq)) (rq_freshId rq) (rq_now rq) ctx data
      (add_local_body (je_limits (rq_join rq)) (rq_uid rq) (rq_now rq) ctx (rq_itemId rq) a) HControlSnapshot ?w1)"
    using assms(1,2) by (simp add: handle_playlist_add_local_def parse_or_nack_def mutate_controlled_room_message_def)
  have w1: "get_room (mc_roomId ctx) ?w1 = Some st" "read_ws_presence_user_ids (mc_roomId ctx) ?w1 = read_ws_presence_user_ids (mc_roomId ctx) ?w"
    using assms(4) by (simp_all add: emit_def get_room_def read_ws_presence_user_ids_def alive_nodes_def room_refs_def)
  note refused = assms(5) [folded w1(2)]
  have rooms: "get_room r ?h = get_room r ?w" for r
    unfolding h using gated_denied [where ok = may_control, OF w1(1) refused] by (simp add: get_room_def)
  obtain es where es: "w_out ?h = w_out ?w1 @ es" "\<forall>e\<in>set es. \<exists>ws t c. e = ENack ws t c"
    unfolding h using denied_mutation_out [where ok = may_control, OF w1(1) refused] by blast
  have out: "drop (length (w_out ?w)) (w_out ?h) = ERegisterLocalMedia (mc_roomId ctx) (mc_userId ctx) (al_localMediaId a) # es"
    by (simp add: es(1) emit_def)
  obtain m e where m: "create_local_media_entry (rq_now rq)
      \<lparr>mi_id = al_localMediaId a, mi_roomId = mc_roomId ctx, mi_ownerUserId = mc_userId ctx, mi_filename = al_name a,
        mi_mimeType = al_mimeType a, mi_sizeBytes = al_sizeBytes a, mi_providerReady = True, mi_abrParentId = None\<rparr>
      (sv_media sv) = Some m" "map_of (md_entries m) (al_localMediaId a) = Some e" "le_ownerUserId e = mc_userId ctx" "le_roomId e = mc_roomId ctx"
    using assms(3) by (simp add: create_local_media_entry_def Let_def)
  have silent: "\<forall>e\<in>set (ERegisterLocalMedia r u i # es). \<forall>sv. perform_effect rq e sv = Some sv" for r u i
    using es(2) by (auto simp: perform_effect_def)
  have "add_local_message rq ctx data sv = Some (sv\<lparr>sv_media := m, sv_world := ?h\<rparr>)"
    using assms(1,2) m(1) perform_silent [OF silent]
    by (simp add: add_local_message_def Let_def on_world_def out del: perform_effects.simps)
  with rooms m show ?thesis by auto
qed


definition demo_add_local :: envelope where
  "demo_add_local = \<lparr>env_type = ''playlist:add:local'', env_requestId = None, env_payload =
     JObj [(''localMediaId'', JStr ''a''), (''name'', JStr ''f''), (''mimeType'', JStr ''video/mp4''), (''sizeBytes'', JNum 10)]\<rparr>"

theorem refused_add_local_takes_file_over_witness:
  "\<exists>sv' e. add_local_message (demo_request None 0) (sample_context ''gst'') demo_add_local
       ((demo_server sample_world)\<lparr>sv_media := sample_media []\<rparr>) = Some sv' \<and>
     map_of (md_entries (sample_media [])) ''a'' = Some (sample_entry ''a'' ''ann'' (Some \<lparr>ab_durationSec = 60, ab_variants = []\<rparr>)) \<and>
     map_of (md_entries (sv_media sv')) ''a'' = Some e \<and> le_ownerUserId e = ''gst''"
proof -
  let ?sv = "(demo_server sample_world)\<lparr>sv_media := sample_media []\<rparr>"
  let ?a = "\<lparr>al_localMediaId = ''a'', al_name = ''f'', al_mimeType = ''video/mp4'', al_sizeBytes = 10, al_durationSeconds = None\<rparr>"
  have name: "p_mediaTitle (JStr ''f'') = Some ''f''" by code_simp
  have parse: "parse_addLocal (rq_isUuid (demo_request None 0)) (env_payload demo_add_local) = Some ?a"
    by (simp add: parse_addLocal_def demo_add_local_def demo_request_def p_field_def p_opt_def p_localMediaId_def name p_sizeBytes_def)
  have mime: "is_progressive_media_mime (Some (al_mimeType ?a))" by simp code_simp
  have w: "sv_world ?sv = sample_world" "md_up (sv_media ?sv)" by (simp_all add: demo_server_def sample_media_def)
  have ctx: "mc_roomId (sample_context ''gst'') = ''r1''" "mc_userId (sample_context ''gst'') = ''gst''"
    by (simp_all add: sample_context_def)
  have room: "get_room (mc_roomId (sample_context ''gst'')) (sv_world ?sv) = Some sample_room"
    by (simp add: w ctx sample_world_room)
  have refused: "\<not> may_control (sample_context ''gst'') (fst (reconcile_participants_connectivity sample_room as t))" for as t
  proof -
    let ?p = "reconcile_participant t as (sample_participant ''gst'' Guest True 300)"
    have "map_of (st_participants sample_room) ''gst'' = Some (sample_participant ''gst'' Guest True 300)"
      by (simp add: sample_room_def)
    moreover have "pt_role ?p = Guest" by (simp add: sample_participant_def)
    ultimately show ?thesis
      unfolding may_control_def can_control_from_connection_context_def has_playback_and_playlist_control_def ctx
      by (simp add: can_mutate_by_role_def reconcile_participants_connectivity_def Let_def)
  qed
  from refused_add_local_takes_file_over [OF parse mime w(2) room refused]
  show ?thesis by (auto simp: ctx sample_media_def)
qed

text \<open>A tick closes exactly the sockets that were silent for longer than three ping intervals.\<close>

lemma beats_open:
  "set (w_open (sv_world (fold (beat_socket now) wss sv))) = set (w_open (sv_world sv)) -
     {ws \<in> set wss. should_terminate_for_missed_heartbeat now (map_of (sv_lastPong sv) ws) ws_heartbeat_timeout_ms}"
proof (induction wss arbitrary: sv)
  case (Cons ws wss)
  have "set (w_open (sv_world (beat_socket now ws sv))) = set (w_open (sv_world sv)) -
     (if should_terminate_for_missed_heartbeat now (map_of (sv_lastPong sv) ws) ws_heartbeat_timeout_ms then {ws} else {})"
    by (simp add: beat_socket_def)
  then show ?case by (auto simp: Cons.IH beat_frame(5) split: if_splits)
qed simp

theorem heartbeat_closes_silent_sockets:
  "ws \<in> set (w_open (sv_world (heartbeat_tick now sv))) \<longleftrightarrow>
     ws \<in> set (w_open (sv_world sv)) \<and>
     (case map_of (sv_lastPong sv) ws of None \<Rightarrow> True | Some t \<Rightarrow> now - t \<le> 15000)"
  by (auto simp: heartbeat_tick_def beats_open should_terminate_for_missed_heartbeat_def Let_def ws_heartbeat_timeout_ms_def
      ws_heartbeat_interval_ms_def split: option.splits)

end
