(* ===== verification/Native_Sync.thy ===== *)
theory Native_Sync
  imports Player_Clock
begin

text \<open>
  The tracker of an outstanding seek and of a settling pause
  (\<open>src/src/client/player/native-provider-sync.ts\<close>).  Embedded players echo a written position at once;
  a seek is believed only when a later read has moved, or is given up after a bounded number of failures.
\<close>

definition native_max_verify_failures :: nat where "native_max_verify_failures = 6"
definition native_min_confirm_ms :: real where "native_min_confirm_ms = 100"
definition native_move_toward_epsilon_sec :: real where "native_move_toward_epsilon_sec = 25 / 100"
definition native_stale_epsilon_sec :: real where "native_stale_epsilon_sec = 5 / 100"
definition native_quiesce_epsilon_sec :: real where "native_quiesce_epsilon_sec = 35 / 100"
definition native_min_sample_gap_ms :: real where "native_min_sample_gap_ms = 150"
definition native_pause_min_sample_gap_ms :: real where "native_pause_min_sample_gap_ms = 1500"
definition native_quiescent_samples :: nat where "native_quiescent_samples = 2"

definition is_native_duration_ready :: "js_number \<Rightarrow> js_number \<Rightarrow> bool" where
  "is_native_duration_ready playerDuration hintDuration =
     list_ex (\<lambda>v. v \<noteq> NotANumber \<and> js_less (Num 0) v) [playerDuration, hintDuration]"

definition has_playhead_moved_toward :: "js_number \<Rightarrow> js_number \<Rightarrow> js_number \<Rightarrow> bool" where
  "has_playhead_moved_toward fromSec currentSec targetSec =
     (case (fromSec, currentSec, targetSec) of
        (Num f, Num c, Num t) \<Rightarrow> \<bar>f - t\<bar> - \<bar>c - t\<bar> \<ge> native_move_toward_epsilon_sec
      | _ \<Rightarrow> False)"

record seek_probe =
  sp_anchorMs :: real
  sp_fromSec :: js_number
  sp_targetSec :: real
  sp_writtenAtMs :: real
  sp_lastSampleSec :: js_number
  sp_lastSampleAtMs :: real
  sp_lastNearRoom :: bool

datatype seek_verdict = VNone | VPending | VConfirmed | VGaveUp

record native_tracker =
  nt_probe :: "seek_probe option"
  nt_seekFailures :: nat
  nt_pauseSample :: "(real \<times> real) option"
  nt_stableSamples :: nat
  nt_pauseFailures :: nat
  nt_pauseSettled :: bool
  nt_pauseSeekKey :: "(real \<times> real) option"

definition create_native_sync_tracker :: native_tracker where
  "create_native_sync_tracker =
     \<lparr>nt_probe = None, nt_seekFailures = 0, nt_pauseSample = None, nt_stableSamples = 0, nt_pauseFailures = 0,
      nt_pauseSettled = False, nt_pauseSeekKey = None\<rparr>"

definition reset_pause_samples :: "native_tracker \<Rightarrow> native_tracker" where
  "reset_pause_samples t =
     t\<lparr>nt_pauseSample := None, nt_stableSamples := 0, nt_pauseFailures := 0, nt_pauseSettled := False\<rparr>"

definition tracker_reset :: "native_tracker \<Rightarrow> native_tracker" where
  "tracker_reset t = reset_pause_samples (t\<lparr>nt_probe := None, nt_seekFailures := 0, nt_pauseSeekKey := None\<rparr>)"

text \<open>A second write for the same anchor keeps the place the first one started from.\<close>

definition note_seek :: "real \<Rightarrow> js_number \<Rightarrow> real \<Rightarrow> real \<Rightarrow> native_tracker \<Rightarrow> native_tracker" where
  "note_seek anchorMs fromSec targetSec nowMs t0 =
     (let t = reset_pause_samples t0;
          fresh = t\<lparr>nt_probe := Some \<lparr>sp_anchorMs = anchorMs, sp_fromSec = fromSec, sp_targetSec = targetSec,
                      sp_writtenAtMs = nowMs, sp_lastSampleSec = fromSec, sp_lastSampleAtMs = nowMs,
                      sp_lastNearRoom = False\<rparr>,
                    nt_seekFailures := 0\<rparr>
      in case nt_probe t of
           Some p \<Rightarrow>
             if sp_anchorMs p = anchorMs
             then t\<lparr>nt_probe := Some (p\<lparr>sp_targetSec := targetSec, sp_writtenAtMs := nowMs, sp_lastNearRoom := False\<rparr>)\<rparr>
             else fresh
         | None \<Rightarrow> fresh)"

definition has_seek_probe :: "native_tracker \<Rightarrow> bool" where
  "has_seek_probe t = (nt_probe t \<noteq> None)"

definition probe_settled :: "native_tracker \<Rightarrow> native_tracker" where
  "probe_settled t = t\<lparr>nt_probe := None, nt_seekFailures := 0\<rparr>"

definition probe_failed :: "native_tracker \<Rightarrow> native_tracker \<times> seek_verdict" where
  "probe_failed t =
     (if nt_seekFailures t + 1 \<ge> native_max_verify_failures then (probe_settled t, VGaveUp)
      else (t\<lparr>nt_seekFailures := nt_seekFailures t + 1\<rparr>, VPending))"

definition evaluate_seek ::
  "real \<Rightarrow> js_number \<Rightarrow> real option \<Rightarrow> real \<Rightarrow> bool \<Rightarrow> real \<Rightarrow> native_tracker \<Rightarrow> native_tracker \<times> seek_verdict" where
  "evaluate_seek anchorMs currentSec driftSec thresholdSec roomPaused nowMs t =
     (case nt_probe t of
        None \<Rightarrow> (t, VNone)
      | Some p \<Rightarrow>
          if sp_anchorMs p \<noteq> anchorMs then (probe_settled t, VNone)
          else let sampled = p\<lparr>sp_lastSampleSec := currentSec, sp_lastSampleAtMs := nowMs\<rparr>;
                   gapOk = (nowMs - sp_lastSampleAtMs p \<ge> native_min_sample_gap_ms);
                   distance = js_distance currentSec (sp_lastSampleSec p)
               in if (case driftSec of None \<Rightarrow> True | Some d \<Rightarrow> d > thresholdSec)
                  then probe_failed (t\<lparr>nt_probe := Some sampled\<rparr>)
                  else if nowMs - sp_writtenAtMs p < native_min_confirm_ms then (t, VPending)
                  else if \<not> roomPaused
                  then (let advanced = js_at_least distance (Num native_stale_epsilon_sec);
                            t1 = t\<lparr>nt_probe := Some (sampled\<lparr>sp_lastNearRoom := True\<rparr>)\<rparr>
                        in if sp_lastNearRoom p \<and> advanced then (probe_settled t, VConfirmed)
                           else if sp_lastNearRoom p \<and> gapOk \<and> \<not> advanced then probe_failed t1
                           else (t1, VPending))
                  else (let moved = has_playhead_moved_toward (sp_fromSec p) currentSec (Num (sp_targetSec p));
                            stale = (\<not> moved \<and> gapOk \<and> js_less distance (Num native_stale_epsilon_sec))
                        in if \<not> moved \<and> stale then probe_failed (t\<lparr>nt_probe := Some sampled\<rparr>)
                           else (probe_settled t, VConfirmed)))"

text \<open>The result says whether the player is quiescent and whether the sample counted.\<close>

definition sample_pause_quiescence ::
  "js_number \<Rightarrow> bool option \<Rightarrow> real \<Rightarrow> native_tracker \<Rightarrow> native_tracker \<times> bool \<times> bool" where
  "sample_pause_quiescence currentSec wrapperPaused nowMs t =
     (case currentSec of
        Num cur \<Rightarrow>
          (case nt_pauseSample t of
             None \<Rightarrow> (t\<lparr>nt_pauseSample := Some (cur, nowMs), nt_stableSamples := 0\<rparr>, False, True)
           | Some (sec, atMs) \<Rightarrow>
               if nowMs - atMs < native_pause_min_sample_gap_ms then (t, nt_pauseSettled t, False)
               else let moved = (\<bar>cur - sec\<bar> > native_quiesce_epsilon_sec);
                        t1 = t\<lparr>nt_pauseSample := Some (cur, nowMs)\<rparr>
                    in if moved \<or> wrapperPaused = Some False
                       then let t2 = t1\<lparr>nt_stableSamples := 0, nt_pauseSettled := False, nt_pauseFailures := nt_pauseFailures t1 + 1\<rparr>
                            in if nt_pauseFailures t2 \<ge> native_max_verify_failures * 2
                               then (t2\<lparr>nt_pauseSettled := True\<rparr>, True, True)
                               else (t2, False, True)
                       else let t2 = t1\<lparr>nt_stableSamples := nt_stableSamples t1 + 1\<rparr>
                            in if nt_stableSamples t2 \<ge> native_quiescent_samples - 1
                               then (t2\<lparr>nt_pauseFailures := 0, nt_pauseSettled := True\<rparr>, True, True)
                               else (t2, False, True))
      | _ \<Rightarrow> (t, False, False))"

definition claim_pause_seek :: "real \<times> real \<Rightarrow> native_tracker \<Rightarrow> native_tracker \<times> bool" where
  "claim_pause_seek key t =
     (if nt_pauseSeekKey t = Some key then (t, False) else (t\<lparr>nt_pauseSeekKey := Some key\<rparr>, True))"

section \<open>A seek is settled\<close>

text \<open>A sample: playhead, drift, whether the room is paused, and when it was read.\<close>

type_synonym seek_sample = "js_number \<times> real option \<times> bool \<times> real"

primrec seek_verdicts :: "real \<Rightarrow> real \<Rightarrow> seek_sample list \<Rightarrow> native_tracker \<Rightarrow> seek_verdict list" where
  "seek_verdicts anchor threshold [] t = []"
| "seek_verdicts anchor threshold (x # xs) t =
     (case x of (cur, drift, paused, now) \<Rightarrow>
        (case evaluate_seek anchor cur drift threshold paused now t of
           (t1, v) \<Rightarrow> v # seek_verdicts anchor threshold xs t1))"

primrec samples_spaced :: "real \<Rightarrow> seek_sample list \<Rightarrow> bool" where
  "samples_spaced since [] = True"
| "samples_spaced since (x # xs) = (since + native_min_sample_gap_ms \<le> snd (snd (snd x)) \<and> samples_spaced (snd (snd (snd x))) xs)"

definition probe_progress :: "native_tracker \<Rightarrow> nat" where
  "probe_progress t = nt_seekFailures t + (case nt_probe t of Some p \<Rightarrow> if sp_lastNearRoom p then 1 else 0 | None \<Rightarrow> 0)"

lemma pending_evaluation_progress:
  assumes "nt_probe t = Some p" "sp_anchorMs p = anchor" "sp_lastSampleAtMs p \<le> since" "sp_writtenAtMs p \<le> since"
    and "nt_seekFailures t < native_max_verify_failures" "since + native_min_sample_gap_ms \<le> now"
    and "evaluate_seek anchor cur drift threshold paused now t = (t', VPending)"
  shows "\<exists>p'. nt_probe t' = Some p' \<and> sp_anchorMs p' = anchor \<and> sp_lastSampleAtMs p' \<le> now \<and> sp_writtenAtMs p' \<le> now \<and>
           nt_seekFailures t' < native_max_verify_failures \<and> probe_progress t < probe_progress t'"
proof -
  have "native_min_sample_gap_ms \<le> now - sp_lastSampleAtMs p" "\<not> now - sp_writtenAtMs p < native_min_confirm_ms" "sp_writtenAtMs p \<le> now"
    using assms(3,4,6) by (simp_all add: native_min_sample_gap_ms_def native_min_confirm_ms_def)
  then show ?thesis using assms(1,2,5,7)
    by (auto simp: evaluate_seek_def probe_failed_def probe_settled_def Let_def probe_progress_def
        native_max_verify_failures_def split: if_splits option.splits)
qed

lemma evaluated_probe_verdict:
  "nt_probe t = Some p \<Longrightarrow> sp_anchorMs p = anchor \<Longrightarrow>
     snd (evaluate_seek anchor cur drift threshold paused now t) \<noteq> VNone"
  by (simp add: evaluate_seek_def probe_failed_def Let_def split: option.split)

lemma probe_progress_le: "nt_seekFailures t < native_max_verify_failures \<Longrightarrow> probe_progress t \<le> 6"
  by (simp add: probe_progress_def native_max_verify_failures_def split: option.split)

lemma seek_verdicts_settle:
  assumes "nt_probe t = Some p" "sp_anchorMs p = anchor" "sp_lastSampleAtMs p \<le> since" "sp_writtenAtMs p \<le> since"
    and "nt_seekFailures t < native_max_verify_failures" "samples_spaced since xs" "length xs + probe_progress t > 6"
  shows "\<exists>v \<in> set (seek_verdicts anchor threshold xs t). v = VConfirmed \<or> v = VGaveUp"
  using assms
proof (induction xs arbitrary: t p since)
  case Nil
  then show ?case using probe_progress_le [OF Nil.prems(5)] by simp
next
  case (Cons x xs)
  obtain cur drift paused now where x: "x = (cur, drift, paused, now)" by (cases x) auto
  obtain t' v where e: "evaluate_seek anchor cur drift threshold paused now t = (t', v)" by fastforce
  show ?case
  proof (cases "v = VPending")
    case True
    from pending_evaluation_progress [OF Cons.prems(1-5) _ e [unfolded True]] Cons.prems(6) x
    obtain p' where p': "nt_probe t' = Some p'" "sp_anchorMs p' = anchor" "sp_lastSampleAtMs p' \<le> now" "sp_writtenAtMs p' \<le> now"
      "nt_seekFailures t' < native_max_verify_failures" "probe_progress t < probe_progress t'" by auto
    have "\<exists>v \<in> set (seek_verdicts anchor threshold xs t'). v = VConfirmed \<or> v = VGaveUp"
      by (rule Cons.IH [OF p'(1-5)]) (use Cons.prems(6,7) x p'(6) in auto)
    then show ?thesis by (simp add: x e)
  next
    case False
    moreover have "v \<noteq> VNone" using evaluated_probe_verdict [OF Cons.prems(1,2)] e by (metis snd_conv)
    ultimately show ?thesis by (cases v) (simp_all add: x e)
  qed
qed

text \<open>
  An outstanding seek does not hold a player back for ever: whatever the player reports, of any seven reads
  at least 150 ms apart one confirms the seek or gives it up.
\<close>

theorem seek_probe_settles:
  assumes "samples_spaced writtenAt xs" "7 \<le> length xs"
  shows "\<exists>v \<in> set (seek_verdicts anchor threshold (take 7 xs)
             (note_seek anchor fromSec target writtenAt create_native_sync_tracker)). v = VConfirmed \<or> v = VGaveUp"
proof (rule seek_verdicts_settle)
  have "samples_spaced s ys \<Longrightarrow> samples_spaced s (take n ys)" for s ys n
    by (induction ys arbitrary: n s) (auto simp: take_Cons')
  then show "samples_spaced writtenAt (take 7 xs)" using assms(1) .
qed (insert assms(2), (simp add: note_seek_def create_native_sync_tracker_def reset_pause_samples_def probe_progress_def
       native_max_verify_failures_def)+)

text \<open>A player that reports the written place and never moves from it is given up at the seventh read.\<close>

theorem seek_probe_settles_witness:
  "\<exists>v \<in> set (seek_verdicts 0 1 (take 7 (map (\<lambda>k. (Num 10, Some 0, False, 200 * k)) [1, 2, 3, 4, 5, 6, 7, 8]))
       (note_seek 0 (Num 0) 10 0 create_native_sync_tracker)). v = VConfirmed \<or> v = VGaveUp"
  by (rule seek_probe_settles) (simp_all add: native_min_sample_gap_ms_def)

end
