(* ===== verification/Player_Apply.thy ===== *)
theory Player_Apply
  imports Player_Clock
begin

text \<open>
  Writing the room's clock to a player (\<open>src/src/client/player/apply-playback-sync.ts\<close>).  A player is a
  wrapper with, for HTML media, an element below it; how the browser answers a write is a parameter, and
  a write that throws is one of its answers, since every write of the code is guarded.
\<close>

record media_el =
  el_currentTime :: js_number
  el_paused :: bool
  el_muted :: bool
  el_playbackRate :: js_number

record player =
  pl_currentTime :: js_number
  pl_playbackRate :: js_number
  pl_duration :: js_number
  pl_seekableEnd :: js_number
  pl_mediaEl :: "media_el option"
  pl_paused :: "bool option"

text \<open>The answers of the browser; \<open>pv_play\<close> and \<open>pv_el_play\<close> are the state once a play was asked for.\<close>

record provider =
  pv_write_time :: "real \<Rightarrow> player \<Rightarrow> player"
  pv_write_el_time :: "real \<Rightarrow> player \<Rightarrow> player"
  pv_write_rate :: "real \<Rightarrow> player \<Rightarrow> player"
  pv_write_el_rate :: "real \<Rightarrow> player \<Rightarrow> player"
  pv_pause :: "player \<Rightarrow> player"
  pv_el_pause :: "player \<Rightarrow> player"
  pv_play :: "player \<Rightarrow> player"
  pv_el_play :: "player \<Rightarrow> player"
  pv_el_mute :: "bool \<Rightarrow> player \<Rightarrow> player"

definition has_el :: "player \<Rightarrow> bool" where
  "has_el p = (pl_mediaEl p \<noteq> None)"

definition read_player_playhead_sec :: "player \<Rightarrow> js_number" where
  "read_player_playhead_sec p =
     (case map_option el_currentTime (pl_mediaEl p) of
        Some (Num t) \<Rightarrow> Num t
      | _ \<Rightarrow> pl_currentTime p)"

definition write_current_time :: "provider \<Rightarrow> real \<Rightarrow> player \<Rightarrow> player" where
  "write_current_time pv v p =
     (let p1 = pv_write_time pv v p in if has_el p1 then pv_write_el_time pv v p1 else p1)"

definition write_playback_rate :: "provider \<Rightarrow> real \<Rightarrow> player \<Rightarrow> player" where
  "write_playback_rate pv v p =
     (let p1 = pv_write_rate pv v p in if has_el p1 then pv_write_el_rate pv v p1 else p1)"

definition is_hls_wrapper_media_echo :: "js_number option \<Rightarrow> js_number option \<Rightarrow> js_number \<Rightarrow> real \<Rightarrow> bool" where
  "is_hls_wrapper_media_echo mediaSec wrapperSec referenceSec threshold =
     (case (mediaSec, wrapperSec, referenceSec) of
        (Some (Num m), Some (Num w), Num r) \<Rightarrow> \<bar>m - r\<bar> > threshold \<and> \<bar>w - r\<bar> \<le> threshold
      | _ \<Rightarrow> False)"

record clock_result =
  cr_seekAttempted :: bool
  cr_driftSec :: "real option"
  cr_playheadBeforeSec :: "real option"
  cr_targetSec :: "real option"

record apply_config =
  ac_threshold :: "js_number option"
  ac_seekableEnd :: js_number
  ac_durationHint :: js_number
  ac_isLive :: bool
  ac_effectiveRate :: "js_number option"
  ac_seekLead :: js_number
  ac_allowAhead :: js_number

definition seek_target :: "real option \<Rightarrow> real \<Rightarrow> real" where
  "seek_target ceil expected = (case ceil of Some c \<Rightarrow> min expected c | None \<Rightarrow> expected)"

definition apply_playback_clock_to_player ::
  "provider \<Rightarrow> sync_state \<Rightarrow> apply_config \<Rightarrow> real \<Rightarrow> player \<Rightarrow> player \<times> clock_result" where
  "apply_playback_clock_to_player pv ss ac nowMs p0 =
     (let orZero = (\<lambda>x. case positive_number x of Some r \<Rightarrow> r | None \<Rightarrow> 0);
          seekLead = orZero (ac_seekLead ac); allowAhead = orZero (ac_allowAhead ac);
          threshold = (case ac_threshold ac of Some t \<Rightarrow> t | None \<Rightarrow> Num default_playback_drift_threshold_sec);
          p1 = (case finite_number (case ac_effectiveRate ac of Some r \<Rightarrow> r | None \<Rightarrow> Num (ss_playbackRate ss)) of
                  Some r \<Rightarrow> write_playback_rate pv r p0 | None \<Rightarrow> p0);
          expected = compute_expected_playback_time_sec ss nowMs;
          duration = pl_duration p1;
          seekableEnd = (if finite_number (ac_seekableEnd ac) \<noteq> None then ac_seekableEnd ac else pl_seekableEnd p1);
          ceil = resolve_seek_ceiling_sec duration seekableEnd (ac_durationHint ac) (ac_isLive ac);
          authority = seek_target ceil expected;
          writeTarget = seek_target ceil (expected + seekLead);
          before = finite_number (read_player_playhead_sec p1);
          seek = (case before of None \<Rightarrow> False
                  | Some b \<Rightarrow> is_playback_drift_beyond_threshold b authority threshold allowAhead);
          p2 = (if seek then write_current_time pv writeTarget p1 else p1)
      in (p2, \<lparr>cr_seekAttempted = seek,
               cr_driftSec = measure_playback_drift_sec (read_player_playhead_sec p2) ss nowMs duration seekableEnd
                 (ac_durationHint ac) (ac_isLive ac) allowAhead,
               cr_playheadBeforeSec = before, cr_targetSec = Some writeTarget\<rparr>))"

definition is_syncable_player_playing :: "player \<Rightarrow> bool" where
  "is_syncable_player_playing p =
     (case pl_mediaEl p of Some el \<Rightarrow> \<not> el_paused el | None \<Rightarrow> pl_paused p = Some False \<or> pl_paused p = None)"

definition escalate_seek_while_paused :: "provider \<Rightarrow> real \<Rightarrow> player \<Rightarrow> player" where
  "escalate_seek_while_paused pv targetSec p0 =
     (case pl_mediaEl p0 of
        None \<Rightarrow> p0
      | Some el \<Rightarrow>
          (let wasMuted = el_muted el;
               p1 = pv_el_mute pv True p0;
               p2 = pv_el_play pv p1;
               p3 = write_current_time pv targetSec p2;
               p4 = pv_el_pause pv p3;
               p5 = pv_pause pv p4
           in pv_el_mute pv wasMuted p5))"

definition nudge_playback_transport :: "provider \<Rightarrow> bool \<Rightarrow> player \<Rightarrow> player" where
  "nudge_playback_transport pv paused p =
     (if paused then (let p1 = pv_pause pv p in if has_el p1 then pv_el_pause pv p1 else p1)
      else if is_syncable_player_playing p then p
      else (let p1 = pv_play pv p
            in case pl_mediaEl p1 of Some el \<Rightarrow> if el_paused el then pv_el_play pv p1 else p1 | None \<Rightarrow> p1))"

datatype sync_mode = ClockMode | FullMode

definition apply_playback_sync_to_player ::
  "provider \<Rightarrow> sync_mode \<Rightarrow> sync_state \<Rightarrow> apply_config \<Rightarrow> real \<Rightarrow> player \<Rightarrow> player \<times> clock_result" where
  "apply_playback_sync_to_player pv mode ss ac nowMs p =
     (case apply_playback_clock_to_player pv ss ac nowMs p of
        (p1, r) \<Rightarrow> (case mode of ClockMode \<Rightarrow> (p1, r) | FullMode \<Rightarrow> (nudge_playback_transport pv (ss_paused ss) p1, r)))"

section \<open>What a write of the clock does\<close>

text \<open>
  A seek goes to the room's time, cut at the end of the medium, and is written exactly when the playhead
  is further from it than the threshold.
\<close>

lemma clock_result_simps:
  assumes "apply_playback_clock_to_player pv ss ac nowMs p = (p', r)"
  shows "cr_targetSec r \<noteq> None"
    and "cr_seekAttempted r \<Longrightarrow> cr_playheadBeforeSec r \<noteq> None"
  using assms by (auto simp: apply_playback_clock_to_player_def Let_def split: option.splits)

end
