(* ===== verification/Sync_Engine.thy ===== *)
theory Sync_Engine
  imports Native_Sync Player_Apply
begin

text \<open>
  The engine that keeps one player at the room's clock
  (\<open>src/src/client/player/playback-sync-engine.ts\<close>): applying the clock, the verify burst after a new
  anchor, the watchdog, the transport nudges, the local catch-up rate and the budgets of an anchor.  The
  state holds the engine's variables and what its host hands it.  One clock value is read per operation;
  a timer fires whenever the environment says so.  With the adapter of
  \<open>to-syncable-player.ts\<close> every read answers the present player and no call throws.
\<close>

section \<open>State\<close>

datatype engine_phase = EIdle | EApplying | EVerifying
datatype playback_sync_phase = PhaseIdle | PhaseApplying | PhaseVerifying | PhaseHoldingLocalSeek

definition watchdog_interval_ms :: real where "watchdog_interval_ms = 1000"
definition anchor_retry_delays_ms :: "real list" where "anchor_retry_delays_ms = [200, 600, 1200, 2400, 4000, 6000]"
definition max_force_seeks_per_anchor :: nat where "max_force_seeks_per_anchor = 6"
definition catch_up_stall_min_advance_sec :: real where "catch_up_stall_min_advance_sec = 15 / 100"
definition catch_up_stall_window_ms :: real where "catch_up_stall_window_ms = 800"
definition catch_up_stall_post_seek_grace_ms :: real where "catch_up_stall_post_seek_grace_ms = 2500"

record anchor_budget =
  ab_anchorMs :: real
  ab_count :: nat

definition reset_anchor_budget :: "anchor_budget \<Rightarrow> real \<Rightarrow> anchor_budget" where
  "reset_anchor_budget b anchorMs = (if ab_anchorMs b = anchorMs then b else \<lparr>ab_anchorMs = anchorMs, ab_count = 0\<rparr>)"

definition try_consume_anchor_budget :: "anchor_budget \<Rightarrow> real \<Rightarrow> nat \<Rightarrow> anchor_budget \<times> bool" where
  "try_consume_anchor_budget b anchorMs limit =
     (let next = reset_anchor_budget b anchorMs
      in if ab_count next \<ge> limit then (next, False) else (next\<lparr>ab_count := ab_count next + 1\<rparr>, True))"

record sync_engine =
  h_player :: player
  h_mounted :: bool
  h_mediaReady :: bool
  h_playback :: pending_sync_input
  h_pendingSync :: "sync_state option"
  h_lastAppliedAnchorMs :: "real option"
  h_authorityPaused :: bool
  h_tuning :: "sync_tuning option"
  h_durationHint :: js_number
  h_catchUpRate :: "real option"
  h_lastRttMs :: real
  en_phase :: engine_phase
  en_holdLocalSeek :: bool
  en_started :: bool
  en_disposed :: bool
  en_watchdog :: bool
  en_retryTimers :: "(real \<times> real) list"
  en_pauseTimers :: "(real \<times> bool) list"
  en_initialSnapPending :: bool
  en_forceSeeks :: anchor_budget
  en_escalations :: anchor_budget
  en_catchUpStall :: "(real \<times> real) option"
  en_lastSeekMs :: "real option"
  en_native :: native_tracker
  en_durationGated :: bool

definition create_playback_sync_engine :: "sync_engine \<Rightarrow> sync_engine" where
  "create_playback_sync_engine host =
     host\<lparr>en_phase := EIdle, en_holdLocalSeek := False, en_started := False, en_disposed := False, en_watchdog := False,
          en_retryTimers := [], en_pauseTimers := [], en_initialSnapPending := True,
          en_forceSeeks := \<lparr>ab_anchorMs = 0, ab_count = 0\<rparr>, en_escalations := \<lparr>ab_anchorMs = 0, ab_count = 0\<rparr>,
          en_catchUpStall := None, en_lastSeekMs := None, en_native := create_native_sync_tracker,
          en_durationGated := False\<rparr>"

definition on_player :: "(player \<Rightarrow> player) \<Rightarrow> sync_engine \<Rightarrow> sync_engine" where
  "on_player f st = st\<lparr>h_player := f (h_player st)\<rparr>"

datatype drift_plan = PlanNoop sync_state | PlanClear sync_state | PlanApply sync_state

definition plan_playback_drift_correction ::
  "sync_state option \<Rightarrow> pending_sync_input \<Rightarrow> real option \<Rightarrow> real \<Rightarrow> drift_plan" where
  "plan_playback_drift_correction pending playback driftSec threshold =
     (let ss = (case pending of Some s \<Rightarrow> s | None \<Rightarrow> pending_sync_from_playback playback)
      in case driftSec of
           None \<Rightarrow> PlanNoop ss
         | Some d \<Rightarrow> if d \<le> threshold then PlanClear ss else PlanApply ss)"

section \<open>Reads of the host\<close>

definition is_native_sync :: "sync_engine \<Rightarrow> bool" where
  "is_native_sync st = (case h_tuning st of Some t \<Rightarrow> tu_nativeProvider t | None \<Rightarrow> False)"

definition is_catalog_live :: "sync_engine \<Rightarrow> bool" where
  "is_catalog_live st = (h_durationHint st = PosInfinity)"

definition vod_duration_hint_sec :: "sync_engine \<Rightarrow> js_number" where
  "vod_duration_hint_sec st = (if h_durationHint st = PosInfinity then NotANumber else h_durationHint st)"

definition native_duration_ready :: "sync_engine \<Rightarrow> bool" where
  "native_duration_ready st = is_native_duration_ready (pl_duration (h_player st)) (h_durationHint st)"

definition should_seek_confirm :: "sync_state \<Rightarrow> bool \<Rightarrow> bool" where
  "should_seek_confirm ss nativeMode = (nativeMode \<or> \<not> ss_paused ss)"

definition soft_drift_threshold_sec :: "sync_engine \<Rightarrow> real" where
  "soft_drift_threshold_sec st = resolve_playback_drift_threshold_sec (Num (h_lastRttMs st)) default_playback_drift_threshold_sec"

definition playing_seek_lead_sec :: real where "playing_seek_lead_sec = force_seek_lead_sec"

definition finite_seekable_end :: "player \<Rightarrow> js_number" where
  "finite_seekable_end p = (if finite_number (pl_seekableEnd p) \<noteq> None then pl_seekableEnd p else NotANumber)"

definition measure_drift :: "sync_state \<Rightarrow> real \<Rightarrow> sync_engine \<Rightarrow> real option" where
  "measure_drift ss nowMs st =
     measure_playback_drift_sec (read_player_playhead_sec (h_player st)) ss nowMs (pl_duration (h_player st))
       (finite_seekable_end (h_player st)) (vod_duration_hint_sec st) (is_catalog_live st) playing_seek_lead_sec"

definition retry_delays_ms :: "sync_engine \<Rightarrow> real list" where
  "retry_delays_ms st =
     (case Option.bind (h_tuning st) tu_retryDelaysMs of Some ds \<Rightarrow> ds | None \<Rightarrow> anchor_retry_delays_ms)"

definition pause_retry_delays_ms :: "sync_engine \<Rightarrow> real list" where
  "pause_retry_delays_ms st =
     (case Option.bind (h_tuning st) tu_pauseRetryDelaysMs of
        Some ds \<Rightarrow> ds
      | None \<Rightarrow> (case Option.bind (h_tuning st) tu_retryDelaysMs of Some ds \<Rightarrow> ds | None \<Rightarrow> anchor_retry_delays_ms))"

definition max_force_seeks :: "sync_engine \<Rightarrow> nat" where
  "max_force_seeks st =
     (case Option.bind (h_tuning st) tu_maxForceSeeksPerAnchor of Some n \<Rightarrow> n | None \<Rightarrow> max_force_seeks_per_anchor)"

definition resolve_phase :: "sync_engine \<Rightarrow> playback_sync_phase" where
  "resolve_phase st =
     (if en_holdLocalSeek st then PhaseHoldingLocalSeek
      else case en_phase st of EIdle \<Rightarrow> PhaseIdle | EApplying \<Rightarrow> PhaseApplying | EVerifying \<Rightarrow> PhaseVerifying)"

section \<open>The local catch-up rate and the stall probe\<close>

definition clear_catch_up_rate :: "provider \<Rightarrow> sync_engine \<Rightarrow> sync_engine" where
  "clear_catch_up_rate pv st =
     (if h_catchUpRate st = None then st
      else let st1 = st\<lparr>h_catchUpRate := None\<rparr> in
           if h_mounted st1 then on_player (write_playback_rate pv (pi_playbackRate (h_playback st1))) st1 else st1)"

definition note_seek_attempt :: "real \<Rightarrow> sync_engine \<Rightarrow> sync_engine" where
  "note_seek_attempt nowMs st = st\<lparr>en_lastSeekMs := Some nowMs, en_catchUpStall := None\<rparr>"

definition read_stall_media_sec :: "player \<Rightarrow> real option" where
  "read_stall_media_sec p =
     (case pl_mediaEl p of
        Some el \<Rightarrow> finite_number (el_currentTime el)
      | None \<Rightarrow> finite_number (read_player_playhead_sec p))"

definition should_escalate_catch_up_stall ::
  "real \<Rightarrow> sync_state \<Rightarrow> real option \<Rightarrow> sync_engine \<Rightarrow> sync_engine \<times> bool" where
  "should_escalate_catch_up_stall nowMs ss driftSec st =
     (let cleared = st\<lparr>en_catchUpStall := None\<rparr> in
      if ss_paused ss \<or> (case driftSec of None \<Rightarrow> True | Some d \<Rightarrow> d \<le> soft_drift_threshold_sec st) then (cleared, False)
      else case read_stall_media_sec (h_player st) of
             None \<Rightarrow> (st, False)
           | Some mediaSec \<Rightarrow>
               if (case en_lastSeekMs st of Some t \<Rightarrow> nowMs - t < catch_up_stall_post_seek_grace_ms | None \<Rightarrow> False)
               then (cleared, False)
               else (case en_catchUpStall st of
                       None \<Rightarrow> (st\<lparr>en_catchUpStall := Some (nowMs, mediaSec)\<rparr>, False)
                     | Some (atMs, sec) \<Rightarrow>
                         if nowMs - atMs < catch_up_stall_window_ms then (st, False)
                         else if mediaSec - sec \<ge> catch_up_stall_min_advance_sec
                         then (st\<lparr>en_catchUpStall := Some (nowMs, mediaSec)\<rparr>, False)
                         else (cleared, True)))"

definition activate_catch_up_rate :: "provider \<Rightarrow> sync_state \<Rightarrow> real \<Rightarrow> sync_engine \<Rightarrow> sync_engine \<times> real option" where
  "activate_catch_up_rate pv ss driftSec st =
     (case resolve_catch_up_playback_rate (Num (ss_playbackRate ss)) (Num driftSec) (soft_drift_threshold_sec st) of
        None \<Rightarrow> (st, None)
      | Some rate \<Rightarrow> (on_player (write_playback_rate pv rate) (st\<lparr>h_catchUpRate := Some rate\<rparr>), Some rate))"

section \<open>Transport\<close>

definition clear_retry_timers :: "sync_engine \<Rightarrow> sync_engine" where
  "clear_retry_timers st = st\<lparr>en_retryTimers := []\<rparr>"

definition clear_transport_nudge :: "sync_engine \<Rightarrow> sync_engine" where
  "clear_transport_nudge st = st\<lparr>en_pauseTimers := []\<rparr>"

definition is_playing_against_pause :: "sync_engine \<Rightarrow> bool" where
  "is_playing_against_pause st = (h_authorityPaused st \<and> is_syncable_player_playing (h_player st))"

definition settle_native_pause :: "provider \<Rightarrow> real \<Rightarrow> sync_engine \<Rightarrow> sync_engine \<times> bool" where
  "settle_native_pause pv nowMs st =
     (case sample_pause_quiescence (read_player_playhead_sec (h_player st)) (pl_paused (h_player st)) nowMs (en_native st) of
        (t, quiescent, _) \<Rightarrow>
          (let st1 = st\<lparr>en_native := t\<rparr> in if quiescent then (st1, True) else (on_player (pv_pause pv) st1, False)))"

definition reconcile_paused_transport :: "provider \<Rightarrow> sync_engine \<Rightarrow> sync_engine \<times> bool" where
  "reconcile_paused_transport pv st =
     (if \<not> is_playing_against_pause st then (st, False) else (on_player (nudge_playback_transport pv True) st, True))"

definition reconcile_playing_transport :: "provider \<Rightarrow> sync_engine \<Rightarrow> sync_engine \<times> bool" where
  "reconcile_playing_transport pv st =
     (if h_authorityPaused st \<or> is_syncable_player_playing (h_player st) then (st, False)
      else (on_player (nudge_playback_transport pv False) st, True))"

definition schedule_transport_burst :: "bool \<Rightarrow> sync_engine \<Rightarrow> sync_engine" where
  "schedule_transport_burst paused st =
     (if \<not> paused \<and> h_authorityPaused st then st
      else (clear_transport_nudge st)\<lparr>en_pauseTimers := map (\<lambda>d. (d, paused)) (pause_retry_delays_ms st)\<rparr>)"

definition transport_timer_fires :: "provider \<Rightarrow> real \<Rightarrow> bool \<Rightarrow> sync_engine \<Rightarrow> sync_engine" where
  "transport_timer_fires pv nowMs paused st =
     (if en_disposed st then st
      else if paused
      then (if \<not> h_authorityPaused st \<or> \<not> h_mounted st then st
            else if is_native_sync st then fst (settle_native_pause pv nowMs st)
            else if \<not> is_syncable_player_playing (h_player st) then st
            else on_player (nudge_playback_transport pv True) st)
      else if \<not> h_mediaReady st \<or> h_authorityPaused st then st
      else if \<not> h_mounted st \<or> is_syncable_player_playing (h_player st) then st
      else on_player (nudge_playback_transport pv False) st)"

definition schedule_anchor_verify_burst :: "real \<Rightarrow> sync_engine \<Rightarrow> sync_engine" where
  "schedule_anchor_verify_burst anchorMs st =
     (let st1 = (clear_retry_timers st)\<lparr>en_forceSeeks := reset_anchor_budget (en_forceSeeks st) anchorMs,
                  en_escalations := reset_anchor_budget (en_escalations st) anchorMs\<rparr>
      in if en_holdLocalSeek st1 then st1
         else let st2 = (if en_phase st1 \<noteq> EApplying then st1\<lparr>en_phase := EVerifying\<rparr> else st1)
              in st2\<lparr>en_retryTimers := map (\<lambda>d. (d, anchorMs)) (retry_delays_ms st2)\<rparr>)"

section \<open>Applying the clock\<close>

record gate =
  g_native :: bool
  g_gated :: bool
  g_reapply :: bool
  g_initialSnap :: bool
  g_threshold :: "js_number option"

definition gate_apply :: "sync_state \<Rightarrow> js_number option \<Rightarrow> sync_engine \<Rightarrow> sync_engine \<times> gate" where
  "gate_apply ss driftThreshold st =
     (let nativeMode = is_native_sync st;
          gated = (nativeMode \<and> \<not> native_duration_ready st);
          st1 = (if gated then st\<lparr>en_durationGated := True\<rparr> else st);
          reapply = (nativeMode \<and> \<not> gated \<and> en_durationGated st1);
          st2 = (if reapply then st1\<lparr>en_durationGated := False\<rparr> else st1);
          isInitialSnap = (\<not> gated \<and> en_initialSnapPending st2 \<and> h_mediaReady st2);
          threshold = (case driftThreshold of Some t \<Rightarrow> Some t | None \<Rightarrow> if isInitialSnap \<or> reapply then Some (Num 0) else None);
          g = \<lparr>g_native = nativeMode, g_gated = gated, g_reapply = reapply, g_initialSnap = isInitialSnap,
               g_threshold = threshold\<rparr>
      in if gated then (st2, g\<lparr>g_threshold := Some PosInfinity\<rparr>)
         else if nativeMode \<and> ss_paused ss \<and> threshold = None
         then (case claim_pause_seek (ss_timelineAnchorMs ss, ss_serverNowMs ss) (en_native st2) of
                 (t, claimed) \<Rightarrow> (st2\<lparr>en_native := t\<rparr>, if claimed then g\<lparr>g_threshold := Some (Num 0)\<rparr> else g))
         else (st2, g))"

text \<open>The threshold of the write, whether the rate is to catch up instead, and the rate to write.\<close>

definition plan_apply ::
  "sync_state \<Rightarrow> js_number option \<Rightarrow> gate \<Rightarrow> real option \<Rightarrow> sync_engine \<Rightarrow> js_number option \<times> bool \<times> real option" where
  "plan_apply ss driftThreshold g driftBefore st =
     (let soft = soft_drift_threshold_sec st;
          t1 = (if should_seek_confirm ss (g_native g) \<and> has_seek_probe (en_native st) \<and> driftThreshold = None
                   \<and> g_threshold g = Some (Num 0) \<and> (case driftBefore of Some d \<Rightarrow> d \<le> soft | None \<Rightarrow> False)
                then Some PosInfinity else g_threshold g);
          forcing = (driftThreshold \<noteq> None \<or> t1 = Some (Num 0) \<or> (case t1 of Some t \<Rightarrow> js_less t (Num soft) | None \<Rightarrow> False));
          catchUp = (\<not> g_native g \<and> \<not> ss_paused ss \<and> \<not> g_gated g \<and> \<not> forcing
                     \<and> (case driftBefore of Some d \<Rightarrow> is_catch_up_drift_band (Num d) soft | None \<Rightarrow> False));
          t2 = (if catchUp then Some PosInfinity else t1);
          rate = (if catchUp
                  then Option.bind driftBefore (\<lambda>d. resolve_catch_up_playback_rate (Num (ss_playbackRate ss)) (Num d) soft)
                  else if g_native g \<or> ss_paused ss then None else h_catchUpRate st)
      in (t2, catchUp, rate))"

definition write_clock ::
  "provider \<Rightarrow> real \<Rightarrow> sync_state \<Rightarrow> js_number option \<Rightarrow> real option \<Rightarrow> sync_engine \<Rightarrow> sync_engine \<times> clock_result" where
  "write_clock pv nowMs ss threshold rate st =
     (let lead = (if playing_seek_lead_sec > 0 \<and> threshold = Some (Num 0) then playing_seek_lead_sec else 0) in
      case apply_playback_sync_to_player pv ClockMode ss
             \<lparr>ac_threshold = threshold, ac_seekableEnd = finite_seekable_end (h_player st),
              ac_durationHint = vod_duration_hint_sec st, ac_isLive = is_catalog_live st,
              ac_effectiveRate = Some (Num (case rate of Some r \<Rightarrow> r | None \<Rightarrow> ss_playbackRate ss)),
              ac_seekLead = Num lead, ac_allowAhead = Num playing_seek_lead_sec\<rparr> nowMs (h_player st) of
        (p, r) \<Rightarrow> (st\<lparr>h_player := p\<rparr>, r))"

definition confirm_apply ::
  "real \<Rightarrow> sync_state \<Rightarrow> gate \<Rightarrow> js_number \<Rightarrow> clock_result \<Rightarrow> sync_engine \<Rightarrow> sync_engine \<times> bool" where
  "confirm_apply nowMs ss g playheadBefore result st =
     (let st1 = (if g_gated g then st else st\<lparr>h_lastAppliedAnchorMs := Some (ss_timelineAnchorMs ss)\<rparr>);
          st2 = (if cr_seekAttempted result then note_seek_attempt nowMs st1 else st1)
      in if should_seek_confirm ss (g_native g) \<and> \<not> g_gated g
         then (case (cr_seekAttempted result, cr_targetSec result) of
                 (True, Some target) \<Rightarrow>
                   (st2\<lparr>en_native := note_seek (ss_timelineAnchorMs ss) playheadBefore target nowMs (en_native st2)\<rparr>, True)
               | _ \<Rightarrow>
                   if has_seek_probe (en_native st2)
                   then (case evaluate_seek (ss_timelineAnchorMs ss) (read_player_playhead_sec (h_player st2)) (cr_driftSec result)
                                (soft_drift_threshold_sec st2) (ss_paused ss) nowMs (en_native st2) of
                           (t, v) \<Rightarrow> (st2\<lparr>en_native := t\<rparr>, v = VPending))
                   else (st2, False))
         else (st2, False))"

definition echo_unconfirmed :: "gate \<Rightarrow> clock_result \<Rightarrow> sync_engine \<Rightarrow> bool" where
  "echo_unconfirmed g result st =
     (\<not> g_native g \<and> cr_seekAttempted result \<and>
      (case cr_targetSec result of
         None \<Rightarrow> False
       | Some target \<Rightarrow>
           is_hls_wrapper_media_echo (map_option el_currentTime (pl_mediaEl (h_player st)))
             (Some (pl_currentTime (h_player st))) (Num target) default_playback_drift_threshold_sec))"

definition escalate_apply ::
  "provider \<Rightarrow> real \<Rightarrow> sync_state \<Rightarrow> gate \<Rightarrow> clock_result \<Rightarrow> sync_engine \<Rightarrow> sync_engine" where
  "escalate_apply pv nowMs ss g result st =
     (case (cr_targetSec result, Option.bind (pl_mediaEl (h_player st)) (\<lambda>el. finite_number (el_currentTime el)),
            measure_drift ss nowMs st) of
        (Some target, Some media, Some drift) \<Rightarrow>
          if \<not> g_native g \<and> ss_paused ss \<and> cr_seekAttempted result \<and> \<bar>media - target\<bar> > soft_drift_threshold_sec st
             \<and> drift > soft_drift_threshold_sec st
          then (case try_consume_anchor_budget (en_escalations st) (ss_timelineAnchorMs ss) (max_force_seeks st) of
                  (b, consumed) \<Rightarrow>
                    (let st1 = st\<lparr>en_escalations := b\<rparr>
                     in if consumed
                        then note_seek_attempt nowMs (on_player (escalate_seek_while_paused pv target) st1)
                        else st1))
          else st
      | _ \<Rightarrow> st)"

definition transport_apply :: "provider \<Rightarrow> sync_state \<Rightarrow> sync_engine \<Rightarrow> sync_engine" where
  "transport_apply pv ss st =
     (if \<not> ss_paused ss \<and> \<not> is_syncable_player_playing (h_player st)
      then schedule_transport_burst False
             (on_player (nudge_playback_transport pv False) (st\<lparr>en_native := reset_pause_samples (en_native st)\<rparr>))
      else if ss_paused ss
      then schedule_transport_burst True
             (if is_syncable_player_playing (h_player st) then on_player (nudge_playback_transport pv True) st else st)
      else (clear_transport_nudge st)\<lparr>en_native := reset_pause_samples (en_native st)\<rparr>)"

definition settle_apply ::
  "provider \<Rightarrow> real \<Rightarrow> sync_state \<Rightarrow> gate \<Rightarrow> bool \<Rightarrow> bool \<Rightarrow> real option \<Rightarrow> sync_engine \<Rightarrow> sync_engine \<times> bool" where
  "settle_apply pv nowMs ss g seekConfirmPending echo driftSec st =
     (let (st1, unsettled) =
            (if g_native g \<and> \<not> g_gated g \<and> ss_paused ss
             then (case settle_native_pause pv nowMs st of (s, q) \<Rightarrow> (s, \<not> q)) else (st, False));
          playing = is_syncable_player_playing (h_player st1);
          pauseUnconverged = ((ss_paused ss \<and> playing) \<or> unsettled);
          playUnconverged = (\<not> ss_paused ss \<and> \<not> playing);
          stillDrifting = (g_gated g \<or> seekConfirmPending \<or> echo
             \<or> (case driftSec of None \<Rightarrow> True | Some d \<Rightarrow> d > soft_drift_threshold_sec st1)
             \<or> pauseUnconverged \<or> playUnconverged);
          st2 = (if \<not> stillDrifting \<and> \<not> g_gated g \<and> h_mediaReady st1 then st1\<lparr>en_initialSnapPending := False\<rparr> else st1)
      in (st2\<lparr>h_pendingSync := (if stillDrifting then Some ss else None),
              en_phase := (if stillDrifting then EVerifying else EIdle)\<rparr>, stillDrifting))"

definition catch_up_apply ::
  "provider \<Rightarrow> sync_state \<Rightarrow> gate \<Rightarrow> bool \<Rightarrow> real option \<Rightarrow> sync_engine \<Rightarrow> sync_engine" where
  "catch_up_apply pv ss g catchUp driftSec st =
     (let cleared = (clear_catch_up_rate pv st)\<lparr>en_catchUpStall := None\<rparr> in
      if g_native g \<or> ss_paused ss \<or> en_holdLocalSeek st then cleared
      else case driftSec of
             Some d \<Rightarrow>
               if d \<le> catch_up_clear_drift_sec then cleared
               else if catchUp \<and> is_catch_up_drift_band (Num d) (soft_drift_threshold_sec st)
               then fst (activate_catch_up_rate pv ss d st)
               else if h_catchUpRate st \<noteq> None \<and> d > catch_up_drift_max_sec then cleared
               else st
           | None \<Rightarrow> if h_catchUpRate st \<noteq> None then cleared else st)"

definition rearm_apply :: "gate \<Rightarrow> bool \<Rightarrow> bool \<Rightarrow> clock_result \<Rightarrow> real option \<Rightarrow> sync_engine \<Rightarrow> sync_engine" where
  "rearm_apply g stillDrifting echo result driftSec st =
     (if stillDrifting \<and> \<not> en_holdLocalSeek st \<and> en_retryTimers st = []
         \<and> (g_initialSnap g \<or> g_reapply g \<or> echo \<or> cr_seekAttempted result
            \<or> (case driftSec of Some d \<Rightarrow> d > soft_drift_threshold_sec st | None \<Rightarrow> False))
      then schedule_anchor_verify_burst (pi_timelineAnchorMs (h_playback st)) st
      else st)"

definition apply_room_clock ::
  "provider \<Rightarrow> real \<Rightarrow> sync_state \<Rightarrow> js_number option \<Rightarrow> sync_engine \<Rightarrow> sync_engine" where
  "apply_room_clock pv nowMs ss driftThreshold st0 =
     (if en_disposed st0 then st0
      else case gate_apply ss driftThreshold st0 of
        (st1, g) \<Rightarrow>
          (case plan_apply ss driftThreshold g (measure_drift ss nowMs st1) st1 of
             (threshold, catchUp, rate) \<Rightarrow>
               (case write_clock pv nowMs ss threshold rate (st1\<lparr>en_phase := EApplying\<rparr>) of
                  (st2, result) \<Rightarrow>
                    (case confirm_apply nowMs ss g (read_player_playhead_sec (h_player st1)) result st2 of
                       (st3, seekConfirmPending) \<Rightarrow>
                         (let st4 = escalate_apply pv nowMs ss g result st3;
                              echo = echo_unconfirmed g result st4;
                              driftSec = measure_drift ss nowMs st4;
                              st5 = transport_apply pv ss st4
                          in case settle_apply pv nowMs ss g seekConfirmPending echo driftSec st5 of
                               (st6, stillDrifting) \<Rightarrow>
                                 rearm_apply g stillDrifting echo result driftSec
                                   (catch_up_apply pv ss g catchUp driftSec st6))))))"

section \<open>Force seeks, verify ticks and the watchdog\<close>

definition try_force_seek ::
  "provider \<Rightarrow> real \<Rightarrow> sync_state \<Rightarrow> real \<Rightarrow> real option \<Rightarrow> sync_engine \<Rightarrow> sync_engine" where
  "try_force_seek pv nowMs ss anchorMs option_threshold st0 =
     (let st = (if ab_anchorMs (en_forceSeeks st0) \<noteq> anchorMs
                then st0\<lparr>en_forceSeeks := \<lparr>ab_anchorMs = anchorMs, ab_count = 0\<rparr>,
                         en_escalations := \<lparr>ab_anchorMs = anchorMs, ab_count = 0\<rparr>\<rparr>
                else st0)
      in case try_consume_anchor_budget (en_forceSeeks st) anchorMs (max_force_seeks st) of
           (b, consumed) \<Rightarrow>
             (let st1 = st\<lparr>en_forceSeeks := b\<rparr>;
                  otherwise = (if \<not> consumed then soft_drift_threshold_sec st1
                               else if ab_count b = 1 \<or> is_native_sync st1 then 0 else soft_drift_threshold_sec st1)
              in apply_room_clock pv nowMs ss
                   (Some (Num (case option_threshold of Some t \<Rightarrow> t | None \<Rightarrow> otherwise))) st1))"

definition gate_native_tick :: "provider \<Rightarrow> real \<Rightarrow> sync_state \<Rightarrow> sync_engine \<Rightarrow> sync_engine \<times> bool" where
  "gate_native_tick pv nowMs ss st =
     (if \<not> native_duration_ready st
      then (st\<lparr>en_durationGated := True, h_pendingSync := Some ss, en_phase := EVerifying\<rparr>, True)
      else if en_durationGated st then (apply_room_clock pv nowMs ss None st, True)
      else (st, False))"

definition seek_confirm_should_hold ::
  "provider \<Rightarrow> real \<Rightarrow> sync_state \<Rightarrow> real option \<Rightarrow> sync_engine \<Rightarrow> sync_engine \<times> bool" where
  "seek_confirm_should_hold pv nowMs ss driftSec st =
     (case evaluate_seek (ss_timelineAnchorMs ss) (read_player_playhead_sec (h_player st)) driftSec
             (soft_drift_threshold_sec st) (ss_paused ss) nowMs (en_native st) of
        (t, v) \<Rightarrow>
          (let st1 = st\<lparr>en_native := t\<rparr>
           in if v = VPending then (st1, True)
              else if ss_paused ss then (case settle_native_pause pv nowMs st1 of (st2, q) \<Rightarrow> (st2, \<not> q))
              else (st1, False)))"

definition hls_echo_unconfirmed :: "real \<Rightarrow> sync_state \<Rightarrow> bool \<Rightarrow> sync_engine \<Rightarrow> bool" where
  "hls_echo_unconfirmed nowMs ss nativeMode st =
     (\<not> nativeMode \<and>
      (case pl_mediaEl (h_player st) of
         None \<Rightarrow> False
       | Some el \<Rightarrow>
           is_hls_wrapper_media_echo (Some (el_currentTime el)) (Some (pl_currentTime (h_player st)))
             (Num (compute_expected_playback_time_sec ss nowMs)) default_playback_drift_threshold_sec))"

definition try_catch_up_or_force_seek ::
  "provider \<Rightarrow> real \<Rightarrow> sync_state \<Rightarrow> real \<Rightarrow> real \<Rightarrow> bool \<Rightarrow> sync_engine \<Rightarrow> sync_engine" where
  "try_catch_up_or_force_seek pv nowMs ss driftSec anchorMs nativeMode st =
     (case (if nativeMode then (st, False) else should_escalate_catch_up_stall nowMs ss (Some driftSec) st) of
        (st1, True) \<Rightarrow> try_force_seek pv nowMs ss anchorMs (Some 0) (clear_catch_up_rate pv st1)
      | (st1, False) \<Rightarrow>
          if \<not> nativeMode \<and> \<not> ss_paused ss \<and> is_catch_up_drift_band (Num driftSec) (soft_drift_threshold_sec st1)
             \<and> \<not> hls_echo_unconfirmed nowMs ss nativeMode st1
          then (case activate_catch_up_rate pv ss driftSec st1 of
                  (st2, Some _) \<Rightarrow> st2\<lparr>h_pendingSync := Some ss, en_phase := EVerifying\<rparr>
                | (st2, None) \<Rightarrow> try_force_seek pv nowMs ss anchorMs None st2)
          else try_force_seek pv nowMs ss anchorMs None st1)"

record convergence =
  cv_driftSec :: "real option"
  cv_pauseUnconverged :: bool
  cv_playUnconverged :: bool
  cv_seekConfirmHold :: bool

definition sample_tick_convergence ::
  "provider \<Rightarrow> real \<Rightarrow> sync_state \<Rightarrow> bool \<Rightarrow> sync_engine \<Rightarrow> sync_engine \<times> convergence" where
  "sample_tick_convergence pv nowMs ss nativeMode st =
     (let driftSec = measure_drift ss nowMs st in
      case reconcile_paused_transport pv st of
        (st1, pauseUnconverged) \<Rightarrow>
          (case reconcile_playing_transport pv st1 of
             (st2, playUnconverged) \<Rightarrow>
               (case (if should_seek_confirm ss nativeMode then seek_confirm_should_hold pv nowMs ss driftSec st2
                      else (st2, False)) of
                  (st3, hold) \<Rightarrow>
                    (st3, \<lparr>cv_driftSec = driftSec, cv_pauseUnconverged = pauseUnconverged,
                           cv_playUnconverged = playUnconverged, cv_seekConfirmHold = hold\<rparr>))))"

definition clear_pending_when_converged :: "provider \<Rightarrow> real option \<Rightarrow> sync_engine \<Rightarrow> sync_engine" where
  "clear_pending_when_converged pv driftSec st =
     (let st1 = st\<lparr>en_initialSnapPending := False, h_pendingSync := None\<rparr>
      in if (case driftSec of None \<Rightarrow> True | Some d \<Rightarrow> d \<le> catch_up_clear_drift_sec)
         then (clear_catch_up_rate pv st1)\<lparr>en_catchUpStall := None\<rparr> else st1)"

definition run_verify_tick :: "provider \<Rightarrow> real \<Rightarrow> real \<Rightarrow> sync_engine \<Rightarrow> sync_engine" where
  "run_verify_tick pv nowMs anchorAtSchedule st =
     (if en_disposed st \<or> en_holdLocalSeek st \<or> \<not> h_mediaReady st \<or> \<not> h_mounted st
         \<or> pi_timelineAnchorMs (h_playback st) \<noteq> anchorAtSchedule then st
      else let ss = pending_sync_from_playback (h_playback st); nativeMode = is_native_sync st in
        case (if nativeMode then gate_native_tick pv nowMs ss st else (st, False)) of
          (st1, True) \<Rightarrow> st1
        | (st1, False) \<Rightarrow>
            (case sample_tick_convergence pv nowMs ss nativeMode st1 of
               (st2, cv) \<Rightarrow>
                 (if \<not> cv_pauseUnconverged cv \<and> \<not> cv_playUnconverged cv \<and> \<not> cv_seekConfirmHold cv
                     \<and> (case cv_driftSec cv of None \<Rightarrow> True | Some d \<Rightarrow> d \<le> soft_drift_threshold_sec st2)
                  then (clear_pending_when_converged pv (cv_driftSec cv) st2)\<lparr>en_phase := EIdle\<rparr>
                  else let st3 = st2\<lparr>en_phase := EVerifying\<rparr> in
                       case cv_driftSec cv of
                         Some d \<Rightarrow>
                           if d > soft_drift_threshold_sec st3
                           then try_catch_up_or_force_seek pv nowMs ss d anchorAtSchedule nativeMode st3
                           else st3\<lparr>h_pendingSync := Some ss\<rparr>
                       | None \<Rightarrow> st3\<lparr>h_pendingSync := Some ss\<rparr>)))"

text \<open>The \<open>i\<close>-th pending timer of the burst fires: it leaves the list before its tick.\<close>

definition retry_timer_fires :: "provider \<Rightarrow> real \<Rightarrow> nat \<Rightarrow> sync_engine \<Rightarrow> sync_engine" where
  "retry_timer_fires pv nowMs i st =
     (if i < length (en_retryTimers st)
      then run_verify_tick pv nowMs (snd (en_retryTimers st ! i))
             (st\<lparr>en_retryTimers := take i (en_retryTimers st) @ drop (Suc i) (en_retryTimers st)\<rparr>)
      else st)"

definition run_watchdog_tick :: "provider \<Rightarrow> real \<Rightarrow> sync_engine \<Rightarrow> sync_engine" where
  "run_watchdog_tick pv nowMs st =
     (if en_disposed st \<or> en_holdLocalSeek st \<or> \<not> h_mediaReady st \<or> \<not> h_mounted st then st
      else let ss = (case h_pendingSync st of Some s \<Rightarrow> s | None \<Rightarrow> pending_sync_from_playback (h_playback st));
               nativeMode = is_native_sync st in
        case (if nativeMode then gate_native_tick pv nowMs ss st else (st, False)) of
          (st1, True) \<Rightarrow> st1
        | (st1, False) \<Rightarrow>
            (case sample_tick_convergence pv nowMs ss nativeMode st1 of
               (st2, cv) \<Rightarrow>
                 (case plan_playback_drift_correction (h_pendingSync st2) (h_playback st2) (cv_driftSec cv)
                         (soft_drift_threshold_sec st2) of
                    PlanNoop _ \<Rightarrow> st2
                  | PlanClear _ \<Rightarrow>
                      if cv_pauseUnconverged cv \<or> cv_playUnconverged cv \<or> cv_seekConfirmHold cv
                      then st2\<lparr>h_pendingSync := Some ss\<rparr>
                      else let st3 = clear_pending_when_converged pv (cv_driftSec cv) st2
                           in if \<not> en_holdLocalSeek st3 \<and> en_phase st3 = EVerifying then st3\<lparr>en_phase := EIdle\<rparr> else st3
                  | PlanApply _ \<Rightarrow>
                      let st3 = st2\<lparr>en_phase := EVerifying\<rparr>; anchorMs = pi_timelineAnchorMs (h_playback st2) in
                      case cv_driftSec cv of
                        Some d \<Rightarrow> try_catch_up_or_force_seek pv nowMs ss d anchorMs nativeMode st3
                      | None \<Rightarrow> try_force_seek pv nowMs ss anchorMs None st3)))"

section \<open>The engine's interface\<close>

definition engine_start :: "sync_engine \<Rightarrow> sync_engine" where
  "engine_start st =
     (let st1 = st\<lparr>en_disposed := False\<rparr>
      in if en_started st1 then st1 else st1\<lparr>en_started := True, en_watchdog := True\<rparr>)"

definition engine_dispose :: "provider \<Rightarrow> sync_engine \<Rightarrow> sync_engine" where
  "engine_dispose pv st =
     (let st1 = clear_catch_up_rate pv (clear_transport_nudge (clear_retry_timers (st\<lparr>en_disposed := True\<rparr>)))
      in st1\<lparr>en_catchUpStall := None, en_lastSeekMs := None, en_initialSnapPending := True, en_durationGated := False,
             en_native := tracker_reset (en_native st1), en_watchdog := False, en_started := False, en_phase := EIdle\<rparr>)"

definition engine_reset :: "provider \<Rightarrow> sync_engine \<Rightarrow> sync_engine" where
  "engine_reset pv st =
     (let st1 = clear_catch_up_rate pv (clear_transport_nudge (clear_retry_timers st));
          st2 = st1\<lparr>en_catchUpStall := None, en_lastSeekMs := None, en_initialSnapPending := True, en_durationGated := False,
                    en_native := tracker_reset (en_native st1), en_forceSeeks := \<lparr>ab_anchorMs = 0, ab_count = 0\<rparr>,
                    en_escalations := \<lparr>ab_anchorMs = 0, ab_count = 0\<rparr>\<rparr>
      in if en_holdLocalSeek st2 then st2 else st2\<lparr>en_phase := EIdle\<rparr>)"

definition set_hold_local_seek :: "provider \<Rightarrow> bool \<Rightarrow> sync_engine \<Rightarrow> sync_engine" where
  "set_hold_local_seek pv hold st =
     (let st1 = st\<lparr>en_holdLocalSeek := hold\<rparr>
      in if hold then clear_catch_up_rate pv (clear_retry_timers st1)
         else schedule_anchor_verify_burst (pi_timelineAnchorMs (h_playback st1))
                (st1\<lparr>en_phase := (if h_pendingSync st1 \<noteq> None then EVerifying else EIdle)\<rparr>))"

definition on_authority_anchor :: "real \<Rightarrow> sync_engine \<Rightarrow> sync_engine" where
  "on_authority_anchor anchorMs st = schedule_anchor_verify_burst anchorMs st"

definition on_duration_available :: "provider \<Rightarrow> real \<Rightarrow> sync_engine \<Rightarrow> sync_engine" where
  "on_duration_available pv nowMs st =
     (if en_disposed st \<or> en_holdLocalSeek st \<or> \<not> is_native_sync st \<or> \<not> h_mediaReady st then st
      else if \<not> h_mounted st \<or> \<not> native_duration_ready st then st
      else if \<not> en_durationGated st then st
      else schedule_anchor_verify_burst (pi_timelineAnchorMs (h_playback st))
             (apply_room_clock pv nowMs (pending_sync_from_playback (h_playback st)) None st))"
end
