(* ===== verification/Sync_Properties.thy ===== *)
theory Sync_Properties
  imports Sync_Engine
begin

text \<open>
  What the engine of \<open>Sync_Engine\<close> achieves: a late joiner reaches the room's clock, a paused room is paused,
  a player in step is left alone, the budgets and phases stay in order; and where it fails: a player that
  is ahead is driven further ahead, and a spent budget caps nothing.
\<close>

section \<open>A browser that does what it is asked\<close>

definition on_el :: "(media_el \<Rightarrow> media_el) \<Rightarrow> player \<Rightarrow> player" where
  "on_el f p = p\<lparr>pl_mediaEl := map_option f (pl_mediaEl p)\<rparr>"

definition html5_provider :: provider where
  "html5_provider =
     \<lparr>pv_write_time = (\<lambda>v p. p\<lparr>pl_currentTime := Num v\<rparr>),
      pv_write_el_time = (\<lambda>v. on_el (\<lambda>el. el\<lparr>el_currentTime := Num v\<rparr>)),
      pv_write_rate = (\<lambda>v p. p\<lparr>pl_playbackRate := Num v\<rparr>),
      pv_write_el_rate = (\<lambda>v. on_el (\<lambda>el. el\<lparr>el_playbackRate := Num v\<rparr>)),
      pv_pause = (\<lambda>p. on_el (\<lambda>el. el\<lparr>el_paused := True\<rparr>) (p\<lparr>pl_paused := Some True\<rparr>)),
      pv_el_pause = on_el (\<lambda>el. el\<lparr>el_paused := True\<rparr>),
      pv_play = (\<lambda>p. on_el (\<lambda>el. el\<lparr>el_paused := False\<rparr>) (p\<lparr>pl_paused := Some False\<rparr>)),
      pv_el_play = on_el (\<lambda>el. el\<lparr>el_paused := False\<rparr>),
      pv_el_mute = (\<lambda>m. on_el (\<lambda>el. el\<lparr>el_muted := m\<rparr>))\<rparr>"

text \<open>The element plays for so many milliseconds at its rate; the wrapper follows it.\<close>

definition play_for :: "real \<Rightarrow> player \<Rightarrow> player" where
  "play_for ms p =
     (case pl_mediaEl p of
        Some el \<Rightarrow>
          (case (el_paused el, el_currentTime el, el_playbackRate el) of
             (False, Num t, Num r) \<Rightarrow>
               p\<lparr>pl_currentTime := Num (t + ms / 1000 * r), pl_mediaEl := Some (el\<lparr>el_currentTime := Num (t + ms / 1000 * r)\<rparr>)\<rparr>
           | _ \<Rightarrow> p)
      | None \<Rightarrow> p)"

definition element_at :: "real \<Rightarrow> player \<Rightarrow> bool" where
  "element_at x p = (\<exists>el. pl_mediaEl p = Some el \<and> el_currentTime el = Num x)"

text \<open>The room's time lies inside the medium.\<close>

definition within_medium :: "sync_state \<Rightarrow> real \<Rightarrow> sync_engine \<Rightarrow> bool" where
  "within_medium ss now st =
     (case resolve_seek_ceiling_sec (pl_duration (h_player st)) (pl_seekableEnd (h_player st)) (vod_duration_hint_sec st)
             (is_catalog_live st) of
        Some c \<Rightarrow> compute_expected_playback_time_sec ss now \<le> c
      | None \<Rightarrow> True)"

lemma resolve_finite_seekable [simp]:
  "resolve_seek_ceiling_sec d (finite_seekable_end p) h l = resolve_seek_ceiling_sec d (pl_seekableEnd p) h l"
proof -
  have "positive_number (finite_seekable_end p) = positive_number (pl_seekableEnd p)"
    by (cases "pl_seekableEnd p") (simp_all add: finite_seekable_end_def positive_number_def)
  then show ?thesis by (simp add: resolve_seek_ceiling_sec_def)
qed

lemma measure_finite_seekable [simp]:
  "measure_playback_drift_sec y ss now d (finite_seekable_end p) h l a = measure_playback_drift_sec y ss now d (pl_seekableEnd p) h l a"
  unfolding measure_playback_drift_sec_def resolve_finite_seekable ..

lemma seekable_end_used [simp]:
  "(if \<exists>y. finite_seekable_end p = Num y then finite_seekable_end p else pl_seekableEnd p) = pl_seekableEnd p"
  by (simp add: finite_seekable_end_def)

lemma within_medium_cong:
  assumes "within_medium ss now st" "pl_duration (h_player st') = pl_duration (h_player st)"
    and "pl_seekableEnd (h_player st') = pl_seekableEnd (h_player st)" "h_durationHint st' = h_durationHint st"
  shows "within_medium ss now st'"
proof -
  have "vod_duration_hint_sec st' = vod_duration_hint_sec st" "is_catalog_live st' = is_catalog_live st"
    using assms(4) by (simp_all add: vod_duration_hint_sec_def is_catalog_live_def)
  then show ?thesis using assms(1-3) by (simp add: within_medium_def)
qed

lemma playhead_element [simp]: "element_at x p \<Longrightarrow> read_player_playhead_sec p = Num x"
  by (auto simp: element_at_def read_player_playhead_sec_def)

lemma drift_within:
  "element_at x (h_player st) \<Longrightarrow> within_medium ss now st \<Longrightarrow>
     measure_drift ss now st = Some \<bar>x - compute_expected_playback_time_sec ss now\<bar>"
  by (auto simp: measure_drift_def measure_playback_drift_sec_def within_medium_def playing_seek_lead_sec_def
      force_seek_lead_sec_def Let_def split: option.splits)

lemma soft_threshold: "8 / 10 \<le> soft_drift_threshold_sec st"
  using drift_threshold_floor [of default_playback_drift_threshold_sec]
  by (simp add: soft_drift_threshold_sec_def default_playback_drift_threshold_sec_def)

lemma soft_threshold_cong: "h_lastRttMs st' = h_lastRttMs st \<Longrightarrow> soft_drift_threshold_sec st' = soft_drift_threshold_sec st"
  by (simp add: soft_drift_threshold_sec_def)

lemma html5_time: "pl_mediaEl p = Some el \<Longrightarrow>
   write_current_time html5_provider v p = p\<lparr>pl_currentTime := Num v, pl_mediaEl := Some (el\<lparr>el_currentTime := Num v\<rparr>)\<rparr>"
  by (simp add: write_current_time_def html5_provider_def on_el_def has_el_def Let_def)

lemma html5_rate: "pl_mediaEl p = Some el \<Longrightarrow>
   write_playback_rate html5_provider v p = p\<lparr>pl_playbackRate := Num v, pl_mediaEl := Some (el\<lparr>el_playbackRate := Num v\<rparr>)\<rparr>"
  by (simp add: write_playback_rate_def html5_provider_def on_el_def has_el_def Let_def)

lemma html5_nudge_play: "pl_mediaEl p = Some el \<Longrightarrow>
   nudge_playback_transport html5_provider False p =
     (if el_paused el then p\<lparr>pl_paused := Some False, pl_mediaEl := Some (el\<lparr>el_paused := False\<rparr>)\<rparr> else p)"
  by (simp add: nudge_playback_transport_def html5_provider_def on_el_def is_syncable_player_playing_def Let_def)

lemma html5_nudge_pause: "pl_mediaEl p = Some el \<Longrightarrow>
   nudge_playback_transport html5_provider True p = p\<lparr>pl_paused := Some True, pl_mediaEl := Some (el\<lparr>el_paused := True\<rparr>)\<rparr>"
  by (simp add: nudge_playback_transport_def html5_provider_def on_el_def has_el_def Let_def)

lemma seek_target_within:
  assumes "within_medium ss now st"
  shows "seek_target (resolve_seek_ceiling_sec (pl_duration (h_player st)) (pl_seekableEnd (h_player st))
      (vod_duration_hint_sec st) (is_catalog_live st)) (compute_expected_playback_time_sec ss now)
      = compute_expected_playback_time_sec ss now"
  using assms by (auto simp: within_medium_def seek_target_def split: option.splits)

lemma measure_within:
  assumes "within_medium ss now st"
  shows "measure_playback_drift_sec (Num x) ss now (pl_duration (h_player st)) (pl_seekableEnd (h_player st))
      (vod_duration_hint_sec st) (is_catalog_live st) 0 = Some \<bar>x - compute_expected_playback_time_sec ss now\<bar>"
  using assms by (auto simp: measure_playback_drift_sec_def within_medium_def Let_def split: option.splits)

lemma write_clock_html5:
  assumes "pl_mediaEl (h_player st) = Some el" "el_currentTime el = Num x" "within_medium ss now st"
  shows "write_clock html5_provider now ss (Some t) rate st =
    (let q = (case rate of Some r \<Rightarrow> r | None \<Rightarrow> ss_playbackRate ss); e = compute_expected_playback_time_sec ss now;
         p1 = (h_player st)\<lparr>pl_playbackRate := Num q, pl_mediaEl := Some (el\<lparr>el_playbackRate := Num q\<rparr>)\<rparr>;
         seek = js_less t (Num \<bar>x - e\<bar>);
         p2 = (if seek then p1\<lparr>pl_currentTime := Num e, pl_mediaEl := Some (el\<lparr>el_playbackRate := Num q, el_currentTime := Num e\<rparr>)\<rparr> else p1)
     in (st\<lparr>h_player := p2\<rparr>, \<lparr>cr_seekAttempted = seek, cr_driftSec = Some (if seek then 0 else \<bar>x - e\<bar>),
          cr_playheadBeforeSec = Some x, cr_targetSec = Some e\<rparr>))"
proof -
  let ?e = "compute_expected_playback_time_sec ss now"
  have r: "read_player_playhead_sec (p\<lparr>pl_mediaEl := Some (el'\<lparr>el_currentTime := Num y\<rparr>)\<rparr>) = Num y"
    "el_currentTime el' = Num y \<Longrightarrow> read_player_playhead_sec (p\<lparr>pl_mediaEl := Some (el'\<lparr>el_playbackRate := q\<rparr>)\<rparr>) = Num y" for p el' y q
    by (simp_all add: read_player_playhead_sec_def)
  show ?thesis
    using assms(1,2) unfolding write_clock_def apply_playback_sync_to_player_def apply_playback_clock_to_player_def Let_def
      playing_seek_lead_sec_def force_seek_lead_sec_def
    by (cases rate; cases "js_less t (Num \<bar>x - ?e\<bar>)")
      (simp_all add: html5_rate html5_time positive_number_def is_playback_drift_beyond_threshold_def r
         seek_target_within [OF assms(3)] measure_within [OF assms(3)] del: js_less_Num_right)
qed


section \<open>A late joiner\<close>

definition html5_host :: "sync_engine \<Rightarrow> bool" where
  "html5_host st = (h_tuning st = None \<and> h_mounted st \<and> h_mediaReady st \<and> \<not> en_disposed st \<and> \<not> en_holdLocalSeek st)"

lemma html5_host_native [simp]: "html5_host st \<Longrightarrow> \<not> is_native_sync st"
  by (simp add: html5_host_def is_native_sync_def)

lemma escalate_playing [simp]: "\<not> ss_paused ss \<Longrightarrow> escalate_apply pv now ss g r st = st"
  by (simp add: escalate_apply_def split: option.split)

lemma echo_at_target: "element_at e (h_player st) \<Longrightarrow> cr_targetSec r = Some e \<Longrightarrow> \<not> echo_unconfirmed g r st"
  by (cases "pl_currentTime (h_player st)")
    (auto simp: echo_unconfirmed_def element_at_def is_hls_wrapper_media_echo_def default_playback_drift_threshold_sec_def)

lemma transport_playing_html5:
  assumes "\<not> ss_paused ss" "\<not> h_authorityPaused st" "pl_mediaEl (h_player st) = Some el" "h_tuning st = None"
  shows "transport_apply html5_provider ss st =
    st\<lparr>h_player := (if el_paused el then (h_player st)\<lparr>pl_paused := Some False, pl_mediaEl := Some (el\<lparr>el_paused := False\<rparr>)\<rparr> else h_player st),
       en_native := reset_pause_samples (en_native st),
       en_pauseTimers := (if el_paused el then map (\<lambda>d. (d, False)) anchor_retry_delays_ms else [])\<rparr>"
  using assms by (simp add: transport_apply_def is_syncable_player_playing_def html5_nudge_play on_player_def
      schedule_transport_burst_def clear_transport_nudge_def pause_retry_delays_ms_def)

lemma settle_playing:
  assumes "\<not> ss_paused ss" "is_syncable_player_playing (h_player st)" "\<not> g_native g" "\<not> g_gated g"
  shows "settle_apply pv now ss g confirm False (Some d) st =
    (let still = (confirm \<or> d > soft_drift_threshold_sec st)
     in (st\<lparr>en_initialSnapPending := (if still \<or> \<not> h_mediaReady st then en_initialSnapPending st else False),
            h_pendingSync := (if still then Some ss else None), en_phase := (if still then EVerifying else EIdle)\<rparr>, still))"
  using assms by (auto simp: settle_apply_def Let_def)

lemma apply_snap_playing:
  assumes "html5_host st" "en_initialSnapPending st" "nt_probe (en_native st) = None" "h_catchUpRate st = None" "en_retryTimers st = []"
    and el: "pl_mediaEl (h_player st) = Some el" "el_currentTime el = Num x" "within_medium ss now st"
    and ss: "\<not> ss_paused ss" "\<not> h_authorityPaused st" and x: "x \<noteq> compute_expected_playback_time_sec ss now"
  shows "apply_room_clock html5_provider now ss None st =
    (let e = compute_expected_playback_time_sec ss now; a = pi_timelineAnchorMs (h_playback st) in
     st\<lparr>h_player := (h_player st)\<lparr>pl_playbackRate := Num (ss_playbackRate ss), pl_currentTime := Num e,
           pl_paused := (if el_paused el then Some False else pl_paused (h_player st)),
           pl_mediaEl := Some (el\<lparr>el_playbackRate := Num (ss_playbackRate ss), el_currentTime := Num e, el_paused := False\<rparr>)\<rparr>,
         h_pendingSync := Some ss, h_lastAppliedAnchorMs := Some (ss_timelineAnchorMs ss), en_phase := EVerifying,
         en_retryTimers := map (\<lambda>d. (d, a)) anchor_retry_delays_ms,
         en_pauseTimers := (if el_paused el then map (\<lambda>d. (d, False)) anchor_retry_delays_ms else []),
         en_forceSeeks := reset_anchor_budget (en_forceSeeks st) a, en_escalations := reset_anchor_budget (en_escalations st) a,
         en_catchUpStall := None, en_lastSeekMs := Some now,
         en_native := reset_pause_samples (note_seek (ss_timelineAnchorMs ss) (Num x) e now (en_native st))\<rparr>)"
proof -
  have g: "gate_apply ss None st = (st, \<lparr>g_native = False, g_gated = False, g_reapply = False, g_initialSnap = True, g_threshold = Some (Num 0)\<rparr>)"
    using assms(1,2) by (simp add: gate_apply_def Let_def html5_host_def is_native_sync_def)
  have pl: "plan_apply ss None \<lparr>g_native = False, g_gated = False, g_reapply = False, g_initialSnap = True, g_threshold = Some (Num 0)\<rparr> d st
      = (Some (Num 0), False, None)" for d
    using assms(3,4) by (simp add: plan_apply_def Let_def has_seek_probe_def)
  have w: "within_medium ss now (st\<lparr>en_phase := EApplying\<rparr>)" by (rule within_medium_cong [OF el(3)]) simp_all
  let ?e = "compute_expected_playback_time_sec ss now" and ?a = "pi_timelineAnchorMs (h_playback st)"
  let ?el = "el\<lparr>el_playbackRate := Num (ss_playbackRate ss), el_currentTime := Num ?e\<rparr>"
  let ?st3 = "st\<lparr>en_phase := EApplying, h_player := (h_player st)\<lparr>pl_playbackRate := Num (ss_playbackRate ss),
      pl_currentTime := Num ?e, pl_mediaEl := Some ?el\<rparr>, h_lastAppliedAnchorMs := Some (ss_timelineAnchorMs ss),
      en_lastSeekMs := Some now, en_catchUpStall := None, en_native := note_seek (ss_timelineAnchorMs ss) (Num x) ?e now (en_native st)\<rparr>"
  have at: "element_at ?e (h_player ?st3)" by (simp add: element_at_def)
  have rd: "read_player_playhead_sec (h_player st) = Num x" using el by (simp add: read_player_playhead_sec_def)
  have "within_medium ss now ?st3" by (rule within_medium_cong [OF el(3)]) simp_all
  from drift_within [OF at this] have d: "measure_drift ss now ?st3 = Some 0" by simp
  have tr: "transport_apply html5_provider ss ?st3 = ?st3\<lparr>h_player := (h_player ?st3)\<lparr>
      pl_paused := (if el_paused el then Some False else pl_paused (h_player st)), pl_mediaEl := Some (?el\<lparr>el_paused := False\<rparr>)\<rparr>,
      en_native := reset_pause_samples (en_native ?st3),
      en_pauseTimers := (if el_paused el then map (\<lambda>d. (d, False)) anchor_retry_delays_ms else [])\<rparr>"
    using transport_playing_html5 [OF ss(1), of ?st3 ?el] ss(2) assms(1) by (cases "el_paused el") (simp_all add: html5_host_def)
  have soft: "0 \<le> soft_drift_threshold_sec s" for s using soft_threshold [of s] by simp
  show ?thesis
    unfolding apply_room_clock_def g prod.case pl
    using assms(1,4,5) el ss x soft
    by (simp add: html5_host_def write_clock_html5 [OF _ _ w] Let_def confirm_apply_def should_seek_confirm_def
       note_seek_attempt_def rd d tr echo_at_target [OF at] settle_playing is_syncable_player_playing_def catch_up_apply_def
       catch_up_clear_drift_sec_def clear_catch_up_rate_def rearm_apply_def schedule_anchor_verify_burst_def
       clear_retry_timers_def retry_delays_ms_def)
qed

lemma verify_tick_on_clock:
  assumes "html5_host st" "\<not> pi_paused (h_playback st)" "\<not> h_authorityPaused st" "h_catchUpRate st = None"
    and el: "pl_mediaEl (h_player st) = Some el" "el_currentTime el = Num (compute_expected_playback_time_sec ss now)" "\<not> el_paused el"
    and within: "within_medium ss now st" and ss: "ss = pending_sync_from_playback (h_playback st)"
    and e: "evaluate_seek (ss_timelineAnchorMs ss) (el_currentTime el) (Some 0) (soft_drift_threshold_sec st) False now (en_native st) = (t, v)"
  shows "run_verify_tick pv now (ss_timelineAnchorMs ss) st =
    (if v = VPending then st\<lparr>en_native := t, en_phase := EVerifying, h_pendingSync := Some ss\<rparr>
     else st\<lparr>en_native := t, en_initialSnapPending := False, h_pendingSync := None, en_catchUpStall := None, en_phase := EIdle\<rparr>)"
proof -
  have "element_at (compute_expected_playback_time_sec ss now) (h_player st)" using el by (simp add: element_at_def)
  from drift_within [OF this within] have d: "measure_drift ss now st = Some 0" by simp
  have p: "\<not> ss_paused ss" "ss_timelineAnchorMs ss = pi_timelineAnchorMs (h_playback st)"
    using assms(2) ss by (simp_all add: pending_sync_from_playback_def)
  have rd: "read_player_playhead_sec (h_player st) = el_currentTime el" using el by (simp add: read_player_playhead_sec_def)
  have soft: "\<not> soft_drift_threshold_sec s < 0" "0 \<le> soft_drift_threshold_sec s" for s using soft_threshold [of s] by simp_all
  show ?thesis
    using assms(1,3,4) el(1,3) p e soft
    by (simp add: run_verify_tick_def html5_host_def is_native_sync_def Let_def sample_tick_convergence_def flip: ss)
      (simp add: reconcile_paused_transport_def is_playing_against_pause_def reconcile_playing_transport_def
        is_syncable_player_playing_def should_seek_confirm_def seek_confirm_should_hold_def d rd
        clear_pending_when_converged_def catch_up_clear_drift_sec_def clear_catch_up_rate_def)
qed

lemma expected_later:
  "\<not> ss_paused ss \<Longrightarrow> ss_serverNowMs ss \<le> now \<Longrightarrow> 0 \<le> ms \<Longrightarrow>
     compute_expected_playback_time_sec ss (now + ms) = compute_expected_playback_time_sec ss now + ms / 1000 * ss_playbackRate ss"
  by (simp add: compute_expected_playback_time_sec_def field_simps)

lemma within_medium_earlier:
  assumes "within_medium ss later st" "now \<le> later" "0 \<le> ss_playbackRate ss"
  shows "within_medium ss now st"
proof -
  have "compute_expected_playback_time_sec ss now \<le> compute_expected_playback_time_sec ss later"
    using assms(2,3) by (auto simp: compute_expected_playback_time_sec_def Let_def max_def intro!: mult_right_mono divide_right_mono)
  then show ?thesis using assms(1) by (auto simp: within_medium_def split: option.splits)
qed

text \<open>The first three moments of a player that joins: the clock is applied, then two timers of the burst fire.\<close>

definition joined :: "real \<Rightarrow> sync_engine \<Rightarrow> sync_engine" where
  "joined now host =
     apply_room_clock html5_provider now (pending_sync_from_playback (h_playback host)) None (create_playback_sync_engine host)"

definition joined_200 :: "real \<Rightarrow> sync_engine \<Rightarrow> sync_engine" where
  "joined_200 now host = retry_timer_fires html5_provider (now + 200) 0 (on_player (play_for 200) (joined now host))"

definition joined_600 :: "real \<Rightarrow> sync_engine \<Rightarrow> sync_engine" where
  "joined_600 now host = retry_timer_fires html5_provider (now + 600) 0 (on_player (play_for 400) (joined_200 now host))"

text \<open>
  C13. A late joiner with an HTML player that plays what it is told reaches the room: wherever the player is,
  the first write puts it at the room's time and starts it, the second timer of the burst confirms the seek,
  and nothing is pending 600 ms after the join.
\<close>

theorem late_joiner_converges:
  fixes host now
  defines "ss \<equiv> pending_sync_from_playback (h_playback host)"
  assumes host: "h_tuning host = None" "h_mounted host" "h_mediaReady host" "h_catchUpRate host = None"
    and room: "\<not> pi_paused (h_playback host)" "\<not> h_authorityPaused host" "1 / 4 \<le> pi_playbackRate (h_playback host)"
      "pi_serverNowMs (h_playback host) \<le> now" "within_medium ss (now + 600) host"
    and at: "element_at x (h_player host)" "x \<noteq> compute_expected_playback_time_sec ss now"
  shows "h_pendingSync (joined now host) = Some ss \<and> h_pendingSync (joined_600 now host) = None \<and>
    resolve_phase (joined_600 now host) = PhaseIdle \<and> is_syncable_player_playing (h_player (joined_600 now host)) \<and>
    read_player_playhead_sec (h_player (joined_600 now host)) = Num (compute_expected_playback_time_sec ss (now + 600))"
proof -
  let ?st0 = "create_playback_sync_engine host" and ?e = "\<lambda>t. compute_expected_playback_time_sec ss (now + t)"
  let ?a = "ss_timelineAnchorMs ss" and ?r = "ss_playbackRate ss"
  obtain el where el: "pl_mediaEl (h_player host) = Some el" "el_currentTime el = Num x" using at(1) by (auto simp: element_at_def)
  have ss: "\<not> ss_paused ss" "?a = pi_timelineAnchorMs (h_playback host)" "1 / 4 \<le> ?r" "ss_serverNowMs ss \<le> now"
    using room by (simp_all add: ss_def pending_sync_from_playback_def)
  have h0: "html5_host ?st0" "h_player ?st0 = h_player host" "h_playback ?st0 = h_playback host"
    using host by (simp_all add: html5_host_def create_playback_sync_engine_def)
  have within: "t \<le> 600 \<Longrightarrow> within_medium ss (now + t) st'" if "pl_duration (h_player st') = pl_duration (h_player host)"
    "pl_seekableEnd (h_player st') = pl_seekableEnd (h_player host)" "h_durationHint st' = h_durationHint host" for st' t
    using within_medium_cong [OF within_medium_earlier [OF room(5), of "now + t"], of st'] that ss(3) by simp
  have e: "0 \<le> t \<Longrightarrow> ?e t = ?e 0 + t / 1000 * ?r" for t using expected_later [OF ss(1,4)] by simp
  have at': "x \<noteq> ?e 0" using at(2) by simp
  let ?el = "\<lambda>t. el\<lparr>el_playbackRate := Num ?r, el_currentTime := Num (?e t), el_paused := False\<rparr>"
  define probe where "probe = \<lparr>sp_anchorMs = ?a, sp_fromSec = Num x, sp_targetSec = ?e 0, sp_writtenAtMs = now,
    sp_lastSampleSec = Num x, sp_lastSampleAtMs = now, sp_lastNearRoom = False\<rparr>"
  define probe2 where "probe2 = probe\<lparr>sp_lastSampleSec := Num (?e 200), sp_lastSampleAtMs := now + 200, sp_lastNearRoom := True\<rparr>"
  define st1 where "st1 = joined now host"
  have st1: "st1 = apply_room_clock html5_provider (now + 0) ss None ?st0" by (simp add: st1_def joined_def ss_def)
  have w0: "within_medium ss (now + 0) ?st0" by (rule within) (simp_all add: h0 create_playback_sync_engine_def)
  have init: "en_initialSnapPending ?st0" "nt_probe (en_native ?st0) = None" "h_catchUpRate ?st0 = None" "en_retryTimers ?st0 = []"
    "\<not> h_authorityPaused ?st0" "nt_seekFailures (en_native ?st0) = 0"
    using host(4) room(2) by (simp_all add: create_playback_sync_engine_def create_native_sync_tracker_def)
  note app = apply_snap_playing [OF h0(1) init(1-4) _ _ w0 ss(1) init(5) at', unfolded h0, OF el, folded st1]
  have f1: "html5_host st1" "h_playback st1 = h_playback host" "\<not> h_authorityPaused st1" "h_catchUpRate st1 = None"
    "h_durationHint st1 = h_durationHint host" "h_pendingSync st1 = Some ss"
    "pl_duration (h_player st1) = pl_duration (h_player host)" "pl_seekableEnd (h_player st1) = pl_seekableEnd (h_player host)"
    "en_retryTimers st1 = map (\<lambda>d. (d, ?a)) anchor_retry_delays_ms" "pl_mediaEl (h_player st1) = Some (?el 0)"
    "nt_probe (en_native st1) = Some probe"
    using h0(1) init host by (simp_all add: app Let_def html5_host_def ss(2) note_seek_def reset_pause_samples_def probe_def
        create_playback_sync_engine_def create_native_sync_tracker_def)
  let ?p1 = "play_for 200 (h_player st1)"
  define st1' where "st1' = (on_player (play_for 200) st1)\<lparr>en_retryTimers := map (\<lambda>d. (d, ?a)) (tl anchor_retry_delays_ms)\<rparr>"
  have p1: "play_for 200 (h_player st1) = (h_player st1)\<lparr>pl_currentTime := Num (?e 200), pl_mediaEl := Some (?el 200)\<rparr>"
    using e [of 200] f1(10) by (simp add: play_for_def)
  have f1': "html5_host st1'" "h_playback st1' = h_playback host" "\<not> h_authorityPaused st1'" "h_catchUpRate st1' = None"
    "pl_mediaEl (h_player st1') = Some (?el 200)" "nt_probe (en_native st1') = Some probe"
    using f1 by (simp_all add: st1'_def on_player_def p1 html5_host_def)
  have w1: "within_medium ss (now + 200) st1'" by (rule within) (use f1 in \<open>simp_all add: st1'_def on_player_def p1\<close>)
  have soft: "0 \<le> soft_drift_threshold_sec s" for s using soft_threshold [of s] by simp
  have e1: "evaluate_seek ?a (el_currentTime (?el 200)) (Some 0) (soft_drift_threshold_sec st1') False (now + 200) (en_native st1')
      = ((en_native st1')\<lparr>nt_probe := Some probe2\<rparr>, VPending)"
    using soft [of st1'] by (simp add: evaluate_seek_def f1' Let_def probe_def probe2_def native_min_confirm_ms_def)
  have st2: "joined_200 now host = st1'\<lparr>en_native := (en_native st1')\<lparr>nt_probe := Some probe2\<rparr>, en_phase := EVerifying, h_pendingSync := Some ss\<rparr>"
    using verify_tick_on_clock [OF f1'(1) _ f1'(3-5) _ _ w1 _ e1, of html5_provider] f1(9) f1'(2) room(1)
    by (simp add: joined_200_def st1_def [symmetric] retry_timer_fires_def on_player_def st1'_def anchor_retry_delays_ms_def ss_def)
  define st2' where "st2' = (on_player (play_for 400) (joined_200 now host))\<lparr>en_retryTimers := map (\<lambda>d. (d, ?a)) (tl (tl anchor_retry_delays_ms))\<rparr>"
  have p2: "play_for 400 (h_player st1') = (h_player st1')\<lparr>pl_currentTime := Num (?e 600), pl_mediaEl := Some (?el 600)\<rparr>"
    using e [of 200] e [of 600] f1'(5) by (simp add: play_for_def)
  have f2': "html5_host st2'" "h_playback st2' = h_playback host" "\<not> h_authorityPaused st2'" "h_catchUpRate st2' = None"
    "pl_mediaEl (h_player st2') = Some (?el 600)" "nt_probe (en_native st2') = Some probe2"
    using f1' by (simp_all add: st2'_def st2 on_player_def p2 html5_host_def)
  have w2: "within_medium ss (now + 600) st2'"
    by (rule within) (use f1 in \<open>simp_all add: st2'_def st2 st1'_def on_player_def p1 play_for_def\<close>)
  have far: "native_stale_epsilon_sec \<le> \<bar>?e 600 - ?e 200\<bar>"
    using e [of 200] e [of 600] ss(3) by (simp add: native_stale_epsilon_sec_def)
  have e2: "evaluate_seek ?a (el_currentTime (?el 600)) (Some 0) (soft_drift_threshold_sec st2') False (now + 600) (en_native st2')
      = (probe_settled (en_native st2'), VConfirmed)"
    using soft [of st2'] far by (simp add: evaluate_seek_def f2' Let_def probe_def probe2_def native_min_confirm_ms_def)
  have st3: "joined_600 now host = st2'\<lparr>en_native := probe_settled (en_native st2'), en_initialSnapPending := False, h_pendingSync := None,
      en_catchUpStall := None, en_phase := EIdle\<rparr>"
    using verify_tick_on_clock [OF f2'(1) _ f2'(3-5) _ _ w2 _ e2, of html5_provider] f2'(2) room(1)
    by (simp add: joined_600_def retry_timer_fires_def on_player_def st2'_def st2 st1'_def anchor_retry_delays_ms_def ss_def)
  show ?thesis using f1(6) f2'
    by (simp add: st1_def [symmetric] st3 resolve_phase_def html5_host_def is_syncable_player_playing_def read_player_playhead_sec_def)
qed

definition demo_element :: media_el where
  "demo_element = \<lparr>el_currentTime = Num 3, el_paused = True, el_muted = False, el_playbackRate = Num 1\<rparr>"

definition demo_player :: player where
  "demo_player = \<lparr>pl_currentTime = Num 3, pl_playbackRate = Num 1, pl_duration = NotANumber, pl_seekableEnd = NotANumber,
     pl_mediaEl = Some demo_element, pl_paused = Some True\<rparr>"

definition demo_playback :: pending_sync_input where
  "demo_playback = \<lparr>pi_paused = False, pi_playbackRate = 1, pi_timelineAnchorMs = 10000, pi_serverNowMs = 0, pi_videoLoop = LoopText ''off''\<rparr>"

definition demo_host :: sync_engine where
  "demo_host = create_playback_sync_engine
     \<lparr>h_player = demo_player, h_mounted = True, h_mediaReady = True, h_playback = demo_playback, h_pendingSync = None,
      h_lastAppliedAnchorMs = None, h_authorityPaused = False, h_tuning = None, h_durationHint = NotANumber, h_catchUpRate = None,
      h_lastRttMs = 0, en_phase = EIdle, en_holdLocalSeek = False, en_started = False, en_disposed = False, en_watchdog = False,
      en_retryTimers = [], en_pauseTimers = [], en_initialSnapPending = True, en_forceSeeks = \<lparr>ab_anchorMs = 0, ab_count = 0\<rparr>,
      en_escalations = \<lparr>ab_anchorMs = 0, ab_count = 0\<rparr>, en_catchUpStall = None, en_lastSeekMs = None,
      en_native = create_native_sync_tracker, en_durationGated = False\<rparr>"

lemma demo_host_simps [simp]:
  "h_player demo_host = demo_player" "h_mounted demo_host" "h_mediaReady demo_host" "h_playback demo_host = demo_playback"
  "h_pendingSync demo_host = None" "\<not> h_authorityPaused demo_host" "h_tuning demo_host = None" "h_durationHint demo_host = NotANumber"
  "h_catchUpRate demo_host = None" "h_lastRttMs demo_host = 0" "html5_host demo_host" "nt_probe (en_native demo_host) = None"
  "en_catchUpStall demo_host = None" "\<not> is_catalog_live demo_host" "vod_duration_hint_sec demo_host = NotANumber"
  by (simp_all add: demo_host_def create_playback_sync_engine_def html5_host_def create_native_sync_tracker_def
      is_catalog_live_def vod_duration_hint_sec_def)

lemma no_ceiling: "resolve_seek_ceiling_sec NotANumber NotANumber NotANumber l = None"
  by (simp add: resolve_seek_ceiling_sec_def positive_number_def looks_like_buffer_only_bound_def)

lemma demo_within: "within_medium ss now demo_host"
  by (simp add: within_medium_def demo_player_def no_ceiling)

theorem late_joiner_converges_witness:
  "h_pendingSync (joined 5000 demo_host) \<noteq> None \<and> h_pendingSync (joined_600 5000 demo_host) = None \<and>
   read_player_playhead_sec (h_player (joined_600 5000 demo_host)) = Num (156 / 10)"
  using late_joiner_converges [of demo_host 5000 3] demo_within
  by (simp add: demo_playback_def element_at_def demo_player_def demo_element_def pending_sync_from_playback_def
      compute_expected_playback_time_sec_def)

section \<open>Catching up\<close>

text \<open>A playing player on an HTML element, with nothing outstanding, so many seconds from the room.\<close>

definition steady_at :: "real \<Rightarrow> sync_engine \<Rightarrow> bool" where
  "steady_at x st \<longleftrightarrow> html5_host st \<and> h_pendingSync st = None \<and> nt_probe (en_native st) = None \<and> en_catchUpStall st = None \<and>
     \<not> pi_paused (h_playback st) \<and> \<not> h_authorityPaused st \<and>
     (\<exists>el. pl_mediaEl (h_player st) = Some el \<and> el_currentTime el = Num x \<and> \<not> el_paused el) \<and> pl_currentTime (h_player st) = Num x"

lemma steady_stall:
  assumes "steady_at x st"
  shows "\<exists>s. should_escalate_catch_up_stall now ss (Some d) st = (st\<lparr>en_catchUpStall := s\<rparr>, False)"
proof -
  have "read_stall_media_sec (h_player st) = Some x" "en_catchUpStall st = None"
    using assms by (auto simp: steady_at_def read_stall_media_sec_def)
  then have "fst (should_escalate_catch_up_stall now ss (Some d) st) = st\<lparr>en_catchUpStall := None\<rparr> \<or>
      fst (should_escalate_catch_up_stall now ss (Some d) st) = st\<lparr>en_catchUpStall := Some (now, x)\<rparr>"
    and "\<not> snd (should_escalate_catch_up_stall now ss (Some d) st)"
    by (simp_all add: should_escalate_catch_up_stall_def Let_def)
  then show ?thesis by (metis prod.collapse)
qed

lemma steady_sample:
  assumes "steady_at x st" "\<not> ss_paused ss"
  shows "sample_tick_convergence pv now ss False st =
     (st, \<lparr>cv_driftSec = measure_drift ss now st, cv_pauseUnconverged = False, cv_playUnconverged = False, cv_seekConfirmHold = False\<rparr>)"
  using assms by (auto simp: sample_tick_convergence_def steady_at_def reconcile_paused_transport_def is_playing_against_pause_def
      reconcile_playing_transport_def is_syncable_player_playing_def should_seek_confirm_def seek_confirm_should_hold_def
      evaluate_seek_def)

lemma catch_up_tick:
  fixes st now x
  defines "ss \<equiv> pending_sync_from_playback (h_playback st)"
  defines "r \<equiv> ss_playbackRate ss"
  assumes "steady_at x st" "within_medium ss now st" "0 < r"
    and d: "soft_drift_threshold_sec st < \<bar>x - compute_expected_playback_time_sec ss now\<bar>" "\<bar>x - compute_expected_playback_time_sec ss now\<bar> \<le> 3"
  shows "\<exists>s. run_watchdog_tick html5_provider now st =
     (on_player (write_playback_rate html5_provider (min 3 (r * (14 / 10))))
       (st\<lparr>en_catchUpStall := s, h_catchUpRate := Some (min 3 (r * (14 / 10))), h_pendingSync := Some ss, en_phase := EVerifying\<rparr>))"
proof -
  let ?d = "\<bar>x - compute_expected_playback_time_sec ss now\<bar>"
  have ss: "\<not> ss_paused ss" using assms(3) by (simp add: steady_at_def ss_def pending_sync_from_playback_def)
  have at: "element_at x (h_player st)" using assms(3) by (auto simp: steady_at_def element_at_def)
  have m: "measure_drift ss now st = Some ?d" by (rule drift_within [OF at assms(4)])
  have "steady_at x (st\<lparr>en_phase := EVerifying\<rparr>)" using assms(3) by (simp add: steady_at_def html5_host_def)
  from steady_stall [OF this] obtain s where
    s: "should_escalate_catch_up_stall now ss (Some ?d) (st\<lparr>en_phase := EVerifying\<rparr>) = (st\<lparr>en_phase := EVerifying, en_catchUpStall := s\<rparr>, False)"
    by blast
  have echo: "\<not> hls_echo_unconfirmed now ss n (st\<lparr>en_phase := EVerifying, en_catchUpStall := s\<rparr>)" for n
    using assms(3) by (auto simp: hls_echo_unconfirmed_def is_hls_wrapper_media_echo_def steady_at_def)
  have soft: "soft_drift_threshold_sec (st\<lparr>en_phase := EVerifying, en_catchUpStall := s\<rparr>) = soft_drift_threshold_sec st"
    by (rule soft_threshold_cong) simp
  have rate: "resolve_catch_up_playback_rate (Num (ss_playbackRate ss)) (Num ?d) (soft_drift_threshold_sec st) = Some (min 3 (r * (14 / 10)))"
    unfolding r_def [symmetric] by (rule catch_up_rate_Num [OF assms(5) d])
  have st: "html5_host st" "h_pendingSync st = None" using assms(3) by (simp_all add: steady_at_def)
  then have "run_watchdog_tick html5_provider now st =
      try_catch_up_or_force_seek html5_provider now ss ?d (pi_timelineAnchorMs (h_playback st)) False (st\<lparr>en_phase := EVerifying\<rparr>)"
    using d(1) by (simp add: run_watchdog_tick_def Let_def ss_def [symmetric] steady_sample [OF assms(3) ss] m
        plan_playback_drift_correction_def html5_host_def is_native_sync_def)
  then show ?thesis
    using d ss by (intro exI [of _ s]) (simp add: try_catch_up_or_force_seek_def s echo soft activate_catch_up_rate_def rate on_player_def)
qed

lemma catch_up_motion:
  fixes st now x
  defines "ss \<equiv> pending_sync_from_playback (h_playback st)"
  defines "r \<equiv> ss_playbackRate ss"
  defines "st1 \<equiv> run_watchdog_tick html5_provider now st"
  assumes "steady_at x st" "within_medium ss now st" "0 < r" "ss_serverNowMs ss \<le> now" "0 \<le> ms"
    and "soft_drift_threshold_sec st < \<bar>x - compute_expected_playback_time_sec ss now\<bar>" "\<bar>x - compute_expected_playback_time_sec ss now\<bar> \<le> 3"
  shows "read_player_playhead_sec (h_player st1) = Num x"
    and "element_at (compute_expected_playback_time_sec ss (now + ms) + (x - compute_expected_playback_time_sec ss now)
           + (min 3 (r * (14 / 10)) - r) * ms / 1000) (play_for ms (h_player st1))"
    and "within_medium ss t st \<Longrightarrow> within_medium ss t (on_player (play_for ms) st1)"
proof -
  obtain s where st1: "st1 = on_player (write_playback_rate html5_provider (min 3 (r * (14 / 10))))
      (st\<lparr>en_catchUpStall := s, h_catchUpRate := Some (min 3 (r * (14 / 10))), h_pendingSync := Some ss, en_phase := EVerifying\<rparr>)"
    using catch_up_tick assms by metis
  obtain el where el: "pl_mediaEl (h_player st) = Some el" "el_currentTime el = Num x" "\<not> el_paused el"
    using assms(4) by (auto simp: steady_at_def)
  have p: "pl_mediaEl (h_player st1) = Some (el\<lparr>el_playbackRate := Num (min 3 (r * (14 / 10)))\<rparr>)"
    by (simp add: st1 on_player_def html5_rate [OF el(1)])
  have "\<not> ss_paused ss" using assms(4) by (simp add: steady_at_def ss_def pending_sync_from_playback_def)
  note later = expected_later [OF this assms(7,8)]
  show "read_player_playhead_sec (h_player st1) = Num x" using el by (simp add: read_player_playhead_sec_def p)
  show "element_at (compute_expected_playback_time_sec ss (now + ms) + (x - compute_expected_playback_time_sec ss now)
           + (min 3 (r * (14 / 10)) - r) * ms / 1000) (play_for ms (h_player st1))"
    using el later by (simp add: element_at_def p play_for_def r_def field_simps)
  have "pl_duration (h_player (on_player (play_for ms) st1)) = pl_duration (h_player st)"
    "pl_seekableEnd (h_player (on_player (play_for ms) st1)) = pl_seekableEnd (h_player st)"
    "h_durationHint (on_player (play_for ms) st1) = h_durationHint st"
    using el p by (simp_all add: on_player_def play_for_def) (simp_all add: st1 on_player_def html5_rate [OF el(1)])
  then show "within_medium ss t st \<Longrightarrow> within_medium ss t (on_player (play_for ms) st1)"
    by (rule within_medium_cong [rotated])
qed

text \<open>
  A player between the soft threshold and three seconds from the room is not sought: its rate is raised to
  1.4 times the room's, at most 3, and so its place gains on the room's by the difference of the rates,
  whatever side of the room it is on.
\<close>

theorem catch_up_gains_on_room:
  fixes st now x
  defines "ss \<equiv> pending_sync_from_playback (h_playback st)"
  defines "r \<equiv> ss_playbackRate ss"
  defines "st1 \<equiv> run_watchdog_tick html5_provider now st"
  assumes "steady_at x st" "within_medium ss now st" "0 < r" "ss_serverNowMs ss \<le> now" "0 \<le> ms"
    and "soft_drift_threshold_sec st < \<bar>x - compute_expected_playback_time_sec ss now\<bar>" "\<bar>x - compute_expected_playback_time_sec ss now\<bar> \<le> 3"
  shows "read_player_playhead_sec (h_player st1) = Num x \<and>
    read_player_playhead_sec (play_for ms (h_player st1)) =
      Num (compute_expected_playback_time_sec ss (now + ms) + (x - compute_expected_playback_time_sec ss now)
           + (min 3 (r * (14 / 10)) - r) * ms / 1000)"
  using catch_up_motion(1,2) [of x st now ms] assms by simp

text \<open>
  C14. A player that is ahead of the room by more than the soft threshold is driven further ahead: the tick
  neither seeks nor slows it, and a second later it is ahead by 0.4 of the room's rate more.
\<close>

theorem leader_driven_away:
  fixes st now lead
  defines "ss \<equiv> pending_sync_from_playback (h_playback st)"
  defines "r \<equiv> ss_playbackRate ss"
  assumes "steady_at (compute_expected_playback_time_sec ss now + lead) st" "within_medium ss (now + 1000) st"
    and "0 < r" "r \<le> 2" "ss_serverNowMs ss \<le> now" "soft_drift_threshold_sec st < lead" "lead \<le> 3"
  shows "measure_drift ss (now + 1000) (on_player (play_for 1000) (run_watchdog_tick html5_provider now st)) = Some (lead + 4 / 10 * r)"
proof -
  have w: "within_medium ss now st" by (rule within_medium_earlier [OF assms(4)]) (use assms(5) in \<open>simp_all add: r_def\<close>)
  have "0 < lead" using assms(8) soft_threshold [of st] by linarith
  then have m: "element_at (compute_expected_playback_time_sec ss (now + 1000) + lead + 4 / 10 * r)
      (play_for 1000 (h_player (run_watchdog_tick html5_provider now st)))"
    "within_medium ss (now + 1000) (on_player (play_for 1000) (run_watchdog_tick html5_provider now st))"
    using catch_up_motion(2,3) [of "compute_expected_playback_time_sec ss now + lead" st now 1000] assms w
    by (simp_all add: min_def)
  show ?thesis using drift_within [OF _ m(2)] m(1) assms(5) \<open>0 < lead\<close> by (simp add: on_player_def)
qed

text \<open>At room rate 3 there is no faster rate to catch up with, and no seek either: a lag in the band stays.\<close>

theorem full_rate_lag_stays:
  fixes st now lag
  defines "ss \<equiv> pending_sync_from_playback (h_playback st)"
  assumes "steady_at (compute_expected_playback_time_sec ss now - lag) st" "within_medium ss (now + ms) st" "0 \<le> ms"
    and "ss_playbackRate ss = 3" "ss_serverNowMs ss \<le> now" "soft_drift_threshold_sec st < lag" "lag \<le> 3"
  shows "measure_drift ss (now + ms) (on_player (play_for ms) (run_watchdog_tick html5_provider now st)) = Some lag"
proof -
  have w: "within_medium ss now st" by (rule within_medium_earlier [OF assms(3)]) (use assms(4,5) in simp_all)
  have "0 < lag" using assms(7) soft_threshold [of st] by linarith
  then have m: "element_at (compute_expected_playback_time_sec ss (now + ms) - lag) (play_for ms (h_player (run_watchdog_tick html5_provider now st)))"
    "within_medium ss (now + ms) (on_player (play_for ms) (run_watchdog_tick html5_provider now st))"
    using catch_up_motion(2,3) [of "compute_expected_playback_time_sec ss now - lag" st now ms] assms w
    by simp_all
  show ?thesis using drift_within [OF _ m(2)] m(1) \<open>0 < lag\<close> by (simp add: on_player_def)
qed

definition demo_steady :: "real \<Rightarrow> sync_engine" where
  "demo_steady x = demo_host\<lparr>h_player := demo_player\<lparr>pl_currentTime := Num x,
     pl_mediaEl := Some (demo_element\<lparr>el_currentTime := Num x, el_paused := False\<rparr>)\<rparr>\<rparr>"

lemma demo_steady_facts:
  "steady_at x (demo_steady x)" "within_medium ss now (demo_steady x)" "h_playback (demo_steady x) = demo_playback"
  "soft_drift_threshold_sec (demo_steady x) = 8 / 10"
  by (simp_all add: steady_at_def demo_steady_def html5_host_def within_medium_def demo_player_def no_ceiling demo_playback_def
      soft_drift_threshold_sec_def resolve_playback_drift_threshold_sec_def positive_number_def default_playback_drift_threshold_sec_def
      is_catalog_live_def vod_duration_hint_sec_def)
  (simp_all add: demo_host_def create_playback_sync_engine_def)

theorem catch_up_gains_on_room_witness:
  "read_player_playhead_sec (play_for 1000 (h_player (run_watchdog_tick html5_provider 5000 (demo_steady 13)))) = Num (144 / 10)"
  using catch_up_gains_on_room [of 13 "demo_steady 13" 5000 1000]
  by (simp add: demo_steady_facts demo_playback_def pending_sync_from_playback_def compute_expected_playback_time_sec_def)

theorem leader_driven_away_witness:
  "measure_drift (pending_sync_from_playback demo_playback) 6000
     (on_player (play_for 1000) (run_watchdog_tick html5_provider 5000 (demo_steady 16))) = Some (14 / 10)"
  using leader_driven_away [of "demo_steady 16" 5000 1]
  by (simp add: demo_steady_facts demo_playback_def pending_sync_from_playback_def compute_expected_playback_time_sec_def)

section \<open>What a write leaves of the player\<close>

lemma on_player_kept [simp]:
  "h_tuning (on_player f st) = h_tuning st" "en_pauseTimers (on_player f st) = en_pauseTimers st"
  "h_authorityPaused (on_player f st) = h_authorityPaused st" "h_player (on_player f st) = f (h_player st)"
  by (simp_all add: on_player_def)

lemma apply_room_clock_parts:
  "apply_room_clock pv now ss thr st0 =
     (if en_disposed st0 then st0
      else let x1 = gate_apply ss thr st0; st1 = fst x1; g = snd x1;
               plan = plan_apply ss thr g (measure_drift ss now st1) st1;
               x2 = write_clock pv now ss (fst plan) (snd (snd plan)) (st1\<lparr>en_phase := EApplying\<rparr>);
               x3 = confirm_apply now ss g (read_player_playhead_sec (h_player st1)) (snd x2) (fst x2);
               st4 = escalate_apply pv now ss g (snd x2) (fst x3);
               echo = echo_unconfirmed g (snd x2) st4; drift = measure_drift ss now st4;
               x6 = settle_apply pv now ss g (snd x3) echo drift (transport_apply pv ss st4)
           in rearm_apply g (snd x6) echo (snd x2) drift (catch_up_apply pv ss g (fst (snd plan)) drift (fst x6)))"
  by (simp add: apply_room_clock_def split_def Let_def)

lemma player_kept [simp]:
  "h_player (note_seek_attempt now st) = h_player st"
  "h_player (fst (confirm_apply now ss g b r st)) = h_player st"
  "h_player (schedule_anchor_verify_burst a st) = h_player st"
  "h_player (schedule_transport_burst q st) = h_player st"
  "h_player (rearm_apply g still echo r d st) = h_player st"
  "h_player (fst (gate_apply ss thr st)) = h_player st"
  by (simp_all add: note_seek_attempt_def confirm_apply_def schedule_anchor_verify_burst_def clear_retry_timers_def Let_def
      schedule_transport_burst_def clear_transport_nudge_def rearm_apply_def gate_apply_def split: option.split prod.split)

lemma settle_player:
  "\<not> g_native g \<Longrightarrow> h_player (fst (settle_apply pv now ss g c e d st)) = h_player st"
  by (simp add: settle_apply_def Let_def)

definition el_time :: "player \<Rightarrow> js_number option" where
  "el_time p = map_option el_currentTime (pl_mediaEl p)"

definition el_stopped :: "player \<Rightarrow> bool option" where
  "el_stopped p = map_option el_paused (pl_mediaEl p)"

lemma html5_rate_kept [simp]:
  "el_time (write_playback_rate html5_provider q p) = el_time p"
  "el_stopped (write_playback_rate html5_provider q p) = el_stopped p"
  "pl_paused (write_playback_rate html5_provider q p) = pl_paused p"
  by (simp_all add: write_playback_rate_def html5_provider_def on_el_def has_el_def el_time_def el_stopped_def Let_def
      option.map_comp comp_def option.map_ident)

lemma html5_nudge_kept [simp]: "el_time (nudge_playback_transport html5_provider b p) = el_time p"
  by (simp add: nudge_playback_transport_def html5_provider_def on_el_def has_el_def el_time_def Let_def
      option.map_comp comp_def split: option.split)

lemma html5_clear_rate_kept [simp]:
  "el_time (h_player (clear_catch_up_rate html5_provider st)) = el_time (h_player st)"
  "el_stopped (h_player (clear_catch_up_rate html5_provider st)) = el_stopped (h_player st)"
  by (simp_all add: clear_catch_up_rate_def on_player_def Let_def)

lemma html5_activate_kept [simp]:
  "el_time (h_player (fst (activate_catch_up_rate html5_provider ss d st))) = el_time (h_player st)"
  "el_stopped (h_player (fst (activate_catch_up_rate html5_provider ss d st))) = el_stopped (h_player st)"
  by (simp_all add: activate_catch_up_rate_def on_player_def split: option.split)

lemma html5_catch_up_kept [simp]:
  "el_time (h_player (catch_up_apply html5_provider ss g c d st)) = el_time (h_player st)"
  "el_stopped (h_player (catch_up_apply html5_provider ss g c d st)) = el_stopped (h_player st)"
  by (simp_all add: catch_up_apply_def Let_def split: option.split)

lemma html5_transport_kept [simp]: "el_time (h_player (transport_apply html5_provider ss st)) = el_time (h_player st)"
  by (simp add: transport_apply_def on_player_def clear_transport_nudge_def)

lemma element_at_time: "element_at x p = (el_time p = Some (Num x))"
  by (auto simp: element_at_def el_time_def)

text \<open>A write with an explicit threshold below the drift puts a playing HTML player at the room's time.\<close>

lemma apply_seeks_playing:
  assumes "html5_host st" "\<not> ss_paused ss" "element_at x (h_player st)" "within_medium ss now st"
    and far: "t < \<bar>x - compute_expected_playback_time_sec ss now\<bar>"
  shows "element_at (compute_expected_playback_time_sec ss now) (h_player (apply_room_clock html5_provider now ss (Some (Num t)) st))"
proof -
  let ?e = "compute_expected_playback_time_sec ss now"
  let ?g = "\<lparr>g_native = False, g_gated = False, g_reapply = False, g_initialSnap = en_initialSnapPending st, g_threshold = Some (Num t)\<rparr>"
  obtain el where el: "pl_mediaEl (h_player st) = Some el" "el_currentTime el = Num x" using assms(3) by (auto simp: element_at_def)
  have g: "gate_apply ss (Some (Num t)) st = (st, ?g)"
    using assms(1) by (simp add: gate_apply_def Let_def html5_host_def is_native_sync_def)
  obtain c where pl: "plan_apply ss (Some (Num t)) ?g (measure_drift ss now st) st = (Some (Num t), False, c)"
    by (simp add: plan_apply_def Let_def)
  have w: "within_medium ss now (st\<lparr>en_phase := EApplying\<rparr>)" by (rule within_medium_cong [OF assms(4)]) simp_all
  obtain st2 r where wr: "write_clock html5_provider now ss (Some (Num t)) c (st\<lparr>en_phase := EApplying\<rparr>) = (st2, r)"
    and at2: "el_time (h_player st2) = Some (Num ?e)"
    using far by (simp add: write_clock_html5 [OF _ _ w] el Let_def el_time_def)
  obtain st3 p where cf: "confirm_apply now ss ?g (read_player_playhead_sec (h_player st)) r st2 = (st3, p)" by fastforce
  have at3: "el_time (h_player st3) = Some (Num ?e)" using at2 cf by (metis fst_conv player_kept(2))
  let ?st5 = "transport_apply html5_provider ss st3"
  obtain st6 still where se: "settle_apply html5_provider now ss ?g p (echo_unconfirmed ?g r st3) (measure_drift ss now st3) ?st5 = (st6, still)"
    by fastforce
  have "h_player st6 = h_player ?st5" using settle_player se by (metis (no_types, lifting) fst_conv gate.select_convs(1))
  then have "el_time (h_player st6) = Some (Num ?e)" using at3 by simp
  then show ?thesis using assms(1,2)
    by (simp add: apply_room_clock_def html5_host_def g pl wr cf Let_def se element_at_time)
qed

text \<open>
  The budget of an anchor withholds no seek: with any count of seeks spent, the next force seek of a player
  beyond the soft threshold is written all the same.
\<close>

theorem spent_budget_still_seeks:
  assumes "html5_host st" "\<not> ss_paused ss" "element_at x (h_player st)" "within_medium ss now st"
    and "soft_drift_threshold_sec st < \<bar>x - compute_expected_playback_time_sec ss now\<bar>"
    and "en_forceSeeks st = \<lparr>ab_anchorMs = anchor, ab_count = n\<rparr>"
  shows "read_player_playhead_sec (h_player (try_force_seek html5_provider now ss anchor None st)) =
    Num (compute_expected_playback_time_sec ss now)"
proof -
  obtain b consumed where tc: "try_consume_anchor_budget (en_forceSeeks st) anchor (max_force_seeks st) = (b, consumed)" by fastforce
  define thr where "thr = (if consumed \<and> (ab_count b = 1 \<or> is_native_sync (st\<lparr>en_forceSeeks := b\<rparr>)) then 0 else soft_drift_threshold_sec st)"
  have "soft_drift_threshold_sec (st\<lparr>en_forceSeeks := b\<rparr>) = soft_drift_threshold_sec st" by (rule soft_threshold_cong) simp
  then have f: "try_force_seek html5_provider now ss anchor None st = apply_room_clock html5_provider now ss (Some (Num thr)) (st\<lparr>en_forceSeeks := b\<rparr>)"
    "thr = 0 \<or> thr = soft_drift_threshold_sec st"
    using assms(6) tc by (simp_all add: try_force_seek_def Let_def thr_def)
  have "thr < \<bar>x - compute_expected_playback_time_sec ss now\<bar>" using f(2) assms(5) soft_threshold [of st] by auto
  with assms(1-4) have "element_at (compute_expected_playback_time_sec ss now) (h_player (try_force_seek html5_provider now ss anchor None st))"
    unfolding f(1) by (intro apply_seeks_playing) (auto simp: html5_host_def intro: within_medium_cong)
  then show ?thesis by simp
qed

theorem spent_budget_still_seeks_witness:
  "read_player_playhead_sec (h_player (try_force_seek html5_provider 5000 (pending_sync_from_playback demo_playback) 10000 None
     ((demo_steady 11)\<lparr>en_forceSeeks := \<lparr>ab_anchorMs = 10000, ab_count = 1000\<rparr>\<rparr>))) = Num 15"
proof -
  let ?st = "(demo_steady 11)\<lparr>en_forceSeeks := \<lparr>ab_anchorMs = 10000, ab_count = 1000\<rparr>\<rparr>"
  have "html5_host ?st" "element_at 11 (h_player ?st)" using demo_steady_facts(1) [of 11] by (auto simp: steady_at_def html5_host_def element_at_def)
  moreover have "within_medium ss 5000 ?st" for ss by (rule within_medium_cong [OF demo_steady_facts(2) [of _ _ 11]]) simp_all
  moreover have "soft_drift_threshold_sec ?st = 8 / 10" using demo_steady_facts(4) by (subst soft_threshold_cong [of _ "demo_steady 11"]) simp_all
  ultimately show ?thesis
    using spent_budget_still_seeks [of ?st "pending_sync_from_playback demo_playback" 11 5000 10000 1000]
    by (simp add: pending_sync_from_playback_def demo_playback_def compute_expected_playback_time_sec_def)
qed

section \<open>A paused room\<close>

lemma stopped_iff: "el_stopped p = Some True \<Longrightarrow> \<not> is_syncable_player_playing p" "el_stopped p \<noteq> None \<longleftrightarrow> has_el p"
  by (auto simp: el_stopped_def is_syncable_player_playing_def has_el_def)

lemma html5_write_stopped [simp]: "el_stopped (fst (apply_playback_sync_to_player html5_provider ClockMode ss ac now p)) = el_stopped p"
proof -
  have t: "el_stopped (write_current_time html5_provider v p) = el_stopped p" for v p
    by (simp add: write_current_time_def html5_provider_def on_el_def has_el_def el_stopped_def Let_def option.map_comp comp_def)
  show ?thesis by (simp add: apply_playback_sync_to_player_def apply_playback_clock_to_player_def Let_def t split: option.split)
qed

lemma write_clock_has_el [simp]: "has_el (h_player (fst (write_clock html5_provider now ss t q st))) = has_el (h_player st)"
  using html5_write_stopped unfolding stopped_iff(2) [symmetric] write_clock_def Let_def by (simp add: split_def)

lemma html5_nudge_stops: "has_el p \<Longrightarrow> el_stopped (nudge_playback_transport html5_provider True p) = Some True"
  by (auto simp: nudge_playback_transport_def html5_provider_def on_el_def has_el_def el_stopped_def)

lemma escalate_has_el:
  "has_el (h_player st) \<Longrightarrow> has_el (h_player (escalate_apply html5_provider now ss g r st))"
  by (auto simp: escalate_apply_def on_player_def Let_def has_el_def escalate_seek_while_paused_def html5_provider_def on_el_def
      write_current_time_def split: option.split prod.split)

lemma transport_stops:
  assumes "ss_paused ss" "has_el (h_player st)"
  shows "el_stopped (h_player (transport_apply html5_provider ss st)) = Some True"
    and "en_pauseTimers (transport_apply html5_provider ss st) = map (\<lambda>d. (d, True)) (pause_retry_delays_ms st)"
proof -
  have "\<not> is_syncable_player_playing (h_player st) \<Longrightarrow> el_stopped (h_player st) = Some True"
    using assms(2) by (auto simp: is_syncable_player_playing_def has_el_def el_stopped_def)
  then show "el_stopped (h_player (transport_apply html5_provider ss st)) = Some True"
    using assms by (simp add: transport_apply_def on_player_def html5_nudge_stops)
  show "en_pauseTimers (transport_apply html5_provider ss st) = map (\<lambda>d. (d, True)) (pause_retry_delays_ms st)"
    using assms(1) by (simp add: transport_apply_def schedule_transport_burst_def pause_retry_delays_ms_def split: option.split)
qed

lemma tuning_kept [simp]:
  "h_tuning (fst (gate_apply ss thr st)) = h_tuning st"
  "h_tuning (fst (write_clock pv now ss t q st)) = h_tuning st"
  "h_tuning (fst (confirm_apply now ss g b r st)) = h_tuning st"
  "h_tuning (escalate_apply pv now ss g r st) = h_tuning st"
  by (simp_all add: gate_apply_def write_clock_def confirm_apply_def note_seek_attempt_def escalate_apply_def on_player_def Let_def
      split: option.split prod.split)

lemma pause_timers_kept [simp]:
  "\<not> g_native g \<Longrightarrow> en_pauseTimers (fst (settle_apply pv now ss g c e d st)) = en_pauseTimers st"
  "en_pauseTimers (catch_up_apply pv ss g cu d st) = en_pauseTimers st"
  "en_pauseTimers (rearm_apply g still echo r d st) = en_pauseTimers st"
  by (simp_all add: settle_apply_def catch_up_apply_def clear_catch_up_rate_def on_player_def activate_catch_up_rate_def
      rearm_apply_def schedule_anchor_verify_burst_def clear_retry_timers_def Let_def split: option.split)

lemma gate_not_native: "h_tuning st = None \<Longrightarrow> \<not> g_native (snd (gate_apply ss thr st))"
  by (simp add: gate_apply_def is_native_sync_def Let_def)

text \<open>
  C16. Applying the clock of a paused room stops an HTML player, whatever the threshold and wherever it is, and
  arms the pause burst; a timer of the burst stops a player that has started again.
\<close>

theorem pause_enforced:
  assumes "h_tuning st = None" "\<not> en_disposed st" "has_el (h_player st)" "ss_paused ss"
  shows "\<not> is_syncable_player_playing (h_player (apply_room_clock html5_provider now ss thr st)) \<and>
     en_pauseTimers (apply_room_clock html5_provider now ss thr st) = map (\<lambda>d. (d, True)) anchor_retry_delays_ms \<and>
     (h_mounted st' \<and> h_authorityPaused st' \<and> h_tuning st' = None \<and> \<not> en_disposed st' \<and> has_el (h_player st') \<longrightarrow>
        \<not> is_syncable_player_playing (h_player (transport_timer_fires html5_provider now' True st')))"
proof (intro conjI impI)
  note n = gate_not_native [OF assms(1)]
  have h: "has_el (h_player (fst (gate_apply ss thr st)))" using assms(3) by simp
  show "\<not> is_syncable_player_playing (h_player (apply_room_clock html5_provider now ss thr st))"
    by (rule stopped_iff(1))
      (simp add: apply_room_clock_parts assms(2) Let_def settle_player [OF n] transport_stops(1) [OF assms(4)] escalate_has_el assms(3))
  show "en_pauseTimers (apply_room_clock html5_provider now ss thr st) = map (\<lambda>d. (d, True)) anchor_retry_delays_ms"
    by (simp add: apply_room_clock_parts assms(2) Let_def pause_timers_kept(1) [OF n] transport_stops(2) [OF assms(4)] escalate_has_el
        assms(1,3) pause_retry_delays_ms_def)
next
  assume "h_mounted st' \<and> h_authorityPaused st' \<and> h_tuning st' = None \<and> \<not> en_disposed st' \<and> has_el (h_player st')"
  then show "\<not> is_syncable_player_playing (h_player (transport_timer_fires html5_provider now' True st'))"
    using stopped_iff(1) [OF html5_nudge_stops, of "h_player st'"]
    by (simp add: transport_timer_fires_def is_native_sync_def on_player_def)
qed

theorem pause_enforced_witness:
  "\<not> is_syncable_player_playing (h_player (apply_room_clock html5_provider 5000
      (pending_sync_from_playback (demo_playback\<lparr>pi_paused := True\<rparr>)) None (demo_steady 11)))"
  using pause_enforced [of "demo_steady 11" "pending_sync_from_playback (demo_playback\<lparr>pi_paused := True\<rparr>)" 5000 None]
    demo_steady_facts(1) [of 11]
  by (auto simp: steady_at_def html5_host_def has_el_def pending_sync_from_playback_def)

section \<open>A player in step\<close>

text \<open>
  C17. A player in step is left alone: when nothing is outstanding, its transport agrees with the room and its
  drift is within the soft threshold, neither the watchdog nor a verify timer touches it, with any provider.
\<close>

theorem in_step_undisturbed:
  fixes st
  defines "ss \<equiv> pending_sync_from_playback (h_playback st)"
  assumes "h_pendingSync st = None" "h_catchUpRate st = None" "nt_probe (en_native st) = None"
    and "h_authorityPaused st = ss_paused ss" "is_syncable_player_playing (h_player st) = (\<not> ss_paused ss)"
    and "is_native_sync st \<Longrightarrow> \<not> ss_paused ss \<and> native_duration_ready st \<and> \<not> en_durationGated st"
    and "measure_drift ss now st = Some d" "d \<le> soft_drift_threshold_sec st"
  shows "h_player (run_watchdog_tick pv now st) = h_player st \<and> h_player (run_verify_tick pv now a st) = h_player st \<and>
     h_pendingSync (run_watchdog_tick pv now st) = None \<and> h_pendingSync (run_verify_tick pv now a st) = None"
proof -
  have g: "(if is_native_sync st then gate_native_tick pv now ss st else (st, False)) = (st, False)"
    using assms(7) by (simp add: gate_native_tick_def)
  have hold: "should_seek_confirm ss (is_native_sync st) \<Longrightarrow> seek_confirm_should_hold pv now ss (Some d) st = (st, False)"
    using assms(4,7) by (auto simp: should_seek_confirm_def seek_confirm_should_hold_def evaluate_seek_def)
  have sample: "sample_tick_convergence pv now ss (is_native_sync st) st =
      (st, \<lparr>cv_driftSec = Some d, cv_pauseUnconverged = False, cv_playUnconverged = False, cv_seekConfirmHold = False\<rparr>)"
    using assms(5,6,8) hold by (cases "should_seek_confirm ss (is_native_sync st)")
      (simp_all add: sample_tick_convergence_def reconcile_paused_transport_def is_playing_against_pause_def
        reconcile_playing_transport_def Let_def)
  show ?thesis using assms(2,3,9)
    by (simp add: run_watchdog_tick_def run_verify_tick_def Let_def g sample plan_playback_drift_correction_def
        clear_pending_when_converged_def clear_catch_up_rate_def flip: ss_def)
qed

theorem in_step_undisturbed_witness:
  "h_player (run_watchdog_tick html5_provider 5000 (demo_steady 15)) = h_player (demo_steady 15)"
proof -
  have s: "steady_at 15 (demo_steady 15)" "within_medium ss now (demo_steady 15)" for ss now by (simp_all add: demo_steady_facts)
  then have "measure_drift (pending_sync_from_playback demo_playback) 5000 (demo_steady 15) = Some 0"
    using drift_within [of 15 "demo_steady 15" "pending_sync_from_playback demo_playback" 5000]
    by (auto simp: steady_at_def element_at_def pending_sync_from_playback_def demo_playback_def compute_expected_playback_time_sec_def)
  then show ?thesis
    using in_step_undisturbed [of "demo_steady 15" 5000 0 html5_provider 10000] s(1) demo_steady_facts(3,4) [of 15]
    by (auto simp: steady_at_def pending_sync_from_playback_def demo_playback_def is_syncable_player_playing_def)
      (simp_all add: demo_steady_def)
qed

section \<open>The state of the engine\<close>

definition engine_core :: "sync_engine \<Rightarrow> bool" where
  "engine_core st \<longleftrightarrow>
     ab_count (en_forceSeeks st) \<le> iframe_max_force_seeks_per_anchor \<and>
     ab_count (en_escalations st) \<le> iframe_max_force_seeks_per_anchor \<and>
     (\<forall>q. h_catchUpRate st = Some q \<longrightarrow> 0 < q \<and> q \<le> playback_rate_schema_max) \<and>
     (en_holdLocalSeek st \<longrightarrow> h_catchUpRate st = None \<and> en_retryTimers st = []) \<and>
     nt_seekFailures (en_native st) < native_max_verify_failures \<and>
     (h_tuning st = None \<or> h_tuning st = Some iframe_provider_sync_tuning)"

lemma core_host [simp]:
  "engine_core (st\<lparr>en_phase := ph\<rparr>) = engine_core st"
  "engine_core (st\<lparr>h_player := p\<rparr>) = engine_core st"
  "engine_core (st\<lparr>h_pendingSync := ps\<rparr>) = engine_core st"
  "engine_core (st\<lparr>en_durationGated := b\<rparr>) = engine_core st"
  "engine_core (st\<lparr>en_initialSnapPending := b\<rparr>) = engine_core st"
  "engine_core (st\<lparr>en_catchUpStall := cs\<rparr>) = engine_core st"
  "engine_core (st\<lparr>en_pauseTimers := ts\<rparr>) = engine_core st"
  "engine_core (st\<lparr>en_lastSeekMs := ls\<rparr>) = engine_core st"
  "engine_core (st\<lparr>h_lastAppliedAnchorMs := la\<rparr>) = engine_core st"
  "engine_core (st\<lparr>en_disposed := b\<rparr>) = engine_core st"
  "engine_core (st\<lparr>en_started := b\<rparr>) = engine_core st"
  "engine_core (st\<lparr>en_watchdog := b\<rparr>) = engine_core st"
  by (simp_all add: engine_core_def)

lemma core_native:
  "engine_core st \<Longrightarrow> nt_seekFailures t < native_max_verify_failures \<Longrightarrow> engine_core (st\<lparr>en_native := t\<rparr>)"
  by (simp add: engine_core_def)

lemma core_failures: "engine_core st \<Longrightarrow> nt_seekFailures (en_native st) < native_max_verify_failures"
  by (simp add: engine_core_def)

lemma native_failures:
  assumes "nt_seekFailures t < native_max_verify_failures"
  shows "nt_seekFailures (fst (evaluate_seek a c d th p now t)) < native_max_verify_failures"
    and "nt_seekFailures (note_seek a f tg now t) < native_max_verify_failures"
    and "nt_seekFailures (fst (sample_pause_quiescence c wp now t)) < native_max_verify_failures"
    and "nt_seekFailures (fst (claim_pause_seek k t)) < native_max_verify_failures"
    and "nt_seekFailures (reset_pause_samples t) < native_max_verify_failures"
    and "nt_seekFailures (tracker_reset t) < native_max_verify_failures"
  using assms
  by (simp_all add: evaluate_seek_def probe_failed_def probe_settled_def note_seek_def reset_pause_samples_def tracker_reset_def
      sample_pause_quiescence_def claim_pause_seek_def Let_def native_max_verify_failures_def
      split: option.split js_number.split prod.split)

lemma core_on_player [simp]: "engine_core (on_player f st) = engine_core st"
  by (simp add: on_player_def)

lemma core_clear_rate: "engine_core st \<Longrightarrow> engine_core (clear_catch_up_rate pv st)"
proof -
  have "engine_core st \<Longrightarrow> engine_core (st\<lparr>h_catchUpRate := None\<rparr>)" by (simp add: engine_core_def)
  then show "engine_core st \<Longrightarrow> engine_core (clear_catch_up_rate pv st)" by (simp add: clear_catch_up_rate_def Let_def)
qed

lemma core_activate:
  assumes "engine_core st" "\<not> en_holdLocalSeek st"
  shows "engine_core (fst (activate_catch_up_rate pv ss d st))"
proof -
  have "\<And>q. resolve_catch_up_playback_rate r x m = Some q \<Longrightarrow> engine_core (st\<lparr>h_catchUpRate := Some q\<rparr>)" for r x m
    using assms catch_up_rate_cases by (fastforce simp: engine_core_def playback_rate_schema_max_def)
  then show ?thesis using assms(1) by (simp add: activate_catch_up_rate_def split: option.split)
qed

lemma core_settle_pause: "engine_core st \<Longrightarrow> engine_core (fst (settle_native_pause pv now st))"
  using native_failures(3) [OF core_failures]
  by (auto simp: settle_native_pause_def Let_def split_def intro: core_native)

lemma core_schedule: "engine_core st \<Longrightarrow> engine_core (schedule_anchor_verify_burst a st)"
  by (auto simp: engine_core_def schedule_anchor_verify_burst_def clear_retry_timers_def reset_anchor_budget_def Let_def)

lemma core_gate: "engine_core st \<Longrightarrow> engine_core (fst (gate_apply ss thr st))"
  using native_failures(4) [OF core_failures]
  by (auto simp: gate_apply_def Let_def split_def intro!: core_native)

lemma core_write: "engine_core st \<Longrightarrow> engine_core (fst (write_clock pv now ss t q st))"
  by (simp add: write_clock_def split_def Let_def)

lemma core_note_seek_attempt [simp]: "engine_core (note_seek_attempt now st) = engine_core st"
  by (simp add: note_seek_attempt_def)

lemma core_confirm: "engine_core st \<Longrightarrow> engine_core (fst (confirm_apply now ss g b r st))"
  using native_failures(1,2) [OF core_failures]
  by (simp add: confirm_apply_def note_seek_attempt_def Let_def split_def core_native split: option.split bool.split)

lemma consume_bounded:
  "ab_count b \<le> n \<Longrightarrow> k \<le> n \<Longrightarrow> ab_count (fst (try_consume_anchor_budget b a k)) \<le> n"
  by (simp add: try_consume_anchor_budget_def reset_anchor_budget_def Let_def)

lemma core_max_seeks: "engine_core st \<Longrightarrow> max_force_seeks st \<le> iframe_max_force_seeks_per_anchor"
  by (auto simp: engine_core_def max_force_seeks_def iframe_provider_sync_tuning_def max_force_seeks_per_anchor_def
      iframe_max_force_seeks_per_anchor_def)

lemma core_budgets:
  "engine_core st \<Longrightarrow> ab_count b \<le> iframe_max_force_seeks_per_anchor \<Longrightarrow> engine_core (st\<lparr>en_forceSeeks := b\<rparr>)"
  "engine_core st \<Longrightarrow> ab_count b \<le> iframe_max_force_seeks_per_anchor \<Longrightarrow> engine_core (st\<lparr>en_escalations := b\<rparr>)"
  by (simp_all add: engine_core_def)

lemma core_escalate: "engine_core st \<Longrightarrow> engine_core (escalate_apply pv now ss g r st)"
  using consume_bounded [OF _ core_max_seeks] unfolding escalate_apply_def
  by (auto simp: split_def Let_def engine_core_def [of st] intro!: core_budgets(2) split: option.split)

lemma core_transport: "engine_core st \<Longrightarrow> engine_core (transport_apply pv ss st)"
  using native_failures(5) [OF core_failures]
  by (auto simp: transport_apply_def schedule_transport_burst_def clear_transport_nudge_def intro!: core_native)

lemma core_settle: "engine_core st \<Longrightarrow> engine_core (fst (settle_apply pv now ss g c e d st))"
  using core_settle_pause by (simp add: settle_apply_def Let_def split_def)

lemma core_catch_up: "engine_core st \<Longrightarrow> engine_core (catch_up_apply pv ss g cu d st)"
  using core_clear_rate core_activate by (simp add: catch_up_apply_def Let_def split: option.split)

lemma core_rearm: "engine_core st \<Longrightarrow> engine_core (rearm_apply g s e r d st)"
  by (simp add: rearm_apply_def core_schedule)

lemma core_apply: "engine_core st \<Longrightarrow> engine_core (apply_room_clock pv now ss thr st)"
  by (simp add: apply_room_clock_parts Let_def core_rearm core_catch_up core_settle core_transport core_escalate core_confirm
      core_write core_gate)

lemma core_force: "engine_core st \<Longrightarrow> engine_core (try_force_seek pv now ss a t st)"
proof -
  assume c: "engine_core st"
  define st1 where "st1 = (if ab_anchorMs (en_forceSeeks st) \<noteq> a
    then st\<lparr>en_forceSeeks := \<lparr>ab_anchorMs = a, ab_count = 0\<rparr>, en_escalations := \<lparr>ab_anchorMs = a, ab_count = 0\<rparr>\<rparr> else st)"
  have c1: "engine_core st1" using c by (simp add: st1_def engine_core_def)
  then have "ab_count (fst (try_consume_anchor_budget (en_forceSeeks st1) a (max_force_seeks st1))) \<le> iframe_max_force_seeks_per_anchor"
    by (intro consume_bounded core_max_seeks) (simp_all add: engine_core_def)
  from core_budgets(1) [OF c1 this] show ?thesis
    unfolding try_force_seek_def Let_def split_def st1_def [symmetric] by (rule core_apply)
qed

lemma core_ticks:
  assumes "engine_core st"
  shows "engine_core (fst (gate_native_tick pv now ss st))"
    and "engine_core (fst (seek_confirm_should_hold pv now ss d st))"
    and "engine_core (fst (reconcile_paused_transport pv st))" "engine_core (fst (reconcile_playing_transport pv st))"
    and "engine_core (fst (should_escalate_catch_up_stall now ss d st))"
  using assms native_failures(1) [OF core_failures [OF assms]]
  by (auto simp: gate_native_tick_def core_apply seek_confirm_should_hold_def Let_def split_def reconcile_paused_transport_def
      reconcile_playing_transport_def should_escalate_catch_up_stall_def intro!: core_settle_pause core_native
      split: option.split)

lemma core_correct:
  assumes "engine_core st" "\<not> en_holdLocalSeek st"
  shows "engine_core (try_catch_up_or_force_seek pv now ss d a n st)"
proof -
  obtain st1 b where x: "(if n then (st, False) else should_escalate_catch_up_stall now ss (Some d) st) = (st1, b)" by fastforce
  have "engine_core (fst (if n then (st, False) else should_escalate_catch_up_stall now ss (Some d) st))"
    "\<not> en_holdLocalSeek (fst (if n then (st, False) else should_escalate_catch_up_stall now ss (Some d) st))"
    using core_ticks(5) [OF assms(1)] assms
    by (auto simp: should_escalate_catch_up_stall_def Let_def split: option.split)
  then have c: "engine_core st1" "\<not> en_holdLocalSeek st1" by (simp_all add: x)
  obtain st2 q where r: "activate_catch_up_rate pv ss d st1 = (st2, q)" by fastforce
  have "engine_core st2" using core_activate [OF c] r by (metis fst_conv)
  then show ?thesis
    unfolding try_catch_up_or_force_seek_def x
    by (simp add: r core_force core_clear_rate c(1) split: bool.split option.split)
qed

lemma core_sample: "engine_core st \<Longrightarrow> engine_core (fst (sample_tick_convergence pv now ss n st))"
  by (simp add: sample_tick_convergence_def Let_def split_def core_ticks)

lemma hold_kept [simp]:
  "en_holdLocalSeek (on_player f st) = en_holdLocalSeek st"
  "en_holdLocalSeek (fst (settle_native_pause pv now st)) = en_holdLocalSeek st"
  "en_holdLocalSeek (fst (sample_tick_convergence pv now ss n st)) = en_holdLocalSeek st"
  "en_holdLocalSeek (clear_catch_up_rate pv st) = en_holdLocalSeek st"
  by (simp_all add: on_player_def settle_native_pause_def sample_tick_convergence_def reconcile_paused_transport_def
      reconcile_playing_transport_def seek_confirm_should_hold_def clear_catch_up_rate_def Let_def split_def)

lemma core_converged: "engine_core st \<Longrightarrow> engine_core (clear_pending_when_converged pv d st)"
  by (simp add: clear_pending_when_converged_def Let_def core_clear_rate)

lemma gate_native_open: "(if n then gate_native_tick pv now ss st else (st, False)) = (st1, False) \<Longrightarrow> st1 = st"
  by (auto simp: gate_native_tick_def split: if_splits)

subsection \<open>Phases\<close>

lemma phase_kept [simp]:
  "en_phase (on_player f st) = en_phase st"
  "en_phase (clear_catch_up_rate pv st) = en_phase st"
  "en_phase (fst (activate_catch_up_rate pv ss d st)) = en_phase st"
  "en_phase (fst (should_escalate_catch_up_stall now ss dr st)) = en_phase st"
  "en_phase (fst (settle_native_pause pv now st)) = en_phase st"
  "en_phase (catch_up_apply pv ss g cu dr st) = en_phase st"
  "en_phase (clear_pending_when_converged pv dr st) = en_phase st"
  "en_phase (fst (sample_tick_convergence pv now ss n st)) = en_phase st"
  by (simp_all add: on_player_def clear_catch_up_rate_def activate_catch_up_rate_def should_escalate_catch_up_stall_def
      settle_native_pause_def catch_up_apply_def clear_pending_when_converged_def sample_tick_convergence_def
      reconcile_paused_transport_def reconcile_playing_transport_def seek_confirm_should_hold_def Let_def split_def
      split: option.split)

lemma phase_schedule: "en_phase (schedule_anchor_verify_burst a st) = EApplying \<longleftrightarrow> en_phase st = EApplying"
  by (simp add: schedule_anchor_verify_burst_def clear_retry_timers_def Let_def)

lemma phase_apply: "en_phase st \<noteq> EApplying \<Longrightarrow> en_phase (apply_room_clock pv now ss thr st) \<noteq> EApplying"
  by (simp add: apply_room_clock_parts Let_def rearm_apply_def phase_schedule settle_apply_def split_def)

lemma phase_force: "en_phase st \<noteq> EApplying \<Longrightarrow> en_phase (try_force_seek pv now ss a t st) \<noteq> EApplying"
  by (simp add: try_force_seek_def Let_def split_def phase_apply)

lemma phase_correct: "en_phase st \<noteq> EApplying \<Longrightarrow> en_phase (try_catch_up_or_force_seek pv now ss d a n st) \<noteq> EApplying"
proof -
  assume p: "en_phase st \<noteq> EApplying"
  obtain st1 b where x: "(if n then (st, False) else should_escalate_catch_up_stall now ss (Some d) st) = (st1, b)" by fastforce
  have p1: "en_phase st1 \<noteq> EApplying" using x p phase_kept(4) by (metis fst_conv)
  obtain st2 q where r: "activate_catch_up_rate pv ss d st1 = (st2, q)" by fastforce
  have "en_phase st2 \<noteq> EApplying" using r p1 phase_kept(3) by (metis fst_conv)
  then show ?thesis unfolding try_catch_up_or_force_seek_def x
    by (simp add: r phase_force p1 split: bool.split option.split)
qed

definition engine_ok :: "sync_engine \<Rightarrow> bool" where
  "engine_ok st = (engine_core st \<and> en_phase st \<noteq> EApplying)"

lemma ok_phase [simp]:
  "engine_ok (st\<lparr>en_phase := EVerifying\<rparr>) = engine_core st" "engine_ok (st\<lparr>en_phase := EIdle\<rparr>) = engine_core st"
  "engine_ok (st\<lparr>h_pendingSync := ps\<rparr>) = engine_ok st"
  by (simp_all add: engine_ok_def)

lemma ok_core: "engine_ok st \<Longrightarrow> engine_core st"
  by (simp add: engine_ok_def)

lemma ok_apply: "engine_ok st \<Longrightarrow> engine_ok (apply_room_clock pv now ss thr st)"
  and ok_force: "engine_ok st \<Longrightarrow> engine_ok (try_force_seek pv now ss a t st)"
  and ok_sample: "engine_ok st \<Longrightarrow> engine_ok (fst (sample_tick_convergence pv now ss n st))"
  and ok_converged: "engine_ok st \<Longrightarrow> engine_ok (clear_pending_when_converged pv dr st)"
  by (simp_all add: engine_ok_def core_apply phase_apply core_force phase_force core_sample core_converged)

lemma ok_correct: "engine_ok st \<Longrightarrow> \<not> en_holdLocalSeek st \<Longrightarrow> engine_ok (try_catch_up_or_force_seek pv now ss d a n st)"
  by (simp add: engine_ok_def core_correct phase_correct)

lemma ok_gate_native:
  "engine_ok st \<Longrightarrow> engine_ok (fst (if n then gate_native_tick pv now ss st else (st, False)))"
  by (simp add: gate_native_tick_def ok_apply) (simp add: engine_ok_def)

lemma ok_verify: "engine_ok st \<Longrightarrow> engine_ok (run_verify_tick pv now a st)"
proof (cases "en_disposed st \<or> en_holdLocalSeek st \<or> \<not> h_mediaReady st \<or> \<not> h_mounted st \<or> pi_timelineAnchorMs (h_playback st) \<noteq> a")
  case False
  assume c: "engine_ok st"
  let ?ss = "pending_sync_from_playback (h_playback st)" and ?n = "is_native_sync st"
  obtain st1 b where g: "(if ?n then gate_native_tick pv now ?ss st else (st, False)) = (st1, b)" by fastforce
  have c1: "engine_ok st1" using ok_gate_native [OF c] g by (metis fst_conv)
  obtain st2 cv where s: "sample_tick_convergence pv now ?ss ?n st1 = (st2, cv)" by fastforce
  have c2: "engine_ok st2" using ok_sample [OF c1] s by (metis fst_conv)
  have h2: "\<not> b \<Longrightarrow> \<not> en_holdLocalSeek st2"
    using False gate_native_open g hold_kept(3) s by (metis fst_conv)
  have "\<not> b \<Longrightarrow> engine_ok (try_catch_up_or_force_seek pv now ?ss d a ?n (st2\<lparr>en_phase := EVerifying\<rparr>))" for d
    using ok_correct [of "st2\<lparr>en_phase := EVerifying\<rparr>"] ok_core [OF c2] h2 by simp
  then show ?thesis using False c1 c2 ok_converged [OF c2]
    by (auto simp: run_verify_tick_def Let_def g s ok_core split: option.split bool.split)
qed (simp add: run_verify_tick_def)

lemma ok_watchdog: "engine_ok st \<Longrightarrow> engine_ok (run_watchdog_tick pv now st)"
proof (cases "en_disposed st \<or> en_holdLocalSeek st \<or> \<not> h_mediaReady st \<or> \<not> h_mounted st")
  case False
  assume c: "engine_ok st"
  define ss where "ss = (case h_pendingSync st of Some s \<Rightarrow> s | None \<Rightarrow> pending_sync_from_playback (h_playback st))"
  let ?n = "is_native_sync st"
  obtain st1 b where g: "(if ?n then gate_native_tick pv now ss st else (st, False)) = (st1, b)" by fastforce
  have c1: "engine_ok st1" using ok_gate_native [OF c] g by (metis fst_conv)
  obtain st2 cv where s: "sample_tick_convergence pv now ss ?n st1 = (st2, cv)" by fastforce
  have c2: "engine_ok st2" using ok_sample [OF c1] s by (metis fst_conv)
  have h2: "\<not> b \<Longrightarrow> \<not> en_holdLocalSeek st2"
    using False gate_native_open g hold_kept(3) s by (metis fst_conv)
  have "\<not> b \<Longrightarrow> engine_ok (try_catch_up_or_force_seek pv now ss d a ?n (st2\<lparr>en_phase := EVerifying\<rparr>))"
    "engine_ok (try_force_seek pv now ss a t (st2\<lparr>en_phase := EVerifying\<rparr>))" for d a t
    using ok_correct [of "st2\<lparr>en_phase := EVerifying\<rparr>"] ok_force [of "st2\<lparr>en_phase := EVerifying\<rparr>"] ok_core [OF c2] h2 by simp_all
  then show ?thesis using False c1 c2 ok_converged [OF c2]
    by (simp add: run_watchdog_tick_def Let_def g s ok_core flip: ss_def split: option.split bool.split drift_plan.split)
qed (simp add: run_watchdog_tick_def)

section \<open>Every sequence of calls\<close>

text \<open>
  The calls and timers of an engine, and its host: the room, the player and the hooks change what the host
  hands out, but the catch-up rate is the engine's.
\<close>

inductive engine_step :: "provider \<Rightarrow> (string \<Rightarrow> bool) \<Rightarrow> sync_engine \<Rightarrow> sync_engine \<Rightarrow> bool" for pv isNative where
  engine_applies: "engine_step pv isNative st (apply_room_clock pv now ss thr st)"
| engine_retries: "engine_step pv isNative st (retry_timer_fires pv now i st)"
| engine_nudges: "(delay, paused) \<in> set (en_pauseTimers st) \<Longrightarrow> engine_step pv isNative st (transport_timer_fires pv now paused st)"
| engine_watches: "en_watchdog st \<Longrightarrow> engine_step pv isNative st (run_watchdog_tick pv now st)"
| engine_holds: "engine_step pv isNative st (set_hold_local_seek pv b st)"
| engine_anchored: "engine_step pv isNative st (on_authority_anchor a st)"
| engine_duration: "engine_step pv isNative st (on_duration_available pv now st)"
| engine_unnudged: "engine_step pv isNative st (clear_transport_nudge st)"
| engine_starts: "engine_step pv isNative st (engine_start st)"
| engine_resets: "engine_step pv isNative st (engine_reset pv st)"
| engine_disposed: "engine_step pv isNative st (engine_dispose pv st)"
| engine_host: "engine_step pv isNative st
    (st\<lparr>h_player := p, h_mounted := mo, h_mediaReady := rd, h_playback := pb, h_pendingSync := ps, h_lastAppliedAnchorMs := la,
        h_authorityPaused := ap, h_tuning := resolve_provider_sync_tuning isNative src, h_durationHint := dh, h_lastRttMs := rtt\<rparr>)"

inductive engine_reachable :: "provider \<Rightarrow> (string \<Rightarrow> bool) \<Rightarrow> sync_engine \<Rightarrow> bool" for pv isNative where
  engine_created: "h_tuning host = resolve_provider_sync_tuning isNative src \<Longrightarrow> h_catchUpRate host = None \<Longrightarrow>
     engine_reachable pv isNative (create_playback_sync_engine host)"
| engine_stepped: "engine_reachable pv isNative st \<Longrightarrow> engine_step pv isNative st st' \<Longrightarrow> engine_reachable pv isNative st'"

inductive_cases engine_stepE: "engine_step pv isNative st st'"

lemma core_cleared:
  assumes "engine_core st"
  shows "engine_core (clear_catch_up_rate pv (clear_transport_nudge (clear_retry_timers st)))"
  using assms by (intro core_clear_rate) (simp add: engine_core_def clear_transport_nudge_def clear_retry_timers_def)

lemma reset_phase [simp]: "en_phase (clear_transport_nudge st) = en_phase st" "en_phase (clear_retry_timers st) = en_phase st"
  by (simp_all add: clear_transport_nudge_def clear_retry_timers_def)

lemma ok_reset: "engine_ok st \<Longrightarrow> engine_ok (engine_reset pv st)"
  using core_cleared [of st pv] native_failures(6) [OF core_failures [OF core_cleared [of st pv]]]
  by (auto simp: engine_ok_def engine_reset_def Let_def engine_core_def [of "st\<lparr>en_phase := _\<rparr>"] intro!: core_native core_budgets)

lemma ok_dispose: "engine_ok st \<Longrightarrow> engine_ok (engine_dispose pv st)"
  using core_cleared [of "st\<lparr>en_disposed := True\<rparr>" pv]
    native_failures(6) [OF core_failures [OF core_cleared [of "st\<lparr>en_disposed := True\<rparr>" pv]]]
  by (auto simp: engine_ok_def engine_dispose_def Let_def intro!: core_native)

lemma tuning_resolved:
  "resolve_provider_sync_tuning isNative src = None \<or> resolve_provider_sync_tuning isNative src = Some iframe_provider_sync_tuning"
  by (simp add: resolve_provider_sync_tuning_def)

lemma engine_step_ok: "engine_step pv isNative st st' \<Longrightarrow> engine_ok st \<Longrightarrow> engine_ok st'"
proof (induction rule: engine_step.induct)
  case (engine_retries st now i)
  have "engine_ok (st\<lparr>en_retryTimers := take i (en_retryTimers st) @ drop (Suc i) (en_retryTimers st)\<rparr>)"
    using engine_retries by (simp add: engine_ok_def engine_core_def)
  then show ?case using engine_retries by (simp add: retry_timer_fires_def ok_verify)
next
  case (engine_nudges delay paused st now)
  then show ?case by (simp add: transport_timer_fires_def engine_ok_def core_settle_pause)
next
  case (engine_holds st b)
  have c: "engine_core (st\<lparr>en_holdLocalSeek := False\<rparr>)" using engine_holds by (simp add: engine_ok_def engine_core_def)
  have h: "clear_catch_up_rate pv (st\<lparr>en_holdLocalSeek := True, en_retryTimers := []\<rparr>) =
      (clear_catch_up_rate pv (st\<lparr>en_retryTimers := []\<rparr>))\<lparr>en_holdLocalSeek := True\<rparr>"
    by (simp add: clear_catch_up_rate_def on_player_def Let_def)
  have "engine_core (st\<lparr>en_retryTimers := []\<rparr>)" using engine_holds by (simp add: engine_ok_def engine_core_def)
  from core_clear_rate [OF this, of pv] have "engine_core (clear_catch_up_rate pv (st\<lparr>en_holdLocalSeek := True, en_retryTimers := []\<rparr>))"
    unfolding h by (auto simp: engine_core_def clear_catch_up_rate_def on_player_def Let_def)
  then show ?case using c engine_holds core_schedule [of "st\<lparr>en_holdLocalSeek := False, en_phase := EVerifying\<rparr>"]
    core_schedule [of "st\<lparr>en_holdLocalSeek := False, en_phase := EIdle\<rparr>"]
    by (simp add: set_hold_local_seek_def Let_def engine_ok_def phase_schedule clear_retry_timers_def)
next
  case (engine_host st p mo rd pb ps la ap src dh rtt)
  then show ?case using tuning_resolved by (simp add: engine_ok_def engine_core_def)
qed (simp_all add: ok_apply ok_watchdog ok_reset ok_dispose, simp_all add: engine_ok_def on_authority_anchor_def core_schedule phase_schedule
       on_duration_available_def clear_transport_nudge_def engine_start_def Let_def core_apply phase_apply)

lemma engine_reachable_ok: "engine_reachable pv isNative st \<Longrightarrow> engine_ok st"
proof (induction rule: engine_reachable.induct)
  case (engine_created host src)
  then show ?case using tuning_resolved [of isNative src]
    by (simp add: create_playback_sync_engine_def engine_ok_def engine_core_def create_native_sync_tracker_def
        native_max_verify_failures_def)
qed (rule engine_step_ok)

text \<open>
  C15. Whatever calls, timers and changes of the room and player come in whatever order, and however the player
  answers: between them no apply is under way, the budgets of an anchor stay within eight, the catch-up rate is
  positive and at most 3, a probe has failed at most five times, and while a local seek is held no verify timer
  is armed and no catch-up rate is set.
\<close>

theorem engine_state_well_formed:
  assumes "engine_reachable pv isNative st"
  shows "resolve_phase st \<noteq> PhaseApplying \<and> ab_count (en_forceSeeks st) \<le> 8 \<and> ab_count (en_escalations st) \<le> 8 \<and>
    (\<forall>q. h_catchUpRate st = Some q \<longrightarrow> 0 < q \<and> q \<le> 3) \<and> nt_seekFailures (en_native st) \<le> 5 \<and>
    (resolve_phase st = PhaseHoldingLocalSeek \<longrightarrow> en_retryTimers st = [] \<and> h_catchUpRate st = None)"
  using engine_reachable_ok [OF assms]
  by (auto simp: engine_ok_def engine_core_def resolve_phase_def iframe_max_force_seeks_per_anchor_def
      playback_rate_schema_max_def native_max_verify_failures_def split: engine_phase.splits if_splits)

theorem engine_state_well_formed_witness:
  "resolve_phase (set_hold_local_seek html5_provider True (joined 5000 demo_host)) = PhaseHoldingLocalSeek \<and>
   en_retryTimers (set_hold_local_seek html5_provider True (joined 5000 demo_host)) = []"
proof -
  have "engine_reachable html5_provider (\<lambda>_. False) (create_playback_sync_engine demo_host)"
    by (rule engine_created [of _ _ None]) (simp_all add: resolve_provider_sync_tuning_def)
  then have "engine_reachable html5_provider (\<lambda>_. False) (joined 5000 demo_host)"
    unfolding joined_def by (rule engine_stepped) (rule engine_applies)
  then have r: "engine_reachable html5_provider (\<lambda>_. False) (set_hold_local_seek html5_provider True (joined 5000 demo_host))"
    by (rule engine_stepped) (rule engine_holds)
  have "resolve_phase (set_hold_local_seek html5_provider True (joined 5000 demo_host)) = PhaseHoldingLocalSeek"
    by (simp add: set_hold_local_seek_def resolve_phase_def clear_retry_timers_def)
  with engine_state_well_formed [OF r] show ?thesis by simp
qed

end
