(* ===== verification/Session_Identity.thy ===== *)
theory Session_Identity
  imports Media_Frames Url_Safety Permissions
begin

text \<open>
  Who a browser is (\<open>src/src/client/realtime/session-identity.ts\<close>, \<open>control-url.ts\<close>): the identity kept in
  local storage, its hand-over through the fragment of a URL, and the control token kept for the tab.  A
  stored secret is either clear text of an older version or sealed by the browser's cipher; a text that
  \<open>JSON.stringify\<close> wrote is kept as the value it stands for.
\<close>

section \<open>The fragment\<close>

text \<open>\<open>encodeURIComponent\<close>: every code unit but the unreserved ones becomes its escaped UTF-8 bytes.\<close>

definition unreserved :: "char \<Rightarrow> bool" where
  "unreserved c = (let n = (of_char c :: nat) in
     (48 \<le> n \<and> n \<le> 57) \<or> (65 \<le> n \<and> n \<le> 90) \<or> (97 \<le> n \<and> n \<le> 122) \<or> n \<in> {45, 95, 46, 33, 126, 42, 39, 40, 41})"

definition hex_char :: "nat \<Rightarrow> char" where
  "hex_char d = (if d < 10 then char_of (48 + d) else char_of (55 + d))"

definition escape_byte :: "8 word \<Rightarrow> string" where
  "escape_byte b = [CHR ''%'', hex_char (unat b div 16), hex_char (unat b mod 16)]"

definition encode_char :: "char \<Rightarrow> string" where
  "encode_char c = (if unreserved c then [c] else concat (map escape_byte (utf8_char (of_char c))))"

definition encode_uri_component :: "string \<Rightarrow> string" where
  "encode_uri_component s = concat (map encode_char s)"

definition hex_value :: "char \<Rightarrow> nat option" where
  "hex_value c = (let n = (of_char c :: nat) in
     if 48 \<le> n \<and> n \<le> 57 then Some (n - 48) else if 65 \<le> n \<and> n \<le> 70 then Some (n - 55)
     else if 97 \<le> n \<and> n \<le> 102 then Some (n - 87) else None)"

text \<open>The form decoder of \<open>URLSearchParams\<close>: a plus is a space, an escape a byte, the bytes are UTF-8.\<close>

fun form_bytes :: "string \<Rightarrow> bytes" where
  "form_bytes [] = []"
| "form_bytes (c # s) =
     (if c = CHR ''+'' then byte 32 # form_bytes s
      else if c = CHR ''%'' then
        (case s of
           a # b # t \<Rightarrow>
             (case (hex_value a, hex_value b) of
                (Some x, Some y) \<Rightarrow> byte (16 * x + y) # form_bytes t
              | _ \<Rightarrow> byte 37 # form_bytes s)
         | _ \<Rightarrow> byte 37 # form_bytes s)
      else utf8_char (of_char c) @ form_bytes s)"

text \<open>A code unit beyond the modelled strings is shown as a question mark.\<close>

definition unit_of :: "nat \<Rightarrow> char" where
  "unit_of n = (if n < 256 then char_of n else CHR ''?'')"

definition form_decode :: "string \<Rightarrow> string" where
  "form_decode s = map unit_of (utf8_run Start (form_bytes s))"

definition url_search_params :: "string \<Rightarrow> (string \<times> string) list" where
  "url_search_params rawHash =
     map (\<lambda>p. (form_decode (takeWhile (\<lambda>c. c \<noteq> CHR ''='') p),
               form_decode (drop 1 (dropWhile (\<lambda>c. c \<noteq> CHR ''='') p))))
       (List.filter (\<lambda>p. p \<noteq> [])
         (split_on CHR ''&'' (if take 1 rawHash = ''?'' then drop 1 rawHash else rawHash)))"

definition build_identity_hash :: "string \<Rightarrow> string \<Rightarrow> string option \<Rightarrow> string" where
  "build_identity_hash userId userSecret controlToken =
     (let base = ''uid='' @ encode_uri_component userId @ ''&secret='' @ encode_uri_component userSecret
      in if truthy controlToken then base @ ''&ct='' @ encode_uri_component (the controlToken) else base)"

section \<open>The browser\<close>

definition is_valid_identity_value :: "string option \<Rightarrow> bool" where
  "is_valid_identity_value value = (case value of None \<Rightarrow> False | Some s \<Rightarrow> trim s \<noteq> [])"

datatype stored_secret = ClearSecret string | SealedSecret "string option"

definition is_encrypted_secret :: "stored_secret \<Rightarrow> bool" where
  "is_encrypted_secret v = (case v of ClearSecret _ \<Rightarrow> False | SealedSecret _ \<Rightarrow> True)"

text \<open>What cannot be deciphered is sealed around nothing.\<close>

definition decrypt_secret :: "stored_secret \<Rightarrow> string option" where
  "decrypt_secret v = (case v of ClearSecret s \<Rightarrow> Some s | SealedSecret p \<Rightarrow> p)"

datatype stored_text = PlainText string | JsonText json

record consumed_identity =
  ci_userId :: "string option"
  ci_userSecret :: "string option"
  ci_controlToken :: "string option"

definition nothing_consumed :: consumed_identity where
  "nothing_consumed = \<lparr>ci_userId = None, ci_userSecret = None, ci_controlToken = None\<rparr>"

record browser =
  br_userId :: "string option"
  br_userSecret :: "stored_secret option"
  br_username :: "string option"
  br_session :: "(string \<times> stored_text) list"
  br_sessionWritable :: bool
  br_hash :: string
  br_inFlight :: "(nat \<times> string) option"
  br_consumed :: "consumed_identity option"
  br_runs :: nat

definition persist_encrypted_user_secret :: "string \<Rightarrow> browser \<Rightarrow> browser" where
  "persist_encrypted_user_secret userSecret br = br\<lparr>br_userSecret := Some (SealedSecret (Some userSecret))\<rparr>"

definition read_user_secret_from_storage :: "browser \<Rightarrow> string option \<times> browser" where
  "read_user_secret_from_storage br =
     (case br_userSecret br of
        None \<Rightarrow> (None, br)
      | Some existing \<Rightarrow>
          if (case existing of ClearSecret s \<Rightarrow> trim s = [] | SealedSecret _ \<Rightarrow> False) then (None, br)
          else case decrypt_secret existing of
                 None \<Rightarrow> (None, br)
               | Some decrypted \<Rightarrow>
                   if trim decrypted = [] then (None, br)
                   else (Some decrypted,
                         if is_encrypted_secret existing then br else persist_encrypted_user_secret decrypted br))"

text \<open>The fresh identifier and secret are arguments.\<close>

definition get_or_create_session_identity :: "string \<Rightarrow> string \<Rightarrow> browser \<Rightarrow> (string \<times> string) \<times> browser" where
  "get_or_create_session_identity freshId freshSecret br =
     (let userId = (if is_valid_identity_value (br_userId br) then the (br_userId br) else freshId);
          br1 = (if is_valid_identity_value (br_userId br) then br else br\<lparr>br_userId := Some userId\<rparr>);
          (existing, br2) = read_user_secret_from_storage br1
      in case existing of
           Some secret \<Rightarrow> ((userId, secret), br2)
         | None \<Rightarrow> ((userId, freshSecret), persist_encrypted_user_secret freshSecret br2))"

definition bootstrap_keys :: "string list" where
  "bootstrap_keys = [''uid'', ''secret'', ''ct'']"

text \<open>The malformed fragments: a key at the start or after a separator, and nothing but a separator after it.\<close>

definition looks_like_identity_bootstrap_hash :: "string \<Rightarrow> bool" where
  "looks_like_identity_bootstrap_hash rawHash =
     (list_ex (\<lambda>k. k \<in> fst ` set (url_search_params rawHash)) bootstrap_keys \<or>
      list_ex (\<lambda>p. map lower_char (takeWhile (\<lambda>c. c \<noteq> CHR ''='') p) \<in> set bootstrap_keys)
        (concat (map (split_on CHR '';'') (split_on CHR ''&'' rawHash))))"

definition clear_url_hash :: "browser \<Rightarrow> browser" where
  "clear_url_hash br = br\<lparr>br_hash := []\<rparr>"

definition strip_identity_hash_from_url :: "browser \<Rightarrow> bool \<times> browser" where
  "strip_identity_hash_from_url br =
     (if br_hash br = [] \<or> \<not> looks_like_identity_bootstrap_hash (br_hash br) then (False, br)
      else (True, clear_url_hash br))"

text \<open>
  One run over a fragment: what happens up to the first wait, and what follows once the cipher has
  answered; \<open>None\<close> is a cipher that fails, which rejects the run.
\<close>

definition hash_param :: "string \<Rightarrow> string \<Rightarrow> string option" where
  "hash_param rawHash k = map_of (url_search_params rawHash) k"

definition names_identity :: "string \<Rightarrow> bool" where
  "names_identity rawHash =
     (is_valid_identity_value (hash_param rawHash ''uid'') \<and> is_valid_identity_value (hash_param rawHash ''secret''))"

definition consume_once_start :: "string \<Rightarrow> browser \<Rightarrow> browser" where
  "consume_once_start rawHash br =
     (if rawHash = [] then br
      else if \<not> names_identity rawHash then snd (strip_identity_hash_from_url br)
      else br\<lparr>br_userId := hash_param rawHash ''uid''\<rparr>)"

definition consume_once_end :: "bool \<Rightarrow> string \<Rightarrow> browser \<Rightarrow> consumed_identity option \<times> browser" where
  "consume_once_end cipherWorks rawHash br =
     (if rawHash = [] \<or> \<not> names_identity rawHash then (Some nothing_consumed, br)
      else if \<not> cipherWorks then (None, br)
      else (Some \<lparr>ci_userId = hash_param rawHash ''uid'', ci_userSecret = hash_param rawHash ''secret'',
                  ci_controlToken = (if is_valid_identity_value (hash_param rawHash ''ct'')
                                     then hash_param rawHash ''ct'' else None)\<rparr>,
            clear_url_hash (persist_encrypted_user_secret (the (hash_param rawHash ''secret'')) br)))"

text \<open>A call shares the run in flight, answers from the last finished one, or starts a run of its own.\<close>

datatype consume_call = SharesRun nat | AnswersFrom consumed_identity | StartsRun nat string

definition consume_session_identity_from_hash :: "browser \<Rightarrow> consume_call \<times> browser" where
  "consume_session_identity_from_hash br =
     (let rawHash = br_hash br;
          fresh = (let n = br_runs br in
                   (StartsRun n rawHash,
                    (consume_once_start rawHash br)\<lparr>br_inFlight := Some (n, rawHash), br_runs := Suc n\<rparr>))
      in case br_inFlight br of
           Some (n, h) \<Rightarrow>
             if rawHash = [] \<or> rawHash = h then (SharesRun n, br)
             else fresh
         | None \<Rightarrow>
             (case br_consumed br of
                Some result \<Rightarrow> if rawHash = [] then (AnswersFrom result, br) else fresh
              | None \<Rightarrow> fresh))"

definition consume_settled :: "bool \<Rightarrow> nat \<Rightarrow> string \<Rightarrow> browser \<Rightarrow> consumed_identity option \<times> browser" where
  "consume_settled cipherWorks n rawHash br =
     (let (result, br1) = consume_once_end cipherWorks rawHash br
      in (result,
          if map_option fst (br_inFlight br1) = Some n
          then br1\<lparr>br_inFlight := None,
                   br_consumed := (case result of
                       Some r \<Rightarrow> if is_valid_identity_value (ci_userId r) then Some r else br_consumed br1
                     | None \<Rightarrow> br_consumed br1)\<rparr>
          else br1))"

definition get_persisted_username :: "browser \<Rightarrow> string option" where
  "get_persisted_username br = (if is_valid_identity_value (br_username br) then br_username br else None)"

definition persist_username :: "string \<Rightarrow> browser \<Rightarrow> browser" where
  "persist_username username br =
     (if \<not> is_valid_identity_value (Some username) then br else br\<lparr>br_username := Some (trim username)\<rparr>)"

section \<open>The control token of the tab\<close>

record persisted_control_token =
  pct_token :: string
  pct_expiresAt :: "jsnum option"

definition control_token_storage_key :: "string \<Rightarrow> string" where
  "control_token_storage_key roomId = ''web-syncplay:control-token:'' @ roomId"

definition parse_persisted_control_token :: "stored_text option \<Rightarrow> persisted_control_token option" where
  "parse_persisted_control_token raw =
     (case raw of
        None \<Rightarrow> None
      | Some (PlainText s) \<Rightarrow>
          if trim s = [] then None
          else if take 1 s \<noteq> ''{'' then Some \<lparr>pct_token = s, pct_expiresAt = None\<rparr>
          else None
      | Some (JsonText parsed) \<Rightarrow>
          (case jget parsed ''token'' of
             Some (JStr token) \<Rightarrow>
               if trim token = [] then None
               else Some \<lparr>pct_token = token,
                          pct_expiresAt = (case jget parsed ''expiresAt'' of Some (JNum x) \<Rightarrow> Some x | _ \<Rightarrow> None)\<rparr>
           | _ \<Rightarrow> None))"

definition persist_control_token :: "string \<Rightarrow> string \<Rightarrow> jsnum option \<Rightarrow> browser \<Rightarrow> browser" where
  "persist_control_token roomId token expiresAt br =
     (if trim roomId = [] \<or> trim token = [] \<or> \<not> br_sessionWritable br then br
      else br\<lparr>br_session := AList.update (control_token_storage_key roomId)
               (JsonText (JObj ((''token'', JStr token) #
                  (case expiresAt of Some x \<Rightarrow> [(''expiresAt'', JNum x)] | None \<Rightarrow> [])))) (br_session br)\<rparr>)"

definition load_persisted_control_token_record :: "string \<Rightarrow> browser \<Rightarrow> persisted_control_token option" where
  "load_persisted_control_token_record roomId br =
     (if trim roomId = [] then None
      else parse_persisted_control_token (map_of (br_session br) (control_token_storage_key roomId)))"

definition load_persisted_control_token :: "string \<Rightarrow> browser \<Rightarrow> string option" where
  "load_persisted_control_token roomId br = map_option pct_token (load_persisted_control_token_record roomId br)"

definition clear_persisted_control_token :: "string \<Rightarrow> browser \<Rightarrow> browser" where
  "clear_persisted_control_token roomId br = br\<lparr>br_session := AList.delete (control_token_storage_key roomId) (br_session br)\<rparr>"

section \<open>Links\<close>

datatype room_embed = ControlEmbed | PlayerEmbed

definition room_path :: "string \<Rightarrow> room_embed option \<Rightarrow> string" where
  "room_path roomId surface =
     (let segment = encode_uri_component roomId in
      case surface of
        Some ControlEmbed \<Rightarrow> ''/room/'' @ segment @ ''/control''
      | Some PlayerEmbed \<Rightarrow> ''/room/'' @ segment @ ''/player''
      | None \<Rightarrow> ''/room/'' @ segment)"

definition has_identity_credentials :: "string \<Rightarrow> string \<Rightarrow> bool" where
  "has_identity_credentials userId userSecret = (trim userId \<noteq> [] \<and> trim userSecret \<noteq> [])"

text \<open>How the URL parser resolves a path against the page's origin is the argument \<open>absolute\<close>.\<close>

definition with_identity_hash ::
  "(string \<Rightarrow> string) \<Rightarrow> string \<Rightarrow> string \<Rightarrow> string \<Rightarrow> string option \<Rightarrow> string option" where
  "with_identity_hash absolute path userId userSecret controlToken =
     (if \<not> has_identity_credentials userId userSecret then None
      else Some (absolute path @ ''#'' @ build_identity_hash userId userSecret controlToken))"

definition get_room_url :: "string \<Rightarrow> string \<Rightarrow> string" where
  "get_room_url origin roomId = origin @ room_path roomId None"

definition get_room_popup_url :: "(string \<Rightarrow> string) \<Rightarrow> string \<Rightarrow> string \<Rightarrow> string \<Rightarrow> string" where
  "get_room_popup_url absolute roomId userId userSecret =
     (case with_identity_hash absolute (room_path roomId None) userId userSecret None of Some u \<Rightarrow> u | None \<Rightarrow> [])"

definition get_control_embed_url ::
  "(string \<Rightarrow> string) \<Rightarrow> string \<Rightarrow> string \<Rightarrow> string \<Rightarrow> string option \<Rightarrow> string" where
  "get_control_embed_url absolute roomId userId userSecret controlToken =
     (case with_identity_hash absolute (room_path roomId (Some ControlEmbed)) userId userSecret controlToken of
        Some u \<Rightarrow> u | None \<Rightarrow> [])"

definition get_player_embed_url :: "(string \<Rightarrow> string) \<Rightarrow> string \<Rightarrow> string \<Rightarrow> string \<Rightarrow> string" where
  "get_player_embed_url absolute roomId userId userSecret =
     (case with_identity_hash absolute (room_path roomId (Some PlayerEmbed)) userId userSecret None of
        Some u \<Rightarrow> u | None \<Rightarrow> [])"

definition pick_control_embed_url :: "bool \<Rightarrow> string option \<Rightarrow> string option \<Rightarrow> string" where
  "pick_control_embed_url canMutate identityControlEmbedUrl mintedUrl =
     (if \<not> canMutate then (case identityControlEmbedUrl of Some u \<Rightarrow> u | None \<Rightarrow> [])
      else (case mintedUrl of Some u \<Rightarrow> u | None \<Rightarrow> []))"

text \<open>The start of a page: the fragment, then the control token it brought or the stored one, then the stored identity.\<close>

record page_session =
  ps_userId :: string
  ps_userSecret :: string
  ps_controlToken :: "string option"

definition resolve_bootstrap_control_token ::
  "session_kind \<Rightarrow> string option \<Rightarrow> string option \<Rightarrow> browser \<Rightarrow> string option \<times> browser" where
  "resolve_bootstrap_control_token sessionKind roomId hashControlToken br =
     (if truthy hashControlToken
      then (hashControlToken,
            if truthy roomId then persist_control_token (the roomId) (the hashControlToken) None br else br)
      else if sessionKind = SControl \<and> truthy roomId then (load_persisted_control_token (the roomId) br, br)
      else (None, br))"

definition bootstrap_session ::
  "session_kind \<Rightarrow> string option \<Rightarrow> string \<Rightarrow> string \<Rightarrow> consumed_identity \<Rightarrow> browser \<Rightarrow> page_session \<times> browser" where
  "bootstrap_session sessionKind roomId freshId freshSecret fromHash br =
     (let (token, br1) = resolve_bootstrap_control_token sessionKind roomId (ci_controlToken fromHash) br;
          ((userId, userSecret), br2) = get_or_create_session_identity freshId freshSecret br1
      in (\<lparr>ps_userId = (case ci_userId fromHash of Some u \<Rightarrow> u | None \<Rightarrow> userId),
           ps_userSecret = (case ci_userSecret fromHash of Some s \<Rightarrow> s | None \<Rightarrow> userSecret),
           ps_controlToken = token\<rparr>, br2))"

text \<open>With a cipher that works and no other call in between.\<close>

definition consume_page_hash :: "browser \<Rightarrow> consumed_identity \<times> browser" where
  "consume_page_hash br =
     (case consume_session_identity_from_hash br of
        (AnswersFrom r, br1) \<Rightarrow> (r, br1)
      | (StartsRun n h, br1) \<Rightarrow> (let (r, br2) = consume_settled True n h br1 in (the r, br2))
      | (SharesRun n, br1) \<Rightarrow> (let (r, br2) = consume_settled True n (snd (the (br_inFlight br1))) br1 in (the r, br2)))"

section \<open>The fragment is read back\<close>

lemma hex_digits [simp]:
  assumes "d < 16"
  shows "hex_value (hex_char d) = Some d"
proof -
  have "d \<in> set [0..<16]" using assms by simp
  then show ?thesis by (auto simp: upt_rec hex_value_def hex_char_def of_char_of)
qed

lemma form_escape: "form_bytes (escape_byte b @ s) = b # form_bytes s"
proof -
  have "unat b < 256" using unsigned_less [where 'a = nat and w = b] by simp
  moreover have "byte (16 * (unat b div 16) + unat b mod 16) = b" by (simp add: byte_def)
  ultimately show ?thesis by (simp add: escape_byte_def div_less_iff_less_mult)
qed

lemma form_escapes: "form_bytes (concat (map escape_byte bs) @ s) = bs @ form_bytes s"
  by (induction bs) (simp_all add: form_escape)

lemma char_below: "(of_char c :: nat) < 256"
  by (rule nat_of_char_less_256)

lemma unreserved_plain: "unreserved c \<Longrightarrow> c \<noteq> CHR ''+'' \<and> c \<noteq> CHR ''%'' \<and> c \<noteq> CHR ''&'' \<and> c \<noteq> CHR ''='' \<and> c \<noteq> CHR '';''"
  by (auto simp: unreserved_def)

lemma form_encode_char: "form_bytes (encode_char c @ s) = utf8_char (of_char c) @ form_bytes s"
  using unreserved_plain [of c] by (auto simp: encode_char_def form_escapes)

lemma form_encode: "form_bytes (encode_uri_component s) = utf8_encode (map of_char s)"
  by (induction s) (simp_all add: encode_uri_component_def utf8_encode_def form_encode_char comp_def)

lemma decode_encode [simp]: "form_decode (encode_uri_component s) = s"
proof -
  have "scalar n" if "n < 256" for n using that by (simp add: scalar_def)
  then have "scalar (of_char c)" for c using char_below [of c] by blast
  then have sc: "\<forall>c\<in>set (map of_char s). scalar c" by auto
  have "utf8_run Start (utf8_encode (map of_char s)) = map of_char s"
    using utf8_run_encode [OF sc, of "[]"] by simp
  then show ?thesis
    by (simp add: form_decode_def form_encode comp_def unit_of_def char_below)
qed

lemma encode_char_free: "c \<in> set (encode_char a) \<Longrightarrow> c \<noteq> CHR ''&'' \<and> c \<noteq> CHR ''='' \<and> c \<noteq> CHR ''?''"
proof -
  have h: "hex_char d \<noteq> CHR ''&'' \<and> hex_char d \<noteq> CHR ''='' \<and> hex_char d \<noteq> CHR ''?''" if "d < 16" for d
  proof -
    have "d \<in> set [0..<16]" using that by simp
    then show ?thesis by (auto simp: upt_rec hex_char_def char_of_eq_iff)
  qed
  have u: "unat b div 16 < 16" "unat b mod 16 < 16" for b :: "8 word"
    using unsigned_less [where 'a = nat and w = b] by (simp_all add: div_less_iff_less_mult)
  assume "c \<in> set (encode_char a)"
  then show ?thesis
    using h [OF u(1)] h [OF u(2)] unreserved_plain [of a]
    by (auto simp: encode_char_def escape_byte_def unreserved_def split: if_splits)
qed

lemma encode_free: "CHR ''&'' \<notin> set (encode_uri_component s)" "CHR ''='' \<notin> set (encode_uri_component s)"
  unfolding encode_uri_component_def using encode_char_free by fastforce+

text \<open>The parameters of a fragment that \<open>buildIdentityHash\<close> wrote.\<close>

lemma takeWhile_key: "CHR ''='' \<notin> set k \<Longrightarrow> takeWhile (\<lambda>c. c \<noteq> CHR ''='') (k @ CHR ''='' # v) = k"
  by (induction k) auto

lemma dropWhile_key: "CHR ''='' \<notin> set k \<Longrightarrow> drop 1 (dropWhile (\<lambda>c. c \<noteq> CHR ''='') (k @ CHR ''='' # v)) = v"
  by (induction k) auto

lemma encode_keys: "encode_uri_component ''uid'' = ''uid''" "encode_uri_component ''secret'' = ''secret''" "encode_uri_component ''ct'' = ''ct''"
  by (simp_all add: encode_uri_component_def encode_char_def unreserved_def)

lemma form_decode_keys [simp]: "form_decode ''uid'' = ''uid''" "form_decode ''secret'' = ''secret''" "form_decode ''ct'' = ''ct''"
  using decode_encode [of "''uid''"] decode_encode [of "''secret''"] decode_encode [of "''ct''"] by (simp_all only: encode_keys)

lemma search_params_built:
  "url_search_params (build_identity_hash u s ct) =
     [(''uid'', u), (''secret'', s)] @ (if truthy ct then [(''ct'', the ct)] else [])"
proof -
  let ?U = "''uid='' @ encode_uri_component u" and ?S = "''secret='' @ encode_uri_component s"
  let ?C = "''ct='' @ encode_uri_component (the ct)"
  have free: "CHR ''&'' \<notin> set ?U" "CHR ''&'' \<notin> set ?S" "CHR ''&'' \<notin> set ?C" using encode_free(1) by auto
  have built: "build_identity_hash u s ct = (if truthy ct then ?U @ CHR ''&'' # ?S @ CHR ''&'' # ?C else ?U @ CHR ''&'' # ?S)"
    by (simp add: build_identity_hash_def)
  have "split_on CHR ''&'' (?U @ CHR ''&'' # ?S @ CHR ''&'' # ?C) = [?U, ?S, ?C]"
    "split_on CHR ''&'' (?U @ CHR ''&'' # ?S) = [?U, ?S]"
    by (simp_all only: split_on_append [OF free(1)] split_on_append [OF free(2)] split_on_free [OF free(2)] split_on_free [OF free(3)])
  moreover have "take 1 (build_identity_hash u s ct) \<noteq> ''?''" by (simp add: built)
  ultimately have "List.filter (\<lambda>p. p \<noteq> []) (split_on CHR ''&''
      (if take 1 (build_identity_hash u s ct) = ''?'' then drop 1 (build_identity_hash u s ct) else build_identity_hash u s ct)) =
      (if truthy ct then [?U, ?S, ?C] else [?U, ?S])"
    unfolding built by simp
  moreover have "takeWhile (\<lambda>c. c \<noteq> CHR ''='') ?U = ''uid''" "takeWhile (\<lambda>c. c \<noteq> CHR ''='') ?S = ''secret''"
    "takeWhile (\<lambda>c. c \<noteq> CHR ''='') ?C = ''ct''"
    "drop 1 (dropWhile (\<lambda>c. c \<noteq> CHR ''='') ?U) = encode_uri_component u"
    "drop 1 (dropWhile (\<lambda>c. c \<noteq> CHR ''='') ?S) = encode_uri_component s"
    "drop 1 (dropWhile (\<lambda>c. c \<noteq> CHR ''='') ?C) = encode_uri_component (the ct)"
    by simp_all
  ultimately show ?thesis unfolding url_search_params_def by (simp del: append.simps drop.simps)
qed

lemma built_params:
  "hash_param (build_identity_hash u s ct) ''uid'' = Some u"
  "hash_param (build_identity_hash u s ct) ''secret'' = Some s"
  "hash_param (build_identity_hash u s ct) ''ct'' = (if truthy ct then ct else None)"
  by (auto simp: hash_param_def search_params_built truthy_def split: option.splits)

lemma built_not_empty [simp]: "build_identity_hash u s ct \<noteq> []"
  by (simp add: build_identity_hash_def Let_def)

lemma built_names: "trim u \<noteq> [] \<Longrightarrow> trim s \<noteq> [] \<Longrightarrow> names_identity (build_identity_hash u s ct)"
  by (simp add: names_identity_def built_params is_valid_identity_value_def)

lemma built_starts:
  assumes "br_hash br = build_identity_hash u s ct" "br_inFlight br = None" "trim u \<noteq> []" "trim s \<noteq> []"
  shows "consume_session_identity_from_hash br = (StartsRun (br_runs br) (build_identity_hash u s ct),
      br\<lparr>br_userId := Some u, br_inFlight := Some (br_runs br, build_identity_hash u s ct), br_runs := Suc (br_runs br)\<rparr>)"
  using assms(1,2) built_names [OF assms(3,4)]
  by (simp add: consume_session_identity_from_hash_def Let_def consume_once_start_def built_params split: option.split)

lemma consume_built:
  assumes "br_hash br = build_identity_hash u s ct" "br_inFlight br = None" "trim u \<noteq> []" "trim s \<noteq> []"
  defines "r \<equiv> \<lparr>ci_userId = Some u, ci_userSecret = Some s,
      ci_controlToken = (if is_valid_identity_value ct then ct else None)\<rparr>"
  shows "consume_page_hash br = (r, br\<lparr>br_userId := Some u, br_userSecret := Some (SealedSecret (Some s)), br_hash := [],
      br_inFlight := None, br_consumed := Some r, br_runs := Suc (br_runs br)\<rparr>)"
proof -
  note start = built_starts [OF assms(1-4)] and names = built_names [OF assms(3,4)]
  have token: "\<not> truthy ct \<Longrightarrow> \<not> is_valid_identity_value ct"
    by (auto simp: is_valid_identity_value_def truthy_def split: option.splits)
  show ?thesis
    unfolding consume_page_hash_def start using names assms(3)
    by (simp add: consume_settled_def consume_once_end_def built_params token is_valid_identity_value_def [of "Some _"]
        clear_url_hash_def persist_encrypted_user_secret_def r_def)
qed

lemma consume_again:
  "br_hash br = [] \<Longrightarrow> br_inFlight br = None \<Longrightarrow> br_consumed br = Some r \<Longrightarrow> consume_page_hash br = (r, br)"
  by (simp add: consume_page_hash_def consume_session_identity_from_hash_def Let_def)

lemma stored_identity_kept:
  assumes "br_userId br = Some u" "br_userSecret br = Some (SealedSecret (Some s))" "trim u \<noteq> []" "trim s \<noteq> []"
  shows "get_or_create_session_identity freshId freshSecret br = ((u, s), br)"
  using assms by (simp add: get_or_create_session_identity_def read_user_secret_from_storage_def decrypt_secret_def
      is_encrypted_secret_def is_valid_identity_value_def)

lemma persisted_token_loads:
  assumes "trim r \<noteq> []" "trim t \<noteq> []" "br_sessionWritable br"
  shows "load_persisted_control_token_record r (persist_control_token r t expiresAt br) = Some \<lparr>pct_token = t, pct_expiresAt = expiresAt\<rparr>"
  using assms by (simp add: load_persisted_control_token_record_def persist_control_token_def
      parse_persisted_control_token_def split: option.split)

text \<open>
  C21. An identity handed over through a link arrives whole: whatever the identifier, the secret and the token
  are made of (not blank), the page that opens the link joins with exactly them, holds the token for the tab,
  removes the fragment, takes the same identity when its start runs again, and a later page of the same browser
  finds it in storage.
\<close>

theorem identity_handover:
  assumes "br_hash br = build_identity_hash u s (Some ct)" "br_inFlight br = None"
    and "trim u \<noteq> []" "trim s \<noteq> []" "trim ct \<noteq> []" "trim r \<noteq> []" "br_sessionWritable br"
  shows "(case consume_page_hash br of (fromHash, br1) \<Rightarrow>
    case bootstrap_session SControl (Some r) freshId freshSecret fromHash br1 of (page, br2) \<Rightarrow>
      page = \<lparr>ps_userId = u, ps_userSecret = s, ps_controlToken = Some ct\<rparr> \<and> br_hash br2 = []
      \<and> fst (consume_page_hash br2) = fromHash
      \<and> fst (bootstrap_session SControl (Some r) freshId' freshSecret' nothing_consumed br2) = page)"
proof -
  define fromHash where "fromHash = \<lparr>ci_userId = Some u, ci_userSecret = Some s, ci_controlToken = Some ct\<rparr>"
  define br1 where "br1 = br\<lparr>br_userId := Some u, br_userSecret := Some (SealedSecret (Some s)), br_hash := [],
      br_inFlight := None, br_consumed := Some fromHash, br_runs := Suc (br_runs br)\<rparr>"
  define br2 where "br2 = persist_control_token r ct None br1"
  let ?page = "\<lparr>ps_userId = u, ps_userSecret = s, ps_controlToken = Some ct\<rparr>"
  have ne: "truthy (Some ct)" "truthy (Some r)" using assms(5,6) by auto
  have "consume_page_hash br = (fromHash, br1)"
    using consume_built [OF assms(1-4)] assms(5) by (simp add: fromHash_def br1_def is_valid_identity_value_def)
  moreover have kept: "br_userId br2 = Some u" "br_userSecret br2 = Some (SealedSecret (Some s))" "br_hash br2 = []"
    "br_inFlight br2 = None" "br_consumed br2 = Some fromHash"
    by (simp_all add: br2_def persist_control_token_def br1_def)
  moreover have "bootstrap_session SControl (Some r) freshId freshSecret fromHash br1 = (?page, br2)"
    using ne stored_identity_kept [OF kept(1,2) assms(3,4)]
    by (simp add: bootstrap_session_def resolve_bootstrap_control_token_def fromHash_def br2_def [symmetric])
  moreover have "load_persisted_control_token r br2 = Some ct"
    using persisted_token_loads [of r ct br1 None] assms(5-7) by (simp add: load_persisted_control_token_def br2_def br1_def)
  then have "bootstrap_session SControl (Some r) freshId' freshSecret' nothing_consumed br2 = (?page, br2)"
    using ne stored_identity_kept [OF kept(1,2) assms(3,4)]
    by (simp add: bootstrap_session_def resolve_bootstrap_control_token_def nothing_consumed_def)
  ultimately show ?thesis by (simp add: consume_again)
qed

definition empty_browser :: "string \<Rightarrow> browser" where
  "empty_browser h = \<lparr>br_userId = None, br_userSecret = None, br_username = None, br_session = [], br_sessionWritable = True,
     br_hash = h, br_inFlight = None, br_consumed = None, br_runs = 0\<rparr>"

lemma empty_browser_simps [simp]: "br_hash (empty_browser h) = h" "br_inFlight (empty_browser h) = None" "br_sessionWritable (empty_browser h)"
  by (simp_all add: empty_browser_def)

lemma identity_handover_witness:
  "case consume_page_hash (empty_browser (build_identity_hash ''a&b'' ''%41 ='' (Some ''t+''))) of (fromHash, br1) \<Rightarrow>
    ps_userSecret (fst (bootstrap_session SControl (Some ''r'') ''x'' ''y'' fromHash br1)) = ''%41 =''"
proof -
  have trims: "trim ''a&b'' \<noteq> []" "trim ''%41 ='' \<noteq> []" "trim ''t+'' \<noteq> []" "trim ''r'' \<noteq> []" by code_simp+
  show ?thesis
    using identity_handover [of "empty_browser (build_identity_hash ''a&b'' ''%41 ='' (Some ''t+''))" "''a&b''" "''%41 =''"
        "''t+''" "''r''", where freshId = "''x''" and freshSecret = "''y''"] trims
    by (simp add: case_prod_beta)
qed

text \<open>
  The identifier is written before the cipher is asked: when the cipher fails, the browser keeps the new
  identifier with the old secret, and every later page joins with the two of them.
\<close>

lemma failed_cipher_mixes_identities:
  assumes "br_hash br = build_identity_hash u s ct" "br_inFlight br = None" "trim u \<noteq> []" "trim s \<noteq> []"
    and "br_userSecret br = Some (SealedSecret (Some s'))" "trim s' \<noteq> []"
  shows "case consume_session_identity_from_hash br of
      (StartsRun n h, br1) \<Rightarrow>
        (case consume_settled False n h br1 of
           (result, br2) \<Rightarrow> result = None
             \<and> fst (get_or_create_session_identity x y (snd (strip_identity_hash_from_url br2))) = (u, s'))
    | _ \<Rightarrow> False"
proof -
  note start = built_starts [OF assms(1-4)] and names = built_names [OF assms(3,4)]
  have "fst (get_or_create_session_identity x y (snd (strip_identity_hash_from_url br2))) = (u, s')"
    if "br_userId br2 = Some u" "br_userSecret br2 = Some (SealedSecret (Some s'))" for br2
    using that assms(3,6) stored_identity_kept [of "snd (strip_identity_hash_from_url br2)" u s']
    by (simp add: strip_identity_hash_from_url_def clear_url_hash_def)
  then show ?thesis
    using names assms(5) by (simp add: start consume_settled_def consume_once_end_def)
qed

end
