(* ===== verification/Control_Token.thy ===== *)
theory Control_Token
  imports Session_Identity
begin

text \<open>
  Control tokens in the browser (\<open>src/src/client/realtime/control-token-client.ts\<close>): minting with retries, the
  one remint after an unauthorised session, and the scheduler that remints before a token expires.  What the
  server answers to a mint is an argument; a wait for it splits an operation into its start and its end.  The
  timers the browser holds are a list of identifiers with their delays; a timer fires when it is taken from it.
\<close>

section \<open>Minting\<close>

definition control_token_remint_skew_ms :: jsnum where "control_token_remint_skew_ms = 60000"
definition default_mint_retry_attempts :: nat where "default_mint_retry_attempts = 3"
definition default_mint_retry_base_delay_ms :: jsnum where "default_mint_retry_base_delay_ms = 400"

definition ms_until_control_token_remint :: "jsnum \<Rightarrow> jsnum \<Rightarrow> jsnum" where
  "ms_until_control_token_remint expiresAt now =
     (let remaining = expiresAt - now in
      if remaining \<le> 0 then 0
      else (let skew = min control_token_remint_skew_ms (max 0 (js_floor (remaining * 0.1)))
            in max 0 (remaining - skew)))"

record token_credentials =
  tc_roomId :: string
  tc_userId :: string
  tc_userSecret :: string

record minted_token =
  mt_token :: string
  mt_expiresAt :: "jsnum option"

text \<open>A request that fails, is refused or has no JSON body is \<open>None\<close>.\<close>

definition mint_room_control_token :: "token_credentials \<Rightarrow> json option \<Rightarrow> browser \<Rightarrow> minted_token option \<times> browser" where
  "mint_room_control_token cr reply br =
     (if tc_roomId cr = [] \<or> tc_userId cr = [] \<or> tc_userSecret cr = [] then (None, br)
      else case reply of
             None \<Rightarrow> (None, br)
           | Some payload \<Rightarrow>
               (case jget payload ''token'' of
                  Some (JStr token) \<Rightarrow>
                    if token = [] then (None, br)
                    else (let expiresAt = (case jget payload ''expiresAt'' of Some (JNum x) \<Rightarrow> Some x | _ \<Rightarrow> None)
                          in (Some \<lparr>mt_token = token, mt_expiresAt = expiresAt\<rparr>,
                              persist_control_token (tc_roomId cr) token expiresAt br))
                | _ \<Rightarrow> (None, br)))"

text \<open>Attempt \<open>n\<close> of the retries is answered by \<open>replies n\<close>; the result lists the waits in between.\<close>

fun mint_attempts ::
  "nat \<Rightarrow> nat \<Rightarrow> token_credentials \<Rightarrow> (nat \<Rightarrow> json option) \<Rightarrow> browser \<Rightarrow> minted_token option \<times> jsnum list \<times> browser" where
  "mint_attempts 0 attempt cr replies br = (None, [], br)"
| "mint_attempts (Suc left) attempt cr replies br =
     (let (minted, br1) = mint_room_control_token cr (replies attempt) br in
      case minted of
        Some m \<Rightarrow> (Some m, [], br1)
      | None \<Rightarrow>
          (let (result, waits, br2) = mint_attempts left (Suc attempt) cr replies br1
           in (result, (if left = 0 then [] else [default_mint_retry_base_delay_ms * 2 ^ attempt]) @ waits, br2)))"

definition mint_room_control_token_with_retry ::
  "token_credentials \<Rightarrow> (nat \<Rightarrow> json option) \<Rightarrow> browser \<Rightarrow> minted_token option \<times> jsnum list \<times> browser" where
  "mint_room_control_token_with_retry = mint_attempts default_mint_retry_attempts 0"

definition mint_control_embed_url ::
  "(string \<Rightarrow> string) \<Rightarrow> token_credentials \<Rightarrow> json option \<Rightarrow> browser \<Rightarrow> string option \<times> browser" where
  "mint_control_embed_url absolute cr reply br =
     (case mint_room_control_token cr reply br of
        (None, br1) \<Rightarrow> (None, br1)
      | (Some m, br1) \<Rightarrow>
          (let url = get_control_embed_url absolute (tc_roomId cr) (tc_userId cr) (tc_userSecret cr) (Some (mt_token m))
           in (if url = [] then None else Some url, br1)))"

section \<open>The remint of a session\<close>

definition should_remint_control_token :: "session_kind \<Rightarrow> bool \<Rightarrow> room_role option \<Rightarrow> bool \<Rightarrow> bool" where
  "should_remint_control_token sessionKind controlAuthorized role remintAlreadyAttempted =
     (sessionKind = SControl \<and> \<not> controlAuthorized \<and> can_mutate_by_role role \<and> \<not> remintAlreadyAttempted)"

record reminter =
  rm_attempted :: bool

definition reminter_reset :: "reminter \<Rightarrow> reminter" where
  "reminter_reset rm = rm\<lparr>rm_attempted := False\<rparr>"

definition try_remint_start :: "session_kind \<Rightarrow> bool \<Rightarrow> room_role option \<Rightarrow> reminter \<Rightarrow> bool \<times> reminter" where
  "try_remint_start sessionKind controlAuthorized role rm =
     (if \<not> should_remint_control_token sessionKind controlAuthorized role (rm_attempted rm) then (False, rm)
      else (True, rm\<lparr>rm_attempted := True\<rparr>))"

definition try_remint_end ::
  "token_credentials \<Rightarrow> json option \<Rightarrow> reminter \<Rightarrow> browser \<Rightarrow> string option \<times> reminter \<times> browser" where
  "try_remint_end cr reply rm br =
     (case mint_room_control_token cr reply br of
        (None, br1) \<Rightarrow> (None, rm\<lparr>rm_attempted := False\<rparr>, br1)
      | (Some m, br1) \<Rightarrow> (Some (mt_token m), rm, br1))"

section \<open>The scheduler\<close>

record refresh_scheduler =
  rs_timerId :: "nat option"
  rs_credentials :: "token_credentials option"
  rs_inFlight :: bool
  rs_timers :: "(nat \<times> jsnum) list"
  rs_next :: nat

definition create_control_token_refresh_scheduler :: refresh_scheduler where
  "create_control_token_refresh_scheduler =
     \<lparr>rs_timerId = None, rs_credentials = None, rs_inFlight = False, rs_timers = [], rs_next = 0\<rparr>"

definition set_refresh_timer :: "jsnum \<Rightarrow> refresh_scheduler \<Rightarrow> refresh_scheduler" where
  "set_refresh_timer ms rs =
     rs\<lparr>rs_timerId := Some (rs_next rs), rs_timers := (rs_next rs, ms) # rs_timers rs, rs_next := Suc (rs_next rs)\<rparr>"

definition rs_disarm :: "refresh_scheduler \<Rightarrow> refresh_scheduler" where
  "rs_disarm rs =
     (case rs_timerId rs of
        None \<Rightarrow> rs
      | Some t \<Rightarrow> rs\<lparr>rs_timers := AList.delete t (rs_timers rs), rs_timerId := None\<rparr>)"

definition rs_arm :: "jsnum \<Rightarrow> token_credentials \<Rightarrow> jsnum option \<Rightarrow> refresh_scheduler \<Rightarrow> refresh_scheduler" where
  "rs_arm now cr expiresAt rs =
     (let rs1 = (rs_disarm rs)\<lparr>rs_credentials := Some cr\<rparr> in
      case expiresAt of
        None \<Rightarrow> rs1
      | Some e \<Rightarrow> set_refresh_timer (ms_until_control_token_remint e now) rs1)"

definition rs_arm_from_storage :: "jsnum \<Rightarrow> token_credentials \<Rightarrow> browser \<Rightarrow> refresh_scheduler \<Rightarrow> refresh_scheduler" where
  "rs_arm_from_storage now cr br rs =
     rs_arm now cr (Option.bind (load_persisted_control_token_record (tc_roomId cr) br) pct_expiresAt) rs"

text \<open>A timer fires: whether a mint is sent, and with which credentials.\<close>

definition rs_timer_fires :: "nat \<Rightarrow> refresh_scheduler \<Rightarrow> token_credentials option \<times> refresh_scheduler" where
  "rs_timer_fires t rs =
     (let rs1 = rs\<lparr>rs_timers := AList.delete t (rs_timers rs)\<rparr> in
      case rs_credentials rs1 of
        None \<Rightarrow> (None, rs1)
      | Some cr \<Rightarrow> if rs_inFlight rs1 then (None, rs1) else (Some cr, rs1\<lparr>rs_inFlight := True\<rparr>))"

text \<open>The mint is answered: the token it gave, if any, for \<open>onMinted\<close>, and the next timer.\<close>

definition rs_minted ::
  "jsnum \<Rightarrow> token_credentials \<Rightarrow> json option \<Rightarrow> browser \<Rightarrow> refresh_scheduler \<Rightarrow>
   minted_token option \<times> browser \<times> refresh_scheduler" where
  "rs_minted now cr reply br rs =
     (let (minted, br1) = mint_room_control_token cr reply br in
      case minted of
        None \<Rightarrow> (None, br1, (set_refresh_timer default_mint_retry_base_delay_ms rs)\<lparr>rs_inFlight := False\<rparr>)
      | Some m \<Rightarrow>
          (Some m, br1,
           (case (mt_expiresAt m, rs_credentials rs) of
              (Some e, Some armed) \<Rightarrow> rs_arm now armed (Some e) rs
            | _ \<Rightarrow> rs)\<lparr>rs_inFlight := False\<rparr>))"

section \<open>Facts\<close>

text \<open>
  The timer fires before the token expires, no sooner than a tenth of its remaining life or a minute before,
  and strictly before when ten milliseconds are left.
\<close>

lemma remint_before_expiry:
  assumes "now < expiresAt"
  defines "delay \<equiv> ms_until_control_token_remint expiresAt now"
  shows "0 \<le> delay" "now + delay \<le> expiresAt" "expiresAt - 60000 \<le> now + delay"
    "(expiresAt - now) * 0.9 \<le> delay" "10 \<le> expiresAt - now \<Longrightarrow> now + delay < expiresAt"
proof -
  define rest where "rest = expiresAt - now"
  have rest: "0 < rest" using assms(1) by (simp add: rest_def)
  have fl: "js_floor (rest * 0.1) \<le> rest * 0.1" "0 \<le> js_floor (rest * 0.1)"
    using rest of_int_floor_le [of "rest / 10"] by (simp_all add: js_floor_def)
  have one: "1 \<le> js_floor (rest * 0.1)" if "10 \<le> rest"
    using that by (simp add: js_floor_def)
  have d: "delay = rest - min 60000 (js_floor (rest * 0.1))"
    using rest fl unfolding delay_def ms_until_control_token_remint_def rest_def [symmetric] Let_def control_token_remint_skew_ms_def
    by (auto simp: max_def min_def)
  show "0 \<le> delay" "now + delay \<le> expiresAt" "expiresAt - 60000 \<le> now + delay" "(expiresAt - now) * 0.9 \<le> delay"
    using fl rest unfolding d by (auto simp: min_def rest_def)
  show "now + delay < expiresAt" if "10 \<le> expiresAt - now"
    using one that unfolding d by (auto simp: min_def rest_def)
qed

lemma mint_none [simp]: "mint_room_control_token cr None br = (None, br)"
  by (simp add: mint_room_control_token_def)

lemma minted_nothing: "rs_minted now cr None br rs =
    (None, br, (set_refresh_timer default_mint_retry_base_delay_ms rs)\<lparr>rs_inFlight := False\<rparr>)"
  by (simp add: rs_minted_def)

text \<open>The current timer fires and the server refuses.\<close>

definition refused_round :: "refresh_scheduler \<Rightarrow> refresh_scheduler" where
  "refused_round rs =
     (case rs_timerId rs of
        None \<Rightarrow> rs
      | Some t \<Rightarrow>
          (case rs_timer_fires t rs of
             (None, rs1) \<Rightarrow> rs1
           | (Some cr, rs1) \<Rightarrow> snd (snd (rs_minted 0 cr None (empty_browser []) rs1))))"

definition retrying :: "refresh_scheduler \<Rightarrow> bool" where
  "retrying rs = (rs_credentials rs \<noteq> None \<and> \<not> rs_inFlight rs \<and>
     (\<exists>t. rs_timerId rs = Some t \<and> (t, default_mint_retry_base_delay_ms) \<in> set (rs_timers rs)))"

lemma refused_round_retries: "retrying rs \<Longrightarrow> retrying (refused_round rs)"
  by (auto simp: retrying_def refused_round_def rs_timer_fires_def minted_nothing set_refresh_timer_def)

text \<open>
  A refused remint is not tried once more but for ever, also after the session was left: when the refusal
  of a mint arrives after the scheduler was disarmed, the scheduler holds a timer of 400 ms again, and does so
  after any number of further refusals.
\<close>

theorem refused_mint_retries_for_ever:
  assumes "rs_credentials rs = Some cr" "rs_inFlight rs"
  shows "\<exists>t. let rs' = (refused_round ^^ n) (snd (snd (rs_minted now cr None br (rs_disarm rs))))
    in rs_timerId rs' = Some t \<and> map_of (rs_timers rs') t \<noteq> None"
proof -
  have "retrying (snd (snd (rs_minted now cr None br (rs_disarm rs))))"
    using assms by (auto simp: retrying_def minted_nothing set_refresh_timer_def rs_disarm_def split: option.split)
  then have "retrying ((refused_round ^^ n) (snd (snd (rs_minted now cr None br (rs_disarm rs)))))"
    by (induction n) (simp_all add: refused_round_retries)
  then show ?thesis by (force simp: retrying_def Let_def map_of_eq_None_iff)
qed

lemma refused_mint_retries_for_ever_witness:
  "\<exists>t. let rs' = (refused_round ^^ 5) (snd (snd (rs_minted 0 \<lparr>tc_roomId = ''r'', tc_userId = ''u'', tc_userSecret = ''s''\<rparr> None (empty_browser [])
      (rs_disarm (create_control_token_refresh_scheduler\<lparr>rs_credentials := Some \<lparr>tc_roomId = ''r'', tc_userId = ''u'', tc_userSecret = ''s''\<rparr>,
         rs_inFlight := True\<rparr>)))))
    in rs_timerId rs' = Some t \<and> map_of (rs_timers rs') t \<noteq> None"
  by (rule refused_mint_retries_for_ever) simp_all

text \<open>
  A scheduler armed while a mint is under way forgets its timer when the mint is refused: the timer stays with
  the browser, and disarming does not clear it.
\<close>

lemma rearmed_timer_forgotten:
  assumes "rs_credentials rs = Some cr" "rs_inFlight rs" "\<forall>k\<in>set (keys_of (rs_timers rs)). k < rs_next rs"
    and "\<forall>k. rs_timerId rs = Some k \<longrightarrow> k < rs_next rs"
  shows "map_of (rs_timers (rs_disarm (snd (snd (rs_minted now cr None br (rs_arm now cr (Some e) rs)))))) (rs_next rs)
    = Some (ms_until_control_token_remint e now)"
  using assms by (simp add: minted_nothing rs_arm_def rs_disarm_def set_refresh_timer_def split: option.split)

text \<open>The retries of a mint stop at the first success, after at most three requests.\<close>

lemma mint_attempts_first:
  assumes "fst (mint_room_control_token cr (replies (k + n)) br) = Some m"
    and "\<And>i. i < n \<Longrightarrow> replies (k + i) = None" "n < left"
  shows "fst (mint_attempts left k cr replies br) = Some m"
  using assms
proof (induction left arbitrary: k n)
  case (Suc left)
  show ?case
  proof (cases n)
    case 0
    then show ?thesis using Suc.prems(1) by (cases "mint_room_control_token cr (replies k) br") simp
  next
    case (Suc n')
    have "replies k = None" using Suc.prems(2) [of 0] Suc by simp
    moreover have "fst (mint_attempts left (Suc k) cr replies br) = Some m"
      using Suc.IH [of "Suc k" n'] Suc.prems Suc by (metis Suc_less_eq add_Suc_shift)
    ultimately show ?thesis by (simp add: case_prod_beta)
  qed
qed simp

lemma mint_waits: "length (fst (snd (mint_attempts left k cr replies br))) < max 1 left"
proof (induction left arbitrary: k br)
  case (Suc left)
  obtain m br1 where r: "mint_room_control_token cr (replies k) br = (m, br1)" by fastforce
  show ?case using Suc [of "Suc k" br1] by (cases m) (auto simp: r case_prod_beta max_def split: if_splits)
qed simp

end
