(* ===== verification/Room_Client.thy ===== *)
theory Room_Client
  imports Client_Merge Control_Token Player_Clock Schemas
begin

text \<open>
  The browser's side of a room (\<open>src/src/client/realtime/room-join-client.ts\<close>,
  \<open>room-socket/room-socket-connection.ts\<close>, \<open>room-socket/room-socket-dispatcher.ts\<close>, the sender of
  \<open>hooks/use-room-socket.ts\<close>): connecting, joining, following the server's messages, reconnecting and leaving.
  The state holds the variables of the connection and the references it shares with the page; the timers of
  the browser and its sockets are lists, the answers of the network are events.
\<close>

section \<open>Joining\<close>

datatype join_status =
  StConnecting | StAwaitingPassword | StJoining | StConnected | StReconnecting | StMediaUnsupported
  | StRateLimited | StIdentityMismatch

definition rate_limited_reconnect_ms :: jsnum where "rate_limited_reconnect_ms = 15000"
definition default_reconnect_ms :: jsnum where "default_reconnect_ms = 1000"
definition default_join_retry_ms :: jsnum where "default_join_retry_ms = 800"
definition default_state_timeout_ms :: jsnum where "default_state_timeout_ms = 5000"
definition max_join_attempts :: nat where "max_join_attempts = 3"

definition create_default_session_capabilities :: "session_kind \<Rightarrow> session_capabilities" where
  "create_default_session_capabilities sessionKind =
     \<lparr>sc_canControlPlayback = False, sc_canManagePlaylist = False, sc_canManageRoomSecurity = False,
      sc_isControlSession = (sessionKind = SControl), sc_controlAuthorized = False, sc_sessionKind = sessionKind\<rparr>"

text \<open>One constructor for each message shown to the user.\<close>

datatype join_message =
  MediaNotSupportedMessage | IncorrectPasswordMessage | TooManyAttemptsMessage | IdentityMismatchMessage
  | ClosedDuringJoinMessage | PasswordRequiredMessage | ServerRestartingMessage

definition message_for_join_rejected :: "join_rejected_reason \<Rightarrow> join_message" where
  "message_for_join_rejected reason =
     (case reason of
        MediaUrlUnsupported \<Rightarrow> MediaNotSupportedMessage
      | InvalidPassword \<Rightarrow> IncorrectPasswordMessage
      | JoinRateLimited \<Rightarrow> TooManyAttemptsMessage
      | IdentityMismatch \<Rightarrow> IdentityMismatchMessage
      | ConnectionClosed \<Rightarrow> ClosedDuringJoinMessage
      | PasswordRequired \<Rightarrow> PasswordRequiredMessage)"

definition status_for_join_rejected :: "join_rejected_reason \<Rightarrow> join_status" where
  "status_for_join_rejected reason =
     (case reason of
        MediaUrlUnsupported \<Rightarrow> StMediaUnsupported
      | JoinRateLimited \<Rightarrow> StRateLimited
      | IdentityMismatch \<Rightarrow> StIdentityMismatch
      | ConnectionClosed \<Rightarrow> StReconnecting
      | _ \<Rightarrow> StAwaitingPassword)"

definition should_pause_auto_reconnect :: "join_rejected_reason \<Rightarrow> bool" where
  "should_pause_auto_reconnect reason =
     (reason \<in> {PasswordRequired, InvalidPassword, JoinRateLimited, IdentityMismatch, MediaUrlUnsupported})"

definition is_terminal_join_rejection :: "join_rejected_reason \<Rightarrow> bool" where
  "is_terminal_join_rejection reason = (reason = MediaUrlUnsupported \<or> reason = IdentityMismatch)"

definition next_join_status_on_connect_attempt :: "join_status \<Rightarrow> join_status" where
  "next_join_status_on_connect_attempt prev = (if prev = StConnected then StReconnecting else StConnecting)"

fun session_kind_text :: "session_kind \<Rightarrow> string" where
  "session_kind_text SRoom = ''room''"
| "session_kind_text SPlayer = ''player''"
| "session_kind_text SControl = ''control''"
| "session_kind_text SEmbed = ''embed''"

record join_request =
  jr_roomId :: string
  jr_userId :: string
  jr_userSecret :: string
  jr_username :: string
  jr_sessionKind :: session_kind
  jr_joinPassword :: string
  jr_controlToken :: "string option"
  jr_initialMediaUrl :: "string option"
  jr_skipDefaultMedia :: bool

definition join_payload :: "join_request \<Rightarrow> json" where
  "join_payload r =
     JObj ([(''roomId'', JStr (jr_roomId r)), (''userId'', JStr (jr_userId r)),
            (''userSecret'', JStr (jr_userSecret r)), (''username'', JStr (jr_username r)),
            (''sessionKind'', JStr (session_kind_text (jr_sessionKind r)))] @
           (if jr_joinPassword r \<noteq> [] then [(''joinPassword'', JStr (jr_joinPassword r))] else []) @
           (if truthy (jr_controlToken r) then [(''controlToken'', JStr (the (jr_controlToken r)))] else []) @
           (if truthy (jr_initialMediaUrl r) then [(''initialMediaUrl'', JStr (the (jr_initialMediaUrl r)))] else []) @
           (if jr_skipDefaultMedia r then [(''skipDefaultMedia'', JBool True)] else []))"

definition build_room_join_envelope :: "string \<Rightarrow> join_request \<Rightarrow> json" where
  "build_room_join_envelope requestId r =
     JObj ([(''type'', JStr ''room:join'')] @ (if requestId \<noteq> [] then [(''requestId'', JStr requestId)] else []) @
           [(''payload'', join_payload r)])"

section \<open>The state\<close>

datatype ready_state = SockConnecting | SockOpen | SockClosing | SockClosed

record client_socket =
  cs_state :: ready_state
  cs_joinRetry :: "nat option"
  cs_joinAttempts :: nat
  cs_presence :: coalescer

datatype timer_task = ReconnectTask | CooldownTask | JoinRetryTask nat | StateTask nat

datatype client_effect =
  JoinSent nat json | BootstrapLocalMedia nat | LocalMediaMessage nat | ViewerTokenKept string | ViewerTokenDropped
  | SocketBridgeDetached | EventSent nat string json | ProvidedViaSfu nat string

record client_config =
  cc_roomId :: string
  cc_sessionKind :: session_kind
  cc_userId :: string
  cc_userSecret :: string
  cc_initialMediaUrl :: "string option"
  cc_skipDefaultMedia :: bool

record room_client =
  rcl_cancelled :: bool
  rcl_pause :: bool
  rcl_reconnectTimer :: "nat option"
  rcl_timers :: "(nat \<times> timer_task \<times> jsnum) list"
  rcl_nextTimer :: nat
  rcl_sockets :: "(nat \<times> client_socket) list"
  rcl_nextSocket :: nat
  rcl_ws :: "nat option"
  rcl_inits :: nat
  rcl_hasReceivedState :: bool
  rcl_roomState :: "client_room option"
  rcl_stateTimeout :: "nat option"
  rcl_presenceOf :: "nat option"
  rcl_sfuProvide :: "nat option"
  rcl_sendJoin :: "nat option"
  rcl_status :: join_status
  rcl_joinError :: "join_message option"
  rcl_capabilities :: session_capabilities
  rcl_controlToken :: "string option"
  rcl_username :: string
  rcl_joinPassword :: string
  rcl_reminter :: reminter
  rcl_remints :: nat
  rcl_refresh :: refresh_scheduler
  rcl_clock :: server_clock
  rcl_browser :: browser
  rcl_out :: "client_effect list"

definition emit_client :: "client_effect \<Rightarrow> room_client \<Rightarrow> room_client" where
  "emit_client e st = st\<lparr>rcl_out := rcl_out st @ [e]\<rparr>"

definition client_credentials :: "client_config \<Rightarrow> token_credentials" where
  "client_credentials cfg = \<lparr>tc_roomId = cc_roomId cfg, tc_userId = cc_userId cfg, tc_userSecret = cc_userSecret cfg\<rparr>"

text \<open>\<open>setTimeout\<close> and \<open>clearTimeout\<close>; the new identifier is the one before the call's next.\<close>

definition set_timer :: "timer_task \<Rightarrow> jsnum \<Rightarrow> room_client \<Rightarrow> room_client" where
  "set_timer task ms st =
     st\<lparr>rcl_timers := (rcl_nextTimer st, task, ms) # rcl_timers st, rcl_nextTimer := Suc (rcl_nextTimer st)\<rparr>"

definition clear_timer :: "nat option \<Rightarrow> room_client \<Rightarrow> room_client" where
  "clear_timer t st = (case t of None \<Rightarrow> st | Some k \<Rightarrow> st\<lparr>rcl_timers := AList.delete k (rcl_timers st)\<rparr>)"

definition socket_state :: "nat \<Rightarrow> room_client \<Rightarrow> ready_state option" where
  "socket_state n st = map_option cs_state (map_of (rcl_sockets st) n)"

definition on_client_socket :: "nat \<Rightarrow> (client_socket \<Rightarrow> client_socket) \<Rightarrow> room_client \<Rightarrow> room_client" where
  "on_client_socket n f st = st\<lparr>rcl_sockets := adjust n f (rcl_sockets st)\<rparr>"

definition close_client_socket :: "nat \<Rightarrow> room_client \<Rightarrow> room_client" where
  "close_client_socket n st =
     on_client_socket n (\<lambda>s. if cs_state s \<in> {SockConnecting, SockOpen} then s\<lparr>cs_state := SockClosing\<rparr> else s) st"

definition close_current :: "room_client \<Rightarrow> room_client" where
  "close_current st = (case rcl_ws st of None \<Rightarrow> st | Some n \<Rightarrow> close_client_socket n st)"

section \<open>Connecting\<close>

definition schedule_reconnect :: "timer_task \<Rightarrow> jsnum \<Rightarrow> room_client \<Rightarrow> room_client" where
  "schedule_reconnect task ms st = (set_timer task ms st)\<lparr>rcl_reconnectTimer := Some (rcl_nextTimer st)\<rparr>"

definition clear_reconnect_timers :: "room_client \<Rightarrow> room_client" where
  "clear_reconnect_timers st = (clear_timer (rcl_reconnectTimer st) st)\<lparr>rcl_reconnectTimer := None\<rparr>"

definition clear_state_timeout :: "room_client \<Rightarrow> room_client" where
  "clear_state_timeout st = (clear_timer (rcl_stateTimeout st) st)\<lparr>rcl_stateTimeout := None\<rparr>"

definition dispose_presence :: "room_client \<Rightarrow> room_client" where
  "dispose_presence st =
     (case rcl_presenceOf st of
        None \<Rightarrow> st
      | Some n \<Rightarrow> on_client_socket n (\<lambda>s. s\<lparr>cs_presence := co_dispose (cs_presence s)\<rparr>) st)"

definition sync_control_token_from_storage :: "client_config \<Rightarrow> room_client \<Rightarrow> room_client" where
  "sync_control_token_from_storage cfg st =
     (if cc_sessionKind cfg \<noteq> SControl then st
      else let persisted = load_persisted_control_token (cc_roomId cfg) (rcl_browser st)
           in if truthy persisted then st\<lparr>rcl_controlToken := persisted\<rparr> else st)"

definition arm_control_token_refresh :: "client_config \<Rightarrow> jsnum \<Rightarrow> room_client \<Rightarrow> room_client" where
  "arm_control_token_refresh cfg now st =
     (if cc_sessionKind cfg \<noteq> SControl then st
      else st\<lparr>rcl_refresh := rs_arm_from_storage now (client_credentials cfg) (rcl_browser st) (rcl_refresh st)\<rparr>)"

text \<open>\<open>connect\<close> up to its wait for the init request.\<close>

definition connect_start :: "client_config \<Rightarrow> jsnum \<Rightarrow> room_client \<Rightarrow> room_client" where
  "connect_start cfg now st =
     (let st1 = st\<lparr>rcl_pause := False\<rparr>;
          st2 = arm_control_token_refresh cfg now (sync_control_token_from_storage cfg st1);
          st3 = st2\<lparr>rcl_hasReceivedState := False,
                    rcl_roomState := reset_presence_watermark (rcl_roomState st2),
                    rcl_joinError := None,
                    rcl_capabilities := create_default_session_capabilities (cc_sessionKind cfg)\<rparr>;
          st4 = clear_timer (rcl_stateTimeout st3) st3
      in st4\<lparr>rcl_status := next_join_status_on_connect_attempt (rcl_status st4), rcl_inits := Suc (rcl_inits st4)\<rparr>)"

definition new_client_socket :: client_socket where
  "new_client_socket = \<lparr>cs_state = SockConnecting, cs_joinRetry = None, cs_joinAttempts = 0,
     cs_presence = \<lparr>co_pending = [], co_scheduled = False\<rparr>\<rparr>"

text \<open>The init request is answered.\<close>

definition connect_init :: "bool \<Rightarrow> room_client \<Rightarrow> room_client" where
  "connect_init good st0 =
     (if rcl_inits st0 = 0 then st0
      else let st = st0\<lparr>rcl_inits := rcl_inits st0 - 1\<rparr> in
           if \<not> good then (if rcl_cancelled st then st else schedule_reconnect ReconnectTask default_reconnect_ms st)
           else if rcl_cancelled st then st
           else (let n = rcl_nextSocket st;
                     st1 = st\<lparr>rcl_sockets := (n, new_client_socket) # rcl_sockets st, rcl_nextSocket := Suc n,
                              rcl_ws := Some n, rcl_sfuProvide := Some n\<rparr>
                 in (dispose_presence st1)\<lparr>rcl_presenceOf := Some n, rcl_sendJoin := Some n\<rparr>))"

definition schedule_state_timeout :: "nat \<Rightarrow> room_client \<Rightarrow> room_client" where
  "schedule_state_timeout n st =
     (let st1 = clear_state_timeout st
      in (set_timer (StateTask n) default_state_timeout_ms st1)\<lparr>rcl_stateTimeout := Some (rcl_nextTimer st1)\<rparr>)"

definition state_timeout_fires :: "nat \<Rightarrow> room_client \<Rightarrow> room_client" where
  "state_timeout_fires n st =
     (if rcl_cancelled st then st
      else if socket_state n st = Some SockOpen \<and> \<not> rcl_hasReceivedState st then close_client_socket n st
      else st)"

definition client_join_request :: "client_config \<Rightarrow> room_client \<Rightarrow> join_request" where
  "client_join_request cfg st =
     \<lparr>jr_roomId = cc_roomId cfg, jr_userId = cc_userId cfg, jr_userSecret = cc_userSecret cfg,
      jr_username = rcl_username st, jr_sessionKind = cc_sessionKind cfg, jr_joinPassword = rcl_joinPassword st,
      jr_controlToken = rcl_controlToken st, jr_initialMediaUrl = cc_initialMediaUrl cfg,
      jr_skipDefaultMedia = cc_skipDefaultMedia cfg\<rparr>"

definition arm_join_retry :: "nat \<Rightarrow> room_client \<Rightarrow> room_client" where
  "arm_join_retry n st =
     on_client_socket n (\<lambda>s. s\<lparr>cs_joinRetry := Some (rcl_nextTimer st)\<rparr>) (set_timer (JoinRetryTask n) default_join_retry_ms st)"

definition send_join :: "client_config \<Rightarrow> jsnum \<Rightarrow> string \<Rightarrow> nat \<Rightarrow> room_client \<Rightarrow> room_client" where
  "send_join cfg now requestId n st =
     (case map_of (rcl_sockets st) n of
        None \<Rightarrow> st
      | Some s \<Rightarrow>
          if rcl_cancelled st then st
          else if cs_state s \<noteq> SockOpen then connect_start cfg now st
          else if rcl_hasReceivedState st then st
          else (let st1 = sync_control_token_from_storage cfg st;
                    attempts = Suc (cs_joinAttempts s);
                    st2 = (on_client_socket n (\<lambda>s. s\<lparr>cs_joinAttempts := attempts\<rparr>) st1)
                            \<lparr>rcl_status := (if rcl_joinPassword st1 \<noteq> [] then StJoining else StConnecting), rcl_joinError := None\<rparr>;
                    st3 = emit_client (JoinSent n (build_room_join_envelope requestId (client_join_request cfg st2))) st2;
                    st4 = schedule_state_timeout n st3
                in if attempts < max_join_attempts then arm_join_retry n st4 else st4))"

definition clear_join_retry :: "nat \<Rightarrow> room_client \<Rightarrow> room_client" where
  "clear_join_retry n st =
     (case map_of (rcl_sockets st) n of
        None \<Rightarrow> st
      | Some s \<Rightarrow> on_client_socket n (\<lambda>s. s\<lparr>cs_joinRetry := None\<rparr>) (clear_timer (cs_joinRetry s) st))"

definition socket_opens :: "client_config \<Rightarrow> jsnum \<Rightarrow> string \<Rightarrow> nat \<Rightarrow> room_client \<Rightarrow> room_client" where
  "socket_opens cfg now requestId n st =
     send_join cfg now requestId n
       ((on_client_socket n (\<lambda>s. s\<lparr>cs_state := SockOpen\<rparr>) st)\<lparr>rcl_status := StConnected\<rparr>)"

text \<open>\<open>onclose\<close>; the flag tells a close by a server that shuts down.\<close>

definition socket_closes :: "bool \<Rightarrow> nat \<Rightarrow> room_client \<Rightarrow> room_client" where
  "socket_closes shutdown n st =
     (case map_of (rcl_sockets st) n of
        None \<Rightarrow> st
      | Some s \<Rightarrow>
          (let st1 = (dispose_presence (on_client_socket n (\<lambda>s. s\<lparr>cs_state := SockClosed\<rparr>) st))\<lparr>rcl_presenceOf := None\<rparr>;
               st2 = (if rcl_sfuProvide st1 = Some n then st1\<lparr>rcl_sfuProvide := None\<rparr> else st1);
               st3 = clear_state_timeout (clear_timer (cs_joinRetry s) (emit_client SocketBridgeDetached st2))
           in if rcl_cancelled st3 \<or> rcl_pause st3 then st3
              else (let st4 = st3\<lparr>rcl_status := StReconnecting\<rparr>;
                        st5 = (if shutdown then st4\<lparr>rcl_joinError := Some ServerRestartingMessage\<rparr> else st4)
                    in schedule_reconnect ReconnectTask default_reconnect_ms st5)))"

definition dispose_connection :: "room_client \<Rightarrow> room_client" where
  "dispose_connection st =
     (let st1 = st\<lparr>rcl_cancelled := True, rcl_pause := False, rcl_refresh := rs_disarm (rcl_refresh st),
                   rcl_hasReceivedState := False, rcl_sendJoin := None, rcl_sfuProvide := None\<rparr>;
          st2 = (dispose_presence st1)\<lparr>rcl_presenceOf := None\<rparr>;
          st3 = emit_client ViewerTokenDropped (clear_reconnect_timers (emit_client SocketBridgeDetached st2))
      in close_current (clear_state_timeout st3))"

section \<open>Messages\<close>

text \<open>What the server sends, as the schemas of \<open>contracts/s2c.ts\<close> let it through.\<close>

datatype server_event =
    EvLocalMedia
  | EvSnapshot client_room
  | EvControl room_control
  | EvPresence presence_batch
  | EvClock jsnum jsnum
  | EvCapabilities session_capabilities "string option"
  | EvAdmissionChanged bool
  | EvJoinRejected join_rejected_reason
  | EvRoomError
  | EvInvalid

definition observe_wall_clock :: "jsnum option \<Rightarrow> jsnum \<Rightarrow> room_client \<Rightarrow> room_client" where
  "observe_wall_clock wall now st =
     (case wall of
        None \<Rightarrow> st
      | Some w \<Rightarrow> st\<lparr>rcl_clock := observe_server_now_ms (Num w) now
            (if sc_lastRtt (rcl_clock st) = 0 then NotANumber else Num (sc_lastRtt (rcl_clock st))) (rcl_clock st)\<rparr>)"

definition handle_snapshot :: "client_config \<Rightarrow> jsnum \<Rightarrow> nat \<Rightarrow> client_room \<Rightarrow> room_client \<Rightarrow> room_client" where
  "handle_snapshot cfg now n payload st =
     (let firstStateAfterJoin = (\<not> rcl_hasReceivedState st);
          st1 = clear_state_timeout (st\<lparr>rcl_hasReceivedState := True, rcl_pause := False\<rparr>);
          st2 = observe_wall_clock (cr_serverWallNowMs payload) now (st1\<lparr>rcl_joinError := None\<rparr>);
          st3 = (case map_of (st_participants payload) (cc_userId cfg) of
                   None \<Rightarrow> st2
                 | Some p \<Rightarrow> if pt_username p = [] then st2
                            else st2\<lparr>rcl_username := pt_username p, rcl_browser := persist_username (pt_username p) (rcl_browser st2)\<rparr>);
          st4 = st3\<lparr>rcl_roomState := Some (apply_room_snapshot (rcl_roomState st3) payload)\<rparr>
      in if firstStateAfterJoin then emit_client (BootstrapLocalMedia n) st4 else st4)"

definition handle_control :: "jsnum \<Rightarrow> room_control \<Rightarrow> room_client \<Rightarrow> room_client" where
  "handle_control now payload st =
     (let st1 = observe_wall_clock (Some (rc_serverWallNowMs payload)) now st in
      if \<not> rcl_hasReceivedState st1 then st1
      else (clear_state_timeout (st1\<lparr>rcl_pause := False\<rparr>))
             \<lparr>rcl_joinError := None, rcl_roomState := apply_room_control (rcl_roomState st1) payload\<rparr>)"

definition handle_presence :: "jsnum \<Rightarrow> nat \<Rightarrow> presence_batch \<Rightarrow> room_client \<Rightarrow> room_client" where
  "handle_presence now n payload st =
     on_client_socket n (\<lambda>s. s\<lparr>cs_presence := co_enqueue payload (cs_presence s)\<rparr>)
       (observe_wall_clock (Some (pbt_serverNowMs payload)) now st)"

definition presence_flushes :: "nat \<Rightarrow> room_client \<Rightarrow> room_client" where
  "presence_flushes n st =
     (case map_of (rcl_sockets st) n of
        None \<Rightarrow> st
      | Some s \<Rightarrow>
          if \<not> co_scheduled (cs_presence s) then st
          else (let (c, flushed) = co_flush (cs_presence s);
                    st1 = on_client_socket n (\<lambda>s. s\<lparr>cs_presence := c\<rparr>) st
                in case flushed of
                     None \<Rightarrow> st1
                   | Some payloads \<Rightarrow>
                       if rcl_cancelled st1 then st1
                       else st1\<lparr>rcl_roomState := apply_presence_batches (rcl_roomState st1) payloads\<rparr>))"

definition handle_session_clock :: "jsnum \<Rightarrow> jsnum \<Rightarrow> jsnum \<Rightarrow> room_client \<Rightarrow> room_client" where
  "handle_session_clock now serverNowMs rttMs st =
     st\<lparr>rcl_clock := observe_server_now_ms (Num serverNowMs) now (Num rttMs) (rcl_clock st)\<rparr>"

definition own_role :: "client_config \<Rightarrow> room_client \<Rightarrow> room_role option" where
  "own_role cfg st =
     Option.bind (rcl_roomState st) (\<lambda>room. map_option pt_role (map_of (st_participants room) (cc_userId cfg)))"

definition handle_capabilities ::
  "client_config \<Rightarrow> session_capabilities \<Rightarrow> string option \<Rightarrow> room_client \<Rightarrow> room_client" where
  "handle_capabilities cfg caps viewerToken st =
     (let st1 = (if truthy viewerToken then emit_client (ViewerTokenKept (the viewerToken)) st else st);
          st2 = st1\<lparr>rcl_capabilities := caps\<rparr>;
          (started, rm) = try_remint_start (cc_sessionKind cfg) (sc_controlAuthorized caps) (own_role cfg st2) (rcl_reminter st2)
      in st2\<lparr>rcl_reminter := rm, rcl_remints := (if started then Suc (rcl_remints st2) else rcl_remints st2)\<rparr>)"

text \<open>The remint of a session is answered.\<close>

definition remint_answered :: "client_config \<Rightarrow> jsnum \<Rightarrow> json option \<Rightarrow> room_client \<Rightarrow> room_client" where
  "remint_answered cfg now reply st0 =
     (if rcl_remints st0 = 0 then st0
      else let (token, rm, br) = try_remint_end (client_credentials cfg) reply (rcl_reminter st0) (rcl_browser st0);
               st = st0\<lparr>rcl_remints := rcl_remints st0 - 1, rcl_reminter := rm, rcl_browser := br\<rparr>
           in if rcl_cancelled st \<or> \<not> truthy token then st
              else close_current (arm_control_token_refresh cfg now (st\<lparr>rcl_controlToken := token\<rparr>)))"

definition refresh_fires :: "nat \<Rightarrow> room_client \<Rightarrow> room_client" where
  "refresh_fires t st =
     (if t \<in> set (keys_of (rs_timers (rcl_refresh st)))
      then st\<lparr>rcl_refresh := snd (rs_timer_fires t (rcl_refresh st))\<rparr> else st)"

text \<open>The proactive remint is answered; its credentials are those of the session.\<close>

definition refresh_answered :: "client_config \<Rightarrow> jsnum \<Rightarrow> json option \<Rightarrow> room_client \<Rightarrow> room_client" where
  "refresh_answered cfg now reply st =
     (if \<not> rs_inFlight (rcl_refresh st) then st
      else let (minted, br, rs) = rs_minted now (client_credentials cfg) reply (rcl_browser st) (rcl_refresh st);
               st1 = st\<lparr>rcl_browser := br, rcl_refresh := rs\<rparr>
           in case minted of
                None \<Rightarrow> st1
              | Some m \<Rightarrow> if rcl_cancelled st1 then st1
                          else close_current (st1\<lparr>rcl_controlToken := Some (mt_token m)\<rparr>))"

definition handle_admission_changed :: "client_config \<Rightarrow> nat \<Rightarrow> bool \<Rightarrow> room_client \<Rightarrow> room_client" where
  "handle_admission_changed cfg n joinPasswordEnabled st =
     (let st1 = (clear_state_timeout (clear_join_retry n st))
            \<lparr>rcl_hasReceivedState := False, rcl_roomState := None,
             rcl_capabilities := create_default_session_capabilities (cc_sessionKind cfg)\<rparr>
      in if joinPasswordEnabled
         then (clear_reconnect_timers (st1\<lparr>rcl_joinError := Some (message_for_join_rejected PasswordRequired),
                 rcl_status := status_for_join_rejected PasswordRequired\<rparr>))\<lparr>rcl_pause := True\<rparr>
         else st1)"

definition handle_join_rejected :: "nat \<Rightarrow> join_rejected_reason \<Rightarrow> room_client \<Rightarrow> room_client" where
  "handle_join_rejected n reason st =
     (let st1 = (clear_state_timeout (clear_join_retry n st))
            \<lparr>rcl_joinError := Some (message_for_join_rejected reason), rcl_status := status_for_join_rejected reason\<rparr>
      in if \<not> should_pause_auto_reconnect reason then st1
         else (let st2 = (clear_reconnect_timers st1)\<lparr>rcl_pause := True\<rparr> in
               if is_terminal_join_rejection reason then close_current (st2\<lparr>rcl_cancelled := True\<rparr>)
               else if reason = JoinRateLimited
               then (let st3 = close_current st2
                     in if rcl_cancelled st3 then st3 else schedule_reconnect CooldownTask rate_limited_reconnect_ms st3)
               else st2))"

definition dispatch_room_socket_envelope ::
  "client_config \<Rightarrow> jsnum \<Rightarrow> nat \<Rightarrow> server_event \<Rightarrow> room_client \<Rightarrow> room_client" where
  "dispatch_room_socket_envelope cfg now n ev st =
     (case ev of
        EvLocalMedia \<Rightarrow> emit_client (LocalMediaMessage n) st
      | EvSnapshot payload \<Rightarrow> handle_snapshot cfg now n payload st
      | EvControl payload \<Rightarrow> handle_control now payload st
      | EvPresence payload \<Rightarrow> handle_presence now n payload st
      | EvClock serverNowMs rttMs \<Rightarrow> handle_session_clock now serverNowMs rttMs st
      | EvCapabilities caps viewerToken \<Rightarrow> handle_capabilities cfg caps viewerToken st
      | EvAdmissionChanged enabled \<Rightarrow> handle_admission_changed cfg n enabled st
      | EvJoinRejected reason \<Rightarrow> handle_join_rejected n reason st
      | EvRoomError \<Rightarrow> st
      | EvInvalid \<Rightarrow> st)"

section \<open>Events\<close>

text \<open>
  What can happen to a client.  An event the browser would not raise in a state changes nothing; a socket the
  server closes goes through its closing state.
\<close>

datatype client_event =
    InitAnswered bool
  | SocketOpens nat string
  | SocketMessage nat server_event
  | SocketError nat
  | SocketClosing nat
  | SocketCloses nat bool
  | TimerFires nat string
  | PresenceFlushes nat
  | PasswordSubmitted string string
  | EventRequested string json
  | RemintAnswered "json option"
  | RefreshFires nat
  | RefreshAnswered "json option"
  | Disposed

definition timer_fires :: "client_config \<Rightarrow> jsnum \<Rightarrow> string \<Rightarrow> nat \<Rightarrow> room_client \<Rightarrow> room_client" where
  "timer_fires cfg now requestId t st =
     (case map_of (rcl_timers st) t of
        None \<Rightarrow> st
      | Some (task, ms) \<Rightarrow>
          (let st1 = st\<lparr>rcl_timers := AList.delete t (rcl_timers st)\<rparr> in
           case task of
             ReconnectTask \<Rightarrow> connect_start cfg now st1
           | CooldownTask \<Rightarrow> connect_start cfg now (st1\<lparr>rcl_pause := False\<rparr>)
           | JoinRetryTask n \<Rightarrow> send_join cfg now requestId n st1
           | StateTask n \<Rightarrow> state_timeout_fires n st1))"

definition submit_join_password :: "client_config \<Rightarrow> jsnum \<Rightarrow> string \<Rightarrow> string \<Rightarrow> room_client \<Rightarrow> room_client" where
  "submit_join_password cfg now requestId password st =
     (let st1 = st\<lparr>rcl_joinPassword := password\<rparr> in
      case rcl_sendJoin st1 of None \<Rightarrow> st1 | Some n \<Rightarrow> send_join cfg now requestId n st1)"

text \<open>\<open>send\<close> of the page: a socket that is not open drops the text, one still connecting throws.\<close>

definition send_event :: "string \<Rightarrow> json \<Rightarrow> room_client \<Rightarrow> room_client" where
  "send_event kind payload st =
     (if Option.bind (rcl_ws st) (\<lambda>n. socket_state n st) = Some SockConnecting then st
      else let st1 = (case rcl_ws st of
                        None \<Rightarrow> st
                      | Some n \<Rightarrow> if socket_state n st = Some SockOpen then emit_client (EventSent n kind payload) st else st)
           in case (kind = ''local-media:ready'' \<and> jget payload ''ready'' = Some (JBool True),
                    rcl_sfuProvide st1, jget payload ''localMediaId'') of
                (True, Some n, Some (JStr localMediaId)) \<Rightarrow> emit_client (ProvidedViaSfu n localMediaId) st1
              | _ \<Rightarrow> st1)"

definition client_step :: "client_config \<Rightarrow> jsnum \<Rightarrow> client_event \<Rightarrow> room_client \<Rightarrow> room_client" where
  "client_step cfg now ev st =
     (case ev of
        InitAnswered good \<Rightarrow> connect_init good st
      | SocketOpens n requestId \<Rightarrow>
          if socket_state n st = Some SockConnecting then socket_opens cfg now requestId n st else st
      | SocketMessage n e \<Rightarrow>
          if socket_state n st = Some SockOpen then dispatch_room_socket_envelope cfg now n e st else st
      | SocketError n \<Rightarrow> close_client_socket n st
      | SocketClosing n \<Rightarrow> close_client_socket n st
      | SocketCloses n shutdown \<Rightarrow>
          if socket_state n st \<in> {None, Some SockClosed} then st else socket_closes shutdown n st
      | TimerFires t requestId \<Rightarrow> timer_fires cfg now requestId t st
      | PresenceFlushes n \<Rightarrow> presence_flushes n st
      | PasswordSubmitted password requestId \<Rightarrow> submit_join_password cfg now requestId password st
      | EventRequested kind payload \<Rightarrow> send_event kind payload st
      | RemintAnswered reply \<Rightarrow> remint_answered cfg now reply st
      | RefreshFires t \<Rightarrow> refresh_fires t st
      | RefreshAnswered reply \<Rightarrow> refresh_answered cfg now reply st
      | Disposed \<Rightarrow> dispose_connection st)"

definition initial_client :: "client_config \<Rightarrow> page_session \<Rightarrow> string \<Rightarrow> browser \<Rightarrow> room_client" where
  "initial_client cfg page username br =
     \<lparr>rcl_cancelled = False, rcl_pause = False, rcl_reconnectTimer = None, rcl_timers = [], rcl_nextTimer = 1,
      rcl_sockets = [], rcl_nextSocket = 0, rcl_ws = None, rcl_inits = 0, rcl_hasReceivedState = False,
      rcl_roomState = None, rcl_stateTimeout = None, rcl_presenceOf = None, rcl_sfuProvide = None, rcl_sendJoin = None,
      rcl_status = StConnecting, rcl_joinError = None,
      rcl_capabilities = create_default_session_capabilities (cc_sessionKind cfg),
      rcl_controlToken = ps_controlToken page, rcl_username = username, rcl_joinPassword = [],
      rcl_reminter = \<lparr>rm_attempted = False\<rparr>, rcl_remints = 0,
      rcl_refresh = create_control_token_refresh_scheduler, rcl_clock = initial_clock, rcl_browser = br, rcl_out = []\<rparr>"

inductive client_reachable :: "client_config \<Rightarrow> room_client \<Rightarrow> bool" for cfg where
  mounted: "client_reachable cfg (connect_start cfg now (initial_client cfg page username br))"
| stepped: "client_reachable cfg st \<Longrightarrow> client_reachable cfg (client_step cfg now ev st)"

end
