(* ===== verification/Room_Client_Properties.thy ===== *)
theory Room_Client_Properties
  imports Room_Client
begin

text \<open>
  What the connection of a browser guarantees: it is never left without a socket, a request or a timer that
  brings one unless it waits for its user; a session that was left sends nothing more; a lost connection is
  joined again; what it sends is what the server's schema accepts.
\<close>

section \<open>Timers and live sockets\<close>

definition reconnecting :: "timer_task \<Rightarrow> bool" where
  "reconnecting task = (task = ReconnectTask \<or> task = CooldownTask)"

text \<open>The identifier a variable holds was handed out, and its timer, when it still runs, brings no connection.\<close>

definition idle_timer :: "room_client \<Rightarrow> nat option \<Rightarrow> bool" where
  "idle_timer st t = (\<forall>k. t = Some k \<longrightarrow> k < rcl_nextTimer st \<and> (\<forall>task ms. map_of (rcl_timers st) k = Some (task, ms) \<longrightarrow> \<not> reconnecting task))"

definition timers_wf :: "room_client \<Rightarrow> bool" where
  "timers_wf st =
     ((\<forall>k task ms. map_of (rcl_timers st) k = Some (task, ms) \<longrightarrow> k < rcl_nextTimer st) \<and> idle_timer st (rcl_stateTimeout st) \<and>
      (\<forall>n s. map_of (rcl_sockets st) n = Some s \<longrightarrow> idle_timer st (cs_joinRetry s)))"

definition on_its_way :: "room_client \<Rightarrow> bool" where
  "on_its_way st =
     ((\<exists>n s. map_of (rcl_sockets st) n = Some s \<and> cs_state s \<noteq> SockClosed) \<or> 0 < rcl_inits st \<or>
      (\<exists>t task ms. map_of (rcl_timers st) t = Some (task, ms) \<and> reconnecting task))"

definition steady :: "room_client \<Rightarrow> bool" where
  "steady st = (timers_wf st \<and> (rcl_cancelled st \<or> rcl_pause st \<or> on_its_way st))"

named_theorems steady_intros

lemma idle_None [simp]: "idle_timer st None"
  by (simp add: idle_timer_def)

lemma clear_timer_simps [simp]:
  "rcl_nextTimer (clear_timer t st) = rcl_nextTimer st" "rcl_stateTimeout (clear_timer t st) = rcl_stateTimeout st"
  "rcl_sockets (clear_timer t st) = rcl_sockets st" "rcl_inits (clear_timer t st) = rcl_inits st"
  "rcl_cancelled (clear_timer t st) = rcl_cancelled st" "rcl_pause (clear_timer t st) = rcl_pause st"
  "map_of (rcl_timers (clear_timer t st)) k = (if t = Some k then None else map_of (rcl_timers st) k)"
  by (auto simp: clear_timer_def split: option.split)

lemma set_timer_simps [simp]:
  "rcl_nextTimer (set_timer task ms st) = Suc (rcl_nextTimer st)" "rcl_stateTimeout (set_timer task ms st) = rcl_stateTimeout st"
  "rcl_sockets (set_timer task ms st) = rcl_sockets st" "rcl_inits (set_timer task ms st) = rcl_inits st"
  "rcl_cancelled (set_timer task ms st) = rcl_cancelled st" "rcl_pause (set_timer task ms st) = rcl_pause st"
  "map_of (rcl_timers (set_timer task ms st)) k = (if k = rcl_nextTimer st then Some (task, ms) else map_of (rcl_timers st) k)"
  by (auto simp: set_timer_def)

lemma idle_set_timer: "idle_timer st t \<Longrightarrow> idle_timer (set_timer task ms st) t"
  by (auto simp: idle_timer_def)

lemma idle_clear_timer: "idle_timer st t \<Longrightarrow> idle_timer (clear_timer t' st) t"
  by (auto simp: idle_timer_def)

lemma wf_set_timer [steady_intros]: "timers_wf st \<Longrightarrow> timers_wf (set_timer task ms st)"
  unfolding timers_wf_def by (simp add: idle_set_timer less_SucI)

lemma wf_clear_timer [steady_intros]: "timers_wf st \<Longrightarrow> timers_wf (clear_timer t st)"
  unfolding timers_wf_def by (simp add: idle_clear_timer)

lemma way_socket: "map_of (rcl_sockets st) n = Some s \<Longrightarrow> cs_state s \<noteq> SockClosed \<Longrightarrow> on_its_way st"
  unfolding on_its_way_def by blast

lemma way_init: "0 < rcl_inits st \<Longrightarrow> on_its_way st"
  unfolding on_its_way_def by blast

lemma way_timer: "map_of (rcl_timers st) t = Some (task, ms) \<Longrightarrow> reconnecting task \<Longrightarrow> on_its_way st"
  unfolding on_its_way_def by blast

lemma on_its_wayE:
  assumes "on_its_way st"
  obtains (sock) n s where "map_of (rcl_sockets st) n = Some s" "cs_state s \<noteq> SockClosed"
    | (init) "0 < rcl_inits st"
    | (timer) t task ms where "map_of (rcl_timers st) t = Some (task, ms)" "reconnecting task"
proof -
  consider "\<exists>n s. map_of (rcl_sockets st) n = Some s \<and> cs_state s \<noteq> SockClosed" | "0 < rcl_inits st"
    | "\<exists>t task ms. map_of (rcl_timers st) t = Some (task, ms) \<and> reconnecting task"
    using assms unfolding on_its_way_def by satx
  then show ?thesis by cases (use that in blast)+
qed

lemma way_set_timer [steady_intros]:
  assumes "timers_wf st" "on_its_way st" shows "on_its_way (set_timer task ms st)"
  using assms(2)
proof (cases rule: on_its_wayE)
  case (sock n s) then show ?thesis by (intro way_socket) simp_all
next
  case init then show ?thesis by (intro way_init) simp
next
  case (timer t task' ms')
  then have "t < rcl_nextTimer st" using assms(1) unfolding timers_wf_def by blast
  then show ?thesis using timer by (intro way_timer [of _ t task' ms']) simp_all
qed

lemma way_set_reconnect: "reconnecting task \<Longrightarrow> on_its_way (set_timer task ms st)"
  by (rule way_timer [of _ "rcl_nextTimer st"]) simp_all

lemma way_clear_timer [steady_intros]:
  assumes "idle_timer st t" "on_its_way st" shows "on_its_way (clear_timer t st)"
  using assms(2)
proof (cases rule: on_its_wayE)
  case (sock n s) then show ?thesis by (intro way_socket) simp_all
next
  case init then show ?thesis by (intro way_init) simp
next
  case (timer k task ms)
  then have "t \<noteq> Some k" using assms(1) unfolding idle_timer_def by blast
  then show ?thesis using timer by (intro way_timer [of _ k task ms]) simp_all
qed

text \<open>A change of one socket that leaves it alive and takes no timer from it.\<close>

lemma on_socket_simps [simp]:
  "rcl_nextTimer (on_client_socket n f st) = rcl_nextTimer st" "rcl_stateTimeout (on_client_socket n f st) = rcl_stateTimeout st"
  "rcl_timers (on_client_socket n f st) = rcl_timers st" "rcl_inits (on_client_socket n f st) = rcl_inits st"
  "rcl_cancelled (on_client_socket n f st) = rcl_cancelled st" "rcl_pause (on_client_socket n f st) = rcl_pause st"
  by (simp_all add: on_client_socket_def)

lemma sockets_on_socket [simp]:
  "map_of (rcl_sockets (on_client_socket n f st)) m = (if m = n then map_option f (map_of (rcl_sockets st) n) else map_of (rcl_sockets st) m)"
  by (simp add: on_client_socket_def)

lemma wf_on_socket:
  assumes "timers_wf st" "\<And>s. map_of (rcl_sockets st) n = Some s \<Longrightarrow> idle_timer st (cs_joinRetry (f s))"
  shows "timers_wf (on_client_socket n f st)"
  using assms unfolding timers_wf_def idle_timer_def by (auto split: if_splits)

lemma way_on_socket:
  assumes "on_its_way st" "\<And>s. map_of (rcl_sockets st) n = Some s \<Longrightarrow> cs_state s \<noteq> SockClosed \<Longrightarrow> cs_state (f s) \<noteq> SockClosed"
  shows "on_its_way (on_client_socket n f st)"
  using assms(1)
proof (cases rule: on_its_wayE)
  case (sock m s)
  then have "map_of (rcl_sockets (on_client_socket n f st)) m = Some (if m = n then f s else s)" by auto
  moreover have "cs_state (if m = n then f s else s) \<noteq> SockClosed" using sock assms(2) by auto
  ultimately show ?thesis by (rule way_socket)
next
  case init then show ?thesis by (intro way_init) simp
next
  case (timer k task ms) then show ?thesis by (intro way_timer [of _ k task ms]) simp_all
qed

text \<open>The other fields matter to neither.\<close>

lemma idle_frame [simp]:
  "idle_timer (st\<lparr>rcl_cancelled := v0\<rparr>) t = idle_timer st t"
  "idle_timer (st\<lparr>rcl_pause := v1\<rparr>) t = idle_timer st t"
  "idle_timer (st\<lparr>rcl_reconnectTimer := v2\<rparr>) t = idle_timer st t"
  "idle_timer (st\<lparr>rcl_nextSocket := v3\<rparr>) t = idle_timer st t"
  "idle_timer (st\<lparr>rcl_ws := v4\<rparr>) t = idle_timer st t"
  "idle_timer (st\<lparr>rcl_hasReceivedState := v5\<rparr>) t = idle_timer st t"
  "idle_timer (st\<lparr>rcl_roomState := v6\<rparr>) t = idle_timer st t"
  "idle_timer (st\<lparr>rcl_presenceOf := v7\<rparr>) t = idle_timer st t"
  "idle_timer (st\<lparr>rcl_sfuProvide := v8\<rparr>) t = idle_timer st t"
  "idle_timer (st\<lparr>rcl_sendJoin := v9\<rparr>) t = idle_timer st t"
  "idle_timer (st\<lparr>rcl_status := v10\<rparr>) t = idle_timer st t"
  "idle_timer (st\<lparr>rcl_joinError := v11\<rparr>) t = idle_timer st t"
  "idle_timer (st\<lparr>rcl_capabilities := v12\<rparr>) t = idle_timer st t"
  "idle_timer (st\<lparr>rcl_controlToken := v13\<rparr>) t = idle_timer st t"
  "idle_timer (st\<lparr>rcl_username := v14\<rparr>) t = idle_timer st t"
  "idle_timer (st\<lparr>rcl_joinPassword := v15\<rparr>) t = idle_timer st t"
  "idle_timer (st\<lparr>rcl_reminter := v16\<rparr>) t = idle_timer st t"
  "idle_timer (st\<lparr>rcl_remints := v17\<rparr>) t = idle_timer st t"
  "idle_timer (st\<lparr>rcl_refresh := v18\<rparr>) t = idle_timer st t"
  "idle_timer (st\<lparr>rcl_clock := v19\<rparr>) t = idle_timer st t"
  "idle_timer (st\<lparr>rcl_browser := v20\<rparr>) t = idle_timer st t"
  "idle_timer (st\<lparr>rcl_out := v21\<rparr>) t = idle_timer st t"
  by (simp_all add: idle_timer_def)

lemma wf_frame [simp]:
  "timers_wf (st\<lparr>rcl_cancelled := v0\<rparr>) = timers_wf st"
  "timers_wf (st\<lparr>rcl_pause := v1\<rparr>) = timers_wf st"
  "timers_wf (st\<lparr>rcl_reconnectTimer := v2\<rparr>) = timers_wf st"
  "timers_wf (st\<lparr>rcl_nextSocket := v3\<rparr>) = timers_wf st"
  "timers_wf (st\<lparr>rcl_ws := v4\<rparr>) = timers_wf st"
  "timers_wf (st\<lparr>rcl_hasReceivedState := v5\<rparr>) = timers_wf st"
  "timers_wf (st\<lparr>rcl_roomState := v6\<rparr>) = timers_wf st"
  "timers_wf (st\<lparr>rcl_presenceOf := v7\<rparr>) = timers_wf st"
  "timers_wf (st\<lparr>rcl_sfuProvide := v8\<rparr>) = timers_wf st"
  "timers_wf (st\<lparr>rcl_sendJoin := v9\<rparr>) = timers_wf st"
  "timers_wf (st\<lparr>rcl_status := v10\<rparr>) = timers_wf st"
  "timers_wf (st\<lparr>rcl_joinError := v11\<rparr>) = timers_wf st"
  "timers_wf (st\<lparr>rcl_capabilities := v12\<rparr>) = timers_wf st"
  "timers_wf (st\<lparr>rcl_controlToken := v13\<rparr>) = timers_wf st"
  "timers_wf (st\<lparr>rcl_username := v14\<rparr>) = timers_wf st"
  "timers_wf (st\<lparr>rcl_joinPassword := v15\<rparr>) = timers_wf st"
  "timers_wf (st\<lparr>rcl_reminter := v16\<rparr>) = timers_wf st"
  "timers_wf (st\<lparr>rcl_remints := v17\<rparr>) = timers_wf st"
  "timers_wf (st\<lparr>rcl_refresh := v18\<rparr>) = timers_wf st"
  "timers_wf (st\<lparr>rcl_clock := v19\<rparr>) = timers_wf st"
  "timers_wf (st\<lparr>rcl_browser := v20\<rparr>) = timers_wf st"
  "timers_wf (st\<lparr>rcl_out := v21\<rparr>) = timers_wf st"
  by (simp_all add: timers_wf_def)

lemma way_frame [simp]:
  "on_its_way (st\<lparr>rcl_cancelled := v0\<rparr>) = on_its_way st"
  "on_its_way (st\<lparr>rcl_pause := v1\<rparr>) = on_its_way st"
  "on_its_way (st\<lparr>rcl_reconnectTimer := v2\<rparr>) = on_its_way st"
  "on_its_way (st\<lparr>rcl_nextSocket := v3\<rparr>) = on_its_way st"
  "on_its_way (st\<lparr>rcl_ws := v4\<rparr>) = on_its_way st"
  "on_its_way (st\<lparr>rcl_hasReceivedState := v5\<rparr>) = on_its_way st"
  "on_its_way (st\<lparr>rcl_roomState := v6\<rparr>) = on_its_way st"
  "on_its_way (st\<lparr>rcl_presenceOf := v7\<rparr>) = on_its_way st"
  "on_its_way (st\<lparr>rcl_sfuProvide := v8\<rparr>) = on_its_way st"
  "on_its_way (st\<lparr>rcl_sendJoin := v9\<rparr>) = on_its_way st"
  "on_its_way (st\<lparr>rcl_status := v10\<rparr>) = on_its_way st"
  "on_its_way (st\<lparr>rcl_joinError := v11\<rparr>) = on_its_way st"
  "on_its_way (st\<lparr>rcl_capabilities := v12\<rparr>) = on_its_way st"
  "on_its_way (st\<lparr>rcl_controlToken := v13\<rparr>) = on_its_way st"
  "on_its_way (st\<lparr>rcl_username := v14\<rparr>) = on_its_way st"
  "on_its_way (st\<lparr>rcl_joinPassword := v15\<rparr>) = on_its_way st"
  "on_its_way (st\<lparr>rcl_reminter := v16\<rparr>) = on_its_way st"
  "on_its_way (st\<lparr>rcl_remints := v17\<rparr>) = on_its_way st"
  "on_its_way (st\<lparr>rcl_refresh := v18\<rparr>) = on_its_way st"
  "on_its_way (st\<lparr>rcl_clock := v19\<rparr>) = on_its_way st"
  "on_its_way (st\<lparr>rcl_browser := v20\<rparr>) = on_its_way st"
  "on_its_way (st\<lparr>rcl_out := v21\<rparr>) = on_its_way st"
  by (simp_all add: on_its_way_def)

section \<open>The operations keep the client on its way\<close>

lemma wf_idle: "timers_wf st \<Longrightarrow> idle_timer st (rcl_stateTimeout st)"
  "timers_wf st \<Longrightarrow> map_of (rcl_sockets st) n = Some s \<Longrightarrow> idle_timer st (cs_joinRetry s)"
  unfolding timers_wf_def by blast+

lemma wf_no_timeout [simp]: "timers_wf st \<Longrightarrow> timers_wf (st\<lparr>rcl_stateTimeout := None\<rparr>)"
  by (simp add: timers_wf_def idle_timer_def)

lemma way_no_timeout [simp]: "on_its_way (st\<lparr>rcl_stateTimeout := t\<rparr>) = on_its_way st"
  by (simp add: on_its_way_def)

lemma clear_state_timeout_kept [simp]:
  "rcl_cancelled (clear_state_timeout st) = rcl_cancelled st" "rcl_pause (clear_state_timeout st) = rcl_pause st"
  "rcl_sockets (clear_state_timeout st) = rcl_sockets st" "rcl_inits (clear_state_timeout st) = rcl_inits st"
  by (simp_all add: clear_state_timeout_def)

lemma clear_state_timeout_way: "timers_wf st \<Longrightarrow> timers_wf (clear_state_timeout st)"
  "timers_wf st \<Longrightarrow> on_its_way st \<Longrightarrow> on_its_way (clear_state_timeout st)"
  by (simp_all add: clear_state_timeout_def wf_clear_timer way_clear_timer wf_idle)

lemma on_socket_way:
  assumes "\<And>s. cs_joinRetry (f s) = cs_joinRetry s" "\<And>s. cs_state s \<noteq> SockClosed \<Longrightarrow> cs_state (f s) \<noteq> SockClosed"
  shows "timers_wf st \<Longrightarrow> timers_wf (on_client_socket n f st)" "on_its_way st \<Longrightarrow> on_its_way (on_client_socket n f st)"
  using assms by (auto intro!: wf_on_socket way_on_socket dest: wf_idle)

lemma close_socket_kept [simp]:
  "rcl_cancelled (close_client_socket n st) = rcl_cancelled st" "rcl_pause (close_client_socket n st) = rcl_pause st"
  "rcl_cancelled (close_current st) = rcl_cancelled st" "rcl_pause (close_current st) = rcl_pause st"
  by (simp_all add: close_client_socket_def close_current_def split: option.split)

lemma close_socket_way: "timers_wf st \<Longrightarrow> timers_wf (close_client_socket n st)"
  "on_its_way st \<Longrightarrow> on_its_way (close_client_socket n st)"
  unfolding close_client_socket_def by (auto intro!: on_socket_way split: if_splits)

lemma close_current_way: "timers_wf st \<Longrightarrow> timers_wf (close_current st)" "on_its_way st \<Longrightarrow> on_its_way (close_current st)"
  by (simp_all add: close_current_def close_socket_way split: option.split)

lemma dispose_presence_kept [simp]:
  "rcl_cancelled (dispose_presence st) = rcl_cancelled st" "rcl_pause (dispose_presence st) = rcl_pause st"
  by (simp_all add: dispose_presence_def split: option.split)

lemma dispose_presence_way: "timers_wf st \<Longrightarrow> timers_wf (dispose_presence st)" "on_its_way st \<Longrightarrow> on_its_way (dispose_presence st)"
  by (auto simp: dispose_presence_def intro!: on_socket_way split: option.split)

lemma token_steps_way [simp]:
  "timers_wf (sync_control_token_from_storage cfg st) = timers_wf st" "on_its_way (sync_control_token_from_storage cfg st) = on_its_way st"
  "timers_wf (arm_control_token_refresh cfg now st) = timers_wf st" "on_its_way (arm_control_token_refresh cfg now st) = on_its_way st"
  by (simp_all add: sync_control_token_from_storage_def arm_control_token_refresh_def Let_def)

lemma token_steps_kept [simp]:
  "rcl_cancelled (sync_control_token_from_storage cfg st) = rcl_cancelled st" "rcl_pause (sync_control_token_from_storage cfg st) = rcl_pause st"
  "rcl_cancelled (arm_control_token_refresh cfg now st) = rcl_cancelled st" "rcl_pause (arm_control_token_refresh cfg now st) = rcl_pause st"
  "rcl_stateTimeout (arm_control_token_refresh cfg now st) = rcl_stateTimeout st"
  "rcl_stateTimeout (sync_control_token_from_storage cfg st) = rcl_stateTimeout st"
  by (simp_all add: sync_control_token_from_storage_def arm_control_token_refresh_def Let_def)

lemma connect_start_way: "timers_wf st \<Longrightarrow> timers_wf (connect_start cfg now st)" "on_its_way (connect_start cfg now st)"
proof -
  show "on_its_way (connect_start cfg now st)" by (rule way_init) (simp add: connect_start_def Let_def)
  have "timers_wf (st\<lparr>rcl_inits := n\<rparr>) = timers_wf st" for st n by (simp add: timers_wf_def idle_timer_def)
  then show "timers_wf (connect_start cfg now st)" if "timers_wf st"
    using that by (simp add: connect_start_def Let_def wf_clear_timer)
qed

lemma schedule_reconnect_way: "timers_wf st \<Longrightarrow> timers_wf (schedule_reconnect task ms st)"
  "reconnecting task \<Longrightarrow> on_its_way (schedule_reconnect task ms st)"
  by (simp_all add: schedule_reconnect_def wf_set_timer way_set_reconnect)

lemma connect_init_way:
  assumes "steady st" shows "steady (connect_init good st)"
proof (cases "rcl_inits st = 0")
  case False
  let ?st = "st\<lparr>rcl_inits := rcl_inits st - 1\<rparr>" and ?n = "rcl_nextSocket st"
  have wf: "timers_wf ?st" using assms by (simp add: steady_def timers_wf_def idle_timer_def)
  have added: "timers_wf (?st\<lparr>rcl_sockets := (?n, new_client_socket) # rcl_sockets st\<rparr>)"
    using wf by (auto simp: timers_wf_def idle_timer_def new_client_socket_def)
  have way: "on_its_way (?st\<lparr>rcl_sockets := (?n, new_client_socket) # rcl_sockets st\<rparr>)"
    by (rule way_socket [of _ ?n new_client_socket]) (simp_all add: new_client_socket_def)
  have "timers_wf (?st\<lparr>rcl_sockets := (?n, new_client_socket) # rcl_sockets st, rcl_nextSocket := a, rcl_ws := b, rcl_sfuProvide := c\<rparr>)"
    "on_its_way (?st\<lparr>rcl_sockets := (?n, new_client_socket) # rcl_sockets st, rcl_nextSocket := a, rcl_ws := b, rcl_sfuProvide := c\<rparr>)"
    for a b c using added way by simp_all
  then show ?thesis
    using False wf assms
    by (auto simp: connect_init_def Let_def steady_def schedule_reconnect_way reconnecting_def intro!: dispose_presence_way)
qed (use assms in \<open>simp add: connect_init_def\<close>)

lemma schedule_state_timeout_way:
  assumes "timers_wf st"
  shows "timers_wf (schedule_state_timeout n st)" "on_its_way st \<Longrightarrow> on_its_way (schedule_state_timeout n st)"
proof -
  let ?s1 = "set_timer (StateTask n) default_state_timeout_ms (clear_state_timeout st)"
  have wf: "timers_wf ?s1" using assms by (simp add: wf_set_timer clear_state_timeout_way)
  have "idle_timer ?s1 (Some (rcl_nextTimer (clear_state_timeout st)))" by (simp add: idle_timer_def reconnecting_def)
  with wf show "timers_wf (schedule_state_timeout n st)"
    by (simp add: schedule_state_timeout_def Let_def timers_wf_def idle_timer_def)
  show "on_its_way (schedule_state_timeout n st)" if "on_its_way st"
    using that assms by (simp add: schedule_state_timeout_def Let_def way_set_timer clear_state_timeout_way)
qed

lemma state_timeout_way: "timers_wf st \<Longrightarrow> timers_wf (state_timeout_fires n st)" "on_its_way st \<Longrightarrow> on_its_way (state_timeout_fires n st)"
  by (simp_all add: state_timeout_fires_def close_socket_way)

lemma arm_join_retry_way:
  assumes "timers_wf st"
  shows "timers_wf (arm_join_retry n st)" "on_its_way st \<Longrightarrow> on_its_way (arm_join_retry n st)"
  unfolding arm_join_retry_def using assms
  by (auto intro!: wf_on_socket way_on_socket wf_set_timer way_set_timer simp: idle_timer_def reconnecting_def)

lemma send_join_steps_kept [simp]:
  "rcl_cancelled (arm_join_retry n st) = rcl_cancelled st" "rcl_pause (arm_join_retry n st) = rcl_pause st"
  "rcl_cancelled (schedule_state_timeout n st) = rcl_cancelled st" "rcl_pause (schedule_state_timeout n st) = rcl_pause st"
  "rcl_cancelled (emit_client e st) = rcl_cancelled st" "rcl_pause (emit_client e st) = rcl_pause st"
  "rcl_cancelled (connect_start cfg now st) = rcl_cancelled st" "\<not> rcl_pause (connect_start cfg now st)"
  by (simp_all add: arm_join_retry_def schedule_state_timeout_def emit_client_def connect_start_def Let_def)

lemma emit_way [simp]: "timers_wf (emit_client e st) = timers_wf st" "on_its_way (emit_client e st) = on_its_way st"
  by (simp_all add: emit_client_def)

lemma send_join_way:
  assumes "timers_wf st"
  shows "timers_wf (send_join cfg now requestId n st)" "on_its_way st \<Longrightarrow> on_its_way (send_join cfg now requestId n st)"
  using assms
  by (auto simp: send_join_def Let_def split: option.split
      intro!: arm_join_retry_way schedule_state_timeout_way on_socket_way connect_start_way)

lemma send_join_kept: "rcl_cancelled (send_join cfg now requestId n st) = rcl_cancelled st"
  "rcl_pause (send_join cfg now requestId n st) \<Longrightarrow> rcl_pause st"
  by (auto simp: send_join_def Let_def split: option.splits if_splits)

lemma clear_join_retry_way:
  assumes "timers_wf st"
  shows "timers_wf (clear_join_retry n st)" "on_its_way st \<Longrightarrow> on_its_way (clear_join_retry n st)"
  using assms
  by (auto simp: clear_join_retry_def split: option.split
      intro!: wf_on_socket way_on_socket wf_clear_timer way_clear_timer dest: wf_idle)

lemma clear_join_retry_kept [simp]:
  "rcl_cancelled (clear_join_retry n st) = rcl_cancelled st" "rcl_pause (clear_join_retry n st) = rcl_pause st"
  by (simp_all add: clear_join_retry_def split: option.split)

lemma clear_reconnect_wf: "timers_wf st \<Longrightarrow> timers_wf (clear_reconnect_timers st)"
  by (simp add: clear_reconnect_timers_def wf_clear_timer)

lemma clear_reconnect_kept [simp]:
  "rcl_cancelled (clear_reconnect_timers st) = rcl_cancelled st" "rcl_pause (clear_reconnect_timers st) = rcl_pause st"
  by (simp_all add: clear_reconnect_timers_def)

lemma steady_send_join:
  assumes "steady st" shows "steady (send_join cfg now requestId n st)"
proof -
  have "rcl_pause (send_join cfg now requestId n st) \<or> on_its_way (send_join cfg now requestId n st)" if "rcl_pause st"
    using that by (auto simp: send_join_def Let_def connect_start_way split: option.split)
  then show ?thesis using assms send_join_way [of st] send_join_kept(1) by (auto simp: steady_def)
qed

lemma socket_opens_way: "steady st \<Longrightarrow> steady (socket_opens cfg now requestId n st)"
  unfolding socket_opens_def by (rule steady_send_join) (auto simp: steady_def intro!: on_socket_way)

lemma socket_closes_way:
  assumes "steady st" shows "steady (socket_closes shutdown n st)"
proof (cases "map_of (rcl_sockets st) n")
  case (Some s)
  let ?a = "(dispose_presence (on_client_socket n (\<lambda>s. s\<lparr>cs_state := SockClosed\<rparr>) st))\<lparr>rcl_presenceOf := None\<rparr>"
  have wf: "timers_wf st" using assms by (simp add: steady_def)
  have "timers_wf (on_client_socket n (\<lambda>s. s\<lparr>cs_state := SockClosed\<rparr>) st)"
    using wf wf_idle by (auto intro!: wf_on_socket)
  then have "timers_wf ?a" by (simp add: dispose_presence_way)
  then have closed: "timers_wf (clear_state_timeout (clear_timer t (emit_client e (if b then ?a\<lparr>rcl_sfuProvide := None\<rparr> else ?a))))"
    for t e b by (simp add: clear_state_timeout_way wf_clear_timer)
  show ?thesis
    unfolding steady_def socket_closes_def Some option.case Let_def
    using closed by (auto simp: schedule_reconnect_way reconnecting_def)
qed (use assms in \<open>simp add: socket_closes_def\<close>)

text \<open>A message of an open socket leaves that socket alive.\<close>

lemma steady_alive: "timers_wf st \<Longrightarrow> on_its_way st \<Longrightarrow> steady st"
  by (simp add: steady_def)

lemma open_way: "socket_state n st = Some s \<Longrightarrow> s \<noteq> SockClosed \<Longrightarrow> on_its_way st"
  by (auto simp: socket_state_def intro: way_socket)

lemma observe_way [simp]: "timers_wf (observe_wall_clock w now st) = timers_wf st" "on_its_way (observe_wall_clock w now st) = on_its_way st"
  by (simp_all add: observe_wall_clock_def split: option.split)

lemma handlers_way:
  assumes wf: "timers_wf st" and way: "on_its_way st"
  shows "steady (dispatch_room_socket_envelope cfg now n ev st)"
proof -
  have snapshot: "steady (handle_snapshot cfg now n payload st)" for payload
    by (rule steady_alive)
      (use wf way in \<open>simp_all add: handle_snapshot_def Let_def clear_state_timeout_way split: option.split\<close>)
  have control: "steady (handle_control now payload st)" for payload
    by (rule steady_alive) (use wf way in \<open>simp_all add: handle_control_def Let_def clear_state_timeout_way\<close>)
  have batch: "steady (handle_presence now n payload st)" for payload
    by (rule steady_alive) (use wf way in \<open>auto simp: handle_presence_def intro!: on_socket_way\<close>)
  have caps: "steady (handle_capabilities cfg c v st)" for c v
    by (rule steady_alive) (use wf way in \<open>simp_all add: handle_capabilities_def Let_def split: prod.split\<close>)
  have admission: "steady (handle_admission_changed cfg n enabled st)" for enabled
    using wf way
    by (auto simp: steady_def handle_admission_changed_def Let_def clear_reconnect_wf clear_join_retry_way clear_state_timeout_way)
  have rejected: "steady (handle_join_rejected n reason st)" for reason
    using wf way
    by (auto simp: steady_def handle_join_rejected_def Let_def clear_reconnect_wf clear_join_retry_way clear_state_timeout_way
        close_current_way schedule_reconnect_way reconnecting_def)
  show ?thesis
    using wf way snapshot control batch caps admission rejected
    by (cases ev) (simp_all add: dispatch_room_socket_envelope_def steady_alive handle_session_clock_def)
qed

lemma drop_timer: "map_of (rcl_timers st) t = Some (task, ms) \<Longrightarrow> \<not> reconnecting task \<Longrightarrow> steady st \<Longrightarrow>
    steady (st\<lparr>rcl_timers := AList.delete t (rcl_timers st)\<rparr>)"
  using wf_clear_timer [of st "Some t"] way_clear_timer [of st "Some t"]
  by (auto simp: steady_def clear_timer_def idle_timer_def timers_wf_def)

lemma timer_fires_way:
  assumes "steady st" shows "steady (timer_fires cfg now requestId t st)"
proof (cases "map_of (rcl_timers st) t")
  case (Some v)
  obtain task ms where v: "v = (task, ms)" by fastforce
  let ?st = "st\<lparr>rcl_timers := AList.delete t (rcl_timers st)\<rparr>"
  have wf: "timers_wf ?st" using assms wf_clear_timer [of st "Some t"] by (simp add: steady_def clear_timer_def)
  have rest: "steady ?st" if "\<not> reconnecting task" using drop_timer Some v that assms by blast
  show ?thesis
  proof (cases task)
    case ReconnectTask
    then show ?thesis using Some v wf by (simp add: timer_fires_def steady_def connect_start_way)
  next
    case CooldownTask
    then show ?thesis using Some v wf by (simp add: timer_fires_def steady_def connect_start_way)
  next
    case (JoinRetryTask n)
    then show ?thesis using Some v rest by (simp add: timer_fires_def steady_send_join reconnecting_def)
  next
    case (StateTask n)
    then show ?thesis using Some v rest
      by (auto simp: timer_fires_def steady_def reconnecting_def state_timeout_way) (simp_all add: state_timeout_fires_def)
  qed
qed (use assms in \<open>simp add: timer_fires_def\<close>)

lemma presence_flushes_way: "steady st \<Longrightarrow> steady (presence_flushes n st)"
  by (auto simp: steady_def presence_flushes_def Let_def split: option.split prod.split intro!: on_socket_way)

lemma send_event_way: "steady st \<Longrightarrow> steady (send_event kind payload st)"
  by (auto simp: steady_def send_event_def Let_def split: option.splits json.splits bool.splits)

lemma remint_answered_way: "steady st \<Longrightarrow> steady (remint_answered cfg now reply st)"
  by (auto simp: steady_def remint_answered_def Let_def close_current_way split: prod.split)

lemma refresh_answered_way: "steady st \<Longrightarrow> steady (refresh_answered cfg now reply st)"
  by (auto simp: steady_def refresh_answered_def Let_def close_current_way split: prod.split option.split)

lemma dispose_way: "steady st \<Longrightarrow> steady (dispose_connection st)"
  by (simp add: steady_def dispose_connection_def Let_def close_current_way clear_state_timeout_way clear_reconnect_wf dispose_presence_way)

lemma steady_step:
  assumes "steady st" shows "steady (client_step cfg now ev st)"
proof -
  have wf: "timers_wf st" using assms by (simp add: steady_def)
  have close: "steady (close_client_socket n st)" for n using assms by (auto simp: steady_def close_socket_way)
  have submit: "steady (submit_join_password cfg now r pw st)" for r pw
    using assms steady_send_join [of "st\<lparr>rcl_joinPassword := pw\<rparr>"]
    by (simp add: submit_join_password_def Let_def steady_def split: option.split)
  show ?thesis
    using assms wf close submit
    by (cases ev) (simp_all add: client_step_def connect_init_way socket_opens_way handlers_way [OF wf open_way] socket_closes_way
        timer_fires_way presence_flushes_way send_event_way remint_answered_way refresh_answered_way dispose_way
        refresh_fires_def steady_def [of "_\<lparr>rcl_refresh := _\<rparr>"] steady_def [of st])
qed

lemma steady_reachable: "client_reachable cfg st \<Longrightarrow> steady st"
proof (induction rule: client_reachable.induct)
  case (mounted now page username br)
  have "timers_wf (initial_client cfg page username br)" by (simp add: timers_wf_def initial_client_def)
  then show ?case by (simp add: steady_def connect_start_way)
next
  case stepped
  from stepped.IH show ?case by (rule steady_step)
qed


section \<open>A session that was left\<close>

text \<open>What a step may not touch: whether the session is left, which sockets exist, what was joined and sent.\<close>

fun is_join :: "client_effect \<Rightarrow> bool" where
  "is_join (JoinSent _ _) = True"
| "is_join _ = False"

definition left_alone :: "room_client \<Rightarrow> bool \<times> nat list \<times> client_effect list" where
  "left_alone st = (rcl_cancelled st, keys_of (rcl_sockets st), List.filter is_join (rcl_out st))"

named_theorems alone_simps

lemma alone_steps [alone_simps]:
  "left_alone (set_timer task ms st) = left_alone st" "left_alone (clear_timer t st) = left_alone st"
  "left_alone (on_client_socket n f st) = left_alone st" "left_alone (close_client_socket n st) = left_alone st"
  "left_alone (close_current st) = left_alone st" "left_alone (dispose_presence st) = left_alone st"
  "left_alone (clear_state_timeout st) = left_alone st" "left_alone (clear_reconnect_timers st) = left_alone st"
  "left_alone (sync_control_token_from_storage cfg st) = left_alone st"
  "left_alone (arm_control_token_refresh cfg now st) = left_alone st"
  "left_alone (connect_start cfg now st) = left_alone st" "left_alone (clear_join_retry n st) = left_alone st"
  "left_alone (observe_wall_clock w now st) = left_alone st" "left_alone (state_timeout_fires n st) = left_alone st"
  "left_alone (schedule_reconnect task ms st) = left_alone st"
  "\<not> is_join e \<Longrightarrow> left_alone (emit_client e st) = left_alone st"
  by (simp_all add: left_alone_def set_timer_def clear_timer_def on_client_socket_def close_client_socket_def close_current_def
      dispose_presence_def clear_state_timeout_def clear_reconnect_timers_def sync_control_token_from_storage_def
      arm_control_token_refresh_def connect_start_def clear_join_retry_def observe_wall_clock_def state_timeout_fires_def
      schedule_reconnect_def emit_client_def Let_def split: option.split)

lemma alone_frame [alone_simps]:
  "left_alone (st\<lparr>rcl_pause := v0\<rparr>) = left_alone st"
  "left_alone (st\<lparr>rcl_reconnectTimer := v1\<rparr>) = left_alone st"
  "left_alone (st\<lparr>rcl_timers := v2\<rparr>) = left_alone st"
  "left_alone (st\<lparr>rcl_nextTimer := v3\<rparr>) = left_alone st"
  "left_alone (st\<lparr>rcl_inits := v4\<rparr>) = left_alone st"
  "left_alone (st\<lparr>rcl_hasReceivedState := v5\<rparr>) = left_alone st"
  "left_alone (st\<lparr>rcl_roomState := v6\<rparr>) = left_alone st"
  "left_alone (st\<lparr>rcl_stateTimeout := v7\<rparr>) = left_alone st"
  "left_alone (st\<lparr>rcl_nextSocket := v8\<rparr>) = left_alone st"
  "left_alone (st\<lparr>rcl_ws := v9\<rparr>) = left_alone st"
  "left_alone (st\<lparr>rcl_presenceOf := v10\<rparr>) = left_alone st"
  "left_alone (st\<lparr>rcl_sfuProvide := v11\<rparr>) = left_alone st"
  "left_alone (st\<lparr>rcl_sendJoin := v12\<rparr>) = left_alone st"
  "left_alone (st\<lparr>rcl_status := v13\<rparr>) = left_alone st"
  "left_alone (st\<lparr>rcl_joinError := v14\<rparr>) = left_alone st"
  "left_alone (st\<lparr>rcl_capabilities := v15\<rparr>) = left_alone st"
  "left_alone (st\<lparr>rcl_controlToken := v16\<rparr>) = left_alone st"
  "left_alone (st\<lparr>rcl_username := v17\<rparr>) = left_alone st"
  "left_alone (st\<lparr>rcl_joinPassword := v18\<rparr>) = left_alone st"
  "left_alone (st\<lparr>rcl_reminter := v19\<rparr>) = left_alone st"
  "left_alone (st\<lparr>rcl_remints := v20\<rparr>) = left_alone st"
  "left_alone (st\<lparr>rcl_refresh := v21\<rparr>) = left_alone st"
  "left_alone (st\<lparr>rcl_clock := v22\<rparr>) = left_alone st"
  "left_alone (st\<lparr>rcl_browser := v23\<rparr>) = left_alone st"
  by (simp_all add: left_alone_def)

lemma alone_cancelled: "rcl_cancelled st \<Longrightarrow> left_alone (st\<lparr>rcl_cancelled := True\<rparr>) = left_alone st"
  by (simp add: left_alone_def)

lemma alone_reads: "left_alone st = left_alone st' \<Longrightarrow> rcl_cancelled st = rcl_cancelled st'"
  by (simp add: left_alone_def)

lemma send_join_alone: "rcl_cancelled st \<Longrightarrow> send_join cfg now requestId n st = st"
  by (simp add: send_join_def split: option.split)

lemma dispatch_alone: "rcl_cancelled st \<Longrightarrow> left_alone (dispatch_room_socket_envelope cfg now n ev st) = left_alone st"
  by (cases ev)
    (simp_all add: dispatch_room_socket_envelope_def handle_snapshot_def handle_control_def handle_presence_def
      handle_session_clock_def handle_capabilities_def handle_admission_changed_def handle_join_rejected_def Let_def
      alone_simps alone_cancelled split: option.split prod.split)

lemma closes_alone: "left_alone (socket_closes shutdown n st) = left_alone st"
  by (simp add: socket_closes_def Let_def alone_simps split: option.split)

lemma dispose_alone: "rcl_cancelled st \<Longrightarrow> left_alone (dispose_connection st) = left_alone st"
  by (simp add: dispose_connection_def Let_def alone_simps alone_cancelled)

lemma timer_alone: "rcl_cancelled st \<Longrightarrow> left_alone (timer_fires cfg now requestId t st) = left_alone st"
  by (simp add: timer_fires_def Let_def alone_simps send_join_alone split: option.split prod.split timer_task.split)

lemma answers_alone: "left_alone (remint_answered cfg now reply st) = left_alone st"
  "left_alone (refresh_answered cfg now reply st) = left_alone st" "left_alone (presence_flushes n st) = left_alone st"
  by (simp_all add: remint_answered_def refresh_answered_def presence_flushes_def Let_def alone_simps
      split: option.split prod.split)

lemma send_event_alone: "left_alone (send_event kind payload st) = left_alone st"
  by (simp add: send_event_def Let_def alone_simps split: option.split json.split bool.split)

lemma step_alone:
  assumes "rcl_cancelled st" shows "left_alone (client_step cfg now ev st) = left_alone st"
  using assms
  by (cases ev) (simp_all add: client_step_def connect_init_def socket_opens_def submit_join_password_def Let_def send_join_alone
      alone_simps dispatch_alone closes_alone timer_alone answers_alone send_event_alone dispose_alone refresh_fires_def split: option.split)

definition client_run :: "client_config \<Rightarrow> (jsnum \<times> client_event) list \<Rightarrow> room_client \<Rightarrow> room_client" where
  "client_run cfg evs st = fold (\<lambda>(now, ev). client_step cfg now ev) evs st"

text \<open>
  C20. A session that was left makes no new socket and joins no room again: whatever happens to a client
  afterwards - sockets that open late, messages, timers, answers to requests, a submitted password - the sockets
  it made are those it had and it has sent no further join.
\<close>

theorem left_session_never_rejoins:
  "case client_run cfg evs (dispose_connection st) of st' \<Rightarrow>
     rcl_cancelled st' \<and> keys_of (rcl_sockets st') = keys_of (rcl_sockets (dispose_connection st))
     \<and> List.filter is_join (rcl_out st') = List.filter is_join (rcl_out st)"
proof -
  define left where "left = dispose_connection st"
  have gone: "rcl_cancelled left" by (simp add: left_def dispose_connection_def Let_def)
  have "left_alone (client_run cfg evs left) = left_alone left"
  proof (induction evs rule: rev_induct)
    case (snoc e evs)
    have "rcl_cancelled (client_run cfg evs left)" using alone_reads [OF snoc.IH] gone by simp
    then show ?case using snoc.IH by (simp add: client_run_def step_alone split: prod.split)
  qed (simp add: client_run_def)
  moreover have "List.filter is_join (rcl_out left) = List.filter is_join (rcl_out st)"
  proof -
    have "left_alone (dispose_connection st) = (True, snd (left_alone st))"
      by (simp add: dispose_connection_def Let_def alone_simps) (simp add: left_alone_def)
    then show ?thesis by (simp add: left_def left_alone_def)
  qed
  ultimately show ?thesis using gone by (simp add: left_alone_def left_def [symmetric])
qed

section \<open>What a join carries\<close>

lemma kind_text_parses [simp]: "p_sessionKind (JStr (session_kind_text k)) = Some k"
  by (cases k) simp_all

lemma join_fields:
  "jget (join_payload r) ''roomId'' = Some (JStr (jr_roomId r))" "jget (join_payload r) ''userId'' = Some (JStr (jr_userId r))"
  "jget (join_payload r) ''userSecret'' = Some (JStr (jr_userSecret r))" "jget (join_payload r) ''username'' = Some (JStr (jr_username r))"
  "jget (join_payload r) ''sessionKind'' = Some (JStr (session_kind_text (jr_sessionKind r)))"
  "jget (join_payload r) ''avatarStyle'' = None"
  "jget (join_payload r) ''joinPassword'' = (if jr_joinPassword r \<noteq> [] then Some (JStr (jr_joinPassword r)) else None)"
  "jget (join_payload r) ''controlToken'' = (if truthy (jr_controlToken r) then Some (JStr (the (jr_controlToken r))) else None)"
  "jget (join_payload r) ''initialMediaUrl'' = (if truthy (jr_initialMediaUrl r) then Some (JStr (the (jr_initialMediaUrl r))) else None)"
  "jget (join_payload r) ''skipDefaultMedia'' = (if jr_skipDefaultMedia r then Some (JBool True) else None)"
  by (simp_all add: join_payload_def)

text \<open>
  C22. What the client sends to join is what the server's schema accepts and reads back: within the bounds of the
  schema, and with a username the sanitiser keeps, the parsed request has the client's room, identity, session
  kind, password, token and options, where an empty one counts as none.
\<close>

theorem join_request_parses:
  assumes "jr_roomId r \<noteq> []" "length (jr_roomId r) \<le> 128" "jr_userId r \<noteq> []" "length (jr_userId r) \<le> 128"
    and "jr_userSecret r \<noteq> []" "length (jr_joinPassword r) \<le> 256" "length (jr_username r) \<le> 64"
    and "sanitize_username (jr_username r) = Some name"
    and "\<And>t. jr_controlToken r = Some t \<Longrightarrow> length t \<le> 512"
    and "\<And>u. jr_initialMediaUrl r = Some u \<Longrightarrow> length (trim u) \<le> 2048 \<and> (u \<noteq> [] \<longrightarrow> trim u \<noteq> [])"
  shows "parse_roomJoin (join_payload r) = Some
    \<lparr>rj_roomId = jr_roomId r, rj_userId = Some (jr_userId r), rj_userSecret = jr_userSecret r,
     rj_joinPassword = (if jr_joinPassword r = [] then None else Some (jr_joinPassword r)),
     rj_username = Some name, rj_avatarStyle = None, rj_sessionKind = jr_sessionKind r,
     rj_controlToken = (if truthy (jr_controlToken r) then jr_controlToken r else None),
     rj_initialMediaUrl = (if truthy (jr_initialMediaUrl r) then map_option trim (jr_initialMediaUrl r) else None),
     rj_skipDefaultMedia = (if jr_skipDefaultMedia r then Some True else None)\<rparr>"
proof -
  have len: "Suc 0 \<le> length xs \<longleftrightarrow> xs \<noteq> []" for xs :: string by (cases xs) simp_all
  have token: "p_opt (p_str 1 512) (join_payload r) ''controlToken'' = Some (if truthy (jr_controlToken r) then jr_controlToken r else None)"
    using assms(9) by (auto simp: p_opt_def join_fields truthy_def len split: option.split)
  have url: "p_opt (p_trimmed 1 2048) (join_payload r) ''initialMediaUrl'' =
      Some (if truthy (jr_initialMediaUrl r) then map_option trim (jr_initialMediaUrl r) else None)"
    using assms(10) by (auto simp: p_opt_def join_fields truthy_def len Let_def split: option.split)
  have rest: "p_field (p_str 1 128) (join_payload r) ''roomId'' = Some (jr_roomId r)"
    "p_opt p_userId (join_payload r) ''userId'' = Some (Some (jr_userId r))"
    "p_field (p_str_min 1) (join_payload r) ''userSecret'' = Some (jr_userSecret r)"
    "p_opt (p_str 1 256) (join_payload r) ''joinPassword'' = Some (if jr_joinPassword r = [] then None else Some (jr_joinPassword r))"
    "p_opt p_username (join_payload r) ''username'' = Some (Some name)"
    "p_opt (p_str 1 64) (join_payload r) ''avatarStyle'' = Some None"
    "p_opt p_sessionKind (join_payload r) ''sessionKind'' = Some (Some (jr_sessionKind r))"
    "p_opt p_bool (join_payload r) ''skipDefaultMedia'' = Some (if jr_skipDefaultMedia r then Some True else None)"
    using assms(1-8) by (simp_all add: p_field_def p_opt_def join_fields p_userId_def p_username_def p_sanitized_def len
        del: p_sessionKind.simps)
  show ?thesis unfolding parse_roomJoin_def token url rest by simp
qed

lemma join_request_parses_witness:
  "parse_roomJoin (join_payload \<lparr>jr_roomId = ''r'', jr_userId = ''u'', jr_userSecret = ''s'', jr_username = ''Ann'', jr_sessionKind = SControl,
      jr_joinPassword = [], jr_controlToken = Some ''t'', jr_initialMediaUrl = None, jr_skipDefaultMedia = True\<rparr>) \<noteq> None"
proof -
  let ?r = "\<lparr>jr_roomId = ''r'', jr_userId = ''u'', jr_userSecret = ''s'', jr_username = ''Ann'', jr_sessionKind = SControl,
      jr_joinPassword = [], jr_controlToken = Some ''t'', jr_initialMediaUrl = None, jr_skipDefaultMedia = True\<rparr>"
  have "sanitize_username ''Ann'' = Some ''Ann''" by code_simp
  then have "parse_roomJoin (join_payload ?r) = Some \<lparr>rj_roomId = jr_roomId ?r, rj_userId = Some (jr_userId ?r), rj_userSecret = jr_userSecret ?r,
     rj_joinPassword = (if jr_joinPassword ?r = [] then None else Some (jr_joinPassword ?r)),
     rj_username = Some ''Ann'', rj_avatarStyle = None, rj_sessionKind = jr_sessionKind ?r,
     rj_controlToken = (if truthy (jr_controlToken ?r) then jr_controlToken ?r else None),
     rj_initialMediaUrl = (if truthy (jr_initialMediaUrl ?r) then map_option trim (jr_initialMediaUrl ?r) else None),
     rj_skipDefaultMedia = (if jr_skipDefaultMedia ?r then Some True else None)\<rparr>"
    by (intro join_request_parses) auto
  then show ?thesis by (metis option.distinct(1))
qed

section \<open>A lost connection\<close>

text \<open>The part of a state that decides how a lost socket is replaced.\<close>

lemma closes_schedules:
  assumes "map_of (rcl_sockets st) n = Some s" "\<not> rcl_cancelled st" "\<not> rcl_pause st"
    and st'_def: "st' = socket_closes shutdown n st"
  shows "map_of (rcl_timers st') (rcl_nextTimer st) = Some (ReconnectTask, default_reconnect_ms)"
    "\<not> rcl_cancelled st'" "\<not> rcl_pause st'" "rcl_nextSocket st' = rcl_nextSocket st" "rcl_inits st' = rcl_inits st"
    "rcl_username st' = rcl_username st" "rcl_joinPassword st' = rcl_joinPassword st" "rcl_controlToken st' = rcl_controlToken st"
    "rcl_browser st' = rcl_browser st"
proof -
  have frame: "rcl_nextSocket (clear_timer t u) = rcl_nextSocket u" "rcl_username (clear_timer t u) = rcl_username u"
    "rcl_joinPassword (clear_timer t u) = rcl_joinPassword u" "rcl_controlToken (clear_timer t u) = rcl_controlToken u"
    "rcl_browser (clear_timer t u) = rcl_browser u" for t u
    by (simp_all add: clear_timer_def split: option.split)
  show "map_of (rcl_timers st') (rcl_nextTimer st) = Some (ReconnectTask, default_reconnect_ms)"
    "\<not> rcl_cancelled st'" "\<not> rcl_pause st'" "rcl_nextSocket st' = rcl_nextSocket st" "rcl_inits st' = rcl_inits st"
    "rcl_username st' = rcl_username st" "rcl_joinPassword st' = rcl_joinPassword st" "rcl_controlToken st' = rcl_controlToken st"
    "rcl_browser st' = rcl_browser st"
    using assms(1-3)
    by (simp_all add: st'_def socket_closes_def Let_def schedule_reconnect_def set_timer_def clear_state_timeout_def frame
        emit_client_def dispose_presence_def on_client_socket_def split: option.split)
qed

lemma connect_start_reads:
  "rcl_nextSocket (connect_start cfg now st) = rcl_nextSocket st" "rcl_username (connect_start cfg now st) = rcl_username st"
  "rcl_joinPassword (connect_start cfg now st) = rcl_joinPassword st" "rcl_inits (connect_start cfg now st) = Suc (rcl_inits st)"
  "\<not> rcl_hasReceivedState (connect_start cfg now st)" "rcl_cancelled (connect_start cfg now st) = rcl_cancelled st"
  by (simp_all add: connect_start_def sync_control_token_from_storage_def arm_control_token_refresh_def clear_timer_def Let_def
      split: option.split)

lemma connect_init_reads:
  assumes "0 < rcl_inits st" "\<not> rcl_cancelled st" and st'_def: "st' = connect_init True st"
  shows "map_of (rcl_sockets st') (rcl_nextSocket st) = Some new_client_socket" "\<not> rcl_cancelled st'"
    "rcl_hasReceivedState st' = rcl_hasReceivedState st" "rcl_username st' = rcl_username st" "rcl_joinPassword st' = rcl_joinPassword st"
proof -
  have keep: "co_dispose (cs_presence new_client_socket) = cs_presence new_client_socket"
    by (simp add: co_dispose_def new_client_socket_def)
  then show "map_of (rcl_sockets st') (rcl_nextSocket st) = Some new_client_socket"
    using assms by (simp add: connect_init_def Let_def dispose_presence_def on_client_socket_def split: option.split)
  show "\<not> rcl_cancelled st'" "rcl_hasReceivedState st' = rcl_hasReceivedState st"
    "rcl_username st' = rcl_username st" "rcl_joinPassword st' = rcl_joinPassword st"
    using assms by (simp_all add: connect_init_def Let_def dispose_presence_def on_client_socket_def split: option.split)
qed

lemma opens_joins:
  assumes "map_of (rcl_sockets st) m = Some new_client_socket" "\<not> rcl_cancelled st" "\<not> rcl_hasReceivedState st"
  shows "\<exists>r. JoinSent m (build_room_join_envelope requestId r) \<in> set (rcl_out (client_step cfg now (SocketOpens m requestId) st))
    \<and> jr_roomId r = cc_roomId cfg \<and> jr_userId r = cc_userId cfg \<and> jr_userSecret r = cc_userSecret cfg
    \<and> jr_sessionKind r = cc_sessionKind cfg \<and> jr_username r = rcl_username st \<and> jr_joinPassword r = rcl_joinPassword st"
proof -
  let ?st = "sync_control_token_from_storage cfg ((on_client_socket m (\<lambda>s. s\<lparr>cs_state := SockOpen\<rparr>) st)\<lparr>rcl_status := StConnected\<rparr>)"
  have out: "rcl_out (arm_join_retry k u) = rcl_out u" "rcl_out (schedule_state_timeout k u) = rcl_out u"
    "rcl_hasReceivedState (on_client_socket k f u) = rcl_hasReceivedState u" for k f u
    by (simp_all add: arm_join_retry_def schedule_state_timeout_def set_timer_def on_client_socket_def clear_state_timeout_def
        clear_timer_def Let_def split: option.split)
  have sync: "rcl_username ?st = rcl_username st" "rcl_joinPassword ?st = rcl_joinPassword st"
    by (simp_all add: sync_control_token_from_storage_def on_client_socket_def Let_def)
  have "JoinSent m (build_room_join_envelope requestId (client_join_request cfg
      ((on_client_socket m (\<lambda>s. s\<lparr>cs_joinAttempts := 1\<rparr>) ?st)\<lparr>rcl_status := (if rcl_joinPassword ?st \<noteq> [] then StJoining else StConnecting),
        rcl_joinError := None\<rparr>))) \<in> set (rcl_out (client_step cfg now (SocketOpens m requestId) st))"
    using assms
    by (simp add: client_step_def socket_state_def socket_opens_def send_join_def new_client_socket_def Let_def out emit_client_def
        max_join_attempts_def)
  then show ?thesis using sync by (intro exI conjI) (assumption, simp_all add: client_join_request_def on_client_socket_def)
qed


text \<open>A client that has just mounted, and one whose first socket is connecting.\<close>

definition sample_config :: client_config where
  "sample_config = \<lparr>cc_roomId = ''r'', cc_sessionKind = SRoom, cc_userId = ''u'', cc_userSecret = ''s'', cc_initialMediaUrl = None,
     cc_skipDefaultMedia = False\<rparr>"

definition sample_client :: room_client where
  "sample_client = connect_start sample_config 0
     (initial_client sample_config \<lparr>ps_userId = ''u'', ps_userSecret = ''s'', ps_controlToken = None\<rparr> ''Ann'' (empty_browser []))"

lemma sample_reachable: "client_reachable sample_config sample_client"
  unfolding sample_client_def by (rule client_reachable.mounted)

lemma sample_reads: "rcl_inits sample_client = 1" "\<not> rcl_cancelled sample_client" "\<not> rcl_pause sample_client"
  "rcl_username sample_client = ''Ann''" "rcl_sockets sample_client = []" "rcl_nextSocket sample_client = 0"
  by (simp_all add: sample_client_def connect_start_reads initial_client_def)
    (simp add: connect_start_def sync_control_token_from_storage_def arm_control_token_refresh_def sample_config_def Let_def)


definition sample_socket :: room_client where
  "sample_socket = connect_init True sample_client"

lemma sample_socket_reads: "map_of (rcl_sockets sample_socket) 0 = Some new_client_socket" "\<not> rcl_cancelled sample_socket" "\<not> rcl_pause sample_socket"
  using connect_init_reads [of sample_client sample_socket] sample_reads
  by (simp_all add: sample_socket_def connect_init_def Let_def)


section \<open>Two sockets\<close>

text \<open>
  A user who submits the password while the old socket is still closing starts a connection; the close that
  follows starts a second one.  Both sockets join, and leaving closes only the newer: the page that was left
  goes on being a member of the room.
\<close>

definition impatient_run :: "(jsnum \<times> client_event) list" where
  "impatient_run =
     [(1, InitAnswered True), (2, SocketOpens 0 ''a''), (3, SocketMessage 0 (EvAdmissionChanged True)), (4, SocketClosing 0),
      (5, PasswordSubmitted ''pw'' ''b''), (6, SocketCloses 0 False), (7, InitAnswered True), (8, TimerFires 3 ''c''),
      (9, InitAnswered True), (10, SocketOpens 1 ''d''), (11, SocketOpens 2 ''e''), (12, Disposed)]"

lemma impatient_user_stays_joined:
  "socket_state 1 (client_run sample_config impatient_run sample_client) = Some SockOpen"
  by code_simp

text \<open>No message of the server sets the status: a client that has joined still shows that it is connecting.\<close>

lemma snapshot_keeps_status: "rcl_status (client_step cfg now (SocketMessage m (EvSnapshot room)) st) = rcl_status st"
  by (simp add: client_step_def dispatch_room_socket_envelope_def handle_snapshot_def clear_state_timeout_def clear_timer_def
      observe_wall_clock_def emit_client_def Let_def split: option.split)

lemma joined_client_shows_connecting:
  assumes "map_of (rcl_sockets st) m = Some new_client_socket" "\<not> rcl_cancelled st" "\<not> rcl_hasReceivedState st"
  shows "rcl_status (client_step cfg now' (SocketMessage m (EvSnapshot room)) (client_step cfg now (SocketOpens m requestId) st))
    \<in> {StConnecting, StJoining}"
proof -
  have keep: "rcl_status (arm_join_retry k u) = rcl_status u" "rcl_status (schedule_state_timeout k u) = rcl_status u"
    "rcl_hasReceivedState (on_client_socket k f u) = rcl_hasReceivedState u" for k f u
    by (simp_all add: arm_join_retry_def schedule_state_timeout_def set_timer_def on_client_socket_def clear_state_timeout_def
        clear_timer_def Let_def split: option.split)
  have "rcl_status (client_step cfg now (SocketOpens m requestId) st) \<in> {StConnecting, StJoining}"
    using assms
    by (simp add: client_step_def socket_state_def socket_opens_def send_join_def new_client_socket_def Let_def keep emit_client_def)
  then show ?thesis by (simp add: snapshot_keeps_status)
qed

end
