(* ===== verification/Spec2Isabelle.thy ===== *)
theory Spec2Isabelle
  imports Schemas Permissions Room_Store Join_Properties Rate_Limit Local_Media Resolve Extract_Lock Media_Proxy Media_Relay Dispatch Sync_Properties Room_Client_Properties
begin

text \<open>
  Web-SyncPlay lets a group watch a video in step.  A server process keeps each room as one JSON
  document in Redis; browsers send commands over a WebSocket; the server validates each command,
  applies it to the room inside an optimistic transaction, and broadcasts what changed; the
  browsers merge the broadcasts, hold a player to the room's clock, and serve each other the files
  their users share.  This development models the code that decides these things:
  \<open>src/src/server/realtime\<close>, the parts of \<open>server/redis\<close>, \<open>server/media\<close>, \<open>server/security\<close> and
  \<open>server/ws\<close> it rests on, the wire contracts, and, of the browser, \<open>client/realtime\<close> and the sync
  engine of \<open>client/player\<close>.

  The parts and how they interact.

  \<^item> Vocabulary.  \<open>Prelude\<close>: JavaScript numbers as reals, strings as code units below 256, arrays,
    objects as association lists in insertion order, JSON.  \<open>Contracts\<close>: the types of
    \<open>contracts/s2c.ts\<close> and \<open>types.ts\<close>.  \<open>Sanitize\<close>: \<open>shared/sanitize-display.ts\<close>.  \<open>Schemas\<close>: the
    parsers of \<open>contracts/schemas.ts\<close>; a payload is JSON and the result an option.
  \<^item> One room.  \<open>Timeline\<close> (\<open>services/timeline.ts\<close>, \<open>shared/playlist-current.ts\<close>), \<open>Permissions\<close>,
    \<open>Action_Log\<close> (\<open>server/log.ts\<close>), \<open>Playlist\<close> (\<open>services/playlist-ops.ts\<close>), \<open>Ownership\<close>
    (\<open>services/ownership.ts\<close>), \<open>Room_Security\<close> (\<open>services/room-security.ts\<close>), \<open>Repair\<close>
    (\<open>server/repair.ts\<close>), \<open>Local_Playback\<close> (\<open>services/local-playback-*.ts\<close>).  Each operation takes
    the record of a room and returns the changed record.
  \<^item> The shared world.  \<open>World\<close> is the record of everything a server process reads and writes: the
    room store, presence references and presence data in Redis, the socket registry
    (\<open>server/ws/registry.ts\<close>), the identity hashes and control tokens, and the trace of effects
    (messages sent, publications, media calls).  \<open>Presence\<close> and \<open>Participants\<close>
    (\<open>services/participants.ts\<close>) work on it.  \<open>Rooms\<close> states the invariant \<open>room_wf\<close> of a stored
    room and the creation of a room.  \<open>Room_Store\<close> is the \<open>WATCH\<close>/\<open>EXEC\<close> loop of
    \<open>state-store.ts\<close>.
  \<^item> Commands.  \<open>Mutate\<close> is the transaction around every command
    (\<open>handlers/mutate-room.ts\<close>, \<open>mutate-controlled.ts\<close>, \<open>mutation-nack.ts\<close>);
    \<open>Playback_Handlers\<close>, \<open>Playlist_Handlers\<close>, \<open>Room_Handlers\<close> and \<open>Local_Media\<close> are the handlers,
    each a body run by that transaction.  The locale \<open>room_body\<close> is the interface between the
    transaction and its bodies; every handler interprets it.  \<open>Command_Properties\<close> reads the effect of
    an accepted command off the store.  \<open>Resolve\<close> (\<open>services/playlist-resolve.ts\<close>,
    \<open>media/yt-dlp/resolve-lease.ts\<close>, \<open>resolve-reclaim.ts\<close>) settles the items whose media is looked up;
    \<open>Extract_Lock\<close> (\<open>extract-lock.ts\<close>, \<open>cache.ts\<close>, \<open>classify.ts\<close>) is the lock under which the servers
    look up one URL.
  \<^item> Connections.  \<open>Lifecycle\<close>: disconnect, empty-room grace, destruction, the periodic sweep
    (\<open>services/disconnect.ts\<close>, \<open>empty-room.ts\<close>, \<open>cleanup.ts\<close>).  \<open>Join\<close>: \<open>handlers/join.ts\<close> and
    \<open>handlers/join/\<close>, identity secrets and control tokens.  \<open>Lifecycle_Properties\<close> and
    \<open>Join_Properties\<close> hold what they guarantee.
  \<^item> The server as a whole.  \<open>Dispatch\<close>: the queue of a socket (\<open>realtime-server.ts\<close>), the frame and its
    duplicate filter (\<open>socket-dispatch.ts\<close>), the table of handlers (\<open>handlers/index.ts\<close>), ping and pong
    (\<open>server/ws\<close>).  A server state is the world with the media store, the SFU, the limits and the queues;
    its steps are the messages, the closes and the ticks.
  \<^item> Broadcast.  \<open>Broadcast\<close>: the bus that batches presence ticks and snapshots
    (\<open>realtime/broadcast/\<close>); \<open>Client_Merge\<close>: \<open>client/realtime/room-state-merge.ts\<close>.
  \<^item> Guards and files.  \<open>Rate_Limit\<close>: \<open>security/rate-limit.ts\<close>; \<open>Url_Safety\<close>: \<open>security/url-safety.ts\<close>;
    \<open>Local_Media\<close>: \<open>media/local-media-store.ts\<close> and \<open>handlers/local-media.ts\<close>; \<open>Media_Frames\<close>: the binary
    frame, byte ranges and UTF-8 (\<open>shared/local-media/\<close>); \<open>Block_Cache\<close>:
    \<open>media/local-media-block-cache.ts\<close>; \<open>Media_Relay\<close>: \<open>media/local-media-relay/\<close>, which answers a range
    request from the cache or from the provider; \<open>Sfu\<close>: \<open>media/mediasoup-runtime.ts\<close> and
    \<open>handlers/local-media-sfu.ts\<close>, the channels between the tabs.
  \<^item> Remote media.  \<open>Hls_Rewrite\<close>: \<open>media/hls-proxy-rewrite.ts\<close>, against the structure of a playlist;
    \<open>Media_Proxy\<close>: \<open>proxy-token.ts\<close>, \<open>resolve/relay-urls.ts\<close>, \<open>hls-rewrite-cache.ts\<close> and \<open>http/proxy.ts\<close>.  The
    state of the proxy is the tokens and URLs in Redis, the limiter, the cache and the trace of its fetches.
  \<^item> The browser.  \<open>Session_Identity\<close>: \<open>client/realtime/session-identity.ts\<close> and \<open>control-url.ts\<close>;
    \<open>Control_Token\<close>: \<open>control-token-client.ts\<close>; \<open>Room_Client\<close>: \<open>room-join-client.ts\<close>,
    \<open>room-socket-connection.ts\<close>, \<open>room-socket-dispatcher.ts\<close>, with \<open>Room_Client_Properties\<close>.  A client is
    one record, the events of the browser and the network are its steps.  \<open>Player_Clock\<close>
    (\<open>shared/server-clock.ts\<close>, \<open>client/player/playback-sync.ts\<close>), \<open>Native_Sync\<close>
    (\<open>native-provider-sync.ts\<close>), \<open>Player_Apply\<close> (\<open>apply-playback-sync.ts\<close>) and \<open>Sync_Engine\<close>
    (\<open>playback-sync-engine.ts\<close>) hold a player to the room; \<open>Sync_Properties\<close> has what they guarantee.

  What the groups of lemmas show.  Every operation on a room preserves \<open>room_wf\<close> (collected in
  \<open>wf_intros\<close>); each playlist, playback, role, password and ownership operation has the functional
  behaviour its comment promises, on every branch; the transaction loses no update of a concurrent
  writer; a join admits exactly whom the room's password, identity secret and token let in; a
  disconnect and the sweep move ownership, mark members offline and remove rooms when, and only
  when, nobody uses them; the batches of the bus deliver the newest presence; the client never goes
  back to an older control state; rate limits bound the traffic they meter; a range request is
  answered with the bytes of the provider, whatever the cache holds; every reachable server state is
  well-formed; of the workers that look up a URL at most one has a lock confirmed within its life (the
  field \<open>wk_renewed\<close>, a ghost, is the time of that confirmation).  A client is never left without a socket or the timer that brings one, joins again after
  a lost connection, and sends what the server's schema accepts; an identity handed over by a link
  arrives whole.  A proxy path leads to its URL and nowhere into a private network, and a rewritten playlist
  leads through the proxy only.  A late joiner is brought to the room's time, a paused room stops its players, a
  player in step is left alone.  The properties that name a defect are listed as findings in the manifest.

  Bounds and fuel.  The retry loop of \<open>updateRoom\<close> is bounded by its own attempt count (the code's
  constant, 24); the loops over lists are structural.  The deletion of a local file recurses over
  stored data and may not end, and so does the stream of a range of blocks: both are a
  \<open>partial_function (option)\<close>, where \<open>None\<close> is not returning; that they return on ordered stores, and for
  blocks that advance, are theorems.  The queue of a socket holds at most 64 frames and the duplicate filter
  10000 identifiers of the last three seconds, as in the code; the budgets of the sync engine are its 6 and 8
  seeks.

  Idealisations.  Numbers are reals without rounding, \<open>NaN\<close> and infinities where a schema has
  checked them (the player's own numbers keep them: \<open>js_number\<close>); strings are code units below 256,
  code points in \<open>Media_Frames\<close>; the clock and fresh identifiers are
  arguments; a handler and an operation of the engine read one clock value; awaits inside a handler are
  atomic except where a definition takes the interference as an argument (\<open>je_during\<close>, the writers of
  \<open>Room_Store\<close>, the steps between the parts of a publish in \<open>Local_Media\<close>); in the browser an operation
  with a wait is a start and an end, with any events in between.  \<open>JSON.parse\<close> of a frame, SHA-256, scrypt,
  HMAC, the ciphers, the URL parser, \<open>isIP\<close>, the name lookup, the URL and UUID grammars of the validation
  library, the SFU library, the media resolver and the answers of a player or a browser are parameters.

  Not modelled: React components, hooks and pages (presentation); the catalog of the media resolver, the
  yt-dlp process; the HTTP routes of local files and their signed tokens; WebRTC, file handles and the service worker in the
  browser; the Redis client and the pub/sub transport (glue around the commands that are modelled); scripts and
  tests.
\<close>

end
